(* ===== verification/Base_Prelude.thy ===== *)
theory Base_Prelude
  imports Main "HOL-Library.Multiset"
begin

text \<open>
  What the components share: the library's integer conventions
  (\<^verbatim>\<open>NSUInteger\<close> as \<^typ>\<open>nat\<close> with the 64-bit wrap-around written out),
  \<^verbatim>\<open>NSComparisonResult\<close> with its numeric order, the contract every comparison
  function passed to the containers and sorts has to keep (a locale), the notion of a
  sorted array under such a comparison, and generic lemmas on lists used as C arrays.
\<close>

section \<open>Collections of lemmas\<close>

named_theorems bounds_simps \<open>rewrites that drop the 64-bit wrap-around when the operands fit\<close>
named_theorems mset_swap_simps \<open>multisets of arrays under cell updates\<close>

named_theorems eval_simps \<open>list operations at numeral positions, to evaluate closed terms\<close>

lemma replicate_numeral [eval_simps]: "replicate (numeral k) x = x # replicate (pred_numeral k) x"
  by (simp add: numeral_eq_Suc)

lemma list_update_numeral [eval_simps]: "(y # ys)[numeral k := x] = y # ys[pred_numeral k := x]"
  by (simp add: numeral_eq_Suc)

section \<open>Machine integers\<close>

type_synonym NSUInteger = nat
type_synonym NSInteger = int

abbreviation UINT_SPAN :: nat where "UINT_SPAN \<equiv> 2 ^ 64"
abbreviation SIZE_MAX :: nat where "SIZE_MAX \<equiv> 2 ^ 64 - 1"
abbreviation NSNotFound :: nat where "NSNotFound \<equiv> 2 ^ 63 - 1"
abbreviation SIZEOF_ID :: nat where "SIZEOF_ID \<equiv> 8"

definition uadd :: "NSUInteger \<Rightarrow> NSUInteger \<Rightarrow> NSUInteger" where
  "uadd a b = (a + b) mod UINT_SPAN"

definition usub :: "NSUInteger \<Rightarrow> NSUInteger \<Rightarrow> NSUInteger" where
  "usub a b = (a + UINT_SPAN - b) mod UINT_SPAN"

definition umul :: "NSUInteger \<Rightarrow> NSUInteger \<Rightarrow> NSUInteger" where
  "umul a b = (a * b) mod UINT_SPAN"

text \<open>A two's complement 64-bit value read back from an exact integer.\<close>

definition sint64 :: "int \<Rightarrow> NSInteger" where
  "sint64 x = (x + 2 ^ 63) mod 2 ^ 64 - 2 ^ 63"

definition sint32 :: "int \<Rightarrow> int" where
  "sint32 x = (x + 2 ^ 31) mod 2 ^ 32 - 2 ^ 31"

lemma sint32_fits [bounds_simps]: "- (2 ^ 31) \<le> x \<Longrightarrow> x < 2 ^ 31 \<Longrightarrow> sint32 x = x"
  by (simp add: sint32_def)

definition u32 :: "nat \<Rightarrow> nat" where
  "u32 x = x mod 2 ^ 32"

lemma u32_fits [bounds_simps]: "x < 2 ^ 32 \<Longrightarrow> u32 x = x"
  by (simp add: u32_def)

lemma uadd_fits [bounds_simps]: "a + b < UINT_SPAN \<Longrightarrow> uadd a b = a + b"
  by (simp add: uadd_def)

lemma usub_fits [bounds_simps]: "b \<le> a \<Longrightarrow> a < UINT_SPAN \<Longrightarrow> usub a b = a - b"
  by (simp add: usub_def mod_if)

lemma umul_fits [bounds_simps]: "a * b < UINT_SPAN \<Longrightarrow> umul a b = a * b"
  by (simp add: umul_def)

lemma uadd_less [simp]: "uadd a b < UINT_SPAN"
  by (simp add: uadd_def)

lemma sint64_fits [bounds_simps]: "- (2 ^ 63) \<le> x \<Longrightarrow> x < 2 ^ 63 \<Longrightarrow> sint64 x = x"
  by (simp add: sint64_def)

section \<open>Comparison results\<close>

datatype NSComparisonResult = NSOrderedAscending | NSOrderedSame | NSOrderedDescending

fun comparison_value :: "NSComparisonResult \<Rightarrow> int" where
  "comparison_value NSOrderedAscending = -1"
| "comparison_value NSOrderedSame = 0"
| "comparison_value NSOrderedDescending = 1"

lemma comparison_value_inj: "comparison_value a = comparison_value b \<longleftrightarrow> a = b"
  by (cases a; cases b) simp_all

instantiation NSComparisonResult :: linorder
begin

definition less_eq_NSComparisonResult :: "NSComparisonResult \<Rightarrow> NSComparisonResult \<Rightarrow> bool" where
  "less_eq_NSComparisonResult a b \<longleftrightarrow> comparison_value a \<le> comparison_value b"

definition less_NSComparisonResult :: "NSComparisonResult \<Rightarrow> NSComparisonResult \<Rightarrow> bool" where
  "less_NSComparisonResult a b \<longleftrightarrow> comparison_value a < comparison_value b"

instance
  by standard
    (auto simp: less_eq_NSComparisonResult_def less_NSComparisonResult_def comparison_value_inj)

end

fun comparison_invert :: "NSComparisonResult \<Rightarrow> NSComparisonResult" where
  "comparison_invert NSOrderedAscending = NSOrderedDescending"
| "comparison_invert NSOrderedSame = NSOrderedSame"
| "comparison_invert NSOrderedDescending = NSOrderedAscending"

lemma comparison_invert_invert [simp]: "comparison_invert (comparison_invert r) = r"
  by (cases r) simp_all

lemma comparison_invert_iff [simp]:
  "comparison_invert r = NSOrderedAscending \<longleftrightarrow> r = NSOrderedDescending"
  "comparison_invert r = NSOrderedSame \<longleftrightarrow> r = NSOrderedSame"
  "comparison_invert r = NSOrderedDescending \<longleftrightarrow> r = NSOrderedAscending"
  by (cases r; simp)+

lemma comparison_neg_iff: "comparison_value r < 0 \<longleftrightarrow> r = NSOrderedAscending"
  by (cases r) simp_all

type_synonym 'a comparison = "'a \<Rightarrow> 'a \<Rightarrow> NSComparisonResult"

text \<open>The comparison the library uses on numbers (\<^verbatim>\<open>-[NSNumber compare:]\<close> on integers).\<close>

definition integer_compare :: "int comparison" where
  "integer_compare a b =
     (if a < b then NSOrderedAscending else if a > b then NSOrderedDescending else NSOrderedSame)"

definition not_after :: "'a comparison \<Rightarrow> 'a \<Rightarrow> 'a \<Rightarrow> bool" where
  "not_after cmp a b \<longleftrightarrow> cmp a b \<noteq> NSOrderedDescending"

definition ordered_by :: "'a comparison \<Rightarrow> 'a list \<Rightarrow> bool" where
  "ordered_by cmp xs \<longleftrightarrow> sorted_wrt (not_after cmp) xs"

text \<open>The elements of a list that tie with a given one, in their order: what a stable sort keeps.\<close>

definition ties :: "'a comparison \<Rightarrow> 'a \<Rightarrow> 'a list \<Rightarrow> 'a list" where
  "ties cmp a xs = filter (\<lambda>x. cmp a x = NSOrderedSame) xs"

section \<open>The contract of a comparison function\<close>

text \<open>
  Every comparison handed to the containers (a selector such as \<^verbatim>\<open>compare:\<close>, a
  comparator block or a C function) has to be a total preorder on the objects it is given.
  \<open>ok\<close> picks out those objects: the decimals of \<^verbatim>\<open>NSDecimal\<close>, for instance, are only
  comparable when their digits are digits.
\<close>

locale comparator_laws =
  fixes ok :: "'a \<Rightarrow> bool" and cmp :: "'a comparison"
  assumes cmp_self: "ok a \<Longrightarrow> cmp a a = NSOrderedSame"
    and cmp_swap: "ok a \<Longrightarrow> ok b \<Longrightarrow> cmp b a = comparison_invert (cmp a b)"
    and cmp_trans: "ok a \<Longrightarrow> ok b \<Longrightarrow> ok c \<Longrightarrow>
      not_after cmp a b \<Longrightarrow> not_after cmp b c \<Longrightarrow> not_after cmp a c"
begin

lemma not_after_refl: "ok a \<Longrightarrow> not_after cmp a a"
  by (simp add: not_after_def cmp_self)

lemma not_after_total: "ok a \<Longrightarrow> ok b \<Longrightarrow> not_after cmp a b \<or> not_after cmp b a"
  using cmp_swap [of a b] by (auto simp: not_after_def)

lemma ascending_iff: "ok a \<Longrightarrow> ok b \<Longrightarrow> cmp a b = NSOrderedAscending \<longleftrightarrow> \<not> not_after cmp b a"
  using cmp_swap [of a b] by (auto simp: not_after_def)

lemma descending_iff: "cmp a b = NSOrderedDescending \<longleftrightarrow> \<not> not_after cmp a b"
  by (simp add: not_after_def)

lemma same_iff: "ok a \<Longrightarrow> ok b \<Longrightarrow>
    cmp a b = NSOrderedSame \<longleftrightarrow> not_after cmp a b \<and> not_after cmp b a"
  using cmp_swap [of a b] by (cases "cmp a b") (auto simp: not_after_def)

lemma ascending_not_after: "cmp a b = NSOrderedAscending \<Longrightarrow> not_after cmp a b"
  by (simp add: not_after_def)

lemma before_trans:
  assumes "ok a" "ok b" "ok c" and "cmp a b = NSOrderedAscending" and "not_after cmp b c"
  shows "cmp a c = NSOrderedAscending"
  using assms cmp_trans [of b c a] by (auto simp: ascending_iff)

lemma before_trans':
  assumes "ok a" "ok b" "ok c" and "not_after cmp a b" and "cmp b c = NSOrderedAscending"
  shows "cmp a c = NSOrderedAscending"
  using assms cmp_trans [of c a b] by (auto simp: ascending_iff)

end

interpretation integers: comparator_laws "\<lambda>_. True" integer_compare
  by unfold_locales (auto simp: integer_compare_def not_after_def split: if_splits)

text \<open>
  \<open>nil\<close> in an array of objects: a message to \<open>nil\<close> answers zero, so a comparison that
  involves it is \<^verbatim>\<open>NSOrderedSame\<close>.
\<close>

fun id_compare :: "'a comparison \<Rightarrow> 'a option comparison" where
  "id_compare cmp (Some a) (Some b) = cmp a b"
| "id_compare cmp _ _ = NSOrderedSame"

fun ok_id :: "('a \<Rightarrow> bool) \<Rightarrow> 'a option \<Rightarrow> bool" where
  "ok_id ok (Some a) = ok a"
| "ok_id ok None = False"

lemma ok_idE: "ok_id ok x \<Longrightarrow> (\<And>a. x = Some a \<Longrightarrow> ok a \<Longrightarrow> P) \<Longrightarrow> P"
  by (cases x) auto

text \<open>A container of objects compares its cells, which may be \<open>nil\<close>, through \<open>id_compare\<close>.\<close>

locale object_comparator = comparator_laws ok cmp for ok :: "'a \<Rightarrow> bool" and cmp :: "'a comparison"

sublocale object_comparator \<subseteq> ids: comparator_laws "ok_id ok" "id_compare cmp"
proof unfold_locales
  fix a b c :: "'a option"
  show "ok_id ok a \<Longrightarrow> id_compare cmp a a = NSOrderedSame"
    by (auto elim!: ok_idE simp: cmp_self)
  show "ok_id ok a \<Longrightarrow> ok_id ok b \<Longrightarrow> id_compare cmp b a = comparison_invert (id_compare cmp a b)"
    by (auto elim!: ok_idE intro: cmp_swap)
  show "ok_id ok a \<Longrightarrow> ok_id ok b \<Longrightarrow> ok_id ok c \<Longrightarrow> not_after (id_compare cmp) a b \<Longrightarrow>
      not_after (id_compare cmp) b c \<Longrightarrow> not_after (id_compare cmp) a c"
    by (auto elim!: ok_idE simp: not_after_def dest: cmp_trans [unfolded not_after_def])
qed

interpretation integer_objects: object_comparator "\<lambda>_. True" integer_compare
  by unfold_locales

section \<open>Lists as C arrays\<close>

text \<open>\<^verbatim>\<open>memcpy\<close> and \<^verbatim>\<open>memmove\<close> of \<open>k\<close> cells from \<open>src\<close> at \<open>s\<close> to \<open>dst\<close> at \<open>d\<close>.\<close>

definition copy_cells :: "'a list \<Rightarrow> nat \<Rightarrow> 'a list \<Rightarrow> nat \<Rightarrow> nat \<Rightarrow> 'a list" where
  "copy_cells dst d src s k = take d dst @ take k (drop s src) @ drop (d + k) dst"

lemma length_copy_cells [simp]:
  "d + k \<le> length dst \<Longrightarrow> s + k \<le> length src \<Longrightarrow> length (copy_cells dst d src s k) = length dst"
  by (simp add: copy_cells_def)

lemma mset_move [mset_swap_simps]:
  assumes "i < length xs" and "j < length xs" and "i \<noteq> j"
  shows "mset (xs[i := xs ! j, j := v]) = mset (xs[i := v])"
  using assms mset_swap [of j "xs[i := v]" i] by (simp add: list_update_swap)

lemma takeWhile_prefix: "i < length (takeWhile P xs) \<Longrightarrow> P (xs ! i)"
  by (metis nth_mem set_takeWhileD takeWhile_nth)

lemma count_one_unique:
  assumes "count (mset xs) a = 1" "i < length xs" "j < length xs" "xs ! i = a" "xs ! j = a"
  shows "i = j"
proof (rule ccontr)
  assume "i \<noteq> j"
  then have "2 = card {i, j}" by simp
  also have "\<dots> \<le> card {k. k < length xs \<and> xs ! k = a}"
    using assms by (intro card_mono) auto
  also have "\<dots> = length (filter (\<lambda>x. x = a) xs)" by (simp add: length_filter_conv_card)
  also have "\<dots> = count (mset xs) a" by (induction xs) auto
  finally show False using assms(1) by simp
qed

lemma ordered_by_Nil [simp]: "ordered_by cmp []"
  by (simp add: ordered_by_def)

lemma ordered_by_single [simp]: "ordered_by cmp [x]"
  by (simp add: ordered_by_def)

lemma ordered_by_Cons:
  "ordered_by cmp (x # xs) \<longleftrightarrow> (\<forall>y \<in> set xs. not_after cmp x y) \<and> ordered_by cmp xs"
  by (simp add: ordered_by_def)

lemma ordered_by_append:
  "ordered_by cmp (xs @ ys) \<longleftrightarrow>
     ordered_by cmp xs \<and> ordered_by cmp ys \<and> (\<forall>x \<in> set xs. \<forall>y \<in> set ys. not_after cmp x y)"
  by (auto simp: ordered_by_def sorted_wrt_append)

lemma ordered_by_nth:
  "ordered_by cmp xs \<Longrightarrow> i < j \<Longrightarrow> j < length xs \<Longrightarrow> not_after cmp (xs ! i) (xs ! j)"
  by (simp add: ordered_by_def sorted_wrt_nth_less)

lemma ties_Nil [simp]: "ties cmp a [] = []"
  by (simp add: ties_def)

lemma ties_Cons [simp]:
  "ties cmp a (x # xs) = (if cmp a x = NSOrderedSame then x # ties cmp a xs else ties cmp a xs)"
  by (simp add: ties_def)

lemma ties_append [simp]: "ties cmp a (xs @ ys) = ties cmp a xs @ ties cmp a ys"
  by (simp add: ties_def)

lemma take_drop_split: "i \<le> j \<Longrightarrow> take j xs = take i xs @ take (j - i) (drop i xs)"
  by (metis le_add_diff_inverse take_add)

end
