(* ===== verification/Min_Heap.thy ===== *)
theory Min_Heap
  imports Base_Prelude
begin

text \<open>
  \<^verbatim>\<open>Source/Additions/GSMinHeap.m\<close>: a binary heap in a C array of objects. The array
  holds \<open>nil\<close> (\<open>None\<close>) in the cells above \<open>hsize\<close> that were vacated; the
  comparison function of the heap is kept in its structure, as in the code. Growing the
  array asks the allocator, which is a parameter \<open>alloc\<close>: whether a request for so many
  bytes succeeds.
\<close>

section \<open>The structure and its operations\<close>

record 'a MinHeapInternal =
  data :: "'a option list"
  hsize :: nat
  capacity :: nat
  hcompare :: "'a comparison"

definition heap_resize :: "(nat \<Rightarrow> bool) \<Rightarrow> 'a MinHeapInternal \<Rightarrow> bool \<times> 'a MinHeapInternal" where
  "heap_resize alloc h =
     (if umul (capacity h) SIZEOF_ID > SIZE_MAX div 2 then (False, h)
      else let want = (if capacity h > 1024 * 16 then umul (capacity h) 3 div 2
                       else capacity h * 2)
           in if \<not> alloc (umul SIZEOF_ID want) then (False, h)
              else (True, h\<lparr>capacity := want,
                            data := data h @ replicate (want - length (data h)) None\<rparr>))"

text \<open>
  The two loops of the heap. \<open>sift_up\<close> moves the hole at \<open>i\<close> towards the root and
  \<open>sift_down\<close> towards the leaves, until \<open>value\<close> fits; both answer the array with the
  hole and its index.
\<close>

definition parent :: "nat \<Rightarrow> nat" where
  "parent i = (i - 1) div 2"

lemma parent_less [simp]: "0 < i \<Longrightarrow> parent i < i"
  by (simp add: parent_def)

lemma parent_less' [simp]: "0 < i \<Longrightarrow> i < n \<Longrightarrow> parent i < n"
  using parent_less by (rule less_trans)

lemma parent_neq [simp]: "0 < i \<Longrightarrow> parent i \<noteq> i" "0 < i \<Longrightarrow> i \<noteq> parent i"
  by (metis less_irrefl parent_less)+

lemma parent_children: "0 < j \<Longrightarrow> parent j = k \<longleftrightarrow> j = 2 * k + 1 \<or> j = 2 * k + 2"
  unfolding parent_def by arith

function sift_up :: "'b comparison \<Rightarrow> 'b list \<Rightarrow> nat \<Rightarrow> 'b \<Rightarrow> 'b list \<times> nat" where
  "sift_up cmp d i value =
     (if i > 0 then
        if cmp (d ! parent i) value \<noteq> NSOrderedDescending then (d, i)
        else sift_up cmp (d[i := d ! parent i]) (parent i) value
      else (d, i))"
  by pat_completeness auto
termination
  by (relation "measure (\<lambda>(cmp, d, i, value). i)") auto

text \<open>The lesser of the two children of \<open>i\<close>, the left one on a tie.\<close>

definition lesser_child :: "'b comparison \<Rightarrow> nat \<Rightarrow> 'b list \<Rightarrow> nat \<Rightarrow> nat" where
  "lesser_child cmp n d i =
     (let left = 2 * i + 1; right = left + 1
      in if right < n \<and> cmp (d ! right) (d ! left) = NSOrderedAscending then right else left)"

lemma lesser_child_bounds: "i < lesser_child cmp n d i"
  by (simp add: lesser_child_def Let_def)

function sift_down :: "'b comparison \<Rightarrow> nat \<Rightarrow> 'b list \<Rightarrow> nat \<Rightarrow> 'b \<Rightarrow> 'b list \<times> nat" where
  "sift_down cmp n d i value =
     (if 2 * i + 1 \<ge> n then (d, i)
      else let child = lesser_child cmp n d i
           in if cmp (d ! child) value \<noteq> NSOrderedAscending then (d, i)
              else sift_down cmp n (d[i := d ! child]) child value)"
  by pat_completeness auto
termination
proof (relation "measure (\<lambda>(cmp, n, d, i, value). n - i)", goal_cases)
  case (2 cmp n d i v child)
  then show ?case using lesser_child_bounds [of i cmp n d] by auto
qed simp

declare sift_up.simps [simp del] sift_down.simps [simp del]

definition heap_pop :: "'a MinHeapInternal \<Rightarrow> 'a option \<times> 'a MinHeapInternal" where
  "heap_pop h =
     (if hsize h = 0 then (None, h)
      else let result = data h ! 0; n = hsize h - 1
           in if n > 0 then
                let value = data h ! n;
                    (d, i) = sift_down (id_compare (hcompare h)) n ((data h)[n := None]) 0 value
                in (result, h\<lparr>hsize := n, data := d[i := value]\<rparr>)
              else (result, h\<lparr>hsize := n, data := (data h)[0 := None]\<rparr>))"

definition heap_push :: "(nat \<Rightarrow> bool) \<Rightarrow> 'a MinHeapInternal \<Rightarrow> 'a \<Rightarrow> bool \<times> 'a MinHeapInternal" where
  "heap_push alloc h0 value =
     (let (fits, h) = (if hsize h0 = capacity h0 then heap_resize alloc h0 else (True, h0))
      in if \<not> fits then (False, h0)
         else let (d, i) = sift_up (id_compare (hcompare h)) (data h) (hsize h) (Some value)
              in (True, h\<lparr>hsize := hsize h + 1, data := d[i := Some value]\<rparr>))"

definition heap_remove :: "'a MinHeapInternal \<Rightarrow> nat \<Rightarrow> 'a option \<times> 'a MinHeapInternal" where
  "heap_remove h index =
     (if index \<ge> hsize h then (None, h)
      else let result = data h ! index; n = hsize h - 1
           in if n = index then (result, h\<lparr>hsize := n, data := (data h)[index := None]\<rparr>)
              else let cmp = id_compare (hcompare h);
                       value = data h ! n;
                       (d, i) = sift_up cmp ((data h)[n := None]) index value
                   in if i \<noteq> index then (result, h\<lparr>hsize := n, data := d[i := value]\<rparr>)
                      else let (d', i') = sift_down cmp n d i value
                           in (result, h\<lparr>hsize := n, data := d'[i' := value]\<rparr>))"

text \<open>
  The methods of \<^verbatim>\<open>GSMinHeap\<close>. Loops of the form \<^verbatim>\<open>while (index-- > 0)\<close> are recursions
  on \<open>index\<close>; \<^verbatim>\<open>isEqual:\<close> is the parameter \<open>eq\<close> and pointer identity is HOL equality.
\<close>

fun find_down :: "('a \<Rightarrow> bool) \<Rightarrow> 'a option list \<Rightarrow> nat \<Rightarrow> bool" where
  "find_down p d 0 = False"
| "find_down p d (Suc index) =
     (case d ! index of Some x \<Rightarrow> p x \<or> find_down p d index | None \<Rightarrow> find_down p d index)"

definition containsObject :: "('a \<Rightarrow> 'a \<Rightarrow> bool) \<Rightarrow> 'a MinHeapInternal \<Rightarrow> 'a \<Rightarrow> bool" where
  "containsObject eq h obj = find_down (eq obj) (data h) (hsize h)"

definition containsObjectIdenticalTo :: "'a MinHeapInternal \<Rightarrow> 'a \<Rightarrow> bool" where
  "containsObjectIdenticalTo h obj = find_down (\<lambda>x. obj = x) (data h) (hsize h)"

definition heap_count :: "'a MinHeapInternal \<Rightarrow> nat" where
  "heap_count h = hsize h"

fun empty_cells :: "'a option list \<Rightarrow> nat \<Rightarrow> nat \<Rightarrow> 'a option list" where
  "empty_cells d i 0 = d"
| "empty_cells d i (Suc k) = empty_cells (d[i := None]) (Suc i) k"

definition heap_empty :: "'a MinHeapInternal \<Rightarrow> 'a MinHeapInternal" where
  "heap_empty h = h\<lparr>data := empty_cells (data h) 0 (hsize h), hsize := 0\<rparr>"

definition initWithCapacity :: "(nat \<Rightarrow> bool) \<Rightarrow> 'a comparison \<Rightarrow> nat \<Rightarrow> 'a comparison option \<Rightarrow>
    'a MinHeapInternal option" where
  "initWithCapacity alloc default_compare cap cmp =
     (let cap' = (if cap < 1 then 1 else cap);
          cmp' = (case cmp of None \<Rightarrow> default_compare | Some f \<Rightarrow> f)
      in if \<not> alloc (SIZEOF_ID * cap') then None
         else Some \<lparr>data = replicate cap' None, hsize = 0, capacity = cap', hcompare = cmp'\<rparr>)"

definition heap_drop :: "'a MinHeapInternal \<Rightarrow> 'a MinHeapInternal" where
  "heap_drop h = (if hsize h > 0 then snd (heap_pop h) else h)"

definition heap_peek :: "'a MinHeapInternal \<Rightarrow> 'a option" where
  "heap_peek h = (if hsize h = 0 then None else data h ! 0)"

definition heap_next :: "'a MinHeapInternal \<Rightarrow> 'a option \<times> 'a MinHeapInternal" where
  "heap_next h =
     (let h' = (if hsize h > 0 then snd (heap_pop h) else h)
      in if hsize h' = 0 then (None, h') else (data h' ! 0, h'))"

text \<open>\<^verbatim>\<open>-push:\<close> takes an object or \<open>nil\<close>.\<close>

definition push :: "(nat \<Rightarrow> bool) \<Rightarrow> 'a MinHeapInternal \<Rightarrow> 'a option \<Rightarrow> bool \<times> 'a MinHeapInternal" where
  "push alloc h obj = (case obj of None \<Rightarrow> (False, h) | Some x \<Rightarrow> heap_push alloc h x)"

definition pushIfNotPresent ::
  "(nat \<Rightarrow> bool) \<Rightarrow> 'a MinHeapInternal \<Rightarrow> 'a option \<Rightarrow> bool \<times> 'a MinHeapInternal" where
  "pushIfNotPresent alloc h obj =
     (case obj of None \<Rightarrow> (False, h)
      | Some x \<Rightarrow> if find_down (\<lambda>y. x = y) (data h) (hsize h) then (True, h)
                  else heap_push alloc h x)"

fun remove_down :: "('a \<Rightarrow> bool) \<Rightarrow> 'a MinHeapInternal \<Rightarrow> nat \<Rightarrow> 'a MinHeapInternal" where
  "remove_down p h 0 = h"
| "remove_down p h (Suc index) =
     remove_down p
       (case data h ! index of Some x \<Rightarrow> if p x then snd (heap_remove h index) else h | None \<Rightarrow> h)
       index"

definition removeObject :: "('a \<Rightarrow> 'a \<Rightarrow> bool) \<Rightarrow> 'a MinHeapInternal \<Rightarrow> 'a \<Rightarrow> 'a MinHeapInternal" where
  "removeObject eq h obj = remove_down (eq obj) h (hsize h)"

definition removeObjectIdenticalTo :: "'a MinHeapInternal \<Rightarrow> 'a \<Rightarrow> 'a MinHeapInternal" where
  "removeObjectIdenticalTo h obj = remove_down (\<lambda>x. obj = x) h (hsize h)"

fun reposition_down :: "'a \<Rightarrow> 'a MinHeapInternal \<Rightarrow> nat \<Rightarrow> 'a option \<Rightarrow> 'a option \<times> 'a MinHeapInternal" where
  "reposition_down obj h 0 found = (found, h)"
| "reposition_down obj h (Suc index) found =
     (if data h ! index = Some obj then
        let (x, h') = heap_remove h index
        in reposition_down obj h' index (if found = None then x else found)
      else reposition_down obj h index found)"

definition repositionObject ::
  "(nat \<Rightarrow> bool) \<Rightarrow> 'a MinHeapInternal \<Rightarrow> 'a \<Rightarrow> 'a option \<times> 'a MinHeapInternal" where
  "repositionObject alloc h obj =
     (case reposition_down obj h (hsize h) None of
        (None, h') \<Rightarrow> (None, h')
      | (Some x, h') \<Rightarrow> (Some x, snd (heap_push alloc h' x)))"

section \<open>Heap order\<close>

definition heap_order :: "'b comparison \<Rightarrow> 'b list \<Rightarrow> nat \<Rightarrow> bool" where
  "heap_order cmp d n \<longleftrightarrow> (\<forall>j<n. 0 < j \<longrightarrow> not_after cmp (d ! parent j) (d ! j))"

text \<open>
  The array is ordered but for the cell \<open>k\<close>, the hole: every edge of the tree that does
  not touch \<open>k\<close> is ordered, and so is every path of two edges through it.
\<close>

definition hole_order :: "'b comparison \<Rightarrow> 'b list \<Rightarrow> nat \<Rightarrow> nat \<Rightarrow> bool" where
  "hole_order cmp d n k \<longleftrightarrow>
     (\<forall>j<n. 0 < j \<longrightarrow> j \<noteq> k \<longrightarrow> parent j \<noteq> k \<longrightarrow> not_after cmp (d ! parent j) (d ! j)) \<and>
     (\<forall>j<n. 0 < j \<longrightarrow> parent j = k \<longrightarrow> 0 < k \<longrightarrow> not_after cmp (d ! parent k) (d ! j))"

definition cells_ok :: "('b \<Rightarrow> bool) \<Rightarrow> 'b list \<Rightarrow> nat \<Rightarrow> nat \<Rightarrow> bool" where
  "cells_ok ok d n k \<longleftrightarrow> n \<le> length d \<and> (\<forall>j<n. j \<noteq> k \<longrightarrow> ok (d ! j))"

lemma take_list_update_less: "take n (xs[i := v]) = (take n xs)[i := v]"
  by (rule take_update_swap)

lemma mset_take_move:
  assumes "n \<le> length d" "i < n" "j < n" "i \<noteq> j"
  shows "mset (take n (d[i := d ! j, j := v])) = mset (take n (d[i := v]))"
  using assms mset_move [of i "take n d" j v] by (simp add: take_list_update_less)

lemma hole_order_update [simp]: "hole_order cmp (d[k := v]) n k = hole_order cmp d n k"
  by (auto simp: hole_order_def nth_list_update)

lemma cells_ok_update [simp]: "cells_ok ok (d[k := v]) n k = cells_ok ok d n k"
  by (auto simp: cells_ok_def)

text \<open>Filling the hole.\<close>

lemma fill_hole:
  assumes "hole_order cmp d n k" and "k < n" and "n \<le> length d"
    and "0 < k \<Longrightarrow> not_after cmp (d ! parent k) v"
    and "\<And>j. j < n \<Longrightarrow> 0 < j \<Longrightarrow> parent j = k \<Longrightarrow> not_after cmp v (d ! j)"
  shows "heap_order cmp (d[k := v]) n"
  unfolding heap_order_def
proof (intro allI impI)
  fix j assume j: "j < n" "0 < j"
  then have "parent j \<noteq> j" by simp
  then show "not_after cmp (d[k := v] ! parent j) (d[k := v] ! j)"
    using assms j by (cases "j = k"; cases "parent j = k") (auto simp: hole_order_def nth_list_update)
qed

lemma heap_order_hole:
  assumes "heap_order cmp d n" and "k < n"
    and tr: "\<And>a b c. a < n \<Longrightarrow> b < n \<Longrightarrow> c < n \<Longrightarrow> not_after cmp (d ! a) (d ! b) \<Longrightarrow>
      not_after cmp (d ! b) (d ! c) \<Longrightarrow> not_after cmp (d ! a) (d ! c)"
  shows "hole_order cmp d n k"
  unfolding hole_order_def
proof (intro conjI allI impI)
  fix j assume j: "j < n" "0 < j"
  then show "j \<noteq> k \<Longrightarrow> parent j \<noteq> k \<Longrightarrow> not_after cmp (d ! parent j) (d ! j)"
    using assms(1) by (simp add: heap_order_def)
  assume "parent j = k" "0 < k"
  moreover have "parent k < n" using assms(2) \<open>0 < k\<close> by simp
  moreover have "not_after cmp (d ! parent j) (d ! j)" "not_after cmp (d ! parent k) (d ! k)"
    using assms(1,2) j \<open>0 < k\<close> by (auto simp: heap_order_def)
  ultimately show "not_after cmp (d ! parent k) (d ! j)"
    using tr [of "parent k" k j] j assms(2) by simp
qed

lemma root_least:
  assumes "heap_order cmp d n" "j < n"
    and rf: "\<And>a. a < n \<Longrightarrow> not_after cmp (d ! a) (d ! a)"
    and tr: "\<And>a b c. a < n \<Longrightarrow> b < n \<Longrightarrow> c < n \<Longrightarrow> not_after cmp (d ! a) (d ! b) \<Longrightarrow>
      not_after cmp (d ! b) (d ! c) \<Longrightarrow> not_after cmp (d ! a) (d ! c)"
  shows "not_after cmp (d ! 0) (d ! j)"
  using assms(2)
proof (induction j rule: less_induct)
  case (less j)
  show ?case
  proof (cases "j = 0")
    case True
    with less.prems rf show ?thesis by simp
  next
    case False
    then have "parent j < j" by simp
    with less have "not_after cmp (d ! 0) (d ! parent j)" by simp
    moreover have "not_after cmp (d ! parent j) (d ! j)"
      using assms(1) less.prems False by (simp add: heap_order_def)
    ultimately show ?thesis
      using tr [of 0 "parent j" j] less.prems \<open>parent j < j\<close> by simp
  qed
qed

section \<open>The sifting loops\<close>

context comparator_laws
begin

lemma sift_up_bounds:
  "sift_up cmp d k v = (d', i) \<Longrightarrow> i \<le> k \<and> length d' = length d \<and> (i = k \<longrightarrow> d' = d)"
proof (induction cmp d k v arbitrary: d' i rule: sift_up.induct)
  case (1 cmp d k v)
  show ?case
  proof (cases "k > 0 \<and> cmp (d ! parent k) v = NSOrderedDescending")
    case True
    with "1.prems" have rec: "sift_up cmp (d[k := d ! parent k]) (parent k) v = (d', i)"
      by (simp add: sift_up.simps [of cmp d k v] Let_def)
    from True have "parent k < k" by simp
    with "1.IH" [OF _ _ rec] True show ?thesis by auto
  next
    case False
    then have "sift_up cmp d k v = (d, k)" by (auto simp: sift_up.simps [of cmp d k v] Let_def)
    with "1.prems" show ?thesis by simp
  qed
qed

lemma sift_up_moved:
  assumes "sift_up cmp d k v = (d', i)" and "0 < k"
  shows "i = k \<longleftrightarrow> not_after cmp (d ! parent k) v"
proof (cases "not_after cmp (d ! parent k) v")
  case True
  with assms show ?thesis by (simp add: sift_up.simps [of cmp d k v] Let_def not_after_def)
next
  case False
  then have "sift_up cmp (d[k := d ! parent k]) (parent k) v = (d', i)"
    using assms by (simp add: sift_up.simps [of cmp d k v] Let_def not_after_def)
  then have "i \<le> parent k" using sift_up_bounds by blast
  then have "i \<noteq> k" using parent_less [OF assms(2)] by linarith
  with False show ?thesis by simp
qed

lemma sift_up_order:
  assumes "sift_up cmp d k v = (d', i)" and "hole_order cmp d n k" and "k < n"
    and "cells_ok ok d n k" and "ok v"
    and "\<And>j. j < n \<Longrightarrow> 0 < j \<Longrightarrow> parent j = k \<Longrightarrow> not_after cmp v (d ! j)"
  shows "heap_order cmp (d'[i := v]) n \<and> mset (take n (d'[i := v])) = mset (take n (d[k := v]))
    \<and> (\<forall>j\<ge>n. d' ! j = d ! j)"
  using assms
proof (induction k arbitrary: d rule: less_induct)
  case (less k)
  note len = less.prems(4) [unfolded cells_ok_def]
  show ?case
  proof (cases "0 < k \<and> \<not> not_after cmp (d ! parent k) v")
    case False
    with less.prems(1) have [simp]: "d' = d" "i = k"
      by (auto simp: sift_up.simps [of cmp d k v] Let_def not_after_def split: if_splits)
    from False less.prems len have "heap_order cmp (d[k := v]) n"
      by (intro fill_hole) auto
    then show ?thesis by simp
  next
    case True
    let ?p = "parent k" let ?d = "d[k := d ! ?p]"
    from True have p: "?p < k" "?p < n" using less.prems(3) by auto
    have rec: "sift_up cmp ?d ?p v = (d', i)"
      using True less.prems(1) by (simp add: sift_up.simps [of cmp d k v] Let_def not_after_def)
    have okp: "ok (d ! ?p)" using len p less.prems(3) by simp
    have kp: "0 < k" using True by simp
    have hole0: "\<And>j. j < n \<Longrightarrow> 0 < j \<Longrightarrow> j \<noteq> k \<Longrightarrow> parent j \<noteq> k \<Longrightarrow> not_after cmp (d ! parent j) (d ! j)"
        "\<And>j. j < n \<Longrightarrow> 0 < j \<Longrightarrow> parent j = k \<Longrightarrow> not_after cmp (d ! parent k) (d ! j)"
      using less.prems(2) kp by (auto simp: hole_order_def)
    have vp: "not_after cmp v (d ! ?p)"
      using True okp less.prems(5) not_after_total by blast
    have hole: "hole_order cmp ?d n ?p"
      unfolding hole_order_def
    proof (intro conjI allI impI)
      fix j assume j: "j < n" "0 < j"
      then have ne: "parent j \<noteq> j" by simp
      show "not_after cmp (?d ! parent j) (?d ! j)" if "j \<noteq> ?p" "parent j \<noteq> ?p"
      proof (cases "parent j = k")
        case True
        with kp len less.prems(3) hole0(2) [OF j True] ne show ?thesis by simp
      next
        case False
        with that hole0(1) [OF j _ False] show ?thesis by (cases "j = k") auto
      qed
      show "not_after cmp (?d ! parent ?p) (?d ! j)" if "parent j = ?p" "0 < ?p"
      proof -
        have pp: "parent ?p < ?p" using that by simp
        have up: "not_after cmp (d ! parent ?p) (d ! ?p)"
          using hole0(1) [of ?p] p pp that by auto
        show ?thesis
        proof (cases "j = k")
          case True
          with up pp p len less.prems(3) show ?thesis by (simp add: nth_list_update)
        next
          case False
          have "not_after cmp (d ! ?p) (d ! j)"
            using less.prems(2) False j that p by (auto simp: hole_order_def)
          with up have "not_after cmp (d ! parent ?p) (d ! j)"
            using cmp_trans [of "d ! parent ?p" "d ! ?p" "d ! j"] len p pp j False by simp
          with False pp p show ?thesis by (simp add: nth_list_update)
        qed
      qed
    qed
    have cells: "cells_ok ok ?d n ?p"
      using len okp less.prems(3) by (auto simp: cells_ok_def nth_list_update)
    have kids: "not_after cmp v (?d ! j)" if "j < n" "0 < j" "parent j = ?p" for j
    proof (cases "j = k")
      case True
      with vp less.prems(3) len show ?thesis by simp
    next
      case False
      have "not_after cmp (d ! ?p) (d ! j)"
        using less.prems(2) False that p by (auto simp: hole_order_def)
      with vp have "not_after cmp v (d ! j)"
        using cmp_trans [of v "d ! ?p" "d ! j"] len okp less.prems(5) that False by simp
      with False show ?thesis by simp
    qed
    have "heap_order cmp (d'[i := v]) n \<and>
        mset (take n (d'[i := v])) = mset (take n (?d[?p := v])) \<and> (\<forall>j\<ge>n. d' ! j = ?d ! j)"
      by (rule less.IH [OF p(1) rec hole p(2) cells less.prems(5)]) (rule kids)
    moreover have "mset (take n (?d[?p := v])) = mset (take n (d[k := v]))"
      using len p less.prems(3) by (intro mset_take_move) auto
    moreover have "\<forall>j\<ge>n. ?d ! j = d ! j" using less.prems(3) by auto
    ultimately show ?thesis by simp
  qed
qed

lemma sift_down_step:
  "2 * k + 1 < n \<Longrightarrow> cmp (d ! lesser_child cmp n d k) v = NSOrderedAscending \<Longrightarrow>
    sift_down cmp n d k v = sift_down cmp n (d[k := d ! lesser_child cmp n d k]) (lesser_child cmp n d k) v"
  "\<not> (2 * k + 1 < n \<and> cmp (d ! lesser_child cmp n d k) v = NSOrderedAscending) \<Longrightarrow>
    sift_down cmp n d k v = (d, k)"
  by (subst sift_down.simps, simp add: Let_def) (subst sift_down.simps, auto simp: Let_def)

lemma sift_down_bounds:
  "sift_down cmp n d k v = (d', i) \<Longrightarrow> k < n \<Longrightarrow> i < n \<and> k \<le> i \<and> length d' = length d"
proof (induction "n - k" arbitrary: d k rule: less_induct)
  case less
  let ?c = "lesser_child cmp n d k"
  show ?case
  proof (cases "2 * k + 1 < n \<and> cmp (d ! ?c) v = NSOrderedAscending")
    case True
    then have "?c < n" "k < ?c" by (auto simp: lesser_child_def Let_def)
    moreover have "sift_down cmp n (d[k := d ! ?c]) ?c v = (d', i)"
      using True less.prems(1) sift_down_step(1) [of k n d v] by simp
    moreover have "n - ?c < n - k" using calculation by arith
    ultimately show ?thesis using less.hyps [of ?c "d[k := d ! ?c]"] by auto
  next
    case False
    with less.prems show ?thesis by (simp add: sift_down_step(2))
  qed
qed

text \<open>The child the loop descends to is one of the two and is not after the other.\<close>

lemma least_child:
  assumes "2 * k + 1 < n" and "cells_ok ok d n k"
    and c: "c = lesser_child cmp n d k"
  shows "c < n" "k < c" "parent c = k" "ok (d ! c)"
    and "\<And>j. j < n \<Longrightarrow> 0 < j \<Longrightarrow> parent j = k \<Longrightarrow> not_after cmp (d ! c) (d ! j)"
proof -
  show b: "c < n" "k < c" "parent c = k" "ok (d ! c)"
    using assms by (auto simp: cells_ok_def lesser_child_def Let_def parent_def)
  fix j assume j: "j < n" "0 < j" "parent j = k"
  then have "j = 2 * k + 1 \<or> j = 2 * k + 2" by (simp add: parent_children)
  moreover have "ok (d ! j)" using j assms(2) b by (auto simp: cells_ok_def)
  ultimately show "not_after cmp (d ! c) (d ! j)"
    using c j not_after_refl [of "d ! j"] ascending_not_after [of "d ! c"] assms(1,2)
      ascending_iff [of "d ! (2 * k + 2)" "d ! (2 * k + 1)"]
    by (auto simp: cells_ok_def lesser_child_def Let_def split: if_splits)
qed

lemma sift_down_order:
  assumes "sift_down cmp n d k v = (d', i)" and "hole_order cmp d n k" and "k < n"
    and "cells_ok ok d n k" and "ok v"
    and "0 < k \<Longrightarrow> not_after cmp (d ! parent k) v"
  shows "heap_order cmp (d'[i := v]) n \<and> mset (take n (d'[i := v])) = mset (take n (d[k := v]))
    \<and> (\<forall>j\<ge>n. d' ! j = d ! j)"
  using assms
proof (induction "n - k" arbitrary: d k rule: less_induct)
  case less
  note len = less.prems(4) [unfolded cells_ok_def]
  let ?l = "2 * k + 1"
  define c where "c = lesser_child cmp n d k"
  show ?case
  proof (cases "?l < n \<and> cmp (d ! c) v = NSOrderedAscending")
    case False
    with less.prems(1) have [simp]: "d' = d" "i = k"
      by (simp_all add: sift_down_step(2) c_def)
    have "not_after cmp v (d ! j)" if j: "j < n" "0 < j" "parent j = k" for j
    proof -
      from j have l: "?l < n" by (auto simp: parent_children)
      note ch = least_child [OF l less.prems(4) c_def]
      have "not_after cmp v (d ! c)"
        using False l ascending_iff [of "d ! c" v] ch(4) less.prems(5) by auto
      moreover have "j \<noteq> k" using j by (auto simp: parent_children)
      ultimately show ?thesis
        using ch(5) [OF j] cmp_trans [of v "d ! c" "d ! j"] ch(4) less.prems(5) len j by simp
    qed
    then have "heap_order cmp (d[k := v]) n"
      using less.prems len by (intro fill_hole) auto
    then show ?thesis by simp
  next
    case True
    then have l: "?l < n" and asc: "cmp (d ! c) v = NSOrderedAscending" by auto
    note ch = least_child [OF l less.prems(4) c_def]
    let ?d = "d[k := d ! c]"
    have hole0: "\<And>j. j < n \<Longrightarrow> 0 < j \<Longrightarrow> j \<noteq> k \<Longrightarrow> parent j \<noteq> k \<Longrightarrow> not_after cmp (d ! parent j) (d ! j)"
      and up0: "\<And>j. j < n \<Longrightarrow> 0 < j \<Longrightarrow> 0 < k \<Longrightarrow> parent j = k \<Longrightarrow> not_after cmp (d ! parent k) (d ! j)"
      using less.prems(2) by (auto simp: hole_order_def)
    have rec: "sift_down cmp n ?d c v = (d', i)"
      using True less.prems(1) by (simp add: sift_down_step(1) c_def)
    have hole: "hole_order cmp ?d n c"
      unfolding hole_order_def
    proof (intro conjI allI impI)
      fix j assume j: "j < n" "0 < j"
      then have ne: "parent j \<noteq> j" by simp
      show "not_after cmp (?d ! parent j) (?d ! j)" if "j \<noteq> c" "parent j \<noteq> c"
      proof (cases "parent j = k")
        case True
        with ch(5) [OF j True] len less.prems(3) ne show ?thesis by simp
      next
        case pk: False
        show ?thesis
        proof (cases "j = k")
          case True
          with up0 [of c] j pk ch(1,2,3) len show ?thesis by simp
        next
          case False
          with hole0 [OF j False pk] pk show ?thesis by simp
        qed
      qed
      show "not_after cmp (?d ! parent c) (?d ! j)" if "parent j = c" "0 < c"
        using hole0 [OF j] that ch(2,3) len less.prems(3) j ne parent_less [OF j(2)]
        by (cases "j = k") auto
    qed
    have cells: "cells_ok ok ?d n c"
      using len ch less.prems(3) by (auto simp: cells_ok_def nth_list_update)
    have up: "0 < c \<Longrightarrow> not_after cmp (?d ! parent c) v"
      using ch asc less.prems(3) len by (simp add: ascending_not_after)
    have "n - c < n - k" using ch by arith
    have "heap_order cmp (d'[i := v]) n \<and>
        mset (take n (d'[i := v])) = mset (take n (?d[c := v])) \<and> (\<forall>j\<ge>n. d' ! j = ?d ! j)"
      by (rule less.hyps [OF \<open>n - c < n - k\<close> rec hole ch(1) cells less.prems(5)]) (rule up)
    moreover have "mset (take n (?d[c := v])) = mset (take n (d[k := v]))"
      using len ch less.prems(3) by (intro mset_take_move) auto
    moreover have "\<forall>j\<ge>n. ?d ! j = d ! j" using less.prems(3) by auto
    ultimately show ?thesis by simp
  qed
qed

end

section \<open>The heap as a priority queue\<close>

definition heap_elems :: "'a MinHeapInternal \<Rightarrow> 'a multiset" where
  "heap_elems h = image_mset the (mset (take (hsize h) (data h)))"

text \<open>
  What every operation keeps: the array has the capacity the structure says, the first
  \<open>hsize\<close> cells hold comparable objects, and they are in heap order.
\<close>

definition heap_shape :: "'a comparison \<Rightarrow> 'a MinHeapInternal \<Rightarrow> bool" where
  "heap_shape cmp h \<longleftrightarrow> hcompare h = cmp \<and> 1 \<le> capacity h \<and> capacity h * SIZEOF_ID < UINT_SPAN
     \<and> length (data h) = capacity h \<and> hsize h \<le> capacity h"

definition heap_wf :: "('a \<Rightarrow> bool) \<Rightarrow> 'a comparison \<Rightarrow> 'a MinHeapInternal \<Rightarrow> bool" where
  "heap_wf ok cmp h \<longleftrightarrow> heap_shape cmp h
     \<and> (\<forall>i<hsize h. ok_id ok (data h ! i)) \<and> heap_order (id_compare cmp) (data h) (hsize h)"

text \<open>The contract of a queue that hands out its least element first.\<close>

locale min_queue = comparator_laws ok cmp for ok :: "'a \<Rightarrow> bool" and cmp :: "'a comparison" +
  fixes enqueue :: "'q \<Rightarrow> 'a \<Rightarrow> bool \<times> 'q"
    and dequeue :: "'q \<Rightarrow> 'a option \<times> 'q"
    and elems :: "'q \<Rightarrow> 'a multiset"
    and wf :: "'q \<Rightarrow> bool"
  assumes enqueue_law: "wf q \<Longrightarrow> ok x \<Longrightarrow> enqueue q x = (b, q') \<Longrightarrow>
      wf q' \<and> elems q' = (if b then add_mset x (elems q) else elems q)"
    and dequeue_none: "wf q \<Longrightarrow> dequeue q = (None, q') \<Longrightarrow> elems q = {#} \<and> q' = q"
    and dequeue_some: "wf q \<Longrightarrow> dequeue q = (Some x, q') \<Longrightarrow>
      wf q' \<and> ok x \<and> elems q = add_mset x (elems q') \<and> (\<forall>y \<in># elems q. not_after cmp x y)"

text \<open>A client that pushes a list of objects and one that pops until the queue is empty.\<close>

fun fill_queue :: "('q \<Rightarrow> 'a \<Rightarrow> bool \<times> 'q) \<Rightarrow> 'q \<Rightarrow> 'a list \<Rightarrow> 'q option" where
  "fill_queue enq q [] = Some q"
| "fill_queue enq q (x # xs) =
     (case enq q x of (True, q') \<Rightarrow> fill_queue enq q' xs | (False, _) \<Rightarrow> None)"

fun drain_queue :: "('q \<Rightarrow> 'a option \<times> 'q) \<Rightarrow> nat \<Rightarrow> 'q \<Rightarrow> 'a list \<times> 'q" where
  "drain_queue deq 0 q = ([], q)"
| "drain_queue deq (Suc n) q =
     (case deq q of (None, q') \<Rightarrow> ([], q')
      | (Some x, q') \<Rightarrow> (let (xs, q'') = drain_queue deq n q' in (x # xs, q'')))"

context min_queue
begin

lemma fill_queue_elems:
  "wf q \<Longrightarrow> (\<forall>x \<in> set xs. ok x) \<Longrightarrow> fill_queue enqueue q xs = Some q' \<Longrightarrow>
     wf q' \<and> elems q' = elems q + mset xs"
proof (induction xs arbitrary: q)
  case Nil
  then show ?case by simp
next
  case (Cons x xs)
  then obtain r where r: "enqueue q x = (True, r)" "fill_queue enqueue r xs = Some q'"
    by (auto split: prod.splits bool.splits)
  with Cons.prems enqueue_law [of q x True r] have "wf r" "elems r = add_mset x (elems q)"
    by auto
  with Cons.IH [of r] Cons.prems r show ?case by simp
qed

lemma drain_queue_sorted:
  "wf q \<Longrightarrow> size (elems q) \<le> n \<Longrightarrow> drain_queue dequeue n q = (xs, q') \<Longrightarrow>
     ordered_by cmp xs \<and> mset xs = elems q \<and> elems q' = {#} \<and> wf q'"
proof (induction n arbitrary: q xs)
  case 0
  then show ?case by simp
next
  case (Suc n)
  obtain o1 r where deq: "dequeue q = (o1, r)" by fastforce
  show ?case
  proof (cases o1)
    case None
    with Suc.prems deq dequeue_none [of q r] show ?thesis by auto
  next
    case (Some x)
    obtain ys where ys: "drain_queue dequeue n r = (ys, q')" "xs = x # ys"
      using Suc.prems(3) deq Some by (auto split: prod.splits)
    from dequeue_some [OF Suc.prems(1)] deq Some
    have r: "wf r" "elems q = add_mset x (elems r)" "\<forall>y \<in># elems q. not_after cmp x y"
      by auto
    with Suc.prems(2) have "size (elems r) \<le> n" by simp
    from Suc.IH [OF r(1) this ys(1)] r ys(2) show ?thesis
      by (auto simp: ordered_by_Cons simp flip: set_mset_mset)
  qed
qed

end


section \<open>Correctness of the operations\<close>

lemma heap_resize_law:
  assumes "heap_resize alloc h = (b, h')" and "heap_shape cmp h" and "hsize h = capacity h"
  shows "heap_shape cmp h' \<and> hsize h' = hsize h \<and> take (hsize h) (data h') = data h
    \<and> (b \<longrightarrow> hsize h' < capacity h') \<and> (\<not> b \<longrightarrow> h' = h)"
proof (cases b)
  case False
  with assms show ?thesis by (auto simp: heap_resize_def heap_shape_def Let_def split: if_splits)
next
  case True
  let ?want = "if capacity h > 1024 * 16 then umul (capacity h) 3 div 2 else capacity h * 2"
  have m: "umul (capacity h) SIZEOF_ID = capacity h * SIZEOF_ID"
    using assms(2) by (simp add: heap_shape_def bounds_simps)
  have lim: "capacity h * SIZEOF_ID \<le> SIZE_MAX div 2"
    using assms(1) True m by (auto simp: heap_resize_def split: if_splits)
  have h': "h' = h\<lparr>capacity := ?want, data := data h @ replicate (?want - length (data h)) None\<rparr>"
    using assms(1) True by (auto simp: heap_resize_def Let_def split: if_splits)
  have "umul (capacity h) 3 = capacity h * 3"
    using lim by (intro umul_fits) simp
  then have "capacity h < ?want" "?want \<le> capacity h * 2"
    using assms(2) by (auto simp: heap_shape_def)
  moreover from this have "?want * SIZEOF_ID < UINT_SPAN" using lim by linarith
  ultimately show ?thesis using assms(2,3) True by (simp add: h' heap_shape_def)
qed

lemma heap_pop_is_remove: "heap_pop h = heap_remove h 0"
  by (auto simp: heap_pop_def heap_remove_def Let_def sift_up.simps [of _ _ 0] split: prod.split)

lemma hole_order_mono: "hole_order cmp d n k \<Longrightarrow> m \<le> n \<Longrightarrow> hole_order cmp d m k"
  by (auto simp: hole_order_def)

lemma hole_order_cong:
  "hole_order cmp d n k \<Longrightarrow> (\<And>j. j < n \<Longrightarrow> d' ! j = d ! j) \<Longrightarrow> k < n \<Longrightarrow> hole_order cmp d' n k"
  by (auto simp: hole_order_def)

lemma heap_order_cong:
  "heap_order cmp d n \<Longrightarrow> (\<And>j. j < n \<Longrightarrow> d' ! j = d ! j) \<Longrightarrow> heap_order cmp d' n"
  by (auto simp: heap_order_def)

lemma mset_take_replace:
  assumes "k < n" "n < length d"
  shows "mset (take (Suc n) d) = add_mset (d ! k) (mset (take n (d[k := d ! n])))"
proof -
  have "mset (take n (d[k := d ! n])) = add_mset (d ! n) (mset (take n d) - {#d ! k#})"
    using assms by (simp add: take_list_update_less mset_update)
  moreover have "d ! k \<in># mset (take n d)" using assms by (auto simp: in_set_conv_nth)
  ultimately show ?thesis using assms by (simp add: take_Suc_conv_app_nth)
qed

context object_comparator
begin

lemma heap_wf_hole:
  assumes "heap_wf ok cmp h" and "k < hsize h"
  shows "hole_order (id_compare cmp) (data h) (hsize h) k"
  using assms by (intro heap_order_hole) (auto simp: heap_wf_def intro: ids.cmp_trans)

text \<open>The last object, put back at the place the sifting loops chose, refills the heap.\<close>

lemma heap_refill:
  assumes shape: "heap_shape cmp h" and k: "k < hsize h" and kn: "k < hsize h - 1"
    and cells: "\<forall>i<hsize h. i \<noteq> k \<longrightarrow> ok_id ok (data h ! i)"
    and h': "x = data h ! k" "h' = h\<lparr>hsize := hsize h - 1, data := d[i := data h ! (hsize h - 1)]\<rparr>"
    and ord: "heap_order (id_compare cmp) (d[i := data h ! (hsize h - 1)]) (hsize h - 1)"
    and ms: "mset (take (hsize h - 1) (d[i := data h ! (hsize h - 1)])) =
      mset (take (hsize h - 1) ((data h)[hsize h - 1 := None, k := data h ! (hsize h - 1)]))"
    and ln: "length d = length (data h)"
  shows "x = data h ! k \<and> heap_wf ok cmp h' \<and> hsize h' = hsize h - 1 \<and>
    mset (take (hsize h) (data h)) = add_mset x (mset (take (hsize h') (data h')))"
proof -
  let ?n = "hsize h - 1" and ?d = "data h"
  let ?v = "?d ! ?n" and ?hd = "?d[?n := None]"
  have len: "?n < length ?d" "Suc ?n = hsize h" using shape k by (auto simp: heap_shape_def)
  have eq: "mset (take (hsize h) ?d) = add_mset (?d ! k) (mset (take ?n (?hd[k := ?v])))"
  proof -
    from kn have "?hd[k := ?v] = ?d[k := ?v, ?n := None]" by (simp add: list_update_swap [of k])
    then show ?thesis using mset_take_replace [OF kn len(1)] len(2) by simp
  qed
  have "ok_id ok (?hd[k := ?v] ! j)" if "j < ?n" for j
    using cells that kn len by (cases "j = k") auto
  then have "\<forall>y \<in> set (take ?n (?hd[k := ?v])). ok_id ok y"
    using len by (auto simp: in_set_conv_nth)
  with ms have "\<forall>y \<in> set (take ?n (d[i := ?v])). ok_id ok y" by (metis set_mset_mset)
  then have "ok_id ok (d[i := ?v] ! j)" if "j < ?n" for j
    using that ln len by (force simp: in_set_conv_nth)
  with ord ms eq ln shape h' show ?thesis by (auto simp: heap_wf_def heap_shape_def)
qed

text \<open>Removal works already when only the cell removed is out of order.\<close>

lemma heap_remove_hole:
  assumes shape: "heap_shape cmp h" and k: "k < hsize h"
    and hole: "hole_order (id_compare cmp) (data h) (hsize h) k"
    and cells: "\<forall>i<hsize h. i \<noteq> k \<longrightarrow> ok_id ok (data h ! i)"
    and rem: "heap_remove h k = (x, h')"
  shows "x = data h ! k \<and> heap_wf ok cmp h' \<and> hsize h' = hsize h - 1 \<and>
    mset (take (hsize h) (data h)) = add_mset x (mset (take (hsize h') (data h')))"
proof -
  let ?c = "id_compare cmp" and ?n = "hsize h - 1" and ?d = "data h"
  have len: "?n < length ?d" "Suc ?n = hsize h" "hcompare h = cmp"
    using shape k by (auto simp: heap_shape_def)
  have hole': "hole_order ?c ?d ?n k" using hole by (rule hole_order_mono) simp
  show ?thesis
  proof (cases "?n = k")
    case True
    then have h': "x = ?d ! k" "h' = h\<lparr>hsize := k, data := ?d[k := None]\<rparr>"
      using rem k by (auto simp: heap_remove_def Let_def)
    have "parent j \<noteq> k" if "0 < j" "j < k" for j
      using parent_less' [OF that] by simp
    with hole' True have "heap_order ?c ?d k"
      by (auto simp: hole_order_def heap_order_def)
    then have "heap_order ?c (?d[k := None]) k" by (rule heap_order_cong) simp
    moreover have "take (hsize h) ?d = take k ?d @ [?d ! k]"
      using len True by (metis take_Suc_conv_app_nth)
    ultimately show ?thesis
      using h' shape cells k True by (auto simp: heap_wf_def heap_shape_def)
  next
    case False
    then have kn: "k < ?n" using k by simp
    let ?hd = "?d[?n := None]" and ?v = "?d ! ?n"
    obtain d1 i where up: "sift_up ?c ?hd k ?v = (d1, i)" by fastforce
    have v: "ok_id ok ?v" using cells False k by simp
    have hole0: "hole_order ?c ?hd ?n k" using hole' kn by (rule_tac hole_order_cong) auto
    have cells0: "cells_ok (ok_id ok) ?hd ?n k"
      using cells len k by (auto simp: cells_ok_def)
    note final = heap_refill [OF shape k kn cells, where x = x and h' = h']
    show ?thesis
    proof (cases "i = k")
      case False
      then have h': "x = ?d ! k" "h' = h\<lparr>hsize := ?n, data := d1[i := ?v]\<rparr>"
        using rem k kn up len by (auto simp: heap_remove_def Let_def)
      have pos: "0 < k" using False up by (cases k) (auto simp: sift_up.simps [of _ _ 0])
      with False ids.sift_up_moved [OF up] have up_v: "\<not> not_after ?c (?hd ! parent k) ?v" by simp
      have kids: "not_after ?c ?v (?hd ! j)" if j: "j < ?n" "0 < j" "parent j = k" for j
      proof -
        have "not_after ?c (?hd ! parent k) (?hd ! j)" using hole0 pos j by (simp add: hole_order_def)
        moreover have "parent k < ?n" "parent k \<noteq> k" "j \<noteq> k"
          using pos kn j parent_neq(1) [of j] parent_less' [of k ?n] by auto
        then have ok: "ok_id ok (?hd ! parent k)" "ok_id ok (?hd ! j)"
          using cells0 j by (auto simp: cells_ok_def)
        moreover from ok up_v v have "not_after ?c ?v (?hd ! parent k)"
          using ids.not_after_total by blast
        ultimately show ?thesis by (rule_tac ids.cmp_trans [OF v ok])
      qed
      have "heap_order ?c (d1[i := ?v]) ?n \<and>
          mset (take ?n (d1[i := ?v])) = mset (take ?n (?hd[k := ?v])) \<and> (\<forall>j\<ge>?n. d1 ! j = ?hd ! j)"
        by (rule ids.sift_up_order [OF up hole0 kn cells0 v]) (rule kids)
      with final [OF h'] ids.sift_up_bounds [OF up] show ?thesis by simp
    next
      case True
      with ids.sift_up_bounds [OF up] have d1: "d1 = ?hd" by simp
      obtain d2 i2 where dn: "sift_down ?c ?n ?hd k ?v = (d2, i2)" by fastforce
      then have h': "x = ?d ! k" "h' = h\<lparr>hsize := ?n, data := d2[i2 := ?v]\<rparr>"
        using rem k kn up len True d1 by (auto simp: heap_remove_def Let_def)
      have "heap_order ?c (d2[i2 := ?v]) ?n \<and>
          mset (take ?n (d2[i2 := ?v])) = mset (take ?n (?hd[k := ?v])) \<and> (\<forall>j\<ge>?n. d2 ! j = ?hd ! j)"
        by (rule ids.sift_down_order [OF dn hole0 kn cells0 v]) (use ids.sift_up_moved [OF up] True in simp)
      with final [OF h'] ids.sift_down_bounds [OF dn kn] show ?thesis by simp
    qed
  qed
qed

lemma heap_remove_law:
  assumes "heap_wf ok cmp h" and "k < hsize h" and "heap_remove h k = (x, h')"
  shows "heap_wf ok cmp h' \<and> hsize h' = hsize h - 1 \<and> x = data h ! k \<and> ok_id ok x \<and>
    heap_elems h = add_mset (the x) (heap_elems h')"
  using heap_remove_hole [OF _ assms(2) heap_wf_hole [OF assms(1,2)] _ assms(3)] assms(1,2)
  by (auto simp: heap_wf_def heap_elems_def)

lemma heap_push_law:
  assumes "heap_wf ok cmp h" and "ok x" and "heap_push alloc h x = (b, h')"
  shows "heap_wf ok cmp h' \<and> (if b then heap_elems h' = add_mset x (heap_elems h) else h' = h)"
proof -
  obtain fits g where g: "(if hsize h = capacity h then heap_resize alloc h else (True, h)) = (fits, g)"
    by fastforce
  have wf: "heap_shape cmp h" "heap_order (id_compare cmp) (data h) (hsize h)"
    "\<forall>i<hsize h. ok_id ok (data h ! i)" "length (data h) = capacity h" "hsize h \<le> capacity h"
    using assms(1) by (auto simp: heap_wf_def heap_shape_def)
  show ?thesis
  proof (cases fits)
    case False
    with g assms(1,3) show ?thesis by (auto simp: heap_push_def)
  next
    case True
    have shape: "heap_shape cmp g" "hsize g = hsize h" "hsize g < length (data g)"
      and same: "take (hsize h) (data g) = take (hsize h) (data h)"
      using g heap_resize_law [of alloc h True g] wf True
      by (auto simp: heap_shape_def split: if_splits)
    let ?n = "hsize h" and ?c = "id_compare cmp"
    have cell: "data g ! j = data h ! j" if "j < ?n" for j
      using same that by (metis nth_take)
    obtain d i where up: "sift_up ?c (data g) ?n (Some x) = (d, i)" by fastforce
    then have h': "b" "h' = g\<lparr>hsize := ?n + 1, data := d[i := Some x]\<rparr>"
      using assms(3) g True shape by (auto simp: heap_push_def heap_shape_def)
    have ord: "heap_order ?c (data g) ?n" using wf(2) cell by (rule heap_order_cong)
    have hole: "hole_order ?c (data g) (Suc ?n) ?n"
      unfolding hole_order_def
    proof (intro conjI allI impI)
      fix j assume j: "j < Suc ?n" "0 < j"
      show "j \<noteq> ?n \<Longrightarrow> not_after ?c (data g ! parent j) (data g ! j)"
        using ord j by (simp add: heap_order_def)
      show "parent j = ?n \<Longrightarrow> not_after ?c (data g ! parent ?n) (data g ! j)"
        using parent_less [of j] j by simp
    qed
    have cells: "cells_ok (ok_id ok) (data g) (Suc ?n) ?n"
      using shape(2,3) wf(3) cell by (auto simp: cells_ok_def less_Suc_eq)
    have kids: "not_after ?c (Some x) (data g ! j)" if "j < Suc ?n" "0 < j" "parent j = ?n" for j
      using that parent_less [of j] by simp
    have fin: "heap_order ?c (d[i := Some x]) (Suc ?n) \<and>
        mset (take (Suc ?n) (d[i := Some x])) = mset (take (Suc ?n) ((data g)[?n := Some x])) \<and>
        (\<forall>j\<ge>Suc ?n. d ! j = data g ! j)"
      by (rule ids.sift_up_order [OF up hole lessI cells]) (use assms(2) kids in auto)
    then have ms: "mset (take (Suc ?n) (d[i := Some x])) = add_mset (Some x) (mset (take ?n (data h)))"
      using shape(2,3) same by (simp add: take_Suc_conv_app_nth)
    have "ok_id ok y" if "y \<in># mset (take (Suc ?n) (d[i := Some x]))" for y
      using that assms(2) wf(3) unfolding ms by (auto simp: in_set_conv_nth)
    then have "ok_id ok (d[i := Some x] ! j)" if "j < Suc ?n" for j
      using that shape ids.sift_up_bounds [OF up] by (force simp: in_set_conv_nth)
    moreover have "heap_elems h' = add_mset x (heap_elems h)"
      using ms h' by (simp add: heap_elems_def)
    ultimately show ?thesis using fin h' shape ids.sift_up_bounds [OF up]
      by (auto simp: heap_wf_def heap_shape_def)
  qed
qed

lemma heap_pop_law:
  assumes "heap_wf ok cmp h" and "heap_pop h = (r, h')"
  shows "case r of
      None \<Rightarrow> heap_elems h = {#} \<and> h' = h
    | Some x \<Rightarrow> heap_wf ok cmp h' \<and> ok x \<and> heap_elems h = add_mset x (heap_elems h') \<and>
        (\<forall>y \<in># heap_elems h. not_after cmp x y)"
proof (cases "hsize h = 0")
  case True
  with assms(2) show ?thesis by (auto simp: heap_pop_def heap_elems_def)
next
  case False
  with assms heap_remove_law [of h 0 r h'] have rem: "heap_wf ok cmp h'" "r = data h ! 0"
      "ok_id ok r" "heap_elems h = add_mset (the r) (heap_elems h')"
    by (auto simp: heap_pop_is_remove)
  have cells: "\<forall>i<hsize h. ok_id ok (data h ! i)" and ord: "heap_order (id_compare cmp) (data h) (hsize h)"
    using assms(1) by (auto simp: heap_wf_def)
  have least: "not_after (id_compare cmp) (data h ! 0) (data h ! j)" if "j < hsize h" for j
    using ord that
    by (rule root_least) (use cells in \<open>blast intro: ids.not_after_refl ids.cmp_trans\<close>)+
  obtain x where x: "r = Some x" "ok x" using rem(3) by (auto elim: ok_idE)
  have "not_after cmp x (the (data h ! j))" if j: "j < hsize h" for j
  proof -
    obtain y where "data h ! j = Some y" using cells j by (metis ok_idE)
    with least [OF j] x rem(2) show ?thesis by (simp add: not_after_def)
  qed
  then have "\<forall>y \<in># heap_elems h. not_after cmp x y"
    by (auto simp: heap_elems_def in_set_conv_nth)
  with x rem show ?thesis by simp
qed

end

text \<open>
  The heap keeps the contract of a least-first queue, for every allocator.
\<close>

sublocale object_comparator \<subseteq> heap: min_queue ok cmp "heap_push alloc" heap_pop heap_elems "heap_wf ok cmp"
  for alloc :: "nat \<Rightarrow> bool"
proof unfold_locales
  fix q q' :: "'a MinHeapInternal" and x b
  show "heap_wf ok cmp q \<Longrightarrow> ok x \<Longrightarrow> heap_push alloc q x = (b, q') \<Longrightarrow>
      heap_wf ok cmp q' \<and> heap_elems q' = (if b then add_mset x (heap_elems q) else heap_elems q)"
    using heap_push_law [of q x alloc b q'] by (auto split: if_splits)
  show "heap_wf ok cmp q \<Longrightarrow> heap_pop q = (None, q') \<Longrightarrow> heap_elems q = {#} \<and> q' = q"
    using heap_pop_law [of q None q'] by simp
  show "heap_wf ok cmp q \<Longrightarrow> heap_pop q = (Some x, q') \<Longrightarrow> heap_wf ok cmp q' \<and> ok x \<and>
      heap_elems q = add_mset x (heap_elems q') \<and> (\<forall>y \<in># heap_elems q. not_after cmp x y)"
    using heap_pop_law [of q "Some x" q'] by simp
qed


text \<open>The removal loops, which visit the cells from the last to the first.\<close>

lemma remove_down_unchanged:
  "(\<And>i x. i < k \<Longrightarrow> data h ! i = Some x \<Longrightarrow> \<not> p x) \<Longrightarrow> remove_down p h k = h"
proof (induction k)
  case (Suc k)
  have "remove_down p h k = h"
    using Suc.prems by (intro Suc.IH) (meson less_SucI)
  with Suc.prems [of k] show ?case by (auto split: option.split)
qed simp

context object_comparator
begin

lemma elems_cell: "heap_wf ok cmp h \<Longrightarrow> x \<in># heap_elems h \<longleftrightarrow> (\<exists>i<hsize h. data h ! i = Some x)"
proof -
  assume "heap_wf ok cmp h"
  then have "\<forall>i<hsize h. \<exists>y. data h ! i = Some y" "hsize h \<le> length (data h)"
    by (auto simp: heap_wf_def heap_shape_def) (metis ok_idE)
  then show ?thesis by (force simp: heap_elems_def in_set_conv_nth)
qed

lemma elems_ok: "heap_wf ok cmp h \<Longrightarrow> i < hsize h \<Longrightarrow> (\<forall>x \<in># heap_elems h. ok' x) \<Longrightarrow> ok_id ok' (data h ! i)"
  using elems_cell [of h] by (metis heap_wf_def ok_idE ok_id.simps(1))

lemma remove_down_law:
  assumes "heap_wf ok cmp h" and "k \<le> hsize h"
  shows "heap_wf ok cmp (remove_down p h k) \<and> heap_elems (remove_down p h k) \<subseteq># heap_elems h \<and>
    filter_mset (\<lambda>x. \<not> p x) (heap_elems (remove_down p h k)) = filter_mset (\<lambda>x. \<not> p x) (heap_elems h)"
  using assms
proof (induction k arbitrary: h)
  case 0
  then show ?case by simp
next
  case (Suc k)
  show ?case
  proof (cases "\<exists>x. data h ! k = Some x \<and> p x")
    case True
    then obtain x where x: "data h ! k = Some x" "p x" by blast
    obtain y g where g: "heap_remove h k = (y, g)" by fastforce
    from heap_remove_law [OF Suc.prems(1) _ g] Suc.prems(2) x
    have rem: "heap_wf ok cmp g" "k \<le> hsize g" "heap_elems h = add_mset x (heap_elems g)"
      by auto
    with Suc.IH [of g] x g show ?thesis by (auto intro: subset_mset.order_trans)
  next
    case False
    then have "remove_down p h (Suc k) = remove_down p h k" by (auto split: option.splits)
    with Suc.IH [of h] Suc.prems show ?thesis by simp
  qed
qed

lemma remove_down_single:
  assumes "heap_wf ok cmp h" and "k \<le> hsize h" and "size (filter_mset p (heap_elems h)) \<le> 1"
    and "\<forall>i<hsize h. k \<le> i \<longrightarrow> \<not> p (the (data h ! i))"
  shows "filter_mset p (heap_elems (remove_down p h k)) = {#}"
  using assms
proof (induction k)
  case 0
  then show ?case by (auto simp: filter_mset_eq_mempty_iff elems_cell)
next
  case (Suc k)
  show ?case
  proof (cases "\<exists>x. data h ! k = Some x \<and> p x")
    case True
    then obtain x where x: "data h ! k = Some x" "p x" by blast
    obtain y g where g: "heap_remove h k = (y, g)" by fastforce
    from heap_remove_law [OF Suc.prems(1) _ g] Suc.prems(2) x
    have rem: "heap_wf ok cmp g" "k \<le> hsize g" "heap_elems h = add_mset x (heap_elems g)"
      by auto
    with Suc.prems(3) x have none: "filter_mset p (heap_elems g) = {#}" by simp
    then have "\<not> p z" if "i < k" "data g ! i = Some z" for i z
      using that rem(2) elems_cell [OF rem(1), of z] by (auto simp: filter_mset_eq_mempty_iff)
    then have "remove_down p g k = g" by (rule remove_down_unchanged)
    with none x g show ?thesis by simp
  next
    case False
    then have eq: "remove_down p h (Suc k) = remove_down p h k" by (auto split: option.splits)
    obtain y where "data h ! k = Some y"
      using Suc.prems(1,2) by (metis Suc_le_lessD heap_wf_def ok_idE)
    with False Suc.prems(4) have "\<forall>i<hsize h. k \<le> i \<longrightarrow> \<not> p (the (data h ! i))"
      by (metis Suc_leI le_neq_implies_less option.sel)
    with Suc.IH Suc.prems show ?thesis unfolding eq by simp
  qed
qed

end

text \<open>
  \<^verbatim>\<open>-repositionObject:\<close> is called when the object's own key has changed, so the heap is in
  order under the comparison \<open>cmp0\<close> from before the change and is to be brought in order
  under the new one, which differs from it on comparisons with that object only.
\<close>

lemma reposition_down_absent:
  "(\<forall>i<k. data h ! i \<noteq> Some obj) \<Longrightarrow> reposition_down obj h k found = (found, h)"
  by (induction k) auto

lemma reposition_down_single:
  assumes "m < k" and "data h ! m = Some obj" and "\<forall>i<k. i \<noteq> m \<longrightarrow> data h ! i \<noteq> Some obj"
    and "heap_remove h m = (Some obj, g)" and "\<forall>i<m. data g ! i \<noteq> Some obj"
  shows "reposition_down obj h k None = (Some obj, g)"
  using assms
proof (induction k)
  case 0
  then show ?case by simp
next
  case (Suc k)
  show ?case
  proof (cases "m = k")
    case True
    with Suc.prems show ?thesis by (simp add: reposition_down_absent)
  next
    case False
    with Suc.prems have "m < k" by simp
    with Suc.IH Suc.prems False show ?thesis by simp
  qed
qed

context object_comparator
begin

lemmas heap_fill_elems = heap.fill_queue_elems
  and heap_drain_sorted = heap.drain_queue_sorted

end

section \<open>The properties\<close>

lemma initWithCapacity_wf:
  assumes "\<And>n. alloc n \<Longrightarrow> n < UINT_SPAN" and "initWithCapacity alloc dflt cap cmp = Some h"
  shows "heap_wf ok (case cmp of None \<Rightarrow> dflt | Some f \<Rightarrow> f) h \<and> heap_elems h = {#}"
proof -
  let ?cap = "if cap < 1 then 1 else cap"
  have "alloc (SIZEOF_ID * ?cap)"
    using assms(2) by (auto simp: initWithCapacity_def Let_def split: if_splits)
  then have "SIZEOF_ID * ?cap < UINT_SPAN" by (rule assms(1))
  moreover have "1 \<le> ?cap" by simp
  ultimately show ?thesis using assms(2)
    by (auto simp: initWithCapacity_def Let_def heap_wf_def heap_shape_def heap_elems_def
        heap_order_def split: if_splits)
qed

text \<open>
  C4. Objects pushed onto a fresh \<^verbatim>\<open>GSMinHeap\<close> and popped until it is empty come out in the
  order of its comparison function, each as often as it went in: for every comparison that is a
  total preorder on the objects and every allocator whose successful requests fit \<^verbatim>\<open>size_t\<close>.
\<close>

theorem heap_sorts:
  assumes "object_comparator ok cmp" and "\<And>n. alloc n \<Longrightarrow> n < UINT_SPAN"
    and "\<forall>x \<in> set xs. ok x"
    and "initWithCapacity alloc dflt cap (Some cmp) = Some h"
    and "fill_queue (heap_push alloc) h xs = Some h'"
    and "drain_queue heap_pop (length xs) h' = (ys, h'')"
  shows "ordered_by cmp ys \<and> mset ys = mset xs \<and> heap_elems h'' = {#}"
proof -
  have h: "heap_wf ok cmp h" "heap_elems h = {#}"
    using initWithCapacity_wf [OF assms(2,4)] by auto
  from object_comparator.heap_fill_elems [OF assms(1) h(1) assms(3,5)] h(2)
  have h': "heap_wf ok cmp h'" "heap_elems h' = mset xs" by auto
  then have "size (heap_elems h') \<le> length xs" by simp
  from object_comparator.heap_drain_sorted [OF assms(1) h'(1) this assms(6)] h'(2)
  show ?thesis by simp
qed

definition small_alloc :: "nat \<Rightarrow> bool" where
  "small_alloc n \<longleftrightarrow> n < 1000"

definition sample_heap :: "int MinHeapInternal" where
  "sample_heap = \<lparr>data = [None], hsize = 0, capacity = 1, hcompare = integer_compare\<rparr>"

definition filled_heap :: "int MinHeapInternal" where
  "filled_heap = \<lparr>data = map Some [1, 5, 2, 5, 6, 3] @ [None, None], hsize = 6, capacity = 8,
     hcompare = integer_compare\<rparr>"

lemmas heap_eval = heap_push_def heap_resize_def heap_pop_def heap_remove_def lesser_child_def
  sift_up.simps sift_down.simps parent_def small_alloc_def sample_heap_def filled_heap_def
  integer_compare_def umul_def Let_def eval_simps

lemma filled_heap_filled:
  "fill_queue (heap_push small_alloc) sample_heap [1, 5, 2, 5, 6, 3] = Some filled_heap"
  by (simp add: heap_eval)

lemma filled_heap_drained:
  "drain_queue heap_pop (length [1, 5, 2, 5, 6, 3 :: int]) filled_heap =
     ([1, 2, 3, 5, 5, 6], filled_heap\<lparr>data := replicate 8 None, hsize := 0\<rparr>)"
  by (simp add: heap_eval)

lemma sample_heap_init:
  "initWithCapacity small_alloc integer_compare 0 (Some integer_compare) = Some sample_heap"
  by (simp add: initWithCapacity_def small_alloc_def sample_heap_def)

lemma small_alloc_fits: "small_alloc n \<Longrightarrow> n < UINT_SPAN"
  by (simp add: small_alloc_def)

theorem heap_sorts_witness:
  "ordered_by integer_compare [1, 2, 3, 5, 5, 6] \<and>
     mset [1, 2, 3, 5, 5, 6] = mset [1, 5, 2, 5, 6, 3 :: int] \<and>
     heap_elems (filled_heap\<lparr>data := replicate 8 None, hsize := 0\<rparr>) = {#}"
  by (rule heap_sorts [OF integer_objects.object_comparator_axioms small_alloc_fits _
        sample_heap_init filled_heap_filled filled_heap_drained]) simp_all

text \<open>
  Popping takes a least object off a well-formed heap and leaves a well-formed heap of the
  others; on an empty heap it answers \<open>nil\<close> and changes nothing.
\<close>

theorem pop_takes_least:
  assumes "object_comparator ok cmp" and "heap_wf ok cmp h" and "heap_pop h = (r, h')"
  shows "heap_wf ok cmp h' \<and>
    (case r of None \<Rightarrow> heap_elems h = {#} \<and> h' = h
     | Some x \<Rightarrow> heap_elems h = add_mset x (heap_elems h') \<and>
         (\<forall>y \<in># heap_elems h. not_after cmp x y))"
  using object_comparator.heap_pop_law [OF assms] assms(2) by (cases r) auto

lemma filled_heap_wf: "heap_wf (\<lambda>_. True) integer_compare filled_heap"
proof -
  have "heap_wf (\<lambda>_. True) integer_compare sample_heap"
    using initWithCapacity_wf [OF small_alloc_fits sample_heap_init] by simp
  from integer_objects.heap_fill_elems [OF this _ filled_heap_filled] show ?thesis by simp
qed

theorem pop_takes_least_witness:
  "heap_pop filled_heap = (Some 1, snd (heap_pop filled_heap)) \<and>
     heap_elems filled_heap = add_mset 1 (heap_elems (snd (heap_pop filled_heap)))"
proof -
  have p: "heap_pop filled_heap = (Some 1, snd (heap_pop filled_heap))"
    by (simp add: heap_eval)
  from pop_takes_least [OF integer_objects.object_comparator_axioms filled_heap_wf this] p
  show ?thesis by simp
qed

text \<open>
  \<^verbatim>\<open>-removeObject:\<close> and \<^verbatim>\<open>-removeObjectIdenticalTo:\<close> keep the heap well-formed and
  never take out an object that does not match; when one object at most matches, it is gone
  afterwards.
\<close>

theorem remove_object_safe:
  assumes "object_comparator ok cmp" and "heap_wf ok cmp h"
  shows "heap_wf ok cmp (removeObject eq h obj) \<and>
    filter_mset (\<lambda>x. \<not> eq obj x) (heap_elems (removeObject eq h obj)) =
      filter_mset (\<lambda>x. \<not> eq obj x) (heap_elems h) \<and>
    filter_mset (eq obj) (heap_elems (removeObject eq h obj)) \<subseteq># filter_mset (eq obj) (heap_elems h) \<and>
    (size (filter_mset (eq obj) (heap_elems h)) \<le> 1 \<longrightarrow>
      filter_mset (eq obj) (heap_elems (removeObject eq h obj)) = {#})"
  using object_comparator.remove_down_law [OF assms order_refl, of "eq obj"]
    object_comparator.remove_down_single [OF assms order_refl, of "eq obj"]
  by (auto simp: removeObject_def intro: multiset_filter_mono)

theorem remove_object_safe_witness:
  "filter_mset ((=) 2) (heap_elems (removeObject (=) filled_heap 2)) = {#} \<and> 2 \<in># heap_elems filled_heap"
proof -
  have e: "heap_elems filled_heap = {#1, 5, 2, 5, 6, 3#}"
    by (simp add: heap_elems_def filled_heap_def)
  show ?thesis
    using remove_object_safe [OF integer_objects.object_comparator_axioms filled_heap_wf, of "(=)" 2]
    by (simp add: e)
qed

lemma remove_down_numeral:
  "remove_down p h (numeral k) = remove_down p
     (case data h ! pred_numeral k of
        Some x \<Rightarrow> if p x then snd (heap_remove h (pred_numeral k)) else h | None \<Rightarrow> h) (pred_numeral k)"
  by (simp add: numeral_eq_Suc)

text \<open>
  C40. The removal loops can leave a matching object behind: filling the gap may move an object
  from a cell not yet visited into one already visited. After pushing 1, 5, 2, 5, 6, 3 onto a
  fresh heap of integers, \<^verbatim>\<open>-removeObject:\<close> 5 leaves one of the two fives, although the header
  promises to remove all objects that match.
\<close>

theorem remove_object_misses:
  "fill_queue (heap_push small_alloc) sample_heap [1, 5, 2, 5, 6, 3] = Some filled_heap \<and>
     heap_elems (removeObject (=) filled_heap 5) = {#1, 2, 3, 5, 6#}"
proof -
  have "removeObject (=) filled_heap 5 =
      filled_heap\<lparr>data := map Some [1, 3, 2, 5, 6] @ [None, None, None], hsize := 5\<rparr>"
    by (simp add: removeObject_def heap_eval remove_down_numeral)
  then have "heap_elems (removeObject (=) filled_heap 5) = {#1, 2, 3, 5, 6#}"
    by (simp add: heap_elems_def)
  with filled_heap_filled show ?thesis by (rule conjI)
qed

lemma heap_push_room: "hsize h < capacity h \<Longrightarrow> fst (heap_push alloc h x)"
  by (simp add: heap_push_def split: prod.split)

lemma heap_remove_capacity: "capacity (snd (heap_remove h k)) = capacity h"
  by (simp add: heap_remove_def Let_def split: prod.split)

lemma single_cell:
  assumes "count (heap_elems h) obj = 1" "m < hsize h" "data h ! m = Some obj"
    "i < hsize h" "i \<noteq> m" "hsize h \<le> length (data h)"
  shows "data h ! i \<noteq> Some obj"
proof
  assume "data h ! i = Some obj"
  then have cells: "map the (take (hsize h) (data h)) ! i = obj"
      "map the (take (hsize h) (data h)) ! m = obj" "i < length (map the (take (hsize h) (data h)))"
      "m < length (map the (take (hsize h) (data h)))"
    using assms by auto
  have "count (mset (map the (take (hsize h) (data h)))) obj = 1"
    using assms(1) by (simp add: heap_elems_def)
  from count_one_unique [OF this cells(3,4,1,2)] have "i = m" .
  with assms(5) show False ..
qed

lemma hole_order_new_keys:
  assumes "hole_order (id_compare cmp0) d n m" and "\<And>i. i < n \<Longrightarrow> i \<noteq> m \<Longrightarrow> d ! i \<noteq> Some obj"
    and "\<And>x y. x \<noteq> obj \<Longrightarrow> y \<noteq> obj \<Longrightarrow> cmp x y = cmp0 x y"
  shows "hole_order (id_compare cmp) d n m"
proof -
  have eq: "id_compare cmp (d ! i) (d ! j) = id_compare cmp0 (d ! i) (d ! j)"
    if "i < n" "i \<noteq> m" "j < n" "j \<noteq> m" for i j
    using assms(2) [OF that(1,2)] assms(2) [OF that(3,4)] assms(3)
    by (cases "d ! i"; cases "d ! j") auto
  show ?thesis
    unfolding hole_order_def
  proof (intro conjI allI impI)
    fix j assume j: "j < n" "0 < j"
    then have p: "parent j < n" by simp
    show "not_after (id_compare cmp) (d ! parent j) (d ! j)" if "j \<noteq> m" "parent j \<noteq> m"
      using assms(1) j p that eq [OF p that(2) j(1) that(1)] by (simp add: hole_order_def not_after_def)
    show "not_after (id_compare cmp) (d ! parent m) (d ! j)" if m: "parent j = m" "0 < m"
    proof -
      have "parent m < n" "parent m \<noteq> m" "j \<noteq> m"
        using m p j parent_neq [of j] by auto
      with assms(1) j m eq [of "parent m" j] show ?thesis by (simp add: hole_order_def not_after_def)
    qed
  qed
qed

text \<open>
  When one object's key has changed, \<^verbatim>\<open>-repositionObject:\<close> brings the heap back in order
  under the new keys, with the same objects in it, and answers the object: \<open>cmp0\<close> compares by
  the keys before the change, \<open>cmp\<close> by those after it, and they differ on that object only.
\<close>

theorem reposition_restores_order:
  assumes "object_comparator ok0 cmp0" and "object_comparator ok cmp"
    and "heap_wf ok0 cmp0 h" and "\<forall>x \<in># heap_elems h. ok x"
    and "\<forall>x y. x \<noteq> obj \<longrightarrow> y \<noteq> obj \<longrightarrow> cmp x y = cmp0 x y"
    and "count (heap_elems h) obj = 1"
    and "repositionObject alloc (h\<lparr>hcompare := cmp\<rparr>) obj = (r, h')"
  shows "r = Some obj \<and> heap_wf ok cmp h' \<and> heap_elems h' = heap_elems h"
proof -
  let ?h = "h\<lparr>hcompare := cmp\<rparr>" and ?n = "hsize h"
  have shape: "heap_shape cmp ?h" and len: "?n \<le> length (data h)"
    using assms(3) by (auto simp: heap_wf_def heap_shape_def)
  have "obj \<in># heap_elems h" using assms(6) by (simp flip: count_greater_zero_iff)
  then obtain m where m: "m < ?n" "data h ! m = Some obj"
    using object_comparator.elems_cell [OF assms(1,3)] by auto
  have other: "data h ! i \<noteq> Some obj" if "i < ?n" "i \<noteq> m" for i
    using single_cell [OF assms(6) m that] len by simp
  have cells: "\<forall>i<?n. i \<noteq> m \<longrightarrow> ok_id ok (data h ! i)"
    using object_comparator.elems_ok [OF assms(1,3)] assms(4) by blast
  have hole: "hole_order (id_compare cmp) (data h) ?n m"
  proof (rule hole_order_new_keys)
    show "hole_order (id_compare cmp0) (data h) ?n m"
      using object_comparator.heap_wf_hole [OF assms(1,3) m(1)] .
    show "data h ! i \<noteq> Some obj" if "i < ?n" "i \<noteq> m" for i using that by (rule other)
    show "cmp x y = cmp0 x y" if "x \<noteq> obj" "y \<noteq> obj" for x y using that assms(5) by blast
  qed
  obtain x g where g: "heap_remove ?h m = (x, g)" by fastforce
  have rem: "x = Some obj" "heap_wf ok cmp g" "hsize g = ?n - 1"
      "heap_elems h = add_mset obj (heap_elems g)"
    using object_comparator.heap_remove_hole [OF assms(2) shape _ _ _ g] m hole cells
    by (auto simp: heap_elems_def)
  have "obj \<notin># heap_elems g" using assms(6) rem(4) by (auto simp flip: count_eq_zero_iff)
  then have "\<forall>i<m. data g ! i \<noteq> Some obj"
    using object_comparator.elems_cell [OF assms(2) rem(2)] m(1) rem(3) by auto
  then have down: "reposition_down obj ?h ?n None = (Some obj, g)"
    using reposition_down_single [of m ?n ?h obj g] m other g rem(1) by auto
  obtain b g' where push: "heap_push alloc g obj = (b, g')" by fastforce
  have "b"
    using push heap_push_room [of g alloc obj] heap_remove_capacity [of ?h m] g rem(3) m(1) shape
    by (auto simp: heap_shape_def)
  moreover have "ok obj" using assms(4) \<open>obj \<in># heap_elems h\<close> by simp
  ultimately have "heap_wf ok cmp g'" "heap_elems g' = heap_elems h"
    using object_comparator.heap_push_law [OF assms(2) rem(2) _ push] rem(4) by auto
  moreover have "r = Some obj" "h' = g'"
    using assms(7) down push by (auto simp: repositionObject_def)
  ultimately show ?thesis by simp
qed

definition moved_key :: "int comparison" where
  "moved_key x y = integer_compare (if x = 2 then 10 else x) (if y = 2 then 10 else y)"

lemma moved_key_comparator: "object_comparator (\<lambda>_. True) moved_key"
  by unfold_locales (auto simp: moved_key_def integer_compare_def not_after_def split: if_splits)

theorem reposition_restores_order_witness:
  "fst (repositionObject small_alloc (filled_heap\<lparr>hcompare := moved_key\<rparr>) 2) = Some 2 \<and>
     heap_wf (\<lambda>_. True) moved_key (snd (repositionObject small_alloc (filled_heap\<lparr>hcompare := moved_key\<rparr>) 2))"
proof -
  have c: "count (heap_elems filled_heap) 2 = 1" by (simp add: heap_elems_def filled_heap_def)
  obtain r h' where r: "repositionObject small_alloc (filled_heap\<lparr>hcompare := moved_key\<rparr>) 2 = (r, h')"
    by fastforce
  have "r = Some 2 \<and> heap_wf (\<lambda>_. True) moved_key h' \<and> heap_elems h' = heap_elems filled_heap"
    by (rule reposition_restores_order [OF integer_objects.object_comparator_axioms
          moved_key_comparator filled_heap_wf _ _ c r]) (simp_all add: moved_key_def)
  with r show ?thesis by simp
qed

text \<open>
  \<^verbatim>\<open>-push:\<close> adds the object to a well-formed heap and answers YES, growing the array
  when it is full, or answers NO and leaves the heap as it was (\<open>nil\<close>, or no memory to grow);
  it cannot fail while there is room. \<^verbatim>\<open>-pushIfNotPresent:\<close> adds nothing when the object is
  there already.
\<close>

theorem push_adds_or_fails:
  assumes "object_comparator ok cmp" and "heap_wf ok cmp h" and "ok x"
  shows "push alloc h None = (False, h) \<and>
    heap_wf ok cmp (snd (push alloc h (Some x))) \<and>
    (if fst (push alloc h (Some x)) then heap_elems (snd (push alloc h (Some x))) = add_mset x (heap_elems h)
     else snd (push alloc h (Some x)) = h) \<and>
    (hsize h < capacity h \<longrightarrow> fst (push alloc h (Some x))) \<and>
    (x \<in># heap_elems h \<longrightarrow> pushIfNotPresent alloc h (Some x) = (True, h)) \<and>
    (x \<notin># heap_elems h \<longrightarrow> pushIfNotPresent alloc h (Some x) = push alloc h (Some x))"
proof -
  obtain b h' where p: "heap_push alloc h x = (b, h')" by fastforce
  have "find_down (\<lambda>y. x = y) (data h) n \<longleftrightarrow> (\<exists>i<n. data h ! i = Some x)" for n
    by (induction n) (auto split: option.splits simp: less_Suc_eq)
  then have "find_down (\<lambda>y. x = y) (data h) (hsize h) \<longleftrightarrow> x \<in># heap_elems h"
    using object_comparator.elems_cell [OF assms(1,2)] by simp
  with p object_comparator.heap_push_law [OF assms p] heap_push_room [of h alloc x] show ?thesis
    by (auto simp: push_def pushIfNotPresent_def split: if_splits)
qed

theorem push_adds_or_fails_witness:
  "heap_elems (snd (push small_alloc filled_heap (Some 4))) = add_mset 4 (heap_elems filled_heap)"
proof -
  have room: "hsize filled_heap < capacity filled_heap" by (simp add: filled_heap_def)
  show ?thesis
    using push_adds_or_fails [OF integer_objects.object_comparator_axioms filled_heap_wf,
        where x = 4 and alloc = small_alloc] room
    by simp
qed

end
