(* ===== verification/NS_Range.thy ===== *)
theory NS_Range
  imports Base_Prelude
begin

text \<open>
  \<^verbatim>\<open>Headers/Foundation/NSRange.h\<close> and \<^verbatim>\<open>Source/NSRange.m\<close>: ranges of unsigned
  64-bit locations, with the wrap-around of the additions and subtractions the inline
  functions make. \<open>NSMakeRange\<close> raises \<^verbatim>\<open>NSRangeException\<close> when the end does not fit.
\<close>

record NSRange =
  location :: NSUInteger
  rlength :: NSUInteger

datatype range_error = NSRangeException

definition NSMaxRange :: "NSRange \<Rightarrow> NSUInteger" where
  "NSMaxRange r = uadd (location r) (rlength r)"

definition NSLocationInRange :: "NSUInteger \<Rightarrow> NSRange \<Rightarrow> bool" where
  "NSLocationInRange l r \<longleftrightarrow> l \<ge> location r \<and> l < NSMaxRange r"

definition NSMakeRange :: "NSUInteger \<Rightarrow> NSUInteger \<Rightarrow> range_error + NSRange" where
  "NSMakeRange l n =
     (let top = uadd l n
      in if top < l \<or> top < n then Inl NSRangeException else Inr \<lparr>location = l, rlength = n\<rparr>)"

definition NSEqualRanges :: "NSRange \<Rightarrow> NSRange \<Rightarrow> bool" where
  "NSEqualRanges r1 r2 \<longleftrightarrow> location r1 = location r2 \<and> rlength r1 = rlength r2"

definition NSUnionRange :: "NSRange \<Rightarrow> NSRange \<Rightarrow> NSRange" where
  "NSUnionRange a b =
     (let l = min (location a) (location b)
      in \<lparr>location = l, rlength = usub (max (NSMaxRange a) (NSMaxRange b)) l\<rparr>)"

definition NSIntersectionRange :: "NSRange \<Rightarrow> NSRange \<Rightarrow> NSRange" where
  "NSIntersectionRange a b =
     (if NSMaxRange a < location b \<or> NSMaxRange b < location a then \<lparr>location = 0, rlength = 0\<rparr>
      else let l = max (location a) (location b)
           in \<lparr>location = l, rlength = usub (min (NSMaxRange a) (NSMaxRange b)) l\<rparr>)"

text \<open>A range that lies inside the 64-bit span, and the locations it stands for.\<close>

definition range_ok :: "NSRange \<Rightarrow> bool" where
  "range_ok r \<longleftrightarrow> location r + rlength r < UINT_SPAN"

definition range_set :: "NSRange \<Rightarrow> nat set" where
  "range_set r = {location r ..< location r + rlength r}"

lemma NSMaxRange_ok [bounds_simps]: "range_ok r \<Longrightarrow> NSMaxRange r = location r + rlength r"
  by (simp add: NSMaxRange_def range_ok_def bounds_simps)

lemma NSMakeRange_iff:
  assumes "l < UINT_SPAN" "n < UINT_SPAN"
  shows "NSMakeRange l n = (if l + n < UINT_SPAN then Inr \<lparr>location = l, rlength = n\<rparr>
      else Inl NSRangeException)"
  using assms by (auto simp: NSMakeRange_def Let_def uadd_def mod_if)

lemma NSLocationInRange_iff: "range_ok r \<Longrightarrow> NSLocationInRange l r \<longleftrightarrow> l \<in> range_set r"
  by (simp add: NSLocationInRange_def range_set_def bounds_simps)

text \<open>
  On ranges that fit the span, \<open>NSIntersectionRange\<close> is the intersection of the two
  sets of locations, and \<open>NSUnionRange\<close> the least range that holds both; \<open>NSMakeRange\<close>
  raises exactly when the end would wrap.
\<close>

theorem range_operations:
  assumes "range_ok a" and "range_ok b"
  shows "range_set (NSIntersectionRange a b) = range_set a \<inter> range_set b \<and>
    range_ok (NSIntersectionRange a b) \<and>
    range_set (NSUnionRange a b) =
      {min (location a) (location b) ..< max (location a + rlength a) (location b + rlength b)} \<and>
    range_ok (NSUnionRange a b) \<and>
    NSMakeRange (location a) (rlength a) = Inr a"
  using assms NSMakeRange_iff [of "location a" "rlength a"]
  by (auto simp: NSIntersectionRange_def NSUnionRange_def NSMaxRange_ok range_set_def range_ok_def
      Let_def bounds_simps)

theorem range_operations_witness:
  "range_set (NSIntersectionRange \<lparr>location = 2, rlength = 5\<rparr> \<lparr>location = 4, rlength = 9\<rparr>) = {4, 5, 6}"
  using range_operations [of "\<lparr>location = 2, rlength = 5\<rparr>" "\<lparr>location = 4, rlength = 9\<rparr>"]
  by (auto simp: range_ok_def range_set_def)

end
