(* ===== verification/Sort_Search.thy ===== *)
theory Sort_Search
  imports NS_Range
begin

text \<open>
  The searching half of \<^verbatim>\<open>Source/GSTimSort.m\<close>: galloping and binary search for the
  insertion point of a key in a sorted range of a buffer (\<^verbatim>\<open>gallopLeft\<close>,
  \<^verbatim>\<open>gallopRight\<close>), the public insertion point functions, and the routines that make
  runs (\<^verbatim>\<open>reverseRange\<close>, \<^verbatim>\<open>internalBinarySort\<close>, \<^verbatim>\<open>countAscendizedRun\<close>).
  Buffers are lists, cells outside them are never read under the stated bounds. The three
  ways of comparing (descriptor, block, function) are one parameter \<open>cmp\<close>.
\<close>

section \<open>Galloping\<close>

text \<open>
  \<^verbatim>\<open>offset = (offset << 1) + 1\<close>; the code takes a product that is not positive for an
  overflow of the signed 64-bit offset and falls back to the limit.
\<close>

definition gallop_next :: "int \<Rightarrow> int \<Rightarrow> int" where
  "gallop_next maxOffset offset =
     (let o' = 2 * offset + 1 in if o' \<le> 0 \<or> o' \<ge> 2 ^ 63 then maxOffset else o')"

function gallop_stride :: "(int \<Rightarrow> bool) \<Rightarrow> int \<Rightarrow> int \<Rightarrow> int \<Rightarrow> int \<times> int" where
  "gallop_stride go maxOffset offset lastOffset =
     (if offset < maxOffset \<and> go offset
      then gallop_stride go maxOffset (gallop_next maxOffset offset) offset
      else (offset, lastOffset))"
  by pat_completeness auto
termination
  by (relation "measure (\<lambda>(go, m, i, l). nat (m - i))") (auto simp: gallop_next_def Let_def)

function gallop_search :: "(int \<Rightarrow> bool) \<Rightarrow> int \<Rightarrow> int \<Rightarrow> int" where
  "gallop_search right lastOffset offset =
     (if lastOffset < offset
      then let midPoint = lastOffset + (offset - lastOffset) div 2
           in if right midPoint then gallop_search right (midPoint + 1) offset
              else gallop_search right lastOffset midPoint
      else offset)"
  by pat_completeness auto
termination
  by (relation "measure (\<lambda>(right, l, r). nat (r - l))") (auto simp: Let_def)

declare gallop_stride.simps [simp del] gallop_search.simps [simp del]

definition gallopLeft :: "'a comparison \<Rightarrow> 'a \<Rightarrow> 'a list \<Rightarrow> NSRange \<Rightarrow> NSUInteger \<Rightarrow> NSUInteger" where
  "gallopLeft cmp key buf r hint =
     (let loc = int (location r); b = loc + int hint;
          before = (\<lambda>i. cmp (buf ! nat i) key = NSOrderedAscending);
          (offset, lastOffset) =
            (if before b
             then let maxOffset = int (rlength r) - int hint;
                      (offset, lastOffset) = gallop_stride (\<lambda>i. before (b + i)) maxOffset 1 0;
                      offset = (if offset > maxOffset then maxOffset else offset)
                  in (offset + b, lastOffset + b)
             else let maxOffset = int hint + 1;
                      (offset, lastOffset) = gallop_stride (\<lambda>i. \<not> before (b - i)) maxOffset 1 0
                  in (b - lastOffset, b - offset));
          offset = min offset (int (NSMaxRange r));
          lastOffset = (if lastOffset < loc then loc else lastOffset)
      in nat (gallop_search before lastOffset offset))"

definition gallopRight :: "'a comparison \<Rightarrow> 'a \<Rightarrow> 'a list \<Rightarrow> NSRange \<Rightarrow> NSUInteger \<Rightarrow> NSUInteger" where
  "gallopRight cmp key buf r hint =
     (let loc = int (location r); b = loc + int hint;
          after = (\<lambda>i. cmp key (buf ! nat i) = NSOrderedAscending);
          (offset, lastOffset) =
            (if after b
             then let maxOffset = int hint + 1;
                      (offset, lastOffset) = gallop_stride (\<lambda>i. after (b - i)) maxOffset 1 0;
                      offset = (if offset > maxOffset then maxOffset else offset)
                  in (b - lastOffset, b - offset)
             else let maxOffset = int (rlength r) - int hint;
                      (offset, lastOffset) = gallop_stride (\<lambda>i. \<not> after (b + i)) maxOffset 1 0
                  in (offset + b, lastOffset + b));
          lastOffset = lastOffset + 1;
          offset = min offset (int (NSMaxRange r));
          lastOffset = (if lastOffset < loc then loc else lastOffset)
      in nat (gallop_search (\<lambda>i. \<not> after i) lastOffset offset))"

definition GSLeftInsertionPointForKeyInSortedRange ::
  "'a \<Rightarrow> 'a list \<Rightarrow> NSRange \<Rightarrow> 'a comparison \<Rightarrow> NSUInteger" where
  "GSLeftInsertionPointForKeyInSortedRange key buffer r cmptr = gallopLeft cmptr key buffer r 0"

definition GSRightInsertionPointForKeyInSortedRange ::
  "'a \<Rightarrow> 'a list \<Rightarrow> NSRange \<Rightarrow> 'a comparison \<Rightarrow> NSUInteger" where
  "GSRightInsertionPointForKeyInSortedRange key buffer r cmptr = gallopRight cmptr key buffer r 0"

section \<open>Making runs\<close>

function reverse_loop :: "'a list \<Rightarrow> nat \<Rightarrow> nat \<Rightarrow> 'a list" where
  "reverse_loop buffer loc mx =
     (if loc < mx then reverse_loop (buffer[loc := buffer ! mx, mx := buffer ! loc]) (loc + 1) (mx - 1)
      else buffer)"
  by pat_completeness auto
termination
  by (relation "measure (\<lambda>(b, l, m). m - l)") auto

declare reverse_loop.simps [simp del]

definition reverseRange :: "'a list \<Rightarrow> NSRange \<Rightarrow> 'a list" where
  "reverseRange buffer r = reverse_loop buffer (location r) (usub (NSMaxRange r) 1)"

text \<open>Where the binary search of a pivot ends: the values of \<open>left\<close> and \<open>right\<close>.\<close>

function insertion_search :: "'a comparison \<Rightarrow> 'a list \<Rightarrow> 'a \<Rightarrow> nat \<Rightarrow> nat \<Rightarrow> nat \<times> nat" where
  "insertion_search cmp buffer pivot left right =
     (let midPoint = left + (right - left) div 2;
          (left', right') = (if cmp pivot (buffer ! midPoint) = NSOrderedAscending
                             then (left, midPoint) else (midPoint + 1, right))
      in if left' < right' then insertion_search cmp buffer pivot left' right' else (left', right'))"
  by pat_completeness auto
termination
  by (relation "measure (\<lambda>(c, b, p, l, r). r - l)") (auto split: if_splits)

declare insertion_search.simps [simp del]

text \<open>\<^verbatim>\<open>for (i = start; i > left; --i) buffer[i] = buffer[i - 1]\<close>\<close>

fun shift_right :: "'a list \<Rightarrow> nat \<Rightarrow> nat \<Rightarrow> 'a list" where
  "shift_right buffer left 0 = buffer"
| "shift_right buffer left (Suc i) =
     (if Suc i > left then shift_right (buffer[Suc i := buffer ! i]) left i else buffer)"

text \<open>
  The loop counter is an \<^verbatim>\<open>int\<close>: a start beyond its range comes out negative, passes the
  unsigned test against \<open>left\<close> and writes before the buffer (\<open>None\<close>), or comes out too small.
\<close>

definition make_room :: "'a list \<Rightarrow> nat \<Rightarrow> nat \<Rightarrow> 'a list option" where
  "make_room buffer left start =
     (let i = sint32 (int start) in if i < 0 then None else Some (shift_right buffer left (nat i)))"

function binary_sort_loop :: "'a comparison \<Rightarrow> 'a list \<Rightarrow> nat \<Rightarrow> nat \<Rightarrow> nat \<Rightarrow> 'a list option" where
  "binary_sort_loop cmp buffer mn mx start =
     (if start < mx
      then let pivot = buffer ! start;
               (left, right) = insertion_search cmp buffer pivot mn start
           in if left \<noteq> right then None
              else (case make_room buffer left start of
                      None \<Rightarrow> None
                    | Some b \<Rightarrow> binary_sort_loop cmp (b[left := pivot]) mn mx (start + 1))
      else Some buffer)"
  by pat_completeness auto
termination
  by (relation "measure (\<lambda>(c, b, mn, mx, s). mx - s)") auto

declare binary_sort_loop.simps [simp del]

text \<open>
  \<open>None\<close> also stands for the two failed assertions: that \<open>start\<close> lies in the range, and that the binary search
  ends with \<open>left = right\<close>.
\<close>

definition internalBinarySort :: "'a comparison \<Rightarrow> 'a list \<Rightarrow> NSRange \<Rightarrow> nat \<Rightarrow> 'a list option" where
  "internalBinarySort cmp buffer r start =
     (let mn = location r; mx = NSMaxRange r
      in if \<not> NSLocationInRange start r then None
         else binary_sort_loop cmp buffer mn mx (if mn = start then start + 1 else start))"

function run_end :: "('a \<Rightarrow> 'a \<Rightarrow> bool) \<Rightarrow> 'a list \<Rightarrow> nat \<Rightarrow> nat \<Rightarrow> nat" where
  "run_end goes_on buf runMax rangeMax =
     (if runMax < rangeMax \<and> goes_on (buf ! (runMax - 1)) (buf ! runMax)
      then run_end goes_on buf (runMax + 1) rangeMax else runMax)"
  by pat_completeness auto
termination
  by (relation "measure (\<lambda>(g, b, m, x). x - m)") auto

declare run_end.simps [simp del]

definition countAscendizedRun :: "'a comparison \<Rightarrow> 'a list \<Rightarrow> NSRange \<Rightarrow> 'a list \<times> nat" where
  "countAscendizedRun cmp buf r =
     (let mn = location r; rangeMax = NSMaxRange r
      in if mn + 1 = rangeMax then (buf, 1)
         else if cmp (buf ! mn) (buf ! (mn + 1)) = NSOrderedDescending
         then let runMax = run_end (\<lambda>a b. cmp a b = NSOrderedDescending) buf (mn + 2) rangeMax
              in (reverseRange buf \<lparr>location = mn, rlength = runMax - mn\<rparr>, runMax - mn)
         else let runMax = run_end (\<lambda>a b. cmp a b \<noteq> NSOrderedDescending) buf (mn + 2) rangeMax
              in (buf, runMax - mn))"

section \<open>Correctness of the searches\<close>

text \<open>
  \<open>p\<close> splits the positions from \<open>lo\<close> to \<open>hi\<close>: the predicate holds below it and fails
  from it on.
\<close>

definition boundary :: "(int \<Rightarrow> bool) \<Rightarrow> int \<Rightarrow> int \<Rightarrow> int \<Rightarrow> bool" where
  "boundary Q lo hi p \<longleftrightarrow> lo \<le> p \<and> p \<le> hi \<and>
     (\<forall>i. lo \<le> i \<and> i < p \<longrightarrow> Q i) \<and> (\<forall>i. p \<le> i \<and> i < hi \<longrightarrow> \<not> Q i)"

lemma boundary_iff: "boundary Q lo hi p \<Longrightarrow> lo \<le> i \<Longrightarrow> i < hi \<Longrightarrow> Q i \<longleftrightarrow> i < p"
  unfolding boundary_def by (meson not_le)

lemma gallop_search_boundary:
  "boundary Q lo hi p \<Longrightarrow> lo \<le> l \<Longrightarrow> l \<le> p \<Longrightarrow> p \<le> r \<Longrightarrow> r \<le> hi \<Longrightarrow> gallop_search Q l r = p"
proof (induction Q l r rule: gallop_search.induct)
  case (1 Q l r)
  show ?case
  proof (cases "l < r")
    case True
    let ?m = "l + (r - l) div 2"
    have m: "l \<le> ?m" "?m < r" using True by auto
    then have "Q ?m \<longleftrightarrow> ?m < p" using "1.prems" by (intro boundary_iff [of Q lo hi p]) auto
    moreover have "gallop_search Q (?m + 1) r = p" if "Q ?m" "?m < p"
      using that "1.prems" by (intro "1.IH"(1) [OF True refl]) auto
    moreover have "gallop_search Q l ?m = p" if "\<not> Q ?m" "p \<le> ?m"
      using that "1.prems" m by (intro "1.IH"(2) [OF True refl]) auto
    ultimately show ?thesis using True by (auto simp: gallop_search.simps [of Q l r] Let_def)
  next
    case False
    with "1.prems" show ?thesis by (simp add: gallop_search.simps [of Q l r])
  qed
qed

lemma gallop_stride_result:
  "gallop_stride go m i l = (i', l') \<Longrightarrow> 0 \<le> l \<Longrightarrow> l < i \<Longrightarrow> l < m \<Longrightarrow> l = 0 \<or> go l \<Longrightarrow>
     0 \<le> l' \<and> l' < i' \<and> l' < m \<and> (l' = 0 \<or> go l') \<and> (m \<le> i' \<or> \<not> go i')"
proof (induction go m i l rule: gallop_stride.induct)
  case (1 go m i l)
  show ?case
  proof (cases "i < m \<and> go i")
    case True
    then have "gallop_stride go m (gallop_next m i) i = (i', l')"
      using "1.prems"(1) by (simp add: gallop_stride.simps [of go m i l])
    moreover have "i < gallop_next m i"
      using True "1.prems" by (auto simp: gallop_next_def Let_def)
    ultimately show ?thesis using "1.IH" True "1.prems" by auto
  next
    case False
    with "1.prems" show ?thesis by (auto simp: gallop_stride.simps [of go m i l])
  qed
qed

lemmas stride_from_start = gallop_stride_result [where i = 1 and l = 0, simplified]

lemma gallopLeft_boundary:
  assumes r: "range_ok r" and hint: "hint < rlength r"
    and p: "boundary (\<lambda>i. cmp (buf ! nat i) key = NSOrderedAscending)
      (int (location r)) (int (location r + rlength r)) (int p)"
  shows "gallopLeft cmp key buf r hint = p"
proof -
  define Q where "Q = (\<lambda>i. cmp (buf ! nat i) key = NSOrderedAscending)"
  define lo where "lo = int (location r)"
  define hi where "hi = int (location r + rlength r)"
  define b where "b = lo + int hint"
  have b: "lo \<le> b" "b < hi" using hint by (simp_all add: b_def lo_def hi_def)
  have mx: "int (NSMaxRange r) = hi" using r by (simp add: hi_def bounds_simps)
  note bd = p [folded Q_def lo_def hi_def]
  have lh: "lo \<le> int p" "int p \<le> hi" using bd by (auto simp: boundary_def)
  have Q: "Q i \<longleftrightarrow> i < int p" if "lo \<le> i" "i < hi" for i using bd that by (rule boundary_iff)
  show ?thesis
  proof (cases "Q b")
    case True
    let ?m = "int (rlength r) - int hint"
    obtain i l where st: "gallop_stride (\<lambda>i. Q (b + i)) ?m 1 0 = (i, l)" by fastforce
    have m: "b + ?m = hi" by (simp add: b_def lo_def hi_def)
    have res: "0 \<le> l" "l < i" "l < ?m" "l = 0 \<or> Q (b + l)" "?m \<le> i \<or> \<not> Q (b + i)"
      using stride_from_start [OF st] hint by auto
    then have "b + l < int p" using True Q [of "b + l"] Q [of b] b m by auto
    moreover have "int p \<le> min (b + i) hi"
      using res(1,2,5) Q [of "b + i"] lh b m by (cases "i < ?m") auto
    moreover have "min (b + (if i > ?m then ?m else i)) hi = min (b + i) hi" using m by auto
    ultimately have "gallop_search Q (b + l) (min (b + (if i > ?m then ?m else i)) hi) = int p"
      using bd b res(1) by (intro gallop_search_boundary) auto
    moreover have "\<not> b + l < lo" using b res(1) by simp
    ultimately show ?thesis using True st mx
      by (simp add: gallopLeft_def Let_def Q_def [symmetric] lo_def [symmetric] b_def [symmetric]
          add.commute)
  next
    case False
    let ?m = "int hint + 1"
    obtain i l where st: "gallop_stride (\<lambda>i. \<not> Q (b - i)) ?m 1 0 = (i, l)" by fastforce
    have m: "b - ?m = lo - 1" by (simp add: b_def)
    have res: "0 \<le> l" "l < i" "l < ?m" "l = 0 \<or> \<not> Q (b - l)" "?m \<le> i \<or> Q (b - i)"
      using stride_from_start [OF st] by auto
    then have "int p \<le> b - l" using False Q [of "b - l"] Q [of b] b m by auto
    moreover have "(if b - i < lo then lo else b - i) \<le> int p"
      using res(1,2,5) Q [of "b - i"] lh b m by (cases "i < ?m") auto
    moreover have "min (b - l) hi = b - l" using b res(1) by simp
    ultimately have "gallop_search Q (if b - i < lo then lo else b - i) (min (b - l) hi) = int p"
      using bd b res(1) by (intro gallop_search_boundary) auto
    then show ?thesis using False st mx
      by (simp add: gallopLeft_def Let_def Q_def [symmetric] lo_def [symmetric] b_def [symmetric])
  qed
qed

lemma gallopRight_boundary:
  assumes r: "range_ok r" and hint: "hint < rlength r"
    and p: "boundary (\<lambda>i. cmp key (buf ! nat i) \<noteq> NSOrderedAscending)
      (int (location r)) (int (location r + rlength r)) (int p)"
  shows "gallopRight cmp key buf r hint = p"
proof -
  define A where "A = (\<lambda>i. cmp key (buf ! nat i) = NSOrderedAscending)"
  define lo where "lo = int (location r)"
  define hi where "hi = int (location r + rlength r)"
  define b where "b = lo + int hint"
  have b: "lo \<le> b" "b < hi" using hint by (simp_all add: b_def lo_def hi_def)
  have mx: "int (NSMaxRange r) = hi" using r by (simp add: hi_def bounds_simps)
  have bd: "boundary (\<lambda>i. \<not> A i) lo hi (int p)" using p by (simp add: A_def lo_def hi_def)
  have lh: "lo \<le> int p" "int p \<le> hi" using bd by (auto simp: boundary_def)
  have A: "\<not> A i \<longleftrightarrow> i < int p" if "lo \<le> i" "i < hi" for i
    using boundary_iff [OF bd that] .
  show ?thesis
  proof (cases "A b")
    case True
    let ?m = "int hint + 1"
    obtain i l where st: "gallop_stride (\<lambda>i. A (b - i)) ?m 1 0 = (i, l)" by fastforce
    let ?i = "if i > ?m then ?m else i"
    have m: "b - ?m = lo - 1" by (simp add: b_def)
    have res: "0 \<le> l" "l < i" "l < ?m" "l = 0 \<or> A (b - l)" "?m \<le> i \<or> \<not> A (b - i)"
      using stride_from_start [OF st] by auto
    then have "int p \<le> b - l" using True A [of "b - l"] A [of b] b m by auto
    moreover have "(if b - ?i + 1 < lo then lo else b - ?i + 1) \<le> int p"
      using res(1,2,5) A [of "b - i"] lh b m by (cases "i < ?m") auto
    moreover have "min (b - l) hi = b - l" using b res(1) by simp
    ultimately have "gallop_search (\<lambda>i. \<not> A i) (if b - ?i + 1 < lo then lo else b - ?i + 1)
        (min (b - l) hi) = int p"
      using bd b res(1) by (intro gallop_search_boundary) auto
    then show ?thesis using True st mx
      by (simp add: gallopRight_def Let_def A_def [symmetric] lo_def [symmetric] b_def [symmetric])
  next
    case False
    let ?m = "int (rlength r) - int hint"
    obtain i l where st: "gallop_stride (\<lambda>i. \<not> A (b + i)) ?m 1 0 = (i, l)" by fastforce
    have m: "b + ?m = hi" by (simp add: b_def lo_def hi_def)
    have res: "0 \<le> l" "l < i" "l < ?m" "l = 0 \<or> \<not> A (b + l)" "?m \<le> i \<or> A (b + i)"
      using stride_from_start [OF st] hint by auto
    then have "b + l < int p" using False A [of "b + l"] A [of b] b m by auto
    moreover have "int p \<le> min (b + i) hi"
      using res(1,2,5) A [of "b + i"] lh b m by (cases "i < ?m") auto
    ultimately have "gallop_search (\<lambda>i. \<not> A i) (b + l + 1) (min (b + i) hi) = int p"
      using bd b res(1) by (intro gallop_search_boundary) auto
    moreover have "\<not> b + l + 1 < lo" using b res(1) by simp
    ultimately show ?thesis using False st mx
      by (simp add: gallopRight_def Let_def A_def [symmetric] lo_def [symmetric] b_def [symmetric]
          add.commute add.assoc)
  qed
qed

text \<open>In a sorted range the searches count the elements before the key, and those not after it.\<close>

definition cells :: "NSRange \<Rightarrow> 'a list \<Rightarrow> 'a list" where
  "cells r buf = take (rlength r) (drop (location r) buf)"

lemma boundary_takeWhile:
  assumes "location r + rlength r \<le> length buf"
    and "\<And>i j. i < j \<Longrightarrow> j < rlength r \<Longrightarrow> P (cells r buf ! j) \<Longrightarrow> P (cells r buf ! i)"
  shows "boundary (\<lambda>i. P (buf ! nat i)) (int (location r)) (int (location r + rlength r))
    (int (location r + length (takeWhile P (cells r buf))))"
proof -
  let ?xs = "cells r buf"
  let ?k = "length (takeWhile P ?xs)"
  have len: "length ?xs = rlength r" using assms(1) by (simp add: cells_def)
  then have k: "?k \<le> rlength r" by (metis length_takeWhile_le)
  have at: "buf ! nat i = ?xs ! (nat i - location r)" if "int (location r) \<le> i" "i < int (location r + rlength r)" for i
    using that assms(1) by (simp add: cells_def)
  have below: "P (?xs ! i)" if "i < ?k" for i
    using takeWhile_prefix [OF that] .
  have above: "\<not> P (?xs ! i)" if "?k \<le> i" "i < rlength r" for i
  proof
    assume "P (?xs ! i)"
    moreover have "\<not> P (?xs ! ?k)" using that len by (simp add: nth_length_takeWhile)
    ultimately show False using assms(2) [of ?k i] that by (cases "i = ?k") auto
  qed
  show ?thesis
    unfolding boundary_def using k at below above
    by (auto simp: nat_less_iff le_nat_iff)
qed

context comparator_laws
begin

lemma left_boundary:
  assumes "location r + rlength r \<le> length buf"
    and "ok key" "\<forall>x \<in> set (cells r buf). ok x" "ordered_by cmp (cells r buf)"
  shows "boundary (\<lambda>i. cmp (buf ! nat i) key = NSOrderedAscending)
    (int (location r)) (int (location r + rlength r))
    (int (location r + length (takeWhile (\<lambda>x. cmp x key = NSOrderedAscending) (cells r buf))))"
proof (rule boundary_takeWhile [OF assms(1)])
  fix i j assume ij: "i < j" "j < rlength r" "cmp (cells r buf ! j) key = NSOrderedAscending"
  have len: "length (cells r buf) = rlength r" using assms(1) by (simp add: cells_def)
  then have ok: "ok (cells r buf ! i)" "ok (cells r buf ! j)" using assms(3) ij by simp_all
  have "not_after cmp (cells r buf ! i) (cells r buf ! j)"
    using ordered_by_nth [OF assms(4) ij(1)] ij len by simp
  then show "cmp (cells r buf ! i) key = NSOrderedAscending"
    using ij(3) by (rule before_trans' [OF ok assms(2)])
qed

lemma right_boundary:
  assumes "location r + rlength r \<le> length buf"
    and "ok key" "\<forall>x \<in> set (cells r buf). ok x" "ordered_by cmp (cells r buf)"
  shows "boundary (\<lambda>i. cmp key (buf ! nat i) \<noteq> NSOrderedAscending)
    (int (location r)) (int (location r + rlength r))
    (int (location r + length (takeWhile (\<lambda>x. cmp key x \<noteq> NSOrderedAscending) (cells r buf))))"
proof (rule boundary_takeWhile [OF assms(1)])
  fix i j assume ij: "i < j" "j < rlength r" "cmp key (cells r buf ! j) \<noteq> NSOrderedAscending"
  have len: "length (cells r buf) = rlength r" using assms(1) by (simp add: cells_def)
  then have ok: "ok (cells r buf ! i)" "ok (cells r buf ! j)" using assms(3) ij by simp_all
  have "not_after cmp (cells r buf ! i) (cells r buf ! j)"
    using ordered_by_nth [OF assms(4) ij(1)] ij len by simp
  with before_trans [OF assms(2) ok] ij(3)
  show "cmp key (cells r buf ! i) \<noteq> NSOrderedAscending" by blast
qed

lemma gallopLeft_counts:
  assumes "range_ok r" "hint < rlength r" "location r + rlength r \<le> length buf"
    and "ok key" "\<forall>x \<in> set (cells r buf). ok x" "ordered_by cmp (cells r buf)"
  shows "gallopLeft cmp key buf r hint =
    location r + length (takeWhile (\<lambda>x. cmp x key = NSOrderedAscending) (cells r buf))"
  by (rule gallopLeft_boundary [OF assms(1,2)]) (rule left_boundary [OF assms(3-6)])

lemma gallopRight_counts:
  assumes "range_ok r" "hint < rlength r" "location r + rlength r \<le> length buf"
    and "ok key" "\<forall>x \<in> set (cells r buf). ok x" "ordered_by cmp (cells r buf)"
  shows "gallopRight cmp key buf r hint =
    location r + length (takeWhile (\<lambda>x. cmp key x \<noteq> NSOrderedAscending) (cells r buf))"
  by (rule gallopRight_boundary [OF assms(1,2)]) (rule right_boundary [OF assms(3-6)])

text \<open>Inserting an element after the last one it is not before.\<close>

lemma insert_at_upper:
  assumes "ordered_by cmp xs" "\<forall>y \<in> set xs. ok y" "ok x" "k \<le> length xs"
    and low: "\<And>i. i < k \<Longrightarrow> cmp x (xs ! i) \<noteq> NSOrderedAscending"
    and high: "\<And>i. k \<le> i \<Longrightarrow> i < length xs \<Longrightarrow> cmp x (xs ! i) = NSOrderedAscending"
  shows "ordered_by cmp (take k xs @ [x] @ drop k xs) \<and>
    (\<forall>a. ok a \<longrightarrow> ties cmp a (take k xs @ [x] @ drop k xs) = ties cmp a (xs @ [x]))"
proof -
  have l: "not_after cmp y x" if "y \<in> set (take k xs)" for y
  proof -
    from that obtain i where "i < k" "i < length xs" "y = xs ! i"
      by (auto simp: in_set_conv_nth)
    with low [of i] assms(2,3) ascending_iff [of x y] show ?thesis by simp
  qed
  have h: "cmp x y = NSOrderedAscending" if "y \<in> set (drop k xs)" for y
    using that high assms(4) by (auto simp: in_set_conv_nth)
  have parts: "ordered_by cmp (take k xs)" "ordered_by cmp (drop k xs)"
      "\<forall>y \<in> set (take k xs). \<forall>z \<in> set (drop k xs). not_after cmp y z"
    using assms(1) ordered_by_append [of cmp "take k xs" "drop k xs"] by auto
  then have "ordered_by cmp (take k xs @ [x] @ drop k xs)"
    using l h by (auto simp: ordered_by_append ordered_by_Cons ascending_not_after)
  moreover have "ties cmp a (take k xs @ [x] @ drop k xs) = ties cmp a (xs @ [x])" if "ok a" for a
  proof (cases "cmp a x = NSOrderedSame")
    case True
    have "cmp a y \<noteq> NSOrderedSame" if "y \<in> set (drop k xs)" for y
    proof -
      have "ok y" using that assms(2) by (auto dest: in_set_dropD)
      with True h [OF that] \<open>ok a\<close> assms(3) before_trans' [of a x y] show ?thesis
        by (simp add: not_after_def)
    qed
    then have "ties cmp a (drop k xs) = []" by (simp add: ties_def)
    then have "ties cmp a xs = ties cmp a (take k xs)"
      using ties_append [of cmp a "take k xs" "drop k xs"] by simp
    with \<open>ties cmp a (drop k xs) = []\<close> show ?thesis by simp
  next
    case False
    then show ?thesis using ties_append [of cmp a "take k xs" "drop k xs"] by simp
  qed
  ultimately show ?thesis by blast
qed

end

lemma insertion_search_boundary:
  "left < right \<Longrightarrow> left \<le> p \<Longrightarrow> p \<le> right \<Longrightarrow>
   (\<And>i. left \<le> i \<Longrightarrow> i < p \<Longrightarrow> cmp pivot (buffer ! i) \<noteq> NSOrderedAscending) \<Longrightarrow>
   (\<And>i. p \<le> i \<Longrightarrow> i < right \<Longrightarrow> cmp pivot (buffer ! i) = NSOrderedAscending) \<Longrightarrow>
   insertion_search cmp buffer pivot left right = (p, p)"
proof (induction "right - left" arbitrary: left right rule: less_induct)
  case less
  let ?m = "left + (right - left) div 2"
  have m: "left \<le> ?m" "?m < right" using less.prems(1) by auto
  show ?case
  proof (cases "cmp pivot (buffer ! ?m) = NSOrderedAscending")
    case True
    with less.prems(4) [of ?m] m have "p \<le> ?m" by force
    moreover have "insertion_search cmp buffer pivot left ?m = (p, p)" if "left < ?m"
      using less.prems that m \<open>p \<le> ?m\<close> by (intro less.hyps) auto
    ultimately show ?thesis using True less.prems(2)
      by (auto simp: insertion_search.simps [of cmp buffer pivot left right] Let_def)
  next
    case False
    with less.prems(5) [of ?m] m have "?m + 1 \<le> p" by force
    moreover have "insertion_search cmp buffer pivot (?m + 1) right = (p, p)" if "?m + 1 < right"
      using less.prems that m \<open>?m + 1 \<le> p\<close> by (intro less.hyps) auto
    ultimately show ?thesis using False less.prems(3)
      by (auto simp: insertion_search.simps [of cmp buffer pivot left right] Let_def)
  qed
qed

lemma shift_right_nth:
  "i < length b \<Longrightarrow> length (shift_right b l i) = length b \<and>
     (\<forall>j < length b. shift_right b l i ! j = (if l < j \<and> j \<le> i then b ! (j - 1) else b ! j))"
proof (induction b l i rule: shift_right.induct)
  case (1 b l)
  then show ?case by auto
next
  case (2 b l i)
  show ?case
  proof (cases "Suc i > l")
    case True
    with 2 have "length (shift_right (b[Suc i := b ! i]) l i) = length b"
      "\<forall>j < length b. shift_right (b[Suc i := b ! i]) l i ! j =
        (if l < j \<and> j \<le> i then b[Suc i := b ! i] ! (j - 1) else b[Suc i := b ! i] ! j)"
      by auto
    with True 2(2) show ?thesis by (auto simp: nth_list_update le_Suc_eq)
  next
    case False
    then show ?thesis by auto
  qed
qed

lemma shift_right_insert:
  assumes "mn \<le> l" "l \<le> s" "s < length b"
  shows "(shift_right b l s)[l := b ! s] =
    take l b @ [b ! s] @ take (s - l) (drop l b) @ drop (s + 1) b"
proof (rule nth_equalityI)
  have len: "length (shift_right b l s) = length b"
    using shift_right_nth [OF assms(3)] by simp
  then show "length ((shift_right b l s)[l := b ! s]) =
      length (take l b @ [b ! s] @ take (s - l) (drop l b) @ drop (s + 1) b)"
    using assms by simp
  fix j assume "j < length ((shift_right b l s)[l := b ! s])"
  with len have j: "j < length b" by simp
  then have "shift_right b l s ! j = (if l < j \<and> j \<le> s then b ! (j - 1) else b ! j)"
    using shift_right_nth [OF assms(3), of l] by blast
  with j len assms show "(shift_right b l s)[l := b ! s] ! j =
      (take l b @ [b ! s] @ take (s - l) (drop l b) @ drop (s + 1) b) ! j"
    by (auto simp: nth_append nth_list_update nth_Cons' min_def)
qed

section \<open>Stable rearrangements\<close>

definition stable_perm :: "('a \<Rightarrow> bool) \<Rightarrow> 'a comparison \<Rightarrow> 'a list \<Rightarrow> 'a list \<Rightarrow> bool" where
  "stable_perm ok cmp xs ys \<longleftrightarrow>
     mset ys = mset xs \<and> (\<forall>a. ok a \<longrightarrow> ties cmp a ys = ties cmp a xs)"

definition stable_sort_of :: "('a \<Rightarrow> bool) \<Rightarrow> 'a comparison \<Rightarrow> 'a list \<Rightarrow> 'a list \<Rightarrow> bool" where
  "stable_sort_of ok cmp xs ys \<longleftrightarrow> stable_perm ok cmp xs ys \<and> ordered_by cmp ys"

lemma stable_perm_refl [simp]: "stable_perm ok cmp xs xs"
  by (simp add: stable_perm_def)

lemma stable_perm_trans: "stable_perm ok cmp xs ys \<Longrightarrow> stable_perm ok cmp ys zs \<Longrightarrow> stable_perm ok cmp xs zs"
  by (simp add: stable_perm_def)

lemma stable_perm_append:
  "stable_perm ok cmp xs ys \<Longrightarrow> stable_perm ok cmp us vs \<Longrightarrow> stable_perm ok cmp (xs @ us) (ys @ vs)"
  by (simp add: stable_perm_def)

lemma stable_perm_length: "stable_perm ok cmp xs ys \<Longrightarrow> length ys = length xs"
  by (metis stable_perm_def size_mset)

lemma stable_perm_set: "stable_perm ok cmp xs ys \<Longrightarrow> set ys = set xs"
  by (metis stable_perm_def set_mset_mset)

lemma stable_sort_of_self: "ordered_by cmp xs \<Longrightarrow> stable_sort_of ok cmp xs xs"
  by (simp add: stable_sort_of_def)

lemma ties_rev: "ties cmp a (rev xs) = rev (ties cmp a xs)"
  by (simp add: ties_def rev_filter)

context comparator_laws
begin

lemma ordered_by_Cons2:
  assumes "ok x" "ok y" "\<forall>z \<in> set ys. ok z"
  shows "ordered_by cmp (x # y # ys) \<longleftrightarrow> not_after cmp x y \<and> ordered_by cmp (y # ys)"
  using assms cmp_trans [of x y] by (auto simp: ordered_by_Cons)

lemma adjacent_ordered:
  assumes "\<forall>x \<in> set xs. ok x" and "\<And>i. Suc i < length xs \<Longrightarrow> not_after cmp (xs ! i) (xs ! Suc i)"
  shows "ordered_by cmp xs"
  using assms
proof (induction xs rule: induct_list012)
  case (3 x y zs)
  have "not_after cmp ((y # zs) ! i) ((y # zs) ! Suc i)" if "Suc i < length (y # zs)" for i
    using "3.prems"(2) [of "Suc i"] that by simp
  then have "ordered_by cmp (y # zs)" using "3.IH"(2) "3.prems"(1) by simp
  with "3.prems" (1) "3.prems"(2) [of 0] show ?case by (simp add: ordered_by_Cons2)
qed simp_all

lemma descending_rev_ordered:
  assumes "\<forall>x \<in> set xs. ok x"
    and "\<And>i. Suc i < length xs \<Longrightarrow> cmp (xs ! i) (xs ! Suc i) = NSOrderedDescending"
  shows "stable_sort_of ok cmp xs (rev xs)"
proof -
  have adj: "not_after cmp (xs ! Suc i) (xs ! i)" if "Suc i < length xs" for i
    using assms that not_after_total [of "xs ! i" "xs ! Suc i"] by (auto simp: not_after_def)
  have "ordered_by cmp (rev xs)"
  proof (rule adjacent_ordered)
    show "\<forall>x \<in> set (rev xs). ok x" using assms(1) by simp
    fix i assume "Suc i < length (rev xs)"
    with adj [of "length xs - Suc (Suc i)"] show "not_after cmp (rev xs ! i) (rev xs ! Suc i)"
      by (simp add: rev_nth Suc_diff_Suc)
  qed
  moreover have "ties cmp a (rev xs) = ties cmp a xs" if "ok a" for a
  proof -
    have desc: "sorted_wrt (\<lambda>x y. cmp x y = NSOrderedDescending) xs"
      using assms
    proof (induction xs rule: induct_list012)
      case (3 x y zs)
      have "cmp ((y # zs) ! i) ((y # zs) ! Suc i) = NSOrderedDescending"
        if "Suc i < length (y # zs)" for i
        using "3.prems"(2) [of "Suc i"] that by simp
      then have s: "sorted_wrt (\<lambda>x y. cmp x y = NSOrderedDescending) (y # zs)"
        using "3.IH"(2) "3.prems"(1) by simp
      have "cmp x z = NSOrderedDescending" if z: "z \<in> set zs" for z
      proof -
        have d: "cmp x y = NSOrderedDescending" "cmp y z = NSOrderedDescending"
          using "3.prems"(2) [of 0] s z by auto
        have oks: "ok x" "ok y" "ok z" using "3.prems"(1) z by auto
        have "cmp z y = NSOrderedAscending" "not_after cmp y x"
          using d cmp_swap [OF oks(2,3)] cmp_swap [OF oks(1,2)] by (auto simp: not_after_def)
        then have "cmp z x = NSOrderedAscending" by (rule before_trans [OF oks(3,2,1)])
        then show ?thesis using cmp_swap [OF oks(3,1)] by simp
      qed
      with s "3.prems"(2) [of 0] show ?case by simp
    qed simp_all
    have "length (ties cmp a xs) \<le> 1"
    proof (rule ccontr)
      assume "\<not> length (ties cmp a xs) \<le> 1"
      then obtain x y us where e: "ties cmp a xs = x # y # us"
        by (cases "ties cmp a xs" rule: remdups_adj.cases) auto
      then have "sorted_wrt (\<lambda>x y. cmp x y = NSOrderedDescending) (x # y # us)"
        using desc by (metis sorted_wrt_filter ties_def)
      then have d: "cmp x y = NSOrderedDescending" by simp
      have "x \<in> set (ties cmp a xs)" "y \<in> set (ties cmp a xs)" using e by auto
      then have "ok x" "ok y" "cmp a x = NSOrderedSame" "cmp a y = NSOrderedSame"
        using assms(1) by (auto simp: ties_def)
      then show False using d that cmp_trans [of x a y] by (auto simp: same_iff not_after_def)
    qed
    then show ?thesis by (cases "ties cmp a xs" rule: remdups_adj.cases) (auto simp: ties_rev)
  qed
  ultimately show ?thesis by (simp add: stable_sort_of_def stable_perm_def)
qed

end

section \<open>Correctness of the run makers\<close>

lemma reverse_loop_rev:
  "reverse_loop (pre @ xs @ post) (length pre) (length pre + length xs - 1) = pre @ rev xs @ post"
proof (induction "length xs" arbitrary: pre xs post rule: less_induct)
  case less
  consider "length xs \<le> 1" | x ys z where "xs = x # ys @ [z]"
  proof (cases xs)
    case (Cons x us)
    then show ?thesis using that by (cases us rule: rev_exhaust) auto
  qed (use that in simp)
  then show ?case
  proof cases
    case 1
    then have "rev xs = xs" by (cases xs rule: remdups_adj.cases) auto
    moreover have "\<not> length pre < length pre + length xs - 1" using 1 by linarith
    ultimately show ?thesis by (simp only: reverse_loop.simps [of _ "length pre"] if_False)
  next
    case 2
    let ?b = "pre @ xs @ post" and ?n = "length pre" and ?m = "length pre + length ys + 1"
    have at: "?b ! ?n = x" "?b ! ?m = z" using 2 by (simp_all add: nth_append)
    have "?b[?n := z, ?m := x] = (pre @ [z]) @ ys @ [x] @ post"
      using 2 by (simp add: list_update_append)
    moreover have "reverse_loop ((pre @ [z]) @ ys @ [x] @ post) (length (pre @ [z]))
        (length (pre @ [z]) + length ys - 1) = (pre @ [z]) @ rev ys @ [x] @ post"
      by (rule less) (use 2 in simp)
    moreover have "reverse_loop ?b ?n ?m = reverse_loop (?b[?n := z, ?m := x]) (?n + 1) (?m - 1)"
      unfolding reverse_loop.simps [of ?b ?n ?m] at by simp
    ultimately show ?thesis using 2 by simp
  qed
qed

lemma run_end_bounds:
  "m \<le> n \<Longrightarrow> m \<le> run_end g b m n \<and> run_end g b m n \<le> n \<and>
     (\<forall>i. m \<le> i \<and> i < run_end g b m n \<longrightarrow> g (b ! (i - 1)) (b ! i))"
proof (induction g b m n rule: run_end.induct)
  case (1 g b m n)
  show ?case
  proof (cases "m < n \<and> g (b ! (m - 1)) (b ! m)")
    case True
    then have "run_end g b m n = run_end g b (m + 1) n" by (simp add: run_end.simps [of g b m n])
    with 1 True show ?thesis by (auto simp: Suc_le_eq) (metis le_neq_implies_less)
  next
    case False
    then have "run_end g b m n = m" by (auto simp: run_end.simps [of g b m n])
    with 1(2) show ?thesis by auto
  qed
qed

context comparator_laws
begin

lemma binary_sort_loop_sorts:
  assumes "ordered_by cmp xs" "xs \<noteq> []" "\<forall>x \<in> set (xs @ us). ok x"
    and "length pre + length xs + length us \<le> 2 ^ 31"
  shows "\<exists>ys. binary_sort_loop cmp (pre @ xs @ us @ post) (length pre)
      (length pre + length xs + length us) (length pre + length xs) = Some (pre @ ys @ post) \<and>
    stable_sort_of ok cmp (xs @ us) ys"
  using assms
proof (induction us arbitrary: xs)
  case Nil
  then show ?case by (auto simp: binary_sort_loop.simps stable_sort_of_self)
next
  case (Cons x us)
  let ?n = "length pre" and ?k = "length (takeWhile (\<lambda>y. cmp x y \<noteq> NSOrderedAscending) xs)"
  let ?b = "pre @ xs @ (x # us) @ post" and ?s = "length pre + length xs"
  have oks: "\<forall>y \<in> set xs. ok y" "ok x" using Cons.prems(3) by auto
  have k: "?k \<le> length xs" by (rule length_takeWhile_le)
  have low: "cmp x (xs ! i) \<noteq> NSOrderedAscending" if "i < ?k" for i
    using takeWhile_prefix [OF that] .
  have high: "cmp x (xs ! i) = NSOrderedAscending" if i: "?k \<le> i" "i < length xs" for i
  proof -
    have at: "cmp x (xs ! ?k) = NSOrderedAscending" using i nth_length_takeWhile [of _ xs] by force
    show ?thesis
    proof (cases "i = ?k")
      case False
      then have "not_after cmp (xs ! ?k) (xs ! i)" using Cons.prems(1) i by (intro ordered_by_nth) auto
      moreover have "?k < length xs" using i by simp
      then have "ok (xs ! ?k)" "ok (xs ! i)" using oks(1) i(2) by (simp_all only: nth_mem)
      ultimately show ?thesis using before_trans [OF oks(2) _ _ at] by blast
    qed (use at in simp)
  qed
  have piv: "?b ! ?s = x" by (simp add: nth_append)
  have "insertion_search cmp ?b x ?n ?s = (?n + ?k, ?n + ?k)"
  proof (rule insertion_search_boundary)
    show "?n < ?s" using Cons.prems(2) by simp
    fix i assume "?n \<le> i" "i < ?n + ?k"
    then have i: "i - ?n < ?k" "\<not> i < ?n" by linarith+
    then have "i - ?n < length xs" using k by linarith
    with low [OF i(1)] i(2) show "cmp x (?b ! i) \<noteq> NSOrderedAscending" by (simp add: nth_append)
  next
    fix i assume "?n + ?k \<le> i" "i < ?s"
    then have i: "?k \<le> i - ?n" "i - ?n < length xs" "\<not> i < ?n" by linarith+
    with high [OF i(1,2)] show "cmp x (?b ! i) = NSOrderedAscending" by (simp add: nth_append)
  qed (use k in simp_all)
  moreover have "(shift_right ?b (?n + ?k) ?s)[?n + ?k := x] =
      pre @ (take ?k xs @ [x] @ drop ?k xs) @ us @ post"
    using shift_right_insert [of "?n + ?k" "?n + ?k" ?s ?b] k piv by simp
  moreover have "make_room ?b (?n + ?k) ?s = Some (shift_right ?b (?n + ?k) ?s)"
    using Cons.prems(4) by (simp add: make_room_def bounds_simps Let_def nat_add_distrib)
  ultimately have step: "binary_sort_loop cmp ?b ?n (?s + length (x # us)) ?s =
      binary_sort_loop cmp (pre @ (take ?k xs @ [x] @ drop ?k xs) @ us @ post) ?n
        (?s + length (x # us)) (?s + 1)"
    by (subst binary_sort_loop.simps) (simp add: Let_def nth_append)
  have ins: "ordered_by cmp (take ?k xs @ [x] @ drop ?k xs)"
      "\<forall>a. ok a \<longrightarrow> ties cmp a (take ?k xs @ [x] @ drop ?k xs) = ties cmp a (xs @ [x])"
    using insert_at_upper [OF Cons.prems(1) oks k low high] by auto
  have set_ins: "set (take ?k xs @ [x] @ drop ?k xs) = insert x (set xs)"
  proof -
    have "set (take ?k xs) \<union> set (drop ?k xs) = set xs" by (metis append_take_drop_id set_append)
    then show ?thesis by auto
  qed
  have "mset (take ?k xs @ [x] @ drop ?k xs) = mset (xs @ [x])"
  proof -
    have "mset (take ?k xs) + mset (drop ?k xs) = mset xs" by (metis append_take_drop_id mset_append)
    then show ?thesis by simp
  qed
  with ins have perm: "stable_perm ok cmp (xs @ [x]) (take ?k xs @ [x] @ drop ?k xs)"
    by (simp add: stable_perm_def)
  have "length (take ?k xs @ [x] @ drop ?k xs) = length xs + 1" using k by simp
  moreover have "\<forall>y \<in> set ((take ?k xs @ [x] @ drop ?k xs) @ us). ok y"
    using Cons.prems(3) set_ins by auto
  ultimately obtain ys where ys: "binary_sort_loop cmp (pre @ (take ?k xs @ [x] @ drop ?k xs) @ us @ post) ?n
        (?s + length (x # us)) (?s + 1) = Some (pre @ ys @ post)"
      "stable_sort_of ok cmp ((take ?k xs @ [x] @ drop ?k xs) @ us) ys"
    using Cons.IH [OF ins(1)] Cons.prems(4) by (auto simp: add.assoc)
  from stable_perm_append [OF perm stable_perm_refl, of us] ys(2)
  have "stable_sort_of ok cmp (xs @ x # us) ys"
    by (auto simp: stable_sort_of_def intro: stable_perm_trans)
  with step ys(1) show ?case by (auto simp: add.assoc)
qed

lemma countAscendizedRun_sorts:
  assumes r: "range_ok r" "location r = length pre" "rlength r = length xs" "xs \<noteq> []"
    and oks: "\<forall>x \<in> set xs. ok x"
    and run: "countAscendizedRun cmp (pre @ xs @ post) r = (buf, n)"
  shows "\<exists>us. buf = pre @ us @ drop n xs @ post \<and> 1 \<le> n \<and> n \<le> length xs \<and>
    (2 \<le> length xs \<longrightarrow> 2 \<le> n) \<and> stable_sort_of ok cmp (take n xs) us"
proof -
  let ?b = "pre @ xs @ post" and ?m = "length pre"
  have mx: "NSMaxRange r = ?m + length xs" using r by (simp add: bounds_simps)
  have at: "?b ! (?m + i) = xs ! i" if "i < length xs" for i using that by (simp add: nth_append)
  show ?thesis
  proof (cases "length xs = 1")
    case True
    with run r mx have "buf = ?b" "n = 1" by (auto simp: countAscendizedRun_def Let_def)
    moreover have "take 1 xs = xs" "drop 1 xs = []" using True by auto
    moreover have "ordered_by cmp xs" using True by (cases xs) auto
    ultimately show ?thesis using True by (auto simp: stable_sort_of_self intro!: exI [of _ xs])
  next
    case False
    then have two: "2 \<le> length xs" using r(4) by (cases xs rule: remdups_adj.cases) auto
    define down where "down \<longleftrightarrow> cmp (xs ! 0) (xs ! 1) = NSOrderedDescending"
    define g where "g = (\<lambda>a b. (cmp a b = NSOrderedDescending) = down)"
    define e where "e = run_end g ?b (?m + 2) (?m + length xs)"
    have e: "?m + 2 \<le> e" "e \<le> ?m + length xs" "\<And>i. ?m + 2 \<le> i \<Longrightarrow> i < e \<Longrightarrow> g (?b ! (i - 1)) (?b ! i)"
      using run_end_bounds [of "?m + 2" "?m + length xs" g ?b] two by (auto simp: e_def)
    have n: "n = e - ?m" and buf: "buf = (if down then reverseRange ?b \<lparr>location = ?m, rlength = n\<rparr> else ?b)"
      using run r mx False two at [of 0] at [of 1]
      by (auto simp: countAscendizedRun_def Let_def down_def g_def e_def split: if_splits)
    have n2: "2 \<le> n" "n \<le> length xs" using e n by auto
    have adj: "g (xs ! i) (xs ! Suc i)" if "Suc i < n" for i
    proof (cases "i = 0")
      case True
      then show ?thesis by (simp add: g_def down_def)
    next
      case False
      with that e(3) [of "?m + Suc i"] n have "g (?b ! (?m + i)) (?b ! (?m + Suc i))" by simp
      with that n2 at [of i] at [of "Suc i"] show ?thesis by simp
    qed
    have okt: "\<forall>x \<in> set (take n xs). ok x" using oks by (auto dest: in_set_takeD)
    show ?thesis
    proof (cases down)
      case True
      have "stable_sort_of ok cmp (take n xs) (rev (take n xs))"
        by (rule descending_rev_ordered [OF okt]) (use adj True in \<open>simp add: g_def\<close>)
      moreover have "reverseRange ?b \<lparr>location = ?m, rlength = n\<rparr> = pre @ rev (take n xs) @ drop n xs @ post"
      proof -
        have "xs @ post = take n xs @ drop n xs @ post" by (simp flip: append_assoc)
        then have b: "?b = pre @ take n xs @ drop n xs @ post" by simp
        show ?thesis
          using reverse_loop_rev [of pre "take n xs" "drop n xs @ post"] n2 r unfolding b
          by (simp add: reverseRange_def NSMaxRange_def range_ok_def bounds_simps)
      qed
      ultimately show ?thesis using True buf n2 by auto
    next
      case False
      have "ordered_by cmp (take n xs)"
        by (rule adjacent_ordered [OF okt]) (use adj False in \<open>simp add: g_def not_after_def\<close>)
      then show ?thesis using False buf n2
        by (intro exI [of _ "take n xs"]) (simp add: stable_sort_of_self)
    qed
  qed
qed

end

section \<open>The properties\<close>

text \<open>
  C22. In a sorted range the public insertion point functions answer the leftmost and the
  rightmost position where the key keeps the range sorted: everything before the left point is
  strictly before the key and nothing from it on is; everything before the right point is not
  after the key, and everything from it on is strictly after it. The galloping search with any
  start hint inside the range answers the same.
\<close>

theorem insertion_points:
  assumes "comparator_laws ok cmp" and "range_ok r" and "hint < rlength r"
    and "location r + rlength r \<le> length buf" and "ok key"
    and "\<forall>x \<in> set (cells r buf). ok x" and "ordered_by cmp (cells r buf)"
  shows "gallopLeft cmp key buf r hint = GSLeftInsertionPointForKeyInSortedRange key buf r cmp \<and>
    gallopRight cmp key buf r hint = GSRightInsertionPointForKeyInSortedRange key buf r cmp \<and>
    (\<forall>i. location r \<le> i \<and> i < location r + rlength r \<longrightarrow>
      (i < gallopLeft cmp key buf r hint \<longleftrightarrow> cmp (buf ! i) key = NSOrderedAscending) \<and>
      (i < gallopRight cmp key buf r hint \<longleftrightarrow> cmp key (buf ! i) \<noteq> NSOrderedAscending)) \<and>
    location r \<le> gallopLeft cmp key buf r hint \<and>
    gallopLeft cmp key buf r hint \<le> gallopRight cmp key buf r hint \<and>
    gallopRight cmp key buf r hint \<le> location r + rlength r"
proof -
  let ?l = "location r + length (takeWhile (\<lambda>x. cmp x key = NSOrderedAscending) (cells r buf))"
  let ?u = "location r + length (takeWhile (\<lambda>x. cmp key x \<noteq> NSOrderedAscending) (cells r buf))"
  note lb = comparator_laws.left_boundary [OF assms(1,4-7)]
    and ub = comparator_laws.right_boundary [OF assms(1,4-7)]
  have hints: "gallopLeft cmp key buf r h = ?l" "gallopRight cmp key buf r h = ?u" if "h < rlength r" for h
    using gallopLeft_boundary [where cmp = cmp and key = key and buf = buf, OF assms(2) that lb]
      gallopRight_boundary [where cmp = cmp and key = key and buf = buf, OF assms(2) that ub] .
  have pos: "i < ?l \<longleftrightarrow> cmp (buf ! i) key = NSOrderedAscending"
      "i < ?u \<longleftrightarrow> cmp key (buf ! i) \<noteq> NSOrderedAscending"
    if "location r \<le> i" "i < location r + rlength r" for i
    using boundary_iff [OF lb, of "int i"] boundary_iff [OF ub, of "int i"] that by auto
  have le: "?l \<le> location r + rlength r" "?u \<le> location r + rlength r"
    using lb ub by (auto simp: boundary_def)
  have "?l \<le> ?u"
  proof (rule ccontr)
    assume "\<not> ?l \<le> ?u"
    then have i: "?u < ?l" "?u < location r + rlength r" using le by linarith+
    have "buf ! ?u \<in> set (cells r buf)"
      using i(2) assms(4) by (auto simp: cells_def in_set_conv_nth intro!: exI [of _ "?u - location r"])
    then have "ok (buf ! ?u)" using assms(6) by blast
    with comparator_laws.cmp_swap [OF assms(1,5)] i pos [of ?u] show False by auto
  qed
  then show ?thesis
    using hints assms(3) pos le
    by (auto simp: GSLeftInsertionPointForKeyInSortedRange_def GSRightInsertionPointForKeyInSortedRange_def)
qed

theorem insertion_points_witness:
  "gallopLeft integer_compare 3 [9, 1, 3, 3, 5, 0] \<lparr>location = 1, rlength = 4\<rparr> 3 = 2 \<and>
   gallopRight integer_compare 3 [9, 1, 3, 3, 5, 0] \<lparr>location = 1, rlength = 4\<rparr> 3 = 4"
proof -
  let ?b = "[9, 1, 3, 3, 5, 0] :: int list" and ?r = "\<lparr>location = 1, rlength = 4\<rparr>"
  have pre: "range_ok ?r" "3 < rlength ?r" "location ?r + rlength ?r \<le> length ?b"
      "ordered_by integer_compare (cells ?r ?b)"
    by (simp_all add: range_ok_def cells_def ordered_by_def not_after_def integer_compare_def)
  have "\<forall>i. location ?r \<le> i \<and> i < location ?r + rlength ?r \<longrightarrow>
      (i < gallopLeft integer_compare 3 ?b ?r 3 \<longleftrightarrow> integer_compare (?b ! i) 3 = NSOrderedAscending) \<and>
      (i < gallopRight integer_compare 3 ?b ?r 3 \<longleftrightarrow> integer_compare 3 (?b ! i) \<noteq> NSOrderedAscending)"
    using insertion_points [OF integers.comparator_laws_axioms pre(1-3) _ _ pre(4), of 3] by blast
  from this [rule_format, of 1] this [rule_format, of 2] this [rule_format, of 3]
    this [rule_format, of 4] show ?thesis
    by (simp add: integer_compare_def)
qed

end
