(* ===== verification/Stable_Merge.thy ===== *)
theory Stable_Merge
  imports Sort_Search
begin

text \<open>
  The reference merge: two sorted lists merged stably, an element of the second list going
  first only if it is strictly before the head of the first. The in-place merges of
  \<^verbatim>\<open>GSTimSort.m\<close> are proved to compute it. The lemmas say which stretches of either
  list may be taken off at either end at once, which is what galloping does.
\<close>

fun smerge :: "'a comparison \<Rightarrow> 'a list \<Rightarrow> 'a list \<Rightarrow> 'a list" where
  "smerge cmp [] ys = ys"
| "smerge cmp (x # xs) [] = x # xs"
| "smerge cmp (x # xs) (y # ys) =
     (if cmp y x = NSOrderedAscending then y # smerge cmp (x # xs) ys else x # smerge cmp xs (y # ys))"

lemma smerge_Nil2 [simp]: "smerge cmp xs [] = xs"
  by (cases xs) simp_all

lemma smerge_take1:
  "\<forall>u \<in> set us. cmp y u \<noteq> NSOrderedAscending \<Longrightarrow> smerge cmp (us @ xs) (y # ys) = us @ smerge cmp xs (y # ys)"
  by (induction us) auto

lemma smerge_take2:
  "\<forall>u \<in> set us. cmp u x = NSOrderedAscending \<Longrightarrow> smerge cmp (x # xs) (us @ ys) = us @ smerge cmp (x # xs) ys"
  by (induction us) auto

lemma smerge_last1:
  "\<forall>v \<in> set vs. \<forall>z \<in> set zs. cmp z v = NSOrderedAscending \<Longrightarrow> smerge cmp (us @ vs) zs = smerge cmp us zs @ vs"
proof (induction cmp us zs rule: smerge.induct)
  case (1 cmp ys)
  then show ?case by (cases vs) (use smerge_take2 [of ys cmp _ _ "[]"] in auto)
qed auto

lemma smerge_last2:
  "\<forall>v \<in> set vs. \<forall>x \<in> set xs. cmp v x \<noteq> NSOrderedAscending \<Longrightarrow> smerge cmp xs (ys @ vs) = smerge cmp xs ys @ vs"
proof (induction cmp xs ys rule: smerge.induct)
  case (2 cmp x xs)
  then show ?case by (cases vs) (use smerge_take1 [of "x # xs" cmp _ "[]"] in auto)
qed auto

lemma mset_smerge: "mset (smerge cmp xs ys) = mset xs + mset ys"
  by (induction cmp xs ys rule: smerge.induct) auto

lemma set_smerge [simp]: "set (smerge cmp xs ys) = set xs \<union> set ys"
  by (induction cmp xs ys rule: smerge.induct) auto

context comparator_laws
begin

text \<open>An element before the head of a sorted list is before all of it.\<close>

lemma before_all:
  assumes "ordered_by cmp (x # xs)" "\<forall>z \<in> set (x # xs). ok z" "ok y" "cmp y x = NSOrderedAscending"
    and "z \<in> set (x # xs)"
  shows "cmp y z = NSOrderedAscending"
  using assms before_trans [of y x z] by (auto simp: ordered_by_Cons)

lemma smerge_ordered:
  "ordered_by cmp xs \<Longrightarrow> ordered_by cmp ys \<Longrightarrow> \<forall>x \<in> set xs \<union> set ys. ok x \<Longrightarrow>
     ordered_by cmp (smerge cmp xs ys)"
proof (induction xs arbitrary: ys)
  case (Cons x xs)
  note IH = Cons.IH and xs = Cons.prems(1)
  from Cons.prems(2,3) show ?case
  proof (induction ys)
    case Nil
    then show ?case using Cons.prems(1) by simp
  next
    case (Cons y ys)
    note outer = Cons.prems xs
    show ?case
    proof (cases "cmp y x = NSOrderedAscending")
      case True
      have "not_after cmp y z" if "z \<in> set (x # xs)" for z
        using before_all [of x xs y z] True that outer by (auto intro: ascending_not_after)
      moreover have "ordered_by cmp (smerge cmp (x # xs) ys)"
        using Cons.IH outer by (simp add: ordered_by_Cons)
      ultimately show ?thesis using True outer by (auto simp: ordered_by_Cons)
    next
      case False
      then have "not_after cmp x y" using outer by (simp add: ascending_iff)
      then have "not_after cmp x z" if "z \<in> set (y # ys)" for z
        using outer that cmp_trans [of x y z] by (auto simp: ordered_by_Cons)
      moreover have "ordered_by cmp (smerge cmp xs (y # ys))"
        using IH [of "y # ys"] outer by (simp add: ordered_by_Cons)
      ultimately show ?thesis using False outer by (auto simp: ordered_by_Cons)
    qed
  qed
qed simp

lemma smerge_ties:
  assumes "ordered_by cmp xs" "\<forall>x \<in> set xs \<union> set ys. ok x" "ok a"
  shows "ties cmp a (smerge cmp xs ys) = ties cmp a xs @ ties cmp a ys"
  using assms(1,2)
proof (induction xs arbitrary: ys)
  case (Cons x xs)
  note IH = Cons.IH and xs = Cons.prems(1)
  from Cons.prems(2) show ?case
  proof (induction ys)
    case (Cons y ys)
    show ?case
    proof (cases "cmp y x = NSOrderedAscending")
      case True
      have "cmp a z \<noteq> NSOrderedSame" if "cmp a y = NSOrderedSame" "z \<in> set (x # xs)" for z
      proof -
        have z: "cmp y z = NSOrderedAscending" "ok z" "ok y"
          using before_all [OF xs _ _ True that(2)] Cons.prems that(2) by auto
        then have "cmp a z = NSOrderedAscending"
          using before_trans' [of a y z] assms(3) that(1) by (simp add: not_after_def)
        then show ?thesis by simp
      qed
      then have "cmp a y = NSOrderedSame \<Longrightarrow> ties cmp a (x # xs) = []"
        by (auto simp: ties_def filter_empty_conv)
      then show ?thesis using True Cons by simp
    next
      case False
      have "ties cmp a (smerge cmp xs (y # ys)) = ties cmp a xs @ ties cmp a (y # ys)"
        by (rule IH) (use xs Cons.prems in \<open>auto simp: ordered_by_Cons\<close>)
      then show ?thesis using False by simp
    qed
  qed simp
qed simp

lemma smerge_stable:
  assumes "ordered_by cmp xs" "ordered_by cmp ys" "\<forall>x \<in> set xs \<union> set ys. ok x"
  shows "stable_sort_of ok cmp (xs @ ys) (smerge cmp xs ys)"
  using smerge_ordered [OF assms] smerge_ties [OF assms(1,3)]
  by (simp add: stable_sort_of_def stable_perm_def mset_smerge)

end

end
