(* ===== verification/Tim_Merge.thy ===== *)
theory Tim_Merge
  imports Stable_Merge
begin

unbundle bit_operations_syntax

text \<open>
  The merging half of \<^verbatim>\<open>Source/GSTimSort.m\<close>: the state of the sort
  (\<^verbatim>\<open>GSTimSortPlaceHolder\<close>) and the two in-place merges of neighbouring runs,
  \<^verbatim>\<open>mergeLowRun:withRun:\<close> and \<^verbatim>\<open>mergeHighRun:withRun:\<close>, with their linear and
  galloping modes. Pointers are integer indices into the object buffer or the temporary
  buffer; a loop that never left would have no result (\<open>None\<close>). Exceptions raised by the
  comparison are not modelled.
\<close>

section \<open>State\<close>

abbreviation GS_MIN_MERGE :: nat where "GS_MIN_MERGE \<equiv> 32"
abbreviation GS_MIN_GALLOP :: nat where "GS_MIN_GALLOP \<equiv> 7"
abbreviation GS_INITIAL_TEMP_STORAGE :: nat where "GS_INITIAL_TEMP_STORAGE \<equiv> 256"

text \<open>
  \<open>tempBuffer\<close> lists the cells of the temporary buffer written since it was allocated, of which there may be \<open>tempCapacity\<close>;
  copying more to it writes beyond its end and has no result (\<open>fill_temp\<close>).
\<close>

record 'a timsort =
  objects :: "'a list"
  minGallop :: nat
  tempCapacity :: nat
  tempBuffer :: "'a list"
  stackSize :: nat
  runStack :: "NSRange list"

definition ensureTempCapacity :: "'a timsort \<Rightarrow> nat \<Rightarrow> 'a timsort" where
  "ensureTempCapacity desc elementsRequired =
     (if elementsRequired \<le> tempCapacity desc then desc
      else desc\<lparr>tempBuffer := [], tempCapacity := elementsRequired\<rparr>)"

text \<open>\<^verbatim>\<open>memcpy(tempBuffer, buf, sizeof(id) * r.length)\<close>\<close>

definition fill_temp :: "'a timsort \<Rightarrow> NSRange \<Rightarrow> 'a list option" where
  "fill_temp desc r =
     (if tempCapacity desc < rlength r then None
      else Some (copy_cells (tempBuffer desc) 0 (objects desc) (location r) (rlength r)))"

record 'a merge =
  m_objs :: "'a list"
  m_temp :: "'a list"
  m_dest :: int
  m_buf1 :: int
  m_buf2 :: int
  m_num1 :: nat
  m_num2 :: nat
  m_winners1 :: nat
  m_winners2 :: nat
  m_local :: nat
  m_min :: nat

text \<open>
  A pass through a loop body goes on, or jumps to \<^verbatim>\<open>Success\<close> or to \<^verbatim>\<open>CopyB\<close>
  (\<^verbatim>\<open>CopyA\<close> in the merge from the high end).
\<close>

datatype 'a merge_step = Running "'a merge" | Success "'a merge" | CopyLast "'a merge"

section \<open>The loops both merges share\<close>

partial_function (option) linear_mode ::
  "('a merge \<Rightarrow> 'a merge_step) \<Rightarrow> 'a merge \<Rightarrow> 'a merge_step option" where
  "linear_mode pick s =
     (case pick s of
        Running s' \<Rightarrow> if (m_winners1 s' OR m_winners2 s') < m_local s' then linear_mode pick s'
                      else Some (Running s')
      | Success s' \<Rightarrow> Some (Success s')
      | CopyLast s' \<Rightarrow> Some (CopyLast s'))"

partial_function (option) gallop_mode ::
  "('a merge \<Rightarrow> 'a merge_step) \<Rightarrow> 'a merge \<Rightarrow> 'a merge_step option" where
  "gallop_mode chunk s =
     (case chunk s of
        Running s' \<Rightarrow> if m_winners1 s' \<ge> GS_MIN_GALLOP \<or> m_winners2 s' \<ge> GS_MIN_GALLOP
                      then gallop_mode chunk s' else Some (Running s')
      | Success s' \<Rightarrow> Some (Success s')
      | CopyLast s' \<Rightarrow> Some (CopyLast s'))"

partial_function (option) merge_loop ::
  "('a merge \<Rightarrow> 'a merge_step) \<Rightarrow> ('a merge \<Rightarrow> 'a merge_step) \<Rightarrow> 'a merge \<Rightarrow> 'a merge_step option" where
  "merge_loop pick chunk s =
     Option.bind (linear_mode pick (s\<lparr>m_winners1 := 0, m_winners2 := 0\<rparr>)) (\<lambda>r1.
       case r1 of
         Running s1 \<Rightarrow> Option.bind (gallop_mode chunk (s1\<lparr>m_local := m_local s1 + 1\<rparr>)) (\<lambda>r2.
           case r2 of
             Running s2 \<Rightarrow> merge_loop pick chunk
               (s2\<lparr>m_local := m_local s2 + 1, m_min := m_local s2 + 1\<rparr>)
           | Success s2 \<Rightarrow> Some (Success s2)
           | CopyLast s2 \<Rightarrow> Some (CopyLast s2))
       | Success s1 \<Rightarrow> Some (Success s1)
       | CopyLast s1 \<Rightarrow> Some (CopyLast s1))"

text \<open>\<^verbatim>\<open>localMinGallop -= localMinGallop > 1; minGallop = localMinGallop;\<close>\<close>

definition lower_threshold :: "'a merge \<Rightarrow> 'a merge" where
  "lower_threshold s =
     (let l = m_local s - (if m_local s > 1 then 1 else 0) in s\<lparr>m_local := l, m_min := l\<rparr>)"

section \<open>Merging from the low end\<close>

text \<open>Single moves: the next object of the first or the second run goes to the destination.\<close>

definition low_take1 :: "'a merge \<Rightarrow> 'a merge" where
  "low_take1 s = s\<lparr>m_objs := (m_objs s)[nat (m_dest s) := m_temp s ! nat (m_buf1 s)],
     m_dest := m_dest s + 1, m_buf1 := m_buf1 s + 1, m_num1 := m_num1 s - 1\<rparr>"

definition low_take2 :: "'a merge \<Rightarrow> 'a merge" where
  "low_take2 s = s\<lparr>m_objs := (m_objs s)[nat (m_dest s) := m_objs s ! nat (m_buf2 s)],
     m_dest := m_dest s + 1, m_buf2 := m_buf2 s + 1, m_num2 := m_num2 s - 1\<rparr>"

definition low_pick :: "'a comparison \<Rightarrow> 'a merge \<Rightarrow> 'a merge_step" where
  "low_pick cmp s =
     (if cmp (m_objs s ! nat (m_buf2 s)) (m_temp s ! nat (m_buf1 s)) = NSOrderedAscending
      then let s' = (low_take2 s)\<lparr>m_winners2 := m_winners2 s + 1, m_winners1 := 0\<rparr>
           in if m_num2 s' = 0 then Success s' else Running s'
      else let s' = (low_take1 s)\<lparr>m_winners1 := m_winners1 s + 1, m_winners2 := 0\<rparr>
           in if m_num1 s' = 1 then CopyLast s' else Running s')"

text \<open>The chunks that galloping moves at once.\<close>

definition low_chunk1 :: "nat \<Rightarrow> 'a merge \<Rightarrow> 'a merge" where
  "low_chunk1 k s = s\<lparr>m_objs := copy_cells (m_objs s) (nat (m_dest s)) (m_temp s) (nat (m_buf1 s)) k,
     m_dest := m_dest s + int k, m_buf1 := m_buf1 s + int k, m_num1 := m_num1 s - k\<rparr>"

definition low_chunk2 :: "nat \<Rightarrow> 'a merge \<Rightarrow> 'a merge" where
  "low_chunk2 k s = s\<lparr>m_objs := copy_cells (m_objs s) (nat (m_dest s)) (m_objs s) (nat (m_buf2 s)) k,
     m_dest := m_dest s + int k, m_buf2 := m_buf2 s + int k, m_num2 := m_num2 s - k\<rparr>"

definition low_gallop2 :: "'a comparison \<Rightarrow> 'a merge \<Rightarrow> 'a merge_step" where
  "low_gallop2 cmp s =
     (let k = gallopLeft cmp (m_temp s ! nat (m_buf1 s)) (drop (nat (m_buf2 s)) (m_objs s))
                \<lparr>location = 0, rlength = m_num2 s\<rparr> 0;
          s1 = s\<lparr>m_winners2 := k\<rparr>;
          s2 = (if k \<noteq> 0 then low_chunk2 k s1 else s1)
      in if k \<noteq> 0 \<and> m_num2 s2 = 0 then Success s2
         else let s3 = low_take1 s2
              in if m_num1 s3 = 1 then CopyLast s3 else Running s3)"

definition low_gallop :: "'a comparison \<Rightarrow> 'a merge \<Rightarrow> 'a merge_step" where
  "low_gallop cmp s0 =
     (let s = lower_threshold s0;
          k = gallopRight cmp (m_objs s ! nat (m_buf2 s)) (drop (nat (m_buf1 s)) (m_temp s))
                \<lparr>location = 0, rlength = m_num1 s\<rparr> 0;
          s1 = s\<lparr>m_winners1 := k\<rparr>;
          s2 = (if k \<noteq> 0 then low_chunk1 k s1 else s1)
      in if k \<noteq> 0 \<and> m_num1 s2 = 1 then CopyLast s2
         else if k \<noteq> 0 \<and> m_num1 s2 = 0 then Success s2
         else let s3 = low_take2 s2
              in if m_num2 s3 = 0 then Success s3 else low_gallop2 cmp s3)"

definition low_finish :: "'a merge_step \<Rightarrow> 'a merge" where
  "low_finish r =
     (case r of
        CopyLast s \<Rightarrow>
          let objs = copy_cells (m_objs s) (nat (m_dest s)) (m_objs s) (nat (m_buf2 s)) (m_num2 s)
          in s\<lparr>m_objs := objs[nat (m_dest s + int (m_num2 s)) := m_temp s ! nat (m_buf1 s)]\<rparr>
      | Success s \<Rightarrow>
          if m_num1 s \<noteq> 0
          then s\<lparr>m_objs := copy_cells (m_objs s) (nat (m_dest s)) (m_temp s) (nat (m_buf1 s)) (m_num1 s)\<rparr>
          else s
      | Running s \<Rightarrow> s)"

definition mergeLowRun :: "'a comparison \<Rightarrow> 'a timsort \<Rightarrow> NSRange \<Rightarrow> NSRange \<Rightarrow> 'a timsort option" where
  "mergeLowRun cmp desc0 r1 r2 =
     (let desc = ensureTempCapacity desc0 (rlength r1)
      in Option.bind (fill_temp desc r1) (\<lambda>temp.
         let s = low_take2 \<lparr>m_objs = objects desc, m_temp = temp, m_dest = int (location r1),
                    m_buf1 = 0, m_buf2 = int (location r2), m_num1 = rlength r1, m_num2 = rlength r2,
                    m_winners1 = 0, m_winners2 = 0, m_local = minGallop desc, m_min = minGallop desc\<rparr>
          in map_option (\<lambda>r. let f = low_finish r
                             in desc\<lparr>objects := m_objs f, tempBuffer := m_temp f, minGallop := m_min f\<rparr>)
               (if m_num2 s = 0 then Some (Success s)
                else if m_num1 s = 1 then Some (CopyLast s)
                else merge_loop (low_pick cmp) (low_gallop cmp) s)))"

section \<open>Merging from the high end\<close>

definition high_take1 :: "'a merge \<Rightarrow> 'a merge" where
  "high_take1 s = s\<lparr>m_objs := (m_objs s)[nat (m_dest s) := m_objs s ! nat (m_buf1 s)],
     m_dest := m_dest s - 1, m_buf1 := m_buf1 s - 1, m_num1 := m_num1 s - 1\<rparr>"

definition high_take2 :: "'a merge \<Rightarrow> 'a merge" where
  "high_take2 s = s\<lparr>m_objs := (m_objs s)[nat (m_dest s) := m_temp s ! nat (m_buf2 s)],
     m_dest := m_dest s - 1, m_buf2 := m_buf2 s - 1, m_num2 := m_num2 s - 1\<rparr>"

definition high_pick :: "'a comparison \<Rightarrow> 'a merge \<Rightarrow> 'a merge_step" where
  "high_pick cmp s =
     (if cmp (m_temp s ! nat (m_buf2 s)) (m_objs s ! nat (m_buf1 s)) = NSOrderedAscending
      then let s' = (high_take1 s)\<lparr>m_winners1 := m_winners1 s + 1, m_winners2 := 0\<rparr>
           in if m_num1 s' = 0 then Success s' else Running s'
      else let s' = (high_take2 s)\<lparr>m_winners2 := m_winners2 s + 1, m_winners1 := 0\<rparr>
           in if m_num2 s' = 1 then CopyLast s' else Running s')"

definition high_chunk1 :: "nat \<Rightarrow> 'a merge \<Rightarrow> 'a merge" where
  "high_chunk1 k s =
     (let d = m_dest s - int k; b = m_buf1 s - int k
      in s\<lparr>m_objs := copy_cells (m_objs s) (nat (d + 1)) (m_objs s) (nat (b + 1)) k,
           m_dest := d, m_buf1 := b, m_num1 := m_num1 s - k\<rparr>)"

definition high_chunk2 :: "nat \<Rightarrow> 'a merge \<Rightarrow> 'a merge" where
  "high_chunk2 k s =
     (let d = m_dest s - int k; b = m_buf2 s - int k
      in s\<lparr>m_objs := copy_cells (m_objs s) (nat (d + 1)) (m_temp s) (nat (b + 1)) k,
           m_dest := d, m_buf2 := b, m_num2 := m_num2 s - k\<rparr>)"

definition high_gallop2 :: "'a comparison \<Rightarrow> 'a merge \<Rightarrow> 'a merge_step" where
  "high_gallop2 cmp s =
     (let k = m_num2 s - gallopLeft cmp (m_objs s ! nat (m_buf1 s)) (m_temp s)
                \<lparr>location = 0, rlength = m_num2 s\<rparr> (m_num2 s - 1);
          s1 = s\<lparr>m_winners2 := k\<rparr>;
          s2 = (if k \<noteq> 0 then high_chunk2 k s1 else s1)
      in if k \<noteq> 0 \<and> m_num2 s2 = 1 then CopyLast s2
         else if k \<noteq> 0 \<and> m_num2 s2 = 0 then Success s2
         else let s3 = high_take1 s2
              in if m_num1 s3 = 0 then Success s3 else Running s3)"

text \<open>\<open>base1\<close> is the first cell of the first run.\<close>

definition high_gallop :: "'a comparison \<Rightarrow> nat \<Rightarrow> 'a merge \<Rightarrow> 'a merge_step" where
  "high_gallop cmp base1 s0 =
     (let s = lower_threshold s0;
          k = m_num1 s - gallopRight cmp (m_temp s ! nat (m_buf2 s)) (drop base1 (m_objs s))
                \<lparr>location = 0, rlength = m_num1 s\<rparr> (m_num1 s - 1);
          s1 = s\<lparr>m_winners1 := k\<rparr>;
          s2 = (if k \<noteq> 0 then high_chunk1 k s1 else s1)
      in if k \<noteq> 0 \<and> m_num1 s2 = 0 then Success s2
         else let s3 = high_take2 s2
              in if m_num2 s3 = 1 then CopyLast s3 else high_gallop2 cmp s3)"

definition high_finish :: "'a merge_step \<Rightarrow> 'a merge" where
  "high_finish r =
     (case r of
        CopyLast s \<Rightarrow>
          let d = m_dest s - int (m_num1 s); b = m_buf1 s - int (m_num1 s);
              objs = copy_cells (m_objs s) (nat (d + 1)) (m_objs s) (nat (b + 1)) (m_num1 s)
          in s\<lparr>m_objs := objs[nat d := m_temp s ! nat (m_buf2 s)]\<rparr>
      | Success s \<Rightarrow>
          if m_num2 s \<noteq> 0
          then s\<lparr>m_objs := copy_cells (m_objs s) (nat (m_dest s - (int (m_num2 s) - 1))) (m_temp s) 0 (m_num2 s)\<rparr>
          else s
      | Running s \<Rightarrow> s)"

definition mergeHighRun :: "'a comparison \<Rightarrow> 'a timsort \<Rightarrow> NSRange \<Rightarrow> NSRange \<Rightarrow> 'a timsort option" where
  "mergeHighRun cmp desc0 r1 r2 =
     (let desc = ensureTempCapacity desc0 (rlength r2)
      in Option.bind (fill_temp desc r2) (\<lambda>temp.
         let s = high_take1 \<lparr>m_objs = objects desc, m_temp = temp,
                    m_dest = int (location r2) + int (rlength r2) - 1,
                    m_buf1 = int (location r1) + (int (rlength r1) - 1),
                    m_buf2 = int (rlength r2) - 1, m_num1 = rlength r1, m_num2 = rlength r2,
                    m_winners1 = 0, m_winners2 = 0, m_local = minGallop desc, m_min = minGallop desc\<rparr>
          in map_option (\<lambda>r. let f = high_finish r
                             in desc\<lparr>objects := m_objs f, tempBuffer := m_temp f, minGallop := m_min f\<rparr>)
               (if m_num1 s = 0 then Some (Success s)
                else if m_num2 s = 1 then Some (CopyLast s)
                else merge_loop (high_pick cmp) (high_gallop cmp (location r1)) s)))"

section \<open>The contract of the loop bodies\<close>

text \<open>
  What both merges need of their two loop bodies: a body keeps the invariant and consumes an
  object, or finishes correctly. The counters of wins and thresholds only steer between the two
  modes. \<open>g\<close> fixes the surroundings of a merge and its result.
\<close>

definition objects_left :: "'a merge \<Rightarrow> nat" where
  "objects_left s = m_num1 s + m_num2 s"

locale merge_bodies =
  fixes pick :: "'g \<Rightarrow> 'a merge \<Rightarrow> 'a merge_step"
    and chunk :: "'g \<Rightarrow> 'a merge \<Rightarrow> 'a merge_step"
    and inv :: "'g \<Rightarrow> 'a merge \<Rightarrow> bool"
    and fin :: "'g \<Rightarrow> 'a merge_step \<Rightarrow> bool"
  assumes inv_counters: "inv g s \<Longrightarrow>
      inv g (s\<lparr>m_winners1 := a, m_winners2 := b\<rparr>) \<and> inv g (s\<lparr>m_local := a\<rparr>) \<and>
      inv g (s\<lparr>m_local := a, m_min := b\<rparr>)"
    and pick_running: "inv g s \<Longrightarrow> pick g s = Running s' \<Longrightarrow>
      inv g s' \<and> objects_left s' < objects_left s"
    and pick_final: "inv g s \<Longrightarrow> (\<And>s'. pick g s \<noteq> Running s') \<Longrightarrow> fin g (pick g s)"
    and chunk_running: "inv g s \<Longrightarrow> chunk g s = Running s' \<Longrightarrow>
      inv g s' \<and> objects_left s' < objects_left s"
    and chunk_final: "inv g s \<Longrightarrow> (\<And>s'. chunk g s \<noteq> Running s') \<Longrightarrow> fin g (chunk g s)"
begin

definition progress :: "'g \<Rightarrow> 'a merge \<Rightarrow> 'a merge_step \<Rightarrow> bool" where
  "progress g s r \<longleftrightarrow>
     (case r of Running s' \<Rightarrow> inv g s' \<and> objects_left s' < objects_left s | _ \<Rightarrow> fin g r)"

lemma pick_progress: "inv g s \<Longrightarrow> progress g s (pick g s)"
  using pick_running [of g s] pick_final [of g s] by (cases "pick g s") (auto simp: progress_def)

lemma chunk_progress: "inv g s \<Longrightarrow> progress g s (chunk g s)"
  using chunk_running [of g s] chunk_final [of g s] by (cases "chunk g s") (auto simp: progress_def)

lemma progress_trans: "progress g s (Running s') \<Longrightarrow> progress g s' r \<Longrightarrow> progress g s r"
  by (auto simp: progress_def split: merge_step.splits)

lemma linear_mode_returns: "inv g s \<Longrightarrow> \<exists>r. linear_mode (pick g) s = Some r \<and> progress g s r"
proof (induction "objects_left s" arbitrary: s rule: less_induct)
  case less
  note p = pick_progress [OF less.prems]
  show ?case
  proof (cases "pick g s")
    case (Running s')
    with p have s': "inv g s'" "objects_left s' < objects_left s" by (auto simp: progress_def)
    obtain r where "linear_mode (pick g) s' = Some r" "progress g s' r"
      using less.hyps [OF s'(2,1)] by blast
    with Running p show ?thesis
      by (subst linear_mode.simps) (auto intro: progress_trans)
  qed (use p in \<open>subst linear_mode.simps, simp\<close>)+
qed

lemma gallop_mode_returns: "inv g s \<Longrightarrow> \<exists>r. gallop_mode (chunk g) s = Some r \<and> progress g s r"
proof (induction "objects_left s" arbitrary: s rule: less_induct)
  case less
  note p = chunk_progress [OF less.prems]
  show ?case
  proof (cases "chunk g s")
    case (Running s')
    with p have s': "inv g s'" "objects_left s' < objects_left s" by (auto simp: progress_def)
    obtain r where "gallop_mode (chunk g) s' = Some r" "progress g s' r"
      using less.hyps [OF s'(2,1)] by blast
    with Running p show ?thesis
      by (subst gallop_mode.simps) (auto intro: progress_trans)
  qed (use p in \<open>subst gallop_mode.simps, simp\<close>)+
qed

theorem merge_loop_returns:
  "inv g s \<Longrightarrow> \<exists>r. merge_loop (pick g) (chunk g) s = Some r \<and> fin g r"
proof (induction "objects_left s" arbitrary: s rule: less_induct)
  case less
  let ?s = "s\<lparr>m_winners1 := 0, m_winners2 := 0\<rparr>"
  have left: "objects_left ?s = objects_left s" by (simp add: objects_left_def)
  obtain r1 where r1: "linear_mode (pick g) ?s = Some r1" "progress g ?s r1"
    using linear_mode_returns inv_counters [OF less.prems] by blast
  show ?case
  proof (cases r1)
    case (Running s1)
    let ?s1 = "s1\<lparr>m_local := m_local s1 + 1\<rparr>"
    from Running r1(2) have s1: "inv g ?s1" "objects_left ?s1 < objects_left s"
      using inv_counters left by (auto simp: progress_def objects_left_def)
    obtain r2 where r2: "gallop_mode (chunk g) ?s1 = Some r2" "progress g ?s1 r2"
      using gallop_mode_returns [OF s1(1)] by blast
    show ?thesis
    proof (cases r2)
      case (Running s2)
      let ?s2 = "s2\<lparr>m_local := m_local s2 + 1, m_min := m_local s2 + 1\<rparr>"
      from Running r2(2) s1(2) have "inv g ?s2" "objects_left ?s2 < objects_left s"
        using inv_counters by (auto simp: progress_def objects_left_def)
      then obtain r where "merge_loop (pick g) (chunk g) ?s2 = Some r" "fin g r"
        using less.hyps by blast
      with r1 r2 \<open>r1 = Running s1\<close> Running show ?thesis
        by (subst merge_loop.simps) simp
    qed (use r1 r2 \<open>r1 = Running s1\<close> in \<open>subst merge_loop.simps, simp add: progress_def\<close>)+
  qed (use r1 in \<open>subst merge_loop.simps, simp add: progress_def\<close>)+
qed

end

section \<open>Correctness of the merge from the low end\<close>

text \<open>
  The surroundings of a merge: the cells before and after the two runs and the temporary
  buffer, which stay as they are, and the merged run it has to produce.
\<close>

record 'a merge_frame =
  before :: "'a list"
  merged :: "'a list"
  after :: "'a list"
  buffer :: "'a list"

text \<open>
  In the middle of a merge from the low end: \<open>out\<close> is written, \<open>xs\<close> waits in the temporary
  buffer, \<open>ys\<close> in place, and between \<open>out\<close> and \<open>ys\<close> lie as many free cells as \<open>xs\<close> needs.
\<close>

definition low_at :: "'a merge_frame \<Rightarrow> 'a list \<Rightarrow> 'a list \<Rightarrow> 'a list \<Rightarrow> 'a merge \<Rightarrow> bool" where
  "low_at f out xs ys s \<longleftrightarrow>
     (\<exists>gap tp tq. m_objs s = before f @ out @ gap @ ys @ after f \<and> m_temp s = tp @ xs @ tq \<and>
        length gap = length xs \<and> m_num1 s = length xs \<and> m_num2 s = length ys \<and>
        m_dest s = int (length (before f @ out)) \<and> m_buf2 s = int (length (before f @ out @ gap)) \<and>
        m_buf1 s = int (length tp) \<and> m_temp s = buffer f)"

lemma low_atE:
  assumes "low_at f out xs ys s"
  obtains gap tp tq where "m_objs s = before f @ out @ gap @ ys @ after f" "m_temp s = tp @ xs @ tq"
    "length gap = length xs" "m_num1 s = length xs" "m_num2 s = length ys"
    "m_dest s = int (length (before f @ out))" "m_buf2 s = int (length (before f @ out @ gap))"
    "m_buf1 s = int (length tp)" "m_temp s = buffer f"
  using assms unfolding low_at_def by blast

lemma low_at_counters [simp]:
  "low_at f out xs ys (s\<lparr>m_winners1 := a\<rparr>) = low_at f out xs ys s"
  "low_at f out xs ys (s\<lparr>m_winners2 := a\<rparr>) = low_at f out xs ys s"
  "low_at f out xs ys (s\<lparr>m_local := a\<rparr>) = low_at f out xs ys s"
  "low_at f out xs ys (s\<lparr>m_min := a\<rparr>) = low_at f out xs ys s"
  "low_at f out xs ys (lower_threshold s) = low_at f out xs ys s"
  by (simp_all add: low_at_def lower_threshold_def Let_def)

lemma low_at_heads:
  assumes "low_at f out xs ys s"
  shows "xs \<noteq> [] \<Longrightarrow> m_temp s ! nat (m_buf1 s) = hd xs"
    and "ys \<noteq> [] \<Longrightarrow> m_objs s ! nat (m_buf2 s) = hd ys"
  using assms by (auto elim!: low_atE simp: nth_append hd_conv_nth)

text \<open>The ranges the two gallops search are the waiting parts of the runs.\<close>

lemma low_at_cells:
  assumes "low_at f out xs ys s"
  shows "cells \<lparr>location = 0, rlength = m_num1 s\<rparr> (drop (nat (m_buf1 s)) (m_temp s)) = xs"
    and "cells \<lparr>location = 0, rlength = m_num2 s\<rparr> (drop (nat (m_buf2 s)) (m_objs s)) = ys"
    and "m_num1 s \<le> length (drop (nat (m_buf1 s)) (m_temp s))"
    and "m_num2 s \<le> length (drop (nat (m_buf2 s)) (m_objs s))"
  using assms by (auto elim!: low_atE simp: cells_def)

lemma low_at_length:
  "low_at f out xs ys s \<Longrightarrow> length (m_objs s) = length (before f) + length out + length xs + length ys + length (after f)"
  by (auto elim!: low_atE)

lemma low_take1_at:
  assumes "low_at f out (x # xs) ys s"
  shows "low_at f (out @ [x]) xs ys (low_take1 s)"
  using assms
proof (rule low_atE)
  fix gap tp tq
  assume s: "m_objs s = before f @ out @ gap @ ys @ after f" "m_temp s = tp @ (x # xs) @ tq"
    "length gap = length (x # xs)" "m_num1 s = length (x # xs)" "m_num2 s = length ys"
    "m_dest s = int (length (before f @ out))" "m_buf2 s = int (length (before f @ out @ gap))"
    "m_buf1 s = int (length tp)" "m_temp s = buffer f"
  then obtain g gap' where gap: "gap = g # gap'" by (cases gap) auto
  show ?thesis
    unfolding low_at_def low_take1_def
    by (rule exI [of _ gap'], rule exI [of _ "tp @ [x]"], rule exI [of _ tq])
      (use s gap in \<open>auto simp: nth_append list_update_append nat_add_distrib\<close>)
qed

lemma low_chunk1_at:
  assumes "low_at f out (us @ xs) ys s"
  shows "low_at f (out @ us) xs ys (low_chunk1 (length us) s)"
  using assms
proof (rule low_atE)
  fix gap tp tq
  assume s: "m_objs s = before f @ out @ gap @ ys @ after f" "m_temp s = tp @ (us @ xs) @ tq"
    "length gap = length (us @ xs)" "m_num1 s = length (us @ xs)" "m_num2 s = length ys"
    "m_dest s = int (length (before f @ out))" "m_buf2 s = int (length (before f @ out @ gap))"
    "m_buf1 s = int (length tp)" "m_temp s = buffer f"
  show ?thesis
    unfolding low_at_def low_chunk1_def
    by (rule exI [of _ "drop (length us) gap"], rule exI [of _ "tp @ us"], rule exI [of _ tq])
      (use s in \<open>auto simp: copy_cells_def nat_add_distrib\<close>)
qed

text \<open>Moving a stretch of the second run down over the free cells.\<close>

lemma move_down:
  "copy_cells (p @ gap @ us @ q) (length p) (p @ gap @ us @ q) (length p + length gap) (length us) =
     p @ us @ drop (length us) (gap @ us) @ q"
  by (simp add: copy_cells_def)

lemma low_chunk2_at:
  assumes "low_at f out xs (us @ ys) s"
  shows "low_at f (out @ us) xs ys (low_chunk2 (length us) s)"
  using assms
proof (rule low_atE)
  fix gap tp tq
  assume s: "m_objs s = before f @ out @ gap @ (us @ ys) @ after f" "m_temp s = tp @ xs @ tq"
    "length gap = length xs" "m_num1 s = length xs" "m_num2 s = length (us @ ys)"
    "m_dest s = int (length (before f @ out))" "m_buf2 s = int (length (before f @ out @ gap))"
    "m_buf1 s = int (length tp)" "m_temp s = buffer f"
  have n: "nat (m_dest s) = length (before f @ out)" "nat (m_buf2 s) = length (before f @ out) + length gap"
    using s by simp_all
  have o: "m_objs s = (before f @ out) @ gap @ us @ ys @ after f" using s by simp
  show ?thesis
    unfolding low_at_def low_chunk2_def n o move_down
    by (rule exI [of _ "drop (length us) (gap @ us)"], rule exI [of _ tp], rule exI [of _ tq])
      (use s in auto)
qed

lemma low_chunks_at:
  "low_at f out (us @ xs) ys s \<Longrightarrow>
     low_at f (out @ us) xs ys (if length us \<noteq> 0 then low_chunk1 (length us) s else s)"
  "low_at f out xs (us @ ys) s \<Longrightarrow>
     low_at f (out @ us) xs ys (if length us \<noteq> 0 then low_chunk2 (length us) s else s)"
  using low_chunk1_at [of f out us xs ys s] low_chunk2_at [of f out xs us ys s] by auto

lemma low_take2_chunk:
  assumes "low_at f out xs (y # ys) s"
  shows "low_take2 s = low_chunk2 1 s"
  using assms
  by (cases xs) (auto elim!: low_atE simp: low_take2_def low_chunk2_def copy_cells_def nth_append list_update_append
      nat_add_distrib upd_conv_take_nth_drop take_Suc_conv_app_nth)

lemma low_take2_at: "low_at f out xs (y # ys) s \<Longrightarrow> low_at f (out @ [y]) xs ys (low_take2 s)"
  using low_chunk2_at [of f out xs "[y]" ys s] by (simp add: low_take2_chunk)

lemma low_finish_success:
  assumes "low_at f out xs [] s"
  shows "m_objs (low_finish (Success s)) = before f @ out @ xs @ after f \<and>
    m_temp (low_finish (Success s)) = buffer f"
  using assms by (auto elim!: low_atE simp: low_finish_def copy_cells_def)

lemma low_finish_copy:
  assumes "low_at f out [x] ys s"
  shows "m_objs (low_finish (CopyLast s)) = before f @ out @ ys @ [x] @ after f \<and>
    m_temp (low_finish (CopyLast s)) = buffer f"
proof -
  have "low_at f (out @ ys) [x] [] (low_chunk2 (length ys) s)"
    using low_chunk2_at [of f out "[x]" ys "[]" s] assms by simp
  moreover have "m_num2 s = length ys" "m_dest s = int (length (before f @ out))" "m_temp s ! nat (m_buf1 s) = x"
    using assms by (auto elim!: low_atE simp: nth_append)
  ultimately show ?thesis
    by (auto elim!: low_atE simp: low_finish_def low_chunk2_def Let_def nat_add_distrib list_update_append
        length_Suc_conv)
qed

text \<open>What remains to be merged, and that it yields the result.\<close>

definition low_todo :: "('a \<Rightarrow> bool) \<Rightarrow> 'a comparison \<Rightarrow> 'a merge_frame \<Rightarrow> 'a list \<Rightarrow> 'a list \<Rightarrow> 'a list \<Rightarrow> bool" where
  "low_todo ok cmp f out xs ys \<longleftrightarrow>
     merged f = out @ smerge cmp xs ys \<and> ordered_by cmp xs \<and> ordered_by cmp ys \<and>
     (\<forall>x \<in> set xs \<union> set ys. ok x) \<and> xs \<noteq> [] \<and>
     (\<forall>y \<in> set ys. cmp y (last xs) = NSOrderedAscending) \<and>
     length (before f) + length (merged f) + length (after f) < UINT_SPAN"

definition low_inv :: "('a \<Rightarrow> bool) \<Rightarrow> 'a comparison \<Rightarrow> 'a merge_frame \<Rightarrow> 'a merge \<Rightarrow> bool" where
  "low_inv ok cmp f s \<longleftrightarrow>
     (\<exists>out xs ys. low_at f out xs ys s \<and> low_todo ok cmp f out xs ys \<and> 2 \<le> length xs \<and> ys \<noteq> [])"

definition low_fin :: "'a merge_frame \<Rightarrow> 'a merge_step \<Rightarrow> bool" where
  "low_fin f r \<longleftrightarrow>
     m_objs (low_finish r) = before f @ merged f @ after f \<and> m_temp (low_finish r) = buffer f"

lemma low_todo_take1:
  "low_todo ok cmp f out (us @ xs) (y # ys) \<Longrightarrow> xs \<noteq> [] \<Longrightarrow>
     \<forall>u \<in> set us. cmp y u \<noteq> NSOrderedAscending \<Longrightarrow> low_todo ok cmp f (out @ us) xs (y # ys)"
  by (auto simp: low_todo_def smerge_take1 ordered_by_append)

lemma low_todo_take2:
  "low_todo ok cmp f out (x # xs) (us @ ys) \<Longrightarrow>
     \<forall>u \<in> set us. cmp u x = NSOrderedAscending \<Longrightarrow> low_todo ok cmp f (out @ us) (x # xs) ys"
  by (auto simp: low_todo_def smerge_take2 ordered_by_append)

lemma low_fin_success:
  "low_at f out xs [] s \<Longrightarrow> low_todo ok cmp f out xs [] \<Longrightarrow> low_fin f (Success s)"
  by (simp add: low_fin_def low_finish_success low_todo_def)

lemma low_fin_copy:
  assumes "low_at f out [x] ys s" and "low_todo ok cmp f out [x] ys"
  shows "low_fin f (CopyLast s)"
proof -
  have "smerge cmp [x] ys = ys @ [x]"
    using smerge_take2 [of ys cmp x "[]" "[]"] assms(2) by (simp add: low_todo_def)
  with assms show ?thesis by (simp add: low_fin_def low_finish_copy low_todo_def)
qed

lemma low_todo_fits:
  "low_todo ok cmp f out xs ys \<Longrightarrow> length xs + length ys < UINT_SPAN"
proof -
  assume t: "low_todo ok cmp f out xs ys"
  have "length (smerge cmp xs ys) = length xs + length ys"
    using mset_smerge [of cmp xs ys] by (metis size_mset size_union)
  with t show ?thesis by (auto simp: low_todo_def)
qed

text \<open>How a loop body may end, in terms of the invariant.\<close>

definition low_result :: "('a \<Rightarrow> bool) \<Rightarrow> 'a comparison \<Rightarrow> 'a merge_frame \<Rightarrow> nat \<Rightarrow> 'a merge_step \<Rightarrow> bool" where
  "low_result ok cmp f n r \<longleftrightarrow>
     (case r of Running s' \<Rightarrow> low_inv ok cmp f s' \<and> objects_left s' < n | _ \<Rightarrow> low_fin f r)"

lemma low_at_left: "low_at f out xs ys s \<Longrightarrow> objects_left s = length xs + length ys"
  by (auto elim!: low_atE simp: objects_left_def)

lemma low_at_nums: "low_at f out xs ys s \<Longrightarrow> m_num1 s = length xs \<and> m_num2 s = length ys"
  by (auto elim!: low_atE)

lemma low_took2:
  assumes "low_at f out xs ys s" "low_todo ok cmp f out xs ys" "2 \<le> length xs"
    and "length xs + length ys < n"
  shows "low_result ok cmp f n (if m_num2 s = 0 then Success s else Running s)"
proof (cases "ys = []")
  case True
  with assms low_fin_success [of f out xs s ok cmp] show ?thesis
    by (simp add: low_result_def low_at_nums)
next
  case False
  with assms show ?thesis
    by (auto simp: low_result_def low_inv_def low_at_left low_at_nums)
qed

lemma low_took1:
  assumes "low_at f out xs ys s" "low_todo ok cmp f out xs ys" "ys \<noteq> []"
    and "length xs + length ys < n"
  shows "low_result ok cmp f n (if m_num1 s = 1 then CopyLast s else Running s)"
proof (cases "length xs = 1")
  case True
  then obtain x where "xs = [x]" by (auto simp: length_Suc_conv)
  with assms low_fin_copy [of f out x ys s ok cmp] show ?thesis
    by (simp add: low_result_def low_at_nums)
next
  case False
  have "xs \<noteq> []" using assms(2) by (simp add: low_todo_def)
  then have "2 \<le> length xs" using False by (cases xs rule: remdups_adj.cases) auto
  with assms False show ?thesis
    by (auto simp: low_result_def low_inv_def low_at_left low_at_nums)
qed

lemma low_pick_result:
  assumes "low_inv ok cmp f s"
  shows "low_result ok cmp f (objects_left s) (low_pick cmp s)"
proof -
  from assms obtain out xs ys where s: "low_at f out xs ys s" "low_todo ok cmp f out xs ys"
      "2 \<le> length xs" "ys \<noteq> []" unfolding low_inv_def by blast
  then obtain x xs' y ys' where l: "xs = x # xs'" "ys = y # ys'" by (cases xs; cases ys) auto
  with s(3) have tl: "xs' \<noteq> []" by auto
  note h = low_at_heads [OF s(1)] and left = low_at_left [OF s(1)]
  show ?thesis
  proof (cases "cmp y x = NSOrderedAscending")
    case True
    let ?s = "(low_take2 s)\<lparr>m_winners2 := m_winners2 s + 1, m_winners1 := 0\<rparr>"
    have "low_result ok cmp f (objects_left s) (if m_num2 ?s = 0 then Success ?s else Running ?s)"
      by (rule low_took2 [of f "out @ [y]" xs ys'])
        (use s l True left low_take2_at [of f out xs y ys' s] low_todo_take2 [of ok cmp f out x xs' "[y]" ys'] in auto)
    then show ?thesis using True h l by (auto simp: low_pick_def Let_def split: if_splits)
  next
    case False
    let ?s = "(low_take1 s)\<lparr>m_winners1 := m_winners1 s + 1, m_winners2 := 0\<rparr>"
    have "low_result ok cmp f (objects_left s) (if m_num1 ?s = 1 then CopyLast ?s else Running ?s)"
      by (rule low_took1 [of f "out @ [x]" xs' ys])
        (use s l tl False left low_take1_at [of f out x xs' ys s] low_todo_take1 [of ok cmp f out "[x]" xs' y ys'] in auto)
    then show ?thesis using False h l by (auto simp: low_pick_def Let_def split: if_splits)
  qed
qed

context comparator_laws
begin

lemma low_gallop2_result:
  assumes s: "low_at f out xs ys s" "low_todo ok cmp f out xs ys" "2 \<le> length xs" "ys \<noteq> []"
    and n: "length xs + length ys < n"
  shows "low_result ok cmp f n (low_gallop2 cmp s)"
proof -
  obtain x xs' where xs: "xs = x # xs'" "xs' \<noteq> []" using s(3) by (cases xs; cases "tl xs") auto
  let ?us = "takeWhile (\<lambda>z. cmp z x = NSOrderedAscending) ys"
    and ?ys = "dropWhile (\<lambda>z. cmp z x = NSOrderedAscending) ys"
  let ?s1 = "s\<lparr>m_winners2 := length ?us\<rparr>"
  let ?s2 = "if length ?us \<noteq> 0 then low_chunk2 (length ?us) ?s1 else ?s1"
  have k: "gallopLeft cmp (m_temp s ! nat (m_buf1 s)) (drop (nat (m_buf2 s)) (m_objs s))
      \<lparr>location = 0, rlength = m_num2 s\<rparr> 0 = length ?us"
    using gallopLeft_counts [of "\<lparr>location = 0, rlength = m_num2 s\<rparr>" 0 "drop (nat (m_buf2 s)) (m_objs s)" x]
      low_at_cells [OF s(1)] low_at_heads [OF s(1)] low_at_nums [OF s(1)] low_todo_fits [OF s(2)] s xs
    by (auto simp: low_todo_def range_ok_def)
  have at2: "low_at f (out @ ?us) xs ?ys ?s2"
    by (rule low_chunks_at(2)) (simp add: s(1))
  have todo2: "low_todo ok cmp f (out @ ?us) xs ?ys"
    unfolding xs(1) by (rule low_todo_take2) (use s(2) xs in \<open>auto dest: set_takeWhileD\<close>)
  have len: "length ?us + length ?ys = length ys" by (metis length_append takeWhile_dropWhile_id)
  have step: "low_gallop2 cmp s = (if length ?us \<noteq> 0 \<and> m_num2 ?s2 = 0 then Success ?s2
      else if m_num1 (low_take1 ?s2) = 1 then CopyLast (low_take1 ?s2) else Running (low_take1 ?s2))"
    by (simp only: low_gallop2_def k Let_def)
  show ?thesis
  proof (cases "?ys = []")
    case True
    moreover from True len have "length ?us = length ys" by (simp only: list.size add_0_right)
    with s(4) have "length ?us \<noteq> 0" by (metis length_0_conv)
    moreover have "m_num2 ?s2 = 0" using low_at_nums [OF at2] True by simp
    ultimately show ?thesis
      using low_fin_success [of f "out @ ?us" xs ?s2 ok cmp] at2 todo2
      unfolding step by (simp only: low_result_def if_True simp_thms merge_step.case)
  next
    case False
    then obtain z zs where ys: "?ys = z # zs" by (cases ?ys) auto
    then have z: "cmp z x \<noteq> NSOrderedAscending" unfolding dropWhile_eq_Cons_conv by blast
    have num2: "m_num2 ?s2 \<noteq> 0" using low_at_nums [OF at2] ys by simp
    have "low_result ok cmp f n (if m_num1 (low_take1 ?s2) = 1 then CopyLast (low_take1 ?s2)
        else Running (low_take1 ?s2))"
    proof (rule low_took1)
      show "low_at f ((out @ ?us) @ [x]) xs' ?ys (low_take1 ?s2)"
        by (rule low_take1_at) (use at2 xs(1) in simp)
      show "low_todo ok cmp f ((out @ ?us) @ [x]) xs' ?ys"
        unfolding ys by (rule low_todo_take1) (use todo2 xs ys z in auto)
    qed (use ys len n xs in auto)
    with num2 show ?thesis unfolding step by (simp only: simp_thms if_False)
  qed
qed

lemma low_gallop_result:
  assumes "low_inv ok cmp f s0"
  shows "low_result ok cmp f (objects_left s0) (low_gallop cmp s0)"
proof -
  define s where "s = lower_threshold s0"
  from assms obtain out xs ys where s: "low_at f out xs ys s" "low_todo ok cmp f out xs ys"
      "2 \<le> length xs" "ys \<noteq> []" unfolding low_inv_def s_def by auto
  obtain y ys' where ys: "ys = y # ys'" using s(4) by (cases ys) auto
  have left: "objects_left s0 = length xs + length ys"
    using low_at_left [OF s(1)] by (simp add: s_def lower_threshold_def Let_def objects_left_def)
  let ?us = "takeWhile (\<lambda>z. cmp y z \<noteq> NSOrderedAscending) xs"
    and ?xs = "dropWhile (\<lambda>z. cmp y z \<noteq> NSOrderedAscending) xs"
  let ?s1 = "s\<lparr>m_winners1 := length ?us\<rparr>"
  let ?s2 = "if length ?us \<noteq> 0 then low_chunk1 (length ?us) ?s1 else ?s1"
  let ?s3 = "low_take2 ?s2"
  have k: "gallopRight cmp (m_objs s ! nat (m_buf2 s)) (drop (nat (m_buf1 s)) (m_temp s))
      \<lparr>location = 0, rlength = m_num1 s\<rparr> 0 = length ?us"
    using gallopRight_counts [of "\<lparr>location = 0, rlength = m_num1 s\<rparr>" 0 "drop (nat (m_buf1 s)) (m_temp s)" y]
      low_at_cells [OF s(1)] low_at_heads [OF s(1)] low_at_nums [OF s(1)] low_todo_fits [OF s(2)] s ys
    by (auto simp: low_todo_def range_ok_def)
  have last: "last xs \<in> set xs" "cmp y (last xs) = NSOrderedAscending"
    using s(2) ys by (auto simp: low_todo_def)
  then have "?xs \<noteq> []" unfolding dropWhile_eq_Nil_conv by blast
  then obtain x xs' where xs: "?xs = x # xs'" by (cases ?xs) simp_all
  then have x: "cmp y x = NSOrderedAscending" unfolding dropWhile_eq_Cons_conv by blast
  have at2: "low_at f (out @ ?us) ?xs ys ?s2"
    by (rule low_chunks_at(1)) (simp add: s(1))
  have todo2: "low_todo ok cmp f (out @ ?us) ?xs ys"
    unfolding ys
  proof (rule low_todo_take1)
    show "low_todo ok cmp f out (?us @ ?xs) (y # ys')" using s(2) ys by simp
    show "?xs \<noteq> []" using xs by simp
  qed (auto dest: set_takeWhileD)
  have len: "length ?us + length ?xs = length xs" by (metis length_append takeWhile_dropWhile_id)
  have step: "low_gallop cmp s0 = (if length ?us \<noteq> 0 \<and> m_num1 ?s2 = 1 then CopyLast ?s2
      else if length ?us \<noteq> 0 \<and> m_num1 ?s2 = 0 then Success ?s2
      else if m_num2 ?s3 = 0 then Success ?s3 else low_gallop2 cmp ?s3)"
    by (simp only: low_gallop_def k Let_def s_def [symmetric])
  have num1: "m_num1 ?s2 = length ?xs" using low_at_nums [OF at2] by simp
  show ?thesis
  proof (cases "length ?us \<noteq> 0 \<and> length ?xs = 1")
    case True
    have "low_fin f (CopyLast ?s2)"
      by (rule low_fin_copy [of f "out @ ?us" x ys _ ok cmp]) (use at2 todo2 xs True in auto)
    with True show ?thesis
      unfolding step num1 by (simp only: low_result_def if_True simp_thms merge_step.case)
  next
    case False
    then have two: "2 \<le> length ?xs" using s(3) len xs by (cases xs') auto
    have at3: "low_at f ((out @ ?us) @ [y]) ?xs ys' ?s3" by (rule low_take2_at) (use at2 ys in simp)
    have todo3: "low_todo ok cmp f ((out @ ?us) @ [y]) ?xs ys'"
      unfolding xs by (rule low_todo_take2) (use todo2 xs ys x in auto)
    have "low_result ok cmp f (objects_left s0) (if m_num2 ?s3 = 0 then Success ?s3 else low_gallop2 cmp ?s3)"
    proof (cases "ys' = []")
      case True
      with low_took2 [OF at3 todo3 two, of "objects_left s0"] len left ys low_at_nums [OF at3]
      show ?thesis by simp
    next
      case ne: False
      then show ?thesis
        using low_gallop2_result [OF at3 todo3 two ne, of "objects_left s0"] len left ys low_at_nums [OF at3]
        by simp
    qed
    moreover have "\<not> (length ?us \<noteq> 0 \<and> m_num1 ?s2 = 1)" "\<not> (length ?us \<noteq> 0 \<and> m_num1 ?s2 = 0)"
      using False num1 xs by auto
    ultimately show ?thesis unfolding step by (simp only: if_False)
  qed
qed

end

sublocale comparator_laws \<subseteq> low: merge_bodies "\<lambda>f. low_pick cmp" "\<lambda>f. low_gallop cmp" "low_inv ok cmp" low_fin
proof unfold_locales
  fix f :: "'a merge_frame" and s s' :: "'a merge" and a b :: nat
  assume inv: "low_inv ok cmp f s"
  then show "low_inv ok cmp f (s\<lparr>m_winners1 := a, m_winners2 := b\<rparr>) \<and>
      low_inv ok cmp f (s\<lparr>m_local := a\<rparr>) \<and> low_inv ok cmp f (s\<lparr>m_local := a, m_min := b\<rparr>)"
    by (simp add: low_inv_def)
  note p = low_pick_result [OF inv, unfolded low_result_def] and
    c = low_gallop_result [OF inv, unfolded low_result_def]
  show "low_pick cmp s = Running s' \<Longrightarrow> low_inv ok cmp f s' \<and> objects_left s' < objects_left s"
    using p by simp
  show "low_gallop cmp s = Running s' \<Longrightarrow> low_inv ok cmp f s' \<and> objects_left s' < objects_left s"
    using c by simp
  show "(\<And>s'. low_pick cmp s \<noteq> Running s') \<Longrightarrow> low_fin f (low_pick cmp s)"
    using p by (auto split: merge_step.splits)
  show "(\<And>s'. low_gallop cmp s \<noteq> Running s') \<Longrightarrow> low_fin f (low_gallop cmp s)"
    using c by (auto split: merge_step.splits)
qed

text \<open>The merge from the low end replaces the two runs by their stable merge.\<close>

lemma ensureTempCapacity_keeps:
  "objects (ensureTempCapacity d n) = objects d" "minGallop (ensureTempCapacity d n) = minGallop d"
  "runStack (ensureTempCapacity d n) = runStack d" "stackSize (ensureTempCapacity d n) = stackSize d"
  by (simp_all add: ensureTempCapacity_def)

lemma ensureTempCapacity_room:
  "length (tempBuffer d) \<le> tempCapacity d \<Longrightarrow>
     length (tempBuffer (ensureTempCapacity d n)) \<le> tempCapacity (ensureTempCapacity d n) \<and>
     n \<le> tempCapacity (ensureTempCapacity d n)"
  by (simp add: ensureTempCapacity_def)

text \<open>
  What a merge of the runs \<open>xs\<close> and \<open>ys\<close> owes its caller: the merged objects in place, the
  run stack untouched, and no write past the end of the temporary buffer.
\<close>

definition merge_done :: "'a comparison \<Rightarrow> 'a timsort \<Rightarrow> 'a list \<Rightarrow> 'a list \<Rightarrow> 'a list \<Rightarrow> 'a list \<Rightarrow> 'a timsort \<Rightarrow> bool" where
  "merge_done cmp d pre xs ys post d' \<longleftrightarrow>
     objects d' = pre @ smerge cmp xs ys @ post \<and> runStack d' = runStack d \<and> stackSize d' = stackSize d \<and>
     (length (tempBuffer d) \<le> tempCapacity d \<longrightarrow> length (tempBuffer d') \<le> tempCapacity d')"

context comparator_laws
begin

lemma mergeLowRun_merges:
  assumes objs: "objects d = pre @ (x # xs) @ (y # ys) @ post"
    and r: "r1 = \<lparr>location = length pre, rlength = length (x # xs)\<rparr>"
      "r2 = \<lparr>location = length pre + length (x # xs), rlength = length (y # ys)\<rparr>"
    and sorted: "ordered_by cmp (x # xs)" "ordered_by cmp (y # ys)"
    and oks: "\<forall>z \<in> set (x # xs) \<union> set (y # ys). ok z"
    and first: "cmp y x = NSOrderedAscending"
    and last: "\<forall>z \<in> set (y # ys). cmp z (last (x # xs)) = NSOrderedAscending"
    and fits: "length (objects d) < UINT_SPAN"
  shows "\<exists>d'. mergeLowRun cmp d r1 r2 = Some d' \<and> merge_done cmp d pre (x # xs) (y # ys) post d'"
proof -
  define e where "e = ensureTempCapacity d (rlength r1)"
  define temp where "temp = copy_cells (tempBuffer e) 0 (objects e) (location r1) (rlength r1)"
  define f where "f = \<lparr>before = pre, merged = smerge cmp (x # xs) (y # ys), after = post, buffer = temp\<rparr>"
  define s0 where "s0 = \<lparr>m_objs = objects e, m_temp = temp, m_dest = int (location r1), m_buf1 = 0,
    m_buf2 = int (location r2), m_num1 = rlength r1, m_num2 = rlength r2, m_winners1 = 0,
    m_winners2 = 0, m_local = minGallop e, m_min = minGallop e\<rparr>"
  have fill: "fill_temp e r1 = Some temp"
    by (simp add: fill_temp_def temp_def e_def ensureTempCapacity_def)
  have temp: "temp = (x # xs) @ drop (length (x # xs)) (tempBuffer e)"
    by (simp add: temp_def copy_cells_def r e_def ensureTempCapacity_keeps objs)
  have "low_at f [] (x # xs) (y # ys) s0"
    unfolding low_at_def
    by (rule exI [of _ "x # xs"], rule exI [of _ "[]"], rule exI [of _ "drop (length (x # xs)) (tempBuffer e)"])
      (simp add: s0_def f_def r temp e_def ensureTempCapacity_keeps objs)
  then have at: "low_at f [y] (x # xs) ys (low_take2 s0)"
    using low_take2_at [of f "[]" "x # xs" y ys s0] by simp
  have len: "length (smerge cmp (x # xs) (y # ys)) = length (x # xs) + length (y # ys)"
    by (metis mset_smerge size_mset size_union)
  have todo: "low_todo ok cmp f [y] (x # xs) ys"
    using first sorted oks last fits objs len by (simp add: low_todo_def f_def ordered_by_Cons)
  have "\<exists>r. (if m_num2 (low_take2 s0) = 0 then Some (Success (low_take2 s0))
      else if m_num1 (low_take2 s0) = 1 then Some (CopyLast (low_take2 s0))
      else merge_loop (low_pick cmp) (low_gallop cmp) (low_take2 s0)) = Some r \<and> low_fin f r"
  proof -
    consider "ys = []" | "ys \<noteq> []" "xs = []" | "ys \<noteq> []" "2 \<le> length (x # xs)" by (cases xs) auto
    then show ?thesis
    proof cases
      case 1
      with at todo low_fin_success [of f "[y]" "x # xs" "low_take2 s0" ok cmp] show ?thesis
        by (simp add: low_at_nums)
    next
      case 2
      with at todo low_fin_copy [of f "[y]" x ys "low_take2 s0" ok cmp] show ?thesis
        by (simp add: low_at_nums)
    next
      case 3
      with at todo have "low_inv ok cmp f (low_take2 s0)" unfolding low_inv_def by blast
      with low.merge_loop_returns [of f "low_take2 s0"] 3 at show ?thesis
        by (auto simp: low_at_nums)
    qed
  qed
  moreover have "mergeLowRun cmp d r1 r2 =
      map_option (\<lambda>r. e\<lparr>objects := m_objs (low_finish r), tempBuffer := m_temp (low_finish r),
                        minGallop := m_min (low_finish r)\<rparr>)
        (if m_num2 (low_take2 s0) = 0 then Some (Success (low_take2 s0))
         else if m_num1 (low_take2 s0) = 1 then Some (CopyLast (low_take2 s0))
         else merge_loop (low_pick cmp) (low_gallop cmp) (low_take2 s0))"
    unfolding mergeLowRun_def Let_def e_def [symmetric] s0_def [symmetric] fill Option.bind.bind_lunit
    by (rule refl)
  ultimately obtain r where r': "low_fin f r" "mergeLowRun cmp d r1 r2 = Some (e\<lparr>objects := m_objs (low_finish r),
      tempBuffer := m_temp (low_finish r), minGallop := m_min (low_finish r)\<rparr>)" by auto
  have "length temp \<le> tempCapacity e" if "length (tempBuffer d) \<le> tempCapacity d"
    using ensureTempCapacity_room [OF that, of "rlength r1"] by (simp add: temp r e_def) arith
  with r' show ?thesis
    by (simp add: low_fin_def merge_done_def f_def e_def ensureTempCapacity_keeps)
qed

end

section \<open>Correctness of the merge from the high end\<close>

text \<open>
  The mirror image: \<open>xs\<close> waits in place, \<open>ys\<close> at the start of the temporary buffer, and the
  free cells lie between \<open>xs\<close> and what is written.
\<close>

definition high_at :: "'a merge_frame \<Rightarrow> 'a list \<Rightarrow> 'a list \<Rightarrow> 'a list \<Rightarrow> 'a merge \<Rightarrow> bool" where
  "high_at f out xs ys s \<longleftrightarrow>
     (\<exists>gap tq. m_objs s = before f @ xs @ gap @ out @ after f \<and> m_temp s = ys @ tq \<and>
        length gap = length ys \<and> m_num1 s = length xs \<and> m_num2 s = length ys \<and>
        m_dest s = int (length (before f @ xs @ gap)) - 1 \<and> m_buf1 s = int (length (before f @ xs)) - 1 \<and>
        m_buf2 s = int (length ys) - 1 \<and> m_temp s = buffer f)"

lemma high_atE:
  assumes "high_at f out xs ys s"
  obtains gap tq where "m_objs s = before f @ xs @ gap @ out @ after f" "m_temp s = ys @ tq"
    "length gap = length ys" "m_num1 s = length xs" "m_num2 s = length ys"
    "m_dest s = int (length (before f @ xs @ gap)) - 1" "m_buf1 s = int (length (before f @ xs)) - 1"
    "m_buf2 s = int (length ys) - 1" "m_temp s = buffer f"
  using assms unfolding high_at_def by blast

lemma high_at_counters [simp]:
  "high_at f out xs ys (s\<lparr>m_winners1 := a\<rparr>) = high_at f out xs ys s"
  "high_at f out xs ys (s\<lparr>m_winners2 := a\<rparr>) = high_at f out xs ys s"
  "high_at f out xs ys (s\<lparr>m_local := a\<rparr>) = high_at f out xs ys s"
  "high_at f out xs ys (s\<lparr>m_min := a\<rparr>) = high_at f out xs ys s"
  "high_at f out xs ys (lower_threshold s) = high_at f out xs ys s"
  by (simp_all add: high_at_def lower_threshold_def Let_def)

lemma high_at_lasts:
  "high_at f out xs (ys @ [y]) s \<Longrightarrow> m_temp s ! nat (m_buf2 s) = y"
  "high_at f out (xs @ [x]) ys s \<Longrightarrow> m_objs s ! nat (m_buf1 s) = x"
  by (auto elim!: high_atE simp: nth_append nat_add_distrib)

lemma high_at_cells:
  assumes "high_at f out xs ys s"
  shows "cells \<lparr>location = 0, rlength = m_num1 s\<rparr> (drop (length (before f)) (m_objs s)) = xs"
    and "cells \<lparr>location = 0, rlength = m_num2 s\<rparr> (m_temp s) = ys"
    and "m_num1 s \<le> length (drop (length (before f)) (m_objs s))"
    and "m_num2 s \<le> length (m_temp s)"
  using assms by (auto elim!: high_atE simp: cells_def)

lemma high_at_nums: "high_at f out xs ys s \<Longrightarrow> m_num1 s = length xs \<and> m_num2 s = length ys"
  by (auto elim!: high_atE)

lemma high_at_left: "high_at f out xs ys s \<Longrightarrow> objects_left s = length xs + length ys"
  by (auto elim!: high_atE simp: objects_left_def)

text \<open>Moving a stretch of the first run up over the free cells.\<close>

lemma move_up:
  "copy_cells (p @ us @ gap @ q) (length p + length gap) (p @ us @ gap @ q) (length p) (length us) =
     p @ take (length gap) (us @ gap) @ us @ q"
  by (simp add: copy_cells_def)

lemma high_chunk1_at:
  assumes "high_at f out (xs @ us) ys s"
  shows "high_at f (us @ out) xs ys (high_chunk1 (length us) s)"
  using assms
proof (rule high_atE)
  fix gap tq
  assume s: "m_objs s = before f @ (xs @ us) @ gap @ out @ after f" "m_temp s = ys @ tq"
    "length gap = length ys" "m_num1 s = length (xs @ us)" "m_num2 s = length ys"
    "m_dest s = int (length (before f @ (xs @ us) @ gap)) - 1"
    "m_buf1 s = int (length (before f @ xs @ us)) - 1"
    "m_buf2 s = int (length ys) - 1" "m_temp s = buffer f"
  have n: "nat (m_dest s - int (length us) + 1) = length (before f @ xs) + length gap"
    "nat (m_buf1 s - int (length us) + 1) = length (before f @ xs)"
    using s by simp_all
  have o: "m_objs s = (before f @ xs) @ us @ gap @ out @ after f" using s by simp
  show ?thesis
    unfolding high_at_def high_chunk1_def Let_def n o move_up
    by (rule exI [of _ "take (length gap) (us @ gap)"], rule exI [of _ tq]) (use s in auto)
qed

lemma high_chunk2_at:
  assumes "high_at f out xs (ys @ us) s"
  shows "high_at f (us @ out) xs ys (high_chunk2 (length us) s)"
  using assms
proof (rule high_atE)
  fix gap tq
  assume s: "m_objs s = before f @ xs @ gap @ out @ after f" "m_temp s = (ys @ us) @ tq"
    "length gap = length (ys @ us)" "m_num1 s = length xs" "m_num2 s = length (ys @ us)"
    "m_dest s = int (length (before f @ xs @ gap)) - 1" "m_buf1 s = int (length (before f @ xs)) - 1"
    "m_buf2 s = int (length (ys @ us)) - 1" "m_temp s = buffer f"
  have n: "nat (m_dest s - int (length us) + 1) = length (before f @ xs) + length ys"
    "nat (m_buf2 s - int (length us) + 1) = length ys"
    using s by simp_all
  show ?thesis
    unfolding high_at_def high_chunk2_def Let_def n
    by (rule exI [of _ "take (length ys) gap"], rule exI [of _ "us @ tq"])
      (use s in \<open>auto simp: copy_cells_def\<close>)
qed

lemma high_take1_chunk:
  assumes "high_at f out (xs @ [x]) ys s"
  shows "high_take1 s = high_chunk1 1 s"
  using assms
  by (cases ys) (auto elim!: high_atE simp: high_take1_def high_chunk1_def copy_cells_def nth_append list_update_append
      Let_def nat_add_distrib upd_conv_take_nth_drop take_Suc_conv_app_nth)

lemma high_take2_chunk:
  assumes "high_at f out xs (ys @ [y]) s"
  shows "high_take2 s = high_chunk2 1 s"
  using assms
  by (auto elim!: high_atE simp: high_take2_def high_chunk2_def copy_cells_def nth_append list_update_append
      Let_def nat_add_distrib upd_conv_take_nth_drop take_Suc_conv_app_nth)

lemma high_take1_at: "high_at f out (xs @ [x]) ys s \<Longrightarrow> high_at f (x # out) xs ys (high_take1 s)"
  using high_chunk1_at [of f out xs "[x]" ys s] by (simp add: high_take1_chunk)

lemma high_take2_at: "high_at f out xs (ys @ [y]) s \<Longrightarrow> high_at f (y # out) xs ys (high_take2 s)"
  using high_chunk2_at [of f out xs ys "[y]" s] by (simp add: high_take2_chunk)

lemma high_chunks_at:
  "high_at f out (xs @ us) ys s \<Longrightarrow>
     high_at f (us @ out) xs ys (if length us \<noteq> 0 then high_chunk1 (length us) s else s)"
  "high_at f out xs (ys @ us) s \<Longrightarrow>
     high_at f (us @ out) xs ys (if length us \<noteq> 0 then high_chunk2 (length us) s else s)"
  using high_chunk1_at [of f out xs us ys s] high_chunk2_at [of f out xs ys us s] by auto

lemma high_finish_success:
  assumes "high_at f out [] ys s"
  shows "m_objs (high_finish (Success s)) = before f @ ys @ out @ after f \<and>
    m_temp (high_finish (Success s)) = buffer f"
  using assms by (auto elim!: high_atE simp: high_finish_def copy_cells_def)

lemma high_finish_copy:
  assumes "high_at f out xs [y] s"
  shows "m_objs (high_finish (CopyLast s)) = before f @ [y] @ xs @ out @ after f \<and>
    m_temp (high_finish (CopyLast s)) = buffer f"
proof -
  have "high_at f (xs @ out) [] [y] (high_chunk1 (length xs) s)"
    using high_chunk1_at [of f out "[]" xs "[y]" s] assms by simp
  moreover have "m_num1 s = length xs" "m_dest s = int (length (before f) + length xs)"
      "m_temp s ! nat (m_buf2 s) = y" "m_temp s = buffer f"
    using assms by (auto elim!: high_atE)
  ultimately show ?thesis
    by (auto elim!: high_atE simp: high_finish_def high_chunk1_def Let_def nat_add_distrib list_update_append
        length_Suc_conv)
qed

definition high_todo :: "('a \<Rightarrow> bool) \<Rightarrow> 'a comparison \<Rightarrow> 'a merge_frame \<Rightarrow> 'a list \<Rightarrow> 'a list \<Rightarrow> 'a list \<Rightarrow> bool" where
  "high_todo ok cmp f out xs ys \<longleftrightarrow>
     merged f = smerge cmp xs ys @ out \<and> ordered_by cmp xs \<and> ordered_by cmp ys \<and>
     (\<forall>x \<in> set xs \<union> set ys. ok x) \<and> ys \<noteq> [] \<and>
     (\<forall>x \<in> set xs. cmp (hd ys) x = NSOrderedAscending) \<and>
     length (before f) + length (merged f) + length (after f) < UINT_SPAN"

definition high_inv :: "('a \<Rightarrow> bool) \<Rightarrow> 'a comparison \<Rightarrow> 'a merge_frame \<Rightarrow> 'a merge \<Rightarrow> bool" where
  "high_inv ok cmp f s \<longleftrightarrow>
     (\<exists>out xs ys. high_at f out xs ys s \<and> high_todo ok cmp f out xs ys \<and> xs \<noteq> [] \<and> 2 \<le> length ys)"

definition high_fin :: "'a merge_frame \<Rightarrow> 'a merge_step \<Rightarrow> bool" where
  "high_fin f r \<longleftrightarrow>
     m_objs (high_finish r) = before f @ merged f @ after f \<and> m_temp (high_finish r) = buffer f"

lemma high_todo_take1:
  "high_todo ok cmp f out (xs @ us) ys \<Longrightarrow>
     \<forall>u \<in> set us. \<forall>z \<in> set ys. cmp z u = NSOrderedAscending \<Longrightarrow> high_todo ok cmp f (us @ out) xs ys"
  by (auto simp: high_todo_def smerge_last1 ordered_by_append)

lemma high_todo_take2:
  "high_todo ok cmp f out xs (ys @ us) \<Longrightarrow> ys \<noteq> [] \<Longrightarrow>
     \<forall>u \<in> set us. \<forall>x \<in> set xs. cmp u x \<noteq> NSOrderedAscending \<Longrightarrow> high_todo ok cmp f (us @ out) xs ys"
  by (auto simp: high_todo_def smerge_last2 ordered_by_append)

lemma high_fin_success:
  "high_at f out [] ys s \<Longrightarrow> high_todo ok cmp f out [] ys \<Longrightarrow> high_fin f (Success s)"
  by (simp add: high_fin_def high_finish_success high_todo_def)

lemma high_fin_copy:
  assumes "high_at f out xs [y] s" and "high_todo ok cmp f out xs [y]"
  shows "high_fin f (CopyLast s)"
proof -
  have "smerge cmp xs [y] = y # xs"
    using smerge_last1 [of xs "[y]" cmp "[]"] assms(2) by (simp add: high_todo_def)
  with assms show ?thesis by (simp add: high_fin_def high_finish_copy high_todo_def)
qed

lemma high_todo_fits:
  "high_todo ok cmp f out xs ys \<Longrightarrow> length xs + length ys < UINT_SPAN"
proof -
  assume t: "high_todo ok cmp f out xs ys"
  have "length (smerge cmp xs ys) = length xs + length ys"
    using mset_smerge [of cmp xs ys] by (metis size_mset size_union)
  with t show ?thesis by (auto simp: high_todo_def)
qed

definition high_result :: "('a \<Rightarrow> bool) \<Rightarrow> 'a comparison \<Rightarrow> 'a merge_frame \<Rightarrow> nat \<Rightarrow> 'a merge_step \<Rightarrow> bool" where
  "high_result ok cmp f n r \<longleftrightarrow>
     (case r of Running s' \<Rightarrow> high_inv ok cmp f s' \<and> objects_left s' < n | _ \<Rightarrow> high_fin f r)"

lemma high_took1:
  assumes "high_at f out xs ys s" "high_todo ok cmp f out xs ys" "2 \<le> length ys"
    and "length xs + length ys < n"
  shows "high_result ok cmp f n (if m_num1 s = 0 then Success s else Running s)"
proof (cases "xs = []")
  case True
  with assms high_fin_success [of f out ys s ok cmp] show ?thesis
    by (simp add: high_result_def high_at_nums)
next
  case False
  with assms show ?thesis
    by (auto simp: high_result_def high_inv_def high_at_left high_at_nums)
qed

lemma high_took2:
  assumes "high_at f out xs ys s" "high_todo ok cmp f out xs ys" "xs \<noteq> []"
    and "length xs + length ys < n"
  shows "high_result ok cmp f n (if m_num2 s = 1 then CopyLast s else Running s)"
proof (cases "length ys = 1")
  case True
  then obtain y where "ys = [y]" by (auto simp: length_Suc_conv)
  with assms high_fin_copy [of f out xs y s ok cmp] show ?thesis
    by (simp add: high_result_def high_at_nums)
next
  case False
  have "ys \<noteq> []" using assms(2) by (simp add: high_todo_def)
  then have "2 \<le> length ys" using False by (cases ys rule: remdups_adj.cases) auto
  with assms False show ?thesis
    by (auto simp: high_result_def high_inv_def high_at_left high_at_nums)
qed

context comparator_laws
begin

text \<open>Comparisons with the ends of a sorted list decide those with all of it.\<close>

lemma last_before_all:
  assumes "ordered_by cmp (ys @ [y])" "\<forall>z \<in> set (ys @ [y]). ok z" "ok x" "cmp y x = NSOrderedAscending"
    and "z \<in> set (ys @ [y])"
  shows "cmp z x = NSOrderedAscending"
  using assms before_trans' [of z y x] by (auto simp: ordered_by_append)

lemma not_before_all:
  assumes "ordered_by cmp (xs @ [x])" "\<forall>z \<in> set (xs @ [x]). ok z" "ok y" "cmp y x \<noteq> NSOrderedAscending"
    and "z \<in> set (xs @ [x])"
  shows "cmp y z \<noteq> NSOrderedAscending"
  using assms before_trans [of y z x] by (auto simp: ordered_by_append)

lemma dropWhile_after:
  assumes "ordered_by cmp xs" "\<forall>x \<in> set xs. ok x" "ok y"
    and "v \<in> set (dropWhile (\<lambda>z. cmp y z \<noteq> NSOrderedAscending) xs)"
  shows "cmp y v = NSOrderedAscending"
  using assms
proof (induction xs)
  case (Cons x xs)
  then show ?case using before_all [of x xs y v] by (auto simp: ordered_by_Cons split: if_splits)
qed simp

lemma dropWhile_not_before:
  assumes "ordered_by cmp ys" "\<forall>y \<in> set ys. ok y" "ok x"
    and "v \<in> set (dropWhile (\<lambda>z. cmp z x = NSOrderedAscending) ys)"
  shows "cmp v x \<noteq> NSOrderedAscending"
  using assms
proof (induction ys)
  case (Cons y ys)
  show ?case
  proof (cases "cmp y x = NSOrderedAscending")
    case True
    then show ?thesis using Cons by (auto simp: ordered_by_Cons)
  next
    case False
    then have "v \<in> set (y # ys)" using Cons.prems(4) by simp
    with False Cons.prems show ?thesis using before_trans' [of y v x] by (auto simp: ordered_by_Cons)
  qed
qed simp

lemma high_pick_result:
  assumes "high_inv ok cmp f s"
  shows "high_result ok cmp f (objects_left s) (high_pick cmp s)"
proof -
  from assms obtain out xs ys where s: "high_at f out xs ys s" "high_todo ok cmp f out xs ys"
      "xs \<noteq> []" "2 \<le> length ys" unfolding high_inv_def by blast
  obtain x xs' where xs: "xs = xs' @ [x]" using s(3) by (cases xs rule: rev_cases) auto
  obtain y ys' where ys: "ys = ys' @ [y]" using s(4) by (cases ys rule: rev_cases) auto
  have tl: "ys' \<noteq> []" using s(4) ys by auto
  have lasts: "m_temp s ! nat (m_buf2 s) = y" "m_objs s ! nat (m_buf1 s) = x"
    using high_at_lasts(1) [of f out xs ys' y s] high_at_lasts(2) [of f out xs' x ys s] s(1) xs ys by simp_all
  note left = high_at_left [OF s(1)]
  have o: "ordered_by cmp (xs' @ [x])" "ordered_by cmp (ys' @ [y])" "\<forall>z \<in> set (xs' @ [x]). ok z"
      "\<forall>z \<in> set (ys' @ [y]). ok z"
    using s(2) xs ys by (auto simp: high_todo_def)
  show ?thesis
  proof (cases "cmp y x = NSOrderedAscending")
    case True
    let ?s = "(high_take1 s)\<lparr>m_winners1 := m_winners1 s + 1, m_winners2 := 0\<rparr>"
    have "high_todo ok cmp f ([x] @ out) xs' ys"
      by (rule high_todo_take1) (use s(2) xs ys last_before_all [OF o(2,4) _ True] o(3) in auto)
    then have "high_result ok cmp f (objects_left s) (if m_num1 ?s = 0 then Success ?s else Running ?s)"
      by (intro high_took1 [of f "x # out" xs' ys])
        (use s xs left high_take1_at [of f out xs' x ys s] in auto)
    then show ?thesis using True lasts by (auto simp: high_pick_def Let_def split: if_splits)
  next
    case False
    let ?s = "(high_take2 s)\<lparr>m_winners2 := m_winners2 s + 1, m_winners1 := 0\<rparr>"
    have "high_todo ok cmp f ([y] @ out) xs ys'"
      by (rule high_todo_take2) (use s(2) xs ys tl not_before_all [OF o(1,3) _ False] o(4) in auto)
    then have "high_result ok cmp f (objects_left s) (if m_num2 ?s = 1 then CopyLast ?s else Running ?s)"
      by (intro high_took2 [of f "y # out" xs ys'])
        (use s ys left high_take2_at [of f out xs ys' y s] in auto)
    then show ?thesis using False lasts by (auto simp: high_pick_def Let_def split: if_splits)
  qed
qed

end

context comparator_laws
begin

lemma high_gallop2_result:
  assumes s: "high_at f out xs ys s" "high_todo ok cmp f out xs ys" "xs \<noteq> []" "2 \<le> length ys"
    and n: "length xs + length ys < n"
  shows "high_result ok cmp f n (high_gallop2 cmp s)"
proof -
  obtain x xs' where xs: "xs = xs' @ [x]" using s(3) by (cases xs rule: rev_cases) auto
  let ?us = "takeWhile (\<lambda>z. cmp z x = NSOrderedAscending) ys"
    and ?vs = "dropWhile (\<lambda>z. cmp z x = NSOrderedAscending) ys"
  let ?s1 = "s\<lparr>m_winners2 := length ?vs\<rparr>"
  let ?s2 = "if length ?vs \<noteq> 0 then high_chunk2 (length ?vs) ?s1 else ?s1"
  let ?s3 = "high_take1 ?s2"
  have len: "length ?us + length ?vs = length ys" by (metis length_append takeWhile_dropWhile_id)
  have o: "ordered_by cmp (xs' @ [x])" "ordered_by cmp ys" "\<forall>z \<in> set (xs' @ [x]). ok z"
      "\<forall>z \<in> set ys. ok z"
    using s(2) xs by (auto simp: high_todo_def)
  have "gallopLeft cmp (m_objs s ! nat (m_buf1 s)) (m_temp s)
      \<lparr>location = 0, rlength = m_num2 s\<rparr> (m_num2 s - 1) = length ?us"
    using gallopLeft_counts [of "\<lparr>location = 0, rlength = m_num2 s\<rparr>" "m_num2 s - 1" "m_temp s" x]
      high_at_cells [OF s(1)] high_at_lasts(2) [of f out xs' x ys s] high_at_nums [OF s(1)]
      high_todo_fits [OF s(2)] s o xs
    by (auto simp: range_ok_def)
  then have k: "m_num2 s - gallopLeft cmp (m_objs s ! nat (m_buf1 s)) (m_temp s)
      \<lparr>location = 0, rlength = m_num2 s\<rparr> (m_num2 s - 1) = length ?vs"
    using len high_at_nums [OF s(1)] by simp
  have "hd ys \<in> set ys" "cmp (hd ys) x = NSOrderedAscending"
    using s(2,4) xs by (auto simp: high_todo_def)
  then have us: "?us \<noteq> []" by (cases ys) simp_all
  have at2: "high_at f (?vs @ out) xs ?us ?s2"
    by (rule high_chunks_at(2)) (simp add: s(1))
  have todo2: "high_todo ok cmp f (?vs @ out) xs ?us"
  proof (rule high_todo_take2 [OF _ us])
    show "high_todo ok cmp f out xs (?us @ ?vs)" using s(2) by simp
    have "cmp v z \<noteq> NSOrderedAscending" if v: "v \<in> set ?vs" and z: "z \<in> set xs" for v z
    proof (rule not_before_all [OF o(1,3)])
      show "ok v" using v o(4) by (auto dest: set_dropWhileD)
      show "cmp v x \<noteq> NSOrderedAscending"
        by (rule dropWhile_not_before [OF o(2,4) _ v]) (use o(3) in simp)
      show "z \<in> set (xs' @ [x])" using z xs by simp
    qed
    then show "\<forall>u \<in> set ?vs. \<forall>z \<in> set xs. cmp u z \<noteq> NSOrderedAscending" by blast
  qed
  have step: "high_gallop2 cmp s = (if length ?vs \<noteq> 0 \<and> m_num2 ?s2 = 1 then CopyLast ?s2
      else if length ?vs \<noteq> 0 \<and> m_num2 ?s2 = 0 then Success ?s2
      else if m_num1 ?s3 = 0 then Success ?s3 else Running ?s3)"
    by (simp only: high_gallop2_def k Let_def)
  have num2: "m_num2 ?s2 = length ?us" using high_at_nums [OF at2] by simp
  show ?thesis
  proof (cases "length ?vs \<noteq> 0 \<and> length ?us = 1")
    case True
    then obtain u where u: "?us = [u]" by (auto simp: length_Suc_conv)
    have "high_fin f (CopyLast ?s2)"
      by (rule high_fin_copy [of f "?vs @ out" xs u _ ok cmp]) (use at2 todo2 u in auto)
    with True show ?thesis
      unfolding step num2 by (simp only: high_result_def if_True simp_thms merge_step.case)
  next
    case False
    have us0: "length ?us \<noteq> 0" using us by (metis length_0_conv)
    have two: "2 \<le> length ?us"
    proof (cases "length ?vs = 0")
      case True
      with s(4) len show ?thesis by linarith
    next
      case vs: False
      with False have "length ?us \<noteq> 1" by blast
      with us0 show ?thesis by linarith
    qed
    have "high_result ok cmp f n (if m_num1 ?s3 = 0 then Success ?s3 else Running ?s3)"
    proof (rule high_took1 [OF _ _ two])
      show "high_at f (x # ?vs @ out) xs' ?us ?s3" by (rule high_take1_at) (use at2 xs in simp)
      have "high_todo ok cmp f ([x] @ ?vs @ out) xs' ?us"
        by (rule high_todo_take1) (use todo2 xs in \<open>auto dest: set_takeWhileD\<close>)
      then show "high_todo ok cmp f (x # ?vs @ out) xs' ?us" by simp
      show "length xs' + length ?us < n" using n len xs by simp
    qed
    moreover have "\<not> (length ?vs \<noteq> 0 \<and> m_num2 ?s2 = 1)" "\<not> (length ?vs \<noteq> 0 \<and> m_num2 ?s2 = 0)"
      using False num2 us by auto
    ultimately show ?thesis unfolding step by (simp only: if_False)
  qed
qed

lemma high_gallop_result:
  assumes "high_inv ok cmp f s0"
  shows "high_result ok cmp f (objects_left s0) (high_gallop cmp (length (before f)) s0)"
proof -
  define s where "s = lower_threshold s0"
  from assms obtain out xs ys where s: "high_at f out xs ys s" "high_todo ok cmp f out xs ys"
      "xs \<noteq> []" "2 \<le> length ys" unfolding high_inv_def s_def by auto
  obtain y ys' where ys: "ys = ys' @ [y]" using s(4) by (cases ys rule: rev_cases) auto
  have tl: "ys' \<noteq> []" using s(4) ys by auto
  have left: "objects_left s0 = length xs + length ys"
    using high_at_left [OF s(1)] by (simp add: s_def lower_threshold_def Let_def objects_left_def)
  let ?us = "takeWhile (\<lambda>z. cmp y z \<noteq> NSOrderedAscending) xs"
    and ?vs = "dropWhile (\<lambda>z. cmp y z \<noteq> NSOrderedAscending) xs"
  let ?s1 = "s\<lparr>m_winners1 := length ?vs\<rparr>"
  let ?s2 = "if length ?vs \<noteq> 0 then high_chunk1 (length ?vs) ?s1 else ?s1"
  let ?s3 = "high_take2 ?s2"
  have len: "length ?us + length ?vs = length xs" by (metis length_append takeWhile_dropWhile_id)
  have o: "ordered_by cmp xs" "ordered_by cmp (ys' @ [y])" "\<forall>z \<in> set xs. ok z"
      "\<forall>z \<in> set (ys' @ [y]). ok z"
    using s(2) ys by (auto simp: high_todo_def)
  have "gallopRight cmp (m_temp s ! nat (m_buf2 s)) (drop (length (before f)) (m_objs s))
      \<lparr>location = 0, rlength = m_num1 s\<rparr> (m_num1 s - 1) = length ?us"
    using gallopRight_counts [of "\<lparr>location = 0, rlength = m_num1 s\<rparr>" "m_num1 s - 1"
        "drop (length (before f)) (m_objs s)" y]
      high_at_cells [OF s(1)] high_at_lasts(1) [of f out xs ys' y s] high_at_nums [OF s(1)]
      high_todo_fits [OF s(2)] s o ys
    by (auto simp: range_ok_def)
  then have k: "m_num1 s - gallopRight cmp (m_temp s ! nat (m_buf2 s)) (drop (length (before f)) (m_objs s))
      \<lparr>location = 0, rlength = m_num1 s\<rparr> (m_num1 s - 1) = length ?vs"
    using len high_at_nums [OF s(1)] by simp
  have at2: "high_at f (?vs @ out) ?us ys ?s2"
    by (rule high_chunks_at(1)) (simp add: s(1))
  have todo2: "high_todo ok cmp f (?vs @ out) ?us ys"
  proof (rule high_todo_take1)
    show "high_todo ok cmp f out (?us @ ?vs) ys" using s(2) by simp
    have "cmp z v = NSOrderedAscending" if v: "v \<in> set ?vs" and z: "z \<in> set ys" for v z
    proof (rule last_before_all [OF o(2,4)])
      show "ok v" using v o(3) by (auto dest: set_dropWhileD)
      show "cmp y v = NSOrderedAscending" by (rule dropWhile_after [OF o(1,3) _ v]) (use o(4) in simp)
      show "z \<in> set (ys' @ [y])" using z ys by simp
    qed
    then show "\<forall>u \<in> set ?vs. \<forall>z \<in> set ys. cmp z u = NSOrderedAscending" by blast
  qed
  have step: "high_gallop cmp (length (before f)) s0 =
      (if length ?vs \<noteq> 0 \<and> m_num1 ?s2 = 0 then Success ?s2
       else if m_num2 ?s3 = 1 then CopyLast ?s3 else high_gallop2 cmp ?s3)"
    by (simp only: high_gallop_def k Let_def s_def [symmetric])
  have num1: "m_num1 ?s2 = length ?us" using high_at_nums [OF at2] by simp
  show ?thesis
  proof (cases "?us = []")
    case True
    moreover from True len have "length ?vs = length xs" by (simp only: list.size add_0)
    with s(3) have "length ?vs \<noteq> 0" by (metis length_0_conv)
    moreover have "m_num1 ?s2 = 0" using num1 True by simp
    moreover have "high_fin f (Success ?s2)"
      by (rule high_fin_success [of f "?vs @ out" ys _ ok cmp]) (use at2 todo2 True in simp_all)
    ultimately show ?thesis
      unfolding step by (simp only: high_result_def if_True simp_thms merge_step.case)
  next
    case us: False
    have at3: "high_at f (y # ?vs @ out) ?us ys' ?s3" by (rule high_take2_at) (use at2 ys in simp)
    have "high_todo ok cmp f ([y] @ ?vs @ out) ?us ys'"
      by (rule high_todo_take2) (use todo2 ys tl in \<open>auto dest: set_takeWhileD\<close>)
    then have todo3: "high_todo ok cmp f (y # ?vs @ out) ?us ys'" by simp
    have fewer: "length ?us + length ys' < objects_left s0" using len left ys by simp
    have "high_result ok cmp f (objects_left s0) (if m_num2 ?s3 = 1 then CopyLast ?s3 else high_gallop2 cmp ?s3)"
    proof (cases "length ys' = 1")
      case True
      with high_took2 [OF at3 todo3 us fewer] high_at_nums [OF at3] show ?thesis by simp
    next
      case ne: False
      then have two: "2 \<le> length ys'" using tl by (cases ys' rule: remdups_adj.cases) auto
      show ?thesis
        using high_gallop2_result [OF at3 todo3 us two fewer] ne high_at_nums [OF at3] by simp
    qed
    moreover have "\<not> (length ?vs \<noteq> 0 \<and> m_num1 ?s2 = 0)" using num1 us by simp
    ultimately show ?thesis unfolding step by (simp only: if_False)
  qed
qed

end

sublocale comparator_laws \<subseteq>
  high: merge_bodies "\<lambda>f. high_pick cmp" "\<lambda>f. high_gallop cmp (length (before f))" "high_inv ok cmp" high_fin
proof unfold_locales
  fix f :: "'a merge_frame" and s s' :: "'a merge" and a b :: nat
  assume inv: "high_inv ok cmp f s"
  then show "high_inv ok cmp f (s\<lparr>m_winners1 := a, m_winners2 := b\<rparr>) \<and>
      high_inv ok cmp f (s\<lparr>m_local := a\<rparr>) \<and> high_inv ok cmp f (s\<lparr>m_local := a, m_min := b\<rparr>)"
    by (simp add: high_inv_def)
  note p = high_pick_result [OF inv, unfolded high_result_def] and
    c = high_gallop_result [OF inv, unfolded high_result_def]
  show "high_pick cmp s = Running s' \<Longrightarrow> high_inv ok cmp f s' \<and> objects_left s' < objects_left s"
    using p by simp
  show "high_gallop cmp (length (before f)) s = Running s' \<Longrightarrow>
      high_inv ok cmp f s' \<and> objects_left s' < objects_left s"
    using c by simp
  show "(\<And>s'. high_pick cmp s \<noteq> Running s') \<Longrightarrow> high_fin f (high_pick cmp s)"
    using p by (auto split: merge_step.splits)
  show "(\<And>s'. high_gallop cmp (length (before f)) s \<noteq> Running s') \<Longrightarrow>
      high_fin f (high_gallop cmp (length (before f)) s)"
    using c by (auto split: merge_step.splits)
qed

context comparator_laws
begin

lemma mergeHighRun_merges:
  assumes objs: "objects d = pre @ (xs @ [x]) @ (ys @ [y]) @ post"
    and r: "r1 = \<lparr>location = length pre, rlength = length (xs @ [x])\<rparr>"
      "r2 = \<lparr>location = length pre + length (xs @ [x]), rlength = length (ys @ [y])\<rparr>"
    and sorted: "ordered_by cmp (xs @ [x])" "ordered_by cmp (ys @ [y])"
    and oks: "\<forall>z \<in> set (xs @ [x]) \<union> set (ys @ [y]). ok z"
    and last: "cmp y x = NSOrderedAscending"
    and first: "\<forall>z \<in> set (xs @ [x]). cmp (hd (ys @ [y])) z = NSOrderedAscending"
    and fits: "length (objects d) < UINT_SPAN"
  shows "\<exists>d'. mergeHighRun cmp d r1 r2 = Some d' \<and> merge_done cmp d pre (xs @ [x]) (ys @ [y]) post d'"
proof -
  define e where "e = ensureTempCapacity d (rlength r2)"
  define temp where "temp = copy_cells (tempBuffer e) 0 (objects e) (location r2) (rlength r2)"
  define f where "f = \<lparr>before = pre, merged = smerge cmp (xs @ [x]) (ys @ [y]), after = post, buffer = temp\<rparr>"
  define s0 where "s0 = \<lparr>m_objs = objects e, m_temp = temp,
    m_dest = int (location r2) + int (rlength r2) - 1, m_buf1 = int (location r1) + (int (rlength r1) - 1),
    m_buf2 = int (rlength r2) - 1, m_num1 = rlength r1, m_num2 = rlength r2, m_winners1 = 0,
    m_winners2 = 0, m_local = minGallop e, m_min = minGallop e\<rparr>"
  define s where "s = high_take1 s0"
  have fill: "fill_temp e r2 = Some temp"
    by (simp add: fill_temp_def temp_def e_def ensureTempCapacity_def)
  have temp: "temp = (ys @ [y]) @ drop (length (ys @ [y])) (tempBuffer e)"
    by (simp add: temp_def copy_cells_def r e_def ensureTempCapacity_keeps objs)
  have "high_at f [] (xs @ [x]) (ys @ [y]) s0"
    unfolding high_at_def
    by (rule exI [of _ "ys @ [y]"], rule exI [of _ "drop (length (ys @ [y])) (tempBuffer e)"])
      (simp add: s0_def f_def r temp e_def ensureTempCapacity_keeps objs)
  then have at: "high_at f [x] xs (ys @ [y]) s" unfolding s_def by (rule high_take1_at)
  have len: "length (smerge cmp (xs @ [x]) (ys @ [y])) = length (xs @ [x]) + length (ys @ [y])"
    by (metis mset_smerge size_mset size_union)
  have "high_todo ok cmp f [] (xs @ [x]) (ys @ [y])"
    using first sorted oks fits objs len by (simp add: high_todo_def f_def)
  then have "high_todo ok cmp f ([x] @ []) xs (ys @ [y])"
    by (rule high_todo_take1) (use last_before_all [OF sorted(2) _ _ last] oks in auto)
  then have todo: "high_todo ok cmp f [x] xs (ys @ [y])" by simp
  have "\<exists>r. (if m_num1 s = 0 then Some (Success s) else if m_num2 s = 1 then Some (CopyLast s)
      else merge_loop (high_pick cmp) (high_gallop cmp (location r1)) s) = Some r \<and> high_fin f r"
  proof -
    consider "xs = []" | "xs \<noteq> []" "ys = []" | "xs \<noteq> []" "2 \<le> length (ys @ [y])" by (cases ys) auto
    then show ?thesis
    proof cases
      case 1
      with at todo high_fin_success [of f "[x]" "ys @ [y]" s ok cmp] show ?thesis
        by (simp add: high_at_nums)
    next
      case 2
      with at todo high_fin_copy [of f "[x]" xs y s ok cmp] show ?thesis
        by (simp add: high_at_nums)
    next
      case 3
      with at todo have "high_inv ok cmp f s" unfolding high_inv_def by blast
      moreover have "location r1 = length (before f)" by (simp add: r f_def)
      ultimately show ?thesis
        using high.merge_loop_returns [of f s] 3 high_at_nums [OF at] by auto
    qed
  qed
  moreover have "mergeHighRun cmp d r1 r2 =
      map_option (\<lambda>r. e\<lparr>objects := m_objs (high_finish r), tempBuffer := m_temp (high_finish r),
                        minGallop := m_min (high_finish r)\<rparr>)
        (if m_num1 s = 0 then Some (Success s) else if m_num2 s = 1 then Some (CopyLast s)
         else merge_loop (high_pick cmp) (high_gallop cmp (location r1)) s)"
    unfolding mergeHighRun_def Let_def s_def e_def [symmetric] s0_def [symmetric] fill Option.bind.bind_lunit
    by (rule refl)
  ultimately obtain r' where r': "high_fin f r'" "mergeHighRun cmp d r1 r2 =
      Some (e\<lparr>objects := m_objs (high_finish r'), tempBuffer := m_temp (high_finish r'),
              minGallop := m_min (high_finish r')\<rparr>)" by auto
  have "length temp \<le> tempCapacity e" if "length (tempBuffer d) \<le> tempCapacity d"
    using ensureTempCapacity_room [OF that, of "rlength r2"] by (simp add: temp r e_def) arith
  with r' show ?thesis
    by (simp add: high_fin_def merge_done_def f_def e_def ensureTempCapacity_keeps)
qed

end

end
