(* ===== verification/Tim_Sort.thy ===== *)
theory Tim_Sort
  imports Tim_Merge
begin

unbundle bit_operations_syntax

text \<open>
  The driver of \<^verbatim>\<open>Source/GSTimSort.m\<close>: minimal run length, the binary sort of short
  arrays, the run stack with its invariant (\<^verbatim>\<open>pushRun:\<close>, \<^verbatim>\<open>suggestMerge\<close>,
  \<^verbatim>\<open>mergeAtIndex:\<close>, \<^verbatim>\<open>forceMerge\<close>) and the sort itself. A write past the end of
  the run stack or of the temporary buffer and a failed assertion have no result (\<open>None\<close>). The sort is proved to return,
  to leave everything outside its range alone, and to put the range in stable order.
\<close>

section \<open>Definitions\<close>

function min_run_loop :: "nat \<Rightarrow> nat \<Rightarrow> nat" where
  "min_run_loop n r = (if GS_MIN_MERGE \<le> n then min_run_loop (drop_bit 1 n) (r OR (n AND 1)) else n + r)"
  by pat_completeness auto
termination
  by (relation "measure fst") (auto simp: drop_bit_Suc)

declare min_run_loop.simps [simp del]

definition minimumRunLength :: "nat \<Rightarrow> nat" where
  "minimumRunLength n = min_run_loop n 0"

definition miniTimSort :: "'a comparison \<Rightarrow> 'a list \<Rightarrow> NSRange \<Rightarrow> 'a list option" where
  "miniTimSort cmp buf r =
     (let (buf, firstRunLength) = countAscendizedRun cmp buf r
      in if rlength r = firstRunLength then Some buf
         else internalBinarySort cmp buf r (location r + firstRunLength))"

definition stack_space :: "nat \<Rightarrow> nat" where
  "stack_space n = (if n < 120 then 5 else if n < 1542 then 10 else if n < 119151 then 19 else 40)"

text \<open>The run stack comes from \<^verbatim>\<open>malloc\<close>; no cell is read before \<^verbatim>\<open>pushRun:\<close> wrote it.\<close>

definition initWithObjects :: "'a list \<Rightarrow> NSRange \<Rightarrow> 'a timsort" where
  "initWithObjects objs sortRange =
     \<lparr>objects = objs, minGallop = GS_MIN_GALLOP,
      tempCapacity = (if rlength sortRange < 2 * GS_INITIAL_TEMP_STORAGE then drop_bit 1 (rlength sortRange)
                      else GS_INITIAL_TEMP_STORAGE),
      tempBuffer = [], stackSize = 0,
      runStack = replicate (stack_space (rlength sortRange)) \<lparr>location = 0, rlength = 0\<rparr>\<rparr>"

definition pushRun :: "'a timsort \<Rightarrow> NSRange \<Rightarrow> 'a timsort option" where
  "pushRun d r =
     (if stackSize d < length (runStack d)
      then Some (d\<lparr>runStack := (runStack d)[stackSize d := r], stackSize := stackSize d + 1\<rparr>)
      else None)"

abbreviation run_len :: "'a timsort \<Rightarrow> nat \<Rightarrow> nat" where
  "run_len d i \<equiv> rlength (runStack d ! i)"

definition combine_runs :: "'a timsort \<Rightarrow> nat \<Rightarrow> 'a timsort" where
  "combine_runs d i =
     (let stack = (runStack d)[i := NSUnionRange (runStack d ! i) (runStack d ! (i + 1))]
      in d\<lparr>runStack := (if i + 3 = stackSize d then stack[i + 1 := stack ! (i + 2)] else stack),
           stackSize := stackSize d - 1\<rparr>)"

definition mergeAtIndex :: "'a comparison \<Rightarrow> 'a timsort \<Rightarrow> nat \<Rightarrow> 'a timsort option" where
  "mergeAtIndex cmp d i =
     (if \<not> (2 \<le> stackSize d \<and> (i + 2 = stackSize d \<or> i + 3 = stackSize d)) then None
      else let r1 = runStack d ! i; r2 = runStack d ! (i + 1);
               d1 = combine_runs d i;
               insert = gallopRight cmp (objects d ! location r2) (objects d) r1 0;
               r1' = \<lparr>location = insert, rlength = usub (rlength r1) (usub insert (location r1))\<rparr>
           in if rlength r1' = 0 then Some d1
              else let r2' = \<lparr>location = location r2,
                              rlength = usub (gallopLeft cmp (objects d ! usub (NSMaxRange r1') 1) (objects d) r2
                                               (usub (rlength r2) 1)) (location r2)\<rparr>
                   in if rlength r2' = 0 then Some d1
                      else if rlength r1' \<le> rlength r2' then mergeLowRun cmp d1 r1' r2'
                      else mergeHighRun cmp d1 r1' r2')"

text \<open>Where \<^verbatim>\<open>suggestMerge\<close> merges next; \<open>None\<close> when it leaves its loop.\<close>

definition merge_point :: "'a timsort \<Rightarrow> nat option" where
  "merge_point d =
     (let n = stackSize d - 2
      in if (n \<ge> 1 \<and> run_len d (n - 1) \<le> uadd (run_len d n) (run_len d (n + 1))) \<or>
            (n \<ge> 2 \<and> run_len d (n - 2) \<le> uadd (run_len d n) (run_len d (n - 1)))
         then Some (if run_len d (n - 1) < run_len d (n + 1) then n - 1 else n)
         else if run_len d n > run_len d (n + 1) then None else Some n)"

partial_function (option) suggestMerge :: "'a comparison \<Rightarrow> 'a timsort \<Rightarrow> 'a timsort option" where
  "suggestMerge cmp d =
     (if stackSize d > 1
      then case merge_point d of
             None \<Rightarrow> Some d
           | Some n \<Rightarrow> Option.bind (mergeAtIndex cmp d n) (suggestMerge cmp)
      else Some d)"

partial_function (option) forceMerge :: "'a comparison \<Rightarrow> 'a timsort \<Rightarrow> 'a timsort option" where
  "forceMerge cmp d =
     (if stackSize d > 1
      then let n = stackSize d - 2;
               n' = (if n > 0 \<and> run_len d (n - 1) < run_len d (n + 1) then n - 1 else n)
           in Option.bind (mergeAtIndex cmp d n') (forceMerge cmp)
      else Some d)"

text \<open>One run: found, extended to the minimal length by a binary sort, and its length.\<close>

definition next_run :: "'a comparison \<Rightarrow> nat \<Rightarrow> 'a list \<Rightarrow> nat \<Rightarrow> nat \<Rightarrow> ('a list \<times> nat) option" where
  "next_run cmp minimalRunLen objs sortStart sortLen =
     (let (objs, runLen) = countAscendizedRun cmp objs \<lparr>location = sortStart, rlength = sortLen\<rparr>
      in if runLen < min sortLen minimalRunLen
         then let coercionLen = (if sortLen \<le> minimalRunLen then sortLen else minimalRunLen)
              in map_option (\<lambda>objs. (objs, coercionLen))
                   (internalBinarySort cmp objs \<lparr>location = sortStart, rlength = coercionLen\<rparr>
                      (sortStart + runLen))
         else Some (objs, runLen))"

text \<open>The loop of the sort, with the value of \<open>sortStart\<close> behind it.\<close>

partial_function (option) sort_runs ::
  "'a comparison \<Rightarrow> nat \<Rightarrow> 'a timsort \<Rightarrow> nat \<Rightarrow> nat \<Rightarrow> ('a timsort \<times> nat) option" where
  "sort_runs cmp minimalRunLen d sortStart sortLen =
     Option.bind (next_run cmp minimalRunLen (objects d) sortStart sortLen) (\<lambda>(objs, runLen).
     Option.bind (pushRun (d\<lparr>objects := objs\<rparr>) \<lparr>location = sortStart, rlength = runLen\<rparr>) (\<lambda>d1.
     Option.bind (suggestMerge cmp d1) (\<lambda>d2.
       if sortLen - runLen \<noteq> 0
       then sort_runs cmp minimalRunLen d2 (sortStart + runLen) (sortLen - runLen)
       else Some (d2, sortStart + runLen))))"

definition gsTimSort :: "'a comparison \<Rightarrow> 'a list \<Rightarrow> NSRange \<Rightarrow> 'a list option" where
  "gsTimSort cmp objs sortRange =
     (if rlength sortRange < 2 then Some objs
      else if rlength sortRange < GS_MIN_MERGE then miniTimSort cmp objs sortRange
      else Option.bind (sort_runs cmp (minimumRunLength (rlength sortRange))
                         (initWithObjects objs sortRange) (location sortRange) (rlength sortRange))
             (\<lambda>(d, sortStart).
               if sortStart \<noteq> NSMaxRange sortRange then None
               else map_option objects (forceMerge cmp d)))"

section \<open>The minimal run length\<close>

lemma min_run_loop_bounds:
  "r \<le> 1 \<Longrightarrow> 16 \<le> n \<Longrightarrow> 16 \<le> min_run_loop n r \<and> min_run_loop n r \<le> 32"
proof (induction n r rule: min_run_loop.induct)
  case (1 n r)
  show ?case
  proof (cases "32 \<le> n")
    case True
    have "r OR (n AND 1) \<le> 1"
    proof -
      have "n AND 1 \<in> {0, 1}" "r \<in> {0, 1}" using 1(2) by (auto simp: and_one_eq)
      then show ?thesis by auto
    qed
    moreover have "16 \<le> drop_bit 1 n" using True by (simp add: drop_bit_Suc)
    ultimately show ?thesis using 1(1) True by (subst (1 2) min_run_loop.simps) simp
  next
    case False
    with 1 show ?thesis by (subst (1 2) min_run_loop.simps) simp
  qed
qed

lemma min_run_loop_divides:
  "r \<le> 1 \<Longrightarrow> \<exists>k. min_run_loop n r = n div 2 ^ k + (if r = 0 \<and> n mod 2 ^ k = 0 then 0 else 1) \<and>
     n div 2 ^ k < 32 \<and> (16 \<le> n \<longrightarrow> 16 \<le> n div 2 ^ k)"
proof (induction n r rule: min_run_loop.induct)
  case (1 n r)
  show ?case
  proof (cases "32 \<le> n")
    case True
    let ?r = "r OR (n AND 1)"
    have bit: "n AND 1 = n mod 2" by (simp add: and_one_eq)
    have r: "r = 0 \<or> r = 1" using 1(2) by linarith
    have odd: "n mod 2 = 0 \<or> n mod 2 = 1" by linarith
    have "?r \<le> 1" "?r = 0 \<longleftrightarrow> r = 0 \<and> n mod 2 = 0" using r odd by (auto simp: bit)
    with 1(1) True obtain k where k: "min_run_loop (n div 2) ?r =
        n div 2 div 2 ^ k + (if (r = 0 \<and> n mod 2 = 0) \<and> n div 2 mod 2 ^ k = 0 then 0 else 1)"
        "n div 2 div 2 ^ k < 32" "16 \<le> n div 2 \<longrightarrow> 16 \<le> n div 2 div 2 ^ k"
      by (auto simp: drop_bit_Suc)
    have "n mod 2 ^ Suc k = n mod 2 + 2 * (n div 2 mod 2 ^ k)" by (simp add: mod_mult2_eq)
    then have "n mod 2 ^ Suc k = 0 \<longleftrightarrow> n mod 2 = 0 \<and> n div 2 mod 2 ^ k = 0" by simp
    moreover have "min_run_loop n r = min_run_loop (n div 2) ?r"
      using True by (subst min_run_loop.simps) (simp add: drop_bit_Suc)
    moreover have "n div 2 div 2 ^ k = n div 2 ^ Suc k" by (simp add: div_mult2_eq)
    ultimately show ?thesis using k True by (intro exI [of _ "Suc k"]) auto
  next
    case False
    with 1(2) show ?thesis by (intro exI [of _ 0]) (simp add: min_run_loop.simps [of n r])
  qed
qed

section \<open>The lengths on the run stack\<close>

text \<open>
  Read from the top of the stack, a run is shorter than the next one and two neighbours are
  together shorter than the one below them.
\<close>

fun grows :: "nat list \<Rightarrow> bool" where
  "grows (a # b # c # r) \<longleftrightarrow> a < b \<and> a + b < c \<and> grows (b # c # r)"
| "grows [a, b] \<longleftrightarrow> a < b"
| "grows _ \<longleftrightarrow> True"

lemma grows_tl: "grows (a # r) \<Longrightarrow> grows r"
  by (cases r rule: remdups_adj.cases) auto

lemma grows_drop: "grows r \<Longrightarrow> grows (drop k r)"
proof (induction k arbitrary: r)
  case (Suc k)
  then show ?case by (cases r) (auto dest: grows_tl)
qed simp

text \<open>The least lengths the runs of such a stack can have, when none is shorter than 16.\<close>

fun least_run :: "nat \<Rightarrow> nat" where
  "least_run 0 = 16"
| "least_run (Suc 0) = 17"
| "least_run (Suc (Suc k)) = least_run k + least_run (Suc k) + 1"

lemma grows_least: "grows r \<Longrightarrow> \<forall>a \<in> set r. 16 \<le> a \<Longrightarrow> k < length r \<Longrightarrow> least_run k \<le> r ! k"
proof (induction k rule: least_run.induct)
  case 2
  then show ?case by (cases r rule: grows.cases) auto
next
  case (3 k)
  have "grows (drop k r)" by (rule grows_drop) (rule 3)
  moreover have "drop k r = r ! k # r ! Suc k # r ! Suc (Suc k) # drop (Suc (Suc (Suc k))) r"
    using 3(5) by (simp add: Cons_nth_drop_Suc)
  ultimately have "r ! k + r ! Suc k < r ! Suc (Suc k)" by simp
  with 3 show ?case by fastforce
qed auto

lemma grows_sum:
  assumes "grows r" "\<forall>a \<in> set r. 16 \<le> a" "k \<le> length r"
  shows "(\<Sum>i<k. least_run i) \<le> sum_list r"
proof -
  have "(\<Sum>i<k. least_run i) \<le> (\<Sum>i<k. r ! i)"
    using assms by (intro sum_mono grows_least) auto
  also have "\<dots> \<le> (\<Sum>i<length r. r ! i)" using assms(3) by (intro sum_mono2) auto
  also have "\<dots> = sum_list r" by (simp add: sum_list_sum_nth atLeast0LessThan)
  finally show ?thesis .
qed

fun least_sum :: "nat \<Rightarrow> nat \<Rightarrow> nat \<Rightarrow> nat" where
  "least_sum a b 0 = 0"
| "least_sum a b (Suc k) = a + least_sum b (a + b + 1) k"

lemma least_sum_numeral: "least_sum a b (numeral k) = a + least_sum b (a + b + 1) (pred_numeral k)"
  by (simp add: numeral_eq_Suc)

lemma least_sum_step: "(\<Sum>i<k. least_run (j + i)) = least_sum (least_run j) (least_run (Suc j)) k"
proof (induction k arbitrary: j)
  case (Suc k)
  have "(\<Sum>i<Suc k. least_run (j + i)) = least_run j + (\<Sum>i<k. least_run (Suc j + i))"
    by (simp add: sum.lessThan_Suc_shift del: sum.lessThan_Suc)
  then show ?case using Suc [of "Suc j"] by simp
qed simp

lemma least_totals:
  "(\<Sum>i<5. least_run i) = 206" "(\<Sum>i<10. least_run i) = 2509"
  "(\<Sum>i<19. least_run i) > 119151" "(\<Sum>i<40. least_run i) > 2 ^ 31"
proof -
  have "least_sum 16 17 5 = 206" "least_sum 16 17 10 = 2509" "least_sum 16 17 19 > 119151"
      "least_sum 16 17 40 > 2 ^ 31"
    by (simp_all add: least_sum_numeral)
  then show "(\<Sum>i<5. least_run i) = 206" "(\<Sum>i<10. least_run i) = 2509"
    "(\<Sum>i<19. least_run i) > 119151" "(\<Sum>i<40. least_run i) > 2 ^ 31"
    using least_sum_step [of 0 5] least_sum_step [of 0 10] least_sum_step [of 0 19] least_sum_step [of 0 40]
    by simp_all
qed

text \<open>So a stack within its invariant never fills the space allotted to it.\<close>

lemma stack_space_enough:
  assumes "grows r" "\<forall>a \<in> set r. 16 \<le> a" "sum_list r < n" "n \<le> 2 ^ 31"
  shows "length r < stack_space n"
proof (rule ccontr)
  assume "\<not> length r < stack_space n"
  then have "(\<Sum>i<stack_space n. least_run i) < n"
    using grows_sum [OF assms(1,2), of "stack_space n"] assms(3) by simp
  moreover have "n \<le> (\<Sum>i<stack_space n. least_run i)"
    using assms(4) least_totals by (auto simp: stack_space_def)
  ultimately show False by simp
qed

section \<open>What the run stack stands for\<close>

fun layout :: "nat \<Rightarrow> 'a list list \<Rightarrow> NSRange list" where
  "layout start [] = []"
| "layout start (s # ss) = \<lparr>location = start, rlength = length s\<rparr> # layout (start + length s) ss"

lemma length_layout [simp]: "length (layout start ss) = length ss"
  by (induction ss arbitrary: start) auto

lemma layout_append:
  "layout start (ss @ ts) = layout start ss @ layout (start + length (concat ss)) ts"
  by (induction ss arbitrary: start) (auto simp: add.assoc)

lemma layout_lengths: "map rlength (layout start ss) = map length ss"
  by (induction ss arbitrary: start) auto

text \<open>
  The sort has turned \<open>src\<close> into the runs \<open>segs\<close>, which lie side by side in the buffer
  between \<open>pre\<close> and \<open>rest\<close> and are recorded on the stack from its bottom up.
\<close>

definition runs_held ::
  "('a \<Rightarrow> bool) \<Rightarrow> 'a comparison \<Rightarrow> 'a list \<Rightarrow> 'a list \<Rightarrow> 'a list \<Rightarrow> nat \<Rightarrow> 'a list list \<Rightarrow> 'a timsort \<Rightarrow> bool" where
  "runs_held ok cmp pre src rest space segs d \<longleftrightarrow>
     objects d = pre @ concat segs @ rest \<and>
     take (stackSize d) (runStack d) = layout (length pre) segs \<and>
     stackSize d = length segs \<and> length segs \<le> length (runStack d) \<and> length (runStack d) = space \<and>
     stable_perm ok cmp src (concat segs) \<and> (\<forall>s \<in> set segs. s \<noteq> [] \<and> ordered_by cmp s) \<and>
     (\<forall>x \<in> set src. ok x) \<and> length (tempBuffer d) \<le> tempCapacity d \<and>
     length (pre @ src @ rest) < UINT_SPAN"

lemma runs_held_stack:
  assumes "runs_held ok cmp pre src rest space segs d" "i < length segs"
  shows "runStack d ! i = layout (length pre) segs ! i"
  using assms by (metis nth_take runs_held_def)

lemma runs_held_len:
  assumes "runs_held ok cmp pre src rest space segs d" "i < length segs"
  shows "run_len d i = length (segs ! i)"
proof -
  have "run_len d i = map rlength (layout (length pre) segs) ! i"
    using runs_held_stack [OF assms] assms(2) by simp
  then show ?thesis using assms(2) by (simp add: layout_lengths)
qed

lemma runs_held_length: "runs_held ok cmp pre src rest space segs d \<Longrightarrow> length (concat segs) = length src"
  by (auto simp: runs_held_def dest: stable_perm_length)

lemma sum_list_two:
  assumes "i < length ls" "j < length ls" "i \<noteq> j"
  shows "ls ! i + ls ! j \<le> sum_list (ls :: nat list)"
proof -
  have "ls ! i + ls ! j = sum ((!) ls) {i, j}" using assms(3) by simp
  also have "\<dots> \<le> sum ((!) ls) {0..<length ls}" using assms by (intro sum_mono2) auto
  finally show ?thesis by (simp add: sum_list_sum_nth)
qed

lemma runs_held_fits:
  assumes h: "runs_held ok cmp pre src rest space segs d" and "i < length segs" "j < length segs" "i \<noteq> j"
  shows "uadd (run_len d i) (run_len d j) = length (segs ! i) + length (segs ! j)"
proof -
  have "length (segs ! i) + length (segs ! j) \<le> length (concat segs)"
    using sum_list_two [of i "map length segs" j] assms(2-) by (simp add: length_concat)
  also have "\<dots> < UINT_SPAN" using h runs_held_length [OF h] by (auto simp: runs_held_def)
  finally show ?thesis using assms by (simp add: runs_held_len uadd_fits)
qed

text \<open>Combining two entries of the stack.\<close>

lemma NSUnionRange_adjacent:
  assumes "p + m + n < UINT_SPAN" "0 < m" "0 < n"
  shows "NSUnionRange \<lparr>location = p, rlength = m\<rparr> \<lparr>location = p + m, rlength = n\<rparr> =
    \<lparr>location = p, rlength = m + n\<rparr>"
  using assms by (simp add: NSUnionRange_def NSMaxRange_def bounds_simps Let_def min_def max_def)

lemma combine_runs_stack:
  assumes h: "runs_held ok cmp pre src rest space (A @ [s1, s2] @ B) d" and "length B \<le> 1"
    and len: "length s = length s1 + length s2"
  shows "take (stackSize (combine_runs d (length A))) (runStack (combine_runs d (length A))) =
      layout (length pre) (A @ [s] @ B) \<and>
    stackSize (combine_runs d (length A)) = length (A @ [s] @ B) \<and>
    length (runStack (combine_runs d (length A))) = length (runStack d)"
proof -
  let ?p = "length pre + length (concat A)"
  define tl where "tl = drop (stackSize d) (runStack d)"
  have "runStack d = layout (length pre) (A @ [s1, s2] @ B) @ tl"
    using h unfolding runs_held_def tl_def by (metis append_take_drop_id)
  then have st: "runStack d = layout (length pre) A @ [\<lparr>location = ?p, rlength = length s1\<rparr>,
      \<lparr>location = ?p + length s1, rlength = length s2\<rparr>] @ layout (?p + length s1 + length s2) B @ tl"
    by (simp add: layout_append)
  have sz: "stackSize d = length A + 2 + length B" using h by (simp add: runs_held_def)
  have fits: "?p + length s1 + length s2 < UINT_SPAN" "0 < length s1" "0 < length s2"
    using h runs_held_length [OF h] by (auto simp: runs_held_def)
  note u = NSUnionRange_adjacent [OF fits]
  consider "B = []" | b where "B = [b]" using assms(2) by (cases B) auto
  then show ?thesis
  proof cases
    case 1
    then show ?thesis
      using sz u by (simp add: combine_runs_def Let_def st nth_append list_update_append layout_append len)
  next
    case 2
    then show ?thesis
      using sz u by (simp add: combine_runs_def Let_def st nth_append list_update_append layout_append len add.assoc)
  qed
qed

section \<open>Merging two runs of the stack\<close>

lemma length_smerge [simp]: "length (smerge cmp xs ys) = length xs + length ys"
  by (metis mset_smerge size_mset size_union)

context comparator_laws
begin

lemma runs_held_merged:
  assumes h: "runs_held ok cmp pre src rest space (A @ [s1, s2] @ B) d" and B: "length B \<le> 1"
    and d': "objects d' = (pre @ concat A) @ smerge cmp s1 s2 @ concat B @ rest"
      "runStack d' = runStack (combine_runs d (length A))"
      "stackSize d' = stackSize (combine_runs d (length A))"
      "length (tempBuffer d') \<le> tempCapacity d'"
  shows "runs_held ok cmp pre src rest space (A @ [smerge cmp s1 s2] @ B) d'"
proof -
  note st = combine_runs_stack [OF h B length_smerge]
  have perm: "stable_perm ok cmp src (concat (A @ [s1, s2] @ B))" and oks: "\<forall>x \<in> set src. ok x"
    using h by (auto simp: runs_held_def)
  have o: "ordered_by cmp s1" "ordered_by cmp s2" "\<forall>x \<in> set s1 \<union> set s2. ok x" "s1 \<noteq> []"
    using h oks stable_perm_set [OF perm] by (auto simp: runs_held_def)
  note m = smerge_stable [OF o(1-3), unfolded stable_sort_of_def]
  have "stable_perm ok cmp (concat A @ (s1 @ s2) @ concat B) (concat A @ smerge cmp s1 s2 @ concat B)"
    by (intro stable_perm_append stable_perm_refl) (use m in simp)
  then have "stable_perm ok cmp src (concat (A @ [smerge cmp s1 s2] @ B))"
    using perm by (auto intro: stable_perm_trans)
  moreover have "smerge cmp s1 s2 \<noteq> []" using o(4) by (metis length_0_conv length_smerge add_eq_0_iff_both_eq_0)
  moreover have "length (A @ [smerge cmp s1 s2] @ B) \<le> length (runStack d)"
    using h by (simp add: runs_held_def)
  ultimately show ?thesis
    using h st m d' by (simp add: runs_held_def ball_Un)
qed

lemma mergeAtIndex_merges:
  assumes h: "runs_held ok cmp pre src rest space (A @ [s1, s2] @ B) d" and B: "length B \<le> 1"
  shows "\<exists>d'. mergeAtIndex cmp d (length A) = Some d' \<and>
    runs_held ok cmp pre src rest space (A @ [smerge cmp s1 s2] @ B) d'"
proof -
  define P where "P = pre @ concat A"
  define Q where "Q = concat B @ rest"
  have objs: "objects d = P @ s1 @ s2 @ Q" using h by (simp add: runs_held_def P_def Q_def)
  have o: "ordered_by cmp s1" "ordered_by cmp s2" "\<forall>x \<in> set s1. ok x" "\<forall>x \<in> set s2. ok x" "s1 \<noteq> []" "s2 \<noteq> []"
    using h stable_perm_set [of ok cmp src "concat (A @ [s1, s2] @ B)"] by (auto simp: runs_held_def)
  have fits: "length (P @ s1 @ s2 @ Q) < UINT_SPAN"
    using h runs_held_length [OF h] by (auto simp: runs_held_def P_def Q_def)
  define r1 where "r1 = \<lparr>location = length P, rlength = length s1\<rparr>"
  define r2 where "r2 = \<lparr>location = length P + length s1, rlength = length s2\<rparr>"
  have r: "runStack d ! length A = r1" "runStack d ! (length A + 1) = r2"
    using runs_held_stack [OF h, of "length A"] runs_held_stack [OF h, of "length A + 1"]
    by (simp_all add: layout_append nth_append r1_def r2_def P_def)
  have sz: "2 \<le> stackSize d \<and> (length A + 2 = stackSize d \<or> length A + 3 = stackSize d)"
    using h B by (cases B) (auto simp: runs_held_def)
  have cells: "cells r1 (objects d) = s1" "cells r2 (objects d) = s2" "range_ok r1" "range_ok r2"
    "location r1 + rlength r1 \<le> length (objects d)" "location r2 + rlength r2 \<le> length (objects d)"
    using fits by (simp_all add: cells_def r1_def r2_def objs range_ok_def)
  obtain y ys0 where s2: "s2 = y # ys0" using o(6) by (cases s2) auto
  define us where "us = takeWhile (\<lambda>x. cmp y x \<noteq> NSOrderedAscending) s1"
  define xs where "xs = dropWhile (\<lambda>x. cmp y x \<noteq> NSOrderedAscending) s1"
  have s1: "s1 = us @ xs" by (simp add: us_def xs_def)
  have us: "\<forall>u \<in> set us. cmp y u \<noteq> NSOrderedAscending" by (auto simp: us_def dest: set_takeWhileD)
  have take1: "smerge cmp (us @ zs) (y # ys0) = us @ smerge cmp zs (y # ys0)" for zs
    by (rule smerge_take1) (rule us)
  define d1 where "d1 = combine_runs d (length A)"
  have d1: "objects d1 = objects d" "tempBuffer d1 = tempBuffer d" "tempCapacity d1 = tempCapacity d"
    by (simp_all add: d1_def combine_runs_def Let_def)
  have room: "length (tempBuffer d) \<le> tempCapacity d" using h by (simp add: runs_held_def)
  have "objects d ! location r2 = y" by (simp add: objs r2_def s2 nth_append)
  then have insert: "gallopRight cmp (objects d ! location r2) (objects d) r1 0 = length P + length us"
    using gallopRight_counts [OF cells(3) _ cells(5), of 0 y] cells o s2
    by (simp add: us_def r1_def)
  define r1' where "r1' = \<lparr>location = length P + length us, rlength = length xs\<rparr>"
  have lens: "length s1 = length us + length xs" using s1 by simp
  have r1': "\<lparr>location = length P + length us,
      rlength = usub (rlength r1) (usub (length P + length us) (location r1))\<rparr> = r1'"
    using fits lens by (simp add: r1_def r1'_def bounds_simps)
  show ?thesis
  proof (cases "xs = []")
    case True
    then have "mergeAtIndex cmp d (length A) = Some d1"
      using sz unfolding mergeAtIndex_def Let_def r insert r1' d1_def [symmetric] by (simp add: r1'_def)
    moreover have "smerge cmp s1 s2 = s1 @ s2"
      using take1 [of "[]"] True s1 s2 by simp
    then have "runs_held ok cmp pre src rest space (A @ [smerge cmp s1 s2] @ B) d1"
      by (intro runs_held_merged [OF h B]) (use room in \<open>simp_all add: d1 objs P_def Q_def\<close>, simp_all add: d1_def)
    ultimately show ?thesis by blast
  next
    case False
    then obtain x xs' where xs: "xs = x # xs'" by (cases xs) auto
    then have x: "cmp y x = NSOrderedAscending" unfolding xs_def dropWhile_eq_Cons_conv by blast
    define l where "l = last xs"
    have l: "l \<in> set xs" "l \<in> set s1" using xs s1 by (simp_all add: l_def)
    define ys where "ys = takeWhile (\<lambda>z. cmp z l = NSOrderedAscending) s2"
    define vs where "vs = dropWhile (\<lambda>z. cmp z l = NSOrderedAscending) s2"
    have s2': "s2 = ys @ vs" by (simp add: ys_def vs_def)
    have ox: "ordered_by cmp xs" using o(1) s1 by (simp add: ordered_by_append)
    have oy: "ordered_by cmp ys" using o(2) s2' by (simp add: ordered_by_append)
    have okx: "ok y" "\<forall>z \<in> set xs. ok z" using o(3,4) s1 s2 by auto
    have "cmp y l = NSOrderedAscending"
      by (rule before_all [of x xs']) (use ox okx x l xs in auto)
    then obtain ys' where ys: "ys = y # ys'" by (simp add: ys_def s2)
    have last: "\<forall>z \<in> set ys. cmp z (last xs) = NSOrderedAscending"
      by (auto simp: ys_def l_def dest: set_takeWhileD)
    have "objects d ! (length P + length s1 - 1) = l"
    proof -
      have "objects d = (P @ us) @ butlast xs @ l # (s2 @ Q)"
        using False by (simp add: objs s1 l_def)
      then show ?thesis using False lens by (cases xs rule: rev_cases) (simp_all add: nth_append)
    qed
    moreover have "usub (NSMaxRange r1') 1 = length P + length s1 - 1"
      using fits lens xs by (simp add: r1'_def NSMaxRange_def bounds_simps)
    moreover have "usub (rlength r2) 1 = length s2 - 1"
      using fits s2 by (simp add: r2_def bounds_simps)
    moreover have "gallopLeft cmp l (objects d) r2 (length s2 - 1) = length P + length s1 + length ys"
      using gallopLeft_counts [OF cells(4) _ cells(6), of "length s2 - 1" l] cells o l s2
      by (simp add: ys_def r2_def)
    ultimately have g: "usub (gallopLeft cmp (objects d ! usub (NSMaxRange r1') 1) (objects d) r2
        (usub (rlength r2) 1)) (location r2) = length ys"
      using fits s2' by (simp add: r2_def bounds_simps)
    define r2' where "r2' = \<lparr>location = location r2, rlength = length ys\<rparr>"
    have step: "mergeAtIndex cmp d (length A) =
        (if rlength r1' \<le> rlength r2' then mergeLowRun cmp d1 r1' r2' else mergeHighRun cmp d1 r1' r2')"
      using sz xs ys unfolding mergeAtIndex_def Let_def r insert r1' g d1_def [symmetric] r2'_def [symmetric]
      by (simp add: r1'_def r2'_def)
    have objs1: "objects d1 = (P @ us) @ xs @ ys @ vs @ Q" by (simp add: d1 objs s1) (simp add: s2')
    have "\<exists>d'. mergeAtIndex cmp d (length A) = Some d' \<and> merge_done cmp d1 (P @ us) xs ys (vs @ Q) d'"
    proof (cases "rlength r1' \<le> rlength r2'")
      case True
      have "\<exists>d'. mergeLowRun cmp d1 r1' r2' = Some d' \<and> merge_done cmp d1 (P @ us) (x # xs') (y # ys') (vs @ Q) d'"
      proof (rule mergeLowRun_merges)
        show "objects d1 = (P @ us) @ (x # xs') @ (y # ys') @ vs @ Q" using objs1 xs ys by simp
        show "length (objects d1) < UINT_SPAN" using fits by (simp add: d1 objs)
      qed (use o ox oy s1 s2' xs ys last x lens in \<open>auto simp: r1'_def r2'_def r2_def ordered_by_append\<close>)
      then show ?thesis using True step xs ys by simp
    next
      case high: False
      obtain xs'' where xs2: "xs = xs'' @ [l]" using False by (metis append_butlast_last_id l_def)
      obtain ys'' y2 where ys2: "ys = ys'' @ [y2]" using ys by (metis append_butlast_last_id list.discI)
      have "\<exists>d'. mergeHighRun cmp d1 r1' r2' = Some d' \<and> merge_done cmp d1 (P @ us) (xs'' @ [l]) (ys'' @ [y2]) (vs @ Q) d'"
      proof (rule mergeHighRun_merges)
        show "objects d1 = (P @ us) @ (xs'' @ [l]) @ (ys'' @ [y2]) @ vs @ Q" using objs1 xs2 ys2 by simp
        show "length (objects d1) < UINT_SPAN" using fits by (simp add: d1 objs)
        have "hd (ys'' @ [y2]) = y" using ys ys2 by simp
        moreover have "cmp y z = NSOrderedAscending" if "z \<in> set xs" for z
          by (rule before_all [of x xs']) (use ox okx x that xs in auto)
        ultimately show "\<forall>z \<in> set (xs'' @ [l]). cmp (hd (ys'' @ [y2])) z = NSOrderedAscending"
          using xs2 by simp
        show "cmp y2 l = NSOrderedAscending" using last ys2 by (simp add: l_def)
      qed (use o ox oy s1 s2' xs2 ys2 lens in \<open>auto simp: r1'_def r2'_def r2_def ordered_by_append\<close>)
      then show ?thesis using high step xs2 ys2 by simp
    qed
    then obtain d' where d': "mergeAtIndex cmp d (length A) = Some d'" "merge_done cmp d1 (P @ us) xs ys (vs @ Q) d'"
      by blast
    have "smerge cmp s1 s2 = us @ smerge cmp xs ys @ vs"
    proof -
      have "smerge cmp s1 s2 = us @ smerge cmp xs s2"
        using take1 [of xs] s1 s2 by simp
      moreover have "smerge cmp xs (ys @ vs) = smerge cmp xs ys @ vs"
      proof (rule smerge_last2, intro ballI)
        fix v z assume v: "v \<in> set vs" and z: "z \<in> set xs"
        have nb: "cmp v l \<noteq> NSOrderedAscending"
          by (rule dropWhile_not_before [OF o(2,4)]) (use v l okx in \<open>auto simp: vs_def\<close>)
        obtain xs'' where xs2: "xs = xs'' @ [l]" using False by (metis append_butlast_last_id l_def)
        show "cmp v z \<noteq> NSOrderedAscending"
          by (rule not_before_all [of xs'' l]) (use ox okx xs2 z nb v o(4) s2' in auto)
      qed
      ultimately show ?thesis using s2' by simp
    qed
    with d'(2) have "objects d' = (pre @ concat A) @ smerge cmp s1 s2 @ concat B @ rest"
      by (simp add: merge_done_def P_def Q_def)
    then have "runs_held ok cmp pre src rest space (A @ [smerge cmp s1 s2] @ B) d'"
      by (rule runs_held_merged [OF h B]) (use d'(2) room in \<open>simp_all add: merge_done_def d1_def [symmetric] d1\<close>)
    with d'(1) show ?thesis by blast
  qed
qed

end

section \<open>Keeping the invariant of the run stack\<close>

text \<open>The lengths of the runs, from the top of the stack.\<close>

definition top_lengths :: "'a list list \<Rightarrow> nat list" where
  "top_lengths segs = rev (map length segs)"

definition merge_choice :: "nat list \<Rightarrow> nat option" where
  "merge_choice ls =
     (case ls of
        a # b # c # e # r \<Rightarrow>
          if c \<le> b + a \<or> e \<le> b + c then Some (if c < a then length r + 1 else length r + 2)
          else if b > a then None else Some (length r + 2)
      | [a, b, c] \<Rightarrow>
          if c \<le> b + a then Some (if c < a then 0 else 1) else if b > a then None else Some 1
      | [a, b] \<Rightarrow> if b > a then None else Some 0
      | _ \<Rightarrow> None)"

lemma merge_point_choice:
  assumes h: "runs_held ok cmp pre src rest space segs d" and two: "2 \<le> length segs"
  shows "merge_point d = merge_choice (top_lengths segs)"
proof -
  have sz: "stackSize d = length segs" using h by (simp add: runs_held_def)
  note len = runs_held_len [OF h] and fits = runs_held_fits [OF h]
  consider a b where "segs = [b, a]" | a b c where "segs = [c, b, a]"
    | a b c e r where "segs = r @ [e, c, b, a]"
  proof -
    obtain r1 a where 1: "segs = r1 @ [a]" using two by (cases segs rule: rev_cases) auto
    then obtain r2 b where 2: "r1 = r2 @ [b]" using two by (cases r1 rule: rev_cases) auto
    show thesis
    proof (cases r2 rule: rev_cases)
      case Nil
      then show ?thesis using that(1) 1 2 by simp
    next
      case (snoc r3 c)
      then show ?thesis using that(2,3) 1 2 by (cases r3 rule: rev_cases) auto
    qed
  qed
  then show ?thesis
  proof cases
    case 1
    then show ?thesis using sz len [of 0] len [of 1]
      by (simp add: merge_point_def merge_choice_def top_lengths_def)
  next
    case 2
    have "run_len d 0 = length c" "run_len d 1 = length b" "run_len d 2 = length a"
        "uadd (length b) (length a) = length b + length a"
      using 2 len [of 0] len [of 1] len [of 2] fits [of 1 2] by simp_all
    then show ?thesis using 2 sz
      by (simp add: merge_point_def merge_choice_def top_lengths_def Let_def eval_nat_numeral)
  next
    case (3 a b c e r)
    let ?n = "length r"
    have "run_len d ?n = length e" "run_len d (?n + 1) = length c" "run_len d (?n + 2) = length b"
        "run_len d (?n + 3) = length a" "uadd (length b) (length a) = length b + length a"
        "uadd (length b) (length c) = length b + length c"
      using 3 len [of ?n] len [of "?n + 1"] len [of "?n + 2"] len [of "?n + 3"]
        fits [of "?n + 2" "?n + 3"] fits [of "?n + 2" "?n + 1"]
      by (simp_all add: nth_append)
    moreover have "stackSize d = ?n + 4" using sz 3 by simp
    ultimately show ?thesis using 3
      by (simp add: merge_point_def merge_choice_def top_lengths_def Let_def eval_nat_numeral)
  qed
qed

text \<open>
  When the loop leaves, the whole invariant holds; when it merges, the part below the two
  topmost runs still does.
\<close>

lemma merge_choice_None:
  "merge_choice ls = None \<Longrightarrow> grows (drop 2 ls) \<Longrightarrow> grows ls"
  by (cases ls rule: grows.cases; cases "drop 3 ls")
    (auto simp: merge_choice_def split: list.splits if_splits)

lemma merge_choice_Some:
  "merge_choice ls = Some n \<Longrightarrow> n + 2 = length ls \<or> n + 3 = length ls"
  by (auto simp: merge_choice_def split: list.splits if_splits)

lemma split_two: "Suc n < length xs \<Longrightarrow> xs = take n xs @ [xs ! n, xs ! (n + 1)] @ drop (n + 2) xs"
  by (simp add: Cons_nth_drop_Suc)

context comparator_laws
begin

text \<open>Merging at one of the two places where merging is allowed.\<close>

lemma merge_step_at:
  assumes h: "runs_held ok cmp pre src rest space segs d"
    and n: "n + 2 = length segs \<or> n + 3 = length segs"
  shows "\<exists>d' segs'. mergeAtIndex cmp d n = Some d' \<and> runs_held ok cmp pre src rest space segs' d' \<and>
    length segs' + 1 = length segs \<and>
    (grows (drop 2 (top_lengths segs)) \<longrightarrow> grows (drop 2 (top_lengths segs'))) \<and>
    ((\<forall>s \<in> set segs. m \<le> length s) \<longrightarrow> (\<forall>s \<in> set segs'. m \<le> length s))"
proof -
  define A where "A = take n segs"
  define B where "B = drop (n + 2) segs"
  define s1 where "s1 = segs ! n"
  define s2 where "s2 = segs ! (n + 1)"
  have segs: "segs = A @ [s1, s2] @ B"
    unfolding A_def B_def s1_def s2_def by (rule split_two) (use n in auto)
  have A: "length A = n" and B: "length B \<le> 1" using n by (auto simp: A_def B_def)
  from mergeAtIndex_merges [of pre src rest space A s1 s2 B d] h B
  obtain d' where d': "mergeAtIndex cmp d n = Some d'"
      "runs_held ok cmp pre src rest space (A @ [smerge cmp s1 s2] @ B) d'"
    by (auto simp: segs A)
  have "grows (drop 2 (top_lengths segs)) \<longrightarrow> grows (drop 2 (top_lengths (A @ [smerge cmp s1 s2] @ B)))"
    using B grows_drop [of "rev (map length A)" 1] grows_tl
    by (cases B) (auto simp: segs top_lengths_def numeral_2_eq_2)
  moreover have "(\<forall>s \<in> set segs. m \<le> length s) \<longrightarrow> (\<forall>s \<in> set (A @ [smerge cmp s1 s2] @ B). m \<le> length s)"
    by (auto simp: segs)
  ultimately show ?thesis using d' segs by (intro exI [of _ d'] exI [of _ "A @ [smerge cmp s1 s2] @ B"]) simp
qed

lemma suggestMerge_restores:
  assumes "runs_held ok cmp pre src rest space segs d" "grows (drop 2 (top_lengths segs))"
    and "\<forall>s \<in> set segs. m \<le> length s" "segs \<noteq> []"
  shows "\<exists>d' segs'. suggestMerge cmp d = Some d' \<and> runs_held ok cmp pre src rest space segs' d' \<and>
    grows (top_lengths segs') \<and> (\<forall>s \<in> set segs'. m \<le> length s) \<and> segs' \<noteq> []"
  using assms
proof (induction "length segs" arbitrary: segs d rule: less_induct)
  case less
  have sz: "stackSize d = length segs" using less.prems(1) by (simp add: runs_held_def)
  show ?case
  proof (cases "2 \<le> length segs")
    case False
    then obtain s where "segs = [s]" using less.prems(4) by (cases segs rule: remdups_adj.cases) auto
    then show ?thesis using sz less.prems
      by (intro exI [of _ d] exI [of _ segs]) (simp add: suggestMerge.simps top_lengths_def)
  next
    case True
    note mp = merge_point_choice [OF less.prems(1) True]
    show ?thesis
    proof (cases "merge_point d")
      case None
      then have "grows (top_lengths segs)" using merge_choice_None less.prems(2) mp by simp
      then show ?thesis using None True sz less.prems
        by (intro exI [of _ d] exI [of _ segs]) (simp add: suggestMerge.simps)
    next
      case (Some n)
      then have "n + 2 = length segs \<or> n + 3 = length segs"
        using merge_choice_Some [of "top_lengths segs" n] mp by (simp add: top_lengths_def)
      from merge_step_at [OF less.prems(1) this, of m] obtain d1 segs1 where
        d1: "mergeAtIndex cmp d n = Some d1" "runs_held ok cmp pre src rest space segs1 d1"
          "length segs1 + 1 = length segs" "grows (drop 2 (top_lengths segs1))" "\<forall>s \<in> set segs1. m \<le> length s"
        using less.prems by blast
      have "segs1 \<noteq> []" using d1(3) True by auto
      then obtain d' segs' where "suggestMerge cmp d1 = Some d'" "runs_held ok cmp pre src rest space segs' d'"
          "grows (top_lengths segs')" "\<forall>s \<in> set segs'. m \<le> length s" "segs' \<noteq> []"
        using less.hyps [of segs1 d1] d1 by auto
      moreover have "suggestMerge cmp d = suggestMerge cmp d1"
        using Some d1(1) sz True by (subst suggestMerge.simps) simp
      ultimately show ?thesis by auto
    qed
  qed
qed

lemma forceMerge_merges_all:
  assumes "runs_held ok cmp pre src rest space segs d" "segs \<noteq> []"
  shows "\<exists>d' s. forceMerge cmp d = Some d' \<and> runs_held ok cmp pre src rest space [s] d'"
  using assms
proof (induction "length segs" arbitrary: segs d rule: less_induct)
  case less
  have sz: "stackSize d = length segs" using less.prems(1) by (simp add: runs_held_def)
  show ?case
  proof (cases "2 \<le> length segs")
    case False
    then obtain s where "segs = [s]" using less.prems(2) by (cases segs rule: remdups_adj.cases) auto
    then show ?thesis using sz less.prems
      by (intro exI [of _ d] exI [of _ s]) (simp add: forceMerge.simps)
  next
    case True
    define n where "n = length segs - 2"
    define n' where "n' = (if n > 0 \<and> run_len d (n - 1) < run_len d (n + 1) then n - 1 else n)"
    have "n' + 2 = length segs \<or> n' + 3 = length segs" using True by (auto simp: n'_def n_def)
    from merge_step_at [OF less.prems(1) this] obtain d1 segs1 where
      d1: "mergeAtIndex cmp d n' = Some d1" "runs_held ok cmp pre src rest space segs1 d1"
        "length segs1 + 1 = length segs" by blast
    have "forceMerge cmp d = Option.bind (mergeAtIndex cmp d n') (forceMerge cmp)"
      using True by (subst forceMerge.simps) (simp only: Let_def n_def n'_def sz, simp)
    then have "forceMerge cmp d = forceMerge cmp d1" using d1(1) by simp
    moreover have "segs1 \<noteq> []" using d1(3) True by auto
    ultimately show ?thesis using less.hyps [of segs1 d1] d1 by auto
  qed
qed

end

section \<open>The sort\<close>

context comparator_laws
begin

lemma internalBinarySort_sorts:
  assumes "ordered_by cmp xs" "xs \<noteq> []" "us \<noteq> []" "\<forall>x \<in> set (xs @ us). ok x"
    and "length pre + length xs + length us \<le> 2 ^ 31"
    and r: "location r = length pre" "rlength r = length xs + length us"
  shows "\<exists>ys. internalBinarySort cmp (pre @ xs @ us @ post) r (length pre + length xs) =
      Some (pre @ ys @ post) \<and> stable_sort_of ok cmp (xs @ us) ys"
proof -
  have "range_ok r" using assms(5) r by (simp add: range_ok_def)
  moreover from this have "NSLocationInRange (length pre + length xs) r"
    using assms(3) r by (simp add: NSLocationInRange_iff range_set_def)
  ultimately show ?thesis
    using binary_sort_loop_sorts [OF assms(1,2,4,5), of post] assms(2) r
    by (simp add: internalBinarySort_def Let_def bounds_simps add.assoc)
qed

lemma miniTimSort_sorts:
  assumes "xs \<noteq> []" "\<forall>x \<in> set xs. ok x" "length pre + length xs \<le> 2 ^ 31"
    and r: "r = \<lparr>location = length pre, rlength = length xs\<rparr>"
  shows "\<exists>ys. miniTimSort cmp (pre @ xs @ post) r = Some (pre @ ys @ post) \<and> stable_sort_of ok cmp xs ys"
proof -
  obtain buf n where run: "countAscendizedRun cmp (pre @ xs @ post) r = (buf, n)"
    by (cases "countAscendizedRun cmp (pre @ xs @ post) r") auto
  have "range_ok r" using assms(3) r by (simp add: range_ok_def)
  from countAscendizedRun_sorts [OF this _ _ assms(1,2) run] r obtain us where us:
    "buf = pre @ us @ drop n xs @ post" "1 \<le> n" "n \<le> length xs" "stable_sort_of ok cmp (take n xs) us"
    by auto
  show ?thesis
  proof (cases "n = length xs")
    case True
    then show ?thesis using us run r by (auto simp: miniTimSort_def)
  next
    case False
    have perm: "stable_perm ok cmp (take n xs) us" "ordered_by cmp us"
      using us(4) by (simp_all add: stable_sort_of_def)
    have len: "length us = n" using stable_perm_length [OF perm(1)] us(3) by simp
    have "\<exists>ys. internalBinarySort cmp (pre @ us @ drop n xs @ post) r (length pre + length us) =
        Some (pre @ ys @ post) \<and> stable_sort_of ok cmp (us @ drop n xs) ys"
      using perm len us False assms stable_perm_set [OF perm(1)]
      by (intro internalBinarySort_sorts) (auto dest: in_set_takeD in_set_dropD)
    then obtain ys where ys: "internalBinarySort cmp (pre @ us @ drop n xs @ post) r (length pre + length us) =
        Some (pre @ ys @ post)" "stable_sort_of ok cmp (us @ drop n xs) ys" by blast
    have "stable_perm ok cmp xs (us @ drop n xs)"
      using stable_perm_append [OF perm(1) stable_perm_refl, of "drop n xs"] by simp
    with ys(2) have "stable_sort_of ok cmp xs ys"
      by (auto simp: stable_sort_of_def intro: stable_perm_trans)
    then show ?thesis using ys(1) run us len False r by (auto simp: miniTimSort_def)
  qed
qed

lemma next_run_sorts:
  assumes "xs \<noteq> []" "\<forall>x \<in> set xs. ok x" "length pre + length xs \<le> 2 ^ 31" "1 \<le> m"
  shows "\<exists>us n. next_run cmp m (pre @ xs @ post) (length pre) (length xs) = Some (pre @ us @ drop n xs @ post, n) \<and>
    1 \<le> n \<and> n \<le> length xs \<and> (n < length xs \<longrightarrow> m \<le> n) \<and> stable_sort_of ok cmp (take n xs) us"
proof -
  define r where "r = \<lparr>location = length pre, rlength = length xs\<rparr>"
  obtain buf n where run: "countAscendizedRun cmp (pre @ xs @ post) r = (buf, n)"
    by (cases "countAscendizedRun cmp (pre @ xs @ post) r") auto
  have "range_ok r" using assms(3) r_def by (simp add: range_ok_def)
  from countAscendizedRun_sorts [OF this _ _ assms(1,2) run] r_def obtain us where us:
    "buf = pre @ us @ drop n xs @ post" "1 \<le> n" "n \<le> length xs" "stable_sort_of ok cmp (take n xs) us"
    by auto
  show ?thesis
  proof (cases "n < min (length xs) m")
    case False
    then show ?thesis using us run
      by (intro exI [of _ us] exI [of _ n]) (auto simp: next_run_def r_def [symmetric])
  next
    case True
    define k where "k = min (length xs) m"
    define vs where "vs = take (k - n) (drop n xs)"
    have k: "n < k" "k \<le> length xs" "k < length xs \<Longrightarrow> m \<le> k" using True by (auto simp: k_def)
    have split: "drop n xs = vs @ drop k xs"
      unfolding vs_def using k(1) by (metis append_take_drop_id drop_drop le_add_diff_inverse2 less_imp_le)
    have split2: "take k xs = take n xs @ vs" using k by (simp add: vs_def take_drop_split [of n k])
    have perm: "stable_perm ok cmp (take n xs) us" "ordered_by cmp us"
      using us(4) by (simp_all add: stable_sort_of_def)
    have len: "length us = n" "length vs = k - n"
      using stable_perm_length [OF perm(1)] us(3) k by (simp_all add: vs_def)
    have "\<exists>ys. internalBinarySort cmp (pre @ us @ vs @ drop k xs @ post) \<lparr>location = length pre, rlength = k\<rparr>
        (length pre + length us) = Some (pre @ ys @ drop k xs @ post) \<and> stable_sort_of ok cmp (us @ vs) ys"
      using perm len us k assms stable_perm_set [OF perm(1)]
      by (intro internalBinarySort_sorts) (auto simp: vs_def dest: in_set_takeD in_set_dropD)
    then obtain ys where ys: "internalBinarySort cmp (pre @ us @ vs @ drop k xs @ post)
        \<lparr>location = length pre, rlength = k\<rparr> (length pre + length us) = Some (pre @ ys @ drop k xs @ post)"
        "stable_sort_of ok cmp (us @ vs) ys" by blast
    have "stable_perm ok cmp (take k xs) (us @ vs)"
      unfolding split2 by (rule stable_perm_append [OF perm(1) stable_perm_refl])
    with ys(2) have "stable_sort_of ok cmp (take k xs) ys"
      by (auto simp: stable_sort_of_def intro: stable_perm_trans)
    moreover have "next_run cmp m (pre @ xs @ post) (length pre) (length xs) = Some (pre @ ys @ drop k xs @ post, k)"
      using run [unfolded r_def] ys(1) True us(1) len
      by (simp add: next_run_def split k_def [symmetric] Let_def) (auto simp: k_def split: if_splits)
    ultimately show ?thesis using k us(2) by (intro exI [of _ ys] exI [of _ k]) auto
  qed
qed

end

context comparator_laws
begin

text \<open>Pushing the run just made.\<close>

lemma pushRun_holds:
  assumes h: "runs_held ok cmp pre src (xs @ post) space segs d"
    and room: "length segs < space" and xs: "xs = take n xs @ drop n xs" "stable_sort_of ok cmp (take n xs) us" "us \<noteq> []"
    and oks: "\<forall>x \<in> set xs. ok x"
  shows "\<exists>d'. pushRun (d\<lparr>objects := pre @ concat segs @ us @ drop n xs @ post\<rparr>)
      \<lparr>location = length pre + length src, rlength = length us\<rparr> = Some d' \<and>
    runs_held ok cmp pre (src @ take n xs) (drop n xs @ post) space (segs @ [us]) d'"
proof -
  let ?d = "d\<lparr>objects := pre @ concat segs @ us @ drop n xs @ post\<rparr>"
  let ?r = "\<lparr>location = length pre + length src, rlength = length us\<rparr>"
  have sz: "stackSize d = length segs" "length (runStack d) = space" "length segs \<le> length (runStack d)"
    "take (length segs) (runStack d) = layout (length pre) segs"
    using h by (auto simp: runs_held_def)
  have lens: "length (concat segs) = length src" by (rule runs_held_length [OF h])
  have "take (Suc (length segs)) ((runStack d)[length segs := ?r]) = layout (length pre) (segs @ [us])"
    using sz room lens by (simp add: take_Suc_conv_app_nth layout_append)
  moreover have "stable_perm ok cmp (src @ take n xs) (concat segs @ us)"
    using h xs(2) by (intro stable_perm_append) (auto simp: runs_held_def stable_sort_of_def)
  moreover have "\<forall>x \<in> set (src @ take n xs). ok x"
    using h oks by (auto simp: runs_held_def dest: in_set_takeD)
  moreover have "length (pre @ (src @ take n xs) @ drop n xs @ post) = length (pre @ src @ xs @ post)"
    by simp
  ultimately show ?thesis
    using h sz room xs(2,3) by (simp add: pushRun_def runs_held_def ball_Un stable_sort_of_def)
qed

lemma sort_runs_holds:
  assumes "runs_held ok cmp pre src (xs @ post) (stack_space whole) segs d"
    and "grows (top_lengths segs)" "\<forall>s \<in> set segs. 16 \<le> length s" "xs \<noteq> []" "\<forall>x \<in> set xs. ok x"
    and "length pre + whole \<le> 2 ^ 31" "whole = length src + length xs" "16 \<le> m"
  shows "\<exists>d' segs'. sort_runs cmp m d (length pre + length src) (length xs) =
      Some (d', length pre + length src + length xs) \<and>
    runs_held ok cmp pre (src @ xs) post (stack_space whole) segs' d' \<and> segs' \<noteq> []"
  using assms
proof (induction "length xs" arbitrary: src xs segs d rule: less_induct)
  case less
  note h = less.prems(1)
  have lens: "length (concat segs) = length src" by (rule runs_held_length [OF h])
  have objs: "objects d = (pre @ concat segs) @ xs @ post" using h by (simp add: runs_held_def)
  have start: "length pre + length src = length (pre @ concat segs)" using lens by simp
  obtain us n where run: "next_run cmp m (objects d) (length pre + length src) (length xs) =
        Some ((pre @ concat segs) @ us @ drop n xs @ post, n)"
      "1 \<le> n" "n \<le> length xs" "n < length xs \<longrightarrow> m \<le> n" "stable_sort_of ok cmp (take n xs) us"
    using next_run_sorts [of xs "pre @ concat segs" m post] less.prems lens unfolding objs start by auto
  have us: "length us = n" using run(3,5) stable_perm_length [of ok cmp "take n xs" us]
    by (simp add: stable_sort_of_def)
  have whole: "length src = sum_list (top_lengths segs)"
    using lens by (simp add: top_lengths_def length_concat sum_list_rev)
  have space: "length segs < stack_space whole"
    using stack_space_enough [OF less.prems(2), of whole] less.prems whole
    by (auto simp: top_lengths_def)
  have ne: "us \<noteq> []" using us run(2) by auto
  obtain d1 where d1: "pushRun (d\<lparr>objects := (pre @ concat segs) @ us @ drop n xs @ post\<rparr>)
      \<lparr>location = length pre + length src, rlength = n\<rparr> = Some d1"
      "runs_held ok cmp pre (src @ take n xs) (drop n xs @ post) (stack_space whole) (segs @ [us]) d1"
    using pushRun_holds [OF h space _ run(5) ne less.prems(5)] us by auto
  define k where "k = (if n < length xs then 16 else 0 :: nat)"
  have "grows (drop 2 (top_lengths (segs @ [us])))"
    using grows_drop [OF less.prems(2), of 1] by (simp add: top_lengths_def)
  moreover have "\<forall>s \<in> set (segs @ [us]). k \<le> length s"
    using less.prems(3,8) run(4) us by (auto simp: k_def)
  ultimately obtain d2 segs2 where d2: "suggestMerge cmp d1 = Some d2"
      "runs_held ok cmp pre (src @ take n xs) (drop n xs @ post) (stack_space whole) segs2 d2"
      "grows (top_lengths segs2)" "\<forall>s \<in> set segs2. k \<le> length s" "segs2 \<noteq> []"
    using suggestMerge_restores [OF d1(2)] by blast
  have step: "sort_runs cmp m d (length pre + length src) (length xs) =
      (if length xs - n \<noteq> 0 then sort_runs cmp m d2 (length pre + length src + n) (length xs - n)
       else Some (d2, length pre + length src + n))"
    by (subst sort_runs.simps) (simp add: run(1) d1(1) d2(1) del: append_assoc)
  show ?case
  proof (cases "n < length xs")
    case False
    then show ?thesis using step d2 run(3) by auto
  next
    case True
    have "\<exists>d' segs'. sort_runs cmp m d2 (length pre + length (src @ take n xs)) (length (drop n xs)) =
          Some (d', length pre + length (src @ take n xs) + length (drop n xs)) \<and>
        runs_held ok cmp pre ((src @ take n xs) @ drop n xs) post (stack_space whole) segs' d' \<and> segs' \<noteq> []"
      by (rule less.hyps [OF _ d2(2,3)])
        (use True run(2,3) less.prems d2(4) in \<open>auto simp: k_def dest: in_set_dropD\<close>)
    then show ?thesis using step True run(3) by (simp add: add.assoc)
  qed
qed

lemma gsTimSort_sorts:
  assumes oks: "\<forall>x \<in> set xs. ok x" and fits: "length pre + length xs \<le> 2 ^ 31"
    and buf: "length (pre @ xs @ post) < UINT_SPAN"
  shows "\<exists>ys. gsTimSort cmp (pre @ xs @ post) \<lparr>location = length pre, rlength = length xs\<rparr> =
      Some (pre @ ys @ post) \<and> stable_sort_of ok cmp xs ys"
proof -
  let ?r = "\<lparr>location = length pre, rlength = length xs\<rparr>"
  consider "length xs < 2" | "2 \<le> length xs" "length xs < 32" | "32 \<le> length xs" by linarith
  then show ?thesis
  proof cases
    case 1
    then have "ordered_by cmp xs" by (cases xs rule: remdups_adj.cases) auto
    then show ?thesis using 1 by (auto simp: gsTimSort_def intro!: exI [of _ xs] stable_sort_of_self)
  next
    case 2
    then have "xs \<noteq> []" by auto
    then show ?thesis using miniTimSort_sorts [OF _ oks fits refl, of post] 2 by (auto simp: gsTimSort_def)
  next
    case 3
    let ?m = "minimumRunLength (length xs)" and ?d = "initWithObjects (pre @ xs @ post) ?r"
    have m: "16 \<le> ?m" using min_run_loop_bounds [of 0 "length xs"] 3 by (simp add: minimumRunLength_def)
    have "runs_held ok cmp pre [] (xs @ post) (stack_space (length xs)) [] ?d"
      using buf by (simp add: runs_held_def initWithObjects_def)
    moreover have "xs \<noteq> []" using 3 by auto
    ultimately obtain d1 segs where
      d1: "sort_runs cmp ?m ?d (length pre) (length xs) = Some (d1, length pre + length xs)"
        "runs_held ok cmp pre xs post (stack_space (length xs)) segs d1" "segs \<noteq> []"
      using sort_runs_holds [of pre "[]" xs post "length xs" "[]" ?d ?m] oks fits m
      by (auto simp: top_lengths_def)
    from forceMerge_merges_all [OF d1(2,3)] obtain d2 s where
      d2: "forceMerge cmp d1 = Some d2" "runs_held ok cmp pre xs post (stack_space (length xs)) [s] d2"
      by blast
    then have "objects d2 = pre @ s @ post" "stable_sort_of ok cmp xs s"
      by (simp_all add: runs_held_def stable_sort_of_def)
    moreover have "NSMaxRange ?r = length pre + length xs" using fits by (simp add: NSMaxRange_def bounds_simps)
    ultimately show ?thesis using 3 d1(1) d2(1) by (simp add: gsTimSort_def)
  qed
qed

end

section \<open>The properties\<close>

text \<open>
  C1. The stable sort of the library returns for every total preorder and every range of a
  buffer that ends within the first \<open>2 ^ 31\<close> cells: none of the assertions fails, the run stack
  does not overflow, no run longer than the capacity of the temporary buffer is copied into it,
  the cells outside the range keep their objects, and the range holds the same objects in
  order, with those that compare as the same in the order they had.
\<close>

theorem tim_sort_stable:
  assumes "comparator_laws ok cmp" and "\<forall>x \<in> set (cells r buf). ok x"
    and "location r + rlength r \<le> length buf" and "length buf < UINT_SPAN"
    and "location r + rlength r \<le> 2 ^ 31"
  shows "\<exists>buf'. gsTimSort cmp buf r = Some buf' \<and> length buf' = length buf \<and>
    take (location r) buf' = take (location r) buf \<and>
    drop (location r + rlength r) buf' = drop (location r + rlength r) buf \<and>
    ordered_by cmp (cells r buf') \<and> mset (cells r buf') = mset (cells r buf) \<and>
    (\<forall>a. ok a \<longrightarrow> ties cmp a (cells r buf') = ties cmp a (cells r buf))"
proof -
  define pre where "pre = take (location r) buf"
  define post where "post = drop (location r + rlength r) buf"
  have buf: "buf = pre @ cells r buf @ post"
    unfolding pre_def post_def cells_def by (metis append_take_drop_id take_add append_assoc)
  have len: "length pre = location r" "length (cells r buf) = rlength r"
    using assms(3) by (simp_all add: pre_def cells_def)
  have "r = \<lparr>location = length pre, rlength = length (cells r buf)\<rparr>" using len by simp
  moreover obtain ys where "gsTimSort cmp (pre @ cells r buf @ post)
      \<lparr>location = length pre, rlength = length (cells r buf)\<rparr> = Some (pre @ ys @ post)"
      "stable_sort_of ok cmp (cells r buf) ys"
    using comparator_laws.gsTimSort_sorts [OF assms(1,2), of pre post] assms(4,5) len buf by auto
  moreover have "length ys = length (cells r buf)"
    using \<open>stable_sort_of ok cmp (cells r buf) ys\<close> stable_perm_length by (auto simp: stable_sort_of_def)
  moreover have "cells r (pre @ ys @ post) = ys" "drop (location r + rlength r) (pre @ ys @ post) = post"
      "take (location r) (pre @ ys @ post) = pre"
    using calculation(4) len by (simp_all add: cells_def)
  ultimately show ?thesis
    using buf by (metis (no_types, lifting) length_append post_def pre_def stable_perm_def stable_sort_of_def)
qed

theorem tim_sort_stable_witness:
  "\<exists>buf'. gsTimSort integer_compare ([5, 4] @ rev (map int [0..<40]) @ [1]) \<lparr>location = 2, rlength = 40\<rparr> = Some buf' \<and>
     length buf' = 43 \<and> take 2 buf' = [5, 4] \<and> drop 42 buf' = [1] \<and>
     ordered_by integer_compare (cells \<lparr>location = 2, rlength = 40\<rparr> buf')"
  using tim_sort_stable [OF integers.comparator_laws_axioms,
      of "\<lparr>location = 2, rlength = 40\<rparr>" "[5, 4] @ rev (map int [0..<40]) @ [1]"] by auto

text \<open>
  C13. \<^verbatim>\<open>suggestMerge\<close> restores the invariant of the run stack: called with a stack whose
  invariant holds below the two topmost runs (which is what a push leaves), it returns, the
  runs still partition the sorted part in stable order, and from the top down every run is
  shorter than the next and two neighbours together are shorter than the one below them.
\<close>

theorem run_stack_invariant:
  assumes "comparator_laws ok cmp" and "runs_held ok cmp pre src rest space segs d" and "segs \<noteq> []"
    and "grows (drop 2 (top_lengths segs))"
  shows "\<exists>d' segs'. suggestMerge cmp d = Some d' \<and> runs_held ok cmp pre src rest space segs' d' \<and>
    grows (top_lengths segs') \<and> segs' \<noteq> []"
  using comparator_laws.suggestMerge_restores [OF assms(1,2,4) _ assms(3), of 0] by blast

theorem run_stack_invariant_witness:
  "\<exists>d' segs'. suggestMerge integer_compare
       \<lparr>objects = [4, 5, 1, 2, 3 :: int], minGallop = 7, tempCapacity = 2, tempBuffer = [], stackSize = 2,
        runStack = [\<lparr>location = 0, rlength = 2\<rparr>, \<lparr>location = 2, rlength = 3\<rparr>, \<lparr>location = 0, rlength = 0\<rparr>]\<rparr> = Some d' \<and>
     runs_held (\<lambda>_. True) integer_compare [] [4, 5, 1, 2, 3] [] 3 segs' d' \<and> grows (top_lengths segs')"
proof -
  let ?d = "\<lparr>objects = [4, 5, 1, 2, 3 :: int], minGallop = 7, tempCapacity = 2, tempBuffer = [], stackSize = 2,
    runStack = [\<lparr>location = 0, rlength = 2\<rparr>, \<lparr>location = 2, rlength = 3\<rparr>, \<lparr>location = 0, rlength = 0\<rparr>]\<rparr>"
  have "runs_held (\<lambda>_. True) integer_compare [] [4, 5, 1, 2, 3] [] 3 [[4, 5], [1, 2, 3]] ?d"
    by (simp add: runs_held_def ordered_by_def not_after_def integer_compare_def)
  moreover have "grows (drop 2 (top_lengths [[4, 5], [1, 2, 3 :: int]]))" by (simp add: top_lengths_def)
  ultimately show ?thesis
    using run_stack_invariant [OF integers.comparator_laws_axioms, of "[]" "[4, 5, 1, 2, 3]" "[]" 3
        "[[4, 5], [1, 2, 3]]" ?d] by blast
qed

text \<open>
  C2. The in-place merges compute the stable merge. With the first run moved to the temporary
  buffer (\<^verbatim>\<open>mergeLowRun:withRun:\<close>) as with the second (\<^verbatim>\<open>mergeHighRun:withRun:\<close>),
  in linear and in galloping mode, two neighbouring sorted runs that were trimmed against each
  other are replaced by their stable merge; the call returns, the run stack stays as it is and
  no write leaves the temporary buffer.
\<close>

theorem merges_are_stable:
  assumes "comparator_laws ok cmp" and "objects d = pre @ xs @ ys @ post" and "xs \<noteq> []" and "ys \<noteq> []"
    and "ordered_by cmp xs" and "ordered_by cmp ys" and "\<forall>z \<in> set xs \<union> set ys. ok z"
    and "cmp (hd ys) (hd xs) = NSOrderedAscending" and "cmp (last ys) (last xs) = NSOrderedAscending"
    and "length (objects d) < UINT_SPAN"
    and "r1 = \<lparr>location = length pre, rlength = length xs\<rparr>"
    and "r2 = \<lparr>location = length pre + length xs, rlength = length ys\<rparr>"
  shows "(\<exists>d'. mergeLowRun cmp d r1 r2 = Some d' \<and> merge_done cmp d pre xs ys post d') \<and>
    (\<exists>d'. mergeHighRun cmp d r1 r2 = Some d' \<and> merge_done cmp d pre xs ys post d') \<and>
    stable_sort_of ok cmp (xs @ ys) (smerge cmp xs ys)"
proof (intro conjI)
  obtain x xs1 y ys1 where low: "xs = x # xs1" "ys = y # ys1"
    using assms(3,4) by (cases xs; cases ys) auto
  obtain xs2 l ys2 m where high: "xs = xs2 @ [l]" "ys = ys2 @ [m]"
    using assms(3,4) by (metis append_butlast_last_id)
  have "cmp z (last xs) = NSOrderedAscending" if "z \<in> set ys" for z
    by (rule comparator_laws.last_before_all [OF assms(1), of ys2 m]) (use assms high that in auto)
  moreover have "cmp y x = NSOrderedAscending" using assms(8) low by simp
  ultimately show "\<exists>d'. mergeLowRun cmp d r1 r2 = Some d' \<and> merge_done cmp d pre xs ys post d'"
    unfolding low using assms low
    by (intro comparator_laws.mergeLowRun_merges [OF assms(1)]) simp_all
  have "cmp (hd ys) z = NSOrderedAscending" if "z \<in> set xs" for z
    by (rule comparator_laws.before_all [OF assms(1), of x xs1]) (use assms low that in auto)
  moreover have "cmp m l = NSOrderedAscending" using assms(9) high by simp
  ultimately show "\<exists>d'. mergeHighRun cmp d r1 r2 = Some d' \<and> merge_done cmp d pre xs ys post d'"
    unfolding high using assms high
    by (intro comparator_laws.mergeHighRun_merges [OF assms(1)]) simp_all
  show "stable_sort_of ok cmp (xs @ ys) (smerge cmp xs ys)"
    by (rule comparator_laws.smerge_stable [OF assms(1,5-7)])
qed

theorem merges_are_stable_witness:
  "\<exists>d'. mergeLowRun integer_compare
       \<lparr>objects = [0, 3, 5, 1, 4, 9 :: int], minGallop = 7, tempCapacity = 0, tempBuffer = [], stackSize = 0,
        runStack = []\<rparr> \<lparr>location = 1, rlength = 2\<rparr> \<lparr>location = 3, rlength = 2\<rparr> = Some d' \<and>
     objects d' = [0, 1, 3, 4, 5, 9]"
  using merges_are_stable [OF integers.comparator_laws_axioms, of
      "\<lparr>objects = [0, 3, 5, 1, 4, 9], minGallop = 7, tempCapacity = 0, tempBuffer = [], stackSize = 0,
        runStack = []\<rparr>" "[0]" "[3, 5]" "[1, 4]" "[9]"
      "\<lparr>location = 1, rlength = 2\<rparr>" "\<lparr>location = 3, rlength = 2\<rparr>"]
  by (auto simp: merge_done_def ordered_by_def not_after_def integer_compare_def)

text \<open>
  The minimal run length of \<open>n\<close> objects (at least 32) is \<open>n\<close> divided by a power of two,
  rounded up, and lies between 16 and 32, so that about a power of two of runs is made.
\<close>

theorem minimum_run_length:
  assumes "32 \<le> n"
  shows "16 \<le> minimumRunLength n \<and> minimumRunLength n \<le> 32 \<and>
    (\<exists>k. minimumRunLength n = (n + 2 ^ k - 1) div 2 ^ k \<and> 16 \<le> n div 2 ^ k \<and> n div 2 ^ k < 32)"
proof -
  obtain k where k: "minimumRunLength n = n div 2 ^ k + (if n mod 2 ^ k = 0 then 0 else 1)"
      "n div 2 ^ k < 32" "16 \<le> n div 2 ^ k"
    using min_run_loop_divides [of 0 n] assms by (auto simp: minimumRunLength_def)
  have "(n + 2 ^ k - 1) div 2 ^ k = n div 2 ^ k + (if n mod 2 ^ k = 0 then 0 else 1)"
  proof -
    let ?p = "2 ^ k :: nat"
    have "n + ?p - 1 = (n div ?p) * ?p + (n mod ?p + (?p - 1))"
      by (metis Nat.add_diff_assoc add.assoc div_mult_mod_eq one_le_numeral one_le_power)
    then have "(n + ?p - 1) div ?p = n div ?p + (n mod ?p + (?p - 1)) div ?p" by simp
    moreover have "(n mod ?p + (?p - 1)) div ?p = (if n mod ?p = 0 then 0 else 1)"
    proof (cases "n mod ?p = 0")
      case False
      then have "n mod ?p + (?p - 1) = (n mod ?p - 1) + ?p" "n mod ?p - 1 < ?p"
        by (auto simp: less_imp_diff_less)
      moreover from this(2) have "((n mod ?p - 1) + ?p) div ?p = 1"
        by (subst div_add_self2) auto
      ultimately show ?thesis using False by (simp only: if_False)
    qed simp
    ultimately show ?thesis by simp
  qed
  then have "minimumRunLength n = (n + 2 ^ k - 1) div 2 ^ k" using k(1) by (simp only:)
  moreover have "16 \<le> minimumRunLength n" "minimumRunLength n \<le> 32" using k by simp_all
  ultimately show ?thesis using k(2,3) by blast
qed

theorem minimum_run_length_witness: "minimumRunLength 64 = 16 \<and> 16 \<le> minimumRunLength 1000 \<and> minimumRunLength 1000 \<le> 32"
  using minimum_run_length [of 1000]
  by (simp add: minimumRunLength_def min_run_loop.simps drop_bit_Suc)

text \<open>
  The counter of the loop that makes room in the binary sort is a 32-bit \<^verbatim>\<open>int\<close>: when
  the first object to insert lies at an index from \<open>2 ^ 31\<close> up, the counter is negative, passes
  the unsigned comparison, and the sort accesses cells before the buffer.
\<close>

theorem binary_sort_counter_overflows:
  assumes "2 ^ 31 \<le> start" and "start < 2 ^ 32" and "NSLocationInRange start r" and "location r < start"
  shows "internalBinarySort cmp buf r start = None"
proof -
  have "start < NSMaxRange r" using assms(3) by (simp add: NSLocationInRange_def)
  moreover have "make_room b left start = None" for b :: "'a list" and left
  proof -
    have "(int start + 2 ^ 31) mod 2 ^ 32 = int start + 2 ^ 31 - 2 ^ 32"
      using assms(1,2) by (subst minus_mod_self2 [symmetric]) simp
    then have "sint32 (int start) < 0" using assms(2) by (simp add: sint32_def)
    then show ?thesis by (simp add: make_room_def)
  qed
  ultimately show ?thesis
    using assms(3,4) by (simp add: internalBinarySort_def binary_sort_loop.simps [of _ _ _ _ start] Let_def split: prod.split)
qed

theorem binary_sort_counter_overflows_witness:
  "internalBinarySort integer_compare (replicate (2 ^ 31 + 4) 0)
     \<lparr>location = 2 ^ 31, rlength = 4\<rparr> (2 ^ 31 + 1) = None"
  by (rule binary_sort_counter_overflows)
    (simp_all add: NSLocationInRange_def NSMaxRange_def bounds_simps)

end
