(* ===== verification/GSI_Array.thy ===== *)
theory GSI_Array
  imports Sort_Search
begin

text \<open>
  The growing array of \<^verbatim>\<open>Headers/GNUstepBase/GSIArray.h\<close>, on which the library builds
  its run loop, notification and coding tables. A \<^verbatim>\<open>GSIArrayItem\<close> takes 8 bytes;
  \<^verbatim>\<open>unsigned\<close> has 32 bits. The cells of \<open>ptr\<close> are those the allocator really
  provided, so that a buffer smaller than \<open>cap\<close> shows; uninitialised cells are \<open>None\<close>.
  The macros \<^verbatim>\<open>GSI_ARRAY_RETAIN\<close> and \<^verbatim>\<open>GSI_ARRAY_RELEASE\<close> leave a trace of the
  items they were applied to. The assertions of \<^verbatim>\<open>GSI_ARRAY_CHECKS\<close> are off, as in the
  library. \<open>alloc\<close> tells whether a request for that many bytes is granted.
\<close>

section \<open>State\<close>

abbreviation GSI_ARRAY_MEMMOVE :: nat where "GSI_ARRAY_MEMMOVE \<equiv> 8"
abbreviation SIZEOF_ITEM :: nat where "SIZEOF_ITEM \<equiv> 8"

record 'a GSIArray =
  ptr :: "'a option list"
  acount :: nat
  cap :: nat
  old :: nat
  retained :: "'a list"
  released :: "'a list"

text \<open>
  \<open>CopyToNull\<close> is not an exception but the crash of a \<^verbatim>\<open>memcpy\<close> of at least one item into
  the null pointer an allocation answered, before the code tests it.
\<close>

datatype gsi_exception = NSMallocException | NSInvalidArgumentException | CopyToNull

text \<open>What a call leaves behind: the array, and the exception it raised, if any.\<close>

type_synonym 'a outcome = "gsi_exception option \<times> 'a GSIArray"

definition malloc_cells :: "nat \<Rightarrow> 'a option list" where
  "malloc_cells bytes = replicate (bytes div SIZEOF_ITEM) None"

definition realloc_cells :: "'a option list \<Rightarrow> nat \<Rightarrow> 'a option list" where
  "realloc_cells p bytes =
     take (bytes div SIZEOF_ITEM) p @ replicate (bytes div SIZEOF_ITEM - length p) None"

section \<open>Operations\<close>

definition GSIArrayCapacity :: "'a GSIArray \<Rightarrow> nat" where
  "GSIArrayCapacity a = cap a"

definition GSIArrayCount :: "'a GSIArray \<Rightarrow> nat" where
  "GSIArrayCount a = acount a"

text \<open>\<^verbatim>\<open>sizeof(GSIArray)\<close> is the size of the pointer type.\<close>

definition GSIArraySize :: "'a GSIArray \<Rightarrow> nat" where
  "GSIArraySize a = uadd 8 (umul (cap a) SIZEOF_ITEM)"

text \<open>The first growth of a statically initialised array, whose \<open>old\<close> is 0.\<close>

definition leave_static :: "'a GSIArray \<Rightarrow> 'a GSIArray" where
  "leave_static a =
     (let a1 = a\<lparr>old := cap a div 2\<rparr> in if old a1 < 1 then a1\<lparr>old := 1, cap := 1\<rparr> else a1)"

definition GSIArrayGrow :: "(nat \<Rightarrow> bool) \<Rightarrow> 'a GSIArray \<Rightarrow> 'a outcome" where
  "GSIArrayGrow alloc a =
     (if old a = 0
      then let a2 = leave_static a;
               next = u32 (cap a2 + old a2);
               size = u32 (next * SIZEOF_ITEM)
           in if alloc size
              then (None, a2\<lparr>ptr := copy_cells (malloc_cells size) 0 (ptr a2) 0 (acount a2),
                            old := cap a2, cap := next\<rparr>)
              else (Some (if acount a2 > 0 then CopyToNull else NSMallocException), a2)
      else let next = u32 (cap a + old a);
               size = u32 (next * SIZEOF_ITEM)
           in if alloc size
              then (None, a\<lparr>ptr := realloc_cells (ptr a) size, old := cap a, cap := next\<rparr>)
              else (Some NSMallocException, a))"

definition GSIArrayGrowTo :: "(nat \<Rightarrow> bool) \<Rightarrow> 'a GSIArray \<Rightarrow> nat \<Rightarrow> 'a outcome" where
  "GSIArrayGrowTo alloc a next =
     (if next < acount a then (Some NSInvalidArgumentException, a)
      else let size = u32 (next * SIZEOF_ITEM);
               tmp = (if old a = 0 then copy_cells (malloc_cells size) 0 (ptr a) 0 (acount a)
                      else realloc_cells (ptr a) size)
           in if alloc size
              then (None, a\<lparr>ptr := tmp, old := (if cap a > 0 then cap a else 1), cap := next\<rparr>)
              else (Some (if old a = 0 \<and> acount a > 0 then CopyToNull else NSMallocException), a))"

definition retain_item :: "'a \<Rightarrow> 'a GSIArray \<Rightarrow> 'a GSIArray" where
  "retain_item x a = a\<lparr>retained := retained a @ [x]\<rparr>"

definition release_cell :: "'a option \<Rightarrow> 'a GSIArray \<Rightarrow> 'a GSIArray" where
  "release_cell c a = a\<lparr>released := released a @ [the c]\<rparr>"

text \<open>\<^verbatim>\<open>count - index\<close> in unsigned arithmetic.\<close>

definition GSIArrayInsertItemNoRetain ::
  "(nat \<Rightarrow> bool) \<Rightarrow> 'a GSIArray \<Rightarrow> 'a \<Rightarrow> nat \<Rightarrow> 'a outcome" where
  "GSIArrayInsertItemNoRetain alloc a0 item index =
     (case (if acount a0 = cap a0 then GSIArrayGrow alloc a0 else (None, a0)) of
        (Some e, a) \<Rightarrow> (Some e, a)
      | (None, a) \<Rightarrow>
          let i = u32 (acount a + 2 ^ 32 - index);
              p = (if GSI_ARRAY_MEMMOVE \<le> i
                   then (if index < acount a then copy_cells (ptr a) (index + 1) (ptr a) index i else ptr a)
                   else shift_right (ptr a) index (acount a))
          in (None, a\<lparr>ptr := p[index := Some item], acount := acount a + 1\<rparr>))"

definition GSIArrayInsertItem ::
  "(nat \<Rightarrow> bool) \<Rightarrow> 'a GSIArray \<Rightarrow> 'a \<Rightarrow> nat \<Rightarrow> 'a outcome" where
  "GSIArrayInsertItem alloc a item index =
     GSIArrayInsertItemNoRetain alloc (retain_item item a) item index"

definition GSIArrayAddItemNoRetain :: "(nat \<Rightarrow> bool) \<Rightarrow> 'a GSIArray \<Rightarrow> 'a \<Rightarrow> 'a outcome" where
  "GSIArrayAddItemNoRetain alloc a0 item =
     (case (if acount a0 = cap a0 then GSIArrayGrow alloc a0 else (None, a0)) of
        (Some e, a) \<Rightarrow> (Some e, a)
      | (None, a) \<Rightarrow> (None, a\<lparr>ptr := (ptr a)[acount a := Some item], acount := acount a + 1\<rparr>))"

definition GSIArrayAddItem :: "(nat \<Rightarrow> bool) \<Rightarrow> 'a GSIArray \<Rightarrow> 'a \<Rightarrow> 'a outcome" where
  "GSIArrayAddItem alloc a item = GSIArrayAddItemNoRetain alloc (retain_item item a) item"

partial_function (option) array_search_loop ::
  "'a comparison \<Rightarrow> 'a \<Rightarrow> 'a option list \<Rightarrow> nat \<Rightarrow> nat \<Rightarrow> nat \<Rightarrow> nat option" where
  "array_search_loop sorter elem p lower upper index =
     (if upper \<noteq> lower
      then (case sorter elem (the (p ! index)) of
              NSOrderedAscending \<Rightarrow> array_search_loop sorter elem p lower index (u32 (index + lower) div 2)
            | NSOrderedDescending \<Rightarrow>
                array_search_loop sorter elem p (index + 1) upper (u32 (upper + (index + 1)) div 2)
            | NSOrderedSame \<Rightarrow> Some index)
      else Some index)"

definition GSIArraySearch :: "'a GSIArray \<Rightarrow> 'a \<Rightarrow> 'a comparison \<Rightarrow> nat option" where
  "GSIArraySearch a elem sorter = array_search_loop sorter elem (ptr a) 0 (acount a) (acount a div 2)"

fun back_over_same :: "'a comparison \<Rightarrow> 'a \<Rightarrow> 'a option list \<Rightarrow> nat \<Rightarrow> nat" where
  "back_over_same sorter elem p 0 = 0"
| "back_over_same sorter elem p (Suc start) =
     (if sorter elem (the (p ! start)) = NSOrderedSame then back_over_same sorter elem p start
      else Suc start)"

function skip_not_after :: "'a comparison \<Rightarrow> 'a \<Rightarrow> 'a option list \<Rightarrow> nat \<Rightarrow> nat \<Rightarrow> nat" where
  "skip_not_after sorter elem p n index =
     (if index < n \<and> sorter elem (the (p ! index)) \<noteq> NSOrderedAscending
      then skip_not_after sorter elem p n (index + 1) else index)"
  by pat_completeness auto
termination
  by (relation "measure (\<lambda>(s, e, p, n, i). n - i)") auto

declare skip_not_after.simps [simp del]

text \<open>The answer with the count that is stored through the pointer.\<close>

definition GSIArraySearchCount :: "'a GSIArray \<Rightarrow> 'a \<Rightarrow> 'a comparison \<Rightarrow> (nat \<times> nat) option" where
  "GSIArraySearchCount a elem sorter =
     map_option (\<lambda>s. let start = back_over_same sorter elem (ptr a) s;
                         end' = skip_not_after sorter elem (ptr a) (acount a) s
                     in (start, end' - start))
       (GSIArraySearch a elem sorter)"

definition GSIArrayInsertionPosition :: "'a GSIArray \<Rightarrow> 'a \<Rightarrow> 'a comparison \<Rightarrow> nat option" where
  "GSIArrayInsertionPosition a item sorter =
     map_option (skip_not_after sorter item (ptr a) (acount a)) (GSIArraySearch a item sorter)"

definition GSIArrayInsertSorted ::
  "(nat \<Rightarrow> bool) \<Rightarrow> 'a GSIArray \<Rightarrow> 'a \<Rightarrow> 'a comparison \<Rightarrow> 'a outcome option" where
  "GSIArrayInsertSorted alloc a item sorter =
     map_option (GSIArrayInsertItem alloc a item) (GSIArrayInsertionPosition a item sorter)"

definition GSIArrayInsertSortedNoRetain ::
  "(nat \<Rightarrow> bool) \<Rightarrow> 'a GSIArray \<Rightarrow> 'a \<Rightarrow> 'a comparison \<Rightarrow> 'a outcome option" where
  "GSIArrayInsertSortedNoRetain alloc a item sorter =
     map_option (GSIArrayInsertItemNoRetain alloc a item) (GSIArrayInsertionPosition a item sorter)"

text \<open>\<^verbatim>\<open>while (++index < count) ptr[index-1] = ptr[index];\<close>\<close>

function shift_left :: "'a list \<Rightarrow> nat \<Rightarrow> nat \<Rightarrow> 'a list" where
  "shift_left p index n =
     (if index + 1 < n then shift_left (p[index := p ! (index + 1)]) (index + 1) n else p)"
  by pat_completeness auto
termination
  by (relation "measure (\<lambda>(p, i, n). n - i)") auto

declare shift_left.simps [simp del]

definition GSIArrayRemoveItemAtIndexNoRelease :: "'a GSIArray \<Rightarrow> nat \<Rightarrow> 'a GSIArray" where
  "GSIArrayRemoveItemAtIndexNoRelease a index =
     (let remainder = u32 (acount a + 2 ^ 32 - index - 1);
          p = (if GSI_ARRAY_MEMMOVE \<le> remainder then copy_cells (ptr a) index (ptr a) (index + 1) remainder
               else shift_left (ptr a) index (acount a))
      in a\<lparr>ptr := p, acount := u32 (acount a + 2 ^ 32 - 1)\<rparr>)"

definition GSIArrayRemoveItemAtIndex :: "'a GSIArray \<Rightarrow> nat \<Rightarrow> 'a GSIArray" where
  "GSIArrayRemoveItemAtIndex a index =
     (let tmp = ptr a ! index in release_cell tmp (GSIArrayRemoveItemAtIndexNoRelease a index))"

definition GSIArrayRemoveLastItemNoRelease :: "'a GSIArray \<Rightarrow> 'a GSIArray" where
  "GSIArrayRemoveLastItemNoRelease a = (if acount a > 0 then a\<lparr>acount := acount a - 1\<rparr> else a)"

definition GSIArrayRemoveLastItem :: "'a GSIArray \<Rightarrow> 'a GSIArray" where
  "GSIArrayRemoveLastItem a =
     (if acount a > 0 then let a1 = a\<lparr>acount := acount a - 1\<rparr> in release_cell (ptr a1 ! acount a1) a1 else a)"

definition GSIArraySetItemAtIndex :: "'a GSIArray \<Rightarrow> 'a \<Rightarrow> nat \<Rightarrow> 'a GSIArray" where
  "GSIArraySetItemAtIndex a item index =
     (let tmp = ptr a ! index; a1 = retain_item item a
      in release_cell tmp (a1\<lparr>ptr := (ptr a1)[index := Some item]\<rparr>))"

definition GSIArrayItemAtIndex :: "'a GSIArray \<Rightarrow> nat \<Rightarrow> 'a" where
  "GSIArrayItemAtIndex a index = the (ptr a ! index)"

definition GSIArrayLastItem :: "'a GSIArray \<Rightarrow> 'a" where
  "GSIArrayLastItem a = the (ptr a ! (acount a - 1))"

text \<open>The memory of a statically initialised array is not freed; in either case it is let go.\<close>

definition GSIArrayClear :: "'a GSIArray \<Rightarrow> 'a GSIArray" where
  "GSIArrayClear a = (if ptr a \<noteq> [] then a\<lparr>ptr := [], cap := 0\<rparr> else a)"

fun move_down_loop :: "'a list \<Rightarrow> nat \<Rightarrow> nat \<Rightarrow> nat \<Rightarrow> nat \<Rightarrow> 'a list" where
  "move_down_loop p from to index 0 = p"
| "move_down_loop p from to index (Suc n) =
     move_down_loop (p[from + index := p ! (to + index)]) from to (index + 1) n"

definition GSIArrayRemoveItemsNoRelease :: "'a GSIArray \<Rightarrow> nat \<Rightarrow> nat \<Rightarrow> 'a GSIArray" where
  "GSIArrayRemoveItemsNoRelease a index n =
     (if index < acount a
      then let n' = (if acount a - index < n then acount a - index else n);
               removeTo = index + n';
               remainder = acount a - removeTo;
               p = (if GSI_ARRAY_MEMMOVE \<le> remainder then copy_cells (ptr a) index (ptr a) removeTo remainder
                    else move_down_loop (ptr a) index removeTo 0 remainder)
           in a\<lparr>acount := acount a - n', ptr := p\<rparr>
      else a)"

definition GSIArrayRemoveItems :: "'a GSIArray \<Rightarrow> nat \<Rightarrow> nat \<Rightarrow> 'a GSIArray" where
  "GSIArrayRemoveItems a index n =
     (if index < acount a
      then let n' = (if acount a - index < n then acount a - index else n)
           in GSIArrayRemoveItemsNoRelease
                (fold release_cell (map (\<lambda>i. ptr a ! i) [index ..< index + n']) a) index n
      else a)"

definition GSIArrayRemoveItemsFromIndex :: "'a GSIArray \<Rightarrow> nat \<Rightarrow> 'a GSIArray" where
  "GSIArrayRemoveItemsFromIndex a index = GSIArrayRemoveItems a index (acount a)"

definition GSIArrayRemoveItemsFromIndexNoRelease :: "'a GSIArray \<Rightarrow> nat \<Rightarrow> 'a GSIArray" where
  "GSIArrayRemoveItemsFromIndexNoRelease a index = GSIArrayRemoveItemsNoRelease a index (acount a)"

definition GSIArrayRemoveAllItems :: "'a GSIArray \<Rightarrow> 'a GSIArray" where
  "GSIArrayRemoveAllItems a = GSIArrayRemoveItemsFromIndex a 0"

definition GSIArrayRemoveAllItemsNoRelease :: "'a GSIArray \<Rightarrow> 'a GSIArray" where
  "GSIArrayRemoveAllItemsNoRelease a = GSIArrayRemoveItemsFromIndexNoRelease a 0"

fun trim_end :: "('a \<Rightarrow> bool) \<Rightarrow> 'a option list \<Rightarrow> nat \<Rightarrow> nat" where
  "trim_end checker p 0 = 0"
| "trim_end checker p (Suc index) =
     (if checker (the (p ! index)) then trim_end checker p index else Suc index)"

function trim_start :: "('a \<Rightarrow> bool) \<Rightarrow> 'a option list \<Rightarrow> nat \<Rightarrow> nat \<Rightarrow> nat" where
  "trim_start checker p n index =
     (if index < n \<and> checker (the (p ! index)) then trim_start checker p n (index + 1) else index)"
  by pat_completeness auto
termination
  by (relation "measure (\<lambda>(c, p, n, i). n - i)") auto

declare trim_start.simps [simp del]

definition GSIArrayTrim :: "'a GSIArray \<Rightarrow> ('a \<Rightarrow> bool) \<Rightarrow> 'a GSIArray" where
  "GSIArrayTrim a checker =
     (let e = trim_end checker (ptr a) (acount a);
          a1 = (if e \<noteq> acount a then GSIArrayRemoveItems a e (acount a - e) else a);
          s = trim_start checker (ptr a1) (acount a1) 0
      in if s > 0 then GSIArrayRemoveItems a1 0 s else a1)"

definition GSIArrayEmpty :: "'a GSIArray \<Rightarrow> 'a GSIArray" where
  "GSIArrayEmpty a = GSIArrayClear (GSIArrayRemoveAllItems a)"

definition GSIArrayInitWithZoneAndCapacity :: "nat \<Rightarrow> 'a GSIArray" where
  "GSIArrayInitWithZoneAndCapacity capacity0 =
     (let capacity = (if capacity0 < 2 then 2 else capacity0);
          size = u32 (capacity * SIZEOF_ITEM)
      in \<lparr>ptr = malloc_cells size, acount = 0, cap = u32 capacity, old = u32 (capacity div 2),
          retained = [], released = []\<rparr>)"

definition GSIArrayInitWithZoneAndStaticCapacity :: "nat \<Rightarrow> 'a option list \<Rightarrow> 'a GSIArray" where
  "GSIArrayInitWithZoneAndStaticCapacity capacity buffer =
     \<lparr>ptr = buffer, acount = 0, cap = u32 capacity, old = 0, retained = [], released = []\<rparr>"

fun copy_items :: "'a option list \<Rightarrow> 'a GSIArray \<Rightarrow> 'a GSIArray" where
  "copy_items [] new = new"
| "copy_items (c # cs) new =
     copy_items cs ((retain_item (the c) new)\<lparr>ptr := (ptr new)[acount new := c], acount := acount new + 1\<rparr>)"

definition GSIArrayCopyWithZone :: "'a GSIArray \<Rightarrow> 'a GSIArray" where
  "GSIArrayCopyWithZone a =
     copy_items (take (acount a) (ptr a)) (GSIArrayInitWithZoneAndCapacity (acount a))"

section \<open>What an array holds\<close>

text \<open>
  The array holds the items \<open>xs\<close>: they fill the first cells, and the allocated memory has as
  many cells as \<open>cap\<close> says. Below \<open>2 ^ 29\<close> items the size in bytes fits the 32 bits the code
  computes it in.
\<close>

definition array_holds :: "'a GSIArray \<Rightarrow> 'a list \<Rightarrow> bool" where
  "array_holds a xs \<longleftrightarrow>
     (\<exists>rest. ptr a = map Some xs @ rest) \<and> acount a = length xs \<and> cap a = length (ptr a) \<and> cap a < 2 ^ 29"

lemma array_holdsE:
  assumes "array_holds a xs"
  obtains rest where "ptr a = map Some xs @ rest" "acount a = length xs" "cap a = length xs + length rest"
    "length xs + length rest < 2 ^ 29"
  using assms by (auto simp: array_holds_def)

lemma array_holds_trace [simp]:
  "array_holds (a\<lparr>retained := r\<rparr>) xs = array_holds a xs"
  "array_holds (a\<lparr>released := r\<rparr>) xs = array_holds a xs"
  "array_holds (retain_item x a) xs = array_holds a xs"
  "array_holds (release_cell c a) xs = array_holds a xs"
  by (simp_all add: array_holds_def retain_item_def release_cell_def)

text \<open>The items an array owns are those it retained and has not released.\<close>

definition balanced :: "'a GSIArray \<Rightarrow> 'a list \<Rightarrow> bool" where
  "balanced a xs \<longleftrightarrow> mset (retained a) = mset xs + mset (released a)"

text \<open>The capacity after the next growth.\<close>

definition grown_cap :: "'a GSIArray \<Rightarrow> nat" where
  "grown_cap a = (if old a = 0 then (if cap a < 2 then 2 else cap a + cap a div 2) else cap a + old a)"

definition has_room :: "(nat \<Rightarrow> bool) \<Rightarrow> 'a GSIArray \<Rightarrow> bool" where
  "has_room alloc a \<longleftrightarrow>
     (acount a = cap a \<longrightarrow> grown_cap a < 2 ^ 29 \<and> alloc (grown_cap a * SIZEOF_ITEM))"

lemma retain_item_fields [simp]:
  "acount (retain_item x a) = acount a" "cap (retain_item x a) = cap a" "old (retain_item x a) = old a"
  "ptr (retain_item x a) = ptr a" "released (retain_item x a) = released a"
  "retained (retain_item x a) = retained a @ [x]"
  by (simp_all add: retain_item_def)

lemma has_room_retain [simp]: "has_room alloc (retain_item x a) = has_room alloc a"
  by (simp add: has_room_def grown_cap_def)

lemma GSIArrayGrow_grows:
  assumes "array_holds a xs" "grown_cap a < 2 ^ 29" "alloc (grown_cap a * SIZEOF_ITEM)"
  shows "\<exists>a'. GSIArrayGrow alloc a = (None, a') \<and> array_holds a' xs \<and> cap a < cap a' \<and> cap a' = grown_cap a \<and>
    retained a' = retained a \<and> released a' = released a"
proof -
  obtain rest where p: "ptr a = map Some xs @ rest" "acount a = length xs" "cap a = length xs + length rest"
    using assms(1) by (rule array_holdsE)
  have less: "cap a < grown_cap a" by (simp add: grown_cap_def)
  have fit: "u32 (grown_cap a) = grown_cap a" "u32 (grown_cap a * 8) = grown_cap a * 8"
    using assms(2) by (simp_all add: bounds_simps)
  show ?thesis
  proof (cases "old a = 0")
    case True
    let ?a = "leave_static a"
    have nxt: "cap ?a + old ?a = grown_cap a"
      using True by (auto simp: leave_static_def grown_cap_def Let_def)
    have a2: "ptr ?a = ptr a" "acount ?a = acount a" "retained ?a = retained a" "released ?a = released a"
      by (simp_all add: leave_static_def Let_def)
    have "GSIArrayGrow alloc a =
        (None, ?a\<lparr>ptr := copy_cells (malloc_cells (grown_cap a * 8)) 0 (ptr ?a) 0 (acount ?a),
                  old := cap ?a, cap := grown_cap a\<rparr>)"
      using True assms(3) by (simp add: GSIArrayGrow_def Let_def nxt fit)
    moreover have "copy_cells (malloc_cells (grown_cap a * 8)) 0 (ptr ?a) 0 (acount ?a) =
        map Some xs @ replicate (grown_cap a - length xs) None"
      using p by (simp add: a2 copy_cells_def malloc_cells_def)
    ultimately show ?thesis using p less assms(2) a2 by (simp add: array_holds_def)
  next
    case False
    then have nxt: "cap a + old a = grown_cap a" by (simp add: grown_cap_def)
    have "GSIArrayGrow alloc a =
        (None, a\<lparr>ptr := realloc_cells (ptr a) (grown_cap a * 8), old := cap a, cap := grown_cap a\<rparr>)"
      using False assms(3) by (simp add: GSIArrayGrow_def Let_def nxt fit)
    moreover have "realloc_cells (ptr a) (grown_cap a * 8) =
        map Some xs @ rest @ replicate (grown_cap a - length (ptr a)) None"
      using p less by (simp add: realloc_cells_def)
    ultimately show ?thesis using p less assms(2) by (simp add: array_holds_def)
  qed
qed

lemma grow_if_full:
  assumes h: "array_holds a0 xs" and room: "has_room alloc a0"
  shows "\<exists>a. (if acount a0 = cap a0 then GSIArrayGrow alloc a0 else (None, a0)) = (None, a) \<and>
      array_holds a xs \<and> acount a < cap a \<and> retained a = retained a0 \<and> released a = released a0"
proof (cases "acount a0 = cap a0")
  case True
  then have "acount a0 = length xs" using h by (simp add: array_holds_def)
  with GSIArrayGrow_grows [OF h, of alloc] room True show ?thesis
    by (auto simp: has_room_def array_holds_def)
next
  case False
  then show ?thesis using h by (auto simp: array_holds_def)
qed

section \<open>Moving the cells\<close>

lemma shift_right_place:
  assumes "l \<le> n" "n < length p"
  shows "(shift_right p l n)[l := v] = take l p @ [v] @ take (n - l) (drop l p) @ drop (n + 1) p"
proof -
  have "(shift_right p l n)[l := v] = ((shift_right p l n)[l := p ! n])[l := v]" by simp
  also have "\<dots> = (take l p @ [p ! n] @ take (n - l) (drop l p) @ drop (n + 1) p)[l := v]"
    using shift_right_insert [of l l n p] assms by simp
  also have "\<dots> = take l p @ [v] @ take (n - l) (drop l p) @ drop (n + 1) p"
    using assms by (simp add: list_update_append)
  finally show ?thesis .
qed

lemma move_right_place:
  assumes "l < n" "n < length p"
  shows "(copy_cells p (l + 1) p l (n - l))[l := v] = take l p @ [v] @ take (n - l) (drop l p) @ drop (n + 1) p"
  using assms by (simp add: copy_cells_def list_update_append take_Suc_conv_app_nth)

lemma shift_left_cells:
  "l < n \<Longrightarrow> n \<le> length p \<Longrightarrow> shift_left p l n = copy_cells p l p (l + 1) (n - l - 1)"
proof (induction p l n rule: shift_left.induct)
  case (1 p l n)
  show ?case
  proof (cases "l + 1 < n")
    case True
    let ?p = "p[l := p ! (l + 1)]" and ?r = "take (n - l - 2) (drop (l + 2) p)"
    have "shift_left p l n = copy_cells ?p (l + 1) ?p (l + 2) (n - (l + 1) - 1)"
      using 1 True by (subst shift_left.simps) simp
    also have "\<dots> = take l p @ (p ! (l + 1) # ?r) @ drop (n - 1) p"
      using True 1(3) by (simp add: copy_cells_def take_Suc_conv_app_nth) (simp add: numeral_2_eq_2 Suc_diff_Suc)
    also have "p ! (l + 1) # ?r = take (n - l - 1) (drop (l + 1) p)"
      using True 1(3) by (subst Cons_nth_drop_Suc [of "l + 1" p, symmetric])
        (auto simp: take_Cons' nth_append)
    finally show ?thesis using True by (simp add: copy_cells_def)
  next
    case False
    then show ?thesis using 1(2) by (subst shift_left.simps) (simp add: copy_cells_def)
  qed
qed

lemma move_down_cells:
  "f \<le> t \<Longrightarrow> t + k + n \<le> length p \<Longrightarrow>
     move_down_loop p f t k n = copy_cells p (f + k) p (t + k) n"
proof (induction n arbitrary: p k)
  case (Suc n)
  let ?p = "p[f + k := p ! (t + k)]"
  have "move_down_loop p f t k (Suc n) = copy_cells ?p (f + (k + 1)) ?p (t + (k + 1)) n"
    using Suc by simp
  moreover have "take (Suc (f + k)) ?p = take (f + k) p @ [p ! (t + k)]"
    using Suc.prems by (simp add: take_Suc_conv_app_nth)
  moreover have "p ! (t + k) # take n (drop (Suc (t + k)) p) = take (Suc n) (drop (t + k) p)"
    using Suc.prems by (simp flip: Cons_nth_drop_Suc)
  moreover have "drop (Suc (t + k)) ?p = drop (Suc (t + k)) p" using Suc.prems(1) by simp
  ultimately show ?case by (simp add: copy_cells_def)
qed (simp add: copy_cells_def)

section \<open>The operations on the items\<close>

lemma GSIArrayInsertItemNoRetain_holds:
  assumes h: "array_holds a0 xs" and i: "i \<le> length xs" and room: "has_room alloc a0"
  shows "\<exists>a'. GSIArrayInsertItemNoRetain alloc a0 x i = (None, a') \<and>
    array_holds a' (take i xs @ [x] @ drop i xs) \<and> retained a' = retained a0 \<and> released a' = released a0"
proof -
  note grow_if_full [OF h room]
  then obtain a where a: "(if acount a0 = cap a0 then GSIArrayGrow alloc a0 else (None, a0)) = (None, a)"
      "array_holds a xs" "acount a < cap a" "retained a = retained a0" "released a = released a0" by blast
  obtain rest where p: "ptr a = map Some xs @ rest" "acount a = length xs" "cap a = length xs + length rest"
      "length xs + length rest < 2 ^ 29"
    using a(2) by (rule array_holdsE)
  let ?n = "length xs" and ?w = "u32 (acount a + 2 ^ 32 - i)"
  let ?p = "if GSI_ARRAY_MEMMOVE \<le> ?w
     then (if i < acount a then copy_cells (ptr a) (i + 1) (ptr a) i ?w else ptr a)
     else shift_right (ptr a) i (acount a)"
  have w: "?w = ?n - i" using p(2,4) i by (simp add: u32_def mod_if)
  have n: "?n < length (ptr a)" using a(3) p by simp
  have "?p[i := Some x] = take i (ptr a) @ [Some x] @ take (?n - i) (drop i (ptr a)) @ drop (?n + 1) (ptr a)"
    unfolding w unfolding p(2) using shift_right_place [OF i n] move_right_place [OF _ n, of i] i by simp
  also have "\<dots> = map Some (take i xs @ [x] @ drop i xs) @ drop (?n + 1) (ptr a)"
    using i by (simp add: p(1) take_map drop_map)
  finally have cells: "?p[i := Some x] = map Some (take i xs @ [x] @ drop i xs) @ drop (?n + 1) (ptr a)" .
  have "array_holds (a\<lparr>ptr := ?p[i := Some x], acount := acount a + 1\<rparr>) (take i xs @ [x] @ drop i xs)"
    unfolding cells using a(2,3) p i by (simp add: array_holds_def)
  moreover have "GSIArrayInsertItemNoRetain alloc a0 x i = (None, a\<lparr>ptr := ?p[i := Some x], acount := acount a + 1\<rparr>)"
    unfolding GSIArrayInsertItemNoRetain_def a(1) Let_def by (simp only: prod.case option.case)
  ultimately show ?thesis
    by (intro exI [of _ "a\<lparr>ptr := ?p[i := Some x], acount := acount a + 1\<rparr>"] conjI) (simp_all only: a(4,5), simp_all add: a)
qed

lemma GSIArrayInsertItem_holds:
  assumes "array_holds a xs" "i \<le> length xs" "has_room alloc a"
  shows "\<exists>a'. GSIArrayInsertItem alloc a x i = (None, a') \<and> array_holds a' (take i xs @ [x] @ drop i xs) \<and>
    retained a' = retained a @ [x] \<and> released a' = released a"
  using GSIArrayInsertItemNoRetain_holds [of "retain_item x a" xs i alloc x] assms
  by (simp add: GSIArrayInsertItem_def)

text \<open>Adding at the end is inserting there.\<close>

lemma GSIArrayAddItem_insert:
  assumes "array_holds a xs" "has_room alloc a"
  shows "GSIArrayAddItem alloc a x = GSIArrayInsertItem alloc a x (length xs)"
proof -
  let ?a = "retain_item x a"
  obtain b where b: "(if acount ?a = cap ?a then GSIArrayGrow alloc ?a else (None, ?a)) = (None, b)"
      "acount b = length xs" "length xs < 2 ^ 29"
    using grow_if_full [of ?a xs alloc] assms by (auto simp: array_holds_def)
  have "shift_right p (length xs) (length xs) = p" for p :: "'a option list" by (cases xs) auto
  then show ?thesis
    using b by (simp add: GSIArrayAddItem_def GSIArrayAddItemNoRetain_def GSIArrayInsertItem_def
        GSIArrayInsertItemNoRetain_def Let_def u32_def)
qed

lemma remove_range_cells:
  assumes "ptr a = map Some xs @ rest" "l + k \<le> length xs"
  shows "copy_cells (ptr a) l (ptr a) (l + k) (length xs - (l + k)) =
    map Some (take l xs @ drop (l + k) xs) @ drop (length xs - k) (ptr a)"
  using assms by (simp add: copy_cells_def take_map drop_map)

lemma GSIArrayRemoveItemAtIndexNoRelease_holds:
  assumes h: "array_holds a xs" and i: "i < length xs"
  shows "array_holds (GSIArrayRemoveItemAtIndexNoRelease a i) (take i xs @ drop (i + 1) xs)"
proof -
  obtain rest where p: "ptr a = map Some xs @ rest" "acount a = length xs" "cap a = length xs + length rest"
      "length xs + length rest < 2 ^ 29"
    using h by (rule array_holdsE)
  have w: "u32 (acount a + 2 ^ 32 - i - 1) = length xs - (i + 1)" "u32 (acount a + 2 ^ 32 - 1) = length xs - 1"
    using p(2,4) i by (cases xs; simp add: u32_def mod_if)+
  have "shift_left (ptr a) i (acount a) = copy_cells (ptr a) i (ptr a) (i + 1) (length xs - (i + 1))"
    using shift_left_cells [of i "length xs" "ptr a"] i p by simp
  then show ?thesis
    using remove_range_cells [OF p(1), of i 1] i p unfolding GSIArrayRemoveItemAtIndexNoRelease_def Let_def w
    by (simp add: array_holds_def)
qed

lemma GSIArrayRemoveItemAtIndexNoRelease_trace [simp]:
  "retained (GSIArrayRemoveItemAtIndexNoRelease a i) = retained a"
  "released (GSIArrayRemoveItemAtIndexNoRelease a i) = released a"
  by (simp_all add: GSIArrayRemoveItemAtIndexNoRelease_def Let_def)

lemma array_cell: "array_holds a xs \<Longrightarrow> i < length xs \<Longrightarrow> ptr a ! i = Some (xs ! i)"
  by (auto simp: array_holds_def nth_append)

lemma GSIArrayRemoveItemsNoRelease_holds:
  assumes h: "array_holds a xs" and i: "i < length xs"
  shows "array_holds (GSIArrayRemoveItemsNoRelease a i n) (take i xs @ drop (i + n) xs)"
proof -
  obtain rest where p: "ptr a = map Some xs @ rest" "acount a = length xs" "cap a = length xs + length rest"
    using h by (rule array_holdsE)
  define k where "k = min n (length xs - i)"
  have k: "(if acount a - i < n then acount a - i else n) = k" using p by (simp add: k_def)
  have ik: "i + k \<le> length xs" using i by (simp add: k_def)
  have drop: "drop (i + n) xs = drop (i + k) xs" by (cases "n \<le> length xs - i") (simp_all add: k_def)
  have "move_down_loop (ptr a) i (i + k) 0 (length xs - (i + k)) =
      copy_cells (ptr a) i (ptr a) (i + k) (length xs - (i + k))"
    using move_down_cells [of i "i + k" 0 "length xs - (i + k)" "ptr a"] p ik by simp
  then show ?thesis
    using remove_range_cells [OF p(1) ik] h i p ik
    unfolding GSIArrayRemoveItemsNoRelease_def Let_def k drop
    by (simp add: array_holds_def)
qed

lemma fold_release:
  "fold release_cell (map Some ys) a = a\<lparr>released := released a @ ys\<rparr>"
  by (induction ys arbitrary: a) (simp_all add: release_cell_def)

lemma map_nth_range: "i + k \<le> length xs \<Longrightarrow> map (\<lambda>j. xs ! j) [i ..< i + k] = take k (drop i xs)"
  by (rule nth_equalityI) auto

lemma GSIArrayRemoveItems_holds:
  assumes h: "array_holds a xs"
  shows "array_holds (GSIArrayRemoveItems a i n) (take i xs @ drop (i + n) xs) \<and>
    retained (GSIArrayRemoveItems a i n) = retained a \<and>
    released (GSIArrayRemoveItems a i n) = released a @ take n (drop i xs)"
proof (cases "i < length xs")
  case False
  then show ?thesis using h by (simp add: GSIArrayRemoveItems_def array_holds_def)
next
  case True
  obtain rest where p: "ptr a = map Some xs @ rest" "acount a = length xs"
    using h by (rule array_holdsE)
  define k where "k = min n (length xs - i)"
  have k: "(if acount a - i < n then acount a - i else n) = k" using p by (simp add: k_def)
  have "map (\<lambda>j. ptr a ! j) [i ..< i + k] = map Some (map (\<lambda>j. xs ! j) [i ..< i + k])"
    using p by (auto simp: nth_append k_def)
  also have "map (\<lambda>j. xs ! j) [i ..< i + k] = take k (drop i xs)"
    by (rule map_nth_range) (use True in \<open>simp add: k_def\<close>)
  also have "take k (drop i xs) = take n (drop i xs)"
    by (cases "n \<le> length xs - i") (simp_all add: k_def)
  finally have f: "fold release_cell (map (\<lambda>j. ptr a ! j) [i ..< i + k]) a =
      a\<lparr>released := released a @ take n (drop i xs)\<rparr>" by (simp add: fold_release)
  have "GSIArrayRemoveItems a i n =
      GSIArrayRemoveItemsNoRelease (a\<lparr>released := released a @ take n (drop i xs)\<rparr>) i n"
    using True p unfolding GSIArrayRemoveItems_def k Let_def f by simp
  then show ?thesis
    using GSIArrayRemoveItemsNoRelease_holds [of "a\<lparr>released := released a @ take n (drop i xs)\<rparr>" xs i n] h True
    by (simp add: GSIArrayRemoveItemsNoRelease_def Let_def)
qed

lemma trim_end_dropWhile:
  "n \<le> length xs \<Longrightarrow>
     take (trim_end c (map Some xs @ rest) n) xs = rev (dropWhile c (rev (take n xs))) \<and>
     trim_end c (map Some xs @ rest) n \<le> n"
  by (induction n) (auto simp: nth_append take_Suc_conv_app_nth)

lemma trim_start_dropWhile:
  "i \<le> length xs \<Longrightarrow>
     drop (trim_start c (map Some xs @ rest) (length xs) i) xs = dropWhile c (drop i xs) \<and>
     trim_start c (map Some xs @ rest) (length xs) i \<le> length xs"
proof (induction "length xs - i" arbitrary: i)
  case 0
  then show ?case by (subst (1 2) trim_start.simps) simp
next
  case (Suc n)
  have "drop i xs = xs ! i # drop (Suc i) xs" using Suc(2) by (simp add: Cons_nth_drop_Suc)
  moreover have "i < length xs" "(map Some xs @ rest) ! i = Some (xs ! i)"
    using Suc(2) by (auto simp: nth_append)
  ultimately show ?case using Suc.hyps(1) [of "Suc i"] Suc(2)
    by (subst (1 2) trim_start.simps) auto
qed

text \<open>\<^verbatim>\<open>GSIArrayTrim\<close> drops the matching items at both ends and releases them.\<close>

lemma GSIArrayTrim_holds:
  assumes h: "array_holds a xs"
  shows "\<exists>l t. xs = l @ dropWhile c (rev (dropWhile c (rev xs))) @ t \<and>
    array_holds (GSIArrayTrim a c) (dropWhile c (rev (dropWhile c (rev xs)))) \<and>
    retained (GSIArrayTrim a c) = retained a \<and> released (GSIArrayTrim a c) = released a @ t @ l"
proof -
  obtain rest where p: "ptr a = map Some xs @ rest" "acount a = length xs"
    using h by (rule array_holdsE)
  define e where "e = trim_end c (ptr a) (acount a)"
  define ys where "ys = rev (dropWhile c (rev xs))"
  have e: "take e xs = ys" "e \<le> length xs"
    using trim_end_dropWhile [of "length xs" xs c rest] p by (simp_all add: e_def ys_def)
  define a1 where "a1 = (if e \<noteq> acount a then GSIArrayRemoveItems a e (acount a - e) else a)"
  have a1: "array_holds a1 ys" "retained a1 = retained a" "released a1 = released a @ drop e xs"
    using GSIArrayRemoveItems_holds [OF h, of e "length xs - e"] h e p(2) by (auto simp: a1_def)
  obtain rest1 where p1: "ptr a1 = map Some ys @ rest1" "acount a1 = length ys"
    using a1(1) by (rule array_holdsE)
  define s where "s = trim_start c (ptr a1) (acount a1) 0"
  have s: "drop s ys = dropWhile c ys" "s \<le> length ys"
    using trim_start_dropWhile [of 0 ys c rest1] p1 by (simp_all add: s_def)
  have trim: "GSIArrayTrim a c = (if s > 0 then GSIArrayRemoveItems a1 0 s else a1)"
    by (simp add: GSIArrayTrim_def Let_def e_def [symmetric] a1_def [symmetric] s_def [symmetric])
  have "array_holds (GSIArrayTrim a c) (drop s ys) \<and> retained (GSIArrayTrim a c) = retained a \<and>
      released (GSIArrayTrim a c) = released a @ drop e xs @ take s ys"
    using GSIArrayRemoveItems_holds [OF a1(1), of 0 s] a1 unfolding trim by auto
  moreover have "xs = take s ys @ drop s ys @ drop e xs" by (metis append_assoc append_take_drop_id e(1))
  ultimately show ?thesis unfolding s(1) unfolding ys_def by blast
qed

lemma GSIArraySetItemAtIndex_holds:
  assumes "array_holds a xs" "i < length xs"
  shows "array_holds (GSIArraySetItemAtIndex a x i) (xs[i := x]) \<and>
    retained (GSIArraySetItemAtIndex a x i) = retained a @ [x] \<and>
    released (GSIArraySetItemAtIndex a x i) = released a @ [xs ! i]"
  using assms array_cell [OF assms]
  by (auto simp: GSIArraySetItemAtIndex_def Let_def array_holds_def release_cell_def list_update_append map_update)

lemma GSIArrayRemoveLastItem_holds:
  assumes "array_holds a xs" "xs \<noteq> []"
  shows "array_holds (GSIArrayRemoveLastItem a) (butlast xs) \<and>
    retained (GSIArrayRemoveLastItem a) = retained a \<and>
    released (GSIArrayRemoveLastItem a) = released a @ [last xs]"
proof -
  obtain ys y where xs: "xs = ys @ [y]" using assms(2) by (cases xs rule: rev_cases) auto
  with assms(1) show ?thesis
    by (auto simp: GSIArrayRemoveLastItem_def Let_def array_holds_def release_cell_def nth_append)
qed

lemma GSIArrayItemAtIndex_holds: "array_holds a xs \<Longrightarrow> i < length xs \<Longrightarrow> GSIArrayItemAtIndex a i = xs ! i"
  by (simp add: GSIArrayItemAtIndex_def array_cell)

lemma GSIArrayLastItem_holds: "array_holds a xs \<Longrightarrow> xs \<noteq> [] \<Longrightarrow> GSIArrayLastItem a = last xs"
  using array_cell [of a xs "length xs - 1"]
  by (simp add: GSIArrayLastItem_def last_conv_nth) (auto simp: array_holds_def)

lemma GSIArrayRemoveItemAtIndex_holds:
  assumes "array_holds a xs" "i < length xs"
  shows "array_holds (GSIArrayRemoveItemAtIndex a i) (take i xs @ drop (i + 1) xs) \<and>
    retained (GSIArrayRemoveItemAtIndex a i) = retained a \<and>
    released (GSIArrayRemoveItemAtIndex a i) = released a @ [xs ! i]"
  using GSIArrayRemoveItemAtIndexNoRelease_holds [OF assms] array_cell [OF assms]
  by (simp add: GSIArrayRemoveItemAtIndex_def Let_def) (simp add: release_cell_def)

lemma copy_items_holds:
  "array_holds b ys \<Longrightarrow> length ys + length xs \<le> cap b \<Longrightarrow>
     array_holds (copy_items (map Some xs) b) (ys @ xs) \<and>
     retained (copy_items (map Some xs) b) = retained b @ xs \<and>
     released (copy_items (map Some xs) b) = released b"
proof (induction xs arbitrary: b ys)
  case (Cons x xs)
  let ?b = "(retain_item x b)\<lparr>ptr := (ptr b)[acount b := Some x], acount := acount b + 1\<rparr>"
  obtain rest where p: "ptr b = map Some ys @ rest" "acount b = length ys" "cap b = length ys + length rest"
      "length ys + length rest < 2 ^ 29"
    using Cons.prems(1) by (rule array_holdsE)
  obtain r rest' where "rest = r # rest'" using Cons.prems(2) p by (cases rest) auto
  then have "array_holds ?b (ys @ [x])" using p by (simp add: array_holds_def list_update_append)
  then show ?case using Cons.IH [of ?b "ys @ [x]"] Cons.prems(2) by simp
qed simp

lemma GSIArrayCopyWithZone_holds:
  assumes "array_holds a xs"
  shows "array_holds (GSIArrayCopyWithZone a) xs \<and> retained (GSIArrayCopyWithZone a) = xs \<and>
    released (GSIArrayCopyWithZone a) = []"
proof -
  let ?b = "GSIArrayInitWithZoneAndCapacity (acount a) :: 'a GSIArray"
  have len: "acount a = length xs" "length xs < 2 ^ 29" "take (acount a) (ptr a) = map Some xs"
    using assms by (auto simp: array_holds_def)
  then have "array_holds ?b []" "length xs \<le> cap ?b"
    by (simp_all add: array_holds_def GSIArrayInitWithZoneAndCapacity_def Let_def malloc_cells_def bounds_simps)
  from copy_items_holds [OF this(1), of xs] this(2) len show ?thesis
    by (simp add: GSIArrayCopyWithZone_def) (simp add: GSIArrayInitWithZoneAndCapacity_def Let_def)
qed

section \<open>Searching a sorted array\<close>

context comparator_laws
begin

text \<open>The two edges of the items that compare as the same as \<open>x\<close>.\<close>

abbreviation "not_last x xs \<equiv> takeWhile (\<lambda>y. cmp x y \<noteq> NSOrderedAscending) xs"
abbreviation "strictly_before x xs \<equiv> takeWhile (\<lambda>y. cmp x y = NSOrderedDescending) xs"

lemma edges:
  assumes "ordered_by cmp xs" "\<forall>y \<in> set xs. ok y" "ok x" "i < length xs"
  shows "cmp x (xs ! i) = NSOrderedAscending \<longleftrightarrow> length (not_last x xs) \<le> i"
    and "cmp x (xs ! i) = NSOrderedDescending \<longleftrightarrow> i < length (strictly_before x xs)"
proof -
  have ok: "ok (xs ! j)" if "j < length xs" for j using assms(2) that by simp
  have later: "not_after cmp (xs ! j) (xs ! k)" if "j < k" "k < length xs" for j k
    using ordered_by_nth [OF assms(1) that] .
  show "cmp x (xs ! i) = NSOrderedAscending \<longleftrightarrow> length (not_last x xs) \<le> i"
  proof
    assume a: "cmp x (xs ! i) = NSOrderedAscending"
    show "length (not_last x xs) \<le> i"
    proof (rule ccontr)
      assume "\<not> length (not_last x xs) \<le> i"
      with takeWhile_prefix [of i "\<lambda>y. cmp x y \<noteq> NSOrderedAscending" xs] a show False by simp
    qed
  next
    assume le: "length (not_last x xs) \<le> i"
    let ?k = "length (not_last x xs)"
    have k: "?k < length xs" using le assms(4) by simp
    have at: "cmp x (xs ! ?k) = NSOrderedAscending" using nth_length_takeWhile [of _ xs, OF k] by simp
    show "cmp x (xs ! i) = NSOrderedAscending"
    proof (cases "?k = i")
      case False
      then show ?thesis using before_trans [OF assms(3) ok [OF k] ok [OF assms(4)] at later] le assms(4) by simp
    qed (use at in simp)
  qed
  show "cmp x (xs ! i) = NSOrderedDescending \<longleftrightarrow> i < length (strictly_before x xs)"
  proof
    assume "i < length (strictly_before x xs)"
    from takeWhile_prefix [OF this] show "cmp x (xs ! i) = NSOrderedDescending" .
  next
    assume d: "cmp x (xs ! i) = NSOrderedDescending"
    show "i < length (strictly_before x xs)"
    proof (rule ccontr)
      let ?k = "length (strictly_before x xs)"
      assume "\<not> i < ?k"
      then have le: "?k \<le> i" "?k < length xs" using assms(4) by simp_all
      have at: "cmp x (xs ! ?k) \<noteq> NSOrderedDescending" using nth_length_takeWhile [of _ xs, OF le(2)] by simp
      then have "?k < i" using le(1) d by (cases "?k = i") auto
      from cmp_trans [OF assms(3) ok [OF le(2)] ok [OF assms(4)] _ later [OF this assms(4)]] at d
      show False by (simp add: not_after_def)
    qed
  qed
qed

lemma edges_le: "length (strictly_before x xs) \<le> length (not_last x xs)"
  by (induction xs) auto

lemma array_search_loop_finds:
  assumes s: "ordered_by cmp xs" "\<forall>y \<in> set xs. ok y" "ok x" "length xs < 2 ^ 29"
    and "lo \<le> length (not_last x xs)" "length (strictly_before x xs) \<le> up" "lo \<le> up" "up \<le> length xs"
    and "lo \<le> length (strictly_before x xs)" "length (not_last x xs) \<le> up"
  shows "\<exists>i. array_search_loop cmp x (map Some xs @ rest) lo up ((lo + up) div 2) = Some i \<and>
    length (strictly_before x xs) \<le> i \<and> i \<le> length (not_last x xs)"
  using assms(5-)
proof (induction "up - lo" arbitrary: lo up rule: less_induct)
  case less
  let ?m = "(lo + up) div 2"
  show ?case
  proof (cases "up = lo")
    case True
    then show ?thesis using less.prems edges_le [of x xs]
      by (subst array_search_loop.simps) (auto intro: le_trans)
  next
    case False
    then have m: "lo \<le> ?m" "?m < up" "?m < length xs" using less.prems by auto
    have at: "the ((map Some xs @ rest) ! ?m) = xs ! ?m" using m(3) by (simp add: nth_append)
    note e = edges [OF s(1-3) m(3)]
    show ?thesis
    proof (cases "cmp x (xs ! ?m)")
      case NSOrderedAscending
      then have b: "length (not_last x xs) \<le> ?m" using e by simp
      have "u32 (?m + lo) div 2 = (lo + ?m) div 2" using m less.prems s(4) by (simp add: u32_def add.commute)
      moreover have "\<exists>i. array_search_loop cmp x (map Some xs @ rest) lo ?m ((lo + ?m) div 2) = Some i \<and>
          length (strictly_before x xs) \<le> i \<and> i \<le> length (not_last x xs)"
        by (rule less.hyps) (use m b less.prems edges_le [of x xs] in auto)
      ultimately show ?thesis using NSOrderedAscending False at
        by (subst array_search_loop.simps) simp
    next
      case NSOrderedDescending
      then have b: "?m < length (strictly_before x xs)" using e by simp
      have "u32 (up + (?m + 1)) div 2 = (?m + 1 + up) div 2"
        using m less.prems s(4) by (simp add: u32_def add.commute)
      moreover have "\<exists>i. array_search_loop cmp x (map Some xs @ rest) (?m + 1) up ((?m + 1 + up) div 2) = Some i \<and>
          length (strictly_before x xs) \<le> i \<and> i \<le> length (not_last x xs)"
        by (rule less.hyps) (use m b less.prems edges_le [of x xs] in auto)
      ultimately show ?thesis using NSOrderedDescending False at
        by (subst array_search_loop.simps) simp
    next
      case NSOrderedSame
      then show ?thesis using False at e by (subst array_search_loop.simps) auto
    qed
  qed
qed

lemma GSIArraySearch_finds:
  assumes "array_holds a xs" "ordered_by cmp xs" "\<forall>y \<in> set xs. ok y" "ok x"
  shows "\<exists>i. GSIArraySearch a x cmp = Some i \<and>
    length (strictly_before x xs) \<le> i \<and> i \<le> length (not_last x xs)"
proof -
  obtain rest where p: "ptr a = map Some xs @ rest" "acount a = length xs" "length xs < 2 ^ 29"
    using assms(1) by (rule array_holdsE) auto
  have "length (not_last x xs) \<le> length xs" "length (strictly_before x xs) \<le> length xs"
    by (rule length_takeWhile_le)+
  with array_search_loop_finds [OF assms(2-4) p(3), of 0 "length xs" rest] show ?thesis
    by (simp add: GSIArraySearch_def p)
qed

lemma skip_not_after_edge:
  assumes "ordered_by cmp xs" "\<forall>y \<in> set xs. ok y" "ok x" "i \<le> length (not_last x xs)"
  shows "skip_not_after cmp x (map Some xs @ rest) (length xs) i = length (not_last x xs)"
  using assms(4)
proof (induction "length xs - i" arbitrary: i)
  case 0
  then have "length (not_last x xs) = i"
    using length_takeWhile_le [of "\<lambda>y. cmp x y \<noteq> NSOrderedAscending" xs] by linarith
  then show ?case using 0 by (subst skip_not_after.simps) simp
next
  case (Suc n)
  then have i: "i < length xs" by linarith
  then have "the ((map Some xs @ rest) ! i) = xs ! i" by (simp add: nth_append)
  with edges(1) [OF assms(1-3) i] Suc i show ?case
    by (subst skip_not_after.simps) (auto simp: not_le Suc_le_eq)
qed

lemma back_over_same_edge:
  assumes "ordered_by cmp xs" "\<forall>y \<in> set xs. ok y" "ok x"
  shows "length (strictly_before x xs) \<le> i \<Longrightarrow> i \<le> length (not_last x xs) \<Longrightarrow>
    back_over_same cmp x (map Some xs @ rest) i = length (strictly_before x xs)"
proof (induction i)
  case (Suc i)
  have i: "i < length xs" using Suc.prems(2) length_takeWhile_le [of "\<lambda>y. cmp x y \<noteq> NSOrderedAscending" xs] by linarith
  then have at: "the ((map Some xs @ rest) ! i) = xs ! i" by (simp add: nth_append)
  show ?case
  proof (cases "length (strictly_before x xs) \<le> i")
    case True
    then have "cmp x (xs ! i) = NSOrderedSame"
      using edges [OF assms i] Suc.prems by (cases "cmp x (xs ! i)") auto
    then show ?thesis using Suc True at by simp
  next
    case False
    then have "length (strictly_before x xs) = Suc i" "cmp x (xs ! i) = NSOrderedDescending"
      using edges(2) [OF assms i] Suc.prems by auto
    then show ?thesis using at by simp
  qed
qed simp

lemma GSIArrayInsertionPosition_edge:
  assumes "array_holds a xs" "ordered_by cmp xs" "\<forall>y \<in> set xs. ok y" "ok x"
  shows "GSIArrayInsertionPosition a x cmp = Some (length (not_last x xs))"
  using GSIArraySearch_finds [OF assms] skip_not_after_edge [OF assms(2-4)] assms(1)
  by (auto simp: GSIArrayInsertionPosition_def elim!: array_holdsE)

lemma GSIArraySearchCount_same:
  assumes "array_holds a xs" "ordered_by cmp xs" "\<forall>y \<in> set xs. ok y" "ok x"
  shows "GSIArraySearchCount a x cmp =
    Some (length (strictly_before x xs), length (not_last x xs) - length (strictly_before x xs))"
  using GSIArraySearch_finds [OF assms] skip_not_after_edge [OF assms(2-4)] back_over_same_edge [OF assms(2-4)] assms(1)
  by (auto simp: GSIArraySearchCount_def Let_def elim!: array_holdsE)

lemma GSIArrayInsertSorted_holds:
  assumes "array_holds a xs" "ordered_by cmp xs" "\<forall>y \<in> set xs. ok y" "ok x" "has_room alloc a"
  shows "\<exists>a' ys. GSIArrayInsertSorted alloc a x cmp = Some (None, a') \<and> array_holds a' ys \<and>
    stable_sort_of ok cmp (xs @ [x]) ys \<and> retained a' = retained a @ [x] \<and> released a' = released a"
proof -
  let ?k = "length (not_last x xs)"
  have k: "?k \<le> length xs" by (rule length_takeWhile_le)
  obtain a' where a': "GSIArrayInsertItem alloc a x ?k = (None, a')"
      "array_holds a' (take ?k xs @ [x] @ drop ?k xs)" "retained a' = retained a @ [x]" "released a' = released a"
    using GSIArrayInsertItem_holds [OF assms(1) k assms(5)] by blast
  have "ordered_by cmp (take ?k xs @ [x] @ drop ?k xs) \<and>
      (\<forall>z. ok z \<longrightarrow> ties cmp z (take ?k xs @ [x] @ drop ?k xs) = ties cmp z (xs @ [x]))"
    by (rule insert_at_upper [OF assms(2-4) k]) (use edges(1) [OF assms(2-4)] k in \<open>auto simp: not_le\<close>)
  moreover have "mset (take ?k xs @ [x] @ drop ?k xs) = mset (xs @ [x])"
  proof -
    have "mset (take ?k xs) + mset (drop ?k xs) = mset xs" by (metis append_take_drop_id mset_append)
    then show ?thesis by simp
  qed
  ultimately have "stable_sort_of ok cmp (xs @ [x]) (take ?k xs @ [x] @ drop ?k xs)"
    by (simp add: stable_sort_of_def stable_perm_def)
  then show ?thesis
    using a' GSIArrayInsertionPosition_edge [OF assms(1-4)] by (auto simp: GSIArrayInsertSorted_def)
qed

end

section \<open>The array as a store of items\<close>

lemma nth_inserted: "j \<le> length r \<Longrightarrow> (take j r @ [v] @ drop j r) ! j = v"
  by (simp add: nth_append)

text \<open>
  What the clients of an array rely on: inserting and removing at a position act on the items
  as on a list. \<open>room\<close> says that the store can take one more item.
\<close>

locale item_store =
  fixes holds :: "'s \<Rightarrow> 'a list \<Rightarrow> bool" and room :: "'s \<Rightarrow> bool"
    and insert_at :: "'s \<Rightarrow> 'a \<Rightarrow> nat \<Rightarrow> 's" and remove_at :: "'s \<Rightarrow> nat \<Rightarrow> 's"
    and item_at :: "'s \<Rightarrow> nat \<Rightarrow> 'a"
  assumes insert_law: "holds s xs \<Longrightarrow> room s \<Longrightarrow> i \<le> length xs \<Longrightarrow>
      holds (insert_at s x i) (take i xs @ [x] @ drop i xs)"
    and remove_law: "holds s xs \<Longrightarrow> i < length xs \<Longrightarrow> holds (remove_at s i) (take i xs @ drop (i + 1) xs)"
    and item_law: "holds s xs \<Longrightarrow> i < length xs \<Longrightarrow> item_at s i = xs ! i"
begin

lemma item_inserted:
  assumes "holds s xs" "room s" "i \<le> length xs"
  shows "item_at (insert_at s x i) i = x"
    and "j < i \<Longrightarrow> item_at (insert_at s x i) j = item_at s j"
    and "i \<le> j \<Longrightarrow> j < length xs \<Longrightarrow> item_at (insert_at s x i) (j + 1) = item_at s j"
  using assms item_law [OF insert_law [OF assms, of x]] by (auto simp: nth_append item_law min_def)

lemma remove_inserted:
  assumes "holds s xs" "room s" "i \<le> length xs"
  shows "holds (remove_at (insert_at s x i) i) xs"
proof -
  let ?l = "take i xs @ [x] @ drop i xs"
  have "holds (remove_at (insert_at s x i) i) (take i ?l @ drop (i + 1) ?l)"
    by (rule remove_law [OF insert_law [OF assms]]) (use assms(3) in simp)
  moreover have "take i ?l @ drop (i + 1) ?l = xs" using assms(3) by (simp add: min_absorb2)
  ultimately show ?thesis by simp
qed

lemma move_item:
  assumes "holds s xs" "i < length xs" "j < length xs" "room (remove_at s i)"
  shows "\<exists>ys. holds (insert_at (remove_at s i) (item_at s i) j) ys \<and> mset ys = mset xs \<and> ys ! j = xs ! i"
proof -
  let ?r = "take i xs @ drop (i + 1) xs"
  have r: "holds (remove_at s i) ?r" by (rule remove_law [OF assms(1,2)])
  have j: "j \<le> length ?r" using assms by simp
  have at: "xs = take i xs @ [xs ! i] @ drop (i + 1) xs" using id_take_nth_drop [OF assms(2)] by simp
  have "mset (take j ?r @ [item_at s i] @ drop j ?r) = mset (take j ?r) + mset (drop j ?r) + {#xs ! i#}"
    using item_law [OF assms(1,2)] by (simp only: mset_append mset.simps ac_simps)
  also have "\<dots> = mset ?r + {#xs ! i#}" by (metis append_take_drop_id mset_append)
  also have "\<dots> = mset xs" by (subst (3) at) (simp only: mset_append mset.simps ac_simps)
  finally have "mset (take j ?r @ [item_at s i] @ drop j ?r) = mset xs" .
  moreover have "(take j ?r @ [item_at s i] @ drop j ?r) ! j = xs ! i"
    using nth_inserted [OF j] item_law [OF assms(1,2)] by (simp only:)
  ultimately show ?thesis using insert_law [OF r assms(4) j, of "item_at s i"] by blast
qed

end

interpretation arrays: item_store array_holds "has_room alloc"
  "\<lambda>a x i. snd (GSIArrayInsertItem alloc a x i)" GSIArrayRemoveItemAtIndex GSIArrayItemAtIndex for alloc
proof unfold_locales
  fix a :: "'a GSIArray" and xs x i
  show "array_holds a xs \<Longrightarrow> has_room alloc a \<Longrightarrow> i \<le> length xs \<Longrightarrow>
      array_holds (snd (GSIArrayInsertItem alloc a x i)) (take i xs @ [x] @ drop i xs)"
    using GSIArrayInsertItem_holds [of a xs i alloc x] by auto
  show "array_holds a xs \<Longrightarrow> i < length xs \<Longrightarrow>
      array_holds (GSIArrayRemoveItemAtIndex a i) (take i xs @ drop (i + 1) xs)"
    using GSIArrayRemoveItemAtIndex_holds [of a xs i] by simp
  show "array_holds a xs \<Longrightarrow> i < length xs \<Longrightarrow> GSIArrayItemAtIndex a i = xs ! i"
    by (rule GSIArrayItemAtIndex_holds)
qed

section \<open>The properties\<close>

text \<open>
  C29. Inserting an item at an index, with or without growing and whichever of the two ways of
  moving cells is taken, raises nothing and makes the array hold the items with the new one in
  its place; removing it again gives back the items that were there.
\<close>

theorem array_insert:
  assumes "array_holds a xs" and "i \<le> length xs" and "has_room alloc a"
  shows "\<exists>a'. GSIArrayInsertItem alloc a x i = (None, a') \<and>
    array_holds a' (take i xs @ [x] @ drop i xs) \<and> GSIArrayCount a' = length xs + 1 \<and>
    GSIArrayItemAtIndex a' i = x \<and> array_holds (GSIArrayRemoveItemAtIndex a' i) xs \<and>
    GSIArrayAddItem alloc a x = GSIArrayInsertItem alloc a x (length xs)"
proof -
  obtain a' where a': "GSIArrayInsertItem alloc a x i = (None, a')"
      "array_holds a' (take i xs @ [x] @ drop i xs)"
    using GSIArrayInsertItem_holds [OF assms] by blast
  moreover have "GSIArrayCount a' = length xs + 1"
    using a'(2) assms(2) by (simp add: GSIArrayCount_def array_holds_def)
  ultimately show ?thesis
    using arrays.remove_inserted [OF assms(1,3,2), of x] arrays.item_inserted(1) [OF assms(1,3,2), of x]
      GSIArrayAddItem_insert [OF assms(1,3)] by auto
qed

theorem array_insert_witness:
  "\<exists>a'. GSIArrayInsertItem (\<lambda>n. n \<le> 64)
       \<lparr>ptr = map Some [1, 2, 4 :: int], acount = 3, cap = 3, old = 2, retained = [], released = []\<rparr> 3 2 = (None, a') \<and>
     array_holds a' [1, 2, 3, 4]"
  using array_insert [of "\<lparr>ptr = map Some [1, 2, 4 :: int], acount = 3, cap = 3, old = 2, retained = [], released = []\<rparr>"
      "[1, 2, 4]" 2 "\<lambda>n. n \<le> 64" 3]
  by (auto simp: array_holds_def has_room_def grown_cap_def)

text \<open>
  C30. Inserting into an array kept sorted by a total preorder keeps it sorted and puts the item
  after all items it ties with; the search answers the first position of the items that match
  and their number.
\<close>

theorem array_insert_sorted:
  assumes "comparator_laws ok cmp" and "array_holds a xs" and "ordered_by cmp xs"
    and "\<forall>y \<in> set xs. ok y" and "ok x" and "has_room alloc a"
  shows "(\<exists>a' ys. GSIArrayInsertSorted alloc a x cmp = Some (None, a') \<and> array_holds a' ys \<and>
      stable_sort_of ok cmp (xs @ [x]) ys) \<and>
    (\<exists>s n. GSIArraySearchCount a x cmp = Some (s, n) \<and> s + n \<le> length xs \<and>
      (\<forall>i < length xs. cmp x (xs ! i) = NSOrderedSame \<longleftrightarrow> s \<le> i \<and> i < s + n))"
proof
  show "\<exists>a' ys. GSIArrayInsertSorted alloc a x cmp = Some (None, a') \<and> array_holds a' ys \<and>
      stable_sort_of ok cmp (xs @ [x]) ys"
    using comparator_laws.GSIArrayInsertSorted_holds [OF assms] by blast
  let ?s = "length (takeWhile (\<lambda>y. cmp x y = NSOrderedDescending) xs)"
  let ?e = "length (takeWhile (\<lambda>y. cmp x y \<noteq> NSOrderedAscending) xs)"
  have se: "?s \<le> ?e" by (rule comparator_laws.edges_le [OF assms(1)])
  have "cmp x (xs ! i) = NSOrderedSame \<longleftrightarrow> ?s \<le> i \<and> i < ?s + (?e - ?s)" if "i < length xs" for i
    using comparator_laws.edges [OF assms(1,3-5) that] se by (cases "cmp x (xs ! i)") auto
  moreover have "?s + (?e - ?s) \<le> length xs" using se length_takeWhile_le [of _ xs] by simp
  ultimately show "\<exists>s n. GSIArraySearchCount a x cmp = Some (s, n) \<and> s + n \<le> length xs \<and>
      (\<forall>i < length xs. cmp x (xs ! i) = NSOrderedSame \<longleftrightarrow> s \<le> i \<and> i < s + n)"
    using comparator_laws.GSIArraySearchCount_same [OF assms(1-5)] by blast
qed

theorem array_insert_sorted_witness:
  "\<exists>a' ys. GSIArrayInsertSorted (\<lambda>n. True)
       \<lparr>ptr = map Some [1, 2, 2, 4], acount = 4, cap = 4, old = 2, retained = [], released = []\<rparr> 2 integer_compare =
       Some (None, a') \<and> array_holds a' ys \<and> stable_sort_of (\<lambda>_. True) integer_compare [1, 2, 2, 4, 2] ys"
  using array_insert_sorted [OF integers.comparator_laws_axioms,
      of "\<lparr>ptr = map Some [1, 2, 2, 4], acount = 4, cap = 4, old = 2, retained = [], released = []\<rparr>"
      "[1, 2, 2, 4]" "\<lambda>n. True" 2]
  by (simp add: array_holds_def has_room_def grown_cap_def ordered_by_def not_after_def integer_compare_def)

text \<open>
  An array owns the items it holds: they are its contents, and they are exactly the items it
  has retained and not released.
\<close>

definition owns :: "'a GSIArray \<Rightarrow> 'a list \<Rightarrow> bool" where
  "owns a xs \<longleftrightarrow> array_holds a xs \<and> balanced a xs"

lemma owns_step:
  assumes "owns a xs" "array_holds a' ys" "retained a' = retained a @ rs" "released a' = released a @ ls"
    and "mset xs + mset rs = mset ys + mset ls"
  shows "owns a' ys"
proof -
  have "mset (retained a') = (mset xs + mset rs) + mset (released a)"
    using assms(1,3) by (simp add: owns_def balanced_def)
  also have "\<dots> = mset ys + mset (released a')" using assms(4,5) by simp
  finally show ?thesis using assms(2) by (simp add: owns_def balanced_def)
qed

lemma mset_removed: "mset xs = mset (take i xs @ drop (i + n) xs) + mset (take n (drop i xs))"
proof -
  have "take i xs @ take n (drop i xs) @ drop (i + n) xs = take i xs @ take n (drop i xs) @ drop n (drop i xs)"
    by (simp add: add.commute)
  also have "\<dots> = xs" by (simp only: append_take_drop_id)
  finally have "mset xs = mset (take i xs @ take n (drop i xs) @ drop (i + n) xs)" by simp
  also have "\<dots> = mset (take i xs @ drop (i + n) xs) + mset (take n (drop i xs))"
    by (simp only: mset_append ac_simps)
  finally show ?thesis .
qed

lemma owns_remove_items: "owns a xs \<Longrightarrow> owns (GSIArrayRemoveItems a i n) (take i xs @ drop (i + n) xs)"
proof -
  assume o: "owns a xs"
  then have h: "array_holds a xs" by (simp add: owns_def)
  have "mset xs + mset [] = mset (take i xs @ drop (i + n) xs) + mset (take n (drop i xs))"
    unfolding mset_removed [of xs i n, symmetric] by simp
  with GSIArrayRemoveItems_holds [OF h, of i n] show ?thesis
    by (intro owns_step [OF o, of _ _ "[]" "take n (drop i xs)"]) (elim conjE, simp)+
qed

lemma owns_empty:
  assumes "owns a xs"
  shows "owns (GSIArrayRemoveAllItems a) []" "owns (GSIArrayEmpty a) []"
proof -
  have "acount a = length xs" using assms by (auto simp: owns_def array_holds_def)
  then show "owns (GSIArrayRemoveAllItems a) []"
    using owns_remove_items [OF assms, of 0 "length xs"]
    by (simp add: GSIArrayRemoveAllItems_def GSIArrayRemoveItemsFromIndex_def)
  then show "owns (GSIArrayEmpty a) []"
    by (auto simp: GSIArrayEmpty_def GSIArrayClear_def owns_def array_holds_def balanced_def)
qed

text \<open>
  C31. Each of inserting, adding, replacing, removing one, the last, some or all items, and
  trimming leaves the array with the items it should then hold and with their count, and with
  the books in balance: the items retained are exactly those it now holds and those it has
  released. Growth is assumed to succeed where the array is full.
\<close>

theorem array_ownership:
  assumes "owns a xs" and "has_room alloc a"
  shows "(i \<le> length xs \<longrightarrow>
      (\<exists>a'. GSIArrayInsertItem alloc a x i = (None, a') \<and> owns a' (take i xs @ [x] @ drop i xs))) \<and>
    (\<exists>a'. GSIArrayAddItem alloc a x = (None, a') \<and> owns a' (xs @ [x])) \<and>
    (i < length xs \<longrightarrow> owns (GSIArraySetItemAtIndex a x i) (xs[i := x]) \<and>
      owns (GSIArrayRemoveItemAtIndex a i) (take i xs @ drop (i + 1) xs)) \<and>
    (xs \<noteq> [] \<longrightarrow> owns (GSIArrayRemoveLastItem a) (butlast xs)) \<and>
    owns (GSIArrayRemoveItems a i n) (take i xs @ drop (i + n) xs) \<and>
    owns (GSIArrayTrim a checker) (dropWhile checker (rev (dropWhile checker (rev xs)))) \<and>
    owns (GSIArrayRemoveAllItems a) [] \<and> owns (GSIArrayEmpty a) []"
proof (intro conjI impI)
  have h: "array_holds a xs" using assms(1) by (simp add: owns_def)
  note step = owns_step [OF assms(1)]
  have insert: "\<exists>a'. GSIArrayInsertItem alloc a x i = (None, a') \<and> owns a' (take i xs @ [x] @ drop i xs)"
    if "i \<le> length xs" for i
  proof -
    have "mset xs + mset [x] = mset (take i xs @ [x] @ drop i xs) + mset []"
    proof -
      have "mset (take i xs) + mset (drop i xs) = mset xs" by (metis append_take_drop_id mset_append)
      then show ?thesis by simp
    qed
    then show ?thesis
      using GSIArrayInsertItem_holds [OF h that assms(2), of x] step [of _ _ "[x]" "[]"] by fastforce
  qed
  then show "i \<le> length xs \<Longrightarrow>
      \<exists>a'. GSIArrayInsertItem alloc a x i = (None, a') \<and> owns a' (take i xs @ [x] @ drop i xs)" .
  show "\<exists>a'. GSIArrayAddItem alloc a x = (None, a') \<and> owns a' (xs @ [x])"
    using insert [of "length xs"] GSIArrayAddItem_insert [OF h assms(2), of x] by simp
  show "owns (GSIArrayRemoveItems a i n) (take i xs @ drop (i + n) xs)" by (rule owns_remove_items [OF assms(1)])
  show "owns (GSIArrayRemoveAllItems a) []" "owns (GSIArrayEmpty a) []" using owns_empty [OF assms(1)] by simp_all
  obtain l t where "xs = l @ dropWhile checker (rev (dropWhile checker (rev xs))) @ t"
    "array_holds (GSIArrayTrim a checker) (dropWhile checker (rev (dropWhile checker (rev xs))))"
    "retained (GSIArrayTrim a checker) = retained a" "released (GSIArrayTrim a checker) = released a @ t @ l"
    using GSIArrayTrim_holds [OF h] by blast
  moreover from this(1) have "mset xs = mset (l @ dropWhile checker (rev (dropWhile checker (rev xs))) @ t)" by (rule arg_cong)
  then have "mset xs = mset (dropWhile checker (rev (dropWhile checker (rev xs)))) + mset (t @ l)"
    by (simp only: mset_append ac_simps)
  ultimately show "owns (GSIArrayTrim a checker) (dropWhile checker (rev (dropWhile checker (rev xs))))"
    by (intro step [of _ _ "[]" "t @ l"]) simp_all
  assume ne: "xs \<noteq> []"
  have "mset xs = mset (butlast xs) + {#last xs#}"
    using arg_cong [OF append_butlast_last_id [OF ne], of mset] by simp
  then show "owns (GSIArrayRemoveLastItem a) (butlast xs)"
    using GSIArrayRemoveLastItem_holds [OF h ne] by (intro step [of _ _ "[]" "[last xs]"]) simp_all
next
  have h: "array_holds a xs" using assms(1) by (simp add: owns_def)
  assume i: "i < length xs"
  have "mset xs + {#x#} = mset (xs[i := x]) + {#xs ! i#}" using i by (simp add: mset_update)
  then show "owns (GSIArraySetItemAtIndex a x i) (xs[i := x])"
    using GSIArraySetItemAtIndex_holds [OF h i, of x] by (intro owns_step [OF assms(1), of _ _ "[x]" "[xs ! i]"]) simp_all
  have "take 1 (drop i xs) = [xs ! i]" using i by (simp add: take_Suc_conv_app_nth hd_drop_conv_nth take_Suc)
  then show "owns (GSIArrayRemoveItemAtIndex a i) (take i xs @ drop (i + 1) xs)"
    using GSIArrayRemoveItemAtIndex_holds [OF h i] mset_removed [of xs i 1]
    by (intro owns_step [OF assms(1), of _ _ "[]" "[xs ! i]"]) simp_all
qed

theorem array_ownership_witness:
  "owns (GSIArrayRemoveItems
      \<lparr>ptr = map Some [1, 2, 3 :: int], acount = 3, cap = 3, old = 2, retained = [2, 3, 1], released = []\<rparr> 1 2) [1]"
  using array_ownership [of "\<lparr>ptr = map Some [1, 2, 3 :: int], acount = 3, cap = 3, old = 2,
      retained = [2, 3, 1], released = []\<rparr>" "[1, 2, 3]" "\<lambda>_. True" 1 0 2 "\<lambda>_. True"]
  by (simp add: owns_def array_holds_def balanced_def has_room_def grown_cap_def)

text \<open>
  Growing keeps the items, makes the capacity strictly larger, and makes the allocated
  memory as large as the capacity says, as long as that many items take fewer than
  \<open>2 ^ 32\<close> bytes; when memory runs out an array on the heap stays as it is.
\<close>

theorem array_grow:
  assumes "array_holds a xs" and "grown_cap a < 2 ^ 29"
  shows "(alloc (grown_cap a * SIZEOF_ITEM) \<longrightarrow>
      (\<exists>a'. GSIArrayGrow alloc a = (None, a') \<and> array_holds a' xs \<and> cap a < cap a')) \<and>
    (\<not> alloc (grown_cap a * SIZEOF_ITEM) \<and> old a > 0 \<longrightarrow> GSIArrayGrow alloc a = (Some NSMallocException, a))"
proof (intro conjI impI)
  show "alloc (grown_cap a * SIZEOF_ITEM) \<Longrightarrow>
      \<exists>a'. GSIArrayGrow alloc a = (None, a') \<and> array_holds a' xs \<and> cap a < cap a'"
    using GSIArrayGrow_grows [OF assms] by blast
  assume f: "\<not> alloc (grown_cap a * SIZEOF_ITEM) \<and> old a > 0"
  then have "u32 (cap a + old a) = grown_cap a" using assms(2) by (simp add: grown_cap_def bounds_simps)
  moreover have "u32 (grown_cap a * SIZEOF_ITEM) = grown_cap a * SIZEOF_ITEM"
    using assms(2) by (simp add: bounds_simps)
  ultimately show "GSIArrayGrow alloc a = (Some NSMallocException, a)"
    using f by (simp add: GSIArrayGrow_def Let_def)
qed

theorem array_grow_witness:
  "\<exists>a'. GSIArrayGrow (\<lambda>n. True)
       \<lparr>ptr = map Some [1, 2 :: int], acount = 2, cap = 2, old = 1, retained = [], released = []\<rparr> = (None, a') \<and>
     array_holds a' [1, 2] \<and> 2 < cap a'"
  using array_grow [of "\<lparr>ptr = map Some [1, 2 :: int], acount = 2, cap = 2, old = 1, retained = [], released = []\<rparr>"
      "[1, 2]" "\<lambda>n. True"]
  by (simp add: array_holds_def grown_cap_def)

text \<open>
  The size of the new memory is computed in 32 bits: an array on the heap whose next
  capacity is \<open>2 ^ 29\<close> items or more gets memory for fewer items than its capacity, so that
  later insertions write past it.
\<close>

theorem array_grow_truncates:
  assumes "0 < old a" and "2 ^ 29 \<le> cap a + old a" and "cap a + old a < 2 ^ 32" and "\<And>n. alloc n"
  shows "\<exists>a'. GSIArrayGrow alloc a = (None, a') \<and> cap a' = cap a + old a \<and> length (ptr a') < cap a'"
proof -
  let ?n = "cap a + old a"
  have n: "u32 ?n = ?n" using assms(3) by (simp add: bounds_simps)
  have "u32 (?n * SIZEOF_ITEM) < ?n * SIZEOF_ITEM"
  proof -
    have "u32 (?n * SIZEOF_ITEM) < 2 ^ 32" by (simp add: u32_def)
    also have "2 ^ 32 \<le> ?n * SIZEOF_ITEM" using assms(2) by simp
    finally show ?thesis .
  qed
  then have "u32 (?n * SIZEOF_ITEM) div SIZEOF_ITEM < ?n" by (rule less_mult_imp_div_less)
  moreover have "length (realloc_cells p b) = b div SIZEOF_ITEM" for p :: "'a option list" and b
    by (simp add: realloc_cells_def min_def)
  moreover have "GSIArrayGrow alloc a =
      (None, a\<lparr>ptr := realloc_cells (ptr a) (u32 (?n * SIZEOF_ITEM)), old := cap a, cap := ?n\<rparr>)"
    using assms(1,4) by (simp add: GSIArrayGrow_def Let_def n)
  ultimately show ?thesis by simp
qed

theorem array_grow_truncates_witness:
  "\<exists>a'. GSIArrayGrow (\<lambda>_. True)
       \<lparr>ptr = replicate (2 ^ 28) (None :: int option), acount = 2 ^ 28, cap = 2 ^ 28, old = 2 ^ 28, retained = [], released = []\<rparr> =
       (None, a') \<and> cap a' = 2 ^ 29 \<and> length (ptr a') < cap a'"
  using array_grow_truncates [of "\<lparr>ptr = replicate (2 ^ 28) (None :: int option), acount = 2 ^ 28, cap = 2 ^ 28,
      old = 2 ^ 28, retained = [], released = []\<rparr>" "\<lambda>_. True"] by simp

text \<open>
  When the first growth of a statically initialised array fails, its items are copied into
  the null pointer; only an array without items gets as far as the exception. The array is
  then marked as living on the heap (\<open>old\<close> not 0) although its cells are still the caller's
  buffer, which a later growth would reallocate and clearing would free; a buffer without cells
  is even left with a capacity of one.
\<close>

theorem static_grow_failure:
  assumes "old a = 0" and "\<And>n. \<not> alloc n"
  shows "\<exists>a'. GSIArrayGrow alloc a = (Some (if acount a > 0 then CopyToNull else NSMallocException), a') \<and>
    ptr a' = ptr a \<and> 0 < old a' \<and> (cap a = 0 \<longrightarrow> cap a' = 1)"
  using assms by (auto simp: GSIArrayGrow_def Let_def leave_static_def)

theorem static_grow_failure_witness:
  "\<exists>a'. GSIArrayGrow (\<lambda>_. False) (GSIArrayInitWithZoneAndStaticCapacity 0 [] :: int GSIArray) =
     (Some NSMallocException, a') \<and> ptr a' = [] \<and> 0 < old a' \<and> cap a' = 1"
  using static_grow_failure [of "GSIArrayInitWithZoneAndStaticCapacity 0 [] :: int GSIArray" "\<lambda>_. False"]
  by (simp add: GSIArrayInitWithZoneAndStaticCapacity_def u32_def)

text \<open>
  \<^verbatim>\<open>GSIArrayGrowTo\<close> refuses to shrink below the count, and shrinking to a smaller
  capacity keeps the items; it records the larger former capacity as \<open>old\<close>, against the
  assertion \<^verbatim>\<open>GSI_ARRAY_CHECK\<close> that \<open>old\<close> is at most \<open>cap\<close>.
\<close>

theorem array_grow_to:
  assumes "array_holds a xs" and "0 < old a" and "n < cap a" and "alloc (n * SIZEOF_ITEM)"
  shows "(n < length xs \<longrightarrow> GSIArrayGrowTo alloc a n = (Some NSInvalidArgumentException, a)) \<and>
    (length xs \<le> n \<longrightarrow> (\<exists>a'. GSIArrayGrowTo alloc a n = (None, a') \<and> array_holds a' xs \<and>
      cap a' = n \<and> cap a' < old a'))"
proof -
  obtain rest where p: "ptr a = map Some xs @ rest" "acount a = length xs" "cap a = length xs + length rest"
      "length xs + length rest < 2 ^ 29"
    using assms(1) by (rule array_holdsE)
  have "u32 (n * SIZEOF_ITEM) = n * SIZEOF_ITEM" using assms(3) p by (simp add: bounds_simps)
  then show ?thesis
    using assms p by (auto simp: GSIArrayGrowTo_def Let_def realloc_cells_def array_holds_def)
qed

theorem array_grow_to_witness:
  "\<exists>a'. GSIArrayGrowTo (\<lambda>_. True)
       \<lparr>ptr = [Some (1 :: int), None, None], acount = 1, cap = 3, old = 2, retained = [], released = []\<rparr> 1 = (None, a') \<and>
     array_holds a' [1] \<and> cap a' = 1 \<and> cap a' < old a'"
  using array_grow_to [of "\<lparr>ptr = [Some (1 :: int), None, None], acount = 1, cap = 3, old = 2,
      retained = [], released = []\<rparr>" "[1]" 1 "\<lambda>_. True"]
  by (simp add: array_holds_def)

end
