(* ===== verification/NS_Byte_Order.thy ===== *)
theory NS_Byte_Order
  imports Base_Prelude "HOL-Library.Word"
begin

unbundle bit_operations_syntax

text \<open>
  \<^verbatim>\<open>Headers/Foundation/NSByteOrder.h\<close>: swapping the bytes of integers and floating
  point numbers between the host and a big- or little-endian representation. The header is
  compiled either for a big-endian host (suffix \<open>_be\<close>) or for a little-endian one
  (\<open>_le\<close>); the basic swaps read and write a union of an integer and an array of bytes, so
  they take the byte order of the host as an argument. The C types whose width depends on the
  platform are words of any length, the preprocessor's case distinction on their size being
  one on that length; a \<^verbatim>\<open>double\<close> has 8 bytes and a \<^verbatim>\<open>float\<close> 4.
\<close>

section \<open>Integers in memory\<close>

text \<open>The bytes of an integer, the least significant one first, and back.\<close>

definition bytes_le :: "nat \<Rightarrow> 'a::len word \<Rightarrow> 8 word list" where
  "bytes_le n x = map (\<lambda>i. ucast (drop_bit (8 * i) x)) [0..<n]"

primrec word_of_le :: "8 word list \<Rightarrow> 'a::len word" where
  "word_of_le [] = 0"
| "word_of_le (b # bs) = ucast b OR push_bit 8 (word_of_le bs)"

text \<open>The bytes as they lie in the memory of a host, the member \<open>byt\<close> of the union.\<close>

definition memory_bytes :: "bool \<Rightarrow> nat \<Rightarrow> 'a::len word \<Rightarrow> 8 word list" where
  "memory_bytes big n x = (if big then rev (bytes_le n x) else bytes_le n x)"

definition of_memory :: "bool \<Rightarrow> 8 word list \<Rightarrow> 'a::len word" where
  "of_memory big bs = word_of_le (if big then rev bs else bs)"

datatype NSByteOrder = NS_UnknownByteOrder | NS_LittleEndian | NS_BigEndian

type_synonym NSSwappedFloat = "32 word"
type_synonym NSSwappedDouble = "64 word"

text \<open>Floating point numbers, of which only the bit pattern matters here.\<close>

datatype c_float = C_float (float_bits: "32 word")
datatype c_double = C_double (double_bits: "64 word")

section \<open>Byte swapping\<close>

definition GSSwapI16 :: "bool \<Rightarrow> 16 word \<Rightarrow> 16 word" where
  "GSSwapI16 be inp =
     (let src = memory_bytes be 2 inp
      in of_memory be [src ! 1, src ! 0])"

definition GSSwapI32 :: "bool \<Rightarrow> 32 word \<Rightarrow> 32 word" where
  "GSSwapI32 be inp =
     (let src = memory_bytes be 4 inp
      in of_memory be [src ! 3, src ! 2, src ! 1, src ! 0])"

definition GSSwapI64 :: "bool \<Rightarrow> 64 word \<Rightarrow> 64 word" where
  "GSSwapI64 be inp =
     (let src = memory_bytes be 8 inp
      in of_memory be [src ! 7, src ! 6, src ! 5, src ! 4, src ! 3, src ! 2, src ! 1, src ! 0])"

definition GSSwapI128 :: "bool \<Rightarrow> 128 word \<Rightarrow> 128 word" where
  "GSSwapI128 be inp =
     (let src = memory_bytes be 16 inp
      in of_memory be [src ! 15, src ! 14, src ! 13, src ! 12, src ! 11, src ! 10, src ! 9, src ! 8, src ! 7, src ! 6, src ! 5, src ! 4, src ! 3, src ! 2, src ! 1, src ! 0])"

section \<open>C types\<close>

definition NSConvertHostDoubleToSwapped :: "c_double \<Rightarrow> NSSwappedDouble" where
  "NSConvertHostDoubleToSwapped num = double_bits num"

definition NSConvertHostFloatToSwapped :: "c_float \<Rightarrow> NSSwappedFloat" where
  "NSConvertHostFloatToSwapped num = float_bits num"

definition NSConvertSwappedDoubleToHost :: "NSSwappedDouble \<Rightarrow> c_double" where
  "NSConvertSwappedDoubleToHost num = C_double num"

definition NSConvertSwappedFloatToHost :: "NSSwappedFloat \<Rightarrow> c_float" where
  "NSConvertSwappedFloatToHost num = C_float num"

definition NSSwapInt :: "bool \<Rightarrow> 'i::len word \<Rightarrow> 'i word" where
  "NSSwapInt be inp =
     (if LENGTH('i) = 16 then ucast (GSSwapI16 be (ucast inp))
      else if LENGTH('i) = 32 then ucast (GSSwapI32 be (ucast inp))
      else if LENGTH('i) = 64 then ucast (GSSwapI64 be (ucast inp))
      else ucast (GSSwapI128 be (ucast inp)))"

definition NSSwapLongLong :: "bool \<Rightarrow> 'i::len word \<Rightarrow> 'i word" where
  "NSSwapLongLong be inp =
     (if LENGTH('i) = 16 then ucast (GSSwapI16 be (ucast inp))
      else if LENGTH('i) = 32 then ucast (GSSwapI32 be (ucast inp))
      else if LENGTH('i) = 64 then ucast (GSSwapI64 be (ucast inp))
      else ucast (GSSwapI128 be (ucast inp)))"

definition NSSwapLong :: "bool \<Rightarrow> 'i::len word \<Rightarrow> 'i word" where
  "NSSwapLong be inp =
     (if LENGTH('i) = 16 then ucast (GSSwapI16 be (ucast inp))
      else if LENGTH('i) = 32 then ucast (GSSwapI32 be (ucast inp))
      else if LENGTH('i) = 64 then ucast (GSSwapI64 be (ucast inp))
      else ucast (GSSwapI128 be (ucast inp)))"

definition NSSwapShort :: "bool \<Rightarrow> 'i::len word \<Rightarrow> 'i word" where
  "NSSwapShort be inp =
     (if LENGTH('i) = 16 then ucast (GSSwapI16 be (ucast inp))
      else if LENGTH('i) = 32 then ucast (GSSwapI32 be (ucast inp))
      else if LENGTH('i) = 64 then ucast (GSSwapI64 be (ucast inp))
      else ucast (GSSwapI128 be (ucast inp)))"

definition NSSwapDouble :: "bool \<Rightarrow> NSSwappedDouble \<Rightarrow> NSSwappedDouble" where
  "NSSwapDouble be num = GSSwapI64 be num"

definition NSSwapFloat :: "bool \<Rightarrow> NSSwappedFloat \<Rightarrow> NSSwappedFloat" where
  "NSSwapFloat be num = GSSwapI32 be num"

section \<open>Conversions of a big-endian host\<close>

definition NSHostByteOrder_be :: NSByteOrder where
  "NSHostByteOrder_be = NS_BigEndian"

definition GSSwapBigI16ToHost_be :: "16 word \<Rightarrow> 16 word" where
  "GSSwapBigI16ToHost_be inp = inp"

definition GSSwapBigI32ToHost_be :: "32 word \<Rightarrow> 32 word" where
  "GSSwapBigI32ToHost_be inp = inp"

definition GSSwapBigI64ToHost_be :: "64 word \<Rightarrow> 64 word" where
  "GSSwapBigI64ToHost_be inp = inp"

definition GSSwapBigI128ToHost_be :: "128 word \<Rightarrow> 128 word" where
  "GSSwapBigI128ToHost_be inp = inp"

definition NSSwapBigDoubleToHost_be :: "NSSwappedDouble \<Rightarrow> c_double" where
  "NSSwapBigDoubleToHost_be num = NSConvertSwappedDoubleToHost num"

definition NSSwapBigFloatToHost_be :: "NSSwappedFloat \<Rightarrow> c_float" where
  "NSSwapBigFloatToHost_be num = NSConvertSwappedFloatToHost num"

definition NSSwapBigIntToHost_be :: "'i::len word \<Rightarrow> 'i word" where
  "NSSwapBigIntToHost_be num = num"

definition NSSwapBigLongLongToHost_be :: "'i::len word \<Rightarrow> 'i word" where
  "NSSwapBigLongLongToHost_be num = num"

definition NSSwapBigLongToHost_be :: "'i::len word \<Rightarrow> 'i word" where
  "NSSwapBigLongToHost_be num = num"

definition NSSwapBigShortToHost_be :: "'i::len word \<Rightarrow> 'i word" where
  "NSSwapBigShortToHost_be num = num"

definition GSSwapHostI16ToBig_be :: "16 word \<Rightarrow> 16 word" where
  "GSSwapHostI16ToBig_be inp = inp"

definition GSSwapHostI32ToBig_be :: "32 word \<Rightarrow> 32 word" where
  "GSSwapHostI32ToBig_be inp = inp"

definition GSSwapHostI64ToBig_be :: "64 word \<Rightarrow> 64 word" where
  "GSSwapHostI64ToBig_be inp = inp"

definition GSSwapHostI128ToBig_be :: "128 word \<Rightarrow> 128 word" where
  "GSSwapHostI128ToBig_be inp = inp"

definition NSSwapHostDoubleToBig_be :: "c_double \<Rightarrow> NSSwappedDouble" where
  "NSSwapHostDoubleToBig_be num = NSConvertHostDoubleToSwapped num"

definition NSSwapHostFloatToBig_be :: "c_float \<Rightarrow> NSSwappedFloat" where
  "NSSwapHostFloatToBig_be num = NSConvertHostFloatToSwapped num"

definition NSSwapHostIntToBig_be :: "'i::len word \<Rightarrow> 'i word" where
  "NSSwapHostIntToBig_be num = num"

definition NSSwapHostLongLongToBig_be :: "'i::len word \<Rightarrow> 'i word" where
  "NSSwapHostLongLongToBig_be num = num"

definition NSSwapHostLongToBig_be :: "'i::len word \<Rightarrow> 'i word" where
  "NSSwapHostLongToBig_be num = num"

definition NSSwapHostShortToBig_be :: "'i::len word \<Rightarrow> 'i word" where
  "NSSwapHostShortToBig_be num = num"

definition GSSwapLittleI16ToHost_be :: "16 word \<Rightarrow> 16 word" where
  "GSSwapLittleI16ToHost_be inp = GSSwapI16 True inp"

definition GSSwapLittleI32ToHost_be :: "32 word \<Rightarrow> 32 word" where
  "GSSwapLittleI32ToHost_be inp = GSSwapI32 True inp"

definition GSSwapLittleI64ToHost_be :: "64 word \<Rightarrow> 64 word" where
  "GSSwapLittleI64ToHost_be inp = GSSwapI64 True inp"

definition GSSwapLittleI128ToHost_be :: "128 word \<Rightarrow> 128 word" where
  "GSSwapLittleI128ToHost_be inp = GSSwapI128 True inp"

definition NSSwapLittleDoubleToHost_be :: "NSSwappedDouble \<Rightarrow> c_double" where
  "NSSwapLittleDoubleToHost_be num = NSConvertSwappedDoubleToHost (NSSwapDouble True num)"

definition NSSwapLittleFloatToHost_be :: "NSSwappedFloat \<Rightarrow> c_float" where
  "NSSwapLittleFloatToHost_be num = NSConvertSwappedFloatToHost (NSSwapFloat True num)"

definition NSSwapLittleIntToHost_be :: "'i::len word \<Rightarrow> 'i word" where
  "NSSwapLittleIntToHost_be num = NSSwapInt True num"

definition NSSwapLittleLongLongToHost_be :: "'i::len word \<Rightarrow> 'i word" where
  "NSSwapLittleLongLongToHost_be num = NSSwapLongLong True num"

definition NSSwapLittleLongToHost_be :: "'i::len word \<Rightarrow> 'i word" where
  "NSSwapLittleLongToHost_be num = NSSwapLong True num"

definition NSSwapLittleShortToHost_be :: "'i::len word \<Rightarrow> 'i word" where
  "NSSwapLittleShortToHost_be num = NSSwapShort True num"

definition GSSwapHostI16ToLittle_be :: "16 word \<Rightarrow> 16 word" where
  "GSSwapHostI16ToLittle_be inp = GSSwapI16 True inp"

definition GSSwapHostI32ToLittle_be :: "32 word \<Rightarrow> 32 word" where
  "GSSwapHostI32ToLittle_be inp = GSSwapI32 True inp"

definition GSSwapHostI64ToLittle_be :: "64 word \<Rightarrow> 64 word" where
  "GSSwapHostI64ToLittle_be inp = GSSwapI64 True inp"

definition GSSwapHostI128ToLittle_be :: "128 word \<Rightarrow> 128 word" where
  "GSSwapHostI128ToLittle_be inp = GSSwapI128 True inp"

definition NSSwapHostDoubleToLittle_be :: "c_double \<Rightarrow> NSSwappedDouble" where
  "NSSwapHostDoubleToLittle_be num = NSSwapDouble True (NSConvertHostDoubleToSwapped num)"

definition NSSwapHostFloatToLittle_be :: "c_float \<Rightarrow> NSSwappedFloat" where
  "NSSwapHostFloatToLittle_be num = NSSwapFloat True (NSConvertHostFloatToSwapped num)"

definition NSSwapHostIntToLittle_be :: "'i::len word \<Rightarrow> 'i word" where
  "NSSwapHostIntToLittle_be num = NSSwapInt True num"

definition NSSwapHostLongLongToLittle_be :: "'i::len word \<Rightarrow> 'i word" where
  "NSSwapHostLongLongToLittle_be num = NSSwapLongLong True num"

definition NSSwapHostLongToLittle_be :: "'i::len word \<Rightarrow> 'i word" where
  "NSSwapHostLongToLittle_be num = NSSwapLong True num"

definition NSSwapHostShortToLittle_be :: "'i::len word \<Rightarrow> 'i word" where
  "NSSwapHostShortToLittle_be num = NSSwapShort True num"

section \<open>Conversions of a little-endian host\<close>

definition NSHostByteOrder_le :: NSByteOrder where
  "NSHostByteOrder_le = NS_LittleEndian"

definition GSSwapBigI16ToHost_le :: "16 word \<Rightarrow> 16 word" where
  "GSSwapBigI16ToHost_le inp = GSSwapI16 False inp"

definition GSSwapBigI32ToHost_le :: "32 word \<Rightarrow> 32 word" where
  "GSSwapBigI32ToHost_le inp = GSSwapI32 False inp"

definition GSSwapBigI64ToHost_le :: "64 word \<Rightarrow> 64 word" where
  "GSSwapBigI64ToHost_le inp = GSSwapI64 False inp"

definition GSSwapBigI128ToHost_le :: "128 word \<Rightarrow> 128 word" where
  "GSSwapBigI128ToHost_le inp = GSSwapI128 False inp"

definition NSSwapBigDoubleToHost_le :: "NSSwappedDouble \<Rightarrow> c_double" where
  "NSSwapBigDoubleToHost_le num = NSConvertSwappedDoubleToHost (NSSwapDouble False num)"

definition NSSwapBigFloatToHost_le :: "NSSwappedFloat \<Rightarrow> c_float" where
  "NSSwapBigFloatToHost_le num = NSConvertSwappedFloatToHost (NSSwapFloat False num)"

definition NSSwapBigIntToHost_le :: "'i::len word \<Rightarrow> 'i word" where
  "NSSwapBigIntToHost_le num = NSSwapInt False num"

definition NSSwapBigLongLongToHost_le :: "'i::len word \<Rightarrow> 'i word" where
  "NSSwapBigLongLongToHost_le num = NSSwapLongLong False num"

definition NSSwapBigLongToHost_le :: "'i::len word \<Rightarrow> 'i word" where
  "NSSwapBigLongToHost_le num = NSSwapLong False num"

definition NSSwapBigShortToHost_le :: "'i::len word \<Rightarrow> 'i word" where
  "NSSwapBigShortToHost_le num = NSSwapShort False num"

definition GSSwapHostI16ToBig_le :: "16 word \<Rightarrow> 16 word" where
  "GSSwapHostI16ToBig_le inp = GSSwapI16 False inp"

definition GSSwapHostI32ToBig_le :: "32 word \<Rightarrow> 32 word" where
  "GSSwapHostI32ToBig_le inp = GSSwapI32 False inp"

definition GSSwapHostI64ToBig_le :: "64 word \<Rightarrow> 64 word" where
  "GSSwapHostI64ToBig_le inp = GSSwapI64 False inp"

definition GSSwapHostI128ToBig_le :: "128 word \<Rightarrow> 128 word" where
  "GSSwapHostI128ToBig_le inp = GSSwapI128 False inp"

definition NSSwapHostDoubleToBig_le :: "c_double \<Rightarrow> NSSwappedDouble" where
  "NSSwapHostDoubleToBig_le num = NSSwapDouble False (NSConvertHostDoubleToSwapped num)"

definition NSSwapHostFloatToBig_le :: "c_float \<Rightarrow> NSSwappedFloat" where
  "NSSwapHostFloatToBig_le num = NSSwapFloat False (NSConvertHostFloatToSwapped num)"

definition NSSwapHostIntToBig_le :: "'i::len word \<Rightarrow> 'i word" where
  "NSSwapHostIntToBig_le num = NSSwapInt False num"

definition NSSwapHostLongLongToBig_le :: "'i::len word \<Rightarrow> 'i word" where
  "NSSwapHostLongLongToBig_le num = NSSwapLongLong False num"

definition NSSwapHostLongToBig_le :: "'i::len word \<Rightarrow> 'i word" where
  "NSSwapHostLongToBig_le num = NSSwapLong False num"

definition NSSwapHostShortToBig_le :: "'i::len word \<Rightarrow> 'i word" where
  "NSSwapHostShortToBig_le num = NSSwapShort False num"

definition GSSwapLittleI16ToHost_le :: "16 word \<Rightarrow> 16 word" where
  "GSSwapLittleI16ToHost_le inp = inp"

definition GSSwapLittleI32ToHost_le :: "32 word \<Rightarrow> 32 word" where
  "GSSwapLittleI32ToHost_le inp = inp"

definition GSSwapLittleI64ToHost_le :: "64 word \<Rightarrow> 64 word" where
  "GSSwapLittleI64ToHost_le inp = inp"

definition GSSwapLittleI128ToHost_le :: "128 word \<Rightarrow> 128 word" where
  "GSSwapLittleI128ToHost_le inp = inp"

definition NSSwapLittleDoubleToHost_le :: "NSSwappedDouble \<Rightarrow> c_double" where
  "NSSwapLittleDoubleToHost_le num = NSConvertSwappedDoubleToHost num"

definition NSSwapLittleFloatToHost_le :: "NSSwappedFloat \<Rightarrow> c_float" where
  "NSSwapLittleFloatToHost_le num = NSConvertSwappedFloatToHost num"

definition NSSwapLittleIntToHost_le :: "'i::len word \<Rightarrow> 'i word" where
  "NSSwapLittleIntToHost_le num = num"

definition NSSwapLittleLongLongToHost_le :: "'i::len word \<Rightarrow> 'i word" where
  "NSSwapLittleLongLongToHost_le num = num"

definition NSSwapLittleLongToHost_le :: "'i::len word \<Rightarrow> 'i word" where
  "NSSwapLittleLongToHost_le num = num"

definition NSSwapLittleShortToHost_le :: "'i::len word \<Rightarrow> 'i word" where
  "NSSwapLittleShortToHost_le num = num"

definition GSSwapHostI16ToLittle_le :: "16 word \<Rightarrow> 16 word" where
  "GSSwapHostI16ToLittle_le inp = inp"

definition GSSwapHostI32ToLittle_le :: "32 word \<Rightarrow> 32 word" where
  "GSSwapHostI32ToLittle_le inp = inp"

definition GSSwapHostI64ToLittle_le :: "64 word \<Rightarrow> 64 word" where
  "GSSwapHostI64ToLittle_le inp = inp"

definition GSSwapHostI128ToLittle_le :: "128 word \<Rightarrow> 128 word" where
  "GSSwapHostI128ToLittle_le inp = inp"

definition NSSwapHostDoubleToLittle_le :: "c_double \<Rightarrow> NSSwappedDouble" where
  "NSSwapHostDoubleToLittle_le num = NSConvertHostDoubleToSwapped num"

definition NSSwapHostFloatToLittle_le :: "c_float \<Rightarrow> NSSwappedFloat" where
  "NSSwapHostFloatToLittle_le num = NSConvertHostFloatToSwapped num"

definition NSSwapHostIntToLittle_le :: "'i::len word \<Rightarrow> 'i word" where
  "NSSwapHostIntToLittle_le num = num"

definition NSSwapHostLongLongToLittle_le :: "'i::len word \<Rightarrow> 'i word" where
  "NSSwapHostLongLongToLittle_le num = num"

definition NSSwapHostLongToLittle_le :: "'i::len word \<Rightarrow> 'i word" where
  "NSSwapHostLongToLittle_le num = num"

definition NSSwapHostShortToLittle_le :: "'i::len word \<Rightarrow> 'i word" where
  "NSSwapHostShortToLittle_le num = num"

section \<open>Bytes and words\<close>

lemma length_bytes_le [simp]: "length (bytes_le n x) = n"
  by (simp add: bytes_le_def)

lemma length_memory_bytes [simp]: "length (memory_bytes big n x) = n"
  by (simp add: memory_bytes_def)

lemma bit_word_of_le:
  "bit (word_of_le bs :: 'a::len word) k \<longleftrightarrow>
     k < LENGTH('a) \<and> k div 8 < length bs \<and> bit (bs ! (k div 8)) (k mod 8)"
proof (induction bs arbitrary: k)
  case (Cons b bs)
  show ?case
  proof (cases "k < 8")
    case True
    then show ?thesis by (auto simp: bit_simps)
  next
    case False
    then obtain j where "k = j + 8" by (metis le_add_diff_inverse2 not_less)
    moreover have "(j + 8) div 8 = Suc (j div 8)" by simp
    ultimately show ?thesis
      by (auto simp: bit_simps Cons.IH simp del: div_add_self2 dest: bit_imp_le_length)
  qed
qed simp

lemma bit_bytes_le:
  "i < n \<Longrightarrow> bit (bytes_le n (x :: 'a::len word) ! i) j \<longleftrightarrow> j < 8 \<and> bit x (8 * i + j)"
  by (auto simp: bytes_le_def bit_simps)

lemma word_of_bytes:
  fixes x :: "'a::len word"
  assumes "LENGTH('a) = 8 * n"
  shows "word_of_le (bytes_le n x) = x"
  by (rule bit_eqI) (auto simp: bit_word_of_le bit_bytes_le assms dest: bit_imp_le_length)

lemma bytes_of_word:
  assumes "LENGTH('a) = 8 * n" and "length bs = n"
  shows "bytes_le n (word_of_le bs :: 'a::len word) = bs"
proof (rule nth_equalityI)
  fix i assume "i < length (bytes_le n (word_of_le bs :: 'a word))"
  then have i: "i < n" by simp
  show "bytes_le n (word_of_le bs :: 'a word) ! i = bs ! i"
  proof (rule bit_eqI)
    fix j assume "possible_bit TYPE(8 word) j"
    then have "j < 8" by simp
    moreover from this have "8 * i + j < 8 * n" using i by linarith
    ultimately show "bit (bytes_le n (word_of_le bs :: 'a word) ! i) j \<longleftrightarrow> bit (bs ! i) j"
      using i assms by (simp add: bit_bytes_le bit_word_of_le)
  qed
qed (simp add: assms)

lemma bytes_inj:
  fixes x y :: "'a::len word"
  assumes "LENGTH('a) = 8 * n" and "bytes_le n x = bytes_le n y"
  shows "x = y"
  using word_of_bytes [OF assms(1)] assms(2) by metis

text \<open>The swaps reverse the bytes, whatever the host.\<close>

named_theorems swap_simps \<open>what each swap does to the bytes\<close>

lemma GSSwapI16_rev: "GSSwapI16 big x = word_of_le (rev (bytes_le 2 x))"
  by (simp add: GSSwapI16_def of_memory_def memory_bytes_def bytes_le_def upt_rec)

lemma GSSwapI32_rev: "GSSwapI32 big x = word_of_le (rev (bytes_le 4 x))"
  by (simp add: GSSwapI32_def of_memory_def memory_bytes_def bytes_le_def upt_rec)

lemma GSSwapI64_rev: "GSSwapI64 big x = word_of_le (rev (bytes_le 8 x))"
  by (simp add: GSSwapI64_def of_memory_def memory_bytes_def bytes_le_def upt_rec)

lemma GSSwapI128_rev: "GSSwapI128 big x = word_of_le (rev (bytes_le 16 x))"
  by (simp add: GSSwapI128_def of_memory_def memory_bytes_def bytes_le_def upt_rec)

lemma swap_bytes [swap_simps]:
  "bytes_le 2 (GSSwapI16 big a) = rev (bytes_le 2 a)"
  "bytes_le 4 (GSSwapI32 big b) = rev (bytes_le 4 b)"
  "bytes_le 8 (GSSwapI64 big c) = rev (bytes_le 8 c)"
  "bytes_le 16 (GSSwapI128 big d) = rev (bytes_le 16 d)"
  by (simp_all add: GSSwapI16_rev GSSwapI32_rev GSSwapI64_rev GSSwapI128_rev bytes_of_word)

lemma swap_by_size [swap_simps]:
  "NSSwapShort big (a :: 16 word) = GSSwapI16 big a"
  "NSSwapInt big (b :: 32 word) = GSSwapI32 big b"
  "NSSwapLong big (c :: 64 word) = GSSwapI64 big c"
  "NSSwapLongLong big (c :: 64 word) = GSSwapI64 big c"
  by (simp_all add: NSSwapShort_def NSSwapInt_def NSSwapLong_def NSSwapLongLong_def)

lemma swap_swap [swap_simps]:
  "GSSwapI16 big (GSSwapI16 big' a) = a"
  "GSSwapI32 big (GSSwapI32 big' b) = b"
  "GSSwapI64 big (GSSwapI64 big' c) = c"
  "GSSwapI128 big (GSSwapI128 big' d) = d"
  by (rule bytes_inj [where n = 2] bytes_inj [where n = 4] bytes_inj [where n = 8] bytes_inj [where n = 16];
      simp add: swap_bytes)+

section \<open>The contract of a host's conversions\<close>

text \<open>
  What a host promises for one integer type: the value it prepares for a byte order lies in
  its memory in that order, and the conversions back undo this.
\<close>

locale host_order =
  fixes big :: bool and n :: nat
    and to_big from_big to_little from_little :: "'a::len word \<Rightarrow> 'a word"
  assumes width: "LENGTH('a) = 8 * n"
    and big_wire: "memory_bytes big n (to_big x) = rev (bytes_le n x)"
    and little_wire: "memory_bytes big n (to_little x) = bytes_le n x"
    and big_back: "from_big (to_big x) = x"
    and little_back: "from_little (to_little x) = x"
begin

lemma of_memory_bytes: "of_memory big (memory_bytes big n x) = (x :: 'a word)"
  by (simp add: of_memory_def memory_bytes_def word_of_bytes [OF width])

lemma read_big: "from_big (of_memory big (rev (bytes_le n x))) = x"
  using big_back [of x] of_memory_bytes [of "to_big x"] by (simp add: big_wire)

lemma read_little: "from_little (of_memory big (bytes_le n x)) = x"
  using little_back [of x] of_memory_bytes [of "to_little x"] by (simp add: little_wire)

end

text \<open>Two hosts that exchange integers through their memory images.\<close>

locale host_pair =
  A: host_order bigA n to_bigA from_bigA to_littleA from_littleA +
  B: host_order bigB n to_bigB from_bigB to_littleB from_littleB
  for bigA n bigB
    and to_bigA from_bigA to_littleA from_littleA to_bigB from_bigB to_littleB from_littleB ::
      "'a::len word \<Rightarrow> 'a word"
begin

lemma exchange_big: "from_bigB (of_memory bigB (memory_bytes bigA n (to_bigA x))) = x"
  by (simp add: A.big_wire B.read_big)

lemma exchange_little: "from_littleB (of_memory bigB (memory_bytes bigA n (to_littleA x))) = x"
  by (simp add: A.little_wire B.read_little)

end

interpretation g16_be:
  host_order True 2 "GSSwapHostI16ToBig_be :: 16 word \<Rightarrow> 16 word" GSSwapBigI16ToHost_be GSSwapHostI16ToLittle_be GSSwapLittleI16ToHost_be
  by unfold_locales
    (simp_all add: memory_bytes_def swap_simps GSSwapHostI16ToBig_be_def GSSwapBigI16ToHost_be_def GSSwapHostI16ToLittle_be_def GSSwapLittleI16ToHost_be_def)

interpretation g16_le:
  host_order False 2 "GSSwapHostI16ToBig_le :: 16 word \<Rightarrow> 16 word" GSSwapBigI16ToHost_le GSSwapHostI16ToLittle_le GSSwapLittleI16ToHost_le
  by unfold_locales
    (simp_all add: memory_bytes_def swap_simps GSSwapHostI16ToBig_le_def GSSwapBigI16ToHost_le_def GSSwapHostI16ToLittle_le_def GSSwapLittleI16ToHost_le_def)

interpretation g16_up: host_pair False 2 True "GSSwapHostI16ToBig_le :: 16 word \<Rightarrow> 16 word" GSSwapBigI16ToHost_le GSSwapHostI16ToLittle_le GSSwapLittleI16ToHost_le GSSwapHostI16ToBig_be GSSwapBigI16ToHost_be GSSwapHostI16ToLittle_be GSSwapLittleI16ToHost_be
  by unfold_locales

interpretation g16_down: host_pair True 2 False "GSSwapHostI16ToBig_be :: 16 word \<Rightarrow> 16 word" GSSwapBigI16ToHost_be GSSwapHostI16ToLittle_be GSSwapLittleI16ToHost_be GSSwapHostI16ToBig_le GSSwapBigI16ToHost_le GSSwapHostI16ToLittle_le GSSwapLittleI16ToHost_le
  by unfold_locales

interpretation g32_be:
  host_order True 4 "GSSwapHostI32ToBig_be :: 32 word \<Rightarrow> 32 word" GSSwapBigI32ToHost_be GSSwapHostI32ToLittle_be GSSwapLittleI32ToHost_be
  by unfold_locales
    (simp_all add: memory_bytes_def swap_simps GSSwapHostI32ToBig_be_def GSSwapBigI32ToHost_be_def GSSwapHostI32ToLittle_be_def GSSwapLittleI32ToHost_be_def)

interpretation g32_le:
  host_order False 4 "GSSwapHostI32ToBig_le :: 32 word \<Rightarrow> 32 word" GSSwapBigI32ToHost_le GSSwapHostI32ToLittle_le GSSwapLittleI32ToHost_le
  by unfold_locales
    (simp_all add: memory_bytes_def swap_simps GSSwapHostI32ToBig_le_def GSSwapBigI32ToHost_le_def GSSwapHostI32ToLittle_le_def GSSwapLittleI32ToHost_le_def)

interpretation g32_up: host_pair False 4 True "GSSwapHostI32ToBig_le :: 32 word \<Rightarrow> 32 word" GSSwapBigI32ToHost_le GSSwapHostI32ToLittle_le GSSwapLittleI32ToHost_le GSSwapHostI32ToBig_be GSSwapBigI32ToHost_be GSSwapHostI32ToLittle_be GSSwapLittleI32ToHost_be
  by unfold_locales

interpretation g32_down: host_pair True 4 False "GSSwapHostI32ToBig_be :: 32 word \<Rightarrow> 32 word" GSSwapBigI32ToHost_be GSSwapHostI32ToLittle_be GSSwapLittleI32ToHost_be GSSwapHostI32ToBig_le GSSwapBigI32ToHost_le GSSwapHostI32ToLittle_le GSSwapLittleI32ToHost_le
  by unfold_locales

interpretation g64_be:
  host_order True 8 "GSSwapHostI64ToBig_be :: 64 word \<Rightarrow> 64 word" GSSwapBigI64ToHost_be GSSwapHostI64ToLittle_be GSSwapLittleI64ToHost_be
  by unfold_locales
    (simp_all add: memory_bytes_def swap_simps GSSwapHostI64ToBig_be_def GSSwapBigI64ToHost_be_def GSSwapHostI64ToLittle_be_def GSSwapLittleI64ToHost_be_def)

interpretation g64_le:
  host_order False 8 "GSSwapHostI64ToBig_le :: 64 word \<Rightarrow> 64 word" GSSwapBigI64ToHost_le GSSwapHostI64ToLittle_le GSSwapLittleI64ToHost_le
  by unfold_locales
    (simp_all add: memory_bytes_def swap_simps GSSwapHostI64ToBig_le_def GSSwapBigI64ToHost_le_def GSSwapHostI64ToLittle_le_def GSSwapLittleI64ToHost_le_def)

interpretation g64_up: host_pair False 8 True "GSSwapHostI64ToBig_le :: 64 word \<Rightarrow> 64 word" GSSwapBigI64ToHost_le GSSwapHostI64ToLittle_le GSSwapLittleI64ToHost_le GSSwapHostI64ToBig_be GSSwapBigI64ToHost_be GSSwapHostI64ToLittle_be GSSwapLittleI64ToHost_be
  by unfold_locales

interpretation g64_down: host_pair True 8 False "GSSwapHostI64ToBig_be :: 64 word \<Rightarrow> 64 word" GSSwapBigI64ToHost_be GSSwapHostI64ToLittle_be GSSwapLittleI64ToHost_be GSSwapHostI64ToBig_le GSSwapBigI64ToHost_le GSSwapHostI64ToLittle_le GSSwapLittleI64ToHost_le
  by unfold_locales

interpretation g128_be:
  host_order True 16 "GSSwapHostI128ToBig_be :: 128 word \<Rightarrow> 128 word" GSSwapBigI128ToHost_be GSSwapHostI128ToLittle_be GSSwapLittleI128ToHost_be
  by unfold_locales
    (simp_all add: memory_bytes_def swap_simps GSSwapHostI128ToBig_be_def GSSwapBigI128ToHost_be_def GSSwapHostI128ToLittle_be_def GSSwapLittleI128ToHost_be_def)

interpretation g128_le:
  host_order False 16 "GSSwapHostI128ToBig_le :: 128 word \<Rightarrow> 128 word" GSSwapBigI128ToHost_le GSSwapHostI128ToLittle_le GSSwapLittleI128ToHost_le
  by unfold_locales
    (simp_all add: memory_bytes_def swap_simps GSSwapHostI128ToBig_le_def GSSwapBigI128ToHost_le_def GSSwapHostI128ToLittle_le_def GSSwapLittleI128ToHost_le_def)

interpretation g128_up: host_pair False 16 True "GSSwapHostI128ToBig_le :: 128 word \<Rightarrow> 128 word" GSSwapBigI128ToHost_le GSSwapHostI128ToLittle_le GSSwapLittleI128ToHost_le GSSwapHostI128ToBig_be GSSwapBigI128ToHost_be GSSwapHostI128ToLittle_be GSSwapLittleI128ToHost_be
  by unfold_locales

interpretation g128_down: host_pair True 16 False "GSSwapHostI128ToBig_be :: 128 word \<Rightarrow> 128 word" GSSwapBigI128ToHost_be GSSwapHostI128ToLittle_be GSSwapLittleI128ToHost_be GSSwapHostI128ToBig_le GSSwapBigI128ToHost_le GSSwapHostI128ToLittle_le GSSwapLittleI128ToHost_le
  by unfold_locales

interpretation short_be:
  host_order True 2 "NSSwapHostShortToBig_be :: 16 word \<Rightarrow> 16 word" NSSwapBigShortToHost_be NSSwapHostShortToLittle_be NSSwapLittleShortToHost_be
  by unfold_locales
    (simp_all add: memory_bytes_def swap_simps NSSwapHostShortToBig_be_def NSSwapBigShortToHost_be_def NSSwapHostShortToLittle_be_def NSSwapLittleShortToHost_be_def)

interpretation short_le:
  host_order False 2 "NSSwapHostShortToBig_le :: 16 word \<Rightarrow> 16 word" NSSwapBigShortToHost_le NSSwapHostShortToLittle_le NSSwapLittleShortToHost_le
  by unfold_locales
    (simp_all add: memory_bytes_def swap_simps NSSwapHostShortToBig_le_def NSSwapBigShortToHost_le_def NSSwapHostShortToLittle_le_def NSSwapLittleShortToHost_le_def)

interpretation short_up: host_pair False 2 True "NSSwapHostShortToBig_le :: 16 word \<Rightarrow> 16 word" NSSwapBigShortToHost_le NSSwapHostShortToLittle_le NSSwapLittleShortToHost_le NSSwapHostShortToBig_be NSSwapBigShortToHost_be NSSwapHostShortToLittle_be NSSwapLittleShortToHost_be
  by unfold_locales

interpretation short_down: host_pair True 2 False "NSSwapHostShortToBig_be :: 16 word \<Rightarrow> 16 word" NSSwapBigShortToHost_be NSSwapHostShortToLittle_be NSSwapLittleShortToHost_be NSSwapHostShortToBig_le NSSwapBigShortToHost_le NSSwapHostShortToLittle_le NSSwapLittleShortToHost_le
  by unfold_locales

interpretation int_be:
  host_order True 4 "NSSwapHostIntToBig_be :: 32 word \<Rightarrow> 32 word" NSSwapBigIntToHost_be NSSwapHostIntToLittle_be NSSwapLittleIntToHost_be
  by unfold_locales
    (simp_all add: memory_bytes_def swap_simps NSSwapHostIntToBig_be_def NSSwapBigIntToHost_be_def NSSwapHostIntToLittle_be_def NSSwapLittleIntToHost_be_def)

interpretation int_le:
  host_order False 4 "NSSwapHostIntToBig_le :: 32 word \<Rightarrow> 32 word" NSSwapBigIntToHost_le NSSwapHostIntToLittle_le NSSwapLittleIntToHost_le
  by unfold_locales
    (simp_all add: memory_bytes_def swap_simps NSSwapHostIntToBig_le_def NSSwapBigIntToHost_le_def NSSwapHostIntToLittle_le_def NSSwapLittleIntToHost_le_def)

interpretation int_up: host_pair False 4 True "NSSwapHostIntToBig_le :: 32 word \<Rightarrow> 32 word" NSSwapBigIntToHost_le NSSwapHostIntToLittle_le NSSwapLittleIntToHost_le NSSwapHostIntToBig_be NSSwapBigIntToHost_be NSSwapHostIntToLittle_be NSSwapLittleIntToHost_be
  by unfold_locales

interpretation int_down: host_pair True 4 False "NSSwapHostIntToBig_be :: 32 word \<Rightarrow> 32 word" NSSwapBigIntToHost_be NSSwapHostIntToLittle_be NSSwapLittleIntToHost_be NSSwapHostIntToBig_le NSSwapBigIntToHost_le NSSwapHostIntToLittle_le NSSwapLittleIntToHost_le
  by unfold_locales

interpretation long_be:
  host_order True 8 "NSSwapHostLongToBig_be :: 64 word \<Rightarrow> 64 word" NSSwapBigLongToHost_be NSSwapHostLongToLittle_be NSSwapLittleLongToHost_be
  by unfold_locales
    (simp_all add: memory_bytes_def swap_simps NSSwapHostLongToBig_be_def NSSwapBigLongToHost_be_def NSSwapHostLongToLittle_be_def NSSwapLittleLongToHost_be_def)

interpretation long_le:
  host_order False 8 "NSSwapHostLongToBig_le :: 64 word \<Rightarrow> 64 word" NSSwapBigLongToHost_le NSSwapHostLongToLittle_le NSSwapLittleLongToHost_le
  by unfold_locales
    (simp_all add: memory_bytes_def swap_simps NSSwapHostLongToBig_le_def NSSwapBigLongToHost_le_def NSSwapHostLongToLittle_le_def NSSwapLittleLongToHost_le_def)

interpretation long_up: host_pair False 8 True "NSSwapHostLongToBig_le :: 64 word \<Rightarrow> 64 word" NSSwapBigLongToHost_le NSSwapHostLongToLittle_le NSSwapLittleLongToHost_le NSSwapHostLongToBig_be NSSwapBigLongToHost_be NSSwapHostLongToLittle_be NSSwapLittleLongToHost_be
  by unfold_locales

interpretation long_down: host_pair True 8 False "NSSwapHostLongToBig_be :: 64 word \<Rightarrow> 64 word" NSSwapBigLongToHost_be NSSwapHostLongToLittle_be NSSwapLittleLongToHost_be NSSwapHostLongToBig_le NSSwapBigLongToHost_le NSSwapHostLongToLittle_le NSSwapLittleLongToHost_le
  by unfold_locales

interpretation longlong_be:
  host_order True 8 "NSSwapHostLongLongToBig_be :: 64 word \<Rightarrow> 64 word" NSSwapBigLongLongToHost_be NSSwapHostLongLongToLittle_be NSSwapLittleLongLongToHost_be
  by unfold_locales
    (simp_all add: memory_bytes_def swap_simps NSSwapHostLongLongToBig_be_def NSSwapBigLongLongToHost_be_def NSSwapHostLongLongToLittle_be_def NSSwapLittleLongLongToHost_be_def)

interpretation longlong_le:
  host_order False 8 "NSSwapHostLongLongToBig_le :: 64 word \<Rightarrow> 64 word" NSSwapBigLongLongToHost_le NSSwapHostLongLongToLittle_le NSSwapLittleLongLongToHost_le
  by unfold_locales
    (simp_all add: memory_bytes_def swap_simps NSSwapHostLongLongToBig_le_def NSSwapBigLongLongToHost_le_def NSSwapHostLongLongToLittle_le_def NSSwapLittleLongLongToHost_le_def)

interpretation longlong_up: host_pair False 8 True "NSSwapHostLongLongToBig_le :: 64 word \<Rightarrow> 64 word" NSSwapBigLongLongToHost_le NSSwapHostLongLongToLittle_le NSSwapLittleLongLongToHost_le NSSwapHostLongLongToBig_be NSSwapBigLongLongToHost_be NSSwapHostLongLongToLittle_be NSSwapLittleLongLongToHost_be
  by unfold_locales

interpretation longlong_down: host_pair True 8 False "NSSwapHostLongLongToBig_be :: 64 word \<Rightarrow> 64 word" NSSwapBigLongLongToHost_be NSSwapHostLongLongToLittle_be NSSwapLittleLongLongToHost_be NSSwapHostLongLongToBig_le NSSwapBigLongLongToHost_le NSSwapHostLongLongToLittle_le NSSwapLittleLongLongToHost_le
  by unfold_locales

lemmas float_simps =
  NSConvertHostDoubleToSwapped_def NSConvertHostFloatToSwapped_def
  NSConvertSwappedDoubleToHost_def NSConvertSwappedFloatToHost_def NSSwapDouble_def
  NSSwapFloat_def NSSwapHostDoubleToBig_be_def NSSwapBigDoubleToHost_be_def
  NSSwapHostDoubleToLittle_be_def NSSwapLittleDoubleToHost_be_def
  NSSwapHostFloatToBig_be_def NSSwapBigFloatToHost_be_def NSSwapHostFloatToLittle_be_def
  NSSwapLittleFloatToHost_be_def NSSwapHostDoubleToBig_le_def NSSwapBigDoubleToHost_le_def
  NSSwapHostDoubleToLittle_le_def NSSwapLittleDoubleToHost_le_def
  NSSwapHostFloatToBig_le_def NSSwapBigFloatToHost_le_def NSSwapHostFloatToLittle_le_def
  NSSwapLittleFloatToHost_le_def

section \<open>Properties\<close>

text \<open>
  Swapping an integer of any width reverses its bytes in memory, does the same on both
  kinds of host, and swapping twice gives the integer back.
\<close>

theorem swaps_reverse_bytes:
  "memory_bytes big 2 (GSSwapI16 big a) = rev (memory_bytes big 2 a) \<and>
   memory_bytes big 4 (GSSwapI32 big b) = rev (memory_bytes big 4 b) \<and>
   memory_bytes big 8 (GSSwapI64 big c) = rev (memory_bytes big 8 c) \<and>
   memory_bytes big 16 (GSSwapI128 big d) = rev (memory_bytes big 16 d) \<and>
   GSSwapI16 big (GSSwapI16 (\<not> big) a) = a \<and> GSSwapI32 big (GSSwapI32 (\<not> big) b) = b \<and>
   GSSwapI64 big (GSSwapI64 (\<not> big) c) = c \<and> GSSwapI128 big (GSSwapI128 (\<not> big) d) = d"
  by (simp add: memory_bytes_def swap_simps)

text \<open>
  C33. A little-endian and a big-endian host that pass each other the memory image of an integer
  converted to the big- or little-endian order read the same integer: 16, 32, 64 and 128 bits.
\<close>

theorem hosts_exchange_integers:
  "GSSwapBigI16ToHost_be (of_memory True (memory_bytes False 2 (GSSwapHostI16ToBig_le a))) = (a :: 16 word) \<and>
   GSSwapLittleI16ToHost_be (of_memory True (memory_bytes False 2 (GSSwapHostI16ToLittle_le a))) = a \<and>
   GSSwapBigI16ToHost_le (of_memory False (memory_bytes True 2 (GSSwapHostI16ToBig_be a))) = (a :: 16 word) \<and>
   GSSwapLittleI16ToHost_le (of_memory False (memory_bytes True 2 (GSSwapHostI16ToLittle_be a))) = a \<and>
   GSSwapBigI32ToHost_be (of_memory True (memory_bytes False 4 (GSSwapHostI32ToBig_le b))) = (b :: 32 word) \<and>
   GSSwapLittleI32ToHost_be (of_memory True (memory_bytes False 4 (GSSwapHostI32ToLittle_le b))) = b \<and>
   GSSwapBigI32ToHost_le (of_memory False (memory_bytes True 4 (GSSwapHostI32ToBig_be b))) = (b :: 32 word) \<and>
   GSSwapLittleI32ToHost_le (of_memory False (memory_bytes True 4 (GSSwapHostI32ToLittle_be b))) = b \<and>
   GSSwapBigI64ToHost_be (of_memory True (memory_bytes False 8 (GSSwapHostI64ToBig_le c))) = (c :: 64 word) \<and>
   GSSwapLittleI64ToHost_be (of_memory True (memory_bytes False 8 (GSSwapHostI64ToLittle_le c))) = c \<and>
   GSSwapBigI64ToHost_le (of_memory False (memory_bytes True 8 (GSSwapHostI64ToBig_be c))) = (c :: 64 word) \<and>
   GSSwapLittleI64ToHost_le (of_memory False (memory_bytes True 8 (GSSwapHostI64ToLittle_be c))) = c \<and>
   GSSwapBigI128ToHost_be (of_memory True (memory_bytes False 16 (GSSwapHostI128ToBig_le d))) = (d :: 128 word) \<and>
   GSSwapLittleI128ToHost_be (of_memory True (memory_bytes False 16 (GSSwapHostI128ToLittle_le d))) = d \<and>
   GSSwapBigI128ToHost_le (of_memory False (memory_bytes True 16 (GSSwapHostI128ToBig_be d))) = (d :: 128 word) \<and>
   GSSwapLittleI128ToHost_le (of_memory False (memory_bytes True 16 (GSSwapHostI128ToLittle_be d))) = d"
  by (simp only: g16_up.exchange_big g16_up.exchange_little g16_down.exchange_big g16_down.exchange_little g32_up.exchange_big g32_up.exchange_little g32_down.exchange_big g32_down.exchange_little g64_up.exchange_big g64_up.exchange_little g64_down.exchange_big g64_down.exchange_little g128_up.exchange_big g128_up.exchange_little g128_down.exchange_big g128_down.exchange_little simp_thms)

text \<open>
  The same for the C types short, int, long and long long of a 64-bit platform, whose
  conversions choose the swap by the size of the type.
\<close>

theorem hosts_exchange_c_integers:
  "NSSwapBigShortToHost_be (of_memory True (memory_bytes False 2 (NSSwapHostShortToBig_le a))) = (a :: 16 word) \<and>
   NSSwapLittleShortToHost_be (of_memory True (memory_bytes False 2 (NSSwapHostShortToLittle_le a))) = a \<and>
   NSSwapBigShortToHost_le (of_memory False (memory_bytes True 2 (NSSwapHostShortToBig_be a))) = (a :: 16 word) \<and>
   NSSwapLittleShortToHost_le (of_memory False (memory_bytes True 2 (NSSwapHostShortToLittle_be a))) = a \<and>
   NSSwapBigIntToHost_be (of_memory True (memory_bytes False 4 (NSSwapHostIntToBig_le b))) = (b :: 32 word) \<and>
   NSSwapLittleIntToHost_be (of_memory True (memory_bytes False 4 (NSSwapHostIntToLittle_le b))) = b \<and>
   NSSwapBigIntToHost_le (of_memory False (memory_bytes True 4 (NSSwapHostIntToBig_be b))) = (b :: 32 word) \<and>
   NSSwapLittleIntToHost_le (of_memory False (memory_bytes True 4 (NSSwapHostIntToLittle_be b))) = b \<and>
   NSSwapBigLongToHost_be (of_memory True (memory_bytes False 8 (NSSwapHostLongToBig_le c))) = (c :: 64 word) \<and>
   NSSwapLittleLongToHost_be (of_memory True (memory_bytes False 8 (NSSwapHostLongToLittle_le c))) = c \<and>
   NSSwapBigLongToHost_le (of_memory False (memory_bytes True 8 (NSSwapHostLongToBig_be c))) = (c :: 64 word) \<and>
   NSSwapLittleLongToHost_le (of_memory False (memory_bytes True 8 (NSSwapHostLongToLittle_be c))) = c \<and>
   NSSwapBigLongLongToHost_be (of_memory True (memory_bytes False 8 (NSSwapHostLongLongToBig_le d))) = (d :: 64 word) \<and>
   NSSwapLittleLongLongToHost_be (of_memory True (memory_bytes False 8 (NSSwapHostLongLongToLittle_le d))) = d \<and>
   NSSwapBigLongLongToHost_le (of_memory False (memory_bytes True 8 (NSSwapHostLongLongToBig_be d))) = (d :: 64 word) \<and>
   NSSwapLittleLongLongToHost_le (of_memory False (memory_bytes True 8 (NSSwapHostLongLongToLittle_be d))) = d"
  by (simp only: short_up.exchange_big short_up.exchange_little short_down.exchange_big short_down.exchange_little int_up.exchange_big int_up.exchange_little int_down.exchange_big int_down.exchange_little long_up.exchange_big long_up.exchange_little long_down.exchange_big long_down.exchange_little longlong_up.exchange_big longlong_up.exchange_little longlong_down.exchange_big longlong_down.exchange_little simp_thms)

text \<open>
  Floating point numbers survive the way to either byte order and back on both kinds of
  host, and what the two hosts send has the same bytes.
\<close>

theorem floats_roundtrip:
  "NSSwapBigDoubleToHost_be (NSSwapHostDoubleToBig_be d) = d \<and>
   NSSwapLittleDoubleToHost_be (NSSwapHostDoubleToLittle_be d) = d \<and>
   NSSwapBigDoubleToHost_le (NSSwapHostDoubleToBig_le d) = d \<and>
   NSSwapLittleDoubleToHost_le (NSSwapHostDoubleToLittle_le d) = d \<and>
   NSSwapBigFloatToHost_be (NSSwapHostFloatToBig_be f) = f \<and>
   NSSwapLittleFloatToHost_be (NSSwapHostFloatToLittle_be f) = f \<and>
   NSSwapBigFloatToHost_le (NSSwapHostFloatToBig_le f) = f \<and>
   NSSwapLittleFloatToHost_le (NSSwapHostFloatToLittle_le f) = f \<and>
   memory_bytes False 8 (NSSwapHostDoubleToBig_le d) = memory_bytes True 8 (NSSwapHostDoubleToBig_be d) \<and>
   memory_bytes False 8 (NSSwapHostDoubleToLittle_le d) = memory_bytes True 8 (NSSwapHostDoubleToLittle_be d) \<and>
   memory_bytes False 4 (NSSwapHostFloatToBig_le f) = memory_bytes True 4 (NSSwapHostFloatToBig_be f) \<and>
   memory_bytes False 4 (NSSwapHostFloatToLittle_le f) = memory_bytes True 4 (NSSwapHostFloatToLittle_be f)"
  by (simp add: float_simps swap_simps memory_bytes_def)

end
