(* ===== verification/GSI_Map.thy ===== *)
theory GSI_Map
  imports Base_Prelude "HOL-Library.Monad_Syntax"
begin

unbundle bit_operations_syntax

text \<open>
  The hash table of \<^verbatim>\<open>Headers/GNUstepBase/GSIMap.h\<close>, behind the library's
  dictionaries, sets, map tables and hash tables. Nodes live at addresses; buckets and the
  list of free nodes are singly linked through \<^verbatim>\<open>nextInBucket\<close>. A node is in exactly one
  of these lists. \<open>None\<close> as the result of an operation stands for following a null pointer
  or a loop that does not end, which the invariant excludes; a failed allocation raises.
  The macros a client defines (hash, equality, weak references) are the fields of
  \<open>map_traits\<close>; retains and releases leave a trace of events.
\<close>

section \<open>State\<close>

type_synonym addr = nat

text \<open>
  \<open>zeroed\<close> is the mask of \<^verbatim>\<open>GSI_MAP_ZEROED\<close> (1: weak keys, 2: weak values);
  \<open>key_gone\<close> and \<open>value_gone\<close> tell which weak references load as nil. \<open>has_value\<close> is
  \<^verbatim>\<open>GSI_MAP_HAS_VALUE\<close>; the tables without values use the type \<open>unit\<close>. \<open>value_as_key\<close> is
  the address \<^verbatim>\<open>GSI_MAP_READ_KEY\<close> gives for a value, which one enumeration function uses.
\<close>

record ('k, 'v) map_traits =
  hash_of :: "'k \<Rightarrow> nat"
  equal_keys :: "'k \<Rightarrow> 'k \<Rightarrow> bool"
  has_value :: bool
  key_addr :: "'k \<Rightarrow> nat"
  value_addr :: "'v \<Rightarrow> nat"
  zeroed :: nat
  key_gone :: "'k \<Rightarrow> bool"
  value_gone :: "'v \<Rightarrow> bool"
  value_as_key :: "'v \<Rightarrow> nat"

datatype ('k, 'v) map_event = RetainKey 'k | ReleaseKey 'k | RetainValue 'v | ReleaseValue 'v

datatype map_exception = NSMallocException

record GSIMapBucket =
  bucketNodes :: nat
  firstNode :: "addr option"

record ('k, 'v) GSIMapTable =
  nodeCount :: nat
  bucketCount :: nat
  buckets :: "GSIMapBucket list"
  freeNodes :: "addr option"
  chunkCount :: nat
  nodeChunks :: "(addr \<times> nat) list"
  increment :: nat
  nextInBucket :: "addr \<Rightarrow> addr option"
  node_key :: "addr \<Rightarrow> 'k option"
  node_value :: "addr \<Rightarrow> 'v option"
  heap_end :: addr
  events :: "('k, 'v) map_event list"

record GSIMapEnumerator =
  enum_node :: "addr option"
  enum_bucket :: nat

definition SIZEOF_NODE :: "('k, 'v) map_traits \<Rightarrow> nat" where
  "SIZEOF_NODE t = (if has_value t then 24 else 16)"

abbreviation SIZEOF_BUCKET :: nat where "SIZEOF_BUCKET \<equiv> 16"
abbreviation SIZEOF_TABLE :: nat where "SIZEOF_TABLE \<equiv> 64"

section \<open>Nodes and buckets\<close>

text \<open>Without buckets the remainder divides by zero.\<close>

definition GSIMapPickBucket :: "nat \<Rightarrow> nat \<Rightarrow> nat option" where
  "GSIMapPickBucket h n = (if n = 0 then None else Some (u32 h mod n))"

definition GSIMapBucketForKey :: "('k, 'v) map_traits \<Rightarrow> ('k, 'v) GSIMapTable \<Rightarrow> 'k \<Rightarrow> nat option" where
  "GSIMapBucketForKey t m k = GSIMapPickBucket (hash_of t k) (bucketCount m)"

definition GSIMapLinkNodeIntoBucket ::
  "(addr \<Rightarrow> addr option) \<Rightarrow> GSIMapBucket \<Rightarrow> addr \<Rightarrow> (addr \<Rightarrow> addr option) \<times> GSIMapBucket" where
  "GSIMapLinkNodeIntoBucket nx b n = (nx(n := firstNode b), b\<lparr>firstNode := Some n\<rparr>)"

partial_function (option) find_previous :: "(addr \<Rightarrow> addr option) \<Rightarrow> addr \<Rightarrow> addr \<Rightarrow> addr option" where
  "find_previous nx n tmp =
     (if nx tmp = Some n then Some tmp
      else case nx tmp of None \<Rightarrow> None | Some tmp' \<Rightarrow> find_previous nx n tmp')"

definition GSIMapUnlinkNodeFromBucket ::
  "(addr \<Rightarrow> addr option) \<Rightarrow> GSIMapBucket \<Rightarrow> addr \<Rightarrow> ((addr \<Rightarrow> addr option) \<times> GSIMapBucket) option" where
  "GSIMapUnlinkNodeFromBucket nx b n =
     do {
       (nx', b') \<leftarrow>
         (if firstNode b = Some n then Some (nx, b\<lparr>firstNode := nx n\<rparr>)
          else do {
            tmp \<leftarrow> firstNode b;
            p \<leftarrow> find_previous nx n tmp;
            Some (nx(p := nx n), b)
          });
       Some (nx'(n := None), b')
     }"

definition GSIMapAddNodeToBucket ::
  "(addr \<Rightarrow> addr option) \<Rightarrow> GSIMapBucket \<Rightarrow> addr \<Rightarrow> (addr \<Rightarrow> addr option) \<times> GSIMapBucket" where
  "GSIMapAddNodeToBucket nx b n =
     (let (nx', b') = GSIMapLinkNodeIntoBucket nx b n in (nx', b'\<lparr>bucketNodes := bucketNodes b' + 1\<rparr>))"

definition release_events :: "('k, 'v) map_traits \<Rightarrow> ('k, 'v) GSIMapTable \<Rightarrow> addr \<Rightarrow> ('k, 'v) map_event list" where
  "release_events t m n =
     ReleaseKey (the (node_key m n)) # (if has_value t then [ReleaseValue (the (node_value m n))] else [])"

definition GSIMapFreeNode :: "('k, 'v) map_traits \<Rightarrow> ('k, 'v) GSIMapTable \<Rightarrow> addr \<Rightarrow> ('k, 'v) GSIMapTable" where
  "GSIMapFreeNode t m n =
     m\<lparr>events := events m @ release_events t m n,
       node_key := (node_key m)(n := None), node_value := (node_value m)(n := None),
       nextInBucket := (nextInBucket m)(n := freeNodes m), freeNodes := Some n\<rparr>"

definition add_to_bucket :: "('k, 'v) GSIMapTable \<Rightarrow> nat \<Rightarrow> addr \<Rightarrow> ('k, 'v) GSIMapTable" where
  "add_to_bucket m i n =
     (let (nx, b) = GSIMapAddNodeToBucket (nextInBucket m) (buckets m ! i) n
      in m\<lparr>nextInBucket := nx, buckets := (buckets m)[i := b]\<rparr>)"

definition GSIMapAddNodeToMap ::
  "('k, 'v) map_traits \<Rightarrow> ('k, 'v) GSIMapTable \<Rightarrow> addr \<Rightarrow> ('k, 'v) GSIMapTable option" where
  "GSIMapAddNodeToMap t m n =
     (let k = the (node_key m n)
      in if zeroed t AND 1 \<noteq> 0 \<and> key_gone t k then Some (GSIMapFreeNode t m n)
         else do {
           i \<leftarrow> GSIMapBucketForKey t m k;
           let m' = add_to_bucket m i n;
           Some (m'\<lparr>nodeCount := nodeCount m' + 1\<rparr>)
         })"

definition GSIMapRemoveNodeFromBucket ::
  "(addr \<Rightarrow> addr option) \<Rightarrow> GSIMapBucket \<Rightarrow> addr \<Rightarrow> ((addr \<Rightarrow> addr option) \<times> GSIMapBucket) option" where
  "GSIMapRemoveNodeFromBucket nx b n =
     GSIMapUnlinkNodeFromBucket nx (b\<lparr>bucketNodes := usub (bucketNodes b) 1\<rparr>) n"

definition GSIMapRemoveNodeFromMap ::
  "('k, 'v) GSIMapTable \<Rightarrow> nat \<Rightarrow> addr \<Rightarrow> ('k, 'v) GSIMapTable option" where
  "GSIMapRemoveNodeFromMap m i n =
     do {
       (nx, b) \<leftarrow> GSIMapRemoveNodeFromBucket (nextInBucket m) (buckets m ! i) n;
       Some (m\<lparr>nodeCount := usub (nodeCount m) 1, nextInBucket := nx, buckets := (buckets m)[i := b]\<rparr>)
     }"

definition GSIMapRemoveAndFreeNode ::
  "('k, 'v) map_traits \<Rightarrow> ('k, 'v) GSIMapTable \<Rightarrow> nat \<Rightarrow> addr \<Rightarrow> (('k, 'v) GSIMapTable \<times> addr option) option" where
  "GSIMapRemoveAndFreeNode t m bkt n =
     do {
       let next' = nextInBucket m n;
       m' \<leftarrow> GSIMapRemoveNodeFromMap m bkt n;
       Some (GSIMapFreeNode t m' n, next')
     }"

text \<open>Retains and releases of the weakly loaded objects cancel out and are left out.\<close>

definition GSIMapWeakIsEmpty :: "('k, 'v) map_traits \<Rightarrow> ('k, 'v) GSIMapTable \<Rightarrow> addr \<Rightarrow> bool" where
  "GSIMapWeakIsEmpty t m n \<longleftrightarrow>
     zeroed t \<noteq> 0 \<and>
     (zeroed t AND 1 \<noteq> 0 \<and> key_gone t (the (node_key m n)) \<or>
      has_value t \<and> zeroed t AND 2 \<noteq> 0 \<and> value_gone t (the (node_value m n)))"

partial_function (option) remove_weak_chain ::
  "('k, 'v) map_traits \<Rightarrow> ('k, 'v) GSIMapTable \<Rightarrow> nat \<Rightarrow> addr option \<Rightarrow> ('k, 'v) GSIMapTable option" where
  "remove_weak_chain t m i node =
     (case node of
        None \<Rightarrow> Some m
      | Some n \<Rightarrow>
          do {
            let next' = nextInBucket m n;
            m' \<leftarrow> (if GSIMapWeakIsEmpty t m n
                   then do { m1 \<leftarrow> GSIMapRemoveNodeFromMap m i n; Some (GSIMapFreeNode t m1 n) }
                   else Some m);
            remove_weak_chain t m' i next'
          })"

fun remove_weak_buckets ::
  "('k, 'v) map_traits \<Rightarrow> ('k, 'v) GSIMapTable \<Rightarrow> nat list \<Rightarrow> ('k, 'v) GSIMapTable option" where
  "remove_weak_buckets t m [] = Some m"
| "remove_weak_buckets t m (i # is) =
     do {
       m' \<leftarrow> remove_weak_chain t m i (firstNode (buckets m ! i));
       remove_weak_buckets t m' is
     }"

definition GSIMapRemoveWeak :: "('k, 'v) map_traits \<Rightarrow> ('k, 'v) GSIMapTable \<Rightarrow> ('k, 'v) GSIMapTable option" where
  "GSIMapRemoveWeak t m =
     (if zeroed t \<noteq> 0 then remove_weak_buckets t m [0..<bucketCount m] else Some m)"

section \<open>Changing the number of buckets\<close>

text \<open>
  The nodes of bucket \<open>i\<close> of the map, whose buckets are still the old ones, are moved one by
  one to the front of the buckets \<open>nb\<close>; nodes whose weak references are gone are freed.
\<close>

partial_function (option) remangle_chain ::
  "('k, 'v) map_traits \<Rightarrow> ('k, 'v) GSIMapTable \<Rightarrow> nat \<Rightarrow> GSIMapBucket list \<Rightarrow>
     (('k, 'v) GSIMapTable \<times> GSIMapBucket list) option" where
  "remangle_chain t m i nb =
     (case firstNode (buckets m ! i) of
        None \<Rightarrow> Some (m, nb)
      | Some n \<Rightarrow>
          if GSIMapWeakIsEmpty t m n
          then do {
            m1 \<leftarrow> GSIMapRemoveNodeFromMap m i n;
            remangle_chain t (GSIMapFreeNode t m1 n) i nb
          }
          else do {
            (nx, b) \<leftarrow> GSIMapRemoveNodeFromBucket (nextInBucket m) (buckets m ! i) n;
            j \<leftarrow> GSIMapPickBucket (hash_of t (the (node_key m n))) (length nb);
            let (nx', b') = GSIMapAddNodeToBucket nx (nb ! j) n;
            remangle_chain t (m\<lparr>nextInBucket := nx', buckets := (buckets m)[i := b]\<rparr>) i (nb[j := b'])
          })"

fun GSIMapRemangleBuckets ::
  "('k, 'v) map_traits \<Rightarrow> ('k, 'v) GSIMapTable \<Rightarrow> nat list \<Rightarrow> GSIMapBucket list \<Rightarrow>
     (('k, 'v) GSIMapTable \<times> GSIMapBucket list) option" where
  "GSIMapRemangleBuckets t m [] nb = Some (m, nb)"
| "GSIMapRemangleBuckets t m (i # is) nb =
     do {
       (m', nb') \<leftarrow> remangle_chain t m i nb;
       GSIMapRemangleBuckets t m' is nb'
     }"

text \<open>The next size up in the Fibonacci series; the second number is never 0.\<close>

function next_size :: "nat \<Rightarrow> nat \<Rightarrow> nat \<Rightarrow> nat" where
  "next_size sz old new_capacity =
     (if sz < new_capacity \<and> 0 < old then next_size (sz + old) sz new_capacity else sz)"
  by pat_completeness auto
termination
  by (relation "measure (\<lambda>(s, p, c). c - s)") auto

declare next_size.simps [simp del]

text \<open>Even numbers are avoided.\<close>

definition odd_size :: "nat \<Rightarrow> nat" where
  "odd_size c = (let s = next_size 1 1 c in if s mod 2 = 0 then s + 1 else s)"

definition GSIMapResize ::
  "(nat \<Rightarrow> bool) \<Rightarrow> ('k, 'v) map_traits \<Rightarrow> ('k, 'v) GSIMapTable \<Rightarrow> nat \<Rightarrow> ('k, 'v) GSIMapTable option" where
  "GSIMapResize alloc t m new_capacity =
     (let size = odd_size new_capacity
      in if alloc (size * SIZEOF_BUCKET)
         then do {
           (m', nb) \<leftarrow> GSIMapRemangleBuckets t m [0..<bucketCount m]
                        (replicate size \<lparr>bucketNodes = 0, firstNode = None\<rparr>);
           Some (m'\<lparr>buckets := nb, bucketCount := size\<rparr>)
         }
         else Some m)"

definition GSIMapRightSizeMap ::
  "(nat \<Rightarrow> bool) \<Rightarrow> ('k, 'v) map_traits \<Rightarrow> ('k, 'v) GSIMapTable \<Rightarrow> nat \<Rightarrow> ('k, 'v) GSIMapTable option" where
  "GSIMapRightSizeMap alloc t m capacity =
     (if umul 4 (bucketCount m) \<le> umul 3 capacity
      then GSIMapResize alloc t m (umul 3 capacity div 4 + 1) else Some m)"

section \<open>Allocating nodes\<close>

text \<open>The nodes of a new chunk are linked in order, in front of the free nodes.\<close>

fun link_chunk :: "addr \<Rightarrow> nat \<Rightarrow> (addr \<Rightarrow> addr option) \<Rightarrow> (addr \<Rightarrow> addr option)" where
  "link_chunk start 0 nx = nx"
| "link_chunk start (Suc c) nx = link_chunk start c (nx(start + c := Some (start + c + 1)))"

definition chunk_size :: "('k, 'v) GSIMapTable \<Rightarrow> nat \<Rightarrow> nat" where
  "chunk_size m required =
     (if required = 0
      then (if chunkCount m = 0 then (if bucketCount m > 1 then bucketCount m else 2)
            else push_bit 1 (drop_bit 2 (nodeCount m) + 1))
      else required)"

definition GSIMapMoreNodes ::
  "(nat \<Rightarrow> bool) \<Rightarrow> ('k, 'v) map_traits \<Rightarrow> ('k, 'v) GSIMapTable \<Rightarrow> nat \<Rightarrow> map_exception option \<times> ('k, 'v) GSIMapTable" where
  "GSIMapMoreNodes alloc t m required =
     (if alloc ((chunkCount m + 1) * 8)
      then let size = chunk_size m (u32 required); start = heap_end m
           in if alloc (size * SIZEOF_NODE t)
              then (None, m\<lparr>nodeChunks := nodeChunks m @ [(start, size)], chunkCount := chunkCount m + 1,
                     nextInBucket := link_chunk start (size - 1)
                       ((nextInBucket m)(start + size - 1 := freeNodes m)),
                     node_key := (\<lambda>a. if start \<le> a \<and> a < start + size then None else node_key m a),
                     node_value := (\<lambda>a. if start \<le> a \<and> a < start + size then None else node_value m a),
                     freeNodes := Some start, heap_end := start + size\<rparr>)
              else (Some NSMallocException, m)
      else (Some NSMallocException, m))"

definition GSIMapGetNode ::
  "(nat \<Rightarrow> bool) \<Rightarrow> ('k, 'v) map_traits \<Rightarrow> ('k, 'v) GSIMapTable \<Rightarrow> (map_exception option \<times> ('k, 'v) GSIMapTable \<times> addr) option" where
  "GSIMapGetNode alloc t m0 =
     (let (e, m) = (if freeNodes m0 = None
                    then GSIMapMoreNodes alloc t m0 (if nodeCount m0 < increment m0 then 0 else increment m0)
                    else (None, m0))
      in case e of
           Some x \<Rightarrow> Some (Some x, m, 0)
         | None \<Rightarrow> do {
             n \<leftarrow> freeNodes m;
             Some (None, m\<lparr>freeNodes := nextInBucket m n, nextInBucket := (nextInBucket m)(n := None)\<rparr>, n)
           })"

section \<open>Looking up, adding and removing\<close>

partial_function (option) find_in_chain ::
  "('k, 'v) map_traits \<Rightarrow> ('k, 'v) GSIMapTable \<Rightarrow> 'k \<Rightarrow> addr option \<Rightarrow> addr option option" where
  "find_in_chain t m k node =
     (case node of
        None \<Rightarrow> Some None
      | Some n \<Rightarrow> if equal_keys t (the (node_key m n)) k then Some (Some n)
                  else find_in_chain t m k (nextInBucket m n))"

partial_function (option) find_weak_chain ::
  "('k, 'v) map_traits \<Rightarrow> ('k, 'v) GSIMapTable \<Rightarrow> nat \<Rightarrow> 'k \<Rightarrow> addr option \<Rightarrow>
     (('k, 'v) GSIMapTable \<times> addr option) option" where
  "find_weak_chain t m i k node =
     (case node of
        None \<Rightarrow> Some (m, None)
      | Some n \<Rightarrow>
          if GSIMapWeakIsEmpty t m n
          then do { (m', tmp) \<leftarrow> GSIMapRemoveAndFreeNode t m i n; find_weak_chain t m' i k tmp }
          else if equal_keys t (the (node_key m n)) k then Some (m, Some n)
          else find_weak_chain t m i k (nextInBucket m n))"

text \<open>A lookup in a weak map frees the nodes it finds empty, so the map is part of the result.\<close>

definition GSIMapNodeForKeyInBucket ::
  "('k, 'v) map_traits \<Rightarrow> ('k, 'v) GSIMapTable \<Rightarrow> nat \<Rightarrow> 'k \<Rightarrow>
     (('k, 'v) GSIMapTable \<times> addr option) option" where
  "GSIMapNodeForKeyInBucket t m i k =
     (if zeroed t \<noteq> 0
      then (if key_addr t k = 0 then Some (m, None)
            else find_weak_chain t m i k (firstNode (buckets m ! i)))
      else map_option (\<lambda>r. (m, r)) (find_in_chain t m k (firstNode (buckets m ! i))))"

definition GSIMapNodeForKey ::
  "('k, 'v) map_traits \<Rightarrow> ('k, 'v) GSIMapTable \<Rightarrow> 'k \<Rightarrow> (('k, 'v) GSIMapTable \<times> addr option) option" where
  "GSIMapNodeForKey t m k =
     (if nodeCount m = 0 then Some (m, None)
      else do { i \<leftarrow> GSIMapBucketForKey t m k; GSIMapNodeForKeyInBucket t m i k })"

partial_function (option) find_simple_chain ::
  "('k, 'v) map_traits \<Rightarrow> ('k, 'v) GSIMapTable \<Rightarrow> nat \<Rightarrow> 'k \<Rightarrow> addr option \<Rightarrow>
     (('k, 'v) GSIMapTable \<times> addr option) option" where
  "find_simple_chain t m i k node =
     (case node of
        None \<Rightarrow> Some (m, None)
      | Some n \<Rightarrow>
          if key_addr t (the (node_key m n)) = key_addr t k then Some (m, Some n)
          else do {
            let tmp = nextInBucket m n;
            m' \<leftarrow> (if GSIMapWeakIsEmpty t m n
                   then map_option fst (GSIMapRemoveAndFreeNode t m i n) else Some m);
            find_simple_chain t m' i k tmp
          })"

definition GSIMapNodeForSimpleKey ::
  "('k, 'v) map_traits \<Rightarrow> ('k, 'v) GSIMapTable \<Rightarrow> 'k \<Rightarrow> (('k, 'v) GSIMapTable \<times> addr option) option" where
  "GSIMapNodeForSimpleKey t m k =
     (if nodeCount m = 0 then Some (m, None)
      else if bucketCount m = 0 then None
      else let i = u32 (key_addr t k) mod bucketCount m
           in find_simple_chain t m i k (firstNode (buckets m ! i)))"

text \<open>
  What adding with and without retaining, with and without a value, share. Nothing is done (a
  null node) for a nil key or value of a weak map. The memory trace \<open>evs\<close> is that of the retains.
\<close>

definition store_pair :: "('k, 'v) GSIMapTable \<Rightarrow> addr \<Rightarrow> 'k \<Rightarrow> 'v \<Rightarrow> ('k, 'v) GSIMapTable" where
  "store_pair m n k v =
     m\<lparr>node_key := (node_key m)(n := Some k), node_value := (node_value m)(n := Some v)\<rparr>"

definition add_pair ::
  "(nat \<Rightarrow> bool) \<Rightarrow> ('k, 'v) map_traits \<Rightarrow> ('k, 'v) map_event list \<Rightarrow> ('k, 'v) GSIMapTable \<Rightarrow> 'k \<Rightarrow> 'v \<Rightarrow>
     (map_exception option \<times> ('k, 'v) GSIMapTable \<times> addr option) option" where
  "add_pair alloc t evs m k v =
     do {
        (e, m1, n) \<leftarrow> GSIMapGetNode alloc t m;
        (case e of
           Some x \<Rightarrow> Some (Some x, m1, None)
         | None \<Rightarrow> do {
             let m2 = store_pair m1 n k v;
             m3 \<leftarrow> GSIMapRightSizeMap alloc t (m2\<lparr>events := events m2 @ evs\<rparr>) (nodeCount m2);
             m4 \<leftarrow> GSIMapAddNodeToMap t m3 n;
             Some (None, m4, Some n)
           })
      }"

definition GSIMapAddPairNoRetain ::
  "(nat \<Rightarrow> bool) \<Rightarrow> ('k, 'v) map_traits \<Rightarrow> ('k, 'v) GSIMapTable \<Rightarrow> 'k \<Rightarrow> 'v \<Rightarrow>
     (map_exception option \<times> ('k, 'v) GSIMapTable \<times> addr option) option" where
  "GSIMapAddPairNoRetain alloc t m k v =
     (if zeroed t \<noteq> 0 \<and> (key_addr t k = 0 \<or> value_addr t v = 0) then Some (None, m, None)
      else add_pair alloc t [] m k v)"

definition GSIMapAddPair ::
  "(nat \<Rightarrow> bool) \<Rightarrow> ('k, 'v) map_traits \<Rightarrow> ('k, 'v) GSIMapTable \<Rightarrow> 'k \<Rightarrow> 'v \<Rightarrow>
     (map_exception option \<times> ('k, 'v) GSIMapTable \<times> addr option) option" where
  "GSIMapAddPair alloc t m k v =
     (if zeroed t \<noteq> 0 \<and> (key_addr t k = 0 \<or> value_addr t v = 0) then Some (None, m, None)
      else add_pair alloc t [RetainKey k, RetainValue v] m k v)"

definition GSIMapAddKeyNoRetain ::
  "(nat \<Rightarrow> bool) \<Rightarrow> ('k, unit) map_traits \<Rightarrow> ('k, unit) GSIMapTable \<Rightarrow> 'k \<Rightarrow>
     (map_exception option \<times> ('k, unit) GSIMapTable \<times> addr option) option" where
  "GSIMapAddKeyNoRetain alloc t m k =
     (if zeroed t \<noteq> 0 \<and> key_addr t k = 0 then Some (None, m, None) else add_pair alloc t [] m k ())"

definition GSIMapAddKey ::
  "(nat \<Rightarrow> bool) \<Rightarrow> ('k, unit) map_traits \<Rightarrow> ('k, unit) GSIMapTable \<Rightarrow> 'k \<Rightarrow>
     (map_exception option \<times> ('k, unit) GSIMapTable \<times> addr option) option" where
  "GSIMapAddKey alloc t m k =
     (if zeroed t \<noteq> 0 \<and> key_addr t k = 0 then Some (None, m, None)
      else add_pair alloc t [RetainKey k] m k ())"

definition GSIMapRemoveKey ::
  "('k, 'v) map_traits \<Rightarrow> ('k, 'v) GSIMapTable \<Rightarrow> 'k \<Rightarrow> (('k, 'v) GSIMapTable \<times> bool) option" where
  "GSIMapRemoveKey t m k =
     do {
       i \<leftarrow> GSIMapBucketForKey t m k;
       (m1, r) \<leftarrow> GSIMapNodeForKeyInBucket t m i k;
       (case r of
          None \<Rightarrow> Some (m1, False)
        | Some n \<Rightarrow> do { m2 \<leftarrow> GSIMapRemoveNodeFromMap m1 i n; Some (GSIMapFreeNode t m2 n, True) })
     }"

section \<open>Emptying\<close>

text \<open>
  The chains of all buckets are spliced, in order, in front of the free nodes; the state of
  the loop is the map, the first node spliced and the last one.
\<close>

partial_function (option) clean_chain ::
  "('k, 'v) map_traits \<Rightarrow> ('k, 'v) GSIMapTable \<Rightarrow> addr option \<Rightarrow> addr option \<Rightarrow>
     (('k, 'v) GSIMapTable \<times> addr option) option" where
  "clean_chain t m prev node =
     (case node of
        None \<Rightarrow> Some (m, prev)
      | Some n \<Rightarrow>
          clean_chain t (m\<lparr>events := events m @ release_events t m n,
                           node_key := (node_key m)(n := None), node_value := (node_value m)(n := None)\<rparr>)
            (Some n) (nextInBucket m n))"

fun clean_buckets ::
  "('k, 'v) map_traits \<Rightarrow> ('k, 'v) GSIMapTable \<Rightarrow> nat list \<Rightarrow> addr option \<Rightarrow> addr option \<Rightarrow>
     (('k, 'v) GSIMapTable \<times> addr option \<times> addr option) option" where
  "clean_buckets t m [] start prev = Some (m, start, prev)"
| "clean_buckets t m (i # is) start prev =
     (let node = firstNode (buckets m ! i);
          (m1, start1) = (case prev of
                            Some p \<Rightarrow> (m\<lparr>nextInBucket := (nextInBucket m)(p := node)\<rparr>, start)
                          | None \<Rightarrow> (m, node))
      in do {
        (m2, prev2) \<leftarrow> clean_chain t m1 prev node;
        clean_buckets t (m2\<lparr>buckets := (buckets m2)[i := \<lparr>bucketNodes = 0, firstNode = None\<rparr>]\<rparr>) is start1 prev2
      })"

definition GSIMapCleanMap :: "('k, 'v) map_traits \<Rightarrow> ('k, 'v) GSIMapTable \<Rightarrow> ('k, 'v) GSIMapTable option" where
  "GSIMapCleanMap t m =
     (if nodeCount m > 0
      then do {
        (m1, start, prev) \<leftarrow> clean_buckets t (m\<lparr>nodeCount := 0\<rparr>) [0..<bucketCount m] None None;
        Some (case prev of
                Some p \<Rightarrow> m1\<lparr>nextInBucket := (nextInBucket m1)(p := freeNodes m1), freeNodes := start\<rparr>
              | None \<Rightarrow> m1\<lparr>freeNodes := start\<rparr>)
      }
      else Some m)"

text \<open>\<open>noclean\<close> is \<^verbatim>\<open>GSI_MAP_NOCLEAN\<close>, for keys and values that need no releases.\<close>

definition GSIMapEmptyMap :: "bool \<Rightarrow> ('k, 'v) map_traits \<Rightarrow> ('k, 'v) GSIMapTable \<Rightarrow> ('k, 'v) GSIMapTable option" where
  "GSIMapEmptyMap noclean t m =
     do {
       m1 \<leftarrow> (if noclean then Some (m\<lparr>nodeCount := 0\<rparr>) else GSIMapCleanMap t m);
       Some (m1\<lparr>buckets := [], bucketCount := 0, nodeChunks := [], chunkCount := 0, freeNodes := None\<rparr>)
     }"

definition GSIMapInitWithZoneAndCapacity ::
  "(nat \<Rightarrow> bool) \<Rightarrow> ('k, 'v) map_traits \<Rightarrow> nat \<Rightarrow> (map_exception option \<times> ('k, 'v) GSIMapTable) option" where
  "GSIMapInitWithZoneAndCapacity alloc t capacity =
     map_option (\<lambda>m. GSIMapMoreNodes alloc t m capacity)
       (GSIMapRightSizeMap alloc t
          \<lparr>nodeCount = 0, bucketCount = 0, buckets = [], freeNodes = None, chunkCount = 0, nodeChunks = [],
           increment = 300000, nextInBucket = \<lambda>_. None, node_key = \<lambda>_. None, node_value = \<lambda>_. None,
           heap_end = 0, events = []\<rparr> capacity)"

text \<open>The walk over the free nodes that sums up their sizes.\<close>

partial_function (option) free_list_size :: "nat \<Rightarrow> (addr \<Rightarrow> addr option) \<Rightarrow> nat \<Rightarrow> addr option \<Rightarrow> nat option" where
  "free_list_size sz nx acc node =
     (if node = None then Some acc else free_list_size sz nx (uadd acc sz) (nx (the node)))"

definition GSIMapSize :: "('k, 'v) map_traits \<Rightarrow> ('k, 'v) GSIMapTable \<Rightarrow> nat option" where
  "GSIMapSize t m =
     do {
       let s0 = uadd (uadd SIZEOF_TABLE (umul (chunkCount m) 8)) (umul (bucketCount m) SIZEOF_BUCKET);
       s1 \<leftarrow> free_list_size (SIZEOF_NODE t) (nextInBucket m) s0 (freeNodes m);
       Some (fold (\<lambda>i s. uadd s (umul (SIZEOF_NODE t) (bucketNodes (buckets m ! i)))) [0..<bucketCount m] s1)
     }"

section \<open>Enumerating\<close>

text \<open>
  From a node of bucket \<open>i\<close> on, nodes that are \<open>dead\<close> are removed; then, while there is no
  node, the next bucket is looked at. A map without weak references has no dead nodes.
\<close>

partial_function (option) skip_dead ::
  "('k, 'v) map_traits \<Rightarrow> (('k, 'v) GSIMapTable \<Rightarrow> addr \<Rightarrow> bool) \<Rightarrow> ('k, 'v) GSIMapTable \<Rightarrow> nat \<Rightarrow> addr option \<Rightarrow>
     (('k, 'v) GSIMapTable \<times> addr option) option" where
  "skip_dead t dead m i node =
     (case node of
        None \<Rightarrow> Some (m, None)
      | Some n \<Rightarrow>
          if dead m n
          then do { (m', node') \<leftarrow> GSIMapRemoveAndFreeNode t m i n; skip_dead t dead m' i node' }
          else Some (m, Some n))"

partial_function (option) advance_bucket ::
  "('k, 'v) map_traits \<Rightarrow> (('k, 'v) GSIMapTable \<Rightarrow> addr \<Rightarrow> bool) \<Rightarrow> ('k, 'v) GSIMapTable \<Rightarrow> nat \<Rightarrow> addr option \<Rightarrow>
     (('k, 'v) GSIMapTable \<times> nat \<times> addr option) option" where
  "advance_bucket t dead m b node =
     (case node of
        Some n \<Rightarrow> Some (m, b, Some n)
      | None \<Rightarrow>
          if b + 1 < bucketCount m
          then do {
            (m', node') \<leftarrow> skip_dead t dead m (b + 1) (firstNode (buckets m ! (b + 1)));
            advance_bucket t dead m' (b + 1) node'
          }
          else Some (m, b + 1, None))"

partial_function (option) first_bucket ::
  "('k, 'v) map_traits \<Rightarrow> (('k, 'v) GSIMapTable \<Rightarrow> addr \<Rightarrow> bool) \<Rightarrow> ('k, 'v) GSIMapTable \<Rightarrow> nat \<Rightarrow>
     (('k, 'v) GSIMapTable \<times> nat \<times> addr option) option" where
  "first_bucket t dead m b =
     (if b < bucketCount m
      then do {
        (m', node) \<leftarrow> skip_dead t dead m b (firstNode (buckets m ! b));
        (case node of None \<Rightarrow> first_bucket t dead m' (b + 1) | Some n \<Rightarrow> Some (m', b, Some n))
      }
      else Some (m, b, None))"

abbreviation weak_dead :: "('k, 'v) map_traits \<Rightarrow> ('k, 'v) GSIMapTable \<Rightarrow> addr \<Rightarrow> bool" where
  "weak_dead t m n \<equiv> zeroed t \<noteq> 0 \<and> GSIMapWeakIsEmpty t m n"

abbreviation never_dead :: "('k, 'v) GSIMapTable \<Rightarrow> addr \<Rightarrow> bool" where
  "never_dead m n \<equiv> False"

definition GSIMapFirstNode ::
  "('k, 'v) map_traits \<Rightarrow> ('k, 'v) GSIMapTable \<Rightarrow> (('k, 'v) GSIMapTable \<times> addr option) option" where
  "GSIMapFirstNode t m =
     (if nodeCount m > 0
      then do { (m', b, node) \<leftarrow> first_bucket t (weak_dead t) m 0; Some (m', node) }
      else Some (m, None))"

definition GSIMapEnumeratorForMap ::
  "('k, 'v) map_traits \<Rightarrow> ('k, 'v) GSIMapTable \<Rightarrow> (('k, 'v) GSIMapTable \<times> GSIMapEnumerator) option" where
  "GSIMapEnumeratorForMap t m =
     do {
       (m', b, node) \<leftarrow> first_bucket t (weak_dead t) m 0;
       Some (m', \<lparr>enum_node = node, enum_bucket = b\<rparr>)
     }"

definition GSIMapEndEnumerator :: "GSIMapEnumerator \<Rightarrow> GSIMapEnumerator" where
  "GSIMapEndEnumerator e = e\<lparr>enum_node := None, enum_bucket := 0\<rparr>"

definition GSIMapEnumeratorBucket :: "GSIMapEnumerator \<Rightarrow> nat option" where
  "GSIMapEnumeratorBucket e = (if enum_node e = None then None else Some (enum_bucket e))"

text \<open>The address a key loads, nil for a weak reference that is gone.\<close>

definition read_key_addr :: "('k, 'v) map_traits \<Rightarrow> ('k, 'v) GSIMapTable \<Rightarrow> addr \<Rightarrow> nat" where
  "read_key_addr t m n =
     (let k = the (node_key m n) in if zeroed t AND 1 \<noteq> 0 \<and> key_gone t k then 0 else key_addr t k)"

text \<open>The node after \<open>n\<close> and its bucket, and the enumerator that is set to them.\<close>

definition enumerator_step ::
  "('k, 'v) map_traits \<Rightarrow> ('k, 'v) GSIMapTable \<Rightarrow> GSIMapEnumerator \<Rightarrow> addr \<Rightarrow> GSIMapEnumerator option" where
  "enumerator_step t m e n =
     do {
       (m', b, next') \<leftarrow> advance_bucket t never_dead m (enum_bucket e) (nextInBucket m n);
       Some (e\<lparr>enum_node := next', enum_bucket := b\<rparr>)
     }"

partial_function (option) GSIMapEnumeratorNext ::
  "('k, 'v) map_traits \<Rightarrow> ('k, 'v) GSIMapTable \<Rightarrow> GSIMapEnumerator \<Rightarrow>
     (('k, 'v) GSIMapTable \<times> GSIMapEnumerator \<times> ('k \<times> 'v) option) option" where
  "GSIMapEnumeratorNext t m e =
     (case enum_node e of
        None \<Rightarrow> Some (m, e, None)
      | Some n \<Rightarrow>
          do {
            e' \<leftarrow> enumerator_step t m e n;
            (if zeroed t = 0 \<or> read_key_addr t m n \<noteq> 0 \<and> value_as_key t (the (node_value m n)) \<noteq> 0
             then Some (m, e', Some (the (node_key m n), the (node_value m n)))
             else do {
               m' \<leftarrow> GSIMapRemoveNodeFromMap m (enum_bucket e) n;
               GSIMapEnumeratorNext t (GSIMapFreeNode t m' n) e'
             })
          })"

text \<open>The variant for tables without values leaves nodes without key in place.\<close>

partial_function (option) GSIMapEnumeratorNextKey ::
  "('k, 'v) map_traits \<Rightarrow> ('k, 'v) GSIMapTable \<Rightarrow> GSIMapEnumerator \<Rightarrow>
     (GSIMapEnumerator \<times> 'k option) option" where
  "GSIMapEnumeratorNextKey t m e =
     (case enum_node e of
        None \<Rightarrow> Some (e, None)
      | Some n \<Rightarrow>
          do {
            e' \<leftarrow> enumerator_step t m e n;
            (if zeroed t = 0 \<or> read_key_addr t m n \<noteq> 0 then Some (e', Some (the (node_key m n)))
             else GSIMapEnumeratorNextKey t m e')
          })"

abbreviation key_dead :: "('k, 'v) map_traits \<Rightarrow> ('k, 'v) GSIMapTable \<Rightarrow> addr \<Rightarrow> bool" where
  "key_dead t m n \<equiv> read_key_addr t m n = 0"

text \<open>The first loop of \<^verbatim>\<open>GSIMapEnumeratorNextNode\<close>: nodes without key are removed.\<close>

partial_function (option) find_live_key ::
  "('k, 'v) map_traits \<Rightarrow> ('k, 'v) GSIMapTable \<Rightarrow> nat \<Rightarrow> addr option \<Rightarrow>
     (('k, 'v) GSIMapTable \<times> nat \<times> addr option) option" where
  "find_live_key t m b node =
     (case node of
        None \<Rightarrow> Some (m, b, None)
      | Some n \<Rightarrow>
          if key_dead t m n
          then do {
            (m1, node1) \<leftarrow> GSIMapRemoveAndFreeNode t m b n;
            (m2, b2, node2) \<leftarrow> advance_bucket t (key_dead t) m1 b node1;
            find_live_key t m2 b2 node2
          }
          else Some (m, b, Some n))"

definition GSIMapEnumeratorNextNode ::
  "('k, 'v) map_traits \<Rightarrow> ('k, 'v) GSIMapTable \<Rightarrow> GSIMapEnumerator \<Rightarrow>
     (('k, 'v) GSIMapTable \<times> GSIMapEnumerator \<times> addr option) option" where
  "GSIMapEnumeratorNextNode t m e =
     do {
       (m1, b, node) \<leftarrow> (if zeroed t \<noteq> 0 then find_live_key t m (enum_bucket e) (enum_node e)
                        else Some (m, enum_bucket e, enum_node e));
       let e1 = e\<lparr>enum_node := node, enum_bucket := b\<rparr>;
       (case node of
          None \<Rightarrow> Some (m1, e1, None)
        | Some n \<Rightarrow>
            do {
              (m2, next') \<leftarrow> skip_dead t (weak_dead t) m1 b (nextInBucket m1 n);
              (m3, b3, next3) \<leftarrow> advance_bucket t (weak_dead t) m2 b next';
              Some (m3, e1\<lparr>enum_node := next3, enum_bucket := b3\<rparr>, Some n)
            })
     }"

text \<open>
  Fast enumeration keeps the enumerator in the state of the caller: \<open>fast_state\<close> is 0 before
  the first call and counts the objects handed out since.
\<close>

record fast_enumeration =
  fast_state :: nat
  fast_extra :: GSIMapEnumerator

fun fast_fill ::
  "('k, 'v) map_traits \<Rightarrow> ('k, 'v) GSIMapTable \<Rightarrow> GSIMapEnumerator \<Rightarrow> nat \<Rightarrow> 'k list \<Rightarrow>
     (('k, 'v) GSIMapTable \<times> GSIMapEnumerator \<times> 'k list) option" where
  "fast_fill t m e 0 objs = Some (m, e, objs)"
| "fast_fill t m e (Suc len) objs =
     do {
       (m', e', r) \<leftarrow> (if has_value t
          then map_option (\<lambda>(m', e', r). (m', e', map_option fst r)) (GSIMapEnumeratorNext t m e)
          else map_option (\<lambda>(e', r). (m, e', r)) (GSIMapEnumeratorNextKey t m e));
       (case r of None \<Rightarrow> Some (m', e', objs) | Some k \<Rightarrow> fast_fill t m' e' len (objs @ [k]))
     }"

definition GSIMapCountByEnumeratingWithStateObjectsCount ::
  "('k, 'v) map_traits \<Rightarrow> ('k, 'v) GSIMapTable \<Rightarrow> fast_enumeration \<Rightarrow> nat \<Rightarrow>
     (('k, 'v) GSIMapTable \<times> fast_enumeration \<times> 'k list) option" where
  "GSIMapCountByEnumeratingWithStateObjectsCount t m st len =
     do {
       (m1, e) \<leftarrow> (if fast_state st = 0 then GSIMapEnumeratorForMap t m else Some (m, fast_extra st));
       (m2, e2, objs) \<leftarrow> fast_fill t m1 e len [];
       Some (m2, st\<lparr>fast_extra := e2, fast_state := uadd (fast_state st) (length objs)\<rparr>, objs)
     }"

end
