(* ===== verification/GSI_Map_Rep.thy ===== *)
theory GSI_Map_Rep
  imports GSI_Map "HOL-Library.Multiset"
begin

text \<open>
  The representation invariant of the hash table: the bucket lists and the list of free
  nodes are chains in the heap without a node in common, each bucket knows its length, and a
  node is in the bucket its key hashes to. Each elementary operation of \<open>GSI_Map\<close> is
  described here by what it does to these lists; \<open>GSI_Map_Spec\<close> draws the conclusions about
  the table as a container.
\<close>

section \<open>Chains of nodes\<close>

fun chain :: "(addr \<Rightarrow> addr option) \<Rightarrow> addr option \<Rightarrow> addr list \<Rightarrow> bool" where
  "chain nx p [] \<longleftrightarrow> p = None"
| "chain nx p (a # as) \<longleftrightarrow> p = Some a \<and> chain nx (nx a) as"

fun head_of :: "'a list \<Rightarrow> 'a option" where
  "head_of [] = None"
| "head_of (x # xs) = Some x"

lemma chain_head: "chain nx p as \<Longrightarrow> p = head_of as"
  by (cases as) auto

lemma chain_frame [simp]: "n \<notin> set as \<Longrightarrow> chain (nx(n := q)) p as \<longleftrightarrow> chain nx p as"
  by (induction as arbitrary: p) auto

lemma chain_tail: "chain nx p (as @ b # bs) \<Longrightarrow> chain nx (nx b) bs"
  by (induction as arbitrary: p) auto

lemma chain_next: "chain nx p (as @ b # bs) \<Longrightarrow> nx b = head_of bs"
  by (metis chain_tail chain_head)

lemma chain_mid: "chain nx p (as @ b # bs) \<Longrightarrow> chain nx (Some b) (b # bs)"
  by (induction as arbitrary: p) auto

lemma chain_cut:
  "chain nx p (as @ b # c # cs) \<Longrightarrow> distinct (as @ b # c # cs) \<Longrightarrow>
     chain (nx(b := nx c)) p (as @ b # cs)"
  by (induction as arbitrary: p) auto

lemma find_previous_chain:
  assumes "chain nx (Some a) (a # as @ n # bs)" and "distinct (a # as @ n # bs)"
  shows "find_previous nx n a = Some (last (a # as))"
  using assms
proof (induction as arbitrary: a)
  case Nil
  then show ?case by (simp add: find_previous.simps)
next
  case (Cons b as)
  then have "nx a = Some b" and "b \<noteq> n" by auto
  moreover have "find_previous nx n b = Some (last (b # as))"
    using Cons.prems by (intro Cons.IH) auto
  ultimately show ?case by (simp add: find_previous.simps [of nx n a])
qed

section \<open>Buckets in the heap\<close>

definition bucket_rep :: "(addr \<Rightarrow> addr option) \<Rightarrow> GSIMapBucket \<Rightarrow> addr list \<Rightarrow> bool" where
  "bucket_rep nx b as \<longleftrightarrow> chain nx (firstNode b) as \<and> bucketNodes b = length as"

definition heap_rep ::
  "(addr \<Rightarrow> addr option) \<Rightarrow> GSIMapBucket list \<Rightarrow> addr list list \<Rightarrow> addr option \<Rightarrow> addr list \<Rightarrow> bool" where
  "heap_rep nx bks Ls f F \<longleftrightarrow>
     list_all2 (bucket_rep nx) bks Ls \<and> chain nx f F \<and> distinct (concat Ls @ F)"

lemma bucket_rep_frame [simp]: "n \<notin> set as \<Longrightarrow> bucket_rep (nx(n := q)) b as \<longleftrightarrow> bucket_rep nx b as"
  by (simp add: bucket_rep_def)

lemma buckets_frame:
  assumes "list_all2 (bucket_rep nx) bks Ls" and "n \<notin> set (concat Ls)"
  shows "list_all2 (bucket_rep (nx(n := q))) bks Ls"
  using assms by (auto simp: list_all2_conv_all_nth)

lemma heap_rep_length: "heap_rep nx bks Ls f F \<Longrightarrow> length bks = length Ls"
  by (auto simp: heap_rep_def dest: list_all2_lengthD)

lemma heap_rep_nth:
  "heap_rep nx bks Ls f F \<Longrightarrow> i < length Ls \<Longrightarrow> bucket_rep nx (bks ! i) (Ls ! i)"
  by (auto simp: heap_rep_def list_all2_conv_all_nth)

lemma heap_rep_first: "heap_rep nx bks Ls f F \<Longrightarrow> i < length Ls \<Longrightarrow> firstNode (bks ! i) = head_of (Ls ! i)"
  by (metis heap_rep_nth bucket_rep_def chain_head)

lemma heap_rep_free: "heap_rep nx bks Ls f F \<Longrightarrow> f = head_of F"
  by (auto simp: heap_rep_def chain_head)

text \<open>A heap around its bucket \<open>i\<close>.\<close>

lemma heap_rep_split:
  assumes "heap_rep nx bks Ls f F" and "i < length Ls"
  obtains P Q bP bQ where "Ls = P @ Ls ! i # Q" "bks = bP @ bks ! i # bQ" "length P = i" "length bP = i"
    "list_all2 (bucket_rep nx) bP P" "list_all2 (bucket_rep nx) bQ Q" "bucket_rep nx (bks ! i) (Ls ! i)"
proof
  have l: "length bks = length Ls" using assms(1) by (rule heap_rep_length)
  show "Ls = take i Ls @ Ls ! i # drop (Suc i) Ls" using assms(2) by (rule id_take_nth_drop)
  show "bks = take i bks @ bks ! i # drop (Suc i) bks" using assms(2) l by (simp add: id_take_nth_drop)
  show "length (take i Ls) = i" "length (take i bks) = i" using assms(2) l by simp_all
  show "list_all2 (bucket_rep nx) (take i bks) (take i Ls)"
    "list_all2 (bucket_rep nx) (drop (Suc i) bks) (drop (Suc i) Ls)"
    using assms(1) by (simp_all add: heap_rep_def list_all2_takeI list_all2_dropI)
  show "bucket_rep nx (bks ! i) (Ls ! i)" using assms by (rule heap_rep_nth)
qed

text \<open>Changing one bucket, given what else has to hold.\<close>

lemma heap_rep_update:
  assumes "heap_rep nx bks Ls f F" and "i < length Ls"
    and "list_all2 (bucket_rep nx') (take i bks) (take i Ls)"
    and "list_all2 (bucket_rep nx') (drop (Suc i) bks) (drop (Suc i) Ls)"
    and "bucket_rep nx' b' as'" and "chain nx' f' F'"
    and "distinct (concat (take i Ls) @ as' @ concat (drop (Suc i) Ls) @ F')"
  shows "heap_rep nx' (bks[i := b']) (Ls[i := as']) f' F'"
proof -
  have l: "length bks = length Ls" using assms(1) by (rule heap_rep_length)
  have "Ls[i := as'] = take i Ls @ as' # drop (Suc i) Ls" using assms(2) by (rule upd_conv_take_nth_drop)
  moreover have "bks[i := b'] = take i bks @ b' # drop (Suc i) bks"
    using assms(2) l by (simp add: upd_conv_take_nth_drop)
  ultimately show ?thesis
    using assms(3-7) by (simp add: heap_rep_def list_all2_appendI)
qed

lemma heap_rep_parts:
  assumes "heap_rep nx bks Ls f F" and "i < length Ls"
  shows "list_all2 (bucket_rep nx) (take i bks) (take i Ls)"
    "list_all2 (bucket_rep nx) (drop (Suc i) bks) (drop (Suc i) Ls)"
    "chain nx f F"
    "distinct (concat (take i Ls) @ Ls ! i @ concat (drop (Suc i) Ls) @ F)"
proof -
  show "list_all2 (bucket_rep nx) (take i bks) (take i Ls)"
    "list_all2 (bucket_rep nx) (drop (Suc i) bks) (drop (Suc i) Ls)" "chain nx f F"
    using assms(1) by (simp_all add: heap_rep_def list_all2_takeI list_all2_dropI)
  have "concat Ls = concat (take i Ls @ Ls ! i # drop (Suc i) Ls)"
    using assms(2) id_take_nth_drop by metis
  then show "distinct (concat (take i Ls) @ Ls ! i @ concat (drop (Suc i) Ls) @ F)"
    using assms(1) by (simp add: heap_rep_def)
qed

lemma set_concat_part:
  assumes "i < length Ls"
  shows "set (concat Ls) = set (concat (take i Ls)) \<union> set (Ls ! i) \<union> set (concat (drop (Suc i) Ls))"
proof -
  have "concat Ls = concat (take i Ls @ Ls ! i # drop (Suc i) Ls)"
    using assms id_take_nth_drop by metis
  then show ?thesis by (simp only: concat_append concat.simps set_append) blast
qed

lemma mset_concat_update:
  assumes "i < length Ls"
  shows "mset (concat (Ls[i := as])) + mset (Ls ! i) = mset (concat Ls) + mset as"
proof -
  have "concat Ls = concat (take i Ls @ Ls ! i # drop (Suc i) Ls)"
    using assms id_take_nth_drop by metis
  moreover have "concat (Ls[i := as]) = concat (take i Ls @ as # drop (Suc i) Ls)"
    using assms by (simp add: upd_conv_take_nth_drop)
  ultimately show ?thesis by simp
qed

section \<open>Elementary operations\<close>

lemma distinct_drop_one: "distinct (A @ (as @ n # bs) @ B) \<Longrightarrow> distinct (A @ (as @ bs) @ B)"
  by auto

text \<open>Taking a node out of its bucket.\<close>

lemma remove_from_bucket:
  assumes h: "heap_rep nx bks Ls f F" and i: "i < length Ls" and split: "Ls ! i = as @ n # bs"
    and small: "length (Ls ! i) < UINT_SPAN"
  obtains nx' b' where "GSIMapRemoveNodeFromBucket nx (bks ! i) n = Some (nx', b')"
    "heap_rep nx' (bks[i := b']) (Ls[i := as @ bs]) f F" "nx' n = None"
    "\<And>a. a \<notin> set as \<Longrightarrow> a \<noteq> n \<Longrightarrow> nx' a = nx a"
proof -
  note parts = heap_rep_parts [OF h i]
  let ?b = "(bks ! i)\<lparr>bucketNodes := usub (bucketNodes (bks ! i)) 1\<rparr>"
  have b: "chain nx (firstNode (bks ! i)) (as @ n # bs)" "bucketNodes (bks ! i) = length (as @ n # bs)"
    using heap_rep_nth [OF h i] by (simp_all add: bucket_rep_def split)
  have c: "bucketNodes ?b = length (as @ bs)" using b small by (simp add: split bounds_simps)
  have d: "distinct (as @ n # bs)" using parts(4) unfolding split by (simp only: distinct_append)
  have e: "distinct (concat (take i Ls) @ (as @ bs) @ concat (drop (Suc i) Ls) @ F)"
    by (rule distinct_drop_one [OF parts(4) [unfolded split]])
  have frame: "list_all2 (bucket_rep (nx(q := x))) (take i bks) (take i Ls)"
    "list_all2 (bucket_rep (nx(q := x))) (drop (Suc i) bks) (drop (Suc i) Ls)"
    "chain (nx(q := x)) f F" if "q \<in> set (as @ n # bs)" for q x
    using parts that by (auto intro!: buckets_frame simp: split)
  show thesis
  proof (cases as rule: rev_cases)
    case Nil
    then have u: "GSIMapRemoveNodeFromBucket nx (bks ! i) n = Some (nx(n := None), ?b\<lparr>firstNode := nx n\<rparr>)"
      using b by (simp add: GSIMapRemoveNodeFromBucket_def GSIMapUnlinkNodeFromBucket_def)
    have "bucket_rep (nx(n := None)) (?b\<lparr>firstNode := nx n\<rparr>) (as @ bs)"
      using b c d Nil by (simp add: bucket_rep_def)
    then have "heap_rep (nx(n := None)) (bks[i := ?b\<lparr>firstNode := nx n\<rparr>]) (Ls[i := as @ bs]) f F"
      using e frame [of n None] by (intro heap_rep_update [OF h i]) simp_all
    then show thesis by (rule that [OF u]) auto
  next
    case (snoc as0 p)
    obtain a as1 where as1: "as = a # as1" by (cases as) (use snoc in auto)
    have fa: "firstNode (bks ! i) = Some a" using b(1) as1 by simp
    have an: "a \<noteq> n" using d as1 by auto
    have lp: "last as = p" using snoc by simp
    have "find_previous nx n a = Some (last (a # as1))"
      using b(1) d fa by (intro find_previous_chain [where bs = bs]) (simp_all add: as1)
    then have "find_previous nx n a = Some p" using lp as1 by simp
    then have u: "GSIMapRemoveNodeFromBucket nx (bks ! i) n = Some (nx(p := nx n, n := None), ?b)"
      using fa an by (simp add: GSIMapRemoveNodeFromBucket_def GSIMapUnlinkNodeFromBucket_def)
    have "chain (nx(p := nx n)) (firstNode (bks ! i)) (as0 @ p # bs)"
      using b(1) d snoc by (intro chain_cut) simp_all
    then have "bucket_rep (nx(p := nx n, n := None)) ?b (as @ bs)"
      using c d snoc by (simp add: bucket_rep_def)
    moreover have frame2: "list_all2 (bucket_rep (nx(p := nx n, n := None))) (take i bks) (take i Ls)"
      "list_all2 (bucket_rep (nx(p := nx n, n := None))) (drop (Suc i) bks) (drop (Suc i) Ls)"
      "chain (nx(p := nx n, n := None)) f F"
      using frame [of p "nx n"] parts(4) snoc by (auto intro!: buckets_frame simp: split)
    ultimately have "heap_rep (nx(p := nx n, n := None)) (bks[i := ?b]) (Ls[i := as @ bs]) f F"
      using e frame2 by (intro heap_rep_update [OF h i]) simp_all
    then show thesis by (rule that [OF u]) (auto simp: snoc)
  qed
qed

text \<open>Putting a node that is in no list in front of a bucket, or of the free nodes.\<close>

lemma add_to_front:
  assumes h: "heap_rep nx bks Ls f F" and i: "i < length Ls" and n: "n \<notin> set (concat Ls @ F)"
    and add: "GSIMapAddNodeToBucket nx (bks ! i) n = (nx', b')"
  shows "heap_rep nx' (bks[i := b']) (Ls[i := n # Ls ! i]) f F"
proof -
  note parts = heap_rep_parts [OF h i]
  have r: "nx' = nx(n := firstNode (bks ! i))"
    "b' = (bks ! i)\<lparr>firstNode := Some n, bucketNodes := bucketNodes (bks ! i) + 1\<rparr>"
    using add by (auto simp: GSIMapAddNodeToBucket_def GSIMapLinkNodeIntoBucket_def)
  have out: "n \<notin> set (concat (take i Ls))" "n \<notin> set (Ls ! i)" "n \<notin> set (concat (drop (Suc i) Ls))" "n \<notin> set F"
    using n set_concat_part [OF i] by auto
  show ?thesis
  proof (rule heap_rep_update [OF h i])
    show "bucket_rep nx' b' (n # Ls ! i)"
      using heap_rep_nth [OF h i] out by (simp add: bucket_rep_def r)
    show "distinct (concat (take i Ls) @ (n # Ls ! i) @ concat (drop (Suc i) Ls) @ F)"
      using parts(4) out by auto
  qed (use parts out in \<open>auto simp: r intro!: buckets_frame\<close>)
qed

lemma add_to_free:
  assumes "heap_rep nx bks Ls f F" and "n \<notin> set (concat Ls @ F)"
  shows "heap_rep (nx(n := f)) bks Ls (Some n) (n # F)"
  using assms by (auto simp: heap_rep_def intro!: buckets_frame)

lemma take_free:
  assumes "heap_rep nx bks Ls f (n # F)"
  shows "f = Some n" "heap_rep (nx(n := None)) bks Ls (nx n) F" "n \<notin> set (concat Ls @ F)"
  using assms by (auto simp: heap_rep_def intro!: buckets_frame)

section \<open>Tables\<close>

declare set_concat [simp del]

text \<open>What a node stands for, and whether its weak references still load.\<close>

definition pair_at :: "('k, 'v) GSIMapTable \<Rightarrow> addr \<Rightarrow> 'k \<times> 'v" where
  "pair_at m n = (the (node_key m n), the (node_value m n))"

definition contents :: "('k, 'v) GSIMapTable \<Rightarrow> addr list list \<Rightarrow> ('k \<times> 'v) multiset" where
  "contents m Ls = image_mset (pair_at m) (mset (concat Ls))"

definition live :: "('k, 'v) map_traits \<Rightarrow> 'k \<times> 'v \<Rightarrow> bool" where
  "live t p \<longleftrightarrow> \<not> (zeroed t AND 1 \<noteq> 0 \<and> key_gone t (fst p)) \<and>
     \<not> (has_value t \<and> zeroed t AND 2 \<noteq> 0 \<and> value_gone t (snd p))"

lemma GSIMapWeakIsEmpty_live: "GSIMapWeakIsEmpty t m n \<longleftrightarrow> zeroed t \<noteq> 0 \<and> \<not> live t (pair_at m n)"
  by (auto simp: GSIMapWeakIsEmpty_def live_def pair_at_def)

lemma live_strong [simp]: "zeroed t = 0 \<Longrightarrow> live t p"
  by (simp add: live_def)

text \<open>
  \<open>nb\<close> are buckets being filled besides those of the table, while it is resized; \<open>Ls\<close> are
  the nodes of all of them, \<open>F\<close> the free nodes. Every node in use has a key and a value; free nodes are cleared.
\<close>

definition table_rep ::
  "('k, 'v) GSIMapTable \<Rightarrow> GSIMapBucket list \<Rightarrow> addr list list \<Rightarrow> addr list \<Rightarrow> bool" where
  "table_rep m nb Ls F \<longleftrightarrow>
     heap_rep (nextInBucket m) (buckets m @ nb) Ls (freeNodes m) F \<and>
     nodeCount m = length (concat Ls) \<and> nodeCount m < 2 ^ 62 \<and>
     (\<forall>n \<in> set (concat Ls). node_key m n \<noteq> None \<and> node_value m n \<noteq> None) \<and>
     (\<forall>n \<in> set F. node_key m n = None) \<and>
     (\<forall>n \<in> set (concat Ls @ F). n < heap_end m)"

definition placed :: "('k, 'v) map_traits \<Rightarrow> ('k, 'v) GSIMapTable \<Rightarrow> addr list list \<Rightarrow> bool" where
  "placed t m Ls \<longleftrightarrow>
     (\<forall>i < length Ls. \<forall>n \<in> set (Ls ! i).
        GSIMapPickBucket (hash_of t (fst (pair_at m n))) (length Ls) = Some i)"

text \<open>
  The books of a table that holds \<open>E\<close>: the releases made so far and those its entries will
  lead to; and the retains.
\<close>

fun is_release :: "('k, 'v) map_event \<Rightarrow> bool" where
  "is_release (ReleaseKey _) = True"
| "is_release (ReleaseValue _) = True"
| "is_release _ = False"

definition owed :: "('k, 'v) map_traits \<Rightarrow> ('k \<times> 'v) \<Rightarrow> ('k, 'v) map_event multiset" where
  "owed t p = mset (ReleaseKey (fst p) # (if has_value t then [ReleaseValue (snd p)] else []))"

definition ledger ::
  "('k, 'v) map_traits \<Rightarrow> ('k, 'v) GSIMapTable \<Rightarrow> ('k \<times> 'v) multiset \<Rightarrow>
     ('k, 'v) map_event multiset \<times> ('k, 'v) map_event multiset" where
  "ledger t m E = (filter_mset is_release (mset (events m)) + sum_mset (image_mset (owed t) E),
                   filter_mset (\<lambda>e. \<not> is_release e) (mset (events m)))"

lemma release_events_owed:
  "mset (release_events t m n) = owed t (pair_at m n)"
  by (simp add: release_events_def owed_def pair_at_def)

lemma filter_owed: "filter_mset is_release (owed t p) = owed t p" "filter_mset (\<lambda>e. \<not> is_release e) (owed t p) = {#}"
  by (simp_all add: owed_def)

text \<open>Steps that only take entries \<open>D\<close> out, freeing their nodes.\<close>

definition same_shape :: "('k, 'v) GSIMapTable \<Rightarrow> ('k, 'v) GSIMapTable \<Rightarrow> bool" where
  "same_shape m m' \<longleftrightarrow> bucketCount m' = bucketCount m \<and> length (buckets m') = length (buckets m) \<and>
     heap_end m' = heap_end m \<and> increment m' = increment m \<and> chunkCount m' = chunkCount m \<and>
     nodeChunks m' = nodeChunks m"

definition drops ::
  "('k, 'v) map_traits \<Rightarrow> ('k, 'v) GSIMapTable \<Rightarrow> addr list list \<Rightarrow> ('k, 'v) GSIMapTable \<Rightarrow> addr list list \<Rightarrow>
     ('k \<times> 'v) multiset \<Rightarrow> bool" where
  "drops t m Ls m' Ls' D \<longleftrightarrow>
     same_shape m m' \<and> length Ls' = length Ls \<and>
     contents m Ls = contents m' Ls' + D \<and>
     ledger t m' (contents m' Ls') = ledger t m (contents m Ls) \<and>
     (\<forall>n \<in> set (concat Ls'). n \<in> set (concat Ls) \<and> node_key m' n = node_key m n \<and> node_value m' n = node_value m n) \<and>
     (\<forall>n. n \<notin> set (concat Ls) \<longrightarrow> node_key m' n = node_key m n \<and> node_value m' n = node_value m n)"

lemma drops_refl: "drops t m Ls m Ls {#}"
  by (simp add: drops_def same_shape_def)

lemma drops_trans:
  "drops t m Ls m1 Ls1 D1 \<Longrightarrow> drops t m1 Ls1 m2 Ls2 D2 \<Longrightarrow> drops t m Ls m2 Ls2 (D1 + D2)"
  by (auto simp: drops_def same_shape_def ac_simps)

lemma drops_pair_at: "drops t m Ls m' Ls' D \<Longrightarrow> n \<in> set (concat Ls') \<Longrightarrow> pair_at m' n = pair_at m n"
  by (simp add: drops_def pair_at_def)

lemma contents_cong:
  "(\<And>n. n \<in> set (concat Ls) \<Longrightarrow> pair_at m' n = pair_at m n) \<Longrightarrow> contents m' Ls = contents m Ls"
  unfolding contents_def by (rule image_mset_cong) simp

lemma contents_remove:
  assumes "i < length Ls" and "Ls ! i = as @ n # bs"
  shows "contents m Ls = add_mset (pair_at m n) (contents m (Ls[i := as @ bs]))"
proof -
  have "mset (concat Ls) = add_mset n (mset (concat (Ls[i := as @ bs])))"
    using mset_concat_update [OF assms(1), of "as @ bs"] assms(2) by simp
  then show ?thesis by (simp add: contents_def)
qed

lemma placed_subset:
  assumes "placed t m Ls" and "length Ls' = length Ls"
    and "\<And>i. i < length Ls \<Longrightarrow> set (Ls' ! i) \<subseteq> set (Ls ! i)"
    and "\<And>n. n \<in> set (concat Ls') \<Longrightarrow> pair_at m' n = pair_at m n"
  shows "placed t m' Ls'"
  unfolding placed_def
proof (intro allI impI ballI)
  fix i n assume i: "i < length Ls'" and n: "n \<in> set (Ls' ! i)"
  then have "n \<in> set (concat Ls')" by (auto simp: set_concat)
  moreover have "n \<in> set (Ls ! i)" using assms(2,3) i n by auto
  ultimately show "GSIMapPickBucket (hash_of t (fst (pair_at m' n))) (length Ls') = Some i"
    using assms(1,2,4) i by (simp add: placed_def)
qed

lemma table_rep_heap: "table_rep m nb Ls F \<Longrightarrow> heap_rep (nextInBucket m) (buckets m @ nb) Ls (freeNodes m) F"
  by (simp add: table_rep_def)

lemma table_rep_length: "table_rep m nb Ls F \<Longrightarrow> length Ls = length (buckets m) + length nb"
  by (drule table_rep_heap, drule heap_rep_length) simp

lemma table_rep_first:
  assumes "table_rep m nb Ls F" and "i < length (buckets m)"
  shows "firstNode (buckets m ! i) = head_of (Ls ! i)"
  using heap_rep_first [OF table_rep_heap [OF assms(1)], of i] table_rep_length [OF assms(1)] assms(2)
  by (simp add: nth_append)

lemma length_bucket_le:
  assumes "i < length Ls"
  shows "length (Ls ! i) \<le> length (concat Ls)"
  using assms by (simp add: length_concat member_le_sum_list)

text \<open>Removing a node from the table and freeing it.\<close>

lemma remove_and_free:
  assumes r: "table_rep m nb Ls F" and i: "i < length (buckets m)" and split: "Ls ! i = as @ n # bs"
  obtains m1 where "GSIMapRemoveNodeFromMap m i n = Some m1"
    "table_rep (GSIMapFreeNode t m1 n) nb (Ls[i := as @ bs]) (n # F)"
    "drops t m Ls (GSIMapFreeNode t m1 n) (Ls[i := as @ bs]) {#pair_at m n#}"
    "\<And>a. a \<notin> set as \<Longrightarrow> a \<noteq> n \<Longrightarrow> nextInBucket (GSIMapFreeNode t m1 n) a = nextInBucket m a"
    "nextInBucket m n = head_of bs"
proof -
  have iL: "i < length Ls" using i table_rep_length [OF r] by simp
  have cnt: "nodeCount m = length (concat Ls)" "nodeCount m < 2 ^ 62"
    using r by (simp_all add: table_rep_def)
  have small: "length (Ls ! i) < UINT_SPAN" using length_bucket_le [OF iL] cnt by simp
  have bi: "(buckets m @ nb) ! i = buckets m ! i" using i by (simp add: nth_append)
  obtain nx b' where rm: "GSIMapRemoveNodeFromBucket (nextInBucket m) (buckets m ! i) n = Some (nx, b')"
    and h: "heap_rep nx ((buckets m @ nb)[i := b']) (Ls[i := as @ bs]) (freeNodes m) F"
    and frame: "\<And>a. a \<notin> set as \<Longrightarrow> a \<noteq> n \<Longrightarrow> nx a = nextInBucket m a"
    by (rule remove_from_bucket [OF table_rep_heap [OF r] iL split small]) (simp add: bi)
  let ?Ls = "Ls[i := as @ bs]"
  have ms: "mset (concat Ls) = add_mset n (mset (concat ?Ls))"
    using mset_concat_update [OF iL, of "as @ bs"] by (simp add: split)
  then have st: "set (concat Ls) = insert n (set (concat ?Ls))"
    by (metis set_mset_mset set_mset_add_mset_insert)
  have len: "length (concat Ls) = Suc (length (concat ?Ls))"
    using ms by (metis size_mset size_add_mset)
  have dist: "distinct (concat Ls @ F)" using r by (simp add: table_rep_def heap_rep_def)
  have "distinct (concat Ls)" using dist by (simp only: distinct_append)
  then have n1: "n \<notin> set (concat ?Ls)"
    using ms by (metis distinct_count_atmost_1 count_add_mset count_mset_0_iff Suc_eq_plus1 add_cancel_left_left
        list.set_intros(1) nat.simps(3) set_mset_mset st insertI1)
  have n2: "n \<notin> set F" using dist st by (simp only: distinct_append) blast
  have upd: "(buckets m @ nb)[i := b'] = (buckets m)[i := b'] @ nb" using i by (simp add: list_update_append)
  define m1 where "m1 = m\<lparr>nodeCount := usub (nodeCount m) 1, nextInBucket := nx, buckets := (buckets m)[i := b']\<rparr>"
  let ?m = "GSIMapFreeNode t m1 n"
  have e: "GSIMapRemoveNodeFromMap m i n = Some m1"
    by (simp add: GSIMapRemoveNodeFromMap_def rm m1_def)
  have sel: "nodeCount ?m = length (concat ?Ls)" "buckets ?m = (buckets m)[i := b']" "freeNodes ?m = Some n"
    "nextInBucket ?m = nx(n := freeNodes m)" "node_key ?m = (node_key m)(n := None)" "heap_end ?m = heap_end m"
    "node_value ?m = (node_value m)(n := None)" "events ?m = events m @ release_events t m n"
    using cnt len by (simp_all add: GSIMapFreeNode_def m1_def bounds_simps release_events_def)
  have pairs: "pair_at ?m a = pair_at m a" if "a \<noteq> n" for a using that by (simp add: pair_at_def sel)
  have "heap_rep (nx(n := freeNodes m)) ((buckets m)[i := b'] @ nb) ?Ls (Some n) (n # F)"
    using add_to_free [OF h] n1 n2 upd by simp
  then have rep: "table_rep ?m nb ?Ls (n # F)"
    using r st n1 cnt len by (auto simp: table_rep_def sel)
  have cs: "contents ?m ?Ls = contents m ?Ls"
    using n1 pairs by (intro contents_cong) (metis (no_types))
  have "drops t m Ls ?m ?Ls {#pair_at m n#}"
    unfolding drops_def
  proof (intro conjI)
    show "same_shape m ?m" by (simp add: same_shape_def GSIMapFreeNode_def m1_def)
    show "contents m Ls = contents ?m ?Ls + {#pair_at m n#}"
      using contents_remove [OF iL split, of m] by (simp add: cs)
    show "ledger t ?m (contents ?m ?Ls) = ledger t m (contents m Ls)"
      using contents_remove [OF iL split, of m]
      by (simp add: ledger_def sel cs release_events_owed filter_owed)
    show "\<forall>a \<in> set (concat ?Ls). a \<in> set (concat Ls) \<and> node_key ?m a = node_key m a \<and> node_value ?m a = node_value m a"
      using st n1 by (auto simp: sel)
    show "\<forall>a. a \<notin> set (concat Ls) \<longrightarrow> node_key ?m a = node_key m a \<and> node_value ?m a = node_value m a"
      using st by (auto simp: sel)
  qed simp
  moreover have "nextInBucket m n = head_of bs"
    using heap_rep_nth [OF table_rep_heap [OF r] iL] split chain_next by (simp add: bucket_rep_def) blast
  moreover have "nextInBucket ?m a = nextInBucket m a" if "a \<notin> set as" "a \<noteq> n" for a
    using frame [OF that] that by (simp add: sel)
  ultimately show thesis using e rep by (intro that) simp_all
qed

section \<open>Loops over a bucket\<close>

definition only_dead :: "('k, 'v) map_traits \<Rightarrow> ('k \<times> 'v) multiset \<Rightarrow> bool" where
  "only_dead t D \<longleftrightarrow> (\<forall>p \<in># D. \<not> live t p)"

lemma only_dead_simps [simp]:
  "only_dead t {#}" "only_dead t (add_mset p D) \<longleftrightarrow> \<not> live t p \<and> only_dead t D"
  "only_dead t (D + D') \<longleftrightarrow> only_dead t D \<and> only_dead t D'"
  by (auto simp: only_dead_def)

lemma only_dead_strong: "zeroed t = 0 \<Longrightarrow> only_dead t D \<longleftrightarrow> D = {#}"
  by (simp add: only_dead_def multiset_eq_iff not_in_iff)

lemma in_updated: "i < length Ls \<Longrightarrow> a \<in> set as \<Longrightarrow> a \<in> set (concat (Ls[i := as]))"
  by (auto simp: set_concat intro: set_update_memI)

lemma drops_shape: "drops t m Ls m' Ls' D \<Longrightarrow> same_shape m m' \<and> length Ls' = length Ls"
  by (simp add: drops_def)

lemma drops_length [simp]: "drops t m Ls m' Ls' D \<Longrightarrow> length (buckets m') = length (buckets m)"
  by (simp add: drops_def same_shape_def)

lemma remove_weak_chain_drops:
  assumes "table_rep m [] Ls F" and "i < length (buckets m)" and "Ls ! i = as @ cs" and "zeroed t \<noteq> 0"
  shows "\<exists>m' cs' F' D. remove_weak_chain t m i (head_of cs) = Some m' \<and>
    table_rep m' [] (Ls[i := as @ cs']) F' \<and> drops t m Ls m' (Ls[i := as @ cs']) D \<and> only_dead t D \<and>
    set cs' \<subseteq> set cs \<and> (\<forall>a \<in> set cs'. live t (pair_at m' a))"
  using assms
proof (induction cs arbitrary: m Ls F as)
  case Nil
  then have "Ls[i := as @ []] = Ls" by (metis append_Nil2 list_update_id)
  then show ?case using Nil
    by (intro exI [of _ m] exI [of _ "[]"] exI [of _ F] exI [of _ "{#}"])
      (simp add: remove_weak_chain.simps drops_refl)
next
  case (Cons n cs)
  have iL: "i < length Ls" using Cons.prems(1,2) table_rep_length by fastforce
  obtain m1 where m1: "GSIMapRemoveNodeFromMap m i n = Some m1"
    "table_rep (GSIMapFreeNode t m1 n) [] (Ls[i := as @ cs]) (n # F)"
    "drops t m Ls (GSIMapFreeNode t m1 n) (Ls[i := as @ cs]) {#pair_at m n#}"
    "nextInBucket m n = head_of cs"
    using remove_and_free [OF Cons.prems(1,2,3)] by metis
  show ?case
  proof (cases "live t (pair_at m n)")
    case True
    obtain m' cs' F' D where IH: "remove_weak_chain t m i (head_of cs) = Some m'"
      "table_rep m' [] (Ls[i := (as @ [n]) @ cs']) F'" "drops t m Ls m' (Ls[i := (as @ [n]) @ cs']) D"
      "only_dead t D" "set cs' \<subseteq> set cs" "\<forall>a \<in> set cs'. live t (pair_at m' a)"
      using Cons.IH [of m Ls F "as @ [n]"] Cons.prems by auto
    have "n \<in> set (concat (Ls[i := (as @ [n]) @ cs']))"
      using iL by (simp add: in_updated)
    then have "pair_at m' n = pair_at m n" using drops_pair_at [OF IH(3)] by blast
    then show ?thesis using True IH m1(4)
      by (intro exI [of _ m'] exI [of _ "n # cs'"] exI [of _ F'] exI [of _ D])
        (auto simp: remove_weak_chain.simps [of t m] GSIMapWeakIsEmpty_live)
  next
    case False
    let ?m = "GSIMapFreeNode t m1 n"
    obtain m' cs' F' D where IH: "remove_weak_chain t ?m i (head_of cs) = Some m'"
      "table_rep m' [] ((Ls[i := as @ cs])[i := as @ cs']) F'"
      "drops t ?m (Ls[i := as @ cs]) m' ((Ls[i := as @ cs])[i := as @ cs']) D"
      "only_dead t D" "set cs' \<subseteq> set cs" "\<forall>a \<in> set cs'. live t (pair_at m' a)"
      using Cons.IH [of ?m "Ls[i := as @ cs]" "n # F" as] m1(2,3) Cons.prems(2,4) iL by auto
    have "drops t m Ls m' (Ls[i := as @ cs']) ({#pair_at m n#} + D)"
      using drops_trans [OF m1(3) IH(3)] by simp
    then show ?thesis using False IH m1 Cons.prems(4)
      by (intro exI [of _ m'] exI [of _ cs'] exI [of _ F'] exI [of _ "{#pair_at m n#} + D"])
        (auto simp: remove_weak_chain.simps [of t m] GSIMapWeakIsEmpty_live)
  qed
qed

lemma find_in_chain_find:
  assumes "chain (nextInBucket m) (head_of cs) cs"
  shows "find_in_chain t m k (head_of cs) = Some (find (\<lambda>n. equal_keys t (fst (pair_at m n)) k) cs)"
  using assms
proof (induction cs)
  case Nil
  show ?case by (simp add: find_in_chain.simps)
next
  case (Cons n cs)
  then have "nextInBucket m n = head_of cs" by (auto dest: chain_head)
  then show ?case using Cons by (simp add: find_in_chain.simps [of t m k "Some n"] pair_at_def)
qed

text \<open>Lookups in a weak table free the dead nodes they meet.\<close>

lemma find_weak_chain_drops:
  assumes "table_rep m [] Ls F" and "i < length (buckets m)" and "Ls ! i = as @ cs" and "zeroed t \<noteq> 0"
  shows "\<exists>m' cs' F' D. find_weak_chain t m i k (head_of cs) =
      Some (m', find (\<lambda>n. live t (pair_at m n) \<and> equal_keys t (fst (pair_at m n)) k) cs) \<and>
    table_rep m' [] (Ls[i := as @ cs']) F' \<and> drops t m Ls m' (Ls[i := as @ cs']) D \<and> only_dead t D \<and>
    set cs' \<subseteq> set cs \<and> {a \<in> set cs. live t (pair_at m a)} \<subseteq> set cs'"
  using assms
proof (induction cs arbitrary: m Ls F as)
  case Nil
  then have "Ls[i := as @ []] = Ls" by (metis append_Nil2 list_update_id)
  then show ?case using Nil
    by (intro exI [of _ m] exI [of _ "[]"] exI [of _ F] exI [of _ "{#}"])
      (simp add: find_weak_chain.simps drops_refl)
next
  case (Cons n cs)
  have iL: "i < length Ls" using Cons.prems(1,2) table_rep_length by fastforce
  obtain m1 where m1: "GSIMapRemoveNodeFromMap m i n = Some m1"
    "table_rep (GSIMapFreeNode t m1 n) [] (Ls[i := as @ cs]) (n # F)"
    "drops t m Ls (GSIMapFreeNode t m1 n) (Ls[i := as @ cs]) {#pair_at m n#}"
    "nextInBucket m n = head_of cs"
    using remove_and_free [OF Cons.prems(1,2,3)] by metis
  consider (dead) "\<not> live t (pair_at m n)" | (found) "live t (pair_at m n)" "equal_keys t (fst (pair_at m n)) k"
    | (other) "live t (pair_at m n)" "\<not> equal_keys t (fst (pair_at m n)) k" by blast
  then show ?case
  proof cases
    case dead
    let ?m = "GSIMapFreeNode t m1 n" and ?Ls = "Ls[i := as @ cs]"
    obtain m' cs' F' D where IH: "find_weak_chain t ?m i k (head_of cs) =
        Some (m', find (\<lambda>n. live t (pair_at ?m n) \<and> equal_keys t (fst (pair_at ?m n)) k) cs)"
      "table_rep m' [] (?Ls[i := as @ cs']) F'" "drops t ?m ?Ls m' (?Ls[i := as @ cs']) D" "only_dead t D"
      "set cs' \<subseteq> set cs" "{a \<in> set cs. live t (pair_at ?m a)} \<subseteq> set cs'"
      using Cons.IH [of ?m ?Ls "n # F" as] m1(2,3) Cons.prems(2,4) iL by auto
    have same: "pair_at ?m a = pair_at m a" if "a \<in> set cs" for a
      using drops_pair_at [OF m1(3) in_updated] that iL by simp
    have "drops t m Ls m' (Ls[i := as @ cs']) ({#pair_at m n#} + D)"
      using drops_trans [OF m1(3) IH(3)] by simp
    moreover have "find (\<lambda>n. live t (pair_at ?m n) \<and> equal_keys t (fst (pair_at ?m n)) k) cs =
        find (\<lambda>n. live t (pair_at m n) \<and> equal_keys t (fst (pair_at m n)) k) cs"
      by (rule find_cong) (simp_all add: same)
    moreover have "{a \<in> set cs. live t (pair_at m a)} \<subseteq> set cs'" using IH(6) same by auto
    moreover have "table_rep m' [] (Ls[i := as @ cs']) F'" using IH(2) by simp
    moreover have "find_weak_chain t m i k (Some n) = find_weak_chain t ?m i k (head_of cs)"
      using dead m1(1,4) Cons.prems(4)
      by (simp add: find_weak_chain.simps [of t m i k "Some n"] GSIMapWeakIsEmpty_live GSIMapRemoveAndFreeNode_def)
    ultimately show ?thesis using dead IH(1,4,5)
      by (intro exI [of _ m'] exI [of _ cs'] exI [of _ F'] exI [of _ "{#pair_at m n#} + D"]) auto
  next
    case found
    have "Ls[i := as @ n # cs] = Ls" using Cons.prems(3) by (metis list_update_id)
    then show ?thesis using found Cons.prems
      by (intro exI [of _ m] exI [of _ "n # cs"] exI [of _ F] exI [of _ "{#}"])
        (auto simp: find_weak_chain.simps [of t m i k "Some n"] GSIMapWeakIsEmpty_live drops_refl pair_at_def)
  next
    case other
    obtain m' cs' F' D where IH: "find_weak_chain t m i k (head_of cs) =
        Some (m', find (\<lambda>n. live t (pair_at m n) \<and> equal_keys t (fst (pair_at m n)) k) cs)"
      "table_rep m' [] (Ls[i := (as @ [n]) @ cs']) F'" "drops t m Ls m' (Ls[i := (as @ [n]) @ cs']) D"
      "only_dead t D" "set cs' \<subseteq> set cs" "{a \<in> set cs. live t (pair_at m a)} \<subseteq> set cs'"
      using Cons.IH [of m Ls F "as @ [n]"] Cons.prems by auto
    then show ?thesis using other m1(4)
      by (intro exI [of _ m'] exI [of _ "n # cs'"] exI [of _ F'] exI [of _ D])
        (auto simp: find_weak_chain.simps [of t m i k "Some n"] GSIMapWeakIsEmpty_live pair_at_def)
  qed
qed

end
