(* ===== verification/GSI_Map_Resize.thy ===== *)
theory GSI_Map_Resize
  imports GSI_Map_Rep
begin

text \<open>
  The operations of the hash table that touch every bucket or its memory: removing the dead
  entries of weak tables, moving all nodes to a new array of buckets, and allocating nodes.
\<close>

section \<open>Removing dead entries\<close>

lemma drops_subset:
  assumes "drops t m Ls m' (Ls[i := as']) D" and "set as' \<subseteq> set (Ls ! i)" and "j < length Ls"
  shows "set (Ls[i := as'] ! j) \<subseteq> set (Ls ! j)"
  using assms by (cases "i = j") auto

lemma remove_weak_buckets_drops:
  assumes "table_rep m [] Ls F" and "set is \<subseteq> {..<length (buckets m)}" and "zeroed t \<noteq> 0"
  shows "\<exists>m' Ls' F' D. remove_weak_buckets t m is = Some m' \<and> table_rep m' [] Ls' F' \<and>
    drops t m Ls m' Ls' D \<and> only_dead t D \<and> (\<forall>j < length Ls. set (Ls' ! j) \<subseteq> set (Ls ! j)) \<and>
    (\<forall>i \<in> set is. \<forall>a \<in> set (Ls' ! i). live t (pair_at m' a))"
  using assms
proof (induction "is" arbitrary: m Ls F)
  case Nil
  then show ?case by (auto simp: drops_refl intro!: exI [of _ Ls] exI [of _ "{#}"])
next
  case (Cons i "is")
  have i: "i < length (buckets m)" "i < length Ls" using Cons.prems(1,2) table_rep_length by fastforce+
  obtain m1 cs F1 D1 where one: "remove_weak_chain t m i (head_of (Ls ! i)) = Some m1"
    "table_rep m1 [] (Ls[i := cs]) F1" "drops t m Ls m1 (Ls[i := cs]) D1" "only_dead t D1"
    "set cs \<subseteq> set (Ls ! i)" "\<forall>a \<in> set cs. live t (pair_at m1 a)"
    using remove_weak_chain_drops [OF Cons.prems(1) i(1) _ Cons.prems(3), of "[]" "Ls ! i"] by auto
  obtain m' Ls' F' D where rest: "remove_weak_buckets t m1 is = Some m'" "table_rep m' [] Ls' F'"
    "drops t m1 (Ls[i := cs]) m' Ls' D" "only_dead t D"
    "\<forall>j < length Ls. set (Ls' ! j) \<subseteq> set (Ls[i := cs] ! j)"
    "\<forall>i \<in> set is. \<forall>a \<in> set (Ls' ! i). live t (pair_at m' a)"
    using Cons.IH [OF one(2) _ Cons.prems(3)] Cons.prems(2) drops_length [OF one(3)] by auto
  have l: "length Ls' = length Ls" using rest(3) by (simp add: drops_def)
  have "live t (pair_at m' a)" if a: "a \<in> set (Ls' ! i)" for a
  proof -
    have "set (Ls' ! i) \<subseteq> set (Ls[i := cs] ! i)" using rest(5) i(2) by blast
    then have "a \<in> set cs" using a i(2) by auto
    moreover have "a \<in> set (concat Ls')" using a i(2) l by (auto simp: set_concat)
    ultimately show ?thesis using one(6) drops_pair_at [OF rest(3)] by simp
  qed
  moreover have "\<forall>j < length Ls. set (Ls' ! j) \<subseteq> set (Ls ! j)"
    using rest(5) drops_subset [OF one(3,5)] by blast
  ultimately show ?case
    using one(1,4) rest drops_trans [OF one(3) rest(3)] table_rep_first [OF Cons.prems(1) i(1)]
    by (intro exI [of _ m'] exI [of _ Ls'] exI [of _ F'] exI [of _ "D1 + D"]) auto
qed

section \<open>Moving the nodes to new buckets\<close>

text \<open>The first node of bucket \<open>i\<close> moves to the front of the new bucket \<open>j\<close>.\<close>

lemma move_node:
  assumes r: "table_rep m nb Ls F" and i: "i < length (buckets m)" and split: "Ls ! i = n # bs"
    and j: "j < length nb"
    and rm: "GSIMapRemoveNodeFromBucket (nextInBucket m) (buckets m ! i) n = Some (nx, b)"
    and ad: "GSIMapAddNodeToBucket nx (nb ! j) n = (nx', b')"
  defines "m' \<equiv> m\<lparr>nextInBucket := nx', buckets := (buckets m)[i := b]\<rparr>"
    and "J \<equiv> length (buckets m) + j"
  shows "table_rep m' (nb[j := b']) (Ls[i := bs, J := n # Ls ! J]) F"
    "drops t m Ls m' (Ls[i := bs, J := n # Ls ! J]) {#}"
proof -
  have l: "length Ls = length (buckets m) + length nb" using r by (rule table_rep_length)
  have iL: "i < length Ls" and JL: "J < length Ls" and iJ: "i \<noteq> J" using i j l by (simp_all add: J_def)
  have cnt: "nodeCount m = length (concat Ls)" "nodeCount m < 2 ^ 62" using r by (simp_all add: table_rep_def)
  have small: "length (Ls ! i) < UINT_SPAN" using length_bucket_le [OF iL] cnt by simp
  let ?Ls1 = "Ls[i := bs]" and ?Ls2 = "Ls[i := bs, J := n # Ls ! J]"
  have h1: "heap_rep nx ((buckets m @ nb)[i := b]) ?Ls1 (freeNodes m) F"
    by (rule remove_from_bucket [OF table_rep_heap [OF r] iL, of "[]" n bs])
      (use rm split small i in \<open>simp_all add: nth_append\<close>)
  have ms: "mset (concat Ls) = add_mset n (mset (concat ?Ls1))"
    using mset_concat_update [OF iL, of bs] by (simp add: split)
  have dist: "distinct (concat Ls @ F)" using r by (simp add: table_rep_def heap_rep_def)
  have "distinct (n # concat ?Ls1 @ F)"
    using dist ms by (intro mset_eq_imp_distinct_iff [THEN iffD1, OF _ dist]) simp
  then have n: "n \<notin> set (concat ?Ls1 @ F)" by simp
  have J: "((buckets m @ nb)[i := b]) ! J = nb ! j" "?Ls1 ! J = Ls ! J"
    using i j iJ by (simp_all add: J_def nth_append)
  have "heap_rep nx' (((buckets m @ nb)[i := b])[J := b']) (?Ls1[J := n # ?Ls1 ! J]) (freeNodes m) F"
    using add_to_front [OF h1 _ n, of J nx' b'] JL J ad by simp
  moreover have "((buckets m @ nb)[i := b])[J := b'] = (buckets m)[i := b] @ nb[j := b']"
    using i j by (simp add: J_def list_update_append)
  ultimately have h2: "heap_rep nx' ((buckets m)[i := b] @ nb[j := b']) ?Ls2 (freeNodes m) F"
    using J by simp
  have ms2: "mset (concat ?Ls2) = mset (concat Ls)"
    using mset_concat_update [of J ?Ls1 "n # Ls ! J"] JL J ms by simp
  then have s: "set (concat ?Ls2) = set (concat Ls)" by (metis set_mset_mset)
  have "size (mset (concat ?Ls2)) = size (mset (concat Ls))" using ms2 by simp
  then have e: "length (concat ?Ls2) = length (concat Ls)" by (simp only: size_mset)
  have p: "pair_at m' = pair_at m" by (rule ext) (simp add: pair_at_def m'_def)
  then have c: "contents m' ?Ls2 = contents m Ls" by (simp only: contents_def ms2)
  have sel: "nodeCount m' = nodeCount m" "node_key m' = node_key m" "node_value m' = node_value m"
    "heap_end m' = heap_end m" "freeNodes m' = freeNodes m" "events m' = events m" "nextInBucket m' = nx'"
    "buckets m' = (buckets m)[i := b]"
    by (simp_all add: m'_def)
  show "table_rep m' (nb[j := b']) ?Ls2 F"
    using r h2 unfolding table_rep_def sel s e set_append by blast
  show "drops t m Ls m' ?Ls2 {#}"
    unfolding drops_def c s sel by (simp add: ledger_def m'_def same_shape_def)
qed

text \<open>The nodes of the new buckets, which follow the old ones in \<open>Ls\<close>, are where they belong.\<close>

definition new_placed ::
  "('k, 'v) map_traits \<Rightarrow> ('k, 'v) GSIMapTable \<Rightarrow> nat \<Rightarrow> addr list list \<Rightarrow> bool" where
  "new_placed t m c Ls \<longleftrightarrow>
     (\<forall>j < c. \<forall>n \<in> set (Ls ! (length (buckets m) + j)).
        GSIMapPickBucket (hash_of t (fst (pair_at m n))) c = Some j)"

lemma new_placed_subset:
  assumes "new_placed t m c Ls" and "drops t m Ls m' Ls' D" and "length Ls = length (buckets m) + c"
    and "\<And>j. j < c \<Longrightarrow> set (Ls' ! (length (buckets m) + j)) \<subseteq> set (Ls ! (length (buckets m) + j))"
  shows "new_placed t m' c Ls'"
  unfolding new_placed_def
proof (intro allI impI ballI)
  fix j n assume j: "j < c" and n: "n \<in> set (Ls' ! (length (buckets m') + j))"
  have b: "length (buckets m') = length (buckets m)" using assms(2) by (rule drops_length)
  have "length Ls' = length Ls" using assms(2) by (simp add: drops_def)
  then have "n \<in> set (concat Ls')" using n j assms(3) b by (auto simp: set_concat)
  then show "GSIMapPickBucket (hash_of t (fst (pair_at m' n))) c = Some j"
    using assms(1,4) n j drops_pair_at [OF assms(2)] by (auto simp: new_placed_def b)
qed

lemma remangle_chain_moves:
  assumes "table_rep m nb Ls F" and "i < length (buckets m)" and "Ls ! i = cs" and "0 < length nb"
    and "new_placed t m (length nb) Ls"
  shows "\<exists>m' nb' Ls' F' D. remangle_chain t m i nb = Some (m', nb') \<and> table_rep m' nb' Ls' F' \<and>
    length nb' = length nb \<and> drops t m Ls m' Ls' D \<and> only_dead t D \<and> Ls' ! i = [] \<and>
    (\<forall>k < length (buckets m). k \<noteq> i \<longrightarrow> Ls' ! k = Ls ! k) \<and> new_placed t m' (length nb) Ls'"
  using assms
proof (induction cs arbitrary: m nb Ls F)
  case Nil
  then show ?case
    using table_rep_first [OF Nil.prems(1,2)]
    by (auto simp: drops_refl remangle_chain.simps [of t m] intro!: exI [of _ Ls] exI [of _ "{#}"])
next
  case (Cons n cs)
  have l: "length Ls = length (buckets m) + length nb" using Cons.prems(1) by (rule table_rep_length)
  have iL: "i < length Ls" using Cons.prems(2) l by simp
  have first: "firstNode (buckets m ! i) = Some n"
    using table_rep_first [OF Cons.prems(1,2)] Cons.prems(3) by simp
  show ?case
  proof (cases "GSIMapWeakIsEmpty t m n")
    case True
    obtain m1 where m1: "GSIMapRemoveNodeFromMap m i n = Some m1"
      "table_rep (GSIMapFreeNode t m1 n) nb (Ls[i := cs]) (n # F)"
      "drops t m Ls (GSIMapFreeNode t m1 n) (Ls[i := cs]) {#pair_at m n#}"
      using remove_and_free [OF Cons.prems(1,2), of "[]" n cs] Cons.prems(3) by auto metis
    let ?m = "GSIMapFreeNode t m1 n" and ?Ls = "Ls[i := cs]"
    have p: "new_placed t ?m (length nb) ?Ls"
      using Cons.prems(2) l by (intro new_placed_subset [OF Cons.prems(5) m1(3)]) simp_all
    obtain m' nb' Ls' F' D where IH: "remangle_chain t ?m i nb = Some (m', nb')" "table_rep m' nb' Ls' F'"
      "length nb' = length nb" "drops t ?m ?Ls m' Ls' D" "only_dead t D" "Ls' ! i = []"
      "\<forall>k < length (buckets ?m). k \<noteq> i \<longrightarrow> Ls' ! k = ?Ls ! k" "new_placed t m' (length nb) Ls'"
      using Cons.IH [OF m1(2) _ _ Cons.prems(4) p] Cons.prems(2) iL drops_length [OF m1(3)] by auto
    have "remangle_chain t m i nb = Some (m', nb')"
      using True first m1(1) IH(1) by (simp add: remangle_chain.simps [of t m])
    moreover have "only_dead t ({#pair_at m n#} + D)" using True IH(5) by (simp add: GSIMapWeakIsEmpty_live)
    ultimately show ?thesis
      using IH drops_trans [OF m1(3) IH(4)] drops_length [OF m1(3)]
      by (intro exI [of _ m'] exI [of _ nb'] exI [of _ Ls'] exI [of _ F'] exI [of _ "{#pair_at m n#} + D"]) auto
  next
    case False
    have cnt: "length (Ls ! i) < UINT_SPAN"
      using length_bucket_le [OF iL] Cons.prems(1) by (simp add: table_rep_def)
    obtain nx b where rm: "GSIMapRemoveNodeFromBucket (nextInBucket m) (buckets m ! i) n = Some (nx, b)"
      by (rule remove_from_bucket [OF table_rep_heap [OF Cons.prems(1)] iL, of "[]" n cs])
        (use Cons.prems(2,3) cnt in \<open>simp_all add: nth_append\<close>)
    define j where "j = u32 (hash_of t (the (node_key m n))) mod length nb"
    have j: "GSIMapPickBucket (hash_of t (the (node_key m n))) (length nb) = Some j" "j < length nb"
      using Cons.prems(4) by (simp_all add: GSIMapPickBucket_def j_def)
    obtain nx' b' where ad: "GSIMapAddNodeToBucket nx (nb ! j) n = (nx', b')" by (rule prod.exhaust)
    define m2 where "m2 = m\<lparr>nextInBucket := nx', buckets := (buckets m)[i := b]\<rparr>"
    define J where "J = length (buckets m) + j"
    let ?Ls = "Ls[i := cs, J := n # Ls ! J]"
    have mv: "table_rep m2 (nb[j := b']) ?Ls F" "drops t m Ls m2 ?Ls {#}"
      using move_node [OF Cons.prems(1,2,3) j(2) rm ad] by (simp_all add: m2_def J_def)
    have "new_placed t m2 (length (nb[j := b'])) ?Ls"
      using Cons.prems(2,5) j l
      by (auto simp: new_placed_def m2_def J_def pair_at_def nth_list_update)
    moreover have "?Ls ! i = cs" "length (buckets m2) = length (buckets m)" "0 < length (nb[j := b'])"
      using iL Cons.prems(2,4) by (simp_all add: J_def m2_def)
    ultimately obtain m' nb' Ls' F' D where IH: "remangle_chain t m2 i (nb[j := b']) = Some (m', nb')"
      "table_rep m' nb' Ls' F'" "length nb' = length nb" "drops t m2 ?Ls m' Ls' D" "only_dead t D" "Ls' ! i = []"
      "\<forall>k < length (buckets m). k \<noteq> i \<longrightarrow> Ls' ! k = ?Ls ! k" "new_placed t m' (length nb) Ls'"
      using Cons.IH [OF mv(1)] Cons.prems(2) by auto
    have "remangle_chain t m i nb = Some (m', nb')"
      using False first rm j(1) ad IH(1) by (simp add: remangle_chain.simps [of t m] m2_def)
    moreover have "drops t m Ls m' Ls' D" using drops_trans [OF mv(2) IH(4)] by simp
    ultimately show ?thesis
      using IH by (intro exI [of _ m'] exI [of _ nb'] exI [of _ Ls'] exI [of _ F'] exI [of _ D]) (auto simp: J_def)
  qed
qed

lemma remangle_buckets_moves:
  assumes "table_rep m nb Ls F" and "set is \<subseteq> {..<length (buckets m)}" and "0 < length nb"
    and "new_placed t m (length nb) Ls"
  shows "\<exists>m' nb' Ls' F' D. GSIMapRemangleBuckets t m is nb = Some (m', nb') \<and> table_rep m' nb' Ls' F' \<and>
    length nb' = length nb \<and> drops t m Ls m' Ls' D \<and> only_dead t D \<and> new_placed t m' (length nb) Ls' \<and>
    (\<forall>k < length (buckets m). Ls' ! k = (if k \<in> set is then [] else Ls ! k))"
  using assms
proof (induction "is" arbitrary: m nb Ls F)
  case Nil
  then show ?case by (auto simp: drops_refl intro!: exI [of _ Ls] exI [of _ "{#}"])
next
  case (Cons i "is")
  have i: "i < length (buckets m)" using Cons.prems(2) by simp
  obtain m1 nb1 Ls1 F1 D1 where one: "remangle_chain t m i nb = Some (m1, nb1)" "table_rep m1 nb1 Ls1 F1"
    "length nb1 = length nb" "drops t m Ls m1 Ls1 D1" "only_dead t D1" "Ls1 ! i = []"
    "\<forall>k < length (buckets m). k \<noteq> i \<longrightarrow> Ls1 ! k = Ls ! k" "new_placed t m1 (length nb) Ls1"
    using remangle_chain_moves [OF Cons.prems(1) i refl Cons.prems(3,4)] by blast
  have b: "length (buckets m1) = length (buckets m)" using one(4) by (rule drops_length)
  obtain m' nb' Ls' F' D where rest: "GSIMapRemangleBuckets t m1 is nb1 = Some (m', nb')"
    "table_rep m' nb' Ls' F'" "length nb' = length nb1" "drops t m1 Ls1 m' Ls' D" "only_dead t D"
    "new_placed t m' (length nb1) Ls'"
    "\<forall>k < length (buckets m1). Ls' ! k = (if k \<in> set is then [] else Ls1 ! k)"
    using Cons.IH [OF one(2)] Cons.prems(2,3) one(3,8) b by auto
  have "\<forall>k < length (buckets m). Ls' ! k = (if k \<in> set (i # is) then [] else Ls ! k)"
    using rest(7) one(6,7) b by auto
  then show ?case
    using one rest drops_trans [OF one(4) rest(4)]
    by (intro exI [of _ m'] exI [of _ nb'] exI [of _ Ls'] exI [of _ F'] exI [of _ "D1 + D"]) simp
qed

section \<open>Resizing\<close>

text \<open>Steps that keep the live entries, whatever the shape of the table.\<close>

definition reshapes ::
  "('k, 'v) map_traits \<Rightarrow> ('k, 'v) GSIMapTable \<Rightarrow> addr list list \<Rightarrow> ('k, 'v) GSIMapTable \<Rightarrow> addr list list \<Rightarrow>
     ('k \<times> 'v) multiset \<Rightarrow> bool" where
  "reshapes t m Ls m' Ls' D \<longleftrightarrow>
     contents m Ls = contents m' Ls' + D \<and> only_dead t D \<and>
     ledger t m' (contents m' Ls') = ledger t m (contents m Ls) \<and>
     set (concat Ls') \<subseteq> set (concat Ls) \<and> heap_end m' = heap_end m \<and>
     (\<forall>n. n \<notin> set (concat Ls) \<longrightarrow> node_key m' n = node_key m n \<and> node_value m' n = node_value m n)"

lemma drops_reshapes: "drops t m Ls m' Ls' D \<Longrightarrow> only_dead t D \<Longrightarrow> reshapes t m Ls m' Ls' D"
  unfolding drops_def reshapes_def same_shape_def by (intro conjI subsetI) simp_all

text \<open>A table between operations.\<close>

definition table_ok :: "('k, 'v) map_traits \<Rightarrow> ('k, 'v) GSIMapTable \<Rightarrow> addr list list \<Rightarrow> addr list \<Rightarrow> bool" where
  "table_ok t m Ls F \<longleftrightarrow> table_rep m [] Ls F \<and> bucketCount m = length Ls \<and> placed t m Ls"

lemma next_size_ge: "0 < s \<Longrightarrow> 0 < p \<Longrightarrow> c \<le> next_size s p c \<and> s \<le> next_size s p c"
proof (induction s p c rule: next_size.induct)
  case (1 sz old c)
  show ?case
  proof (cases "sz < c")
    case True
    then show ?thesis using 1 next_size.simps [of sz old c] by simp
  next
    case False
    then show ?thesis using next_size.simps [of sz old c] by simp
  qed
qed

lemma odd_size_bounds: "c \<le> odd_size c" "0 < odd_size c" "odd (odd_size c)"
  using next_size_ge [of 1 1 c] by (auto simp: odd_size_def Let_def)

lemma next_size_le: "0 < s \<Longrightarrow> 0 < p \<Longrightarrow> p \<le> s \<Longrightarrow> next_size s p c \<le> max s (2 * c)"
proof (induction s p c rule: next_size.induct)
  case (1 sz old c)
  show ?case
  proof (cases "sz < c")
    case True
    then show ?thesis using 1 next_size.simps [of sz old c] by (simp add: max_def split: if_splits)
  next
    case False
    then show ?thesis using next_size.simps [of sz old c] by simp
  qed
qed

lemma odd_size_le: "0 < c \<Longrightarrow> odd_size c \<le> 2 * c + 1"
  using next_size_le [of 1 1 c] by (simp add: odd_size_def Let_def)

lemma resize_granted:
  assumes r: "table_rep m [] Ls F" and bc: "bucketCount m = length Ls"
    and al: "alloc (odd_size c * SIZEOF_BUCKET)"
  shows "\<exists>m' Ls' F' D. GSIMapResize alloc t m c = Some m' \<and> table_ok t m' Ls' F' \<and>
    reshapes t m Ls m' Ls' D \<and> length Ls' = odd_size c"
proof -
  let ?nb = "replicate (odd_size c) \<lparr>bucketNodes = 0, firstNode = None\<rparr>"
  let ?M = "replicate (odd_size c) ([] :: addr list)"
  have l: "length Ls = length (buckets m)" using table_rep_length [OF r] by simp
  have "concat (Ls @ ?M) = concat Ls" by simp
  moreover have "list_all2 (bucket_rep (nextInBucket m)) ?nb ?M"
    by (simp add: list_all2_conv_all_nth bucket_rep_def)
  ultimately have r0: "table_rep m ?nb (Ls @ ?M) F"
    using r by (simp add: table_rep_def heap_rep_def list_all2_appendI)
  have c0: "contents m (Ls @ ?M) = contents m Ls" by (simp add: contents_def)
  have p0: "new_placed t m (length ?nb) (Ls @ ?M)" by (simp add: new_placed_def nth_append l)
  have ix: "set [0..<length (buckets m)] \<subseteq> {..<length (buckets m)}" by auto
  have pos: "0 < length ?nb" using odd_size_bounds(2) by simp
  obtain m' nb' Ls' F' D where rm: "GSIMapRemangleBuckets t m [0..<length (buckets m)] ?nb = Some (m', nb')"
    "table_rep m' nb' Ls' F'" "length nb' = length ?nb" "drops t m (Ls @ ?M) m' Ls' D" "only_dead t D"
    "new_placed t m' (length ?nb) Ls'"
    "\<forall>k < length (buckets m). Ls' ! k = (if k \<in> set [0..<length (buckets m)] then [] else (Ls @ ?M) ! k)"
    using remangle_buckets_moves [OF r0 ix pos p0] by blast
  have b: "length (buckets m') = length (buckets m)" using rm(4) by (rule drops_length)
  have l': "length Ls' = length (buckets m) + odd_size c" using table_rep_length [OF rm(2)] b rm(3) by simp
  let ?B = "length (buckets m)" let ?M' = "drop ?B Ls'" and ?m = "m'\<lparr>buckets := nb', bucketCount := odd_size c\<rparr>"
  have "take ?B Ls' = replicate ?B []" using rm(7) l' by (intro nth_equalityI) simp_all
  then have Ls': "Ls' = replicate ?B [] @ ?M'" by (metis append_take_drop_id)
  then have cc: "concat Ls' = concat ?M'" by (metis append_Nil concat_append concat_replicate_trivial)
  have h: "heap_rep (nextInBucket m') nb' ?M' (freeNodes m') F'"
  proof -
    have "list_all2 (bucket_rep (nextInBucket m')) (drop ?B (buckets m' @ nb')) ?M'"
      using rm(2) by (intro list_all2_dropI) (simp add: table_rep_def heap_rep_def)
    then show ?thesis using rm(2) b cc by (simp add: table_rep_def heap_rep_def)
  qed
  have "table_rep ?m [] ?M' F'" using rm(2) h by (simp add: table_rep_def cc)
  moreover have pa: "pair_at ?m = pair_at m'" by (rule ext) (simp add: pair_at_def)
  then have "placed t ?m ?M'"
    using rm(6) l' b by (auto simp: placed_def new_placed_def)
  ultimately have ok: "table_ok t ?m ?M' F'" using l' by (simp add: table_ok_def)
  have ct: "contents ?m ?M' = contents m' Ls'" by (simp add: contents_def cc pa)
  have "reshapes t m (Ls @ ?M) m' Ls' D" by (rule drops_reshapes [OF rm(4,5)])
  then have "reshapes t m Ls ?m ?M' D"
    unfolding reshapes_def c0 ct cc by (simp add: ledger_def)
  moreover have "GSIMapResize alloc t m c = Some ?m"
    using al rm(1) bc l by (simp add: GSIMapResize_def Let_def)
  ultimately show ?thesis using ok l' by auto
qed

lemma resize_refused: "\<not> alloc (odd_size c * SIZEOF_BUCKET) \<Longrightarrow> GSIMapResize alloc t m c = Some m"
  by (simp add: GSIMapResize_def Let_def)

lemma reshapes_refl: "reshapes t m Ls m Ls {#}"
  by (simp add: reshapes_def)

lemma right_size:
  assumes ok: "table_ok t m Ls F" and c: "c < 2 ^ 60" and bl: "length Ls < 2 ^ 61"
  shows "\<exists>m' Ls' F' D. GSIMapRightSizeMap alloc t m c = Some m' \<and> table_ok t m' Ls' F' \<and>
    reshapes t m Ls m' Ls' D \<and> (Ls \<noteq> [] \<longrightarrow> Ls' \<noteq> []) \<and> length Ls' < 2 ^ 61 \<and>
    ((\<forall>n. alloc n) \<longrightarrow> Ls' \<noteq> [] \<and> 3 * c < 4 * length Ls')"
proof -
  have r: "table_rep m [] Ls F" and bc: "bucketCount m = length Ls" using ok by (simp_all add: table_ok_def)
  have ar: "umul 4 (bucketCount m) = 4 * length Ls" "umul 3 c = 3 * c" using bl c bc by (simp_all add: bounds_simps)
  let ?c = "3 * c div 4 + 1"
  show ?thesis
  proof (cases "4 * length Ls \<le> 3 * c")
    case fits: False
    then have "GSIMapRightSizeMap alloc t m c = Some m" by (simp add: GSIMapRightSizeMap_def ar)
    then show ?thesis using ok fits bl by (auto intro!: exI [of _ Ls] exI [of _ "{#}"] reshapes_refl)
  next
    case True
    then have e: "GSIMapRightSizeMap alloc t m c = GSIMapResize alloc t m ?c"
      by (simp add: GSIMapRightSizeMap_def ar)
    show ?thesis
    proof (cases "alloc (odd_size ?c * SIZEOF_BUCKET)")
      case False
      then show ?thesis using ok e bl resize_refused [of alloc ?c t m]
        by (auto intro!: exI [of _ Ls] exI [of _ "{#}"] reshapes_refl)
    next
      case True
      obtain m' Ls' F' D where g: "GSIMapResize alloc t m ?c = Some m'" "table_ok t m' Ls' F'"
        "reshapes t m Ls m' Ls' D" "length Ls' = odd_size ?c"
        using resize_granted [OF r bc, of alloc, OF True] by metis
      have "?c \<le> length Ls'" using g(4) odd_size_bounds(1) by simp
      then have "3 * c < 4 * length Ls'" by linarith
      moreover have "length Ls' < 2 ^ 61"
      proof -
        have "length Ls' \<le> 2 * ?c + 1" using g(4) odd_size_le [of ?c] by simp
        also have "2 * ?c + 1 < 2 ^ 61" using c by simp
        finally show ?thesis .
      qed
      ultimately show ?thesis using e g by (intro exI [of _ m'] exI [of _ Ls'] exI [of _ F'] exI [of _ D]) auto
    qed
  qed
qed

section \<open>Allocating nodes\<close>

lemma link_chunk_nth:
  "link_chunk s c nx a = (if s \<le> a \<and> a < s + c then Some (a + 1) else nx a)"
  by (induction c arbitrary: nx) auto

lemma chain_upto:
  assumes "\<And>a. s \<le> a \<Longrightarrow> a < s + c \<Longrightarrow> nx a = Some (a + 1)" and "chain nx (nx (s + c)) F"
  shows "chain nx (Some s) ([s..<s + Suc c] @ F)"
  using assms
proof (induction c arbitrary: s)
  case Nil: 0
  then show ?case by simp
next
  case (Suc c)
  have "chain nx (Some (Suc s)) ([Suc s..<Suc s + Suc c] @ F)"
    using Suc.prems by (intro Suc.IH) simp_all
  moreover have "[s..<s + Suc (Suc c)] = s # [Suc s..<Suc s + Suc c]" by (simp add: upt_rec)
  ultimately show ?case using Suc.prems(1) [of s] by simp
qed

text \<open>What the table that gets more nodes has in common with the one before.\<close>

definition same_entries :: "('k, 'v) GSIMapTable \<Rightarrow> ('k, 'v) GSIMapTable \<Rightarrow> addr list list \<Rightarrow> bool" where
  "same_entries m m' Ls \<longleftrightarrow> events m' = events m \<and> bucketCount m' = bucketCount m \<and> nodeCount m' = nodeCount m \<and>
     (\<forall>n \<in> set (concat Ls). node_key m' n = node_key m n \<and> node_value m' n = node_value m n)"

lemma chunk_size_pos: "0 < chunk_size m c"
  by (simp add: chunk_size_def)

lemma chain_cong: "(\<And>a. a \<in> set as \<Longrightarrow> nx' a = nx a) \<Longrightarrow> chain nx' p as \<longleftrightarrow> chain nx p as"
  by (induction as arbitrary: p) auto

lemma heap_rep_cong:
  assumes "\<And>a. a \<in> set (concat Ls @ F) \<Longrightarrow> nx' a = nx a"
  shows "heap_rep nx' bks Ls f F \<longleftrightarrow> heap_rep nx bks Ls f F"
proof -
  have "chain nx' p as \<longleftrightarrow> chain nx p as" if "as \<in> set Ls" for p as
    using assms that by (intro chain_cong) (auto simp: set_concat)
  moreover have "chain nx' f F \<longleftrightarrow> chain nx f F" using assms by (intro chain_cong) simp
  ultimately show ?thesis
    by (auto simp: heap_rep_def list_all2_conv_all_nth bucket_rep_def)
qed

lemma more_nodes:
  assumes r: "table_rep m [] Ls F" and m': "GSIMapMoreNodes alloc t m c = (None, m')"
  shows "\<exists>F'. F' \<noteq> [] \<and> table_rep m' [] Ls F' \<and> same_entries m m' Ls"
proof -
  define size where "size = chunk_size m (u32 c)"
  define s where "s = heap_end m"
  let ?nx = "link_chunk s (size - 1) ((nextInBucket m)(s + size - 1 := freeNodes m))"
  have pos: "0 < size" by (simp add: size_def chunk_size_pos)
  have e: "m' = m\<lparr>nodeChunks := nodeChunks m @ [(s, size)], chunkCount := chunkCount m + 1,
      nextInBucket := ?nx,
      node_key := (\<lambda>a. if s \<le> a \<and> a < s + size then None else node_key m a),
      node_value := (\<lambda>a. if s \<le> a \<and> a < s + size then None else node_value m a),
      freeNodes := Some s, heap_end := s + size\<rparr>"
    using m' by (auto simp: GSIMapMoreNodes_def size_def s_def Let_def split: if_splits)
  have below: "a < s" if "a \<in> set (concat Ls @ F)" for a using r that by (simp add: table_rep_def s_def)
  have nx: "?nx a = nextInBucket m a" if "a < s" for a using that pos by (auto simp: link_chunk_nth)
  have old: "heap_rep ?nx (buckets m) Ls (freeNodes m) F"
    using heap_rep_cong [of Ls F ?nx "nextInBucket m"] nx below table_rep_heap [OF r] by simp
  have "chain ?nx (Some s) ([s..<s + Suc (size - 1)] @ F)"
  proof (rule chain_upto)
    show "chain ?nx (?nx (s + (size - 1))) F" using old pos by (simp add: link_chunk_nth heap_rep_def)
  qed (use pos in \<open>simp add: link_chunk_nth\<close>)
  then have ch: "chain ?nx (Some s) ([s..<s + size] @ F)" using pos by simp
  have "distinct (concat Ls @ [s..<s + size] @ F)"
    using old below by (fastforce simp: heap_rep_def)
  then have "heap_rep ?nx (buckets m) Ls (Some s) ([s..<s + size] @ F)"
    using old ch by (simp add: heap_rep_def)
  then have "table_rep m' [] Ls ([s..<s + size] @ F)"
    using r below by (fastforce simp: table_rep_def e)
  moreover have "same_entries m m' Ls" using below by (fastforce simp: same_entries_def e)
  moreover have "[s..<s + size] @ F \<noteq> []" using pos by simp
  ultimately show ?thesis by blast
qed

lemma get_node:
  assumes r: "table_rep m [] Ls F"
  shows "(\<exists>m' n F'. GSIMapGetNode alloc t m = Some (None, m', n) \<and> table_rep m' [] Ls F' \<and>
      same_entries m m' Ls \<and> n \<notin> set (concat Ls @ F') \<and> n < heap_end m') \<or>
    (GSIMapGetNode alloc t m = Some (Some NSMallocException, m, 0) \<and> F = [] \<and> \<not> (\<forall>b. alloc b))"
proof -
  have fr: "freeNodes m = head_of F" using heap_rep_free [OF table_rep_heap [OF r]] .
  define c where "c = (if nodeCount m < increment m then 0 else increment m)"
  obtain x m1 where mn: "(if freeNodes m = None then GSIMapMoreNodes alloc t m c else (None, m)) = (x, m1)"
    by (rule prod.exhaust)
  have gd: "GSIMapGetNode alloc t m = (case x of Some x \<Rightarrow> Some (Some x, m1, 0)
      | None \<Rightarrow> do {
          n \<leftarrow> freeNodes m1;
          Some (None, m1\<lparr>freeNodes := nextInBucket m1 n, nextInBucket := (nextInBucket m1)(n := None)\<rparr>, n) })"
    unfolding GSIMapGetNode_def mn [unfolded c_def] Let_def by simp
  show ?thesis
  proof (cases x)
    case (Some y)
    then have "F = []" "freeNodes m = None" "GSIMapMoreNodes alloc t m c = (Some y, m1)"
      using mn fr by (cases F; auto)+
    moreover from this have "y = NSMallocException \<and> m1 = m \<and> \<not> (\<forall>b. alloc b)"
      by (auto simp: GSIMapMoreNodes_def Let_def split: if_splits)
    ultimately show ?thesis using Some gd by simp
  next
    case None
    obtain F1 where F1: "F1 \<noteq> []" "table_rep m1 [] Ls F1" "same_entries m m1 Ls"
    proof (cases "freeNodes m = None")
      case True
      then show ?thesis using more_nodes [OF r, of alloc t c m1] mn None that by auto
    next
      case False
      then have "m1 = m" "F \<noteq> []" using mn fr by (cases F; auto)+
      then show ?thesis using that r by (simp add: same_entries_def)
    qed
    then obtain n F2 where F2: "F1 = n # F2" by (cases F1) auto
    define m2 where "m2 = m1\<lparr>freeNodes := nextInBucket m1 n, nextInBucket := (nextInBucket m1)(n := None)\<rparr>"
    have tf: "freeNodes m1 = Some n" "heap_rep ((nextInBucket m1)(n := None)) (buckets m1 @ []) Ls (nextInBucket m1 n) F2"
      "n \<notin> set (concat Ls @ F2)"
      using take_free table_rep_heap [OF F1(2)] unfolding F2 by blast+
    have "GSIMapGetNode alloc t m = Some (None, m2, n)"
      using None gd tf(1) by (simp add: m2_def)
    moreover have "table_rep m2 [] Ls F2" using F1(2) tf(2) F2 by (simp add: table_rep_def m2_def)
    moreover have "same_entries m m2 Ls" using F1(3) by (simp add: same_entries_def m2_def)
    moreover have "n < heap_end m2" using F1(2) F2 by (simp add: table_rep_def m2_def)
    ultimately show ?thesis using tf(3) by blast
  qed
qed

end
