(* ===== verification/GSI_Map_Spec.thy ===== *)
theory GSI_Map_Spec
  imports GSI_Map_Resize
begin

text \<open>
  The hash table as a container: it holds a multiset of pairs of a key and a value. Adding,
  finding, removing, emptying and sweeping weak entries are described on that multiset,
  together with the books of retains and releases.
\<close>

section \<open>What a table holds\<close>

definition map_holds :: "('k, 'v) map_traits \<Rightarrow> ('k, 'v) GSIMapTable \<Rightarrow> ('k \<times> 'v) multiset \<Rightarrow> bool" where
  "map_holds t m E \<longleftrightarrow>
     (\<exists>Ls F. table_ok t m Ls F \<and> Ls \<noteq> [] \<and> length Ls < 2 ^ 61 \<and> contents m Ls = E)"

text \<open>
  What the hash and equality functions of a client owe the table: equal keys have equal hash
  values, and equality is an equivalence.
\<close>

locale hashed_keys =
  fixes t :: "('k, 'v) map_traits"
  assumes equal_self: "equal_keys t a a"
    and equal_sym: "equal_keys t a b \<Longrightarrow> equal_keys t b a"
    and equal_trans: "equal_keys t a b \<Longrightarrow> equal_keys t b c \<Longrightarrow> equal_keys t a c"
    and equal_hash: "equal_keys t a b \<Longrightarrow> hash_of t a = hash_of t b"

lemma map_holds_count: "map_holds t m E \<Longrightarrow> nodeCount m = size E"
  by (auto simp: map_holds_def table_ok_def table_rep_def contents_def)

text \<open>A node found in a bucket is an entry, and entries of equal keys are in the key's bucket.\<close>

lemma contents_mem: "p \<in># contents m Ls \<longleftrightarrow> (\<exists>n \<in> set (concat Ls). pair_at m n = p)"
  by (auto simp: contents_def)

lemma pick_bucket:
  "0 < c \<Longrightarrow> GSIMapPickBucket h c = Some (u32 h mod c)"
  by (simp add: GSIMapPickBucket_def)

lemma placed_bucket:
  assumes "placed t m Ls" and "n \<in> set (concat Ls)"
  shows "n \<in> set (Ls ! (u32 (hash_of t (fst (pair_at m n))) mod length Ls))"
proof -
  obtain as where "as \<in> set Ls" "n \<in> set as" using assms(2) by (auto simp: set_concat)
  then obtain i where i: "i < length Ls" "n \<in> set (Ls ! i)" by (metis in_set_conv_nth)
  then have "GSIMapPickBucket (hash_of t (fst (pair_at m n))) (length Ls) = Some i"
    using assms(1) by (simp add: placed_def)
  then show ?thesis using i by (auto simp: GSIMapPickBucket_def split: if_splits)
qed

section \<open>Finding\<close>

lemma node_for_key_in_bucket:
  assumes ok: "table_ok t m Ls F" and i: "i < length Ls" and k: "zeroed t = 0 \<or> key_addr t k \<noteq> 0"
  defines "r \<equiv> find (\<lambda>n. live t (pair_at m n) \<and> equal_keys t (fst (pair_at m n)) k) (Ls ! i)"
  shows "\<exists>m' cs F' D. GSIMapNodeForKeyInBucket t m i k = Some (m', r) \<and> table_ok t m' (Ls[i := cs]) F' \<and>
    drops t m Ls m' (Ls[i := cs]) D \<and> only_dead t D \<and> {a \<in> set (Ls ! i). live t (pair_at m a)} \<subseteq> set cs"
proof -
  have rep: "table_rep m [] Ls F" and bc: "bucketCount m = length Ls" and pl: "placed t m Ls"
    using ok by (simp_all add: table_ok_def)
  have ib: "i < length (buckets m)" using i table_rep_length [OF rep] by simp
  have first: "firstNode (buckets m ! i) = head_of (Ls ! i)" by (rule table_rep_first [OF rep ib])
  show ?thesis
  proof (cases "zeroed t = 0")
    case True
    have "chain (nextInBucket m) (firstNode (buckets m ! i)) (Ls ! i)"
      using heap_rep_nth [OF table_rep_heap [OF rep] i] ib by (simp add: bucket_rep_def)
    then have "find_in_chain t m k (head_of (Ls ! i)) = Some r"
      using True first by (simp add: find_in_chain_find r_def)
    then show ?thesis using True ok first
      by (intro exI [of _ m] exI [of _ "Ls ! i"] exI [of _ F] exI [of _ "{#}"])
        (auto simp: GSIMapNodeForKeyInBucket_def drops_refl)
  next
    case False
    obtain m' cs F' D where w: "find_weak_chain t m i k (head_of (Ls ! i)) = Some (m', r)"
      "table_rep m' [] (Ls[i := cs]) F'" "drops t m Ls m' (Ls[i := cs]) D" "only_dead t D"
      "set cs \<subseteq> set (Ls ! i)" "{a \<in> set (Ls ! i). live t (pair_at m a)} \<subseteq> set cs"
      using find_weak_chain_drops [OF rep ib, of "[]" "Ls ! i" t k] False unfolding r_def by auto
    have "placed t m' (Ls[i := cs])"
      using drops_subset [OF w(3,5)] drops_pair_at [OF w(3)] by (intro placed_subset [OF pl]) simp_all
    then have "table_ok t m' (Ls[i := cs]) F'"
      using w(2) drops_shape [OF w(3)] bc by (simp add: table_ok_def same_shape_def)
    then show ?thesis using False k first w
      by (intro exI [of _ m'] exI [of _ cs] exI [of _ F'] exI [of _ D]) (simp add: GSIMapNodeForKeyInBucket_def)
  qed
qed

lemma drops_contents:
  assumes "drops t m Ls m' Ls' D"
  shows "length Ls' = length Ls" "contents m Ls = contents m' Ls' + D"
    "ledger t m' (contents m' Ls') = ledger t m (contents m Ls)"
  using assms unfolding drops_def by blast+

lemma drops_holds:
  assumes "table_ok t m' Ls' F'" and "drops t m Ls m' Ls' D" and "Ls \<noteq> []" and "length Ls < 2 ^ 61"
  shows "map_holds t m' (contents m Ls - D)"
proof -
  have "length Ls' = length Ls" "contents m Ls - D = contents m' Ls'"
    using drops_contents [OF assms(2)] by simp_all
  moreover from this assms(3) have "Ls' \<noteq> []" by auto
  ultimately show ?thesis using assms(1,4) unfolding map_holds_def
    by (intro exI [of _ Ls'] exI [of _ F']) simp
qed

context hashed_keys
begin

text \<open>The bucket of a key decides whether any entry has an equal key.\<close>

lemma find_key:
  fixes k :: 'k
  assumes ok: "table_ok t m Ls F" and ne: "Ls \<noteq> []"
  defines "i \<equiv> u32 (hash_of t k) mod length Ls"
  defines "r \<equiv> find (\<lambda>n. live t (pair_at m n) \<and> equal_keys t (fst (pair_at m n)) k) (Ls ! i)"
  shows "r = None \<longleftrightarrow> (\<forall>p \<in># contents m Ls. live t p \<longrightarrow> \<not> equal_keys t (fst p) k)"
    "r = Some n \<Longrightarrow> n \<in> set (Ls ! i) \<and> pair_at m n \<in># contents m Ls \<and> live t (pair_at m n) \<and>
       equal_keys t (fst (pair_at m n)) k"
proof -
  have i: "i < length Ls" using ne by (simp add: i_def)
  have pl: "placed t m Ls" using ok by (simp add: table_ok_def)
  have "n \<in> set (Ls ! i)" if "n \<in> set (concat Ls)" "equal_keys t (fst (pair_at m n)) k" for n
    using placed_bucket [OF pl that(1)] equal_hash [OF that(2)] by (simp add: i_def)
  moreover have "n \<in> set (concat Ls)" if "n \<in> set (Ls ! i)" for n using that i by (auto simp: set_concat)
  moreover have "(\<forall>p \<in># contents m Ls. live t p \<longrightarrow> \<not> equal_keys t (fst p) k) \<longleftrightarrow>
      (\<forall>n \<in> set (concat Ls). live t (pair_at m n) \<longrightarrow> \<not> equal_keys t (fst (pair_at m n)) k)"
    by (simp add: contents_def)
  ultimately show "r = None \<longleftrightarrow> (\<forall>p \<in># contents m Ls. live t p \<longrightarrow> \<not> equal_keys t (fst p) k)"
    unfolding r_def find_None_iff by blast
  assume "r = Some n"
  then have "n \<in> set (Ls ! i)" "live t (pair_at m n)" "equal_keys t (fst (pair_at m n)) k"
    unfolding r_def by (auto simp: find_Some_iff)
  moreover from this i have "pair_at m n \<in># contents m Ls" by (auto simp: contents_mem set_concat)
  ultimately show "n \<in> set (Ls ! i) \<and> pair_at m n \<in># contents m Ls \<and> live t (pair_at m n) \<and>
       equal_keys t (fst (pair_at m n)) k" by simp
qed

lemma lookup:
  assumes h: "map_holds t m E" and k: "zeroed t = 0 \<or> key_addr t k \<noteq> 0"
  shows "\<exists>m' r D. GSIMapNodeForKey t m k = Some (m', r) \<and> D \<subseteq># E \<and> only_dead t D \<and> map_holds t m' (E - D) \<and>
    ledger t m' (E - D) = ledger t m E \<and>
    (case r of None \<Rightarrow> \<forall>p \<in># E. live t p \<longrightarrow> \<not> equal_keys t (fst p) k
     | Some n \<Rightarrow> pair_at m' n \<in># E \<and> live t (pair_at m' n) \<and> equal_keys t (fst (pair_at m' n)) k)"
proof -
  obtain Ls F where ok: "table_ok t m Ls F" and ne: "Ls \<noteq> []" and l: "length Ls < 2 ^ 61"
    and E: "contents m Ls = E" using h by (auto simp: map_holds_def)
  have bc: "bucketCount m = length Ls" using ok by (simp add: table_ok_def)
  let ?i = "u32 (hash_of t k) mod length Ls"
  let ?r = "find (\<lambda>n. live t (pair_at m n) \<and> equal_keys t (fst (pair_at m n)) k) (Ls ! ?i)"
  have i: "?i < length Ls" using ne by simp
  show ?thesis
  proof (cases "nodeCount m = 0")
    case True
    then have "E = {#}" using map_holds_count [OF h] by simp
    then show ?thesis using True h
      by (intro exI [of _ m] exI [of _ None] exI [of _ "{#}"]) (simp add: GSIMapNodeForKey_def)
  next
    case False
    obtain m' cs F' D where f: "GSIMapNodeForKeyInBucket t m ?i k = Some (m', ?r)"
      "table_ok t m' (Ls[?i := cs]) F'" "drops t m Ls m' (Ls[?i := cs]) D" "only_dead t D"
      "{a \<in> set (Ls ! ?i). live t (pair_at m a)} \<subseteq> set cs"
      using node_for_key_in_bucket [OF ok i k] by blast
    have e: "GSIMapNodeForKey t m k = Some (m', ?r)"
      using False f(1) ne bc by (simp add: GSIMapNodeForKey_def GSIMapBucketForKey_def GSIMapPickBucket_def)
    have hd: "map_holds t m' (E - D)" using drops_holds [OF f(2,3) ne l] E by simp
    have D: "D \<subseteq># E" "contents m' (Ls[?i := cs]) = E - D" "ledger t m' (contents m' (Ls[?i := cs])) = ledger t m E"
      using drops_contents [OF f(3)] E by simp_all
    have "case ?r of None \<Rightarrow> \<forall>p \<in># E. live t p \<longrightarrow> \<not> equal_keys t (fst p) k
     | Some n \<Rightarrow> pair_at m' n \<in># E \<and> live t (pair_at m' n) \<and> equal_keys t (fst (pair_at m' n)) k"
    proof (cases ?r)
      case None
      then show ?thesis using find_key(1) [OF ok ne, of k] E by simp
    next
      case (Some n)
      note n = find_key(2) [OF ok ne Some]
      then have "n \<in> set cs" using f(5) by blast
      then have "pair_at m' n = pair_at m n" using drops_pair_at [OF f(3) in_updated [OF i]] by simp
      then show ?thesis using n Some E by simp
    qed
    then show ?thesis using e hd D f(4) by (intro exI [of _ m'] exI [of _ ?r] exI [of _ D]) simp
  qed
qed

text \<open>Removing the entry of a key.\<close>

lemma remove:
  assumes h: "map_holds t m E" and k: "zeroed t = 0 \<or> key_addr t k \<noteq> 0"
  shows "\<exists>m' b D. GSIMapRemoveKey t m k = Some (m', b) \<and> D \<subseteq># E \<and> map_holds t m' (E - D) \<and>
    ledger t m' (E - D) = ledger t m E \<and>
    (if b then \<exists>p D'. D = add_mset p D' \<and> only_dead t D' \<and> live t p \<and> equal_keys t (fst p) k
     else only_dead t D \<and> (\<forall>p \<in># E. live t p \<longrightarrow> \<not> equal_keys t (fst p) k))"
proof -
  obtain Ls F where ok: "table_ok t m Ls F" and ne: "Ls \<noteq> []" and l: "length Ls < 2 ^ 61"
    and E: "contents m Ls = E" using h by (auto simp: map_holds_def)
  have bc: "bucketCount m = length Ls" using ok by (simp add: table_ok_def)
  let ?i = "u32 (hash_of t k) mod length Ls"
  let ?r = "find (\<lambda>n. live t (pair_at m n) \<and> equal_keys t (fst (pair_at m n)) k) (Ls ! ?i)"
  have i: "?i < length Ls" using ne by simp
  obtain m1 cs F1 D where f: "GSIMapNodeForKeyInBucket t m ?i k = Some (m1, ?r)"
    "table_ok t m1 (Ls[?i := cs]) F1" "drops t m Ls m1 (Ls[?i := cs]) D" "only_dead t D"
    "{a \<in> set (Ls ! ?i). live t (pair_at m a)} \<subseteq> set cs"
    using node_for_key_in_bucket [OF ok i k] by blast
  have D: "D \<subseteq># E" "contents m1 (Ls[?i := cs]) = E - D" "ledger t m1 (E - D) = ledger t m E"
    using drops_contents [OF f(3)] E by simp_all
  have pk: "GSIMapBucketForKey t m k = Some ?i" using ne bc by (simp add: GSIMapBucketForKey_def GSIMapPickBucket_def)
  show ?thesis
  proof (cases ?r)
    case None
    then have "GSIMapRemoveKey t m k = Some (m1, False)" using f(1) pk by (simp add: GSIMapRemoveKey_def)
    moreover have "map_holds t m1 (E - D)" using drops_holds [OF f(2,3) ne l] E by simp
    ultimately show ?thesis using D f(4) find_key(1) [OF ok ne, of k] None E
      by (intro exI [of _ m1] exI [of _ False] exI [of _ D]) simp
  next
    case (Some n)
    note n = find_key(2) [OF ok ne Some]
    then have "n \<in> set cs" using f(5) by blast
    then obtain as bs where cs: "cs = as @ n # bs" by (meson split_list)
    let ?Ls1 = "Ls[?i := cs]" and ?Ls2 = "Ls[?i := as @ bs]"
    have r1: "table_rep m1 [] ?Ls1 F1" and b1: "bucketCount m1 = length Ls" "placed t m1 ?Ls1"
      using f(2) by (simp_all add: table_ok_def)
    have ib: "?i < length (buckets m1)" using i table_rep_length [OF r1] by simp
    obtain m2 where m2: "GSIMapRemoveNodeFromMap m1 ?i n = Some m2"
      "table_rep (GSIMapFreeNode t m2 n) [] ?Ls2 (n # F1)"
      "drops t m1 ?Ls1 (GSIMapFreeNode t m2 n) ?Ls2 {#pair_at m1 n#}"
      using remove_and_free [OF r1 ib, of as n bs t] i cs by auto
    let ?m = "GSIMapFreeNode t m2 n"
    have p: "pair_at m1 n = pair_at m n" using drops_pair_at [OF f(3) in_updated [OF i]] cs by simp
    have d: "drops t m Ls ?m ?Ls2 (D + {#pair_at m n#})" using drops_trans [OF f(3) m2(3)] by (simp only: p)
    have "placed t ?m ?Ls2"
      using drops_pair_at [OF m2(3)] i
      by (intro placed_subset [OF b1(2)]) (auto simp: cs nth_list_update)
    then have "table_ok t ?m ?Ls2 (n # F1)"
      using m2(2) drops_shape [OF m2(3)] b1(1) by (simp add: table_ok_def same_shape_def)
    then have hd: "map_holds t ?m (E - (D + {#pair_at m n#}))" using drops_holds [OF _ d ne l] E by simp
    have "GSIMapRemoveKey t m k = Some (?m, True)"
      using f(1) pk m2(1) Some by (simp add: GSIMapRemoveKey_def)
    moreover have "D + {#pair_at m n#} \<subseteq># E" "ledger t ?m (E - (D + {#pair_at m n#})) = ledger t m E"
      using drops_contents [OF d] E by simp_all
    moreover have "\<exists>p D'. D + {#pair_at m n#} = add_mset p D' \<and> only_dead t D' \<and> live t p \<and> equal_keys t (fst p) k"
      using f(4) n by (intro exI [of _ "pair_at m n"] exI [of _ D]) simp
    ultimately show ?thesis using hd
      by (intro exI [of _ ?m] exI [of _ True] exI [of _ "D + {#pair_at m n#}"]) (simp only: simp_thms if_True)
  qed
qed

end

end
