(* ===== verification/GSI_Map_Add.thy ===== *)
theory GSI_Map_Add
  imports GSI_Map_Spec
begin

text \<open>
  Adding pairs to the hash table, emptying it and creating it, described on the multiset of
  pairs the table holds.
\<close>

section \<open>Adding\<close>

lemma ledger_events:
  assumes "events m' = events m"
  shows "ledger t m' E = ledger t m E"
  using assms by (simp add: ledger_def)

lemma add_node_to_map:
  assumes ok: "table_ok t m Ls F" and ne: "Ls \<noteq> []" and n: "n \<notin> set (concat Ls @ F)" and h: "n < heap_end m"
    and k: "node_key m n = Some k" and v: "node_value m n = Some v" and small: "nodeCount m + 1 < 2 ^ 62"
  shows "\<exists>m' Ls' F' D. GSIMapAddNodeToMap t m n = Some m' \<and> table_ok t m' Ls' F' \<and> length Ls' = length Ls \<and>
    add_mset (k, v) (contents m Ls) = contents m' Ls' + D \<and> only_dead t D \<and>
    ledger t m' (contents m' Ls') = ledger t m (add_mset (k, v) (contents m Ls)) \<and>
    (live t (k, v) \<longrightarrow> pair_at m' n = (k, v) \<and> D = {#})"
proof (cases "zeroed t AND 1 \<noteq> 0 \<and> key_gone t k")
  case True
  let ?m = "GSIMapFreeNode t m n"
  have rep: "table_rep m [] Ls F" using ok by (simp add: table_ok_def)
  have p: "pair_at m n = (k, v)" using k v by (simp add: pair_at_def)
  have same: "pair_at ?m a = pair_at m a" if "a \<in> set (concat Ls)" for a
    using that n by (auto simp: pair_at_def GSIMapFreeNode_def)
  then have c: "contents ?m Ls = contents m Ls" by (rule contents_cong)
  have "heap_rep ((nextInBucket m)(n := freeNodes m)) (buckets m @ []) Ls (Some n) (n # F)"
    by (rule add_to_free [OF table_rep_heap [OF rep] n])
  then have "table_rep ?m [] Ls (n # F)"
    using rep n h by (auto simp: table_rep_def GSIMapFreeNode_def)
  moreover have "placed t ?m Ls"
  proof (rule placed_subset)
    show "placed t m Ls" using ok by (simp add: table_ok_def)
  qed (rule refl subset_refl same; assumption?)+
  ultimately have "table_ok t ?m Ls (n # F)" using ok by (simp add: table_ok_def GSIMapFreeNode_def)
  moreover have "ledger t ?m (contents ?m Ls) = ledger t m (add_mset (k, v) (contents m Ls))"
    unfolding c by (simp add: ledger_def GSIMapFreeNode_def release_events_owed filter_owed p)
  moreover have "\<not> live t (k, v)" using True by (simp add: live_def)
  moreover have "only_dead t {#(k, v)#}" using calculation by simp
  moreover have "GSIMapAddNodeToMap t m n = Some ?m" using True k by (simp add: GSIMapAddNodeToMap_def)
  moreover have "add_mset (k, v) (contents m Ls) = contents ?m Ls + {#(k, v)#}" unfolding c by simp
  ultimately show ?thesis by blast
next
  case False
  have rep: "table_rep m [] Ls F" and bc: "bucketCount m = length Ls" and pl: "placed t m Ls"
    using ok by (simp_all add: table_ok_def)
  let ?i = "u32 (hash_of t k) mod length Ls"
  have i: "?i < length Ls" using ne by simp
  have ib: "?i < length (buckets m)" using i table_rep_length [OF rep] by simp
  obtain nx b where ad: "GSIMapAddNodeToBucket (nextInBucket m) (buckets m ! ?i) n = (nx, b)" by (rule prod.exhaust)
  let ?Ls = "Ls[?i := n # Ls ! ?i]"
  let ?m = "m\<lparr>nextInBucket := nx, buckets := (buckets m)[?i := b], nodeCount := nodeCount m + 1\<rparr>"
  have e: "GSIMapAddNodeToMap t m n = Some ?m"
    using False bc ne ad
    by (auto simp: GSIMapAddNodeToMap_def k GSIMapBucketForKey_def GSIMapPickBucket_def add_to_bucket_def)
  have pa: "pair_at ?m = pair_at m" by (rule ext) (simp add: pair_at_def)
  have ms: "mset (concat ?Ls) = add_mset n (mset (concat Ls))"
    using mset_concat_update [OF i, of "n # Ls ! ?i"] by simp
  then have st: "set (concat ?Ls) = insert n (set (concat Ls))"
    by (metis set_mset_mset set_mset_add_mset_insert)
  have "size (mset (concat ?Ls)) = Suc (size (mset (concat Ls)))" using ms by simp
  then have len: "length (concat ?Ls) = Suc (length (concat Ls))" by (simp only: size_mset)
  have "heap_rep nx ((buckets m)[?i := b]) ?Ls (freeNodes m) F"
    using add_to_front [OF table_rep_heap [OF rep] i n, of nx b] ad ib by (simp add: nth_append)
  then have "table_rep ?m [] ?Ls F"
    using rep st len small h k v by (simp add: table_rep_def)
  moreover have "placed t ?m ?Ls"
    using pl ne unfolding placed_def pa length_list_update
    by (auto simp: nth_list_update pair_at_def k GSIMapPickBucket_def)
  ultimately have "table_ok t ?m ?Ls F" using bc by (simp add: table_ok_def)
  moreover have c: "contents ?m ?Ls = add_mset (k, v) (contents m Ls)"
    unfolding contents_def pa ms by (simp add: pair_at_def k v)
  ultimately show ?thesis using e
    by (intro exI [of _ ?m] exI [of _ ?Ls] exI [of _ F] exI [of _ "{#}"]) (simp add: ledger_def pair_at_def k v)
qed

lemma add_pair_holds:
  assumes h: "map_holds t m E" and sz: "size E + 1 < 2 ^ 60"
  shows "(\<exists>m' n E' D. add_pair alloc t evs m k v = Some (None, m', Some n) \<and> map_holds t m' E' \<and>
      add_mset (k, v) E = E' + D \<and> only_dead t D \<and>
      ledger t m' E' = ledger t (m\<lparr>events := events m @ evs\<rparr>) (add_mset (k, v) E) \<and>
      (live t (k, v) \<longrightarrow> pair_at m' n = (k, v)) \<and>
      ((\<forall>b. alloc b) \<longrightarrow> 3 * size E < 4 * bucketCount m')) \<or>
    (add_pair alloc t evs m k v = Some (Some NSMallocException, m, None) \<and> freeNodes m = None \<and> \<not> (\<forall>b. alloc b))"
proof -
  obtain Ls F where ok: "table_ok t m Ls F" and ne: "Ls \<noteq> []" and l: "length Ls < 2 ^ 61"
    and E: "contents m Ls = E" using h by (auto simp: map_holds_def)
  have rep: "table_rep m [] Ls F" and bc: "bucketCount m = length Ls" and pl: "placed t m Ls"
    using ok by (simp_all add: table_ok_def)
  have nc: "nodeCount m = size E" using h by (rule map_holds_count)
  consider (ok) m1 n F1 where "GSIMapGetNode alloc t m = Some (None, m1, n)" "table_rep m1 [] Ls F1"
      "same_entries m m1 Ls" "n \<notin> set (concat Ls @ F1)" "n < heap_end m1"
    | (fail) "GSIMapGetNode alloc t m = Some (Some NSMallocException, m, 0)" "F = []" "\<not> (\<forall>b. alloc b)"
    using get_node [OF rep, of alloc t] by blast
  then show ?thesis
  proof cases
    case fail
    then have "freeNodes m = None" using heap_rep_free [OF table_rep_heap [OF rep]] by simp
    then show ?thesis using fail by (simp add: add_pair_def)
  next
    case (ok m1 n F1)
    note r1 = ok(2) and se = ok(3) and n = ok(4) and hn = ok(5)
    define m2 where "m2 = (store_pair m1 n k v)\<lparr>events := events m1 @ evs\<rparr>"
    have p2: "pair_at m2 a = pair_at m a" if "a \<in> set (concat Ls)" for a
      using that n se by (auto simp: m2_def store_pair_def pair_at_def same_entries_def)
    have c2: "contents m2 Ls = E" using contents_cong [of Ls m2 m] p2 E by simp
    have "table_rep m2 [] Ls F1" using r1 n by (auto simp: table_rep_def m2_def store_pair_def)
    moreover have "placed t m2 Ls" using p2 by (intro placed_subset [OF pl]) simp_all
    ultimately have ok2: "table_ok t m2 Ls F1"
      using bc se by (simp add: table_ok_def m2_def store_pair_def same_entries_def)
    have nc2: "nodeCount m2 = size E" using se nc by (simp add: m2_def store_pair_def same_entries_def)
    have c60: "size E < 2 ^ 60" using sz by simp
    obtain m3 Ls3 F3 D3 where r3: "GSIMapRightSizeMap alloc t m2 (size E) = Some m3" "table_ok t m3 Ls3 F3"
      "reshapes t m2 Ls m3 Ls3 D3" "Ls3 \<noteq> []" "length Ls3 < 2 ^ 61" "(\<forall>b. alloc b) \<longrightarrow> 3 * size E < 4 * length Ls3"
      using right_size [OF ok2 c60 l, of alloc] ne by blast
    have rs: "E = contents m3 Ls3 + D3" "only_dead t D3" "ledger t m3 (contents m3 Ls3) = ledger t m2 E"
      "set (concat Ls3) \<subseteq> set (concat Ls)" "heap_end m3 = heap_end m2"
      "node_key m3 n = node_key m2 n" "node_value m3 n = node_value m2 n"
      using r3(3) n unfolding reshapes_def c2 by auto
    have kv: "node_key m3 n = Some k" "node_value m3 n = Some v" using rs(6,7) by (simp_all add: m2_def store_pair_def)
    have t3: "table_rep m3 [] Ls3 F3" using r3(2) by (simp add: table_ok_def)
    then have "n \<notin> set F3" using kv by (auto simp: table_rep_def)
    then have n3: "n \<notin> set (concat Ls3 @ F3)" using n rs(4) by auto
    have h3: "n < heap_end m3" using hn rs(5) by (simp add: m2_def store_pair_def)
    have "nodeCount m3 = size (contents m3 Ls3)" using t3 by (simp add: table_rep_def contents_def)
    moreover have "size E = size (contents m3 Ls3) + size D3" using rs(1) by simp
    ultimately have "nodeCount m3 + 1 < 2 ^ 60" using sz by linarith
    then have s3: "nodeCount m3 + 1 < 2 ^ 62" by simp
    obtain m4 Ls4 F4 D4 where r4: "GSIMapAddNodeToMap t m3 n = Some m4" "table_ok t m4 Ls4 F4" "length Ls4 = length Ls3"
      "add_mset (k, v) (contents m3 Ls3) = contents m4 Ls4 + D4" "only_dead t D4"
      "ledger t m4 (contents m4 Ls4) = ledger t m3 (add_mset (k, v) (contents m3 Ls3))"
      "live t (k, v) \<longrightarrow> pair_at m4 n = (k, v)"
      using add_node_to_map [OF r3(2,4) n3 h3 kv s3] by blast
    have "add_pair alloc t evs m k v = Some (None, m4, Some n)"
      using ok(1) r3(1) r4(1) nc2 by (simp add: add_pair_def m2_def store_pair_def)
    moreover have "map_holds t m4 (contents m4 Ls4)"
    proof -
      have "Ls4 \<noteq> []" "length Ls4 < 2 ^ 61" using r3(4,5) r4(3) by (cases Ls4; simp)+
      then show ?thesis using r4(2) unfolding map_holds_def by blast
    qed
    moreover have "add_mset (k, v) E = contents m4 Ls4 + (D3 + D4)" using r4(4) rs(1) by (simp add: ac_simps)
    moreover have "ledger t m4 (contents m4 Ls4) = ledger t (m\<lparr>events := events m @ evs\<rparr>) (add_mset (k, v) E)"
    proof -
      have "ledger t m3 (add_mset (k, v) (contents m3 Ls3)) = ledger t m2 (add_mset (k, v) E)"
        using rs(3) by (simp add: ledger_def)
      moreover have "events m2 = events m @ evs" using se by (simp add: m2_def store_pair_def same_entries_def)
      ultimately show ?thesis using r4(6) by (simp add: ledger_def)
    qed
    moreover have "bucketCount m4 = length Ls3" using r4(2,3) by (simp add: table_ok_def)
    ultimately show ?thesis using rs(2) r4(5,7) r3(6)
      by (intro disjI1 exI [of _ m4] exI [of _ n] exI [of _ "contents m4 Ls4"] exI [of _ "D3 + D4"]) simp
  qed
qed

end
