(* ===== verification/GSI_Map_Enum.thy ===== *)
theory GSI_Map_Enum
  imports GSI_Map_Add
begin

text \<open>
  Emptying and creating hash tables, and walking through their entries. An enumerator is
  described by the nodes it still has to deliver.
\<close>

section \<open>Emptying\<close>

lemma clean_chain_clears:
  assumes "chain (nextInBucket m) (head_of cs) cs" and "distinct cs"
  shows "clean_chain t m prev (head_of cs) =
    Some (m\<lparr>events := events m @ concat (map (release_events t m) cs),
            node_key := (\<lambda>a. if a \<in> set cs then None else node_key m a),
            node_value := (\<lambda>a. if a \<in> set cs then None else node_value m a)\<rparr>,
          if cs = [] then prev else Some (last cs))"
  using assms
proof (induction cs arbitrary: m prev)
  case Nil
  show ?case by (simp add: clean_chain.simps)
next
  case (Cons n cs)
  let ?m = "m\<lparr>events := events m @ release_events t m n,
    node_key := (node_key m)(n := None), node_value := (node_value m)(n := None)\<rparr>"
  have "nextInBucket m n = head_of cs" using Cons.prems(1) by (auto dest: chain_head)
  then have step: "clean_chain t m prev (head_of (n # cs)) = clean_chain t ?m (Some n) (head_of cs)"
    by (simp add: clean_chain.simps [of t m prev "Some n"])
  have rel: "map (release_events t ?m) cs = map (release_events t m) cs"
    using Cons.prems(2) by (auto simp: release_events_def)
  have k: "(\<lambda>a. if a \<in> set cs then None else node_key ?m a) = (\<lambda>a. if a \<in> set (n # cs) then None else node_key m a)"
    "(\<lambda>a. if a \<in> set cs then None else node_value ?m a) = (\<lambda>a. if a \<in> set (n # cs) then None else node_value m a)"
    by auto
  have "chain (nextInBucket ?m) (head_of cs) cs" using Cons.prems(1) chain_head by fastforce
  then have IH: "clean_chain t ?m (Some n) (head_of cs) =
    Some (?m\<lparr>events := events ?m @ concat (map (release_events t ?m) cs),
            node_key := (\<lambda>a. if a \<in> set cs then None else node_key ?m a),
            node_value := (\<lambda>a. if a \<in> set cs then None else node_value ?m a)\<rparr>,
          if cs = [] then Some n else Some (last cs))"
    using Cons.prems(2) by (intro Cons.IH) simp_all
  show ?case unfolding step IH rel k by simp
qed

text \<open>The nodes of the buckets \<open>is\<close> are appended to those, \<open>P\<close>, spliced before.\<close>

lemma chain_link:
  assumes "chain nx p P" and "P \<noteq> []" and "chain nx q Q" and "distinct (P @ Q)"
  shows "chain (nx(last P := q)) p (P @ Q)"
  using assms
proof (induction P arbitrary: p)
  case (Cons a P)
  show ?case
  proof (cases P)
    case Nil
    then show ?thesis using Cons.prems by (simp only: append.simps chain.simps last.simps) simp
  next
    case P: (Cons b P')
    then have l: "last (a # P) = last P" "a \<noteq> last P" using Cons.prems(4) last_in_set [of P] by auto
    have "chain nx (nx a) P" "P \<noteq> []" "distinct (P @ Q)" using Cons.prems P by auto
    then have "chain (nx(last P := q)) (nx a) (P @ Q)" using Cons.IH Cons.prems(3) by blast
    moreover have "p = Some a" "(nx(last P := q)) a = nx a" using Cons.prems(1) l(2) by simp_all
    ultimately show ?thesis by (simp only: append_Cons chain.simps l(1))
  qed
qed simp

definition last_of :: "'a list \<Rightarrow> 'a option" where
  "last_of xs = (if xs = [] then None else Some (last xs))"

lemma clean_buckets_splices:
  assumes "chain (nextInBucket m) start P" and "prev = last_of P"
    and "\<forall>i \<in> set is. chain (nextInBucket m) (firstNode (buckets m ! i)) (Ls ! i)"
    and "distinct (P @ concat (map ((!) Ls) is))" and "distinct is"
  shows "\<exists>m' start'. clean_buckets t m is start prev =
      Some (m', start', last_of (P @ concat (map ((!) Ls) is))) \<and>
    chain (nextInBucket m') start' (P @ concat (map ((!) Ls) is)) \<and>
    (\<forall>a. a \<notin> set (P @ concat (map ((!) Ls) is)) \<longrightarrow> nextInBucket m' a = nextInBucket m a) \<and>
    length (buckets m') = length (buckets m) \<and>
    (\<forall>i < length (buckets m). buckets m' ! i = (if i \<in> set is then \<lparr>bucketNodes = 0, firstNode = None\<rparr> else buckets m ! i)) \<and>
    events m' = events m @ concat (map (release_events t m) (concat (map ((!) Ls) is))) \<and>
    node_key m' = (\<lambda>a. if a \<in> set (concat (map ((!) Ls) is)) then None else node_key m a) \<and>
    node_value m' = (\<lambda>a. if a \<in> set (concat (map ((!) Ls) is)) then None else node_value m a) \<and>
    nodeCount m' = nodeCount m \<and> bucketCount m' = bucketCount m \<and> freeNodes m' = freeNodes m \<and> heap_end m' = heap_end m"
  using assms
proof (induction "is" arbitrary: m start prev P)
  case Nil
  then show ?case by simp
next
  case (Cons i "is")
  let ?R = "concat (map ((!) Ls) is)"
  have d: "distinct (P @ Ls ! i @ ?R)" using Cons.prems(4) by simp
  have di: "distinct (P @ Ls ! i)" "distinct (Ls ! i)" using d by auto
  have node: "firstNode (buckets m ! i) = head_of (Ls ! i)" using Cons.prems(3) by (auto dest: chain_head)
  define nx where "nx = (if P = [] then nextInBucket m else (nextInBucket m)(last P := head_of (Ls ! i)))"
  define start1 where "start1 = (if P = [] then head_of (Ls ! i) else start)"
  let ?m1 = "m\<lparr>nextInBucket := nx\<rparr>"
  have lp: "last P \<notin> set (Ls ! j)" if "P \<noteq> []" "j \<in> set (i # is)" for j
  proof -
    have "set (Ls ! j) \<subseteq> set (Ls ! i @ ?R)" using that(2) by (auto simp: set_concat)
    moreover have "set P \<inter> set (Ls ! i @ ?R) = {}" using d by (simp only: distinct_append)
    ultimately show ?thesis using last_in_set [OF that(1)] by blast
  qed
  have fr: "nx a = nextInBucket m a" if "a \<notin> set P" for a using that by (auto simp: nx_def)
  have c1: "chain nx start1 (P @ Ls ! i)"
    using Cons.prems(1,3) chain_link [OF Cons.prems(1), of "head_of (Ls ! i)" "Ls ! i"] di node
    by (auto simp: nx_def start1_def)
  have c2: "chain nx (head_of (Ls ! j)) (Ls ! j)" if "j \<in> set (i # is)" for j
  proof -
    have "chain (nextInBucket m) (head_of (Ls ! j)) (Ls ! j)"
      using Cons.prems(3) that chain_head by metis
    then show ?thesis using lp that by (simp add: nx_def)
  qed
  define m2 where "m2 = m\<lparr>nextInBucket := nx, events := events m @ concat (map (release_events t m) (Ls ! i)),
    node_key := (\<lambda>a. if a \<in> set (Ls ! i) then None else node_key m a),
    node_value := (\<lambda>a. if a \<in> set (Ls ! i) then None else node_value m a),
    buckets := (buckets m)[i := \<lparr>bucketNodes = 0, firstNode = None\<rparr>]\<rparr>"
  have rel: "release_events t ?m1 = release_events t m" by (rule ext) (simp add: release_events_def)
  have "clean_chain t ?m1 prev (head_of (Ls ! i)) =
      Some (?m1\<lparr>events := events m @ concat (map (release_events t m) (Ls ! i)),
        node_key := (\<lambda>a. if a \<in> set (Ls ! i) then None else node_key m a),
        node_value := (\<lambda>a. if a \<in> set (Ls ! i) then None else node_value m a)\<rparr>, last_of (P @ Ls ! i))"
    using clean_chain_clears [of ?m1 "Ls ! i" t prev] c2 [of i] di(2) Cons.prems(2) rel
    by (simp add: last_of_def cong: if_cong)
  then have step: "clean_buckets t m (i # is) start prev = clean_buckets t m2 is start1 (last_of (P @ Ls ! i))"
    using Cons.prems(2) node
    by (cases "P = []") (simp_all add: last_of_def Let_def m2_def nx_def start1_def)
  have rel2: "map (release_events t m2) ?R = map (release_events t m) ?R"
    using d by (auto simp: release_events_def m2_def)
  have "\<forall>j \<in> set is. chain (nextInBucket m2) (firstNode (buckets m2 ! j)) (Ls ! j)"
  proof
    fix j assume j: "j \<in> set is"
    then have "firstNode (buckets m ! j) = head_of (Ls ! j)" using Cons.prems(3) by (auto dest: chain_head)
    moreover have "i \<noteq> j" using j Cons.prems(5) by auto
    ultimately show "chain (nextInBucket m2) (firstNode (buckets m2 ! j)) (Ls ! j)"
      using c2 [of j] j by (simp add: m2_def)
  qed
  then obtain m' start' where IH: "clean_buckets t m2 is start1 (last_of (P @ Ls ! i)) =
      Some (m', start', last_of ((P @ Ls ! i) @ ?R))"
    "chain (nextInBucket m') start' ((P @ Ls ! i) @ ?R)"
    "\<forall>a. a \<notin> set ((P @ Ls ! i) @ ?R) \<longrightarrow> nextInBucket m' a = nextInBucket m2 a"
    "length (buckets m') = length (buckets m2)"
    "\<forall>j < length (buckets m2). buckets m' ! j = (if j \<in> set is then \<lparr>bucketNodes = 0, firstNode = None\<rparr> else buckets m2 ! j)"
    "events m' = events m2 @ concat (map (release_events t m2) ?R)"
    "node_key m' = (\<lambda>a. if a \<in> set ?R then None else node_key m2 a)"
    "node_value m' = (\<lambda>a. if a \<in> set ?R then None else node_value m2 a)"
    "nodeCount m' = nodeCount m2" "bucketCount m' = bucketCount m2" "freeNodes m' = freeNodes m2" "heap_end m' = heap_end m2"
    using Cons.IH [of m2 start1 "P @ Ls ! i" "last_of (P @ Ls ! i)"] c1 d Cons.prems(5) by (auto simp: m2_def)
  have "\<forall>a. a \<notin> set (P @ Ls ! i @ ?R) \<longrightarrow> nextInBucket m' a = nextInBucket m a"
    using IH(3) fr by (simp add: m2_def)
  moreover have "\<forall>j < length (buckets m). buckets m' ! j =
      (if j \<in> set (i # is) then \<lparr>bucketNodes = 0, firstNode = None\<rparr> else buckets m ! j)"
    using IH(5) by (auto simp: m2_def)
  moreover have "events m' = events m @ concat (map (release_events t m) (Ls ! i @ ?R))"
    using IH(6) unfolding rel2 by (simp add: m2_def)
  ultimately show ?case
    using step IH
    by (intro exI [of _ m'] exI [of _ start']) (simp add: m2_def fun_eq_iff)
qed

lemma clean_map:
  assumes ok: "table_ok t m Ls F"
  shows "\<exists>m'. GSIMapCleanMap t m = Some m' \<and> table_ok t m' (replicate (length Ls) []) (concat Ls @ F) \<and>
    ledger t m' {#} = ledger t m (contents m Ls) \<and> nodeCount m' = 0"
proof (cases "nodeCount m = 0")
  case True
  have "concat Ls = []" using ok True by (simp add: table_ok_def table_rep_def)
  moreover from this have "replicate (length Ls) [] = Ls" by (simp add: replicate_length_same)
  moreover from calculation(1) have "contents m Ls = {#}" unfolding contents_def by simp
  ultimately show ?thesis using True ok
    by (intro exI [of _ m]) (simp only: GSIMapCleanMap_def append_Nil less_irrefl if_False simp_thms)
next
  case False
  have rep: "table_rep m [] Ls F" and bc: "bucketCount m = length Ls" using ok by (simp_all add: table_ok_def)
  have l: "length Ls = length (buckets m)" using table_rep_length [OF rep] by simp
  have all: "map ((!) Ls) [0..<length Ls] = Ls" by (rule map_nth)
  have h: "heap_rep (nextInBucket m) (buckets m) Ls (freeNodes m) F" using table_rep_heap [OF rep] by simp
  have dist: "distinct (concat Ls @ F)" using h by (simp add: heap_rep_def)
  let ?m0 = "m\<lparr>nodeCount := 0\<rparr>"
  have rel: "release_events t ?m0 = release_events t m" by (rule ext) (simp add: release_events_def)
  have pre: "\<forall>i \<in> set [0..<length Ls]. chain (nextInBucket ?m0) (firstNode (buckets ?m0 ! i)) (Ls ! i)"
    using heap_rep_nth [OF h] by (simp add: bucket_rep_def)
  have d0: "distinct ([] @ concat (map ((!) Ls) [0..<length Ls]))" using dist by (simp add: all)
  have sel0: "node_key ?m0 = node_key m" "node_value ?m0 = node_value m" "events ?m0 = events m"
    "nextInBucket ?m0 = nextInBucket m" "buckets ?m0 = buckets m" "nodeCount ?m0 = 0"
    "bucketCount ?m0 = bucketCount m" "freeNodes ?m0 = freeNodes m" "heap_end ?m0 = heap_end m"
    by simp_all
  obtain m1 start where c: "clean_buckets t ?m0 [0..<length Ls] None None = Some (m1, start, last_of (concat Ls))"
    "chain (nextInBucket m1) start (concat Ls)"
    "\<forall>a. a \<notin> set (concat Ls) \<longrightarrow> nextInBucket m1 a = nextInBucket m a"
    "length (buckets m1) = length (buckets m)"
    "\<forall>i < length (buckets m). buckets m1 ! i =
       (if i \<in> set [0..<length Ls] then \<lparr>bucketNodes = 0, firstNode = None\<rparr> else buckets m ! i)"
    "events m1 = events m @ concat (map (release_events t m) (concat Ls))"
    "node_key m1 = (\<lambda>a. if a \<in> set (concat Ls) then None else node_key m a)"
    "node_value m1 = (\<lambda>a. if a \<in> set (concat Ls) then None else node_value m a)"
    "nodeCount m1 = 0" "bucketCount m1 = bucketCount m" "freeNodes m1 = freeNodes m" "heap_end m1 = heap_end m"
    using clean_buckets_splices [of ?m0 None "[]" None "[0..<length Ls]" Ls t, OF _ _ pre d0 distinct_upt,
        unfolded all rel append_Nil sel0]
    by (auto simp: last_of_def)
  have ne: "concat Ls \<noteq> []" using False rep by (auto simp: table_rep_def)
  define m2 where "m2 = m1\<lparr>nextInBucket := (nextInBucket m1)(last (concat Ls) := freeNodes m1), freeNodes := start\<rparr>"
  have "last_of (concat Ls) = Some (last (concat Ls))" unfolding last_of_def using ne by (rule if_not_P)
  then have e: "GSIMapCleanMap t m = Some m2"
    using False c(1) bc by (simp add: GSIMapCleanMap_def m2_def)
  have "chain (nextInBucket m) (freeNodes m) F" using h by (simp add: heap_rep_def)
  moreover have "chain (nextInBucket m1) (freeNodes m) F \<longleftrightarrow> chain (nextInBucket m) (freeNodes m) F"
    using c(3) dist by (intro chain_cong) auto
  ultimately have "chain (nextInBucket m2) start (concat Ls @ F)"
    using chain_link [OF c(2) ne] dist c(11) by (simp add: m2_def)
  then have "heap_rep (nextInBucket m2) (buckets m2 @ []) (replicate (length Ls) []) start (concat Ls @ F)"
    using c(4,5) l dist by (simp add: heap_rep_def list_all2_conv_all_nth bucket_rep_def m2_def)
  then have "table_rep m2 [] (replicate (length Ls) []) (concat Ls @ F)"
    using rep c(7,9,12) by (auto simp: table_rep_def m2_def)
  then have ok2: "table_ok t m2 (replicate (length Ls) []) (concat Ls @ F)"
    using bc c(10) by (simp add: table_ok_def placed_def m2_def)
  have "mset (concat (map (release_events t m) ns)) = sum_mset (image_mset (owed t) (image_mset (pair_at m) (mset ns)))" for ns
    by (induction ns) (simp_all add: release_events_owed)
  then have "mset (events m2) = mset (events m) + sum_mset (image_mset (owed t) (contents m Ls))"
    by (simp add: m2_def c(6) contents_def)
  moreover have "filter_mset is_release (sum_mset (image_mset (owed t) A)) = sum_mset (image_mset (owed t) A)"
    "filter_mset (\<lambda>e. \<not> is_release e) (sum_mset (image_mset (owed t) A)) = {#}" for A
    by (induction A) (simp_all add: filter_owed)
  ultimately have "ledger t m2 {#} = ledger t m (contents m Ls)" by (simp add: ledger_def)
  then show ?thesis using e ok2 c(9) by (intro exI [of _ m2]) (simp add: m2_def)
qed

section \<open>Creating\<close>

lemma empty_table_ok:
  assumes "bucketCount m = 0" "buckets m = []" "freeNodes m = None" "nodeCount m = 0"
  shows "table_ok t m [] []"
  using assms by (simp add: table_ok_def table_rep_def heap_rep_def placed_def)

lemma init_holds:
  assumes "\<And>b. alloc b" and "c < 2 ^ 60"
  shows "\<exists>m. GSIMapInitWithZoneAndCapacity alloc t c = Some (None, m) \<and> map_holds t m {#} \<and> 3 * c < 4 * bucketCount m"
proof -
  let ?m = "\<lparr>nodeCount = 0, bucketCount = 0, buckets = [], freeNodes = None, chunkCount = 0, nodeChunks = [],
    increment = 300000, nextInBucket = \<lambda>_. None, node_key = \<lambda>_. None, node_value = \<lambda>_. None,
    heap_end = 0, events = []\<rparr> :: ('a, 'b) GSIMapTable"
  have "table_ok t ?m [] []" by (rule empty_table_ok) simp_all
  then obtain m1 Ls F D where r: "GSIMapRightSizeMap alloc t ?m c = Some m1" "table_ok t m1 Ls F"
    "reshapes t ?m [] m1 Ls D" "Ls \<noteq> []" "length Ls < 2 ^ 61" "3 * c < 4 * length Ls"
    using right_size [of t ?m "[]" "[]" c alloc] assms by auto
  have rep: "table_rep m1 [] Ls F" and bc: "bucketCount m1 = length Ls" and pl: "placed t m1 Ls"
    using r(2) by (simp_all add: table_ok_def)
  obtain m2 where m2: "GSIMapMoreNodes alloc t m1 c = (None, m2)"
    using assms(1) by (auto simp: GSIMapMoreNodes_def Let_def)
  obtain F2 where F2: "table_rep m2 [] Ls F2" "same_entries m1 m2 Ls" using more_nodes [OF rep m2] by blast
  have e: "concat Ls = []" using r(3) by (simp add: reshapes_def)
  have "placed t m2 Ls" using F2(2) by (intro placed_subset [OF pl]) (simp_all add: same_entries_def pair_at_def)
  then have "table_ok t m2 Ls F2" using F2 bc by (simp add: table_ok_def same_entries_def)
  moreover have "contents m2 Ls = {#}" unfolding contents_def e by simp
  ultimately have "map_holds t m2 {#}" using r(4,5) unfolding map_holds_def by blast
  moreover have "bucketCount m2 = length Ls" using F2(2) bc by (simp add: same_entries_def)
  ultimately show ?thesis using r(1,6) m2 by (intro exI [of _ m2]) (simp add: GSIMapInitWithZoneAndCapacity_def)
qed

section \<open>Sweeping weak entries\<close>

lemma remove_weak:
  assumes h: "map_holds t m E"
  shows "\<exists>m'. GSIMapRemoveWeak t m = Some m' \<and> map_holds t m' (filter_mset (live t) E) \<and>
    ledger t m' (filter_mset (live t) E) = ledger t m E"
proof (cases "zeroed t = 0")
  case True
  then have "filter_mset (live t) E = E" by (simp add: filter_mset_eq_conv)
  then show ?thesis using True h by (simp add: GSIMapRemoveWeak_def)
next
  case False
  obtain Ls F where ok: "table_ok t m Ls F" and ne: "Ls \<noteq> []" and l: "length Ls < 2 ^ 61"
    and E: "contents m Ls = E" using h by (auto simp: map_holds_def)
  have rep: "table_rep m [] Ls F" and bc: "bucketCount m = length Ls" and pl: "placed t m Ls"
    using ok by (simp_all add: table_ok_def)
  have lb: "length Ls = length (buckets m)" using table_rep_length [OF rep] by simp
  have "set [0..<length Ls] \<subseteq> {..<length (buckets m)}" using lb by auto
  then obtain m' Ls' F' D where w: "remove_weak_buckets t m [0..<length Ls] = Some m'" "table_rep m' [] Ls' F'"
    "drops t m Ls m' Ls' D" "only_dead t D" "\<forall>j < length Ls. set (Ls' ! j) \<subseteq> set (Ls ! j)"
    "\<forall>i \<in> set [0..<length Ls]. \<forall>a \<in> set (Ls' ! i). live t (pair_at m' a)"
    using remove_weak_buckets_drops [OF rep _ False] by blast
  note d = drops_contents [OF w(3)]
  have "placed t m' Ls'" using w(5) d(1) drops_pair_at [OF w(3)] by (intro placed_subset [OF pl]) simp_all
  then have ok': "table_ok t m' Ls' F'" using w(2) drops_shape [OF w(3)] bc by (simp add: table_ok_def same_shape_def)
  have "live t p" if p: "p \<in># contents m' Ls'" for p
  proof -
    obtain a as where "as \<in> set Ls'" "a \<in> set as" "pair_at m' a = p"
      using p unfolding contents_mem set_concat by blast
    then show ?thesis using w(6) d(1) by (metis atLeastLessThan_iff atLeastLessThan_upt in_set_conv_nth zero_le)
  qed
  then have "filter_mset (live t) (contents m' Ls') = contents m' Ls'" by (simp add: filter_mset_eq_conv)
  moreover have "filter_mset (live t) D = {#}" using w(4) by (simp add: only_dead_def filter_mset_eq_conv)
  ultimately have "filter_mset (live t) E = contents m' Ls'"
    unfolding E [symmetric] d(2) filter_union_mset by (simp only: add_0_right)
  moreover have "Ls' \<noteq> []" using ne d(1) by auto
  ultimately have "map_holds t m' (filter_mset (live t) E)"
    using ok' l d(1) unfolding map_holds_def by (intro exI [of _ Ls'] exI [of _ F']) simp
  moreover have "GSIMapRemoveWeak t m = Some m'" using False w(1) bc by (simp add: GSIMapRemoveWeak_def)
  ultimately show ?thesis using d(3) E \<open>filter_mset (live t) E = contents m' Ls'\<close> by simp
qed

section \<open>Enumerating\<close>

text \<open>\<open>rs\<close> are the nodes an enumerator still has to deliver.\<close>

definition enum_at ::
  "('k, 'v) GSIMapTable \<Rightarrow> addr list list \<Rightarrow> GSIMapEnumerator \<Rightarrow> addr list \<Rightarrow> bool" where
  "enum_at m Ls e rs \<longleftrightarrow>
     (enum_node e = None \<and> rs = []) \<or>
     (\<exists>as n bs. enum_bucket e < length Ls \<and> Ls ! enum_bucket e = as @ n # bs \<and> enum_node e = Some n \<and>
        rs = n # bs @ concat (drop (Suc (enum_bucket e)) Ls))"

lemma skip_dead_never: "skip_dead t never_dead m i node = Some (m, node)"
  by (cases node) (simp_all add: skip_dead.simps)

lemma skip_dead_alive: "(\<And>n. node = Some n \<Longrightarrow> \<not> dead m n) \<Longrightarrow> skip_dead t dead m i node = Some (m, node)"
  by (cases node) (simp_all add: skip_dead.simps)

lemma concat_drop_Suc: "b < length Ls \<Longrightarrow> concat (drop b Ls) = Ls ! b @ concat (drop (Suc b) Ls)"
  by (simp add: Cons_nth_drop_Suc [symmetric])

lemma advance_bucket_next:
  assumes "table_rep m [] Ls F" and "bucketCount m = length Ls" and "enum_bucket e < length Ls"
  shows "\<exists>b' node. advance_bucket t never_dead m (enum_bucket e) None = Some (m, b', node) \<and>
    enum_at m Ls (e\<lparr>enum_node := node, enum_bucket := b'\<rparr>) (concat (drop (Suc (enum_bucket e)) Ls))"
  using assms
proof (induction "length Ls - enum_bucket e" arbitrary: e rule: less_induct)
  case less
  let ?b = "enum_bucket e"
  show ?case
  proof (cases "?b + 1 < length Ls")
    case False
    then show ?thesis using less.prems(2) by (simp add: advance_bucket.simps [of t _ m ?b] enum_at_def)
  next
    case True
    have first: "firstNode (buckets m ! (?b + 1)) = head_of (Ls ! (?b + 1))"
      using table_rep_first [OF less.prems(1)] table_rep_length [OF less.prems(1)] True by simp
    have step: "advance_bucket t never_dead m ?b None = advance_bucket t never_dead m (?b + 1) (head_of (Ls ! (?b + 1)))"
      using True less.prems(2) first by (simp add: advance_bucket.simps [of t _ m ?b] skip_dead_never)
    have cd: "concat (drop (Suc ?b) Ls) = Ls ! (?b + 1) @ concat (drop (Suc (?b + 1)) Ls)"
      using concat_drop_Suc [of "?b + 1" Ls] True by simp
    show ?thesis
    proof (cases "Ls ! (?b + 1)")
      case Nil
      then show ?thesis using less.hyps [of "e\<lparr>enum_bucket := ?b + 1\<rparr>"] less.prems True step cd by simp
    next
      case (Cons n bs)
      then show ?thesis using step cd True
        by (auto simp: advance_bucket.simps [of t _ m "Suc ?b"] enum_at_def intro: exI [of _ "[]"])
    qed
  qed
qed

lemma enumerator_step_next:
  assumes r: "table_rep m [] Ls F" and bc: "bucketCount m = length Ls" and e: "enum_at m Ls e (n # rs)"
  shows "enum_node e = Some n \<and> (\<exists>e'. enumerator_step t m e n = Some e' \<and> enum_at m Ls e' rs)"
proof -
  obtain as bs where b: "enum_bucket e < length Ls" "Ls ! enum_bucket e = as @ n # bs" "enum_node e = Some n"
    "rs = bs @ concat (drop (Suc (enum_bucket e)) Ls)"
    using e by (auto simp: enum_at_def)
  have "chain (nextInBucket m) (firstNode (buckets m ! enum_bucket e)) (as @ n # bs)"
    using heap_rep_nth [OF table_rep_heap [OF r] b(1)] b(2) by (simp add: bucket_rep_def)
  then have nx: "nextInBucket m n = head_of bs" by (rule chain_next)
  show ?thesis
  proof (cases bs)
    case Nil
    obtain b' node where "advance_bucket t never_dead m (enum_bucket e) None = Some (m, b', node)"
      "enum_at m Ls (e\<lparr>enum_node := node, enum_bucket := b'\<rparr>) (concat (drop (Suc (enum_bucket e)) Ls))"
      using advance_bucket_next [OF r bc b(1)] by blast
    then show ?thesis using b nx Nil by (simp add: enumerator_step_def)
  next
    case (Cons n2 bs2)
    then have "enumerator_step t m e n = Some (e\<lparr>enum_node := Some n2\<rparr>)"
      using nx by (simp add: enumerator_step_def advance_bucket.simps)
    moreover have "enum_at m Ls (e\<lparr>enum_node := Some n2\<rparr>) rs"
      using b Cons unfolding enum_at_def by (intro disjI2 exI [of _ "as @ [n]"] exI [of _ n2] exI [of _ bs2]) simp
    ultimately show ?thesis using b(3) by blast
  qed
qed

lemma first_bucket_at:
  assumes "table_rep m [] Ls F" and "bucketCount m = length Ls" and "b \<le> length Ls"
    and "\<And>n. n \<in> set (concat Ls) \<Longrightarrow> \<not> dead m n"
  shows "\<exists>b' node. first_bucket t dead m b = Some (m, b', node) \<and>
    enum_at m Ls \<lparr>enum_node = node, enum_bucket = b'\<rparr> (concat (drop b Ls))"
  using assms
proof (induction "length Ls - b" arbitrary: b rule: less_induct)
  case less
  show ?case
  proof (cases "b < length Ls")
    case False
    then show ?thesis using less.prems by (simp add: first_bucket.simps [of t _ m "length Ls"] enum_at_def)
  next
    case True
    have "firstNode (buckets m ! b) = head_of (Ls ! b)"
      using table_rep_first [OF less.prems(1)] table_rep_length [OF less.prems(1)] True by simp
    moreover have "\<not> dead m n" if "head_of (Ls ! b) = Some n" for n
    proof -
      have "n \<in> set (Ls ! b)" using that by (cases "Ls ! b") auto
      then show ?thesis using less.prems(4) nth_mem [OF True] unfolding set_concat by blast
    qed
    ultimately have step: "first_bucket t dead m b =
        (case head_of (Ls ! b) of None \<Rightarrow> first_bucket t dead m (b + 1) | Some n \<Rightarrow> Some (m, b, Some n))"
      using True less.prems(2) by (simp add: first_bucket.simps [of t _ m b] skip_dead_alive cong: option.case_cong)
    show ?thesis
    proof (cases "Ls ! b")
      case Nil
      then show ?thesis using less.hyps [of "b + 1"] less.prems True step concat_drop_Suc [OF True] by simp
    next
      case (Cons n bs)
      then show ?thesis using step True concat_drop_Suc [OF True]
        by (auto simp: enum_at_def intro: exI [of _ "[]"])
    qed
  qed
qed

end
