(* ===== verification/GSI_Map_Props.thy ===== *)
theory GSI_Map_Props
  imports GSI_Map_Enum
begin

text \<open>
  The properties of the hash table, stated for tables with and without weak references, and
  the tables with integer keys of \<^verbatim>\<open>Source/NSCallBacks.m\<close> as the instance they are tried on.
\<close>

section \<open>Tables of integers\<close>

text \<open>
  \<^verbatim>\<open>NSIntegerMapKeyCallBacks\<close> and \<^verbatim>\<open>NSIntegerMapValueCallBacks\<close>: an integer is its own
  hash value, equality is that of integers, nothing is retained or weak.
\<close>

definition integer_traits :: "(nat, nat) map_traits" where
  "integer_traits = \<lparr>hash_of = (\<lambda>i. i), equal_keys = (=), has_value = True, key_addr = (\<lambda>i. i),
     value_addr = (\<lambda>i. i), zeroed = 0, key_gone = (\<lambda>_. False), value_gone = (\<lambda>_. False),
     value_as_key = (\<lambda>i. i)\<rparr>"

interpretation integer_keys: hashed_keys integer_traits
  by unfold_locales (simp_all add: integer_traits_def)

text \<open>The same with weak values, of which those at odd addresses are gone.\<close>

definition weak_traits :: "(nat, nat) map_traits" where
  "weak_traits = integer_traits\<lparr>zeroed := 2, value_gone := odd\<rparr>"

interpretation weak_values: hashed_keys weak_traits
  by unfold_locales (simp_all add: integer_traits_def weak_traits_def)

text \<open>A table with three buckets and two entries, \<open>7 \<mapsto> 70\<close> and \<open>10 \<mapsto> 101\<close>, and a free node.\<close>

definition small_table :: "(nat, nat) GSIMapTable" where
  "small_table = \<lparr>nodeCount = 2, bucketCount = 3,
     buckets = [\<lparr>bucketNodes = 0, firstNode = None\<rparr>, \<lparr>bucketNodes = 2, firstNode = Some 1\<rparr>,
                \<lparr>bucketNodes = 0, firstNode = None\<rparr>],
     freeNodes = Some 2, chunkCount = 1, nodeChunks = [(0, 3)], increment = 300000,
     nextInBucket = (\<lambda>_. None)(1 := Some 0), node_key = [0 \<mapsto> 7, 1 \<mapsto> 10], node_value = [0 \<mapsto> 70, 1 \<mapsto> 101],
     heap_end = 3, events = []\<rparr>"

lemma all_less_3: "(\<forall>i < (3 :: nat). P i) \<longleftrightarrow> P 0 \<and> P 1 \<and> P 2"
  by (auto simp: numeral_3_eq_3 numeral_2_eq_2 less_Suc_eq)

lemma small_table_ok:
  assumes "hash_of t = (\<lambda>i. i)"
  shows "table_ok t small_table [[], [1, 0], []] [2]"
proof -
  have "heap_rep (nextInBucket small_table) (buckets small_table @ []) [[], [1, 0], []] (freeNodes small_table) [2]"
    by (simp add: heap_rep_def bucket_rep_def small_table_def)
  then have "table_rep small_table [] [[], [1, 0], []] [2]"
    by (simp add: table_rep_def) (simp add: small_table_def)
  moreover have "length [[], [1, 0], [] :: addr list] = 3" by simp
  then have "placed t small_table [[], [1, 0], []]"
    unfolding placed_def by (simp only: all_less_3)
      (simp add: pair_at_def small_table_def GSIMapPickBucket_def assms u32_def)
  moreover have "bucketCount small_table = 3" by (simp add: small_table_def)
  ultimately show ?thesis by (simp add: table_ok_def)
qed

lemma live_weak [simp]: "live weak_traits (k, v) \<longleftrightarrow> even v"
  by (simp add: live_def weak_traits_def integer_traits_def)

lemma small_table_contents: "contents small_table [[], [1, 0], []] = {#(7, 70), (10, 101)#}"
  by (simp add: contents_def pair_at_def small_table_def add_mset_commute)

lemma small_table_holds: "hash_of t = (\<lambda>i. i) \<Longrightarrow> map_holds t small_table {#(7, 70), (10, 101)#}"
  unfolding map_holds_def using small_table_ok [of t] small_table_contents
  by (intro exI [of _ "[[], [1, 0], []]"] exI [of _ "[2]"]) simp

section \<open>Properties\<close>

text \<open>
  C7. Adding a pair to a table that holds some pairs, weak or not: if memory is granted, or a
  node is free and the buckets need not grow, the table holds that pair besides the others,
  less at most entries whose weak references are gone; the releases made and owed account for
  it; and the number of pairs before was less than four thirds of the number of buckets.
  If no node can be allocated, an exception is raised and the table is as before.
\<close>

theorem map_add_pair:
  assumes "map_holds t m E" and "size E + 1 < 2 ^ 60"
    and "zeroed t = 0 \<or> key_addr t k \<noteq> 0 \<and> value_addr t v \<noteq> 0"
  shows "(\<exists>m' n E' D. GSIMapAddPair alloc t m k v = Some (None, m', Some n) \<and> map_holds t m' E' \<and>
      add_mset (k, v) E = E' + D \<and> only_dead t D \<and>
      ledger t m' E' = ledger t (m\<lparr>events := events m @ [RetainKey k, RetainValue v]\<rparr>) (add_mset (k, v) E) \<and>
      (live t (k, v) \<longrightarrow> pair_at m' n = (k, v)) \<and>
      ((\<forall>b. alloc b) \<longrightarrow> 3 * size E < 4 * bucketCount m')) \<or>
    (GSIMapAddPair alloc t m k v = Some (Some NSMallocException, m, None) \<and> freeNodes m = None \<and> \<not> (\<forall>b. alloc b))"
proof -
  have "GSIMapAddPair alloc t m k v = add_pair alloc t [RetainKey k, RetainValue v] m k v"
    using assms(3) by (auto simp: GSIMapAddPair_def)
  then show ?thesis using add_pair_holds [OF assms(1,2)] by simp
qed

theorem map_add_pair_witness:
  "\<exists>m' n. GSIMapAddPair (\<lambda>_. True) integer_traits small_table 4 40 = Some (None, m', Some n) \<and>
     map_holds integer_traits m' {#(4, 40), (7, 70), (10, 101)#} \<and> pair_at m' n = (4, 40)"
proof -
  have "hash_of integer_traits = (\<lambda>i. i)" "zeroed integer_traits = 0" by (simp_all add: integer_traits_def)
  then show ?thesis
    using map_add_pair [OF small_table_holds, of integer_traits 4 40 "\<lambda>_. True"]
    by (auto simp: only_dead_strong)
qed

text \<open>
  C16. A lookup answers a node whose key is equal to the one asked for and whose references
  are alive, if the table has such an entry, and nothing otherwise; the table loses at most
  dead entries by it.
\<close>

theorem map_lookup:
  assumes "hashed_keys t" and "map_holds t m E" and "zeroed t = 0 \<or> key_addr t k \<noteq> 0"
  shows "\<exists>m' r D. GSIMapNodeForKey t m k = Some (m', r) \<and> D \<subseteq># E \<and> only_dead t D \<and> map_holds t m' (E - D) \<and>
    ledger t m' (E - D) = ledger t m E \<and>
    (case r of None \<Rightarrow> \<forall>p \<in># E. live t p \<longrightarrow> \<not> equal_keys t (fst p) k
     | Some n \<Rightarrow> pair_at m' n \<in># E \<and> live t (pair_at m' n) \<and> equal_keys t (fst (pair_at m' n)) k)"
  by (rule hashed_keys.lookup [OF assms])

theorem map_lookup_witness:
  "\<exists>m' r D. GSIMapNodeForKey weak_traits small_table 10 = Some (m', r) \<and>
     map_holds weak_traits m' ({#(7, 70), (10, 101)#} - D) \<and> r = None"
proof -
  have "hash_of weak_traits = (\<lambda>i. i)" by (simp add: integer_traits_def weak_traits_def)
  note h = small_table_holds [OF this]
  have k: "zeroed weak_traits = 0 \<or> key_addr weak_traits 10 \<noteq> 0"
    by (simp add: weak_traits_def integer_traits_def)
  obtain m' r D where l: "GSIMapNodeForKey weak_traits small_table 10 = Some (m', r)"
    "map_holds weak_traits m' ({#(7, 70), (10, 101)#} - D)"
    "case r of None \<Rightarrow> \<forall>p \<in># {#(7, 70), (10, 101)#}. live weak_traits p \<longrightarrow> \<not> equal_keys weak_traits (fst p) 10
     | Some n \<Rightarrow> pair_at m' n \<in># {#(7, 70), (10, 101)#} \<and> live weak_traits (pair_at m' n) \<and>
       equal_keys weak_traits (fst (pair_at m' n)) 10"
    using map_lookup [OF weak_values.hashed_keys_axioms h k] by blast
  have "r = None" using l(3) by (cases r) (auto simp: weak_traits_def integer_traits_def live_def)
  then show ?thesis using l(1,2) by blast
qed

text \<open>
  C17. Removing a key takes out exactly one entry with an equal key and answers YES, or, if
  there is none alive, takes out nothing but dead entries and answers NO; the books balance.
\<close>

theorem map_remove_key:
  assumes "hashed_keys t" and "map_holds t m E" and "zeroed t = 0 \<or> key_addr t k \<noteq> 0"
  shows "\<exists>m' b D. GSIMapRemoveKey t m k = Some (m', b) \<and> D \<subseteq># E \<and> map_holds t m' (E - D) \<and>
    ledger t m' (E - D) = ledger t m E \<and>
    (if b then \<exists>p D'. D = add_mset p D' \<and> only_dead t D' \<and> live t p \<and> equal_keys t (fst p) k
     else only_dead t D \<and> (\<forall>p \<in># E. live t p \<longrightarrow> \<not> equal_keys t (fst p) k))"
  by (rule hashed_keys.remove [OF assms])

theorem map_remove_key_witness:
  "\<exists>m'. GSIMapRemoveKey integer_traits small_table 7 = Some (m', True) \<and> map_holds integer_traits m' {#(10, 101)#}"
proof -
  have t: "hash_of integer_traits = (\<lambda>i. i)" "zeroed integer_traits = 0" "equal_keys integer_traits = (=)"
    by (simp_all add: integer_traits_def)
  obtain m' b D where r: "GSIMapRemoveKey integer_traits small_table 7 = Some (m', b)"
    "D \<subseteq># {#(7, 70), (10, 101)#}" "map_holds integer_traits m' ({#(7, 70), (10, 101)#} - D)"
    "if b then \<exists>p D'. D = add_mset p D' \<and> only_dead integer_traits D' \<and> live integer_traits p \<and> fst p = 7
     else only_dead integer_traits D \<and> (\<forall>p \<in># {#(7, 70), (10, 101)#}. live integer_traits p \<longrightarrow> fst p \<noteq> 7)"
    using map_remove_key [OF integer_keys.hashed_keys_axioms small_table_holds [OF t(1)], of 7] t(2)
    unfolding t(3) by blast
  have b: b using r(4) t(2) by (simp split: if_splits)
  then obtain v where "D = {#(7, v)#}" using r(4) t(2) by (auto simp: only_dead_strong)
  moreover from this have "D = {#(7, 70)#}" using r(2) by auto
  ultimately show ?thesis using r(1,3) b by auto
qed

text \<open>
  Cleaning a table empties it and releases the keys and values of all its entries once;
  every node is free again and the buckets stay.
\<close>

theorem map_clean:
  assumes "map_holds t m E"
  shows "\<exists>m'. GSIMapCleanMap t m = Some m' \<and> map_holds t m' {#} \<and> nodeCount m' = 0 \<and>
    bucketCount m' = bucketCount m \<and> ledger t m' {#} = ledger t m E"
proof -
  obtain Ls F where ok: "table_ok t m Ls F" "Ls \<noteq> []" "length Ls < 2 ^ 61" "contents m Ls = E"
    using assms by (auto simp: map_holds_def)
  obtain m' where c: "GSIMapCleanMap t m = Some m'" "table_ok t m' (replicate (length Ls) []) (concat Ls @ F)"
    "ledger t m' {#} = ledger t m (contents m Ls)" "nodeCount m' = 0"
    using clean_map [OF ok(1)] by blast
  have "contents m' (replicate (length Ls) []) = {#}" by (simp add: contents_def)
  then have "map_holds t m' {#}" using c(2) ok(2,3) unfolding map_holds_def
    by (intro exI [of _ "replicate (length Ls) []"] exI [of _ "concat Ls @ F"]) simp
  then show ?thesis using c ok(1,4) by (simp add: table_ok_def)
qed

theorem map_clean_witness:
  "\<exists>m'. GSIMapCleanMap integer_traits small_table = Some m' \<and> map_holds integer_traits m' {#} \<and>
     mset (events m') = {#ReleaseKey 10, ReleaseValue 101, ReleaseKey 7, ReleaseValue 70#}"
proof -
  have t: "hash_of integer_traits = (\<lambda>i. i)" by (simp add: integer_traits_def)
  obtain m' where m': "GSIMapCleanMap integer_traits small_table = Some m'" "map_holds integer_traits m' {#}"
    "ledger integer_traits m' {#} = ledger integer_traits small_table {#(7, 70), (10, 101)#}"
    using map_clean [OF small_table_holds [OF t]] by blast
  have f: "filter_mset is_release (mset (events m')) = {#ReleaseKey 10, ReleaseValue 101, ReleaseKey 7, ReleaseValue 70#}"
    "filter_mset (\<lambda>e. \<not> is_release e) (mset (events m')) = {#}"
    using m'(3) by (simp_all add: ledger_def owed_def integer_traits_def small_table_def)
  have "mset (events m') = filter_mset is_release (mset (events m')) + filter_mset (\<lambda>e. \<not> is_release e) (mset (events m'))"
    by (rule multiset_partition [of "mset (events m')" is_release])
  then have "mset (events m') = {#ReleaseKey 10, ReleaseValue 101, ReleaseKey 7, ReleaseValue 70#}"
    unfolding f by simp
  with m'(1,2) show ?thesis by (intro exI [of _ m'] conjI)
qed

text \<open>
  Sweeping a table keeps exactly the entries whose weak references are alive, and
  releases what the others held.
\<close>

theorem map_remove_weak:
  assumes "map_holds t m E"
  shows "\<exists>m'. GSIMapRemoveWeak t m = Some m' \<and> map_holds t m' (filter_mset (live t) E) \<and>
    ledger t m' (filter_mset (live t) E) = ledger t m E"
  by (rule remove_weak [OF assms])

theorem map_remove_weak_witness:
  "\<exists>m'. GSIMapRemoveWeak weak_traits small_table = Some m' \<and> map_holds weak_traits m' {#(7, 70)#}"
proof -
  have t: "hash_of weak_traits = (\<lambda>i. i)" by (simp add: integer_traits_def weak_traits_def)
  have "filter_mset (live weak_traits) {#(7, 70), (10, 101)#} = {#(7, 70)#}"
    by (simp add: live_def integer_traits_def weak_traits_def)
  then show ?thesis using map_remove_weak [OF small_table_holds [OF t]] by auto
qed

text \<open>
  C19. Changing the number of buckets to what the table's load asks for keeps all entries
  that are alive; when memory is refused the table is usable as it is. With memory the
  capacity is below four thirds of the number of buckets.
\<close>

theorem map_right_size:
  assumes "map_holds t m E" and "c < 2 ^ 60"
  shows "\<exists>m' E' D. GSIMapRightSizeMap alloc t m c = Some m' \<and> map_holds t m' E' \<and> E = E' + D \<and> only_dead t D \<and>
    ledger t m' E' = ledger t m E \<and> ((\<forall>b. alloc b) \<longrightarrow> 3 * c < 4 * bucketCount m')"
proof -
  obtain Ls F where ok: "table_ok t m Ls F" "Ls \<noteq> []" "length Ls < 2 ^ 61" "contents m Ls = E"
    using assms by (auto simp: map_holds_def)
  obtain m' Ls' F' D where r: "GSIMapRightSizeMap alloc t m c = Some m'" "table_ok t m' Ls' F'"
    "reshapes t m Ls m' Ls' D" "Ls' \<noteq> []" "length Ls' < 2 ^ 61" "(\<forall>n. alloc n) \<longrightarrow> 3 * c < 4 * length Ls'"
    using right_size [OF ok(1) assms(2) ok(3), of alloc] ok(2) by blast
  have "map_holds t m' (contents m' Ls')" using r(2,4,5) unfolding map_holds_def by blast
  then show ?thesis using r ok(4)
    by (intro exI [of _ m'] exI [of _ "contents m' Ls'"] exI [of _ D]) (simp add: reshapes_def table_ok_def)
qed

theorem map_right_size_witness:
  "\<exists>m'. GSIMapRightSizeMap (\<lambda>_. True) integer_traits small_table 4 = Some m' \<and>
     map_holds integer_traits m' {#(7, 70), (10, 101)#} \<and> 12 < 4 * bucketCount m'"
proof -
  have "hash_of integer_traits = (\<lambda>i. i)" "zeroed integer_traits = 0" by (simp_all add: integer_traits_def)
  then show ?thesis
    using map_right_size [OF small_table_holds, of integer_traits 4 "\<lambda>_. True"] by (auto simp: only_dead_strong)
qed

text \<open>
  A new table holds nothing and has room for the capacity asked for; but when the
  buckets cannot be allocated the table is silently left without any, and the next removal of
  a key, or addition that is refused buckets again, divides by zero.
\<close>

theorem map_init:
  assumes "c < 2 ^ 60" and "bucketCount m0 = 0"
  shows "((\<forall>b. alloc b) \<longrightarrow>
      (\<exists>m. GSIMapInitWithZoneAndCapacity alloc t c = Some (None, m) \<and> map_holds t m {#} \<and> 3 * c < 4 * bucketCount m)) \<and>
    (\<not> alloc (odd_size (3 * c div 4 + 1) * SIZEOF_BUCKET) \<longrightarrow>
      (\<exists>e m. GSIMapInitWithZoneAndCapacity alloc t c = Some (e, m) \<and> bucketCount m = 0)) \<and>
    GSIMapRemoveKey t m0 k = None"
proof (intro conjI impI)
  show "\<forall>b. alloc b \<Longrightarrow> \<exists>m. GSIMapInitWithZoneAndCapacity alloc t c = Some (None, m) \<and> map_holds t m {#} \<and>
      3 * c < 4 * bucketCount m"
    using init_holds [of alloc c t] assms(1) by simp
  show "GSIMapRemoveKey t m0 k = None"
    by (simp add: GSIMapRemoveKey_def GSIMapBucketForKey_def GSIMapPickBucket_def assms(2))
  assume "\<not> alloc (odd_size (3 * c div 4 + 1) * SIZEOF_BUCKET)"
  moreover have "umul 3 c = 3 * c" "umul 4 0 = 0" using assms(1) by (simp_all add: bounds_simps)
  ultimately show "\<exists>e m. GSIMapInitWithZoneAndCapacity alloc t c = Some (e, m) \<and> bucketCount m = 0"
    by (simp add: GSIMapInitWithZoneAndCapacity_def GSIMapRightSizeMap_def resize_refused GSIMapMoreNodes_def Let_def
        split: if_splits)
qed

theorem map_init_witness:
  "\<exists>e m. GSIMapInitWithZoneAndCapacity (\<lambda>b. b \<noteq> 48) integer_traits 2 = Some (e, m) \<and> bucketCount m = 0 \<and>
     GSIMapRemoveKey integer_traits m 7 = None"
proof -
  have n: "\<not> odd_size (3 * 2 div 4 + 1) * SIZEOF_BUCKET \<noteq> 48" by (simp add: odd_size_def next_size.simps)
  obtain e m where m: "GSIMapInitWithZoneAndCapacity (\<lambda>b. b \<noteq> 48) integer_traits 2 = Some (e, m)" "bucketCount m = 0"
    using map_init [of 2 "small_table\<lparr>bucketCount := 0\<rparr>" "\<lambda>b. b \<noteq> 48" integer_traits] n by force
  then show ?thesis using map_init [of 2 m "\<lambda>b. b \<noteq> 48" integer_traits 7] by force
qed

section \<open>Enumeration\<close>

text \<open>\<open>ks\<close> are all the keys in the order of enumeration, of which \<open>p\<close> have been handed out.\<close>

definition fast_at ::
  "('k, 'v) map_traits \<Rightarrow> ('k, 'v) GSIMapTable \<Rightarrow> 'k list \<Rightarrow> fast_enumeration \<Rightarrow> nat \<Rightarrow> bool" where
  "fast_at t m ks st p \<longleftrightarrow> p \<le> length ks \<and> fast_state st = p \<and>
     (\<exists>Ls F. table_ok t m Ls F \<and> ks = map (fst \<circ> pair_at m) (concat Ls) \<and>
        (0 < p \<longrightarrow> enum_at m Ls (fast_extra st) (drop p (concat Ls))))"

text \<open>
  The entries an enumeration does not drop: all of a table without weak references; in a table
  with some, those whose key and value are not gone and not nil.
\<close>

definition kept :: "('k, 'v) map_traits \<Rightarrow> 'k \<times> 'v \<Rightarrow> bool" where
  "kept t p \<longleftrightarrow> zeroed t = 0 \<or>
     live t p \<and> key_addr t (fst p) \<noteq> 0 \<and> (has_value t \<longrightarrow> value_as_key t (snd p) \<noteq> 0)"

lemma kept_read: "kept t (pair_at m n) \<Longrightarrow> zeroed t = 0 \<or> read_key_addr t m n \<noteq> 0"
  by (auto simp: kept_def read_key_addr_def live_def pair_at_def)

lemma kept_not_dead: "kept t (pair_at m n) \<Longrightarrow> \<not> weak_dead t m n"
  by (auto simp: kept_def GSIMapWeakIsEmpty_live)

lemma enumerator_next:
  assumes ok: "table_ok t m Ls F" and z: "has_value t"
  shows "enum_at m Ls e [] \<Longrightarrow> GSIMapEnumeratorNext t m e = Some (m, e, None)"
    "enum_at m Ls e (n # rs) \<Longrightarrow> kept t (pair_at m n) \<Longrightarrow>
       \<exists>e'. GSIMapEnumeratorNext t m e = Some (m, e', Some (pair_at m n)) \<and> enum_at m Ls e' rs"
proof -
  show "enum_at m Ls e [] \<Longrightarrow> GSIMapEnumeratorNext t m e = Some (m, e, None)"
    by (auto simp: enum_at_def GSIMapEnumeratorNext.simps)
  assume "enum_at m Ls e (n # rs)" and k: "kept t (pair_at m n)"
  moreover from k z have "zeroed t = 0 \<or> read_key_addr t m n \<noteq> 0 \<and> value_as_key t (the (node_value m n)) \<noteq> 0"
    using kept_read [OF k] by (auto simp: kept_def pair_at_def)
  ultimately show "\<exists>e'. GSIMapEnumeratorNext t m e = Some (m, e', Some (pair_at m n)) \<and> enum_at m Ls e' rs"
    using enumerator_step_next [of m Ls F e n rs t] ok
    by (auto simp: table_ok_def GSIMapEnumeratorNext.simps [of t m e] pair_at_def)
qed

lemma enumerator_next_key:
  assumes ok: "table_ok t m Ls F"
  shows "enum_at m Ls e [] \<Longrightarrow> GSIMapEnumeratorNextKey t m e = Some (e, None)"
    "enum_at m Ls e (n # rs) \<Longrightarrow> kept t (pair_at m n) \<Longrightarrow>
       \<exists>e'. GSIMapEnumeratorNextKey t m e = Some (e', Some (fst (pair_at m n))) \<and> enum_at m Ls e' rs"
proof -
  show "enum_at m Ls e [] \<Longrightarrow> GSIMapEnumeratorNextKey t m e = Some (e, None)"
    by (auto simp: enum_at_def GSIMapEnumeratorNextKey.simps)
  assume "enum_at m Ls e (n # rs)" "kept t (pair_at m n)"
  then show "\<exists>e'. GSIMapEnumeratorNextKey t m e = Some (e', Some (fst (pair_at m n))) \<and> enum_at m Ls e' rs"
    using enumerator_step_next [of m Ls F e n rs t] ok kept_read [of t m n]
    by (auto simp: table_ok_def GSIMapEnumeratorNextKey.simps [of t m e] pair_at_def)
qed

lemma fast_fill_takes:
  assumes ok: "table_ok t m Ls F" and e: "enum_at m Ls e rs" and k: "\<And>n. n \<in> set rs \<Longrightarrow> kept t (pair_at m n)"
  shows "\<exists>e'. fast_fill t m e len objs = Some (m, e', objs @ take len (map (fst \<circ> pair_at m) rs)) \<and>
    enum_at m Ls e' (drop len rs)"
  using e k
proof (induction len arbitrary: e rs objs)
  case 0
  then show ?case by simp
next
  case (Suc len)
  show ?case
  proof (cases rs)
    case Nil
    then show ?thesis
      using enumerator_next(1) [OF ok, of e] enumerator_next_key(1) [OF ok, of e] Suc.prems(1) by auto
  next
    case (Cons n rs')
    have kn: "kept t (pair_at m n)" and ks: "\<And>n. n \<in> set rs' \<Longrightarrow> kept t (pair_at m n)"
      using Suc.prems(2) Cons by simp_all
    have e: "enum_at m Ls e (n # rs')" using Suc.prems(1) Cons by simp
    show ?thesis
    proof (cases "has_value t")
      case True
      obtain e1 where "GSIMapEnumeratorNext t m e = Some (m, e1, Some (pair_at m n))" "enum_at m Ls e1 rs'"
        using enumerator_next(2) [OF ok True e kn] by blast
      then show ?thesis using Suc.IH [of e1 rs' "objs @ [fst (pair_at m n)]"] ks Cons True by auto
    next
      case False
      obtain e1 where "GSIMapEnumeratorNextKey t m e = Some (e1, Some (fst (pair_at m n)))" "enum_at m Ls e1 rs'"
        using enumerator_next_key(2) [OF ok e kn] by blast
      then show ?thesis using Suc.IH [of e1 rs' "objs @ [fst (pair_at m n)]"] ks Cons False by auto
    qed
  qed
qed

lemma chain_unique: "chain nx p as \<Longrightarrow> chain nx p bs \<Longrightarrow> as = bs"
proof (induction as arbitrary: p bs)
  case Nil
  then show ?case by (cases bs) auto
next
  case (Cons a as)
  then show ?case by (cases bs) auto
qed

lemma table_ok_unique:
  assumes "table_ok t m Ls F" "table_ok t m Ls' F'"
  shows "Ls = Ls'"
proof -
  have heap: "heap_rep (nextInBucket m) (buckets m @ []) Ls (freeNodes m) F"
    "heap_rep (nextInBucket m) (buckets m @ []) Ls' (freeNodes m) F'"
    using assms by (simp_all only: table_ok_def table_rep_def)
  then have len: "length Ls = length Ls'"
    using heap_rep_length by metis
  show ?thesis
  proof (rule nth_equalityI [OF len])
    fix i assume "i < length Ls"
    then show "Ls ! i = Ls' ! i"
      using heap_rep_nth [OF heap(1), of i] heap_rep_nth [OF heap(2), of i] len
      unfolding bucket_rep_def by (metis chain_unique)
  qed
qed

text \<open>
  The loop a compiler makes of \<^verbatim>\<open>for (... in ...)\<close>: calls until one hands out nothing. The result
  is what the body of the loop is run for.
\<close>

partial_function (option) for_in ::
  "('k, 'v) map_traits \<Rightarrow> ('k, 'v) GSIMapTable \<Rightarrow> fast_enumeration \<Rightarrow> nat \<Rightarrow> 'k list option" where
  "for_in t m st len =
     do {
       (m', st', objs) \<leftarrow> GSIMapCountByEnumeratingWithStateObjectsCount t m st len;
       (if objs = [] then Some []
        else do { rest \<leftarrow> for_in t m' st' len; Some (objs @ rest) })
     }"

lemma for_in_delivers:
  assumes "\<And>st p. fast_at t m ks st p \<Longrightarrow>
      \<exists>st'. GSIMapCountByEnumeratingWithStateObjectsCount t m st len = Some (m, st', take len (drop p ks)) \<and>
        fast_at t m ks st' (min (p + len) (length ks))"
    and "0 < len"
  shows "fast_at t m ks st p \<Longrightarrow> for_in t m st len = Some (drop p ks)"
proof (induction "length ks - p" arbitrary: st p rule: less_induct)
  case less
  obtain st' where c: "GSIMapCountByEnumeratingWithStateObjectsCount t m st len = Some (m, st', take len (drop p ks))"
    "fast_at t m ks st' (min (p + len) (length ks))"
    using assms(1) [OF less.prems] by blast
  show ?case
  proof (cases "p < length ks")
    case False
    then show ?thesis using c(1) by (simp add: for_in.simps [of t m st])
  next
    case True
    then have "for_in t m st' len = Some (drop (min (p + len) (length ks)) ks)"
      using assms(2) c(2) by (intro less.hyps) auto
    moreover have "take len (drop p ks) @ drop (min (p + len) (length ks)) ks = drop p ks"
      by (simp add: min_def add.commute) (metis append_take_drop_id drop_drop)
    ultimately show ?thesis using c(1) True assms(2) by (simp add: for_in.simps [of t m st])
  qed
qed

text \<open>
  C18. Fast enumeration of a table without weak references, or with none that is gone or nil:
  every call, whatever the size of its buffer, hands out the next keys of one fixed list, in
  which each entry's key occurs exactly once, and leaves the table alone; a loop with a buffer
  of at least one place ends and has delivered exactly that list.
\<close>

theorem map_fast_enumeration:
  assumes "map_holds t m E" and "\<forall>p \<in># E. kept t p" and "size E < 2 ^ 60"
  shows "\<exists>ks. mset ks = image_mset fst E \<and>
    (\<forall>x. fast_at t m ks \<lparr>fast_state = 0, fast_extra = x\<rparr> 0) \<and>
    (\<forall>st p len. fast_at t m ks st p \<longrightarrow>
       (\<exists>st'. GSIMapCountByEnumeratingWithStateObjectsCount t m st len = Some (m, st', take len (drop p ks)) \<and>
              fast_at t m ks st' (min (p + len) (length ks)))) \<and>
    (\<forall>x len. 0 < len \<longrightarrow> for_in t m \<lparr>fast_state = 0, fast_extra = x\<rparr> len = Some ks)"
proof -
  obtain Ls F where ok: "table_ok t m Ls F" and E: "contents m Ls = E" using assms(1) by (auto simp: map_holds_def)
  let ?ks = "map (fst \<circ> pair_at m) (concat Ls)"
  have ms: "mset ?ks = image_mset fst E" by (simp add: E [symmetric] contents_def multiset.map_comp)
  have "size (mset ?ks) = size E" unfolding ms by simp
  then have len: "length ?ks < 2 ^ 60" using assms(3) by (simp only: size_mset)
  have step: "\<exists>st'. GSIMapCountByEnumeratingWithStateObjectsCount t m st len = Some (m, st', take len (drop p ?ks)) \<and>
      fast_at t m ?ks st' (min (p + len) (length ?ks))" if at: "fast_at t m ?ks st p" for st p len
  proof -
    obtain Ls' F' where ok': "table_ok t m Ls' F'" and ks: "?ks = map (fst \<circ> pair_at m) (concat Ls')"
      and en: "0 < p \<longrightarrow> enum_at m Ls' (fast_extra st) (drop p (concat Ls'))"
      and p: "p \<le> length ?ks" "fast_state st = p"
      using at unfolding fast_at_def by (elim conjE exE) (rule that, assumption+)
    have rep: "table_rep m [] Ls' F'" "bucketCount m = length Ls'" using ok' by (simp_all add: table_ok_def)
    have kept: "kept t (pair_at m n)" if "n \<in> set (concat Ls')" for n
    proof -
      have "n \<in> set (concat Ls)" using that table_ok_unique [OF ok ok'] by simp
      then have "pair_at m n \<in># E" unfolding E [symmetric] contents_mem by blast
      then show ?thesis using assms(2) by blast
    qed
    obtain e where e: "(if fast_state st = 0 then GSIMapEnumeratorForMap t m else Some (m, fast_extra st)) = Some (m, e)"
      "enum_at m Ls' e (drop p (concat Ls'))"
    proof (cases "p = 0")
      case True
      obtain b node where "first_bucket t (weak_dead t) m 0 = Some (m, b, node)"
        "enum_at m Ls' \<lparr>enum_node = node, enum_bucket = b\<rparr> (concat (drop 0 Ls'))"
        using first_bucket_at [OF rep, where t = t and b = 0 and dead = "weak_dead t"] kept_not_dead [OF kept] by auto
      then show ?thesis using that p(2) True by (simp add: GSIMapEnumeratorForMap_def)
    next
      case False
      then show ?thesis using that en p(2) by simp
    qed
    obtain e' where e': "fast_fill t m e len [] = Some (m, e', take len (map (fst \<circ> pair_at m) (drop p (concat Ls'))))"
      "enum_at m Ls' e' (drop len (drop p (concat Ls')))"
      using fast_fill_takes [OF ok' e(2), of len "[]"] kept by (auto dest: in_set_dropD)
    have tk: "take len (map (fst \<circ> pair_at m) (drop p (concat Ls'))) = take len (drop p ?ks)"
      unfolding ks by (simp add: drop_map)
    have l: "length (take len (drop p ?ks)) = min (p + len) (length ?ks) - p" using p(1) by auto
    have fits: "uadd p (min (p + len) (length ?ks) - p) = min (p + len) (length ?ks)"
      using p(1) len by (simp add: bounds_simps)
    let ?st = "st\<lparr>fast_extra := e', fast_state := min (p + len) (length ?ks)\<rparr>"
    have "GSIMapCountByEnumeratingWithStateObjectsCount t m st len = Some (m, ?st, take len (drop p ?ks))"
      unfolding GSIMapCountByEnumeratingWithStateObjectsCount_def e(1)
      by (simp only: bind.bind_lunit e'(1) prod.case tk l p(2) fits)
    moreover have "length ?ks = length (concat Ls')" unfolding ks by simp
    then have "drop len (drop p (concat Ls')) = drop (min (p + len) (length ?ks)) (concat Ls')"
      by (simp add: min_def add.commute)
    then have "fast_at t m ?ks ?st (min (p + len) (length ?ks))"
      using ok' ks e'(2) unfolding fast_at_def by (intro conjI exI [of _ Ls'] exI [of _ F']) simp_all
    ultimately show ?thesis by blast
  qed
  have start: "fast_at t m ?ks \<lparr>fast_state = 0, fast_extra = x\<rparr> 0" for x using ok unfolding fast_at_def by auto
  have "for_in t m \<lparr>fast_state = 0, fast_extra = x\<rparr> len = Some ?ks" if "0 < len" for x len
    using for_in_delivers [OF step that start] by simp
  then show ?thesis using ms step start by (intro exI [of _ ?ks] conjI allI impI) simp_all
qed

theorem map_fast_enumeration_witness:
  "\<exists>ks. mset ks = {#7, 10#} \<and>
     for_in (weak_traits\<lparr>value_gone := \<lambda>v. v = 5\<rparr>) small_table
       \<lparr>fast_state = 0, fast_extra = \<lparr>enum_node = None, enum_bucket = 0\<rparr>\<rparr> 1 = Some ks"
proof -
  let ?t = "weak_traits\<lparr>value_gone := \<lambda>v. v = 5\<rparr>"
  have "hash_of ?t = (\<lambda>i. i)" by (simp add: integer_traits_def weak_traits_def)
  moreover have "\<forall>p \<in># {#(7, 70), (10, 101)#}. kept ?t p"
    by (simp add: kept_def live_def integer_traits_def weak_traits_def)
  ultimately show ?thesis
    using map_fast_enumeration [OF small_table_holds, of ?t] by fastforce
qed



end
