(* ===== verification/GSeq.thy ===== *)
theory GSeq
  imports Unicode_Tables NS_Range "HOL-Library.Monad_Syntax"
begin

text \<open>
  \<^verbatim>\<open>Source/GSeq.h\<close>: composite character sequences, their normalisation and comparison,
  and the string comparison and search functions that \<^verbatim>\<open>NSString\<close> and \<^verbatim>\<open>GSString\<close>
  instantiate for each pair of string classes; with the table searches of
  \<^verbatim>\<open>Source/Additions/Unicode.m\<close> they use. \<open>None\<close> as a result stands for an access
  outside a buffer, a raised \<^verbatim>\<open>NSRangeException\<close> or a loop that does not end; the searches
  tell the exception apart.
\<close>

section \<open>Searching the character tables\<close>

definition u16 :: "nat \<Rightarrow> nat" where
  "u16 x = x mod 2 ^ 16"

text \<open>The loop of both searches, with its 16-bit positions.\<close>

partial_function (option) code_search ::
  "(unichar \<times> 'a) list \<Rightarrow> nat \<Rightarrow> nat \<Rightarrow> unichar \<Rightarrow> 'a option option" where
  "code_search t first end' u =
     (if first \<le> end'
      then if first \<noteq> end'
           then let count = (first + end') div 2
                in if length t \<le> count then None
                   else if fst (t ! count) < u then code_search t (u16 (count + 1)) end' u
                   else if fst (t ! count) > u then code_search t first (u16 (count + 2 ^ 16 - 1)) u
                   else Some (Some (snd (t ! count)))
           else if length t \<le> first then None
           else if u = fst (t ! first) then Some (Some (snd (t ! first)))
           else Some None
      else Some None)"

definition uni_is_decomp :: "unichar \<Rightarrow> unichar list option option" where
  "uni_is_decomp u =
     (if u < fst (uni_dec_table ! 0) then Some None
      else code_search uni_dec_table 0 (u16 (length uni_dec_table - 1)) u)"

definition GSPrivateUniCop :: "unichar \<Rightarrow> nat option" where
  "GSPrivateUniCop u =
     (if u < fst (uni_cop_table ! 0) then Some 0
      else map_option (\<lambda>r. case r of None \<Rightarrow> 0 | Some c \<Rightarrow> c)
             (code_search uni_cop_table 0 (u16 (length uni_cop_table - 1)) u))"

section \<open>Character sequences\<close>

abbreviation MAXDEC :: nat where "MAXDEC \<equiv> 18"

text \<open>
  What is known of the characters: decomposition, combining class, case mapping and which of
  them are non-spacing.
\<close>

record unicode =
  decomp :: "unichar \<Rightarrow> unichar list option"
  cop :: "unichar \<Rightarrow> nat"
  tolower :: "unichar \<Rightarrow> unichar"
  toupper :: "unichar \<Rightarrow> unichar"
  isnonsp :: "unichar \<Rightarrow> bool"

text \<open>\<open>chars\<close> are the characters up to the count, \<open>room\<close> is the length of the buffer.\<close>

record GSeqStruct =
  chars :: "unichar list"
  room :: nat
  capacity :: nat
  normalized :: bool

definition GSEQ_MAKE :: "unichar list \<Rightarrow> GSeqStruct" where
  "GSEQ_MAKE cs = \<lparr>chars = cs, room = length cs * MAXDEC + 1, capacity = length cs * MAXDEC, normalized = False\<rparr>"

text \<open>
  One round of the expansion goes from \<open>base\<close> to the first nul, which is the terminator if
  there is none before, and includes it. The next round starts after the first character that
  was decomposed; \<open>len0\<close> is the count for which the second buffer was declared.
\<close>

definition up_to_nul :: "unichar list \<Rightarrow> unichar list" where
  "up_to_nul cs = takeWhile (\<lambda>c. c \<noteq> 0) cs @ [0]"

definition expand :: "unicode \<Rightarrow> unichar list \<Rightarrow> unichar list" where
  "expand u cs = concat (map (\<lambda>c. case decomp u c of None \<Rightarrow> [c] | Some ds \<Rightarrow> ds) cs)"

partial_function (option) expand_loop ::
  "unicode \<Rightarrow> nat \<Rightarrow> nat \<Rightarrow> nat \<Rightarrow> unichar list \<Rightarrow> unichar list option" where
  "expand_loop u len0 rm base cs =
     (if base < length cs
      then let seg = up_to_nul (drop base cs);
               cs' = take base cs @ expand u seg;
               k = length (takeWhile (\<lambda>c. decomp u c = None) seg)
           in if rm \<le> length cs' \<or> len0 * MAXDEC + 1 < length cs' then None
              else expand_loop u len0 rm (if k < length seg then base + k + 1 else length cs') cs'
      else Some cs)"

text \<open>One pass over neighbouring marks: the characters and whether anything was done.\<close>

fun order_pass :: "unicode \<Rightarrow> unichar list \<Rightarrow> unichar list \<times> bool" where
  "order_pass u (first # second # cs) =
     (if cop u second \<noteq> 0
      then if cop u first > cop u second
           then (second # fst (order_pass u (first # cs)), True)
           else if cop u first = cop u second
           then if first > second then (second # fst (order_pass u (first # cs)), True)
                else if first = second then (first # dropWhile (\<lambda>c. c = first) cs, True)
                else let (r, d) = order_pass u (second # cs) in (first # r, d)
           else let (r, d) = order_pass u (second # cs) in (first # r, d)
      else let (r, d) = order_pass u (second # cs) in (first # r, d))"
| "order_pass u cs = (cs, False)"

partial_function (option) order_loop :: "unicode \<Rightarrow> unichar list \<Rightarrow> unichar list option" where
  "order_loop u cs = (let (cs', notdone) = order_pass u cs in if notdone then order_loop u cs' else Some cs')"

definition GSeq_normalize :: "unicode \<Rightarrow> GSeqStruct \<Rightarrow> GSeqStruct option" where
  "GSeq_normalize u seq =
     (let cs = chars seq
      in if cs = [] then Some seq
         else if room seq \<le> length cs then None
         else let base = length (takeWhile (\<lambda>c. c < 0x00C0) cs)
              in if base < length cs
                 then do {
                   cs1 \<leftarrow> expand_loop u (length cs) (room seq) base cs;
                   cs2 \<leftarrow> order_loop u cs1;
                   Some (seq\<lparr>chars := cs2, normalized := True\<rparr>)
                 }
                 else Some (seq\<lparr>normalized := True\<rparr>))"

text \<open>The sequences are normalised in place, so they are part of the result.\<close>

fun compare_chars :: "unichar list \<Rightarrow> unichar list \<Rightarrow> NSComparisonResult" where
  "compare_chars (a # as) (b # bs) =
     (if a < b then NSOrderedAscending else if a > b then NSOrderedDescending else compare_chars as bs)"
| "compare_chars [] (b # bs) = NSOrderedAscending"
| "compare_chars (a # as) [] = NSOrderedDescending"
| "compare_chars [] [] = NSOrderedSame"

definition GSeq_compare ::
  "unicode \<Rightarrow> GSeqStruct \<Rightarrow> GSeqStruct \<Rightarrow> (NSComparisonResult \<times> GSeqStruct \<times> GSeqStruct) option" where
  "GSeq_compare u s0 s1 =
     (if length (chars s0) = length (chars s1) \<and> chars s0 = chars s1 then Some (NSOrderedSame, s0, s1)
      else do {
        t0 \<leftarrow> (if normalized s0 then Some s0 else GSeq_normalize u s0);
        t1 \<leftarrow> (if normalized s1 then Some s1 else GSeq_normalize u s1);
        Some (compare_chars (chars t0) (chars t1), t0, t1)
      })"

definition GSeq_lowercase :: "unicode \<Rightarrow> GSeqStruct \<Rightarrow> GSeqStruct" where
  "GSeq_lowercase u seq = seq\<lparr>chars := map (tolower u) (chars seq)\<rparr>"

definition GSeq_uppercase :: "unicode \<Rightarrow> GSeqStruct \<Rightarrow> GSeqStruct" where
  "GSeq_uppercase u seq = seq\<lparr>chars := map (toupper u) (chars seq)\<rparr>"

section \<open>Strings\<close>

text \<open>
  The kinds of strings: of any class, with 16-bit characters, or with 8-bit characters, which
  have no composed sequences. \<open>native_lower\<close> is the C library's \<^verbatim>\<open>tolower\<close>, applied to 8-bit
  characters unless the internal encoding is Latin 1.
\<close>

datatype string_kind = GSEQ_NS | GSEQ_US | GSEQ_CS

record gstring =
  kind :: string_kind
  content :: "unichar list"

definition composed_start :: "unicode \<Rightarrow> unichar list \<Rightarrow> nat \<Rightarrow> nat" where
  "composed_start u s i = i - length (takeWhile (isnonsp u) (rev (tl (take (i + 1) s))))"

definition rangeOfComposedCharacterSequenceAtIndex :: "unicode \<Rightarrow> unichar list \<Rightarrow> nat \<Rightarrow> NSRange option" where
  "rangeOfComposedCharacterSequenceAtIndex u s i =
     (if length s \<le> i then None
      else let start = composed_start u s i;
               end' = start + 1 + length (takeWhile (isnonsp u) (drop (start + 1) s))
           in case NSMakeRange start (end' - start) of Inl _ \<Rightarrow> None | Inr r \<Rightarrow> Some r)"

definition GSEQ_RANGE :: "unicode \<Rightarrow> gstring \<Rightarrow> nat \<Rightarrow> NSRange option" where
  "GSEQ_RANGE u s i =
     (if kind s = GSEQ_CS then Some \<lparr>location = i, rlength = 1\<rparr>
      else rangeOfComposedCharacterSequenceAtIndex u (content s) i)"

definition GSEQ_GETR :: "gstring \<Rightarrow> NSRange \<Rightarrow> unichar list option" where
  "GSEQ_GETR s r =
     (if length (content s) < location r + rlength r then None
      else Some (take (rlength r) (drop (location r) (content s))))"

definition baseLength :: "unicode \<Rightarrow> gstring \<Rightarrow> nat" where
  "baseLength u s =
     (if kind s = GSEQ_CS then length (content s) else length (filter (\<lambda>c. \<not> isnonsp u c) (content s)))"

abbreviation NSCaseInsensitiveSearch :: nat where "NSCaseInsensitiveSearch \<equiv> 1"
abbreviation NSLiteralSearch :: nat where "NSLiteralSearch \<equiv> 2"
abbreviation NSBackwardsSearch :: nat where "NSBackwardsSearch \<equiv> 4"
abbreviation NSAnchoredSearch :: nat where "NSAnchoredSearch \<equiv> 8"

definition has_option :: "nat \<Rightarrow> nat \<Rightarrow> bool" where
  "has_option opts opt \<longleftrightarrow> opts div opt mod 2 = 1"

definition lower_in :: "unicode \<Rightarrow> (unichar \<Rightarrow> unichar) \<Rightarrow> bool \<Rightarrow> gstring \<Rightarrow> unichar \<Rightarrow> unichar" where
  "lower_in u native_lower latin1 s = (if kind s = GSEQ_CS \<and> \<not> latin1 then native_lower else tolower u)"

section \<open>Comparing strings\<close>

text \<open>The literal comparison of two buffers up to the shorter length.\<close>

fun compare_upto :: "(unichar \<Rightarrow> unichar) \<Rightarrow> (unichar \<Rightarrow> unichar) \<Rightarrow> unichar list \<Rightarrow> unichar list \<Rightarrow> NSComparisonResult" where
  "compare_upto f g (a # as) (b # bs) =
     (if f a < g b then NSOrderedAscending else if f a > g b then NSOrderedDescending else compare_upto f g as bs)"
| "compare_upto f g _ _ = NSOrderedSame"

definition compare_literal ::
  "(unichar \<Rightarrow> unichar) \<Rightarrow> (unichar \<Rightarrow> unichar) \<Rightarrow> unichar list \<Rightarrow> unichar list \<Rightarrow> NSComparisonResult" where
  "compare_literal f g sBuf oBuf =
     (let r = compare_upto f g sBuf oBuf
      in if r \<noteq> NSOrderedSame then r
         else if length sBuf > length oBuf then NSOrderedDescending
         else if length sBuf < length oBuf then NSOrderedAscending
         else NSOrderedSame)"

text \<open>One character sequence against one, ignoring case if asked to.\<close>

definition compare_sequences ::
  "unicode \<Rightarrow> bool \<Rightarrow> unichar list \<Rightarrow> unichar list \<Rightarrow> NSComparisonResult option" where
  "compare_sequences u fold_case cs ds =
     do {
       (r, s, t) \<leftarrow> GSeq_compare u (GSEQ_MAKE cs) (GSEQ_MAKE ds);
       (if r \<noteq> NSOrderedSame \<and> fold_case
        then do { (r', s', t') \<leftarrow> GSeq_compare u (GSeq_lowercase u s) (GSeq_lowercase u t); Some r' }
        else Some r)
     }"

partial_function (option) strcomp_loop ::
  "unicode \<Rightarrow> bool \<Rightarrow> gstring \<Rightarrow> gstring \<Rightarrow> nat \<Rightarrow> nat \<Rightarrow> nat \<Rightarrow> NSComparisonResult option" where
  "strcomp_loop u fold_case s other end' sCount oCount =
     (if sCount < end'
      then if length (content other) \<le> oCount then Some NSOrderedDescending
           else if length (content s) \<le> sCount then Some NSOrderedAscending
           else do {
             sRange \<leftarrow> GSEQ_RANGE u s sCount;
             oRange \<leftarrow> GSEQ_RANGE u other oCount;
             sBuf \<leftarrow> GSEQ_GETR s sRange;
             oBuf \<leftarrow> GSEQ_GETR other oRange;
             r \<leftarrow> compare_sequences u fold_case sBuf oBuf;
             (if r \<noteq> NSOrderedSame then Some r
              else strcomp_loop u fold_case s other end' (sCount + rlength sRange) (oCount + rlength oRange))
           }
      else if oCount < length (content other) then Some NSOrderedAscending
      else Some NSOrderedSame)"

definition GSEQ_STRCOMP ::
  "unicode \<Rightarrow> (unichar \<Rightarrow> unichar) \<Rightarrow> bool \<Rightarrow> gstring \<Rightarrow> gstring \<Rightarrow> nat \<Rightarrow> NSRange \<Rightarrow> NSComparisonResult option" where
  "GSEQ_STRCOMP u native_lower latin1 s other opts aRange =
     (if rlength aRange = 0
      then Some (if length (content other) = 0 then NSOrderedSame else NSOrderedAscending)
      else if length (content other) = 0 then Some NSOrderedDescending
      else if has_option opts NSLiteralSearch
      then do {
        sBuf \<leftarrow> GSEQ_GETR s aRange;
        Some (if has_option opts NSCaseInsensitiveSearch
              then compare_literal (lower_in u native_lower latin1 s) (lower_in u native_lower latin1 other)
                     sBuf (content other)
              else compare_literal (\<lambda>c. c) (\<lambda>c. c) sBuf (content other))
      }
      else strcomp_loop u (has_option opts NSCaseInsensitiveSearch) s other
             (location aRange + rlength aRange) (location aRange) 0)"

section \<open>Searching strings\<close>

text \<open>
  The inner loop of the literal searches: characters \<open>my + i - 1\<close> and \<open>i - 1\<close> are in hand.
  \<open>alike\<close> is equality, or equality up to case. The callers check that the range lies in the
  string, so the loop stays inside it.
\<close>

function literal_match ::
  "(unichar \<Rightarrow> unichar \<Rightarrow> bool) \<Rightarrow> unichar list \<Rightarrow> unichar list \<Rightarrow> nat \<Rightarrow> nat \<Rightarrow> nat \<Rightarrow> bool" where
  "literal_match alike s str my rangeEnd i =
     (if \<not> alike (s ! (my + i - 1)) (str ! (i - 1)) then False
      else if i = length str then True
      else if rangeEnd \<le> my + i then False
      else literal_match alike s str my rangeEnd (i + 1))"
  by pat_completeness auto
termination
  by (relation "measure (\<lambda>(alike, s, str, my, rangeEnd, i). rangeEnd - (my + i))") auto

declare literal_match.simps [simp del]

definition alike_fold :: "unicode \<Rightarrow> unichar \<Rightarrow> unichar \<Rightarrow> bool" where
  "alike_fold u a b \<longleftrightarrow> \<not> (a \<noteq> b \<and> tolower u a \<noteq> tolower u b)"

abbreviation not_found :: NSRange where "not_found \<equiv> \<lparr>location = NSNotFound, rlength = 0\<rparr>"

partial_function (option) literal_forward ::
  "(unichar \<Rightarrow> unichar \<Rightarrow> bool) \<Rightarrow> unichar list \<Rightarrow> unichar list \<Rightarrow> nat \<Rightarrow> nat \<Rightarrow> nat \<Rightarrow> NSRange option" where
  "literal_forward alike s str rangeEnd myEnd my =
     (if literal_match alike s str my rangeEnd 1 then Some \<lparr>location = my, rlength = length str\<rparr>
      else if my = myEnd then Some not_found
      else literal_forward alike s str rangeEnd myEnd (uadd my 1))"

partial_function (option) literal_backward ::
  "(unichar \<Rightarrow> unichar \<Rightarrow> bool) \<Rightarrow> unichar list \<Rightarrow> unichar list \<Rightarrow> nat \<Rightarrow> nat \<Rightarrow> nat \<Rightarrow> NSRange option" where
  "literal_backward alike s str rangeEnd myEnd my =
     (if literal_match alike s str my rangeEnd 1 then Some \<lparr>location = my, rlength = length str\<rparr>
      else if my = myEnd then Some not_found
      else literal_backward alike s str rangeEnd myEnd (usub my 1))"

text \<open>
  The other searches ask for the sequence at a position, which raises \<^verbatim>\<open>NSRangeException\<close> when
  the position is not in the string; \<open>GSEQ_RANGE\<close> is \<open>None\<close> in no other case. Their results tell
  the exception from an answer, and \<open>None\<close> is left for bad accesses and endless loops.
\<close>

datatype 'a search_outcome = Returned 'a | NSRangeException

text \<open>
  The inner loop of the other searches, sequence by sequence: the length of the match from
  \<open>my\<close> on, if the rest of the string matches.
\<close>

partial_function (option) sequence_match ::
  "unicode \<Rightarrow> bool \<Rightarrow> gstring \<Rightarrow> gstring \<Rightarrow> nat \<Rightarrow> nat \<Rightarrow> nat \<Rightarrow> nat \<Rightarrow> nat option search_outcome option" where
  "sequence_match u fold_case s str rangeEnd my myCount strCount =
     (if length (content str) \<le> strCount then Some (Returned (Some myCount))
      else if my + myCount < rangeEnd
      then (case (GSEQ_RANGE u s (my + myCount), GSEQ_RANGE u str strCount) of
              (Some r0, Some r1) \<Rightarrow>
                do {
                  b0 \<leftarrow> GSEQ_GETR s r0;
                  b1 \<leftarrow> GSEQ_GETR str r1;
                  r \<leftarrow> compare_sequences u fold_case b0 b1;
                  (if r \<noteq> NSOrderedSame then Some (Returned None)
                   else sequence_match u fold_case s str rangeEnd my (myCount + rlength r0) (strCount + rlength r1))
                }
            | _ \<Rightarrow> Some NSRangeException)
      else Some (Returned None))"

text \<open>
  At one position: the sequence there against the first one of the string, which is kept
  normalised from one position to the next, then the rest.
\<close>

definition match_at ::
  "unicode \<Rightarrow> bool \<Rightarrow> gstring \<Rightarrow> gstring \<Rightarrow> nat \<Rightarrow> NSRange \<Rightarrow> GSeqStruct \<Rightarrow> nat \<Rightarrow> NSRange \<Rightarrow>
     (nat option \<times> GSeqStruct) search_outcome option" where
  "match_at u fold_case s str rangeEnd iRange iSeq my sRange =
     do {
       sBuf \<leftarrow> GSEQ_GETR s sRange;
       let sSeq = GSEQ_MAKE sBuf;
       (r, iSeq', sSeq') \<leftarrow> GSeq_compare u iSeq (if fold_case then GSeq_lowercase u sSeq else sSeq);
       (if r = NSOrderedSame
        then do {
          m \<leftarrow> sequence_match u fold_case s str rangeEnd my (rlength sRange) (rlength iRange);
          Some (case m of Returned n \<Rightarrow> Returned (n, iSeq') | NSRangeException \<Rightarrow> NSRangeException)
        }
        else Some (Returned (None, iSeq')))
     }"

partial_function (option) sequence_forward ::
  "unicode \<Rightarrow> bool \<Rightarrow> gstring \<Rightarrow> gstring \<Rightarrow> nat \<Rightarrow> NSRange \<Rightarrow> nat \<Rightarrow> GSeqStruct \<Rightarrow> nat \<Rightarrow> NSRange search_outcome option" where
  "sequence_forward u fold_case s str rangeEnd iRange myEnd iSeq my =
     (case GSEQ_RANGE u s my of
        None \<Rightarrow> Some NSRangeException
      | Some sRange \<Rightarrow>
          do {
            found \<leftarrow> match_at u fold_case s str rangeEnd iRange iSeq my sRange;
            (case found of
               NSRangeException \<Rightarrow> Some NSRangeException
             | Returned (Some n, iSeq') \<Rightarrow> Some (Returned \<lparr>location = my, rlength = n\<rparr>)
             | Returned (None, iSeq') \<Rightarrow>
                 if uadd my (rlength sRange) > myEnd then Some (Returned not_found)
                 else sequence_forward u fold_case s str rangeEnd iRange myEnd iSeq' (uadd my (rlength sRange)))
          })"

text \<open>The step back of the backward searches, over non-spacing characters.\<close>

fun skip_nonsp :: "unicode \<Rightarrow> unichar list \<Rightarrow> nat \<Rightarrow> nat" where
  "skip_nonsp u s 0 = 0"
| "skip_nonsp u s (Suc i) = (if isnonsp u (s ! Suc i) then skip_nonsp u s i else Suc i)"

partial_function (option) sequence_backward ::
  "unicode \<Rightarrow> bool \<Rightarrow> gstring \<Rightarrow> gstring \<Rightarrow> nat \<Rightarrow> NSRange \<Rightarrow> nat \<Rightarrow> GSeqStruct \<Rightarrow> nat \<Rightarrow> NSRange search_outcome option" where
  "sequence_backward u fold_case s str rangeEnd iRange myEnd iSeq my =
     (case GSEQ_RANGE u s my of
        None \<Rightarrow> Some NSRangeException
      | Some sRange \<Rightarrow>
          do {
            found \<leftarrow> match_at u fold_case s str rangeEnd iRange iSeq my sRange;
            (case found of
               NSRangeException \<Rightarrow> Some NSRangeException
             | Returned (Some n, iSeq') \<Rightarrow> Some (Returned \<lparr>location = my, rlength = n\<rparr>)
             | Returned (None, iSeq') \<Rightarrow>
                 if my \<le> myEnd then Some (Returned not_found)
                 else sequence_backward u fold_case s str rangeEnd iRange myEnd iSeq' (skip_nonsp u (content s) (my - 1)))
          })"

text \<open>
  The options that are dispatched on: all combinations of case insensitive, literal,
  backwards and anchored; any other value searches forward by sequences, exactly.
\<close>

definition GSEQ_STRRANGE ::
  "unicode \<Rightarrow> gstring \<Rightarrow> gstring \<Rightarrow> nat \<Rightarrow> NSRange \<Rightarrow> NSRange search_outcome option" where
  "GSEQ_STRRANGE u s str opts aRange =
     (let rangeEnd = NSMaxRange aRange; strLength = length (content str);
          anchored = has_option opts NSAnchoredSearch; first = location aRange
      in if strLength > rlength aRange \<or> strLength = 0 then Some (Returned not_found)
         else if opts = 3 \<or> opts = 11
         then map_option Returned (literal_forward (alike_fold u) (content s) (content str) rangeEnd
                (if anchored then first else usub rangeEnd strLength) first)
         else if opts = 7 \<or> opts = 15
         then let my = usub rangeEnd strLength
              in map_option Returned (literal_backward (alike_fold u) (content s) (content str) rangeEnd
                   (if anchored then my else first) my)
         else if opts = 2 \<or> opts = 10
         then map_option Returned (literal_forward (=) (content s) (content str) rangeEnd
                (if anchored then first else usub rangeEnd strLength) first)
         else if opts = 6 \<or> opts = 14
         then let my = usub rangeEnd strLength
              in map_option Returned (literal_backward (=) (content s) (content str) rangeEnd
                   (if anchored then my else first) my)
         else let base = baseLength u str; ci = (opts = 1 \<or> opts = 9 \<or> opts = 5 \<or> opts = 13)
              in (case GSEQ_RANGE u str 0 of
                    None \<Rightarrow> Some NSRangeException
                  | Some iRange \<Rightarrow>
                      if rlength iRange = 0 then Some (Returned not_found)
                      else do {
                        iBuf \<leftarrow> GSEQ_GETR str iRange;
                        let iSeq = GSEQ_MAKE iBuf;
                        let iSeq' = (if ci then GSeq_lowercase u iSeq else iSeq);
                        (if opts = 5 \<or> opts = 13 \<or> opts = 4 \<or> opts = 12
                         then let my = usub rangeEnd base
                              in sequence_backward u ci s str rangeEnd iRange (if anchored then my else first) iSeq' my
                         else sequence_forward u ci s str rangeEnd iRange
                                (if anchored then first else usub rangeEnd base) iSeq' first)
                      }))"

end
