(* ===== verification/GSeq_Tables.thy ===== *)
theory GSeq_Tables
  imports GSeq
begin

text \<open>
  The searches of \<^verbatim>\<open>uni_is_decomp\<close> and \<^verbatim>\<open>GSPrivateUniCop\<close> are lookups in the tables, and what
  the sequence functions rely on holds of the character data found that way: the contract
  \<open>unicode_data\<close>, which the later theories use.
\<close>

section \<open>The searches\<close>

text \<open>
  The codes before \<open>first\<close> are smaller and those after \<open>end'\<close> are larger than the one looked
  for. That it is not below the first code keeps \<open>count - 1\<close> from wrapping around.
\<close>

lemma code_search_correct:
  assumes sorted: "sorted_wrt (<) (map fst t)" and len: "length t < 2 ^ 16" and low: "fst (t ! 0) \<le> u"
  shows "end' < length t \<Longrightarrow> first \<le> Suc end' \<Longrightarrow> (\<And>i. i < first \<Longrightarrow> fst (t ! i) < u) \<Longrightarrow>
    (\<And>i. end' < i \<Longrightarrow> i < length t \<Longrightarrow> u < fst (t ! i)) \<Longrightarrow> code_search t first end' u = Some (map_of t u)"
proof (induction "Suc end' - first" arbitrary: first end' rule: less_induct)
  case less
  have mono: "fst (t ! i) < fst (t ! j)" if "i < j" "j < length t" for i j
    using sorted_wrt_nth_less [OF sorted that(1)] that by simp
  have dist: "distinct (map fst t)"
    using sorted by (simp add: strict_sorted_iff)
  have absent: "map_of t u = None" if "\<And>i. i < length t \<Longrightarrow> fst (t ! i) \<noteq> u"
    using that by (force simp: map_of_eq_None_iff in_set_conv_nth)
  have found: "map_of t u = Some (snd (t ! i))" if "i < length t" "fst (t ! i) = u" for i
    using that dist by (metis map_of_eq_Some_iff nth_mem prod.collapse)
  show ?case
  proof (cases "first \<le> end'")
    case False
    then have "fst (t ! i) \<noteq> u" if "i < length t" for i
      using less.prems(3,4) [of i] that by (cases "i < first") force+
    then show ?thesis using False absent by (simp add: code_search.simps [of _ first])
  next
    case True
    show ?thesis
    proof (cases "first = end'")
      case True
      have "fst (t ! i) \<noteq> u" if "i < length t" "i \<noteq> end'" for i
        using less.prems(3,4) [of i] that True by (cases "i < end'") force+
      then have none: "map_of t u = None" if "fst (t ! end') \<noteq> u"
        using that by (intro absent) blast
      show ?thesis
      proof (cases "u = fst (t ! end')")
        case True
        then show ?thesis
          using \<open>first = end'\<close> less.prems(1) found [of end'] by (simp add: code_search.simps)
      next
        case False
        then show ?thesis
          using \<open>first = end'\<close> less.prems(1) none by (simp add: code_search.simps)
      qed
    next
      case False
      define m where "m = (first + end') div 2"
      have m: "first \<le> m" "m < end'" "m < length t" using True False less.prems(1) by (auto simp: m_def)
      show ?thesis
      proof (rule linorder_cases [of "fst (t ! m)" u])
        assume lt: "fst (t ! m) < u"
        have "fst (t ! i) < u" if "i < Suc m" for i
          using that lt mono [of i m] m by (cases "i = m") auto
        then have "code_search t (Suc m) end' u = Some (map_of t u)"
          using m less.prems by (intro less.hyps) auto
        then show ?thesis
          using True False lt m len
          by (simp add: code_search.simps [of _ first] m_def [symmetric] Let_def u16_def)
      next
        assume "fst (t ! m) = u"
        then show ?thesis
          using True False m found [of m]
          by (simp add: code_search.simps [of _ first] m_def [symmetric] Let_def)
      next
        assume gt: "u < fst (t ! m)"
        have "m \<noteq> 0" using gt low by (cases m) auto
        have "u < fst (t ! i)" if "m - 1 < i" "i < length t" for i
        proof -
          have "m = i \<or> m < i" using that by linarith
          then show ?thesis using that gt mono [of m i] by auto
        qed
        then have "code_search t first (m - 1) u = Some (map_of t u)"
          using m less.prems \<open>m \<noteq> 0\<close> by (intro less.hyps) auto
        moreover have "u16 (m + 2 ^ 16 - 1) = m - 1"
        proof -
          obtain k where "m = Suc k" using \<open>m \<noteq> 0\<close> by (cases m) auto
          then show ?thesis using m len by (simp add: u16_def mod_if)
        qed
        ultimately show ?thesis
          using True False gt m
          by (simp add: code_search.simps [of _ first] m_def [symmetric] Let_def)
      qed
    qed
  qed
qed

lemma code_search_table:
  assumes "ascending_in lo hi t" "t \<noteq> []" "length t < 2 ^ 16" "fst (t ! 0) \<le> u"
  shows "code_search t 0 (u16 (length t - 1)) u = Some (map_of t u)"
  using assms ascending_in_sorted [OF assms(1)]
  by (auto simp: u16_def intro!: code_search_correct)

lemma ascending_below_first: "ascending_in lo hi t \<Longrightarrow> u < fst (t ! 0) \<Longrightarrow> t \<noteq> [] \<Longrightarrow> map_of t u = None"
  using ascending_in_bounds by (cases t) (fastforce simp: map_of_eq_None_iff)+

lemma uni_dec_table_size: "length uni_dec_table = 1052" "uni_dec_table \<noteq> []"
proof -
  show "length uni_dec_table = 1052"
    by (simp add: uni_dec_table_def uni_dec_table_1_def uni_dec_table_2_def uni_dec_table_3_def
        uni_dec_table_4_def uni_dec_table_5_def uni_dec_table_6_def uni_dec_table_7_def uni_dec_table_8_def)
  then show "uni_dec_table \<noteq> []" by auto
qed

lemma uni_cop_table_size: "length uni_cop_table = 356" "uni_cop_table \<noteq> []"
proof -
  show "length uni_cop_table = 356"
    by (simp add: uni_cop_table_def uni_cop_table_1_def uni_cop_table_2_def uni_cop_table_3_def)
  then show "uni_cop_table \<noteq> []" by auto
qed

lemma uni_is_decomp_lookup: "uni_is_decomp u = Some (map_of uni_dec_table u)"
  using ascending_below_first [OF uni_dec_table_ascending, of u]
    code_search_table [OF uni_dec_table_ascending, of u]
  by (simp add: uni_is_decomp_def uni_dec_table_size)

lemma GSPrivateUniCop_lookup:
  "GSPrivateUniCop u = Some (case map_of uni_cop_table u of None \<Rightarrow> 0 | Some c \<Rightarrow> c)"
  using ascending_below_first [OF uni_cop_table_ascending, of u]
    code_search_table [OF uni_cop_table_ascending, of u]
  by (simp add: GSPrivateUniCop_def uni_cop_table_size)

text \<open>Both table searches, with their 16-bit positions, return without leaving the table for
  every character, and answer what the table says of it: its decomposition, or none; its
  combining class, or 0.
\<close>

theorem table_searches:
  "uni_is_decomp c = Some (map_of uni_dec_table c) \<and>
   GSPrivateUniCop c = Some (case map_of uni_cop_table c of None \<Rightarrow> 0 | Some k \<Rightarrow> k)"
  by (simp add: uni_is_decomp_lookup GSPrivateUniCop_lookup)

section \<open>The contract of the character data\<close>

text \<open>
  Latin 1 below 0xC0 is neither decomposed nor a mark. The nul character is no part of a
  decomposition, and none is empty.
  \<open>extra\<close> bounds how many characters the decompositions of a character add altogether, and
  becomes less with each decomposition; with the one at the start \<^verbatim>\<open>MAXDEC\<close> is never reached.
\<close>

locale unicode_data =
  fixes u :: unicode and extra :: "unichar \<Rightarrow> nat"
  assumes latin: "c < 0x00C0 \<Longrightarrow> decomp u c = None"
    and latin_cop: "c < 0x00C0 \<Longrightarrow> cop u c = 0"
    and parts_nonempty: "decomp u c \<noteq> Some []"
    and parts_nonzero: "decomp u c = Some ds \<Longrightarrow> 0 \<notin> set ds"
    and parts_extra: "decomp u c = Some ds \<Longrightarrow> sum_list (map extra ds) + max 2 (length ds) \<le> extra c + 1"
    and extra_bound: "extra c + 1 < MAXDEC"
    and extra_nul: "extra 0 = 0"

text \<open>
  The character data of the library, with the searches. The case mappings and the set of
  non-spacing characters are parameters.
\<close>

definition gs_unicode :: "(unichar \<Rightarrow> unichar) \<Rightarrow> (unichar \<Rightarrow> unichar) \<Rightarrow> (unichar \<Rightarrow> bool) \<Rightarrow> unicode" where
  "gs_unicode lower upper nonsp =
     \<lparr>decomp = \<lambda>c. the (uni_is_decomp c), cop = \<lambda>c. the (GSPrivateUniCop c),
      tolower = lower, toupper = upper, isnonsp = nonsp\<rparr>"

lemma gs_unicode_sel [simp]:
  "decomp (gs_unicode lower upper nonsp) c = map_of uni_dec_table c"
  "cop (gs_unicode lower upper nonsp) c = (case map_of uni_cop_table c of None \<Rightarrow> 0 | Some k \<Rightarrow> k)"
  "tolower (gs_unicode lower upper nonsp) = lower"
  "toupper (gs_unicode lower upper nonsp) = upper"
  "isnonsp (gs_unicode lower upper nonsp) = nonsp"
  by (simp_all add: gs_unicode_def uni_is_decomp_lookup GSPrivateUniCop_lookup)

lemma if_le: "x \<le> (k::nat) \<Longrightarrow> y \<le> k \<Longrightarrow> (if b then x else y) \<le> k"
  by simp

lemma added_le: "added c \<le> 5"
  unfolding added_def added_1_def added_2_def added_3_def added_4_def added_5_def added_6_def
    added_7_def added_8_def added_9_def added_10_def added_11_def added_12_def
    added_13_def added_14_def added_15_def added_16_def added_17_def added_18_def
    added_19_def added_20_def added_21_def added_22_def added_23_def added_24_def
  by (intro if_le) simp_all

lemma added_latin: "c < 0x00C0 \<Longrightarrow> added c = 0"
  by (simp add: added_def added_1_def)

lemma dec_table_parts:
  assumes "map_of uni_dec_table c = Some ds"
  shows "ds \<noteq> []" "0 \<notin> set ds" "sum_list (map added ds) + max 2 (length ds) \<le> added c + 1"
proof -
  have "(c, ds) \<in> set uni_dec_table" using assms by (rule map_of_SomeD)
  then have "ds \<noteq> [] \<and> list_all (\<lambda>d. d \<noteq> 0) ds \<and> sum_list (map added ds) + max 2 (length ds) \<le> added c + 1"
    using uni_dec_table_parts unfolding parts_ok_def list_all_iff by fast
  then show "ds \<noteq> []" "0 \<notin> set ds" "sum_list (map added ds) + max 2 (length ds) \<le> added c + 1"
    by (auto simp: list_all_iff)
qed

lemma dec_table_latin: "c < 0x00C0 \<Longrightarrow> map_of uni_dec_table c = None"
  using ascending_in_bounds [OF uni_dec_table_ascending] by (force simp: map_of_eq_None_iff)

lemma cop_table_latin: "c < 0x00C0 \<Longrightarrow> map_of uni_cop_table c = None"
  using ascending_in_bounds [OF uni_cop_table_ascending] by (force simp: map_of_eq_None_iff)

interpretation gs: unicode_data "gs_unicode lower upper nonsp" added for lower upper nonsp
proof unfold_locales
  fix c :: unichar and ds
  show "decomp (gs_unicode lower upper nonsp) c = None" if "c < 0x00C0"
    using that by (simp add: dec_table_latin)
  show "cop (gs_unicode lower upper nonsp) c = 0" if "c < 0x00C0"
    using that by (simp add: cop_table_latin)
  show "decomp (gs_unicode lower upper nonsp) c \<noteq> Some []"
    using dec_table_parts(1) [of c "[]"] by auto
  show "0 \<notin> set ds" if "decomp (gs_unicode lower upper nonsp) c = Some ds"
    using that by (simp add: dec_table_parts)
  show "sum_list (map added ds) + max 2 (length ds) \<le> added c + 1"
    if "decomp (gs_unicode lower upper nonsp) c = Some ds"
    using that by (simp only: gs_unicode_sel dec_table_parts)
  show "added c + 1 < MAXDEC" using added_le [of c] by simp
  show "added 0 = 0" by (simp add: added_latin)
qed

end
