(* ===== verification/GSeq_Order.thy ===== *)
theory GSeq_Order
  imports GSeq
begin

text \<open>
  The ordering of marks in \<^verbatim>\<open>GSeq_normalize\<close>: the loop over passes returns, since each pass
  that does anything shortens the sequence or undoes inversions, and computes the canonical
  order: the marks after each starter sorted by combining class and code, without repeats.
\<close>

definition mark_before :: "unicode \<Rightarrow> unichar \<Rightarrow> unichar \<Rightarrow> bool" where
  "mark_before u a b \<longleftrightarrow> cop u a < cop u b \<or> cop u a = cop u b \<and> a < b"

definition marks_in_order :: "unicode \<Rightarrow> unichar list \<Rightarrow> bool" where
  "marks_in_order u cs \<longleftrightarrow> successively (\<lambda>a b. cop u b \<noteq> 0 \<longrightarrow> mark_before u a b) cs"

text \<open>The specification: each mark is inserted among the marks that follow it.\<close>

fun insert_mark :: "unicode \<Rightarrow> unichar \<Rightarrow> unichar list \<Rightarrow> unichar list" where
  "insert_mark u c [] = [c]"
| "insert_mark u c (d # ds) =
     (if cop u d = 0 \<or> mark_before u c d then c # d # ds
      else if c = d then d # ds
      else d # insert_mark u c ds)"

fun canonical_order :: "unicode \<Rightarrow> unichar list \<Rightarrow> unichar list" where
  "canonical_order u [] = []"
| "canonical_order u (c # cs) =
     (if cop u c = 0 then c # canonical_order u cs else insert_mark u c (canonical_order u cs))"

lemma mark_before_total: "mark_before u a b \<or> a = b \<or> mark_before u b a"
  by (auto simp: mark_before_def)

lemma mark_before_trans: "mark_before u a b \<Longrightarrow> mark_before u b c \<Longrightarrow> mark_before u a c"
  by (auto simp: mark_before_def)

lemma mark_before_irrefl [simp]: "\<not> mark_before u a a"
  by (simp add: mark_before_def)

lemma mark_before_asym: "mark_before u a b \<Longrightarrow> \<not> mark_before u b a"
  by (auto simp: mark_before_def)

lemma insert_mark_commute:
  "cop u a \<noteq> 0 \<Longrightarrow> cop u b \<noteq> 0 \<Longrightarrow> insert_mark u a (insert_mark u b cs) = insert_mark u b (insert_mark u a cs)"
proof (induction cs)
  case Nil
  then show ?case using mark_before_total [of u a b] mark_before_asym [of u a b] by auto
next
  case (Cons d cs)
  then show ?case
    using mark_before_total [of u a b] mark_before_total [of u a d] mark_before_total [of u b d]
    by (auto dest: mark_before_asym mark_before_trans)
qed

lemma insert_mark_twice: "cop u a \<noteq> 0 \<Longrightarrow> insert_mark u a (insert_mark u a cs) = insert_mark u a cs"
  by (induction cs) auto

lemma set_insert_mark [simp]: "set (insert_mark u c cs) = insert c (set cs)"
  by (induction cs) auto

lemma set_canonical_order [simp]: "set (canonical_order u cs) = set cs"
  by (induction cs) auto

lemma canonical_order_id: "marks_in_order u cs \<Longrightarrow> canonical_order u cs = cs"
proof (induction cs)
  case (Cons c cs)
  then show ?case by (cases cs) (auto simp: marks_in_order_def)
qed simp

lemma insert_mark_in_order:
  "cop u c \<noteq> 0 \<Longrightarrow> marks_in_order u cs \<Longrightarrow> marks_in_order u (insert_mark u c cs)"
proof (induction cs)
  case (Cons d cs)
  then show ?case
    using mark_before_total [of u c d]
    by (cases cs) (auto simp: marks_in_order_def)
qed (simp add: marks_in_order_def)

lemma canonical_order_in_order: "marks_in_order u (canonical_order u cs)"
proof (induction cs)
  case (Cons c cs)
  show ?case
  proof (cases "cop u c = 0")
    case True
    then show ?thesis
      using Cons by (cases "canonical_order u cs") (auto simp: marks_in_order_def mark_before_def)
  next
    case False
    then show ?thesis using Cons by (simp add: insert_mark_in_order)
  qed
qed (simp add: marks_in_order_def)

section \<open>The passes\<close>

fun inversions :: "unicode \<Rightarrow> unichar list \<Rightarrow> nat" where
  "inversions u [] = 0"
| "inversions u (c # cs) = length (filter (\<lambda>d. mark_before u d c) cs) + inversions u cs"

text \<open>What a pass does with the first two characters.\<close>

lemma order_pass_swap:
  "cop u b \<noteq> 0 \<Longrightarrow> mark_before u b a \<Longrightarrow> order_pass u (a # b # cs) = (b # fst (order_pass u (a # cs)), True)"
  by (auto simp: mark_before_def)

lemma order_pass_equal:
  "cop u a \<noteq> 0 \<Longrightarrow> order_pass u (a # a # cs) = (a # dropWhile (\<lambda>c. c = a) cs, True)"
  by simp

lemma order_pass_keep:
  "cop u b = 0 \<or> mark_before u a b \<Longrightarrow>
   order_pass u (a # b # cs) = (a # fst (order_pass u (b # cs)), snd (order_pass u (b # cs)))"
  by (auto simp: mark_before_def split_beta)

lemma order_pass_cases [consumes 0, case_names swap equal keep]:
  assumes "cop u b \<noteq> 0 \<Longrightarrow> mark_before u b a \<Longrightarrow> P"
    and "cop u a \<noteq> 0 \<Longrightarrow> a = b \<Longrightarrow> P" and "cop u b = 0 \<or> mark_before u a b \<Longrightarrow> P"
  shows P
  using assms mark_before_total [of u a b] by (cases "cop u b = 0") auto

lemma order_pass_pair_induct [case_names none one two]:
  assumes "P []" "\<And>a. P [a]"
    and "\<And>a b cs. P (a # cs) \<Longrightarrow> P (b # cs) \<Longrightarrow> P (a # b # cs)"
  shows "P cs"
proof (induction cs rule: length_induct)
  case (1 cs)
  then show ?case using assms
    by (cases cs rule: remdups_adj.cases) auto
qed

declare order_pass.simps(1) [simp del]

lemma canonical_order_dropWhile:
  "cop u a \<noteq> 0 \<Longrightarrow> insert_mark u a (canonical_order u (dropWhile (\<lambda>c. c = a) cs)) = insert_mark u a (canonical_order u cs)"
  by (induction cs) (auto simp: insert_mark_twice)

lemma canonical_order_pass: "canonical_order u (fst (order_pass u cs)) = canonical_order u cs"
proof (induction cs rule: order_pass_pair_induct)
  case (two a b cs)
  show ?case
  proof (rule order_pass_cases [of u b a])
    assume "cop u b \<noteq> 0" "mark_before u b a"
    moreover from this have "cop u a \<noteq> 0" by (auto simp: mark_before_def)
    ultimately show ?thesis
      using two(1) by (simp add: order_pass_swap insert_mark_commute)
  next
    assume "cop u a \<noteq> 0" "a = b"
    then show ?thesis
      using canonical_order_dropWhile [of u a cs] by (simp add: order_pass_equal insert_mark_twice)
  next
    assume "cop u b = 0 \<or> mark_before u a b"
    then show ?thesis using two(2) by (simp add: order_pass_keep)
  qed
qed auto

lemma order_pass_length: "length (fst (order_pass u cs)) \<le> length cs"
proof (induction cs rule: order_pass_pair_induct)
  case (two a b cs)
  show ?case
  proof (rule order_pass_cases [of u b a])
    assume "cop u a \<noteq> 0" "a = b"
    then show ?thesis
      using length_dropWhile_le [of "\<lambda>c. c = a" cs] by (simp add: order_pass_equal)
  qed (use two in \<open>simp_all add: order_pass_swap order_pass_keep\<close>)
qed auto

lemma order_pass_mset:
  "length (fst (order_pass u cs)) = length cs \<Longrightarrow> mset (fst (order_pass u cs)) = mset cs"
proof (induction cs rule: order_pass_pair_induct)
  case (two a b cs)
  show ?case
  proof (rule order_pass_cases [of u b a])
    assume "cop u a \<noteq> 0" "a = b"
    then show ?thesis
      using two(3) length_dropWhile_le [of "\<lambda>c. c = a" cs] by (simp add: order_pass_equal)
  qed (use two in \<open>simp_all add: order_pass_swap order_pass_keep\<close>)
qed auto

lemma order_pass_inversions:
  "length (fst (order_pass u cs)) = length cs \<Longrightarrow>
   inversions u (fst (order_pass u cs)) + of_bool (snd (order_pass u cs)) \<le> inversions u cs"
proof (induction cs rule: order_pass_pair_induct)
  case (two a b cs)
  have count: "length (filter P (fst (order_pass u xs))) = length (filter P xs)"
    if "length (fst (order_pass u xs)) = length xs" for P xs
    using order_pass_mset [OF that] by (metis mset_filter size_mset)
  show ?case
  proof (rule order_pass_cases [of u b a])
    assume "cop u b \<noteq> 0" "mark_before u b a"
    then show ?thesis
      using two(1,3) mark_before_asym [of u b a] count [of "a # cs"] by (auto simp: order_pass_swap)
  next
    assume "cop u a \<noteq> 0" "a = b"
    then show ?thesis
      using two(3) length_dropWhile_le [of "\<lambda>c. c = a" cs] by (simp add: order_pass_equal)
  next
    assume "cop u b = 0 \<or> mark_before u a b"
    then show ?thesis
      using two(2,3) count [of "b # cs"] by (auto simp: order_pass_keep)
  qed
qed auto

lemma order_pass_done: "\<not> snd (order_pass u cs) \<Longrightarrow> fst (order_pass u cs) = cs \<and> marks_in_order u cs"
proof (induction cs rule: order_pass_pair_induct)
  case (two a b cs)
  show ?case
  proof (rule order_pass_cases [of u b a])
    assume "cop u b = 0 \<or> mark_before u a b"
    then show ?thesis
      using two(2,3) by (auto simp: order_pass_keep marks_in_order_def)
  qed (use two in \<open>simp_all add: order_pass_swap order_pass_equal\<close>)
qed (auto simp: marks_in_order_def)

text \<open>The loop computes the canonical order.\<close>

lemma order_loop_canonical: "order_loop u cs = Some (canonical_order u cs)"
proof (induction cs rule: wf_induct [OF wf_measures [of "[length, inversions u]"]])
  case (1 cs)
  show ?case
  proof (cases "snd (order_pass u cs)")
    case True
    then have "(fst (order_pass u cs), cs) \<in> measures [length, inversions u]"
      using order_pass_length [of u cs] order_pass_inversions [of u cs]
      by (cases "length (fst (order_pass u cs)) = length cs") auto
    then have "order_loop u (fst (order_pass u cs)) = Some (canonical_order u (fst (order_pass u cs)))"
      using 1 by blast
    then have "order_loop u (fst (order_pass u cs)) = Some (canonical_order u cs)"
      by (simp only: canonical_order_pass)
    then show ?thesis
      using True by (subst order_loop.simps) (simp add: split_beta)
  next
    case False
    then show ?thesis
      using order_pass_done [of u cs]
      by (subst order_loop.simps) (simp add: split_beta canonical_order_id)
  qed
qed

lemma length_insert_mark: "length (insert_mark u c cs) \<le> Suc (length cs)"
  by (induction cs) auto

lemma length_canonical_order: "length (canonical_order u cs) \<le> length cs"
proof (induction cs)
  case (Cons c cs)
  then show ?case using length_insert_mark [of u c "canonical_order u cs"] by auto
qed simp

section \<open>The order of Unicode\<close>

text \<open>
  The Unicode standard sorts the marks after each starter by combining class only and leaves
  marks of one class as they come.
\<close>

fun insert_by_class :: "unicode \<Rightarrow> unichar \<Rightarrow> unichar list \<Rightarrow> unichar list" where
  "insert_by_class u c [] = [c]"
| "insert_by_class u c (d # ds) =
     (if cop u d = 0 \<or> cop u c \<le> cop u d then c # d # ds else d # insert_by_class u c ds)"

fun order_by_class :: "unicode \<Rightarrow> unichar list \<Rightarrow> unichar list" where
  "order_by_class u [] = []"
| "order_by_class u (c # cs) =
     (if cop u c = 0 then c # order_by_class u cs else insert_by_class u c (order_by_class u cs))"

definition classes_distinct :: "unicode \<Rightarrow> unichar list \<Rightarrow> bool" where
  "classes_distinct u cs \<longleftrightarrow> successively (\<lambda>a b. cop u b \<noteq> 0 \<longrightarrow> cop u a \<noteq> cop u b) cs"

text \<open>The order of the code is the order of Unicode with the ties sorted and repeats dropped.\<close>

lemma canonical_order_insert:
  "cop u c \<noteq> 0 \<Longrightarrow> canonical_order u (insert_by_class u c ds) = insert_mark u c (canonical_order u ds)"
  by (induction ds) (auto simp: insert_mark_commute)

lemma canonical_order_by_class: "canonical_order u (order_by_class u cs) = canonical_order u cs"
  by (induction cs) (auto simp: canonical_order_insert)

lemma insert_by_class_ascending:
  "successively (\<lambda>a b. cop u b \<noteq> 0 \<longrightarrow> cop u a \<le> cop u b) ds \<Longrightarrow>
   successively (\<lambda>a b. cop u b \<noteq> 0 \<longrightarrow> cop u a \<le> cop u b) (insert_by_class u c ds)"
proof (induction ds)
  case (Cons d ds)
  then show ?case by (cases ds) (auto simp: not_le)
qed simp

lemma order_by_class_ascending:
  "successively (\<lambda>a b. cop u b \<noteq> 0 \<longrightarrow> cop u a \<le> cop u b) (order_by_class u cs)"
proof (induction cs)
  case (Cons c cs)
  show ?case
  proof (cases "cop u c = 0")
    case True
    then show ?thesis using Cons by (cases "order_by_class u cs") auto
  next
    case False
    then show ?thesis using insert_by_class_ascending [OF Cons, of c] by simp
  qed
qed simp

lemma successively_both:
  "successively P xs \<Longrightarrow> successively Q xs \<Longrightarrow> (\<And>a b. P a b \<Longrightarrow> Q a b \<Longrightarrow> R a b) \<Longrightarrow> successively R xs"
  by (induction xs rule: remdups_adj.induct) auto

lemma classes_distinct_order:
  "classes_distinct u (order_by_class u cs) \<Longrightarrow> canonical_order u cs = order_by_class u cs"
proof -
  assume "classes_distinct u (order_by_class u cs)"
  from successively_both [OF this [unfolded classes_distinct_def] order_by_class_ascending]
  have "marks_in_order u (order_by_class u cs)"
    by (auto simp: marks_in_order_def mark_before_def order_le_less)
  then show ?thesis using canonical_order_by_class canonical_order_id by metis
qed

lemma filter_insert_by_class: "filter (\<lambda>d. cop u d = k) (insert_by_class u c ds) = filter (\<lambda>d. cop u d = k) (c # ds)"
  by (induction ds) auto

lemma filter_order_by_class: "filter (\<lambda>d. cop u d = k) (order_by_class u cs) = filter (\<lambda>d. cop u d = k) cs"
  by (induction cs) (auto simp: filter_insert_by_class)

lemma canonical_order_append_cong:
  "canonical_order u ys = canonical_order u zs \<Longrightarrow> canonical_order u (xs @ ys) = canonical_order u (xs @ zs)"
  by (induction xs) auto

lemma canonical_order_starters_kept:
  "filter (\<lambda>c. cop u c = 0) (canonical_order u cs) = filter (\<lambda>c. cop u c = 0) cs"
proof (induction cs)
  case (Cons c cs)
  have "filter (\<lambda>c. cop u c = 0) (insert_mark u c ds) = filter (\<lambda>c. cop u c = 0) ds" if "cop u c \<noteq> 0" for ds
    using that by (induction ds) auto
  then show ?case using Cons by auto
qed simp

end
