(* ===== verification/GSeq_Normal.thy ===== *)
theory GSeq_Normal
  imports GSeq_Tables GSeq_Order
begin

text \<open>
  Normalisation of character sequences: it returns, stays inside its buffers, leaves the marks
  in order, and loses and adds no character but the nul it copies. What it leaves composed is
  the first part of another decomposition.
\<close>

section \<open>Expansion\<close>

text \<open>
  \<open>decompose\<close> is the full decomposition of every character. \<open>content\<close> is what a round of the
  expansion reads: all up to the first nul after \<open>base\<close>. \<open>cost\<close> bounds the final length.
\<close>

definition decompose :: "unicode \<Rightarrow> unichar list \<Rightarrow> unichar list" where
  "decompose u cs = (expand u ^^ MAXDEC) cs"

definition scanned :: "nat \<Rightarrow> unichar list \<Rightarrow> unichar list" where
  "scanned base cs = take base cs @ up_to_nul (drop base cs)"

definition leftover :: "unicode \<Rightarrow> unichar \<Rightarrow> bool" where
  "leftover u c \<longleftrightarrow> decomp u c = None \<or> (\<exists>b ds. decomp u b = Some (c # ds))"

definition cost :: "(unichar \<Rightarrow> nat) \<Rightarrow> unichar list \<Rightarrow> nat" where
  "cost extra cs = sum_list (map (\<lambda>c. extra c + 1) cs)"

lemma cost_simps [simp]:
  "cost extra [] = 0" "cost extra (c # cs) = extra c + 1 + cost extra cs"
  "cost extra (xs @ ys) = cost extra xs + cost extra ys"
  by (simp_all add: cost_def)

lemma length_le_cost: "length cs \<le> cost extra cs"
  by (induction cs) auto

lemma cost_sum: "cost extra cs = sum_list (map extra cs) + length cs"
  by (induction cs) auto

lemma expand_simps [simp]:
  "expand u [] = []"
  "expand u (c # cs) = (case decomp u c of None \<Rightarrow> [c] | Some ds \<Rightarrow> ds) @ expand u cs"
  "expand u (xs @ ys) = expand u xs @ expand u ys"
  by (simp_all add: expand_def set_concat)

lemma up_to_nul_id: "0 \<notin> set xs \<Longrightarrow> up_to_nul (xs @ 0 # ys) = xs @ [0]"
  by (induction xs) (auto simp: up_to_nul_def)

lemma expand_pow_append: "(expand u ^^ n) (xs @ ys) = (expand u ^^ n) xs @ (expand u ^^ n) ys"
  by (induction n) auto

lemma decompose_append: "decompose u (xs @ ys) = decompose u xs @ decompose u ys"
  by (simp add: decompose_def expand_pow_append)

lemma expand_id: "(\<And>c. c \<in> set cs \<Longrightarrow> decomp u c = None) \<Longrightarrow> expand u cs = cs"
  by (induction cs) auto

lemma set_expand: "set (expand u cs) = (\<Union>c\<in>set cs. set (case decomp u c of None \<Rightarrow> [c] | Some ds \<Rightarrow> ds))"
  by (induction cs) auto

lemma set_decompose: "set xs = set ys \<Longrightarrow> set (decompose u xs) = set (decompose u ys)"
proof -
  assume "set xs = set ys"
  then have "set ((expand u ^^ n) xs) = set ((expand u ^^ n) ys)" for n
    by (induction n) (auto simp: set_expand)
  then show ?thesis by (simp add: decompose_def)
qed

context unicode_data
begin

lemma parts_less: "decomp u c = Some ds \<Longrightarrow> d \<in> set ds \<Longrightarrow> extra d < extra c"
  using parts_extra [of c ds] member_le_sum_list [of "extra d" "map extra ds"] by simp

lemma nul_not_decomposed [simp]: "decomp u 0 = None"
  by (simp add: latin)

lemma expand_cost: "cost extra (expand u cs) \<le> cost extra cs"
proof (induction cs)
  case (Cons c cs)
  then show ?case
    using parts_extra [of c] by (cases "decomp u c") (auto simp: cost_sum)
qed simp

lemma expand_extra_le: "sum_list (map extra (expand u cs)) \<le> sum_list (map extra cs)"
proof (induction cs)
  case (Cons c cs)
  then show ?case
    using parts_extra [of c] by (cases "decomp u c") auto
qed simp

lemma expand_extra_less:
  "c \<in> set cs \<Longrightarrow> decomp u c \<noteq> None \<Longrightarrow> sum_list (map extra (expand u cs)) < sum_list (map extra cs)"
proof (induction cs)
  case (Cons d cs)
  show ?case
  proof (cases "decomp u d")
    case None
    then show ?thesis using Cons by auto
  next
    case (Some ds)
    then show ?thesis using parts_extra [OF Some] expand_extra_le [of cs] by simp
  qed
qed simp

lemma expand_pow_none:
  "(\<And>c. c \<in> set cs \<Longrightarrow> extra c \<le> n \<or> decomp u c = None) \<Longrightarrow>
   d \<in> set ((expand u ^^ n) cs) \<Longrightarrow> decomp u d = None"
proof (induction n arbitrary: cs)
  case 0
  then show ?case using parts_extra [of d] by (cases "decomp u d") force+
next
  case (Suc n)
  have "extra e \<le> n \<or> decomp u e = None" if e: "e \<in> set (expand u cs)" for e
  proof -
    obtain c where "c \<in> set cs" "e \<in> set (case decomp u c of None \<Rightarrow> [c] | Some ds \<Rightarrow> ds)"
      using e by (auto simp: set_expand)
    then show ?thesis
      using parts_less [of c _ e] Suc.prems(1) [of c] by (cases "decomp u c") force+
  qed
  then show ?case
    using Suc.IH [of "expand u cs"] Suc.prems(2) by (simp add: funpow_swap1 [symmetric])
qed

lemma decompose_none: "d \<in> set (decompose u cs) \<Longrightarrow> decomp u d = None"
proof -
  assume d: "d \<in> set (decompose u cs)"
  have "extra c \<le> MAXDEC" for c using extra_bound [of c] by linarith
  then show ?thesis using d unfolding decompose_def by (intro expand_pow_none) auto
qed

lemma decompose_expand: "decompose u (expand u cs) = decompose u cs"
proof -
  have "decompose u (expand u cs) = expand u (decompose u cs)"
    by (simp add: decompose_def funpow_swap1 del: funpow.simps)
  also have "\<dots> = decompose u cs" by (intro expand_id decompose_none)
  finally show ?thesis .
qed

lemma nul_expand [simp]: "0 \<in> set (expand u cs) \<longleftrightarrow> 0 \<in> set cs"
proof (induction cs)
  case (Cons c cs)
  then show ?case using parts_nonzero [of c] by (cases "decomp u c") auto
qed simp

text \<open>One round: what it reads ends in the only nul, and so does what it writes.\<close>

lemma expand_up_to_nul:
  obtains zs where "expand u (up_to_nul cs) = zs @ [0]" "0 \<notin> set zs"
proof
  show "expand u (up_to_nul cs) = expand u (takeWhile (\<lambda>c. c \<noteq> 0) cs) @ [0]"
    by (simp add: up_to_nul_def)
  show "0 \<notin> set (expand u (takeWhile (\<lambda>c. c \<noteq> 0) cs))"
    by (auto dest: set_takeWhileD)
qed

lemma scanned_after_round:
  assumes "base \<le> j" "base \<le> length cs"
    and "j < length (take base cs @ expand u (up_to_nul (drop base cs)))" (is "j < length ?cs'")
  shows "scanned j ?cs' = ?cs'"
proof -
  obtain zs where zs: "expand u (up_to_nul (drop base cs)) = zs @ [0]" "0 \<notin> set zs"
    by (rule expand_up_to_nul)
  then have "drop j ?cs' = drop (j - base) zs @ [0]" "0 \<notin> set (drop (j - base) zs)"
    using assms by (auto dest: in_set_dropD)
  then show ?thesis
    using up_to_nul_id [of "drop (j - base) zs" "[]"] append_take_drop_id [of j ?cs']
    by (simp add: scanned_def)
qed

text \<open>The first character that is decomposed, at \<open>k\<close>.\<close>

lemma expand_at_found:
  assumes k: "k = length (takeWhile (\<lambda>c. decomp u c = None) seg)" and c: "k < length seg"
  obtains d ds rest where "decomp u (seg ! k) = Some (d # ds)" "expand u seg = take k seg @ d # rest"
    "\<And>c. c \<in> set (take k seg) \<Longrightarrow> decomp u c = None"
proof -
  obtain ds where "decomp u (seg ! k) = Some ds"
    using nth_length_takeWhile [of "\<lambda>c. decomp u c = None" seg] c k by auto
  then obtain d ds' where ds: "decomp u (seg ! k) = Some (d # ds')"
    using parts_nonempty [of "seg ! k"] by (cases ds) auto
  have pre: "c \<in> set (take k seg) \<Longrightarrow> decomp u c = None" for c
    using takeWhile_eq_take [of "\<lambda>c. decomp u c = None" seg] k by (metis set_takeWhileD)
  have "expand u seg = expand u (take k seg @ seg ! k # drop (Suc k) seg)"
    using id_take_nth_drop [OF c] by simp
  also have "\<dots> = take k seg @ d # (ds' @ expand u (drop (Suc k) seg))"
    using ds expand_id [of "take k seg"] pre by simp
  finally show thesis using ds pre by (intro that)
qed

lemma expand_found:
  "k = length (takeWhile (\<lambda>c. decomp u c = None) seg) \<Longrightarrow> k < length seg \<Longrightarrow> k < length (expand u seg)"
  by (erule (1) expand_at_found) simp

lemma leftover_round:
  assumes "\<And>c. c \<in> set (take base cs) \<Longrightarrow> leftover u c" "base \<le> length cs"
    and k: "k = length (takeWhile (\<lambda>c. decomp u c = None) seg)" "k < length seg"
    and "d \<in> set (take (base + k + 1) (take base cs @ expand u seg))"
  shows "leftover u d"
proof -
  obtain d' ds rest where e: "decomp u (seg ! k) = Some (d' # ds)" "expand u seg = take k seg @ d' # rest"
    "\<And>c. c \<in> set (take k seg) \<Longrightarrow> decomp u c = None"
    using k by (rule expand_at_found) blast
  have "take (base + k + 1) (take base cs @ expand u seg) = take base cs @ take k seg @ [d']"
    unfolding e(2) using assms(2) k by simp
  then show ?thesis
    using assms(1,5) e by (auto simp: leftover_def)
qed

lemma round_extra_less:
  assumes "base \<le> length cs" "base \<le> j" "seg = up_to_nul (drop base cs)"
    and "c \<in> set seg" "decomp u c \<noteq> None" and j: "j < length (take base cs @ expand u seg)"
  shows "sum_list (map extra (up_to_nul (drop j (take base cs @ expand u seg)))) < sum_list (map extra seg)"
proof -
  let ?cs' = "take base cs @ expand u seg"
  have "take j ?cs' @ up_to_nul (drop j ?cs') = ?cs'"
    using scanned_after_round [OF assms(2,1)] assms(3) j by (simp add: scanned_def)
  then have "up_to_nul (drop j ?cs') = drop j ?cs'"
    by (metis append_take_drop_id same_append_eq)
  also have "drop j ?cs' = drop (j - base) (expand u seg)"
    using assms(1,2) by simp
  finally have "sum_list (map extra (up_to_nul (drop j ?cs'))) \<le> sum_list (map extra (expand u seg))"
    using arg_cong [OF append_take_drop_id [of "j - base" "expand u seg"], of "\<lambda>xs. sum_list (map extra xs)"]
    by (simp del: append_take_drop_id)
  then show ?thesis
    using expand_extra_less [OF assms(4,5)] by simp
qed

lemma expand_loop_returns:
  assumes "base \<le> length cs" "\<And>c. c \<in> set (take base cs) \<Longrightarrow> leftover u c"
    and "base < length cs \<Longrightarrow> cost extra (scanned base cs) \<le> B"
    and B: "B < rm" "B \<le> len0 * MAXDEC + 1"
  shows "\<exists>r. expand_loop u len0 rm base cs = Some r \<and> (\<forall>c\<in>set r. leftover u c) \<and>
    decompose u r = decompose u (if base < length cs then scanned base cs else cs) \<and>
    length r \<le> max (length cs) B"
  using assms(1,2,3)
proof (induction "sum_list (map extra (up_to_nul (drop base cs)))" arbitrary: base cs rule: less_induct)
  case less
  show ?case
  proof (cases "base < length cs")
    case False
    then show ?thesis using less.prems by (simp add: expand_loop.simps)
  next
    case True
    define seg where "seg = up_to_nul (drop base cs)"
    define cs' where "cs' = take base cs @ expand u seg"
    define k where "k = length (takeWhile (\<lambda>c. decomp u c = None) seg)"
    have cost': "cost extra cs' \<le> B"
      using less.prems(3) True expand_cost [of seg] by (simp add: cs'_def seg_def scanned_def)
    then have len': "length cs' \<le> B"
      using length_le_cost [of cs' extra] by simp
    have dec': "decompose u cs' = decompose u (scanned base cs)"
      by (simp add: cs'_def seg_def scanned_def decompose_append decompose_expand)
    have len_cs': "length cs' = base + length (expand u seg)"
      using less.prems(1) by (simp add: cs'_def)
    have step: "expand_loop u len0 rm base cs =
        expand_loop u len0 rm (if k < length seg then base + k + 1 else length cs') cs'"
    proof -
      have "\<not> (rm \<le> length cs' \<or> len0 * MAXDEC + 1 < length cs')" using len' B by simp
      then show ?thesis
        using True
        by (subst expand_loop.simps)
          (simp only: Let_def seg_def [symmetric] cs'_def [symmetric] k_def [symmetric] if_True if_False)
    qed
    show ?thesis
    proof (cases "k < length seg")
      case False
      then have all: "\<forall>c\<in>set seg. decomp u c = None"
      proof -
        have "takeWhile (\<lambda>c. decomp u c = None) seg = take k seg"
          unfolding k_def by (rule takeWhile_eq_take)
        also have "\<dots> = seg" using False by simp
        finally show ?thesis by (simp add: takeWhile_eq_all_conv)
      qed
      then have "expand u seg = seg" by (intro expand_id) auto
      then have "\<forall>c\<in>set cs'. leftover u c"
        using all less.prems(2) by (auto simp: cs'_def leftover_def)
      then show ?thesis
        using step False True dec' len' by (simp add: expand_loop.simps)
    next
      case k: True
      then have found: "seg ! k \<in> set seg" "decomp u (seg ! k) \<noteq> None"
        using nth_length_takeWhile [of "\<lambda>c. decomp u c = None" seg] by (auto simp: k_def)
      have len_ge: "base + k + 1 \<le> length cs'"
        using expand_found [OF k_def k] len_cs' by simp
      have "\<exists>r. expand_loop u len0 rm (base + k + 1) cs' = Some r \<and> (\<forall>c\<in>set r. leftover u c) \<and>
          decompose u r = decompose u (if base + k + 1 < length cs' then scanned (base + k + 1) cs' else cs') \<and>
          length r \<le> max (length cs') B"
      proof (cases "base + k + 1 < length cs'")
        case more: True
        have sc: "scanned (base + k + 1) cs' = cs'"
          using scanned_after_round [of base "base + k + 1" cs] more less.prems(1)
          by (simp add: cs'_def seg_def)
        show ?thesis
        proof (rule less.hyps)
          show "sum_list (map extra (up_to_nul (drop (base + k + 1) cs'))) < sum_list (map extra (up_to_nul (drop base cs)))"
            using round_extra_less [OF less.prems(1) _ seg_def found] more
            by (simp add: cs'_def seg_def [symmetric])
          show "leftover u c" if "c \<in> set (take (base + k + 1) cs')" for c
            using leftover_round [OF less.prems(2,1) k_def k] that by (simp add: cs'_def)
        qed (use more sc cost' in auto)
      next
        case False
        then have "take (base + k + 1) cs' = cs'" by simp
        then have "\<forall>c\<in>set cs'. leftover u c"
          using leftover_round [OF less.prems(2,1) k_def k] by (auto simp: cs'_def)
        then show ?thesis using False len_ge by (simp add: expand_loop.simps)
      qed
      moreover have "scanned (base + k + 1) cs' = cs'" if "base + k + 1 < length cs'"
        using scanned_after_round [of base "base + k + 1" cs] that less.prems(1)
        by (simp add: cs'_def seg_def)
      ultimately show ?thesis
        using step True k dec' len' by (auto split: if_splits)
    qed
  qed
qed

end

section \<open>The normal form\<close>

definition wide_from :: "unichar list \<Rightarrow> nat" where
  "wide_from cs = length (takeWhile (\<lambda>c. c < 0x00C0) cs)"

definition wide :: "unichar list \<Rightarrow> bool" where
  "wide cs \<longleftrightarrow> (\<exists>c\<in>set cs. 0x00C0 \<le> c)"

definition normal_form :: "unicode \<Rightarrow> unichar list \<Rightarrow> unichar list" where
  "normal_form u cs = chars (the (GSeq_normalize u (GSEQ_MAKE cs)))"

text \<open>A character whose decomposition is full after one step.\<close>

definition flat :: "unicode \<Rightarrow> unichar \<Rightarrow> bool" where
  "flat u c \<longleftrightarrow> (case decomp u c of None \<Rightarrow> True | Some ds \<Rightarrow> list_all (\<lambda>d. decomp u d = None) ds)"

lemma wide_iff: "wide cs \<longleftrightarrow> wide_from cs < length cs"
  by (induction cs) (auto simp: wide_def wide_from_def)

lemma wide_from_le: "wide_from cs \<le> length cs"
  by (simp add: wide_from_def length_takeWhile_le)

lemma take_wide_from: "c \<in> set (take (wide_from cs) cs) \<Longrightarrow> c < 0x00C0"
  unfolding wide_from_def takeWhile_eq_take [symmetric] by (auto dest: set_takeWhileD)

lemma scanned_all: "0 \<notin> set cs \<Longrightarrow> scanned base cs = cs @ [0]"
proof -
  assume "0 \<notin> set cs"
  then have "0 \<notin> set (drop base cs)" by (blast dest: in_set_dropD)
  then have "\<forall>c\<in>set (drop base cs). c \<noteq> 0" by metis
  then have "takeWhile (\<lambda>c. c \<noteq> 0) (drop base cs) = drop base cs"
    by (simp only: takeWhile_eq_all_conv)
  then have "up_to_nul (drop base cs) = drop base cs @ [0]" by (simp only: up_to_nul_def)
  then show ?thesis by (simp add: scanned_def)
qed

lemma insert_mark_snoc: "cop u e = 0 \<Longrightarrow> insert_mark u c (cs @ [e]) = insert_mark u c cs @ [e]"
  by (induction cs) auto

lemma canonical_order_snoc: "cop u e = 0 \<Longrightarrow> canonical_order u (cs @ [e]) = canonical_order u cs @ [e]"
  by (induction cs) (auto simp: insert_mark_snoc)

lemma canonical_order_starters: "(\<And>c. c \<in> set cs \<Longrightarrow> cop u c = 0) \<Longrightarrow> canonical_order u cs = cs"
  by (induction cs) auto

context unicode_data
begin

lemma cost_up_to_nul: "cost extra (up_to_nul cs) \<le> cost extra cs + 1"
proof (induction cs)
  case (Cons c cs)
  then show ?case by (auto simp: up_to_nul_def extra_nul)
qed (simp add: up_to_nul_def extra_nul)

lemma cost_bound: "cost extra cs \<le> 17 * length cs"
proof (induction cs)
  case (Cons c cs)
  then show ?case using extra_bound [of c] by simp
qed simp

lemma cost_scanned: "cost extra (scanned base cs) \<le> 17 * length cs + 1"
proof -
  have "cost extra (scanned base cs) \<le> cost extra (take base cs) + cost extra (drop base cs) + 1"
    using cost_up_to_nul [of "drop base cs"] by (simp add: scanned_def)
  also have "\<dots> = cost extra cs + 1" by (metis append_take_drop_id cost_simps(3))
  finally show ?thesis using cost_bound [of cs] by simp
qed

lemma normalize_latin:
  "\<not> wide cs \<Longrightarrow> GSeq_normalize u (GSEQ_MAKE cs) =
     Some ((GSEQ_MAKE cs)\<lparr>normalized := cs \<noteq> []\<rparr>)"
  by (auto simp: wide_iff wide_from_def GSeq_normalize_def GSEQ_MAKE_def)

lemma normalize_loop:
  assumes "wide cs" "expand_loop u (length cs) (length cs * MAXDEC + 1) (wide_from cs) cs = Some r"
  shows "GSeq_normalize u (GSEQ_MAKE cs) =
    Some ((GSEQ_MAKE cs)\<lparr>chars := canonical_order u r, normalized := True\<rparr>)"
  using assms by (auto simp: wide_iff wide_from_def GSeq_normalize_def GSEQ_MAKE_def order_loop_canonical)

lemma normalize_wide:
  assumes "wide cs"
  obtains r where "expand_loop u (length cs) (length cs * MAXDEC + 1) (wide_from cs) cs = Some r"
    "\<And>c. c \<in> set r \<Longrightarrow> leftover u c" "decompose u r = decompose u (scanned (wide_from cs) cs)"
    "length r \<le> 17 * length cs + 1"
proof -
  have n: "0 < length cs" using assms by (auto simp: wide_def)
  have "leftover u c" if "c \<in> set (take (wide_from cs) cs)" for c
    using take_wide_from [OF that] by (simp add: leftover_def latin)
  then have "\<exists>r. expand_loop u (length cs) (length cs * MAXDEC + 1) (wide_from cs) cs = Some r \<and>
      (\<forall>c\<in>set r. leftover u c) \<and>
      decompose u r = decompose u (if wide_from cs < length cs then scanned (wide_from cs) cs else cs) \<and>
      length r \<le> max (length cs) (17 * length cs + 1)"
    using n cost_scanned [of "wide_from cs" cs] by (intro expand_loop_returns) (simp_all add: wide_from_le)
  then show thesis
    using assms that by (auto simp: wide_iff max_def split: if_splits)
qed

text \<open>For flat characters one round is enough, and the normal form is the canonical one.\<close>

lemma expand_loop_done:
  assumes "\<And>c. c \<in> set (drop base zs) \<Longrightarrow> decomp u c = None" "0 \<notin> set zs" "base \<le> Suc (length zs)"
    and "Suc (length zs) < rm" "length zs \<le> len0 * MAXDEC"
  shows "expand_loop u len0 rm base (zs @ [0]) = Some (zs @ [0])"
proof (cases "base = Suc (length zs)")
  case True
  then show ?thesis by (simp add: expand_loop.simps)
next
  case False
  have seg: "up_to_nul (drop base zs @ [0]) = drop base zs @ [0]"
    using assms(2) up_to_nul_id [of "drop base zs" "[]"] by (auto dest: in_set_dropD)
  have "expand u (drop base zs @ [0]) = drop base zs @ [0]"
    using assms(1) by (intro expand_id) auto
  moreover have "takeWhile (\<lambda>c. decomp u c = None) (drop base zs @ [0]) = drop base zs @ [0]"
    using assms(1) by (subst takeWhile_eq_all_conv) auto
  moreover have "base \<le> length zs" using False assms(3) by simp
  ultimately show ?thesis
    using assms(4,5) expand_loop.simps [of u len0 rm "Suc (length zs)"]
    by (subst expand_loop.simps) (simp add: Let_def seg)
qed

lemma flat_expand:
  "(\<And>c. c \<in> set cs \<Longrightarrow> flat u c) \<Longrightarrow> d \<in> set (expand u cs) \<Longrightarrow> decomp u d = None"
proof -
  assume flat: "\<And>c. c \<in> set cs \<Longrightarrow> flat u c" and "d \<in> set (expand u cs)"
  then obtain c where c: "c \<in> set cs" "d \<in> set (case decomp u c of None \<Rightarrow> [c] | Some ds \<Rightarrow> ds)"
    by (auto simp: set_expand)
  then show ?thesis using flat [OF c(1)] by (auto simp: flat_def list_all_iff split: option.splits)
qed

lemma decompose_id: "(\<And>c. c \<in> set cs \<Longrightarrow> decomp u c = None) \<Longrightarrow> decompose u cs = cs"
proof -
  assume "\<And>c. c \<in> set cs \<Longrightarrow> decomp u c = None"
  then have "(expand u ^^ n) cs = cs" for n using expand_id [of cs u] by (induction n) auto
  then show ?thesis by (simp only: decompose_def)
qed

lemma flat_decompose: "(\<And>c. c \<in> set cs \<Longrightarrow> flat u c) \<Longrightarrow> decompose u cs = expand u cs"
proof -
  assume "\<And>c. c \<in> set cs \<Longrightarrow> flat u c"
  then have "expand u (expand u cs) = expand u cs" by (intro expand_id flat_expand)
  then have "(expand u ^^ n) (expand u cs) = expand u cs" for n by (induction n) auto
  then show ?thesis
    using decompose_expand [of cs] by (simp add: decompose_def)
qed

lemma expand_loop_flat:
  assumes flat: "\<And>c. c \<in> set cs \<Longrightarrow> flat u c" and "0 \<notin> set cs" "wide cs"
  shows "expand_loop u (length cs) (length cs * MAXDEC + 1) (wide_from cs) cs = Some (expand u cs @ [0])"
proof -
  let ?b = "wide_from cs"
  define seg where "seg = drop ?b cs @ [0]"
  define k where "k = length (takeWhile (\<lambda>c. decomp u c = None) seg)"
  have "expand u (take ?b cs) = take ?b cs"
    using take_wide_from by (intro expand_id) (auto simp: latin)
  then have ex: "take ?b cs @ expand u seg = expand u cs @ [0]"
    using expand_simps(3) [of u "take ?b cs" "drop ?b cs"] by (simp add: seg_def)
  have "0 \<notin> set (drop ?b cs)" using assms(2) by (blast dest: in_set_dropD)
  then have seg: "up_to_nul (drop ?b cs) = seg"
    using scanned_all [of "drop ?b cs" 0] by (simp add: scanned_def seg_def)
  have n: "0 < length cs" using assms(3) by (auto simp: wide_def)
  have len: "length (expand u cs) < length cs * MAXDEC"
    using length_le_cost [of "expand u cs" extra] expand_cost [of cs] cost_bound [of cs] n by linarith
  have "(if k < length seg then ?b + k + 1 else length (expand u cs @ [0])) \<le> Suc (length (expand u cs))"
    using expand_found [OF k_def] arg_cong [OF ex, of length] wide_from_le [of cs] by auto
  then have "expand_loop u (length cs) (length cs * MAXDEC + 1)
      (if k < length seg then ?b + k + 1 else length (expand u cs @ [0])) (expand u cs @ [0]) = Some (expand u cs @ [0])"
    using flat_expand [of cs] flat assms(2) n len by (intro expand_loop_done) (auto dest: in_set_dropD)
  moreover have "\<not> (length cs * MAXDEC + 1 \<le> length (expand u cs @ [0]) \<or>
      length cs * MAXDEC + 1 < length (expand u cs @ [0]))"
    using n len by simp
  ultimately show ?thesis
    using assms(3)
    by (subst expand_loop.simps)
      (simp only: wide_iff Let_def seg ex k_def [symmetric] if_True if_False)
qed

lemma normal_form_flat:
  assumes "\<And>c. c \<in> set cs \<Longrightarrow> flat u c" "0 \<notin> set cs"
  shows "normal_form u cs = canonical_order u (decompose u cs) @ (if wide cs then [0] else [])"
proof (cases "wide cs")
  case True
  then show ?thesis
    using expand_loop_flat [OF assms] flat_decompose [OF assms(1)]
    by (simp add: normal_form_def normalize_loop canonical_order_snoc latin_cop)
next
  case False
  then have *: "decomp u c = None" "cop u c = 0" if "c \<in> set cs" for c
    using that by (auto simp: wide_def latin latin_cop not_le)
  then have "decompose u cs = cs"
    using flat_decompose [of cs] expand_id [of cs u] by (simp add: flat_def)
  then show ?thesis
    unfolding normal_form_def normalize_latin [OF False]
    using False *(2) by (simp add: GSEQ_MAKE_def canonical_order_starters)
qed

lemma normalize_some: "\<exists>t. GSeq_normalize u (GSEQ_MAKE cs) = Some t"
proof (cases "wide cs")
  case True
  then obtain r where "expand_loop u (length cs) (length cs * MAXDEC + 1) (wide_from cs) cs = Some r"
    by (rule normalize_wide)
  then show ?thesis using True by (simp add: normalize_loop)
qed (simp add: normalize_latin)

lemma compare_normal_forms:
  "\<exists>s t. GSeq_compare u (GSEQ_MAKE cs) (GSEQ_MAKE ds) =
    Some (compare_chars (normal_form u cs) (normal_form u ds), s, t)"
proof -
  obtain s t where "GSeq_normalize u (GSEQ_MAKE cs) = Some s" "GSeq_normalize u (GSEQ_MAKE ds) = Some t"
    using normalize_some by metis
  moreover have "chars (GSEQ_MAKE cs) = cs" "\<not> normalized (GSEQ_MAKE cs)" for cs
    by (simp_all add: GSEQ_MAKE_def)
  moreover have "compare_chars x x = NSOrderedSame" for x
    by (induction x) auto
  ultimately show ?thesis
    by (cases "cs = ds") (auto simp: GSeq_compare_def normal_form_def)
qed

end

section \<open>Comparison\<close>

lemma not_after_chars [simp]:
  "not_after compare_chars [] bs"
  "\<not> not_after compare_chars (a # as) []"
  "not_after compare_chars (a # as) (b # bs) \<longleftrightarrow> a < b \<or> a = b \<and> not_after compare_chars as bs"
  by (cases bs) (auto simp: not_after_def)

interpretation character_lists: comparator_laws "\<lambda>_. True" compare_chars
proof unfold_locales
  fix as bs cs :: "unichar list"
  show "compare_chars as as = NSOrderedSame"
    by (induction as) auto
  show "compare_chars bs as = comparison_invert (compare_chars as bs)"
    by (induction as bs rule: compare_chars.induct) auto
  show "not_after compare_chars as cs" if "not_after compare_chars as bs" "not_after compare_chars bs cs"
    using that
  proof (induction as arbitrary: bs cs)
    case (Cons a as)
    then show ?case by (cases bs; cases cs) auto
  qed simp
qed

lemma compare_chars_same: "compare_chars as bs = NSOrderedSame \<longleftrightarrow> as = bs"
  by (induction as bs rule: compare_chars.induct) auto

text \<open>The comparison of two fresh sequences.\<close>

definition sequence_compare :: "unicode \<Rightarrow> unichar list \<Rightarrow> unichar list \<Rightarrow> NSComparisonResult" where
  "sequence_compare u cs ds = fst (the (GSeq_compare u (GSEQ_MAKE cs) (GSEQ_MAKE ds)))"

context unicode_data
begin

lemma sequence_compare_eq: "sequence_compare u cs ds = compare_chars (normal_form u cs) (normal_form u ds)"
  using compare_normal_forms [of cs ds] by (auto simp: sequence_compare_def)

end

sublocale unicode_data \<subseteq> sequences: object_comparator "\<lambda>_. True" "sequence_compare u"
proof unfold_locales
  fix as bs cs
  show "sequence_compare u as as = NSOrderedSame"
    by (simp add: sequence_compare_eq character_lists.cmp_self)
  show "sequence_compare u bs as = comparison_invert (sequence_compare u as bs)"
    unfolding sequence_compare_eq by (rule character_lists.cmp_swap) auto
  show "not_after (sequence_compare u) as cs"
    if "not_after (sequence_compare u) as bs" "not_after (sequence_compare u) bs cs"
    using that character_lists.cmp_trans [of "normal_form u as" "normal_form u bs" "normal_form u cs"]
    unfolding not_after_def sequence_compare_eq by blast
qed

end
