(* ===== verification/GSeq_Props.thy ===== *)
theory GSeq_Props
  imports GSeq_Normal
begin

text \<open>
  What normalisation and comparison of character sequences promise with the library's own
  character tables, and where canonically equal sequences are not recognised.
\<close>

section \<open>Normalisation\<close>

lemma marks_in_order_starters: "(\<And>c. c \<in> set cs \<Longrightarrow> cop u c = 0) \<Longrightarrow> marks_in_order u cs"
proof (induction cs)
  case (Cons c cs)
  then show ?case by (cases cs) (auto simp: marks_in_order_def)
qed (simp add: marks_in_order_def)

context unicode_data
begin

lemma normalized_reordering:
  "\<exists>t r. GSeq_normalize u (GSEQ_MAKE cs) = Some t \<and> chars t = canonical_order u r \<and>
     decompose u r = decompose u (if wide cs then scanned (wide_from cs) cs else cs) \<and>
     length (chars t) \<le> capacity t \<and> room t = room (GSEQ_MAKE cs) \<and> (\<forall>c\<in>set (chars t). leftover u c)"
proof (cases "wide cs")
  case True
  then obtain r where r: "expand_loop u (length cs) (length cs * MAXDEC + 1) (wide_from cs) cs = Some r"
    "\<And>c. c \<in> set r \<Longrightarrow> leftover u c" "decompose u r = decompose u (scanned (wide_from cs) cs)"
    "length r \<le> 17 * length cs + 1"
    by (rule normalize_wide) blast
  have "0 < length cs" using True by (auto simp: wide_def)
  then have "length (canonical_order u r) \<le> length cs * MAXDEC"
    using r(4) length_canonical_order [of u r] by linarith
  then show ?thesis
    using True r(2,3) unfolding normalize_loop [OF True r(1)] by (auto simp: GSEQ_MAKE_def)
next
  case False
  then have "decomp u c = None" "cop u c = 0" if "c \<in> set cs" for c
    using that by (auto simp: wide_def latin latin_cop not_le)
  then show ?thesis
    using False unfolding normalize_latin [OF False]
    by (intro exI [of _ "(GSEQ_MAKE cs)\<lparr>normalized := cs \<noteq> []\<rparr>"] exI [of _ cs])
      (simp add: GSEQ_MAKE_def canonical_order_starters leftover_def)
qed

lemma normalized_sequence:
  "\<exists>t r. GSeq_normalize u (GSEQ_MAKE cs) = Some t \<and> chars t = canonical_order u r \<and>
     decompose u r = decompose u (if wide cs then scanned (wide_from cs) cs else cs) \<and>
     length (chars t) \<le> capacity t \<and> room t = room (GSEQ_MAKE cs) \<and> (\<forall>c\<in>set (chars t). leftover u c) \<and>
     marks_in_order u (chars t) \<and> set (chars t) = set r \<and>
     filter (\<lambda>c. cop u c = 0) (chars t) = filter (\<lambda>c. cop u c = 0) r"
  using normalized_reordering [of cs] canonical_order_in_order canonical_order_starters_kept set_canonical_order
  by metis

end

text \<open>C12.
  Normalising a fresh sequence of any characters returns and stays inside both buffers. There is
  a partial decomposition \<open>r\<close> of what was read, with the same full decomposition character by
  character, of which the result is the reordering: the marks after each starter in strictly
  ascending order of class and code, repeated marks dropped, the starters untouched. What is
  still composite in it is the first part of some decomposition. What was read is the sequence
  itself if it has no character from 0xC0 up; otherwise it ends with the first nul behind the
  characters before 0xC0, which is the added terminator if the sequence has none.
\<close>

theorem normalize_sequence:
  "\<exists>t r. GSeq_normalize (gs_unicode lower upper nonsp) (GSEQ_MAKE cs) = Some t \<and>
     chars t = canonical_order (gs_unicode lower upper nonsp) r \<and>
     decompose (gs_unicode lower upper nonsp) r =
       decompose (gs_unicode lower upper nonsp) (if wide cs then scanned (wide_from cs) cs else cs) \<and>
     length (chars t) \<le> capacity t \<and> room t = room (GSEQ_MAKE cs) \<and>
     (\<forall>c\<in>set (chars t). leftover (gs_unicode lower upper nonsp) c) \<and>
     marks_in_order (gs_unicode lower upper nonsp) (chars t) \<and> set (chars t) = set r \<and>
     filter (\<lambda>c. cop (gs_unicode lower upper nonsp) c = 0) (chars t) =
       filter (\<lambda>c. cop (gs_unicode lower upper nonsp) c = 0) r"
  by (rule gs.normalized_sequence)

theorem normalize_sequence_witness:
  "\<exists>t. GSeq_normalize (gs_unicode id id (\<lambda>_. False)) (GSEQ_MAKE [0x0041, 0x0301]) = Some t \<and>
     (\<forall>c\<in>set (chars t). leftover (gs_unicode id id (\<lambda>_. False)) c)"
  using normalize_sequence [of id id "\<lambda>_. False" "[0x0041, 0x0301]"] by blast

section \<open>Comparison\<close>

text \<open>
  The canonical form of the Unicode standard, by the decompositions and classes of the library's
  tables: everything decomposed, the marks after each starter sorted by class, those of one
  class left in their order. Sequences are canonically equal if they have the same form.
\<close>

definition canonical :: "unicode \<Rightarrow> unichar list \<Rightarrow> unichar list" where
  "canonical u cs = order_by_class u (decompose u cs)"

text \<open>C28.
  The comparison of fresh sequences always returns, the same as the comparison of the normal
  forms by code; it is a total preorder, so that the sorts and heaps accept it.
\<close>

theorem sequence_order:
  "(\<exists>s t. GSeq_compare (gs_unicode lower upper nonsp) (GSEQ_MAKE as) (GSEQ_MAKE bs) =
      Some (compare_chars (normal_form (gs_unicode lower upper nonsp) as)
        (normal_form (gs_unicode lower upper nonsp) bs), s, t)) \<and>
   sequence_compare (gs_unicode lower upper nonsp) bs as =
     comparison_invert (sequence_compare (gs_unicode lower upper nonsp) as bs) \<and>
   (not_after (sequence_compare (gs_unicode lower upper nonsp)) as bs \<and>
    not_after (sequence_compare (gs_unicode lower upper nonsp)) bs cs \<longrightarrow>
      not_after (sequence_compare (gs_unicode lower upper nonsp)) as cs)"
  using gs.compare_normal_forms gs.sequences.cmp_swap gs.sequences.cmp_trans by blast

theorem sequence_order_witness:
  "not_after (sequence_compare (gs_unicode id id (\<lambda>_. False))) [65] [67]"
proof -
  have "not_after (sequence_compare (gs_unicode id id (\<lambda>_. False))) [65] [66] \<and>
    not_after (sequence_compare (gs_unicode id id (\<lambda>_. False))) [66] [67]"
    by (simp add: not_after_def sequence_compare_def GSeq_compare_def GSEQ_MAKE_def GSeq_normalize_def)
  then show ?thesis
    by (rule sequence_order [of id id "\<lambda>_. False" "[65]" "[66]" "[67]", THEN conjunct2, THEN conjunct2, THEN mp])
qed

text \<open>C8.
  For sequences without nul whose characters are fully decomposed in one step, and of which
  both or none have a character from 0xC0 up: canonically equal ones are the same for the
  comparison, and those that are the same for it are canonically equal if in neither canonical
  form two neighbouring marks have the same class. (With marks of one class side by side the
  comparison accepts more than Unicode does, as is shown below.)
\<close>

theorem canonical_equality:
  assumes "list_all (flat (gs_unicode lower upper nonsp)) cs" "list_all (flat (gs_unicode lower upper nonsp)) ds"
    and "0 \<notin> set cs" "0 \<notin> set ds" "wide cs \<longleftrightarrow> wide ds"
  shows "(canonical (gs_unicode lower upper nonsp) cs = canonical (gs_unicode lower upper nonsp) ds \<longrightarrow>
      sequence_compare (gs_unicode lower upper nonsp) cs ds = NSOrderedSame) \<and>
    (classes_distinct (gs_unicode lower upper nonsp) (canonical (gs_unicode lower upper nonsp) cs) \<and>
     classes_distinct (gs_unicode lower upper nonsp) (canonical (gs_unicode lower upper nonsp) ds) \<and>
     sequence_compare (gs_unicode lower upper nonsp) cs ds = NSOrderedSame \<longrightarrow>
      canonical (gs_unicode lower upper nonsp) cs = canonical (gs_unicode lower upper nonsp) ds)"
proof -
  let ?u = "gs_unicode lower upper nonsp"
  have same: "sequence_compare ?u cs ds = NSOrderedSame \<longleftrightarrow>
      canonical_order ?u (decompose ?u cs) = canonical_order ?u (decompose ?u ds)"
    using assms gs.normal_form_flat [of cs lower upper nonsp] gs.normal_form_flat [of ds lower upper nonsp]
    by (simp add: gs.sequence_compare_eq compare_chars_same list_all_iff)
  have "canonical_order ?u (decompose ?u es) = canonical_order ?u (canonical ?u es)" for es
    by (simp add: canonical_def canonical_order_by_class)
  then show ?thesis
    using classes_distinct_order [of ?u "decompose ?u cs"] classes_distinct_order [of ?u "decompose ?u ds"]
    unfolding same canonical_def [symmetric] by metis
qed

section \<open>Where the comparison is not canonical equality\<close>

context unicode_data
begin

lemma same_class_marks_same:
  assumes "\<And>c. c \<in> set (xs @ ys) \<Longrightarrow> flat u c" "0 \<notin> set (xs @ ys)"
    and "\<And>c. c \<in> set ms \<union> set ns \<Longrightarrow> decomp u c = None \<and> 0 < cop u c"
    and "\<And>cs. canonical_order u (ms @ cs) = canonical_order u (ns @ cs)" "wide ms" "wide ns"
  shows "sequence_compare u (xs @ ms @ ys) (xs @ ns @ ys) = NSOrderedSame"
proof -
  have form: "normal_form u (xs @ ks @ ys) = canonical_order u (decompose u xs @ ks @ decompose u ys) @ [0]"
    if ks: "ks = ms \<or> ks = ns" for ks
  proof -
    have marks: "decomp u c = None \<and> 0 < cop u c" if "c \<in> set ks" for c using assms(3) that ks by auto
    then have "0 \<notin> set ks" using latin_cop [of 0] by fastforce
    moreover have "flat u c" if "c \<in> set (xs @ ks @ ys)" for c
      using that assms(1) marks by (auto simp: flat_def)
    moreover have "wide (xs @ ks @ ys)" using assms(5,6) ks by (auto simp: wide_def)
    moreover have "decompose u (xs @ ks @ ys) = decompose u xs @ ks @ decompose u ys"
      using marks by (simp add: decompose_append decompose_id)
    ultimately show ?thesis using normal_form_flat [of "xs @ ks @ ys"] assms(2) by simp
  qed
  have "canonical_order u (decompose u xs @ ms @ decompose u ys) =
      canonical_order u (decompose u xs @ ns @ decompose u ys)"
    using assms(4) by (intro canonical_order_append_cong)
  then show ?thesis
    using form [of ms] form [of ns] by (simp add: sequence_compare_eq compare_chars_same)
qed

text \<open>A sequence with a character from 0xC0 up is normalised with the terminating nul.\<close>

lemma wide_never_same:
  assumes "wide cs" "\<not> wide ds" "0 \<notin> set ds"
  shows "sequence_compare u cs ds \<noteq> NSOrderedSame"
proof
  assume "sequence_compare u cs ds = NSOrderedSame"
  then have eq: "normal_form u cs = normal_form u ds"
    by (simp add: sequence_compare_eq compare_chars_same)
  obtain r where r: "expand_loop u (length cs) (length cs * MAXDEC + 1) (wide_from cs) cs = Some r"
    "decompose u r = decompose u (scanned (wide_from cs) cs)"
    using normalize_wide [OF assms(1)] by metis
  have "normal_form u ds = ds"
    using normalize_latin [OF assms(2)] by (simp add: normal_form_def GSEQ_MAKE_def)
  moreover have "normal_form u cs = canonical_order u r"
    using normalize_loop [OF assms(1) r(1)] by (simp add: normal_form_def)
  ultimately have "set r = set ds" using eq set_canonical_order [of u r] by simp
  then have "decomp u c = None" if "c \<in> set r" for c
    using that assms(2) by (auto simp: wide_def latin not_le)
  then have "decompose u r = r" by (rule decompose_id)
  moreover have "0 \<in> set (decompose u (scanned (wide_from cs) cs))"
    using decompose_id [of "[0]"] by (simp add: scanned_def up_to_nul_def decompose_append)
  ultimately show False using r(2) assms(3) \<open>set r = set ds\<close> by metis
qed

lemma same_class_order_differs:
  assumes "\<And>c. c \<in> set ms \<union> set ns \<Longrightarrow> decomp u c = None \<and> cop u c = k" "ms \<noteq> ns"
  shows "canonical u (xs @ ms @ ys) \<noteq> canonical u (xs @ ns @ ys)"
proof
  assume eq: "canonical u (xs @ ms @ ys) = canonical u (xs @ ns @ ys)"
  have form: "filter (\<lambda>d. cop u d = k) (canonical u (xs @ ks @ ys)) =
      filter (\<lambda>d. cop u d = k) (decompose u xs) @ ks @ filter (\<lambda>d. cop u d = k) (decompose u ys)"
    if "ks = ms \<or> ks = ns" for ks
  proof -
    have marks: "decomp u c = None" "cop u c = k" if "c \<in> set ks" for c
      using assms(1) that \<open>ks = ms \<or> ks = ns\<close> by auto
    then have "filter (\<lambda>d. cop u d = k) ks = ks" by (simp add: filter_id_conv)
    then show ?thesis
      using marks(1) by (simp add: canonical_def filter_order_by_class decompose_append decompose_id)
  qed
  show False using form [of ms] form [of ns] eq assms(2) by simp
qed

lemma marks_of_one_class:
  assumes "list_all (flat u) (xs @ ys)" "0 \<notin> set (xs @ ys)" "decomp u a = None" "decomp u b = None"
    and "0 < cop u a" "cop u a = cop u b" "set ms \<subseteq> {a, b}" "set ns \<subseteq> {a, b}" "ms \<noteq> []" "ns \<noteq> []" "ms \<noteq> ns"
    and "\<And>cs. canonical_order u (ms @ cs) = canonical_order u (ns @ cs)"
  shows "sequence_compare u (xs @ ms @ ys) (xs @ ns @ ys) = NSOrderedSame"
    "canonical u (xs @ ms @ ys) \<noteq> canonical u (xs @ ns @ ys)"
proof -
  have marks: "decomp u c = None \<and> cop u c = cop u a" if "c \<in> set ms \<union> set ns" for c
    using that assms(3,4,6-8) by auto
  then show "canonical u (xs @ ms @ ys) \<noteq> canonical u (xs @ ns @ ys)"
    using assms(11) by (rule same_class_order_differs)
  have "0x00C0 \<le> a" "0x00C0 \<le> b"
    using latin_cop [of a] latin_cop [of b] assms(5,6) by (cases "a < 0x00C0"; cases "b < 0x00C0"; simp)+
  then have "wide ks" if "set ks \<subseteq> {a, b}" "ks \<noteq> []" for ks
    using that by (auto simp: wide_def neq_Nil_conv)
  then have "wide ms" "wide ns" using assms(7-10) by auto
  moreover have "decomp u c = None \<and> 0 < cop u c" if "c \<in> set ms \<union> set ns" for c
    using marks [OF that] assms(5) by simp
  moreover have "flat u c" if "c \<in> set (xs @ ys)" for c using that assms(1) by (simp only: list_all_iff)
  ultimately show "sequence_compare u (xs @ ms @ ys) (xs @ ns @ ys) = NSOrderedSame"
    using assms(2,12) by (intro same_class_marks_same) auto
qed

text \<open>A character whose decomposition starts with one that is composed itself stays half composed.\<close>

lemma half_composed:
  assumes "decomp u c = Some (d # ds)" "decomp u d = Some es" "\<And>x. x \<in> set (es @ ds) \<Longrightarrow> decomp u x = None"
  shows "canonical u [c] = canonical u (d # ds)" "sequence_compare u [c] (d # ds) \<noteq> NSOrderedSame"
proof -
  have c: "0x00C0 \<le> c" "0x00C0 \<le> d" using assms(1,2) latin [of c] latin [of d] by (force simp: not_le [symmetric])+
  have nul: "0 \<notin> set (d # ds)" using parts_nonzero [OF assms(1)] .
  have len: "length (d # ds) < MAXDEC"
    using parts_extra [OF assms(1)] extra_bound [of c] by simp
  have "decompose u (expand u [c]) = decompose u (d # ds)" using assms(1) by simp
  then show "canonical u [c] = canonical u (d # ds)"
    using decompose_expand [of "[c]"] by (simp add: canonical_def)
  have "expand_loop u 1 (1 * MAXDEC + 1) 1 ((d # ds) @ [0]) = Some ((d # ds) @ [0])"
    using assms(3) nul len by (intro expand_loop_done) auto
  then have "expand_loop u 1 (1 * MAXDEC + 1) 0 [c] = Some ((d # ds) @ [0])"
    using c assms(1) len by (subst expand_loop.simps) (simp add: up_to_nul_def)
  then have "normal_form u [c] = canonical_order u ((d # ds) @ [0])"
    using normalize_loop [of "[c]"] c by (simp add: normal_form_def wide_def wide_from_def)
  then have in1: "d \<in> set (normal_form u [c])"
    using set_canonical_order [of u "(d # ds) @ [0]"] by simp
  have flat: "flat u x" if "x \<in> set (d # ds)" for x
    using that assms(2,3) by (auto simp: flat_def list_all_iff)
  have "normal_form u (d # ds) = canonical_order u (decompose u (d # ds)) @ (if wide (d # ds) then [0] else [])"
    using flat nul by (rule normal_form_flat)
  then have "normal_form u (d # ds) = canonical_order u (expand u (d # ds)) @ (if wide (d # ds) then [0] else [])"
    by (simp only: flat_decompose [OF flat])
  moreover have "expand u (d # ds) = es @ ds" using assms(2,3) expand_id [of ds u] by simp
  ultimately have "set (normal_form u (d # ds)) \<subseteq> set (es @ ds) \<union> {0}"
    using set_canonical_order [of u "es @ ds"] by auto
  then have "d \<notin> set (normal_form u (d # ds))" using assms(2,3) nul by auto
  then show "sequence_compare u [c] (d # ds) \<noteq> NSOrderedSame"
    using in1 by (auto simp: sequence_compare_eq compare_chars_same)
qed

end

text \<open>Some entries of the tables, each found in its section.\<close>

lemma dec_entry: "map_of uni_dec_table c = Some ds \<longleftrightarrow> (c, ds) \<in> set uni_dec_table"
  using ascending_in_sorted [OF uni_dec_table_ascending] by (simp add: strict_sorted_iff)

lemma cop_entry: "map_of uni_cop_table c = Some k \<longleftrightarrow> (c, k) \<in> set uni_cop_table"
  using ascending_in_sorted [OF uni_cop_table_ascending] by (simp add: strict_sorted_iff)

lemma dec_entries_some:
  "(0x00C2, [0x0041, 0x0302]) \<in> set uni_dec_table_1" "(0x1EA4, [0x00C2, 0x0301]) \<in> set uni_dec_table_4"
  "(0x212A, [0x004B]) \<in> set uni_dec_table_6"
  by (simp_all add: uni_dec_table_1_def uni_dec_table_4_def uni_dec_table_6_def)

lemma dec_entries_none: "list_all (\<lambda>p. fst p \<noteq> 0x0301 \<and> fst p \<noteq> 0x0302) uni_dec_table_2"
  by (simp add: uni_dec_table_2_def)

lemma cop_entries_some: "(0x0301, 230) \<in> set uni_cop_table_1" "(0x0302, 230) \<in> set uni_cop_table_1"
  by (simp_all add: uni_cop_table_1_def)

lemma dec_entries:
  "map_of uni_dec_table 0x00C2 = Some [0x0041, 0x0302]"
  "map_of uni_dec_table 0x1EA4 = Some [0x00C2, 0x0301]"
  "map_of uni_dec_table 0x212A = Some [0x004B]"
  unfolding dec_entry by (simp_all add: uni_dec_table_def dec_entries_some)

lemma dec_mark_none:
  assumes "c \<in> {0x0301, 0x0302}"
  shows "map_of uni_dec_table c = None"
proof -
  have "map_of t c = None" if "ascending_in lo hi t" "hi \<le> c \<or> c < lo" for lo hi t
    using ascending_in_bounds [OF that(1)] that(2) by (force simp: map_of_eq_None_iff)
  note out = this
  have "map_of uni_dec_table_2 c = None"
    using dec_entries_none assms by (auto simp: map_of_eq_None_iff list_all_iff)
  then show ?thesis
    using assms out [OF uni_dec_table_1_ok(1)] out [OF uni_dec_table_3_ok(1)] out [OF uni_dec_table_4_ok(1)]
      out [OF uni_dec_table_5_ok(1)] out [OF uni_dec_table_6_ok(1)] out [OF uni_dec_table_7_ok(1)]
      out [OF uni_dec_table_8_ok(1)]
    by (auto simp: uni_dec_table_def map_add_def)
qed

lemma cop_entries: "map_of uni_cop_table 0x0301 = Some 230" "map_of uni_cop_table 0x0302 = Some 230"
  unfolding cop_entry by (simp_all add: uni_cop_table_def cop_entries_some)

lemma cop_00C2: "map_of uni_cop_table 0x00C2 = None"
  using ascending_in_bounds [OF uni_cop_table_ascending] by (force simp: map_of_eq_None_iff)

lemmas table_facts = dec_entries dec_mark_none cop_entries cop_00C2 dec_table_latin cop_table_latin



theorem canonical_equality_witness:
  "sequence_compare (gs_unicode id id (\<lambda>_. False)) [0x00C2] [0x0041, 0x0302] = NSOrderedSame"
proof -
  let ?u = "gs_unicode id id (\<lambda>_. False)"
  have "canonical ?u [0x00C2] = canonical ?u [0x0041, 0x0302]"
    using gs.decompose_expand [of id id "\<lambda>_. False" "[0x00C2]"] by (simp add: canonical_def table_facts)
  moreover have "list_all (flat ?u) [0x00C2]" "list_all (flat ?u) [0x0041, 0x0302]"
    by (simp_all add: flat_def table_facts)
  ultimately show ?thesis
    using canonical_equality [of id id "\<lambda>_. False" "[0x00C2]" "[0x0041, 0x0302]"] by (simp add: wide_def)
qed

end
