(* ===== verification/GSeq_Search.thy ===== *)
theory GSeq_Search
  imports GSeq_Tables
begin

text \<open>
  The literal searches of \<^verbatim>\<open>Source/GSeq.h\<close> find the first or the last place where the
  characters match.
\<close>

section \<open>Literal searches\<close>

definition occurs_at :: "(unichar \<Rightarrow> unichar \<Rightarrow> bool) \<Rightarrow> unichar list \<Rightarrow> unichar list \<Rightarrow> nat \<Rightarrow> bool" where
  "occurs_at alike s str p \<longleftrightarrow> list_all (\<lambda>j. alike (s ! (p + j)) (str ! j)) [0..<length str]"

text \<open>The places from \<open>lo\<close> to \<open>hi\<close> where the string occurs, and the answer if one is picked.\<close>

definition occurrences :: "(unichar \<Rightarrow> unichar \<Rightarrow> bool) \<Rightarrow> unichar list \<Rightarrow> unichar list \<Rightarrow> nat \<Rightarrow> nat \<Rightarrow> nat set" where
  "occurrences alike s str lo hi = {p. lo \<le> p \<and> p \<le> hi \<and> occurs_at alike s str p}"

definition found :: "(nat set \<Rightarrow> nat) \<Rightarrow> nat set \<Rightarrow> nat \<Rightarrow> NSRange" where
  "found pick places n = (if places = {} then not_found else \<lparr>location = pick places, rlength = n\<rparr>)"

lemma occurrences_one: "occurrences alike s str p p = (if occurs_at alike s str p then {p} else {})"
  by (auto simp: occurrences_def)

lemma occurrences_first: "lo \<le> hi \<Longrightarrow> occurs_at alike s str lo \<Longrightarrow>
    found Min (occurrences alike s str lo hi) n = \<lparr>location = lo, rlength = n\<rparr>"
  by (auto simp: occurrences_def found_def intro!: Min_eqI)

lemma occurrences_last: "lo \<le> hi \<Longrightarrow> occurs_at alike s str hi \<Longrightarrow>
    found Max (occurrences alike s str lo hi) n = \<lparr>location = hi, rlength = n\<rparr>"
  by (auto simp: occurrences_def found_def intro!: Max_eqI)

lemma occurrences_up: "\<not> occurs_at alike s str lo \<Longrightarrow> occurrences alike s str lo hi = occurrences alike s str (lo + 1) hi"
  by (auto simp: occurrences_def Suc_le_eq le_less)

lemma occurrences_down: "\<not> occurs_at alike s str hi \<Longrightarrow> lo < hi \<Longrightarrow>
    occurrences alike s str lo hi = occurrences alike s str lo (hi - 1)"
  by (auto simp: occurrences_def le_less)

lemma literal_match_iff:
  assumes "my + length str \<le> rangeEnd"
  shows "1 \<le> i \<Longrightarrow> i \<le> length str \<Longrightarrow> literal_match alike s str my rangeEnd i \<longleftrightarrow>
    (\<forall>j. i - 1 \<le> j \<and> j < length str \<longrightarrow> alike (s ! (my + j)) (str ! j))"
proof (induction "length str - i" arbitrary: i)
  case 0
  then have "i = length str" "i - 1 \<le> j \<and> j < length str \<longleftrightarrow> j = i - 1" for j by auto
  then show ?case using 0 by (subst literal_match.simps) simp
next
  case (Suc n)
  then have rec: "literal_match alike s str my rangeEnd (i + 1) \<longleftrightarrow>
      (\<forall>j. i \<le> j \<and> j < length str \<longrightarrow> alike (s ! (my + j)) (str ! j))"
    by auto
  have "(\<forall>j. i - 1 \<le> j \<and> j < length str \<longrightarrow> Q j) \<longleftrightarrow>
      Q (i - 1) \<and> (\<forall>j. i \<le> j \<and> j < length str \<longrightarrow> Q j)" for Q
  proof -
    have ge: "i - 1 \<le> j \<longleftrightarrow> j = i - 1 \<or> i \<le> j" for j using Suc.prems(1) by arith
    have "i - 1 < length str" using Suc.prems by arith
    then show ?thesis unfolding ge by blast
  qed
  moreover have "i \<noteq> length str" "\<not> rangeEnd \<le> my + i" using Suc.hyps(2) assms by auto
  ultimately show ?case
    using Suc.prems rec by (subst literal_match.simps) simp
qed

lemma literal_match_occurs:
  assumes "my + length str \<le> rangeEnd" "str \<noteq> []"
  shows "literal_match alike s str my rangeEnd 1 \<longleftrightarrow> occurs_at alike s str my"
  using assms by (simp add: literal_match_iff occurs_at_def list_all_iff Suc_le_eq) auto

lemma literal_forward_correct:
  assumes str: "str \<noteq> []" and "myEnd + length str \<le> rangeEnd" "rangeEnd < UINT_SPAN"
  shows "my \<le> myEnd \<Longrightarrow> literal_forward alike s str rangeEnd myEnd my =
    Some (found Min (occurrences alike s str my myEnd) (length str))"
proof (induction "myEnd - my" arbitrary: my)
  case (0 my)
  then have "my = myEnd" by simp
  then show ?case
    using assms literal_match_occurs [of my str rangeEnd]
    by (subst literal_forward.simps) (simp add: occurrences_one found_def)
next
  case (Suc n my)
  have match: "literal_match alike s str my rangeEnd 1 \<longleftrightarrow> occurs_at alike s str my"
    using assms Suc.prems by (intro literal_match_occurs) auto
  show ?case
  proof (cases "occurs_at alike s str my")
    case True
    then show ?thesis
      using match Suc.prems by (subst literal_forward.simps) (simp add: occurrences_first)
  next
    case False
    have my: "my \<noteq> myEnd" "uadd my 1 = my + 1" "my + 1 \<le> myEnd"
      using Suc.hyps(2) assms by (auto simp: bounds_simps)
    then have "literal_forward alike s str rangeEnd myEnd (my + 1) =
        Some (found Min (occurrences alike s str (my + 1) myEnd) (length str))"
      using Suc.hyps by (intro Suc.hyps) auto
    then show ?thesis
      using False match my occurrences_up [OF False]
      by (subst literal_forward.simps) simp
  qed
qed

lemma literal_backward_correct:
  assumes str: "str \<noteq> []" and "rangeEnd < UINT_SPAN"
  shows "myEnd \<le> my \<Longrightarrow> my + length str \<le> rangeEnd \<Longrightarrow> literal_backward alike s str rangeEnd myEnd my =
    Some (found Max (occurrences alike s str myEnd my) (length str))"
proof (induction "my - myEnd" arbitrary: my)
  case (0 my)
  then have "my = myEnd" by simp
  then show ?case
    using assms 0 literal_match_occurs [of my str rangeEnd]
    by (subst literal_backward.simps) (simp add: occurrences_one found_def)
next
  case (Suc n my)
  have match: "literal_match alike s str my rangeEnd 1 \<longleftrightarrow> occurs_at alike s str my"
    using assms Suc.prems by (intro literal_match_occurs) auto
  show ?case
  proof (cases "occurs_at alike s str my")
    case True
    then show ?thesis
      using match Suc.prems by (subst literal_backward.simps) (simp add: occurrences_last)
  next
    case False
    have my: "my \<noteq> myEnd" "usub my 1 = my - 1" "myEnd \<le> my - 1" "myEnd < my"
      using Suc.hyps(2) Suc.prems assms by (auto simp: bounds_simps)
    then have "literal_backward alike s str rangeEnd myEnd (my - 1) =
        Some (found Max (occurrences alike s str myEnd (my - 1)) (length str))"
      using Suc.hyps Suc.prems by (intro Suc.hyps) auto
    then show ?thesis
      using False match my occurrences_down [OF False]
      by (subst literal_backward.simps) simp
  qed
qed

text \<open>C23.
  The literal searches, exact or ignoring case, answer the first place in the range where the
  characters match, backwards the last one, and anchored only the start or the end of the
  range counts; otherwise they answer \<^verbatim>\<open>NSNotFound\<close>.
\<close>

theorem literal_search:
  fixes u :: unicode
  assumes "location r + rlength r \<le> length (content s)" "length (content s) < UINT_SPAN"
    and "content str \<noteq> []" "opts \<in> {2, 3, 6, 7, 10, 11, 14, 15}"
  defines "alike \<equiv> (if has_option opts NSCaseInsensitiveSearch then alike_fold u else (=))"
    and "n \<equiv> length (content str)" and "lo \<equiv> location r"
    and "hi \<equiv> location r + rlength r - length (content str)"
  shows "GSEQ_STRRANGE u s str opts r = Some (Returned (
    if rlength r < n then not_found
    else if has_option opts NSBackwardsSearch
    then found Max (occurrences alike (content s) (content str) (if has_option opts NSAnchoredSearch then hi else lo) hi) n
    else found Min (occurrences alike (content s) (content str) lo (if has_option opts NSAnchoredSearch then lo else hi)) n))"
proof (cases "rlength r < n")
  case True
  then show ?thesis by (simp add: GSEQ_STRRANGE_def n_def)
next
  case False
  have ends: "NSMaxRange r = location r + rlength r" "location r + rlength r < UINT_SPAN"
    using assms(1,2) by (auto intro!: NSMaxRange_ok simp: range_ok_def)
  have hi: "usub (location r + rlength r) (length (content str)) = hi" "hi + length (content str) = location r + rlength r"
    "lo \<le> hi"
    using False ends by (auto simp: hi_def n_def lo_def bounds_simps)
  note forward = literal_forward_correct [OF assms(3), of _ "location r + rlength r"]
    and backward = literal_backward_correct [OF assms(3) ends(2)]
  show ?thesis
    using assms(4) False hi ends(2) assms(3) forward backward
    unfolding GSEQ_STRRANGE_def ends(1)
    by (auto simp: Let_def has_option_def alike_def n_def lo_def)
qed

theorem literal_search_witness:
  "GSEQ_STRRANGE (gs_unicode id id (\<lambda>_. False)) \<lparr>kind = GSEQ_US, content = [97, 98, 97]\<rparr>
     \<lparr>kind = GSEQ_US, content = [97]\<rparr> 6 \<lparr>location = 0, rlength = 3\<rparr> =
   Some (Returned (found Max (occurrences (=) [97, 98, 97] [97] 0 2) 1))"
  using literal_search [of "\<lparr>location = 0, rlength = 3\<rparr>" "\<lparr>kind = GSEQ_US, content = [97, 98, 97]\<rparr>"
      "\<lparr>kind = GSEQ_US, content = [97]\<rparr>" 6 "gs_unicode id id (\<lambda>_. False)"]
  by (simp add: has_option_def)

end
