(* ===== verification/GSeq_Compare.thy ===== *)
theory GSeq_Compare
  imports GSeq_Normal GSeq_Search
begin

text \<open>
  \<^verbatim>\<open>GSEQ_STRCOMP\<close>: comparing a part of a string with another string returns, whatever the kinds
  of the strings and the options, and the literal comparison is the lexicographic one.
\<close>

lemma compare_literal_chars: "compare_literal (\<lambda>c. c) (\<lambda>c. c) as bs = compare_chars as bs"
proof -
  have "(let r = compare_upto (\<lambda>c. c) (\<lambda>c. c) as bs
      in if r \<noteq> NSOrderedSame then r
         else if length as > length bs then NSOrderedDescending
         else if length as < length bs then NSOrderedAscending else NSOrderedSame) = compare_chars as bs"
    by (induction as bs rule: compare_chars.induct) (auto simp: Let_def)
  then show ?thesis by (simp add: compare_literal_def)
qed

lemma compare_chars_empty:
  "as \<noteq> [] \<Longrightarrow> compare_chars as [] = NSOrderedDescending" "bs \<noteq> [] \<Longrightarrow> compare_chars [] bs = NSOrderedAscending"
  by (auto simp: neq_Nil_conv)

lemma GSeq_compare_returns:
  assumes "normalized s \<or> (\<exists>s'. GSeq_normalize u s = Some s')" "normalized t \<or> (\<exists>t'. GSeq_normalize u t = Some t')"
  shows "\<exists>r s' t'. GSeq_compare u s t = Some (r, s', t')"
  using assms by (auto simp: GSeq_compare_def)

lemma normalize_empty: "GSeq_normalize u s = Some s' \<Longrightarrow> normalized s' \<or> chars s = [] \<and> s' = s"
  by (auto simp: GSeq_normalize_def Let_def bind_eq_Some_conv split: if_splits)

text \<open>
  What is not normalised after a comparison is empty, so that comparing again in lower case
  returns too.
\<close>

lemma GSeq_compare_ready:
  assumes "GSeq_compare u s t = Some (r, s', t')" "r \<noteq> NSOrderedSame"
  shows "(normalized s' \<or> chars s' = []) \<and> (normalized t' \<or> chars t' = [])"
  using assms normalize_empty [of u s] normalize_empty [of u t]
  by (auto simp: GSeq_compare_def bind_eq_Some_conv split: if_splits)

lemma normalize_nil: "chars s = [] \<Longrightarrow> GSeq_normalize u s = Some s"
  by (simp add: GSeq_normalize_def)

lemma composed_range_any:
  assumes "i < length s" "length s < UINT_SPAN"
  obtains l n where "rangeOfComposedCharacterSequenceAtIndex u s i = Some \<lparr>location = l, rlength = n\<rparr>"
    "0 < n" "l + n \<le> length s"
proof -
  define l m where "l = composed_start u s i" and "m = length (takeWhile (isnonsp u) (drop (Suc l) s))"
  have l: "l \<le> i" by (simp add: l_def composed_start_def)
  have "m \<le> length s - Suc l"
    using length_takeWhile_le [of "isnonsp u" "drop (Suc l) s"] by (simp add: m_def)
  then have m: "l + Suc m \<le> length s" using l assms(1) by simp
  then have "rangeOfComposedCharacterSequenceAtIndex u s i = Some \<lparr>location = l, rlength = Suc m\<rparr>"
    using assms
    by (simp add: rangeOfComposedCharacterSequenceAtIndex_def l_def [symmetric] m_def [symmetric] Let_def NSMakeRange_iff)
  then show thesis using m by (intro that) auto
qed

lemma GSEQ_RANGE_inside:
  assumes "i < length (content s)" "length (content s) < UINT_SPAN"
  obtains l n buf where "GSEQ_RANGE u s i = Some \<lparr>location = l, rlength = n\<rparr>" "0 < n"
    "GSEQ_GETR s \<lparr>location = l, rlength = n\<rparr> = Some buf"
proof (cases "kind s = GSEQ_CS")
  case True
  then show thesis using assms(1) that [of i 1] by (simp add: GSEQ_RANGE_def GSEQ_GETR_def)
next
  case False
  obtain l n where "rangeOfComposedCharacterSequenceAtIndex u (content s) i = Some \<lparr>location = l, rlength = n\<rparr>"
    "0 < n" "l + n \<le> length (content s)"
    using composed_range_any [OF assms] by blast
  then show thesis using False that [of l n] by (simp add: GSEQ_RANGE_def GSEQ_GETR_def)
qed

context unicode_data
begin

lemma compare_sequences_returns: "\<exists>r. compare_sequences u ci cs ds = Some r"
proof -
  obtain r s t where c: "GSeq_compare u (GSEQ_MAKE cs) (GSEQ_MAKE ds) = Some (r, s, t)"
    using compare_normal_forms [of cs ds] by blast
  have "\<exists>r' s' t'. GSeq_compare u (GSeq_lowercase u s) (GSeq_lowercase u t) = Some (r', s', t')"
    if "r \<noteq> NSOrderedSame"
    using GSeq_compare_ready [OF c that] normalize_nil
    by (intro GSeq_compare_returns) (auto simp: GSeq_lowercase_def)
  then show ?thesis
    using c by (cases "r \<noteq> NSOrderedSame \<and> ci") (auto simp: compare_sequences_def)
qed

lemma strcomp_loop_returns:
  assumes "length (content s) < UINT_SPAN" "length (content str) < UINT_SPAN"
  shows "\<exists>r. strcomp_loop u ci s str stop sCount oCount = Some r"
proof (induction "stop - sCount" arbitrary: sCount oCount rule: less_induct)
  case less
  show ?case
  proof (cases "sCount < stop \<and> oCount < length (content str) \<and> sCount < length (content s)")
    case False
    then show ?thesis by (subst strcomp_loop.simps) auto
  next
    case True
    obtain l n buf where s: "GSEQ_RANGE u s sCount = Some \<lparr>location = l, rlength = n\<rparr>" "0 < n"
      "GSEQ_GETR s \<lparr>location = l, rlength = n\<rparr> = Some buf"
      using True GSEQ_RANGE_inside [OF _ assms(1)] by blast
    obtain l' n' buf' where t: "GSEQ_RANGE u str oCount = Some \<lparr>location = l', rlength = n'\<rparr>"
      "GSEQ_GETR str \<lparr>location = l', rlength = n'\<rparr> = Some buf'"
      using True GSEQ_RANGE_inside [OF _ assms(2)] by blast
    obtain r where "compare_sequences u ci buf buf' = Some r"
      using compare_sequences_returns by blast
    moreover have "\<exists>r. strcomp_loop u ci s str stop (sCount + n) (oCount + n') = Some r"
      using True s(2) by (intro less.hyps) auto
    ultimately show ?thesis
      using True s t by (subst strcomp_loop.simps) (auto simp: not_le)
  qed
qed

lemma strcomp_returns:
  assumes "location r + rlength r \<le> length (content s)" "length (content s) < UINT_SPAN"
    and "length (content str) < UINT_SPAN"
  shows "\<exists>res. GSEQ_STRCOMP u native latin s str opts r = Some res \<and>
    (has_option opts NSLiteralSearch \<and> \<not> has_option opts NSCaseInsensitiveSearch \<longrightarrow>
      res = compare_chars (take (rlength r) (drop (location r) (content s))) (content str))"
proof (cases "rlength r = 0 \<or> content str = [] \<or> has_option opts NSLiteralSearch")
  case True
  have "take (rlength r) (drop (location r) (content s)) \<noteq> []" if "rlength r \<noteq> 0"
    using assms(1) that by auto
  then show ?thesis
    using True assms(1)
    by (auto simp: GSEQ_STRCOMP_def GSEQ_GETR_def compare_literal_chars compare_chars_empty)
next
  case False
  then show ?thesis
    using strcomp_loop_returns [OF assms(2,3)] by (simp add: GSEQ_STRCOMP_def)
qed

end



end
