(* ===== verification/GSeq_Marks.thy ===== *)
theory GSeq_Marks
  imports GSeq_Compare
begin

text \<open>
  The searches by sequences in \<^verbatim>\<open>Source/GSeq.h\<close>: how they end at the end of the string, and what
  becomes of a search for a string of marks only.
\<close>

section \<open>Where sequences start\<close>

definition at_start :: "unicode \<Rightarrow> unichar list \<Rightarrow> nat \<Rightarrow> bool" where
  "at_start u s i \<longleftrightarrow> i = 0 \<or> i = length s \<or> \<not> isnonsp u (s ! i)"

lemma composed_start_at_start: "i < length s \<Longrightarrow> at_start u s i \<Longrightarrow> composed_start u s i = i"
proof -
  assume i: "i < length s" and at: "at_start u s i"
  have "takeWhile (isnonsp u) (rev (tl (take (i + 1) s))) = []"
  proof (cases i)
    case 0
    then show ?thesis by (cases s) auto
  next
    case (Suc k)
    then have "tl (take (i + 1) s) = tl (take i s) @ [s ! i]"
      using i by (cases s) (auto simp: take_Suc_conv_app_nth)
    then show ?thesis using at i Suc by (simp add: at_start_def)
  qed
  then show ?thesis by (simp add: composed_start_def)
qed

lemma composed_range:
  assumes "i < length s" "at_start u s i" "length s < UINT_SPAN"
  obtains n where "rangeOfComposedCharacterSequenceAtIndex u s i = Some \<lparr>location = i, rlength = n\<rparr>"
    "0 < n" "i + n \<le> length s" "at_start u s (i + n)"
proof -
  define m where "m = length (takeWhile (isnonsp u) (drop (i + 1) s))"
  have m: "m \<le> length s - (i + 1)"
    using length_takeWhile_le [of "isnonsp u" "drop (i + 1) s"] by (simp add: m_def)
  have "rangeOfComposedCharacterSequenceAtIndex u s i = Some \<lparr>location = i, rlength = 1 + m\<rparr>"
    using assms m composed_start_at_start [OF assms(1,2)]
    by (simp add: rangeOfComposedCharacterSequenceAtIndex_def m_def [symmetric, simplified] Let_def NSMakeRange_iff)
  moreover have "at_start u s (i + (1 + m))"
  proof (cases "i + (1 + m) = length s")
    case False
    then have "m < length (drop (i + 1) s)" using m assms(1) by simp
    then have "\<not> isnonsp u (drop (i + 1) s ! m)"
      unfolding m_def by (rule nth_length_takeWhile)
    then show ?thesis using assms(1) by (simp add: at_start_def add.assoc)
  qed (simp add: at_start_def)
  ultimately show thesis
    using m assms(1) by (intro that [of "1 + m"]) auto
qed

lemma GSEQ_RANGE_end: "kind s \<noteq> GSEQ_CS \<Longrightarrow> GSEQ_RANGE u s (length (content s)) = None"
  by (simp add: GSEQ_RANGE_def rangeOfComposedCharacterSequenceAtIndex_def)

lemma baseLength_marks: "kind str \<noteq> GSEQ_CS \<Longrightarrow> list_all (isnonsp u) (content str) \<Longrightarrow> baseLength u str = 0"
  by (auto simp: baseLength_def list_all_iff)

section \<open>The searches answer\<close>

text \<open>A sequence that can be compared, also after it has been normalised.\<close>

definition ready :: "unicode \<Rightarrow> GSeqStruct \<Rightarrow> bool" where
  "ready u q \<longleftrightarrow> normalized q \<or> (\<exists>q'. GSeq_normalize u q = Some q')"

lemma GSeq_compare_keeps_ready:
  assumes "ready u s" "ready u t"
  obtains r s' t' where "GSeq_compare u s t = Some (r, s', t')" "ready u s'"
proof -
  have norm: "ready u q'" if "GSeq_normalize u q = Some q'" for q q'
    using normalize_empty [OF that] normalize_nil [of q] by (auto simp: ready_def)
  obtain r s' t' where c: "GSeq_compare u s t = Some (r, s', t')"
    using GSeq_compare_returns [of s u t] assms by (auto simp: ready_def)
  then have "s' = s \<or> GSeq_normalize u s = Some s'"
    by (auto simp: GSeq_compare_def bind_eq_Some_conv split: if_splits)
  then show thesis using that [OF c] norm assms(1) by blast
qed

lemma lowercase_make: "GSeq_lowercase u (GSEQ_MAKE cs) = GSEQ_MAKE (map (tolower u) cs)"
  by (simp add: GSeq_lowercase_def GSEQ_MAKE_def)

context unicode_data
begin

lemma ready_make: "ready u (GSEQ_MAKE cs)" "ready u (GSeq_lowercase u (GSEQ_MAKE cs))"
  using normalize_some by (auto simp: ready_def lowercase_make)

lemma sequence_match_returns:
  assumes "stop \<le> length (content s)" "length (content s) < UINT_SPAN" "length (content str) < UINT_SPAN"
  shows "\<exists>m. sequence_match u ci s str stop my myCount strCount = Some (Returned m)"
proof (induction "stop - (my + myCount)" arbitrary: myCount strCount rule: less_induct)
  case less
  show ?case
  proof (cases "strCount < length (content str) \<and> my + myCount < stop")
    case False
    then show ?thesis by (subst sequence_match.simps) auto
  next
    case True
    have inside: "my + myCount < length (content s)" using True assms(1) by simp
    obtain l n buf where s: "GSEQ_RANGE u s (my + myCount) = Some \<lparr>location = l, rlength = n\<rparr>" "0 < n"
      "GSEQ_GETR s \<lparr>location = l, rlength = n\<rparr> = Some buf"
      using GSEQ_RANGE_inside [OF _ assms(2)] inside by blast
    obtain l' n' buf' where t: "GSEQ_RANGE u str strCount = Some \<lparr>location = l', rlength = n'\<rparr>"
      "GSEQ_GETR str \<lparr>location = l', rlength = n'\<rparr> = Some buf'"
      using True GSEQ_RANGE_inside [OF _ assms(3)] by blast
    obtain r where "compare_sequences u ci buf buf' = Some r"
      using compare_sequences_returns by blast
    moreover have "\<exists>m. sequence_match u ci s str stop my (myCount + n) (strCount + n') = Some (Returned m)"
      using True s(2) by (intro less.hyps) auto
    ultimately show ?thesis
      using True s t by (subst sequence_match.simps) (auto simp: not_le)
  qed
qed

lemma match_at_returns:
  assumes "stop \<le> length (content s)" "length (content s) < UINT_SPAN" "length (content str) < UINT_SPAN"
    and "GSEQ_GETR s sRange = Some buf" "ready u iSeq"
  obtains m iSeq' where "match_at u ci s str stop iRange iSeq my sRange = Some (Returned (m, iSeq'))" "ready u iSeq'"
proof -
  obtain r q q' where c: "GSeq_compare u iSeq (if ci then GSeq_lowercase u (GSEQ_MAKE buf) else GSEQ_MAKE buf) =
      Some (r, q, q')" "ready u q"
    using GSeq_compare_keeps_ready [OF assms(5)] ready_make [of buf] by (metis (full_types))
  obtain m where "sequence_match u ci s str stop my (rlength sRange) (rlength iRange) = Some (Returned m)"
    using sequence_match_returns [OF assms(1-3)] by blast
  then show thesis
    using c assms(4) that [of "if r = NSOrderedSame then m else None" q]
    by (simp add: match_at_def Let_def cong: if_cong split: if_splits)
qed

text \<open>
  A forward search that may go on at the end of the string answers a place where there is a
  match or raises the exception there.
\<close>

lemma sequence_forward_to_end:
  assumes "kind s \<noteq> GSEQ_CS" "length (content s) \<le> NSNotFound" "length (content str) < UINT_SPAN"
  shows "my \<le> length (content s) \<Longrightarrow> at_start u (content s) my \<Longrightarrow> ready u iSeq \<Longrightarrow>
    sequence_forward u ci s str (length (content s)) iRange (length (content s)) iSeq my = Some NSRangeException \<or>
    (\<exists>p n. sequence_forward u ci s str (length (content s)) iRange (length (content s)) iSeq my =
        Some (Returned \<lparr>location = p, rlength = n\<rparr>) \<and> my \<le> p \<and> p < length (content s))"
proof (induction "length (content s) - my" arbitrary: my iSeq rule: less_induct)
  case less
  let ?L = "length (content s)"
  have L: "?L < UINT_SPAN" using assms(2) by simp
  show ?case
  proof (cases "my = ?L")
    case True
    then show ?thesis
      using GSEQ_RANGE_end [OF assms(1)] by (subst sequence_forward.simps) simp
  next
    case False
    then obtain n where n: "GSEQ_RANGE u s my = Some \<lparr>location = my, rlength = n\<rparr>" "0 < n"
      "my + n \<le> ?L" "at_start u (content s) (my + n)"
      using composed_range [of my "content s" u] less.prems assms by (auto simp: GSEQ_RANGE_def)
    then obtain buf where "GSEQ_GETR s \<lparr>location = my, rlength = n\<rparr> = Some buf" by (simp add: GSEQ_GETR_def)
    then obtain m iSeq' where m: "match_at u ci s str ?L iRange iSeq my \<lparr>location = my, rlength = n\<rparr> =
        Some (Returned (m, iSeq'))" "ready u iSeq'"
      using match_at_returns [OF _ L assms(3) _ less.prems(3)] by blast
    have step: "uadd my n = my + n" using n(3) assms(2) by (simp add: bounds_simps)
    have "?L - (my + n) < ?L - my" using n(2,3) by simp
    note rec = less.hyps [OF this n(3,4) m(2)]
    show ?thesis
    proof (cases m)
      case None
      then show ?thesis
        using rec n(1-3) m(1) step by (subst (1 2) sequence_forward.simps) auto
    next
      case (Some k)
      have "my < ?L" using False less.prems(1) by simp
      then show ?thesis
        using Some n(1) m(1) by (subst (1 2) sequence_forward.simps) auto
    qed
  qed
qed

lemma marks_search:
  assumes "kind s \<noteq> GSEQ_CS" "kind str \<noteq> GSEQ_CS" "length (content s) \<le> NSNotFound"
    and "content str \<noteq> []" "list_all (isnonsp u) (content str)"
    and "location r + rlength r = length (content s)" "length (content str) \<le> rlength r"
  shows "opts = 4 \<or> opts = 5 \<Longrightarrow> GSEQ_STRRANGE u s str opts r = Some NSRangeException"
    and "opts = 0 \<or> opts = 1 \<Longrightarrow> at_start u (content s) (location r) \<Longrightarrow>
      GSEQ_STRRANGE u s str opts r = Some NSRangeException \<or>
      (\<exists>p n. GSEQ_STRRANGE u s str opts r = Some (Returned \<lparr>location = p, rlength = n\<rparr>) \<and>
        location r \<le> p \<and> p < length (content s))"
proof -
  let ?n = "length (content s)"
  have len: "?n < UINT_SPAN" "length (content str) < UINT_SPAN" using assms(3,6,7) by simp_all
  obtain n where n: "GSEQ_RANGE u str 0 = Some \<lparr>location = 0, rlength = n\<rparr>" "0 < n" "n \<le> length (content str)"
    using composed_range [of 0 "content str" u] assms(2,4) len by (auto simp: GSEQ_RANGE_def at_start_def)
  have ends: "NSMaxRange r = ?n" "usub ?n 0 = ?n"
    using len assms(6) by (simp_all add: NSMaxRange_def bounds_simps)
  have start: "\<not> rlength r < length (content str)" "baseLength u str = 0" "content str \<noteq> []"
    using assms(4,7) baseLength_marks [OF assms(2,5)] by simp_all
  have "sequence_backward u ci s str ?n \<lparr>location = 0, rlength = n\<rparr> e iSeq ?n = Some NSRangeException" for ci iSeq e
    using GSEQ_RANGE_end [OF assms(1)] by (subst sequence_backward.simps) simp
  then show "opts = 4 \<or> opts = 5 \<Longrightarrow> GSEQ_STRRANGE u s str opts r = Some NSRangeException"
    using n ends start by (auto simp: GSEQ_STRRANGE_def Let_def has_option_def GSEQ_GETR_def)
  assume opts: "opts = 0 \<or> opts = 1" and at: "at_start u (content s) (location r)"
  note forward = sequence_forward_to_end [OF assms(1,3) len(2) _ at, of _ "opts = 1" "\<lparr>location = 0, rlength = n\<rparr>"]
  show "GSEQ_STRRANGE u s str opts r = Some NSRangeException \<or>
      (\<exists>p n. GSEQ_STRRANGE u s str opts r = Some (Returned \<lparr>location = p, rlength = n\<rparr>) \<and>
        location r \<le> p \<and> p < length (content s))"
    using opts forward [OF _ ready_make(1) [of "take n (content str)"]]
      forward [OF _ ready_make(2) [of "take n (content str)"]] n ends start assms(6)
    by (auto simp: GSEQ_STRRANGE_def Let_def has_option_def GSEQ_GETR_def)
qed

end



end
