(* ===== verification/Case_Tables.thy ===== *)
theory Case_Tables
  imports Unicode_Tables
begin

text \<open>
  The case tables of \<^verbatim>\<open>Source/Additions/unicode/caseconv.h\<close> and the functions of
  \<^verbatim>\<open>Source/Additions/Unicode.m\<close> that read them. Each table has 256 entries, given in two halves:
  for a page of characters the mapping of each, 0 for none, and for each page its table.
\<close>

section \<open>Tables\<close>

definition gs_casemap_empty_table_a :: "unichar list" where
  "gs_casemap_empty_table_a = replicate 128 0"

definition gs_casemap_empty_table_b :: "unichar list" where
  "gs_casemap_empty_table_b = replicate 128 0"

definition gs_casemap_empty_table :: "unichar list" where
  "gs_casemap_empty_table = gs_casemap_empty_table_a @ gs_casemap_empty_table_b"

definition gs_tolower_map_table_0_a :: "unichar list" where
  "gs_tolower_map_table_0_a = [
    0, 0, 0, 0, 0, 0, 0, 0, 0, 0, 0, 0,
    0, 0, 0, 0, 0, 0, 0, 0, 0, 0, 0, 0,
    0, 0, 0, 0, 0, 0, 0, 0, 0, 0, 0, 0,
    0, 0, 0, 0, 0, 0, 0, 0, 0, 0, 0, 0,
    0, 0, 0, 0, 0, 0, 0, 0, 0, 0, 0, 0,
    0, 0, 0, 0, 0, 0x0061, 0x0062, 0x0063, 0x0064, 0x0065, 0x0066, 0x0067,
    0x0068, 0x0069, 0x006A, 0x006B, 0x006C, 0x006D, 0x006E, 0x006F, 0x0070, 0x0071, 0x0072, 0x0073,
    0x0074, 0x0075, 0x0076, 0x0077, 0x0078, 0x0079, 0x007A, 0, 0, 0, 0, 0,
    0, 0, 0, 0, 0, 0, 0, 0, 0, 0, 0, 0,
    0, 0, 0, 0, 0, 0, 0, 0, 0, 0, 0, 0,
    0, 0, 0, 0, 0, 0, 0, 0]"

definition gs_tolower_map_table_0_b :: "unichar list" where
  "gs_tolower_map_table_0_b = [
    0, 0, 0, 0, 0, 0, 0, 0, 0, 0, 0, 0,
    0, 0, 0, 0, 0, 0, 0, 0, 0, 0, 0, 0,
    0, 0, 0, 0, 0, 0, 0, 0, 0, 0, 0, 0,
    0, 0, 0, 0, 0, 0, 0, 0, 0, 0, 0, 0,
    0, 0, 0, 0, 0, 0, 0, 0, 0, 0, 0, 0,
    0, 0, 0, 0, 0x00E0, 0x00E1, 0x00E2, 0x00E3, 0x00E4, 0x00E5, 0x00E6, 0x00E7,
    0x00E8, 0x00E9, 0x00EA, 0x00EB, 0x00EC, 0x00ED, 0x00EE, 0x00EF, 0x00F0, 0x00F1, 0x00F2, 0x00F3,
    0x00F4, 0x00F5, 0x00F6, 0, 0x00F8, 0x00F9, 0x00FA, 0x00FB, 0x00FC, 0x00FD, 0x00FE, 0,
    0, 0, 0, 0, 0, 0, 0, 0, 0, 0, 0, 0,
    0, 0, 0, 0, 0, 0, 0, 0, 0, 0, 0, 0,
    0, 0, 0, 0, 0, 0, 0, 0]"

definition gs_tolower_map_table_0 :: "unichar list" where
  "gs_tolower_map_table_0 = gs_tolower_map_table_0_a @ gs_tolower_map_table_0_b"

definition gs_tolower_map_table_1_a :: "unichar list" where
  "gs_tolower_map_table_1_a = [
    0x0101, 0, 0x0103, 0, 0x0105, 0, 0x0107, 0, 0x0109, 0, 0x010B, 0,
    0x010D, 0, 0x010F, 0, 0x0111, 0, 0x0113, 0, 0x0115, 0, 0x0117, 0,
    0x0119, 0, 0x011B, 0, 0x011D, 0, 0x011F, 0, 0x0121, 0, 0x0123, 0,
    0x0125, 0, 0x0127, 0, 0x0129, 0, 0x012B, 0, 0x012D, 0, 0x012F, 0,
    0x0069, 0, 0x0133, 0, 0x0135, 0, 0x0137, 0, 0, 0x013A, 0, 0x013C,
    0, 0x013E, 0, 0x0140, 0, 0x0142, 0, 0x0144, 0, 0x0146, 0, 0x0148,
    0, 0, 0x014B, 0, 0x014D, 0, 0x014F, 0, 0x0151, 0, 0x0153, 0,
    0x0155, 0, 0x0157, 0, 0x0159, 0, 0x015B, 0, 0x015D, 0, 0x015F, 0,
    0x0161, 0, 0x0163, 0, 0x0165, 0, 0x0167, 0, 0x0169, 0, 0x016B, 0,
    0x016D, 0, 0x016F, 0, 0x0171, 0, 0x0173, 0, 0x0175, 0, 0x0177, 0,
    0x00FF, 0x017A, 0, 0x017C, 0, 0x017E, 0, 0]"

definition gs_tolower_map_table_1_b :: "unichar list" where
  "gs_tolower_map_table_1_b = [
    0, 0x0253, 0x0183, 0, 0x0185, 0, 0x0254, 0x0188, 0, 0x0256, 0x0257, 0x018C,
    0, 0, 0x01DD, 0x0259, 0x025B, 0x0192, 0, 0x0260, 0x0263, 0, 0x0269, 0x0268,
    0x0199, 0, 0, 0, 0x026F, 0x0272, 0, 0x0275, 0x01A1, 0, 0x01A3, 0,
    0x01A5, 0, 0x0280, 0x01A8, 0, 0x0283, 0, 0, 0x01AD, 0, 0x0288, 0x01B0,
    0, 0x028A, 0x028B, 0x01B4, 0, 0x01B6, 0, 0x0292, 0x01B9, 0, 0, 0,
    0x01BD, 0, 0, 0, 0, 0, 0, 0, 0x01C6, 0x01C6, 0, 0x01C9,
    0x01C9, 0, 0x01CC, 0x01CC, 0, 0x01CE, 0, 0x01D0, 0, 0x01D2, 0, 0x01D4,
    0, 0x01D6, 0, 0x01D8, 0, 0x01DA, 0, 0x01DC, 0, 0, 0x01DF, 0,
    0x01E1, 0, 0x01E3, 0, 0x01E5, 0, 0x01E7, 0, 0x01E9, 0, 0x01EB, 0,
    0x01ED, 0, 0x01EF, 0, 0, 0x01F3, 0x01F3, 0, 0x01F5, 0, 0x0195, 0x01BF,
    0x01F9, 0, 0x01FB, 0, 0x01FD, 0, 0x01FF, 0]"

definition gs_tolower_map_table_1 :: "unichar list" where
  "gs_tolower_map_table_1 = gs_tolower_map_table_1_a @ gs_tolower_map_table_1_b"

definition gs_tolower_map_table_2_a :: "unichar list" where
  "gs_tolower_map_table_2_a = [
    0x0201, 0, 0x0203, 0, 0x0205, 0, 0x0207, 0, 0x0209, 0, 0x020B, 0,
    0x020D, 0, 0x020F, 0, 0x0211, 0, 0x0213, 0, 0x0215, 0, 0x0217, 0,
    0x0219, 0, 0x021B, 0, 0x021D, 0, 0x021F, 0, 0, 0, 0x0223, 0,
    0x0225, 0, 0x0227, 0, 0x0229, 0, 0x022B, 0, 0x022D, 0, 0x022F, 0,
    0x0231, 0, 0x0233, 0, 0, 0, 0, 0, 0, 0, 0, 0,
    0, 0, 0, 0, 0, 0, 0, 0, 0, 0, 0, 0,
    0, 0, 0, 0, 0, 0, 0, 0, 0, 0, 0, 0,
    0, 0, 0, 0, 0, 0, 0, 0, 0, 0, 0, 0,
    0, 0, 0, 0, 0, 0, 0, 0, 0, 0, 0, 0,
    0, 0, 0, 0, 0, 0, 0, 0, 0, 0, 0, 0,
    0, 0, 0, 0, 0, 0, 0, 0]"

definition gs_tolower_map_table_2_b :: "unichar list" where
  "gs_tolower_map_table_2_b = [
    0, 0, 0, 0, 0, 0, 0, 0, 0, 0, 0, 0,
    0, 0, 0, 0, 0, 0, 0, 0, 0, 0, 0, 0,
    0, 0, 0, 0, 0, 0, 0, 0, 0, 0, 0, 0,
    0, 0, 0, 0, 0, 0, 0, 0, 0, 0, 0, 0,
    0, 0, 0, 0, 0, 0, 0, 0, 0, 0, 0, 0,
    0, 0, 0, 0, 0, 0, 0, 0, 0, 0, 0, 0,
    0, 0, 0, 0, 0, 0, 0, 0, 0, 0, 0, 0,
    0, 0, 0, 0, 0, 0, 0, 0, 0, 0, 0, 0,
    0, 0, 0, 0, 0, 0, 0, 0, 0, 0, 0, 0,
    0, 0, 0, 0, 0, 0, 0, 0, 0, 0, 0, 0,
    0, 0, 0, 0, 0, 0, 0, 0]"

definition gs_tolower_map_table_2 :: "unichar list" where
  "gs_tolower_map_table_2 = gs_tolower_map_table_2_a @ gs_tolower_map_table_2_b"

definition gs_tolower_map_table_3_a :: "unichar list" where
  "gs_tolower_map_table_3_a = [
    0, 0, 0, 0, 0, 0, 0, 0, 0, 0, 0, 0,
    0, 0, 0, 0, 0, 0, 0, 0, 0, 0, 0, 0,
    0, 0, 0, 0, 0, 0, 0, 0, 0, 0, 0, 0,
    0, 0, 0, 0, 0, 0, 0, 0, 0, 0, 0, 0,
    0, 0, 0, 0, 0, 0, 0, 0, 0, 0, 0, 0,
    0, 0, 0, 0, 0, 0, 0, 0, 0, 0, 0, 0,
    0, 0, 0, 0, 0, 0, 0, 0, 0, 0, 0, 0,
    0, 0, 0, 0, 0, 0, 0, 0, 0, 0, 0, 0,
    0, 0, 0, 0, 0, 0, 0, 0, 0, 0, 0, 0,
    0, 0, 0, 0, 0, 0, 0, 0, 0, 0, 0, 0,
    0, 0, 0, 0, 0, 0, 0, 0]"

definition gs_tolower_map_table_3_b :: "unichar list" where
  "gs_tolower_map_table_3_b = [
    0, 0, 0, 0, 0, 0, 0x03AC, 0, 0x03AD, 0x03AE, 0x03AF, 0,
    0x03CC, 0, 0x03CD, 0x03CE, 0, 0x03B1, 0x03B2, 0x03B3, 0x03B4, 0x03B5, 0x03B6, 0x03B7,
    0x03B8, 0x03B9, 0x03BA, 0x03BB, 0x03BC, 0x03BD, 0x03BE, 0x03BF, 0x03C0, 0x03C1, 0, 0x03C3,
    0x03C4, 0x03C5, 0x03C6, 0x03C7, 0x03C8, 0x03C9, 0x03CA, 0x03CB, 0, 0, 0, 0,
    0, 0, 0, 0, 0, 0, 0, 0, 0, 0, 0, 0,
    0, 0, 0, 0, 0, 0, 0, 0, 0, 0, 0, 0,
    0, 0, 0, 0, 0, 0, 0, 0, 0, 0, 0, 0,
    0, 0, 0, 0, 0, 0, 0x03DB, 0, 0x03DD, 0, 0x03DF, 0,
    0x03E1, 0, 0x03E3, 0, 0x03E5, 0, 0x03E7, 0, 0x03E9, 0, 0x03EB, 0,
    0x03ED, 0, 0x03EF, 0, 0, 0, 0, 0, 0, 0, 0, 0,
    0, 0, 0, 0, 0, 0, 0, 0]"

definition gs_tolower_map_table_3 :: "unichar list" where
  "gs_tolower_map_table_3 = gs_tolower_map_table_3_a @ gs_tolower_map_table_3_b"

definition gs_tolower_map_table_4_a :: "unichar list" where
  "gs_tolower_map_table_4_a = [
    0x0450, 0x0451, 0x0452, 0x0453, 0x0454, 0x0455, 0x0456, 0x0457, 0x0458, 0x0459, 0x045A, 0x045B,
    0x045C, 0x045D, 0x045E, 0x045F, 0x0430, 0x0431, 0x0432, 0x0433, 0x0434, 0x0435, 0x0436, 0x0437,
    0x0438, 0x0439, 0x043A, 0x043B, 0x043C, 0x043D, 0x043E, 0x043F, 0x0440, 0x0441, 0x0442, 0x0443,
    0x0444, 0x0445, 0x0446, 0x0447, 0x0448, 0x0449, 0x044A, 0x044B, 0x044C, 0x044D, 0x044E, 0x044F,
    0, 0, 0, 0, 0, 0, 0, 0, 0, 0, 0, 0,
    0, 0, 0, 0, 0, 0, 0, 0, 0, 0, 0, 0,
    0, 0, 0, 0, 0, 0, 0, 0, 0, 0, 0, 0,
    0, 0, 0, 0, 0, 0, 0, 0, 0, 0, 0, 0,
    0x0461, 0, 0x0463, 0, 0x0465, 0, 0x0467, 0, 0x0469, 0, 0x046B, 0,
    0x046D, 0, 0x046F, 0, 0x0471, 0, 0x0473, 0, 0x0475, 0, 0x0477, 0,
    0x0479, 0, 0x047B, 0, 0x047D, 0, 0x047F, 0]"

definition gs_tolower_map_table_4_b :: "unichar list" where
  "gs_tolower_map_table_4_b = [
    0x0481, 0, 0, 0, 0, 0, 0, 0, 0, 0, 0, 0,
    0x048D, 0, 0x048F, 0, 0x0491, 0, 0x0493, 0, 0x0495, 0, 0x0497, 0,
    0x0499, 0, 0x049B, 0, 0x049D, 0, 0x049F, 0, 0x04A1, 0, 0x04A3, 0,
    0x04A5, 0, 0x04A7, 0, 0x04A9, 0, 0x04AB, 0, 0x04AD, 0, 0x04AF, 0,
    0x04B1, 0, 0x04B3, 0, 0x04B5, 0, 0x04B7, 0, 0x04B9, 0, 0x04BB, 0,
    0x04BD, 0, 0x04BF, 0, 0, 0x04C2, 0, 0x04C4, 0, 0, 0, 0x04C8,
    0, 0, 0, 0x04CC, 0, 0, 0, 0, 0x04D1, 0, 0x04D3, 0,
    0x04D5, 0, 0x04D7, 0, 0x04D9, 0, 0x04DB, 0, 0x04DD, 0, 0x04DF, 0,
    0x04E1, 0, 0x04E3, 0, 0x04E5, 0, 0x04E7, 0, 0x04E9, 0, 0x04EB, 0,
    0x04ED, 0, 0x04EF, 0, 0x04F1, 0, 0x04F3, 0, 0x04F5, 0, 0, 0,
    0x04F9, 0, 0, 0, 0, 0, 0, 0]"

definition gs_tolower_map_table_4 :: "unichar list" where
  "gs_tolower_map_table_4 = gs_tolower_map_table_4_a @ gs_tolower_map_table_4_b"

definition gs_tolower_map_table_5_a :: "unichar list" where
  "gs_tolower_map_table_5_a = [
    0, 0, 0, 0, 0, 0, 0, 0, 0, 0, 0, 0,
    0, 0, 0, 0, 0, 0, 0, 0, 0, 0, 0, 0,
    0, 0, 0, 0, 0, 0, 0, 0, 0, 0, 0, 0,
    0, 0, 0, 0, 0, 0, 0, 0, 0, 0, 0, 0,
    0, 0x0561, 0x0562, 0x0563, 0x0564, 0x0565, 0x0566, 0x0567, 0x0568, 0x0569, 0x056A, 0x056B,
    0x056C, 0x056D, 0x056E, 0x056F, 0x0570, 0x0571, 0x0572, 0x0573, 0x0574, 0x0575, 0x0576, 0x0577,
    0x0578, 0x0579, 0x057A, 0x057B, 0x057C, 0x057D, 0x057E, 0x057F, 0x0580, 0x0581, 0x0582, 0x0583,
    0x0584, 0x0585, 0x0586, 0, 0, 0, 0, 0, 0, 0, 0, 0,
    0, 0, 0, 0, 0, 0, 0, 0, 0, 0, 0, 0,
    0, 0, 0, 0, 0, 0, 0, 0, 0, 0, 0, 0,
    0, 0, 0, 0, 0, 0, 0, 0]"

definition gs_tolower_map_table_5_b :: "unichar list" where
  "gs_tolower_map_table_5_b = [
    0, 0, 0, 0, 0, 0, 0, 0, 0, 0, 0, 0,
    0, 0, 0, 0, 0, 0, 0, 0, 0, 0, 0, 0,
    0, 0, 0, 0, 0, 0, 0, 0, 0, 0, 0, 0,
    0, 0, 0, 0, 0, 0, 0, 0, 0, 0, 0, 0,
    0, 0, 0, 0, 0, 0, 0, 0, 0, 0, 0, 0,
    0, 0, 0, 0, 0, 0, 0, 0, 0, 0, 0, 0,
    0, 0, 0, 0, 0, 0, 0, 0, 0, 0, 0, 0,
    0, 0, 0, 0, 0, 0, 0, 0, 0, 0, 0, 0,
    0, 0, 0, 0, 0, 0, 0, 0, 0, 0, 0, 0,
    0, 0, 0, 0, 0, 0, 0, 0, 0, 0, 0, 0,
    0, 0, 0, 0, 0, 0, 0, 0]"

definition gs_tolower_map_table_5 :: "unichar list" where
  "gs_tolower_map_table_5 = gs_tolower_map_table_5_a @ gs_tolower_map_table_5_b"

definition gs_tolower_map_table_1e_a :: "unichar list" where
  "gs_tolower_map_table_1e_a = [
    0x1E01, 0, 0x1E03, 0, 0x1E05, 0, 0x1E07, 0, 0x1E09, 0, 0x1E0B, 0,
    0x1E0D, 0, 0x1E0F, 0, 0x1E11, 0, 0x1E13, 0, 0x1E15, 0, 0x1E17, 0,
    0x1E19, 0, 0x1E1B, 0, 0x1E1D, 0, 0x1E1F, 0, 0x1E21, 0, 0x1E23, 0,
    0x1E25, 0, 0x1E27, 0, 0x1E29, 0, 0x1E2B, 0, 0x1E2D, 0, 0x1E2F, 0,
    0x1E31, 0, 0x1E33, 0, 0x1E35, 0, 0x1E37, 0, 0x1E39, 0, 0x1E3B, 0,
    0x1E3D, 0, 0x1E3F, 0, 0x1E41, 0, 0x1E43, 0, 0x1E45, 0, 0x1E47, 0,
    0x1E49, 0, 0x1E4B, 0, 0x1E4D, 0, 0x1E4F, 0, 0x1E51, 0, 0x1E53, 0,
    0x1E55, 0, 0x1E57, 0, 0x1E59, 0, 0x1E5B, 0, 0x1E5D, 0, 0x1E5F, 0,
    0x1E61, 0, 0x1E63, 0, 0x1E65, 0, 0x1E67, 0, 0x1E69, 0, 0x1E6B, 0,
    0x1E6D, 0, 0x1E6F, 0, 0x1E71, 0, 0x1E73, 0, 0x1E75, 0, 0x1E77, 0,
    0x1E79, 0, 0x1E7B, 0, 0x1E7D, 0, 0x1E7F, 0]"

definition gs_tolower_map_table_1e_b :: "unichar list" where
  "gs_tolower_map_table_1e_b = [
    0x1E81, 0, 0x1E83, 0, 0x1E85, 0, 0x1E87, 0, 0x1E89, 0, 0x1E8B, 0,
    0x1E8D, 0, 0x1E8F, 0, 0x1E91, 0, 0x1E93, 0, 0x1E95, 0, 0, 0,
    0, 0, 0, 0, 0, 0, 0, 0, 0x1EA1, 0, 0x1EA3, 0,
    0x1EA5, 0, 0x1EA7, 0, 0x1EA9, 0, 0x1EAB, 0, 0x1EAD, 0, 0x1EAF, 0,
    0x1EB1, 0, 0x1EB3, 0, 0x1EB5, 0, 0x1EB7, 0, 0x1EB9, 0, 0x1EBB, 0,
    0x1EBD, 0, 0x1EBF, 0, 0x1EC1, 0, 0x1EC3, 0, 0x1EC5, 0, 0x1EC7, 0,
    0x1EC9, 0, 0x1ECB, 0, 0x1ECD, 0, 0x1ECF, 0, 0x1ED1, 0, 0x1ED3, 0,
    0x1ED5, 0, 0x1ED7, 0, 0x1ED9, 0, 0x1EDB, 0, 0x1EDD, 0, 0x1EDF, 0,
    0x1EE1, 0, 0x1EE3, 0, 0x1EE5, 0, 0x1EE7, 0, 0x1EE9, 0, 0x1EEB, 0,
    0x1EED, 0, 0x1EEF, 0, 0x1EF1, 0, 0x1EF3, 0, 0x1EF5, 0, 0x1EF7, 0,
    0x1EF9, 0, 0, 0, 0, 0, 0, 0]"

definition gs_tolower_map_table_1e :: "unichar list" where
  "gs_tolower_map_table_1e = gs_tolower_map_table_1e_a @ gs_tolower_map_table_1e_b"

definition gs_tolower_map_table_1f_a :: "unichar list" where
  "gs_tolower_map_table_1f_a = [
    0, 0, 0, 0, 0, 0, 0, 0, 0x1F00, 0x1F01, 0x1F02, 0x1F03,
    0x1F04, 0x1F05, 0x1F06, 0x1F07, 0, 0, 0, 0, 0, 0, 0, 0,
    0x1F10, 0x1F11, 0x1F12, 0x1F13, 0x1F14, 0x1F15, 0, 0, 0, 0, 0, 0,
    0, 0, 0, 0, 0x1F20, 0x1F21, 0x1F22, 0x1F23, 0x1F24, 0x1F25, 0x1F26, 0x1F27,
    0, 0, 0, 0, 0, 0, 0, 0, 0x1F30, 0x1F31, 0x1F32, 0x1F33,
    0x1F34, 0x1F35, 0x1F36, 0x1F37, 0, 0, 0, 0, 0, 0, 0, 0,
    0x1F40, 0x1F41, 0x1F42, 0x1F43, 0x1F44, 0x1F45, 0, 0, 0, 0, 0, 0,
    0, 0, 0, 0, 0, 0x1F51, 0, 0x1F53, 0, 0x1F55, 0, 0x1F57,
    0, 0, 0, 0, 0, 0, 0, 0, 0x1F60, 0x1F61, 0x1F62, 0x1F63,
    0x1F64, 0x1F65, 0x1F66, 0x1F67, 0, 0, 0, 0, 0, 0, 0, 0,
    0, 0, 0, 0, 0, 0, 0, 0]"

definition gs_tolower_map_table_1f_b :: "unichar list" where
  "gs_tolower_map_table_1f_b = [
    0, 0, 0, 0, 0, 0, 0, 0, 0x1F80, 0x1F81, 0x1F82, 0x1F83,
    0x1F84, 0x1F85, 0x1F86, 0x1F87, 0, 0, 0, 0, 0, 0, 0, 0,
    0x1F90, 0x1F91, 0x1F92, 0x1F93, 0x1F94, 0x1F95, 0x1F96, 0x1F97, 0, 0, 0, 0,
    0, 0, 0, 0, 0x1FA0, 0x1FA1, 0x1FA2, 0x1FA3, 0x1FA4, 0x1FA5, 0x1FA6, 0x1FA7,
    0, 0, 0, 0, 0, 0, 0, 0, 0x1FB0, 0x1FB1, 0x1F70, 0x1F71,
    0x1FB3, 0, 0, 0, 0, 0, 0, 0, 0, 0, 0, 0,
    0x1F72, 0x1F73, 0x1F74, 0x1F75, 0x1FC3, 0, 0, 0, 0, 0, 0, 0,
    0, 0, 0, 0, 0x1FD0, 0x1FD1, 0x1F76, 0x1F77, 0, 0, 0, 0,
    0, 0, 0, 0, 0, 0, 0, 0, 0x1FE0, 0x1FE1, 0x1F7A, 0x1F7B,
    0x1FE5, 0, 0, 0, 0, 0, 0, 0, 0, 0, 0, 0,
    0x1F78, 0x1F79, 0x1F7C, 0x1F7D, 0x1FF3, 0, 0, 0]"

definition gs_tolower_map_table_1f :: "unichar list" where
  "gs_tolower_map_table_1f = gs_tolower_map_table_1f_a @ gs_tolower_map_table_1f_b"

definition gs_tolower_map_table_21_a :: "unichar list" where
  "gs_tolower_map_table_21_a = [
    0, 0, 0, 0, 0, 0, 0, 0, 0, 0, 0, 0,
    0, 0, 0, 0, 0, 0, 0, 0, 0, 0, 0, 0,
    0, 0, 0, 0, 0, 0, 0, 0, 0, 0, 0, 0,
    0, 0, 0x03C9, 0, 0, 0, 0x006B, 0x00E5, 0, 0, 0, 0,
    0, 0, 0, 0, 0, 0, 0, 0, 0, 0, 0, 0,
    0, 0, 0, 0, 0, 0, 0, 0, 0, 0, 0, 0,
    0, 0, 0, 0, 0, 0, 0, 0, 0, 0, 0, 0,
    0, 0, 0, 0, 0, 0, 0, 0, 0, 0, 0, 0,
    0x2170, 0x2171, 0x2172, 0x2173, 0x2174, 0x2175, 0x2176, 0x2177, 0x2178, 0x2179, 0x217A, 0x217B,
    0x217C, 0x217D, 0x217E, 0x217F, 0, 0, 0, 0, 0, 0, 0, 0,
    0, 0, 0, 0, 0, 0, 0, 0]"

definition gs_tolower_map_table_21_b :: "unichar list" where
  "gs_tolower_map_table_21_b = [
    0, 0, 0, 0, 0, 0, 0, 0, 0, 0, 0, 0,
    0, 0, 0, 0, 0, 0, 0, 0, 0, 0, 0, 0,
    0, 0, 0, 0, 0, 0, 0, 0, 0, 0, 0, 0,
    0, 0, 0, 0, 0, 0, 0, 0, 0, 0, 0, 0,
    0, 0, 0, 0, 0, 0, 0, 0, 0, 0, 0, 0,
    0, 0, 0, 0, 0, 0, 0, 0, 0, 0, 0, 0,
    0, 0, 0, 0, 0, 0, 0, 0, 0, 0, 0, 0,
    0, 0, 0, 0, 0, 0, 0, 0, 0, 0, 0, 0,
    0, 0, 0, 0, 0, 0, 0, 0, 0, 0, 0, 0,
    0, 0, 0, 0, 0, 0, 0, 0, 0, 0, 0, 0,
    0, 0, 0, 0, 0, 0, 0, 0]"

definition gs_tolower_map_table_21 :: "unichar list" where
  "gs_tolower_map_table_21 = gs_tolower_map_table_21_a @ gs_tolower_map_table_21_b"

definition gs_tolower_map_table_24_a :: "unichar list" where
  "gs_tolower_map_table_24_a = [
    0, 0, 0, 0, 0, 0, 0, 0, 0, 0, 0, 0,
    0, 0, 0, 0, 0, 0, 0, 0, 0, 0, 0, 0,
    0, 0, 0, 0, 0, 0, 0, 0, 0, 0, 0, 0,
    0, 0, 0, 0, 0, 0, 0, 0, 0, 0, 0, 0,
    0, 0, 0, 0, 0, 0, 0, 0, 0, 0, 0, 0,
    0, 0, 0, 0, 0, 0, 0, 0, 0, 0, 0, 0,
    0, 0, 0, 0, 0, 0, 0, 0, 0, 0, 0, 0,
    0, 0, 0, 0, 0, 0, 0, 0, 0, 0, 0, 0,
    0, 0, 0, 0, 0, 0, 0, 0, 0, 0, 0, 0,
    0, 0, 0, 0, 0, 0, 0, 0, 0, 0, 0, 0,
    0, 0, 0, 0, 0, 0, 0, 0]"

definition gs_tolower_map_table_24_b :: "unichar list" where
  "gs_tolower_map_table_24_b = [
    0, 0, 0, 0, 0, 0, 0, 0, 0, 0, 0, 0,
    0, 0, 0, 0, 0, 0, 0, 0, 0, 0, 0, 0,
    0, 0, 0, 0, 0, 0, 0, 0, 0, 0, 0, 0,
    0, 0, 0, 0, 0, 0, 0, 0, 0, 0, 0, 0,
    0, 0, 0, 0, 0, 0, 0x24D0, 0x24D1, 0x24D2, 0x24D3, 0x24D4, 0x24D5,
    0x24D6, 0x24D7, 0x24D8, 0x24D9, 0x24DA, 0x24DB, 0x24DC, 0x24DD, 0x24DE, 0x24DF, 0x24E0, 0x24E1,
    0x24E2, 0x24E3, 0x24E4, 0x24E5, 0x24E6, 0x24E7, 0x24E8, 0x24E9, 0, 0, 0, 0,
    0, 0, 0, 0, 0, 0, 0, 0, 0, 0, 0, 0,
    0, 0, 0, 0, 0, 0, 0, 0, 0, 0, 0, 0,
    0, 0, 0, 0, 0, 0, 0, 0, 0, 0, 0, 0,
    0, 0, 0, 0, 0, 0, 0, 0]"

definition gs_tolower_map_table_24 :: "unichar list" where
  "gs_tolower_map_table_24 = gs_tolower_map_table_24_a @ gs_tolower_map_table_24_b"

definition gs_tolower_map_table_ff_a :: "unichar list" where
  "gs_tolower_map_table_ff_a = [
    0, 0, 0, 0, 0, 0, 0, 0, 0, 0, 0, 0,
    0, 0, 0, 0, 0, 0, 0, 0, 0, 0, 0, 0,
    0, 0, 0, 0, 0, 0, 0, 0, 0, 0xFF41, 0xFF42, 0xFF43,
    0xFF44, 0xFF45, 0xFF46, 0xFF47, 0xFF48, 0xFF49, 0xFF4A, 0xFF4B, 0xFF4C, 0xFF4D, 0xFF4E, 0xFF4F,
    0xFF50, 0xFF51, 0xFF52, 0xFF53, 0xFF54, 0xFF55, 0xFF56, 0xFF57, 0xFF58, 0xFF59, 0xFF5A, 0,
    0, 0, 0, 0, 0, 0, 0, 0, 0, 0, 0, 0,
    0, 0, 0, 0, 0, 0, 0, 0, 0, 0, 0, 0,
    0, 0, 0, 0, 0, 0, 0, 0, 0, 0, 0, 0,
    0, 0, 0, 0, 0, 0, 0, 0, 0, 0, 0, 0,
    0, 0, 0, 0, 0, 0, 0, 0, 0, 0, 0, 0,
    0, 0, 0, 0, 0, 0, 0, 0]"

definition gs_tolower_map_table_ff_b :: "unichar list" where
  "gs_tolower_map_table_ff_b = [
    0, 0, 0, 0, 0, 0, 0, 0, 0, 0, 0, 0,
    0, 0, 0, 0, 0, 0, 0, 0, 0, 0, 0, 0,
    0, 0, 0, 0, 0, 0, 0, 0, 0, 0, 0, 0,
    0, 0, 0, 0, 0, 0, 0, 0, 0, 0, 0, 0,
    0, 0, 0, 0, 0, 0, 0, 0, 0, 0, 0, 0,
    0, 0, 0, 0, 0, 0, 0, 0, 0, 0, 0, 0,
    0, 0, 0, 0, 0, 0, 0, 0, 0, 0, 0, 0,
    0, 0, 0, 0, 0, 0, 0, 0, 0, 0, 0, 0,
    0, 0, 0, 0, 0, 0, 0, 0, 0, 0, 0, 0,
    0, 0, 0, 0, 0, 0, 0, 0, 0, 0, 0, 0,
    0, 0, 0, 0, 0, 0, 0, 0]"

definition gs_tolower_map_table_ff :: "unichar list" where
  "gs_tolower_map_table_ff = gs_tolower_map_table_ff_a @ gs_tolower_map_table_ff_b"

definition gs_tolower_map_a :: "unichar list list" where
  "gs_tolower_map_a = [
    gs_tolower_map_table_0, gs_tolower_map_table_1, gs_tolower_map_table_2, gs_tolower_map_table_3,
    gs_tolower_map_table_4, gs_tolower_map_table_5, gs_casemap_empty_table, gs_casemap_empty_table,
    gs_casemap_empty_table, gs_casemap_empty_table, gs_casemap_empty_table, gs_casemap_empty_table,
    gs_casemap_empty_table, gs_casemap_empty_table, gs_casemap_empty_table, gs_casemap_empty_table,
    gs_casemap_empty_table, gs_casemap_empty_table, gs_casemap_empty_table, gs_casemap_empty_table,
    gs_casemap_empty_table, gs_casemap_empty_table, gs_casemap_empty_table, gs_casemap_empty_table,
    gs_casemap_empty_table, gs_casemap_empty_table, gs_casemap_empty_table, gs_casemap_empty_table,
    gs_casemap_empty_table, gs_casemap_empty_table, gs_tolower_map_table_1e, gs_tolower_map_table_1f,
    gs_casemap_empty_table, gs_tolower_map_table_21, gs_casemap_empty_table, gs_casemap_empty_table,
    gs_tolower_map_table_24, gs_casemap_empty_table, gs_casemap_empty_table, gs_casemap_empty_table,
    gs_casemap_empty_table, gs_casemap_empty_table, gs_casemap_empty_table, gs_casemap_empty_table,
    gs_casemap_empty_table, gs_casemap_empty_table, gs_casemap_empty_table, gs_casemap_empty_table,
    gs_casemap_empty_table, gs_casemap_empty_table, gs_casemap_empty_table, gs_casemap_empty_table,
    gs_casemap_empty_table, gs_casemap_empty_table, gs_casemap_empty_table, gs_casemap_empty_table,
    gs_casemap_empty_table, gs_casemap_empty_table, gs_casemap_empty_table, gs_casemap_empty_table,
    gs_casemap_empty_table, gs_casemap_empty_table, gs_casemap_empty_table, gs_casemap_empty_table,
    gs_casemap_empty_table, gs_casemap_empty_table, gs_casemap_empty_table, gs_casemap_empty_table,
    gs_casemap_empty_table, gs_casemap_empty_table, gs_casemap_empty_table, gs_casemap_empty_table,
    gs_casemap_empty_table, gs_casemap_empty_table, gs_casemap_empty_table, gs_casemap_empty_table,
    gs_casemap_empty_table, gs_casemap_empty_table, gs_casemap_empty_table, gs_casemap_empty_table,
    gs_casemap_empty_table, gs_casemap_empty_table, gs_casemap_empty_table, gs_casemap_empty_table,
    gs_casemap_empty_table, gs_casemap_empty_table, gs_casemap_empty_table, gs_casemap_empty_table,
    gs_casemap_empty_table, gs_casemap_empty_table, gs_casemap_empty_table, gs_casemap_empty_table,
    gs_casemap_empty_table, gs_casemap_empty_table, gs_casemap_empty_table, gs_casemap_empty_table,
    gs_casemap_empty_table, gs_casemap_empty_table, gs_casemap_empty_table, gs_casemap_empty_table,
    gs_casemap_empty_table, gs_casemap_empty_table, gs_casemap_empty_table, gs_casemap_empty_table,
    gs_casemap_empty_table, gs_casemap_empty_table, gs_casemap_empty_table, gs_casemap_empty_table,
    gs_casemap_empty_table, gs_casemap_empty_table, gs_casemap_empty_table, gs_casemap_empty_table,
    gs_casemap_empty_table, gs_casemap_empty_table, gs_casemap_empty_table, gs_casemap_empty_table,
    gs_casemap_empty_table, gs_casemap_empty_table, gs_casemap_empty_table, gs_casemap_empty_table,
    gs_casemap_empty_table, gs_casemap_empty_table, gs_casemap_empty_table, gs_casemap_empty_table,
    gs_casemap_empty_table, gs_casemap_empty_table, gs_casemap_empty_table, gs_casemap_empty_table]"

definition gs_tolower_map_b :: "unichar list list" where
  "gs_tolower_map_b = [
    gs_casemap_empty_table, gs_casemap_empty_table, gs_casemap_empty_table, gs_casemap_empty_table,
    gs_casemap_empty_table, gs_casemap_empty_table, gs_casemap_empty_table, gs_casemap_empty_table,
    gs_casemap_empty_table, gs_casemap_empty_table, gs_casemap_empty_table, gs_casemap_empty_table,
    gs_casemap_empty_table, gs_casemap_empty_table, gs_casemap_empty_table, gs_casemap_empty_table,
    gs_casemap_empty_table, gs_casemap_empty_table, gs_casemap_empty_table, gs_casemap_empty_table,
    gs_casemap_empty_table, gs_casemap_empty_table, gs_casemap_empty_table, gs_casemap_empty_table,
    gs_casemap_empty_table, gs_casemap_empty_table, gs_casemap_empty_table, gs_casemap_empty_table,
    gs_casemap_empty_table, gs_casemap_empty_table, gs_casemap_empty_table, gs_casemap_empty_table,
    gs_casemap_empty_table, gs_casemap_empty_table, gs_casemap_empty_table, gs_casemap_empty_table,
    gs_casemap_empty_table, gs_casemap_empty_table, gs_casemap_empty_table, gs_casemap_empty_table,
    gs_casemap_empty_table, gs_casemap_empty_table, gs_casemap_empty_table, gs_casemap_empty_table,
    gs_casemap_empty_table, gs_casemap_empty_table, gs_casemap_empty_table, gs_casemap_empty_table,
    gs_casemap_empty_table, gs_casemap_empty_table, gs_casemap_empty_table, gs_casemap_empty_table,
    gs_casemap_empty_table, gs_casemap_empty_table, gs_casemap_empty_table, gs_casemap_empty_table,
    gs_casemap_empty_table, gs_casemap_empty_table, gs_casemap_empty_table, gs_casemap_empty_table,
    gs_casemap_empty_table, gs_casemap_empty_table, gs_casemap_empty_table, gs_casemap_empty_table,
    gs_casemap_empty_table, gs_casemap_empty_table, gs_casemap_empty_table, gs_casemap_empty_table,
    gs_casemap_empty_table, gs_casemap_empty_table, gs_casemap_empty_table, gs_casemap_empty_table,
    gs_casemap_empty_table, gs_casemap_empty_table, gs_casemap_empty_table, gs_casemap_empty_table,
    gs_casemap_empty_table, gs_casemap_empty_table, gs_casemap_empty_table, gs_casemap_empty_table,
    gs_casemap_empty_table, gs_casemap_empty_table, gs_casemap_empty_table, gs_casemap_empty_table,
    gs_casemap_empty_table, gs_casemap_empty_table, gs_casemap_empty_table, gs_casemap_empty_table,
    gs_casemap_empty_table, gs_casemap_empty_table, gs_casemap_empty_table, gs_casemap_empty_table,
    gs_casemap_empty_table, gs_casemap_empty_table, gs_casemap_empty_table, gs_casemap_empty_table,
    gs_casemap_empty_table, gs_casemap_empty_table, gs_casemap_empty_table, gs_casemap_empty_table,
    gs_casemap_empty_table, gs_casemap_empty_table, gs_casemap_empty_table, gs_casemap_empty_table,
    gs_casemap_empty_table, gs_casemap_empty_table, gs_casemap_empty_table, gs_casemap_empty_table,
    gs_casemap_empty_table, gs_casemap_empty_table, gs_casemap_empty_table, gs_casemap_empty_table,
    gs_casemap_empty_table, gs_casemap_empty_table, gs_casemap_empty_table, gs_casemap_empty_table,
    gs_casemap_empty_table, gs_casemap_empty_table, gs_casemap_empty_table, gs_casemap_empty_table,
    gs_casemap_empty_table, gs_casemap_empty_table, gs_casemap_empty_table, gs_casemap_empty_table,
    gs_casemap_empty_table, gs_casemap_empty_table, gs_casemap_empty_table, gs_tolower_map_table_ff]"

definition gs_tolower_map :: "unichar list list" where
  "gs_tolower_map = gs_tolower_map_a @ gs_tolower_map_b"

definition gs_toupper_map_table_0_a :: "unichar list" where
  "gs_toupper_map_table_0_a = [
    0, 0, 0, 0, 0, 0, 0, 0, 0, 0, 0, 0,
    0, 0, 0, 0, 0, 0, 0, 0, 0, 0, 0, 0,
    0, 0, 0, 0, 0, 0, 0, 0, 0, 0, 0, 0,
    0, 0, 0, 0, 0, 0, 0, 0, 0, 0, 0, 0,
    0, 0, 0, 0, 0, 0, 0, 0, 0, 0, 0, 0,
    0, 0, 0, 0, 0, 0, 0, 0, 0, 0, 0, 0,
    0, 0, 0, 0, 0, 0, 0, 0, 0, 0, 0, 0,
    0, 0, 0, 0, 0, 0, 0, 0, 0, 0, 0, 0,
    0, 0x0041, 0x0042, 0x0043, 0x0044, 0x0045, 0x0046, 0x0047, 0x0048, 0x0049, 0x004A, 0x004B,
    0x004C, 0x004D, 0x004E, 0x004F, 0x0050, 0x0051, 0x0052, 0x0053, 0x0054, 0x0055, 0x0056, 0x0057,
    0x0058, 0x0059, 0x005A, 0, 0, 0, 0, 0]"

definition gs_toupper_map_table_0_b :: "unichar list" where
  "gs_toupper_map_table_0_b = [
    0, 0, 0, 0, 0, 0, 0, 0, 0, 0, 0, 0,
    0, 0, 0, 0, 0, 0, 0, 0, 0, 0, 0, 0,
    0, 0, 0, 0, 0, 0, 0, 0, 0, 0, 0, 0,
    0, 0, 0, 0, 0, 0, 0, 0, 0, 0, 0, 0,
    0, 0, 0, 0, 0, 0x039C, 0, 0, 0, 0, 0, 0,
    0, 0, 0, 0, 0, 0, 0, 0, 0, 0, 0, 0,
    0, 0, 0, 0, 0, 0, 0, 0, 0, 0, 0, 0,
    0, 0, 0, 0, 0, 0, 0, 0, 0, 0, 0, 0,
    0x00C0, 0x00C1, 0x00C2, 0x00C3, 0x00C4, 0x00C5, 0x00C6, 0x00C7, 0x00C8, 0x00C9, 0x00CA, 0x00CB,
    0x00CC, 0x00CD, 0x00CE, 0x00CF, 0x00D0, 0x00D1, 0x00D2, 0x00D3, 0x00D4, 0x00D5, 0x00D6, 0,
    0x00D8, 0x00D9, 0x00DA, 0x00DB, 0x00DC, 0x00DD, 0x00DE, 0x0178]"

definition gs_toupper_map_table_0 :: "unichar list" where
  "gs_toupper_map_table_0 = gs_toupper_map_table_0_a @ gs_toupper_map_table_0_b"

definition gs_toupper_map_table_1_a :: "unichar list" where
  "gs_toupper_map_table_1_a = [
    0, 0x0100, 0, 0x0102, 0, 0x0104, 0, 0x0106, 0, 0x0108, 0, 0x010A,
    0, 0x010C, 0, 0x010E, 0, 0x0110, 0, 0x0112, 0, 0x0114, 0, 0x0116,
    0, 0x0118, 0, 0x011A, 0, 0x011C, 0, 0x011E, 0, 0x0120, 0, 0x0122,
    0, 0x0124, 0, 0x0126, 0, 0x0128, 0, 0x012A, 0, 0x012C, 0, 0x012E,
    0, 0x0049, 0, 0x0132, 0, 0x0134, 0, 0x0136, 0, 0, 0x0139, 0,
    0x013B, 0, 0x013D, 0, 0x013F, 0, 0x0141, 0, 0x0143, 0, 0x0145, 0,
    0x0147, 0, 0, 0x014A, 0, 0x014C, 0, 0x014E, 0, 0x0150, 0, 0x0152,
    0, 0x0154, 0, 0x0156, 0, 0x0158, 0, 0x015A, 0, 0x015C, 0, 0x015E,
    0, 0x0160, 0, 0x0162, 0, 0x0164, 0, 0x0166, 0, 0x0168, 0, 0x016A,
    0, 0x016C, 0, 0x016E, 0, 0x0170, 0, 0x0172, 0, 0x0174, 0, 0x0176,
    0, 0, 0x0179, 0, 0x017B, 0, 0x017D, 0x0053]"

definition gs_toupper_map_table_1_b :: "unichar list" where
  "gs_toupper_map_table_1_b = [
    0, 0, 0, 0x0182, 0, 0x0184, 0, 0, 0x0187, 0, 0, 0,
    0x018B, 0, 0, 0, 0, 0, 0x0191, 0, 0, 0x01F6, 0, 0,
    0, 0x0198, 0, 0, 0, 0, 0, 0, 0, 0x01A0, 0, 0x01A2,
    0, 0x01A4, 0, 0, 0x01A7, 0, 0, 0, 0, 0x01AC, 0, 0,
    0x01AF, 0, 0, 0, 0x01B3, 0, 0x01B5, 0, 0, 0x01B8, 0, 0,
    0, 0x01BC, 0, 0x01F7, 0, 0, 0, 0, 0, 0x01C4, 0x01C4, 0,
    0x01C7, 0x01C7, 0, 0x01CA, 0x01CA, 0, 0x01CD, 0, 0x01CF, 0, 0x01D1, 0,
    0x01D3, 0, 0x01D5, 0, 0x01D7, 0, 0x01D9, 0, 0x01DB, 0x018E, 0, 0x01DE,
    0, 0x01E0, 0, 0x01E2, 0, 0x01E4, 0, 0x01E6, 0, 0x01E8, 0, 0x01EA,
    0, 0x01EC, 0, 0x01EE, 0, 0, 0x01F1, 0x01F1, 0, 0x01F4, 0, 0,
    0, 0x01F8, 0, 0x01FA, 0, 0x01FC, 0, 0x01FE]"

definition gs_toupper_map_table_1 :: "unichar list" where
  "gs_toupper_map_table_1 = gs_toupper_map_table_1_a @ gs_toupper_map_table_1_b"

definition gs_toupper_map_table_2_a :: "unichar list" where
  "gs_toupper_map_table_2_a = [
    0, 0x0200, 0, 0x0202, 0, 0x0204, 0, 0x0206, 0, 0x0208, 0, 0x020A,
    0, 0x020C, 0, 0x020E, 0, 0x0210, 0, 0x0212, 0, 0x0214, 0, 0x0216,
    0, 0x0218, 0, 0x021A, 0, 0x021C, 0, 0x021E, 0, 0, 0, 0x0222,
    0, 0x0224, 0, 0x0226, 0, 0x0228, 0, 0x022A, 0, 0x022C, 0, 0x022E,
    0, 0x0230, 0, 0x0232, 0, 0, 0, 0, 0, 0, 0, 0,
    0, 0, 0, 0, 0, 0, 0, 0, 0, 0, 0, 0,
    0, 0, 0, 0, 0, 0, 0, 0, 0, 0, 0, 0x0181,
    0x0186, 0, 0x0189, 0x018A, 0, 0x018F, 0, 0x0190, 0, 0, 0, 0,
    0x0193, 0, 0, 0x0194, 0, 0, 0, 0, 0x0197, 0x0196, 0, 0,
    0, 0, 0, 0x019C, 0, 0, 0x019D, 0, 0, 0x019F, 0, 0,
    0, 0, 0, 0, 0, 0, 0, 0]"

definition gs_toupper_map_table_2_b :: "unichar list" where
  "gs_toupper_map_table_2_b = [
    0x01A6, 0, 0, 0x01A9, 0, 0, 0, 0, 0x01AE, 0, 0x01B1, 0x01B2,
    0, 0, 0, 0, 0, 0, 0x01B7, 0, 0, 0, 0, 0,
    0, 0, 0, 0, 0, 0, 0, 0, 0, 0, 0, 0,
    0, 0, 0, 0, 0, 0, 0, 0, 0, 0, 0, 0,
    0, 0, 0, 0, 0, 0, 0, 0, 0, 0, 0, 0,
    0, 0, 0, 0, 0, 0, 0, 0, 0, 0, 0, 0,
    0, 0, 0, 0, 0, 0, 0, 0, 0, 0, 0, 0,
    0, 0, 0, 0, 0, 0, 0, 0, 0, 0, 0, 0,
    0, 0, 0, 0, 0, 0, 0, 0, 0, 0, 0, 0,
    0, 0, 0, 0, 0, 0, 0, 0, 0, 0, 0, 0,
    0, 0, 0, 0, 0, 0, 0, 0]"

definition gs_toupper_map_table_2 :: "unichar list" where
  "gs_toupper_map_table_2 = gs_toupper_map_table_2_a @ gs_toupper_map_table_2_b"

definition gs_toupper_map_table_3_a :: "unichar list" where
  "gs_toupper_map_table_3_a = [
    0, 0, 0, 0, 0, 0, 0, 0, 0, 0, 0, 0,
    0, 0, 0, 0, 0, 0, 0, 0, 0, 0, 0, 0,
    0, 0, 0, 0, 0, 0, 0, 0, 0, 0, 0, 0,
    0, 0, 0, 0, 0, 0, 0, 0, 0, 0, 0, 0,
    0, 0, 0, 0, 0, 0, 0, 0, 0, 0, 0, 0,
    0, 0, 0, 0, 0, 0, 0, 0, 0, 0x0399, 0, 0,
    0, 0, 0, 0, 0, 0, 0, 0, 0, 0, 0, 0,
    0, 0, 0, 0, 0, 0, 0, 0, 0, 0, 0, 0,
    0, 0, 0, 0, 0, 0, 0, 0, 0, 0, 0, 0,
    0, 0, 0, 0, 0, 0, 0, 0, 0, 0, 0, 0,
    0, 0, 0, 0, 0, 0, 0, 0]"

definition gs_toupper_map_table_3_b :: "unichar list" where
  "gs_toupper_map_table_3_b = [
    0, 0, 0, 0, 0, 0, 0, 0, 0, 0, 0, 0,
    0, 0, 0, 0, 0, 0, 0, 0, 0, 0, 0, 0,
    0, 0, 0, 0, 0, 0, 0, 0, 0, 0, 0, 0,
    0, 0, 0, 0, 0, 0, 0, 0, 0x0386, 0x0388, 0x0389, 0x038A,
    0, 0x0391, 0x0392, 0x0393, 0x0394, 0x0395, 0x0396, 0x0397, 0x0398, 0x0399, 0x039A, 0x039B,
    0x039C, 0x039D, 0x039E, 0x039F, 0x03A0, 0x03A1, 0x03A3, 0x03A3, 0x03A4, 0x03A5, 0x03A6, 0x03A7,
    0x03A8, 0x03A9, 0x03AA, 0x03AB, 0x038C, 0x038E, 0x038F, 0, 0x0392, 0x0398, 0, 0,
    0, 0x03A6, 0x03A0, 0, 0, 0, 0, 0x03DA, 0, 0x03DC, 0, 0x03DE,
    0, 0x03E0, 0, 0x03E2, 0, 0x03E4, 0, 0x03E6, 0, 0x03E8, 0, 0x03EA,
    0, 0x03EC, 0, 0x03EE, 0x039A, 0x03A1, 0x03A3, 0, 0, 0, 0, 0,
    0, 0, 0, 0, 0, 0, 0, 0]"

definition gs_toupper_map_table_3 :: "unichar list" where
  "gs_toupper_map_table_3 = gs_toupper_map_table_3_a @ gs_toupper_map_table_3_b"

definition gs_toupper_map_table_4_a :: "unichar list" where
  "gs_toupper_map_table_4_a = [
    0, 0, 0, 0, 0, 0, 0, 0, 0, 0, 0, 0,
    0, 0, 0, 0, 0, 0, 0, 0, 0, 0, 0, 0,
    0, 0, 0, 0, 0, 0, 0, 0, 0, 0, 0, 0,
    0, 0, 0, 0, 0, 0, 0, 0, 0, 0, 0, 0,
    0x0410, 0x0411, 0x0412, 0x0413, 0x0414, 0x0415, 0x0416, 0x0417, 0x0418, 0x0419, 0x041A, 0x041B,
    0x041C, 0x041D, 0x041E, 0x041F, 0x0420, 0x0421, 0x0422, 0x0423, 0x0424, 0x0425, 0x0426, 0x0427,
    0x0428, 0x0429, 0x042A, 0x042B, 0x042C, 0x042D, 0x042E, 0x042F, 0x0400, 0x0401, 0x0402, 0x0403,
    0x0404, 0x0405, 0x0406, 0x0407, 0x0408, 0x0409, 0x040A, 0x040B, 0x040C, 0x040D, 0x040E, 0x040F,
    0, 0x0460, 0, 0x0462, 0, 0x0464, 0, 0x0466, 0, 0x0468, 0, 0x046A,
    0, 0x046C, 0, 0x046E, 0, 0x0470, 0, 0x0472, 0, 0x0474, 0, 0x0476,
    0, 0x0478, 0, 0x047A, 0, 0x047C, 0, 0x047E]"

definition gs_toupper_map_table_4_b :: "unichar list" where
  "gs_toupper_map_table_4_b = [
    0, 0x0480, 0, 0, 0, 0, 0, 0, 0, 0, 0, 0,
    0, 0x048C, 0, 0x048E, 0, 0x0490, 0, 0x0492, 0, 0x0494, 0, 0x0496,
    0, 0x0498, 0, 0x049A, 0, 0x049C, 0, 0x049E, 0, 0x04A0, 0, 0x04A2,
    0, 0x04A4, 0, 0x04A6, 0, 0x04A8, 0, 0x04AA, 0, 0x04AC, 0, 0x04AE,
    0, 0x04B0, 0, 0x04B2, 0, 0x04B4, 0, 0x04B6, 0, 0x04B8, 0, 0x04BA,
    0, 0x04BC, 0, 0x04BE, 0, 0, 0x04C1, 0, 0x04C3, 0, 0, 0,
    0x04C7, 0, 0, 0, 0x04CB, 0, 0, 0, 0, 0x04D0, 0, 0x04D2,
    0, 0x04D4, 0, 0x04D6, 0, 0x04D8, 0, 0x04DA, 0, 0x04DC, 0, 0x04DE,
    0, 0x04E0, 0, 0x04E2, 0, 0x04E4, 0, 0x04E6, 0, 0x04E8, 0, 0x04EA,
    0, 0x04EC, 0, 0x04EE, 0, 0x04F0, 0, 0x04F2, 0, 0x04F4, 0, 0,
    0, 0x04F8, 0, 0, 0, 0, 0, 0]"

definition gs_toupper_map_table_4 :: "unichar list" where
  "gs_toupper_map_table_4 = gs_toupper_map_table_4_a @ gs_toupper_map_table_4_b"

definition gs_toupper_map_table_5_a :: "unichar list" where
  "gs_toupper_map_table_5_a = [
    0, 0, 0, 0, 0, 0, 0, 0, 0, 0, 0, 0,
    0, 0, 0, 0, 0, 0, 0, 0, 0, 0, 0, 0,
    0, 0, 0, 0, 0, 0, 0, 0, 0, 0, 0, 0,
    0, 0, 0, 0, 0, 0, 0, 0, 0, 0, 0, 0,
    0, 0, 0, 0, 0, 0, 0, 0, 0, 0, 0, 0,
    0, 0, 0, 0, 0, 0, 0, 0, 0, 0, 0, 0,
    0, 0, 0, 0, 0, 0, 0, 0, 0, 0, 0, 0,
    0, 0, 0, 0, 0, 0, 0, 0, 0, 0, 0, 0,
    0, 0x0531, 0x0532, 0x0533, 0x0534, 0x0535, 0x0536, 0x0537, 0x0538, 0x0539, 0x053A, 0x053B,
    0x053C, 0x053D, 0x053E, 0x053F, 0x0540, 0x0541, 0x0542, 0x0543, 0x0544, 0x0545, 0x0546, 0x0547,
    0x0548, 0x0549, 0x054A, 0x054B, 0x054C, 0x054D, 0x054E, 0x054F]"

definition gs_toupper_map_table_5_b :: "unichar list" where
  "gs_toupper_map_table_5_b = [
    0x0550, 0x0551, 0x0552, 0x0553, 0x0554, 0x0555, 0x0556, 0, 0, 0, 0, 0,
    0, 0, 0, 0, 0, 0, 0, 0, 0, 0, 0, 0,
    0, 0, 0, 0, 0, 0, 0, 0, 0, 0, 0, 0,
    0, 0, 0, 0, 0, 0, 0, 0, 0, 0, 0, 0,
    0, 0, 0, 0, 0, 0, 0, 0, 0, 0, 0, 0,
    0, 0, 0, 0, 0, 0, 0, 0, 0, 0, 0, 0,
    0, 0, 0, 0, 0, 0, 0, 0, 0, 0, 0, 0,
    0, 0, 0, 0, 0, 0, 0, 0, 0, 0, 0, 0,
    0, 0, 0, 0, 0, 0, 0, 0, 0, 0, 0, 0,
    0, 0, 0, 0, 0, 0, 0, 0, 0, 0, 0, 0,
    0, 0, 0, 0, 0, 0, 0, 0]"

definition gs_toupper_map_table_5 :: "unichar list" where
  "gs_toupper_map_table_5 = gs_toupper_map_table_5_a @ gs_toupper_map_table_5_b"

definition gs_toupper_map_table_1e_a :: "unichar list" where
  "gs_toupper_map_table_1e_a = [
    0, 0x1E00, 0, 0x1E02, 0, 0x1E04, 0, 0x1E06, 0, 0x1E08, 0, 0x1E0A,
    0, 0x1E0C, 0, 0x1E0E, 0, 0x1E10, 0, 0x1E12, 0, 0x1E14, 0, 0x1E16,
    0, 0x1E18, 0, 0x1E1A, 0, 0x1E1C, 0, 0x1E1E, 0, 0x1E20, 0, 0x1E22,
    0, 0x1E24, 0, 0x1E26, 0, 0x1E28, 0, 0x1E2A, 0, 0x1E2C, 0, 0x1E2E,
    0, 0x1E30, 0, 0x1E32, 0, 0x1E34, 0, 0x1E36, 0, 0x1E38, 0, 0x1E3A,
    0, 0x1E3C, 0, 0x1E3E, 0, 0x1E40, 0, 0x1E42, 0, 0x1E44, 0, 0x1E46,
    0, 0x1E48, 0, 0x1E4A, 0, 0x1E4C, 0, 0x1E4E, 0, 0x1E50, 0, 0x1E52,
    0, 0x1E54, 0, 0x1E56, 0, 0x1E58, 0, 0x1E5A, 0, 0x1E5C, 0, 0x1E5E,
    0, 0x1E60, 0, 0x1E62, 0, 0x1E64, 0, 0x1E66, 0, 0x1E68, 0, 0x1E6A,
    0, 0x1E6C, 0, 0x1E6E, 0, 0x1E70, 0, 0x1E72, 0, 0x1E74, 0, 0x1E76,
    0, 0x1E78, 0, 0x1E7A, 0, 0x1E7C, 0, 0x1E7E]"

definition gs_toupper_map_table_1e_b :: "unichar list" where
  "gs_toupper_map_table_1e_b = [
    0, 0x1E80, 0, 0x1E82, 0, 0x1E84, 0, 0x1E86, 0, 0x1E88, 0, 0x1E8A,
    0, 0x1E8C, 0, 0x1E8E, 0, 0x1E90, 0, 0x1E92, 0, 0x1E94, 0, 0,
    0, 0, 0, 0x1E60, 0, 0, 0, 0, 0, 0x1EA0, 0, 0x1EA2,
    0, 0x1EA4, 0, 0x1EA6, 0, 0x1EA8, 0, 0x1EAA, 0, 0x1EAC, 0, 0x1EAE,
    0, 0x1EB0, 0, 0x1EB2, 0, 0x1EB4, 0, 0x1EB6, 0, 0x1EB8, 0, 0x1EBA,
    0, 0x1EBC, 0, 0x1EBE, 0, 0x1EC0, 0, 0x1EC2, 0, 0x1EC4, 0, 0x1EC6,
    0, 0x1EC8, 0, 0x1ECA, 0, 0x1ECC, 0, 0x1ECE, 0, 0x1ED0, 0, 0x1ED2,
    0, 0x1ED4, 0, 0x1ED6, 0, 0x1ED8, 0, 0x1EDA, 0, 0x1EDC, 0, 0x1EDE,
    0, 0x1EE0, 0, 0x1EE2, 0, 0x1EE4, 0, 0x1EE6, 0, 0x1EE8, 0, 0x1EEA,
    0, 0x1EEC, 0, 0x1EEE, 0, 0x1EF0, 0, 0x1EF2, 0, 0x1EF4, 0, 0x1EF6,
    0, 0x1EF8, 0, 0, 0, 0, 0, 0]"

definition gs_toupper_map_table_1e :: "unichar list" where
  "gs_toupper_map_table_1e = gs_toupper_map_table_1e_a @ gs_toupper_map_table_1e_b"

definition gs_toupper_map_table_1f_a :: "unichar list" where
  "gs_toupper_map_table_1f_a = [
    0x1F08, 0x1F09, 0x1F0A, 0x1F0B, 0x1F0C, 0x1F0D, 0x1F0E, 0x1F0F, 0, 0, 0, 0,
    0, 0, 0, 0, 0x1F18, 0x1F19, 0x1F1A, 0x1F1B, 0x1F1C, 0x1F1D, 0, 0,
    0, 0, 0, 0, 0, 0, 0, 0, 0x1F28, 0x1F29, 0x1F2A, 0x1F2B,
    0x1F2C, 0x1F2D, 0x1F2E, 0x1F2F, 0, 0, 0, 0, 0, 0, 0, 0,
    0x1F38, 0x1F39, 0x1F3A, 0x1F3B, 0x1F3C, 0x1F3D, 0x1F3E, 0x1F3F, 0, 0, 0, 0,
    0, 0, 0, 0, 0x1F48, 0x1F49, 0x1F4A, 0x1F4B, 0x1F4C, 0x1F4D, 0, 0,
    0, 0, 0, 0, 0, 0, 0, 0, 0, 0x1F59, 0, 0x1F5B,
    0, 0x1F5D, 0, 0x1F5F, 0, 0, 0, 0, 0, 0, 0, 0,
    0x1F68, 0x1F69, 0x1F6A, 0x1F6B, 0x1F6C, 0x1F6D, 0x1F6E, 0x1F6F, 0, 0, 0, 0,
    0, 0, 0, 0, 0x1FBA, 0x1FBB, 0x1FC8, 0x1FC9, 0x1FCA, 0x1FCB, 0x1FDA, 0x1FDB,
    0x1FF8, 0x1FF9, 0x1FEA, 0x1FEB, 0x1FFA, 0x1FFB, 0, 0]"

definition gs_toupper_map_table_1f_b :: "unichar list" where
  "gs_toupper_map_table_1f_b = [
    0x1F88, 0x1F89, 0x1F8A, 0x1F8B, 0x1F8C, 0x1F8D, 0x1F8E, 0x1F8F, 0, 0, 0, 0,
    0, 0, 0, 0, 0x1F98, 0x1F99, 0x1F9A, 0x1F9B, 0x1F9C, 0x1F9D, 0x1F9E, 0x1F9F,
    0, 0, 0, 0, 0, 0, 0, 0, 0x1FA8, 0x1FA9, 0x1FAA, 0x1FAB,
    0x1FAC, 0x1FAD, 0x1FAE, 0x1FAF, 0, 0, 0, 0, 0, 0, 0, 0,
    0x1FB8, 0x1FB9, 0, 0x1FBC, 0, 0, 0, 0, 0, 0, 0, 0,
    0, 0, 0x0399, 0, 0, 0, 0, 0x1FCC, 0, 0, 0, 0,
    0, 0, 0, 0, 0, 0, 0, 0, 0x1FD8, 0x1FD9, 0, 0,
    0, 0, 0, 0, 0, 0, 0, 0, 0, 0, 0, 0,
    0x1FE8, 0x1FE9, 0, 0, 0, 0x1FEC, 0, 0, 0, 0, 0, 0,
    0, 0, 0, 0, 0, 0, 0, 0x1FFC, 0, 0, 0, 0,
    0, 0, 0, 0, 0, 0, 0, 0]"

definition gs_toupper_map_table_1f :: "unichar list" where
  "gs_toupper_map_table_1f = gs_toupper_map_table_1f_a @ gs_toupper_map_table_1f_b"

definition gs_toupper_map_table_21_a :: "unichar list" where
  "gs_toupper_map_table_21_a = [
    0, 0, 0, 0, 0, 0, 0, 0, 0, 0, 0, 0,
    0, 0, 0, 0, 0, 0, 0, 0, 0, 0, 0, 0,
    0, 0, 0, 0, 0, 0, 0, 0, 0, 0, 0, 0,
    0, 0, 0, 0, 0, 0, 0, 0, 0, 0, 0, 0,
    0, 0, 0, 0, 0, 0, 0, 0, 0, 0, 0, 0,
    0, 0, 0, 0, 0, 0, 0, 0, 0, 0, 0, 0,
    0, 0, 0, 0, 0, 0, 0, 0, 0, 0, 0, 0,
    0, 0, 0, 0, 0, 0, 0, 0, 0, 0, 0, 0,
    0, 0, 0, 0, 0, 0, 0, 0, 0, 0, 0, 0,
    0, 0, 0, 0, 0x2160, 0x2161, 0x2162, 0x2163, 0x2164, 0x2165, 0x2166, 0x2167,
    0x2168, 0x2169, 0x216A, 0x216B, 0x216C, 0x216D, 0x216E, 0x216F]"

definition gs_toupper_map_table_21_b :: "unichar list" where
  "gs_toupper_map_table_21_b = [
    0, 0, 0, 0, 0, 0, 0, 0, 0, 0, 0, 0,
    0, 0, 0, 0, 0, 0, 0, 0, 0, 0, 0, 0,
    0, 0, 0, 0, 0, 0, 0, 0, 0, 0, 0, 0,
    0, 0, 0, 0, 0, 0, 0, 0, 0, 0, 0, 0,
    0, 0, 0, 0, 0, 0, 0, 0, 0, 0, 0, 0,
    0, 0, 0, 0, 0, 0, 0, 0, 0, 0, 0, 0,
    0, 0, 0, 0, 0, 0, 0, 0, 0, 0, 0, 0,
    0, 0, 0, 0, 0, 0, 0, 0, 0, 0, 0, 0,
    0, 0, 0, 0, 0, 0, 0, 0, 0, 0, 0, 0,
    0, 0, 0, 0, 0, 0, 0, 0, 0, 0, 0, 0,
    0, 0, 0, 0, 0, 0, 0, 0]"

definition gs_toupper_map_table_21 :: "unichar list" where
  "gs_toupper_map_table_21 = gs_toupper_map_table_21_a @ gs_toupper_map_table_21_b"

definition gs_toupper_map_table_24_a :: "unichar list" where
  "gs_toupper_map_table_24_a = [
    0, 0, 0, 0, 0, 0, 0, 0, 0, 0, 0, 0,
    0, 0, 0, 0, 0, 0, 0, 0, 0, 0, 0, 0,
    0, 0, 0, 0, 0, 0, 0, 0, 0, 0, 0, 0,
    0, 0, 0, 0, 0, 0, 0, 0, 0, 0, 0, 0,
    0, 0, 0, 0, 0, 0, 0, 0, 0, 0, 0, 0,
    0, 0, 0, 0, 0, 0, 0, 0, 0, 0, 0, 0,
    0, 0, 0, 0, 0, 0, 0, 0, 0, 0, 0, 0,
    0, 0, 0, 0, 0, 0, 0, 0, 0, 0, 0, 0,
    0, 0, 0, 0, 0, 0, 0, 0, 0, 0, 0, 0,
    0, 0, 0, 0, 0, 0, 0, 0, 0, 0, 0, 0,
    0, 0, 0, 0, 0, 0, 0, 0]"

definition gs_toupper_map_table_24_b :: "unichar list" where
  "gs_toupper_map_table_24_b = [
    0, 0, 0, 0, 0, 0, 0, 0, 0, 0, 0, 0,
    0, 0, 0, 0, 0, 0, 0, 0, 0, 0, 0, 0,
    0, 0, 0, 0, 0, 0, 0, 0, 0, 0, 0, 0,
    0, 0, 0, 0, 0, 0, 0, 0, 0, 0, 0, 0,
    0, 0, 0, 0, 0, 0, 0, 0, 0, 0, 0, 0,
    0, 0, 0, 0, 0, 0, 0, 0, 0, 0, 0, 0,
    0, 0, 0, 0, 0, 0, 0, 0, 0x24B6, 0x24B7, 0x24B8, 0x24B9,
    0x24BA, 0x24BB, 0x24BC, 0x24BD, 0x24BE, 0x24BF, 0x24C0, 0x24C1, 0x24C2, 0x24C3, 0x24C4, 0x24C5,
    0x24C6, 0x24C7, 0x24C8, 0x24C9, 0x24CA, 0x24CB, 0x24CC, 0x24CD, 0x24CE, 0x24CF, 0, 0,
    0, 0, 0, 0, 0, 0, 0, 0, 0, 0, 0, 0,
    0, 0, 0, 0, 0, 0, 0, 0]"

definition gs_toupper_map_table_24 :: "unichar list" where
  "gs_toupper_map_table_24 = gs_toupper_map_table_24_a @ gs_toupper_map_table_24_b"

definition gs_toupper_map_table_ff_a :: "unichar list" where
  "gs_toupper_map_table_ff_a = [
    0, 0, 0, 0, 0, 0, 0, 0, 0, 0, 0, 0,
    0, 0, 0, 0, 0, 0, 0, 0, 0, 0, 0, 0,
    0, 0, 0, 0, 0, 0, 0, 0, 0, 0, 0, 0,
    0, 0, 0, 0, 0, 0, 0, 0, 0, 0, 0, 0,
    0, 0, 0, 0, 0, 0, 0, 0, 0, 0, 0, 0,
    0, 0, 0, 0, 0, 0xFF21, 0xFF22, 0xFF23, 0xFF24, 0xFF25, 0xFF26, 0xFF27,
    0xFF28, 0xFF29, 0xFF2A, 0xFF2B, 0xFF2C, 0xFF2D, 0xFF2E, 0xFF2F, 0xFF30, 0xFF31, 0xFF32, 0xFF33,
    0xFF34, 0xFF35, 0xFF36, 0xFF37, 0xFF38, 0xFF39, 0xFF3A, 0, 0, 0, 0, 0,
    0, 0, 0, 0, 0, 0, 0, 0, 0, 0, 0, 0,
    0, 0, 0, 0, 0, 0, 0, 0, 0, 0, 0, 0,
    0, 0, 0, 0, 0, 0, 0, 0]"

definition gs_toupper_map_table_ff_b :: "unichar list" where
  "gs_toupper_map_table_ff_b = [
    0, 0, 0, 0, 0, 0, 0, 0, 0, 0, 0, 0,
    0, 0, 0, 0, 0, 0, 0, 0, 0, 0, 0, 0,
    0, 0, 0, 0, 0, 0, 0, 0, 0, 0, 0, 0,
    0, 0, 0, 0, 0, 0, 0, 0, 0, 0, 0, 0,
    0, 0, 0, 0, 0, 0, 0, 0, 0, 0, 0, 0,
    0, 0, 0, 0, 0, 0, 0, 0, 0, 0, 0, 0,
    0, 0, 0, 0, 0, 0, 0, 0, 0, 0, 0, 0,
    0, 0, 0, 0, 0, 0, 0, 0, 0, 0, 0, 0,
    0, 0, 0, 0, 0, 0, 0, 0, 0, 0, 0, 0,
    0, 0, 0, 0, 0, 0, 0, 0, 0, 0, 0, 0,
    0, 0, 0, 0, 0, 0, 0, 0]"

definition gs_toupper_map_table_ff :: "unichar list" where
  "gs_toupper_map_table_ff = gs_toupper_map_table_ff_a @ gs_toupper_map_table_ff_b"

definition gs_toupper_map_a :: "unichar list list" where
  "gs_toupper_map_a = [
    gs_toupper_map_table_0, gs_toupper_map_table_1, gs_toupper_map_table_2, gs_toupper_map_table_3,
    gs_toupper_map_table_4, gs_toupper_map_table_5, gs_casemap_empty_table, gs_casemap_empty_table,
    gs_casemap_empty_table, gs_casemap_empty_table, gs_casemap_empty_table, gs_casemap_empty_table,
    gs_casemap_empty_table, gs_casemap_empty_table, gs_casemap_empty_table, gs_casemap_empty_table,
    gs_casemap_empty_table, gs_casemap_empty_table, gs_casemap_empty_table, gs_casemap_empty_table,
    gs_casemap_empty_table, gs_casemap_empty_table, gs_casemap_empty_table, gs_casemap_empty_table,
    gs_casemap_empty_table, gs_casemap_empty_table, gs_casemap_empty_table, gs_casemap_empty_table,
    gs_casemap_empty_table, gs_casemap_empty_table, gs_toupper_map_table_1e, gs_toupper_map_table_1f,
    gs_casemap_empty_table, gs_toupper_map_table_21, gs_casemap_empty_table, gs_casemap_empty_table,
    gs_toupper_map_table_24, gs_casemap_empty_table, gs_casemap_empty_table, gs_casemap_empty_table,
    gs_casemap_empty_table, gs_casemap_empty_table, gs_casemap_empty_table, gs_casemap_empty_table,
    gs_casemap_empty_table, gs_casemap_empty_table, gs_casemap_empty_table, gs_casemap_empty_table,
    gs_casemap_empty_table, gs_casemap_empty_table, gs_casemap_empty_table, gs_casemap_empty_table,
    gs_casemap_empty_table, gs_casemap_empty_table, gs_casemap_empty_table, gs_casemap_empty_table,
    gs_casemap_empty_table, gs_casemap_empty_table, gs_casemap_empty_table, gs_casemap_empty_table,
    gs_casemap_empty_table, gs_casemap_empty_table, gs_casemap_empty_table, gs_casemap_empty_table,
    gs_casemap_empty_table, gs_casemap_empty_table, gs_casemap_empty_table, gs_casemap_empty_table,
    gs_casemap_empty_table, gs_casemap_empty_table, gs_casemap_empty_table, gs_casemap_empty_table,
    gs_casemap_empty_table, gs_casemap_empty_table, gs_casemap_empty_table, gs_casemap_empty_table,
    gs_casemap_empty_table, gs_casemap_empty_table, gs_casemap_empty_table, gs_casemap_empty_table,
    gs_casemap_empty_table, gs_casemap_empty_table, gs_casemap_empty_table, gs_casemap_empty_table,
    gs_casemap_empty_table, gs_casemap_empty_table, gs_casemap_empty_table, gs_casemap_empty_table,
    gs_casemap_empty_table, gs_casemap_empty_table, gs_casemap_empty_table, gs_casemap_empty_table,
    gs_casemap_empty_table, gs_casemap_empty_table, gs_casemap_empty_table, gs_casemap_empty_table,
    gs_casemap_empty_table, gs_casemap_empty_table, gs_casemap_empty_table, gs_casemap_empty_table,
    gs_casemap_empty_table, gs_casemap_empty_table, gs_casemap_empty_table, gs_casemap_empty_table,
    gs_casemap_empty_table, gs_casemap_empty_table, gs_casemap_empty_table, gs_casemap_empty_table,
    gs_casemap_empty_table, gs_casemap_empty_table, gs_casemap_empty_table, gs_casemap_empty_table,
    gs_casemap_empty_table, gs_casemap_empty_table, gs_casemap_empty_table, gs_casemap_empty_table,
    gs_casemap_empty_table, gs_casemap_empty_table, gs_casemap_empty_table, gs_casemap_empty_table,
    gs_casemap_empty_table, gs_casemap_empty_table, gs_casemap_empty_table, gs_casemap_empty_table,
    gs_casemap_empty_table, gs_casemap_empty_table, gs_casemap_empty_table, gs_casemap_empty_table]"

definition gs_toupper_map_b :: "unichar list list" where
  "gs_toupper_map_b = [
    gs_casemap_empty_table, gs_casemap_empty_table, gs_casemap_empty_table, gs_casemap_empty_table,
    gs_casemap_empty_table, gs_casemap_empty_table, gs_casemap_empty_table, gs_casemap_empty_table,
    gs_casemap_empty_table, gs_casemap_empty_table, gs_casemap_empty_table, gs_casemap_empty_table,
    gs_casemap_empty_table, gs_casemap_empty_table, gs_casemap_empty_table, gs_casemap_empty_table,
    gs_casemap_empty_table, gs_casemap_empty_table, gs_casemap_empty_table, gs_casemap_empty_table,
    gs_casemap_empty_table, gs_casemap_empty_table, gs_casemap_empty_table, gs_casemap_empty_table,
    gs_casemap_empty_table, gs_casemap_empty_table, gs_casemap_empty_table, gs_casemap_empty_table,
    gs_casemap_empty_table, gs_casemap_empty_table, gs_casemap_empty_table, gs_casemap_empty_table,
    gs_casemap_empty_table, gs_casemap_empty_table, gs_casemap_empty_table, gs_casemap_empty_table,
    gs_casemap_empty_table, gs_casemap_empty_table, gs_casemap_empty_table, gs_casemap_empty_table,
    gs_casemap_empty_table, gs_casemap_empty_table, gs_casemap_empty_table, gs_casemap_empty_table,
    gs_casemap_empty_table, gs_casemap_empty_table, gs_casemap_empty_table, gs_casemap_empty_table,
    gs_casemap_empty_table, gs_casemap_empty_table, gs_casemap_empty_table, gs_casemap_empty_table,
    gs_casemap_empty_table, gs_casemap_empty_table, gs_casemap_empty_table, gs_casemap_empty_table,
    gs_casemap_empty_table, gs_casemap_empty_table, gs_casemap_empty_table, gs_casemap_empty_table,
    gs_casemap_empty_table, gs_casemap_empty_table, gs_casemap_empty_table, gs_casemap_empty_table,
    gs_casemap_empty_table, gs_casemap_empty_table, gs_casemap_empty_table, gs_casemap_empty_table,
    gs_casemap_empty_table, gs_casemap_empty_table, gs_casemap_empty_table, gs_casemap_empty_table,
    gs_casemap_empty_table, gs_casemap_empty_table, gs_casemap_empty_table, gs_casemap_empty_table,
    gs_casemap_empty_table, gs_casemap_empty_table, gs_casemap_empty_table, gs_casemap_empty_table,
    gs_casemap_empty_table, gs_casemap_empty_table, gs_casemap_empty_table, gs_casemap_empty_table,
    gs_casemap_empty_table, gs_casemap_empty_table, gs_casemap_empty_table, gs_casemap_empty_table,
    gs_casemap_empty_table, gs_casemap_empty_table, gs_casemap_empty_table, gs_casemap_empty_table,
    gs_casemap_empty_table, gs_casemap_empty_table, gs_casemap_empty_table, gs_casemap_empty_table,
    gs_casemap_empty_table, gs_casemap_empty_table, gs_casemap_empty_table, gs_casemap_empty_table,
    gs_casemap_empty_table, gs_casemap_empty_table, gs_casemap_empty_table, gs_casemap_empty_table,
    gs_casemap_empty_table, gs_casemap_empty_table, gs_casemap_empty_table, gs_casemap_empty_table,
    gs_casemap_empty_table, gs_casemap_empty_table, gs_casemap_empty_table, gs_casemap_empty_table,
    gs_casemap_empty_table, gs_casemap_empty_table, gs_casemap_empty_table, gs_casemap_empty_table,
    gs_casemap_empty_table, gs_casemap_empty_table, gs_casemap_empty_table, gs_casemap_empty_table,
    gs_casemap_empty_table, gs_casemap_empty_table, gs_casemap_empty_table, gs_casemap_empty_table,
    gs_casemap_empty_table, gs_casemap_empty_table, gs_casemap_empty_table, gs_toupper_map_table_ff]"

definition gs_toupper_map :: "unichar list list" where
  "gs_toupper_map = gs_toupper_map_a @ gs_toupper_map_b"

section \<open>Case conversion\<close>

definition uni_tolower :: "unichar \<Rightarrow> unichar" where
  "uni_tolower ch =
     (let result = gs_tolower_map ! (ch div 256) ! (ch mod 256) in if result \<noteq> 0 then result else ch)"

definition uni_toupper :: "unichar \<Rightarrow> unichar" where
  "uni_toupper ch =
     (let result = gs_toupper_map ! (ch div 256) ! (ch mod 256) in if result \<noteq> 0 then result else ch)"

end
