(* ===== verification/Table_Checks.thy ===== *)
theory Table_Checks
  imports Unicode_Tables
begin

text \<open>
  Checking character tables entry by entry: that a function, written as a decision tree the
  simplifier evaluates quickly, has the values of a table, and that a condition holds of every entry
  of one.
\<close>

section \<open>Checking tables\<close>

fun fits :: "(nat \<Rightarrow> 'a) \<Rightarrow> nat \<Rightarrow> 'a list \<Rightarrow> bool" where
  "fits f c [] = True"
| "fits f c (v # vs) = (f c = v \<and> fits f (c + 1) vs)"

fun entries_ok :: "(unichar \<Rightarrow> unichar \<Rightarrow> bool) \<Rightarrow> unichar \<Rightarrow> unichar list \<Rightarrow> bool" where
  "entries_ok Q c [] = True"
| "entries_ok Q c (v # vs) = ((if v = 0 then True else Q c v) \<and> entries_ok Q (c + 1) vs)"

lemma fits_append: "fits f c (xs @ ys) \<longleftrightarrow> fits f c xs \<and> fits f (c + length xs) ys"
  by (induction xs arbitrary: c) auto

lemma fits_nth: "fits f c xs \<Longrightarrow> i < length xs \<Longrightarrow> xs ! i = f (c + i)"
  by (induction xs arbitrary: c i) (auto simp: nth_Cons split: nat.splits)

lemma fits_zero: "(\<And>i. i < n \<Longrightarrow> f (c + i) = 0) \<Longrightarrow> fits f c (replicate n 0)"
proof (induction n arbitrary: c)
  case (Suc n)
  then have "fits f (c + 1) (replicate n 0)" by (intro Suc.IH) (metis Suc_less_eq add_Suc_shift Suc_eq_plus1)
  then show ?case using Suc.prems [of 0] by simp
qed simp

lemma entries_ok_append: "entries_ok Q c (xs @ ys) \<longleftrightarrow> entries_ok Q c xs \<and> entries_ok Q (c + length xs) ys"
  by (induction xs arbitrary: c) auto

lemma entries_ok_nth: "entries_ok Q c xs \<Longrightarrow> i < length xs \<Longrightarrow> xs ! i \<noteq> 0 \<Longrightarrow> Q (c + i) (xs ! i)"
proof (induction xs arbitrary: c i)
  case (Cons v vs)
  show ?case
  proof (cases i)
    case (Suc k)
    then show ?thesis using Cons.IH [of "c + 1" k] Cons.prems by simp
  qed (use Cons.prems in \<open>auto split: if_splits\<close>)
qed simp

text \<open>Counting in numerals.\<close>

lemma fits_steps:
  "fits f 0 (v # vs) \<longleftrightarrow> f 0 = v \<and> fits f 1 vs"
  "fits f (Suc 0) (v # vs) \<longleftrightarrow> f 1 = v \<and> fits f 2 vs"
  "fits f (numeral k) (v # vs) \<longleftrightarrow> f (numeral k) = v \<and> fits f (numeral (k + num.One)) vs"
  by (simp, simp add: numeral_2_eq_2, simp only: fits.simps numeral_plus_one)

lemma entries_steps:
  "entries_ok Q 0 (v # vs) \<longleftrightarrow> (if v = 0 then True else Q 0 v) \<and> entries_ok Q 1 vs"
  "entries_ok Q (Suc 0) (v # vs) \<longleftrightarrow> (if v = 0 then True else Q 1 v) \<and> entries_ok Q 2 vs"
  "entries_ok Q (numeral k) (v # vs) \<longleftrightarrow>
     (if v = 0 then True else Q (numeral k) v) \<and> entries_ok Q (numeral (k + num.One)) vs"
  by (simp, simp add: numeral_2_eq_2, simp only: entries_ok.simps numeral_plus_one)

end
