(* ===== verification/Case_Mappings.thy ===== *)
theory Case_Mappings
  imports Case_Tables GSeq_Tables Table_Checks
begin

text \<open>
  The case tables as decision trees, one for each page, that the simplifier evaluates quickly,
  with the proof that they agree with the tables, and the facts about case conversion that
  follow by checking every entry.
\<close>

section \<open>Decision trees\<close>

definition lower_0 :: "unichar \<Rightarrow> unichar" where
  "lower_0 c =
    (if c < 0x00C2 then (if c < 0x004F then (if c < 0x0048 then (if c < 0x0044 then (if c < 0x0042 then
    (if c = 0x0041 then 0x0061 else 0) else (if c < 0x0043 then (if c = 0x0042 then 0x0062 else 0) else
    (if c = 0x0043 then 0x0063 else 0))) else (if c < 0x0046 then (if c < 0x0045 then (if c = 0x0044 then
    0x0064 else 0) else (if c = 0x0045 then 0x0065 else 0)) else (if c < 0x0047 then (if c = 0x0046 then
    0x0066 else 0) else (if c = 0x0047 then 0x0067 else 0)))) else (if c < 0x004B then (if c < 0x0049
    then (if c = 0x0048 then 0x0068 else 0) else (if c < 0x004A then (if c = 0x0049 then 0x0069 else 0)
    else (if c = 0x004A then 0x006A else 0))) else (if c < 0x004D then (if c < 0x004C then (if c = 0x004B
    then 0x006B else 0) else (if c = 0x004C then 0x006C else 0)) else (if c < 0x004E then (if c = 0x004D
    then 0x006D else 0) else (if c = 0x004E then 0x006E else 0))))) else (if c < 0x0056 then (if c <
    0x0052 then (if c < 0x0050 then (if c = 0x004F then 0x006F else 0) else (if c < 0x0051 then (if c =
    0x0050 then 0x0070 else 0) else (if c = 0x0051 then 0x0071 else 0))) else (if c < 0x0054 then (if c <
    0x0053 then (if c = 0x0052 then 0x0072 else 0) else (if c = 0x0053 then 0x0073 else 0)) else (if c <
    0x0055 then (if c = 0x0054 then 0x0074 else 0) else (if c = 0x0055 then 0x0075 else 0)))) else (if c
    < 0x0059 then (if c < 0x0057 then (if c = 0x0056 then 0x0076 else 0) else (if c < 0x0058 then (if c =
    0x0057 then 0x0077 else 0) else (if c = 0x0058 then 0x0078 else 0))) else (if c < 0x00C0 then (if c <
    0x005A then (if c = 0x0059 then 0x0079 else 0) else (if c = 0x005A then 0x007A else 0)) else (if c <
    0x00C1 then (if c = 0x00C0 then 0x00E0 else 0) else (if c = 0x00C1 then 0x00E1 else 0)))))) else (if
    c < 0x00D0 then (if c < 0x00C9 then (if c < 0x00C5 then (if c < 0x00C3 then (if c = 0x00C2 then
    0x00E2 else 0) else (if c < 0x00C4 then (if c = 0x00C3 then 0x00E3 else 0) else (if c = 0x00C4 then
    0x00E4 else 0))) else (if c < 0x00C7 then (if c < 0x00C6 then (if c = 0x00C5 then 0x00E5 else 0) else
    (if c = 0x00C6 then 0x00E6 else 0)) else (if c < 0x00C8 then (if c = 0x00C7 then 0x00E7 else 0) else
    (if c = 0x00C8 then 0x00E8 else 0)))) else (if c < 0x00CC then (if c < 0x00CA then (if c = 0x00C9
    then 0x00E9 else 0) else (if c < 0x00CB then (if c = 0x00CA then 0x00EA else 0) else (if c = 0x00CB
    then 0x00EB else 0))) else (if c < 0x00CE then (if c < 0x00CD then (if c = 0x00CC then 0x00EC else 0)
    else (if c = 0x00CD then 0x00ED else 0)) else (if c < 0x00CF then (if c = 0x00CE then 0x00EE else 0)
    else (if c = 0x00CF then 0x00EF else 0))))) else (if c < 0x00D8 then (if c < 0x00D3 then (if c <
    0x00D1 then (if c = 0x00D0 then 0x00F0 else 0) else (if c < 0x00D2 then (if c = 0x00D1 then 0x00F1
    else 0) else (if c = 0x00D2 then 0x00F2 else 0))) else (if c < 0x00D5 then (if c < 0x00D4 then (if c
    = 0x00D3 then 0x00F3 else 0) else (if c = 0x00D4 then 0x00F4 else 0)) else (if c < 0x00D6 then (if c
    = 0x00D5 then 0x00F5 else 0) else (if c = 0x00D6 then 0x00F6 else 0)))) else (if c < 0x00DB then (if
    c < 0x00D9 then (if c = 0x00D8 then 0x00F8 else 0) else (if c < 0x00DA then (if c = 0x00D9 then
    0x00F9 else 0) else (if c = 0x00DA then 0x00FA else 0))) else (if c < 0x00DD then (if c < 0x00DC then
    (if c = 0x00DB then 0x00FB else 0) else (if c = 0x00DC then 0x00FC else 0)) else (if c < 0x00DE then
    (if c = 0x00DD then 0x00FD else 0) else (if c = 0x00DE then 0x00FE else 0)))))))"

definition lower_1 :: "unichar \<Rightarrow> unichar" where
  "lower_1 c =
    (if c < 0x0184 then (if c < 0x0141 then (if c < 0x0120 then (if c < 0x0110 then (if c < 0x0108 then
    (if c < 0x0104 then (if c < 0x0102 then (if c = 0x0100 then 0x0101 else 0) else (if c = 0x0102 then
    0x0103 else 0)) else (if c < 0x0106 then (if c = 0x0104 then 0x0105 else 0) else (if c = 0x0106 then
    0x0107 else 0))) else (if c < 0x010C then (if c < 0x010A then (if c = 0x0108 then 0x0109 else 0) else
    (if c = 0x010A then 0x010B else 0)) else (if c < 0x010E then (if c = 0x010C then 0x010D else 0) else
    (if c = 0x010E then 0x010F else 0)))) else (if c < 0x0118 then (if c < 0x0114 then (if c < 0x0112
    then (if c = 0x0110 then 0x0111 else 0) else (if c = 0x0112 then 0x0113 else 0)) else (if c < 0x0116
    then (if c = 0x0114 then 0x0115 else 0) else (if c = 0x0116 then 0x0117 else 0))) else (if c < 0x011C
    then (if c < 0x011A then (if c = 0x0118 then 0x0119 else 0) else (if c = 0x011A then 0x011B else 0))
    else (if c < 0x011E then (if c = 0x011C then 0x011D else 0) else (if c = 0x011E then 0x011F else
    0))))) else (if c < 0x0130 then (if c < 0x0128 then (if c < 0x0124 then (if c < 0x0122 then (if c =
    0x0120 then 0x0121 else 0) else (if c = 0x0122 then 0x0123 else 0)) else (if c < 0x0126 then (if c =
    0x0124 then 0x0125 else 0) else (if c = 0x0126 then 0x0127 else 0))) else (if c < 0x012C then (if c <
    0x012A then (if c = 0x0128 then 0x0129 else 0) else (if c = 0x012A then 0x012B else 0)) else (if c <
    0x012E then (if c = 0x012C then 0x012D else 0) else (if c = 0x012E then 0x012F else 0)))) else (if c
    < 0x0139 then (if c < 0x0134 then (if c < 0x0132 then (if c = 0x0130 then 0x0069 else 0) else (if c =
    0x0132 then 0x0133 else 0)) else (if c < 0x0136 then (if c = 0x0134 then 0x0135 else 0) else (if c =
    0x0136 then 0x0137 else 0))) else (if c < 0x013D then (if c < 0x013B then (if c = 0x0139 then 0x013A
    else 0) else (if c = 0x013B then 0x013C else 0)) else (if c < 0x013F then (if c = 0x013D then 0x013E
    else 0) else (if c = 0x013F then 0x0140 else 0)))))) else (if c < 0x0162 then (if c < 0x0152 then (if
    c < 0x014A then (if c < 0x0145 then (if c < 0x0143 then (if c = 0x0141 then 0x0142 else 0) else (if c
    = 0x0143 then 0x0144 else 0)) else (if c < 0x0147 then (if c = 0x0145 then 0x0146 else 0) else (if c
    = 0x0147 then 0x0148 else 0))) else (if c < 0x014E then (if c < 0x014C then (if c = 0x014A then
    0x014B else 0) else (if c = 0x014C then 0x014D else 0)) else (if c < 0x0150 then (if c = 0x014E then
    0x014F else 0) else (if c = 0x0150 then 0x0151 else 0)))) else (if c < 0x015A then (if c < 0x0156
    then (if c < 0x0154 then (if c = 0x0152 then 0x0153 else 0) else (if c = 0x0154 then 0x0155 else 0))
    else (if c < 0x0158 then (if c = 0x0156 then 0x0157 else 0) else (if c = 0x0158 then 0x0159 else 0)))
    else (if c < 0x015E then (if c < 0x015C then (if c = 0x015A then 0x015B else 0) else (if c = 0x015C
    then 0x015D else 0)) else (if c < 0x0160 then (if c = 0x015E then 0x015F else 0) else (if c = 0x0160
    then 0x0161 else 0))))) else (if c < 0x0172 then (if c < 0x016A then (if c < 0x0166 then (if c <
    0x0164 then (if c = 0x0162 then 0x0163 else 0) else (if c = 0x0164 then 0x0165 else 0)) else (if c <
    0x0168 then (if c = 0x0166 then 0x0167 else 0) else (if c = 0x0168 then 0x0169 else 0))) else (if c <
    0x016E then (if c < 0x016C then (if c = 0x016A then 0x016B else 0) else (if c = 0x016C then 0x016D
    else 0)) else (if c < 0x0170 then (if c = 0x016E then 0x016F else 0) else (if c = 0x0170 then 0x0171
    else 0)))) else (if c < 0x0179 then (if c < 0x0176 then (if c < 0x0174 then (if c = 0x0172 then
    0x0173 else 0) else (if c = 0x0174 then 0x0175 else 0)) else (if c < 0x0178 then (if c = 0x0176 then
    0x0177 else 0) else (if c = 0x0178 then 0x00FF else 0))) else (if c < 0x017D then (if c < 0x017B then
    (if c = 0x0179 then 0x017A else 0) else (if c = 0x017B then 0x017C else 0)) else (if c < 0x0181 then
    (if c = 0x017D then 0x017E else 0) else (if c < 0x0182 then (if c = 0x0181 then 0x0253 else 0) else
    (if c = 0x0182 then 0x0183 else 0)))))))) else (if c < 0x01BC then (if c < 0x019D then (if c < 0x0190
    then (if c < 0x018A then (if c < 0x0187 then (if c < 0x0186 then (if c = 0x0184 then 0x0185 else 0)
    else (if c = 0x0186 then 0x0254 else 0)) else (if c < 0x0189 then (if c = 0x0187 then 0x0188 else 0)
    else (if c = 0x0189 then 0x0256 else 0))) else (if c < 0x018E then (if c < 0x018B then (if c = 0x018A
    then 0x0257 else 0) else (if c = 0x018B then 0x018C else 0)) else (if c < 0x018F then (if c = 0x018E
    then 0x01DD else 0) else (if c = 0x018F then 0x0259 else 0)))) else (if c < 0x0196 then (if c <
    0x0193 then (if c < 0x0191 then (if c = 0x0190 then 0x025B else 0) else (if c = 0x0191 then 0x0192
    else 0)) else (if c < 0x0194 then (if c = 0x0193 then 0x0260 else 0) else (if c = 0x0194 then 0x0263
    else 0))) else (if c < 0x0198 then (if c < 0x0197 then (if c = 0x0196 then 0x0269 else 0) else (if c
    = 0x0197 then 0x0268 else 0)) else (if c < 0x019C then (if c = 0x0198 then 0x0199 else 0) else (if c
    = 0x019C then 0x026F else 0))))) else (if c < 0x01AC then (if c < 0x01A4 then (if c < 0x01A0 then (if
    c < 0x019F then (if c = 0x019D then 0x0272 else 0) else (if c = 0x019F then 0x0275 else 0)) else (if
    c < 0x01A2 then (if c = 0x01A0 then 0x01A1 else 0) else (if c = 0x01A2 then 0x01A3 else 0))) else (if
    c < 0x01A7 then (if c < 0x01A6 then (if c = 0x01A4 then 0x01A5 else 0) else (if c = 0x01A6 then
    0x0280 else 0)) else (if c < 0x01A9 then (if c = 0x01A7 then 0x01A8 else 0) else (if c = 0x01A9 then
    0x0283 else 0)))) else (if c < 0x01B2 then (if c < 0x01AF then (if c < 0x01AE then (if c = 0x01AC
    then 0x01AD else 0) else (if c = 0x01AE then 0x0288 else 0)) else (if c < 0x01B1 then (if c = 0x01AF
    then 0x01B0 else 0) else (if c = 0x01B1 then 0x028A else 0))) else (if c < 0x01B5 then (if c < 0x01B3
    then (if c = 0x01B2 then 0x028B else 0) else (if c = 0x01B3 then 0x01B4 else 0)) else (if c < 0x01B7
    then (if c = 0x01B5 then 0x01B6 else 0) else (if c < 0x01B8 then (if c = 0x01B7 then 0x0292 else 0)
    else (if c = 0x01B8 then 0x01B9 else 0))))))) else (if c < 0x01E0 then (if c < 0x01CF then (if c <
    0x01C8 then (if c < 0x01C5 then (if c < 0x01C4 then (if c = 0x01BC then 0x01BD else 0) else (if c =
    0x01C4 then 0x01C6 else 0)) else (if c < 0x01C7 then (if c = 0x01C5 then 0x01C6 else 0) else (if c =
    0x01C7 then 0x01C9 else 0))) else (if c < 0x01CB then (if c < 0x01CA then (if c = 0x01C8 then 0x01C9
    else 0) else (if c = 0x01CA then 0x01CC else 0)) else (if c < 0x01CD then (if c = 0x01CB then 0x01CC
    else 0) else (if c = 0x01CD then 0x01CE else 0)))) else (if c < 0x01D7 then (if c < 0x01D3 then (if c
    < 0x01D1 then (if c = 0x01CF then 0x01D0 else 0) else (if c = 0x01D1 then 0x01D2 else 0)) else (if c
    < 0x01D5 then (if c = 0x01D3 then 0x01D4 else 0) else (if c = 0x01D5 then 0x01D6 else 0))) else (if c
    < 0x01DB then (if c < 0x01D9 then (if c = 0x01D7 then 0x01D8 else 0) else (if c = 0x01D9 then 0x01DA
    else 0)) else (if c < 0x01DE then (if c = 0x01DB then 0x01DC else 0) else (if c = 0x01DE then 0x01DF
    else 0))))) else (if c < 0x01F1 then (if c < 0x01E8 then (if c < 0x01E4 then (if c < 0x01E2 then (if
    c = 0x01E0 then 0x01E1 else 0) else (if c = 0x01E2 then 0x01E3 else 0)) else (if c < 0x01E6 then (if
    c = 0x01E4 then 0x01E5 else 0) else (if c = 0x01E6 then 0x01E7 else 0))) else (if c < 0x01EC then (if
    c < 0x01EA then (if c = 0x01E8 then 0x01E9 else 0) else (if c = 0x01EA then 0x01EB else 0)) else (if
    c < 0x01EE then (if c = 0x01EC then 0x01ED else 0) else (if c = 0x01EE then 0x01EF else 0)))) else
    (if c < 0x01F7 then (if c < 0x01F4 then (if c < 0x01F2 then (if c = 0x01F1 then 0x01F3 else 0) else
    (if c = 0x01F2 then 0x01F3 else 0)) else (if c < 0x01F6 then (if c = 0x01F4 then 0x01F5 else 0) else
    (if c = 0x01F6 then 0x0195 else 0))) else (if c < 0x01FA then (if c < 0x01F8 then (if c = 0x01F7 then
    0x01BF else 0) else (if c = 0x01F8 then 0x01F9 else 0)) else (if c < 0x01FC then (if c = 0x01FA then
    0x01FB else 0) else (if c < 0x01FE then (if c = 0x01FC then 0x01FD else 0) else (if c = 0x01FE then
    0x01FF else 0)))))))))"

definition lower_2 :: "unichar \<Rightarrow> unichar" where
  "lower_2 c =
    (if c < 0x0218 then (if c < 0x020C then (if c < 0x0206 then (if c < 0x0202 then (if c = 0x0200 then
    0x0201 else 0) else (if c < 0x0204 then (if c = 0x0202 then 0x0203 else 0) else (if c = 0x0204 then
    0x0205 else 0))) else (if c < 0x0208 then (if c = 0x0206 then 0x0207 else 0) else (if c < 0x020A then
    (if c = 0x0208 then 0x0209 else 0) else (if c = 0x020A then 0x020B else 0)))) else (if c < 0x0212
    then (if c < 0x020E then (if c = 0x020C then 0x020D else 0) else (if c < 0x0210 then (if c = 0x020E
    then 0x020F else 0) else (if c = 0x0210 then 0x0211 else 0))) else (if c < 0x0214 then (if c = 0x0212
    then 0x0213 else 0) else (if c < 0x0216 then (if c = 0x0214 then 0x0215 else 0) else (if c = 0x0216
    then 0x0217 else 0))))) else (if c < 0x0226 then (if c < 0x021E then (if c < 0x021A then (if c =
    0x0218 then 0x0219 else 0) else (if c < 0x021C then (if c = 0x021A then 0x021B else 0) else (if c =
    0x021C then 0x021D else 0))) else (if c < 0x0222 then (if c = 0x021E then 0x021F else 0) else (if c <
    0x0224 then (if c = 0x0222 then 0x0223 else 0) else (if c = 0x0224 then 0x0225 else 0)))) else (if c
    < 0x022C then (if c < 0x0228 then (if c = 0x0226 then 0x0227 else 0) else (if c < 0x022A then (if c =
    0x0228 then 0x0229 else 0) else (if c = 0x022A then 0x022B else 0))) else (if c < 0x0230 then (if c <
    0x022E then (if c = 0x022C then 0x022D else 0) else (if c = 0x022E then 0x022F else 0)) else (if c <
    0x0232 then (if c = 0x0230 then 0x0231 else 0) else (if c = 0x0232 then 0x0233 else 0))))))"

definition lower_3 :: "unichar \<Rightarrow> unichar" where
  "lower_3 c =
    (if c < 0x03A0 then (if c < 0x0395 then (if c < 0x038E then (if c < 0x0389 then (if c < 0x0388 then
    (if c = 0x0386 then 0x03AC else 0) else (if c = 0x0388 then 0x03AD else 0)) else (if c < 0x038A then
    (if c = 0x0389 then 0x03AE else 0) else (if c < 0x038C then (if c = 0x038A then 0x03AF else 0) else
    (if c = 0x038C then 0x03CC else 0)))) else (if c < 0x0392 then (if c < 0x038F then (if c = 0x038E
    then 0x03CD else 0) else (if c < 0x0391 then (if c = 0x038F then 0x03CE else 0) else (if c = 0x0391
    then 0x03B1 else 0))) else (if c < 0x0393 then (if c = 0x0392 then 0x03B2 else 0) else (if c < 0x0394
    then (if c = 0x0393 then 0x03B3 else 0) else (if c = 0x0394 then 0x03B4 else 0))))) else (if c <
    0x039A then (if c < 0x0397 then (if c < 0x0396 then (if c = 0x0395 then 0x03B5 else 0) else (if c =
    0x0396 then 0x03B6 else 0)) else (if c < 0x0398 then (if c = 0x0397 then 0x03B7 else 0) else (if c <
    0x0399 then (if c = 0x0398 then 0x03B8 else 0) else (if c = 0x0399 then 0x03B9 else 0)))) else (if c
    < 0x039D then (if c < 0x039B then (if c = 0x039A then 0x03BA else 0) else (if c < 0x039C then (if c =
    0x039B then 0x03BB else 0) else (if c = 0x039C then 0x03BC else 0))) else (if c < 0x039E then (if c =
    0x039D then 0x03BD else 0) else (if c < 0x039F then (if c = 0x039E then 0x03BE else 0) else (if c =
    0x039F then 0x03BF else 0)))))) else (if c < 0x03DA then (if c < 0x03A6 then (if c < 0x03A3 then (if
    c < 0x03A1 then (if c = 0x03A0 then 0x03C0 else 0) else (if c = 0x03A1 then 0x03C1 else 0)) else (if
    c < 0x03A4 then (if c = 0x03A3 then 0x03C3 else 0) else (if c < 0x03A5 then (if c = 0x03A4 then
    0x03C4 else 0) else (if c = 0x03A5 then 0x03C5 else 0)))) else (if c < 0x03A9 then (if c < 0x03A7
    then (if c = 0x03A6 then 0x03C6 else 0) else (if c < 0x03A8 then (if c = 0x03A7 then 0x03C7 else 0)
    else (if c = 0x03A8 then 0x03C8 else 0))) else (if c < 0x03AA then (if c = 0x03A9 then 0x03C9 else 0)
    else (if c < 0x03AB then (if c = 0x03AA then 0x03CA else 0) else (if c = 0x03AB then 0x03CB else
    0))))) else (if c < 0x03E4 then (if c < 0x03DE then (if c < 0x03DC then (if c = 0x03DA then 0x03DB
    else 0) else (if c = 0x03DC then 0x03DD else 0)) else (if c < 0x03E0 then (if c = 0x03DE then 0x03DF
    else 0) else (if c < 0x03E2 then (if c = 0x03E0 then 0x03E1 else 0) else (if c = 0x03E2 then 0x03E3
    else 0)))) else (if c < 0x03EA then (if c < 0x03E6 then (if c = 0x03E4 then 0x03E5 else 0) else (if c
    < 0x03E8 then (if c = 0x03E6 then 0x03E7 else 0) else (if c = 0x03E8 then 0x03E9 else 0))) else (if c
    < 0x03EC then (if c = 0x03EA then 0x03EB else 0) else (if c < 0x03EE then (if c = 0x03EC then 0x03ED
    else 0) else (if c = 0x03EE then 0x03EF else 0)))))))"

definition lower_4 :: "unichar \<Rightarrow> unichar" where
  "lower_4 c =
    (if c < 0x0472 then (if c < 0x041C then (if c < 0x040E then (if c < 0x0407 then (if c < 0x0403 then
    (if c < 0x0401 then (if c = 0x0400 then 0x0450 else 0) else (if c < 0x0402 then (if c = 0x0401 then
    0x0451 else 0) else (if c = 0x0402 then 0x0452 else 0))) else (if c < 0x0405 then (if c < 0x0404 then
    (if c = 0x0403 then 0x0453 else 0) else (if c = 0x0404 then 0x0454 else 0)) else (if c < 0x0406 then
    (if c = 0x0405 then 0x0455 else 0) else (if c = 0x0406 then 0x0456 else 0)))) else (if c < 0x040A
    then (if c < 0x0408 then (if c = 0x0407 then 0x0457 else 0) else (if c < 0x0409 then (if c = 0x0408
    then 0x0458 else 0) else (if c = 0x0409 then 0x0459 else 0))) else (if c < 0x040C then (if c < 0x040B
    then (if c = 0x040A then 0x045A else 0) else (if c = 0x040B then 0x045B else 0)) else (if c < 0x040D
    then (if c = 0x040C then 0x045C else 0) else (if c = 0x040D then 0x045D else 0))))) else (if c <
    0x0415 then (if c < 0x0411 then (if c < 0x040F then (if c = 0x040E then 0x045E else 0) else (if c <
    0x0410 then (if c = 0x040F then 0x045F else 0) else (if c = 0x0410 then 0x0430 else 0))) else (if c <
    0x0413 then (if c < 0x0412 then (if c = 0x0411 then 0x0431 else 0) else (if c = 0x0412 then 0x0432
    else 0)) else (if c < 0x0414 then (if c = 0x0413 then 0x0433 else 0) else (if c = 0x0414 then 0x0434
    else 0)))) else (if c < 0x0418 then (if c < 0x0416 then (if c = 0x0415 then 0x0435 else 0) else (if c
    < 0x0417 then (if c = 0x0416 then 0x0436 else 0) else (if c = 0x0417 then 0x0437 else 0))) else (if c
    < 0x041A then (if c < 0x0419 then (if c = 0x0418 then 0x0438 else 0) else (if c = 0x0419 then 0x0439
    else 0)) else (if c < 0x041B then (if c = 0x041A then 0x043A else 0) else (if c = 0x041B then 0x043B
    else 0)))))) else (if c < 0x042A then (if c < 0x0423 then (if c < 0x041F then (if c < 0x041D then (if
    c = 0x041C then 0x043C else 0) else (if c < 0x041E then (if c = 0x041D then 0x043D else 0) else (if c
    = 0x041E then 0x043E else 0))) else (if c < 0x0421 then (if c < 0x0420 then (if c = 0x041F then
    0x043F else 0) else (if c = 0x0420 then 0x0440 else 0)) else (if c < 0x0422 then (if c = 0x0421 then
    0x0441 else 0) else (if c = 0x0422 then 0x0442 else 0)))) else (if c < 0x0426 then (if c < 0x0424
    then (if c = 0x0423 then 0x0443 else 0) else (if c < 0x0425 then (if c = 0x0424 then 0x0444 else 0)
    else (if c = 0x0425 then 0x0445 else 0))) else (if c < 0x0428 then (if c < 0x0427 then (if c = 0x0426
    then 0x0446 else 0) else (if c = 0x0427 then 0x0447 else 0)) else (if c < 0x0429 then (if c = 0x0428
    then 0x0448 else 0) else (if c = 0x0429 then 0x0449 else 0))))) else (if c < 0x0462 then (if c <
    0x042D then (if c < 0x042B then (if c = 0x042A then 0x044A else 0) else (if c < 0x042C then (if c =
    0x042B then 0x044B else 0) else (if c = 0x042C then 0x044C else 0))) else (if c < 0x042F then (if c <
    0x042E then (if c = 0x042D then 0x044D else 0) else (if c = 0x042E then 0x044E else 0)) else (if c <
    0x0460 then (if c = 0x042F then 0x044F else 0) else (if c = 0x0460 then 0x0461 else 0)))) else (if c
    < 0x046A then (if c < 0x0466 then (if c < 0x0464 then (if c = 0x0462 then 0x0463 else 0) else (if c =
    0x0464 then 0x0465 else 0)) else (if c < 0x0468 then (if c = 0x0466 then 0x0467 else 0) else (if c =
    0x0468 then 0x0469 else 0))) else (if c < 0x046E then (if c < 0x046C then (if c = 0x046A then 0x046B
    else 0) else (if c = 0x046C then 0x046D else 0)) else (if c < 0x0470 then (if c = 0x046E then 0x046F
    else 0) else (if c = 0x0470 then 0x0471 else 0))))))) else (if c < 0x04B6 then (if c < 0x0498 then
    (if c < 0x0480 then (if c < 0x0478 then (if c < 0x0474 then (if c = 0x0472 then 0x0473 else 0) else
    (if c < 0x0476 then (if c = 0x0474 then 0x0475 else 0) else (if c = 0x0476 then 0x0477 else 0))) else
    (if c < 0x047C then (if c < 0x047A then (if c = 0x0478 then 0x0479 else 0) else (if c = 0x047A then
    0x047B else 0)) else (if c < 0x047E then (if c = 0x047C then 0x047D else 0) else (if c = 0x047E then
    0x047F else 0)))) else (if c < 0x0490 then (if c < 0x048C then (if c = 0x0480 then 0x0481 else 0)
    else (if c < 0x048E then (if c = 0x048C then 0x048D else 0) else (if c = 0x048E then 0x048F else 0)))
    else (if c < 0x0494 then (if c < 0x0492 then (if c = 0x0490 then 0x0491 else 0) else (if c = 0x0492
    then 0x0493 else 0)) else (if c < 0x0496 then (if c = 0x0494 then 0x0495 else 0) else (if c = 0x0496
    then 0x0497 else 0))))) else (if c < 0x04A6 then (if c < 0x049E then (if c < 0x049A then (if c =
    0x0498 then 0x0499 else 0) else (if c < 0x049C then (if c = 0x049A then 0x049B else 0) else (if c =
    0x049C then 0x049D else 0))) else (if c < 0x04A2 then (if c < 0x04A0 then (if c = 0x049E then 0x049F
    else 0) else (if c = 0x04A0 then 0x04A1 else 0)) else (if c < 0x04A4 then (if c = 0x04A2 then 0x04A3
    else 0) else (if c = 0x04A4 then 0x04A5 else 0)))) else (if c < 0x04AE then (if c < 0x04AA then (if c
    < 0x04A8 then (if c = 0x04A6 then 0x04A7 else 0) else (if c = 0x04A8 then 0x04A9 else 0)) else (if c
    < 0x04AC then (if c = 0x04AA then 0x04AB else 0) else (if c = 0x04AC then 0x04AD else 0))) else (if c
    < 0x04B2 then (if c < 0x04B0 then (if c = 0x04AE then 0x04AF else 0) else (if c = 0x04B0 then 0x04B1
    else 0)) else (if c < 0x04B4 then (if c = 0x04B2 then 0x04B3 else 0) else (if c = 0x04B4 then 0x04B5
    else 0)))))) else (if c < 0x04DA then (if c < 0x04C7 then (if c < 0x04BC then (if c < 0x04B8 then (if
    c = 0x04B6 then 0x04B7 else 0) else (if c < 0x04BA then (if c = 0x04B8 then 0x04B9 else 0) else (if c
    = 0x04BA then 0x04BB else 0))) else (if c < 0x04C1 then (if c < 0x04BE then (if c = 0x04BC then
    0x04BD else 0) else (if c = 0x04BE then 0x04BF else 0)) else (if c < 0x04C3 then (if c = 0x04C1 then
    0x04C2 else 0) else (if c = 0x04C3 then 0x04C4 else 0)))) else (if c < 0x04D2 then (if c < 0x04CB
    then (if c = 0x04C7 then 0x04C8 else 0) else (if c < 0x04D0 then (if c = 0x04CB then 0x04CC else 0)
    else (if c = 0x04D0 then 0x04D1 else 0))) else (if c < 0x04D6 then (if c < 0x04D4 then (if c = 0x04D2
    then 0x04D3 else 0) else (if c = 0x04D4 then 0x04D5 else 0)) else (if c < 0x04D8 then (if c = 0x04D6
    then 0x04D7 else 0) else (if c = 0x04D8 then 0x04D9 else 0))))) else (if c < 0x04E8 then (if c <
    0x04E0 then (if c < 0x04DC then (if c = 0x04DA then 0x04DB else 0) else (if c < 0x04DE then (if c =
    0x04DC then 0x04DD else 0) else (if c = 0x04DE then 0x04DF else 0))) else (if c < 0x04E4 then (if c <
    0x04E2 then (if c = 0x04E0 then 0x04E1 else 0) else (if c = 0x04E2 then 0x04E3 else 0)) else (if c <
    0x04E6 then (if c = 0x04E4 then 0x04E5 else 0) else (if c = 0x04E6 then 0x04E7 else 0)))) else (if c
    < 0x04F0 then (if c < 0x04EC then (if c < 0x04EA then (if c = 0x04E8 then 0x04E9 else 0) else (if c =
    0x04EA then 0x04EB else 0)) else (if c < 0x04EE then (if c = 0x04EC then 0x04ED else 0) else (if c =
    0x04EE then 0x04EF else 0))) else (if c < 0x04F4 then (if c < 0x04F2 then (if c = 0x04F0 then 0x04F1
    else 0) else (if c = 0x04F2 then 0x04F3 else 0)) else (if c < 0x04F8 then (if c = 0x04F4 then 0x04F5
    else 0) else (if c = 0x04F8 then 0x04F9 else 0))))))))"

definition lower_5 :: "unichar \<Rightarrow> unichar" where
  "lower_5 c =
    (if c < 0x0544 then (if c < 0x053A then (if c < 0x0535 then (if c < 0x0533 then (if c < 0x0532 then
    (if c = 0x0531 then 0x0561 else 0) else (if c = 0x0532 then 0x0562 else 0)) else (if c < 0x0534 then
    (if c = 0x0533 then 0x0563 else 0) else (if c = 0x0534 then 0x0564 else 0))) else (if c < 0x0537 then
    (if c < 0x0536 then (if c = 0x0535 then 0x0565 else 0) else (if c = 0x0536 then 0x0566 else 0)) else
    (if c < 0x0538 then (if c = 0x0537 then 0x0567 else 0) else (if c < 0x0539 then (if c = 0x0538 then
    0x0568 else 0) else (if c = 0x0539 then 0x0569 else 0))))) else (if c < 0x053F then (if c < 0x053C
    then (if c < 0x053B then (if c = 0x053A then 0x056A else 0) else (if c = 0x053B then 0x056B else 0))
    else (if c < 0x053D then (if c = 0x053C then 0x056C else 0) else (if c < 0x053E then (if c = 0x053D
    then 0x056D else 0) else (if c = 0x053E then 0x056E else 0)))) else (if c < 0x0541 then (if c <
    0x0540 then (if c = 0x053F then 0x056F else 0) else (if c = 0x0540 then 0x0570 else 0)) else (if c <
    0x0542 then (if c = 0x0541 then 0x0571 else 0) else (if c < 0x0543 then (if c = 0x0542 then 0x0572
    else 0) else (if c = 0x0543 then 0x0573 else 0)))))) else (if c < 0x054D then (if c < 0x0548 then (if
    c < 0x0546 then (if c < 0x0545 then (if c = 0x0544 then 0x0574 else 0) else (if c = 0x0545 then
    0x0575 else 0)) else (if c < 0x0547 then (if c = 0x0546 then 0x0576 else 0) else (if c = 0x0547 then
    0x0577 else 0))) else (if c < 0x054A then (if c < 0x0549 then (if c = 0x0548 then 0x0578 else 0) else
    (if c = 0x0549 then 0x0579 else 0)) else (if c < 0x054B then (if c = 0x054A then 0x057A else 0) else
    (if c < 0x054C then (if c = 0x054B then 0x057B else 0) else (if c = 0x054C then 0x057C else 0)))))
    else (if c < 0x0552 then (if c < 0x054F then (if c < 0x054E then (if c = 0x054D then 0x057D else 0)
    else (if c = 0x054E then 0x057E else 0)) else (if c < 0x0550 then (if c = 0x054F then 0x057F else 0)
    else (if c < 0x0551 then (if c = 0x0550 then 0x0580 else 0) else (if c = 0x0551 then 0x0581 else
    0)))) else (if c < 0x0554 then (if c < 0x0553 then (if c = 0x0552 then 0x0582 else 0) else (if c =
    0x0553 then 0x0583 else 0)) else (if c < 0x0555 then (if c = 0x0554 then 0x0584 else 0) else (if c <
    0x0556 then (if c = 0x0555 then 0x0585 else 0) else (if c = 0x0556 then 0x0586 else 0)))))))"

definition lower_1e :: "unichar \<Rightarrow> unichar" where
  "lower_1e c =
    (if c < 0x1E78 then (if c < 0x1E3C then (if c < 0x1E1E then (if c < 0x1E0E then (if c < 0x1E06 then
    (if c < 0x1E02 then (if c = 0x1E00 then 0x1E01 else 0) else (if c < 0x1E04 then (if c = 0x1E02 then
    0x1E03 else 0) else (if c = 0x1E04 then 0x1E05 else 0))) else (if c < 0x1E0A then (if c < 0x1E08 then
    (if c = 0x1E06 then 0x1E07 else 0) else (if c = 0x1E08 then 0x1E09 else 0)) else (if c < 0x1E0C then
    (if c = 0x1E0A then 0x1E0B else 0) else (if c = 0x1E0C then 0x1E0D else 0)))) else (if c < 0x1E16
    then (if c < 0x1E12 then (if c < 0x1E10 then (if c = 0x1E0E then 0x1E0F else 0) else (if c = 0x1E10
    then 0x1E11 else 0)) else (if c < 0x1E14 then (if c = 0x1E12 then 0x1E13 else 0) else (if c = 0x1E14
    then 0x1E15 else 0))) else (if c < 0x1E1A then (if c < 0x1E18 then (if c = 0x1E16 then 0x1E17 else 0)
    else (if c = 0x1E18 then 0x1E19 else 0)) else (if c < 0x1E1C then (if c = 0x1E1A then 0x1E1B else 0)
    else (if c = 0x1E1C then 0x1E1D else 0))))) else (if c < 0x1E2C then (if c < 0x1E24 then (if c <
    0x1E20 then (if c = 0x1E1E then 0x1E1F else 0) else (if c < 0x1E22 then (if c = 0x1E20 then 0x1E21
    else 0) else (if c = 0x1E22 then 0x1E23 else 0))) else (if c < 0x1E28 then (if c < 0x1E26 then (if c
    = 0x1E24 then 0x1E25 else 0) else (if c = 0x1E26 then 0x1E27 else 0)) else (if c < 0x1E2A then (if c
    = 0x1E28 then 0x1E29 else 0) else (if c = 0x1E2A then 0x1E2B else 0)))) else (if c < 0x1E34 then (if
    c < 0x1E30 then (if c < 0x1E2E then (if c = 0x1E2C then 0x1E2D else 0) else (if c = 0x1E2E then
    0x1E2F else 0)) else (if c < 0x1E32 then (if c = 0x1E30 then 0x1E31 else 0) else (if c = 0x1E32 then
    0x1E33 else 0))) else (if c < 0x1E38 then (if c < 0x1E36 then (if c = 0x1E34 then 0x1E35 else 0) else
    (if c = 0x1E36 then 0x1E37 else 0)) else (if c < 0x1E3A then (if c = 0x1E38 then 0x1E39 else 0) else
    (if c = 0x1E3A then 0x1E3B else 0)))))) else (if c < 0x1E5A then (if c < 0x1E4A then (if c < 0x1E42
    then (if c < 0x1E3E then (if c = 0x1E3C then 0x1E3D else 0) else (if c < 0x1E40 then (if c = 0x1E3E
    then 0x1E3F else 0) else (if c = 0x1E40 then 0x1E41 else 0))) else (if c < 0x1E46 then (if c < 0x1E44
    then (if c = 0x1E42 then 0x1E43 else 0) else (if c = 0x1E44 then 0x1E45 else 0)) else (if c < 0x1E48
    then (if c = 0x1E46 then 0x1E47 else 0) else (if c = 0x1E48 then 0x1E49 else 0)))) else (if c <
    0x1E52 then (if c < 0x1E4E then (if c < 0x1E4C then (if c = 0x1E4A then 0x1E4B else 0) else (if c =
    0x1E4C then 0x1E4D else 0)) else (if c < 0x1E50 then (if c = 0x1E4E then 0x1E4F else 0) else (if c =
    0x1E50 then 0x1E51 else 0))) else (if c < 0x1E56 then (if c < 0x1E54 then (if c = 0x1E52 then 0x1E53
    else 0) else (if c = 0x1E54 then 0x1E55 else 0)) else (if c < 0x1E58 then (if c = 0x1E56 then 0x1E57
    else 0) else (if c = 0x1E58 then 0x1E59 else 0))))) else (if c < 0x1E68 then (if c < 0x1E60 then (if
    c < 0x1E5C then (if c = 0x1E5A then 0x1E5B else 0) else (if c < 0x1E5E then (if c = 0x1E5C then
    0x1E5D else 0) else (if c = 0x1E5E then 0x1E5F else 0))) else (if c < 0x1E64 then (if c < 0x1E62 then
    (if c = 0x1E60 then 0x1E61 else 0) else (if c = 0x1E62 then 0x1E63 else 0)) else (if c < 0x1E66 then
    (if c = 0x1E64 then 0x1E65 else 0) else (if c = 0x1E66 then 0x1E67 else 0)))) else (if c < 0x1E70
    then (if c < 0x1E6C then (if c < 0x1E6A then (if c = 0x1E68 then 0x1E69 else 0) else (if c = 0x1E6A
    then 0x1E6B else 0)) else (if c < 0x1E6E then (if c = 0x1E6C then 0x1E6D else 0) else (if c = 0x1E6E
    then 0x1E6F else 0))) else (if c < 0x1E74 then (if c < 0x1E72 then (if c = 0x1E70 then 0x1E71 else 0)
    else (if c = 0x1E72 then 0x1E73 else 0)) else (if c < 0x1E76 then (if c = 0x1E74 then 0x1E75 else 0)
    else (if c = 0x1E76 then 0x1E77 else 0))))))) else (if c < 0x1EBE then (if c < 0x1EA0 then (if c <
    0x1E86 then (if c < 0x1E7E then (if c < 0x1E7A then (if c = 0x1E78 then 0x1E79 else 0) else (if c <
    0x1E7C then (if c = 0x1E7A then 0x1E7B else 0) else (if c = 0x1E7C then 0x1E7D else 0))) else (if c <
    0x1E82 then (if c < 0x1E80 then (if c = 0x1E7E then 0x1E7F else 0) else (if c = 0x1E80 then 0x1E81
    else 0)) else (if c < 0x1E84 then (if c = 0x1E82 then 0x1E83 else 0) else (if c = 0x1E84 then 0x1E85
    else 0)))) else (if c < 0x1E8E then (if c < 0x1E8A then (if c < 0x1E88 then (if c = 0x1E86 then
    0x1E87 else 0) else (if c = 0x1E88 then 0x1E89 else 0)) else (if c < 0x1E8C then (if c = 0x1E8A then
    0x1E8B else 0) else (if c = 0x1E8C then 0x1E8D else 0))) else (if c < 0x1E92 then (if c < 0x1E90 then
    (if c = 0x1E8E then 0x1E8F else 0) else (if c = 0x1E90 then 0x1E91 else 0)) else (if c < 0x1E94 then
    (if c = 0x1E92 then 0x1E93 else 0) else (if c = 0x1E94 then 0x1E95 else 0))))) else (if c < 0x1EAE
    then (if c < 0x1EA6 then (if c < 0x1EA2 then (if c = 0x1EA0 then 0x1EA1 else 0) else (if c < 0x1EA4
    then (if c = 0x1EA2 then 0x1EA3 else 0) else (if c = 0x1EA4 then 0x1EA5 else 0))) else (if c < 0x1EAA
    then (if c < 0x1EA8 then (if c = 0x1EA6 then 0x1EA7 else 0) else (if c = 0x1EA8 then 0x1EA9 else 0))
    else (if c < 0x1EAC then (if c = 0x1EAA then 0x1EAB else 0) else (if c = 0x1EAC then 0x1EAD else
    0)))) else (if c < 0x1EB6 then (if c < 0x1EB2 then (if c < 0x1EB0 then (if c = 0x1EAE then 0x1EAF
    else 0) else (if c = 0x1EB0 then 0x1EB1 else 0)) else (if c < 0x1EB4 then (if c = 0x1EB2 then 0x1EB3
    else 0) else (if c = 0x1EB4 then 0x1EB5 else 0))) else (if c < 0x1EBA then (if c < 0x1EB8 then (if c
    = 0x1EB6 then 0x1EB7 else 0) else (if c = 0x1EB8 then 0x1EB9 else 0)) else (if c < 0x1EBC then (if c
    = 0x1EBA then 0x1EBB else 0) else (if c = 0x1EBC then 0x1EBD else 0)))))) else (if c < 0x1EDC then
    (if c < 0x1ECC then (if c < 0x1EC4 then (if c < 0x1EC0 then (if c = 0x1EBE then 0x1EBF else 0) else
    (if c < 0x1EC2 then (if c = 0x1EC0 then 0x1EC1 else 0) else (if c = 0x1EC2 then 0x1EC3 else 0))) else
    (if c < 0x1EC8 then (if c < 0x1EC6 then (if c = 0x1EC4 then 0x1EC5 else 0) else (if c = 0x1EC6 then
    0x1EC7 else 0)) else (if c < 0x1ECA then (if c = 0x1EC8 then 0x1EC9 else 0) else (if c = 0x1ECA then
    0x1ECB else 0)))) else (if c < 0x1ED4 then (if c < 0x1ED0 then (if c < 0x1ECE then (if c = 0x1ECC
    then 0x1ECD else 0) else (if c = 0x1ECE then 0x1ECF else 0)) else (if c < 0x1ED2 then (if c = 0x1ED0
    then 0x1ED1 else 0) else (if c = 0x1ED2 then 0x1ED3 else 0))) else (if c < 0x1ED8 then (if c < 0x1ED6
    then (if c = 0x1ED4 then 0x1ED5 else 0) else (if c = 0x1ED6 then 0x1ED7 else 0)) else (if c < 0x1EDA
    then (if c = 0x1ED8 then 0x1ED9 else 0) else (if c = 0x1EDA then 0x1EDB else 0))))) else (if c <
    0x1EEA then (if c < 0x1EE2 then (if c < 0x1EDE then (if c = 0x1EDC then 0x1EDD else 0) else (if c <
    0x1EE0 then (if c = 0x1EDE then 0x1EDF else 0) else (if c = 0x1EE0 then 0x1EE1 else 0))) else (if c <
    0x1EE6 then (if c < 0x1EE4 then (if c = 0x1EE2 then 0x1EE3 else 0) else (if c = 0x1EE4 then 0x1EE5
    else 0)) else (if c < 0x1EE8 then (if c = 0x1EE6 then 0x1EE7 else 0) else (if c = 0x1EE8 then 0x1EE9
    else 0)))) else (if c < 0x1EF2 then (if c < 0x1EEE then (if c < 0x1EEC then (if c = 0x1EEA then
    0x1EEB else 0) else (if c = 0x1EEC then 0x1EED else 0)) else (if c < 0x1EF0 then (if c = 0x1EEE then
    0x1EEF else 0) else (if c = 0x1EF0 then 0x1EF1 else 0))) else (if c < 0x1EF6 then (if c < 0x1EF4 then
    (if c = 0x1EF2 then 0x1EF3 else 0) else (if c = 0x1EF4 then 0x1EF5 else 0)) else (if c < 0x1EF8 then
    (if c = 0x1EF6 then 0x1EF7 else 0) else (if c = 0x1EF8 then 0x1EF9 else 0))))))))"

definition lower_1f :: "unichar \<Rightarrow> unichar" where
  "lower_1f c =
    (if c < 0x1F88 then (if c < 0x1F3A then (if c < 0x1F1C then (if c < 0x1F0E then (if c < 0x1F0B then
    (if c < 0x1F09 then (if c = 0x1F08 then 0x1F00 else 0) else (if c < 0x1F0A then (if c = 0x1F09 then
    0x1F01 else 0) else (if c = 0x1F0A then 0x1F02 else 0))) else (if c < 0x1F0C then (if c = 0x1F0B then
    0x1F03 else 0) else (if c < 0x1F0D then (if c = 0x1F0C then 0x1F04 else 0) else (if c = 0x1F0D then
    0x1F05 else 0)))) else (if c < 0x1F19 then (if c < 0x1F0F then (if c = 0x1F0E then 0x1F06 else 0)
    else (if c < 0x1F18 then (if c = 0x1F0F then 0x1F07 else 0) else (if c = 0x1F18 then 0x1F10 else 0)))
    else (if c < 0x1F1A then (if c = 0x1F19 then 0x1F11 else 0) else (if c < 0x1F1B then (if c = 0x1F1A
    then 0x1F12 else 0) else (if c = 0x1F1B then 0x1F13 else 0))))) else (if c < 0x1F2C then (if c <
    0x1F29 then (if c < 0x1F1D then (if c = 0x1F1C then 0x1F14 else 0) else (if c < 0x1F28 then (if c =
    0x1F1D then 0x1F15 else 0) else (if c = 0x1F28 then 0x1F20 else 0))) else (if c < 0x1F2A then (if c =
    0x1F29 then 0x1F21 else 0) else (if c < 0x1F2B then (if c = 0x1F2A then 0x1F22 else 0) else (if c =
    0x1F2B then 0x1F23 else 0)))) else (if c < 0x1F2F then (if c < 0x1F2D then (if c = 0x1F2C then 0x1F24
    else 0) else (if c < 0x1F2E then (if c = 0x1F2D then 0x1F25 else 0) else (if c = 0x1F2E then 0x1F26
    else 0))) else (if c < 0x1F38 then (if c = 0x1F2F then 0x1F27 else 0) else (if c < 0x1F39 then (if c
    = 0x1F38 then 0x1F30 else 0) else (if c = 0x1F39 then 0x1F31 else 0)))))) else (if c < 0x1F59 then
    (if c < 0x1F48 then (if c < 0x1F3D then (if c < 0x1F3B then (if c = 0x1F3A then 0x1F32 else 0) else
    (if c < 0x1F3C then (if c = 0x1F3B then 0x1F33 else 0) else (if c = 0x1F3C then 0x1F34 else 0))) else
    (if c < 0x1F3E then (if c = 0x1F3D then 0x1F35 else 0) else (if c < 0x1F3F then (if c = 0x1F3E then
    0x1F36 else 0) else (if c = 0x1F3F then 0x1F37 else 0)))) else (if c < 0x1F4B then (if c < 0x1F49
    then (if c = 0x1F48 then 0x1F40 else 0) else (if c < 0x1F4A then (if c = 0x1F49 then 0x1F41 else 0)
    else (if c = 0x1F4A then 0x1F42 else 0))) else (if c < 0x1F4C then (if c = 0x1F4B then 0x1F43 else 0)
    else (if c < 0x1F4D then (if c = 0x1F4C then 0x1F44 else 0) else (if c = 0x1F4D then 0x1F45 else
    0))))) else (if c < 0x1F6A then (if c < 0x1F5F then (if c < 0x1F5B then (if c = 0x1F59 then 0x1F51
    else 0) else (if c < 0x1F5D then (if c = 0x1F5B then 0x1F53 else 0) else (if c = 0x1F5D then 0x1F55
    else 0))) else (if c < 0x1F68 then (if c = 0x1F5F then 0x1F57 else 0) else (if c < 0x1F69 then (if c
    = 0x1F68 then 0x1F60 else 0) else (if c = 0x1F69 then 0x1F61 else 0)))) else (if c < 0x1F6D then (if
    c < 0x1F6B then (if c = 0x1F6A then 0x1F62 else 0) else (if c < 0x1F6C then (if c = 0x1F6B then
    0x1F63 else 0) else (if c = 0x1F6C then 0x1F64 else 0))) else (if c < 0x1F6E then (if c = 0x1F6D then
    0x1F65 else 0) else (if c < 0x1F6F then (if c = 0x1F6E then 0x1F66 else 0) else (if c = 0x1F6F then
    0x1F67 else 0))))))) else (if c < 0x1FB8 then (if c < 0x1F9C then (if c < 0x1F8E then (if c < 0x1F8B
    then (if c < 0x1F89 then (if c = 0x1F88 then 0x1F80 else 0) else (if c < 0x1F8A then (if c = 0x1F89
    then 0x1F81 else 0) else (if c = 0x1F8A then 0x1F82 else 0))) else (if c < 0x1F8C then (if c = 0x1F8B
    then 0x1F83 else 0) else (if c < 0x1F8D then (if c = 0x1F8C then 0x1F84 else 0) else (if c = 0x1F8D
    then 0x1F85 else 0)))) else (if c < 0x1F99 then (if c < 0x1F8F then (if c = 0x1F8E then 0x1F86 else
    0) else (if c < 0x1F98 then (if c = 0x1F8F then 0x1F87 else 0) else (if c = 0x1F98 then 0x1F90 else
    0))) else (if c < 0x1F9A then (if c = 0x1F99 then 0x1F91 else 0) else (if c < 0x1F9B then (if c =
    0x1F9A then 0x1F92 else 0) else (if c = 0x1F9B then 0x1F93 else 0))))) else (if c < 0x1FAA then (if c
    < 0x1F9F then (if c < 0x1F9D then (if c = 0x1F9C then 0x1F94 else 0) else (if c < 0x1F9E then (if c =
    0x1F9D then 0x1F95 else 0) else (if c = 0x1F9E then 0x1F96 else 0))) else (if c < 0x1FA8 then (if c =
    0x1F9F then 0x1F97 else 0) else (if c < 0x1FA9 then (if c = 0x1FA8 then 0x1FA0 else 0) else (if c =
    0x1FA9 then 0x1FA1 else 0)))) else (if c < 0x1FAD then (if c < 0x1FAB then (if c = 0x1FAA then 0x1FA2
    else 0) else (if c < 0x1FAC then (if c = 0x1FAB then 0x1FA3 else 0) else (if c = 0x1FAC then 0x1FA4
    else 0))) else (if c < 0x1FAE then (if c = 0x1FAD then 0x1FA5 else 0) else (if c < 0x1FAF then (if c
    = 0x1FAE then 0x1FA6 else 0) else (if c = 0x1FAF then 0x1FA7 else 0)))))) else (if c < 0x1FDA then
    (if c < 0x1FC9 then (if c < 0x1FBB then (if c < 0x1FB9 then (if c = 0x1FB8 then 0x1FB0 else 0) else
    (if c < 0x1FBA then (if c = 0x1FB9 then 0x1FB1 else 0) else (if c = 0x1FBA then 0x1F70 else 0))) else
    (if c < 0x1FBC then (if c = 0x1FBB then 0x1F71 else 0) else (if c < 0x1FC8 then (if c = 0x1FBC then
    0x1FB3 else 0) else (if c = 0x1FC8 then 0x1F72 else 0)))) else (if c < 0x1FCC then (if c < 0x1FCA
    then (if c = 0x1FC9 then 0x1F73 else 0) else (if c < 0x1FCB then (if c = 0x1FCA then 0x1F74 else 0)
    else (if c = 0x1FCB then 0x1F75 else 0))) else (if c < 0x1FD8 then (if c = 0x1FCC then 0x1FC3 else 0)
    else (if c < 0x1FD9 then (if c = 0x1FD8 then 0x1FD0 else 0) else (if c = 0x1FD9 then 0x1FD1 else
    0))))) else (if c < 0x1FEC then (if c < 0x1FE9 then (if c < 0x1FDB then (if c = 0x1FDA then 0x1F76
    else 0) else (if c < 0x1FE8 then (if c = 0x1FDB then 0x1F77 else 0) else (if c = 0x1FE8 then 0x1FE0
    else 0))) else (if c < 0x1FEA then (if c = 0x1FE9 then 0x1FE1 else 0) else (if c < 0x1FEB then (if c
    = 0x1FEA then 0x1F7A else 0) else (if c = 0x1FEB then 0x1F7B else 0)))) else (if c < 0x1FFA then (if
    c < 0x1FF8 then (if c = 0x1FEC then 0x1FE5 else 0) else (if c < 0x1FF9 then (if c = 0x1FF8 then
    0x1F78 else 0) else (if c = 0x1FF9 then 0x1F79 else 0))) else (if c < 0x1FFB then (if c = 0x1FFA then
    0x1F7C else 0) else (if c < 0x1FFC then (if c = 0x1FFB then 0x1F7D else 0) else (if c = 0x1FFC then
    0x1FF3 else 0))))))))"

definition lower_21 :: "unichar \<Rightarrow> unichar" where
  "lower_21 c =
    (if c < 0x2166 then (if c < 0x2161 then (if c < 0x212B then (if c < 0x212A then (if c = 0x2126 then
    0x03C9 else 0) else (if c = 0x212A then 0x006B else 0)) else (if c < 0x2160 then (if c = 0x212B then
    0x00E5 else 0) else (if c = 0x2160 then 0x2170 else 0))) else (if c < 0x2163 then (if c < 0x2162 then
    (if c = 0x2161 then 0x2171 else 0) else (if c = 0x2162 then 0x2172 else 0)) else (if c < 0x2164 then
    (if c = 0x2163 then 0x2173 else 0) else (if c < 0x2165 then (if c = 0x2164 then 0x2174 else 0) else
    (if c = 0x2165 then 0x2175 else 0))))) else (if c < 0x216B then (if c < 0x2168 then (if c < 0x2167
    then (if c = 0x2166 then 0x2176 else 0) else (if c = 0x2167 then 0x2177 else 0)) else (if c < 0x2169
    then (if c = 0x2168 then 0x2178 else 0) else (if c < 0x216A then (if c = 0x2169 then 0x2179 else 0)
    else (if c = 0x216A then 0x217A else 0)))) else (if c < 0x216D then (if c < 0x216C then (if c =
    0x216B then 0x217B else 0) else (if c = 0x216C then 0x217C else 0)) else (if c < 0x216E then (if c =
    0x216D then 0x217D else 0) else (if c < 0x216F then (if c = 0x216E then 0x217E else 0) else (if c =
    0x216F then 0x217F else 0))))))"

definition lower_24 :: "unichar \<Rightarrow> unichar" where
  "lower_24 c =
    (if c < 0x24C3 then (if c < 0x24BC then (if c < 0x24B9 then (if c < 0x24B7 then (if c = 0x24B6 then
    0x24D0 else 0) else (if c < 0x24B8 then (if c = 0x24B7 then 0x24D1 else 0) else (if c = 0x24B8 then
    0x24D2 else 0))) else (if c < 0x24BA then (if c = 0x24B9 then 0x24D3 else 0) else (if c < 0x24BB then
    (if c = 0x24BA then 0x24D4 else 0) else (if c = 0x24BB then 0x24D5 else 0)))) else (if c < 0x24BF
    then (if c < 0x24BD then (if c = 0x24BC then 0x24D6 else 0) else (if c < 0x24BE then (if c = 0x24BD
    then 0x24D7 else 0) else (if c = 0x24BE then 0x24D8 else 0))) else (if c < 0x24C1 then (if c < 0x24C0
    then (if c = 0x24BF then 0x24D9 else 0) else (if c = 0x24C0 then 0x24DA else 0)) else (if c < 0x24C2
    then (if c = 0x24C1 then 0x24DB else 0) else (if c = 0x24C2 then 0x24DC else 0))))) else (if c <
    0x24C9 then (if c < 0x24C6 then (if c < 0x24C4 then (if c = 0x24C3 then 0x24DD else 0) else (if c <
    0x24C5 then (if c = 0x24C4 then 0x24DE else 0) else (if c = 0x24C5 then 0x24DF else 0))) else (if c <
    0x24C7 then (if c = 0x24C6 then 0x24E0 else 0) else (if c < 0x24C8 then (if c = 0x24C7 then 0x24E1
    else 0) else (if c = 0x24C8 then 0x24E2 else 0)))) else (if c < 0x24CC then (if c < 0x24CA then (if c
    = 0x24C9 then 0x24E3 else 0) else (if c < 0x24CB then (if c = 0x24CA then 0x24E4 else 0) else (if c =
    0x24CB then 0x24E5 else 0))) else (if c < 0x24CE then (if c < 0x24CD then (if c = 0x24CC then 0x24E6
    else 0) else (if c = 0x24CD then 0x24E7 else 0)) else (if c < 0x24CF then (if c = 0x24CE then 0x24E8
    else 0) else (if c = 0x24CF then 0x24E9 else 0))))))"

definition lower_ff :: "unichar \<Rightarrow> unichar" where
  "lower_ff c =
    (if c < 0xFF2E then (if c < 0xFF27 then (if c < 0xFF24 then (if c < 0xFF22 then (if c = 0xFF21 then
    0xFF41 else 0) else (if c < 0xFF23 then (if c = 0xFF22 then 0xFF42 else 0) else (if c = 0xFF23 then
    0xFF43 else 0))) else (if c < 0xFF25 then (if c = 0xFF24 then 0xFF44 else 0) else (if c < 0xFF26 then
    (if c = 0xFF25 then 0xFF45 else 0) else (if c = 0xFF26 then 0xFF46 else 0)))) else (if c < 0xFF2A
    then (if c < 0xFF28 then (if c = 0xFF27 then 0xFF47 else 0) else (if c < 0xFF29 then (if c = 0xFF28
    then 0xFF48 else 0) else (if c = 0xFF29 then 0xFF49 else 0))) else (if c < 0xFF2C then (if c < 0xFF2B
    then (if c = 0xFF2A then 0xFF4A else 0) else (if c = 0xFF2B then 0xFF4B else 0)) else (if c < 0xFF2D
    then (if c = 0xFF2C then 0xFF4C else 0) else (if c = 0xFF2D then 0xFF4D else 0))))) else (if c <
    0xFF34 then (if c < 0xFF31 then (if c < 0xFF2F then (if c = 0xFF2E then 0xFF4E else 0) else (if c <
    0xFF30 then (if c = 0xFF2F then 0xFF4F else 0) else (if c = 0xFF30 then 0xFF50 else 0))) else (if c <
    0xFF32 then (if c = 0xFF31 then 0xFF51 else 0) else (if c < 0xFF33 then (if c = 0xFF32 then 0xFF52
    else 0) else (if c = 0xFF33 then 0xFF53 else 0)))) else (if c < 0xFF37 then (if c < 0xFF35 then (if c
    = 0xFF34 then 0xFF54 else 0) else (if c < 0xFF36 then (if c = 0xFF35 then 0xFF55 else 0) else (if c =
    0xFF36 then 0xFF56 else 0))) else (if c < 0xFF39 then (if c < 0xFF38 then (if c = 0xFF37 then 0xFF57
    else 0) else (if c = 0xFF38 then 0xFF58 else 0)) else (if c < 0xFF3A then (if c = 0xFF39 then 0xFF59
    else 0) else (if c = 0xFF3A then 0xFF5A else 0))))))"

definition lower_page :: "nat \<Rightarrow> unichar \<Rightarrow> unichar" where
  "lower_page p c =
     (if p = 0x0 then lower_0 c else
      if p = 0x1 then lower_1 c else
      if p = 0x2 then lower_2 c else
      if p = 0x3 then lower_3 c else
      if p = 0x4 then lower_4 c else
      if p = 0x5 then lower_5 c else
      if p = 0x1E then lower_1e c else
      if p = 0x1F then lower_1f c else
      if p = 0x21 then lower_21 c else
      if p = 0x24 then lower_24 c else
      if p = 0xFF then lower_ff c else
      0)"

definition lower_of :: "unichar \<Rightarrow> unichar" where
  "lower_of c = lower_page (c div 256) c"

definition upper_0 :: "unichar \<Rightarrow> unichar" where
  "upper_0 c =
    (if c < 0x00E2 then (if c < 0x006F then (if c < 0x0068 then (if c < 0x0064 then (if c < 0x0062 then
    (if c = 0x0061 then 0x0041 else 0) else (if c < 0x0063 then (if c = 0x0062 then 0x0042 else 0) else
    (if c = 0x0063 then 0x0043 else 0))) else (if c < 0x0066 then (if c < 0x0065 then (if c = 0x0064 then
    0x0044 else 0) else (if c = 0x0065 then 0x0045 else 0)) else (if c < 0x0067 then (if c = 0x0066 then
    0x0046 else 0) else (if c = 0x0067 then 0x0047 else 0)))) else (if c < 0x006B then (if c < 0x0069
    then (if c = 0x0068 then 0x0048 else 0) else (if c < 0x006A then (if c = 0x0069 then 0x0049 else 0)
    else (if c = 0x006A then 0x004A else 0))) else (if c < 0x006D then (if c < 0x006C then (if c = 0x006B
    then 0x004B else 0) else (if c = 0x006C then 0x004C else 0)) else (if c < 0x006E then (if c = 0x006D
    then 0x004D else 0) else (if c = 0x006E then 0x004E else 0))))) else (if c < 0x0076 then (if c <
    0x0072 then (if c < 0x0070 then (if c = 0x006F then 0x004F else 0) else (if c < 0x0071 then (if c =
    0x0070 then 0x0050 else 0) else (if c = 0x0071 then 0x0051 else 0))) else (if c < 0x0074 then (if c <
    0x0073 then (if c = 0x0072 then 0x0052 else 0) else (if c = 0x0073 then 0x0053 else 0)) else (if c <
    0x0075 then (if c = 0x0074 then 0x0054 else 0) else (if c = 0x0075 then 0x0055 else 0)))) else (if c
    < 0x007A then (if c < 0x0078 then (if c < 0x0077 then (if c = 0x0076 then 0x0056 else 0) else (if c =
    0x0077 then 0x0057 else 0)) else (if c < 0x0079 then (if c = 0x0078 then 0x0058 else 0) else (if c =
    0x0079 then 0x0059 else 0))) else (if c < 0x00E0 then (if c < 0x00B5 then (if c = 0x007A then 0x005A
    else 0) else (if c = 0x00B5 then 0x039C else 0)) else (if c < 0x00E1 then (if c = 0x00E0 then 0x00C0
    else 0) else (if c = 0x00E1 then 0x00C1 else 0)))))) else (if c < 0x00F0 then (if c < 0x00E9 then (if
    c < 0x00E5 then (if c < 0x00E3 then (if c = 0x00E2 then 0x00C2 else 0) else (if c < 0x00E4 then (if c
    = 0x00E3 then 0x00C3 else 0) else (if c = 0x00E4 then 0x00C4 else 0))) else (if c < 0x00E7 then (if c
    < 0x00E6 then (if c = 0x00E5 then 0x00C5 else 0) else (if c = 0x00E6 then 0x00C6 else 0)) else (if c
    < 0x00E8 then (if c = 0x00E7 then 0x00C7 else 0) else (if c = 0x00E8 then 0x00C8 else 0)))) else (if
    c < 0x00EC then (if c < 0x00EA then (if c = 0x00E9 then 0x00C9 else 0) else (if c < 0x00EB then (if c
    = 0x00EA then 0x00CA else 0) else (if c = 0x00EB then 0x00CB else 0))) else (if c < 0x00EE then (if c
    < 0x00ED then (if c = 0x00EC then 0x00CC else 0) else (if c = 0x00ED then 0x00CD else 0)) else (if c
    < 0x00EF then (if c = 0x00EE then 0x00CE else 0) else (if c = 0x00EF then 0x00CF else 0))))) else (if
    c < 0x00F8 then (if c < 0x00F3 then (if c < 0x00F1 then (if c = 0x00F0 then 0x00D0 else 0) else (if c
    < 0x00F2 then (if c = 0x00F1 then 0x00D1 else 0) else (if c = 0x00F2 then 0x00D2 else 0))) else (if c
    < 0x00F5 then (if c < 0x00F4 then (if c = 0x00F3 then 0x00D3 else 0) else (if c = 0x00F4 then 0x00D4
    else 0)) else (if c < 0x00F6 then (if c = 0x00F5 then 0x00D5 else 0) else (if c = 0x00F6 then 0x00D6
    else 0)))) else (if c < 0x00FC then (if c < 0x00FA then (if c < 0x00F9 then (if c = 0x00F8 then
    0x00D8 else 0) else (if c = 0x00F9 then 0x00D9 else 0)) else (if c < 0x00FB then (if c = 0x00FA then
    0x00DA else 0) else (if c = 0x00FB then 0x00DB else 0))) else (if c < 0x00FE then (if c < 0x00FD then
    (if c = 0x00FC then 0x00DC else 0) else (if c = 0x00FD then 0x00DD else 0)) else (if c < 0x00FF then
    (if c = 0x00FE then 0x00DE else 0) else (if c = 0x00FF then 0x0178 else 0)))))))"

definition upper_1 :: "unichar \<Rightarrow> unichar" where
  "upper_1 c =
    (if c < 0x0173 then (if c < 0x013A then (if c < 0x011D then (if c < 0x010F then (if c < 0x0107 then
    (if c < 0x0103 then (if c = 0x0101 then 0x0100 else 0) else (if c < 0x0105 then (if c = 0x0103 then
    0x0102 else 0) else (if c = 0x0105 then 0x0104 else 0))) else (if c < 0x010B then (if c < 0x0109 then
    (if c = 0x0107 then 0x0106 else 0) else (if c = 0x0109 then 0x0108 else 0)) else (if c < 0x010D then
    (if c = 0x010B then 0x010A else 0) else (if c = 0x010D then 0x010C else 0)))) else (if c < 0x0115
    then (if c < 0x0111 then (if c = 0x010F then 0x010E else 0) else (if c < 0x0113 then (if c = 0x0111
    then 0x0110 else 0) else (if c = 0x0113 then 0x0112 else 0))) else (if c < 0x0119 then (if c < 0x0117
    then (if c = 0x0115 then 0x0114 else 0) else (if c = 0x0117 then 0x0116 else 0)) else (if c < 0x011B
    then (if c = 0x0119 then 0x0118 else 0) else (if c = 0x011B then 0x011A else 0))))) else (if c <
    0x012B then (if c < 0x0123 then (if c < 0x011F then (if c = 0x011D then 0x011C else 0) else (if c <
    0x0121 then (if c = 0x011F then 0x011E else 0) else (if c = 0x0121 then 0x0120 else 0))) else (if c <
    0x0127 then (if c < 0x0125 then (if c = 0x0123 then 0x0122 else 0) else (if c = 0x0125 then 0x0124
    else 0)) else (if c < 0x0129 then (if c = 0x0127 then 0x0126 else 0) else (if c = 0x0129 then 0x0128
    else 0)))) else (if c < 0x0131 then (if c < 0x012D then (if c = 0x012B then 0x012A else 0) else (if c
    < 0x012F then (if c = 0x012D then 0x012C else 0) else (if c = 0x012F then 0x012E else 0))) else (if c
    < 0x0135 then (if c < 0x0133 then (if c = 0x0131 then 0x0049 else 0) else (if c = 0x0133 then 0x0132
    else 0)) else (if c < 0x0137 then (if c = 0x0135 then 0x0134 else 0) else (if c = 0x0137 then 0x0136
    else 0)))))) else (if c < 0x0157 then (if c < 0x0148 then (if c < 0x0140 then (if c < 0x013C then (if
    c = 0x013A then 0x0139 else 0) else (if c < 0x013E then (if c = 0x013C then 0x013B else 0) else (if c
    = 0x013E then 0x013D else 0))) else (if c < 0x0144 then (if c < 0x0142 then (if c = 0x0140 then
    0x013F else 0) else (if c = 0x0142 then 0x0141 else 0)) else (if c < 0x0146 then (if c = 0x0144 then
    0x0143 else 0) else (if c = 0x0146 then 0x0145 else 0)))) else (if c < 0x014F then (if c < 0x014B
    then (if c = 0x0148 then 0x0147 else 0) else (if c < 0x014D then (if c = 0x014B then 0x014A else 0)
    else (if c = 0x014D then 0x014C else 0))) else (if c < 0x0153 then (if c < 0x0151 then (if c = 0x014F
    then 0x014E else 0) else (if c = 0x0151 then 0x0150 else 0)) else (if c < 0x0155 then (if c = 0x0153
    then 0x0152 else 0) else (if c = 0x0155 then 0x0154 else 0))))) else (if c < 0x0165 then (if c <
    0x015D then (if c < 0x0159 then (if c = 0x0157 then 0x0156 else 0) else (if c < 0x015B then (if c =
    0x0159 then 0x0158 else 0) else (if c = 0x015B then 0x015A else 0))) else (if c < 0x0161 then (if c <
    0x015F then (if c = 0x015D then 0x015C else 0) else (if c = 0x015F then 0x015E else 0)) else (if c <
    0x0163 then (if c = 0x0161 then 0x0160 else 0) else (if c = 0x0163 then 0x0162 else 0)))) else (if c
    < 0x016B then (if c < 0x0167 then (if c = 0x0165 then 0x0164 else 0) else (if c < 0x0169 then (if c =
    0x0167 then 0x0166 else 0) else (if c = 0x0169 then 0x0168 else 0))) else (if c < 0x016F then (if c <
    0x016D then (if c = 0x016B then 0x016A else 0) else (if c = 0x016D then 0x016C else 0)) else (if c <
    0x0171 then (if c = 0x016F then 0x016E else 0) else (if c = 0x0171 then 0x0170 else 0))))))) else (if
    c < 0x01C9 then (if c < 0x01A1 then (if c < 0x0183 then (if c < 0x017A then (if c < 0x0175 then (if c
    = 0x0173 then 0x0172 else 0) else (if c < 0x0177 then (if c = 0x0175 then 0x0174 else 0) else (if c =
    0x0177 then 0x0176 else 0))) else (if c < 0x017E then (if c < 0x017C then (if c = 0x017A then 0x0179
    else 0) else (if c = 0x017C then 0x017B else 0)) else (if c < 0x017F then (if c = 0x017E then 0x017D
    else 0) else (if c = 0x017F then 0x0053 else 0)))) else (if c < 0x018C then (if c < 0x0185 then (if c
    = 0x0183 then 0x0182 else 0) else (if c < 0x0188 then (if c = 0x0185 then 0x0184 else 0) else (if c =
    0x0188 then 0x0187 else 0))) else (if c < 0x0195 then (if c < 0x0192 then (if c = 0x018C then 0x018B
    else 0) else (if c = 0x0192 then 0x0191 else 0)) else (if c < 0x0199 then (if c = 0x0195 then 0x01F6
    else 0) else (if c = 0x0199 then 0x0198 else 0))))) else (if c < 0x01B6 then (if c < 0x01A8 then (if
    c < 0x01A3 then (if c = 0x01A1 then 0x01A0 else 0) else (if c < 0x01A5 then (if c = 0x01A3 then
    0x01A2 else 0) else (if c = 0x01A5 then 0x01A4 else 0))) else (if c < 0x01B0 then (if c < 0x01AD then
    (if c = 0x01A8 then 0x01A7 else 0) else (if c = 0x01AD then 0x01AC else 0)) else (if c < 0x01B4 then
    (if c = 0x01B0 then 0x01AF else 0) else (if c = 0x01B4 then 0x01B3 else 0)))) else (if c < 0x01BF
    then (if c < 0x01B9 then (if c = 0x01B6 then 0x01B5 else 0) else (if c < 0x01BD then (if c = 0x01B9
    then 0x01B8 else 0) else (if c = 0x01BD then 0x01BC else 0))) else (if c < 0x01C6 then (if c < 0x01C5
    then (if c = 0x01BF then 0x01F7 else 0) else (if c = 0x01C5 then 0x01C4 else 0)) else (if c < 0x01C8
    then (if c = 0x01C6 then 0x01C4 else 0) else (if c = 0x01C8 then 0x01C7 else 0)))))) else (if c <
    0x01E3 then (if c < 0x01D6 then (if c < 0x01CE then (if c < 0x01CB then (if c = 0x01C9 then 0x01C7
    else 0) else (if c < 0x01CC then (if c = 0x01CB then 0x01CA else 0) else (if c = 0x01CC then 0x01CA
    else 0))) else (if c < 0x01D2 then (if c < 0x01D0 then (if c = 0x01CE then 0x01CD else 0) else (if c
    = 0x01D0 then 0x01CF else 0)) else (if c < 0x01D4 then (if c = 0x01D2 then 0x01D1 else 0) else (if c
    = 0x01D4 then 0x01D3 else 0)))) else (if c < 0x01DC then (if c < 0x01D8 then (if c = 0x01D6 then
    0x01D5 else 0) else (if c < 0x01DA then (if c = 0x01D8 then 0x01D7 else 0) else (if c = 0x01DA then
    0x01D9 else 0))) else (if c < 0x01DF then (if c < 0x01DD then (if c = 0x01DC then 0x01DB else 0) else
    (if c = 0x01DD then 0x018E else 0)) else (if c < 0x01E1 then (if c = 0x01DF then 0x01DE else 0) else
    (if c = 0x01E1 then 0x01E0 else 0))))) else (if c < 0x01F2 then (if c < 0x01E9 then (if c < 0x01E5
    then (if c = 0x01E3 then 0x01E2 else 0) else (if c < 0x01E7 then (if c = 0x01E5 then 0x01E4 else 0)
    else (if c = 0x01E7 then 0x01E6 else 0))) else (if c < 0x01ED then (if c < 0x01EB then (if c = 0x01E9
    then 0x01E8 else 0) else (if c = 0x01EB then 0x01EA else 0)) else (if c < 0x01EF then (if c = 0x01ED
    then 0x01EC else 0) else (if c = 0x01EF then 0x01EE else 0)))) else (if c < 0x01F9 then (if c <
    0x01F3 then (if c = 0x01F2 then 0x01F1 else 0) else (if c < 0x01F5 then (if c = 0x01F3 then 0x01F1
    else 0) else (if c = 0x01F5 then 0x01F4 else 0))) else (if c < 0x01FD then (if c < 0x01FB then (if c
    = 0x01F9 then 0x01F8 else 0) else (if c = 0x01FB then 0x01FA else 0)) else (if c < 0x01FF then (if c
    = 0x01FD then 0x01FC else 0) else (if c = 0x01FF then 0x01FE else 0))))))))"

definition upper_2 :: "unichar \<Rightarrow> unichar" where
  "upper_2 c =
    (if c < 0x022F then (if c < 0x0217 then (if c < 0x020B then (if c < 0x0205 then (if c < 0x0203 then
    (if c = 0x0201 then 0x0200 else 0) else (if c = 0x0203 then 0x0202 else 0)) else (if c < 0x0207 then
    (if c = 0x0205 then 0x0204 else 0) else (if c < 0x0209 then (if c = 0x0207 then 0x0206 else 0) else
    (if c = 0x0209 then 0x0208 else 0)))) else (if c < 0x0211 then (if c < 0x020D then (if c = 0x020B
    then 0x020A else 0) else (if c < 0x020F then (if c = 0x020D then 0x020C else 0) else (if c = 0x020F
    then 0x020E else 0))) else (if c < 0x0213 then (if c = 0x0211 then 0x0210 else 0) else (if c < 0x0215
    then (if c = 0x0213 then 0x0212 else 0) else (if c = 0x0215 then 0x0214 else 0))))) else (if c <
    0x0223 then (if c < 0x021B then (if c < 0x0219 then (if c = 0x0217 then 0x0216 else 0) else (if c =
    0x0219 then 0x0218 else 0)) else (if c < 0x021D then (if c = 0x021B then 0x021A else 0) else (if c <
    0x021F then (if c = 0x021D then 0x021C else 0) else (if c = 0x021F then 0x021E else 0)))) else (if c
    < 0x0229 then (if c < 0x0225 then (if c = 0x0223 then 0x0222 else 0) else (if c < 0x0227 then (if c =
    0x0225 then 0x0224 else 0) else (if c = 0x0227 then 0x0226 else 0))) else (if c < 0x022B then (if c =
    0x0229 then 0x0228 else 0) else (if c < 0x022D then (if c = 0x022B then 0x022A else 0) else (if c =
    0x022D then 0x022C else 0)))))) else (if c < 0x0268 then (if c < 0x0256 then (if c < 0x0233 then (if
    c < 0x0231 then (if c = 0x022F then 0x022E else 0) else (if c = 0x0231 then 0x0230 else 0)) else (if
    c < 0x0253 then (if c = 0x0233 then 0x0232 else 0) else (if c < 0x0254 then (if c = 0x0253 then
    0x0181 else 0) else (if c = 0x0254 then 0x0186 else 0)))) else (if c < 0x025B then (if c < 0x0257
    then (if c = 0x0256 then 0x0189 else 0) else (if c < 0x0259 then (if c = 0x0257 then 0x018A else 0)
    else (if c = 0x0259 then 0x018F else 0))) else (if c < 0x0260 then (if c = 0x025B then 0x0190 else 0)
    else (if c < 0x0263 then (if c = 0x0260 then 0x0193 else 0) else (if c = 0x0263 then 0x0194 else
    0))))) else (if c < 0x0280 then (if c < 0x026F then (if c < 0x0269 then (if c = 0x0268 then 0x0197
    else 0) else (if c = 0x0269 then 0x0196 else 0)) else (if c < 0x0272 then (if c = 0x026F then 0x019C
    else 0) else (if c < 0x0275 then (if c = 0x0272 then 0x019D else 0) else (if c = 0x0275 then 0x019F
    else 0)))) else (if c < 0x028A then (if c < 0x0283 then (if c = 0x0280 then 0x01A6 else 0) else (if c
    < 0x0288 then (if c = 0x0283 then 0x01A9 else 0) else (if c = 0x0288 then 0x01AE else 0))) else (if c
    < 0x028B then (if c = 0x028A then 0x01B1 else 0) else (if c < 0x0292 then (if c = 0x028B then 0x01B2
    else 0) else (if c = 0x0292 then 0x01B7 else 0)))))))"

definition upper_3 :: "unichar \<Rightarrow> unichar" where
  "upper_3 c =
    (if c < 0x03C6 then (if c < 0x03B9 then (if c < 0x03B2 then (if c < 0x03AE then (if c < 0x03AC then
    (if c = 0x0345 then 0x0399 else 0) else (if c < 0x03AD then (if c = 0x03AC then 0x0386 else 0) else
    (if c = 0x03AD then 0x0388 else 0))) else (if c < 0x03AF then (if c = 0x03AE then 0x0389 else 0) else
    (if c < 0x03B1 then (if c = 0x03AF then 0x038A else 0) else (if c = 0x03B1 then 0x0391 else 0))))
    else (if c < 0x03B5 then (if c < 0x03B3 then (if c = 0x03B2 then 0x0392 else 0) else (if c < 0x03B4
    then (if c = 0x03B3 then 0x0393 else 0) else (if c = 0x03B4 then 0x0394 else 0))) else (if c < 0x03B7
    then (if c < 0x03B6 then (if c = 0x03B5 then 0x0395 else 0) else (if c = 0x03B6 then 0x0396 else 0))
    else (if c < 0x03B8 then (if c = 0x03B7 then 0x0397 else 0) else (if c = 0x03B8 then 0x0398 else
    0))))) else (if c < 0x03BF then (if c < 0x03BC then (if c < 0x03BA then (if c = 0x03B9 then 0x0399
    else 0) else (if c < 0x03BB then (if c = 0x03BA then 0x039A else 0) else (if c = 0x03BB then 0x039B
    else 0))) else (if c < 0x03BD then (if c = 0x03BC then 0x039C else 0) else (if c < 0x03BE then (if c
    = 0x03BD then 0x039D else 0) else (if c = 0x03BE then 0x039E else 0)))) else (if c < 0x03C2 then (if
    c < 0x03C0 then (if c = 0x03BF then 0x039F else 0) else (if c < 0x03C1 then (if c = 0x03C0 then
    0x03A0 else 0) else (if c = 0x03C1 then 0x03A1 else 0))) else (if c < 0x03C4 then (if c < 0x03C3 then
    (if c = 0x03C2 then 0x03A3 else 0) else (if c = 0x03C3 then 0x03A3 else 0)) else (if c < 0x03C5 then
    (if c = 0x03C4 then 0x03A4 else 0) else (if c = 0x03C5 then 0x03A5 else 0)))))) else (if c < 0x03DB
    then (if c < 0x03CC then (if c < 0x03C9 then (if c < 0x03C7 then (if c = 0x03C6 then 0x03A6 else 0)
    else (if c < 0x03C8 then (if c = 0x03C7 then 0x03A7 else 0) else (if c = 0x03C8 then 0x03A8 else 0)))
    else (if c < 0x03CA then (if c = 0x03C9 then 0x03A9 else 0) else (if c < 0x03CB then (if c = 0x03CA
    then 0x03AA else 0) else (if c = 0x03CB then 0x03AB else 0)))) else (if c < 0x03D0 then (if c <
    0x03CD then (if c = 0x03CC then 0x038C else 0) else (if c < 0x03CE then (if c = 0x03CD then 0x038E
    else 0) else (if c = 0x03CE then 0x038F else 0))) else (if c < 0x03D5 then (if c < 0x03D1 then (if c
    = 0x03D0 then 0x0392 else 0) else (if c = 0x03D1 then 0x0398 else 0)) else (if c < 0x03D6 then (if c
    = 0x03D5 then 0x03A6 else 0) else (if c = 0x03D6 then 0x03A0 else 0))))) else (if c < 0x03E9 then (if
    c < 0x03E1 then (if c < 0x03DD then (if c = 0x03DB then 0x03DA else 0) else (if c < 0x03DF then (if c
    = 0x03DD then 0x03DC else 0) else (if c = 0x03DF then 0x03DE else 0))) else (if c < 0x03E5 then (if c
    < 0x03E3 then (if c = 0x03E1 then 0x03E0 else 0) else (if c = 0x03E3 then 0x03E2 else 0)) else (if c
    < 0x03E7 then (if c = 0x03E5 then 0x03E4 else 0) else (if c = 0x03E7 then 0x03E6 else 0)))) else (if
    c < 0x03EF then (if c < 0x03EB then (if c = 0x03E9 then 0x03E8 else 0) else (if c < 0x03ED then (if c
    = 0x03EB then 0x03EA else 0) else (if c = 0x03ED then 0x03EC else 0))) else (if c < 0x03F1 then (if c
    < 0x03F0 then (if c = 0x03EF then 0x03EE else 0) else (if c = 0x03F0 then 0x039A else 0)) else (if c
    < 0x03F2 then (if c = 0x03F1 then 0x03A1 else 0) else (if c = 0x03F2 then 0x03A3 else 0)))))))"

definition upper_4 :: "unichar \<Rightarrow> unichar" where
  "upper_4 c =
    (if c < 0x0473 then (if c < 0x044C then (if c < 0x043E then (if c < 0x0437 then (if c < 0x0433 then
    (if c < 0x0431 then (if c = 0x0430 then 0x0410 else 0) else (if c < 0x0432 then (if c = 0x0431 then
    0x0411 else 0) else (if c = 0x0432 then 0x0412 else 0))) else (if c < 0x0435 then (if c < 0x0434 then
    (if c = 0x0433 then 0x0413 else 0) else (if c = 0x0434 then 0x0414 else 0)) else (if c < 0x0436 then
    (if c = 0x0435 then 0x0415 else 0) else (if c = 0x0436 then 0x0416 else 0)))) else (if c < 0x043A
    then (if c < 0x0438 then (if c = 0x0437 then 0x0417 else 0) else (if c < 0x0439 then (if c = 0x0438
    then 0x0418 else 0) else (if c = 0x0439 then 0x0419 else 0))) else (if c < 0x043C then (if c < 0x043B
    then (if c = 0x043A then 0x041A else 0) else (if c = 0x043B then 0x041B else 0)) else (if c < 0x043D
    then (if c = 0x043C then 0x041C else 0) else (if c = 0x043D then 0x041D else 0))))) else (if c <
    0x0445 then (if c < 0x0441 then (if c < 0x043F then (if c = 0x043E then 0x041E else 0) else (if c <
    0x0440 then (if c = 0x043F then 0x041F else 0) else (if c = 0x0440 then 0x0420 else 0))) else (if c <
    0x0443 then (if c < 0x0442 then (if c = 0x0441 then 0x0421 else 0) else (if c = 0x0442 then 0x0422
    else 0)) else (if c < 0x0444 then (if c = 0x0443 then 0x0423 else 0) else (if c = 0x0444 then 0x0424
    else 0)))) else (if c < 0x0448 then (if c < 0x0446 then (if c = 0x0445 then 0x0425 else 0) else (if c
    < 0x0447 then (if c = 0x0446 then 0x0426 else 0) else (if c = 0x0447 then 0x0427 else 0))) else (if c
    < 0x044A then (if c < 0x0449 then (if c = 0x0448 then 0x0428 else 0) else (if c = 0x0449 then 0x0429
    else 0)) else (if c < 0x044B then (if c = 0x044A then 0x042A else 0) else (if c = 0x044B then 0x042B
    else 0)))))) else (if c < 0x045A then (if c < 0x0453 then (if c < 0x044F then (if c < 0x044D then (if
    c = 0x044C then 0x042C else 0) else (if c < 0x044E then (if c = 0x044D then 0x042D else 0) else (if c
    = 0x044E then 0x042E else 0))) else (if c < 0x0451 then (if c < 0x0450 then (if c = 0x044F then
    0x042F else 0) else (if c = 0x0450 then 0x0400 else 0)) else (if c < 0x0452 then (if c = 0x0451 then
    0x0401 else 0) else (if c = 0x0452 then 0x0402 else 0)))) else (if c < 0x0456 then (if c < 0x0454
    then (if c = 0x0453 then 0x0403 else 0) else (if c < 0x0455 then (if c = 0x0454 then 0x0404 else 0)
    else (if c = 0x0455 then 0x0405 else 0))) else (if c < 0x0458 then (if c < 0x0457 then (if c = 0x0456
    then 0x0406 else 0) else (if c = 0x0457 then 0x0407 else 0)) else (if c < 0x0459 then (if c = 0x0458
    then 0x0408 else 0) else (if c = 0x0459 then 0x0409 else 0))))) else (if c < 0x0463 then (if c <
    0x045D then (if c < 0x045B then (if c = 0x045A then 0x040A else 0) else (if c < 0x045C then (if c =
    0x045B then 0x040B else 0) else (if c = 0x045C then 0x040C else 0))) else (if c < 0x045F then (if c <
    0x045E then (if c = 0x045D then 0x040D else 0) else (if c = 0x045E then 0x040E else 0)) else (if c <
    0x0461 then (if c = 0x045F then 0x040F else 0) else (if c = 0x0461 then 0x0460 else 0)))) else (if c
    < 0x046B then (if c < 0x0467 then (if c < 0x0465 then (if c = 0x0463 then 0x0462 else 0) else (if c =
    0x0465 then 0x0464 else 0)) else (if c < 0x0469 then (if c = 0x0467 then 0x0466 else 0) else (if c =
    0x0469 then 0x0468 else 0))) else (if c < 0x046F then (if c < 0x046D then (if c = 0x046B then 0x046A
    else 0) else (if c = 0x046D then 0x046C else 0)) else (if c < 0x0471 then (if c = 0x046F then 0x046E
    else 0) else (if c = 0x0471 then 0x0470 else 0))))))) else (if c < 0x04B7 then (if c < 0x0499 then
    (if c < 0x0481 then (if c < 0x0479 then (if c < 0x0475 then (if c = 0x0473 then 0x0472 else 0) else
    (if c < 0x0477 then (if c = 0x0475 then 0x0474 else 0) else (if c = 0x0477 then 0x0476 else 0))) else
    (if c < 0x047D then (if c < 0x047B then (if c = 0x0479 then 0x0478 else 0) else (if c = 0x047B then
    0x047A else 0)) else (if c < 0x047F then (if c = 0x047D then 0x047C else 0) else (if c = 0x047F then
    0x047E else 0)))) else (if c < 0x0491 then (if c < 0x048D then (if c = 0x0481 then 0x0480 else 0)
    else (if c < 0x048F then (if c = 0x048D then 0x048C else 0) else (if c = 0x048F then 0x048E else 0)))
    else (if c < 0x0495 then (if c < 0x0493 then (if c = 0x0491 then 0x0490 else 0) else (if c = 0x0493
    then 0x0492 else 0)) else (if c < 0x0497 then (if c = 0x0495 then 0x0494 else 0) else (if c = 0x0497
    then 0x0496 else 0))))) else (if c < 0x04A7 then (if c < 0x049F then (if c < 0x049B then (if c =
    0x0499 then 0x0498 else 0) else (if c < 0x049D then (if c = 0x049B then 0x049A else 0) else (if c =
    0x049D then 0x049C else 0))) else (if c < 0x04A3 then (if c < 0x04A1 then (if c = 0x049F then 0x049E
    else 0) else (if c = 0x04A1 then 0x04A0 else 0)) else (if c < 0x04A5 then (if c = 0x04A3 then 0x04A2
    else 0) else (if c = 0x04A5 then 0x04A4 else 0)))) else (if c < 0x04AF then (if c < 0x04AB then (if c
    < 0x04A9 then (if c = 0x04A7 then 0x04A6 else 0) else (if c = 0x04A9 then 0x04A8 else 0)) else (if c
    < 0x04AD then (if c = 0x04AB then 0x04AA else 0) else (if c = 0x04AD then 0x04AC else 0))) else (if c
    < 0x04B3 then (if c < 0x04B1 then (if c = 0x04AF then 0x04AE else 0) else (if c = 0x04B1 then 0x04B0
    else 0)) else (if c < 0x04B5 then (if c = 0x04B3 then 0x04B2 else 0) else (if c = 0x04B5 then 0x04B4
    else 0)))))) else (if c < 0x04DB then (if c < 0x04C8 then (if c < 0x04BD then (if c < 0x04B9 then (if
    c = 0x04B7 then 0x04B6 else 0) else (if c < 0x04BB then (if c = 0x04B9 then 0x04B8 else 0) else (if c
    = 0x04BB then 0x04BA else 0))) else (if c < 0x04C2 then (if c < 0x04BF then (if c = 0x04BD then
    0x04BC else 0) else (if c = 0x04BF then 0x04BE else 0)) else (if c < 0x04C4 then (if c = 0x04C2 then
    0x04C1 else 0) else (if c = 0x04C4 then 0x04C3 else 0)))) else (if c < 0x04D3 then (if c < 0x04CC
    then (if c = 0x04C8 then 0x04C7 else 0) else (if c < 0x04D1 then (if c = 0x04CC then 0x04CB else 0)
    else (if c = 0x04D1 then 0x04D0 else 0))) else (if c < 0x04D7 then (if c < 0x04D5 then (if c = 0x04D3
    then 0x04D2 else 0) else (if c = 0x04D5 then 0x04D4 else 0)) else (if c < 0x04D9 then (if c = 0x04D7
    then 0x04D6 else 0) else (if c = 0x04D9 then 0x04D8 else 0))))) else (if c < 0x04E9 then (if c <
    0x04E1 then (if c < 0x04DD then (if c = 0x04DB then 0x04DA else 0) else (if c < 0x04DF then (if c =
    0x04DD then 0x04DC else 0) else (if c = 0x04DF then 0x04DE else 0))) else (if c < 0x04E5 then (if c <
    0x04E3 then (if c = 0x04E1 then 0x04E0 else 0) else (if c = 0x04E3 then 0x04E2 else 0)) else (if c <
    0x04E7 then (if c = 0x04E5 then 0x04E4 else 0) else (if c = 0x04E7 then 0x04E6 else 0)))) else (if c
    < 0x04F1 then (if c < 0x04ED then (if c < 0x04EB then (if c = 0x04E9 then 0x04E8 else 0) else (if c =
    0x04EB then 0x04EA else 0)) else (if c < 0x04EF then (if c = 0x04ED then 0x04EC else 0) else (if c =
    0x04EF then 0x04EE else 0))) else (if c < 0x04F5 then (if c < 0x04F3 then (if c = 0x04F1 then 0x04F0
    else 0) else (if c = 0x04F3 then 0x04F2 else 0)) else (if c < 0x04F9 then (if c = 0x04F5 then 0x04F4
    else 0) else (if c = 0x04F9 then 0x04F8 else 0))))))))"

definition upper_5 :: "unichar \<Rightarrow> unichar" where
  "upper_5 c =
    (if c < 0x0574 then (if c < 0x056A then (if c < 0x0565 then (if c < 0x0563 then (if c < 0x0562 then
    (if c = 0x0561 then 0x0531 else 0) else (if c = 0x0562 then 0x0532 else 0)) else (if c < 0x0564 then
    (if c = 0x0563 then 0x0533 else 0) else (if c = 0x0564 then 0x0534 else 0))) else (if c < 0x0567 then
    (if c < 0x0566 then (if c = 0x0565 then 0x0535 else 0) else (if c = 0x0566 then 0x0536 else 0)) else
    (if c < 0x0568 then (if c = 0x0567 then 0x0537 else 0) else (if c < 0x0569 then (if c = 0x0568 then
    0x0538 else 0) else (if c = 0x0569 then 0x0539 else 0))))) else (if c < 0x056F then (if c < 0x056C
    then (if c < 0x056B then (if c = 0x056A then 0x053A else 0) else (if c = 0x056B then 0x053B else 0))
    else (if c < 0x056D then (if c = 0x056C then 0x053C else 0) else (if c < 0x056E then (if c = 0x056D
    then 0x053D else 0) else (if c = 0x056E then 0x053E else 0)))) else (if c < 0x0571 then (if c <
    0x0570 then (if c = 0x056F then 0x053F else 0) else (if c = 0x0570 then 0x0540 else 0)) else (if c <
    0x0572 then (if c = 0x0571 then 0x0541 else 0) else (if c < 0x0573 then (if c = 0x0572 then 0x0542
    else 0) else (if c = 0x0573 then 0x0543 else 0)))))) else (if c < 0x057D then (if c < 0x0578 then (if
    c < 0x0576 then (if c < 0x0575 then (if c = 0x0574 then 0x0544 else 0) else (if c = 0x0575 then
    0x0545 else 0)) else (if c < 0x0577 then (if c = 0x0576 then 0x0546 else 0) else (if c = 0x0577 then
    0x0547 else 0))) else (if c < 0x057A then (if c < 0x0579 then (if c = 0x0578 then 0x0548 else 0) else
    (if c = 0x0579 then 0x0549 else 0)) else (if c < 0x057B then (if c = 0x057A then 0x054A else 0) else
    (if c < 0x057C then (if c = 0x057B then 0x054B else 0) else (if c = 0x057C then 0x054C else 0)))))
    else (if c < 0x0582 then (if c < 0x057F then (if c < 0x057E then (if c = 0x057D then 0x054D else 0)
    else (if c = 0x057E then 0x054E else 0)) else (if c < 0x0580 then (if c = 0x057F then 0x054F else 0)
    else (if c < 0x0581 then (if c = 0x0580 then 0x0550 else 0) else (if c = 0x0581 then 0x0551 else
    0)))) else (if c < 0x0584 then (if c < 0x0583 then (if c = 0x0582 then 0x0552 else 0) else (if c =
    0x0583 then 0x0553 else 0)) else (if c < 0x0585 then (if c = 0x0584 then 0x0554 else 0) else (if c <
    0x0586 then (if c = 0x0585 then 0x0555 else 0) else (if c = 0x0586 then 0x0556 else 0)))))))"

definition upper_1e :: "unichar \<Rightarrow> unichar" where
  "upper_1e c =
    (if c < 0x1E79 then (if c < 0x1E3D then (if c < 0x1E1F then (if c < 0x1E0F then (if c < 0x1E07 then
    (if c < 0x1E03 then (if c = 0x1E01 then 0x1E00 else 0) else (if c < 0x1E05 then (if c = 0x1E03 then
    0x1E02 else 0) else (if c = 0x1E05 then 0x1E04 else 0))) else (if c < 0x1E0B then (if c < 0x1E09 then
    (if c = 0x1E07 then 0x1E06 else 0) else (if c = 0x1E09 then 0x1E08 else 0)) else (if c < 0x1E0D then
    (if c = 0x1E0B then 0x1E0A else 0) else (if c = 0x1E0D then 0x1E0C else 0)))) else (if c < 0x1E17
    then (if c < 0x1E13 then (if c < 0x1E11 then (if c = 0x1E0F then 0x1E0E else 0) else (if c = 0x1E11
    then 0x1E10 else 0)) else (if c < 0x1E15 then (if c = 0x1E13 then 0x1E12 else 0) else (if c = 0x1E15
    then 0x1E14 else 0))) else (if c < 0x1E1B then (if c < 0x1E19 then (if c = 0x1E17 then 0x1E16 else 0)
    else (if c = 0x1E19 then 0x1E18 else 0)) else (if c < 0x1E1D then (if c = 0x1E1B then 0x1E1A else 0)
    else (if c = 0x1E1D then 0x1E1C else 0))))) else (if c < 0x1E2D then (if c < 0x1E25 then (if c <
    0x1E21 then (if c = 0x1E1F then 0x1E1E else 0) else (if c < 0x1E23 then (if c = 0x1E21 then 0x1E20
    else 0) else (if c = 0x1E23 then 0x1E22 else 0))) else (if c < 0x1E29 then (if c < 0x1E27 then (if c
    = 0x1E25 then 0x1E24 else 0) else (if c = 0x1E27 then 0x1E26 else 0)) else (if c < 0x1E2B then (if c
    = 0x1E29 then 0x1E28 else 0) else (if c = 0x1E2B then 0x1E2A else 0)))) else (if c < 0x1E35 then (if
    c < 0x1E31 then (if c < 0x1E2F then (if c = 0x1E2D then 0x1E2C else 0) else (if c = 0x1E2F then
    0x1E2E else 0)) else (if c < 0x1E33 then (if c = 0x1E31 then 0x1E30 else 0) else (if c = 0x1E33 then
    0x1E32 else 0))) else (if c < 0x1E39 then (if c < 0x1E37 then (if c = 0x1E35 then 0x1E34 else 0) else
    (if c = 0x1E37 then 0x1E36 else 0)) else (if c < 0x1E3B then (if c = 0x1E39 then 0x1E38 else 0) else
    (if c = 0x1E3B then 0x1E3A else 0)))))) else (if c < 0x1E5B then (if c < 0x1E4B then (if c < 0x1E43
    then (if c < 0x1E3F then (if c = 0x1E3D then 0x1E3C else 0) else (if c < 0x1E41 then (if c = 0x1E3F
    then 0x1E3E else 0) else (if c = 0x1E41 then 0x1E40 else 0))) else (if c < 0x1E47 then (if c < 0x1E45
    then (if c = 0x1E43 then 0x1E42 else 0) else (if c = 0x1E45 then 0x1E44 else 0)) else (if c < 0x1E49
    then (if c = 0x1E47 then 0x1E46 else 0) else (if c = 0x1E49 then 0x1E48 else 0)))) else (if c <
    0x1E53 then (if c < 0x1E4F then (if c < 0x1E4D then (if c = 0x1E4B then 0x1E4A else 0) else (if c =
    0x1E4D then 0x1E4C else 0)) else (if c < 0x1E51 then (if c = 0x1E4F then 0x1E4E else 0) else (if c =
    0x1E51 then 0x1E50 else 0))) else (if c < 0x1E57 then (if c < 0x1E55 then (if c = 0x1E53 then 0x1E52
    else 0) else (if c = 0x1E55 then 0x1E54 else 0)) else (if c < 0x1E59 then (if c = 0x1E57 then 0x1E56
    else 0) else (if c = 0x1E59 then 0x1E58 else 0))))) else (if c < 0x1E69 then (if c < 0x1E61 then (if
    c < 0x1E5D then (if c = 0x1E5B then 0x1E5A else 0) else (if c < 0x1E5F then (if c = 0x1E5D then
    0x1E5C else 0) else (if c = 0x1E5F then 0x1E5E else 0))) else (if c < 0x1E65 then (if c < 0x1E63 then
    (if c = 0x1E61 then 0x1E60 else 0) else (if c = 0x1E63 then 0x1E62 else 0)) else (if c < 0x1E67 then
    (if c = 0x1E65 then 0x1E64 else 0) else (if c = 0x1E67 then 0x1E66 else 0)))) else (if c < 0x1E71
    then (if c < 0x1E6D then (if c < 0x1E6B then (if c = 0x1E69 then 0x1E68 else 0) else (if c = 0x1E6B
    then 0x1E6A else 0)) else (if c < 0x1E6F then (if c = 0x1E6D then 0x1E6C else 0) else (if c = 0x1E6F
    then 0x1E6E else 0))) else (if c < 0x1E75 then (if c < 0x1E73 then (if c = 0x1E71 then 0x1E70 else 0)
    else (if c = 0x1E73 then 0x1E72 else 0)) else (if c < 0x1E77 then (if c = 0x1E75 then 0x1E74 else 0)
    else (if c = 0x1E77 then 0x1E76 else 0))))))) else (if c < 0x1EBD then (if c < 0x1E9B then (if c <
    0x1E87 then (if c < 0x1E7F then (if c < 0x1E7B then (if c = 0x1E79 then 0x1E78 else 0) else (if c <
    0x1E7D then (if c = 0x1E7B then 0x1E7A else 0) else (if c = 0x1E7D then 0x1E7C else 0))) else (if c <
    0x1E83 then (if c < 0x1E81 then (if c = 0x1E7F then 0x1E7E else 0) else (if c = 0x1E81 then 0x1E80
    else 0)) else (if c < 0x1E85 then (if c = 0x1E83 then 0x1E82 else 0) else (if c = 0x1E85 then 0x1E84
    else 0)))) else (if c < 0x1E8F then (if c < 0x1E8B then (if c < 0x1E89 then (if c = 0x1E87 then
    0x1E86 else 0) else (if c = 0x1E89 then 0x1E88 else 0)) else (if c < 0x1E8D then (if c = 0x1E8B then
    0x1E8A else 0) else (if c = 0x1E8D then 0x1E8C else 0))) else (if c < 0x1E93 then (if c < 0x1E91 then
    (if c = 0x1E8F then 0x1E8E else 0) else (if c = 0x1E91 then 0x1E90 else 0)) else (if c < 0x1E95 then
    (if c = 0x1E93 then 0x1E92 else 0) else (if c = 0x1E95 then 0x1E94 else 0))))) else (if c < 0x1EAD
    then (if c < 0x1EA5 then (if c < 0x1EA1 then (if c = 0x1E9B then 0x1E60 else 0) else (if c < 0x1EA3
    then (if c = 0x1EA1 then 0x1EA0 else 0) else (if c = 0x1EA3 then 0x1EA2 else 0))) else (if c < 0x1EA9
    then (if c < 0x1EA7 then (if c = 0x1EA5 then 0x1EA4 else 0) else (if c = 0x1EA7 then 0x1EA6 else 0))
    else (if c < 0x1EAB then (if c = 0x1EA9 then 0x1EA8 else 0) else (if c = 0x1EAB then 0x1EAA else
    0)))) else (if c < 0x1EB5 then (if c < 0x1EB1 then (if c < 0x1EAF then (if c = 0x1EAD then 0x1EAC
    else 0) else (if c = 0x1EAF then 0x1EAE else 0)) else (if c < 0x1EB3 then (if c = 0x1EB1 then 0x1EB0
    else 0) else (if c = 0x1EB3 then 0x1EB2 else 0))) else (if c < 0x1EB9 then (if c < 0x1EB7 then (if c
    = 0x1EB5 then 0x1EB4 else 0) else (if c = 0x1EB7 then 0x1EB6 else 0)) else (if c < 0x1EBB then (if c
    = 0x1EB9 then 0x1EB8 else 0) else (if c = 0x1EBB then 0x1EBA else 0)))))) else (if c < 0x1EDB then
    (if c < 0x1ECB then (if c < 0x1EC3 then (if c < 0x1EBF then (if c = 0x1EBD then 0x1EBC else 0) else
    (if c < 0x1EC1 then (if c = 0x1EBF then 0x1EBE else 0) else (if c = 0x1EC1 then 0x1EC0 else 0))) else
    (if c < 0x1EC7 then (if c < 0x1EC5 then (if c = 0x1EC3 then 0x1EC2 else 0) else (if c = 0x1EC5 then
    0x1EC4 else 0)) else (if c < 0x1EC9 then (if c = 0x1EC7 then 0x1EC6 else 0) else (if c = 0x1EC9 then
    0x1EC8 else 0)))) else (if c < 0x1ED3 then (if c < 0x1ECF then (if c < 0x1ECD then (if c = 0x1ECB
    then 0x1ECA else 0) else (if c = 0x1ECD then 0x1ECC else 0)) else (if c < 0x1ED1 then (if c = 0x1ECF
    then 0x1ECE else 0) else (if c = 0x1ED1 then 0x1ED0 else 0))) else (if c < 0x1ED7 then (if c < 0x1ED5
    then (if c = 0x1ED3 then 0x1ED2 else 0) else (if c = 0x1ED5 then 0x1ED4 else 0)) else (if c < 0x1ED9
    then (if c = 0x1ED7 then 0x1ED6 else 0) else (if c = 0x1ED9 then 0x1ED8 else 0))))) else (if c <
    0x1EEB then (if c < 0x1EE3 then (if c < 0x1EDF then (if c < 0x1EDD then (if c = 0x1EDB then 0x1EDA
    else 0) else (if c = 0x1EDD then 0x1EDC else 0)) else (if c < 0x1EE1 then (if c = 0x1EDF then 0x1EDE
    else 0) else (if c = 0x1EE1 then 0x1EE0 else 0))) else (if c < 0x1EE7 then (if c < 0x1EE5 then (if c
    = 0x1EE3 then 0x1EE2 else 0) else (if c = 0x1EE5 then 0x1EE4 else 0)) else (if c < 0x1EE9 then (if c
    = 0x1EE7 then 0x1EE6 else 0) else (if c = 0x1EE9 then 0x1EE8 else 0)))) else (if c < 0x1EF3 then (if
    c < 0x1EEF then (if c < 0x1EED then (if c = 0x1EEB then 0x1EEA else 0) else (if c = 0x1EED then
    0x1EEC else 0)) else (if c < 0x1EF1 then (if c = 0x1EEF then 0x1EEE else 0) else (if c = 0x1EF1 then
    0x1EF0 else 0))) else (if c < 0x1EF7 then (if c < 0x1EF5 then (if c = 0x1EF3 then 0x1EF2 else 0) else
    (if c = 0x1EF5 then 0x1EF4 else 0)) else (if c < 0x1EF9 then (if c = 0x1EF7 then 0x1EF6 else 0) else
    (if c = 0x1EF9 then 0x1EF8 else 0))))))))"

definition upper_1f :: "unichar \<Rightarrow> unichar" where
  "upper_1f c =
    (if c < 0x1F70 then (if c < 0x1F32 then (if c < 0x1F14 then (if c < 0x1F06 then (if c < 0x1F03 then
    (if c < 0x1F01 then (if c = 0x1F00 then 0x1F08 else 0) else (if c < 0x1F02 then (if c = 0x1F01 then
    0x1F09 else 0) else (if c = 0x1F02 then 0x1F0A else 0))) else (if c < 0x1F04 then (if c = 0x1F03 then
    0x1F0B else 0) else (if c < 0x1F05 then (if c = 0x1F04 then 0x1F0C else 0) else (if c = 0x1F05 then
    0x1F0D else 0)))) else (if c < 0x1F11 then (if c < 0x1F07 then (if c = 0x1F06 then 0x1F0E else 0)
    else (if c < 0x1F10 then (if c = 0x1F07 then 0x1F0F else 0) else (if c = 0x1F10 then 0x1F18 else 0)))
    else (if c < 0x1F12 then (if c = 0x1F11 then 0x1F19 else 0) else (if c < 0x1F13 then (if c = 0x1F12
    then 0x1F1A else 0) else (if c = 0x1F13 then 0x1F1B else 0))))) else (if c < 0x1F24 then (if c <
    0x1F21 then (if c < 0x1F15 then (if c = 0x1F14 then 0x1F1C else 0) else (if c < 0x1F20 then (if c =
    0x1F15 then 0x1F1D else 0) else (if c = 0x1F20 then 0x1F28 else 0))) else (if c < 0x1F22 then (if c =
    0x1F21 then 0x1F29 else 0) else (if c < 0x1F23 then (if c = 0x1F22 then 0x1F2A else 0) else (if c =
    0x1F23 then 0x1F2B else 0)))) else (if c < 0x1F27 then (if c < 0x1F25 then (if c = 0x1F24 then 0x1F2C
    else 0) else (if c < 0x1F26 then (if c = 0x1F25 then 0x1F2D else 0) else (if c = 0x1F26 then 0x1F2E
    else 0))) else (if c < 0x1F30 then (if c = 0x1F27 then 0x1F2F else 0) else (if c < 0x1F31 then (if c
    = 0x1F30 then 0x1F38 else 0) else (if c = 0x1F31 then 0x1F39 else 0)))))) else (if c < 0x1F51 then
    (if c < 0x1F40 then (if c < 0x1F35 then (if c < 0x1F33 then (if c = 0x1F32 then 0x1F3A else 0) else
    (if c < 0x1F34 then (if c = 0x1F33 then 0x1F3B else 0) else (if c = 0x1F34 then 0x1F3C else 0))) else
    (if c < 0x1F36 then (if c = 0x1F35 then 0x1F3D else 0) else (if c < 0x1F37 then (if c = 0x1F36 then
    0x1F3E else 0) else (if c = 0x1F37 then 0x1F3F else 0)))) else (if c < 0x1F43 then (if c < 0x1F41
    then (if c = 0x1F40 then 0x1F48 else 0) else (if c < 0x1F42 then (if c = 0x1F41 then 0x1F49 else 0)
    else (if c = 0x1F42 then 0x1F4A else 0))) else (if c < 0x1F44 then (if c = 0x1F43 then 0x1F4B else 0)
    else (if c < 0x1F45 then (if c = 0x1F44 then 0x1F4C else 0) else (if c = 0x1F45 then 0x1F4D else
    0))))) else (if c < 0x1F62 then (if c < 0x1F57 then (if c < 0x1F53 then (if c = 0x1F51 then 0x1F59
    else 0) else (if c < 0x1F55 then (if c = 0x1F53 then 0x1F5B else 0) else (if c = 0x1F55 then 0x1F5D
    else 0))) else (if c < 0x1F60 then (if c = 0x1F57 then 0x1F5F else 0) else (if c < 0x1F61 then (if c
    = 0x1F60 then 0x1F68 else 0) else (if c = 0x1F61 then 0x1F69 else 0)))) else (if c < 0x1F65 then (if
    c < 0x1F63 then (if c = 0x1F62 then 0x1F6A else 0) else (if c < 0x1F64 then (if c = 0x1F63 then
    0x1F6B else 0) else (if c = 0x1F64 then 0x1F6C else 0))) else (if c < 0x1F66 then (if c = 0x1F65 then
    0x1F6D else 0) else (if c < 0x1F67 then (if c = 0x1F66 then 0x1F6E else 0) else (if c = 0x1F67 then
    0x1F6F else 0))))))) else (if c < 0x1F92 then (if c < 0x1F7C then (if c < 0x1F76 then (if c < 0x1F73
    then (if c < 0x1F71 then (if c = 0x1F70 then 0x1FBA else 0) else (if c < 0x1F72 then (if c = 0x1F71
    then 0x1FBB else 0) else (if c = 0x1F72 then 0x1FC8 else 0))) else (if c < 0x1F74 then (if c = 0x1F73
    then 0x1FC9 else 0) else (if c < 0x1F75 then (if c = 0x1F74 then 0x1FCA else 0) else (if c = 0x1F75
    then 0x1FCB else 0)))) else (if c < 0x1F79 then (if c < 0x1F77 then (if c = 0x1F76 then 0x1FDA else
    0) else (if c < 0x1F78 then (if c = 0x1F77 then 0x1FDB else 0) else (if c = 0x1F78 then 0x1FF8 else
    0))) else (if c < 0x1F7A then (if c = 0x1F79 then 0x1FF9 else 0) else (if c < 0x1F7B then (if c =
    0x1F7A then 0x1FEA else 0) else (if c = 0x1F7B then 0x1FEB else 0))))) else (if c < 0x1F84 then (if c
    < 0x1F81 then (if c < 0x1F7D then (if c = 0x1F7C then 0x1FFA else 0) else (if c < 0x1F80 then (if c =
    0x1F7D then 0x1FFB else 0) else (if c = 0x1F80 then 0x1F88 else 0))) else (if c < 0x1F82 then (if c =
    0x1F81 then 0x1F89 else 0) else (if c < 0x1F83 then (if c = 0x1F82 then 0x1F8A else 0) else (if c =
    0x1F83 then 0x1F8B else 0)))) else (if c < 0x1F87 then (if c < 0x1F85 then (if c = 0x1F84 then 0x1F8C
    else 0) else (if c < 0x1F86 then (if c = 0x1F85 then 0x1F8D else 0) else (if c = 0x1F86 then 0x1F8E
    else 0))) else (if c < 0x1F90 then (if c = 0x1F87 then 0x1F8F else 0) else (if c < 0x1F91 then (if c
    = 0x1F90 then 0x1F98 else 0) else (if c = 0x1F91 then 0x1F99 else 0)))))) else (if c < 0x1FA6 then
    (if c < 0x1FA0 then (if c < 0x1F95 then (if c < 0x1F93 then (if c = 0x1F92 then 0x1F9A else 0) else
    (if c < 0x1F94 then (if c = 0x1F93 then 0x1F9B else 0) else (if c = 0x1F94 then 0x1F9C else 0))) else
    (if c < 0x1F96 then (if c = 0x1F95 then 0x1F9D else 0) else (if c < 0x1F97 then (if c = 0x1F96 then
    0x1F9E else 0) else (if c = 0x1F97 then 0x1F9F else 0)))) else (if c < 0x1FA3 then (if c < 0x1FA1
    then (if c = 0x1FA0 then 0x1FA8 else 0) else (if c < 0x1FA2 then (if c = 0x1FA1 then 0x1FA9 else 0)
    else (if c = 0x1FA2 then 0x1FAA else 0))) else (if c < 0x1FA4 then (if c = 0x1FA3 then 0x1FAB else 0)
    else (if c < 0x1FA5 then (if c = 0x1FA4 then 0x1FAC else 0) else (if c = 0x1FA5 then 0x1FAD else
    0))))) else (if c < 0x1FC3 then (if c < 0x1FB1 then (if c < 0x1FA7 then (if c = 0x1FA6 then 0x1FAE
    else 0) else (if c < 0x1FB0 then (if c = 0x1FA7 then 0x1FAF else 0) else (if c = 0x1FB0 then 0x1FB8
    else 0))) else (if c < 0x1FB3 then (if c = 0x1FB1 then 0x1FB9 else 0) else (if c < 0x1FBE then (if c
    = 0x1FB3 then 0x1FBC else 0) else (if c = 0x1FBE then 0x0399 else 0)))) else (if c < 0x1FE0 then (if
    c < 0x1FD0 then (if c = 0x1FC3 then 0x1FCC else 0) else (if c < 0x1FD1 then (if c = 0x1FD0 then
    0x1FD8 else 0) else (if c = 0x1FD1 then 0x1FD9 else 0))) else (if c < 0x1FE5 then (if c < 0x1FE1 then
    (if c = 0x1FE0 then 0x1FE8 else 0) else (if c = 0x1FE1 then 0x1FE9 else 0)) else (if c < 0x1FF3 then
    (if c = 0x1FE5 then 0x1FEC else 0) else (if c = 0x1FF3 then 0x1FFC else 0))))))))"

definition upper_21 :: "unichar \<Rightarrow> unichar" where
  "upper_21 c =
    (if c < 0x2178 then (if c < 0x2174 then (if c < 0x2172 then (if c < 0x2171 then (if c = 0x2170 then
    0x2160 else 0) else (if c = 0x2171 then 0x2161 else 0)) else (if c < 0x2173 then (if c = 0x2172 then
    0x2162 else 0) else (if c = 0x2173 then 0x2163 else 0))) else (if c < 0x2176 then (if c < 0x2175 then
    (if c = 0x2174 then 0x2164 else 0) else (if c = 0x2175 then 0x2165 else 0)) else (if c < 0x2177 then
    (if c = 0x2176 then 0x2166 else 0) else (if c = 0x2177 then 0x2167 else 0)))) else (if c < 0x217C
    then (if c < 0x217A then (if c < 0x2179 then (if c = 0x2178 then 0x2168 else 0) else (if c = 0x2179
    then 0x2169 else 0)) else (if c < 0x217B then (if c = 0x217A then 0x216A else 0) else (if c = 0x217B
    then 0x216B else 0))) else (if c < 0x217E then (if c < 0x217D then (if c = 0x217C then 0x216C else 0)
    else (if c = 0x217D then 0x216D else 0)) else (if c < 0x217F then (if c = 0x217E then 0x216E else 0)
    else (if c = 0x217F then 0x216F else 0)))))"

definition upper_24 :: "unichar \<Rightarrow> unichar" where
  "upper_24 c =
    (if c < 0x24DD then (if c < 0x24D6 then (if c < 0x24D3 then (if c < 0x24D1 then (if c = 0x24D0 then
    0x24B6 else 0) else (if c < 0x24D2 then (if c = 0x24D1 then 0x24B7 else 0) else (if c = 0x24D2 then
    0x24B8 else 0))) else (if c < 0x24D4 then (if c = 0x24D3 then 0x24B9 else 0) else (if c < 0x24D5 then
    (if c = 0x24D4 then 0x24BA else 0) else (if c = 0x24D5 then 0x24BB else 0)))) else (if c < 0x24D9
    then (if c < 0x24D7 then (if c = 0x24D6 then 0x24BC else 0) else (if c < 0x24D8 then (if c = 0x24D7
    then 0x24BD else 0) else (if c = 0x24D8 then 0x24BE else 0))) else (if c < 0x24DB then (if c < 0x24DA
    then (if c = 0x24D9 then 0x24BF else 0) else (if c = 0x24DA then 0x24C0 else 0)) else (if c < 0x24DC
    then (if c = 0x24DB then 0x24C1 else 0) else (if c = 0x24DC then 0x24C2 else 0))))) else (if c <
    0x24E3 then (if c < 0x24E0 then (if c < 0x24DE then (if c = 0x24DD then 0x24C3 else 0) else (if c <
    0x24DF then (if c = 0x24DE then 0x24C4 else 0) else (if c = 0x24DF then 0x24C5 else 0))) else (if c <
    0x24E1 then (if c = 0x24E0 then 0x24C6 else 0) else (if c < 0x24E2 then (if c = 0x24E1 then 0x24C7
    else 0) else (if c = 0x24E2 then 0x24C8 else 0)))) else (if c < 0x24E6 then (if c < 0x24E4 then (if c
    = 0x24E3 then 0x24C9 else 0) else (if c < 0x24E5 then (if c = 0x24E4 then 0x24CA else 0) else (if c =
    0x24E5 then 0x24CB else 0))) else (if c < 0x24E8 then (if c < 0x24E7 then (if c = 0x24E6 then 0x24CC
    else 0) else (if c = 0x24E7 then 0x24CD else 0)) else (if c < 0x24E9 then (if c = 0x24E8 then 0x24CE
    else 0) else (if c = 0x24E9 then 0x24CF else 0))))))"

definition upper_ff :: "unichar \<Rightarrow> unichar" where
  "upper_ff c =
    (if c < 0xFF4E then (if c < 0xFF47 then (if c < 0xFF44 then (if c < 0xFF42 then (if c = 0xFF41 then
    0xFF21 else 0) else (if c < 0xFF43 then (if c = 0xFF42 then 0xFF22 else 0) else (if c = 0xFF43 then
    0xFF23 else 0))) else (if c < 0xFF45 then (if c = 0xFF44 then 0xFF24 else 0) else (if c < 0xFF46 then
    (if c = 0xFF45 then 0xFF25 else 0) else (if c = 0xFF46 then 0xFF26 else 0)))) else (if c < 0xFF4A
    then (if c < 0xFF48 then (if c = 0xFF47 then 0xFF27 else 0) else (if c < 0xFF49 then (if c = 0xFF48
    then 0xFF28 else 0) else (if c = 0xFF49 then 0xFF29 else 0))) else (if c < 0xFF4C then (if c < 0xFF4B
    then (if c = 0xFF4A then 0xFF2A else 0) else (if c = 0xFF4B then 0xFF2B else 0)) else (if c < 0xFF4D
    then (if c = 0xFF4C then 0xFF2C else 0) else (if c = 0xFF4D then 0xFF2D else 0))))) else (if c <
    0xFF54 then (if c < 0xFF51 then (if c < 0xFF4F then (if c = 0xFF4E then 0xFF2E else 0) else (if c <
    0xFF50 then (if c = 0xFF4F then 0xFF2F else 0) else (if c = 0xFF50 then 0xFF30 else 0))) else (if c <
    0xFF52 then (if c = 0xFF51 then 0xFF31 else 0) else (if c < 0xFF53 then (if c = 0xFF52 then 0xFF32
    else 0) else (if c = 0xFF53 then 0xFF33 else 0)))) else (if c < 0xFF57 then (if c < 0xFF55 then (if c
    = 0xFF54 then 0xFF34 else 0) else (if c < 0xFF56 then (if c = 0xFF55 then 0xFF35 else 0) else (if c =
    0xFF56 then 0xFF36 else 0))) else (if c < 0xFF59 then (if c < 0xFF58 then (if c = 0xFF57 then 0xFF37
    else 0) else (if c = 0xFF58 then 0xFF38 else 0)) else (if c < 0xFF5A then (if c = 0xFF59 then 0xFF39
    else 0) else (if c = 0xFF5A then 0xFF3A else 0))))))"

definition upper_page :: "nat \<Rightarrow> unichar \<Rightarrow> unichar" where
  "upper_page p c =
     (if p = 0x0 then upper_0 c else
      if p = 0x1 then upper_1 c else
      if p = 0x2 then upper_2 c else
      if p = 0x3 then upper_3 c else
      if p = 0x4 then upper_4 c else
      if p = 0x5 then upper_5 c else
      if p = 0x1E then upper_1e c else
      if p = 0x1F then upper_1f c else
      if p = 0x21 then upper_21 c else
      if p = 0x24 then upper_24 c else
      if p = 0xFF then upper_ff c else
      0)"

definition upper_of :: "unichar \<Rightarrow> unichar" where
  "upper_of c = upper_page (c div 256) c"

lemmas lower_trees = lower_of_def lower_page_def lower_0_def lower_1_def lower_2_def lower_3_def lower_4_def lower_5_def lower_1e_def lower_1f_def lower_21_def lower_24_def lower_ff_def

lemmas upper_trees = upper_of_def upper_page_def upper_0_def upper_1_def upper_2_def upper_3_def upper_4_def upper_5_def upper_1e_def upper_1f_def upper_21_def upper_24_def upper_ff_def

text \<open>
  Capitals that are not the capital of their small letter, small letters that are not the
  small letter of their capital, and those of them whose capital has another small letter
  than they have.
\<close>

definition odd_capitals :: "unichar list" where
  "odd_capitals = [0x0130, 0x01C5, 0x01C8, 0x01CB, 0x01F2, 0x2126, 0x212A, 0x212B]"

definition odd_smalls :: "unichar list" where
  "odd_smalls = [0x00B5, 0x0131, 0x017F, 0x01C5, 0x01C8, 0x01CB, 0x01F2, 0x0345, 0x03C2, 0x03D0, 0x03D1,
     0x03D5, 0x03D6, 0x03F0, 0x03F1, 0x03F2, 0x1E9B, 0x1FBE]"

definition unmatched_smalls :: "unichar list" where
  "unmatched_smalls = [0x00B5, 0x0131, 0x017F, 0x0345, 0x03C2, 0x03D0, 0x03D1, 0x03D5, 0x03D6, 0x03F0, 0x03F1,
     0x03F2, 0x1E9B, 0x1FBE]"

fun listed :: "unichar \<Rightarrow> unichar list \<Rightarrow> bool" where
  "listed c [] = False"
| "listed c (x # xs) = (if c = x then True else listed c xs)"

lemma listed_iff: "listed c xs \<longleftrightarrow> c \<in> set xs"
  by (induction xs) auto

definition or_same :: "unichar \<Rightarrow> unichar \<Rightarrow> unichar" where
  "or_same v c = (if v = 0 then c else v)"

text \<open>What is checked of each entry of the tables: the character and what it is mapped to.\<close>

definition lower_entry :: "unichar \<Rightarrow> unichar \<Rightarrow> bool" where
  "lower_entry c v \<longleftrightarrow> lower_of v = 0 \<and> v < 0x10000 \<and> (if listed c odd_capitals then True else upper_of v = c)"

definition upper_entry :: "unichar \<Rightarrow> unichar \<Rightarrow> bool" where
  "upper_entry c v \<longleftrightarrow> upper_of v = 0 \<and> v < 0x10000 \<and> (if listed c odd_smalls then True else lower_of v = c) \<and>
     (if listed c unmatched_smalls then or_same (lower_of v) v \<noteq> or_same (lower_of c) c
      else or_same (lower_of v) v = or_same (lower_of c) c)"

section \<open>The tables and the trees\<close>

lemma lower_0_a_fits: "fits lower_0 0x0000 gs_tolower_map_table_0_a" "length gs_tolower_map_table_0_a = 128"
  by (simp_all add: gs_tolower_map_table_0_a_def lower_0_def fits_steps del: fits.simps(2))

lemma lower_0_b_fits: "fits lower_0 0x0080 gs_tolower_map_table_0_b" "length gs_tolower_map_table_0_b = 128"
  by (simp_all add: gs_tolower_map_table_0_b_def lower_0_def fits_steps del: fits.simps(2))

lemma lower_0_fits: "fits lower_0 0x0000 gs_tolower_map_table_0" "length gs_tolower_map_table_0 = 256"
  using lower_0_a_fits lower_0_b_fits by (simp_all add: gs_tolower_map_table_0_def fits_append)

lemma lower_1_a_fits: "fits lower_1 0x0100 gs_tolower_map_table_1_a" "length gs_tolower_map_table_1_a = 128"
  by (simp_all add: gs_tolower_map_table_1_a_def lower_1_def fits_steps del: fits.simps(2))

lemma lower_1_b_fits: "fits lower_1 0x0180 gs_tolower_map_table_1_b" "length gs_tolower_map_table_1_b = 128"
  by (simp_all add: gs_tolower_map_table_1_b_def lower_1_def fits_steps del: fits.simps(2))

lemma lower_1_fits: "fits lower_1 0x0100 gs_tolower_map_table_1" "length gs_tolower_map_table_1 = 256"
  using lower_1_a_fits lower_1_b_fits by (simp_all add: gs_tolower_map_table_1_def fits_append)

lemma lower_2_a_fits: "fits lower_2 0x0200 gs_tolower_map_table_2_a" "length gs_tolower_map_table_2_a = 128"
  by (simp_all add: gs_tolower_map_table_2_a_def lower_2_def fits_steps del: fits.simps(2))

lemma lower_2_b_fits: "fits lower_2 0x0280 gs_tolower_map_table_2_b" "length gs_tolower_map_table_2_b = 128"
  by (simp_all add: gs_tolower_map_table_2_b_def lower_2_def fits_steps del: fits.simps(2))

lemma lower_2_fits: "fits lower_2 0x0200 gs_tolower_map_table_2" "length gs_tolower_map_table_2 = 256"
  using lower_2_a_fits lower_2_b_fits by (simp_all add: gs_tolower_map_table_2_def fits_append)

lemma lower_3_a_fits: "fits lower_3 0x0300 gs_tolower_map_table_3_a" "length gs_tolower_map_table_3_a = 128"
  by (simp_all add: gs_tolower_map_table_3_a_def lower_3_def fits_steps del: fits.simps(2))

lemma lower_3_b_fits: "fits lower_3 0x0380 gs_tolower_map_table_3_b" "length gs_tolower_map_table_3_b = 128"
  by (simp_all add: gs_tolower_map_table_3_b_def lower_3_def fits_steps del: fits.simps(2))

lemma lower_3_fits: "fits lower_3 0x0300 gs_tolower_map_table_3" "length gs_tolower_map_table_3 = 256"
  using lower_3_a_fits lower_3_b_fits by (simp_all add: gs_tolower_map_table_3_def fits_append)

lemma lower_4_a_fits: "fits lower_4 0x0400 gs_tolower_map_table_4_a" "length gs_tolower_map_table_4_a = 128"
  by (simp_all add: gs_tolower_map_table_4_a_def lower_4_def fits_steps del: fits.simps(2))

lemma lower_4_b_fits: "fits lower_4 0x0480 gs_tolower_map_table_4_b" "length gs_tolower_map_table_4_b = 128"
  by (simp_all add: gs_tolower_map_table_4_b_def lower_4_def fits_steps del: fits.simps(2))

lemma lower_4_fits: "fits lower_4 0x0400 gs_tolower_map_table_4" "length gs_tolower_map_table_4 = 256"
  using lower_4_a_fits lower_4_b_fits by (simp_all add: gs_tolower_map_table_4_def fits_append)

lemma lower_5_a_fits: "fits lower_5 0x0500 gs_tolower_map_table_5_a" "length gs_tolower_map_table_5_a = 128"
  by (simp_all add: gs_tolower_map_table_5_a_def lower_5_def fits_steps del: fits.simps(2))

lemma lower_5_b_fits: "fits lower_5 0x0580 gs_tolower_map_table_5_b" "length gs_tolower_map_table_5_b = 128"
  by (simp_all add: gs_tolower_map_table_5_b_def lower_5_def fits_steps del: fits.simps(2))

lemma lower_5_fits: "fits lower_5 0x0500 gs_tolower_map_table_5" "length gs_tolower_map_table_5 = 256"
  using lower_5_a_fits lower_5_b_fits by (simp_all add: gs_tolower_map_table_5_def fits_append)

lemma lower_1e_a_fits: "fits lower_1e 0x1E00 gs_tolower_map_table_1e_a" "length gs_tolower_map_table_1e_a = 128"
  by (simp_all add: gs_tolower_map_table_1e_a_def lower_1e_def fits_steps del: fits.simps(2))

lemma lower_1e_b_fits: "fits lower_1e 0x1E80 gs_tolower_map_table_1e_b" "length gs_tolower_map_table_1e_b = 128"
  by (simp_all add: gs_tolower_map_table_1e_b_def lower_1e_def fits_steps del: fits.simps(2))

lemma lower_1e_fits: "fits lower_1e 0x1E00 gs_tolower_map_table_1e" "length gs_tolower_map_table_1e = 256"
  using lower_1e_a_fits lower_1e_b_fits by (simp_all add: gs_tolower_map_table_1e_def fits_append)

lemma lower_1f_a_fits: "fits lower_1f 0x1F00 gs_tolower_map_table_1f_a" "length gs_tolower_map_table_1f_a = 128"
  by (simp_all add: gs_tolower_map_table_1f_a_def lower_1f_def fits_steps del: fits.simps(2))

lemma lower_1f_b_fits: "fits lower_1f 0x1F80 gs_tolower_map_table_1f_b" "length gs_tolower_map_table_1f_b = 128"
  by (simp_all add: gs_tolower_map_table_1f_b_def lower_1f_def fits_steps del: fits.simps(2))

lemma lower_1f_fits: "fits lower_1f 0x1F00 gs_tolower_map_table_1f" "length gs_tolower_map_table_1f = 256"
  using lower_1f_a_fits lower_1f_b_fits by (simp_all add: gs_tolower_map_table_1f_def fits_append)

lemma lower_21_a_fits: "fits lower_21 0x2100 gs_tolower_map_table_21_a" "length gs_tolower_map_table_21_a = 128"
  by (simp_all add: gs_tolower_map_table_21_a_def lower_21_def fits_steps del: fits.simps(2))

lemma lower_21_b_fits: "fits lower_21 0x2180 gs_tolower_map_table_21_b" "length gs_tolower_map_table_21_b = 128"
  by (simp_all add: gs_tolower_map_table_21_b_def lower_21_def fits_steps del: fits.simps(2))

lemma lower_21_fits: "fits lower_21 0x2100 gs_tolower_map_table_21" "length gs_tolower_map_table_21 = 256"
  using lower_21_a_fits lower_21_b_fits by (simp_all add: gs_tolower_map_table_21_def fits_append)

lemma lower_24_a_fits: "fits lower_24 0x2400 gs_tolower_map_table_24_a" "length gs_tolower_map_table_24_a = 128"
  by (simp_all add: gs_tolower_map_table_24_a_def lower_24_def fits_steps del: fits.simps(2))

lemma lower_24_b_fits: "fits lower_24 0x2480 gs_tolower_map_table_24_b" "length gs_tolower_map_table_24_b = 128"
  by (simp_all add: gs_tolower_map_table_24_b_def lower_24_def fits_steps del: fits.simps(2))

lemma lower_24_fits: "fits lower_24 0x2400 gs_tolower_map_table_24" "length gs_tolower_map_table_24 = 256"
  using lower_24_a_fits lower_24_b_fits by (simp_all add: gs_tolower_map_table_24_def fits_append)

lemma lower_ff_a_fits: "fits lower_ff 0xFF00 gs_tolower_map_table_ff_a" "length gs_tolower_map_table_ff_a = 128"
  by (simp_all add: gs_tolower_map_table_ff_a_def lower_ff_def fits_steps del: fits.simps(2))

lemma lower_ff_b_fits: "fits lower_ff 0xFF80 gs_tolower_map_table_ff_b" "length gs_tolower_map_table_ff_b = 128"
  by (simp_all add: gs_tolower_map_table_ff_b_def lower_ff_def fits_steps del: fits.simps(2))

lemma lower_ff_fits: "fits lower_ff 0xFF00 gs_tolower_map_table_ff" "length gs_tolower_map_table_ff = 256"
  using lower_ff_a_fits lower_ff_b_fits by (simp_all add: gs_tolower_map_table_ff_def fits_append)

lemma upper_0_a_fits: "fits upper_0 0x0000 gs_toupper_map_table_0_a" "length gs_toupper_map_table_0_a = 128"
  by (simp_all add: gs_toupper_map_table_0_a_def upper_0_def fits_steps del: fits.simps(2))

lemma upper_0_b_fits: "fits upper_0 0x0080 gs_toupper_map_table_0_b" "length gs_toupper_map_table_0_b = 128"
  by (simp_all add: gs_toupper_map_table_0_b_def upper_0_def fits_steps del: fits.simps(2))

lemma upper_0_fits: "fits upper_0 0x0000 gs_toupper_map_table_0" "length gs_toupper_map_table_0 = 256"
  using upper_0_a_fits upper_0_b_fits by (simp_all add: gs_toupper_map_table_0_def fits_append)

lemma upper_1_a_fits: "fits upper_1 0x0100 gs_toupper_map_table_1_a" "length gs_toupper_map_table_1_a = 128"
  by (simp_all add: gs_toupper_map_table_1_a_def upper_1_def fits_steps del: fits.simps(2))

lemma upper_1_b_fits: "fits upper_1 0x0180 gs_toupper_map_table_1_b" "length gs_toupper_map_table_1_b = 128"
  by (simp_all add: gs_toupper_map_table_1_b_def upper_1_def fits_steps del: fits.simps(2))

lemma upper_1_fits: "fits upper_1 0x0100 gs_toupper_map_table_1" "length gs_toupper_map_table_1 = 256"
  using upper_1_a_fits upper_1_b_fits by (simp_all add: gs_toupper_map_table_1_def fits_append)

lemma upper_2_a_fits: "fits upper_2 0x0200 gs_toupper_map_table_2_a" "length gs_toupper_map_table_2_a = 128"
  by (simp_all add: gs_toupper_map_table_2_a_def upper_2_def fits_steps del: fits.simps(2))

lemma upper_2_b_fits: "fits upper_2 0x0280 gs_toupper_map_table_2_b" "length gs_toupper_map_table_2_b = 128"
  by (simp_all add: gs_toupper_map_table_2_b_def upper_2_def fits_steps del: fits.simps(2))

lemma upper_2_fits: "fits upper_2 0x0200 gs_toupper_map_table_2" "length gs_toupper_map_table_2 = 256"
  using upper_2_a_fits upper_2_b_fits by (simp_all add: gs_toupper_map_table_2_def fits_append)

lemma upper_3_a_fits: "fits upper_3 0x0300 gs_toupper_map_table_3_a" "length gs_toupper_map_table_3_a = 128"
  by (simp_all add: gs_toupper_map_table_3_a_def upper_3_def fits_steps del: fits.simps(2))

lemma upper_3_b_fits: "fits upper_3 0x0380 gs_toupper_map_table_3_b" "length gs_toupper_map_table_3_b = 128"
  by (simp_all add: gs_toupper_map_table_3_b_def upper_3_def fits_steps del: fits.simps(2))

lemma upper_3_fits: "fits upper_3 0x0300 gs_toupper_map_table_3" "length gs_toupper_map_table_3 = 256"
  using upper_3_a_fits upper_3_b_fits by (simp_all add: gs_toupper_map_table_3_def fits_append)

lemma upper_4_a_fits: "fits upper_4 0x0400 gs_toupper_map_table_4_a" "length gs_toupper_map_table_4_a = 128"
  by (simp_all add: gs_toupper_map_table_4_a_def upper_4_def fits_steps del: fits.simps(2))

lemma upper_4_b_fits: "fits upper_4 0x0480 gs_toupper_map_table_4_b" "length gs_toupper_map_table_4_b = 128"
  by (simp_all add: gs_toupper_map_table_4_b_def upper_4_def fits_steps del: fits.simps(2))

lemma upper_4_fits: "fits upper_4 0x0400 gs_toupper_map_table_4" "length gs_toupper_map_table_4 = 256"
  using upper_4_a_fits upper_4_b_fits by (simp_all add: gs_toupper_map_table_4_def fits_append)

lemma upper_5_a_fits: "fits upper_5 0x0500 gs_toupper_map_table_5_a" "length gs_toupper_map_table_5_a = 128"
  by (simp_all add: gs_toupper_map_table_5_a_def upper_5_def fits_steps del: fits.simps(2))

lemma upper_5_b_fits: "fits upper_5 0x0580 gs_toupper_map_table_5_b" "length gs_toupper_map_table_5_b = 128"
  by (simp_all add: gs_toupper_map_table_5_b_def upper_5_def fits_steps del: fits.simps(2))

lemma upper_5_fits: "fits upper_5 0x0500 gs_toupper_map_table_5" "length gs_toupper_map_table_5 = 256"
  using upper_5_a_fits upper_5_b_fits by (simp_all add: gs_toupper_map_table_5_def fits_append)

lemma upper_1e_a_fits: "fits upper_1e 0x1E00 gs_toupper_map_table_1e_a" "length gs_toupper_map_table_1e_a = 128"
  by (simp_all add: gs_toupper_map_table_1e_a_def upper_1e_def fits_steps del: fits.simps(2))

lemma upper_1e_b_fits: "fits upper_1e 0x1E80 gs_toupper_map_table_1e_b" "length gs_toupper_map_table_1e_b = 128"
  by (simp_all add: gs_toupper_map_table_1e_b_def upper_1e_def fits_steps del: fits.simps(2))

lemma upper_1e_fits: "fits upper_1e 0x1E00 gs_toupper_map_table_1e" "length gs_toupper_map_table_1e = 256"
  using upper_1e_a_fits upper_1e_b_fits by (simp_all add: gs_toupper_map_table_1e_def fits_append)

lemma upper_1f_a_fits: "fits upper_1f 0x1F00 gs_toupper_map_table_1f_a" "length gs_toupper_map_table_1f_a = 128"
  by (simp_all add: gs_toupper_map_table_1f_a_def upper_1f_def fits_steps del: fits.simps(2))

lemma upper_1f_b_fits: "fits upper_1f 0x1F80 gs_toupper_map_table_1f_b" "length gs_toupper_map_table_1f_b = 128"
  by (simp_all add: gs_toupper_map_table_1f_b_def upper_1f_def fits_steps del: fits.simps(2))

lemma upper_1f_fits: "fits upper_1f 0x1F00 gs_toupper_map_table_1f" "length gs_toupper_map_table_1f = 256"
  using upper_1f_a_fits upper_1f_b_fits by (simp_all add: gs_toupper_map_table_1f_def fits_append)

lemma upper_21_a_fits: "fits upper_21 0x2100 gs_toupper_map_table_21_a" "length gs_toupper_map_table_21_a = 128"
  by (simp_all add: gs_toupper_map_table_21_a_def upper_21_def fits_steps del: fits.simps(2))

lemma upper_21_b_fits: "fits upper_21 0x2180 gs_toupper_map_table_21_b" "length gs_toupper_map_table_21_b = 128"
  by (simp_all add: gs_toupper_map_table_21_b_def upper_21_def fits_steps del: fits.simps(2))

lemma upper_21_fits: "fits upper_21 0x2100 gs_toupper_map_table_21" "length gs_toupper_map_table_21 = 256"
  using upper_21_a_fits upper_21_b_fits by (simp_all add: gs_toupper_map_table_21_def fits_append)

lemma upper_24_a_fits: "fits upper_24 0x2400 gs_toupper_map_table_24_a" "length gs_toupper_map_table_24_a = 128"
  by (simp_all add: gs_toupper_map_table_24_a_def upper_24_def fits_steps del: fits.simps(2))

lemma upper_24_b_fits: "fits upper_24 0x2480 gs_toupper_map_table_24_b" "length gs_toupper_map_table_24_b = 128"
  by (simp_all add: gs_toupper_map_table_24_b_def upper_24_def fits_steps del: fits.simps(2))

lemma upper_24_fits: "fits upper_24 0x2400 gs_toupper_map_table_24" "length gs_toupper_map_table_24 = 256"
  using upper_24_a_fits upper_24_b_fits by (simp_all add: gs_toupper_map_table_24_def fits_append)

lemma upper_ff_a_fits: "fits upper_ff 0xFF00 gs_toupper_map_table_ff_a" "length gs_toupper_map_table_ff_a = 128"
  by (simp_all add: gs_toupper_map_table_ff_a_def upper_ff_def fits_steps del: fits.simps(2))

lemma upper_ff_b_fits: "fits upper_ff 0xFF80 gs_toupper_map_table_ff_b" "length gs_toupper_map_table_ff_b = 128"
  by (simp_all add: gs_toupper_map_table_ff_b_def upper_ff_def fits_steps del: fits.simps(2))

lemma upper_ff_fits: "fits upper_ff 0xFF00 gs_toupper_map_table_ff" "length gs_toupper_map_table_ff = 256"
  using upper_ff_a_fits upper_ff_b_fits by (simp_all add: gs_toupper_map_table_ff_def fits_append)

section \<open>The entries\<close>

lemma lower_0_a_entries: "entries_ok lower_entry 0x0000 gs_tolower_map_table_0_a"
  by (simp add: gs_tolower_map_table_0_a_def lower_entry_def lower_trees upper_trees odd_capitals_def odd_smalls_def unmatched_smalls_def
      or_same_def entries_steps del: entries_ok.simps(2))

lemma lower_0_b_entries: "entries_ok lower_entry 0x0080 gs_tolower_map_table_0_b"
  by (simp add: gs_tolower_map_table_0_b_def lower_entry_def lower_trees upper_trees odd_capitals_def odd_smalls_def unmatched_smalls_def
      or_same_def entries_steps del: entries_ok.simps(2))

lemma lower_0_entries: "entries_ok lower_entry 0x0000 gs_tolower_map_table_0"
  using lower_0_a_entries lower_0_b_entries lower_0_a_fits(2) by (simp add: gs_tolower_map_table_0_def entries_ok_append)

lemma lower_1_a_entries: "entries_ok lower_entry 0x0100 gs_tolower_map_table_1_a"
  by (simp add: gs_tolower_map_table_1_a_def lower_entry_def lower_trees upper_trees odd_capitals_def odd_smalls_def unmatched_smalls_def
      or_same_def entries_steps del: entries_ok.simps(2))

lemma lower_1_b_entries: "entries_ok lower_entry 0x0180 gs_tolower_map_table_1_b"
  by (simp add: gs_tolower_map_table_1_b_def lower_entry_def lower_trees upper_trees odd_capitals_def odd_smalls_def unmatched_smalls_def
      or_same_def entries_steps del: entries_ok.simps(2))

lemma lower_1_entries: "entries_ok lower_entry 0x0100 gs_tolower_map_table_1"
  using lower_1_a_entries lower_1_b_entries lower_1_a_fits(2) by (simp add: gs_tolower_map_table_1_def entries_ok_append)

lemma lower_2_a_entries: "entries_ok lower_entry 0x0200 gs_tolower_map_table_2_a"
  by (simp add: gs_tolower_map_table_2_a_def lower_entry_def lower_trees upper_trees odd_capitals_def odd_smalls_def unmatched_smalls_def
      or_same_def entries_steps del: entries_ok.simps(2))

lemma lower_2_b_entries: "entries_ok lower_entry 0x0280 gs_tolower_map_table_2_b"
  by (simp add: gs_tolower_map_table_2_b_def lower_entry_def lower_trees upper_trees odd_capitals_def odd_smalls_def unmatched_smalls_def
      or_same_def entries_steps del: entries_ok.simps(2))

lemma lower_2_entries: "entries_ok lower_entry 0x0200 gs_tolower_map_table_2"
  using lower_2_a_entries lower_2_b_entries lower_2_a_fits(2) by (simp add: gs_tolower_map_table_2_def entries_ok_append)

lemma lower_3_a_entries: "entries_ok lower_entry 0x0300 gs_tolower_map_table_3_a"
  by (simp add: gs_tolower_map_table_3_a_def lower_entry_def lower_trees upper_trees odd_capitals_def odd_smalls_def unmatched_smalls_def
      or_same_def entries_steps del: entries_ok.simps(2))

lemma lower_3_b_entries: "entries_ok lower_entry 0x0380 gs_tolower_map_table_3_b"
  by (simp add: gs_tolower_map_table_3_b_def lower_entry_def lower_trees upper_trees odd_capitals_def odd_smalls_def unmatched_smalls_def
      or_same_def entries_steps del: entries_ok.simps(2))

lemma lower_3_entries: "entries_ok lower_entry 0x0300 gs_tolower_map_table_3"
  using lower_3_a_entries lower_3_b_entries lower_3_a_fits(2) by (simp add: gs_tolower_map_table_3_def entries_ok_append)

lemma lower_4_a_entries: "entries_ok lower_entry 0x0400 gs_tolower_map_table_4_a"
  by (simp add: gs_tolower_map_table_4_a_def lower_entry_def lower_trees upper_trees odd_capitals_def odd_smalls_def unmatched_smalls_def
      or_same_def entries_steps del: entries_ok.simps(2))

lemma lower_4_b_entries: "entries_ok lower_entry 0x0480 gs_tolower_map_table_4_b"
  by (simp add: gs_tolower_map_table_4_b_def lower_entry_def lower_trees upper_trees odd_capitals_def odd_smalls_def unmatched_smalls_def
      or_same_def entries_steps del: entries_ok.simps(2))

lemma lower_4_entries: "entries_ok lower_entry 0x0400 gs_tolower_map_table_4"
  using lower_4_a_entries lower_4_b_entries lower_4_a_fits(2) by (simp add: gs_tolower_map_table_4_def entries_ok_append)

lemma lower_5_a_entries: "entries_ok lower_entry 0x0500 gs_tolower_map_table_5_a"
  by (simp add: gs_tolower_map_table_5_a_def lower_entry_def lower_trees upper_trees odd_capitals_def odd_smalls_def unmatched_smalls_def
      or_same_def entries_steps del: entries_ok.simps(2))

lemma lower_5_b_entries: "entries_ok lower_entry 0x0580 gs_tolower_map_table_5_b"
  by (simp add: gs_tolower_map_table_5_b_def lower_entry_def lower_trees upper_trees odd_capitals_def odd_smalls_def unmatched_smalls_def
      or_same_def entries_steps del: entries_ok.simps(2))

lemma lower_5_entries: "entries_ok lower_entry 0x0500 gs_tolower_map_table_5"
  using lower_5_a_entries lower_5_b_entries lower_5_a_fits(2) by (simp add: gs_tolower_map_table_5_def entries_ok_append)

lemma lower_1e_a_entries: "entries_ok lower_entry 0x1E00 gs_tolower_map_table_1e_a"
  by (simp add: gs_tolower_map_table_1e_a_def lower_entry_def lower_trees upper_trees odd_capitals_def odd_smalls_def unmatched_smalls_def
      or_same_def entries_steps del: entries_ok.simps(2))

lemma lower_1e_b_entries: "entries_ok lower_entry 0x1E80 gs_tolower_map_table_1e_b"
  by (simp add: gs_tolower_map_table_1e_b_def lower_entry_def lower_trees upper_trees odd_capitals_def odd_smalls_def unmatched_smalls_def
      or_same_def entries_steps del: entries_ok.simps(2))

lemma lower_1e_entries: "entries_ok lower_entry 0x1E00 gs_tolower_map_table_1e"
  using lower_1e_a_entries lower_1e_b_entries lower_1e_a_fits(2) by (simp add: gs_tolower_map_table_1e_def entries_ok_append)

lemma lower_1f_a_entries: "entries_ok lower_entry 0x1F00 gs_tolower_map_table_1f_a"
  by (simp add: gs_tolower_map_table_1f_a_def lower_entry_def lower_trees upper_trees odd_capitals_def odd_smalls_def unmatched_smalls_def
      or_same_def entries_steps del: entries_ok.simps(2))

lemma lower_1f_b_entries: "entries_ok lower_entry 0x1F80 gs_tolower_map_table_1f_b"
  by (simp add: gs_tolower_map_table_1f_b_def lower_entry_def lower_trees upper_trees odd_capitals_def odd_smalls_def unmatched_smalls_def
      or_same_def entries_steps del: entries_ok.simps(2))

lemma lower_1f_entries: "entries_ok lower_entry 0x1F00 gs_tolower_map_table_1f"
  using lower_1f_a_entries lower_1f_b_entries lower_1f_a_fits(2) by (simp add: gs_tolower_map_table_1f_def entries_ok_append)

lemma lower_21_a_entries: "entries_ok lower_entry 0x2100 gs_tolower_map_table_21_a"
  by (simp add: gs_tolower_map_table_21_a_def lower_entry_def lower_trees upper_trees odd_capitals_def odd_smalls_def unmatched_smalls_def
      or_same_def entries_steps del: entries_ok.simps(2))

lemma lower_21_b_entries: "entries_ok lower_entry 0x2180 gs_tolower_map_table_21_b"
  by (simp add: gs_tolower_map_table_21_b_def lower_entry_def lower_trees upper_trees odd_capitals_def odd_smalls_def unmatched_smalls_def
      or_same_def entries_steps del: entries_ok.simps(2))

lemma lower_21_entries: "entries_ok lower_entry 0x2100 gs_tolower_map_table_21"
  using lower_21_a_entries lower_21_b_entries lower_21_a_fits(2) by (simp add: gs_tolower_map_table_21_def entries_ok_append)

lemma lower_24_a_entries: "entries_ok lower_entry 0x2400 gs_tolower_map_table_24_a"
  by (simp add: gs_tolower_map_table_24_a_def lower_entry_def lower_trees upper_trees odd_capitals_def odd_smalls_def unmatched_smalls_def
      or_same_def entries_steps del: entries_ok.simps(2))

lemma lower_24_b_entries: "entries_ok lower_entry 0x2480 gs_tolower_map_table_24_b"
  by (simp add: gs_tolower_map_table_24_b_def lower_entry_def lower_trees upper_trees odd_capitals_def odd_smalls_def unmatched_smalls_def
      or_same_def entries_steps del: entries_ok.simps(2))

lemma lower_24_entries: "entries_ok lower_entry 0x2400 gs_tolower_map_table_24"
  using lower_24_a_entries lower_24_b_entries lower_24_a_fits(2) by (simp add: gs_tolower_map_table_24_def entries_ok_append)

lemma lower_ff_a_entries: "entries_ok lower_entry 0xFF00 gs_tolower_map_table_ff_a"
  by (simp add: gs_tolower_map_table_ff_a_def lower_entry_def lower_trees upper_trees odd_capitals_def odd_smalls_def unmatched_smalls_def
      or_same_def entries_steps del: entries_ok.simps(2))

lemma lower_ff_b_entries: "entries_ok lower_entry 0xFF80 gs_tolower_map_table_ff_b"
  by (simp add: gs_tolower_map_table_ff_b_def lower_entry_def lower_trees upper_trees odd_capitals_def odd_smalls_def unmatched_smalls_def
      or_same_def entries_steps del: entries_ok.simps(2))

lemma lower_ff_entries: "entries_ok lower_entry 0xFF00 gs_tolower_map_table_ff"
  using lower_ff_a_entries lower_ff_b_entries lower_ff_a_fits(2) by (simp add: gs_tolower_map_table_ff_def entries_ok_append)

lemma upper_0_a_entries: "entries_ok upper_entry 0x0000 gs_toupper_map_table_0_a"
  by (simp add: gs_toupper_map_table_0_a_def upper_entry_def lower_trees upper_trees odd_capitals_def odd_smalls_def unmatched_smalls_def
      or_same_def entries_steps del: entries_ok.simps(2))

lemma upper_0_b_entries: "entries_ok upper_entry 0x0080 gs_toupper_map_table_0_b"
  by (simp add: gs_toupper_map_table_0_b_def upper_entry_def lower_trees upper_trees odd_capitals_def odd_smalls_def unmatched_smalls_def
      or_same_def entries_steps del: entries_ok.simps(2))

lemma upper_0_entries: "entries_ok upper_entry 0x0000 gs_toupper_map_table_0"
  using upper_0_a_entries upper_0_b_entries upper_0_a_fits(2) by (simp add: gs_toupper_map_table_0_def entries_ok_append)

lemma upper_1_a_entries: "entries_ok upper_entry 0x0100 gs_toupper_map_table_1_a"
  by (simp add: gs_toupper_map_table_1_a_def upper_entry_def lower_trees upper_trees odd_capitals_def odd_smalls_def unmatched_smalls_def
      or_same_def entries_steps del: entries_ok.simps(2))

lemma upper_1_b_entries: "entries_ok upper_entry 0x0180 gs_toupper_map_table_1_b"
  by (simp add: gs_toupper_map_table_1_b_def upper_entry_def lower_trees upper_trees odd_capitals_def odd_smalls_def unmatched_smalls_def
      or_same_def entries_steps del: entries_ok.simps(2))

lemma upper_1_entries: "entries_ok upper_entry 0x0100 gs_toupper_map_table_1"
  using upper_1_a_entries upper_1_b_entries upper_1_a_fits(2) by (simp add: gs_toupper_map_table_1_def entries_ok_append)

lemma upper_2_a_entries: "entries_ok upper_entry 0x0200 gs_toupper_map_table_2_a"
  by (simp add: gs_toupper_map_table_2_a_def upper_entry_def lower_trees upper_trees odd_capitals_def odd_smalls_def unmatched_smalls_def
      or_same_def entries_steps del: entries_ok.simps(2))

lemma upper_2_b_entries: "entries_ok upper_entry 0x0280 gs_toupper_map_table_2_b"
  by (simp add: gs_toupper_map_table_2_b_def upper_entry_def lower_trees upper_trees odd_capitals_def odd_smalls_def unmatched_smalls_def
      or_same_def entries_steps del: entries_ok.simps(2))

lemma upper_2_entries: "entries_ok upper_entry 0x0200 gs_toupper_map_table_2"
  using upper_2_a_entries upper_2_b_entries upper_2_a_fits(2) by (simp add: gs_toupper_map_table_2_def entries_ok_append)

lemma upper_3_a_entries: "entries_ok upper_entry 0x0300 gs_toupper_map_table_3_a"
  by (simp add: gs_toupper_map_table_3_a_def upper_entry_def lower_trees upper_trees odd_capitals_def odd_smalls_def unmatched_smalls_def
      or_same_def entries_steps del: entries_ok.simps(2))

lemma upper_3_b_entries: "entries_ok upper_entry 0x0380 gs_toupper_map_table_3_b"
  by (simp add: gs_toupper_map_table_3_b_def upper_entry_def lower_trees upper_trees odd_capitals_def odd_smalls_def unmatched_smalls_def
      or_same_def entries_steps del: entries_ok.simps(2))

lemma upper_3_entries: "entries_ok upper_entry 0x0300 gs_toupper_map_table_3"
  using upper_3_a_entries upper_3_b_entries upper_3_a_fits(2) by (simp add: gs_toupper_map_table_3_def entries_ok_append)

lemma upper_4_a_entries: "entries_ok upper_entry 0x0400 gs_toupper_map_table_4_a"
  by (simp add: gs_toupper_map_table_4_a_def upper_entry_def lower_trees upper_trees odd_capitals_def odd_smalls_def unmatched_smalls_def
      or_same_def entries_steps del: entries_ok.simps(2))

lemma upper_4_b_entries: "entries_ok upper_entry 0x0480 gs_toupper_map_table_4_b"
  by (simp add: gs_toupper_map_table_4_b_def upper_entry_def lower_trees upper_trees odd_capitals_def odd_smalls_def unmatched_smalls_def
      or_same_def entries_steps del: entries_ok.simps(2))

lemma upper_4_entries: "entries_ok upper_entry 0x0400 gs_toupper_map_table_4"
  using upper_4_a_entries upper_4_b_entries upper_4_a_fits(2) by (simp add: gs_toupper_map_table_4_def entries_ok_append)

lemma upper_5_a_entries: "entries_ok upper_entry 0x0500 gs_toupper_map_table_5_a"
  by (simp add: gs_toupper_map_table_5_a_def upper_entry_def lower_trees upper_trees odd_capitals_def odd_smalls_def unmatched_smalls_def
      or_same_def entries_steps del: entries_ok.simps(2))

lemma upper_5_b_entries: "entries_ok upper_entry 0x0580 gs_toupper_map_table_5_b"
  by (simp add: gs_toupper_map_table_5_b_def upper_entry_def lower_trees upper_trees odd_capitals_def odd_smalls_def unmatched_smalls_def
      or_same_def entries_steps del: entries_ok.simps(2))

lemma upper_5_entries: "entries_ok upper_entry 0x0500 gs_toupper_map_table_5"
  using upper_5_a_entries upper_5_b_entries upper_5_a_fits(2) by (simp add: gs_toupper_map_table_5_def entries_ok_append)

lemma upper_1e_a_entries: "entries_ok upper_entry 0x1E00 gs_toupper_map_table_1e_a"
  by (simp add: gs_toupper_map_table_1e_a_def upper_entry_def lower_trees upper_trees odd_capitals_def odd_smalls_def unmatched_smalls_def
      or_same_def entries_steps del: entries_ok.simps(2))

lemma upper_1e_b_entries: "entries_ok upper_entry 0x1E80 gs_toupper_map_table_1e_b"
  by (simp add: gs_toupper_map_table_1e_b_def upper_entry_def lower_trees upper_trees odd_capitals_def odd_smalls_def unmatched_smalls_def
      or_same_def entries_steps del: entries_ok.simps(2))

lemma upper_1e_entries: "entries_ok upper_entry 0x1E00 gs_toupper_map_table_1e"
  using upper_1e_a_entries upper_1e_b_entries upper_1e_a_fits(2) by (simp add: gs_toupper_map_table_1e_def entries_ok_append)

lemma upper_1f_a_entries: "entries_ok upper_entry 0x1F00 gs_toupper_map_table_1f_a"
  by (simp add: gs_toupper_map_table_1f_a_def upper_entry_def lower_trees upper_trees odd_capitals_def odd_smalls_def unmatched_smalls_def
      or_same_def entries_steps del: entries_ok.simps(2))

lemma upper_1f_b_entries: "entries_ok upper_entry 0x1F80 gs_toupper_map_table_1f_b"
  by (simp add: gs_toupper_map_table_1f_b_def upper_entry_def lower_trees upper_trees odd_capitals_def odd_smalls_def unmatched_smalls_def
      or_same_def entries_steps del: entries_ok.simps(2))

lemma upper_1f_entries: "entries_ok upper_entry 0x1F00 gs_toupper_map_table_1f"
  using upper_1f_a_entries upper_1f_b_entries upper_1f_a_fits(2) by (simp add: gs_toupper_map_table_1f_def entries_ok_append)

lemma upper_21_a_entries: "entries_ok upper_entry 0x2100 gs_toupper_map_table_21_a"
  by (simp add: gs_toupper_map_table_21_a_def upper_entry_def lower_trees upper_trees odd_capitals_def odd_smalls_def unmatched_smalls_def
      or_same_def entries_steps del: entries_ok.simps(2))

lemma upper_21_b_entries: "entries_ok upper_entry 0x2180 gs_toupper_map_table_21_b"
  by (simp add: gs_toupper_map_table_21_b_def upper_entry_def lower_trees upper_trees odd_capitals_def odd_smalls_def unmatched_smalls_def
      or_same_def entries_steps del: entries_ok.simps(2))

lemma upper_21_entries: "entries_ok upper_entry 0x2100 gs_toupper_map_table_21"
  using upper_21_a_entries upper_21_b_entries upper_21_a_fits(2) by (simp add: gs_toupper_map_table_21_def entries_ok_append)

lemma upper_24_a_entries: "entries_ok upper_entry 0x2400 gs_toupper_map_table_24_a"
  by (simp add: gs_toupper_map_table_24_a_def upper_entry_def lower_trees upper_trees odd_capitals_def odd_smalls_def unmatched_smalls_def
      or_same_def entries_steps del: entries_ok.simps(2))

lemma upper_24_b_entries: "entries_ok upper_entry 0x2480 gs_toupper_map_table_24_b"
  by (simp add: gs_toupper_map_table_24_b_def upper_entry_def lower_trees upper_trees odd_capitals_def odd_smalls_def unmatched_smalls_def
      or_same_def entries_steps del: entries_ok.simps(2))

lemma upper_24_entries: "entries_ok upper_entry 0x2400 gs_toupper_map_table_24"
  using upper_24_a_entries upper_24_b_entries upper_24_a_fits(2) by (simp add: gs_toupper_map_table_24_def entries_ok_append)

lemma upper_ff_a_entries: "entries_ok upper_entry 0xFF00 gs_toupper_map_table_ff_a"
  by (simp add: gs_toupper_map_table_ff_a_def upper_entry_def lower_trees upper_trees odd_capitals_def odd_smalls_def unmatched_smalls_def
      or_same_def entries_steps del: entries_ok.simps(2))

lemma upper_ff_b_entries: "entries_ok upper_entry 0xFF80 gs_toupper_map_table_ff_b"
  by (simp add: gs_toupper_map_table_ff_b_def upper_entry_def lower_trees upper_trees odd_capitals_def odd_smalls_def unmatched_smalls_def
      or_same_def entries_steps del: entries_ok.simps(2))

lemma upper_ff_entries: "entries_ok upper_entry 0xFF00 gs_toupper_map_table_ff"
  using upper_ff_a_entries upper_ff_b_entries upper_ff_a_fits(2) by (simp add: gs_toupper_map_table_ff_def entries_ok_append)

lemma entries_zero: "entries_ok Q c (replicate n 0)"
  by (induction n arbitrary: c) simp_all

section \<open>Pages\<close>

definition lower_table :: "nat \<Rightarrow> unichar list" where
  "lower_table p =
     (if p = 0x0 then gs_tolower_map_table_0 else
      if p = 0x1 then gs_tolower_map_table_1 else
      if p = 0x2 then gs_tolower_map_table_2 else
      if p = 0x3 then gs_tolower_map_table_3 else
      if p = 0x4 then gs_tolower_map_table_4 else
      if p = 0x5 then gs_tolower_map_table_5 else
      if p = 0x1E then gs_tolower_map_table_1e else
      if p = 0x1F then gs_tolower_map_table_1f else
      if p = 0x21 then gs_tolower_map_table_21 else
      if p = 0x24 then gs_tolower_map_table_24 else
      if p = 0xFF then gs_tolower_map_table_ff else
      gs_casemap_empty_table)"

lemma lower_pages_a: "fits lower_table 0 gs_tolower_map_a" "length gs_tolower_map_a = 128"
  by (simp_all add: gs_tolower_map_a_def lower_table_def fits_steps del: fits.simps(2))

lemma lower_pages_b: "fits lower_table 128 gs_tolower_map_b" "length gs_tolower_map_b = 128"
  by (simp_all add: gs_tolower_map_b_def lower_table_def fits_steps del: fits.simps(2))

lemma lower_pages: "p < 256 \<Longrightarrow> gs_tolower_map ! p = lower_table p"
proof -
  have "fits lower_table 0 gs_tolower_map" "length gs_tolower_map = 256"
    using lower_pages_a lower_pages_b by (simp_all add: gs_tolower_map_def fits_append)
  then show "p < 256 \<Longrightarrow> gs_tolower_map ! p = lower_table p" using fits_nth [of lower_table 0] by simp
qed

lemma lower_page_sel:
  "lower_page 0x0 = lower_0"
  "lower_page (Suc 0) = lower_1"
  "lower_page 0x2 = lower_2"
  "lower_page 0x3 = lower_3"
  "lower_page 0x4 = lower_4"
  "lower_page 0x5 = lower_5"
  "lower_page 0x1E = lower_1e"
  "lower_page 0x1F = lower_1f"
  "lower_page 0x21 = lower_21"
  "lower_page 0x24 = lower_24"
  "lower_page 0xFF = lower_ff"
  by (simp_all add: fun_eq_iff lower_page_def)

lemma lower_table_ok:
  "fits (lower_page p) (256 * p) (lower_table p) \<and> length (lower_table p) = 256 \<and>
   entries_ok lower_entry (256 * p) (lower_table p)"
proof (cases "p \<in> {0x0, 0x1, 0x2, 0x3, 0x4, 0x5, 0x1E, 0x1F, 0x21, 0x24, 0xFF}")
  case True
  then show ?thesis
    using lower_0_fits lower_1_fits lower_2_fits lower_3_fits lower_4_fits lower_5_fits lower_1e_fits lower_1f_fits lower_21_fits lower_24_fits lower_ff_fits
      lower_0_entries lower_1_entries lower_2_entries lower_3_entries lower_4_entries lower_5_entries lower_1e_entries lower_1f_entries lower_21_entries lower_24_entries lower_ff_entries
    by (elim insertE) (simp_all add: lower_table_def lower_page_sel)
next
  case False
  then have "lower_table p = replicate 256 0" "lower_page p c = 0" for c
    by (simp_all add: lower_table_def lower_page_def gs_casemap_empty_table_def gs_casemap_empty_table_a_def
        gs_casemap_empty_table_b_def flip: replicate_add)
  then show ?thesis using fits_zero [of 256 "lower_page p"] entries_zero [of _ _ 256] by simp
qed

lemma uni_tolower_of:
  assumes "c < 0x10000"
  shows "uni_tolower c = or_same (lower_of c) c" "lower_of c \<noteq> 0 \<Longrightarrow> lower_entry c (lower_of c)"
proof -
  let ?p = "c div 256" and ?i = "c mod 256"
  have p: "?p < 256" "?i < 256" "256 * ?p + ?i = c" using assms by auto
  have table: "lower_table ?p ! ?i = lower_of c"
    using fits_nth [of "lower_page ?p" "256 * ?p" "lower_table ?p" ?i] lower_table_ok [of ?p] p by (simp add: lower_of_def)
  then show "uni_tolower c = or_same (lower_of c) c"
    using lower_pages [OF p(1)] by (simp add: uni_tolower_def or_same_def)
  show "lower_entry c (lower_of c)" if "lower_of c \<noteq> 0"
    using entries_ok_nth [of lower_entry "256 * ?p" "lower_table ?p" ?i] lower_table_ok [of ?p] p table that by simp
qed

definition upper_table :: "nat \<Rightarrow> unichar list" where
  "upper_table p =
     (if p = 0x0 then gs_toupper_map_table_0 else
      if p = 0x1 then gs_toupper_map_table_1 else
      if p = 0x2 then gs_toupper_map_table_2 else
      if p = 0x3 then gs_toupper_map_table_3 else
      if p = 0x4 then gs_toupper_map_table_4 else
      if p = 0x5 then gs_toupper_map_table_5 else
      if p = 0x1E then gs_toupper_map_table_1e else
      if p = 0x1F then gs_toupper_map_table_1f else
      if p = 0x21 then gs_toupper_map_table_21 else
      if p = 0x24 then gs_toupper_map_table_24 else
      if p = 0xFF then gs_toupper_map_table_ff else
      gs_casemap_empty_table)"

lemma upper_pages_a: "fits upper_table 0 gs_toupper_map_a" "length gs_toupper_map_a = 128"
  by (simp_all add: gs_toupper_map_a_def upper_table_def fits_steps del: fits.simps(2))

lemma upper_pages_b: "fits upper_table 128 gs_toupper_map_b" "length gs_toupper_map_b = 128"
  by (simp_all add: gs_toupper_map_b_def upper_table_def fits_steps del: fits.simps(2))

lemma upper_pages: "p < 256 \<Longrightarrow> gs_toupper_map ! p = upper_table p"
proof -
  have "fits upper_table 0 gs_toupper_map" "length gs_toupper_map = 256"
    using upper_pages_a upper_pages_b by (simp_all add: gs_toupper_map_def fits_append)
  then show "p < 256 \<Longrightarrow> gs_toupper_map ! p = upper_table p" using fits_nth [of upper_table 0] by simp
qed

lemma upper_page_sel:
  "upper_page 0x0 = upper_0"
  "upper_page (Suc 0) = upper_1"
  "upper_page 0x2 = upper_2"
  "upper_page 0x3 = upper_3"
  "upper_page 0x4 = upper_4"
  "upper_page 0x5 = upper_5"
  "upper_page 0x1E = upper_1e"
  "upper_page 0x1F = upper_1f"
  "upper_page 0x21 = upper_21"
  "upper_page 0x24 = upper_24"
  "upper_page 0xFF = upper_ff"
  by (simp_all add: fun_eq_iff upper_page_def)

lemma upper_table_ok:
  "fits (upper_page p) (256 * p) (upper_table p) \<and> length (upper_table p) = 256 \<and>
   entries_ok upper_entry (256 * p) (upper_table p)"
proof (cases "p \<in> {0x0, 0x1, 0x2, 0x3, 0x4, 0x5, 0x1E, 0x1F, 0x21, 0x24, 0xFF}")
  case True
  then show ?thesis
    using upper_0_fits upper_1_fits upper_2_fits upper_3_fits upper_4_fits upper_5_fits upper_1e_fits upper_1f_fits upper_21_fits upper_24_fits upper_ff_fits
      upper_0_entries upper_1_entries upper_2_entries upper_3_entries upper_4_entries upper_5_entries upper_1e_entries upper_1f_entries upper_21_entries upper_24_entries upper_ff_entries
    by (elim insertE) (simp_all add: upper_table_def upper_page_sel)
next
  case False
  then have "upper_table p = replicate 256 0" "upper_page p c = 0" for c
    by (simp_all add: upper_table_def upper_page_def gs_casemap_empty_table_def gs_casemap_empty_table_a_def
        gs_casemap_empty_table_b_def flip: replicate_add)
  then show ?thesis using fits_zero [of 256 "upper_page p"] entries_zero [of _ _ 256] by simp
qed

lemma uni_toupper_of:
  assumes "c < 0x10000"
  shows "uni_toupper c = or_same (upper_of c) c" "upper_of c \<noteq> 0 \<Longrightarrow> upper_entry c (upper_of c)"
proof -
  let ?p = "c div 256" and ?i = "c mod 256"
  have p: "?p < 256" "?i < 256" "256 * ?p + ?i = c" using assms by auto
  have table: "upper_table ?p ! ?i = upper_of c"
    using fits_nth [of "upper_page ?p" "256 * ?p" "upper_table ?p" ?i] upper_table_ok [of ?p] p by (simp add: upper_of_def)
  then show "uni_toupper c = or_same (upper_of c) c"
    using upper_pages [OF p(1)] by (simp add: uni_toupper_def or_same_def)
  show "upper_entry c (upper_of c)" if "upper_of c \<noteq> 0"
    using entries_ok_nth [of upper_entry "256 * ?p" "upper_table ?p" ?i] upper_table_ok [of ?p] p table that by simp
qed

text \<open>C25. Converting the case of a 16-bit character twice is the same as doing it once; the small
  letter of a capital has that capital again, except for eight characters, and the capital
  of a small letter has that small letter, except for eighteen; and a search that ignores
  case matches a character with its own capital unless it is one of fourteen of these.\<close>

theorem case_conversion:
  assumes "c < 0x10000"
  shows "uni_tolower (uni_tolower c) = uni_tolower c \<and> uni_toupper (uni_toupper c) = uni_toupper c \<and>
    (uni_tolower c \<noteq> c \<and> c \<notin> set odd_capitals \<longrightarrow> uni_toupper (uni_tolower c) = c) \<and>
    (uni_toupper c \<noteq> c \<and> c \<notin> set odd_smalls \<longrightarrow> uni_tolower (uni_toupper c) = c) \<and>
    (alike_fold (gs_unicode uni_tolower uni_toupper nonsp) c (uni_toupper c) \<longleftrightarrow> c \<notin> set unmatched_smalls)"
proof -
  note low = uni_tolower_of [OF assms] and up = uni_toupper_of [OF assms]
  have zero: "lower_of 0 = 0" "upper_of 0 = 0" by (simp_all add: lower_trees upper_trees)
  have lower: "uni_tolower (uni_tolower c) = uni_tolower c \<and>
    (uni_tolower c \<noteq> c \<and> c \<notin> set odd_capitals \<longrightarrow> uni_toupper (uni_tolower c) = c)"
  proof (cases "lower_of c = 0")
    case True
    then show ?thesis using low(1) by (simp add: or_same_def)
  next
    case False
    have e: "lower_entry c (lower_of c)" using low(2) [OF False] .
    then have "lower_of c < 0x10000" by (simp add: lower_entry_def)
    moreover have "c \<noteq> 0" using False zero by metis
    ultimately show ?thesis
      using uni_tolower_of(1) [of "lower_of c"] uni_toupper_of(1) [of "lower_of c"] e low(1) False
      by (auto simp: lower_entry_def listed_iff or_same_def split: if_splits)
  qed
  have "uni_toupper (uni_toupper c) = uni_toupper c \<and>
    (uni_toupper c \<noteq> c \<and> c \<notin> set odd_smalls \<longrightarrow> uni_tolower (uni_toupper c) = c) \<and>
    (alike_fold (gs_unicode uni_tolower uni_toupper nonsp) c (uni_toupper c) \<longleftrightarrow> c \<notin> set unmatched_smalls)"
  proof (cases "upper_of c = 0")
    case True
    have "\<forall>c \<in> set unmatched_smalls. upper_of c \<noteq> 0"
      by (simp add: unmatched_smalls_def upper_trees)
    then have "c \<notin> set unmatched_smalls" using True by blast
    then show ?thesis using up(1) True by (simp add: or_same_def alike_fold_def)
  next
    case False
    have e: "upper_entry c (upper_of c)" using up(2) [OF False] .
    then have v: "upper_of c < 0x10000" "upper_of (upper_of c) = 0" by (simp_all add: upper_entry_def)
    have fold: "(uni_tolower (upper_of c) = uni_tolower c) \<longleftrightarrow> c \<notin> set unmatched_smalls"
      using e uni_tolower_of(1) [OF v(1)] low(1) by (auto simp: upper_entry_def listed_iff split: if_splits)
    have alike: "alike_fold (gs_unicode uni_tolower uni_toupper nonsp) c (upper_of c) \<longleftrightarrow> c \<notin> set unmatched_smalls"
      unfolding alike_fold_def gs_unicode_sel using fold by metis
    have "c \<noteq> 0" using False zero by metis
    moreover have "uni_toupper c = upper_of c" "uni_toupper (upper_of c) = upper_of c"
      using up(1) uni_toupper_of(1) [OF v(1)] v(2) False by (simp_all add: or_same_def)
    ultimately show ?thesis
      using alike e uni_tolower_of(1) [OF v(1)]
      by (auto simp: upper_entry_def listed_iff or_same_def split: if_splits)
  qed
  with lower show ?thesis by blast
qed

theorem case_conversion_witness:
  "uni_toupper (uni_tolower 0x0041) = 0x0041 \<and> uni_tolower 0x0041 = 0x0061 \<and>
   \<not> alike_fold (gs_unicode uni_tolower uni_toupper (\<lambda>_. False)) 0x03C2 (uni_toupper 0x03C2)"
proof -
  have "uni_tolower 0x0041 = 0x0061" using uni_tolower_of(1) [of "0x0041"] by (simp add: lower_trees or_same_def)
  moreover have "0x0041 \<notin> set odd_capitals" "0x03C2 \<in> set unmatched_smalls"
    by (simp_all add: odd_capitals_def unmatched_smalls_def)
  ultimately show ?thesis
    using case_conversion [of "0x0041" "\<lambda>_. False"] case_conversion [of "0x03C2" "\<lambda>_. False"] by simp
qed

end
