(* ===== verification/Enc_Buffer.thy ===== *)
theory Enc_Buffer
  imports Unicode_Tables
begin

text \<open>
  The buffers the conversions of \<^verbatim>\<open>Source/Additions/Unicode.m\<close> write to. A conversion starts on the caller's
  buffer, or on a local one of \<^verbatim>\<open>BUFSIZ\<close> cells if there is none, and may move to memory of a
  zone when it grows. \<open>room\<close> is the number of cells that may really be written, which \<open>bsize\<close>,
  what the code believes, should not exceed; a write beyond it is a \<open>Fault\<close>. When the result is
  discarded only its length is kept.
\<close>

section \<open>Conversions in progress\<close>

datatype place = Local | Caller | Heap

record 'a conv =
  place :: place
  room :: nat
  bsize :: nat
  dpos :: nat
  cells :: "'a list"

text \<open>
  The arguments of a conversion: whether there is a pointer to a destination and the value of \<^verbatim>\<open>*size\<close>,
  whether there is a zone and which sizes in bytes it can still allocate, the options,
  the byte order of the host and the constant of \<^verbatim>\<open>stdio.h\<close>.
\<close>

record job =
  dst :: bool
  size_arg :: nat
  zone :: bool
  alloc :: "nat \<Rightarrow> bool"
  strict :: bool
  terminate :: bool
  temporary :: bool
  bom :: bool
  short_ok :: bool
  words_bigendian :: bool
  BUFSIZ :: nat

text \<open>
  How a step ends: it goes on, jumps to \<^verbatim>\<open>done\<close> with the result \<^verbatim>\<open>NO\<close>, jumps there without a
  buffer, returns \<^verbatim>\<open>NO\<close> at once, or touches memory it may not. A loop that never ends is \<open>None\<close>.
\<close>

datatype 's flow = Go 's | Fail 's | Lost | Return_no | Fault

definition bind_flow :: "'s flow option \<Rightarrow> ('s \<Rightarrow> 't flow option) \<Rightarrow> ('s \<Rightarrow> 't) \<Rightarrow> 't flow option" where
  "bind_flow m f g =
     (case m of None \<Rightarrow> None
      | Some (Go s) \<Rightarrow> f s
      | Some (Fail s) \<Rightarrow> Some (Fail (g s))
      | Some Lost \<Rightarrow> Some Lost
      | Some Return_no \<Rightarrow> Some Return_no
      | Some Fault \<Rightarrow> Some Fault)"

abbreviation andthen :: "'s flow option \<Rightarrow> ('s \<Rightarrow> 's flow option) \<Rightarrow> 's flow option" where
  "andthen m f \<equiv> bind_flow m f (\<lambda>s. s)"

section \<open>Buffers\<close>

definition start_buffer :: "job \<Rightarrow> 'a conv" where
  "start_buffer j =
     (if \<not> dst j \<or> size_arg j = 0
      then \<lparr>place = Local, room = BUFSIZ j, bsize = (if terminate j then BUFSIZ j - 1 else BUFSIZ j), dpos = 0, cells = []\<rparr>
      else \<lparr>place = Caller, room = size_arg j + (if terminate j then 1 else 0), bsize = size_arg j, dpos = 0, cells = []\<rparr>)"

text \<open>\<open>w\<close> is the size of a cell in bytes, and \<open>slen\<close> the length of the source.\<close>

definition GROW :: "nat \<Rightarrow> job \<Rightarrow> nat \<Rightarrow> 'a conv \<Rightarrow> 'a conv flow" where
  "GROW w j slen s =
     (if \<not> dst j then
        Go (s\<lparr>room := dpos s + BUFSIZ j, bsize := u32 (dpos s + BUFSIZ j) - (if terminate j then 1 else 0)\<rparr>)
      else if \<not> zone j then Fail s
      else
        let grow = (if slen < u32 (bsize s + BUFSIZ j) then u32 (bsize s + BUFSIZ j) else slen);
            grow = u32 (grow * w);
            bytes = u32 (grow + (if terminate j then w else 0))
        in if \<not> alloc j bytes then Lost
           else if place s \<noteq> Heap \<and> bytes < bsize s * w then Fault
           else Go (s\<lparr>place := Heap, room := bytes div w, bsize := grow div w\<rparr>))"

definition put :: "job \<Rightarrow> 'a \<Rightarrow> 'a conv \<Rightarrow> 'a conv flow option" where
  "put j x s =
     (if dpos s < room s
      then Some (Go (s\<lparr>dpos := u32 (dpos s + 1), cells := (if dst j then cells s @ [x] else cells s)\<rparr>))
      else Some Fault)"

definition ensure :: "nat \<Rightarrow> job \<Rightarrow> nat \<Rightarrow> 'a conv \<Rightarrow> 'a conv flow option" where
  "ensure w j slen s = (if bsize s \<le> dpos s then Some (GROW w j slen s) else Some (Go s))"

definition put_grow :: "nat \<Rightarrow> job \<Rightarrow> nat \<Rightarrow> 'a \<Rightarrow> 'a conv \<Rightarrow> 'a conv flow option" where
  "put_grow w j slen x s = andthen (ensure w j slen s) (put j x)"

fun put_all :: "job \<Rightarrow> 'a list \<Rightarrow> 'a conv \<Rightarrow> 'a conv flow option" where
  "put_all j [] s = Some (Go s)"
| "put_all j (x # xs) s = andthen (put j x s) (put_all j xs)"

text \<open>The loops \<^verbatim>\<open>while (dpos + n > bsize) GROW()\<close> and \<^verbatim>\<open>while (dpos + n >= bsize) GROW()\<close>.\<close>

partial_function (option) grow_while ::
  "nat \<Rightarrow> job \<Rightarrow> nat \<Rightarrow> ('a conv \<Rightarrow> bool) \<Rightarrow> 'a conv \<Rightarrow> 'a conv flow option" where
  "grow_while w j slen need s =
     (if need s
      then case GROW w j slen s of
          Go s' \<Rightarrow> grow_while w j slen need s'
        | Fail s' \<Rightarrow> Some (Fail s') | Lost \<Rightarrow> Some Lost | Return_no \<Rightarrow> Some Return_no | Fault \<Rightarrow> Some Fault
      else Some (Go s))"

declare grow_while.simps [code]

text \<open>
  Room for \<open>n\<close> more cells of two bytes in one go, as the decoders of encodings with one character for each byte
  allocate it. The buffer before is not one from the zone, since only the byte order mark has
  been written.
\<close>

definition reserve_wide :: "job \<Rightarrow> nat \<Rightarrow> 'a conv \<Rightarrow> 'a conv flow option" where
  "reserve_wide j n s =
     (if bsize s < u32 (dpos s + n + (if terminate j then 1 else 0)) then
        if \<not> zone j then Some (Fail s)
        else
          let grow = u32 (u32 (dpos s + n) * 2); bytes = grow + (if terminate j then 4 else 0)
          in if \<not> alloc j bytes then Some Return_no
             else if place s = Heap \<or> bytes < dpos s * 2 then Some Fault
             else Some (Go (s\<lparr>place := Heap, room := bytes div 2, bsize := grow div 2\<rparr>))
      else Some (Go s))"

text \<open>Room for \<open>n\<close> bytes, at the start of an encoder. \<open>n\<close> is an unsigned integer.\<close>

definition reserve_bytes :: "job \<Rightarrow> nat \<Rightarrow> 'a conv \<Rightarrow> 'a conv flow option" where
  "reserve_bytes j n s =
     (if bsize s < n then
        if \<not> zone j then Some (Fail s)
        else
          let bytes = u32 (n + (if terminate j then 1 else 0))
          in if \<not> alloc j bytes then Some Return_no
             else Some (Go (s\<lparr>place := Heap, room := bytes, bsize := n\<rparr>))
      else Some (Go s))"

section \<open>Results\<close>

text \<open>
  What the caller finds: \<open>Kept\<close> if \<^verbatim>\<open>*dst\<close> was not changed, the converted data in its own buffer or in new memory
  otherwise, with the terminator; \<open>Null\<close> if it was set to the null pointer.
\<close>

datatype 'a target = Kept | Null | Held "'a list" | Fresh "'a list"

record 'a conversion =
  ok :: bool
  size_out :: nat
  target :: "'a target"

text \<open>
  The code after \<^verbatim>\<open>done\<close>. Both functions cut what they copy to the size in bytes, an
  unsigned integer. \<open>w\<close> is the size of a cell, \<open>z\<close> the terminator and \<open>ended\<close> tells whether it is written.
\<close>

definition finish :: "nat \<Rightarrow> 'a \<Rightarrow> bool \<Rightarrow> job \<Rightarrow> bool \<Rightarrow> 'a conv \<Rightarrow> 'a conversion flow option" where
  "finish w z ended j result s =
     (if ended \<and> room s \<le> dpos s then Some Fault
      else
        let bytes = u32 (dpos s * w + (if terminate j then w else 0));
            held = cells s @ (if ended then [z] else []);
            copied = take (bytes div w) held;
            c = \<lparr>ok = result, size_out = dpos s, target = Kept\<rparr>
        in Some (Go
          (if dst j \<and> (result \<or> short_ok j) then
             if temporary j then c\<lparr>target := Fresh copied\<rparr>
             else if zone j \<and> (place s = Local \<or> dpos s < bsize s) then
               if alloc j bytes then c\<lparr>target := Fresh copied\<rparr> else c\<lparr>target := Null\<rparr>
             else if place s = Local then c\<lparr>ok := False\<rparr>
             else if place s = Caller then c\<lparr>target := Held held\<rparr>
             else c\<lparr>target := Fresh held\<rparr>
           else c)))"

text \<open>The value of a conversion: a conversion that faults has none, one that runs forever neither.\<close>

definition conclude ::
  "nat \<Rightarrow> 'a \<Rightarrow> bool \<Rightarrow> job \<Rightarrow> 'a conv flow option \<Rightarrow> 'a conversion flow option" where
  "conclude w z ended j m =
     (case m of None \<Rightarrow> None
      | Some (Go s) \<Rightarrow> finish w z ended j True s
      | Some (Fail s) \<Rightarrow> finish w z ended j False s
      | Some Lost \<Rightarrow> Some (Go \<lparr>ok = False, size_out = 0, target = Kept\<rparr>)
      | Some Return_no \<Rightarrow> Some (Go \<lparr>ok = False, size_out = size_arg j, target = Kept\<rparr>)
      | Some Fault \<Rightarrow> Some Fault)"

end
