(* ===== verification/Enc_Tables.thy ===== *)
theory Enc_Tables
  imports Unicode_Tables
begin

text \<open>
  The tables of the 8-bit encodings, \<^verbatim>\<open>latin2.h\<close>, \<^verbatim>\<open>latin9.h\<close>, \<^verbatim>\<open>cyrillic.h\<close>, \<^verbatim>\<open>nextstep.h\<close>,
  \<^verbatim>\<open>thai.h\<close> and \<^verbatim>\<open>gsm0338.h\<close> in \<^verbatim>\<open>Source/Additions/unicode\<close>, entry by entry: for each the characters
  of the bytes from its base on, and the pairs of a character and its byte. The sizes are
  those the files state, or \<^verbatim>\<open>sizeof\<close> computes.
\<close>

section \<open>Pairs\<close>

type_synonym ucc = "unichar \<times> nat"

section \<open>\<^verbatim>\<open>latin2.h\<close>\<close>

definition Latin2_conv_base :: unichar where
  "Latin2_conv_base = 0x80"

definition Latin2_char_to_uni_table :: "unichar list" where
  "Latin2_char_to_uni_table = [
    0x0080, 0x0081, 0x0082, 0x0083, 0x0084, 0x0085, 0x0086, 0x0087, 0x0088, 0x0089, 0x008A, 0x008B,
    0x008C, 0x008D, 0x008E, 0x008F, 0x0090, 0x0091, 0x0092, 0x0093, 0x0094, 0x0095, 0x0096, 0x0097,
    0x0098, 0x0099, 0x009A, 0x009B, 0x009C, 0x009D, 0x009E, 0x009F, 0x00A0, 0x0104, 0x02D8, 0x0141,
    0x00A4, 0x013D, 0x015A, 0x00A7, 0x00A8, 0x0160, 0x015E, 0x0164, 0x0179, 0x00AD, 0x017D, 0x017B,
    0x00B0, 0x0105, 0x02DB, 0x0142, 0x00B4, 0x013E, 0x015B, 0x02C7, 0x00B8, 0x0161, 0x015F, 0x0165,
    0x017A, 0x02DD, 0x017E, 0x017C, 0x0154, 0x00C1, 0x00C2, 0x0102, 0x00C4, 0x0139, 0x0106, 0x00C7,
    0x010C, 0x00C9, 0x0118, 0x00CB, 0x011A, 0x00CD, 0x00CE, 0x010E, 0x0110, 0x0143, 0x0147, 0x00D3,
    0x00D4, 0x0150, 0x00D6, 0x00D7, 0x0158, 0x016E, 0x00DA, 0x0170, 0x00DC, 0x00DD, 0x0162, 0x00DF,
    0x0155, 0x00E1, 0x00E2, 0x0103, 0x00E4, 0x013A, 0x0107, 0x00E7, 0x010D, 0x00E9, 0x0119, 0x00EB,
    0x011B, 0x00ED, 0x00EE, 0x010F, 0x0111, 0x0144, 0x0148, 0x00F3, 0x00F4, 0x0151, 0x00F6, 0x00F7,
    0x0159, 0x016F, 0x00FA, 0x0171, 0x00FC, 0x00FD, 0x0163, 0x02D9]"

definition Latin2_uni_to_char_table_size :: nat where
  "Latin2_uni_to_char_table_size = 128"

definition Latin2_uni_to_char_table :: "ucc list" where
  "Latin2_uni_to_char_table = [
    (0x0080, 0x80), (0x0081, 0x81), (0x0082, 0x82), (0x0083, 0x83), (0x0084, 0x84), (0x0085, 0x85),
    (0x0086, 0x86), (0x0087, 0x87), (0x0088, 0x88), (0x0089, 0x89), (0x008A, 0x8A), (0x008B, 0x8B),
    (0x008C, 0x8C), (0x008D, 0x8D), (0x008E, 0x8E), (0x008F, 0x8F), (0x0090, 0x90), (0x0091, 0x91),
    (0x0092, 0x92), (0x0093, 0x93), (0x0094, 0x94), (0x0095, 0x95), (0x0096, 0x96), (0x0097, 0x97),
    (0x0098, 0x98), (0x0099, 0x99), (0x009A, 0x9A), (0x009B, 0x9B), (0x009C, 0x9C), (0x009D, 0x9D),
    (0x009E, 0x9E), (0x009F, 0x9F), (0x00A0, 0xA0), (0x00A4, 0xA4), (0x00A7, 0xA7), (0x00A8, 0xA8),
    (0x00AD, 0xAD), (0x00B0, 0xB0), (0x00B4, 0xB4), (0x00B8, 0xB8), (0x00C1, 0xC1), (0x00C2, 0xC2),
    (0x00C4, 0xC4), (0x00C7, 0xC7), (0x00C9, 0xC9), (0x00CB, 0xCB), (0x00CD, 0xCD), (0x00CE, 0xCE),
    (0x00D3, 0xD3), (0x00D4, 0xD4), (0x00D6, 0xD6), (0x00D7, 0xD7), (0x00DA, 0xDA), (0x00DC, 0xDC),
    (0x00DD, 0xDD), (0x00DF, 0xDF), (0x00E1, 0xE1), (0x00E2, 0xE2), (0x00E4, 0xE4), (0x00E7, 0xE7),
    (0x00E9, 0xE9), (0x00EB, 0xEB), (0x00ED, 0xED), (0x00EE, 0xEE), (0x00F3, 0xF3), (0x00F4, 0xF4),
    (0x00F6, 0xF6), (0x00F7, 0xF7), (0x00FA, 0xFA), (0x00FC, 0xFC), (0x00FD, 0xFD), (0x0102, 0xC3),
    (0x0103, 0xE3), (0x0104, 0xA1), (0x0105, 0xB1), (0x0106, 0xC6), (0x0107, 0xE6), (0x010C, 0xC8),
    (0x010D, 0xE8), (0x010E, 0xCF), (0x010F, 0xEF), (0x0110, 0xD0), (0x0111, 0xF0), (0x0118, 0xCA),
    (0x0119, 0xEA), (0x011A, 0xCC), (0x011B, 0xEC), (0x0139, 0xC5), (0x013A, 0xE5), (0x013D, 0xA5),
    (0x013E, 0xB5), (0x0141, 0xA3), (0x0142, 0xB3), (0x0143, 0xD1), (0x0144, 0xF1), (0x0147, 0xD2),
    (0x0148, 0xF2), (0x0150, 0xD5), (0x0151, 0xF5), (0x0154, 0xC0), (0x0155, 0xE0), (0x0158, 0xD8),
    (0x0159, 0xF8), (0x015A, 0xA6), (0x015B, 0xB6), (0x015E, 0xAA), (0x015F, 0xBA), (0x0160, 0xA9),
    (0x0161, 0xB9), (0x0162, 0xDE), (0x0163, 0xFE), (0x0164, 0xAB), (0x0165, 0xBB), (0x016E, 0xD9),
    (0x016F, 0xF9), (0x0170, 0xDB), (0x0171, 0xFB), (0x0179, 0xAC), (0x017A, 0xBC), (0x017B, 0xAF),
    (0x017C, 0xBF), (0x017D, 0xAE), (0x017E, 0xBE), (0x02C7, 0xB7), (0x02D8, 0xA2), (0x02D9, 0xFF),
    (0x02DB, 0xB2), (0x02DD, 0xBD)]"

section \<open>\<^verbatim>\<open>latin9.h\<close>\<close>

definition Latin9_conv_base :: unichar where
  "Latin9_conv_base = 0x80"

definition Latin9_char_to_uni_table :: "unichar list" where
  "Latin9_char_to_uni_table = [
    0x0080, 0x0081, 0x0082, 0x0083, 0x0084, 0x0085, 0x0086, 0x0087, 0x0088, 0x0089, 0x008A, 0x008B,
    0x008C, 0x008D, 0x008E, 0x008F, 0x0090, 0x0091, 0x0092, 0x0093, 0x0094, 0x0095, 0x0096, 0x0097,
    0x0098, 0x0099, 0x009A, 0x009B, 0x009C, 0x009D, 0x009E, 0x009F, 0x00A0, 0x00A1, 0x00A2, 0x00A3,
    0x20AC, 0x00A5, 0x0160, 0x00A7, 0x0161, 0x00A9, 0x00AA, 0x00AB, 0x00AC, 0x00AD, 0x00AE, 0x00AF,
    0x00B0, 0x00B1, 0x00B2, 0x00B3, 0x017D, 0x00B5, 0x00B6, 0x00B7, 0x017E, 0x00B9, 0x00BA, 0x00BB,
    0x0152, 0x0153, 0x0178, 0x00BF, 0x00C0, 0x00C1, 0x00C2, 0x00C3, 0x00C4, 0x00C5, 0x00C6, 0x00C7,
    0x00C8, 0x00C9, 0x00CA, 0x00CB, 0x00CC, 0x00CD, 0x00CE, 0x00CF, 0x00D0, 0x00D1, 0x00D2, 0x00D3,
    0x00D4, 0x00D5, 0x00D6, 0x00D7, 0x00D8, 0x00D9, 0x00DA, 0x00DB, 0x00DC, 0x00DD, 0x00DE, 0x00DF,
    0x00E0, 0x00E1, 0x00E2, 0x00E3, 0x00E4, 0x00E5, 0x00E6, 0x00E7, 0x00E8, 0x00E9, 0x00EA, 0x00EB,
    0x00EC, 0x00ED, 0x00EE, 0x00EF, 0x00F0, 0x00F1, 0x00F2, 0x00F3, 0x00F4, 0x00F5, 0x00F6, 0x00F7,
    0x00F8, 0x00F9, 0x00FA, 0x00FB, 0x00FC, 0x00FD, 0x00FE, 0x00FF]"

definition Latin9_uni_to_char_table_size :: nat where
  "Latin9_uni_to_char_table_size = 128"

definition Latin9_uni_to_char_table :: "ucc list" where
  "Latin9_uni_to_char_table = [
    (0x0080, 0x80), (0x0081, 0x81), (0x0082, 0x82), (0x0083, 0x83), (0x0084, 0x84), (0x0085, 0x85),
    (0x0086, 0x86), (0x0087, 0x87), (0x0088, 0x88), (0x0089, 0x89), (0x008A, 0x8A), (0x008B, 0x8B),
    (0x008C, 0x8C), (0x008D, 0x8D), (0x008E, 0x8E), (0x008F, 0x8F), (0x0090, 0x90), (0x0091, 0x91),
    (0x0092, 0x92), (0x0093, 0x93), (0x0094, 0x94), (0x0095, 0x95), (0x0096, 0x96), (0x0097, 0x97),
    (0x0098, 0x98), (0x0099, 0x99), (0x009A, 0x9A), (0x009B, 0x9B), (0x009C, 0x9C), (0x009D, 0x9D),
    (0x009E, 0x9E), (0x009F, 0x9F), (0x00A0, 0xA0), (0x00A1, 0xA1), (0x00A2, 0xA2), (0x00A3, 0xA3),
    (0x00A5, 0xA5), (0x00A7, 0xA7), (0x00A9, 0xA9), (0x00AA, 0xAA), (0x00AB, 0xAB), (0x00AC, 0xAC),
    (0x00AD, 0xAD), (0x00AE, 0xAE), (0x00AF, 0xAF), (0x00B0, 0xB0), (0x00B1, 0xB1), (0x00B2, 0xB2),
    (0x00B3, 0xB3), (0x00B5, 0xB5), (0x00B6, 0xB6), (0x00B7, 0xB7), (0x00B9, 0xB9), (0x00BA, 0xBA),
    (0x00BB, 0xBB), (0x00BF, 0xBF), (0x00C0, 0xC0), (0x00C1, 0xC1), (0x00C2, 0xC2), (0x00C3, 0xC3),
    (0x00C4, 0xC4), (0x00C5, 0xC5), (0x00C6, 0xC6), (0x00C7, 0xC7), (0x00C8, 0xC8), (0x00C9, 0xC9),
    (0x00CA, 0xCA), (0x00CB, 0xCB), (0x00CC, 0xCC), (0x00CD, 0xCD), (0x00CE, 0xCE), (0x00CF, 0xCF),
    (0x00D0, 0xD0), (0x00D1, 0xD1), (0x00D2, 0xD2), (0x00D3, 0xD3), (0x00D4, 0xD4), (0x00D5, 0xD5),
    (0x00D6, 0xD6), (0x00D7, 0xD7), (0x00D8, 0xD8), (0x00D9, 0xD9), (0x00DA, 0xDA), (0x00DB, 0xDB),
    (0x00DC, 0xDC), (0x00DD, 0xDD), (0x00DE, 0xDE), (0x00DF, 0xDF), (0x00E0, 0xE0), (0x00E1, 0xE1),
    (0x00E2, 0xE2), (0x00E3, 0xE3), (0x00E4, 0xE4), (0x00E5, 0xE5), (0x00E6, 0xE6), (0x00E7, 0xE7),
    (0x00E8, 0xE8), (0x00E9, 0xE9), (0x00EA, 0xEA), (0x00EB, 0xEB), (0x00EC, 0xEC), (0x00ED, 0xED),
    (0x00EE, 0xEE), (0x00EF, 0xEF), (0x00F0, 0xF0), (0x00F1, 0xF1), (0x00F2, 0xF2), (0x00F3, 0xF3),
    (0x00F4, 0xF4), (0x00F5, 0xF5), (0x00F6, 0xF6), (0x00F7, 0xF7), (0x00F8, 0xF8), (0x00F9, 0xF9),
    (0x00FA, 0xFA), (0x00FB, 0xFB), (0x00FC, 0xFC), (0x00FD, 0xFD), (0x00FE, 0xFE), (0x00FF, 0xFF),
    (0x0152, 0xBC), (0x0153, 0xBD), (0x0160, 0xA6), (0x0161, 0xA8), (0x0178, 0xBE), (0x017D, 0xB4),
    (0x017E, 0xB8), (0x20AC, 0xA4)]"

section \<open>\<^verbatim>\<open>cyrillic.h\<close>\<close>

definition Cyrillic_conv_base :: unichar where
  "Cyrillic_conv_base = 0x80"

definition Cyrillic_char_to_uni_table :: "unichar list" where
  "Cyrillic_char_to_uni_table = [
    0x0080, 0x0081, 0x0082, 0x0083, 0x0084, 0x0085, 0x0086, 0x0087, 0x0088, 0x0089, 0x008A, 0x008B,
    0x008C, 0x008D, 0x008E, 0x008F, 0x0090, 0x0091, 0x0092, 0x0093, 0x0094, 0x0095, 0x0096, 0x0097,
    0x0098, 0x0099, 0x009A, 0x009B, 0x009C, 0x009D, 0x009E, 0x009F, 0x00A0, 0x0401, 0x0402, 0x0403,
    0x0404, 0x0405, 0x0406, 0x0407, 0x0408, 0x0409, 0x040A, 0x040B, 0x040C, 0x00AD, 0x040E, 0x040F,
    0x0410, 0x0411, 0x0412, 0x0413, 0x0414, 0x0415, 0x0416, 0x0417, 0x0418, 0x0419, 0x041A, 0x041B,
    0x041C, 0x041D, 0x041E, 0x041F, 0x0420, 0x0421, 0x0422, 0x0423, 0x0424, 0x0425, 0x0426, 0x0427,
    0x0428, 0x0429, 0x042A, 0x042B, 0x042C, 0x042D, 0x042E, 0x042F, 0x0430, 0x0431, 0x0432, 0x0433,
    0x0434, 0x0435, 0x0436, 0x0437, 0x0438, 0x0439, 0x043A, 0x043B, 0x043C, 0x043D, 0x043E, 0x043F,
    0x0440, 0x0441, 0x0442, 0x0443, 0x0444, 0x0445, 0x0446, 0x0447, 0x0448, 0x0449, 0x044A, 0x044B,
    0x044C, 0x044D, 0x044E, 0x044F, 0x2116, 0x0451, 0x0452, 0x0453, 0x0454, 0x0455, 0x0456, 0x0457,
    0x0458, 0x0459, 0x045A, 0x045B, 0x045C, 0x00A7, 0x045E, 0x045F]"

definition Cyrillic_uni_to_char_table_size :: nat where
  "Cyrillic_uni_to_char_table_size = 128"

definition Cyrillic_uni_to_char_table :: "ucc list" where
  "Cyrillic_uni_to_char_table = [
    (0x0080, 0x80), (0x0081, 0x81), (0x0082, 0x82), (0x0083, 0x83), (0x0084, 0x84), (0x0085, 0x85),
    (0x0086, 0x86), (0x0087, 0x87), (0x0088, 0x88), (0x0089, 0x89), (0x008A, 0x8A), (0x008B, 0x8B),
    (0x008C, 0x8C), (0x008D, 0x8D), (0x008E, 0x8E), (0x008F, 0x8F), (0x0090, 0x90), (0x0091, 0x91),
    (0x0092, 0x92), (0x0093, 0x93), (0x0094, 0x94), (0x0095, 0x95), (0x0096, 0x96), (0x0097, 0x97),
    (0x0098, 0x98), (0x0099, 0x99), (0x009A, 0x9A), (0x009B, 0x9B), (0x009C, 0x9C), (0x009D, 0x9D),
    (0x009E, 0x9E), (0x009F, 0x9F), (0x00A0, 0xA0), (0x00A7, 0xFD), (0x00AD, 0xAD), (0x0401, 0xA1),
    (0x0402, 0xA2), (0x0403, 0xA3), (0x0404, 0xA4), (0x0405, 0xA5), (0x0406, 0xA6), (0x0407, 0xA7),
    (0x0408, 0xA8), (0x0409, 0xA9), (0x040A, 0xAA), (0x040B, 0xAB), (0x040C, 0xAC), (0x040E, 0xAE),
    (0x040F, 0xAF), (0x0410, 0xB0), (0x0411, 0xB1), (0x0412, 0xB2), (0x0413, 0xB3), (0x0414, 0xB4),
    (0x0415, 0xB5), (0x0416, 0xB6), (0x0417, 0xB7), (0x0418, 0xB8), (0x0419, 0xB9), (0x041A, 0xBA),
    (0x041B, 0xBB), (0x041C, 0xBC), (0x041D, 0xBD), (0x041E, 0xBE), (0x041F, 0xBF), (0x0420, 0xC0),
    (0x0421, 0xC1), (0x0422, 0xC2), (0x0423, 0xC3), (0x0424, 0xC4), (0x0425, 0xC5), (0x0426, 0xC6),
    (0x0427, 0xC7), (0x0428, 0xC8), (0x0429, 0xC9), (0x042A, 0xCA), (0x042B, 0xCB), (0x042C, 0xCC),
    (0x042D, 0xCD), (0x042E, 0xCE), (0x042F, 0xCF), (0x0430, 0xD0), (0x0431, 0xD1), (0x0432, 0xD2),
    (0x0433, 0xD3), (0x0434, 0xD4), (0x0435, 0xD5), (0x0436, 0xD6), (0x0437, 0xD7), (0x0438, 0xD8),
    (0x0439, 0xD9), (0x043A, 0xDA), (0x043B, 0xDB), (0x043C, 0xDC), (0x043D, 0xDD), (0x043E, 0xDE),
    (0x043F, 0xDF), (0x0440, 0xE0), (0x0441, 0xE1), (0x0442, 0xE2), (0x0443, 0xE3), (0x0444, 0xE4),
    (0x0445, 0xE5), (0x0446, 0xE6), (0x0447, 0xE7), (0x0448, 0xE8), (0x0449, 0xE9), (0x044A, 0xEA),
    (0x044B, 0xEB), (0x044C, 0xEC), (0x044D, 0xED), (0x044E, 0xEE), (0x044F, 0xEF), (0x0451, 0xF1),
    (0x0452, 0xF2), (0x0453, 0xF3), (0x0454, 0xF4), (0x0455, 0xF5), (0x0456, 0xF6), (0x0457, 0xF7),
    (0x0458, 0xF8), (0x0459, 0xF9), (0x045A, 0xFA), (0x045B, 0xFB), (0x045C, 0xFC), (0x045E, 0xFE),
    (0x045F, 0xFF), (0x2116, 0xF0)]"

section \<open>\<^verbatim>\<open>nextstep.h\<close>\<close>

definition Next_conv_base :: unichar where
  "Next_conv_base = 0x80"

definition Next_char_to_uni_table :: "unichar list" where
  "Next_char_to_uni_table = [
    0x00A0, 0x00C0, 0x00C1, 0x00C2, 0x00C3, 0x00C4, 0x00C5, 0x00C7, 0x00C8, 0x00C9, 0x00CA, 0x00CB,
    0x00CC, 0x00CD, 0x00CE, 0x00CF, 0x00D0, 0x00D1, 0x00D2, 0x00D3, 0x00D4, 0x00D5, 0x00D6, 0x00D9,
    0x00DA, 0x00DB, 0x00DC, 0x00DD, 0x00DE, 0x00B5, 0x00D7, 0x00F7, 0x00A9, 0x00A1, 0x00A2, 0x00A3,
    0x2044, 0x00A5, 0x0192, 0x00A7, 0x00A4, 0xFBA9, 0x201C, 0x00AB, 0xFBAC, 0xFBAD, 0xFB01, 0xFB02,
    0x00AE, 0x2013, 0x2020, 0x2021, 0x00B7, 0x00A6, 0x00B6, 0x2022, 0xFBB8, 0xFBB9, 0x201D, 0x00BB,
    0x2026, 0x2030, 0x00AC, 0x00BF, 0x00B9, 0x02CB, 0x00B4, 0x02C6, 0x02DC, 0x00AF, 0x02D8, 0x02D9,
    0x00A8, 0x00B2, 0x02DA, 0x00B8, 0x00B3, 0x02DD, 0x02DB, 0x02C7, 0x2014, 0x00B1, 0x00BC, 0x00BD,
    0x00BE, 0x00E0, 0x00E1, 0x00E2, 0x00E3, 0x00E4, 0x00E5, 0x00E7, 0x00E8, 0x00E9, 0x00EA, 0x00EB,
    0x00EC, 0x00C6, 0x00ED, 0x00AA, 0x00EE, 0x00EF, 0x00F0, 0x00F1, 0x0141, 0x00D8, 0x0152, 0x00BA,
    0x00F2, 0x00F3, 0x00F4, 0x00F5, 0x00F6, 0x00E6, 0x00F9, 0x00FA, 0x00FB, 0x0131, 0x00FC, 0x00FD,
    0x0142, 0x00F8, 0x0153, 0x00DF, 0x00FE, 0x00FF]"

definition Next_uni_to_char_table_size :: nat where
  "Next_uni_to_char_table_size = 128"

definition Next_uni_to_char_table :: "ucc list" where
  "Next_uni_to_char_table = [
    (0x00A0, 0x80), (0x00A1, 0xA1), (0x00A2, 0xA2), (0x00A3, 0xA3), (0x00A4, 0xA8), (0x00A5, 0xA5),
    (0x00A6, 0xB5), (0x00A7, 0xA7), (0x00A8, 0xC8), (0x00A9, 0xA0), (0x00AA, 0xE3), (0x00AB, 0xAB),
    (0x00AC, 0xBE), (0x00AE, 0xB0), (0x00AF, 0xC5), (0x00B1, 0xD1), (0x00B2, 0xC9), (0x00B3, 0xCC),
    (0x00B4, 0xC2), (0x00B5, 0x9D), (0x00B6, 0xB6), (0x00B7, 0xB4), (0x00B8, 0xCB), (0x00B9, 0xC0),
    (0x00BA, 0xEB), (0x00BB, 0xBB), (0x00BC, 0xD2), (0x00BD, 0xD3), (0x00BE, 0xD4), (0x00BF, 0xBF),
    (0x00C0, 0x81), (0x00C1, 0x82), (0x00C2, 0x83), (0x00C3, 0x84), (0x00C4, 0x85), (0x00C5, 0x86),
    (0x00C6, 0xE1), (0x00C7, 0x87), (0x00C8, 0x88), (0x00C9, 0x89), (0x00CA, 0x8A), (0x00CB, 0x8B),
    (0x00CC, 0x8C), (0x00CD, 0x8D), (0x00CE, 0x8E), (0x00CF, 0x8F), (0x00D0, 0x90), (0x00D1, 0x91),
    (0x00D2, 0x92), (0x00D3, 0x93), (0x00D4, 0x94), (0x00D5, 0x95), (0x00D6, 0x96), (0x00D7, 0x9E),
    (0x00D8, 0xE9), (0x00D9, 0x97), (0x00DA, 0x98), (0x00DB, 0x99), (0x00DC, 0x9A), (0x00DD, 0x9B),
    (0x00DE, 0x9C), (0x00DF, 0xFB), (0x00E0, 0xD5), (0x00E1, 0xD6), (0x00E2, 0xD7), (0x00E3, 0xD8),
    (0x00E4, 0xD9), (0x00E5, 0xDA), (0x00E6, 0xF1), (0x00E7, 0xDB), (0x00E8, 0xDC), (0x00E9, 0xDD),
    (0x00EA, 0xDE), (0x00EB, 0xDF), (0x00EC, 0xE0), (0x00ED, 0xE2), (0x00EE, 0xE4), (0x00EF, 0xE5),
    (0x00F0, 0xE6), (0x00F1, 0xE7), (0x00F2, 0xEC), (0x00F3, 0xED), (0x00F4, 0xEE), (0x00F5, 0xEF),
    (0x00F6, 0xF0), (0x00F7, 0x9F), (0x00F8, 0xF9), (0x00F9, 0xF2), (0x00FA, 0xF3), (0x00FB, 0xF4),
    (0x00FC, 0xF6), (0x00FD, 0xF7), (0x00FE, 0xFC), (0x00FF, 0xFD), (0x0131, 0xF5), (0x0141, 0xE8),
    (0x0142, 0xF8), (0x0152, 0xEA), (0x0153, 0xFA), (0x0192, 0xA6), (0x02C6, 0xC3), (0x02C7, 0xCF),
    (0x02CB, 0xC1), (0x02D8, 0xC6), (0x02D9, 0xC7), (0x02DA, 0xCA), (0x02DB, 0xCE), (0x02DC, 0xC4),
    (0x02DD, 0xCD), (0x2013, 0xB1), (0x2014, 0xD0), (0x201C, 0xAA), (0x201D, 0xBA), (0x2020, 0xB2),
    (0x2021, 0xB3), (0x2022, 0xB7), (0x2026, 0xBC), (0x2030, 0xBD), (0x2044, 0xA4), (0xFB01, 0xAE),
    (0xFB02, 0xAF)]"

section \<open>\<^verbatim>\<open>thai.h\<close>\<close>

definition Thai_conv_base :: unichar where
  "Thai_conv_base = 0xA0"

definition Thai_char_to_uni_table :: "unichar list" where
  "Thai_char_to_uni_table = [
    0x00A0, 0x0E01, 0x0E02, 0x0E03, 0x0E04, 0x0E05, 0x0E06, 0x0E07, 0x0E08, 0x0E09, 0x0E0A, 0x0E0B,
    0x0E0C, 0x0E0D, 0x0E0E, 0x0E0F, 0x0E10, 0x0E11, 0x0E12, 0x0E13, 0x0E14, 0x0E15, 0x0E16, 0x0E17,
    0x0E18, 0x0E19, 0x0E1A, 0x0E1B, 0x0E1C, 0x0E1D, 0x0E1E, 0x0E1F, 0x0E20, 0x0E21, 0x0E22, 0x0E23,
    0x0E24, 0x0E25, 0x0E26, 0x0E27, 0x0E28, 0x0E29, 0x0E2A, 0x0E2B, 0x0E2C, 0x0E2D, 0x0E2E, 0x0E2F,
    0x0E30, 0x0E31, 0x0E32, 0x0E33, 0x0E34, 0x0E35, 0x0E36, 0x0E37, 0x0E38, 0x0E39, 0x0E3A, 0xFFFD,
    0xFFFD, 0xFFFD, 0xFFFD, 0x0E3F, 0x0E40, 0x0E41, 0x0E42, 0x0E43, 0x0E44, 0x0E45, 0x0E46, 0x0E47,
    0x0E48, 0x0E49, 0x0E4A, 0x0E4B, 0x0E4C, 0x0E4D, 0x0E4E, 0x0E4F, 0x2116, 0x0E51, 0x0E52, 0x0E53,
    0x0E54, 0x0E55, 0x0E56, 0x0E57, 0x0E58, 0x0E59, 0x0E5A, 0x0E5B, 0xFFFD, 0xFFFD, 0xFFFD, 0xFFFD]"

definition Thai_uni_to_char_table_size :: nat where
  "Thai_uni_to_char_table_size = 88"

definition Thai_uni_to_char_table :: "ucc list" where
  "Thai_uni_to_char_table = [
    (0x00A0, 0xA0), (0x0E01, 0xA1), (0x0E02, 0xA2), (0x0E03, 0xA3), (0x0E04, 0xA4), (0x0E05, 0xA5),
    (0x0E06, 0xA6), (0x0E07, 0xA7), (0x0E08, 0xA8), (0x0E09, 0xA9), (0x0E0A, 0xAA), (0x0E0B, 0xAB),
    (0x0E0C, 0xAC), (0x0E0D, 0xAD), (0x0E0E, 0xAE), (0x0E0F, 0xAF), (0x0E10, 0xB0), (0x0E11, 0xB1),
    (0x0E12, 0xB2), (0x0E13, 0xB3), (0x0E14, 0xB4), (0x0E15, 0xB5), (0x0E16, 0xB6), (0x0E17, 0xB7),
    (0x0E18, 0xB8), (0x0E19, 0xB9), (0x0E1A, 0xBA), (0x0E1B, 0xBB), (0x0E1C, 0xBC), (0x0E1D, 0xBD),
    (0x0E1E, 0xBE), (0x0E1F, 0xBF), (0x0E20, 0xC0), (0x0E21, 0xC1), (0x0E22, 0xC2), (0x0E23, 0xC3),
    (0x0E24, 0xC4), (0x0E25, 0xC5), (0x0E26, 0xC6), (0x0E27, 0xC7), (0x0E28, 0xC8), (0x0E29, 0xC9),
    (0x0E2A, 0xCA), (0x0E2B, 0xCB), (0x0E2C, 0xCC), (0x0E2D, 0xCD), (0x0E2E, 0xCE), (0x0E2F, 0xCF),
    (0x0E30, 0xD0), (0x0E31, 0xD1), (0x0E32, 0xD2), (0x0E33, 0xD3), (0x0E34, 0xD4), (0x0E35, 0xD5),
    (0x0E36, 0xD6), (0x0E37, 0xD7), (0x0E38, 0xD8), (0x0E39, 0xD9), (0x0E3A, 0xDA), (0x0E3F, 0xDF),
    (0x0E40, 0xE0), (0x0E41, 0xE1), (0x0E42, 0xE2), (0x0E43, 0xE3), (0x0E44, 0xE4), (0x0E45, 0xE5),
    (0x0E46, 0xE6), (0x0E47, 0xE7), (0x0E48, 0xE8), (0x0E49, 0xE9), (0x0E4A, 0xEA), (0x0E4B, 0xEB),
    (0x0E4C, 0xEC), (0x0E4D, 0xED), (0x0E4E, 0xEE), (0x0E4F, 0xEF), (0x0E50, 0xF0), (0x0E51, 0xF1),
    (0x0E52, 0xF2), (0x0E53, 0xF3), (0x0E54, 0xF4), (0x0E55, 0xF5), (0x0E56, 0xF6), (0x0E57, 0xF7),
    (0x0E58, 0xF8), (0x0E59, 0xF9), (0x0E5A, 0xFA), (0x0E5B, 0xFB)]"

section \<open>\<^verbatim>\<open>gsm0338.h\<close>\<close>

definition GSM0338_char_to_uni_table :: "unichar list" where
  "GSM0338_char_to_uni_table = [
    0x0040, 0x00A3, 0x0024, 0x00A5, 0x00E8, 0x00E9, 0x00F9, 0x00EC, 0x00F2, 0x00C7, 0x000A, 0x00D8,
    0x00F8, 0x000D, 0x00C5, 0x00E5, 0x0394, 0x005F, 0x03A6, 0x0393, 0x039B, 0x03A9, 0x03A0, 0x03A8,
    0x03A3, 0x0398, 0x039E, 0x00A0, 0x00C6, 0x00E6, 0x00DF, 0x00C9, 0x0020, 0x0021, 0x0022, 0x0023,
    0x00A4, 0x0025, 0x0026, 0x0027, 0x0028, 0x0029, 0x002A, 0x002B, 0x002C, 0x002D, 0x002E, 0x002F,
    0x0030, 0x0031, 0x0032, 0x0033, 0x0034, 0x0035, 0x0036, 0x0037, 0x0038, 0x0039, 0x003A, 0x003B,
    0x003C, 0x003D, 0x003E, 0x003F, 0x00A1, 0x0041, 0x0042, 0x0043, 0x0044, 0x0045, 0x0046, 0x0047,
    0x0048, 0x0049, 0x004A, 0x004B, 0x004C, 0x004D, 0x004E, 0x004F, 0x0050, 0x0051, 0x0052, 0x0053,
    0x0054, 0x0055, 0x0056, 0x0057, 0x0058, 0x0059, 0x005A, 0x00C4, 0x00D6, 0x00D1, 0x00DC, 0x00A7,
    0x00BF, 0x0061, 0x0062, 0x0063, 0x0064, 0x0065, 0x0066, 0x0067, 0x0068, 0x0069, 0x006A, 0x006B,
    0x006C, 0x006D, 0x006E, 0x006F, 0x0070, 0x0071, 0x0072, 0x0073, 0x0074, 0x0075, 0x0076, 0x0077,
    0x0078, 0x0079, 0x007A, 0x00E4, 0x00F6, 0x00F1, 0x00FC, 0x00E0]"

definition GSM0338_uni_to_char_table :: "ucc list" where
  "GSM0338_uni_to_char_table = [
    (0x000A, 0x0A), (0x000D, 0x0D), (0x0020, 0x20), (0x0021, 0x21), (0x0022, 0x22), (0x0023, 0x23),
    (0x0024, 0x02), (0x0025, 0x25), (0x0026, 0x26), (0x0027, 0x27), (0x0028, 0x28), (0x0029, 0x29),
    (0x002A, 0x2A), (0x002B, 0x2B), (0x002C, 0x2C), (0x002D, 0x2D), (0x002E, 0x2E), (0x002F, 0x2F),
    (0x0030, 0x30), (0x0031, 0x31), (0x0032, 0x32), (0x0033, 0x33), (0x0034, 0x34), (0x0035, 0x35),
    (0x0036, 0x36), (0x0037, 0x37), (0x0038, 0x38), (0x0039, 0x39), (0x003A, 0x3A), (0x003B, 0x3B),
    (0x003C, 0x3C), (0x003D, 0x3D), (0x003E, 0x3E), (0x003F, 0x3F), (0x0040, 0x00), (0x0041, 0x41),
    (0x0042, 0x42), (0x0043, 0x43), (0x0044, 0x44), (0x0045, 0x45), (0x0046, 0x46), (0x0047, 0x47),
    (0x0048, 0x48), (0x0049, 0x49), (0x004A, 0x4A), (0x004B, 0x4B), (0x004C, 0x4C), (0x004D, 0x4D),
    (0x004E, 0x4E), (0x004F, 0x4F), (0x0050, 0x50), (0x0051, 0x51), (0x0052, 0x52), (0x0053, 0x53),
    (0x0054, 0x54), (0x0055, 0x55), (0x0056, 0x56), (0x0057, 0x57), (0x0058, 0x58), (0x0059, 0x59),
    (0x005A, 0x5A), (0x005F, 0x11), (0x0061, 0x61), (0x0062, 0x62), (0x0063, 0x63), (0x0064, 0x64),
    (0x0065, 0x65), (0x0066, 0x66), (0x0067, 0x67), (0x0068, 0x68), (0x0069, 0x69), (0x006A, 0x6A),
    (0x006B, 0x6B), (0x006C, 0x6C), (0x006D, 0x6D), (0x006E, 0x6E), (0x006F, 0x6F), (0x0070, 0x70),
    (0x0071, 0x71), (0x0072, 0x72), (0x0073, 0x73), (0x0074, 0x74), (0x0075, 0x75), (0x0076, 0x76),
    (0x0077, 0x77), (0x0078, 0x78), (0x0079, 0x79), (0x007A, 0x7A), (0x00A0, 0x20), (0x00A1, 0x40),
    (0x00A3, 0x01), (0x00A4, 0x24), (0x00A5, 0x03), (0x00A7, 0x5F), (0x00BF, 0x60), (0x00C4, 0x5B),
    (0x00C5, 0x0E), (0x00C6, 0x1C), (0x00C7, 0x09), (0x00C9, 0x1F), (0x00D1, 0x5D), (0x00D6, 0x5C),
    (0x00D8, 0x0B), (0x00DC, 0x5E), (0x00DF, 0x1E), (0x00E0, 0x7F), (0x00E4, 0x7B), (0x00E5, 0x0F),
    (0x00E6, 0x1D), (0x00E8, 0x04), (0x00E9, 0x05), (0x00EC, 0x07), (0x00F1, 0x7D), (0x00F2, 0x08),
    (0x00F6, 0x7C), (0x00F8, 0x0C), (0x00F9, 0x06), (0x00FC, 0x7E), (0x0393, 0x13), (0x0394, 0x10),
    (0x0398, 0x19), (0x039B, 0x14), (0x039E, 0x1A), (0x03A0, 0x16), (0x03A3, 0x18), (0x03A6, 0x12),
    (0x03A8, 0x17), (0x03A9, 0x15)]"

definition GSM0338_escapes :: "ucc list" where
  "GSM0338_escapes = [
    (0x000C, 0x0A), (0x005B, 0x3C), (0x005C, 0x2F), (0x005D, 0x3E), (0x005E, 0x14), (0x007B, 0x28),
    (0x007C, 0x40), (0x007D, 0x29), (0x007E, 0x3D), (0x20AC, 0x65)]"

definition GSM0338_lossy_1 :: "ucc list" where
  "GSM0338_lossy_1 = [
    (0x005B, 0x3C), (0x005C, 0x2F), (0x005D, 0x3E), (0x005E, 0x14), (0x0060, 0x27), (0x007B, 0x28),
    (0x007C, 0x40), (0x007D, 0x29), (0x007E, 0x3D), (0x00AA, 0x61), (0x00BA, 0x6F), (0x00C0, 0x41),
    (0x00C1, 0x41), (0x00C2, 0x41), (0x00C3, 0x41), (0x00C7, 0x09), (0x00C8, 0x45), (0x00CA, 0x45),
    (0x00CB, 0x45), (0x00CC, 0x49), (0x00CD, 0x49), (0x00CE, 0x49), (0x00CF, 0x49), (0x00D0, 0x44),
    (0x00D2, 0x4F), (0x00D3, 0x4F), (0x00D4, 0x4F), (0x00D5, 0x4F), (0x00D9, 0x55), (0x00DA, 0x55),
    (0x00DB, 0x55), (0x00DD, 0x59), (0x00DF, 0x73), (0x00E0, 0x61), (0x00E1, 0x61), (0x00E2, 0x61),
    (0x00E3, 0x61), (0x00E7, 0x63), (0x00EA, 0x65), (0x00EB, 0x65), (0x00ED, 0x69), (0x00EE, 0x69),
    (0x00EF, 0x69), (0x00F0, 0x64), (0x00F3, 0x6F), (0x00F4, 0x6F), (0x00F5, 0x6F), (0x00FA, 0x75),
    (0x00FB, 0x75), (0x00FD, 0x79), (0x00FF, 0x79), (0x0100, 0x41), (0x0101, 0x61), (0x0102, 0x41),
    (0x0103, 0x61), (0x0104, 0x41), (0x0105, 0x61), (0x0106, 0x43), (0x0107, 0x63), (0x0108, 0x43),
    (0x0109, 0x63), (0x010A, 0x43), (0x010B, 0x63), (0x010C, 0x43), (0x010D, 0x63), (0x010E, 0x44),
    (0x010F, 0x64), (0x0110, 0x44), (0x0111, 0x64), (0x0112, 0x45), (0x0113, 0x65), (0x0114, 0x45),
    (0x0115, 0x65), (0x0116, 0x45), (0x0117, 0x65), (0x0118, 0x45), (0x0119, 0x65), (0x011A, 0x45),
    (0x011B, 0x65), (0x011C, 0x47), (0x011D, 0x67), (0x011E, 0x47), (0x011F, 0x67), (0x0120, 0x47),
    (0x0121, 0x67), (0x0122, 0x47), (0x0123, 0x67), (0x0124, 0x48), (0x0125, 0x68), (0x0126, 0x48),
    (0x0127, 0x68), (0x0128, 0x49), (0x0129, 0x69), (0x012A, 0x49), (0x012B, 0x69), (0x012C, 0x49),
    (0x012D, 0x69), (0x012E, 0x49), (0x012F, 0x69), (0x0130, 0x49), (0x0131, 0x69), (0x0132, 0x49),
    (0x0133, 0x69), (0x0134, 0x4A), (0x0135, 0x6A), (0x0136, 0x4B), (0x0137, 0x6B), (0x0138, 0x6B),
    (0x0139, 0x4C), (0x013A, 0x6C), (0x013B, 0x4C), (0x013C, 0x6C), (0x013D, 0x4C), (0x013E, 0x6C),
    (0x013F, 0x4C), (0x0140, 0x6C), (0x0141, 0x4C), (0x0142, 0x6C), (0x0143, 0x4E), (0x0144, 0x6E)]"

definition GSM0338_lossy_2 :: "ucc list" where
  "GSM0338_lossy_2 = [
    (0x0145, 0x4E), (0x0146, 0x6E), (0x0147, 0x4E), (0x0148, 0x6E), (0x014C, 0x4F), (0x014D, 0x6F),
    (0x014E, 0x4F), (0x014F, 0x6F), (0x0150, 0x4F), (0x0151, 0x6F), (0x0154, 0x52), (0x0155, 0x72),
    (0x0156, 0x52), (0x0157, 0x72), (0x0158, 0x52), (0x0159, 0x72), (0x015A, 0x53), (0x015B, 0x73),
    (0x015C, 0x53), (0x015D, 0x73), (0x015E, 0x53), (0x015F, 0x73), (0x0160, 0x53), (0x0161, 0x73),
    (0x0162, 0x54), (0x0163, 0x74), (0x0164, 0x54), (0x0165, 0x74), (0x0166, 0x54), (0x0167, 0x74),
    (0x0168, 0x55), (0x0169, 0x75), (0x016A, 0x55), (0x016B, 0x75), (0x016C, 0x55), (0x016D, 0x75),
    (0x016E, 0x55), (0x016F, 0x75), (0x0170, 0x55), (0x0171, 0x75), (0x0172, 0x55), (0x0173, 0x75),
    (0x0174, 0x57), (0x0175, 0x77), (0x0176, 0x59), (0x0177, 0x79), (0x0178, 0x59), (0x0179, 0x5A),
    (0x017A, 0x7A), (0x017B, 0x5A), (0x017C, 0x7A), (0x017D, 0x5A), (0x017E, 0x7A), (0x017F, 0x73),
    (0x0180, 0x62), (0x0181, 0x42), (0x0182, 0x42), (0x0183, 0x62), (0x0184, 0x36), (0x0185, 0x36),
    (0x0186, 0x4F), (0x0187, 0x43), (0x0188, 0x63), (0x0189, 0x44), (0x018A, 0x44), (0x018B, 0x44),
    (0x018C, 0x64), (0x018D, 0x64), (0x018E, 0x45), (0x018F, 0x45), (0x0190, 0x45), (0x0191, 0x46),
    (0x0192, 0x66), (0x0193, 0x47), (0x0194, 0x47), (0x0196, 0x49), (0x0197, 0x49), (0x0198, 0x4B),
    (0x0199, 0x6B), (0x019A, 0x6C), (0x019B, 0x6C), (0x019C, 0x4D), (0x019D, 0x4E), (0x019E, 0x6E),
    (0x019F, 0x4F), (0x01A0, 0x4F), (0x01A1, 0x6F), (0x01A4, 0x50), (0x01A5, 0x70), (0x01A7, 0x32),
    (0x01A8, 0x32), (0x01A9, 0x53), (0x01AA, 0x73), (0x01AB, 0x74), (0x01AC, 0x54), (0x01AD, 0x74),
    (0x01AE, 0x54), (0x01AF, 0x55), (0x01B0, 0x75), (0x01B1, 0x75), (0x01B2, 0x56), (0x01B3, 0x59),
    (0x01B4, 0x79), (0x01B5, 0x5A), (0x01B6, 0x7A), (0x01B7, 0x5A), (0x01B8, 0x5A), (0x01B9, 0x5A),
    (0x01BA, 0x7A), (0x01BB, 0x32), (0x01BC, 0x35), (0x01BD, 0x35), (0x01BF, 0x77), (0x01C6, 0x64),
    (0x01CD, 0x41), (0x01CE, 0x61), (0x01CF, 0x49), (0x01D0, 0x69), (0x01D1, 0x4F), (0x01D2, 0x6F)]"

definition GSM0338_lossy_3 :: "ucc list" where
  "GSM0338_lossy_3 = [
    (0x01D3, 0x55), (0x01D4, 0x75), (0x01D5, 0x55), (0x01D6, 0x75), (0x01D7, 0x55), (0x01D8, 0x75),
    (0x01D9, 0x55), (0x01DA, 0x75), (0x01DB, 0x55), (0x01DC, 0x75), (0x01DD, 0x65), (0x01DE, 0x41),
    (0x01DF, 0x61), (0x01E0, 0x41), (0x01E1, 0x61), (0x01E4, 0x47), (0x01E5, 0x67), (0x01E6, 0x47),
    (0x01E7, 0x67), (0x01E8, 0x4B), (0x01E9, 0x6B), (0x01EA, 0x4F), (0x01EB, 0x6F), (0x01EC, 0x4F),
    (0x01ED, 0x6F), (0x01EE, 0x5A), (0x01EF, 0x5A), (0x01F0, 0x6A), (0x01F4, 0x47), (0x01F5, 0x67),
    (0x01F7, 0x77), (0x01F8, 0x4E), (0x01F9, 0x6E), (0x01FA, 0x41), (0x01FB, 0x61), (0x01FE, 0x4F),
    (0x01FF, 0x6F), (0x0200, 0x41), (0x0201, 0x61), (0x0202, 0x41), (0x0203, 0x61), (0x0204, 0x45),
    (0x0205, 0x65), (0x0206, 0x45), (0x0207, 0x65), (0x0208, 0x49), (0x0209, 0x69), (0x020A, 0x49),
    (0x020B, 0x69), (0x020C, 0x4F), (0x020D, 0x6F), (0x020E, 0x4F), (0x020F, 0x6F), (0x0210, 0x52),
    (0x0211, 0x72), (0x0212, 0x52), (0x0213, 0x72), (0x0214, 0x55), (0x0215, 0x75), (0x0216, 0x55),
    (0x0217, 0x75), (0x0218, 0x53), (0x0219, 0x73), (0x021A, 0x54), (0x021B, 0x74), (0x021C, 0x5A),
    (0x021D, 0x7A), (0x021E, 0x48), (0x021F, 0x68), (0x0220, 0x4E), (0x0221, 0x64), (0x0224, 0x5A),
    (0x0225, 0x7A), (0x0226, 0x41), (0x0227, 0x61), (0x0228, 0x45), (0x0229, 0x65), (0x022A, 0x4F),
    (0x022B, 0x6F), (0x022C, 0x4F), (0x022D, 0x6F), (0x022E, 0x4F), (0x022F, 0x6F), (0x0230, 0x4F),
    (0x0231, 0x6F), (0x0232, 0x59), (0x0233, 0x79), (0x0234, 0x6C), (0x0235, 0x6E), (0x0236, 0x74),
    (0x0250, 0x61), (0x0251, 0x61), (0x0252, 0x61), (0x0253, 0x62), (0x0254, 0x6F), (0x0255, 0x63),
    (0x0256, 0x64), (0x0257, 0x64), (0x0258, 0x65), (0x0259, 0x65), (0x025A, 0x65), (0x025B, 0x65),
    (0x025C, 0x65), (0x025D, 0x65), (0x025E, 0x65), (0x025F, 0x6A), (0x0260, 0x67), (0x0261, 0x67),
    (0x0262, 0x47), (0x0263, 0x67), (0x0264, 0x79), (0x0265, 0x68), (0x0266, 0x68), (0x0267, 0x68),
    (0x0268, 0x69), (0x0269, 0x69), (0x026A, 0x49), (0x026B, 0x6C), (0x026C, 0x6C), (0x026D, 0x6C)]"

definition GSM0338_lossy_4 :: "ucc list" where
  "GSM0338_lossy_4 = [
    (0x026F, 0x6D), (0x0270, 0x6D), (0x0271, 0x6D), (0x0272, 0x6E), (0x0273, 0x6E), (0x0274, 0x4E),
    (0x0275, 0x6F), (0x0277, 0x6F), (0x0279, 0x72), (0x027A, 0x72), (0x027B, 0x72), (0x027C, 0x72),
    (0x027D, 0x72), (0x027E, 0x72), (0x027F, 0x72), (0x0280, 0x52), (0x0281, 0x72), (0x0282, 0x73),
    (0x0283, 0x73), (0x0284, 0x6A), (0x0285, 0x73), (0x0286, 0x73), (0x0287, 0x79), (0x0288, 0x74),
    (0x0289, 0x75), (0x028A, 0x75), (0x028B, 0x75), (0x028C, 0x76), (0x028D, 0x77), (0x028E, 0x79),
    (0x028F, 0x59), (0x0290, 0x7A), (0x0291, 0x7A), (0x0292, 0x7A), (0x0293, 0x7A), (0x0297, 0x43),
    (0x0299, 0x42), (0x029A, 0x65), (0x029B, 0x47), (0x029C, 0x48), (0x029D, 0x6A), (0x029E, 0x6B),
    (0x029F, 0x4C), (0x02A0, 0x71), (0x02AC, 0x77), (0x02AD, 0x74), (0x02AE, 0x68), (0x02AF, 0x68),
    (0x02B0, 0x68), (0x02B1, 0x68), (0x02B2, 0x6A), (0x02B3, 0x72), (0x02B4, 0x72), (0x02B5, 0x72),
    (0x02B6, 0x52), (0x02B7, 0x77), (0x02B8, 0x79), (0x02E1, 0x6C), (0x02E2, 0x73), (0x02E3, 0x78),
    (0x0391, 0x41), (0x0392, 0x42), (0x0395, 0x45), (0x0396, 0x5A), (0x0397, 0x48), (0x0399, 0x49),
    (0x039A, 0x4B), (0x039C, 0x4D), (0x039D, 0x4E), (0x039F, 0x4F), (0x03A1, 0x50), (0x03A4, 0x54),
    (0x03A5, 0x55), (0x03A7, 0x58), (0x1D00, 0x41), (0x1D03, 0x42), (0x1D04, 0x43), (0x1D05, 0x44),
    (0x1D07, 0x45), (0x1D08, 0x65), (0x1D09, 0x69), (0x1D0A, 0x4A), (0x1D0B, 0x4B), (0x1D0C, 0x4C),
    (0x1D0D, 0x4D), (0x1D0E, 0x4E), (0x1D0F, 0x4F), (0x1D10, 0x4F), (0x1D11, 0x6F), (0x1D12, 0x6F),
    (0x1D13, 0x6F), (0x1D16, 0x6F), (0x1D17, 0x6F), (0x1D18, 0x50), (0x1D19, 0x52), (0x1D1A, 0x52),
    (0x1D1B, 0x54), (0x1D1C, 0x55), (0x1D1D, 0x75), (0x1D1E, 0x75), (0x1D1F, 0x6D), (0x1D20, 0x56),
    (0x1D21, 0x57), (0x1D22, 0x5A), (0x1D25, 0x4C), (0x1D2C, 0x41), (0x1D2E, 0x42), (0x1D2F, 0x42),
    (0x1D30, 0x44), (0x1D31, 0x45), (0x1D32, 0x45), (0x1D33, 0x47), (0x1D34, 0x48), (0x1D35, 0x49),
    (0x1D36, 0x4A), (0x1D37, 0x4B), (0x1D38, 0x4C), (0x1D39, 0x4D), (0x1D3A, 0x4E), (0x1D3B, 0x4E)]"

definition GSM0338_lossy_5 :: "ucc list" where
  "GSM0338_lossy_5 = [
    (0x1D3C, 0x4F), (0x1D3E, 0x50), (0x1D3F, 0x52), (0x1D40, 0x54), (0x1D41, 0x55), (0x1D42, 0x57),
    (0x1D43, 0x61), (0x1D44, 0x61), (0x1D47, 0x62), (0x1D48, 0x64), (0x1D49, 0x65), (0x1D4A, 0x65),
    (0x1D4B, 0x65), (0x1D4C, 0x65), (0x1D4D, 0x67), (0x1D4E, 0x69), (0x1D4F, 0x6B), (0x1D50, 0x6D),
    (0x1D51, 0x67), (0x1D52, 0x6F), (0x1D53, 0x6F), (0x1D54, 0x6F), (0x1D55, 0x6F), (0x1D56, 0x70),
    (0x1D57, 0x74), (0x1D58, 0x75), (0x1D59, 0x75), (0x1D5A, 0x6D), (0x1D5B, 0x76), (0x1D62, 0x69),
    (0x1D63, 0x72), (0x1D64, 0x75), (0x1D65, 0x76), (0x1E00, 0x41), (0x1E01, 0x61), (0x1E02, 0x42),
    (0x1E03, 0x62), (0x1E04, 0x42), (0x1E05, 0x62), (0x1E06, 0x42), (0x1E07, 0x62), (0x1E08, 0x43),
    (0x1E09, 0x63), (0x1E0A, 0x44), (0x1E0B, 0x64), (0x1E0C, 0x44), (0x1E0D, 0x64), (0x1E0E, 0x44),
    (0x1E0F, 0x64), (0x1E10, 0x44), (0x1E11, 0x64), (0x1E12, 0x44), (0x1E13, 0x64), (0x1E14, 0x45),
    (0x1E15, 0x65), (0x1E16, 0x45), (0x1E17, 0x65), (0x1E18, 0x45), (0x1E19, 0x65), (0x1E1A, 0x45),
    (0x1E1B, 0x65), (0x1E1C, 0x45), (0x1E1D, 0x65), (0x1E1E, 0x46), (0x1E1F, 0x66), (0x1E20, 0x47),
    (0x1E21, 0x67), (0x1E22, 0x48), (0x1E23, 0x68), (0x1E24, 0x48), (0x1E25, 0x68), (0x1E26, 0x48),
    (0x1E27, 0x68), (0x1E28, 0x48), (0x1E29, 0x68), (0x1E2A, 0x48), (0x1E2B, 0x68), (0x1E2C, 0x49),
    (0x1E2D, 0x69), (0x1E2E, 0x49), (0x1E2F, 0x69), (0x1E30, 0x4B), (0x1E31, 0x6B), (0x1E32, 0x4B),
    (0x1E33, 0x6B), (0x1E34, 0x4B), (0x1E35, 0x6B), (0x1E36, 0x4C), (0x1E37, 0x6C), (0x1E38, 0x4C),
    (0x1E39, 0x6C), (0x1E3A, 0x4C), (0x1E3B, 0x6C), (0x1E3C, 0x4C), (0x1E3D, 0x6C), (0x1E3E, 0x4D),
    (0x1E3F, 0x6D), (0x1E40, 0x4D), (0x1E41, 0x6D), (0x1E42, 0x4D), (0x1E43, 0x6D), (0x1E44, 0x4E),
    (0x1E45, 0x6E), (0x1E46, 0x4E), (0x1E47, 0x6E), (0x1E48, 0x4E), (0x1E49, 0x6E), (0x1E4A, 0x4E),
    (0x1E4B, 0x6E), (0x1E4C, 0x4F), (0x1E4D, 0x6F), (0x1E4E, 0x4F), (0x1E4F, 0x6F), (0x1E50, 0x4F),
    (0x1E51, 0x6F), (0x1E52, 0x4F), (0x1E53, 0x6F), (0x1E54, 0x50), (0x1E55, 0x70), (0x1E56, 0x50)]"

definition GSM0338_lossy_6 :: "ucc list" where
  "GSM0338_lossy_6 = [
    (0x1E57, 0x70), (0x1E58, 0x52), (0x1E59, 0x72), (0x1E5A, 0x52), (0x1E5B, 0x72), (0x1E5C, 0x52),
    (0x1E5D, 0x72), (0x1E5E, 0x52), (0x1E5F, 0x72), (0x1E60, 0x53), (0x1E61, 0x73), (0x1E62, 0x53),
    (0x1E63, 0x73), (0x1E64, 0x53), (0x1E65, 0x73), (0x1E66, 0x53), (0x1E67, 0x73), (0x1E68, 0x53),
    (0x1E69, 0x73), (0x1E6A, 0x54), (0x1E6B, 0x74), (0x1E6C, 0x54), (0x1E6D, 0x74), (0x1E6E, 0x54),
    (0x1E6F, 0x74), (0x1E70, 0x54), (0x1E71, 0x74), (0x1E72, 0x55), (0x1E73, 0x75), (0x1E74, 0x55),
    (0x1E75, 0x75), (0x1E76, 0x55), (0x1E77, 0x75), (0x1E78, 0x55), (0x1E79, 0x75), (0x1E7A, 0x55),
    (0x1E7B, 0x75), (0x1E7C, 0x56), (0x1E7D, 0x76), (0x1E7E, 0x56), (0x1E7F, 0x76), (0x1E80, 0x57),
    (0x1E81, 0x77), (0x1E82, 0x57), (0x1E83, 0x77), (0x1E84, 0x57), (0x1E85, 0x77), (0x1E86, 0x57),
    (0x1E87, 0x77), (0x1E88, 0x57), (0x1E89, 0x77), (0x1E8A, 0x58), (0x1E8B, 0x78), (0x1E8C, 0x58),
    (0x1E8D, 0x78), (0x1E8E, 0x59), (0x1E8F, 0x79), (0x1E90, 0x5A), (0x1E91, 0x7A), (0x1E92, 0x5A),
    (0x1E93, 0x7A), (0x1E94, 0x5A), (0x1E95, 0x7A), (0x1E96, 0x68), (0x1E97, 0x74), (0x1E98, 0x77),
    (0x1E99, 0x79), (0x1E9A, 0x61), (0x1E9B, 0x73), (0x1EA0, 0x41), (0x1EA1, 0x61), (0x1EA2, 0x41),
    (0x1EA3, 0x61), (0x1EA4, 0x41), (0x1EA5, 0x61), (0x1EA6, 0x41), (0x1EA7, 0x61), (0x1EA8, 0x41),
    (0x1EA9, 0x61), (0x1EAA, 0x41), (0x1EAB, 0x61), (0x1EAC, 0x41), (0x1EAD, 0x61), (0x1EAE, 0x41),
    (0x1EAF, 0x61), (0x1EB0, 0x41), (0x1EB1, 0x61), (0x1EB2, 0x41), (0x1EB3, 0x61), (0x1EB4, 0x41),
    (0x1EB5, 0x61), (0x1EB6, 0x41), (0x1EB7, 0x61), (0x1EB8, 0x45), (0x1EB9, 0x65), (0x1EBA, 0x45),
    (0x1EBB, 0x65), (0x1EBC, 0x45), (0x1EBD, 0x65), (0x1EBE, 0x45), (0x1EBF, 0x65), (0x1EC0, 0x45),
    (0x1EC1, 0x65), (0x1EC2, 0x45), (0x1EC3, 0x65), (0x1EC4, 0x45), (0x1EC5, 0x65), (0x1EC6, 0x45),
    (0x1EC7, 0x65), (0x1EC8, 0x49), (0x1EC9, 0x69), (0x1ECA, 0x49), (0x1ECB, 0x69), (0x1ECC, 0x4F),
    (0x1ECD, 0x6F), (0x1ECE, 0x4F), (0x1ECF, 0x6F), (0x1ED0, 0x4F), (0x1ED1, 0x6F), (0x1ED2, 0x4F)]"

definition GSM0338_lossy_7 :: "ucc list" where
  "GSM0338_lossy_7 = [
    (0x1ED3, 0x6F), (0x1ED4, 0x4F), (0x1ED5, 0x6F), (0x1ED6, 0x4F), (0x1ED7, 0x6F), (0x1ED8, 0x4F),
    (0x1ED9, 0x6F), (0x1EDA, 0x4F), (0x1EDB, 0x6F), (0x1EDC, 0x4F), (0x1EDD, 0x6F), (0x1EDE, 0x4F),
    (0x1EDF, 0x6F), (0x1EE0, 0x4F), (0x1EE1, 0x6F), (0x1EE2, 0x4F), (0x1EE3, 0x6F), (0x1EE4, 0x55),
    (0x1EE5, 0x75), (0x1EE6, 0x55), (0x1EE7, 0x75), (0x1EE8, 0x55), (0x1EE9, 0x75), (0x1EEA, 0x55),
    (0x1EEB, 0x75), (0x1EEC, 0x55), (0x1EED, 0x75), (0x1EEE, 0x55), (0x1EEF, 0x75), (0x1EF0, 0x55),
    (0x1EF1, 0x75), (0x1EF2, 0x59), (0x1EF3, 0x79), (0x1EF4, 0x59), (0x1EF5, 0x79), (0x1EF6, 0x59),
    (0x1EF7, 0x79), (0x1EF8, 0x59), (0x1EF9, 0x79), (0x2014, 0x2D), (0x2018, 0x27), (0x2019, 0x27),
    (0x201C, 0x22), (0x201D, 0x22), (0x2071, 0x69), (0x207F, 0x6E), (0x212A, 0x4B), (0x212B, 0x41),
    (0x212C, 0x42), (0x212D, 0x43), (0x212F, 0x65), (0x2130, 0x45), (0x2131, 0x46), (0x2132, 0x46),
    (0x2133, 0x4D), (0x2134, 0x30), (0x213A, 0x30), (0x2141, 0x47), (0x2142, 0x4C), (0x2143, 0x4C),
    (0x2144, 0x59), (0x2145, 0x44), (0x2146, 0x64), (0x2147, 0x65), (0x2148, 0x69), (0x2149, 0x6A),
    (0xFF21, 0x41), (0xFF22, 0x42), (0xFF23, 0x43), (0xFF24, 0x44), (0xFF25, 0x45), (0xFF26, 0x46),
    (0xFF27, 0x47), (0xFF28, 0x48), (0xFF29, 0x49), (0xFF2A, 0x4A), (0xFF2B, 0x4B), (0xFF2C, 0x4C),
    (0xFF2D, 0x4D), (0xFF2E, 0x4E), (0xFF2F, 0x4F), (0xFF30, 0x50), (0xFF31, 0x51), (0xFF32, 0x52),
    (0xFF33, 0x53), (0xFF34, 0x54), (0xFF35, 0x55), (0xFF36, 0x56), (0xFF37, 0x57), (0xFF38, 0x58),
    (0xFF39, 0x59), (0xFF3A, 0x5A), (0xFF41, 0x61), (0xFF42, 0x62), (0xFF43, 0x63), (0xFF44, 0x64),
    (0xFF45, 0x65), (0xFF46, 0x66), (0xFF47, 0x67), (0xFF48, 0x68), (0xFF49, 0x69), (0xFF4A, 0x6A),
    (0xFF4B, 0x6B), (0xFF4C, 0x6C), (0xFF4D, 0x6D), (0xFF4E, 0x6E), (0xFF4F, 0x6F), (0xFF50, 0x70),
    (0xFF51, 0x71), (0xFF52, 0x72), (0xFF53, 0x73), (0xFF54, 0x74), (0xFF55, 0x75), (0xFF56, 0x76),
    (0xFF57, 0x77), (0xFF58, 0x78), (0xFF59, 0x79), (0xFF5A, 0x7A)]"

definition GSM0338_lossy :: "ucc list" where
  "GSM0338_lossy = GSM0338_lossy_1 @ GSM0338_lossy_2 @ GSM0338_lossy_3 @ GSM0338_lossy_4 @ GSM0338_lossy_5 @ GSM0338_lossy_6 @ GSM0338_lossy_7"

definition GSM0338_tsize :: nat where
  "GSM0338_tsize = length GSM0338_uni_to_char_table"

definition GSM0338_esize :: nat where
  "GSM0338_esize = length GSM0338_escapes"

definition GSM0338_lsize :: nat where
  "GSM0338_lsize = length GSM0338_lossy"

end
