(* ===== verification/Enc_Decode.thy ===== *)
theory Enc_Decode
  imports Enc_Buffer Enc_Tables
begin

text \<open>
  \<^verbatim>\<open>GSToUnicode\<close> of \<^verbatim>\<open>Source/Additions/Unicode.m\<close>: from bytes to 16-bit characters. Encodings that the
  function does not handle itself are left to \<^verbatim>\<open>iconv\<close>; the model is of a library built
  without it, where they fail.
\<close>

unbundle bit_operations_syntax

section \<open>Encodings\<close>

datatype NSStringEncoding =
    NSASCIIStringEncoding | NSNEXTSTEPStringEncoding | NSUTF8StringEncoding | NSISOLatin1StringEncoding
  | NSNonLossyASCIIStringEncoding | NSISOLatin2StringEncoding | NSUTF16StringEncoding
  | NSUTF16BigEndianStringEncoding | NSUTF16LittleEndianStringEncoding | NSUTF32StringEncoding
  | NSUTF32BigEndianStringEncoding | NSUTF32LittleEndianStringEncoding | NSISOCyrillicStringEncoding
  | NSISOLatin9StringEncoding | NSISOThaiStringEncoding | NSGSM0338StringEncoding | NSOtherStringEncoding nat

definition GSUnicodeSwap16 :: "unichar \<Rightarrow> unichar" where
  "GSUnicodeSwap16 codePoint = codePoint * 256 mod 2 ^ 16 OR codePoint div 256"

definition GSUnicodeSwap32 :: "nat \<Rightarrow> nat" where
  "GSUnicodeSwap32 codePoint =
     (codePoint AND 0xFF) * 2 ^ 24 OR (codePoint AND 0xFF00) * 2 ^ 8 OR (codePoint AND 0xFF0000) div 2 ^ 8 OR
     codePoint div 2 ^ 24"

section \<open>UTF-8\<close>

text \<open>The classes of bytes, and the transitions from a state with a class of bytes.\<close>

definition utf8_classes :: "nat list" where
  "utf8_classes =
     replicate 128 0 @ replicate 16 1 @ replicate 16 9 @ replicate 32 7 @ [8, 8] @ replicate 30 2 @
     [10, 3, 3, 3, 3, 3, 3, 3, 3, 3, 3, 3, 3, 4, 3, 3, 11, 6, 6, 6, 5, 8, 8, 8, 8, 8, 8, 8, 8, 8, 8, 8]"

definition utf8_transitions :: "nat list" where
  "utf8_transitions =
     [0, 12, 24, 36, 60, 96, 84, 12, 12, 12, 48, 72, 12, 12, 12, 12, 12, 12, 12, 12, 12, 12, 12, 12,
      12, 0, 12, 12, 12, 12, 12, 0, 12, 0, 12, 12, 12, 24, 12, 12, 12, 12, 12, 24, 12, 24, 12, 12,
      12, 12, 12, 12, 12, 12, 12, 24, 12, 12, 12, 12, 12, 24, 12, 12, 12, 12, 12, 12, 12, 24, 12, 12,
      12, 12, 12, 12, 12, 12, 12, 36, 12, 36, 12, 12, 12, 36, 12, 12, 12, 12, 12, 36, 12, 36, 12, 12,
      12, 36, 12, 12, 12, 12, 12, 12, 12, 12, 12, 12]"

definition utf8d :: "nat list" where
  "utf8d = utf8_classes @ utf8_transitions"

definition UTF8_ACCEPT :: nat where
  "UTF8_ACCEPT = 0"

text \<open>The state and the code point after one more byte.\<close>

definition decode :: "nat \<Rightarrow> nat \<Rightarrow> nat \<Rightarrow> nat \<times> nat" where
  "decode state codep byte =
     (let type = utf8d ! byte;
          codep' = (if state \<noteq> UTF8_ACCEPT then (byte AND 0x3F) OR u32 (codep * 2 ^ 6) else 0xFF div 2 ^ type AND byte)
      in (utf8d ! (256 + state + type), codep'))"

text \<open>A code point is one 16-bit character or a pair of surrogates.\<close>

definition put_code :: "job \<Rightarrow> nat \<Rightarrow> nat \<Rightarrow> unichar conv \<Rightarrow> unichar conv flow option" where
  "put_code j slen u s =
     (if u < 0x10000 then put_grow 2 j slen u s
      else
        let v = u - 0x10000; ul = v AND 0x3FF; uh = v div 2 ^ 10 AND 0x3FF
        in andthen (put_grow 2 j slen (uh + 0xD800) s) (put_grow 2 j slen (ul + 0xDC00)))"

fun utf8_loop :: "job \<Rightarrow> nat \<Rightarrow> nat list \<Rightarrow> nat \<Rightarrow> nat \<Rightarrow> unichar conv \<Rightarrow> unichar conv flow option" where
  "utf8_loop j slen [] state u s = Some (if state \<noteq> UTF8_ACCEPT then Fail s else Go s)"
| "utf8_loop j slen (b # bs) state u s =
     (let (state', u') = decode state u b
      in if state' \<noteq> 0 then utf8_loop j slen bs state' u' s
         else andthen (put_code j slen u' s) (utf8_loop j slen bs state' u'))"

section \<open>UTF-16 and UTF-32\<close>

text \<open>An integer of the host in memory.\<close>

definition host16 :: "bool \<Rightarrow> nat \<Rightarrow> nat \<Rightarrow> nat" where
  "host16 big a b = (if big then a * 256 + b else b * 256 + a)"

definition host32 :: "bool \<Rightarrow> nat \<Rightarrow> nat \<Rightarrow> nat \<Rightarrow> nat \<Rightarrow> nat" where
  "host32 big a b c d =
     (if big then a * 2 ^ 24 + b * 2 ^ 16 + c * 2 ^ 8 + d else d * 2 ^ 24 + c * 2 ^ 16 + b * 2 ^ 8 + a)"

fun utf16_loop :: "job \<Rightarrow> bool \<Rightarrow> nat list \<Rightarrow> unichar conv \<Rightarrow> unichar conv flow option" where
  "utf16_loop j swap (a # b # bs) s =
     (let c = host16 (words_bigendian j) a b; c = (if swap then GSUnicodeSwap16 c else c)
      in andthen (put j c s) (utf16_loop j swap bs))"
| "utf16_loop j swap _ s = Some (Go s)"

fun utf32_loop :: "job \<Rightarrow> nat \<Rightarrow> bool \<Rightarrow> nat list \<Rightarrow> unichar conv \<Rightarrow> unichar conv flow option" where
  "utf32_loop j slen swap (a # b # c # d # bs) s =
     (let u = host32 (words_bigendian j) a b c d; u = (if swap then GSUnicodeSwap32 u else u)
      in andthen (put_code j slen u s) (utf32_loop j slen swap bs))"
| "utf32_loop j slen swap _ s = Some (Go s)"

section \<open>ASCII with escapes\<close>

definition octdigit :: "nat \<Rightarrow> bool" where
  "octdigit c \<longleftrightarrow> 0x30 \<le> c \<and> c < 0x38"

definition isdigit :: "nat \<Rightarrow> bool" where
  "isdigit c \<longleftrightarrow> 0x30 \<le> c \<and> c \<le> 0x39"

definition isupper :: "nat \<Rightarrow> bool" where
  "isupper c \<longleftrightarrow> 0x41 \<le> c \<and> c \<le> 0x5A"

definition isxdigit :: "nat \<Rightarrow> bool" where
  "isxdigit c \<longleftrightarrow> isdigit c \<or> 0x41 \<le> c \<and> c \<le> 0x46 \<or> 0x61 \<le> c \<and> c \<le> 0x66"

text \<open>The first pass counts the characters, or finds an escape that is none.\<close>

fun escaped_count :: "nat list \<Rightarrow> nat \<Rightarrow> nat option" where
  "escaped_count [] n = Some n"
| "escaped_count (c # cs) n =
     (if c = 0x5C then
        (case cs of [] \<Rightarrow> None
         | c # cs \<Rightarrow>
             if c = 0x5C then escaped_count cs (n + 1)
             else if octdigit c then
               (case cs of c1 # c2 # cs \<Rightarrow> if octdigit c1 \<and> octdigit c2 then escaped_count cs (n + 1) else None
                | _ \<Rightarrow> None)
             else if c = 0x75 then
               (case cs of c1 # c2 # c3 # c4 # cs \<Rightarrow>
                  if isxdigit c1 \<and> isxdigit c2 \<and> isxdigit c3 \<and> isxdigit c4 then escaped_count cs (n + 1) else None
                | _ \<Rightarrow> None)
             else None)
      else escaped_count cs (n + 1))"

definition hex_value :: "nat \<Rightarrow> nat" where
  "hex_value c = (if isdigit c then c - 0x30 else if isupper c then 10 + c - 0x41 else 10 + c - 0x61)"

text \<open>The second pass. It reads on without looking at the end of the source again.\<close>

fun escaped_loop :: "job \<Rightarrow> nat list \<Rightarrow> unichar conv \<Rightarrow> unichar conv flow option" where
  "escaped_loop j [] s = Some (Go s)"
| "escaped_loop j (c # cs) s =
     (if c = 0x5C then
        (case cs of [] \<Rightarrow> Some Fault
         | c # cs \<Rightarrow>
             if c = 0x5C then andthen (put j c s) (escaped_loop j cs)
             else if c = 0x75 then
               (case cs of c1 # c2 # c3 # c4 # cs \<Rightarrow>
                  andthen (put j (((hex_value c1 * 16 + hex_value c2) * 16 + hex_value c3) * 16 + hex_value c4) s) (escaped_loop j cs)
                | _ \<Rightarrow> Some Fault)
             else
               (case cs of c1 # c2 # cs \<Rightarrow>
                  andthen (put j (((c - 0x30) * 8 + (c1 - 0x30)) * 8 + (c2 - 0x30)) s) (escaped_loop j cs)
                | _ \<Rightarrow> Some Fault))
      else andthen (put j c s) (escaped_loop j cs))"

section \<open>Encodings with one byte for each character\<close>

fun ascii_loop :: "job \<Rightarrow> nat list \<Rightarrow> unichar conv \<Rightarrow> unichar conv flow option" where
  "ascii_loop j [] s = Some (Go s)"
| "ascii_loop j (c # cs) s = (if 127 < c then Some (Fail s) else andthen (put j c s) (ascii_loop j cs))"

text \<open>An entry of a table, for an index beyond its end nothing.\<close>

definition entry :: "'a list \<Rightarrow> nat \<Rightarrow> 'a option" where
  "entry t i = (if i < length t then Some (t ! i) else None)"

fun table_loop :: "job \<Rightarrow> unichar \<Rightarrow> unichar list \<Rightarrow> nat list \<Rightarrow> unichar conv \<Rightarrow> unichar conv flow option" where
  "table_loop j base table [] s = Some (Go s)"
| "table_loop j base table (c # cs) s =
     (if c < base then andthen (put j c s) (table_loop j base table cs)
      else case entry table (c - base) of None \<Rightarrow> Some Fault
        | Some u \<Rightarrow> andthen (put j u s) (table_loop j base table cs))"

definition decode_table :: "job \<Rightarrow> unichar \<Rightarrow> unichar list \<Rightarrow> nat list \<Rightarrow> unichar conv \<Rightarrow> unichar conv flow option" where
  "decode_table j base table src s =
     (if \<not> dst j then Some (Go (s\<lparr>dpos := u32 (dpos s + length src)\<rparr>))
      else andthen (reserve_wide j (length src) s) (table_loop j base table src))"

text \<open>
  The GSM alphabet. After an escape byte the following byte is read, even beyond the end of the source, and looked up
  among the escapes.
\<close>

fun escape_from :: "ucc list \<Rightarrow> nat \<Rightarrow> unichar option" where
  "escape_from [] c = None"
| "escape_from ((from', to) # es) c = (if to = c then Some from' else escape_from es c)"

fun gsm_loop :: "job \<Rightarrow> nat \<Rightarrow> nat list \<Rightarrow> unichar conv \<Rightarrow> unichar conv flow option" where
  "gsm_loop j slen [] s = Some (Go s)"
| "gsm_loop j slen (c # cs) s =
     andthen (ensure 2 j slen s) (\<lambda>s.
       case entry GSM0338_char_to_uni_table c of None \<Rightarrow> Some Fault
       | Some u \<Rightarrow>
           if c = 0x1B then
             (case cs of [] \<Rightarrow> Some Fault
              | c' # cs' \<Rightarrow>
                  (case escape_from GSM0338_escapes c' of
                     Some v \<Rightarrow> andthen (put j v s) (gsm_loop j slen cs')
                   | None \<Rightarrow> andthen (put j u s) (gsm_loop j slen cs)))
           else andthen (put j u s) (gsm_loop j slen cs))"

section \<open>The function\<close>

definition decode_start :: "job \<Rightarrow> nat \<Rightarrow> unichar conv flow option" where
  "decode_start j slen =
     (if bom j then andthen (grow_while 2 j slen (\<lambda>s. bsize s \<le> dpos s) (start_buffer j)) (put j 0xFEFF)
      else Some (Go (start_buffer j)))"

definition decode_bytes :: "job \<Rightarrow> NSStringEncoding \<Rightarrow> nat list \<Rightarrow> unichar conv \<Rightarrow> unichar conv flow option" where
  "decode_bytes j enc src s =
     (let slen = length src in
      case enc of
        NSUTF8StringEncoding \<Rightarrow> utf8_loop j slen src 0 0 s
      | NSUTF16BigEndianStringEncoding \<Rightarrow>
          andthen (reserve_wide j (slen div 2) s) (utf16_loop j (\<not> words_bigendian j) src)
      | NSUTF16LittleEndianStringEncoding \<Rightarrow>
          andthen (reserve_wide j (slen div 2) s) (utf16_loop j (words_bigendian j) src)
      | NSUTF32StringEncoding \<Rightarrow> utf32_loop j slen False src s
      | NSUTF32BigEndianStringEncoding \<Rightarrow> utf32_loop j slen (\<not> words_bigendian j) src s
      | NSUTF32LittleEndianStringEncoding \<Rightarrow> utf32_loop j slen (words_bigendian j) src s
      | NSNonLossyASCIIStringEncoding \<Rightarrow>
          (case escaped_count src 0 of None \<Rightarrow> Some (Fail s)
           | Some k \<Rightarrow>
               if \<not> dst j then Some (Go (s\<lparr>dpos := u32 (dpos s + k)\<rparr>))
               else andthen (reserve_wide j k s) (escaped_loop j src))
      | NSASCIIStringEncoding \<Rightarrow>
          if \<not> dst j then Some (Go (s\<lparr>dpos := u32 (dpos s + slen)\<rparr>))
          else andthen (reserve_wide j slen s) (ascii_loop j src)
      | NSISOLatin1StringEncoding \<Rightarrow>
          if \<not> dst j then Some (Go (s\<lparr>dpos := u32 (dpos s + slen)\<rparr>))
          else andthen (reserve_wide j slen s) (put_all j src)
      | NSNEXTSTEPStringEncoding \<Rightarrow> decode_table j Next_conv_base Next_char_to_uni_table src s
      | NSISOCyrillicStringEncoding \<Rightarrow> decode_table j Cyrillic_conv_base Cyrillic_char_to_uni_table src s
      | NSISOLatin2StringEncoding \<Rightarrow> decode_table j Latin2_conv_base Latin2_char_to_uni_table src s
      | NSISOLatin9StringEncoding \<Rightarrow> decode_table j Latin9_conv_base Latin9_char_to_uni_table src s
      | NSISOThaiStringEncoding \<Rightarrow> decode_table j Thai_conv_base Thai_char_to_uni_table src s
      | NSGSM0338StringEncoding \<Rightarrow> gsm_loop j slen src s
      | NSUTF16StringEncoding \<Rightarrow> Some (Fail s)
      | NSOtherStringEncoding n \<Rightarrow> Some (Fail s))"

definition GSToUnicode :: "job \<Rightarrow> NSStringEncoding \<Rightarrow> nat list \<Rightarrow> unichar conversion flow option" where
  "GSToUnicode j enc src =
     conclude 2 0 (terminate j \<and> dst j) j (andthen (decode_start j (length src)) (decode_bytes j enc src))"

end
