(* ===== verification/Enc_Encode.thy ===== *)
theory Enc_Encode
  imports Enc_Decode
begin

text \<open>
  \<^verbatim>\<open>GSFromUnicode\<close> of \<^verbatim>\<open>Source/Additions/Unicode.m\<close>, from 16-bit characters to bytes, with the
  checks of 16-bit strings, \<^verbatim>\<open>GSUnicode\<close> and \<^verbatim>\<open>GSPrivateCleanUnichars\<close>. The model is of a library built
  without \<^verbatim>\<open>iconv\<close>; with it, conversions that are not strict go there except for UTF-8 and the GSM alphabet.
\<close>

unbundle bit_operations_syntax

section \<open>Checking 16-bit strings\<close>

abbreviation high_surrogate :: "unichar \<Rightarrow> bool" where "high_surrogate c \<equiv> 0xD800 \<le> c \<and> c \<le> 0xDBFF"
abbreviation low_surrogate :: "unichar \<Rightarrow> bool" where "low_surrogate c \<equiv> 0xDC00 \<le> c \<and> c \<le> 0xDFFF"

text \<open>
  The three loops of \<^verbatim>\<open>GSUnicode\<close>, each from the position \<open>i\<close> where the one before has stopped. \<open>given\<close> tells whether the caller
  passed a place for \<^verbatim>\<open>isBad\<close>, \<open>n\<close> is the whole length.
\<close>

fun scan_wide :: "bool \<Rightarrow> nat \<Rightarrow> unichar list \<Rightarrow> nat \<Rightarrow> nat \<times> bool" where
  "scan_wide given n [] i = (i, False)"
| "scan_wide given n (c # cs) i =
     (let bad = (if given then (n, True) else (i, False)) in
      if low_surrogate c then bad
      else if high_surrogate c then
        (case cs of [] \<Rightarrow> bad
         | c' # cs' \<Rightarrow> if low_surrogate c' then scan_wide given n cs' (i + 2) else bad)
      else scan_wide given n cs (i + 1))"

record unicode_scan =
  valid :: nat
  isASCII :: bool
  isLatin1 :: bool
  isBad :: bool

fun scan_latin1 :: "bool \<Rightarrow> nat \<Rightarrow> unichar list \<Rightarrow> nat \<Rightarrow> unicode_scan" where
  "scan_latin1 given n [] i = \<lparr>valid = i, isASCII = False, isLatin1 = True, isBad = False\<rparr>"
| "scan_latin1 given n (c # cs) i =
     (if 255 < c then
        let (v, b) = scan_wide given n (c # cs) i in \<lparr>valid = v, isASCII = False, isLatin1 = False, isBad = b\<rparr>
      else scan_latin1 given n cs (i + 1))"

fun scan_ascii :: "bool \<Rightarrow> nat \<Rightarrow> unichar list \<Rightarrow> nat \<Rightarrow> unicode_scan" where
  "scan_ascii given n [] i = \<lparr>valid = i, isASCII = True, isLatin1 = True, isBad = False\<rparr>"
| "scan_ascii given n (c # cs) i =
     (if 127 < c then scan_latin1 given n (c # cs) i else scan_ascii given n cs (i + 1))"

definition GSUnicode :: "unichar list \<Rightarrow> bool \<Rightarrow> unicode_scan" where
  "GSUnicode chars given = scan_ascii given (length chars) chars 0"

fun GSPrivateCleanUnichars :: "unichar list \<Rightarrow> unichar list" where
  "GSPrivateCleanUnichars [] = []"
| "GSPrivateCleanUnichars (c # cs) =
     (if low_surrogate c then 0xFFFD # GSPrivateCleanUnichars cs
      else if high_surrogate c then
        (case cs of [] \<Rightarrow> [0xFFFD]
         | c' # cs' \<Rightarrow>
             if low_surrogate c' then c # c' # GSPrivateCleanUnichars cs'
             else 0xFFFD # GSPrivateCleanUnichars (c' # cs'))
      else c # GSPrivateCleanUnichars cs)"

section \<open>UTF-8\<close>

definition surrogates :: "unichar \<Rightarrow> unichar \<Rightarrow> nat" where
  "surrogates u1 u2 = (u1 - 0xD800) * 0x400 + (u2 - 0xDC00) + 0x10000"

definition utf8_length :: "nat \<Rightarrow> nat" where
  "utf8_length u = (if u \<le> 0x7FF then 2 else if u \<le> 0xFFFF then 3 else if u \<le> 0x1FFFFF then 4 else if u \<le> 0x3FFFFFF then 5 else 6)"

text \<open>The bytes of a code point, the array \<^verbatim>\<open>reversed\<close> first.\<close>

fun utf8_reversed :: "nat \<Rightarrow> nat \<Rightarrow> nat list" where
  "utf8_reversed 0 u = []"
| "utf8_reversed (Suc n) u = (u AND 0x3F) # utf8_reversed n (u div 2 ^ 6)"

definition utf8_bytes :: "nat \<Rightarrow> nat list" where
  "utf8_bytes u =
     (let sl = utf8_length u; reversed = utf8_reversed sl u
      in (reversed ! (sl - 1) OR (0xFF * 2 ^ (8 - sl) AND 0xFF)) # map (\<lambda>r. r OR 0x80) (rev (take (sl - 1) reversed)))"

definition put_utf8 :: "job \<Rightarrow> nat \<Rightarrow> nat \<Rightarrow> nat conv \<Rightarrow> nat conv flow option" where
  "put_utf8 j slen u s =
     andthen (grow_while 1 j slen (\<lambda>s. bsize s \<le> u32 (dpos s + utf8_length u)) s) (put_all j (utf8_bytes u))"

definition unswapped :: "bool \<Rightarrow> unichar \<Rightarrow> unichar" where
  "unswapped swapped u = (if swapped then GSUnicodeSwap16 u else u)"

fun utf8_encode :: "job \<Rightarrow> nat \<Rightarrow> bool \<Rightarrow> unichar list \<Rightarrow> nat conv \<Rightarrow> nat conv flow option" where
  "utf8_encode j slen swapped [] s = Some (Go s)"
| "utf8_encode j slen swapped (c # src) s =
     (let u1 = unswapped swapped c in
      if u1 \<le> 0x7F then andthen (put_grow 1 j slen u1 s) (utf8_encode j slen swapped src)
      else if low_surrogate u1 then
        if strict j then Some (Fail s) else andthen (put_utf8 j slen 0xFFFD s) (utf8_encode j slen swapped src)
      else if high_surrogate u1 then
        (case src of
           [] \<Rightarrow> if strict j then Some (Fail s) else andthen (put_utf8 j slen 0xFFFD s) (utf8_encode j slen swapped src)
         | c' # src' \<Rightarrow>
             let u2 = unswapped swapped c' in
             if \<not> low_surrogate u2 then
               if strict j then Some (Fail s) else andthen (put_utf8 j slen 0xFFFD s) (utf8_encode j slen swapped src)
             else andthen (put_utf8 j slen (surrogates u1 u2) s) (utf8_encode j slen swapped src'))
      else andthen (put_utf8 j slen u1 s) (utf8_encode j slen swapped src))"

section \<open>ASCII with escapes\<close>

definition plain :: "unichar \<Rightarrow> bool" where
  "plain u \<longleftrightarrow> 0x20 \<le> u \<and> u < 127 \<or> u = 0x0D \<or> u = 0x0A \<or> u = 0x09"

text \<open>The bytes counted for a character; twelve instead of six for a wide one if the source is swapped.\<close>

definition escaped_length :: "bool \<Rightarrow> unichar \<Rightarrow> nat" where
  "escaped_length swapped u =
     (if u < 256 then if plain u then if u = 0x5C then 2 else 1 else 4 else if swapped then 12 else 6)"

definition octchar :: "nat \<Rightarrow> nat" where
  "octchar d = [0x30, 0x31, 0x32, 0x33, 0x34, 0x35, 0x36, 0x37] ! d"

definition hexchar :: "nat \<Rightarrow> nat" where
  "hexchar d = [0x30, 0x31, 0x32, 0x33, 0x34, 0x35, 0x36, 0x37, 0x38, 0x39, 0x61, 0x62, 0x63, 0x64, 0x65, 0x66] ! d"

definition escaped_bytes :: "unichar \<Rightarrow> nat list" where
  "escaped_bytes u =
     (if u < 256 then
        if plain u then if u = 0x5C then [u, u] else [u]
        else [0x5C, octchar (u div 2 ^ 6 AND 7), octchar (u div 2 ^ 3 AND 7), octchar (u AND 7)]
      else [0x5C, 0x75, hexchar (u div 2 ^ 12 AND 0xF), hexchar (u div 2 ^ 8 AND 0xF), hexchar (u div 2 ^ 4 AND 0xF), hexchar (u AND 0xF)])"

fun escaped_encode :: "job \<Rightarrow> bool \<Rightarrow> unichar list \<Rightarrow> nat conv \<Rightarrow> nat conv flow option" where
  "escaped_encode j swapped [] s = Some (Go s)"
| "escaped_encode j swapped (c # src) s =
     andthen (put_all j (escaped_bytes (unswapped swapped c)) s) (escaped_encode j swapped src)"

definition encode_escaped :: "job \<Rightarrow> bool \<Rightarrow> unichar list \<Rightarrow> nat conv \<Rightarrow> nat conv flow option" where
  "encode_escaped j swapped src s =
     (let n = u32 (sum_list (map (\<lambda>c. escaped_length swapped (unswapped swapped c)) src))
      in if \<not> dst j then Some (Go (s\<lparr>dpos := n\<rparr>))
         else andthen (reserve_bytes j n s) (escaped_encode j swapped src))"

section \<open>UTF-16 and UTF-32\<close>

definition store16 :: "bool \<Rightarrow> unichar \<Rightarrow> nat list" where
  "store16 big u = (if big then [u div 256, u mod 256] else [u mod 256, u div 256])"

definition store32 :: "bool \<Rightarrow> nat \<Rightarrow> nat list" where
  "store32 big u =
     (let bs = [u div 2 ^ 24, u div 2 ^ 16 mod 256, u div 2 ^ 8 mod 256, u mod 256] in if big then bs else rev bs)"

text \<open>
  All characters are written in one go: in the order of the host from the start of the buffer, swapped from the current
  position on. That position is behind the space just counted if there is no destination.
\<close>

definition write_at :: "job \<Rightarrow> nat \<Rightarrow> nat list \<Rightarrow> nat conv \<Rightarrow> nat conv flow option" where
  "write_at j pos xs s =
     (if xs \<noteq> [] \<and> room s < pos + length xs then Some Fault
      else Some (Go (s\<lparr>cells := (if dst j then xs else cells s)\<rparr>)))"

definition encode_utf16 :: "job \<Rightarrow> bool \<Rightarrow> bool \<Rightarrow> unichar list \<Rightarrow> nat conv \<Rightarrow> nat conv flow option" where
  "encode_utf16 j other_order swapped src s =
     (let n = u32 (length src * 2);
          swapped = (if other_order then \<not> swapped else swapped);
          big = words_bigendian j
      in andthen
           (andthen (if \<not> dst j then Some (Go (s\<lparr>dpos := n\<rparr>)) else reserve_bytes j n s)
             (\<lambda>s. if swapped then write_at j (dpos s) (concat (map (\<lambda>u. store16 big (GSUnicodeSwap16 u)) src)) s
                  else write_at j 0 (take n (concat (map (store16 big) src))) s))
           (\<lambda>s. Some (Go (s\<lparr>dpos := u32 (dpos s + n)\<rparr>))))"

fun utf32_encode :: "job \<Rightarrow> nat \<Rightarrow> bool \<Rightarrow> bool \<Rightarrow> unichar list \<Rightarrow> nat conv \<Rightarrow> nat conv flow option" where
  "utf32_encode j slen other_order swapped [] s = Some (Go s)"
| "utf32_encode j slen other_order swapped (c # src) s =
     (let u1 = unswapped swapped c;
          pair = (high_surrogate u1 \<and> src \<noteq> [] \<and> low_surrogate (unswapped swapped (hd src)));
          u = (if pair then surrogates u1 (unswapped swapped (hd src)) else u1);
          bytes = store32 (words_bigendian j) (if other_order then GSUnicodeSwap32 u else u)
      in andthen (andthen (grow_while 1 j slen (\<lambda>s. bsize s < u32 (dpos s + 4)) s) (put_all j bytes))
           (utf32_encode j slen other_order swapped (if pair then tl src else src)))"

section \<open>Encodings with one byte for each character\<close>

text \<open>
  The characters below \<open>base\<close>. If there is no destination their number is counted before the loop,
  which counts and writes them all the same.
\<close>

fun base_encode :: "job \<Rightarrow> unichar \<Rightarrow> bool \<Rightarrow> unichar list \<Rightarrow> nat conv \<Rightarrow> nat conv flow option" where
  "base_encode j base swapped [] s = Some (Go s)"
| "base_encode j base swapped (c # src) s =
     (let u = unswapped swapped c in
      if u < base then andthen (put j u s) (base_encode j base swapped src)
      else if \<not> strict j then andthen (put j 0x3F s) (base_encode j base swapped src)
      else Some (Fail s))"

definition encode_base :: "job \<Rightarrow> unichar \<Rightarrow> bool \<Rightarrow> unichar list \<Rightarrow> nat conv \<Rightarrow> nat conv flow option" where
  "encode_base j base swapped src s =
     andthen (if \<not> dst j then Some (Go (s\<lparr>dpos := length src\<rparr>)) else reserve_bytes j (length src) s)
       (base_encode j base swapped src)"

text \<open>The binary search in a table of the stated size; a read beyond its end is \<open>None\<close>.\<close>

function chop :: "unichar \<Rightarrow> ucc list \<Rightarrow> nat \<Rightarrow> nat \<Rightarrow> nat option option" where
  "chop c table lo hi =
     (if lo < hi then
        let i = (hi + lo) div 2 in
        case entry table i of None \<Rightarrow> None
        | Some (from', to) \<Rightarrow>
            if from' < c then chop c table (i + 1) hi
            else if c < from' then chop c table lo i
            else Some (Some i)
      else Some None)"
  by auto
termination
  by (relation "measure (\<lambda>(c, table, lo, hi). hi - lo)") auto

declare chop.simps [simp del]

record charset =
  base :: unichar
  table :: "ucc list"
  tsize :: nat
  escape :: nat
  etable :: "ucc list"
  etsize :: nat
  ltable :: "ucc list"
  ltsize :: nat

definition lookup_byte :: "unichar \<Rightarrow> ucc list \<Rightarrow> nat \<Rightarrow> nat option option" where
  "lookup_byte u t n =
     (case chop u t 0 n of None \<Rightarrow> None
      | Some None \<Rightarrow> Some None
      | Some (Some i) \<Rightarrow> Some (Some (snd (t ! i))))"

fun table_encode :: "job \<Rightarrow> nat \<Rightarrow> charset \<Rightarrow> bool \<Rightarrow> unichar list \<Rightarrow> nat conv \<Rightarrow> nat conv flow option" where
  "table_encode j slen k swapped [] s = Some (Go s)"
| "table_encode j slen k swapped (c # src) s =
     (let u = unswapped swapped c in
      andthen (ensure 1 j slen s) (\<lambda>s.
        if u < base k then andthen (put j u s) (table_encode j slen k swapped src)
        else case lookup_byte u (table k) (tsize k) of
          None \<Rightarrow> Some Fault
        | Some (Some b) \<Rightarrow> andthen (put j b s) (table_encode j slen k swapped src)
        | Some None \<Rightarrow>
          (case lookup_byte u (etable k) (etsize k) of
             None \<Rightarrow> Some Fault
           | Some (Some b) \<Rightarrow>
               andthen (andthen (put j (escape k) s) (put_grow 1 j slen b)) (table_encode j slen k swapped src)
           | Some None \<Rightarrow>
             (case lookup_byte u (ltable k) (ltsize k) of
                None \<Rightarrow> Some Fault
              | Some (Some b) \<Rightarrow> andthen (put j b s) (table_encode j slen k swapped src)
              | Some None \<Rightarrow>
                  if \<not> strict j then andthen (put j 0x3F s) (table_encode j slen k swapped src)
                  else Some (Fail s)))))"

text \<open>The character sets of the switch. The tables an encoding does not have are empty here, for which the search finds nothing.\<close>

definition plain_charset :: "unichar \<Rightarrow> ucc list \<Rightarrow> nat \<Rightarrow> charset" where
  "plain_charset b t n = \<lparr>base = b, table = t, tsize = n, escape = 0, etable = [], etsize = 0, ltable = [], ltsize = 0\<rparr>"

definition gsm_charset :: "bool \<Rightarrow> charset" where
  "gsm_charset is_strict =
     \<lparr>base = 0, table = GSM0338_uni_to_char_table, tsize = GSM0338_tsize, escape = 0x1B,
      etable = GSM0338_escapes, etsize = GSM0338_esize,
      ltable = (if is_strict then [] else GSM0338_lossy), ltsize = (if is_strict then 0 else GSM0338_lsize)\<rparr>"

section \<open>The function\<close>

text \<open>
  The byte order mark, if one is expected: whether the characters are swapped, and the characters behind it.
\<close>

definition encode_start :: "job \<Rightarrow> unichar list \<Rightarrow> (bool \<times> unichar list) option" where
  "encode_start j src =
     (if bom j then
        (case src of [] \<Rightarrow> None
         | c # cs \<Rightarrow> if c = 0xFEFF then Some (False, cs) else if c = 0xFFFE then Some (True, cs) else None)
      else Some (False, src))"

definition encode_chars :: "job \<Rightarrow> NSStringEncoding \<Rightarrow> bool \<Rightarrow> unichar list \<Rightarrow> nat conv \<Rightarrow> nat conv flow option" where
  "encode_chars j enc swapped src s =
     (let slen = length src; big = words_bigendian j in
      case enc of
        NSUTF8StringEncoding \<Rightarrow> utf8_encode j slen swapped src s
      | NSNonLossyASCIIStringEncoding \<Rightarrow> encode_escaped j swapped src s
      | NSASCIIStringEncoding \<Rightarrow> encode_base j 128 swapped src s
      | NSISOLatin1StringEncoding \<Rightarrow> encode_base j 256 swapped src s
      | NSUTF16StringEncoding \<Rightarrow> encode_utf16 j False swapped src s
      | NSUTF16BigEndianStringEncoding \<Rightarrow> encode_utf16 j (\<not> big) swapped src s
      | NSUTF16LittleEndianStringEncoding \<Rightarrow> encode_utf16 j big swapped src s
      | NSUTF32StringEncoding \<Rightarrow> utf32_encode j slen False swapped src s
      | NSUTF32BigEndianStringEncoding \<Rightarrow> utf32_encode j slen (\<not> big) swapped src s
      | NSUTF32LittleEndianStringEncoding \<Rightarrow> utf32_encode j slen big swapped src s
      | NSNEXTSTEPStringEncoding \<Rightarrow>
          table_encode j slen (plain_charset Next_conv_base Next_uni_to_char_table Next_uni_to_char_table_size) swapped src s
      | NSISOCyrillicStringEncoding \<Rightarrow>
          table_encode j slen (plain_charset Cyrillic_conv_base Cyrillic_uni_to_char_table Cyrillic_uni_to_char_table_size) swapped src s
      | NSISOLatin2StringEncoding \<Rightarrow>
          table_encode j slen (plain_charset Latin2_conv_base Latin2_uni_to_char_table Latin2_uni_to_char_table_size) swapped src s
      | NSISOLatin9StringEncoding \<Rightarrow>
          table_encode j slen (plain_charset Latin9_conv_base Latin9_uni_to_char_table Latin9_uni_to_char_table_size) swapped src s
      | NSISOThaiStringEncoding \<Rightarrow>
          table_encode j slen (plain_charset Thai_conv_base Thai_uni_to_char_table Thai_uni_to_char_table_size) swapped src s
      | NSGSM0338StringEncoding \<Rightarrow> table_encode j slen (gsm_charset (strict j)) swapped src s
      | NSOtherStringEncoding n \<Rightarrow> Some (Fail s))"

definition GSFromUnicode :: "job \<Rightarrow> NSStringEncoding \<Rightarrow> unichar list \<Rightarrow> nat conversion flow option" where
  "GSFromUnicode j enc src =
     (case encode_start j src of
        None \<Rightarrow> let j' = j\<lparr>size_arg := 0\<rparr> in conclude 1 0 (terminate j) j' (Some (Fail (start_buffer j')))
      | Some (swapped, src') \<Rightarrow> conclude 1 0 (terminate j) j (encode_chars j enc swapped src' (start_buffer j)))"

end
