(* ===== verification/Enc_Writes.thy ===== *)
theory Enc_Writes
  imports Enc_Encode "HOL-Library.Sublist"
begin

text \<open>
  Writing to a conversion buffer, described by what is written: a step writes a list of cells and goes on or
  fails, and only if the memory is short it may end before, with a part of the list.
\<close>

section \<open>Well-formed buffers\<close>

text \<open>The sizes for which no unsigned integer of the conversions wraps around.\<close>

definition sane :: "job \<Rightarrow> nat \<Rightarrow> bool" where
  "sane j slen \<longleftrightarrow> 16 \<le> BUFSIZ j \<and> BUFSIZ j \<le> 2 ^ 20 \<and> slen \<le> 2 ^ 26 \<and> size_arg j \<le> 2 ^ 30"

definition tail :: "job \<Rightarrow> nat" where
  "tail j = (if terminate j then 1 else 0)"

definition good :: "job \<Rightarrow> 'a conv \<Rightarrow> bool" where
  "good j s \<longleftrightarrow> dpos s \<le> bsize s \<and> bsize s + tail j \<le> room s \<and> bsize s \<le> 2 ^ 30 + 8 + BUFSIZ j \<and>
     (dst j \<longrightarrow> length (cells s) = dpos s)"

definition short :: "job \<Rightarrow> bool" where
  "short j \<longleftrightarrow> dst j \<and> (\<not> zone j \<or> (\<exists>n. \<not> alloc j n))"

definition wrote :: "job \<Rightarrow> 'a conv \<Rightarrow> 'a list \<Rightarrow> 'a conv \<Rightarrow> bool" where
  "wrote j s xs s' \<longleftrightarrow> good j s' \<and> dpos s' = dpos s + length xs \<and> (dst j \<longrightarrow> cells s' = cells s @ xs)"

definition writes :: "job \<Rightarrow> 'a conv flow option \<Rightarrow> 'a conv \<Rightarrow> 'a list \<Rightarrow> bool \<Rightarrow> bool" where
  "writes j m s xs r \<longleftrightarrow>
     (case m of None \<Rightarrow> False
      | Some (Go s') \<Rightarrow> r \<and> wrote j s xs s'
      | Some (Fail s') \<Rightarrow> (\<not> r \<and> wrote j s xs s') \<or> (short j \<and> (\<exists>p. prefix p xs \<and> wrote j s p s'))
      | Some Lost \<Rightarrow> short j
      | Some Return_no \<Rightarrow> short j
      | Some Fault \<Rightarrow> False)"

lemma bind_flow_simps [simp]:
  "bind_flow None f g = None"
  "bind_flow (Some (Go s)) f g = f s"
  "bind_flow (Some (Fail s)) f g = Some (Fail (g s))"
  "bind_flow (Some Lost) f g = Some Lost"
  "bind_flow (Some Return_no) f g = Some Return_no"
  "bind_flow (Some Fault) f g = Some Fault"
  by (simp_all add: bind_flow_def)

lemma wrote_refl: "good j s \<Longrightarrow> wrote j s [] s"
  by (simp add: wrote_def)

lemma wrote_trans: "wrote j s xs s' \<Longrightarrow> wrote j s' ys s'' \<Longrightarrow> wrote j s (xs @ ys) s''"
  by (auto simp: wrote_def)

lemma writes_Go: "wrote j s xs s' \<Longrightarrow> writes j (Some (Go s')) s xs True"
  by (simp add: writes_def)

lemma writes_Fail: "wrote j s xs s' \<Longrightarrow> writes j (Some (Fail s')) s xs False"
  by (simp add: writes_def)

lemma writes_nothing:
  "good j s \<Longrightarrow> writes j (Some (Go s)) s [] True"
  "good j s \<Longrightarrow> writes j (Some (Fail s)) s [] False"
  by (simp_all add: writes_Go writes_Fail wrote_refl)

lemma writes_andthen:
  assumes "writes j m s xs True" "\<And>s'. m = Some (Go s') \<Longrightarrow> wrote j s xs s' \<Longrightarrow> writes j (f s') s' ys r"
  shows "writes j (andthen m f) s (xs @ ys) r"
proof (cases m)
  case None
  then show ?thesis using assms(1) by (simp add: writes_def)
next
  case (Some k)
  show ?thesis
  proof (cases k)
    case (Go s')
    then have w: "wrote j s xs s'" using assms(1) Some by (simp add: writes_def)
    have f: "writes j (f s') s' ys r" using assms(2) w Go Some by blast
    show ?thesis
    proof (cases "f s'")
      case (Some k')
      then show ?thesis
        using f w Go \<open>m = Some k\<close> wrote_trans [OF w]
        by (cases k') (auto simp: writes_def same_prefix_prefix, (metis same_prefix_prefix)+)
    qed (use f in \<open>simp add: writes_def\<close>)
  qed (use assms(1) Some in \<open>auto simp: writes_def intro: prefix_prefix\<close>)
qed

section \<open>The operations\<close>

locale conversion_buffer =
  fixes w :: nat and j :: job and slen :: nat
  assumes width: "w = 1 \<or> w = 2" and sane: "sane j slen"
begin

lemma bounds: "16 \<le> BUFSIZ j" "BUFSIZ j \<le> 2 ^ 20" "slen \<le> 2 ^ 26" "size_arg j \<le> 2 ^ 30"
  using sane by (auto simp: sane_def)

lemma start_good: "good j (start_buffer j)" "dpos (start_buffer j) = 0" "dst j \<Longrightarrow> cells (start_buffer j) = []"
  using bounds by (auto simp: start_buffer_def good_def tail_def)

text \<open>What \<open>GROW\<close> does to a buffer with at most eight cells left that the code wants more of.\<close>

lemma grow:
  assumes "good j s" "bsize s \<le> dpos s + 8" "dpos s \<le> 2 ^ 30"
  shows "(\<exists>s'. GROW w j slen s = Go s' \<and> wrote j s [] s' \<and> dpos s + 8 \<le> bsize s') \<or>
    (short j \<and> (GROW w j slen s = Fail s \<or> GROW w j slen s = Lost))"
proof (cases "dst j \<and> zone j")
  case False
  then show ?thesis
    using assms bounds by (auto simp: GROW_def good_def wrote_def tail_def short_def u32_fits)
next
  case True
  let ?g = "if slen < bsize s + BUFSIZ j then bsize s + BUFSIZ j else slen"
  have g: "?g \<le> 2 ^ 30 + 8 + BUFSIZ j" "bsize s + BUFSIZ j \<le> ?g"
    using assms bounds by auto
  have u: "u32 (bsize s + BUFSIZ j) = bsize s + BUFSIZ j" "u32 (?g * w) = ?g * w"
    "u32 (?g * w + (if terminate j then w else 0)) = (?g + tail j) * w"
    using g bounds width by (auto simp: u32_def tail_def)
  have w: "0 < w" using width by auto
  have G: "GROW w j slen s =
    (if \<not> alloc j ((?g + tail j) * w) then Lost
     else if place s \<noteq> Heap \<and> (?g + tail j) * w < bsize s * w then Fault
     else Go (s\<lparr>place := Heap, room := ?g + tail j, bsize := ?g\<rparr>))"
    using True w unfolding GROW_def Let_def u by simp
  have "bsize s * w \<le> (?g + tail j) * w"
    using g by (intro mult_right_mono) auto
  moreover have "wrote j s [] (s\<lparr>place := Heap, room := ?g + tail j, bsize := ?g\<rparr>)"
    using assms(1) g True by (auto simp: wrote_def good_def)
  moreover have "dpos s + 8 \<le> ?g" using assms(1) g bounds by (auto simp: good_def)
  ultimately show ?thesis using True unfolding G by (auto simp: short_def)
qed

lemma writes_ensure:
  assumes "good j s" "dpos s < 2 ^ 30"
  shows "writes j (ensure w j slen s) s [] True \<and> (\<forall>s'. ensure w j slen s = Some (Go s') \<longrightarrow> dpos s' < bsize s')"
proof (cases "bsize s \<le> dpos s")
  case True
  then show ?thesis
    using grow [OF assms(1)] assms by (auto simp: ensure_def writes_def wrote_def)
next
  case False
  then show ?thesis using assms(1) by (auto simp: ensure_def writes_def wrote_def)
qed

lemma writes_put:
  assumes "good j s" "dpos s < bsize s"
  shows "writes j (put j x s) s [x] True"
  using assms bounds by (auto simp: put_def writes_def wrote_def good_def u32_fits)

lemma writes_put_grow:
  assumes "good j s" "dpos s < 2 ^ 30"
  shows "writes j (put_grow w j slen x s) s [x] True"
proof -
  have "writes j (put j x s') s' [x] True" if "ensure w j slen s = Some (Go s')" "wrote j s [] s'" for s'
    using that writes_ensure [OF assms] by (intro writes_put) (auto simp: wrote_def)
  then show ?thesis
    using writes_andthen [of j "ensure w j slen s" s "[]" "put j x" "[x]" True] writes_ensure [OF assms]
    by (simp add: put_grow_def)
qed

lemma writes_put_all:
  "good j s \<Longrightarrow> dpos s + length xs \<le> bsize s \<Longrightarrow> writes j (put_all j xs s) s xs True"
proof (induction xs arbitrary: s)
  case Nil
  then show ?case by (simp add: writes_nothing)
next
  case (Cons x xs)
  have "put j x s = Some (Go (s\<lparr>dpos := dpos s + 1, cells := (if dst j then cells s @ [x] else cells s)\<rparr>))"
    using Cons.prems bounds by (auto simp: put_def good_def u32_fits)
  moreover have "writes j (put j x s) s [x] True" using Cons.prems by (intro writes_put) auto
  ultimately show ?case
    using Cons.IH [of "s\<lparr>dpos := dpos s + 1, cells := (if dst j then cells s @ [x] else cells s)\<rparr>"] Cons.prems
      writes_andthen [of j "put j x s" s "[x]" "put_all j xs" xs True]
    by (auto simp: writes_def wrote_def)
qed

text \<open>The loops that make room for at most eight cells return after growing once.\<close>

lemma writes_grow_while:
  assumes "good j s" "dpos s \<le> 2 ^ 30"
    and need: "\<And>s'. need s' \<Longrightarrow> dpos s' = dpos s \<Longrightarrow> bsize s' \<le> dpos s + 7"
  shows "writes j (grow_while w j slen need s) s [] True \<and> (\<forall>s'. grow_while w j slen need s = Some (Go s') \<longrightarrow> \<not> need s')"
proof (cases "need s")
  case False
  then show ?thesis using assms(1) by (auto simp: grow_while.simps writes_nothing)
next
  case True
  then have b: "bsize s \<le> dpos s + 8" using need [of s] by simp
  consider s' where "GROW w j slen s = Go s'" "wrote j s [] s'" "dpos s + 8 \<le> bsize s'"
    | "short j" "GROW w j slen s = Fail s" | "short j" "GROW w j slen s = Lost"
    using grow [OF assms(1) b assms(2)] by blast
  then show ?thesis
  proof cases
    case 1
    then have "\<not> need s'" using need [of s'] by (auto simp: wrote_def)
    then show ?thesis using True 1 by (simp add: grow_while.simps [of w j slen need] writes_Go)
  qed (use True assms(1) in \<open>auto simp: grow_while.simps [of w j slen need] writes_def intro: wrote_refl\<close>)
qed

lemma writes_grow_put_all:
  assumes "good j s" "dpos s + length xs \<le> 2 ^ 30"
    and need: "\<And>s'. need s' \<Longrightarrow> dpos s' = dpos s \<Longrightarrow> bsize s' \<le> dpos s + 7"
    and enough: "\<And>s'. \<not> need s' \<Longrightarrow> dpos s' = dpos s \<Longrightarrow> dpos s + length xs \<le> bsize s'"
  shows "writes j (andthen (grow_while w j slen need s) (put_all j xs)) s xs True"
proof -
  have d: "dpos s \<le> 2 ^ 30" using assms(2) by simp
  note g = writes_grow_while [OF assms(1) d need]
  have "writes j (put_all j xs s') s' xs True"
    if "grow_while w j slen need s = Some (Go s')" "wrote j s [] s'" for s'
    using that g enough [of s'] by (intro writes_put_all) (auto simp: wrote_def)
  then show ?thesis
    using writes_andthen [of j "grow_while w j slen need s" s "[]" "put_all j xs" xs True] g by simp
qed

text \<open>Room for a number of cells in one go.\<close>

lemma writes_reserve_wide:
  assumes "w = 2" "dst j" "good j s" "place s \<noteq> Heap" "dpos s + n \<le> 2 ^ 30"
  shows "writes j (reserve_wide j n s) s [] True \<and>
    (\<forall>s'. reserve_wide j n s = Some (Go s') \<longrightarrow> dpos s' + n \<le> bsize s')"
proof -
  have "u32 (dpos s + n + (if terminate j then 1 else 0)) = dpos s + n + tail j"
    "u32 (u32 (dpos s + n) * 2) = (dpos s + n) * 2"
    using assms(5) by (auto simp: u32_def tail_def)
  then show ?thesis
    using assms by (auto simp: reserve_wide_def writes_def wrote_def good_def short_def tail_def Let_def)
qed

lemma writes_reserve_bytes:
  assumes "w = 1" "dst j" "good j s" "dpos s = 0" "n \<le> 2 ^ 30"
  shows "writes j (reserve_bytes j n s) s [] True \<and>
    (\<forall>s'. reserve_bytes j n s = Some (Go s') \<longrightarrow> n \<le> bsize s')"
proof -
  have "u32 (n + (if terminate j then 1 else 0)) = n + tail j"
    using assms(5) by (auto simp: u32_def tail_def)
  then show ?thesis
    using assms by (auto simp: reserve_bytes_def writes_def wrote_def good_def short_def Let_def)
qed

lemma writes_reserved:
  assumes "writes j m s [] True" "good j s"
    "\<And>s'. m = Some (Go s') \<Longrightarrow> dpos s' + length xs \<le> bsize s'"
  shows "writes j (andthen m (put_all j xs)) s xs True"
  using assms writes_andthen [of j m s "[]" "put_all j xs" xs True]
  by (auto simp: wrote_def intro: writes_put_all)

end

text \<open>Sequences of steps.\<close>

lemma andthen_assoc: "andthen (andthen m f) g = andthen m (\<lambda>s. andthen (f s) g)"
  by (cases m rule: option.exhaust) (auto simp: bind_flow_def split: flow.split)

lemma andthen_Go [simp]: "andthen m (\<lambda>s. Some (Go s)) = m"
  by (cases m) (auto simp: bind_flow_def split: flow.split)

lemma put_all_append: "put_all j (xs @ ys) s = andthen (put_all j xs s) (put_all j ys)"
proof (induction xs arbitrary: s)
  case (Cons x xs)
  then have "put_all j (xs @ ys) = (\<lambda>s. andthen (put_all j xs s) (put_all j ys))" by (rule ext)
  then show ?case by (simp add: andthen_assoc)
qed simp

end
