(* ===== verification/Enc_Streams.thy ===== *)
theory Enc_Streams
  imports Enc_Writes
begin

text \<open>
  The conversions as functions on lists: what each loop of \<^verbatim>\<open>GSToUnicode\<close> and \<^verbatim>\<open>GSFromUnicode\<close>
  writes, and whether it succeeds, without the buffer; and that the loops do write it.
\<close>

unbundle bit_operations_syntax

section \<open>Decoders\<close>

definition code_units :: "nat \<Rightarrow> unichar list" where
  "code_units u =
     (if u < 0x10000 then [u]
      else [((u - 0x10000) div 2 ^ 10 AND 0x3FF) + 0xD800, ((u - 0x10000) AND 0x3FF) + 0xDC00])"

fun utf8_run :: "nat list \<Rightarrow> nat \<Rightarrow> nat \<Rightarrow> unichar list \<times> bool" where
  "utf8_run [] state u = ([], state = UTF8_ACCEPT)"
| "utf8_run (b # bs) state u =
     (let (state', u') = decode state u b in
      if state' \<noteq> 0 then utf8_run bs state' u' else apfst (append (code_units u')) (utf8_run bs state' u'))"

fun utf16_units :: "bool \<Rightarrow> bool \<Rightarrow> nat list \<Rightarrow> unichar list" where
  "utf16_units big swap (a # b # bs) =
     (if swap then GSUnicodeSwap16 (host16 big a b) else host16 big a b) # utf16_units big swap bs"
| "utf16_units big swap _ = []"

fun utf32_units :: "bool \<Rightarrow> bool \<Rightarrow> nat list \<Rightarrow> unichar list" where
  "utf32_units big swap (a # b # c # d # bs) =
     code_units (if swap then GSUnicodeSwap32 (host32 big a b c d) else host32 big a b c d) @ utf32_units big swap bs"
| "utf32_units big swap _ = []"

fun unescaped :: "nat list \<Rightarrow> unichar list" where
  "unescaped (c # cs) =
     (if c = 0x5C then
        (case cs of [] \<Rightarrow> []
         | c # cs \<Rightarrow>
             if c = 0x5C then c # unescaped cs
             else if c = 0x75 then
               (case cs of c1 # c2 # c3 # c4 # cs \<Rightarrow>
                  (((hex_value c1 * 16 + hex_value c2) * 16 + hex_value c3) * 16 + hex_value c4) # unescaped cs
                | _ \<Rightarrow> [])
             else
               (case cs of c1 # c2 # cs \<Rightarrow> (((c - 0x30) * 8 + (c1 - 0x30)) * 8 + (c2 - 0x30)) # unescaped cs
                | _ \<Rightarrow> []))
      else c # unescaped cs)"
| "unescaped [] = []"

definition table_char :: "unichar \<Rightarrow> unichar list \<Rightarrow> nat \<Rightarrow> unichar" where
  "table_char lo tab c = (if c < lo then c else tab ! (c - lo))"

fun gsm_chars :: "nat list \<Rightarrow> unichar list" where
  "gsm_chars [] = []"
| "gsm_chars (c # cs) =
     (if c = 0x1B then
        (case cs of [] \<Rightarrow> []
         | c' # cs' \<Rightarrow>
             (case escape_from GSM0338_escapes c' of
                Some v \<Rightarrow> v # gsm_chars cs'
              | None \<Rightarrow> GSM0338_char_to_uni_table ! c # gsm_chars cs))
      else GSM0338_char_to_uni_table ! c # gsm_chars cs)"

section \<open>Decoder loops\<close>

lemma code_units_length: "length (code_units u) \<le> 2"
  by (simp add: code_units_def)

lemma utf8_run_length: "length (fst (utf8_run bs state u)) \<le> 2 * length bs"
proof (induction bs arbitrary: state u)
  case (Cons b bs)
  then show ?case
    using code_units_length [of "snd (decode state u b)"]
    by (auto simp: case_prod_beta Let_def apfst_def map_prod_def le_SucI intro: order_trans [OF add_mono])
qed simp

lemma utf32_units_length: "length (utf32_units big swap bs) \<le> 2 * length bs"
proof (induction big swap bs rule: utf32_units.induct)
  case (1 big swap a b c d bs)
  then show ?case
    using code_units_length [of "if swap then GSUnicodeSwap32 (host32 big a b c d) else host32 big a b c d"] by simp
qed simp_all

lemma gsm_chars_length: "length (gsm_chars cs) \<le> length cs"
  by (induction cs rule: gsm_chars.induct) (auto split: option.splits list.splits intro: le_SucI)

lemma utf16_loop_put: "utf16_loop j swap bs s = put_all j (utf16_units (words_bigendian j) swap bs) s"
proof (induction j swap bs s rule: utf16_loop.induct)
  case (1 j swap a b bs s)
  then have "bind_flow m (utf16_loop j swap bs) id = bind_flow m (put_all j (utf16_units (words_bigendian j) swap bs)) id" for m
    by (cases m) (auto simp: bind_flow_def split: flow.split)
  then show ?case by (simp add: id_def Let_def)
qed simp_all

lemma ascii_loop_put:
  "ascii_loop j cs s = andthen (put_all j (takeWhile (\<lambda>c. c \<le> 127) cs) s)
     (\<lambda>s. Some (if \<forall>c \<in> set cs. c \<le> 127 then Go s else Fail s))"
proof (induction cs arbitrary: s)
  case (Cons c cs)
  then have "ascii_loop j cs = (\<lambda>s. andthen (put_all j (takeWhile (\<lambda>c. c \<le> 127) cs) s)
     (\<lambda>s. Some (if \<forall>c \<in> set cs. c \<le> 127 then Go s else Fail s)))" by (rule ext)
  then show ?case by (auto simp: andthen_assoc)
qed simp

lemma table_loop_put:
  assumes "\<forall>c \<in> set cs. c < lo + length tab"
  shows "table_loop j lo tab cs s = put_all j (map (table_char lo tab) cs) s"
  using assms
proof (induction cs arbitrary: s)
  case (Cons c cs)
  then have "table_loop j lo tab cs = put_all j (map (table_char lo tab) cs)" by (intro ext) simp
  moreover have "\<not> c < lo \<Longrightarrow> c - lo < length tab" using Cons.prems by auto
  ultimately show ?case by (simp add: table_char_def [of lo tab c] entry_def)
qed simp

text \<open>What begins with a backslash and passes the first pass.\<close>

lemma escaped_countE:
  assumes "escaped_count (c # cs) n \<noteq> None"
  obtains (char) "c \<noteq> 0x5C" "escaped_count cs (n + 1) \<noteq> None"
  | (backslash) cs' where "c = 0x5C" "cs = 0x5C # cs'" "escaped_count cs' (n + 1) \<noteq> None"
  | (octal) a b d cs' where "c = 0x5C" "cs = a # b # d # cs'" "octdigit a" "octdigit b" "octdigit d"
      "escaped_count cs' (n + 1) \<noteq> None"
  | (hex) a b d e cs' where "c = 0x5C" "cs = 0x75 # a # b # d # e # cs'" "isxdigit a" "isxdigit b" "isxdigit d" "isxdigit e"
      "escaped_count cs' (n + 1) \<noteq> None"
proof (cases "c = 0x5C")
  case False
  then show ?thesis using assms char by simp
next
  case True
  then obtain a as where cs: "cs = a # as" using assms by (cases cs) auto
  consider "a = 0x5C" | "octdigit a" | "a = 0x75" | "a \<noteq> 0x5C" "\<not> octdigit a" "a \<noteq> 0x75" by blast
  then show ?thesis
  proof cases
    case 1
    then show ?thesis using assms backslash True cs by simp
  next
    case 2
    then have "a \<noteq> 0x5C" by (auto simp: octdigit_def)
    then show ?thesis
      using assms octal [of a] True cs 2
      by (auto split: if_splits list.splits)
  next
    case 3
    then have "\<not> octdigit a" by (auto simp: octdigit_def)
    then show ?thesis
      using assms hex True cs 3 by (auto split: if_splits list.splits)
  next
    case 4
    then show ?thesis using assms True cs by simp
  qed
qed

lemma unescaped_simps:
  "c \<noteq> 0x5C \<Longrightarrow> unescaped (c # cs) = c # unescaped cs"
  "unescaped (0x5C # 0x5C # cs) = 0x5C # unescaped cs"
  "octdigit a \<Longrightarrow> unescaped (0x5C # a # b # d # cs) = (((a - 0x30) * 8 + (b - 0x30)) * 8 + (d - 0x30)) # unescaped cs"
  "unescaped (0x5C # 0x75 # a # b # d # e # cs) =
     (((hex_value a * 16 + hex_value b) * 16 + hex_value d) * 16 + hex_value e) # unescaped cs"
  by (auto simp: octdigit_def)

lemma escaped_loop_simps:
  "c \<noteq> 0x5C \<Longrightarrow> escaped_loop j (c # cs) s = andthen (put j c s) (escaped_loop j cs)"
  "escaped_loop j (0x5C # 0x5C # cs) s = andthen (put j 0x5C s) (escaped_loop j cs)"
  "octdigit a \<Longrightarrow> escaped_loop j (0x5C # a # b # d # cs) s =
     andthen (put j (((a - 0x30) * 8 + (b - 0x30)) * 8 + (d - 0x30)) s) (escaped_loop j cs)"
  "escaped_loop j (0x5C # 0x75 # a # b # d # e # cs) s =
     andthen (put j (((hex_value a * 16 + hex_value b) * 16 + hex_value d) * 16 + hex_value e) s) (escaped_loop j cs)"
  by (auto simp: octdigit_def)

lemma escaped_count_simps:
  "c \<noteq> 0x5C \<Longrightarrow> escaped_count (c # cs) n = escaped_count cs (n + 1)"
  "escaped_count (0x5C # 0x5C # cs) n = escaped_count cs (n + 1)"
  "octdigit a \<Longrightarrow> octdigit b \<Longrightarrow> octdigit d \<Longrightarrow> escaped_count (0x5C # a # b # d # cs) n = escaped_count cs (n + 1)"
  "isxdigit a \<Longrightarrow> isxdigit b \<Longrightarrow> isxdigit d \<Longrightarrow> isxdigit e \<Longrightarrow>
     escaped_count (0x5C # 0x75 # a # b # d # e # cs) n = escaped_count cs (n + 1)"
  by (auto simp: octdigit_def)

lemma escaped_induct [consumes 1, case_names Nil char backslash octal hex]:
  assumes "escaped_count cs n \<noteq> None"
    and "\<And>n. P [] n"
    and "\<And>c cs n. c \<noteq> 0x5C \<Longrightarrow> escaped_count cs (n + 1) \<noteq> None \<Longrightarrow> P cs (n + 1) \<Longrightarrow> P (c # cs) n"
    and "\<And>cs n. escaped_count cs (n + 1) \<noteq> None \<Longrightarrow> P cs (n + 1) \<Longrightarrow> P (0x5C # 0x5C # cs) n"
    and "\<And>a b d cs n. octdigit a \<Longrightarrow> octdigit b \<Longrightarrow> octdigit d \<Longrightarrow> escaped_count cs (n + 1) \<noteq> None \<Longrightarrow>
      P cs (n + 1) \<Longrightarrow> P (0x5C # a # b # d # cs) n"
    and "\<And>a b d e cs n. isxdigit a \<Longrightarrow> isxdigit b \<Longrightarrow> isxdigit d \<Longrightarrow> isxdigit e \<Longrightarrow>
      escaped_count cs (n + 1) \<noteq> None \<Longrightarrow> P cs (n + 1) \<Longrightarrow> P (0x5C # 0x75 # a # b # d # e # cs) n"
  shows "P cs n"
  using assms(1)
proof (induction "length cs" arbitrary: cs n rule: less_induct)
  case less
  show ?case
  proof (cases cs)
    case (Cons c bs)
    then have "escaped_count (c # bs) n \<noteq> None" using less by simp
    then show ?thesis
    proof (cases rule: escaped_countE)
      case char
      then show ?thesis using less(1) [of bs "n + 1"] assms(3) [of c bs n] Cons by simp
    next
      case (backslash cs')
      then show ?thesis using less(1) [of cs' "n + 1"] assms(4) [of cs' n] Cons by simp
    next
      case (octal a b d cs')
      then show ?thesis using less(1) [of cs' "n + 1"] assms(5) [of a b d cs' n] Cons by simp
    next
      case (hex a b d e cs')
      then show ?thesis using less(1) [of cs' "n + 1"] assms(6) [of a b d e cs' n] Cons by simp
    qed
  qed (use assms(2) in simp)
qed

lemma escaped_loop_put: "escaped_count cs n \<noteq> None \<Longrightarrow> escaped_loop j cs = put_all j (unescaped cs)"
  by (induction rule: escaped_induct; rule ext)
    (simp_all add: escaped_loop_simps unescaped_simps del: unescaped.simps(1) escaped_loop.simps(2))

lemma escaped_count_length:
  "escaped_count cs n \<noteq> None \<Longrightarrow> escaped_count cs n = Some (n + length (unescaped cs)) \<and> length (unescaped cs) \<le> length cs"
  by (induction rule: escaped_induct)
    (simp_all add: escaped_count_simps unescaped_simps del: unescaped.simps(1) escaped_count.simps(2))

context conversion_buffer
begin

lemma writes_put_code:
  assumes "w = 2" "good j s" "dpos s + length (code_units u) \<le> 2 ^ 30"
  shows "writes j (put_code j slen u s) s (code_units u) True"
proof (cases "u < 0x10000")
  case True
  then have "dpos s < 2 ^ 30" using assms(3) by (simp add: code_units_def)
  then show ?thesis using True writes_put_grow [OF assms(2), of u] assms(1) by (simp add: put_code_def code_units_def)
next
  case False
  let ?h = "((u - 0x10000) div 2 ^ 10 AND 0x3FF) + 0xD800" and ?l = "((u - 0x10000) AND 0x3FF) + 0xDC00"
  have "dpos s + 2 \<le> 2 ^ 30" using assms(3) False by (simp add: code_units_def)
  then have "writes j (andthen (put_grow w j slen ?h s) (put_grow w j slen ?l)) s ([?h] @ [?l]) True"
    using assms(2) by (intro writes_andthen writes_put_grow) (auto simp: wrote_def)
  then show ?thesis using False assms(1) by (simp add: put_code_def code_units_def Let_def)
qed

lemma writes_utf8_loop:
  assumes "w = 2" "good j s" "dpos s + 2 * length bs \<le> 2 ^ 30"
  shows "writes j (utf8_loop j slen bs state u s) s (fst (utf8_run bs state u)) (snd (utf8_run bs state u))"
  using assms(2,3)
proof (induction bs arbitrary: state u s)
  case Nil
  then show ?case by (simp add: writes_nothing)
next
  case (Cons b bs)
  obtain state' u' where d: "decode state u b = (state', u')" by fastforce
  show ?case
  proof (cases "state' = 0")
    case False
    then show ?thesis using Cons d by simp
  next
    case True
    have "writes j (andthen (put_code j slen u' s) (utf8_loop j slen bs state' u')) s
      (code_units u' @ fst (utf8_run bs state' u')) (snd (utf8_run bs state' u'))"
    proof (rule writes_andthen)
      show "writes j (put_code j slen u' s) s (code_units u') True"
        using assms(1) Cons.prems code_units_length [of u'] by (intro writes_put_code) auto
      show "writes j (utf8_loop j slen bs state' u' s') s' (fst (utf8_run bs state' u')) (snd (utf8_run bs state' u'))"
        if "wrote j s (code_units u') s'" for s'
        using that Cons.prems code_units_length [of u'] by (intro Cons.IH) (auto simp: wrote_def)
    qed
    then show ?thesis using d True by (simp add: apfst_def map_prod_def case_prod_beta)
  qed
qed

lemma writes_utf32_loop:
  assumes "w = 2" "good j s" "dpos s + 2 * length bs \<le> 2 ^ 30"
  shows "writes j (utf32_loop j slen swap bs s) s (utf32_units (words_bigendian j) swap bs) True"
  using assms(2,3)
proof (induction "words_bigendian j" swap bs arbitrary: s rule: utf32_units.induct)
  case (1 swap a b c d bs)
  let ?u = "if swap then GSUnicodeSwap32 (host32 (words_bigendian j) a b c d) else host32 (words_bigendian j) a b c d"
  have "writes j (andthen (put_code j slen ?u s) (utf32_loop j slen swap bs)) s
    (code_units ?u @ utf32_units (words_bigendian j) swap bs) True"
    using 1 assms(1) code_units_length [of ?u] by (intro writes_andthen writes_put_code) (auto simp: wrote_def)
  then show ?case by (simp add: Let_def)
qed (simp_all add: writes_nothing)

lemma writes_gsm_loop:
  assumes "w = 2" "good j s" "dpos s + length cs \<le> 2 ^ 30"
    "\<forall>c \<in> set cs. c < 128" "cs = [] \<or> last cs \<noteq> 0x1B"
  shows "writes j (gsm_loop j slen cs s) s (gsm_chars cs) True"
  using assms(2-)
proof (induction cs arbitrary: s rule: gsm_chars.induct)
  case (2 c cs)
  have step: "writes j (andthen (ensure w j slen s) (\<lambda>s. andthen (put j x s) f)) s ([] @ ([x] @ xs)) True"
    if "\<And>s'. wrote j s [x] s' \<Longrightarrow> writes j (f s') s' xs True" for x f xs
  proof (rule writes_andthen)
    show "writes j (ensure w j slen s) s [] True" using writes_ensure [of s] 2 by auto
    fix s' assume s': "ensure w j slen s = Some (Go s')" "wrote j s [] s'"
    then show "writes j (andthen (put j x s') f) s' ([x] @ xs) True"
      using writes_ensure [of s] 2 that wrote_trans [OF s'(2), of "[x]"]
      by (intro writes_andthen writes_put) (auto simp: wrote_def)
  qed
  have e: "entry GSM0338_char_to_uni_table c = Some (GSM0338_char_to_uni_table ! c)"
    using 2 by (simp add: entry_def GSM0338_char_to_uni_table_def)
  show ?case
  proof (cases "c = 0x1B")
    case False
    then show ?thesis
      using 2 step [of "GSM0338_char_to_uni_table ! c" "gsm_loop j slen cs" "gsm_chars cs"] assms(1) e
      by (auto simp: wrote_def split: if_splits)
  next
    case True
    then obtain c' cs' where cs: "cs = c' # cs'" using "2.prems" by (cases cs) auto
    show ?thesis
    proof (cases "escape_from GSM0338_escapes c'")
      case None
      then show ?thesis
        using 2 step [of "GSM0338_char_to_uni_table ! c" "gsm_loop j slen cs" "gsm_chars cs"] assms(1) e cs True
        by (auto simp: wrote_def)
    next
      case (Some v)
      then show ?thesis
        using 2 step [of v "gsm_loop j slen cs'" "gsm_chars cs'"] assms(1) e cs True
        by (auto simp: wrote_def split: if_splits)
    qed
  qed
qed (simp add: writes_nothing)

end

end
