(* ===== verification/Enc_Streams_Out.thy ===== *)
theory Enc_Streams_Out
  imports Enc_Streams
begin

text \<open>
  The loops of \<^verbatim>\<open>GSFromUnicode\<close> as functions on lists. Each gives a list of bytes for every character
  or code point it can convert; what it cannot ends a strict conversion and is replaced otherwise.
\<close>

unbundle bit_operations_syntax

section \<open>Encoders\<close>

definition emitted :: "bool \<Rightarrow> 'a list \<Rightarrow> 'a list option list \<Rightarrow> 'a list \<times> bool" where
  "emitted is_strict d xs =
     (if is_strict then (concat (map the (takeWhile (\<lambda>x. x \<noteq> None) xs)), None \<notin> set xs)
      else (concat (map (case_option d id) xs), True))"

lemma emitted_simps [simp]:
  "emitted b d [] = ([], True)"
  "emitted b d (Some x # xs) = (x @ fst (emitted b d xs), snd (emitted b d xs))"
  "emitted b d (None # xs) = (if b then ([], False) else (d @ fst (emitted b d xs), snd (emitted b d xs)))"
  by (auto simp: emitted_def)

text \<open>The code points of a 16-bit string, \<open>None\<close> for a surrogate without its partner.\<close>

fun points :: "unichar list \<Rightarrow> nat option list" where
  "points [] = []"
| "points (c # cs) =
     (if low_surrogate c then None # points cs
      else if high_surrogate c then
        (case cs of [] \<Rightarrow> [None]
         | c' # cs' \<Rightarrow> if low_surrogate c' then Some (surrogates c c') # points cs' else None # points cs)
      else Some c # points cs)"

definition utf8_point :: "nat \<Rightarrow> nat list" where
  "utf8_point u = (if u \<le> 0x7F then [u] else utf8_bytes u)"

definition utf8_stream :: "bool \<Rightarrow> unichar list \<Rightarrow> nat list \<times> bool" where
  "utf8_stream is_strict cs = emitted is_strict (utf8_point 0xFFFD) (map (map_option utf8_point) (points cs))"

text \<open>UTF-32 keeps surrogates that have no partner.\<close>

fun joined :: "unichar list \<Rightarrow> nat list" where
  "joined [] = []"
| "joined [c] = [c]"
| "joined (c # c' # cs) =
     (if high_surrogate c \<and> low_surrogate c' then surrogates c c' # joined cs else c # joined (c' # cs))"

definition utf32_bytes :: "bool \<Rightarrow> bool \<Rightarrow> nat \<Rightarrow> nat list" where
  "utf32_bytes big other_order u = store32 big (if other_order then GSUnicodeSwap32 u else u)"

definition base_bytes :: "unichar \<Rightarrow> unichar \<Rightarrow> nat list option" where
  "base_bytes lo u = (if u < lo then Some [u] else None)"

definition charset_bytes :: "charset \<Rightarrow> unichar \<Rightarrow> nat list option" where
  "charset_bytes k u =
     (if u < base k then Some [u]
      else case lookup_byte u (table k) (tsize k) of
        Some (Some b) \<Rightarrow> Some [b]
      | _ \<Rightarrow> (case lookup_byte u (etable k) (etsize k) of
          Some (Some b) \<Rightarrow> Some [escape k, b]
        | _ \<Rightarrow> (case lookup_byte u (ltable k) (ltsize k) of
            Some (Some b) \<Rightarrow> Some [b]
          | _ \<Rightarrow> None)))"

text \<open>No search for the character runs over the end of a table.\<close>

definition searchable :: "charset \<Rightarrow> unichar \<Rightarrow> bool" where
  "searchable k u \<longleftrightarrow> u < base k \<or>
     (lookup_byte u (table k) (tsize k) \<noteq> None \<and> lookup_byte u (etable k) (etsize k) \<noteq> None \<and>
      lookup_byte u (ltable k) (ltsize k) \<noteq> None)"

section \<open>Encoder loops\<close>

lemma utf8_reversed_length [simp]: "length (utf8_reversed n u) = n"
  by (induction n arbitrary: u) auto

lemma utf8_bytes_length: "length (utf8_bytes u) = utf8_length u"
  by (simp add: utf8_bytes_def Let_def utf8_length_def)

lemma utf8_point_length: "length (utf8_point u) \<le> 6"
  by (simp add: utf8_point_def utf8_bytes_length utf8_length_def)

lemma base_encode_put:
  "base_encode j lo swapped src s =
     andthen (put_all j (fst (emitted (strict j) [0x3F] (map (\<lambda>c. base_bytes lo (unswapped swapped c)) src))) s)
       (\<lambda>s. Some (if snd (emitted (strict j) [0x3F] (map (\<lambda>c. base_bytes lo (unswapped swapped c)) src)) then Go s else Fail s))"
proof (induction src arbitrary: s)
  case (Cons c src)
  then have "base_encode j lo swapped src =
    (\<lambda>s. andthen (put_all j (fst (emitted (strict j) [0x3F] (map (\<lambda>c. base_bytes lo (unswapped swapped c)) src))) s)
       (\<lambda>s. Some (if snd (emitted (strict j) [0x3F] (map (\<lambda>c. base_bytes lo (unswapped swapped c)) src)) then Go s else Fail s)))"
    by (rule ext)
  then show ?case by (simp add: base_bytes_def [of lo "unswapped swapped c"] andthen_assoc Let_def)
qed simp

lemma base_bytes_length: "length (fst (emitted b [0x3F] (map (\<lambda>c. base_bytes lo (f c)) src))) \<le> length src"
  by (induction src) (auto simp: base_bytes_def)

lemma escaped_encode_put: "escaped_encode j swapped src s = put_all j (concat (map (\<lambda>c. escaped_bytes (unswapped swapped c)) src)) s"
proof (induction src arbitrary: s)
  case (Cons c src)
  then have "escaped_encode j swapped src = put_all j (concat (map (\<lambda>c. escaped_bytes (unswapped swapped c)) src))" by (rule ext)
  then show ?case by (simp add: put_all_append)
qed simp

lemma escaped_bytes_length: "length (escaped_bytes u) \<le> escaped_length swapped u" "escaped_length swapped u \<le> 12"
  by (simp_all add: escaped_bytes_def escaped_length_def)

lemma escaped_lengths:
  "length (concat (map (\<lambda>c. escaped_bytes (unswapped swapped c)) src)) \<le> sum_list (map (\<lambda>c. escaped_length swapped (unswapped swapped c)) src)"
  "sum_list (map (\<lambda>c. escaped_length swapped (unswapped swapped c)) src) \<le> 12 * length src"
proof (induction src)
  case (Cons c src)
  case 1
  show ?case using Cons.IH(1) escaped_bytes_length(1) [of "unswapped swapped c" swapped] by simp
  case 2
  show ?case using Cons.IH(2) escaped_bytes_length(2) [of swapped "unswapped swapped c"] by simp
qed simp_all

context conversion_buffer
begin

lemma writes_put_utf8:
  assumes "w = 1" "good j s" "dpos s + 6 \<le> 2 ^ 30"
  shows "writes j (put_utf8 j slen u s) s (utf8_bytes u) True"
proof -
  have l: "utf8_length u \<le> 6" by (simp add: utf8_length_def)
  then have "u32 (dpos s + utf8_length u) = dpos s + utf8_length u" using assms(3) by (simp add: u32_def)
  then show ?thesis
    using writes_grow_put_all [OF assms(2), of "utf8_bytes u" "\<lambda>s. bsize s \<le> u32 (dpos s + utf8_length u)"] assms(1,3) l
    by (simp add: put_utf8_def utf8_bytes_length)
qed

lemma writes_utf8_encode:
  assumes "w = 1" "good j s" "dpos s + 6 * length src \<le> 2 ^ 30"
  shows "writes j (utf8_encode j slen swapped src s) s (fst (utf8_stream (strict j) (map (unswapped swapped) src)))
    (snd (utf8_stream (strict j) (map (unswapped swapped) src)))"
  using assms(2,3)
proof (induction "length src" arbitrary: src s rule: less_induct)
  case less
  let ?st = "\<lambda>src. emitted (strict j) (utf8_point 0xFFFD) (map (map_option utf8_point) (points (map (unswapped swapped) src)))"
  have IH: "writes j (andthen m (utf8_encode j slen swapped src')) s (x @ fst (?st src')) (snd (?st src'))"
    if "length src' < length src" "writes j m s x True" "length x \<le> 6" for src' m x
    using that less.prems
    by (intro writes_andthen less.hyps [unfolded utf8_stream_def]) (auto simp: wrote_def)
  show ?case
  proof (cases src)
    case Nil
    then show ?thesis using less.prems by (simp add: writes_nothing utf8_stream_def)
  next
    case (Cons c rest)
    define u1 where "u1 = unswapped swapped c"
    have d: "dpos s + 6 \<le> 2 ^ 30" using less.prems Cons by simp
    have point: "writes j (put_utf8 j slen u s) s (utf8_point u) True" if "0x7F < u" for u
      using writes_put_utf8 [OF assms(1) less.prems(1) d, of u] that by (simp add: utf8_point_def)
    have low: "writes j (put_grow 1 j slen u1 s) s (utf8_point u1) True" if "u1 \<le> 0x7F"
      using writes_put_grow [OF less.prems(1), of u1] d assms(1) that by (simp add: utf8_point_def)
    have Fail: "writes j (Some (Fail s)) s [] False" using less.prems by (simp add: writes_nothing)
    consider "u1 \<le> 0x7F" | "low_surrogate u1" | "high_surrogate u1" | "0x7F < u1" "\<not> low_surrogate u1" "\<not> high_surrogate u1"
      by linarith
    then show ?thesis
    proof cases
      case 1
      then show ?thesis using IH [OF _ low utf8_point_length, of rest] Cons
        by (simp add: utf8_stream_def u1_def Let_def)
    next
      case 2
      then show ?thesis using IH [OF _ point [of "0xFFFD"] utf8_point_length, of rest] Fail Cons
        by (cases "strict j") (simp_all add: utf8_stream_def u1_def [symmetric] Let_def)
    next
      case 3
      show ?thesis
      proof (cases rest)
        case Nil
        then show ?thesis using 3 IH [OF _ point [of "0xFFFD"] utf8_point_length, of rest] Fail Cons
          by (cases "strict j") (simp_all add: utf8_stream_def u1_def [symmetric] Let_def)
      next
        case (Cons c' rest')
        define u2 where "u2 = unswapped swapped c'"
        have big: "0x7F < surrogates u1 u2" by (simp add: surrogates_def)
        show ?thesis
        proof (cases "low_surrogate u2")
          case True
          then show ?thesis using 3 IH [OF _ point [OF big] utf8_point_length, of rest'] \<open>src = c # rest\<close> Cons
            by (cases "strict j") (simp_all add: utf8_stream_def u1_def [symmetric] u2_def [symmetric] Let_def)
        next
          case False
          have "points (map (unswapped swapped) src) = None # points (map (unswapped swapped) rest)"
            using 3 False \<open>src = c # rest\<close> Cons by (auto simp: u1_def u2_def)
          moreover have "utf8_encode j slen swapped src s =
            (if strict j then Some (Fail s) else andthen (put_utf8 j slen 0xFFFD s) (utf8_encode j slen swapped rest))"
            using 3 False \<open>src = c # rest\<close> Cons by (auto simp: u1_def u2_def Let_def)
          ultimately show ?thesis using IH [OF _ point [of "0xFFFD"] utf8_point_length, of rest] Fail \<open>src = c # rest\<close>
            by (cases "strict j") (simp_all add: utf8_stream_def del: points.simps utf8_encode.simps)
        qed
      qed
    next
      case 4
      then have "points (map (unswapped swapped) src) = Some u1 # points (map (unswapped swapped) rest)"
        "utf8_encode j slen swapped src s = andthen (put_utf8 j slen u1 s) (utf8_encode j slen swapped rest)"
        using Cons by (auto simp: u1_def Let_def)
      then show ?thesis using IH [OF _ point utf8_point_length, of rest u1] 4 Cons
        by (simp add: utf8_stream_def del: points.simps utf8_encode.simps)
    qed
  qed
qed

lemma writes_base_encode:
  assumes "good j s" "dpos s + length src \<le> bsize s"
  shows "writes j (base_encode j lo swapped src s) s (fst (emitted (strict j) [0x3F] (map (\<lambda>c. base_bytes lo (unswapped swapped c)) src)))
    (snd (emitted (strict j) [0x3F] (map (\<lambda>c. base_bytes lo (unswapped swapped c)) src)))"
    (is "writes j _ s (fst ?e) (snd ?e)")
proof -
  have "writes j (put_all j (fst ?e) s) s (fst ?e) True"
    using assms base_bytes_length [of "strict j" lo "unswapped swapped" src] by (intro writes_put_all) auto
  moreover have "writes j (Some (if snd ?e then Go s' else Fail s')) s' [] (snd ?e)" if "wrote j s (fst ?e) s'" for s'
    using that by (cases "snd ?e") (auto simp: wrote_def writes_nothing)
  ultimately have "writes j (andthen (put_all j (fst ?e) s) (\<lambda>s. Some (if snd ?e then Go s else Fail s))) s (fst ?e @ []) (snd ?e)"
    by (rule writes_andthen)
  then show ?thesis by (simp only: base_encode_put append_Nil2)
qed

lemma writes_table_encode:
  assumes "w = 1" "good j s" "dpos s + 2 * length src \<le> 2 ^ 30" "\<forall>c \<in> set src. searchable k (unswapped swapped c)"
  shows "writes j (table_encode j slen k swapped src s) s
    (fst (emitted (strict j) [0x3F] (map (\<lambda>c. charset_bytes k (unswapped swapped c)) src)))
    (snd (emitted (strict j) [0x3F] (map (\<lambda>c. charset_bytes k (unswapped swapped c)) src)))"
  using assms(2-)
proof (induction src arbitrary: s)
  case Nil
  then show ?case by (simp add: writes_nothing)
next
  case (Cons c src)
  define u where "u = unswapped swapped c"
  define e where "e = emitted (strict j) [0x3F] (map (\<lambda>c. charset_bytes k (unswapped swapped c)) src)"
  have next': "writes j (andthen m (table_encode j slen k swapped src)) s' (x @ fst e) (snd e)"
    if "wrote j s [] s'" "writes j m s' x True" "length x \<le> 2" for m s' x
    unfolding e_def using that Cons.prems by (intro writes_andthen Cons.IH) (auto simp: wrote_def)
  have one: "writes j (andthen (put j b s') (table_encode j slen k swapped src)) s' (b # fst e) (snd e)"
    if "wrote j s [] s'" "dpos s' < bsize s'" for b s'
    using next' [OF that(1), of "put j b s'" "[b]"] that writes_put [of s' b] by (auto simp: wrote_def)
  have two: "writes j (andthen (andthen (put j a s') (put_grow 1 j slen b)) (table_encode j slen k swapped src)) s' (a # b # fst e) (snd e)"
    if "wrote j s [] s'" "dpos s' < bsize s'" for a b s'
  proof -
    have "writes j (andthen (put j a s') (put_grow w j slen b)) s' ([a] @ [b]) True"
      using that Cons.prems by (intro writes_andthen writes_put writes_put_grow) (auto simp: wrote_def)
    then show ?thesis using next' [OF that(1), of _ "[a, b]"] assms(1) by simp
  qed
  have sb: "searchable k u" using Cons.prems by (simp add: u_def)
  have body: "writes j (if u < base k then andthen (put j u s') (table_encode j slen k swapped src)
        else case lookup_byte u (table k) (tsize k) of
          None \<Rightarrow> Some Fault
        | Some (Some b) \<Rightarrow> andthen (put j b s') (table_encode j slen k swapped src)
        | Some None \<Rightarrow>
          (case lookup_byte u (etable k) (etsize k) of
             None \<Rightarrow> Some Fault
           | Some (Some b) \<Rightarrow>
               andthen (andthen (put j (escape k) s') (put_grow 1 j slen b)) (table_encode j slen k swapped src)
           | Some None \<Rightarrow>
             (case lookup_byte u (ltable k) (ltsize k) of
                None \<Rightarrow> Some Fault
              | Some (Some b) \<Rightarrow> andthen (put j b s') (table_encode j slen k swapped src)
              | Some None \<Rightarrow>
                  if \<not> strict j then andthen (put j 0x3F s') (table_encode j slen k swapped src)
                  else Some (Fail s'))))
     s' (fst (emitted (strict j) [0x3F] (charset_bytes k u # map (\<lambda>c. charset_bytes k (unswapped swapped c)) src)))
     (snd (emitted (strict j) [0x3F] (charset_bytes k u # map (\<lambda>c. charset_bytes k (unswapped swapped c)) src)))"
    if s': "wrote j s [] s'" "dpos s' < bsize s'" for s'
  proof -
    have "writes j (Some (Fail s')) s' [] False" using s' by (simp add: wrote_def writes_nothing)
    then show ?thesis
      using sb one [OF s'] two [OF s']
      by (cases "strict j") (auto simp: charset_bytes_def searchable_def e_def split: option.splits)
  qed
  have "writes j (ensure w j slen s) s [] True \<and> (\<forall>s'. ensure w j slen s = Some (Go s') \<longrightarrow> dpos s' < bsize s')"
    using Cons.prems by (intro writes_ensure) auto
  then show ?case
    using writes_andthen [OF _ body, of "ensure w j slen s" s "[]"] assms(1)
    by (simp add: u_def [symmetric] Let_def)
qed

lemma writes_escaped:
  assumes "w = 1" "dst j" "good j s" "dpos s = 0" "length src \<le> 2 ^ 26"
  shows "writes j (encode_escaped j swapped src s) s (concat (map (\<lambda>c. escaped_bytes (unswapped swapped c)) src)) True"
proof -
  let ?n = "sum_list (map (\<lambda>c. escaped_length swapped (unswapped swapped c)) src)"
  have n: "?n \<le> 2 ^ 30" "u32 ?n = ?n"
    using escaped_lengths(2) [of swapped src] assms(5) by (auto simp: u32_def)
  have r: "writes j (reserve_bytes j ?n s) s [] True \<and> (\<forall>s'. reserve_bytes j ?n s = Some (Go s') \<longrightarrow> ?n \<le> bsize s')"
    using assms n by (intro writes_reserve_bytes) auto
  have "writes j (andthen (reserve_bytes j ?n s) (put_all j (concat (map (\<lambda>c. escaped_bytes (unswapped swapped c)) src)))) s
    ([] @ concat (map (\<lambda>c. escaped_bytes (unswapped swapped c)) src)) True"
  proof (rule writes_andthen)
    fix s' assume "reserve_bytes j ?n s = Some (Go s')" "wrote j s [] s'"
    then show "writes j (put_all j (concat (map (\<lambda>c. escaped_bytes (unswapped swapped c)) src)) s') s'
        (concat (map (\<lambda>c. escaped_bytes (unswapped swapped c)) src)) True"
      using r assms escaped_lengths(1) [of swapped src] by (intro writes_put_all) (auto simp: wrote_def)
  qed (use r in blast)
  moreover have "escaped_encode j swapped src = put_all j (concat (map (\<lambda>c. escaped_bytes (unswapped swapped c)) src))"
    by (rule ext) (rule escaped_encode_put)
  ultimately show ?thesis using assms n by (simp add: encode_escaped_def)
qed

lemma writes_base:
  assumes "w = 1" "dst j" "good j s" "dpos s = 0" "length src \<le> 2 ^ 26"
  shows "writes j (encode_base j lo swapped src s) s (fst (emitted (strict j) [0x3F] (map (\<lambda>c. base_bytes lo (unswapped swapped c)) src)))
    (snd (emitted (strict j) [0x3F] (map (\<lambda>c. base_bytes lo (unswapped swapped c)) src)))"
    (is "writes j _ s (fst ?e) (snd ?e)")
proof -
  have r: "writes j (reserve_bytes j (length src) s) s [] True \<and>
    (\<forall>s'. reserve_bytes j (length src) s = Some (Go s') \<longrightarrow> length src \<le> bsize s')"
    using assms by (intro writes_reserve_bytes) auto
  have "writes j (andthen (reserve_bytes j (length src) s) (base_encode j lo swapped src)) s ([] @ fst ?e) (snd ?e)"
    using r assms(4) by (intro writes_andthen writes_base_encode) (auto simp: wrote_def)
  then show ?thesis using assms by (simp add: encode_base_def)
qed

lemma writes_utf16:
  assumes "w = 1" "dst j" "good j s" "dpos s = 0" "cells s = []" "length src \<le> 2 ^ 26"
  shows "writes j (encode_utf16 j other_order swapped src s) s
    (concat (map (\<lambda>u. store16 (words_bigendian j) (unswapped (swapped \<noteq> other_order) u)) src)) True"
    (is "writes j _ s ?xs True")
proof -
  let ?n = "length src * 2"
  have n: "u32 ?n = ?n" "?n \<le> 2 ^ 30" using assms(6) by (auto simp: u32_def)
  have len: "length (concat (map (\<lambda>u. store16 b (f u)) src)) = ?n" for b f
    by (induction src) (auto simp: store16_def)
  have "writes j (reserve_bytes j ?n s) s [] True \<and> (\<forall>s'. reserve_bytes j ?n s = Some (Go s') \<longrightarrow> ?n \<le> bsize s')"
    using assms n by (intro writes_reserve_bytes) auto
  then have r: "writes j (reserve_bytes j ?n s) s [] True" "reserve_bytes j ?n s = Some (Go s') \<Longrightarrow> ?n \<le> bsize s'" for s'
    by auto
  define F where "F s' = andthen (if swapped \<noteq> other_order
        then write_at j (dpos s') (concat (map (\<lambda>u. store16 (words_bigendian j) (GSUnicodeSwap16 u)) src)) s'
        else write_at j 0 (take ?n (concat (map (store16 (words_bigendian j)) src))) s')
      (\<lambda>s. Some (Go (s\<lparr>dpos := u32 (dpos s + ?n)\<rparr>)))" for s'
  have "writes j (F s') s' ?xs True" if "wrote j s [] s'" "?n \<le> bsize s'" for s'
    using that assms len [of "words_bigendian j" GSUnicodeSwap16] len [of "words_bigendian j" "\<lambda>u. u"] n
    by (cases "swapped = other_order") (auto simp: F_def write_at_def writes_def wrote_def good_def unswapped_def)
  then have "writes j (andthen (reserve_bytes j ?n s) F) s ([] @ ?xs) True"
    using r by (intro writes_andthen) auto
  moreover have "encode_utf16 j other_order swapped src s = andthen (reserve_bytes j ?n s) F"
    using assms(2) n by (cases other_order; cases swapped) (auto simp: encode_utf16_def Let_def andthen_assoc F_def [abs_def])
  ultimately show ?thesis by simp
qed

lemma writes_utf32:
  assumes "w = 1" "good j s" "dpos s + 4 * length src \<le> 2 ^ 30"
  shows "writes j (utf32_encode j slen other_order swapped src s) s
    (concat (map (utf32_bytes (words_bigendian j) other_order) (joined (map (unswapped swapped) src)))) True"
  using assms(2,3)
proof (induction "length src" arbitrary: src s rule: less_induct)
  case less
  show ?case
  proof (cases src)
    case Nil
    then show ?thesis using less.prems by (simp add: writes_nothing)
  next
    case (Cons c rest)
    define u1 where "u1 = unswapped swapped c"
    define pair where "pair \<longleftrightarrow> high_surrogate u1 \<and> rest \<noteq> [] \<and> low_surrogate (unswapped swapped (hd rest))"
    define u where "u = (if pair then surrogates u1 (unswapped swapped (hd rest)) else u1)"
    define rest' where "rest' = (if pair then tl rest else rest)"
    let ?b = "utf32_bytes (words_bigendian j) other_order u"
    let ?need = "\<lambda>s :: nat conv. bsize s < u32 (dpos s + 4)"
    have "joined (map (unswapped swapped) src) = u # joined (map (unswapped swapped) rest')"
      unfolding Cons u_def rest'_def pair_def u1_def by (cases rest) simp_all
    moreover have "utf32_encode j slen other_order swapped src s =
        andthen (andthen (grow_while w j slen ?need s) (put_all j ?b)) (utf32_encode j slen other_order swapped rest')"
      by (simp add: Cons assms(1) Let_def u_def rest'_def pair_def u1_def utf32_bytes_def)
    moreover have "writes j (andthen (andthen (grow_while w j slen ?need s) (put_all j ?b)) (utf32_encode j slen other_order swapped rest')) s
      (?b @ concat (map (utf32_bytes (words_bigendian j) other_order) (joined (map (unswapped swapped) rest')))) True"
    proof (rule writes_andthen)
      have b: "length ?b = 4" by (simp add: utf32_bytes_def store32_def Let_def)
      have "u32 (dpos s + 4) = dpos s + 4" using less.prems Cons by (simp add: u32_def)
      then show "writes j (andthen (grow_while w j slen ?need s) (put_all j ?b)) s ?b True"
        using less.prems Cons b by (intro writes_grow_put_all) auto
      fix s' assume "wrote j s ?b s'"
      moreover have "length rest' \<le> length rest" by (simp add: rest'_def)
      ultimately show "writes j (utf32_encode j slen other_order swapped rest' s') s'
          (concat (map (utf32_bytes (words_bigendian j) other_order) (joined (map (unswapped swapped) rest')))) True"
        using less.prems Cons b by (intro less.hyps) (auto simp: wrote_def)
    qed
    ultimately show ?thesis by (simp del: utf32_encode.simps joined.simps)
  qed
qed

end

end
