(* ===== verification/Enc_Results.thy ===== *)
theory Enc_Results
  imports Enc_Streams_Out
begin

text \<open>
  The results of whole conversions: with enough memory the caller is given what the
  lists of \<open>Enc_Streams\<close> and \<open>Enc_Streams_Out\<close> say, and in any case nothing outside of the buffers is touched.
\<close>

section \<open>After the loops\<close>

definition delivers :: "job \<Rightarrow> 'a \<Rightarrow> 'a conversion flow option \<Rightarrow> 'a list \<Rightarrow> bool" where
  "delivers j z m xs \<longleftrightarrow>
     (case m of Some (Go c) \<Rightarrow>
        ok c \<and> size_out c = length xs \<and>
        (target c = Held (xs @ (if terminate j then [z] else [])) \<or> target c = Fresh (xs @ (if terminate j then [z] else [])))
      | _ \<Rightarrow> False)"

definition refuses :: "'a conversion flow option \<Rightarrow> bool" where
  "refuses m \<longleftrightarrow> (case m of Some (Go c) \<Rightarrow> \<not> ok c | _ \<Rightarrow> False)"

text \<open>The conversion returns and has not left its buffers.\<close>

definition safe :: "'a conversion flow option \<Rightarrow> bool" where
  "safe m \<longleftrightarrow> (case m of Some (Go c) \<Rightarrow> True | _ \<Rightarrow> False)"

definition answers :: "job \<Rightarrow> 'a \<Rightarrow> 'a conversion flow option \<Rightarrow> 'a list \<Rightarrow> bool \<Rightarrow> bool" where
  "answers j z m xs r \<longleftrightarrow> safe m \<and> (dst j \<and> \<not> short j \<longrightarrow> (if r then delivers j z m xs else refuses m))"

context conversion_buffer
begin

lemma finish_good:
  assumes "good j s" "dpos s \<le> 2 ^ 30" "ended \<longrightarrow> terminate j"
  shows "safe (finish w z ended j r s)"
    "dst j \<Longrightarrow> ended = terminate j \<Longrightarrow> \<not> short j \<Longrightarrow> r \<Longrightarrow> delivers j z (finish w z ended j r s) (cells s)"
    "\<not> r \<Longrightarrow> refuses (finish w z ended j r s)"
proof -
  have room: "dpos s + tail j \<le> room s" using assms(1) by (auto simp: good_def)
  then show "safe (finish w z ended j r s)"
    using assms(3) by (auto simp: safe_def finish_def Let_def tail_def)
  show "refuses (finish w z ended j r s)" if "\<not> r"
    using that room assms(3) by (auto simp: refuses_def finish_def Let_def tail_def)
  assume h: "dst j" "ended = terminate j" "\<not> short j" r
  have bytes: "u32 (dpos s * w + (if terminate j then w else 0)) div w = dpos s + tail j"
    using width assms(2) by (auto simp: u32_def tail_def)
  show "delivers j z (finish w z ended j r s) (cells s)"
    using h room assms(1) unfolding finish_def Let_def bytes
    by (cases "place s") (auto simp: delivers_def short_def tail_def good_def)
qed

lemma conclude_writes:
  assumes "writes j m s xs r" "good j s" "dpos s = 0" "dst j \<longrightarrow> cells s = []" "length xs \<le> 2 ^ 30"
    "ended = (terminate j \<and> (b \<or> dst j))"
  shows "answers j z (conclude w z ended j m) xs r"
proof (cases m)
  case None
  then show ?thesis using assms(1) by (simp add: writes_def)
next
  case (Some k)
  have prefix_length: "length p \<le> 2 ^ 30" if "prefix p xs" for p
    using prefix_length_le [OF that] assms(5) by simp
  show ?thesis
  proof (cases k)
    case (Go s')
    then have "r" "good j s'" "dpos s' = length xs" "dst j \<longrightarrow> cells s' = xs"
      using Some assms by (auto simp: writes_def wrote_def)
    then show ?thesis
      using Some Go finish_good [of s' ended] assms(5,6) by (auto simp: conclude_def answers_def)
  next
    case (Fail s')
    then obtain p where p: "good j s'" "prefix p xs" "dpos s' = dpos s + length p" "r \<longrightarrow> short j"
      using assms(1) Some by (auto simp: writes_def wrote_def)
    then have "dpos s' \<le> 2 ^ 30" using prefix_length [OF p(2)] assms(3) by simp
    with p show ?thesis
      using Some Fail finish_good(1) [of s' ended z False] finish_good(3) [of s' ended False z] assms(6) by (auto simp: conclude_def answers_def)
  qed (use Some assms(1) in \<open>auto simp: writes_def conclude_def answers_def safe_def\<close>)
qed

end

section \<open>Decoding\<close>

text \<open>The bytes a table of the encoding has entries for.\<close>

definition readable :: "NSStringEncoding \<Rightarrow> nat list \<Rightarrow> bool" where
  "readable enc src \<longleftrightarrow> (\<forall>b \<in> set src. b < 256) \<and>
     (enc = NSNEXTSTEPStringEncoding \<longrightarrow> (\<forall>b \<in> set src. b < 0xFE)) \<and>
     (enc = NSGSM0338StringEncoding \<longrightarrow> (\<forall>b \<in> set src. b < 128) \<and> (src = [] \<or> last src \<noteq> 0x1B))"

definition decoded :: "bool \<Rightarrow> NSStringEncoding \<Rightarrow> nat list \<Rightarrow> unichar list \<times> bool" where
  "decoded big enc src =
     (case enc of
        NSUTF8StringEncoding \<Rightarrow> utf8_run src 0 0
      | NSUTF16BigEndianStringEncoding \<Rightarrow> (utf16_units big (\<not> big) src, True)
      | NSUTF16LittleEndianStringEncoding \<Rightarrow> (utf16_units big big src, True)
      | NSUTF32StringEncoding \<Rightarrow> (utf32_units big False src, True)
      | NSUTF32BigEndianStringEncoding \<Rightarrow> (utf32_units big (\<not> big) src, True)
      | NSUTF32LittleEndianStringEncoding \<Rightarrow> (utf32_units big big src, True)
      | NSNonLossyASCIIStringEncoding \<Rightarrow> (if escaped_count src 0 = None then ([], False) else (unescaped src, True))
      | NSASCIIStringEncoding \<Rightarrow> (takeWhile (\<lambda>c. c \<le> 127) src, \<forall>c \<in> set src. c \<le> 127)
      | NSISOLatin1StringEncoding \<Rightarrow> (src, True)
      | NSNEXTSTEPStringEncoding \<Rightarrow> (map (table_char Next_conv_base Next_char_to_uni_table) src, True)
      | NSISOCyrillicStringEncoding \<Rightarrow> (map (table_char Cyrillic_conv_base Cyrillic_char_to_uni_table) src, True)
      | NSISOLatin2StringEncoding \<Rightarrow> (map (table_char Latin2_conv_base Latin2_char_to_uni_table) src, True)
      | NSISOLatin9StringEncoding \<Rightarrow> (map (table_char Latin9_conv_base Latin9_char_to_uni_table) src, True)
      | NSISOThaiStringEncoding \<Rightarrow> (map (table_char Thai_conv_base Thai_char_to_uni_table) src, True)
      | NSGSM0338StringEncoding \<Rightarrow> (gsm_chars src, True)
      | NSUTF16StringEncoding \<Rightarrow> ([], False)
      | NSOtherStringEncoding n \<Rightarrow> ([], False))"

lemma utf16_units_length: "length (utf16_units big swap bs) = length bs div 2"
  by (induction big swap bs rule: utf16_units.induct) auto

lemma decoded_length: "length (fst (decoded big enc src)) \<le> 2 * length src"
  using utf8_run_length [of src 0 0] utf32_units_length [of _ _ src] gsm_chars_length [of src]
    escaped_count_length [of src 0] length_takeWhile_le [of "\<lambda>c. c \<le> 127" src]
  by (auto simp: decoded_def utf16_units_length split: NSStringEncoding.split intro: order_trans)

context conversion_buffer
begin

text \<open>The encodings for which room is made in one go. \<open>xs\<close> is what is written.\<close>

lemma writes_wide:
  assumes "w = 2" "dst j" "good j s" "place s \<noteq> Heap" "dpos s + n \<le> 2 ^ 30" "length xs \<le> n"
    "\<And>s. f s = andthen (put_all j xs s) (\<lambda>s. Some (if r then Go s else Fail s))"
  shows "writes j (andthen (reserve_wide j n s) f) s xs r"
proof -
  have "writes j (andthen (reserve_wide j n s) (\<lambda>s. andthen (put_all j xs s) (\<lambda>s. Some (if r then Go s else Fail s)))) s
    ([] @ (xs @ [])) r"
  proof (rule writes_andthen)
    show "writes j (reserve_wide j n s) s [] True" using writes_reserve_wide assms by blast
    fix s' assume "reserve_wide j n s = Some (Go s')" "wrote j s [] s'"
    then have s': "good j s'" "dpos s' + length xs \<le> bsize s'"
      using writes_reserve_wide [OF assms(1-5)] assms(6) by (auto simp: wrote_def)
    show "writes j (andthen (put_all j xs s') (\<lambda>s. Some (if r then Go s else Fail s))) s' (xs @ []) r"
      using writes_put_all [OF s'] by (rule writes_andthen) (auto simp: wrote_def writes_nothing)
  qed
  moreover have "f = (\<lambda>s. andthen (put_all j xs s) (\<lambda>s. Some (if r then Go s else Fail s)))"
    using assms(7) by (rule ext)
  ultimately show ?thesis by simp
qed

lemma writes_decode_table:
  assumes "w = 2" "dst j" "good j s" "place s \<noteq> Heap" "dpos s + length src \<le> 2 ^ 30" "\<forall>c \<in> set src. c < lo + length tab"
  shows "writes j (decode_table j lo tab src s) s (map (table_char lo tab) src) True"
  using writes_wide [OF assms(1-5), of "map (table_char lo tab) src" "table_loop j lo tab src" True] assms
  by (simp add: decode_table_def table_loop_put)

lemma writes_decode_bytes:
  assumes "w = 2" "dst j" "good j s" "place s \<noteq> Heap" "dpos s + 2 * length src \<le> 2 ^ 30" "slen = length src" "readable enc src"
  shows "writes j (decode_bytes j enc src s) s (fst (decoded (words_bigendian j) enc src)) (snd (decoded (words_bigendian j) enc src))"
proof -
  note wide = writes_wide [OF assms(1-4)]
  note tables = writes_decode_table [OF assms(1-4), of src]
  have less: "b \<in> set src \<Longrightarrow> b < 256" for b using assms(7) by (simp add: readable_def)
  show ?thesis
  proof (cases enc)
    case NSNonLossyASCIIStringEncoding
    show ?thesis
    proof (cases "escaped_count src 0")
      case None
      then show ?thesis
        using NSNonLossyASCIIStringEncoding assms by (simp add: decode_bytes_def decoded_def writes_nothing)
    next
      case (Some n)
      then have "n = length (unescaped src)" "length (unescaped src) \<le> length src"
        using escaped_count_length [of src 0] by auto
      then show ?thesis
        using Some NSNonLossyASCIIStringEncoding assms wide [of n "unescaped src" "escaped_loop j src" True]
        by (simp add: decode_bytes_def decoded_def escaped_loop_put [of src 0])
    qed
  next
    case NSASCIIStringEncoding
    then show ?thesis
      using wide [OF _ _ ascii_loop_put, of "length src" src] assms length_takeWhile_le [of "\<lambda>c. c \<le> 127" src]
      by (simp add: decode_bytes_def decoded_def)
  next
    case NSISOLatin1StringEncoding
    then show ?thesis
      using wide [of "length src" src "put_all j src" True] assms by (simp add: decode_bytes_def decoded_def)
  next
    case NSUTF16BigEndianStringEncoding
    then show ?thesis
      using wide [of "length src div 2" "utf16_units (words_bigendian j) (\<not> words_bigendian j) src" "utf16_loop j (\<not> words_bigendian j) src" True] assms
      by (simp add: decode_bytes_def decoded_def utf16_units_length utf16_loop_put)
  next
    case NSUTF16LittleEndianStringEncoding
    then show ?thesis
      using wide [of "length src div 2" "utf16_units (words_bigendian j) (words_bigendian j) src" "utf16_loop j (words_bigendian j) src" True] assms
      by (simp add: decode_bytes_def decoded_def utf16_units_length utf16_loop_put)
  next
    case NSUTF8StringEncoding
    then show ?thesis using assms writes_utf8_loop [of s src 0 0] by (simp add: decode_bytes_def decoded_def)
  next
    case NSGSM0338StringEncoding
    then show ?thesis using assms writes_gsm_loop [of s src] by (simp add: decode_bytes_def decoded_def readable_def)
  qed (use assms less tables writes_utf32_loop [of s src] in
    \<open>auto simp: decode_bytes_def decoded_def writes_nothing readable_def Next_conv_base_def Next_char_to_uni_table_def
       Cyrillic_conv_base_def Cyrillic_char_to_uni_table_def Latin2_conv_base_def Latin2_char_to_uni_table_def
       Latin9_conv_base_def Latin9_char_to_uni_table_def Thai_conv_base_def Thai_char_to_uni_table_def\<close>)
qed

end

end
