(* ===== verification/Enc_Charsets.thy ===== *)
theory Enc_Charsets
  imports Enc_Tables Table_Checks
begin

text \<open>
  What the tables of the 8-bit encodings are like: the pairs are in ascending order of the characters,
  and the two tables of an encoding agree.
\<close>

section \<open>Characters of bytes\<close>

definition Latin2_of :: "nat \<Rightarrow> unichar" where
  "Latin2_of b =
    (if b < 0xC0 then (if b < 0xA0 then b else (if b < 0xB0 then (if b < 0xA8 then (if b < 0xA4 then (if
    b < 0xA2 then (if b < 0xA1 then 0x00A0 else 0x0104) else (if b < 0xA3 then 0x02D8 else 0x0141)) else
    (if b < 0xA6 then (if b < 0xA5 then 0x00A4 else 0x013D) else (if b < 0xA7 then 0x015A else 0x00A7)))
    else (if b < 0xAC then (if b < 0xAA then (if b < 0xA9 then 0x00A8 else 0x0160) else (if b < 0xAB then
    0x015E else 0x0164)) else (if b < 0xAE then (if b < 0xAD then 0x0179 else 0x00AD) else (if b < 0xAF
    then 0x017D else 0x017B)))) else (if b < 0xB8 then (if b < 0xB4 then (if b < 0xB2 then (if b < 0xB1
    then 0x00B0 else 0x0105) else (if b < 0xB3 then 0x02DB else 0x0142)) else (if b < 0xB6 then (if b <
    0xB5 then 0x00B4 else 0x013E) else (if b < 0xB7 then 0x015B else 0x02C7))) else (if b < 0xBC then (if
    b < 0xBA then (if b < 0xB9 then 0x00B8 else 0x0161) else (if b < 0xBB then 0x015F else 0x0165)) else
    (if b < 0xBE then (if b < 0xBD then 0x017A else 0x02DD) else (if b < 0xBF then 0x017E else
    0x017C)))))) else (if b < 0xE0 then (if b < 0xD0 then (if b < 0xC8 then (if b < 0xC4 then (if b <
    0xC2 then (if b < 0xC1 then 0x0154 else 0x00C1) else (if b < 0xC3 then 0x00C2 else 0x0102)) else (if
    b < 0xC6 then (if b < 0xC5 then 0x00C4 else 0x0139) else (if b < 0xC7 then 0x0106 else 0x00C7))) else
    (if b < 0xCC then (if b < 0xCA then (if b < 0xC9 then 0x010C else 0x00C9) else (if b < 0xCB then
    0x0118 else 0x00CB)) else (if b < 0xCE then (if b < 0xCD then 0x011A else 0x00CD) else (if b < 0xCF
    then 0x00CE else 0x010E)))) else (if b < 0xD8 then (if b < 0xD4 then (if b < 0xD2 then (if b < 0xD1
    then 0x0110 else 0x0143) else (if b < 0xD3 then 0x0147 else 0x00D3)) else (if b < 0xD6 then (if b <
    0xD5 then 0x00D4 else 0x0150) else b)) else (if b < 0xDC then (if b < 0xDA then (if b < 0xD9 then
    0x0158 else 0x016E) else (if b < 0xDB then 0x00DA else 0x0170)) else (if b < 0xDE then b else (if b <
    0xDF then 0x0162 else 0x00DF))))) else (if b < 0xF0 then (if b < 0xE8 then (if b < 0xE4 then (if b <
    0xE2 then (if b < 0xE1 then 0x0155 else 0x00E1) else (if b < 0xE3 then 0x00E2 else 0x0103)) else (if
    b < 0xE6 then (if b < 0xE5 then 0x00E4 else 0x013A) else (if b < 0xE7 then 0x0107 else 0x00E7))) else
    (if b < 0xEC then (if b < 0xEA then (if b < 0xE9 then 0x010D else 0x00E9) else (if b < 0xEB then
    0x0119 else 0x00EB)) else (if b < 0xEE then (if b < 0xED then 0x011B else 0x00ED) else (if b < 0xEF
    then 0x00EE else 0x010F)))) else (if b < 0xF8 then (if b < 0xF4 then (if b < 0xF2 then (if b < 0xF1
    then 0x0111 else 0x0144) else (if b < 0xF3 then 0x0148 else 0x00F3)) else (if b < 0xF6 then (if b <
    0xF5 then 0x00F4 else 0x0151) else b)) else (if b < 0xFC then (if b < 0xFA then (if b < 0xF9 then
    0x0159 else 0x016F) else (if b < 0xFB then 0x00FA else 0x0171)) else (if b < 0xFE then b else (if b <
    0xFF then 0x0163 else 0x02D9)))))))"

lemma Latin2_fits: "fits Latin2_of 0x80 Latin2_char_to_uni_table" "length Latin2_char_to_uni_table = 128"
  by (simp_all add: Latin2_char_to_uni_table_def Latin2_of_def fits_steps del: fits.simps(2))

definition Latin9_of :: "nat \<Rightarrow> unichar" where
  "Latin9_of b =
    (if b < 0xC0 then (if b < 0xA0 then b else (if b < 0xB0 then (if b < 0xA8 then (if b < 0xA4 then b
    else (if b < 0xA6 then (if b < 0xA5 then 0x20AC else 0x00A5) else (if b < 0xA7 then 0x0160 else
    0x00A7))) else (if b < 0xAC then (if b < 0xAA then (if b < 0xA9 then 0x0161 else 0x00A9) else b) else
    b)) else (if b < 0xB8 then (if b < 0xB4 then b else (if b < 0xB6 then (if b < 0xB5 then 0x017D else
    0x00B5) else b)) else (if b < 0xBC then (if b < 0xBA then (if b < 0xB9 then 0x017E else 0x00B9) else
    b) else (if b < 0xBE then (if b < 0xBD then 0x0152 else 0x0153) else (if b < 0xBF then 0x0178 else
    0x00BF)))))) else b)"

lemma Latin9_fits: "fits Latin9_of 0x80 Latin9_char_to_uni_table" "length Latin9_char_to_uni_table = 128"
  by (simp_all add: Latin9_char_to_uni_table_def Latin9_of_def fits_steps del: fits.simps(2))

definition Cyrillic_of :: "nat \<Rightarrow> unichar" where
  "Cyrillic_of b =
    (if b < 0xC0 then (if b < 0xA0 then b else (if b < 0xB0 then (if b < 0xA8 then (if b < 0xA4 then (if
    b < 0xA2 then (if b < 0xA1 then 0x00A0 else 0x0401) else (if b < 0xA3 then 0x0402 else 0x0403)) else
    (if b < 0xA6 then (if b < 0xA5 then 0x0404 else 0x0405) else (if b < 0xA7 then 0x0406 else 0x0407)))
    else (if b < 0xAC then (if b < 0xAA then (if b < 0xA9 then 0x0408 else 0x0409) else (if b < 0xAB then
    0x040A else 0x040B)) else (if b < 0xAE then (if b < 0xAD then 0x040C else 0x00AD) else (if b < 0xAF
    then 0x040E else 0x040F)))) else (if b < 0xB8 then (if b < 0xB4 then (if b < 0xB2 then (if b < 0xB1
    then 0x0410 else 0x0411) else (if b < 0xB3 then 0x0412 else 0x0413)) else (if b < 0xB6 then (if b <
    0xB5 then 0x0414 else 0x0415) else (if b < 0xB7 then 0x0416 else 0x0417))) else (if b < 0xBC then (if
    b < 0xBA then (if b < 0xB9 then 0x0418 else 0x0419) else (if b < 0xBB then 0x041A else 0x041B)) else
    (if b < 0xBE then (if b < 0xBD then 0x041C else 0x041D) else (if b < 0xBF then 0x041E else
    0x041F)))))) else (if b < 0xE0 then (if b < 0xD0 then (if b < 0xC8 then (if b < 0xC4 then (if b <
    0xC2 then (if b < 0xC1 then 0x0420 else 0x0421) else (if b < 0xC3 then 0x0422 else 0x0423)) else (if
    b < 0xC6 then (if b < 0xC5 then 0x0424 else 0x0425) else (if b < 0xC7 then 0x0426 else 0x0427))) else
    (if b < 0xCC then (if b < 0xCA then (if b < 0xC9 then 0x0428 else 0x0429) else (if b < 0xCB then
    0x042A else 0x042B)) else (if b < 0xCE then (if b < 0xCD then 0x042C else 0x042D) else (if b < 0xCF
    then 0x042E else 0x042F)))) else (if b < 0xD8 then (if b < 0xD4 then (if b < 0xD2 then (if b < 0xD1
    then 0x0430 else 0x0431) else (if b < 0xD3 then 0x0432 else 0x0433)) else (if b < 0xD6 then (if b <
    0xD5 then 0x0434 else 0x0435) else (if b < 0xD7 then 0x0436 else 0x0437))) else (if b < 0xDC then (if
    b < 0xDA then (if b < 0xD9 then 0x0438 else 0x0439) else (if b < 0xDB then 0x043A else 0x043B)) else
    (if b < 0xDE then (if b < 0xDD then 0x043C else 0x043D) else (if b < 0xDF then 0x043E else
    0x043F))))) else (if b < 0xF0 then (if b < 0xE8 then (if b < 0xE4 then (if b < 0xE2 then (if b < 0xE1
    then 0x0440 else 0x0441) else (if b < 0xE3 then 0x0442 else 0x0443)) else (if b < 0xE6 then (if b <
    0xE5 then 0x0444 else 0x0445) else (if b < 0xE7 then 0x0446 else 0x0447))) else (if b < 0xEC then (if
    b < 0xEA then (if b < 0xE9 then 0x0448 else 0x0449) else (if b < 0xEB then 0x044A else 0x044B)) else
    (if b < 0xEE then (if b < 0xED then 0x044C else 0x044D) else (if b < 0xEF then 0x044E else 0x044F))))
    else (if b < 0xF8 then (if b < 0xF4 then (if b < 0xF2 then (if b < 0xF1 then 0x2116 else 0x0451) else
    (if b < 0xF3 then 0x0452 else 0x0453)) else (if b < 0xF6 then (if b < 0xF5 then 0x0454 else 0x0455)
    else (if b < 0xF7 then 0x0456 else 0x0457))) else (if b < 0xFC then (if b < 0xFA then (if b < 0xF9
    then 0x0458 else 0x0459) else (if b < 0xFB then 0x045A else 0x045B)) else (if b < 0xFE then (if b <
    0xFD then 0x045C else 0x00A7) else (if b < 0xFF then 0x045E else 0x045F)))))))"

lemma Cyrillic_fits: "fits Cyrillic_of 0x80 Cyrillic_char_to_uni_table" "length Cyrillic_char_to_uni_table = 128"
  by (simp_all add: Cyrillic_char_to_uni_table_def Cyrillic_of_def fits_steps del: fits.simps(2))

definition Next_of :: "nat \<Rightarrow> unichar" where
  "Next_of b =
    (if b < 0xBF then (if b < 0x9F then (if b < 0x8F then (if b < 0x87 then (if b < 0x83 then (if b <
    0x81 then 0x00A0 else (if b < 0x82 then 0x00C0 else 0x00C1)) else (if b < 0x85 then (if b < 0x84 then
    0x00C2 else 0x00C3) else (if b < 0x86 then 0x00C4 else 0x00C5))) else (if b < 0x8B then (if b < 0x89
    then (if b < 0x88 then 0x00C7 else 0x00C8) else (if b < 0x8A then 0x00C9 else 0x00CA)) else (if b <
    0x8D then (if b < 0x8C then 0x00CB else 0x00CC) else (if b < 0x8E then 0x00CD else 0x00CE)))) else
    (if b < 0x97 then (if b < 0x93 then (if b < 0x91 then (if b < 0x90 then 0x00CF else 0x00D0) else (if
    b < 0x92 then 0x00D1 else 0x00D2)) else (if b < 0x95 then (if b < 0x94 then 0x00D3 else 0x00D4) else
    (if b < 0x96 then 0x00D5 else 0x00D6))) else (if b < 0x9B then (if b < 0x99 then (if b < 0x98 then
    0x00D9 else 0x00DA) else (if b < 0x9A then 0x00DB else 0x00DC)) else (if b < 0x9D then (if b < 0x9C
    then 0x00DD else 0x00DE) else (if b < 0x9E then 0x00B5 else 0x00D7))))) else (if b < 0xAF then (if b
    < 0xA7 then (if b < 0xA3 then (if b < 0xA1 then (if b < 0xA0 then 0x00F7 else 0x00A9) else b) else
    (if b < 0xA5 then (if b < 0xA4 then 0x00A3 else 0x2044) else (if b < 0xA6 then 0x00A5 else 0x0192)))
    else (if b < 0xAB then (if b < 0xA9 then (if b < 0xA8 then 0x00A7 else 0x00A4) else (if b < 0xAA then
    0xFBA9 else 0x201C)) else (if b < 0xAD then (if b < 0xAC then 0x00AB else 0xFBAC) else (if b < 0xAE
    then 0xFBAD else 0xFB01)))) else (if b < 0xB7 then (if b < 0xB3 then (if b < 0xB1 then (if b < 0xB0
    then 0xFB02 else 0x00AE) else (if b < 0xB2 then 0x2013 else 0x2020)) else (if b < 0xB5 then (if b <
    0xB4 then 0x2021 else 0x00B7) else (if b < 0xB6 then 0x00A6 else 0x00B6))) else (if b < 0xBB then (if
    b < 0xB9 then (if b < 0xB8 then 0x2022 else 0xFBB8) else (if b < 0xBA then 0xFBB9 else 0x201D)) else
    (if b < 0xBD then (if b < 0xBC then 0x00BB else 0x2026) else (if b < 0xBE then 0x2030 else
    0x00AC)))))) else (if b < 0xDE then (if b < 0xCE then (if b < 0xC6 then (if b < 0xC2 then (if b <
    0xC0 then 0x00BF else (if b < 0xC1 then 0x00B9 else 0x02CB)) else (if b < 0xC4 then (if b < 0xC3 then
    0x00B4 else 0x02C6) else (if b < 0xC5 then 0x02DC else 0x00AF))) else (if b < 0xCA then (if b < 0xC8
    then (if b < 0xC7 then 0x02D8 else 0x02D9) else (if b < 0xC9 then 0x00A8 else 0x00B2)) else (if b <
    0xCC then (if b < 0xCB then 0x02DA else 0x00B8) else (if b < 0xCD then 0x00B3 else 0x02DD)))) else
    (if b < 0xD6 then (if b < 0xD2 then (if b < 0xD0 then (if b < 0xCF then 0x02DB else 0x02C7) else (if
    b < 0xD1 then 0x2014 else 0x00B1)) else (if b < 0xD4 then (if b < 0xD3 then 0x00BC else 0x00BD) else
    (if b < 0xD5 then 0x00BE else 0x00E0))) else (if b < 0xDA then (if b < 0xD8 then (if b < 0xD7 then
    0x00E1 else 0x00E2) else (if b < 0xD9 then 0x00E3 else 0x00E4)) else (if b < 0xDC then (if b < 0xDB
    then 0x00E5 else 0x00E7) else (if b < 0xDD then 0x00E8 else 0x00E9))))) else (if b < 0xEE then (if b
    < 0xE6 then (if b < 0xE2 then (if b < 0xE0 then (if b < 0xDF then 0x00EA else 0x00EB) else (if b <
    0xE1 then 0x00EC else 0x00C6)) else (if b < 0xE4 then (if b < 0xE3 then 0x00ED else 0x00AA) else (if
    b < 0xE5 then 0x00EE else 0x00EF))) else (if b < 0xEA then (if b < 0xE8 then (if b < 0xE7 then 0x00F0
    else 0x00F1) else (if b < 0xE9 then 0x0141 else 0x00D8)) else (if b < 0xEC then (if b < 0xEB then
    0x0152 else 0x00BA) else (if b < 0xED then 0x00F2 else 0x00F3)))) else (if b < 0xF6 then (if b < 0xF2
    then (if b < 0xF0 then (if b < 0xEF then 0x00F4 else 0x00F5) else (if b < 0xF1 then 0x00F6 else
    0x00E6)) else (if b < 0xF4 then (if b < 0xF3 then 0x00F9 else 0x00FA) else (if b < 0xF5 then 0x00FB
    else 0x0131))) else (if b < 0xFA then (if b < 0xF8 then (if b < 0xF7 then 0x00FC else 0x00FD) else
    (if b < 0xF9 then 0x0142 else 0x00F8)) else (if b < 0xFC then (if b < 0xFB then 0x0153 else 0x00DF)
    else (if b < 0xFD then 0x00FE else 0x00FF)))))))"

lemma Next_fits: "fits Next_of 0x80 Next_char_to_uni_table" "length Next_char_to_uni_table = 126"
  by (simp_all add: Next_char_to_uni_table_def Next_of_def fits_steps del: fits.simps(2))

definition Thai_of :: "nat \<Rightarrow> unichar" where
  "Thai_of b =
    (if b < 0xD0 then (if b < 0xB8 then (if b < 0xAC then (if b < 0xA6 then (if b < 0xA3 then (if b <
    0xA1 then 0x00A0 else (if b < 0xA2 then 0x0E01 else 0x0E02)) else (if b < 0xA4 then 0x0E03 else (if b
    < 0xA5 then 0x0E04 else 0x0E05))) else (if b < 0xA9 then (if b < 0xA7 then 0x0E06 else (if b < 0xA8
    then 0x0E07 else 0x0E08)) else (if b < 0xAA then 0x0E09 else (if b < 0xAB then 0x0E0A else 0x0E0B))))
    else (if b < 0xB2 then (if b < 0xAF then (if b < 0xAD then 0x0E0C else (if b < 0xAE then 0x0E0D else
    0x0E0E)) else (if b < 0xB0 then 0x0E0F else (if b < 0xB1 then 0x0E10 else 0x0E11))) else (if b < 0xB5
    then (if b < 0xB3 then 0x0E12 else (if b < 0xB4 then 0x0E13 else 0x0E14)) else (if b < 0xB6 then
    0x0E15 else (if b < 0xB7 then 0x0E16 else 0x0E17))))) else (if b < 0xC4 then (if b < 0xBE then (if b
    < 0xBB then (if b < 0xB9 then 0x0E18 else (if b < 0xBA then 0x0E19 else 0x0E1A)) else (if b < 0xBC
    then 0x0E1B else (if b < 0xBD then 0x0E1C else 0x0E1D))) else (if b < 0xC1 then (if b < 0xBF then
    0x0E1E else (if b < 0xC0 then 0x0E1F else 0x0E20)) else (if b < 0xC2 then 0x0E21 else (if b < 0xC3
    then 0x0E22 else 0x0E23)))) else (if b < 0xCA then (if b < 0xC7 then (if b < 0xC5 then 0x0E24 else
    (if b < 0xC6 then 0x0E25 else 0x0E26)) else (if b < 0xC8 then 0x0E27 else (if b < 0xC9 then 0x0E28
    else 0x0E29))) else (if b < 0xCD then (if b < 0xCB then 0x0E2A else (if b < 0xCC then 0x0E2B else
    0x0E2C)) else (if b < 0xCE then 0x0E2D else (if b < 0xCF then 0x0E2E else 0x0E2F)))))) else (if b <
    0xE8 then (if b < 0xDC then (if b < 0xD6 then (if b < 0xD3 then (if b < 0xD1 then 0x0E30 else (if b <
    0xD2 then 0x0E31 else 0x0E32)) else (if b < 0xD4 then 0x0E33 else (if b < 0xD5 then 0x0E34 else
    0x0E35))) else (if b < 0xD9 then (if b < 0xD7 then 0x0E36 else (if b < 0xD8 then 0x0E37 else 0x0E38))
    else (if b < 0xDA then 0x0E39 else (if b < 0xDB then 0x0E3A else 0xFFFD)))) else (if b < 0xE2 then
    (if b < 0xDF then (if b < 0xDD then 0xFFFD else (if b < 0xDE then 0xFFFD else 0xFFFD)) else (if b <
    0xE0 then 0x0E3F else (if b < 0xE1 then 0x0E40 else 0x0E41))) else (if b < 0xE5 then (if b < 0xE3
    then 0x0E42 else (if b < 0xE4 then 0x0E43 else 0x0E44)) else (if b < 0xE6 then 0x0E45 else (if b <
    0xE7 then 0x0E46 else 0x0E47))))) else (if b < 0xF4 then (if b < 0xEE then (if b < 0xEB then (if b <
    0xE9 then 0x0E48 else (if b < 0xEA then 0x0E49 else 0x0E4A)) else (if b < 0xEC then 0x0E4B else (if b
    < 0xED then 0x0E4C else 0x0E4D))) else (if b < 0xF1 then (if b < 0xEF then 0x0E4E else (if b < 0xF0
    then 0x0E4F else 0x2116)) else (if b < 0xF2 then 0x0E51 else (if b < 0xF3 then 0x0E52 else 0x0E53))))
    else (if b < 0xFA then (if b < 0xF7 then (if b < 0xF5 then 0x0E54 else (if b < 0xF6 then 0x0E55 else
    0x0E56)) else (if b < 0xF8 then 0x0E57 else (if b < 0xF9 then 0x0E58 else 0x0E59))) else (if b < 0xFD
    then (if b < 0xFB then 0x0E5A else (if b < 0xFC then 0x0E5B else 0xFFFD)) else (if b < 0xFE then
    0xFFFD else (if b < 0xFF then 0xFFFD else 0xFFFD)))))))"

lemma Thai_fits: "fits Thai_of 0xA0 Thai_char_to_uni_table" "length Thai_char_to_uni_table = 96"
  by (simp_all add: Thai_char_to_uni_table_def Thai_of_def fits_steps del: fits.simps(2))

definition GSM0338_of :: "nat \<Rightarrow> unichar" where
  "GSM0338_of b =
    (if b < 0x40 then (if b < 0x20 then (if b < 0x10 then (if b < 0x08 then (if b < 0x04 then (if b <
    0x02 then (if b < 0x01 then 0x0040 else 0x00A3) else (if b < 0x03 then 0x0024 else 0x00A5)) else (if
    b < 0x06 then (if b < 0x05 then 0x00E8 else 0x00E9) else (if b < 0x07 then 0x00F9 else 0x00EC))) else
    (if b < 0x0C then (if b < 0x0A then (if b < 0x09 then 0x00F2 else 0x00C7) else (if b < 0x0B then
    0x000A else 0x00D8)) else (if b < 0x0E then (if b < 0x0D then 0x00F8 else 0x000D) else (if b < 0x0F
    then 0x00C5 else 0x00E5)))) else (if b < 0x18 then (if b < 0x14 then (if b < 0x12 then (if b < 0x11
    then 0x0394 else 0x005F) else (if b < 0x13 then 0x03A6 else 0x0393)) else (if b < 0x16 then (if b <
    0x15 then 0x039B else 0x03A9) else (if b < 0x17 then 0x03A0 else 0x03A8))) else (if b < 0x1C then (if
    b < 0x1A then (if b < 0x19 then 0x03A3 else 0x0398) else (if b < 0x1B then 0x039E else 0x00A0)) else
    (if b < 0x1E then (if b < 0x1D then 0x00C6 else 0x00E6) else (if b < 0x1F then 0x00DF else
    0x00C9))))) else (if b < 0x30 then (if b < 0x28 then (if b < 0x24 then b else (if b < 0x26 then (if b
    < 0x25 then 0x00A4 else 0x0025) else b)) else b) else b)) else (if b < 0x60 then (if b < 0x50 then
    (if b < 0x48 then (if b < 0x44 then (if b < 0x42 then (if b < 0x41 then 0x00A1 else 0x0041) else b)
    else b) else b) else (if b < 0x58 then b else (if b < 0x5C then (if b < 0x5A then b else (if b < 0x5B
    then 0x005A else 0x00C4)) else (if b < 0x5E then (if b < 0x5D then 0x00D6 else 0x00D1) else (if b <
    0x5F then 0x00DC else 0x00A7))))) else (if b < 0x70 then (if b < 0x68 then (if b < 0x64 then (if b <
    0x62 then (if b < 0x61 then 0x00BF else 0x0061) else b) else b) else b) else (if b < 0x78 then b else
    (if b < 0x7C then (if b < 0x7A then b else (if b < 0x7B then 0x007A else 0x00E4)) else (if b < 0x7E
    then (if b < 0x7D then 0x00F6 else 0x00F1) else (if b < 0x7F then 0x00FC else 0x00E0)))))))"

lemma GSM0338_fits: "fits GSM0338_of 0x00 GSM0338_char_to_uni_table" "length GSM0338_char_to_uni_table = 128"
  by (simp_all add: GSM0338_char_to_uni_table_def GSM0338_of_def fits_steps del: fits.simps(2))

section \<open>Order\<close>

lemma Latin2_uni_to_char_table_ascending: "ascending_in 0x0000 0xFFFF Latin2_uni_to_char_table" "length Latin2_uni_to_char_table = 128"
  by (simp_all add: Latin2_uni_to_char_table_def)

lemma Latin9_uni_to_char_table_ascending: "ascending_in 0x0000 0xFFFF Latin9_uni_to_char_table" "length Latin9_uni_to_char_table = 128"
  by (simp_all add: Latin9_uni_to_char_table_def)

lemma Cyrillic_uni_to_char_table_ascending: "ascending_in 0x0000 0xFFFF Cyrillic_uni_to_char_table" "length Cyrillic_uni_to_char_table = 128"
  by (simp_all add: Cyrillic_uni_to_char_table_def)

lemma Next_uni_to_char_table_ascending: "ascending_in 0x0000 0xFFFF Next_uni_to_char_table" "length Next_uni_to_char_table = 121"
  by (simp_all add: Next_uni_to_char_table_def)

lemma Thai_uni_to_char_table_ascending: "ascending_in 0x0000 0xFFFF Thai_uni_to_char_table" "length Thai_uni_to_char_table = 88"
  by (simp_all add: Thai_uni_to_char_table_def)

lemma GSM0338_uni_to_char_table_ascending: "ascending_in 0x0000 0xFFFF GSM0338_uni_to_char_table" "length GSM0338_uni_to_char_table = 128"
  by (simp_all add: GSM0338_uni_to_char_table_def)

lemma GSM0338_escapes_ascending: "ascending_in 0x0000 0xFFFF GSM0338_escapes" "length GSM0338_escapes = 10"
  by (simp_all add: GSM0338_escapes_def)

lemma GSM0338_lossy_1_ascending: "ascending_in 0x0000 0x0145 GSM0338_lossy_1" "length GSM0338_lossy_1 = 120"
  by (simp_all add: GSM0338_lossy_1_def)

lemma GSM0338_lossy_2_ascending: "ascending_in 0x0145 0x01D3 GSM0338_lossy_2" "length GSM0338_lossy_2 = 120"
  by (simp_all add: GSM0338_lossy_2_def)

lemma GSM0338_lossy_3_ascending: "ascending_in 0x01D3 0x026F GSM0338_lossy_3" "length GSM0338_lossy_3 = 120"
  by (simp_all add: GSM0338_lossy_3_def)

lemma GSM0338_lossy_4_ascending: "ascending_in 0x026F 0x1D3C GSM0338_lossy_4" "length GSM0338_lossy_4 = 120"
  by (simp_all add: GSM0338_lossy_4_def)

lemma GSM0338_lossy_5_ascending: "ascending_in 0x1D3C 0x1E57 GSM0338_lossy_5" "length GSM0338_lossy_5 = 120"
  by (simp_all add: GSM0338_lossy_5_def)

lemma GSM0338_lossy_6_ascending: "ascending_in 0x1E57 0x1ED3 GSM0338_lossy_6" "length GSM0338_lossy_6 = 120"
  by (simp_all add: GSM0338_lossy_6_def)

lemma GSM0338_lossy_7_ascending: "ascending_in 0x1ED3 0xFFFF GSM0338_lossy_7" "length GSM0338_lossy_7 = 118"
  by (simp_all add: GSM0338_lossy_7_def)

lemma GSM0338_lossy_ascending: "ascending_in 0 0xFFFF GSM0338_lossy" "length GSM0338_lossy = 838"
  unfolding GSM0338_lossy_def by (rule GSM0338_lossy_1_ascending(1) GSM0338_lossy_2_ascending(1) GSM0338_lossy_3_ascending(1) GSM0338_lossy_4_ascending(1) GSM0338_lossy_5_ascending(1) GSM0338_lossy_6_ascending(1) GSM0338_lossy_7_ascending(1) ascending_in_append)+ (simp add: GSM0338_lossy_1_ascending(2) GSM0338_lossy_2_ascending(2) GSM0338_lossy_3_ascending(2) GSM0338_lossy_4_ascending(2) GSM0338_lossy_5_ascending(2) GSM0338_lossy_6_ascending(2) GSM0338_lossy_7_ascending(2))

section \<open>Agreement of the tables\<close>

text \<open>A pair is read back: its byte stands for its character.\<close>

definition read_back :: "(nat \<Rightarrow> unichar) \<Rightarrow> nat \<Rightarrow> nat \<Rightarrow> ucc \<Rightarrow> bool" where
  "read_back f lo n = (\<lambda>(u, b). lo \<le> b \<and> b < lo + n \<and> f b = u)"

lemma Latin2_read_back: "list_all (read_back Latin2_of 0x80 128) Latin2_uni_to_char_table"
  by (simp add: read_back_def Latin2_uni_to_char_table_def Latin2_of_def)

lemma Latin9_read_back: "list_all (read_back Latin9_of 0x80 128) Latin9_uni_to_char_table"
  by (simp add: read_back_def Latin9_uni_to_char_table_def Latin9_of_def)

lemma Cyrillic_read_back: "list_all (read_back Cyrillic_of 0x80 128) Cyrillic_uni_to_char_table"
  by (simp add: read_back_def Cyrillic_uni_to_char_table_def Cyrillic_of_def)

lemma Next_read_back: "list_all (read_back Next_of 0x80 126) Next_uni_to_char_table"
  by (simp add: read_back_def Next_uni_to_char_table_def Next_of_def)

lemma Thai_read_back: "list_all (\<lambda>p. if p = (0x0E50, 0xF0) then True else read_back Thai_of 0xA0 96 p) Thai_uni_to_char_table"
  by (simp add: read_back_def Thai_uni_to_char_table_def Thai_of_def)

lemma GSM0338_read_back:
  "list_all (\<lambda>p. snd p \<noteq> 0x1B \<and> (if p = (0x00A0, 0x20) then True else read_back GSM0338_of 0 128 p)) GSM0338_uni_to_char_table"
  by (simp add: read_back_def GSM0338_uni_to_char_table_def GSM0338_of_def)

lemma GSM0338_lossy_1_bytes: "list_all (\<lambda>p. snd p < 128 \<and> snd p \<noteq> 0x1B) GSM0338_lossy_1"
  by (simp add: GSM0338_lossy_1_def)

lemma GSM0338_lossy_2_bytes: "list_all (\<lambda>p. snd p < 128 \<and> snd p \<noteq> 0x1B) GSM0338_lossy_2"
  by (simp add: GSM0338_lossy_2_def)

lemma GSM0338_lossy_3_bytes: "list_all (\<lambda>p. snd p < 128 \<and> snd p \<noteq> 0x1B) GSM0338_lossy_3"
  by (simp add: GSM0338_lossy_3_def)

lemma GSM0338_lossy_4_bytes: "list_all (\<lambda>p. snd p < 128 \<and> snd p \<noteq> 0x1B) GSM0338_lossy_4"
  by (simp add: GSM0338_lossy_4_def)

lemma GSM0338_lossy_5_bytes: "list_all (\<lambda>p. snd p < 128 \<and> snd p \<noteq> 0x1B) GSM0338_lossy_5"
  by (simp add: GSM0338_lossy_5_def)

lemma GSM0338_lossy_6_bytes: "list_all (\<lambda>p. snd p < 128 \<and> snd p \<noteq> 0x1B) GSM0338_lossy_6"
  by (simp add: GSM0338_lossy_6_def)

lemma GSM0338_lossy_7_bytes: "list_all (\<lambda>p. snd p < 128 \<and> snd p \<noteq> 0x1B) GSM0338_lossy_7"
  by (simp add: GSM0338_lossy_7_def)

lemma GSM0338_lossy_bytes: "list_all (\<lambda>p. snd p < 128 \<and> snd p \<noteq> 0x1B) GSM0338_lossy"
  by (simp add: GSM0338_lossy_def GSM0338_lossy_1_bytes GSM0338_lossy_2_bytes GSM0338_lossy_3_bytes GSM0338_lossy_4_bytes GSM0338_lossy_5_bytes GSM0338_lossy_6_bytes GSM0338_lossy_7_bytes)

end
