(* ===== verification/Enc_Search.thy ===== *)
theory Enc_Search
  imports Enc_Results Enc_Charsets
begin

text \<open>
  The binary search \<^verbatim>\<open>chop\<close> is a lookup in the tables, which are in ascending order, and so are
  the searches of each character set; only the table of NeXTSTEP is shorter than its stated size.
\<close>

section \<open>The search\<close>

definition found :: "ucc list \<Rightarrow> unichar \<Rightarrow> nat option option \<Rightarrow> bool" where
  "found t u r \<longleftrightarrow>
     (case r of None \<Rightarrow> False
      | Some None \<Rightarrow> map_of t u = None
      | Some (Some i) \<Rightarrow> i < length t \<and> map_of t u = Some (snd (t ! i)))"

lemma found_nth: "sorted_wrt (<) (map fst t) \<Longrightarrow> i < length t \<Longrightarrow> fst (t ! i) = u \<Longrightarrow> found t u (Some (Some i))"
  by (auto simp: found_def strict_sorted_iff map_of_eq_Some_iff)

lemma found_none: "(\<And>i. i < length t \<Longrightarrow> fst (t ! i) \<noteq> u) \<Longrightarrow> found t u (Some None)"
  by (force simp: found_def map_of_eq_None_iff in_set_conv_nth)

lemma chop_found:
  assumes sorted: "sorted_wrt (<) (map fst t)"
  shows "hi \<le> length t \<Longrightarrow> lo \<le> hi \<Longrightarrow> (\<And>i. i < lo \<Longrightarrow> fst (t ! i) < u) \<Longrightarrow>
    (\<And>i. hi \<le> i \<Longrightarrow> i < length t \<Longrightarrow> u < fst (t ! i)) \<Longrightarrow> found t u (chop u t lo hi)"
proof (induction "hi - lo" arbitrary: lo hi rule: less_induct)
  case less
  have mono: "fst (t ! i) < fst (t ! k)" if "i < k" "k < length t" for i k
    using sorted_wrt_nth_less [OF sorted that(1)] that by simp
  show ?case
  proof (cases "lo < hi")
    case False
    then have "fst (t ! i) \<noteq> u" if "i < length t" for i
      using less.prems(3) [of i] less.prems(4) [of i] that False by (cases "i < lo") auto
    then show ?thesis using False found_none by (simp add: chop.simps)
  next
    case True
    define m where "m = (hi + lo) div 2"
    have m: "lo \<le> m" "m < hi" "m < length t" using True less.prems(1) by (auto simp: m_def)
    then have e: "entry t m = Some (t ! m)" by (simp add: entry_def)
    consider "fst (t ! m) < u" | "u < fst (t ! m)" | "fst (t ! m) = u" by linarith
    then show ?thesis
    proof cases
      case 1
      have "fst (t ! i) < u" if "i < m + 1" for i
        using 1 mono [of i m] m that by (cases "i = m") auto
      then have "found t u (chop u t (m + 1) hi)" using less m by (intro less.hyps) auto
      then show ?thesis using 1 True e by (simp add: chop.simps [of u t lo hi] m_def [symmetric] case_prod_beta)
    next
      case 2
      have "u < fst (t ! i)" if "m \<le> i" "i < length t" for i
        using 2 mono [of m i] m that by (cases "i = m") auto
      then have "found t u (chop u t lo m)" using less m by (intro less.hyps) auto
      then show ?thesis using 2 True e by (simp add: chop.simps [of u t lo hi] m_def [symmetric] case_prod_beta)
    next
      case 3
      then show ?thesis using True e found_nth [OF sorted m(3)]
        by (simp add: chop.simps [of u t lo hi] m_def [symmetric] case_prod_beta)
    qed
  qed
qed

lemma found_lookup: "found t u (chop u t 0 n) \<Longrightarrow> lookup_byte u t n = Some (map_of t u)"
  by (auto simp: found_def lookup_byte_def split: option.splits)

lemma lookup_byte_map_of:
  assumes "ascending_in a b t"
  shows "lookup_byte u t (length t) = Some (map_of t u)"
  using chop_found [OF ascending_in_sorted [OF assms], of "length t" 0 u] by (intro found_lookup) simp

lemma lookup_byte_empty [simp]: "lookup_byte u [] 0 = Some None"
  by (simp add: lookup_byte_def chop.simps)

section \<open>The character sets\<close>

definition charset_of :: "bool \<Rightarrow> NSStringEncoding \<Rightarrow> charset option" where
  "charset_of is_strict enc =
     (case enc of
        NSNEXTSTEPStringEncoding \<Rightarrow> Some (plain_charset Next_conv_base Next_uni_to_char_table Next_uni_to_char_table_size)
      | NSISOCyrillicStringEncoding \<Rightarrow> Some (plain_charset Cyrillic_conv_base Cyrillic_uni_to_char_table Cyrillic_uni_to_char_table_size)
      | NSISOLatin2StringEncoding \<Rightarrow> Some (plain_charset Latin2_conv_base Latin2_uni_to_char_table Latin2_uni_to_char_table_size)
      | NSISOLatin9StringEncoding \<Rightarrow> Some (plain_charset Latin9_conv_base Latin9_uni_to_char_table Latin9_uni_to_char_table_size)
      | NSISOThaiStringEncoding \<Rightarrow> Some (plain_charset Thai_conv_base Thai_uni_to_char_table Thai_uni_to_char_table_size)
      | NSGSM0338StringEncoding \<Rightarrow> Some (gsm_charset is_strict)
      | _ \<Rightarrow> None)"

lemmas uni_to_char_ascending =
  Latin2_uni_to_char_table_ascending Latin9_uni_to_char_table_ascending Cyrillic_uni_to_char_table_ascending
  Thai_uni_to_char_table_ascending GSM0338_uni_to_char_table_ascending GSM0338_escapes_ascending
  GSM0338_lossy_ascending

lemma table_lookups:
  "lookup_byte u Latin2_uni_to_char_table Latin2_uni_to_char_table_size = Some (map_of Latin2_uni_to_char_table u)"
  "lookup_byte u Latin9_uni_to_char_table Latin9_uni_to_char_table_size = Some (map_of Latin9_uni_to_char_table u)"
  "lookup_byte u Cyrillic_uni_to_char_table Cyrillic_uni_to_char_table_size = Some (map_of Cyrillic_uni_to_char_table u)"
  "lookup_byte u Thai_uni_to_char_table Thai_uni_to_char_table_size = Some (map_of Thai_uni_to_char_table u)"
  "lookup_byte u GSM0338_uni_to_char_table GSM0338_tsize = Some (map_of GSM0338_uni_to_char_table u)"
  "lookup_byte u GSM0338_escapes GSM0338_esize = Some (map_of GSM0338_escapes u)"
  "lookup_byte u GSM0338_lossy GSM0338_lsize = Some (map_of GSM0338_lossy u)"
  using uni_to_char_ascending(1,3,5,7,9,11,13) [THEN lookup_byte_map_of, of u] uni_to_char_ascending(2,4,6,8)
  by (simp_all add: Latin2_uni_to_char_table_size_def Latin9_uni_to_char_table_size_def
      Cyrillic_uni_to_char_table_size_def Thai_uni_to_char_table_size_def GSM0338_tsize_def GSM0338_esize_def GSM0338_lsize_def)

text \<open>
  The table of NeXTSTEP ends seven entries before its stated size; the search does not read there unless the character is
  larger than the last.
\<close>

lemma Next_entries:
  "entry Next_uni_to_char_table 64 = Some (0x00E2, 0xD7)" "entry Next_uni_to_char_table 96 = Some (0x0142, 0xF8)"
  "entry Next_uni_to_char_table 112 = Some (0x201D, 0xBA)" "entry Next_uni_to_char_table 120 = Some (0xFB02, 0xAF)"
  "entry Next_uni_to_char_table 124 = None"
  using Next_uni_to_char_table_ascending(2) by (simp_all add: entry_def) (simp_all add: Next_uni_to_char_table_def)

lemma Next_lookup:
  assumes "u \<le> 0xFB02"
  shows "lookup_byte u Next_uni_to_char_table Next_uni_to_char_table_size = Some (map_of Next_uni_to_char_table u)"
proof -
  let ?t = Next_uni_to_char_table
  note sorted = ascending_in_sorted [OF Next_uni_to_char_table_ascending(1)]
  have len: "length ?t = 121" by (rule Next_uni_to_char_table_ascending(2))
  have mono: "fst (?t ! i) < fst (?t ! k)" if "i < k" "k < 121" for i k
    using sorted_wrt_nth_less [OF sorted that(1)] that len by simp
  have at: "?t ! 64 = (0x00E2, 0xD7)" "?t ! 96 = (0x0142, 0xF8)" "?t ! 112 = (0x201D, 0xBA)" "?t ! 120 = (0xFB02, 0xAF)"
    using Next_entries len by (simp_all add: entry_def)
  have above: "found ?t u (chop u ?t lo k)" if "u < fst (?t ! k)" "k < 121" "lo \<le> k" "\<And>i. i < lo \<Longrightarrow> fst (?t ! i) < u" for lo k
    using chop_found [OF sorted, of k lo u] that mono [of k] len by (metis le_neq_implies_less less_imp_le order.strict_trans)
  have below: "fst (?t ! i) < u" if "fst (?t ! k) < u" "k < 121" "i < k + 1" for i k
    using mono [of i k] that by (cases "i = k") auto
  have step: "found ?t u (chop u ?t lo hi)"
    if "(hi + lo) div 2 = k" "lo < hi" "k < 121" "\<And>i. i < lo \<Longrightarrow> fst (?t ! i) < u"
      "fst (?t ! k) < u \<Longrightarrow> found ?t u (chop u ?t (k + 1) hi)" for lo hi k
  proof -
    have e: "entry ?t k = Some (?t ! k)" using that(3) len by (simp add: entry_def)
    have "lo \<le> k" using that(1,2) by auto
    then have "u < fst (?t ! k) \<Longrightarrow> found ?t u (chop u ?t lo k)" using above that(3,4) by blast
    moreover have "fst (?t ! k) = u \<Longrightarrow> found ?t u (Some (Some k))" using found_nth [OF sorted] that(3) len by simp
    ultimately show ?thesis
      using that e by (auto simp: chop.simps [of u ?t lo hi] case_prod_beta)
  qed
  have "found ?t u (chop u ?t 113 128)" if "fst (?t ! 112) < u"
    using that below [of 112] assms at(4) by (intro step [of 128 113 120]) auto
  then have "found ?t u (chop u ?t 97 128)" if "fst (?t ! 96) < u"
    using that below [of 96] by (intro step [of 128 97 112]) auto
  then have "found ?t u (chop u ?t 65 128)" if "fst (?t ! 64) < u"
    using that below [of 64] by (intro step [of 128 65 96]) auto
  then have "found ?t u (chop u ?t 0 128)"
    by (intro step [of 128 0 64]) auto
  then show ?thesis by (intro found_lookup) (simp add: Next_uni_to_char_table_size_def)
qed

text \<open>A larger character makes the search read behind the table.\<close>

lemma Next_overrun:
  assumes "0xFB02 < u"
  shows "lookup_byte u Next_uni_to_char_table Next_uni_to_char_table_size = None"
proof -
  have "chop u Next_uni_to_char_table 0 128 = None"
    using assms by (simp add: chop.simps [of u _ 0 128] chop.simps [of u _ 65 128] chop.simps [of u _ 97 128]
        chop.simps [of u _ 113 128] chop.simps [of u _ 121 128] Next_entries)
  then show ?thesis by (simp add: lookup_byte_def Next_uni_to_char_table_size_def)
qed

lemma charset_searchable:
  assumes "charset_of b enc = Some k" "enc = NSNEXTSTEPStringEncoding \<longrightarrow> u \<le> 0xFB02"
  shows "searchable k u"
  using assms Next_lookup [of u]
  by (auto simp: charset_of_def searchable_def plain_charset_def gsm_charset_def table_lookups split: NSStringEncoding.splits)

end
