(* ===== verification/Enc_Bits.thy ===== *)
theory Enc_Bits
  imports Enc_Encode
begin

text \<open>The bit operations of the conversions as arithmetic, and the byte orders of a host.\<close>

unbundle bit_operations_syntax

section \<open>Masks\<close>

lemma and_ones: "x AND (2 ^ n - 1) = x mod 2 ^ n" for x :: nat
  by (simp add: take_bit_eq_mod [symmetric] take_bit_eq_mask mask_eq_exp_minus_1)

lemma and_low_bits:
  "x AND 0x3F = x mod 0x40" "x AND 0x3FF = x mod 0x400" "x AND 0xF = x mod 0x10" "x AND 7 = x mod 8"
  "x AND 0xFF = x mod 0x100" "x AND 0x1F = x mod 0x20" "x AND 0x7F = x mod 0x80"
  for x :: nat
  using and_ones [of x 6] and_ones [of x 10] and_ones [of x 4] and_ones [of x 3] and_ones [of x 8]
    and_ones [of x 5] and_ones [of x 7] by simp_all

lemma and_shifted: "x AND push_bit n m = push_bit n (drop_bit n x AND m)" for x m :: nat
  by (rule bit_eqI) (auto simp: bit_simps)

lemma and_middle_bytes:
  "x AND 0xFF00 = x div 2 ^ 8 mod 0x100 * 2 ^ 8" "x AND 0xFF0000 = x div 2 ^ 16 mod 0x100 * 2 ^ 16" for x :: nat
  using and_shifted [of x 8 "0xFF"] and_shifted [of x 16 "0xFF"] and_low_bits(5)
  by (simp_all add: push_bit_eq_mult drop_bit_eq_div)

lemma or_shifted: "x < 2 ^ n \<Longrightarrow> y * 2 ^ n OR x = y * 2 ^ n + x" for x y :: nat
proof -
  assume "x < 2 ^ n"
  then have x: "take_bit n x = x" by (simp add: take_bit_eq_mod)
  have "push_bit n y AND take_bit n x = 0"
    by (rule bit_eqI) (simp add: bit_simps)
  then show ?thesis by (simp add: x disjunctive_add_eq_or push_bit_eq_mult)
qed

section \<open>Swapping bytes\<close>

lemma GSUnicodeSwap16_bytes: "a < 256 \<Longrightarrow> b < 256 \<Longrightarrow> GSUnicodeSwap16 (a * 256 + b) = b * 256 + a"
  using or_shifted [of a 8 b] by (simp add: GSUnicodeSwap16_def mod_mult_right_eq)

lemma GSUnicodeSwap16_arith: "u < 0x10000 \<Longrightarrow> GSUnicodeSwap16 u = u mod 256 * 256 + u div 256"
  using GSUnicodeSwap16_bytes [of "u div 256" "u mod 256"] by simp

lemma GSUnicodeSwap16_less: "u < 0x10000 \<Longrightarrow> GSUnicodeSwap16 u < 0x10000"
  by (simp add: GSUnicodeSwap16_arith)

lemma GSUnicodeSwap16_twice [simp]: "u < 0x10000 \<Longrightarrow> GSUnicodeSwap16 (GSUnicodeSwap16 u) = u"
  using GSUnicodeSwap16_bytes [of "u mod 256" "u div 256"] by (simp add: GSUnicodeSwap16_arith)

text \<open>An integer of four bytes, and its bytes.\<close>

abbreviation bytes4 :: "nat \<Rightarrow> nat \<Rightarrow> nat \<Rightarrow> nat \<Rightarrow> nat" where
  "bytes4 a b c d \<equiv> a * 0x1000000 + b * 0x10000 + c * 0x100 + d"

lemma digit: "r < m \<Longrightarrow> (q * m + r) div m = q" "r < m \<Longrightarrow> (q * m + r) mod m = r" for r :: nat
  by simp_all

lemma bytes4_div:
  assumes "b < 256" "c < 256" "d < 256"
  shows "bytes4 a b c d mod 256 = d" "bytes4 a b c d div 0x100 mod 256 = c"
    "bytes4 a b c d div 0x10000 mod 256 = b" "bytes4 a b c d div 0x1000000 = a"
proof -
  have x: "bytes4 a b c d = ((a * 256 + b) * 256 + c) * 256 + d" by simp
  have x1: "bytes4 a b c d div 256 = (a * 256 + b) * 256 + c"
    unfolding x by (rule digit(1) [OF assms(3)])
  have "bytes4 a b c d div (256 * 256) = a * 256 + b"
    unfolding div_mult2_eq x1 by (rule digit(1) [OF assms(2)])
  then have x2: "bytes4 a b c d div 0x10000 = a * 256 + b" by simp
  have "bytes4 a b c d div (0x10000 * 256) = a"
    unfolding div_mult2_eq x2 by (rule digit(1) [OF assms(1)])
  then show "bytes4 a b c d div 0x1000000 = a" by simp
  show "bytes4 a b c d mod 256 = d" unfolding x by (rule digit(2) [OF assms(3)])
  show "bytes4 a b c d div 0x100 mod 256 = c" unfolding x1 by (rule digit(2) [OF assms(2)])
  show "bytes4 a b c d div 0x10000 mod 256 = b" unfolding x2 by (rule digit(2) [OF assms(1)])
qed

lemma bytes4_of: "bytes4 (u div 0x1000000) (u div 0x10000 mod 256) (u div 0x100 mod 256) (u mod 256) = u"
proof -
  define v where "v = u div 256"
  define x where "x = v div 256"
  have "u div (256 * 256) = x" "u div (256 * 256 * 256) = x div 256"
    unfolding div_mult2_eq v_def x_def by (rule refl)+
  then have d: "u div 0x10000 = x" "u div 0x1000000 = x div 256" by simp_all
  have "u = v * 256 + u mod 256" "v = x * 256 + v mod 256" "x = x div 256 * 256 + x mod 256"
    by (simp_all add: v_def x_def)
  then show ?thesis unfolding d v_def [symmetric] by linarith
qed

lemma GSUnicodeSwap32_bytes:
  assumes "a < 256" "b < 256" "c < 256" "d < 256"
  shows "GSUnicodeSwap32 (bytes4 a b c d) = bytes4 d c b a"
proof -
  have 1: "b * 2 ^ 8 OR a = b * 2 ^ 8 + a"
    using assms by (intro or_shifted) simp
  have 2: "c * 2 ^ 16 OR (b * 2 ^ 8 + a) = c * 2 ^ 16 + (b * 2 ^ 8 + a)"
    using assms by (intro or_shifted) simp
  have 3: "d * 2 ^ 24 OR (c * 2 ^ 16 + (b * 2 ^ 8 + a)) = d * 2 ^ 24 + (c * 2 ^ 16 + (b * 2 ^ 8 + a))"
    using assms by (intro or_shifted) simp
  have parts: "bytes4 a b c d mod 0x100 = d" "bytes4 a b c d div 2 ^ 8 mod 0x100 = c"
    "bytes4 a b c d div 2 ^ 16 mod 0x100 = b" "bytes4 a b c d div 2 ^ 24 = a"
    using bytes4_div [OF assms(2-4), of a] by simp_all
  have "c * 2 ^ 8 * 2 ^ 8 = c * 2 ^ 16" "b * 2 ^ 16 div 2 ^ 8 = b * 2 ^ 8" by simp_all
  then have "GSUnicodeSwap32 (bytes4 a b c d) = d * 2 ^ 24 + (c * 2 ^ 16 + (b * 2 ^ 8 + a))"
    unfolding GSUnicodeSwap32_def and_low_bits and_middle_bytes parts by (simp only: 1 2 3)
  then show ?thesis by simp
qed

lemma swap_host:
  "a < 256 \<Longrightarrow> b < 256 \<Longrightarrow> GSUnicodeSwap16 (host16 big a b) = host16 (\<not> big) a b"
  "a < 256 \<Longrightarrow> b < 256 \<Longrightarrow> c < 256 \<Longrightarrow> d < 256 \<Longrightarrow> GSUnicodeSwap32 (host32 big a b c d) = host32 (\<not> big) a b c d"
  using GSUnicodeSwap32_bytes [of a b c d] GSUnicodeSwap32_bytes [of d c b a]
  by (simp_all add: host16_def host32_def GSUnicodeSwap16_bytes)

section \<open>Storing and loading\<close>

lemma host16_store16:
  assumes "u < 0x10000"
  obtains a b where "store16 big u = [a, b]" "host16 big a b = u" "a < 256" "b < 256"
proof (cases big)
  case True
  then show ?thesis using that [of "u div 256" "u mod 256"] assms by (simp add: store16_def host16_def)
next
  case False
  then show ?thesis using that [of "u mod 256" "u div 256"] assms by (simp add: store16_def host16_def)
qed

lemma host32_store32:
  assumes "u < 2 ^ 32"
  obtains a b c d where "store32 big u = [a, b, c, d]" "host32 big a b c d = u" "a < 256" "b < 256" "c < 256" "d < 256"
proof -
  let ?a = "u div 2 ^ 24" and ?b = "u div 2 ^ 16 mod 256" and ?c = "u div 2 ^ 8 mod 256" and ?d = "u mod 256"
  have u: "?a * 2 ^ 24 + ?b * 2 ^ 16 + ?c * 2 ^ 8 + ?d = u" using bytes4_of [of u] by simp
  have a: "?a < 256" using assms by simp
  show ?thesis
  proof (cases big)
    case True
    show ?thesis
      by (rule that [of ?a ?b ?c ?d]) (simp_all only: True store32_def host32_def Let_def if_True u a pos_mod_bound mod_less_divisor zero_less_numeral)
  next
    case False
    show ?thesis
      by (rule that [of ?d ?c ?b ?a])
        (simp_all only: False store32_def host32_def Let_def if_False u a mod_less_divisor zero_less_numeral rev.simps append.simps)
  qed
qed

lemma GSUnicodeSwap32_less_twice:
  assumes "u < 2 ^ 32"
  shows "GSUnicodeSwap32 u < 2 ^ 32" "GSUnicodeSwap32 (GSUnicodeSwap32 u) = u"
proof -
  obtain a b c d where u: "host32 True a b c d = u" "a < 256" "b < 256" "c < 256" "d < 256"
    by (rule host32_store32 [OF assms, of True])
  then have s: "GSUnicodeSwap32 u = host32 False a b c d" using swap_host(2) [of a b c d True] by simp
  have "bytes4 d c b a < 0x100000000" using u(2-) by linarith
  then show "GSUnicodeSwap32 u < 2 ^ 32" unfolding s by (simp add: host32_def)
  show "GSUnicodeSwap32 (GSUnicodeSwap32 u) = u" unfolding s swap_host(2) [OF u(2-)] not_False_eq_True by (rule u(1))
qed

end
