(* ===== verification/Enc_Answers.thy ===== *)
theory Enc_Answers
  imports Enc_Search Enc_Bits
begin

text \<open>
  \<^verbatim>\<open>GSToUnicode\<close> and \<^verbatim>\<open>GSFromUnicode\<close> as a whole: their answers in terms of functions on lists.
\<close>

section \<open>To 16-bit characters\<close>

definition mark :: "job \<Rightarrow> unichar list" where
  "mark j = (if bom j then [0xFEFF] else [])"

context conversion_buffer
begin

lemma started:
  "good j (start_buffer j :: nat conv)" "dpos (start_buffer j :: nat conv) = 0"
  "dst j \<Longrightarrow> cells (start_buffer j :: nat conv) = []" "place (start_buffer j :: nat conv) \<noteq> Heap"
  using start_good by (blast, blast, blast, simp add: start_buffer_def)

lemma writes_decode_start:
  "writes j (decode_start j slen) (start_buffer j) (mark j) True \<and>
   (\<forall>s'. decode_start j slen = Some (Go s') \<longrightarrow> place s' \<noteq> Heap)"
proof (cases "bom j")
  case False
  then show ?thesis using started by (simp add: decode_start_def mark_def writes_nothing)
next
  case True
  let ?s = "start_buffer j :: unichar conv"
  have pos: "\<not> bsize ?s \<le> dpos ?s" using bounds by (auto simp: start_buffer_def)
  then have g: "grow_while 2 j slen (\<lambda>s. bsize s \<le> dpos s) ?s = Some (Go ?s)"
    by (subst grow_while.simps) simp
  have "writes j (put j 0xFEFF ?s) ?s [0xFEFF] True" using pos started by (intro writes_put) auto
  moreover have "put j 0xFEFF ?s = Some (Go s') \<Longrightarrow> place s' \<noteq> Heap" for s'
    using started by (auto simp: put_def split: if_splits)
  ultimately show ?thesis using True g by (simp add: decode_start_def mark_def)
qed

lemma GSToUnicode_dst:
  assumes "w = 2" "dst j" "slen = length src" "readable enc src"
  shows "answers j 0 (GSToUnicode j enc src) (mark j @ fst (decoded (words_bigendian j) enc src)) (snd (decoded (words_bigendian j) enc src))"
proof -
  have "length src \<le> 2 ^ 26" using bounds assms(3) by simp
  moreover have "length (mark j) \<le> 1" by (simp add: mark_def)
  ultimately have "writes j (andthen (decode_start j slen) (decode_bytes j enc src)) (start_buffer j)
      (mark j @ fst (decoded (words_bigendian j) enc src)) (snd (decoded (words_bigendian j) enc src))"
    using assms writes_decode_start started(2)
    by (intro writes_andthen writes_decode_bytes) (auto simp: wrote_def)
  moreover have "length (mark j @ fst (decoded (words_bigendian j) enc src)) \<le> 2 ^ 30"
    using decoded_length [of "words_bigendian j" enc src] \<open>length src \<le> 2 ^ 26\<close> \<open>length (mark j) \<le> 1\<close>
    by simp
  ultimately have "answers j 0 (conclude w 0 (terminate j \<and> dst j) j (andthen (decode_start j slen) (decode_bytes j enc src)))
      (mark j @ fst (decoded (words_bigendian j) enc src)) (snd (decoded (words_bigendian j) enc src))"
    using started by (intro conclude_writes [where b = False]) auto
  then show ?thesis using assms by (simp add: GSToUnicode_def)
qed

text \<open>If the result is discarded.\<close>

definition unharmed :: "unichar conv flow option \<Rightarrow> bool" where
  "unharmed m \<longleftrightarrow> (case m of None \<Rightarrow> False | Some Fault \<Rightarrow> False | _ \<Rightarrow> True)"

lemma writes_unharmed: "writes j m s xs r \<Longrightarrow> unharmed m"
  by (auto simp: writes_def unharmed_def split: option.splits flow.splits)

lemma unharmed_utf16:
  assumes "good j s" "dpos s + length bs div 2 \<le> 2 ^ 30" "place s \<noteq> Heap" "\<not> dst j"
  shows "unharmed (andthen (reserve_wide j (length bs div 2) s) (utf16_loop j swap bs))"
proof -
  let ?n = "length bs div 2" and ?xs = "utf16_units (words_bigendian j) swap bs"
  have put: "unharmed (put_all j ?xs s')" if "good j s'" "dpos s' + ?n \<le> bsize s'" for s'
    using writes_put_all [of s' ?xs] that by (auto simp: utf16_units_length intro: writes_unharmed)
  have "u32 (dpos s + ?n + (if terminate j then 1 else 0)) = dpos s + ?n + tail j" "u32 (u32 (dpos s + ?n) * 2) = (dpos s + ?n) * 2"
    using assms(2) by (auto simp: u32_def tail_def)
  then have "reserve_wide j ?n s = Some (Fail s) \<or> reserve_wide j ?n s = Some Return_no \<or>
      (\<exists>s'. reserve_wide j ?n s = Some (Go s') \<and> good j s' \<and> dpos s' + ?n \<le> bsize s')"
    using assms by (auto simp: reserve_wide_def good_def tail_def Let_def)
  moreover have "utf16_loop j swap bs = put_all j ?xs" by (rule ext) (rule utf16_loop_put)
  ultimately show ?thesis using put by (auto simp: unharmed_def)
qed

lemma unharmed_decode_bytes:
  assumes "w = 2" "\<not> dst j" "good j s" "place s \<noteq> Heap" "dpos s + 2 * length src \<le> 2 ^ 30" "slen = length src" "readable enc src"
  shows "unharmed (decode_bytes j enc src s)"
proof (cases enc)
  case NSUTF8StringEncoding
  then show ?thesis
    using assms writes_utf8_loop [of s src 0 0] by (auto simp: decode_bytes_def intro: writes_unharmed)
next
  case NSGSM0338StringEncoding
  then show ?thesis
    using assms writes_gsm_loop [of s src] by (auto simp: decode_bytes_def readable_def intro: writes_unharmed)
next
  case NSNonLossyASCIIStringEncoding
  then show ?thesis using assms by (auto simp: decode_bytes_def unharmed_def split: option.splits)
qed (use assms writes_utf32_loop [of s src] unharmed_utf16 [of s src] in
    \<open>auto simp: decode_bytes_def decode_table_def unharmed_def [of "Some _"] intro: writes_unharmed\<close>)

lemma GSToUnicode_discarded:
  assumes "w = 2" "\<not> dst j" "slen = length src" "readable enc src"
  shows "safe (GSToUnicode j enc src)"
proof -
  have "length src \<le> 2 ^ 26" using bounds assms(3) by simp
  moreover have "unharmed (andthen (decode_start j slen) (decode_bytes j enc src))"
    using writes_decode_start
  proof (cases "decode_start j slen")
    case (Some k)
    then show ?thesis
      using writes_decode_start started(2) calculation unharmed_decode_bytes [OF assms(1,2) _ _ _ assms(3,4)]
      by (cases k) (auto simp: writes_def wrote_def mark_def unharmed_def [of "Some _"] split: if_splits)
  qed (simp add: writes_def)
  ultimately show ?thesis
    using assms(2,3) by (auto simp: GSToUnicode_def conclude_def unharmed_def safe_def finish_def split: option.splits flow.splits)
qed

end

lemma GSToUnicode_answers:
  assumes "sane j (length src)" "readable enc src" "dst j"
  shows "answers j 0 (GSToUnicode j enc src) (mark j @ fst (decoded (words_bigendian j) enc src)) (snd (decoded (words_bigendian j) enc src))"
  using assms by (intro conversion_buffer.GSToUnicode_dst [where w = 2] conversion_buffer.intro) auto

lemma GSToUnicode_safe:
  assumes "sane j (length src)" "readable enc src"
  shows "safe (GSToUnicode j enc src)"
proof (cases "dst j")
  case True
  then show ?thesis using GSToUnicode_answers assms by (simp add: answers_def)
next
  case False
  then show ?thesis
    using assms by (intro conversion_buffer.GSToUnicode_discarded [where w = 2] conversion_buffer.intro) auto
qed

section \<open>From 16-bit characters\<close>

text \<open>The encodings whose loops grow the buffer step by step; the others make room first.\<close>

definition streaming :: "NSStringEncoding \<Rightarrow> bool" where
  "streaming enc \<longleftrightarrow>
     (case enc of NSNonLossyASCIIStringEncoding \<Rightarrow> False | NSASCIIStringEncoding \<Rightarrow> False | NSISOLatin1StringEncoding \<Rightarrow> False
      | NSUTF16StringEncoding \<Rightarrow> False | NSUTF16BigEndianStringEncoding \<Rightarrow> False | NSUTF16LittleEndianStringEncoding \<Rightarrow> False
      | _ \<Rightarrow> True)"

text \<open>The characters for which no search leaves its table.\<close>

definition encodable :: "NSStringEncoding \<Rightarrow> unichar list \<Rightarrow> bool" where
  "encodable enc cs \<longleftrightarrow> (\<forall>c \<in> set cs. c < 0x10000 \<and> (enc = NSNEXTSTEPStringEncoding \<longrightarrow> c \<le> 0xFB02))"

definition encoded :: "bool \<Rightarrow> bool \<Rightarrow> NSStringEncoding \<Rightarrow> unichar list \<Rightarrow> nat list \<times> bool" where
  "encoded big is_strict enc cs =
     (case enc of
        NSUTF8StringEncoding \<Rightarrow> utf8_stream is_strict cs
      | NSNonLossyASCIIStringEncoding \<Rightarrow> (concat (map escaped_bytes cs), True)
      | NSASCIIStringEncoding \<Rightarrow> emitted is_strict [0x3F] (map (base_bytes 128) cs)
      | NSISOLatin1StringEncoding \<Rightarrow> emitted is_strict [0x3F] (map (base_bytes 256) cs)
      | NSUTF16StringEncoding \<Rightarrow> (concat (map (store16 big) cs), True)
      | NSUTF16BigEndianStringEncoding \<Rightarrow> (concat (map (\<lambda>u. store16 big (unswapped (\<not> big) u)) cs), True)
      | NSUTF16LittleEndianStringEncoding \<Rightarrow> (concat (map (\<lambda>u. store16 big (unswapped big u)) cs), True)
      | NSUTF32StringEncoding \<Rightarrow> (concat (map (utf32_bytes big False) (joined cs)), True)
      | NSUTF32BigEndianStringEncoding \<Rightarrow> (concat (map (utf32_bytes big (\<not> big)) (joined cs)), True)
      | NSUTF32LittleEndianStringEncoding \<Rightarrow> (concat (map (utf32_bytes big big) (joined cs)), True)
      | _ \<Rightarrow>
          (case charset_of is_strict enc of None \<Rightarrow> ([], False)
           | Some k \<Rightarrow> emitted is_strict [0x3F] (map (charset_bytes k) cs)))"

lemma emitted_length:
  assumes "\<forall>x \<in> set xs. case x of None \<Rightarrow> True | Some y \<Rightarrow> length y \<le> m" "length d \<le> m"
  shows "length (fst (emitted b d xs)) \<le> m * length xs"
  using assms
proof (induction xs)
  case (Cons x xs)
  then show ?case by (cases x) auto
qed simp

lemma concat_length: "\<forall>x \<in> set xs. length (f x) \<le> m \<Longrightarrow> length (concat (map f xs)) \<le> m * length xs"
  by (induction xs) auto

lemma points_length: "length (points cs) \<le> length cs"
  by (induction cs rule: points.induct) (auto split: list.splits)

lemma joined_length: "length (joined cs) \<le> length cs"
  by (induction cs rule: joined.induct) auto

lemma encoded_length: "length (fst (encoded big b enc cs)) \<le> 6 * length cs"
proof -
  have "\<forall>x \<in> set (map (map_option utf8_point) (points cs)). case x of None \<Rightarrow> True | Some y \<Rightarrow> length y \<le> 6"
    using utf8_point_length by (auto split: option.splits)
  from emitted_length [OF this utf8_point_length [of "0xFFFD"], of b]
  have utf8: "length (fst (utf8_stream b cs)) \<le> 6 * length cs"
    using points_length [of cs] by (simp add: utf8_stream_def)
  have chars: "length (fst (emitted b [0x3F] (map f cs))) \<le> 6 * length cs" if "\<And>u y. f u = Some y \<Longrightarrow> length y \<le> 6" for f
    using emitted_length [of "map f cs" 6 "[0x3F]" b] that by (auto split: option.splits)
  have base: "length (fst (emitted b [0x3F] (map (base_bytes n) cs))) \<le> 6 * length cs" for n
    by (rule chars) (auto simp: base_bytes_def split: if_splits)
  have tables: "length (fst (emitted b [0x3F] (map (charset_bytes k) cs))) \<le> 6 * length cs" for k
    by (rule chars) (auto simp: charset_bytes_def split: option.splits if_splits)
  have "length (concat (map (utf32_bytes big o') (joined cs))) \<le> 4 * length (joined cs)" for o'
    by (intro concat_length) (simp add: utf32_bytes_def store32_def Let_def)
  then have utf32: "length (concat (map (utf32_bytes big o') (joined cs))) \<le> 6 * length cs" for o'
    by (rule order_trans) (use joined_length [of cs] in simp)
  have utf16: "length (concat (map (\<lambda>u. store16 big (f u)) cs)) \<le> 6 * length cs" for f
    by (intro concat_length) (simp add: store16_def)
  have escaped: "length (concat (map escaped_bytes cs)) \<le> 6 * length cs"
    by (intro concat_length) (simp add: escaped_bytes_def)
  show ?thesis
    using utf8 base tables utf32 utf16 utf16 [of "\<lambda>u. u"] escaped
    by (auto simp: encoded_def split: NSStringEncoding.splits option.splits)
qed

context conversion_buffer
begin

lemma writes_encode_chars:
  assumes "w = 1" "slen = length src" "dst j \<or> streaming enc" "encodable enc (map (unswapped swapped) src)" "\<forall>c \<in> set src. c < 0x10000"
  shows "writes j (encode_chars j enc swapped src (start_buffer j)) (start_buffer j)
    (fst (encoded (words_bigendian j) (strict j) enc (map (unswapped swapped) src)))
    (snd (encoded (words_bigendian j) (strict j) enc (map (unswapped swapped) src)))"
proof -
  have len: "length src \<le> 2 ^ 26" using bounds assms(2) by simp
  note start = started
  have tables: "writes j (table_encode j slen k swapped src (start_buffer j)) (start_buffer j)
      (fst (emitted (strict j) [0x3F] (map (\<lambda>c. charset_bytes k (unswapped swapped c)) src)))
      (snd (emitted (strict j) [0x3F] (map (\<lambda>c. charset_bytes k (unswapped swapped c)) src)))"
    if "charset_of (strict j) enc = Some k" for k
    using assms start len charset_searchable [OF that]
    by (intro writes_table_encode) (auto simp: encodable_def)
  have twice: "map (\<lambda>u. store16 b (unswapped (swapped \<noteq> other) u)) src = map (\<lambda>u. store16 b (unswapped other (unswapped swapped u))) src" for b other
    using assms(5) by (auto simp: unswapped_def)
  have utf16: "writes j (encode_utf16 j other swapped src (start_buffer j)) (start_buffer j)
      (concat (map (\<lambda>u. store16 (words_bigendian j) (unswapped other (unswapped swapped u))) src)) True" if "dst j" for other
    using writes_utf16 [OF assms(1) that start(1,2) start(3) [OF that] len, of other swapped] by (simp only: twice)
  have utf16_host: "writes j (encode_utf16 j False swapped src (start_buffer j)) (start_buffer j)
      (concat (map (\<lambda>u. store16 (words_bigendian j) (unswapped swapped u)) src)) True" if "dst j"
    using utf16 [OF that, of False] by (simp add: unswapped_def [of False])
  note utf32 = writes_utf32 [OF assms(1) start(1), of src _ swapped]
  show ?thesis
  proof (cases "charset_of (strict j) enc")
    case (Some k)
    then show ?thesis
      using tables [OF Some] assms(2)
      by (auto simp: encode_chars_def encoded_def charset_of_def comp_def split: NSStringEncoding.splits)
  next
    case None
    then show ?thesis
      using start len assms utf32 utf16 utf16_host writes_utf8_encode [OF assms(1) start(1), of src swapped] writes_escaped [OF assms(1) _ start(1,2) len]
        writes_base [OF assms(1) _ start(1,2) len]
      by (cases enc) (auto simp: encode_chars_def encoded_def charset_of_def streaming_def comp_def writes_nothing unswapped_def [of False])
  qed
qed

lemma GSFromUnicode_writes:
  assumes "w = 1" "slen = length src'" "encode_start j src = Some (swapped, src')" "dst j \<or> streaming enc"
    "encodable enc (map (unswapped swapped) src')" "\<forall>c \<in> set src'. c < 0x10000"
  shows "answers j 0 (GSFromUnicode j enc src)
    (fst (encoded (words_bigendian j) (strict j) enc (map (unswapped swapped) src')))
    (snd (encoded (words_bigendian j) (strict j) enc (map (unswapped swapped) src')))"
proof -
  have "length (fst (encoded (words_bigendian j) (strict j) enc (map (unswapped swapped) src'))) \<le> 2 ^ 30"
    using encoded_length [of "words_bigendian j" "strict j" enc "map (unswapped swapped) src'"] bounds assms(2) by simp
  then have "answers j 0 (conclude w 0 (terminate j) j (encode_chars j enc swapped src' (start_buffer j)))
      (fst (encoded (words_bigendian j) (strict j) enc (map (unswapped swapped) src')))
      (snd (encoded (words_bigendian j) (strict j) enc (map (unswapped swapped) src')))"
    using started writes_encode_chars [OF assms(1,2,4,5,6)] by (intro conclude_writes [where b = True]) auto
  then show ?thesis using assms(1,3) by (simp add: GSFromUnicode_def)
qed

end

lemma GSFromUnicode_answers:
  assumes "sane j (length src)" "encode_start j src = Some (swapped, src')" "dst j \<or> streaming enc"
    "encodable enc (map (unswapped swapped) src')" "\<forall>c \<in> set src. c < 0x10000"
  shows "answers j 0 (GSFromUnicode j enc src)
    (fst (encoded (words_bigendian j) (strict j) enc (map (unswapped swapped) src')))
    (snd (encoded (words_bigendian j) (strict j) enc (map (unswapped swapped) src')))"
proof -
  have src: "set src' \<subseteq> set src" "length src' \<le> length src"
    using assms(2) by (auto simp: encode_start_def split: if_splits list.splits)
  then have "conversion_buffer 1 j (length src')" using assms(1) by (auto simp: conversion_buffer_def sane_def)
  then show ?thesis
    using assms src by (intro conversion_buffer.GSFromUnicode_writes [where w = 1]) auto
qed

text \<open>A conversion that lacks the byte order mark it asks for is refused.\<close>

lemma GSFromUnicode_no_mark:
  assumes "encode_start j src = None" "16 \<le> BUFSIZ j"
  shows "refuses (GSFromUnicode j enc src)"
  using assms by (auto simp: GSFromUnicode_def conclude_def finish_def start_buffer_def refuses_def Let_def)

section \<open>Buffers of a real host\<close>

text \<open>
  Every conversion on a host whose \<^verbatim>\<open>BUFSIZ\<close> is that of the GNU C library, with sources of up to \<open>2 ^ 26\<close> cells and
  buffers of the caller of up to \<open>2 ^ 30\<close>, uses the buffers as the interface says: both decoders and encoders.
\<close>

definition on_host :: "job \<Rightarrow> job" where
  "on_host j = j\<lparr>BUFSIZ := 8192, size_arg := min (size_arg j) (2 ^ 30)\<rparr>"

lemma on_host_sane: "n \<le> 2 ^ 26 \<Longrightarrow> sane (on_host j) n"
  by (simp add: sane_def on_host_def)

interpretation wide_buffer: conversion_buffer 2 "on_host j" "min n (2 ^ 26)" for j n
  by unfold_locales (simp_all add: on_host_sane)

interpretation byte_buffer: conversion_buffer 1 "on_host j" "min n (2 ^ 26)" for j n
  by unfold_locales (simp_all add: on_host_sane)

end
