(* ===== verification/Enc_Utf8.thy ===== *)
theory Enc_Utf8
  imports Enc_Answers
begin

text \<open>
  UTF-8. The decoder is an automaton over a table of byte classes and transitions; the
  reference reads one well-formed sequence of the Unicode standard after the other, as its table of
  well-formed byte sequences lists them.
\<close>

unbundle bit_operations_syntax

section \<open>Well-formed sequences\<close>

abbreviation continuation :: "nat \<Rightarrow> bool" where "continuation b \<equiv> 0x80 \<le> b \<and> b \<le> 0xBF"

text \<open>The second byte is restricted so that neither overlong forms, surrogates nor numbers beyond Unicode are read.\<close>

definition second_byte :: "nat \<Rightarrow> nat \<Rightarrow> bool" where
  "second_byte b1 b2 \<longleftrightarrow> continuation b2 \<and>
     (b1 = 0xE0 \<longrightarrow> 0xA0 \<le> b2) \<and> (b1 = 0xED \<longrightarrow> b2 \<le> 0x9F) \<and> (b1 = 0xF0 \<longrightarrow> 0x90 \<le> b2) \<and> (b1 = 0xF4 \<longrightarrow> b2 \<le> 0x8F)"

fun utf8_char :: "nat list \<Rightarrow> (nat \<times> nat list) option" where
  "utf8_char (b1 # r1) =
     (if b1 < 0x80 then Some (b1, r1)
      else if b1 < 0xC2 then None
      else case r1 of [] \<Rightarrow> None | b2 # r2 \<Rightarrow>
        if \<not> second_byte b1 b2 then None
        else if b1 < 0xE0 then Some ((b1 - 0xC0) * 64 + (b2 - 0x80), r2)
        else case r2 of [] \<Rightarrow> None | b3 # r3 \<Rightarrow>
          if \<not> continuation b3 then None
          else if b1 < 0xF0 then Some (((b1 - 0xE0) * 64 + (b2 - 0x80)) * 64 + (b3 - 0x80), r3)
          else case r3 of [] \<Rightarrow> None | b4 # r4 \<Rightarrow>
            if \<not> continuation b4 \<or> 0xF4 < b1 then None
            else Some ((((b1 - 0xF0) * 64 + (b2 - 0x80)) * 64 + (b3 - 0x80)) * 64 + (b4 - 0x80), r4))"
| "utf8_char [] = None"

lemma utf8_char_shorter: "utf8_char bs = Some (u, r) \<Longrightarrow> length r < length bs"
  by (cases bs) (auto split: if_splits list.splits)

function utf8_reference :: "nat list \<Rightarrow> unichar list option" where
  "utf8_reference bs =
     (if bs = [] then Some []
      else case utf8_char bs of None \<Rightarrow> None
        | Some (u, r) \<Rightarrow> map_option (append (code_units u)) (utf8_reference r))"
  by auto
termination
  by (relation "measure length") (auto dest: utf8_char_shorter)

declare utf8_reference.simps [simp del]

section \<open>The automaton\<close>

definition byte_class :: "nat \<Rightarrow> nat" where
  "byte_class b =
     (if b < 0x80 then 0 else if b < 0x90 then 1 else if b < 0xA0 then 9 else if b < 0xC0 then 7 else if b < 0xC2 then 8
      else if b < 0xE0 then 2 else if b = 0xE0 then 10 else if b = 0xED then 4 else if b < 0xF0 then 3 else if b = 0xF0 then 11
      else if b < 0xF4 then 6 else if b = 0xF4 then 5 else 8)"

lemma fits_const: "(\<And>b. c \<le> b \<Longrightarrow> b < c + n \<Longrightarrow> f b = v) \<Longrightarrow> fits f c (replicate n v)"
  by (induction n arbitrary: c) auto

lemma byte_class_fits: "fits byte_class 0 utf8_classes"
proof -
  have "fits byte_class 0 (replicate 128 0)" "fits byte_class 128 (replicate 16 1)" "fits byte_class 144 (replicate 16 9)"
    "fits byte_class 160 (replicate 32 7)" "fits byte_class 194 (replicate 30 2)"
    by (rule fits_const; simp add: byte_class_def)+
  moreover have "fits byte_class 192 [8, 8]"
    "fits byte_class 224 [10, 3, 3, 3, 3, 3, 3, 3, 3, 3, 3, 3, 3, 4, 3, 3, 11, 6, 6, 6, 5, 8, 8, 8, 8, 8, 8, 8, 8, 8, 8, 8]"
    by (simp_all add: byte_class_def fits_steps del: fits.simps(2))
  ultimately show ?thesis
    unfolding utf8_classes_def fits_append length_replicate length_append by (simp del: fits.simps(2))
qed

lemma utf8_classes_length: "length utf8_classes = 256"
  by (simp add: utf8_classes_def)

lemma utf8_class: "b < 256 \<Longrightarrow> utf8d ! b = byte_class b"
  using fits_nth [OF byte_class_fits, of b] utf8_classes_length by (simp add: utf8d_def nth_append)

definition next_state :: "nat \<Rightarrow> nat \<Rightarrow> nat" where
  "next_state s b =
     (if s = 0 then
        (if b < 0x80 then 0 else if b < 0xC2 then 12 else if b < 0xE0 then 24 else if b = 0xE0 then 48 else if b = 0xED then 60
         else if b < 0xF0 then 36 else if b = 0xF0 then 72 else if b < 0xF4 then 84 else if b = 0xF4 then 96 else 12)
      else if s = 24 then if continuation b then 0 else 12
      else if s = 36 then if continuation b then 24 else 12
      else if s = 48 then if continuation b \<and> 0xA0 \<le> b then 24 else 12
      else if s = 60 then if continuation b \<and> b \<le> 0x9F then 24 else 12
      else if s = 72 then if continuation b \<and> 0x90 \<le> b then 36 else 12
      else if s = 84 then if continuation b then 36 else 12
      else if s = 96 then if continuation b \<and> b \<le> 0x8F then 36 else 12
      else 12)"

definition utf8_states :: "nat list" where
  "utf8_states = [0, 12, 24, 36, 48, 60, 72, 84, 96]"

lemma transitions:
  "s \<in> set utf8_states \<Longrightarrow> utf8_transitions ! (s + byte_class b) = next_state s b"
proof -
  assume s: "s \<in> set utf8_states"
  consider "b < 0x80" "byte_class b = 0" | "0x80 \<le> b" "b < 0x90" "byte_class b = 1" | "0x90 \<le> b" "b < 0xA0" "byte_class b = 9"
    | "0xA0 \<le> b" "b < 0xC0" "byte_class b = 7" | "0xC0 \<le> b" "b < 0xC2" "byte_class b = 8" | "0xC2 \<le> b" "b < 0xE0" "byte_class b = 2"
    | "b = 0xE0" "byte_class b = 10" | "b = 0xED" "byte_class b = 4" | "0xE0 < b" "b \<noteq> 0xED" "b < 0xF0" "byte_class b = 3"
    | "b = 0xF0" "byte_class b = 11" | "0xF0 < b" "b < 0xF4" "byte_class b = 6" | "b = 0xF4" "byte_class b = 5"
    | "0xF4 < b" "byte_class b = 8"
    unfolding byte_class_def by (cases "b < 0xC0"; cases "b < 0xE0"; cases "b < 0xF0"; cases "b = 0xED"; cases "b = 0xE0") force+
  then show ?thesis
    by cases (use s in \<open>auto simp: utf8_states_def utf8_transitions_def next_state_def\<close>)
qed

lemma decode_state:
  assumes "s \<in> set utf8_states" "b < 256"
  shows "fst (decode s u b) = next_state s b"
proof -
  have "utf8d ! (256 + s + byte_class b) = utf8_transitions ! (s + byte_class b)"
    using utf8_classes_length by (simp add: utf8d_def nth_append add.assoc)
  then show ?thesis using transitions [OF assms(1), of b] utf8_class [OF assms(2)] by (simp add: decode_def Let_def)
qed

lemma decode_first:
  assumes "b < 256"
  shows "snd (decode 0 u b) = 0xFF div 2 ^ byte_class b AND b"
  using utf8_class [OF assms] by (simp add: decode_def Let_def UTF8_ACCEPT_def)

lemma decode_next:
  assumes "s \<noteq> 0" "u < 2 ^ 26"
  shows "snd (decode s u b) = u * 64 + b mod 64"
proof -
  have "u * 2 ^ 6 OR b mod 64 = u * 64 + b mod 64" using or_shifted [of "b mod 64" 6 u] by simp
  then show ?thesis
    using assms by (simp add: decode_def Let_def UTF8_ACCEPT_def and_low_bits u32_def or.commute)
qed

text \<open>Once a byte is refused the automaton never leaves its error state.\<close>

lemma rejected: "\<forall>b \<in> set bs. b < 256 \<Longrightarrow> utf8_run bs 12 u = ([], False)"
proof (induction bs arbitrary: u)
  case (Cons b bs)
  then show ?case
    using decode_state [of 12 b u] by (cases "decode 12 u b") (simp add: utf8_states_def next_state_def)
qed (simp add: UTF8_ACCEPT_def)

text \<open>The code point before a sequence starts does not matter.\<close>

lemma run_restart: "utf8_run bs 0 u = utf8_run bs 0 0"
  by (cases bs) (simp_all add: decode_def UTF8_ACCEPT_def Let_def)

lemma run_step:
  assumes "s \<in> set utf8_states" "b < 256" "\<forall>b \<in> set bs. b < 256"
  shows "utf8_run (b # bs) s u =
    (if next_state s b = 12 then ([], False)
     else if next_state s b = 0 then apfst (append (code_units (snd (decode s u b)))) (utf8_run bs 0 0)
     else utf8_run bs (next_state s b) (snd (decode s u b)))"
  using decode_state [OF assms(1,2), of u] rejected [OF assms(3)] run_restart [of bs "snd (decode s u b)"]
  by (cases "decode s u b") simp

text \<open>Reading continuation bytes.\<close>

lemma continuation_mod: "continuation b \<Longrightarrow> b mod 64 = b - 0x80"
proof -
  assume "continuation b"
  then have "b = (b - 0x80) + 2 * 64" "b - 0x80 < 64" by auto
  then show ?thesis by (metis mod_less mod_mult_self1)
qed

lemma run_last:
  assumes "u < 2 ^ 26" "\<forall>b \<in> set bs. b < 256"
  shows "utf8_run bs 24 u =
    (case bs of [] \<Rightarrow> ([], False)
     | b # r \<Rightarrow> if continuation b then apfst (append (code_units (u * 64 + (b - 0x80)))) (utf8_run r 0 0) else ([], False))"
proof (cases bs)
  case (Cons b r)
  have "24 \<in> set utf8_states" "next_state 24 b = (if continuation b then 0 else 12)" "b < 256" "\<forall>b \<in> set r. b < 256"
    using assms(2) Cons by (auto simp: utf8_states_def next_state_def)
  then show ?thesis
    using Cons run_step [of 24 b r u] decode_next [OF _ assms(1), of 24 b] continuation_mod [of b] by simp
qed (simp add: UTF8_ACCEPT_def)

lemma run_middle:
  assumes "s \<in> {36, 48, 60, 72, 84, 96}" "u < 2 ^ 26" "\<forall>b \<in> set bs. b < 256"
  shows "utf8_run bs s u =
    (case bs of [] \<Rightarrow> ([], False)
     | b # r \<Rightarrow> if next_state s b = 12 then ([], False) else utf8_run r (next_state s b) (u * 64 + (b - 0x80)))"
proof (cases bs)
  case (Cons b r)
  have "s \<in> set utf8_states" "s \<noteq> 0" "b < 256" "\<forall>b \<in> set r. b < 256"
    using assms Cons by (auto simp: utf8_states_def)
  moreover have "next_state s b = 12 \<or> continuation b \<and> next_state s b \<noteq> 0"
    using assms(1) by (elim insertE) (simp_all add: next_state_def)
  ultimately show ?thesis
    using Cons run_step [of s b r u] decode_next [OF _ assms(2), of s b] continuation_mod [of b] by auto
qed (use assms(1) in \<open>auto simp: UTF8_ACCEPT_def\<close>)

text \<open>The first byte of a sequence, and the sequences that follow it.\<close>

lemma first_code:
  assumes "b < 256" "next_state 0 b \<noteq> 12"
  shows "snd (decode 0 u b) = (if b < 0x80 then b else if b < 0xE0 then b - 0xC0 else if b < 0xF0 then b - 0xE0 else b - 0xF0)"
proof -
  have m: "0xC0 \<le> b \<Longrightarrow> b < 0x100 \<Longrightarrow> b mod 64 = b - 0xC0"
    using mod_mult_self1 [of "b - 0xC0" 3 64] by simp
  have m': "0xE0 \<le> b \<Longrightarrow> b < 0x100 \<Longrightarrow> b mod 32 = b - 0xE0"
    using mod_mult_self1 [of "b - 0xE0" 7 32] by simp
  have m'': "0xF0 \<le> b \<Longrightarrow> b < 0xF4 \<Longrightarrow> b AND 3 = b - 0xF0"
    using mod_mult_self1 [of "b - 0xF0" 60 4] and_ones [of b 2] by simp
  consider "b < 0x80" | "0xC2 \<le> b" "b < 0xE0" | "b = 0xE0" | "b = 0xED" | "0xE0 < b" "b \<noteq> 0xED" "b < 0xF0" | "b = 0xF0"
    | "0xF0 < b" "b < 0xF4" | "b = 0xF4"
    using assms(2) unfolding next_state_def by (cases "b < 0xE0"; cases "b < 0xF0"; cases "b < 0xC2") force+
  then show ?thesis
    unfolding decode_first [OF assms(1)]
    by cases (use m m' m'' and_low_bits in \<open>simp_all add: byte_class_def and.commute [of _ b]\<close>)
qed

lemma run_two:
  assumes "u < 2 ^ 16" "\<forall>b \<in> set bs. b < 256" "s \<in> {36, 48, 60}"
  shows "utf8_run bs s u =
    (case bs of b # c # r \<Rightarrow>
       if next_state s b = 24 \<and> continuation c
       then apfst (append (code_units ((u * 64 + (b - 0x80)) * 64 + (c - 0x80)))) (utf8_run r 0 0) else ([], False)
     | _ \<Rightarrow> ([], False))"
proof (cases bs)
  case (Cons b r)
  have st: "next_state s b = 12 \<or> next_state s b = 24" using assms(3) by (elim insertE) (simp_all add: next_state_def)
  have "utf8_run bs s u = (if next_state s b = 12 then ([], False) else utf8_run r (next_state s b) (u * 64 + (b - 0x80)))"
    using run_middle [of s u bs] assms Cons by auto
  moreover have "b < 256" using assms(2) Cons by simp
  then have "u * 64 + (b - 0x80) < 2 ^ 26" using assms(1) by simp
  then have "utf8_run r 24 (u * 64 + (b - 0x80)) =
    (case r of [] \<Rightarrow> ([], False)
     | c # r \<Rightarrow> if continuation c then apfst (append (code_units ((u * 64 + (b - 0x80)) * 64 + (c - 0x80)))) (utf8_run r 0 0) else ([], False))"
    using assms Cons by (intro run_last) auto
  ultimately show ?thesis using st Cons by (cases r) auto
qed (use assms run_middle [of s u bs] in auto)

lemma run_three:
  assumes "u < 2 ^ 6" "\<forall>b \<in> set bs. b < 256" "s \<in> {72, 84, 96}"
  shows "utf8_run bs s u =
    (case bs of b # c # d # r \<Rightarrow>
       if next_state s b = 36 \<and> continuation c \<and> continuation d
       then apfst (append (code_units (((u * 64 + (b - 0x80)) * 64 + (c - 0x80)) * 64 + (d - 0x80)))) (utf8_run r 0 0) else ([], False)
     | _ \<Rightarrow> ([], False))"
proof (cases bs)
  case (Cons b r)
  have st: "next_state s b = 12 \<or> next_state s b = 36" using assms(3) by (elim insertE) (simp_all add: next_state_def)
  have "utf8_run bs s u = (if next_state s b = 12 then ([], False) else utf8_run r (next_state s b) (u * 64 + (b - 0x80)))"
    using run_middle [of s u bs] assms Cons by auto
  moreover have "b < 256" using assms(2) Cons by simp
  then have "u * 64 + (b - 0x80) < 2 ^ 16" using assms(1) by simp
  then have "utf8_run r 36 (u * 64 + (b - 0x80)) =
    (case r of c # d # r \<Rightarrow>
       if next_state 36 c = 24 \<and> continuation d
       then apfst (append (code_units (((u * 64 + (b - 0x80)) * 64 + (c - 0x80)) * 64 + (d - 0x80)))) (utf8_run r 0 0) else ([], False)
     | _ \<Rightarrow> ([], False))"
    using assms Cons by (intro run_two) auto
  moreover have "next_state 36 c = 24 \<longleftrightarrow> continuation c" for c by (simp add: next_state_def)
  moreover have "r = [] \<or> (\<exists>c. r = [c]) \<or> (\<exists>c d t. r = c # d # t)" by (metis list.exhaust)
  ultimately show ?thesis using st unfolding Cons by (elim disjE exE) simp_all
qed (use assms run_middle [of s u bs] in auto)

lemma run_char:
  assumes "\<forall>b \<in> set bs. b < 256" "bs \<noteq> []"
  shows "utf8_run bs 0 0 =
    (case utf8_char bs of None \<Rightarrow> ([], False)
     | Some (u, r) \<Rightarrow> apfst (append (code_units u)) (utf8_run r 0 0))"
proof -
  obtain b r where bs: "bs = b # r" using assms(2) by (cases bs) auto
  have b: "b < 256" and r: "\<forall>b \<in> set r. b < 256" using assms(1) bs by auto
  have step: "utf8_run bs 0 0 =
    (if next_state 0 b = 12 then ([], False)
     else if next_state 0 b = 0 then apfst (append (code_units (snd (decode 0 0 b)))) (utf8_run r 0 0)
     else utf8_run r (next_state 0 b) (snd (decode 0 0 b)))"
    using run_step [of 0 b r 0] b r bs by (simp add: utf8_states_def)
  note code = first_code [OF b, of 0]
  show ?thesis
  proof (cases "next_state 0 b = 12")
    case True
    then have "0x80 \<le> b \<and> b < 0xC2 \<or> 0xF4 < b" by (auto simp: next_state_def split: if_splits)
    then show ?thesis using step True bs by (auto simp: second_byte_def split: list.split)
  next
    case False
    consider "b < 0x80" | "0xC2 \<le> b" "b < 0xE0" | "0xE0 \<le> b" "b < 0xF0" | "0xF0 \<le> b" "b \<le> 0xF4"
      using False by (force simp: next_state_def split: if_splits)
    then show ?thesis
    proof cases
      case 1
      then show ?thesis using step code bs by (simp add: next_state_def)
    next
      case 2
      then have "next_state 0 b = 24" by (simp add: next_state_def)
      then show ?thesis
        using 2 step code bs run_last [of "b - 0xC0" r] r by (auto simp: second_byte_def split: list.split)
    next
      case 3
      define s where "s = next_state 0 b"
      have s: "s \<in> {36, 48, 60}" "next_state s c = 24 \<longleftrightarrow> second_byte b c" for c
        using 3 by (auto simp: s_def next_state_def second_byte_def)
      have "utf8_run bs 0 0 = utf8_run r s (b - 0xE0)" using step code 3 s(1) by (auto simp: s_def [symmetric])
      also have "\<dots> = (case r of c # d # r \<Rightarrow>
         if second_byte b c \<and> continuation d
         then apfst (append (code_units (((b - 0xE0) * 64 + (c - 0x80)) * 64 + (d - 0x80)))) (utf8_run r 0 0) else ([], False)
       | _ \<Rightarrow> ([], False))"
        using run_two [OF _ r s(1), of "b - 0xE0"] 3 s(2) by (simp split: list.split)
      finally show ?thesis using 3 bs by (auto split: list.split)
    next
      case 4
      define s where "s = next_state 0 b"
      have s: "s \<in> {72, 84, 96}" "next_state s c = 36 \<longleftrightarrow> second_byte b c" for c
        using 4 by (auto simp: s_def next_state_def second_byte_def)
      have "utf8_run bs 0 0 = utf8_run r s (b - 0xF0)" using step code 4 s(1) by (auto simp: s_def [symmetric])
      also have "\<dots> = (case r of c # d # e # r \<Rightarrow>
         if second_byte b c \<and> continuation d \<and> continuation e
         then apfst (append (code_units ((((b - 0xF0) * 64 + (c - 0x80)) * 64 + (d - 0x80)) * 64 + (e - 0x80)))) (utf8_run r 0 0) else ([], False)
       | _ \<Rightarrow> ([], False))"
        using run_three [OF _ r s(1), of "b - 0xF0"] 4 s(2) by (simp split: list.split)
      finally show ?thesis using 4 bs by (auto split: list.split)
    qed
  qed
qed

end
