(* ===== verification/Enc_Unicode.thy ===== *)
theory Enc_Unicode
  imports Enc_Utf8
begin

text \<open>
  What UTF-8 conversion promises: the decoder accepts exactly the well-formed sequences, the encoder
  produces them from every string without unpaired surrogates, and the two are inverse to each other.
\<close>

unbundle bit_operations_syntax

section \<open>The decoder and the reference\<close>

lemma utf8_char_rest: "utf8_char bs = Some (u, r) \<Longrightarrow> set r \<subseteq> set bs"
  by (cases bs) (auto split: if_splits list.splits)

lemma run_reference:
  "\<forall>b \<in> set bs. b < 256 \<Longrightarrow>
   (case utf8_reference bs of None \<Rightarrow> \<not> snd (utf8_run bs 0 0) | Some xs \<Rightarrow> utf8_run bs 0 0 = (xs, True))"
proof (induction bs rule: utf8_reference.induct)
  case (1 bs)
  show ?case
  proof (cases "bs = []")
    case True
    then show ?thesis by (simp add: utf8_reference.simps UTF8_ACCEPT_def)
  next
    case False
    show ?thesis
    proof (cases "utf8_char bs")
      case None
      then show ?thesis using run_char [OF "1.prems" False] False by (simp add: utf8_reference.simps)
    next
      case (Some p)
      then obtain u r where p: "utf8_char bs = Some (u, r)" by (cases p) auto
      then have "\<forall>b \<in> set r. b < 256" using utf8_char_rest "1.prems" by blast
      then show ?thesis
        using "1.IH" [OF False p refl] run_char [OF "1.prems" False] p False
        by (auto simp: utf8_reference.simps [of bs] split: option.splits)
    qed
  qed
qed

section \<open>Code points and their bytes\<close>

lemma or_high: "x < 0x40 \<Longrightarrow> x OR 0x80 = 0x80 + x" "x < 0x20 \<Longrightarrow> x OR 0xC0 = 0xC0 + x" "x < 0x10 \<Longrightarrow> x OR 0xE0 = 0xE0 + x"
  "x < 0x10 \<Longrightarrow> x OR 0xF0 = 0xF0 + x" for x :: nat
  using or_shifted [of x 6 2] or_shifted [of x 6 3] or_shifted [of x 5 7] or_shifted [of x 4 15]
  by (simp_all add: or.commute [of x])

lemma utf8_reversed_numerals:
  "utf8_reversed 2 u = [u mod 0x40, u div 0x40 mod 0x40]"
  "utf8_reversed 3 u = [u mod 0x40, u div 0x40 mod 0x40, u div 0x40 div 0x40 mod 0x40]"
  "utf8_reversed 4 u = [u mod 0x40, u div 0x40 mod 0x40, u div 0x40 div 0x40 mod 0x40, u div 0x40 div 0x40 div 0x40 mod 0x40]"
proof -
  have "utf8_reversed (Suc (Suc 0)) u = [u mod 0x40, u div 0x40 mod 0x40]"
    "utf8_reversed (Suc (Suc (Suc 0))) u = [u mod 0x40, u div 0x40 mod 0x40, u div 0x40 div 0x40 mod 0x40]"
    "utf8_reversed (Suc (Suc (Suc (Suc 0)))) u =
       [u mod 0x40, u div 0x40 mod 0x40, u div 0x40 div 0x40 mod 0x40, u div 0x40 div 0x40 div 0x40 mod 0x40]"
    by (simp_all only: utf8_reversed.simps and_low_bits) simp_all
  moreover have "2 = Suc (Suc 0)" "3 = Suc (Suc (Suc 0))" "4 = Suc (Suc (Suc (Suc 0)))" by simp_all
  ultimately show
    "utf8_reversed 2 u = [u mod 0x40, u div 0x40 mod 0x40]"
    "utf8_reversed 3 u = [u mod 0x40, u div 0x40 mod 0x40, u div 0x40 div 0x40 mod 0x40]"
    "utf8_reversed 4 u = [u mod 0x40, u div 0x40 mod 0x40, u div 0x40 div 0x40 mod 0x40, u div 0x40 div 0x40 div 0x40 mod 0x40]"
    by metis+
qed

lemma utf8_bytes_two: "0x80 \<le> u \<Longrightarrow> u < 0x800 \<Longrightarrow> utf8_bytes u = [0xC0 + u div 0x40, 0x80 + u mod 0x40]"
  by (simp add: utf8_bytes_def utf8_length_def utf8_reversed_numerals or_high)

lemma utf8_bytes_three:
  "0x800 \<le> u \<Longrightarrow> u < 0x10000 \<Longrightarrow> utf8_bytes u = [0xE0 + u div 0x40 div 0x40, 0x80 + u div 0x40 mod 0x40, 0x80 + u mod 0x40]"
  by (simp add: utf8_bytes_def utf8_length_def utf8_reversed_numerals or_high div_mult2_eq [symmetric])

lemma utf8_bytes_four:
  "0x10000 \<le> u \<Longrightarrow> u < 0x110000 \<Longrightarrow> utf8_bytes u =
    [0xF0 + u div 0x40 div 0x40 div 0x40, 0x80 + u div 0x40 div 0x40 mod 0x40, 0x80 + u div 0x40 mod 0x40, 0x80 + u mod 0x40]"
  by (simp add: utf8_bytes_def utf8_length_def utf8_reversed_numerals or_high div_mult2_eq [symmetric])

text \<open>Code points of Unicode, without the surrogates.\<close>

definition scalar :: "nat \<Rightarrow> bool" where
  "scalar u \<longleftrightarrow> u < 0x110000 \<and> \<not> (0xD800 \<le> u \<and> u \<le> 0xDFFF)"

lemma utf8_char_point:
  assumes "scalar u"
  shows "utf8_char (utf8_point u @ r) = Some (u, r)"
proof -
  define v where "v = u div 0x40"
  define w where "w = v div 0x40"
  have u: "u = v * 0x40 + u mod 0x40" and v: "v = w * 0x40 + v mod 0x40" and w: "w = w div 0x40 * 0x40 + w mod 0x40"
    by (simp_all add: v_def w_def)
  have m: "u mod 0x40 < 0x40" "v mod 0x40 < 0x40" "w mod 0x40 < 0x40" by simp_all
  consider "u < 0x80" | "0x80 \<le> u" "u < 0x800" | "0x800 \<le> u" "u < 0x10000" | "0x10000 \<le> u" "u < 0x110000"
    using assms by (force simp: scalar_def)
  then show ?thesis
  proof cases
    case 1
    then show ?thesis by (simp add: utf8_point_def)
  next
    case 2
    then have "utf8_point u = [0xC0 + v, 0x80 + u mod 0x40]" by (simp add: utf8_point_def utf8_bytes_two v_def)
    moreover have "2 \<le> v" "v < 0x20" using 2 u m by linarith+
    ultimately show ?thesis using m u by (simp add: second_byte_def)
  next
    case 3
    then have "utf8_point u = [0xE0 + w, 0x80 + v mod 0x40, 0x80 + u mod 0x40]"
      by (simp only: utf8_point_def utf8_bytes_three v_def w_def) simp
    moreover have "w < 0x10" "w = 0 \<Longrightarrow> 0x20 \<le> v mod 0x40" using 3 u v m by linarith+
    moreover have "w = 0xD \<Longrightarrow> v mod 0x40 < 0x20" using assms 3 u v m unfolding scalar_def by linarith
    ultimately show ?thesis using m u v by (auto simp: second_byte_def)
  next
    case 4
    then have "utf8_point u = [0xF0 + w div 0x40, 0x80 + w mod 0x40, 0x80 + v mod 0x40, 0x80 + u mod 0x40]"
      by (simp only: utf8_point_def utf8_bytes_four v_def w_def) simp
    moreover have "w div 0x40 \<le> 4" "w div 0x40 = 0 \<Longrightarrow> 0x10 \<le> w mod 0x40" "w div 0x40 = 4 \<Longrightarrow> w mod 0x40 < 0x10"
      using 4 u v w m by linarith+
    ultimately show ?thesis using m u v w by (auto simp: second_byte_def)
  qed
qed

lemma utf8_point_bytes:
  assumes "scalar u" "b \<in> set (utf8_point u)"
  shows "b < 256"
proof -
  define v where "v = u div 0x40"
  define w where "w = v div 0x40"
  have u: "u = v * 0x40 + u mod 0x40" and v: "v = w * 0x40 + v mod 0x40" and w: "w = w div 0x40 * 0x40 + w mod 0x40"
    by (simp_all add: v_def w_def)
  have m: "u mod 0x40 < 0x40" "v mod 0x40 < 0x40" "w mod 0x40 < 0x40" by simp_all
  consider "u < 0x80" | "0x80 \<le> u" "u < 0x800" | "0x800 \<le> u" "u < 0x10000" | "0x10000 \<le> u" "u < 0x110000"
    using assms by (force simp: scalar_def)
  then show ?thesis
  proof cases
    case 1
    then show ?thesis using assms by (simp add: utf8_point_def)
  next
    case 2
    then have "utf8_point u = [0xC0 + v, 0x80 + u mod 0x40]" by (simp add: utf8_point_def utf8_bytes_two v_def)
    then show ?thesis using 2 u m assms(2) by auto
  next
    case 3
    then have "utf8_point u = [0xE0 + w, 0x80 + v mod 0x40, 0x80 + u mod 0x40]"
      by (simp only: utf8_point_def utf8_bytes_three v_def w_def) simp
    moreover have "w < 0x10" using 3 u v m by linarith
    ultimately show ?thesis using m assms(2) by auto
  next
    case 4
    then have "utf8_point u = [0xF0 + w div 0x40, 0x80 + w mod 0x40, 0x80 + v mod 0x40, 0x80 + u mod 0x40]"
      by (simp only: utf8_point_def utf8_bytes_four v_def w_def) simp
    moreover have "w div 0x40 \<le> 4" using 4 u v w m by linarith
    ultimately show ?thesis using m assms(2) by auto
  qed
qed

lemma reference_points:
  assumes "\<forall>u \<in> set us. scalar u"
  shows "utf8_reference (concat (map utf8_point us)) = Some (concat (map code_units us))"
  using assms
proof (induction us)
  case (Cons u us)
  have "utf8_point u \<noteq> []" by (simp add: utf8_point_def utf8_bytes_def Let_def)
  then show ?case
    using Cons utf8_char_point [of u "concat (map utf8_point us)"] by (subst utf8_reference.simps) simp
qed (simp add: utf8_reference.simps)

section \<open>Strings and their code points\<close>

lemma code_units_surrogates:
  assumes "high_surrogate c" "low_surrogate c'"
  shows "code_units (surrogates c c') = [c, c']"
proof -
  have e: "surrogates c c' - 0x10000 = (c - 0xD800) * 0x400 + (c' - 0xDC00)" by (simp add: surrogates_def)
  have "(c - 0xD800) * 0x400 + (c' - 0xDC00) = (c - 0xD800) * 1024 + (c' - 0xDC00)" "c' - 0xDC00 < 1024"
    using assms by auto
  then have "((c - 0xD800) * 0x400 + (c' - 0xDC00)) div 2 ^ 10 = c - 0xD800" "((c - 0xD800) * 0x400 + (c' - 0xDC00)) mod 0x400 = c' - 0xDC00"
    by (simp_all add: digit)
  moreover have "c - 0xD800 < 0x400" using assms by auto
  then have "\<not> surrogates c c' < 0x10000" "(c - 0xD800) mod 0x400 = c - 0xD800" by (simp_all add: surrogates_def)
  ultimately show ?thesis using assms unfolding code_units_def e and_low_bits by simp
qed

lemma surrogates_scalar: "high_surrogate c \<Longrightarrow> low_surrogate c' \<Longrightarrow> scalar (surrogates c c')"
proof -
  assume c: "high_surrogate c" "low_surrogate c'"
  then have "c - 0xD800 < 0x400" "c' - 0xDC00 < 0x400" by auto
  then have "(c - 0xD800) * 0x400 + (c' - 0xDC00) + 0x10000 < 0x110000" by linarith
  then show ?thesis by (simp add: scalar_def surrogates_def)
qed

lemma surrogate_cases:
  obtains (1) "low_surrogate c" | (2) "high_surrogate c" "cs = []"
  | (3) c' cs' where "high_surrogate c" "cs = c' # cs'" "low_surrogate c'"
  | (4) c' cs' where "high_surrogate c" "cs = c' # cs'" "\<not> low_surrogate c'"
  | (5) "\<not> low_surrogate c" "\<not> high_surrogate c"
  by (cases cs) blast+

lemma clean_less: "\<forall>c \<in> set cs. c < 0x10000 \<Longrightarrow> \<forall>c \<in> set (GSPrivateCleanUnichars cs). c < 0x10000"
proof (induction cs rule: GSPrivateCleanUnichars.induct)
  case (2 c cs)
  show ?case
  proof (cases rule: surrogate_cases [where c = c and cs = cs])
    case 1
    then have "GSPrivateCleanUnichars (c # cs) = 0xFFFD # GSPrivateCleanUnichars cs" by simp
    then show ?thesis using "2.IH"(1) "2.prems" 1 by auto
  next
    case (3 c' cs')
    then have "GSPrivateCleanUnichars (c # cs) = c # c' # GSPrivateCleanUnichars cs'" by simp
    then show ?thesis using "2.IH"(2) [of c' cs'] "2.prems" 3 by auto
  next
    case (4 c' cs')
    then have "GSPrivateCleanUnichars (c # cs) = 0xFFFD # GSPrivateCleanUnichars cs" by auto
    then show ?thesis using "2.IH"(3) "2.prems" 4 by auto
  next
    case 5
    then have "GSPrivateCleanUnichars (c # cs) = c # GSPrivateCleanUnichars cs" by auto
    then show ?thesis using "2.IH"(4) "2.prems" 5 by auto
  qed (use "2.prems" in simp)
qed simp

lemma points_some:
  assumes "\<forall>c \<in> set cs. c < 0x10000"
  shows "Some u \<in> set (points cs) \<Longrightarrow> scalar u"
  using assms
proof (induction cs rule: points.induct)
  case (2 c cs)
  show ?case
  proof (cases rule: surrogate_cases [where c = c and cs = cs])
    case 1
    then show ?thesis using 2 by simp
  next
    case 2
    then show ?thesis using "2.prems" by simp
  next
    case (3 c' cs')
    then have "points (c # cs) = Some (surrogates c c') # points cs'" by simp
    then show ?thesis using "2.IH"(2) [of c' cs'] "2.prems" 3 surrogates_scalar [of c c'] by auto
  next
    case (4 c' cs')
    then have "points (c # cs) = None # points cs" by auto
    then show ?thesis using "2.IH"(3) [of c' cs'] "2.prems" 4 by auto
  next
    case 5
    then have "points (c # cs) = Some c # points cs" by auto
    then show ?thesis using "2.IH"(4) "2.prems" 5 by (auto simp: scalar_def)
  qed
qed simp

lemma points_units:
  "None \<notin> set (points cs) \<Longrightarrow> \<forall>c \<in> set cs. c < 0x10000 \<Longrightarrow> concat (map (\<lambda>p. code_units (the p)) (points cs)) = cs"
proof (induction cs rule: points.induct)
  case (2 c cs)
  show ?case
  proof (cases "high_surrogate c")
    case True
    then obtain c' cs' where c': "cs = c' # cs'" "low_surrogate c'"
      using "2.prems"(1) by (cases cs) (auto split: if_splits)
    then have "points (c # cs) = Some (surrogates c c') # points cs'" using True by simp
    then show ?thesis using "2.IH"(2) [OF _ True c'] "2.prems" True c' code_units_surrogates [OF True c'(2)] by simp
  next
    case False
    moreover have "\<not> low_surrogate c" using "2.prems"(1) by auto
    ultimately have "points (c # cs) = Some c # points cs" by auto
    then show ?thesis using "2.IH"(4) "2.prems" False by (auto simp: code_units_def split: if_splits)
  qed
qed simp

lemma points_clean:
  "points (GSPrivateCleanUnichars cs) = map (\<lambda>p. Some (case p of None \<Rightarrow> 0xFFFD | Some u \<Rightarrow> u)) (points cs)"
  by (induction cs rule: GSPrivateCleanUnichars.induct) (auto split: list.split)

section \<open>Checking strings\<close>

text \<open>The characters before the first surrogate without a partner.\<close>

definition paired :: "unichar list \<Rightarrow> nat" where
  "paired cs = length (concat (map (\<lambda>p. code_units (the p)) (takeWhile (\<lambda>p. p \<noteq> None) (points cs))))"

lemma scan_wide_points:
  "\<forall>c \<in> set cs. c < 0x10000 \<Longrightarrow> scan_wide given n cs i =
    (if None \<in> set (points cs) then if given then (n, True) else (i + paired cs, False) else (i + length cs, False))"
proof (induction cs arbitrary: i rule: points.induct)
  case (2 c cs)
  show ?case
  proof (cases rule: surrogate_cases [where c = c and cs = cs])
    case (3 c' cs')
    then have "points (c # cs) = Some (surrogates c c') # points cs'" "scan_wide given n (c # cs) i = scan_wide given n cs' (i + 2)"
      by simp_all
    then show ?thesis
      using "2.IH"(2) [of c' cs' "i + 2"] "2.prems" 3 code_units_surrogates [of c c'] by (simp add: paired_def)
  next
    case (4 c' cs')
    then have "points (c # cs) = None # points cs" "scan_wide given n (c # cs) i = (if given then (n, True) else (i, False))"
      by auto
    then show ?thesis by (simp add: paired_def)
  next
    case 5
    then have "points (c # cs) = Some c # points cs" "scan_wide given n (c # cs) i = scan_wide given n cs (i + 1)"
      by (auto simp: Let_def)
    then show ?thesis using "2.IH"(4) [of "i + 1"] "2.prems" 5 by (auto simp: paired_def code_units_def)
  qed (simp_all add: paired_def)
qed simp

lemma points_narrow: "\<forall>c \<in> set cs. c \<le> 255 \<Longrightarrow> points cs = map Some cs"
  by (induction cs) auto

lemma points_narrow_cons: "c \<le> 255 \<Longrightarrow> points (c # cs) = Some c # points cs" "c \<le> 255 \<Longrightarrow> paired (c # cs) = Suc (paired cs)"
  by (auto simp: paired_def code_units_def)

lemma scan_latin1_points:
  "\<forall>c \<in> set cs. c < 0x10000 \<Longrightarrow> scan_latin1 given n cs i =
    \<lparr>valid = (if None \<in> set (points cs) then if given then n else i + paired cs else i + length cs),
     isASCII = False, isLatin1 = (\<forall>c \<in> set cs. c \<le> 255), isBad = (given \<and> None \<in> set (points cs))\<rparr>"
proof (induction cs arbitrary: i)
  case (Cons c cs)
  show ?case
  proof (cases "255 < c")
    case True
    then show ?thesis using Cons.prems scan_wide_points [of "c # cs" given n i] by (simp del: scan_wide.simps points.simps)
  next
    case False
    then show ?thesis using Cons points_narrow_cons [of c cs] by (simp del: points.simps)
  qed
qed simp

lemma GSUnicode_points:
  assumes "\<forall>c \<in> set cs. c < 0x10000"
  shows "GSUnicode cs given =
    \<lparr>valid = (if None \<in> set (points cs) \<and> \<not> given then paired cs else length cs),
     isASCII = (\<forall>c \<in> set cs. c \<le> 127), isLatin1 = (\<forall>c \<in> set cs. c \<le> 255), isBad = (given \<and> None \<in> set (points cs))\<rparr>"
proof -
  have "scan_ascii given n cs i =
    \<lparr>valid = (if None \<in> set (points cs) then if given then n else i + paired cs else i + length cs),
     isASCII = (\<forall>c \<in> set cs. c \<le> 127), isLatin1 = (\<forall>c \<in> set cs. c \<le> 255), isBad = (given \<and> None \<in> set (points cs))\<rparr>" for n i
    using assms
  proof (induction cs arbitrary: i)
    case (Cons c cs)
    show ?case
    proof (cases "127 < c")
      case True
      then show ?thesis using Cons.prems scan_latin1_points [of "c # cs" given n i] by (simp del: scan_latin1.simps points.simps)
    next
      case False
      then show ?thesis using Cons points_narrow_cons [of c cs] by (simp del: points.simps)
    qed
  qed simp
  then show ?thesis by (simp add: GSUnicode_def)
qed

section \<open>Properties\<close>

text \<open>A conversion that may write and has the memory for it.\<close>

definition ready :: "job \<Rightarrow> nat \<Rightarrow> bool" where
  "ready j n \<longleftrightarrow> sane j n \<and> dst j \<and> \<not> short j"

lemma unswapped_False [simp]: "unswapped False = (\<lambda>u. u)"
  by (simp add: unswapped_def fun_eq_iff)

lemma from_unicode:
  assumes "ready j (length cs)" "\<not> bom j" "encodable enc cs"
  shows "if snd (encoded (words_bigendian j) (strict j) enc cs)
    then delivers j 0 (GSFromUnicode j enc cs) (fst (encoded (words_bigendian j) (strict j) enc cs))
    else refuses (GSFromUnicode j enc cs)"
  using GSFromUnicode_answers [of j cs False cs enc] assms
  by (simp add: ready_def answers_def encode_start_def encodable_def)

lemma to_unicode:
  assumes "ready j (length bs)" "readable enc bs"
  shows "if snd (decoded (words_bigendian j) enc bs)
    then delivers j 0 (GSToUnicode j enc bs) (mark j @ fst (decoded (words_bigendian j) enc bs))
    else refuses (GSToUnicode j enc bs)"
  using GSToUnicode_answers [of j bs enc] assms by (simp add: ready_def answers_def)

lemma utf8_bytes_decode:
  assumes "ready j (length bs)" "\<forall>b \<in> set bs. b < 256"
  shows "case utf8_reference bs of
      Some cs \<Rightarrow> delivers j 0 (GSToUnicode j NSUTF8StringEncoding bs) (mark j @ cs)
    | None \<Rightarrow> refuses (GSToUnicode j NSUTF8StringEncoding bs)"
  using to_unicode [OF assms(1), of NSUTF8StringEncoding] run_reference [OF assms(2)] assms(2)
  by (auto simp: readable_def decoded_def split: option.split)

lemma encoded_utf8: "encoded big b NSUTF8StringEncoding cs = utf8_stream b cs"
  by (simp add: encoded_def)

lemma emitted_options:
  "\<not> (None \<in> set xs \<and> b) \<Longrightarrow> emitted b (f d) (map (map_option f) xs) = (concat (map (\<lambda>p. f (case p of None \<Rightarrow> d | Some u \<Rightarrow> u)) xs), True)"
proof (induction xs)
  case (Cons x xs)
  then show ?case by (cases x) auto
qed simp

lemma units_of_points:
  assumes "\<forall>c \<in> set cs. c < 0x10000"
  shows "concat (map (\<lambda>p. code_units (case p of None \<Rightarrow> 0xFFFD | Some u \<Rightarrow> u)) (points cs)) =
    (if None \<in> set (points cs) then GSPrivateCleanUnichars cs else cs)"
proof (cases "None \<in> set (points cs)")
  case False
  have eq: "map (\<lambda>p. code_units (case p of None \<Rightarrow> 0xFFFD | Some u \<Rightarrow> u)) (points cs) = map (\<lambda>p. code_units (the p)) (points cs)"
    using False by (intro map_cong) (auto split: option.split)
  show ?thesis unfolding eq using False points_units [OF False assms] by simp
next
  case True
  have "None \<notin> set (points (GSPrivateCleanUnichars cs))" by (auto simp: points_clean)
  from points_units [OF this clean_less [OF assms]] show ?thesis
    using True by (simp add: points_clean comp_def)
qed

text \<open>C10. UTF-8 is decoded exactly as the Unicode standard defines it: with enough memory \<^verbatim>\<open>GSToUnicode\<close> delivers the
  characters of a well-formed sequence of bytes, after the byte order mark if one is wanted, and refuses every other.\<close>

theorem utf8_decoding:
  assumes "ready j (length bs)" "\<forall>b \<in> set bs. b < 256"
  shows "case utf8_reference bs of
      Some cs \<Rightarrow> delivers j 0 (GSToUnicode j NSUTF8StringEncoding bs) (mark j @ cs)
    | None \<Rightarrow> refuses (GSToUnicode j NSUTF8StringEncoding bs)"
  using assms by (rule utf8_bytes_decode)

text \<open>A host on which the witnesses are run: little endian, with all the memory a conversion asks for.\<close>

definition roomy :: "bool \<Rightarrow> job" where
  "roomy is_strict = \<lparr>dst = True, size_arg = 0, zone = True, alloc = (\<lambda>_. True), strict = is_strict, terminate = False,
     temporary = False, bom = False, short_ok = False, words_bigendian = False, BUFSIZ = 8192\<rparr>"

lemma roomy_ready: "n \<le> 2 ^ 26 \<Longrightarrow> ready (roomy b) n"
  by (simp add: ready_def sane_def short_def roomy_def)

lemma roomy_simps [simp]:
  "mark (roomy b) = []" "bom (roomy b) = False" "strict (roomy b) = b" "words_bigendian (roomy b) = False" "dst (roomy b)"
  by (simp_all add: mark_def roomy_def)

theorem utf8_decoding_witness:
  "delivers (roomy True) 0 (GSToUnicode (roomy True) NSUTF8StringEncoding [0xC3, 0xA9, 0x41]) [0xE9, 0x41] \<and>
   refuses (GSToUnicode (roomy True) NSUTF8StringEncoding [0xC0, 0x80])"
  using utf8_decoding [of "roomy True" "[0xC3, 0xA9, 0x41]"] utf8_decoding [of "roomy True" "[0xC0, 0x80]"]
  by (simp add: roomy_ready utf8_reference.simps second_byte_def code_units_def)

text \<open>C9. With enough memory a 16-bit string in which \<^verbatim>\<open>GSUnicode\<close> finds nothing bad is converted to UTF-8 and back
  unchanged; a strict conversion refuses one with a surrogate that has no partner, and a lossy one converts it as
  \<^verbatim>\<open>GSPrivateCleanUnichars\<close> cleans it.\<close>

theorem utf8_roundtrip:
  assumes "ready j (length cs)" "ready j' (6 * length cs)" "\<not> bom j" "\<not> bom j'" "\<forall>c \<in> set cs. c < 0x10000"
  shows "if isBad (GSUnicode cs True) \<and> strict j then refuses (GSFromUnicode j NSUTF8StringEncoding cs)
    else \<exists>bs. delivers j 0 (GSFromUnicode j NSUTF8StringEncoding cs) bs \<and>
      delivers j' 0 (GSToUnicode j' NSUTF8StringEncoding bs)
        (if isBad (GSUnicode cs True) then GSPrivateCleanUnichars cs else cs)"
proof -
  define us where "us = map (\<lambda>p. case p of None \<Rightarrow> 0xFFFD | Some u \<Rightarrow> u) (points cs)"
  define bs where "bs = concat (map utf8_point us)"
  have bad: "isBad (GSUnicode cs True) \<longleftrightarrow> None \<in> set (points cs)" by (simp add: GSUnicode_points [OF assms(5)])
  have from': "if snd (utf8_stream (strict j) cs)
    then delivers j 0 (GSFromUnicode j NSUTF8StringEncoding cs) (fst (utf8_stream (strict j) cs))
    else refuses (GSFromUnicode j NSUTF8StringEncoding cs)"
    using from_unicode [OF assms(1,3), of NSUTF8StringEncoding, unfolded encoded_utf8] assms(5) by (simp add: encodable_def)
  have scalars: "\<forall>u \<in> set us. scalar u"
    using points_some [OF assms(5)] by (auto simp: us_def scalar_def split: option.splits)
  have units: "concat (map code_units us) = (if None \<in> set (points cs) then GSPrivateCleanUnichars cs else cs)"
    using units_of_points [OF assms(5)] by (simp add: us_def comp_def)
  show ?thesis
  proof (cases "None \<in> set (points cs) \<and> strict j")
    case True
    then have "\<not> snd (utf8_stream (strict j) cs)" by (auto simp: utf8_stream_def emitted_def)
    then show ?thesis using from' bad True by simp
  next
    case False
    then have out: "utf8_stream (strict j) cs = (bs, True)"
      using emitted_options [of "points cs" "strict j"] by (simp add: utf8_stream_def bs_def us_def comp_def)
    have "length bs \<le> 6 * length cs"
      using encoded_length [of False "strict j" NSUTF8StringEncoding cs] out by (simp add: encoded_def)
    then have r: "ready j' (length bs)" using assms(2) by (auto simp: ready_def sane_def)
    have "\<forall>b \<in> set bs. b < 256" using utf8_point_bytes scalars by (auto simp: bs_def)
    from utf8_bytes_decode [OF r this] reference_points [OF scalars]
    have "delivers j' 0 (GSToUnicode j' NSUTF8StringEncoding bs) (if None \<in> set (points cs) then GSPrivateCleanUnichars cs else cs)"
      using assms(4) units by (simp add: bs_def [symmetric] mark_def)
    then show ?thesis using from' out bad False by auto
  qed
qed

theorem utf8_roundtrip_witness:
  "\<exists>bs. delivers (roomy True) 0 (GSFromUnicode (roomy True) NSUTF8StringEncoding [0x41, 0xD83D, 0xDE00]) bs \<and>
     delivers (roomy True) 0 (GSToUnicode (roomy True) NSUTF8StringEncoding bs) [0x41, 0xD83D, 0xDE00]"
  using utf8_roundtrip [of "roomy True" "[0x41, 0xD83D, 0xDE00]" "roomy True"]
  by (simp add: roomy_ready GSUnicode_def)

end
