(* ===== verification/Enc_Charset_Props.thy ===== *)
theory Enc_Charset_Props
  imports Enc_Unicode
begin

text \<open>
  The encodings with one byte for each character: an interface for pairs of tables that agree, its interpretations on the tables of
  the library, and what it gives for the conversions.
\<close>

section \<open>Pairs of tables\<close>

definition byte_of :: "nat \<Rightarrow> ucc list \<Rightarrow> unichar \<Rightarrow> nat option" where
  "byte_of lo T u = (if u < lo then Some u else map_of T u)"

locale byte_charset =
  fixes lo :: nat and tab :: "unichar list" and T :: "ucc list"
  assumes order: "ascending_in 0 0xFFFF T"
    and reads: "(u, b) \<in> set T \<Longrightarrow> lo \<le> b \<and> b < lo + length tab \<and> tab ! (b - lo) = u"
    and high: "(u, b) \<in> set T \<Longrightarrow> lo \<le> u"
begin

lemma char_byte: "byte_of lo T u = Some b \<Longrightarrow> table_char lo tab b = u \<and> b < lo + length tab"
  using reads [of u b] by (auto simp: byte_of_def table_char_def dest: map_of_SomeD split: if_splits)

lemma distinct_chars: "distinct (map fst T)"
  using ascending_in_sorted [OF order] by (simp add: strict_sorted_iff)

end

text \<open>Tables that have a character for every byte.\<close>

locale full_charset = byte_charset +
  assumes full: "length T = length tab"
begin

lemma all_bytes: "snd ` set T = {lo..<lo + length tab}"
proof (rule card_subset_eq)
  have "inj_on snd (set T)"
    by (auto intro!: inj_onI) (metis reads)
  moreover have "distinct T" using distinct_chars by (simp add: distinct_map)
  ultimately show "card (snd ` set T) = card {lo..<lo + length tab}"
    using full by (simp add: card_image distinct_card)
  show "snd ` set T \<subseteq> {lo..<lo + length tab}" using reads by force
qed simp

lemma byte_char:
  assumes "b < lo + length tab"
  shows "byte_of lo T (table_char lo tab b) = Some b"
proof (cases "b < lo")
  case True
  then show ?thesis by (simp add: byte_of_def table_char_def)
next
  case False
  then have "b \<in> snd ` set T" using assms all_bytes by auto
  then obtain u where u: "(u, b) \<in> set T" by auto
  then have "table_char lo tab b = u" "map_of T u = Some b" "\<not> u < lo"
    using reads [OF u] high [OF u] distinct_chars by (auto simp: table_char_def)
  then show ?thesis by (simp add: byte_of_def)
qed

lemma inverse:
  assumes "\<forall>b \<in> set bs. b < lo + length tab"
  shows "map (byte_of lo T) cs = map Some bs \<longleftrightarrow> cs = map (table_char lo tab) bs"
proof
  assume e: "map (byte_of lo T) cs = map Some bs"
  show "cs = map (table_char lo tab) bs"
  proof (rule nth_equalityI)
    show "length cs = length (map (table_char lo tab) bs)" using map_eq_imp_length_eq [OF e] by simp
    fix i assume i: "i < length cs"
    then have "byte_of lo T (cs ! i) = Some (bs ! i)"
      using arg_cong [OF e, of "\<lambda>xs. xs ! i"] map_eq_imp_length_eq [OF e] by simp
    then show "cs ! i = map (table_char lo tab) bs ! i" using char_byte i map_eq_imp_length_eq [OF e] by simp
  qed
qed (use assms byte_char in \<open>simp add: comp_def\<close>)

end

section \<open>The tables of the library\<close>

lemma read_backD:
  assumes "list_all (read_back f lo n) T" "fits f lo tab" "length tab = n" "(u, b) \<in> set T"
  shows "lo \<le> b \<and> b < lo + length tab \<and> tab ! (b - lo) = u"
  using assms fits_nth [OF assms(2), of "b - lo"] by (fastforce simp: list_all_iff read_back_def)

lemma ascending_high: "ascending_in lo hi T \<Longrightarrow> (u, b) \<in> set T \<Longrightarrow> lo \<le> u"
  using ascending_in_bounds by fastforce

lemma uni_to_char_high:
  "ascending_in 0x80 0xFFFF Latin2_uni_to_char_table" "ascending_in 0x80 0xFFFF Latin9_uni_to_char_table"
  "ascending_in 0x80 0xFFFF Cyrillic_uni_to_char_table" "ascending_in 0x80 0xFFFF Next_uni_to_char_table"
  by (simp_all add: Latin2_uni_to_char_table_def Latin9_uni_to_char_table_def Cyrillic_uni_to_char_table_def Next_uni_to_char_table_def)

interpretation latin2: full_charset "0x80" Latin2_char_to_uni_table Latin2_uni_to_char_table
  by unfold_locales
    (use Latin2_uni_to_char_table_ascending Latin2_fits read_backD [OF Latin2_read_back Latin2_fits] ascending_high [OF uni_to_char_high(1)]
      in \<open>auto\<close>)

interpretation latin9: full_charset "0x80" Latin9_char_to_uni_table Latin9_uni_to_char_table
  by unfold_locales
    (use Latin9_uni_to_char_table_ascending Latin9_fits read_backD [OF Latin9_read_back Latin9_fits] ascending_high [OF uni_to_char_high(2)]
      in \<open>auto\<close>)

interpretation cyrillic: full_charset "0x80" Cyrillic_char_to_uni_table Cyrillic_uni_to_char_table
  by unfold_locales
    (use Cyrillic_uni_to_char_table_ascending Cyrillic_fits read_backD [OF Cyrillic_read_back Cyrillic_fits]
      ascending_high [OF uni_to_char_high(3)] in \<open>auto\<close>)

interpretation nextstep: byte_charset "0x80" Next_char_to_uni_table Next_uni_to_char_table
  by unfold_locales
    (use Next_uni_to_char_table_ascending Next_fits read_backD [OF Next_read_back Next_fits] ascending_high [OF uni_to_char_high(4)]
      in \<open>auto\<close>)

text \<open>The bytes of a character in the sets of the model.\<close>

lemma charset_bytes_tables:
  assumes "charset_of b enc = Some k"
  shows "enc = NSISOLatin2StringEncoding \<Longrightarrow> charset_bytes k u = map_option (\<lambda>b. [b]) (byte_of 0x80 Latin2_uni_to_char_table u)"
    "enc = NSISOLatin9StringEncoding \<Longrightarrow> charset_bytes k u = map_option (\<lambda>b. [b]) (byte_of 0x80 Latin9_uni_to_char_table u)"
    "enc = NSISOCyrillicStringEncoding \<Longrightarrow> charset_bytes k u = map_option (\<lambda>b. [b]) (byte_of 0x80 Cyrillic_uni_to_char_table u)"
    "enc = NSNEXTSTEPStringEncoding \<Longrightarrow> u \<le> 0xFB02 \<Longrightarrow> charset_bytes k u = map_option (\<lambda>b. [b]) (byte_of 0x80 Next_uni_to_char_table u)"
  using assms Next_lookup [of u]
  by (auto simp: charset_of_def charset_bytes_def plain_charset_def table_lookups byte_of_def Latin2_conv_base_def Latin9_conv_base_def Cyrillic_conv_base_def Next_conv_base_def
      split: option.split)

section \<open>Strings\<close>

text \<open>A strict conversion with one byte for each character.\<close>

lemma emitted_bytes:
  "emitted True d (map (\<lambda>u. map_option (\<lambda>b. [b]) (f u)) cs) = (bs, True) \<longleftrightarrow> map f cs = map Some bs"
proof (induction cs arbitrary: bs)
  case (Cons c cs)
  show ?case
  proof (cases "f c")
    case (Some b)
    then show ?thesis using Cons [of "tl bs"] by (cases bs) (auto simp: prod_eq_iff)
  qed (auto simp: Cons)
qed auto

text \<open>What is delivered is determined, and a conversion that delivers does not refuse.\<close>

lemma delivers_Go:
  assumes "delivers j z m xs"
  obtains c where "m = Some (Go c)" "ok c"
    "target c = Held (xs @ (if terminate j then [z] else [])) \<or> target c = Fresh (xs @ (if terminate j then [z] else []))"
  using assms by (simp add: delivers_def split: option.splits flow.splits)

lemma delivers_unique:
  assumes "delivers j z m xs" "delivers j z m ys"
  shows "xs = ys"
proof -
  obtain c where c: "m = Some (Go c)"
    "target c = Held (xs @ (if terminate j then [z] else [])) \<or> target c = Fresh (xs @ (if terminate j then [z] else []))"
    using assms(1) by (rule delivers_Go)
  obtain c' where "m = Some (Go c')"
    "target c' = Held (ys @ (if terminate j then [z] else [])) \<or> target c' = Fresh (ys @ (if terminate j then [z] else []))"
    using assms(2) by (rule delivers_Go)
  with c have "xs @ (if terminate j then [z] else []) = ys @ (if terminate j then [z] else [])" by force
  then show ?thesis by simp
qed

lemma delivers_not_refuses: "delivers j z m xs \<Longrightarrow> \<not> refuses m"
  by (erule delivers_Go) (simp add: refuses_def)

lemma delivered_iff:
  assumes "if snd e then delivers j z m (fst e) else refuses m"
  shows "delivers j z m xs \<longleftrightarrow> e = (xs, True)" "refuses m \<or> (\<exists>xs. delivers j z m xs)"
proof -
  show "delivers j z m xs \<longleftrightarrow> e = (xs, True)"
    using assms delivers_unique [of j z m xs "fst e"] delivers_not_refuses [of j z m xs] by (cases e) (auto split: if_splits)
  show "refuses m \<or> (\<exists>xs. delivers j z m xs)" using assms by (auto split: if_splits)
qed

lemma encoded_charset:
  "charset_of b enc = Some k \<Longrightarrow> encoded big b enc cs = emitted b [0x3F] (map (charset_bytes k) cs)"
  by (cases enc) (auto simp: encoded_def charset_of_def)

lemma encoded_bytes:
  assumes "charset_of True enc = Some k" "\<And>u. u \<in> set cs \<Longrightarrow> charset_bytes k u = map_option (\<lambda>b. [b]) (f u)"
  shows "encoded big True enc cs = (bs, True) \<longleftrightarrow> map f cs = map Some bs"
proof -
  have "map (charset_bytes k) cs = map (\<lambda>u. map_option (\<lambda>b. [b]) (f u)) cs" using assms(2) by (intro map_cong) auto
  then show ?thesis using encoded_charset [OF assms(1), of big cs] emitted_bytes [of "[0x3F]" f cs bs] by metis
qed

text \<open>The encodings whose tables have a character for every byte.\<close>

definition round_charset :: "NSStringEncoding \<Rightarrow> bool" where
  "round_charset enc \<longleftrightarrow> enc \<in> {NSISOLatin2StringEncoding, NSISOLatin9StringEncoding, NSISOCyrillicStringEncoding}"

lemma round_charset_inverse:
  assumes "round_charset enc" "\<forall>b \<in> set bs. b < 256"
  shows "encoded big True enc cs = (bs, True) \<longleftrightarrow> decoded big' enc bs = (cs, True)"
proof -
  consider "enc = NSISOLatin2StringEncoding" | "enc = NSISOLatin9StringEncoding" | "enc = NSISOCyrillicStringEncoding"
    using assms(1) by (auto simp: round_charset_def)
  then show ?thesis
  proof cases
    case 1
    then obtain k where k: "charset_of True enc = Some k" by (simp add: charset_of_def)
    show ?thesis
      unfolding encoded_bytes [OF k charset_bytes_tables(1) [OF k 1]]
      using latin2.inverse [of bs cs] assms(2) Latin2_fits 1 by (auto simp: decoded_def Latin2_conv_base_def)
  next
    case 2
    then obtain k where k: "charset_of True enc = Some k" by (simp add: charset_of_def)
    show ?thesis
      unfolding encoded_bytes [OF k charset_bytes_tables(2) [OF k 2]]
      using latin9.inverse [of bs cs] assms(2) Latin9_fits 2 by (auto simp: decoded_def Latin9_conv_base_def)
  next
    case 3
    then obtain k where k: "charset_of True enc = Some k" by (simp add: charset_of_def)
    show ?thesis
      unfolding encoded_bytes [OF k charset_bytes_tables(3) [OF k 3]]
      using cyrillic.inverse [of bs cs] assms(2) Cyrillic_fits 3 by (auto simp: decoded_def Cyrillic_conv_base_def)
  qed
qed

section \<open>Properties\<close>

text \<open>C26. ISO Latin 2, ISO Latin 9 and ISO Cyrillic: with enough memory every sequence of bytes is decoded, and a strict encoder is exactly the
  inverse of the decoder: it delivers the bytes that are decoded to the string, and refuses a string if there are none.\<close>

theorem charset_roundtrip:
  assumes "enc \<in> {NSISOLatin2StringEncoding, NSISOLatin9StringEncoding, NSISOCyrillicStringEncoding}"
    "ready j (length cs)" "ready j' (length bs)" "\<not> bom j" "\<not> bom j'" "strict j"
    "\<forall>c \<in> set cs. c < 0x10000" "\<forall>b \<in> set bs. b < 256"
  shows "(\<exists>us. delivers j' 0 (GSToUnicode j' enc bs) us) \<and>
    (refuses (GSFromUnicode j enc cs) \<or> (\<exists>bytes. delivers j 0 (GSFromUnicode j enc cs) bytes)) \<and>
    (delivers j 0 (GSFromUnicode j enc cs) bs \<longleftrightarrow> delivers j' 0 (GSToUnicode j' enc bs) cs)"
proof -
  have enc: "round_charset enc" using assms(1) by (simp add: round_charset_def)
  have "encodable enc cs" "readable enc bs" using assms(1,7,8) by (auto simp: encodable_def readable_def)
  note to = to_unicode [OF assms(3) this(2)] and out = from_unicode [OF assms(2,4) this(1)]
  have "snd (decoded (words_bigendian j') enc bs)" using assms(1) by (auto simp: decoded_def)
  then have to': "if snd (decoded (words_bigendian j') enc bs)
      then delivers j' 0 (GSToUnicode j' enc bs) (fst (decoded (words_bigendian j') enc bs))
      else refuses (GSToUnicode j' enc bs)" "\<exists>us. delivers j' 0 (GSToUnicode j' enc bs) us"
    using to assms(5) by (auto simp: mark_def)
  show ?thesis
    using delivered_iff(1) [OF out, of bs] delivered_iff(2) [OF out] delivered_iff(1) [OF to'(1), of cs] to'(2) assms(6)
      round_charset_inverse [OF enc assms(8), where big = "words_bigendian j" and cs = cs and big' = "words_bigendian j'"] by simp
qed

lemma latin9_euro:
  "delivers (roomy True) 0 (GSToUnicode (roomy True) NSISOLatin9StringEncoding [0x41, 0xA4]) [0x41, 0x20AC]"
  using to_unicode [of "roomy True" "[0x41, 0xA4]" NSISOLatin9StringEncoding]
  by (simp add: roomy_ready readable_def decoded_def table_char_def Latin9_conv_base_def Latin9_char_to_uni_table_def)

theorem charset_roundtrip_witness:
  "delivers (roomy True) 0 (GSFromUnicode (roomy True) NSISOLatin9StringEncoding [0x41, 0x20AC]) [0x41, 0xA4]"
  using charset_roundtrip [of NSISOLatin9StringEncoding "roomy True" "[0x41, 0x20AC]" "roomy True" "[0x41, 0xA4]"] latin9_euro
  by (simp add: roomy_ready)

end
