(* ===== verification/Enc_Props.thy ===== *)
theory Enc_Props
  imports Enc_Charset_Props
begin

text \<open>
  The encodings that keep every string of 16-bit characters, that conversions stay inside their buffers, and the inputs
  for which they do not.
\<close>

unbundle bit_operations_syntax

section \<open>Byte orders\<close>

lemma store16_order:
  assumes "u < 0x10000"
  obtains a b where "store16 big (unswapped (big \<noteq> order) u) = [a, b]" "host16 order a b = u" "a < 256" "b < 256"
proof (cases "big = order")
  case True
  then show ?thesis using that by (auto intro: host16_store16 [OF assms, of order])
next
  case False
  obtain a b where s: "store16 big (GSUnicodeSwap16 u) = [a, b]" "host16 big a b = GSUnicodeSwap16 u" "a < 256" "b < 256"
    by (rule host16_store16 [OF GSUnicodeSwap16_less [OF assms]])
  have "host16 (\<not> big) a b = u" using swap_host(1) [OF s(3,4), of big] s(2) assms by simp
  then show ?thesis using that [of a b] s False by (auto simp: unswapped_def)
qed

lemma store32_order:
  assumes "u < 2 ^ 32"
  obtains a b c d where "utf32_bytes big (big \<noteq> order) u = [a, b, c, d]" "host32 order a b c d = u"
    "a < 256" "b < 256" "c < 256" "d < 256"
proof (cases "big = order")
  case True
  then show ?thesis using that by (auto simp: utf32_bytes_def intro: host32_store32 [OF assms, of order])
next
  case False
  obtain a b c d where s: "store32 big (GSUnicodeSwap32 u) = [a, b, c, d]" "host32 big a b c d = GSUnicodeSwap32 u"
    "a < 256" "b < 256" "c < 256" "d < 256"
    by (rule host32_store32 [OF GSUnicodeSwap32_less_twice(1) [OF assms]])
  have "host32 (\<not> big) a b c d = u"
    using swap_host(2) [OF s(3-6), of big] s(2) GSUnicodeSwap32_less_twice(2) [OF assms] by simp
  then show ?thesis using that [of a b c d] s False by (auto simp: utf32_bytes_def)
qed

lemma host_order:
  "a < 256 \<Longrightarrow> b < 256 \<Longrightarrow> (if big \<noteq> order then GSUnicodeSwap16 (host16 big a b) else host16 big a b) = host16 order a b"
  "a < 256 \<Longrightarrow> b < 256 \<Longrightarrow> c < 256 \<Longrightarrow> d < 256 \<Longrightarrow>
    (if big \<noteq> order then GSUnicodeSwap32 (host32 big a b c d) else host32 big a b c d) = host32 order a b c d"
  using swap_host(1) [of a b big] swap_host(2) [of a b c d big] by (cases big; cases order; simp)+

section \<open>UTF-16\<close>

lemma utf16_order:
  "\<forall>c \<in> set cs. c < 0x10000 \<Longrightarrow>
    utf16_units big' (big' \<noteq> order) (concat (map (\<lambda>u. store16 big (unswapped (big \<noteq> order) u)) cs)) = cs \<and>
    (\<forall>b \<in> set (concat (map (\<lambda>u. store16 big (unswapped (big \<noteq> order) u)) cs)). b < 256)"
proof (induction cs)
  case (Cons c cs)
  then have "c < 0x10000" by simp
  then obtain a b where "store16 big (unswapped (big \<noteq> order) c) = [a, b]" "host16 order a b = c" "a < 256" "b < 256"
    by (rule store16_order)
  then show ?case using Cons host_order(1) [of a b big' order] by simp
qed simp

section \<open>UTF-32\<close>

lemma utf32_order:
  "\<forall>u \<in> set us. u < 2 ^ 32 \<Longrightarrow>
    utf32_units big' (big' \<noteq> order) (concat (map (utf32_bytes big (big \<noteq> order)) us)) = concat (map code_units us) \<and>
    (\<forall>b \<in> set (concat (map (utf32_bytes big (big \<noteq> order)) us)). b < 256)"
proof (induction us)
  case (Cons u us)
  then have "u < 2 ^ 32" by simp
  then obtain a b c d where "utf32_bytes big (big \<noteq> order) u = [a, b, c, d]" "host32 order a b c d = u"
    "a < 256" "b < 256" "c < 256" "d < 256"
    by (rule store32_order)
  then show ?case using Cons host_order(2) [of a b c d big' order] by simp
qed simp

lemma joined_units:
  "\<forall>c \<in> set cs. c < 0x10000 \<Longrightarrow>
    concat (map code_units (joined cs)) = cs \<and> (\<forall>u \<in> set (joined cs). u < 2 ^ 32)"
proof (induction cs rule: joined.induct)
  case (3 c c' cs)
  then show ?case
    using code_units_surrogates [of c c'] surrogates_scalar [of c c'] by (auto simp: code_units_def [of c] scalar_def)
qed (simp_all add: code_units_def)

section \<open>Escapes\<close>

lemma octal_digits:
  assumes "d < 8"
  shows "octdigit (octchar d) \<and> octchar d - 0x30 = d \<and> octchar d < 128"
proof -
  have "list_all (\<lambda>d. octdigit (octchar d) \<and> octchar d - 0x30 = d \<and> octchar d < 128) [0..<8]" by code_simp
  then show ?thesis using assms by (simp add: list_all_iff)
qed

lemma hex_digits:
  assumes "d < 16"
  shows "isxdigit (hexchar d) \<and> hex_value (hexchar d) = d \<and> hexchar d < 128"
proof -
  have "list_all (\<lambda>d. isxdigit (hexchar d) \<and> hex_value (hexchar d) = d \<and> hexchar d < 128) [0..<16]" by code_simp
  then show ?thesis using assms by (simp add: list_all_iff)
qed

lemma octal_value: "u < 256 \<Longrightarrow> (u div 64 mod 8 * 8 + u div 8 mod 8) * 8 + u mod 8 = u" for u :: nat
proof -
  assume "u < 256"
  then have "u div 8 div 8 < 8" "u div 64 = u div 8 div 8"
    by (simp_all add: div_mult2_eq [symmetric] less_mult_imp_div_less)
  then show ?thesis by simp
qed

lemma hex_value_digits:
  "u < 0x10000 \<Longrightarrow> ((u div 4096 mod 16 * 16 + u div 256 mod 16) * 16 + u div 16 mod 16) * 16 + u mod 16 = u" for u :: nat
proof -
  assume "u < 0x10000"
  then have "u div 16 div 16 div 16 < 16" "u div 256 = u div 16 div 16" "u div 4096 = u div 16 div 16 div 16"
    by (simp_all add: div_mult2_eq [symmetric] less_mult_imp_div_less)
  then show ?thesis by (simp del: div_mult2_eq)
qed

lemma escaped_char:
  assumes "u < 0x10000"
  shows "escaped_count (escaped_bytes u @ r) n = escaped_count r (n + 1) \<and> unescaped (escaped_bytes u @ r) = u # unescaped r \<and>
    (\<forall>b \<in> set (escaped_bytes u). b < 128)"
proof -
  consider "u < 256" "plain u" "u \<noteq> 0x5C" | "u = 0x5C" | "u < 256" "\<not> plain u" | "256 \<le> u" using leI by blast
  then show ?thesis
  proof cases
    case 1
    then show ?thesis
      using escaped_count_simps(1) [of u r n] unescaped_simps(1) [of u r] by (auto simp: escaped_bytes_def plain_def)
  next
    case 2
    then show ?thesis by (simp add: escaped_bytes_def plain_def)
  next
    case 3
    let ?a = "octchar (u div 64 mod 8)" and ?b = "octchar (u div 8 mod 8)" and ?c = "octchar (u mod 8)"
    have d: "octdigit ?a \<and> ?a - 0x30 = u div 64 mod 8 \<and> ?a < 128" "octdigit ?b \<and> ?b - 0x30 = u div 8 mod 8 \<and> ?b < 128"
      "octdigit ?c \<and> ?c - 0x30 = u mod 8 \<and> ?c < 128"
      by (rule octal_digits, simp)+
    have "escaped_bytes u = [0x5C, ?a, ?b, ?c]" using 3 by (simp add: escaped_bytes_def and_low_bits)
    moreover have "unescaped (0x5C # ?a # ?b # ?c # r) = u # unescaped r"
      using d unescaped_simps(3) [of ?a ?b ?c r] by (simp only: octal_value [OF 3(1)])
    moreover have "escaped_count (0x5C # ?a # ?b # ?c # r) n = escaped_count r (n + 1)"
      using d by (intro escaped_count_simps(3)) blast+
    moreover have "(0x5C::nat) < 128" "(0x75::nat) < 128" by simp_all
    ultimately show ?thesis using d by (simp only: append.simps list.set) blast
  next
    case 4
    let ?a = "hexchar (u div 4096 mod 16)" and ?b = "hexchar (u div 256 mod 16)" and ?c = "hexchar (u div 16 mod 16)" and ?d = "hexchar (u mod 16)"
    have d: "isxdigit ?a \<and> hex_value ?a = u div 4096 mod 16 \<and> ?a < 128" "isxdigit ?b \<and> hex_value ?b = u div 256 mod 16 \<and> ?b < 128"
      "isxdigit ?c \<and> hex_value ?c = u div 16 mod 16 \<and> ?c < 128" "isxdigit ?d \<and> hex_value ?d = u mod 16 \<and> ?d < 128"
      by (rule hex_digits, simp)+
    have "escaped_bytes u = [0x5C, 0x75, ?a, ?b, ?c, ?d]" using 4 by (simp add: escaped_bytes_def and_low_bits)
    moreover have "unescaped (0x5C # 0x75 # ?a # ?b # ?c # ?d # r) = u # unescaped r"
      using d unescaped_simps(4) [of ?a ?b ?c ?d r] by (simp only: hex_value_digits [OF assms])
    moreover have "escaped_count (0x5C # 0x75 # ?a # ?b # ?c # ?d # r) n = escaped_count r (n + 1)"
      using d by (intro escaped_count_simps(4)) blast+
    moreover have "(0x5C::nat) < 128" "(0x75::nat) < 128" by simp_all
    ultimately show ?thesis using d by (simp only: append.simps list.set) blast
  qed
qed

lemma escaped_chars:
  "\<forall>c \<in> set cs. c < 0x10000 \<Longrightarrow>
    escaped_count (concat (map escaped_bytes cs)) n = Some (n + length cs) \<and> unescaped (concat (map escaped_bytes cs)) = cs \<and>
    (\<forall>b \<in> set (concat (map escaped_bytes cs)). b < 128)"
proof (induction cs arbitrary: n)
  case (Cons c cs)
  then show ?case using escaped_char [of c "concat (map escaped_bytes cs)" n] by auto
qed simp


section \<open>Sources with a byte order mark\<close>

text \<open>A string as the encoder expects it: behind a byte order mark if one is wanted, and swapped if the mark says so.\<close>

definition marked :: "job \<Rightarrow> bool \<Rightarrow> unichar list \<Rightarrow> unichar list" where
  "marked j swapped cs = (if bom j then if swapped then 0xFFFE # map GSUnicodeSwap16 cs else 0xFEFF # cs else cs)"

lemma marked_start:
  assumes "\<forall>c \<in> set cs. c < 0x10000"
  obtains s src' where "encode_start j (marked j swapped cs) = Some (s, src')" "map (unswapped s) src' = cs"
proof (cases "bom j \<and> swapped")
  case True
  then show ?thesis
    using that [of True "map GSUnicodeSwap16 cs"] assms by (simp add: encode_start_def marked_def unswapped_def comp_def map_idI)
next
  case False
  then show ?thesis using that [of False cs] by (auto simp: encode_start_def marked_def)
qed

lemma marked_chars: "\<forall>c \<in> set cs. c < 0x10000 \<Longrightarrow> \<forall>c \<in> set (marked j swapped cs). c < 0x10000"
  by (auto simp: marked_def GSUnicodeSwap16_less)

lemma marked_length: "length (marked j swapped cs) \<le> length cs + 1"
  by (simp add: marked_def)

lemma ready_less: "ready j n \<Longrightarrow> m \<le> n \<Longrightarrow> ready j m"
  by (auto simp: ready_def sane_def)

lemma from_marked:
  assumes "ready j (length cs + 1)" "encodable enc cs"
  shows "if snd (encoded (words_bigendian j) (strict j) enc cs)
    then delivers j 0 (GSFromUnicode j enc (marked j swapped cs)) (fst (encoded (words_bigendian j) (strict j) enc cs))
    else refuses (GSFromUnicode j enc (marked j swapped cs))"
proof -
  have less: "\<forall>c \<in> set cs. c < 0x10000" using assms(2) by (simp add: encodable_def)
  obtain s src' where s: "encode_start j (marked j swapped cs) = Some (s, src')" "map (unswapped s) src' = cs"
    by (rule marked_start [OF less])
  have "ready j (length (marked j swapped cs))" using ready_less [OF assms(1) marked_length] .
  then show ?thesis
    using GSFromUnicode_answers [OF _ s(1), of enc] s(2) assms(2) marked_chars [OF less] by (simp add: ready_def answers_def)
qed

section \<open>Encodings that lose nothing\<close>

lemma utf16_encodings:
  assumes "\<forall>c \<in> set cs. c < 0x10000" "enc = (if order then NSUTF16BigEndianStringEncoding else NSUTF16LittleEndianStringEncoding)"
  shows "encoded big b enc cs = (concat (map (\<lambda>u. store16 big (unswapped (big \<noteq> order) u)) cs), True)"
    "decoded big' enc bs = (utf16_units big' (big' \<noteq> order) bs, True)"
  using assms(2) by (simp_all add: encoded_def decoded_def)

lemma utf32_encodings:
  assumes "enc = (if order then NSUTF32BigEndianStringEncoding else NSUTF32LittleEndianStringEncoding)"
  shows "encoded big b enc cs = (concat (map (utf32_bytes big (big \<noteq> order)) (joined cs)), True)"
    "decoded big' enc bs = (utf32_units big' (big' \<noteq> order) bs, True)"
  using assms by (simp_all add: encoded_def decoded_def)

lemma escaped_encoding:
  "encoded big b NSNonLossyASCIIStringEncoding cs = (concat (map escaped_bytes cs), True)"
  "decoded big' NSNonLossyASCIIStringEncoding bs = (if escaped_count bs 0 = None then ([], False) else (unescaped bs, True))"
  by (simp_all add: encoded_def decoded_def)

definition lossless :: "NSStringEncoding \<Rightarrow> bool" where
  "lossless enc \<longleftrightarrow> enc \<in> {NSUTF16BigEndianStringEncoding, NSUTF16LittleEndianStringEncoding,
     NSUTF32BigEndianStringEncoding, NSUTF32LittleEndianStringEncoding, NSNonLossyASCIIStringEncoding}"

lemma lossless_inverse:
  assumes "\<forall>c \<in> set cs. c < 0x10000" "lossless enc"
  obtains bs where "encoded big b enc cs = (bs, True)" "decoded big' enc bs = (cs, True)" "\<forall>b \<in> set bs. b < 256"
    "enc = NSNonLossyASCIIStringEncoding \<longrightarrow> (\<forall>b \<in> set bs. b < 128)"
proof -
  consider order where "enc = (if order then NSUTF16BigEndianStringEncoding else NSUTF16LittleEndianStringEncoding)"
    | order where "enc = (if order then NSUTF32BigEndianStringEncoding else NSUTF32LittleEndianStringEncoding)"
    | "enc = NSNonLossyASCIIStringEncoding"
    using assms(2) unfolding lossless_def by (metis insertE singletonD)
  then show ?thesis
  proof cases
    case (1 order)
    then show ?thesis
      using that [of "concat (map (\<lambda>u. store16 big (unswapped (big \<noteq> order) u)) cs)"]
        utf16_order [OF assms(1), of big' order big] utf16_encodings [OF assms(1) 1] by (simp split: if_splits)
  next
    case (2 order)
    then show ?thesis
      using that [of "concat (map (utf32_bytes big (big \<noteq> order)) (joined cs))"] joined_units [OF assms(1)]
        utf32_order [of "joined cs" big' order big] utf32_encodings [OF 2] by (simp split: if_splits)
  next
    case 3
    have "\<forall>b \<in> set (concat (map escaped_bytes cs)). b < 256" using escaped_chars [OF assms(1), of 0] by fastforce
    then show ?thesis
      using that [of "concat (map escaped_bytes cs)"] escaped_chars [OF assms(1), of 0] unfolding 3 escaped_encoding by simp
  qed
qed

section \<open>Properties\<close>

text \<open>C11. UTF-16 and UTF-32 of both byte orders and ASCII with escapes keep every 16-bit string, surrogates without partner included:
  with enough memory the string comes back behind the byte order mark that is wanted, whatever the byte orders of the two hosts are and
  whether the source is swapped behind its own byte order mark. With escapes all bytes are ASCII.\<close>

theorem lossless_roundtrip:
  assumes "lossless enc" "ready j (length cs + 1)" "ready j' (6 * length cs)" "\<forall>c \<in> set cs. c < 0x10000"
  shows "\<exists>bs. delivers j 0 (GSFromUnicode j enc (marked j swapped cs)) bs \<and>
    (enc = NSNonLossyASCIIStringEncoding \<longrightarrow> (\<forall>b \<in> set bs. b < 128)) \<and>
    delivers j' 0 (GSToUnicode j' enc bs) (mark j' @ cs)"
proof -
  obtain bs where bs: "encoded (words_bigendian j) (strict j) enc cs = (bs, True)" "decoded (words_bigendian j') enc bs = (cs, True)"
    "\<forall>b \<in> set bs. b < 256" "enc = NSNonLossyASCIIStringEncoding \<longrightarrow> (\<forall>b \<in> set bs. b < 128)"
    by (rule lossless_inverse [OF assms(4,1)])
  have "encodable enc cs" using assms(1,4) by (auto simp: encodable_def lossless_def)
  from from_marked [OF assms(2) this, of swapped] bs(1) have "delivers j 0 (GSFromUnicode j enc (marked j swapped cs)) bs" by simp
  moreover have "readable enc bs" using assms(1) bs(3) by (auto simp: readable_def lossless_def)
  moreover have "length bs \<le> 6 * length cs" using encoded_length [of "words_bigendian j" "strict j" enc cs] bs(1) by simp
  ultimately show ?thesis using to_unicode [OF ready_less [OF assms(3)], of bs enc] bs(2,4) by auto
qed

theorem lossless_roundtrip_witness:
  "\<exists>bs. delivers (roomy True) 0 (GSFromUnicode (roomy True) NSUTF32BigEndianStringEncoding [0x41, 0xD83D, 0xDE00, 0xDC00]) bs \<and>
     delivers (roomy True\<lparr>words_bigendian := True, bom := True\<rparr>) 0
       (GSToUnicode (roomy True\<lparr>words_bigendian := True, bom := True\<rparr>) NSUTF32BigEndianStringEncoding bs) [0xFEFF, 0x41, 0xD83D, 0xDE00, 0xDC00]"
  using lossless_roundtrip [of NSUTF32BigEndianStringEncoding "roomy True" "[0x41, 0xD83D, 0xDE00, 0xDC00]"
      "roomy True\<lparr>words_bigendian := True, bom := True\<rparr>" False]
  by (simp add: lossless_def marked_def mark_def ready_def sane_def short_def roomy_def)

text \<open>C27. Whatever memory there is, the two conversions return and do not touch anything outside
  of their buffers: decoding always, and encoding when there is a destination or when the
  encoder grows its buffer step by step (\<open>streaming\<close>: all but ASCII, Latin 1 and the UTF-16 ones;
  without a destination those do overrun, see the property on counting). The sources are of at
  most \<open>2 ^ 26\<close> units that the tables have entries for, the given buffer is of at most \<open>2 ^ 30\<close>
  units, and the local one has between 16 and \<open>2 ^ 20\<close>.\<close>

theorem conversions_in_bounds:
  assumes "sane j (length bs)" "readable enc bs" "sane j' (length cs)" "\<forall>c \<in> set cs. c < 0x10000"
    "\<And>swapped src. encode_start j' cs = Some (swapped, src) \<Longrightarrow> encodable enc (map (unswapped swapped) src)"
    "dst j' \<or> streaming enc"
  shows "safe (GSToUnicode j enc bs) \<and> safe (GSFromUnicode j' enc cs)"
proof
  show "safe (GSToUnicode j enc bs)" using assms(1,2) by (rule GSToUnicode_safe)
  show "safe (GSFromUnicode j' enc cs)"
  proof (cases "encode_start j' cs")
    case None
    then have "refuses (GSFromUnicode j' enc cs)" using assms(3) by (intro GSFromUnicode_no_mark) (auto simp: sane_def)
    then show ?thesis by (auto simp: refuses_def safe_def split: option.splits flow.splits)
  next
    case (Some p)
    then obtain swapped src where "encode_start j' cs = Some (swapped, src)" by (cases p) auto
    then show ?thesis using GSFromUnicode_answers [OF assms(3) _ assms(6) assms(5) assms(4)] by (simp add: answers_def)
  qed
qed

theorem conversions_in_bounds_witness:
  "safe (GSToUnicode (roomy True\<lparr>zone := False\<rparr>) NSGSM0338StringEncoding [0x1B, 0x65, 0x41]) \<and>
   safe (GSFromUnicode (roomy True\<lparr>zone := False\<rparr>) NSGSM0338StringEncoding [0x20AC, 0x41])"
  using conversions_in_bounds [of "roomy True\<lparr>zone := False\<rparr>" "[0x1B, 0x65, 0x41]" NSGSM0338StringEncoding
      "roomy True\<lparr>zone := False\<rparr>" "[0x20AC, 0x41]"]
  by (simp add: sane_def roomy_def readable_def encode_start_def encodable_def)

section \<open>Counting without a destination\<close>

lemma base_encode_counts:
  assumes "\<not> dst j" "\<forall>c \<in> set cs. c < lo"
  shows "dpos s + length cs < 2 ^ 32 \<Longrightarrow> base_encode j lo False cs s =
    Some (if cs = [] \<or> dpos s + length cs \<le> room s then Go (s\<lparr>dpos := dpos s + length cs\<rparr>) else Fault)"
  using assms(2)
proof (induction cs arbitrary: s)
  case (Cons c cs)
  show ?case
  proof (cases "dpos s < room s")
    case True
    have "u32 (dpos s + 1) = dpos s + 1" using Cons.prems(1) by (simp add: u32_def)
    then show ?thesis
      using True Cons.prems Cons.IH [of "s\<lparr>dpos := dpos s + 1\<rparr>"] assms(1) by (auto simp: put_def unswapped_def)
  qed (use Cons.prems assms(1) in \<open>auto simp: put_def unswapped_def\<close>)
qed simp

text \<open>C35. Asked only for the number of bytes of an ASCII or Latin-1 string, \<^verbatim>\<open>GSFromUnicode\<close> counts every character twice, and
  from half of \<^verbatim>\<open>BUFSIZ\<close> characters on it writes beyond the end of its local buffer.\<close>

theorem counting_doubles:
  assumes "\<not> dst j" "\<not> terminate j" "\<not> bom j" "length cs < 2 ^ 31"
    "(enc, lo) \<in> {(NSASCIIStringEncoding, 128), (NSISOLatin1StringEncoding, 256)}" "\<forall>c \<in> set cs. c < lo"
  shows "GSFromUnicode j enc cs =
    Some (if cs = [] \<or> 2 * length cs \<le> BUFSIZ j then Go \<lparr>ok = True, size_out = 2 * length cs, target = Kept\<rparr> else Fault)"
proof -
  define s :: "nat conv" where "s = (start_buffer j)\<lparr>dpos := length cs\<rparr>"
  have s: "dpos s = length cs" "room s = BUFSIZ j" using assms(1) by (simp_all add: s_def start_buffer_def)
  have "base_encode j lo False cs s =
    Some (if cs = [] \<or> 2 * length cs \<le> BUFSIZ j then Go (s\<lparr>dpos := 2 * length cs\<rparr>) else Fault)"
    using base_encode_counts [OF assms(1,6), of s] s assms(4) by simp
  moreover have "encode_chars j enc False cs (start_buffer j) = base_encode j lo False cs s"
    using assms(1,5) by (auto simp: encode_chars_def encode_base_def s_def Let_def)
  ultimately show ?thesis
    using assms(1-3) by (auto simp: GSFromUnicode_def encode_start_def conclude_def finish_def Let_def)
qed

theorem counting_doubles_witness:
  "GSFromUnicode ((roomy True)\<lparr>dst := False\<rparr>) NSASCIIStringEncoding [0x41, 0x42] = Some (Go \<lparr>ok = True, size_out = 4, target = Kept\<rparr>) \<and>
   GSFromUnicode ((roomy True)\<lparr>dst := False\<rparr>) NSASCIIStringEncoding (replicate 5000 0x41) = Some Fault"
  using counting_doubles [of "(roomy True)\<lparr>dst := False\<rparr>" "[0x41, 0x42]" NSASCIIStringEncoding 128]
    counting_doubles [of "(roomy True)\<lparr>dst := False\<rparr>" "replicate 5000 0x41" NSASCIIStringEncoding 128]
  by (simp add: roomy_def)

section \<open>Tables that are too short\<close>

lemma start_room: "ready j n \<Longrightarrow> dpos (start_buffer j :: 'a conv) < bsize (start_buffer j :: 'a conv)"
  by (auto simp: ready_def sane_def start_buffer_def)

lemma table_overrun:
  assumes "lookup_byte (unswapped swapped c) (table k) (tsize k) = None" "base k \<le> unswapped swapped c" "dpos s < bsize s"
  shows "table_encode j n k swapped (c # cs) s = Some Fault"
  using assms by (simp add: ensure_def Let_def)

lemma reserved:
  assumes "ready j n" "place s \<noteq> Heap" "dpos s = 0"
  shows "\<exists>s'. reserve_wide j m s = Some (Go s')"
  using assms by (auto simp: reserve_wide_def ready_def short_def Let_def)

lemma start_places: "place (start_buffer j) \<noteq> Heap" "dpos (start_buffer j) = 0"
  by (simp_all add: start_buffer_def)

lemma missing_entries:
  "0x80 \<le> b \<Longrightarrow> entry GSM0338_char_to_uni_table b = None" "entry GSM0338_char_to_uni_table 0x1B \<noteq> None"
  "entry Next_char_to_uni_table (0xFF - 0x80) = None"
  by (simp_all add: entry_def GSM0338_char_to_uni_table_def Next_char_to_uni_table_def)

text \<open>C36. Whatever memory there is for it, a conversion reads beyond the end of a table: to NeXTSTEP for a character above U+FB02, from NeXTSTEP
  for the byte \<open>0xFF\<close>, from GSM for a byte above 127; and beyond the end of the source after a last escape byte.\<close>

theorem table_overruns:
  assumes "ready j n" "\<not> bom j" "0xFB02 < c" "0x80 \<le> b"
  shows "GSFromUnicode j NSNEXTSTEPStringEncoding (c # cs) = Some Fault \<and>
    GSToUnicode j NSNEXTSTEPStringEncoding (0xFF # bs) = Some Fault \<and>
    GSToUnicode j NSGSM0338StringEncoding (b # bs) = Some Fault \<and>
    GSToUnicode j NSGSM0338StringEncoding [0x1B] = Some Fault"
proof (intro conjI)
  have ens: "ensure 2 j m (start_buffer j) = Some (Go (start_buffer j :: unichar conv))" for m
    using start_room [OF assms(1), where 'a = nat] by (simp add: ensure_def)
  show "GSFromUnicode j NSNEXTSTEPStringEncoding (c # cs) = Some Fault"
    using assms(2,3) Next_overrun [OF assms(3)] table_overrun [of False c _ _ j _ cs, OF _ _ start_room [OF assms(1)]]
    by (simp add: GSFromUnicode_def encode_start_def encode_chars_def plain_charset_def Next_conv_base_def unswapped_def conclude_def
        del: table_encode.simps)
  show "GSToUnicode j NSGSM0338StringEncoding (b # bs) = Some Fault"
    using missing_entries(1) [OF assms(4)] ens assms(2) by (simp add: GSToUnicode_def decode_start_def decode_bytes_def conclude_def)
  obtain u where "entry GSM0338_char_to_uni_table 0x1B = Some u" using missing_entries(2) by blast
  then show "GSToUnicode j NSGSM0338StringEncoding [0x1B] = Some Fault"
    using ens assms(2) by (simp add: GSToUnicode_def decode_start_def decode_bytes_def conclude_def)
  obtain s' :: "unichar conv" where s': "reserve_wide j (Suc (length bs)) (start_buffer j) = Some (Go s')"
    using reserved [OF assms(1) start_places, of "Suc (length bs)"] by blast
  have "table_loop j 0x80 Next_char_to_uni_table (0xFF # bs) s' = Some Fault" using missing_entries(3) by simp
  moreover have "dst j" using assms(1) by (simp add: ready_def)
  ultimately have "decode_bytes j NSNEXTSTEPStringEncoding (0xFF # bs) (start_buffer j) = Some Fault"
    using s' by (simp add: decode_bytes_def decode_table_def Next_conv_base_def del: table_loop.simps)
  then show "GSToUnicode j NSNEXTSTEPStringEncoding (0xFF # bs) = Some Fault"
    using assms(2) by (simp add: GSToUnicode_def decode_start_def conclude_def)
qed

theorem table_overruns_witness:
  "GSFromUnicode (roomy True) NSNEXTSTEPStringEncoding [0xFFFD] = Some Fault \<and>
   GSToUnicode (roomy True) NSNEXTSTEPStringEncoding [0xFF] = Some Fault \<and>
   GSToUnicode (roomy True) NSGSM0338StringEncoding [0x80] = Some Fault"
  using table_overruns [of "roomy True" 0 "0xFFFD" "0x80" "[]" "[]"]
  by (simp add: roomy_ready)

end
