(* ===== verification/Gdo_Map.thy ===== *)
theory Gdo_Map
  imports Base_Prelude "HOL-Library.Word" "HOL-Library.Monad_Syntax"
begin

unbundle bit_operations_syntax

text \<open>
  The name server \<^verbatim>\<open>Tools/gdomap.c\<close>: the map from service names to ports. The array of
  pointers to entries is a list of entries, an entry being known by its index; running out of
  memory ends the program and is not part of the model. Bytes are numbers below 256.
\<close>

section \<open>Requests\<close>

type_synonym bytes = "nat list"

abbreviation GDO_REGISTER :: nat where "GDO_REGISTER \<equiv> 82"
abbreviation GDO_LOOKUP :: nat where "GDO_LOOKUP \<equiv> 76"
abbreviation GDO_UNREG :: nat where "GDO_UNREG \<equiv> 85"
abbreviation GDO_SERVERS :: nat where "GDO_SERVERS \<equiv> 83"
abbreviation GDO_PROBE :: nat where "GDO_PROBE \<equiv> 80"
abbreviation GDO_PREPLY :: nat where "GDO_PREPLY \<equiv> 112"
abbreviation GDO_NAMES :: nat where "GDO_NAMES \<equiv> 78"

abbreviation GDO_NET_MASK :: nat where "GDO_NET_MASK \<equiv> 0x70"
abbreviation GDO_NET_TCP :: nat where "GDO_NET_TCP \<equiv> 0x10"
abbreviation GDO_NET_UDP :: nat where "GDO_NET_UDP \<equiv> 0x20"
abbreviation GDO_SVC_MASK :: nat where "GDO_SVC_MASK \<equiv> 0x0f"
abbreviation GDO_SVC_GDO :: nat where "GDO_SVC_GDO \<equiv> 0x01"
abbreviation GDO_SVC_FOREIGN :: nat where "GDO_SVC_FOREIGN \<equiv> 0x02"

abbreviation GDO_REQ_SIZE :: nat where "GDO_REQ_SIZE \<equiv> 264"

text \<open>The four types of ports, each a network protocol and a service.\<close>

definition legal_ptype :: "nat \<Rightarrow> bool" where
  "legal_ptype t \<longleftrightarrow> t = 0x11 \<or> t = 0x12 \<or> t = 0x21 \<or> t = 0x22"

text \<open>Numbers in network byte order.\<close>

definition be32 :: "nat \<Rightarrow> bytes" where
  "be32 n = [n div 2 ^ 24 mod 256, n div 2 ^ 16 mod 256, n div 2 ^ 8 mod 256, n mod 256]"

definition be_value :: "bytes \<Rightarrow> nat" where
  "be_value bs = foldl (\<lambda>n b. n * 256 + b) 0 bs"

record gdo_req =
  rtype :: nat
  nsize :: nat
  ptype :: nat
  rport :: nat
  rname :: bytes

text \<open>A packet of \<^verbatim>\<open>GDO_REQ_SIZE\<close> bytes as a request; the fourth byte is not used.\<close>

definition request_of :: "bytes \<Rightarrow> gdo_req" where
  "request_of b = \<lparr>rtype = b ! 0, nsize = b ! 1, ptype = b ! 2,
     rport = be_value (take 4 (drop 4 b)), rname = drop 8 b\<rparr>"

section \<open>The map\<close>

record map_ent =
  e_name :: bytes
  e_port :: nat
  e_net :: nat
  e_svc :: nat

fun memcmp :: "bytes \<Rightarrow> bytes \<Rightarrow> int" where
  "memcmp (a # as) (b # bs) = (if a < b then -1 else if b < a then 1 else memcmp as bs)"
| "memcmp _ _ = 0"

definition compare :: "bytes \<Rightarrow> bytes \<Rightarrow> int" where
  "compare n0 n1 =
     (if length n0 = length n1 then memcmp n0 n1 else if length n0 < length n1 then -1 else 1)"

fun map_insert :: "map_ent \<Rightarrow> map_ent list \<Rightarrow> map_ent list" where
  "map_insert m [] = [m]"
| "map_insert m (e # es) =
     (if compare (e_name e) (e_name m) > 0 then m # e # es else e # map_insert m es)"

definition map_add :: "bytes \<Rightarrow> nat \<Rightarrow> nat \<Rightarrow> map_ent list \<Rightarrow> map_ent list" where
  "map_add n p t gmap =
     map_insert \<lparr>e_name = n, e_port = p, e_net = t AND GDO_NET_MASK, e_svc = t AND GDO_SVC_MASK\<rparr> gmap"

partial_function (option) name_search :: "map_ent list \<Rightarrow> bytes \<Rightarrow> nat \<Rightarrow> nat \<Rightarrow> nat option" where
  "name_search gmap n lower upper =
     (let index = lower + (upper - lower) div 2
      in if upper = lower then Some index
         else if length gmap \<le> index then None
         else let i = compare (e_name (gmap ! index)) n
              in if i < 0 then name_search gmap n (index + 1) upper
                 else if i > 0 then name_search gmap n lower index
                 else Some index)"

definition map_by_name :: "bytes \<Rightarrow> map_ent list \<Rightarrow> nat option option" where
  "map_by_name n gmap =
     do {
       index \<leftarrow> name_search gmap n 0 (length gmap);
       Some (if index < length gmap \<and> compare (e_name (gmap ! index)) n = 0 then Some index else None)
     }"

definition e_type :: "map_ent \<Rightarrow> nat" where
  "e_type e = e_net e OR e_svc e"

fun map_by_port_from :: "nat \<Rightarrow> nat \<Rightarrow> map_ent list \<Rightarrow> nat option" where
  "map_by_port_from p t [] = None"
| "map_by_port_from p t (e # es) =
     (if e_port e = p \<and> e_type e = t then Some 0 else map_option Suc (map_by_port_from p t es))"

definition map_by_port :: "nat \<Rightarrow> nat \<Rightarrow> map_ent list \<Rightarrow> nat option" where
  "map_by_port p t gmap = map_by_port_from p t gmap"

definition map_del :: "nat \<Rightarrow> map_ent list \<Rightarrow> map_ent list" where
  "map_del i gmap = take i gmap @ drop (i + 1) gmap"

section \<open>The requests on the map\<close>

text \<open>
  \<open>try_bind net port\<close> is the answer of the operating system: a socket for the protocol could
  be made and bound to the port, so that whoever was registered there is gone. A result is the
  new map and the port answered, 0 for a failure.
\<close>

type_synonym os_bind = "nat \<Rightarrow> nat \<Rightarrow> bool"

definition port16 :: "nat \<Rightarrow> nat" where
  "port16 p = p mod 2 ^ 16"

definition register ::
  "os_bind \<Rightarrow> map_ent list \<Rightarrow> bytes \<Rightarrow> nat \<Rightarrow> nat \<Rightarrow> (map_ent list \<times> nat) option" where
  "register try_bind gmap n port t =
     do {
       found \<leftarrow> map_by_name n gmap;
       Some (case found of
         Some i \<Rightarrow>
           if port = e_port (gmap ! i) then (gmap, port)
           else if try_bind (t AND GDO_NET_MASK) (port16 (e_port (gmap ! i)))
           then (gmap[i := (gmap ! i)\<lparr>e_port := port, e_net := t AND GDO_NET_MASK, e_svc := t AND GDO_SVC_MASK\<rparr>], port)
           else (gmap, 0)
       | None \<Rightarrow> if port = 0 then (gmap, 0) else (map_add n port t gmap, port))
     }"

definition lookup ::
  "os_bind \<Rightarrow> map_ent list \<Rightarrow> bytes \<Rightarrow> nat \<Rightarrow> (map_ent list \<times> nat) option" where
  "lookup try_bind gmap n t =
     do {
       found \<leftarrow> map_by_name n gmap;
       Some (case found of
         Some i \<Rightarrow>
           if e_type (gmap ! i) \<noteq> t then (gmap, 0)
           else if try_bind (t AND GDO_NET_MASK) (port16 (e_port (gmap ! i))) then (map_del i gmap, 0)
           else (gmap, e_port (gmap ! i))
       | None \<Rightarrow> (gmap, 0))
     }"

lemma map_by_port_from_some: "map_by_port_from p t gmap = Some i \<Longrightarrow>
    i < length gmap \<and> e_port (gmap ! i) = p \<and> e_type (gmap ! i) = t"
  by (induction gmap arbitrary: i) (auto split: if_splits)

function unregister_port :: "nat \<Rightarrow> nat \<Rightarrow> map_ent list \<Rightarrow> nat \<Rightarrow> map_ent list \<times> nat" where
  "unregister_port port t gmap reply =
     (case map_by_port port t gmap of
        Some i \<Rightarrow> unregister_port port t (map_del i gmap) (e_port (gmap ! i))
      | None \<Rightarrow> (gmap, reply))"
  by pat_completeness auto

termination
  by (relation "measure (\<lambda>(p, t, gmap, r). length gmap)")
    (auto simp: map_by_port_def map_del_def dest: map_by_port_from_some)

declare unregister_port.simps [simp del]

definition unregister ::
  "map_ent list \<Rightarrow> bytes \<Rightarrow> nat \<Rightarrow> nat \<Rightarrow> (map_ent list \<times> nat) option" where
  "unregister gmap n port t =
     (if port = 0 \<or> n \<noteq> []
      then do {
        found \<leftarrow> map_by_name n gmap;
        Some (case found of
          Some i \<Rightarrow> if e_type (gmap ! i) \<noteq> t then (gmap, 0) else (map_del i gmap, e_port (gmap ! i))
        | None \<Rightarrow> (gmap, 0))
      }
      else Some (unregister_port port t gmap 0))"

text \<open>The list of names: for each its length, the type of the port and its bytes.\<close>

definition names_reply :: "map_ent list \<Rightarrow> bytes" where
  "names_reply gmap =
     be32 (sum_list (map (\<lambda>e. 2 + length (e_name e)) gmap)) @
     concat (map (\<lambda>e. [length (e_name e) mod 256, e_type e mod 256] @ e_name e) gmap)"

end
