(* ===== verification/Gdo_Directory.thy ===== *)
theory Gdo_Directory
  imports Gdo_Map
begin

text \<open>
  The map of \<^verbatim>\<open>gdomap\<close> refines a directory, a function from names to ports and their types:
  the array stays sorted by length and bytes without repeated names, the binary search finds
  what is there, and each request has the effect on the directory that it should have.
\<close>

section \<open>The order of names\<close>

lemma memcmp_refl [simp]: "memcmp n n = 0"
  by (induction n) auto

lemma memcmp_eq: "length a = length b \<Longrightarrow> memcmp a b = 0 \<longleftrightarrow> a = b"
  by (induction a b rule: memcmp.induct) auto

lemma memcmp_swap: "memcmp b a = - memcmp a b"
  by (induction a b rule: memcmp.induct) auto

lemma memcmp_trans:
  "length a = length b \<Longrightarrow> length b = length c \<Longrightarrow> memcmp a b < 0 \<Longrightarrow> memcmp b c < 0 \<Longrightarrow> memcmp a c < 0"
proof (induction a arbitrary: b c)
  case (Cons x a)
  from Cons.prems(1,2) obtain y b' z c' where bc: "b = y # b'" "c = z # c'" by (cases b; cases c) simp_all
  show ?case using Cons.prems Cons.IH [of b' c'] unfolding bc by (auto split: if_splits)
qed simp

lemma compare_refl [simp]: "compare n n = 0"
  by (simp add: compare_def)

lemma compare_eq: "compare a b = 0 \<longleftrightarrow> a = b"
  using memcmp_eq by (auto simp: compare_def)

lemma compare_swap: "compare b a = - compare a b"
  using memcmp_swap [of b a] by (simp add: compare_def)

lemma compare_trans: "compare a b < 0 \<Longrightarrow> compare b c < 0 \<Longrightarrow> compare a c < 0"
  using memcmp_trans [of a b c]
  by (cases "length a = length b"; cases "length b = length c") (auto simp: compare_def split: if_splits)

lemma compare_pos: "compare a b > 0 \<longleftrightarrow> compare b a < 0"
  using compare_swap [of a b] by simp

definition sorted_map :: "map_ent list \<Rightarrow> bool" where
  "sorted_map gmap \<longleftrightarrow> sorted_wrt (\<lambda>n0 n1. compare n0 n1 < 0) (map e_name gmap)"

lemma sorted_map_nth:
  "sorted_map gmap \<Longrightarrow> i < j \<Longrightarrow> j < length gmap \<Longrightarrow> compare (e_name (gmap ! i)) (e_name (gmap ! j)) < 0"
  using sorted_wrt_nth_less [of "\<lambda>n0 n1. compare n0 n1 < 0" "map e_name gmap" i j] by (simp add: sorted_map_def)

lemma sorted_map_distinct: "sorted_map gmap \<Longrightarrow> distinct (map e_name gmap)"
proof (induction gmap)
  case (Cons e gmap)
  have "compare n n = 0" for n by simp
  then show ?case using Cons by (force simp: sorted_map_def)
qed simp

section \<open>The search\<close>

lemma name_search_correct:
  assumes "sorted_map gmap"
  shows "lower \<le> upper \<Longrightarrow> upper \<le> length gmap \<Longrightarrow>
    (\<And>i. i < lower \<Longrightarrow> compare (e_name (gmap ! i)) n < 0) \<Longrightarrow>
    (\<And>i. upper \<le> i \<Longrightarrow> i < length gmap \<Longrightarrow> compare (e_name (gmap ! i)) n > 0) \<Longrightarrow>
    \<exists>k. name_search gmap n lower upper = Some k \<and> (\<forall>i<length gmap. e_name (gmap ! i) = n \<longrightarrow> i = k)"
proof (induction "upper - lower" arbitrary: lower upper rule: less_induct)
  case less
  define m where "m = lower + (upper - lower) div 2"
  show ?case
  proof (cases "upper = lower")
    case True
    have "e_name (gmap ! i) \<noteq> n" if "i < length gmap" for i
      using less.prems(3,4) [of i] that True by (cases "i < lower") force+
    then show ?thesis using True by (subst name_search.simps) simp
  next
    case False
    then have m: "lower \<le> m" "m < upper" "m < length gmap" using less.prems by (auto simp: m_def)
    have below: "compare (e_name (gmap ! i)) n < 0" if "compare (e_name (gmap ! m)) n < 0" "i < m + 1" for i
      using that compare_trans [OF sorted_map_nth [OF assms, of i m]] m by (cases "i = m") auto
    have above: "compare (e_name (gmap ! i)) n > 0" if "compare (e_name (gmap ! m)) n > 0" "m \<le> i" "i < length gmap" for i
      using that compare_trans [OF _ sorted_map_nth [OF assms, of m i], of n] m
      by (cases "i = m") (auto simp: compare_pos)
    have unfold: "name_search gmap n lower upper =
        (if compare (e_name (gmap ! m)) n < 0 then name_search gmap n (m + 1) upper
         else if compare (e_name (gmap ! m)) n > 0 then name_search gmap n lower m else Some m)"
      using False m(3) by (subst name_search.simps) (simp only: m_def [symmetric] Let_def not_le [symmetric] if_False)
    consider "compare (e_name (gmap ! m)) n < 0" | "compare (e_name (gmap ! m)) n > 0" | "e_name (gmap ! m) = n"
      using compare_eq [of "e_name (gmap ! m)" n] by linarith
    then show ?thesis
    proof cases
      case 1
      then have "\<exists>k. name_search gmap n (m + 1) upper = Some k \<and> (\<forall>i<length gmap. e_name (gmap ! i) = n \<longrightarrow> i = k)"
        using m less.prems below by (intro less.hyps) auto
      then show ?thesis using 1 unfold by simp
    next
      case 2
      then have "\<exists>k. name_search gmap n lower m = Some k \<and> (\<forall>i<length gmap. e_name (gmap ! i) = n \<longrightarrow> i = k)"
        using m less.prems above by (intro less.hyps) auto
      then show ?thesis using 2 unfold by simp
    next
      case 3
      have "i = m" if "i < length gmap" "e_name (gmap ! i) = n" for i
        using that 3 m(3) sorted_map_distinct [OF assms] by (auto simp: distinct_conv_nth)
      then show ?thesis using 3 unfold by simp
    qed
  qed
qed

lemma map_by_name_cases [consumes 1, case_names found absent]:
  assumes "sorted_map gmap"
  obtains i where "map_by_name n gmap = Some (Some i)" "i < length gmap" "e_name (gmap ! i) = n"
  | "map_by_name n gmap = Some None" "n \<notin> e_name ` set gmap"
proof -
  obtain k where k: "name_search gmap n 0 (length gmap) = Some k"
    "\<And>i. i < length gmap \<Longrightarrow> e_name (gmap ! i) = n \<Longrightarrow> i = k"
    using name_search_correct [OF assms, of 0 "length gmap" n] by auto
  show thesis
  proof (cases "k < length gmap \<and> e_name (gmap ! k) = n")
    case True
    then show thesis using k(1) by (intro that(1) [of k]) (auto simp: map_by_name_def compare_eq)
  next
    case False
    then have "n \<notin> e_name ` set gmap" using k(2) by (metis image_iff in_set_conv_nth)
    then show thesis using k(1) False by (intro that(2)) (auto simp: map_by_name_def compare_eq)
  qed
qed

section \<open>The directory\<close>

type_synonym directory = "bytes \<Rightarrow> (nat \<times> nat) option"

definition directory :: "map_ent list \<Rightarrow> directory" where
  "directory gmap = map_of (map (\<lambda>e. (e_name e, (e_port e, e_type e))) gmap)"

lemma directory_nth:
  "sorted_map gmap \<Longrightarrow> i < length gmap \<Longrightarrow>
    directory gmap (e_name (gmap ! i)) = Some (e_port (gmap ! i), e_type (gmap ! i))"
  using sorted_map_distinct by (auto simp: directory_def o_def intro!: map_of_is_SomeI)

lemma directory_absent: "directory gmap n = None \<longleftrightarrow> n \<notin> e_name ` set gmap"
  by (auto simp: directory_def map_of_eq_None_iff image_image)

lemma map_insert_set: "set (map_insert m gmap) = insert m (set gmap)"
  by (induction gmap) auto

lemma map_insert_sorted:
  "sorted_map gmap \<Longrightarrow> e_name m \<notin> e_name ` set gmap \<Longrightarrow> sorted_map (map_insert m gmap)"
proof (induction gmap)
  case (Cons e gmap)
  show ?case
  proof (cases "compare (e_name e) (e_name m) > 0")
    case True
    then have "compare (e_name m) (e_name x) < 0" if "x \<in> set (e # gmap)" for x
      using that Cons.prems(1) compare_trans [of "e_name m" "e_name e" "e_name x"]
      by (auto simp: compare_pos sorted_map_def)
    then show ?thesis using True Cons.prems by (simp add: sorted_map_def)
  next
    case False
    then have "compare (e_name e) (e_name m) < 0"
      using Cons.prems(2) compare_eq [of "e_name e" "e_name m"] by auto
    then show ?thesis
      using False Cons by (auto simp: sorted_map_def map_insert_set)
  qed
qed (simp add: sorted_map_def)

lemma directory_insert:
  "e_name m \<notin> e_name ` set gmap \<Longrightarrow> directory (map_insert m gmap) = (directory gmap)(e_name m \<mapsto> (e_port m, e_type m))"
  by (induction gmap) (auto simp: directory_def)

lemma map_del_sorted: "sorted_map gmap \<Longrightarrow> sorted_map (map_del i gmap)"
proof -
  assume sorted: "sorted_map gmap"
  have split: "map e_name gmap = map e_name (take i gmap) @ map e_name (drop i gmap)"
    by (metis append_take_drop_id map_append)
  then show ?thesis
    using sorted unfolding sorted_map_def map_del_def
    by (cases "drop i gmap") (auto simp: sorted_wrt_append drop_Suc tl_drop [symmetric])
qed

lemma map_add_remove: "A k = None \<Longrightarrow> B k = None \<Longrightarrow> A ++ B = ((A(k \<mapsto> v)) ++ B)(k := None)"
  by (auto simp: Map.map_add_def fun_eq_iff split: option.splits)

lemma directory_del:
  assumes "sorted_map gmap" "i < length gmap"
  shows "directory (map_del i gmap) = (directory gmap)(e_name (gmap ! i) := None)"
proof -
  have split: "gmap = take i gmap @ gmap ! i # drop (i + 1) gmap"
    using id_take_nth_drop [OF assms(2)] by simp
  have d: "distinct (map e_name (take i gmap) @ e_name (gmap ! i) # map e_name (drop (i + 1) gmap))"
    using sorted_map_distinct [OF assms(1)] split by (metis list.simps(9) map_append)
  have "directory gmap = (directory (drop (i + 1) gmap))(e_name (gmap ! i) \<mapsto> (e_port (gmap ! i), e_type (gmap ! i))) ++ directory (take i gmap)"
    using arg_cong [OF split, of directory] by (simp add: directory_def)
  moreover have "directory (drop (i + 1) gmap) (e_name (gmap ! i)) = None" "directory (take i gmap) (e_name (gmap ! i)) = None"
    using d by (auto simp: directory_absent)
  moreover have "directory (map_del i gmap) = directory (drop (i + 1) gmap) ++ directory (take i gmap)"
    by (simp add: map_del_def directory_def)
  ultimately show ?thesis
    using map_add_remove by metis
qed

lemma directory_update:
  assumes "sorted_map gmap" "i < length gmap" "e_name m = e_name (gmap ! i)"
  shows "sorted_map (gmap[i := m]) \<and> directory (gmap[i := m]) = (directory gmap)(e_name m \<mapsto> (e_port m, e_type m))"
proof
  have names: "map e_name (gmap[i := m]) = map e_name gmap"
    using assms(2,3) by (metis list_update_id map_update nth_map)
  then show s: "sorted_map (gmap[i := m])" using assms(1) by (simp add: sorted_map_def)
  show "directory (gmap[i := m]) = (directory gmap)(e_name m \<mapsto> (e_port m, e_type m))"
  proof
    fix n
    show "directory (gmap[i := m]) n = ((directory gmap)(e_name m \<mapsto> (e_port m, e_type m))) n"
    proof (cases "n \<in> e_name ` set gmap")
      case True
      then obtain j where j: "j < length gmap" "n = e_name (gmap ! j)" by (auto simp: in_set_conv_nth)
      then have "j = i \<longleftrightarrow> n = e_name m"
        using assms sorted_map_distinct [OF assms(1)] by (auto simp: distinct_conv_nth)
      then show ?thesis
        using directory_nth [OF s, of j] directory_nth [OF assms(1), of j] j assms(2,3)
        by (cases "j = i") auto
    next
      case False
      then have "n \<notin> e_name ` set (gmap[i := m])" using names by (metis image_set)
      then have "directory (gmap[i := m]) n = None" "directory gmap n = None"
        using False directory_absent by blast+
      moreover have "n \<noteq> e_name m" using False assms(2,3) by auto
      ultimately show ?thesis by simp
    qed
  qed
qed

section \<open>The requests on the directory\<close>

text \<open>
  Registering a name that is there moves it only if the port it had can be bound, and then even
  to port 0, which is refused for a new name.
\<close>

definition register_spec ::
  "os_bind \<Rightarrow> directory \<Rightarrow> bytes \<Rightarrow> nat \<Rightarrow> nat \<Rightarrow> directory \<times> nat" where
  "register_spec try_bind d n port t =
     (case d n of
        None \<Rightarrow> if port = 0 then (d, 0) else (d(n \<mapsto> (port, t)), port)
      | Some (q, _) \<Rightarrow>
          if port = q then (d, port)
          else if try_bind (t AND GDO_NET_MASK) (port16 q) then (d(n \<mapsto> (port, t)), port)
          else (d, 0))"

definition lookup_spec :: "os_bind \<Rightarrow> directory \<Rightarrow> bytes \<Rightarrow> nat \<Rightarrow> directory \<times> nat" where
  "lookup_spec try_bind d n t =
     (case d n of
        Some (q, t') \<Rightarrow>
          if t' \<noteq> t then (d, 0)
          else if try_bind (t AND GDO_NET_MASK) (port16 q) then (d(n := None), 0)
          else (d, q)
      | None \<Rightarrow> (d, 0))"

definition unregister_spec :: "directory \<Rightarrow> bytes \<Rightarrow> nat \<Rightarrow> nat \<Rightarrow> directory \<times> nat" where
  "unregister_spec d n port t =
     (if port = 0 \<or> n \<noteq> []
      then (case d n of
              Some (q, t') \<Rightarrow> if t' \<noteq> t then (d, 0) else (d(n := None), q)
            | None \<Rightarrow> (d, 0))
      else (\<lambda>x. if d x = Some (port, t) then None else d x, if (port, t) \<in> ran d then port else 0))"

lemma legal_ptype_split: "legal_ptype t \<Longrightarrow> (t AND GDO_NET_MASK) OR (t AND GDO_SVC_MASK) = t"
  by (auto simp: legal_ptype_def)

lemma register_refines:
  assumes "sorted_map gmap" "legal_ptype t"
  shows "\<exists>m r. register b gmap n port t = Some (m, r) \<and> sorted_map m \<and>
    (directory m, r) = register_spec b (directory gmap) n port t"
  using assms(1)
proof (cases rule: map_by_name_cases [of gmap n])
  case (found i)
  then show ?thesis
    using assms directory_nth [OF assms(1) found(2)] legal_ptype_split [OF assms(2)]
      directory_update [OF assms(1) found(2), of "(gmap ! i)\<lparr>e_port := port, e_net := t AND GDO_NET_MASK, e_svc := t AND GDO_SVC_MASK\<rparr>"]
    by (auto simp: register_def register_spec_def e_type_def)
next
  case absent
  then show ?thesis
    using assms legal_ptype_split [OF assms(2)] directory_absent [of gmap n]
    by (auto simp: register_def register_spec_def map_add_def map_insert_sorted directory_insert e_type_def)
qed

lemma lookup_refines:
  assumes "sorted_map gmap"
  shows "\<exists>m r. lookup b gmap n t = Some (m, r) \<and> sorted_map m \<and>
    (directory m, r) = lookup_spec b (directory gmap) n t"
  using assms
proof (cases rule: map_by_name_cases [of gmap n])
  case (found i)
  then show ?thesis
    using assms directory_nth [OF assms found(2)] directory_del [OF assms found(2)]
    by (auto simp: lookup_def lookup_spec_def map_del_sorted)
next
  case absent
  then show ?thesis
    using assms directory_absent [of gmap n] by (auto simp: lookup_def lookup_spec_def)
qed

lemma map_by_port_none: "map_by_port p t gmap = None \<longleftrightarrow> (\<forall>e\<in>set gmap. \<not> (e_port e = p \<and> e_type e = t))"
  unfolding map_by_port_def by (induction gmap) auto

lemma directory_ran: "sorted_map gmap \<Longrightarrow> ran (directory gmap) = (\<lambda>e. (e_port e, e_type e)) ` set gmap"
  using sorted_map_distinct [of gmap] by (simp add: directory_def ran_distinct o_def image_image)

lemma unregister_port_refines:
  "sorted_map gmap \<Longrightarrow> \<exists>m r. unregister_port port t gmap reply = (m, r) \<and> sorted_map m \<and>
    directory m = (\<lambda>x. if directory gmap x = Some (port, t) then None else directory gmap x) \<and>
    r = (if (port, t) \<in> ran (directory gmap) then port else reply)"
proof (induction port t gmap reply rule: unregister_port.induct)
  case (1 port t gmap reply)
  show ?case
  proof (cases "map_by_port port t gmap")
    case None
    then have none: "\<forall>e\<in>set gmap. \<not> (e_port e = port \<and> e_type e = t)" by (simp add: map_by_port_none)
    then have no: "(port, t) \<notin> ran (directory gmap)" using directory_ran [OF 1(2)] by auto
    then have "directory gmap x \<noteq> Some (port, t)" for x by (auto simp: ran_def)
    then have "(\<lambda>x. if directory gmap x = Some (port, t) then None else directory gmap x) = directory gmap"
      by auto
    then show ?thesis using None no 1(2) by (subst unregister_port.simps) simp
  next
    case (Some i)
    then have i: "i < length gmap" "e_port (gmap ! i) = port" "e_type (gmap ! i) = t"
      using map_by_port_from_some [of port t gmap i] by (auto simp: map_by_port_def)
    obtain m r where m: "unregister_port port t (map_del i gmap) port = (m, r)" "sorted_map m"
      "directory m = (\<lambda>x. if directory (map_del i gmap) x = Some (port, t) then None else directory (map_del i gmap) x)"
      "r = port"
      using 1(1) [OF Some map_del_sorted [OF 1(2)]] i(2) by auto
    have at: "directory gmap (e_name (gmap ! i)) = Some (port, t)"
      using directory_nth [OF 1(2) i(1)] i by simp
    then have "(port, t) \<in> ran (directory gmap)" by (rule ranI)
    moreover have "directory m = (\<lambda>x. if directory gmap x = Some (port, t) then None else directory gmap x)"
      using m(3) at directory_del [OF 1(2) i(1)] by auto
    ultimately show ?thesis
      using Some m(1,2,4) i(2) by (subst unregister_port.simps) simp
  qed
qed

lemma unregister_refines:
  assumes "sorted_map gmap"
  shows "\<exists>m r. unregister gmap n port t = Some (m, r) \<and> sorted_map m \<and>
    (directory m, r) = unregister_spec (directory gmap) n port t"
proof (cases "port = 0 \<or> n \<noteq> []")
  case True
  show ?thesis using assms
  proof (cases rule: map_by_name_cases [of gmap n])
    case (found i)
    then show ?thesis
      using True assms directory_nth [OF assms found(2)] directory_del [OF assms found(2)]
      by (auto simp: unregister_def unregister_spec_def map_del_sorted)
  next
    case absent
    then show ?thesis
      using True assms directory_absent [of gmap n] by (auto simp: unregister_def unregister_spec_def)
  qed
next
  case False
  then show ?thesis
    using unregister_port_refines [OF assms, of port t 0] by (auto simp: unregister_def unregister_spec_def)
qed

end
