(* ===== verification/Gdo_Server.thy ===== *)
theory Gdo_Server
  imports Gdo_Map
begin

text \<open>
  The server side of \<^verbatim>\<open>Tools/gdomap.c\<close>: the list of known name servers, the records of the
  channels being read and written, the queue of UDP messages and the handlers of the main
  loop. Answers of the operating system are arguments of the handlers. Buffers live on an
  explicit heap; \<open>None\<close> as a result stands for a buffer freed or read that is not allocated.
  Logging and statistics are left out.
\<close>

section \<open>Configuration and state\<close>

type_synonym in_addr = nat

record iface =
  i_addr :: in_addr
  i_mask :: in_addr
  i_bcok :: bool
  i_bcst :: in_addr

text \<open>\<open>my_port\<close> is the number stored in the variable, which is in network byte order.\<close>

record gdo_config =
  interfaces :: "iface list"
  plist :: "in_addr list"
  my_port :: nat
  tcp_desc :: nat
  udp_desc :: nat
  noprobe :: bool
  interval :: int

record prb_type =
  p_sin :: in_addr
  p_when :: int

record RInfo =
  r_s :: nat
  r_addr :: in_addr
  r_sport :: nat
  r_pos :: nat
  r_buf :: bytes

record WInfo =
  w_s :: nat
  w_len :: nat
  w_pos :: nat
  w_buf :: nat

record u_data =
  u_addr :: in_addr
  u_sport :: nat
  u_pos :: nat
  u_dat :: bytes

text \<open>
  \<open>winfo\<close> has all allocated slots, of which the first \<open>wcount\<close> are in use. Address 0 is the
  null pointer, and \<^verbatim>\<open>malloc\<close> answers the addresses above \<open>brk\<close> one after the other. \<open>direct\<close> has
  the flags of the entries of \<open>plist\<close>.
\<close>

record gdomap =
  gmap :: "map_ent list"
  prb :: "prb_type list"
  rinfo :: "RInfo list"
  winfo :: "WInfo list"
  wcount :: nat
  heap :: "nat \<Rightarrow> bytes option"
  brk :: nat
  read_fds :: "nat set"
  write_fds :: "nat set"
  u_queue :: "u_data list"
  last_probe :: int
  direct :: "bool list"

abbreviation FD_SETSIZE :: nat where "FD_SETSIZE \<equiv> 1024"
abbreviation loopback :: in_addr where "loopback \<equiv> 0x7F000001"

definition is_local_host :: "gdo_config \<Rightarrow> in_addr \<Rightarrow> bool" where
  "is_local_host cfg a \<longleftrightarrow> list_ex (\<lambda>i. a = i_addr i) (interfaces cfg)"

definition is_probe_host :: "gdo_config \<Rightarrow> in_addr \<Rightarrow> bool" where
  "is_probe_host cfg a \<longleftrightarrow> list_ex (\<lambda>p. a = p) (plist cfg)"

definition is_local_net :: "gdo_config \<Rightarrow> in_addr \<Rightarrow> bool" where
  "is_local_net cfg a \<longleftrightarrow> list_ex (\<lambda>i. i_mask i AND i_addr i = i_mask i AND a) (interfaces cfg)"

section \<open>Known name servers\<close>

text \<open>The last entry for an address, and the list without it.\<close>

fun prb_last :: "in_addr \<Rightarrow> prb_type list \<Rightarrow> nat option" where
  "prb_last a [] = None"
| "prb_last a (p # ps) =
     (case prb_last a ps of Some i \<Rightarrow> Some (Suc i) | None \<Rightarrow> if p_sin p = a then Some 0 else None)"

definition prb_remove :: "nat \<Rightarrow> prb_type list \<Rightarrow> prb_type list" where
  "prb_remove i ps = take i ps @ drop (i + 1) ps"

definition prb_add :: "gdo_config \<Rightarrow> in_addr \<Rightarrow> int \<Rightarrow> prb_type list \<Rightarrow> prb_type list" where
  "prb_add cfg a now ps =
     (if is_local_host cfg a then ps
      else if \<not> is_local_net cfg a \<and> \<not> is_probe_host cfg a then ps
      else case prb_last a ps of
        Some i \<Rightarrow> prb_remove i ps @ [(ps ! i)\<lparr>p_when := now\<rparr>]
      | None \<Rightarrow> ps @ [\<lparr>p_sin = a, p_when = now\<rparr>])"

definition prb_del :: "in_addr \<Rightarrow> prb_type list \<Rightarrow> prb_type list" where
  "prb_del a ps = (case prb_last a ps of Some i \<Rightarrow> prb_remove i ps | None \<Rightarrow> ps)"

fun prb_tim_loop :: "gdo_config \<Rightarrow> int \<Rightarrow> int \<Rightarrow> nat \<Rightarrow> prb_type list \<Rightarrow> prb_type list" where
  "prb_tim_loop cfg before lastp 0 ps = ps"
| "prb_tim_loop cfg before lastp (Suc i) ps =
     prb_tim_loop cfg before lastp i
       (if \<not> noprobe cfg \<and> p_when (ps ! i) < before \<and> p_when (ps ! i) < lastp
        then prb_del (p_sin (ps ! i)) ps else ps)"

definition prb_tim :: "gdo_config \<Rightarrow> int \<Rightarrow> gdomap \<Rightarrow> gdomap" where
  "prb_tim cfg now s =
     s\<lparr>prb := prb_tim_loop cfg (now - 1800) (last_probe s) (length (prb s)) (prb s)\<rparr>"

section \<open>Channels\<close>

definition malloc :: "bytes \<Rightarrow> gdomap \<Rightarrow> nat \<times> gdomap" where
  "malloc bs s = (brk s + 1, s\<lparr>heap := (heap s)(brk s + 1 \<mapsto> bs), brk := brk s + 1\<rparr>)"

definition free_buf :: "nat \<Rightarrow> gdomap \<Rightarrow> gdomap option" where
  "free_buf a s = (if heap s a = None then None else Some (s\<lparr>heap := (heap s)(a := None)\<rparr>))"

fun index_where :: "('a \<Rightarrow> bool) \<Rightarrow> 'a list \<Rightarrow> nat option" where
  "index_where P [] = None"
| "index_where P (x # xs) = (if P x then Some 0 else map_option Suc (index_where P xs))"

definition delRInfo :: "nat \<Rightarrow> gdomap \<Rightarrow> gdomap" where
  "delRInfo desc s =
     (case index_where (\<lambda>r. r_s r = desc) (rinfo s) of
        None \<Rightarrow> s | Some i \<Rightarrow> s\<lparr>rinfo := take i (rinfo s) @ drop (i + 1) (rinfo s)\<rparr>)"

definition getRInfo :: "nat \<Rightarrow> gdomap \<Rightarrow> nat option" where
  "getRInfo desc s = index_where (\<lambda>r. r_s r = desc) (rinfo s)"

text \<open>
  With \<open>make\<close>, a missing record is added at the end; the contents of a new record are
  assigned by the caller before they are read.
\<close>

definition getRInfo_make :: "nat \<Rightarrow> gdomap \<Rightarrow> gdomap \<times> nat" where
  "getRInfo_make desc s =
     (case getRInfo desc s of
        Some i \<Rightarrow> (s, i)
      | None \<Rightarrow> (s\<lparr>rinfo := rinfo s @ [\<lparr>r_s = desc, r_addr = 0, r_sport = 0, r_pos = 0, r_buf = []\<rparr>]\<rparr>,
                 length (rinfo s)))"

definition getWInfo :: "nat \<Rightarrow> gdomap \<Rightarrow> nat option" where
  "getWInfo desc s = index_where (\<lambda>w. w_s w = desc) (take (wcount s) (winfo s))"

definition null_WInfo :: WInfo where
  "null_WInfo = \<lparr>w_s = 0, w_len = 0, w_pos = 0, w_buf = 0\<rparr>"

definition getWInfo_make :: "nat \<Rightarrow> gdomap \<Rightarrow> gdomap \<times> nat" where
  "getWInfo_make desc s =
     (case getWInfo desc s of
        Some i \<Rightarrow> (s, i)
      | None \<Rightarrow>
          let n = wcount s;
              slots = (if length (winfo s) \<le> n then take n (winfo s) @ [null_WInfo] else winfo s)
          in (s\<lparr>winfo := slots[n := (slots ! n)\<lparr>w_s := desc\<rparr>], wcount := n + 1\<rparr>, n))"

text \<open>The records after the deleted one move down; the slot behind them keeps its contents.\<close>

definition delWInfo :: "nat \<Rightarrow> gdomap \<Rightarrow> gdomap" where
  "delWInfo desc s =
     (case getWInfo desc s of
        None \<Rightarrow> s
      | Some i \<Rightarrow>
          let n = wcount s - 1
          in s\<lparr>winfo := (if i \<noteq> n then copy_cells (winfo s) i (winfo s) (i + 1) (n - i) else winfo s),
               wcount := n\<rparr>)"

definition set_w :: "nat \<Rightarrow> (WInfo \<Rightarrow> WInfo) \<Rightarrow> gdomap \<Rightarrow> gdomap" where
  "set_w i f s = s\<lparr>winfo := (winfo s)[i := f (winfo s ! i)]\<rparr>"

definition clear_chan :: "gdo_config \<Rightarrow> nat \<Rightarrow> gdomap \<Rightarrow> gdomap option" where
  "clear_chan cfg desc s =
     (if FD_SETSIZE \<le> desc then Some s
      else let server = (desc = tcp_desc cfg \<or> desc = udp_desc cfg);
               s1 = s\<lparr>write_fds := write_fds s - {desc},
                      read_fds := (if server then insert desc (read_fds s) else read_fds s - {desc})\<rparr>
           in case getWInfo desc s1 of
                None \<Rightarrow> Some (if server then s1 else delRInfo desc s1)
              | Some i \<Rightarrow>
                  do {
                    s2 \<leftarrow> (if w_buf (winfo s1 ! i) \<noteq> 0 then free_buf (w_buf (winfo s1 ! i)) s1 else Some s1);
                    let s3 = set_w i (\<lambda>w. w\<lparr>w_buf := 0, w_len := 0, w_pos := 0\<rparr>) s2;
                    Some (if server then s3 else delRInfo desc (delWInfo desc s3))
                  })"

section \<open>UDP messages\<close>

definition queue_msg :: "in_addr \<Rightarrow> nat \<Rightarrow> bytes \<Rightarrow> gdomap \<Rightarrow> gdomap" where
  "queue_msg a p dat s =
     s\<lparr>u_queue := u_queue s @ [\<lparr>u_addr = a, u_sport = p, u_pos = 0, u_dat = dat\<rparr>]\<rparr>"

definition queue_pop :: "gdomap \<Rightarrow> gdomap" where
  "queue_pop s = s\<lparr>u_queue := tl (u_queue s)\<rparr>"

definition packet :: "nat \<Rightarrow> nat \<Rightarrow> nat \<Rightarrow> nat \<Rightarrow> bytes \<Rightarrow> bytes" where
  "packet r n t p nm = [r, n, t, 0] @ be32 p @ nm @ replicate (256 - length nm) 0"

definition queue_probe :: "gdo_config \<Rightarrow> in_addr \<Rightarrow> in_addr \<Rightarrow> in_addr list \<Rightarrow> bool \<Rightarrow> gdomap \<Rightarrow> gdomap" where
  "queue_probe cfg dest from e f s =
     queue_msg dest (my_port cfg)
       (packet (if f then GDO_PREPLY else GDO_PROBE) (8 + length e * 4) 0 0
          (be32 from @ be32 dest @ concat (map be32 e))) s"

definition other_addresses_on_net :: "gdo_config \<Rightarrow> in_addr \<Rightarrow> in_addr list" where
  "other_addresses_on_net cfg a =
     map i_addr (filter (\<lambda>i. i_addr i \<noteq> a \<and> i_addr i AND i_mask i = a AND i_mask i) (interfaces cfg))"

abbreviation MAX_EXTRA :: nat where "MAX_EXTRA \<equiv> 61"

function queue_probes :: "gdo_config \<Rightarrow> in_addr \<Rightarrow> in_addr \<Rightarrow> in_addr list \<Rightarrow> nat \<Rightarrow> bool \<Rightarrow> gdomap \<Rightarrow> gdomap" where
  "queue_probes cfg dest from others elen f s =
     (if elen > MAX_EXTRA
      then queue_probes cfg dest from others (elen - MAX_EXTRA) f
             (queue_probe cfg dest from (take MAX_EXTRA (drop (elen - MAX_EXTRA) others)) f s)
      else queue_probe cfg dest from (take elen others) f s)"
  by pat_completeness auto
termination
  by (relation "measure (\<lambda>(cfg, dest, from, others, elen, f, s). elen)") auto

declare queue_probes.simps [simp del]

definition handle_send :: "int \<Rightarrow> bool \<Rightarrow> gdomap \<Rightarrow> gdomap" where
  "handle_send r wouldblock s =
     (case u_queue s of
        [] \<Rightarrow> s
      | entry # rest \<Rightarrow>
          if r < 0 then (if wouldblock then s else queue_pop s)
          else let entry' = entry\<lparr>u_pos := u_pos entry + nat r\<rparr>;
                   s' = s\<lparr>u_queue := entry' # rest\<rparr>
               in if length (u_dat entry') \<le> u_pos entry' then queue_pop s' else s')"

end
