(* ===== verification/Gdo_Probe.thy ===== *)
theory Gdo_Probe
  imports Gdo_Server
begin

text \<open>
  Probing the network for other name servers: \<^verbatim>\<open>init_probe\<close> of \<^verbatim>\<open>Tools/gdomap.c\<close>.
\<close>

section \<open>Networks\<close>

text \<open>The networks of the interfaces other than the loopback one, each once.\<close>

fun networks :: "in_addr list \<Rightarrow> iface list \<Rightarrow> in_addr list" where
  "networks nlist [] = nlist"
| "networks nlist (i # is) =
     (let net = i_addr i AND i_mask i
      in if i_addr i = loopback then networks nlist is
         else networks (if net \<in> set nlist then nlist else nlist @ [net]) is)"

definition first_on_net :: "gdo_config \<Rightarrow> in_addr \<Rightarrow> iface option" where
  "first_on_net cfg net = find (\<lambda>i. i_addr i AND i_mask i = net) (interfaces cfg)"

abbreviation class_c_mask :: in_addr where "class_c_mask \<equiv> 0xFFFFFF00"

text \<open>The mask, no wider than that of a class c network, and the ends of the range to probe.\<close>

definition host_mask :: "iface \<Rightarrow> in_addr" where
  "host_mask i = (if i_mask i OR class_c_mask \<noteq> i_mask i then i_mask i OR class_c_mask else i_mask i)"

definition subnet_low :: "iface \<Rightarrow> in_addr" where
  "subnet_low i = i_addr i AND host_mask i AND 255"

definition subnet_high :: "iface \<Rightarrow> in_addr" where
  "subnet_high i = subnet_low i OR (255 XOR (255 AND host_mask i))"

definition class_c_net :: "iface \<Rightarrow> in_addr" where
  "class_c_net i = i_addr i AND host_mask i AND class_c_mask"

section \<open>Sending the probes\<close>

definition probe_from :: "gdo_config \<Rightarrow> in_addr \<Rightarrow> in_addr list \<Rightarrow> in_addr \<Rightarrow> gdomap \<Rightarrow> gdomap" where
  "probe_from cfg from others a s =
     (if is_local_host cfg a then s else queue_probes cfg a from others (length others) False s)"

text \<open>The hosts of the configuration with a direct connection through an interface.\<close>

fun probe_direct :: "gdo_config \<Rightarrow> iface \<Rightarrow> in_addr list \<Rightarrow> nat \<Rightarrow> in_addr list \<Rightarrow> gdomap \<Rightarrow> gdomap" where
  "probe_direct cfg i others k [] s = s"
| "probe_direct cfg i others k (a # as) s =
     probe_direct cfg i others (Suc k) as
       (if a AND i_mask i = i_addr i AND i_mask i
        then probe_from cfg (i_addr i) others a (s\<lparr>direct := (direct s)[k := True]\<rparr>) else s)"

definition probe_net :: "gdo_config \<Rightarrow> in_addr \<Rightarrow> gdomap \<Rightarrow> gdomap" where
  "probe_net cfg net s =
     (case first_on_net cfg net of
        None \<Rightarrow> s
      | Some i \<Rightarrow>
          let others = (if i_bcok i then [] else other_addresses_on_net cfg (i_addr i))
          in if plist cfg \<noteq> [] then probe_direct cfg i others 0 (plist cfg) s
             else if i_bcok i then queue_probe cfg (i_bcst i) (i_addr i) [] False s
             else fold (\<lambda>j. probe_from cfg (i_addr i) others (class_c_net i + j))
                    [subnet_low i + 1..<subnet_high i] s)"

text \<open>The hosts of the configuration with no direct connection, from the first interface.\<close>

fun probe_indirect :: "gdo_config \<Rightarrow> in_addr \<Rightarrow> in_addr list \<Rightarrow> in_addr list \<Rightarrow> bool list \<Rightarrow> gdomap \<Rightarrow> gdomap" where
  "probe_indirect cfg from others (a # as) (d # ds) s =
     probe_indirect cfg from others as ds (if d then s else probe_from cfg from others a s)"
| "probe_indirect cfg from others _ _ s = s"

definition init_probe :: "gdo_config \<Rightarrow> int \<Rightarrow> gdomap \<Rightarrow> gdomap" where
  "init_probe cfg now s =
     (if noprobe cfg then s
      else let s1 = fold (probe_net cfg) (networks [] (interfaces cfg)) s;
               s2 = (if list_ex Not (direct s1)
                     then let from = i_addr (hd (interfaces cfg))
                          in probe_indirect cfg from (other_addresses_on_net cfg from) (plist cfg) (direct s1) s1
                     else s1)
           in s2\<lparr>last_probe := now\<rparr>)"

section \<open>What a probe changes\<close>

text \<open>A probe changes the queue, the flags of direct connections and the time of the last one.\<close>

definition only_probes :: "gdomap \<Rightarrow> gdomap \<Rightarrow> bool" where
  "only_probes s s' \<longleftrightarrow> s' = s\<lparr>u_queue := u_queue s', direct := direct s', last_probe := last_probe s'\<rparr>"

lemma only_probes_refl [simp]: "only_probes s s"
  by (simp add: only_probes_def)

lemma only_probes_trans: "only_probes s t \<Longrightarrow> only_probes t u \<Longrightarrow> only_probes s u"
  unfolding only_probes_def by (cases s; cases t; cases u) simp

lemma queue_probe_only: "only_probes s (queue_probe cfg d f e r s)"
  by (simp add: queue_probe_def queue_msg_def only_probes_def)

lemma queue_probes_only: "only_probes s (queue_probes cfg d f e n r s)"
proof (induction cfg d f e n r s rule: queue_probes.induct)
  case (1 cfg d f e n r s)
  then show ?case
    by (subst queue_probes.simps) (auto intro: queue_probe_only only_probes_trans)
qed

lemma probe_from_only: "only_probes s (probe_from cfg f e a s)"
  by (simp add: probe_from_def queue_probes_only)

lemma probe_direct_only: "only_probes s (probe_direct cfg i e k as s)"
proof (induction as arbitrary: k s)
  case (Cons a as)
  let ?t = "if a AND i_mask i = i_addr i AND i_mask i
    then probe_from cfg (i_addr i) e a (s\<lparr>direct := (direct s)[k := True]\<rparr>) else s"
  have "only_probes s (s\<lparr>direct := (direct s)[k := True]\<rparr>)" by (simp add: only_probes_def)
  from only_probes_trans [OF this probe_from_only] have "only_probes s ?t" by simp
  from only_probes_trans [OF this Cons.IH] show ?case by simp
qed simp

lemma fold_only: "(\<And>x s. only_probes s (f x s)) \<Longrightarrow> only_probes s (fold f xs s)"
proof (induction xs arbitrary: s)
  case (Cons x xs)
  from only_probes_trans [OF Cons.prems Cons.IH [OF Cons.prems]] show ?case by simp
qed simp

lemma probe_net_only: "only_probes s (probe_net cfg net s)"
  by (auto simp: probe_net_def Let_def probe_direct_only queue_probe_only probe_from_only
      intro!: fold_only split: option.splits)

lemma probe_indirect_only: "only_probes s (probe_indirect cfg f e as ds s)"
proof (induction cfg f e as ds s rule: probe_indirect.induct)
  case (1 cfg f e a as d ds s)
  have "only_probes s (if d then s else probe_from cfg f e a s)" by (simp add: probe_from_only)
  from only_probes_trans [OF this 1] show ?case by simp
qed simp_all

lemma init_probe_only: "only_probes s (init_probe cfg now s)"
proof -
  define s1 where "s1 = fold (probe_net cfg) (networks [] (interfaces cfg)) s"
  have 1: "only_probes s s1" unfolding s1_def by (rule fold_only) (rule probe_net_only)
  have now: "only_probes t (t\<lparr>last_probe := now\<rparr>)" for t by (simp add: only_probes_def)
  show ?thesis
    using only_probes_trans [OF 1 now] only_probes_trans [OF only_probes_trans [OF 1 probe_indirect_only] now]
    by (simp add: init_probe_def Let_def s1_def)
qed

lemma init_probe_frame [simp]:
  "gmap (init_probe cfg now s) = gmap s" "prb (init_probe cfg now s) = prb s"
  "rinfo (init_probe cfg now s) = rinfo s" "winfo (init_probe cfg now s) = winfo s"
  "wcount (init_probe cfg now s) = wcount s" "heap (init_probe cfg now s) = heap s"
  "read_fds (init_probe cfg now s) = read_fds s" "write_fds (init_probe cfg now s) = write_fds s"
  using init_probe_only [of s cfg now] unfolding only_probes_def
  by (cases "init_probe cfg now s"; cases s; simp)+

section \<open>What is sent\<close>















end
