(* ===== verification/Gdo_Requests.thy ===== *)
theory Gdo_Requests
  imports Gdo_Probe
begin

text \<open>
  The requests of \<^verbatim>\<open>Tools/gdomap.c\<close> and the handlers that read them and write the replies,
  with the main loop as a step relation.
\<close>

section \<open>Replies\<close>

text \<open>A reply written into the buffer, or into a new one that takes its place.\<close>

definition put_reply :: "nat \<Rightarrow> bytes \<Rightarrow> gdomap \<Rightarrow> gdomap" where
  "put_reply i bs s = s\<lparr>heap := (heap s)(w_buf (winfo s ! i) \<mapsto> bs)\<rparr>"

definition new_reply :: "nat \<Rightarrow> bytes \<Rightarrow> gdomap \<Rightarrow> gdomap" where
  "new_reply i bs s =
     (let (a, s') = malloc bs s in set_w i (\<lambda>w. w\<lparr>w_buf := a, w_len := length bs\<rparr>) s')"

definition replace_reply :: "nat \<Rightarrow> bytes \<Rightarrow> gdomap \<Rightarrow> gdomap option" where
  "replace_reply i bs s = map_option (new_reply i bs) (free_buf (w_buf (winfo s ! i)) s)"

definition servers_reply :: "in_addr \<Rightarrow> prb_type list \<Rightarrow> bytes" where
  "servers_reply a ps = be32 (length ps + 1) @ be32 a @ concat (map (\<lambda>p. be32 (p_sin p)) (rev ps))"

text \<open>The address told to the other server: the one it probed, or one on its network.\<close>

definition reply_iface :: "gdo_config \<Rightarrow> in_addr \<Rightarrow> iface option" where
  "reply_iface cfg a =
     find (\<lambda>i. i_addr i \<noteq> loopback \<and> i_mask i AND i_addr i = i_mask i AND a) (interfaces cfg)"

definition probe_reply :: "gdo_config \<Rightarrow> RInfo \<Rightarrow> bytes \<Rightarrow> in_addr \<times> bytes" where
  "probe_reply cfg ri nm =
     (let raddr = be_value (take 4 nm); laddr = be_value (take 4 (drop 4 nm))
      in if \<not> is_local_host cfg laddr \<or> laddr = loopback
         then case reply_iface cfg (r_addr ri) of
                Some i \<Rightarrow> (i_addr i, packet GDO_PREPLY 8 0 0 (be32 (i_addr i) @ be32 raddr))
              | None \<Rightarrow> (laddr, packet GDO_PREPLY 8 0 0 (be32 0 @ be32 raddr))
         else (laddr, packet GDO_PREPLY 8 0 0 (be32 laddr @ be32 raddr)))"

text \<open>
  The answer to a request of a legal type: whether there is one, or the channel is to be
  cleared at once, and the state with the reply in its buffer.
\<close>

definition add_servers :: "gdo_config \<Rightarrow> RInfo \<Rightarrow> bytes \<Rightarrow> int \<Rightarrow> gdomap \<Rightarrow> gdomap" where
  "add_servers cfg ri nm now s =
     (if r_sport ri = my_port cfg
      then s\<lparr>prb := prb_add cfg (r_addr ri) now (prb_add cfg (be_value (take 4 nm)) now (prb s))\<rparr>
      else s)"

definition answer ::
  "gdo_config \<Rightarrow> os_bind \<Rightarrow> int \<Rightarrow> nat \<Rightarrow> RInfo \<Rightarrow> gdo_req \<Rightarrow> nat \<Rightarrow> gdomap \<Rightarrow> (bool \<times> gdomap) option" where
  "answer cfg b now desc ri req i s =
     (let nm = take (nsize req) (rname req); local_host = is_local_host cfg (r_addr ri)
      in if rtype req = GDO_REGISTER
         then if \<not> local_host then Some (False, s)
              else do {
                (m, r) \<leftarrow> register b (gmap s) nm (rport req) (ptype req);
                Some (True, put_reply i (be32 r) (s\<lparr>gmap := m\<rparr>))
              }
         else if rtype req = GDO_LOOKUP
         then do {
           (m, r) \<leftarrow> lookup b (gmap s) nm (ptype req);
           Some (True, put_reply i (be32 r) (s\<lparr>gmap := m\<rparr>))
         }
         else if rtype req = GDO_UNREG
         then if \<not> local_host then Some (False, s)
              else do {
                (m, r) \<leftarrow> unregister (gmap s) nm (rport req) (ptype req);
                Some (True, put_reply i (be32 r) (s\<lparr>gmap := m\<rparr>))
              }
         else if rtype req = GDO_SERVERS
         then if \<not> local_host then Some (False, s)
              else map_option (Pair True) (replace_reply i (servers_reply (r_addr ri) (prb s)) s)
         else if rtype req = GDO_NAMES
         then map_option (Pair True) (replace_reply i (names_reply (gmap s)) s)
         else if rtype req = GDO_PROBE
         then let s1 = add_servers cfg ri (rname req) now s
              in if desc = udp_desc cfg \<and> r_sport ri = my_port cfg
                 then let (laddr, pkt) = probe_reply cfg ri (rname req);
                          others = other_addresses_on_net cfg laddr
                      in do {
                        s2 \<leftarrow> replace_reply i pkt s1;
                        Some (True,
                          if others \<noteq> []
                          then queue_probes cfg (be_value (take 4 (rname req))) laddr others (length others) True s2
                          else s2)
                      }
                 else Some (True, put_reply i (be32 (my_port cfg)) s1)
         else if rtype req = GDO_PREPLY
         then Some (False, add_servers cfg ri (rname req) now s)
         else Some (False, s))"

definition request_ok :: "gdo_req \<Rightarrow> bool" where
  "request_ok req \<longleftrightarrow> legal_ptype (ptype req) \<or>
     ptype req = 0 \<and> rtype req \<in> {GDO_PROBE, GDO_PREPLY, GDO_SERVERS, GDO_NAMES}"

definition handle_request :: "gdo_config \<Rightarrow> os_bind \<Rightarrow> int \<Rightarrow> nat \<Rightarrow> gdomap \<Rightarrow> gdomap option" where
  "handle_request cfg b now desc s =
     (case getRInfo desc s of
        None \<Rightarrow> Some s
      | Some k \<Rightarrow>
          let ri = rinfo s ! k; req = request_of (r_buf ri);
              s1 = s\<lparr>read_fds := read_fds s - {desc}, write_fds := insert desc (write_fds s)\<rparr>;
              (s2, i) = getWInfo_make desc s1;
              s3 = set_w i (\<lambda>w. w\<lparr>w_pos := 0\<rparr>) s2
          in if \<not> request_ok req then clear_chan cfg desc s3
             else do {
               (keep, s4) \<leftarrow> answer cfg b now desc ri req i (new_reply i [0, 0, 0, 0] s3);
               (if \<not> keep then clear_chan cfg desc s4
                else if desc = udp_desc cfg
                then do {
                  bs \<leftarrow> heap s4 (w_buf (winfo s4 ! i));
                  clear_chan cfg desc (queue_msg (r_addr ri) (r_sport ri) bs s4)
                }
                else Some s4)
             })"

section \<open>The handlers\<close>

text \<open>\<open>nonblocking\<close> says whether the new descriptor could be set non-blocking.\<close>

definition set_r :: "nat \<Rightarrow> (RInfo \<Rightarrow> RInfo) \<Rightarrow> gdomap \<Rightarrow> gdomap" where
  "set_r i f s = s\<lparr>rinfo := (rinfo s)[i := f (rinfo s ! i)]\<rparr>"

definition handle_accept :: "gdo_config \<Rightarrow> nat \<Rightarrow> in_addr \<Rightarrow> nat \<Rightarrow> bool \<Rightarrow> gdomap \<Rightarrow> gdomap option" where
  "handle_accept cfg desc a p nonblocking s =
     (let (s1, i) = getRInfo_make desc (s\<lparr>read_fds := insert desc (read_fds s)\<rparr>);
          s2 = set_r i (\<lambda>r. r\<lparr>r_pos := 0, r_addr := a, r_sport := p\<rparr>) s1
      in if nonblocking then Some s2 else clear_chan cfg desc s2)"

text \<open>
  \<open>bs\<close> are the bytes that the calls of \<^verbatim>\<open>read\<close> deliver until one fails, \<open>wouldblock\<close> whether it
  failed for having to wait.
\<close>

definition handle_read ::
  "gdo_config \<Rightarrow> os_bind \<Rightarrow> int \<Rightarrow> nat \<Rightarrow> bytes \<Rightarrow> bool \<Rightarrow> gdomap \<Rightarrow> gdomap option" where
  "handle_read cfg b now desc bs wouldblock s =
     (case getRInfo desc s of
        None \<Rightarrow> Some s
      | Some k \<Rightarrow>
          let ri = rinfo s ! k; new = take (GDO_REQ_SIZE - r_pos ri) bs; pos = r_pos ri + length new;
              s1 = set_r k (\<lambda>r. r\<lparr>r_pos := pos, r_buf := take (r_pos ri) (r_buf ri) @ new @ drop pos (r_buf ri)\<rparr>) s
          in if pos = GDO_REQ_SIZE then handle_request cfg b now desc s1
             else if \<not> wouldblock \<or> new = [] then clear_chan cfg desc s1
             else Some s1)"

definition handle_recv ::
  "gdo_config \<Rightarrow> os_bind \<Rightarrow> int \<Rightarrow> in_addr \<Rightarrow> nat \<Rightarrow> bytes \<Rightarrow> gdomap \<Rightarrow> gdomap option" where
  "handle_recv cfg b now a p bs s =
     (case getRInfo (udp_desc cfg) s of
        None \<Rightarrow> Some s
      | Some k \<Rightarrow>
          let s1 = set_r k (\<lambda>r. r\<lparr>r_addr := a, r_sport := p, r_buf := bs @ drop (length bs) (r_buf r)\<rparr>) s
          in if length bs = GDO_REQ_SIZE
             then let s2 = set_r k (\<lambda>r. r\<lparr>r_pos := GDO_REQ_SIZE\<rparr>) s1
                  in if is_local_host cfg a then Some s2 else handle_request cfg b now (udp_desc cfg) s2
             else Some s1)"

text \<open>The bytes still to be written are read from the buffer before \<open>r\<close> of them are written.\<close>

definition handle_write :: "gdo_config \<Rightarrow> nat \<Rightarrow> int \<Rightarrow> gdomap \<Rightarrow> gdomap option" where
  "handle_write cfg desc r s =
     (case getWInfo desc s of
        None \<Rightarrow> Some s
      | Some i \<Rightarrow>
          let wi = winfo s ! i
          in if w_pos wi < w_len wi \<and> heap s (w_buf wi) = None then None
             else if r < 0 then clear_chan cfg desc s
             else let pos = w_pos wi + nat r; s1 = set_w i (\<lambda>w. w\<lparr>w_pos := pos\<rparr>) s
                  in if w_len wi \<le> pos then clear_chan cfg desc s1 else Some s1)"

section \<open>The main loop\<close>

text \<open>
  What \<^verbatim>\<open>select\<close> reports: a connection accepted on an unused descriptor, a channel to be read
  or written, a UDP packet received or a message sent, or nothing for ten seconds, when dead
  servers are dropped and the network is probed from time to time.
\<close>

datatype event =
    Accept nat in_addr nat bool
  | Readable nat bytes bool
  | Writable nat int
  | Packet in_addr nat bytes
  | Send int bool
  | Timeout

definition enabled :: "gdo_config \<Rightarrow> gdomap \<Rightarrow> event \<Rightarrow> bool" where
  "enabled cfg s ev =
     (case ev of
        Accept desc a p nb \<Rightarrow> tcp_desc cfg \<in> read_fds s \<and> desc < FD_SETSIZE \<and>
          desc \<notin> {tcp_desc cfg, udp_desc cfg} \<union> read_fds s \<union> write_fds s
      | Readable desc bs wb \<Rightarrow> desc \<in> read_fds s \<and> desc \<notin> {tcp_desc cfg, udp_desc cfg} \<and>
          list_all (\<lambda>b. b < 256) bs
      | Writable desc r \<Rightarrow> desc \<in> write_fds s \<and> desc \<notin> {tcp_desc cfg, udp_desc cfg}
      | Packet a p bs \<Rightarrow> udp_desc cfg \<in> read_fds s \<and> length bs \<le> GDO_REQ_SIZE \<and> list_all (\<lambda>b. b < 256) bs
      | Send r wb \<Rightarrow> u_queue s \<noteq> []
      | Timeout \<Rightarrow> True)"

definition handle_timeout :: "gdo_config \<Rightarrow> int \<Rightarrow> gdomap \<Rightarrow> gdomap" where
  "handle_timeout cfg now s =
     (let s1 = prb_tim cfg now s
      in if u_queue s1 = [] \<and> interval cfg \<le> now - last_probe s1 then init_probe cfg now s1 else s1)"

definition handle_event :: "gdo_config \<Rightarrow> os_bind \<Rightarrow> int \<Rightarrow> event \<Rightarrow> gdomap \<Rightarrow> gdomap option" where
  "handle_event cfg b now ev s =
     (case ev of
        Accept desc a p nb \<Rightarrow> handle_accept cfg desc a p nb s
      | Readable desc bs wb \<Rightarrow> handle_read cfg b now desc bs wb s
      | Writable desc r \<Rightarrow> handle_write cfg desc r s
      | Packet a p bs \<Rightarrow> handle_recv cfg b now a p bs s
      | Send r wb \<Rightarrow> Some (handle_send r wb s)
      | Timeout \<Rightarrow> Some (handle_timeout cfg now s))"

text \<open>The state after \<^verbatim>\<open>init_ports\<close>, with records for the two sockets.\<close>

definition init_state :: "gdo_config \<Rightarrow> gdomap" where
  "init_state cfg =
     \<lparr>gmap = [], prb = [],
      rinfo = map (\<lambda>desc. \<lparr>r_s = desc, r_addr = 0, r_sport = 0, r_pos = 0, r_buf = replicate GDO_REQ_SIZE 0\<rparr>)
        [tcp_desc cfg, udp_desc cfg],
      winfo = [], wcount = 0, heap = (\<lambda>_. None), brk = 0,
      read_fds = {tcp_desc cfg, udp_desc cfg}, write_fds = {}, u_queue = [], last_probe = 0,
      direct = replicate (length (plist cfg)) False\<rparr>"

inductive io_step :: "gdo_config \<Rightarrow> gdomap \<Rightarrow> gdomap \<Rightarrow> bool" for cfg where
  io_event: "enabled cfg s ev \<Longrightarrow> handle_event cfg b now ev s = Some s' \<Longrightarrow> io_step cfg s s'"

inductive io_reachable :: "gdo_config \<Rightarrow> gdomap \<Rightarrow> bool" for cfg where
  io_init: "io_reachable cfg (init_probe cfg now (init_state cfg))"
| io_next: "io_reachable cfg s \<Longrightarrow> io_step cfg s s' \<Longrightarrow> io_reachable cfg s'"

inductive_cases io_stepE: "io_step cfg s s'"

end
