(* ===== verification/Gdo_Invariant.thy ===== *)
theory Gdo_Invariant
  imports Gdo_Directory Gdo_Requests
begin

text \<open>
  The invariant of the name server: names sorted, without repeats, and what is in the tables
  legal, preserved by every handler; with the frame lemmas that say which handlers leave the
  map and the list of servers alone.
\<close>

section \<open>Frames\<close>

named_theorems gdo_frame \<open>what operations on channels leave unchanged\<close>

lemma set_w_frame [gdo_frame]:
  "gmap (set_w i f s) = gmap s" "prb (set_w i f s) = prb s" "rinfo (set_w i f s) = rinfo s"
  "wcount (set_w i f s) = wcount s" "length (winfo (set_w i f s)) = length (winfo s)"
  "heap (set_w i f s) = heap s" "brk (set_w i f s) = brk s"
  by (simp_all add: set_w_def)

lemma new_reply_frame [gdo_frame]:
  "gmap (new_reply i bs s) = gmap s" "prb (new_reply i bs s) = prb s" "rinfo (new_reply i bs s) = rinfo s"
  "wcount (new_reply i bs s) = wcount s" "length (winfo (new_reply i bs s)) = length (winfo s)"
  by (simp_all add: new_reply_def malloc_def gdo_frame)

lemma put_reply_frame [gdo_frame]:
  "gmap (put_reply i bs s) = gmap s" "prb (put_reply i bs s) = prb s" "rinfo (put_reply i bs s) = rinfo s"
  "wcount (put_reply i bs s) = wcount s" "winfo (put_reply i bs s) = winfo s"
  by (simp_all add: put_reply_def)

lemma free_buf_frame:
  "free_buf a s = Some s' \<Longrightarrow> gmap s' = gmap s \<and> prb s' = prb s \<and> rinfo s' = rinfo s \<and>
    wcount s' = wcount s \<and> winfo s' = winfo s"
  by (auto simp: free_buf_def split: if_splits)

lemma replace_reply_frame:
  "replace_reply i bs s = Some s' \<Longrightarrow> gmap s' = gmap s \<and> prb s' = prb s \<and> rinfo s' = rinfo s \<and>
    wcount s' = wcount s \<and> length (winfo s') = length (winfo s)"
  by (auto simp: replace_reply_def gdo_frame dest!: free_buf_frame)

lemma queue_probe_frame [gdo_frame]:
  "gmap (queue_probe cfg d f e r s) = gmap s" "prb (queue_probe cfg d f e r s) = prb s"
  "rinfo (queue_probe cfg d f e r s) = rinfo s" "wcount (queue_probe cfg d f e r s) = wcount s"
  "winfo (queue_probe cfg d f e r s) = winfo s"
  by (simp_all add: queue_probe_def queue_msg_def)

lemma queue_probes_frame [gdo_frame]:
  "gmap (queue_probes cfg d f e n r s) = gmap s \<and> prb (queue_probes cfg d f e n r s) = prb s \<and>
   rinfo (queue_probes cfg d f e n r s) = rinfo s \<and> wcount (queue_probes cfg d f e n r s) = wcount s \<and>
   winfo (queue_probes cfg d f e n r s) = winfo s"
proof (induction cfg d f e n r s rule: queue_probes.induct)
  case (1 cfg d f e n r s)
  then show ?case by (subst (1 2 3 4 5) queue_probes.simps) (simp add: gdo_frame)
qed

text \<open>The bytes of the records being read, and the slots in use.\<close>

definition channels_ok :: "gdomap \<Rightarrow> bool" where
  "channels_ok s \<longleftrightarrow> wcount s \<le> length (winfo s) \<and>
     list_all (\<lambda>r. r_pos r \<le> length (r_buf r) \<and> length (r_buf r) \<le> GDO_REQ_SIZE \<and>
       list_all (\<lambda>b. b < 256) (r_buf r)) (rinfo s)"

lemma index_where_some: "index_where P xs = Some i \<Longrightarrow> i < length xs \<and> P (xs ! i)"
  by (induction xs arbitrary: i) (auto split: if_splits)

lemma index_where_update: "j < length xs \<Longrightarrow> P y = P (xs ! j) \<Longrightarrow> index_where P (xs[j := y]) = index_where P xs"
  by (induction xs arbitrary: j) (auto split: nat.splits simp: less_Suc_eq_0_disj)

lemma index_where_none: "index_where P xs = None \<longleftrightarrow> list_all (\<lambda>x. \<not> P x) xs"
  by (induction xs) auto

lemma getWInfo_make_frame:
  "getWInfo_make desc s = (s', i) \<Longrightarrow> wcount s \<le> length (winfo s) \<Longrightarrow>
    gmap s' = gmap s \<and> prb s' = prb s \<and> rinfo s' = rinfo s \<and> i < wcount s' \<and> wcount s' \<le> length (winfo s')"
  using index_where_some [of "\<lambda>w. w_s w = desc" "take (wcount s) (winfo s)"]
  by (auto simp: getWInfo_make_def getWInfo_def Let_def split: option.splits if_splits)

lemma delWInfo_frame:
  assumes "wcount s \<le> length (winfo s)"
  shows "gmap (delWInfo desc s) = gmap s \<and> prb (delWInfo desc s) = prb s \<and> rinfo (delWInfo desc s) = rinfo s \<and>
    wcount (delWInfo desc s) \<le> length (winfo (delWInfo desc s))"
proof (cases "getWInfo desc s")
  case (Some i)
  then have "i < wcount s" "i < length (winfo s)"
    using index_where_some [of "\<lambda>w. w_s w = desc" "take (wcount s) (winfo s)" i] assms by (auto simp: getWInfo_def)
  then show ?thesis
    using Some assms by (auto simp: delWInfo_def Let_def)
qed (use assms in \<open>simp add: delWInfo_def\<close>)

lemma set_delRInfo: "set (rinfo (delRInfo desc s)) \<subseteq> set (rinfo s)"
  by (auto simp: delRInfo_def split: option.splits dest: in_set_takeD in_set_dropD)

lemma delRInfo_frame [gdo_frame]:
  "gmap (delRInfo desc s) = gmap s" "prb (delRInfo desc s) = prb s"
  "wcount (delRInfo desc s) = wcount s" "winfo (delRInfo desc s) = winfo s"
  by (simp_all add: delRInfo_def split: option.splits)

lemma clear_chan_frame:
  assumes "clear_chan cfg desc s = Some s'" "channels_ok s"
  shows "gmap s' = gmap s \<and> prb s' = prb s \<and> channels_ok s'"
proof -
  have del: "channels_ok (delRInfo desc t)" if "channels_ok t" for t
    using that set_delRInfo [of desc t] by (auto simp: channels_ok_def list_all_iff gdo_frame)
  have delW: "channels_ok (delWInfo desc t)" if "channels_ok t" for t
    using that delWInfo_frame [of t desc] by (auto simp: channels_ok_def)
  have setW: "channels_ok (set_w i f t) \<longleftrightarrow> channels_ok t" for i f t
    by (simp add: channels_ok_def gdo_frame)
  have free: "channels_ok t'" if "free_buf a t = Some t'" "channels_ok t" for a t t'
    using that free_buf_frame [OF that(1)] by (simp add: channels_ok_def)
  let ?s1 = "s\<lparr>write_fds := write_fds s - {desc},
    read_fds := (if desc = tcp_desc cfg \<or> desc = udp_desc cfg then insert desc (read_fds s) else read_fds s - {desc})\<rparr>"
  have s1: "channels_ok ?s1" "gmap ?s1 = gmap s" "prb ?s1 = prb s"
    using assms(2) by (simp_all add: channels_ok_def)
  have dw: "gmap (delWInfo desc t) = gmap t" "prb (delWInfo desc t) = prb t" if "channels_ok t" for t
    using that delWInfo_frame [of t desc] by (simp_all add: channels_ok_def)
  consider "FD_SETSIZE \<le> desc" "s' = s"
    | "getWInfo desc ?s1 = None" "s' = ?s1 \<or> s' = delRInfo desc ?s1"
    | i s2 where "s2 = ?s1 \<or> free_buf (w_buf (winfo s ! i)) ?s1 = Some s2"
      "s' = set_w i (\<lambda>w. w\<lparr>w_buf := 0, w_len := 0, w_pos := 0\<rparr>) s2 \<or>
       s' = delRInfo desc (delWInfo desc (set_w i (\<lambda>w. w\<lparr>w_buf := 0, w_len := 0, w_pos := 0\<rparr>) s2))"
    using assms(1)
    by (auto simp: clear_chan_def Let_def bind_eq_Some_conv split: if_splits option.splits)
  then show ?thesis
  proof cases
    case 2
    then show ?thesis using s1 del by (auto simp: gdo_frame)
  next
    case (3 i s2)
    then have "channels_ok s2" "gmap s2 = gmap s" "prb s2 = prb s"
      using s1 free free_buf_frame by fastforce+
    then show ?thesis using 3(2) del delW setW dw by (auto simp: gdo_frame)
  qed (use assms in auto)
qed

section \<open>The tables\<close>

definition entry_ok :: "map_ent \<Rightarrow> bool" where
  "entry_ok e \<longleftrightarrow> length (e_name e) < 256 \<and> list_all (\<lambda>b. b < 256) (e_name e) \<and> legal_ptype (e_type e)"

definition map_ok :: "map_ent list \<Rightarrow> bool" where
  "map_ok m \<longleftrightarrow> sorted_map m \<and> list_all entry_ok m"

definition servers_ok :: "gdo_config \<Rightarrow> prb_type list \<Rightarrow> bool" where
  "servers_ok cfg ps \<longleftrightarrow> distinct (map p_sin ps) \<and>
     list_all (\<lambda>p. \<not> is_local_host cfg (p_sin p) \<and> (is_local_net cfg (p_sin p) \<or> is_probe_host cfg (p_sin p))) ps"

definition server_ok :: "gdo_config \<Rightarrow> gdomap \<Rightarrow> bool" where
  "server_ok cfg s \<longleftrightarrow> map_ok (gmap s) \<and> servers_ok cfg (prb s) \<and> channels_ok s"

lemma map_del_subset: "set (map_del i m) \<subseteq> set m"
  by (auto simp: map_del_def dest: in_set_takeD in_set_dropD)

lemma map_ok_del: "map_ok m \<Longrightarrow> map_ok (map_del i m)"
  using map_del_subset [of i m] by (auto simp: map_ok_def map_del_sorted list_all_iff)

lemma lookup_ok:
  assumes "map_ok m" "lookup b m n t = Some (m', r)"
  shows "map_ok m'"
proof -
  have "sorted_map m" using assms(1) by (simp add: map_ok_def)
  then show ?thesis
    using assms map_ok_del
    by (cases rule: map_by_name_cases [of m n]) (auto simp: lookup_def split: if_splits)
qed

lemma unregister_port_ok: "map_ok m \<Longrightarrow> map_ok (fst (unregister_port p t m r))"
proof (induction p t m r rule: unregister_port.induct)
  case (1 p t m r)
  show ?case
  proof (cases "map_by_port p t m")
    case None
    then show ?thesis using 1(2) by (subst unregister_port.simps) simp
  next
    case (Some i)
    then show ?thesis
      using 1(1) [OF Some map_ok_del [OF 1(2)]] by (subst unregister_port.simps) simp
  qed
qed

lemma unregister_ok:
  assumes "map_ok m" "unregister m n p t = Some (m', r)"
  shows "map_ok m'"
proof (cases "p = 0 \<or> n \<noteq> []")
  case True
  have "sorted_map m" using assms(1) by (simp add: map_ok_def)
  then show ?thesis
    using True assms map_ok_del
    by (cases rule: map_by_name_cases [of m n]) (auto simp: unregister_def split: if_splits)
next
  case False
  then show ?thesis
    using assms unregister_port_ok [of m p t 0] by (auto simp: unregister_def)
qed

lemma register_ok:
  assumes "map_ok m" "register b m n p t = Some (m', r)"
    and n: "length n < 256" "list_all (\<lambda>b. b < 256) n" and t: "legal_ptype t"
  shows "map_ok m'"
proof -
  have sorted: "sorted_map m" using assms(1) by (simp add: map_ok_def)
  then have "sorted_map m'"
    using register_refines [OF sorted t, of b n p] assms(2) by auto
  moreover have "list_all entry_ok m'"
    using sorted
  proof (cases rule: map_by_name_cases [of m n])
    case (found i)
    have "entry_ok ((m ! i)\<lparr>e_port := p, e_net := t AND GDO_NET_MASK, e_svc := t AND GDO_SVC_MASK\<rparr>)"
      using found(3) n t legal_ptype_split [OF t] by (simp add: entry_ok_def e_type_def)
    then show ?thesis
      using found assms by (auto simp: register_def map_ok_def list_all_iff split: if_splits dest!: subsetD [OF set_update_subset_insert])
  next
    case absent
    have "entry_ok \<lparr>e_name = n, e_port = p, e_net = t AND GDO_NET_MASK, e_svc = t AND GDO_SVC_MASK\<rparr>"
      using n t legal_ptype_split [OF t] by (simp add: entry_ok_def e_type_def)
    then show ?thesis
      using absent assms by (auto simp: register_def map_add_def map_ok_def list_all_iff map_insert_set split: if_splits)
  qed
  ultimately show ?thesis by (simp add: map_ok_def)
qed

lemma prb_last_some: "prb_last a ps = Some i \<Longrightarrow> i < length ps \<and> p_sin (ps ! i) = a"
  by (induction ps arbitrary: i) (auto split: option.splits if_splits)

lemma prb_last_none: "prb_last a ps = None \<longleftrightarrow> a \<notin> p_sin ` set ps"
  by (induction ps) (auto split: option.splits)

lemma prb_remove_split:
  "i < length ps \<Longrightarrow> ps = take i ps @ ps ! i # drop (i + 1) ps"
  using id_take_nth_drop [of i ps] by simp

lemma prb_remove_ok: "servers_ok cfg ps \<Longrightarrow> i < length ps \<Longrightarrow>
    servers_ok cfg (prb_remove i ps) \<and> p_sin (ps ! i) \<notin> p_sin ` set (prb_remove i ps)"
proof -
  assume ok: "servers_ok cfg ps" and i: "i < length ps"
  obtain xs y ys where split: "ps = xs @ y # ys" "xs = take i ps" "y = ps ! i" "ys = drop (i + 1) ps"
    using prb_remove_split [OF i] by blast
  then have "prb_remove i ps = xs @ ys" by (simp add: prb_remove_def)
  moreover have "distinct (map p_sin (xs @ y # ys))" "list_all (\<lambda>p. \<not> is_local_host cfg (p_sin p) \<and>
      (is_local_net cfg (p_sin p) \<or> is_probe_host cfg (p_sin p))) (xs @ y # ys)"
    using ok split(1) by (auto simp: servers_ok_def)
  ultimately show ?thesis using split(3) by (auto simp: servers_ok_def)
qed

lemma prb_add_ok: "servers_ok cfg ps \<Longrightarrow> servers_ok cfg (prb_add cfg a now ps)"
proof (cases "prb_last a ps")
  case None
  then show "servers_ok cfg ps \<Longrightarrow> servers_ok cfg (prb_add cfg a now ps)"
    using None prb_last_none [of a ps] by (auto simp: prb_add_def servers_ok_def)
next
  case (Some i)
  then show "servers_ok cfg ps \<Longrightarrow> servers_ok cfg (prb_add cfg a now ps)"
    using prb_last_some [OF Some] prb_remove_ok [of cfg ps i]
    by (auto simp: prb_add_def servers_ok_def)
qed

lemma prb_del_ok: "servers_ok cfg ps \<Longrightarrow> servers_ok cfg (prb_del a ps)"
  using prb_last_some prb_remove_ok by (auto simp: prb_del_def split: option.splits)

lemma prb_tim_ok: "servers_ok cfg ps \<Longrightarrow> servers_ok cfg (prb_tim_loop cfg before lastp n ps)"
  by (induction n arbitrary: ps) (auto simp: prb_del_ok)

section \<open>The handlers\<close>

lemma answer_ok:
  assumes "answer cfg b now desc ri req i s = Some (keep, s')" "server_ok cfg s" "request_ok req"
    and "nsize req < 256" "list_all (\<lambda>b. b < 256) (rname req)"
  shows "server_ok cfg s'"
proof -
  have nm: "length (take (nsize req) (rname req)) < 256" "list_all (\<lambda>b. b < 256) (take (nsize req) (rname req))"
    using assms(4,5) by (auto simp: list_all_iff dest: in_set_takeD)
  have put: "server_ok cfg (put_reply i bs (t\<lparr>gmap := m\<rparr>))" if "server_ok cfg t" "map_ok m" for bs m t
    using that by (simp add: server_ok_def gdo_frame channels_ok_def)
  have put': "server_ok cfg (put_reply i bs t)" if "server_ok cfg t" for bs t
    using that by (simp add: server_ok_def gdo_frame channels_ok_def)
  have replace: "server_ok cfg t'" if "replace_reply i bs t = Some t'" "server_ok cfg t" for bs t t'
    using that replace_reply_frame [OF that(1)] by (simp add: server_ok_def channels_ok_def)
  have add: "server_ok cfg (add_servers cfg ri n now t)" if "server_ok cfg t" for n t
    using that by (simp add: add_servers_def server_ok_def prb_add_ok channels_ok_def)
  have probes: "server_ok cfg (queue_probes cfg d f e n r t) \<longleftrightarrow> server_ok cfg t" for d f e n r t
    using queue_probes_frame [of cfg d f e n r t] by (simp add: server_ok_def channels_ok_def)
  have map: "map_ok (gmap s)" using assms(2) by (simp add: server_ok_def)
  have legal: "legal_ptype (ptype req)" if "rtype req = GDO_REGISTER"
    using assms(3) that by (simp add: request_ok_def)
  note answer' = assms(1) [unfolded answer_def Let_def]
  consider "rtype req = GDO_REGISTER" | "rtype req = GDO_LOOKUP" | "rtype req = GDO_UNREG"
    | "rtype req = GDO_SERVERS" | "rtype req = GDO_NAMES" | "rtype req = GDO_PROBE" | "rtype req = GDO_PREPLY"
    | "rtype req \<notin> {GDO_REGISTER, GDO_LOOKUP, GDO_UNREG, GDO_SERVERS, GDO_NAMES, GDO_PROBE, GDO_PREPLY}"
    by blast
  then show ?thesis
  proof cases
    case 1
    show ?thesis
    proof (cases "is_local_host cfg (r_addr ri)")
      case True
      then obtain m r where "register b (gmap s) (take (nsize req) (rname req)) (rport req) (ptype req) = Some (m, r)"
        "s' = put_reply i (be32 r) (s\<lparr>gmap := m\<rparr>)"
        using answer' 1 by (auto simp: bind_eq_Some_conv)
      then show ?thesis using register_ok [OF map _ nm legal [OF 1]] put assms(2) by blast
    qed (use answer' 1 assms(2) in simp)
  next
    case 2
    then obtain m r where "lookup b (gmap s) (take (nsize req) (rname req)) (ptype req) = Some (m, r)"
      "s' = put_reply i (be32 r) (s\<lparr>gmap := m\<rparr>)"
      using answer' by (auto simp: bind_eq_Some_conv)
    then show ?thesis using lookup_ok [OF map] put assms(2) by blast
  next
    case 3
    show ?thesis
    proof (cases "is_local_host cfg (r_addr ri)")
      case True
      then obtain m r where "unregister (gmap s) (take (nsize req) (rname req)) (rport req) (ptype req) = Some (m, r)"
        "s' = put_reply i (be32 r) (s\<lparr>gmap := m\<rparr>)"
        using answer' 3 by (auto simp: bind_eq_Some_conv)
      then show ?thesis using unregister_ok [OF map] put assms(2) by blast
    qed (use answer' 3 assms(2) in simp)
  next
    case 4
    then show ?thesis
      using answer' replace assms(2) by (cases "is_local_host cfg (r_addr ri)") auto
  next
    case 5
    then show ?thesis using answer' replace assms(2) by auto
  next
    case 6
    show ?thesis
    proof (cases "desc = udp_desc cfg \<and> r_sport ri = my_port cfg")
      case True
      obtain laddr pkt where p: "probe_reply cfg ri (rname req) = (laddr, pkt)" by (cases "probe_reply cfg ri (rname req)")
      obtain s2 where "replace_reply i pkt (add_servers cfg ri (rname req) now s) = Some s2"
        "s' = (if other_addresses_on_net cfg laddr \<noteq> []
          then queue_probes cfg (be_value (take 4 (rname req))) laddr (other_addresses_on_net cfg laddr)
            (length (other_addresses_on_net cfg laddr)) True s2 else s2)"
        using answer' 6 True p by (auto simp: bind_eq_Some_conv)
      then show ?thesis using replace add [OF assms(2)] probes by auto
    next
      case False
      then show ?thesis using answer' 6 put' [OF add [OF assms(2)]] by auto
    qed
  next
    case 7
    then show ?thesis using answer' add [OF assms(2)] by auto
  next
    case 8
    then show ?thesis using answer' assms(2) by simp
  qed
qed

lemma request_of_bytes:
  assumes "list_all (\<lambda>b. b < 256) bs" "2 \<le> length bs"
  shows "nsize (request_of bs) < 256" "list_all (\<lambda>b. b < 256) (rname (request_of bs))"
  using assms by (auto simp: request_of_def list_all_iff dest: in_set_dropD)

lemma server_ok_channels: "server_ok cfg s \<Longrightarrow> gmap s' = gmap s \<Longrightarrow> prb s' = prb s \<Longrightarrow> channels_ok s' \<Longrightarrow> server_ok cfg s'"
  by (simp add: server_ok_def)

lemma clear_chan_ok: "clear_chan cfg desc s = Some s' \<Longrightarrow> server_ok cfg s \<Longrightarrow> server_ok cfg s'"
  using clear_chan_frame [of cfg desc s s'] by (auto simp: server_ok_def)

lemma getRInfo_some: "getRInfo desc s = Some k \<Longrightarrow> k < length (rinfo s) \<and> r_s (rinfo s ! k) = desc"
  unfolding getRInfo_def by (rule index_where_some)

lemma handle_request_ok:
  assumes "handle_request cfg b now desc s = Some s'" "server_ok cfg s"
    and "\<And>k. getRInfo desc s = Some k \<Longrightarrow> GDO_REQ_SIZE \<le> length (r_buf (rinfo s ! k))"
  shows "server_ok cfg s'"
proof (cases "getRInfo desc s")
  case (Some k)
  define ri req where "ri = rinfo s ! k" and "req = request_of (r_buf ri)"
  define s1 where "s1 = s\<lparr>read_fds := read_fds s - {desc}, write_fds := insert desc (write_fds s)\<rparr>"
  obtain s2 i where s2: "getWInfo_make desc s1 = (s2, i)" by (cases "getWInfo_make desc s1")
  define s3 where "s3 = set_w i (\<lambda>w. w\<lparr>w_pos := 0\<rparr>) s2"
  have "server_ok cfg s1" using assms(2) by (simp add: s1_def server_ok_def channels_ok_def)
  then have ok3: "server_ok cfg s3"
    using getWInfo_make_frame [OF s2] by (simp add: s3_def server_ok_def channels_ok_def gdo_frame)
  have "ri \<in> set (rinfo s)" using getRInfo_some [OF Some] by (simp add: ri_def)
  then have bytes: "list_all (\<lambda>b. b < 256) (r_buf ri)" "2 \<le> length (r_buf ri)"
    using assms(2) assms(3) [OF Some] by (auto simp: server_ok_def channels_ok_def list_all_iff ri_def)
  show ?thesis
  proof (cases "request_ok req")
    case False
    then have "clear_chan cfg desc s3 = Some s'"
      using assms(1) Some s2
      by (simp add: handle_request_def ri_def [symmetric] req_def [symmetric] s1_def [symmetric] s3_def [symmetric])
    then show ?thesis using ok3 by (rule clear_chan_ok)
  next
    case True
    then obtain keep s4 where s4: "answer cfg b now desc ri req i (new_reply i [0, 0, 0, 0] s3) = Some (keep, s4)"
      "(if \<not> keep then clear_chan cfg desc s4
        else if desc = udp_desc cfg
        then do {
          bs \<leftarrow> heap s4 (w_buf (winfo s4 ! i));
          clear_chan cfg desc (queue_msg (r_addr ri) (r_sport ri) bs s4)
        }
        else Some s4) = Some s'"
      using assms(1) Some s2
      by (auto simp: handle_request_def ri_def [symmetric] req_def [symmetric] s1_def [symmetric] s3_def [symmetric]
          bind_eq_Some_conv)
    have "server_ok cfg (new_reply i [0, 0, 0, 0] s3)"
      using ok3 by (simp add: server_ok_def channels_ok_def gdo_frame)
    then have ok4: "server_ok cfg s4"
      using s4(1) True request_of_bytes [OF bytes] by (auto intro: answer_ok simp: req_def)
    have "server_ok cfg (queue_msg a p bs s4)" for a p bs
      using ok4 by (simp add: queue_msg_def server_ok_def channels_ok_def)
    then show ?thesis
      using s4(2) ok4 clear_chan_ok by (auto simp: bind_eq_Some_conv split: if_splits)
  qed
qed (use assms in \<open>simp add: handle_request_def\<close>)

lemma set_r_ok:
  assumes "server_ok cfg s" "r_pos (f (rinfo s ! k)) \<le> length (r_buf (f (rinfo s ! k)))"
    "length (r_buf (f (rinfo s ! k))) \<le> GDO_REQ_SIZE" "list_all (\<lambda>b. b < 256) (r_buf (f (rinfo s ! k)))"
  shows "server_ok cfg (set_r k f s)"
  using assms
  by (auto simp: server_ok_def channels_ok_def set_r_def list_all_iff dest!: subsetD [OF set_update_subset_insert])

lemma handle_accept_ok:
  assumes "handle_accept cfg desc a p nb s = Some s'" "server_ok cfg s"
  shows "server_ok cfg s'"
proof -
  obtain s1 i where s1: "getRInfo_make desc (s\<lparr>read_fds := insert desc (read_fds s)\<rparr>) = (s1, i)"
    by (cases "getRInfo_make desc (s\<lparr>read_fds := insert desc (read_fds s)\<rparr>)")
  then have ok1: "server_ok cfg s1" "i < length (rinfo s1)"
    using assms(2) getRInfo_some
    by (auto simp: getRInfo_make_def server_ok_def channels_ok_def split: option.splits)
  then have "list_all (\<lambda>b. b < 256) (r_buf (rinfo s1 ! i))" "length (r_buf (rinfo s1 ! i)) \<le> GDO_REQ_SIZE"
    by (auto simp: server_ok_def channels_ok_def list_all_iff)
  then have "server_ok cfg (set_r i (\<lambda>r. r\<lparr>r_pos := 0, r_addr := a, r_sport := p\<rparr>) s1)"
    using ok1 by (intro set_r_ok) auto
  then show ?thesis
    using assms(1) s1 clear_chan_ok by (auto simp: handle_accept_def Let_def split: if_splits)
qed

lemma handle_write_ok:
  assumes "handle_write cfg desc r s = Some s'" "server_ok cfg s"
  shows "server_ok cfg s'"
proof -
  have "server_ok cfg (set_w i f s)" for i f
    using assms(2) by (simp add: server_ok_def channels_ok_def gdo_frame)
  then show ?thesis
    using assms clear_chan_ok by (auto simp: handle_write_def Let_def split: option.splits if_splits)
qed

lemma handle_send_ok: "server_ok cfg s \<Longrightarrow> server_ok cfg (handle_send r wb s)"
  by (auto simp: handle_send_def queue_pop_def server_ok_def channels_ok_def Let_def split: list.splits)

text \<open>What a read leaves before the request is handled, the channel cleared, or more awaited.\<close>

lemma handle_read_cases:
  assumes "handle_read cfg b now desc bs wb s = Some s'" "getRInfo desc s = Some k"
    and "server_ok cfg s" "list_all (\<lambda>b. b < 256) bs"
  obtains f s1 where "s1 = set_r k f s" "server_ok cfg s1"
    "r_s (f (rinfo s ! k)) = r_s (rinfo s ! k)" "r_addr (f (rinfo s ! k)) = r_addr (rinfo s ! k)"
    "handle_request cfg b now desc s1 = Some s' \<and> GDO_REQ_SIZE \<le> length (r_buf (f (rinfo s ! k))) \<or>
     clear_chan cfg desc s1 = Some s' \<or> s' = s1"
proof -
  define ri new where "ri = rinfo s ! k" and "new = take (GDO_REQ_SIZE - r_pos ri) bs"
  define buf where "buf = take (r_pos ri) (r_buf ri) @ new @ drop (r_pos ri + length new) (r_buf ri)"
  define f where "f = (\<lambda>r::RInfo. r\<lparr>r_pos := r_pos ri + length new, r_buf := buf\<rparr>)"
  have "ri \<in> set (rinfo s)" using getRInfo_some [OF assms(2)] by (simp add: ri_def)
  then have ri: "r_pos ri \<le> length (r_buf ri)" "length (r_buf ri) \<le> GDO_REQ_SIZE" "list_all (\<lambda>b. b < 256) (r_buf ri)"
    using assms(3) by (auto simp: server_ok_def channels_ok_def list_all_iff)
  then have buf: "r_pos ri + length new \<le> length buf" "length buf \<le> GDO_REQ_SIZE" "list_all (\<lambda>b. b < 256) buf"
    using assms(4) by (auto simp: buf_def new_def list_all_iff dest: in_set_takeD in_set_dropD)
  have "server_ok cfg (set_r k f s)"
    using assms(3) buf unfolding f_def by (intro set_r_ok) auto
  moreover have "(if r_pos ri + length new = GDO_REQ_SIZE then handle_request cfg b now desc (set_r k f s)
      else if \<not> wb \<or> new = [] then clear_chan cfg desc (set_r k f s) else Some (set_r k f s)) = Some s'"
    using assms(1,2) by (simp only: handle_read_def option.case Let_def f_def buf_def new_def ri_def)
  ultimately show thesis
    using buf by (intro that [of "set_r k f s" f]) (auto simp: f_def ri_def split: if_splits)
qed

lemma set_r_getRInfo:
  assumes "getRInfo desc s = Some k" "r_s (f (rinfo s ! k)) = r_s (rinfo s ! k)"
  shows "getRInfo desc (set_r k f s) = Some k" "rinfo (set_r k f s) ! k = f (rinfo s ! k)"
  using assms getRInfo_some [OF assms(1)] by (simp_all add: set_r_def getRInfo_def index_where_update)

lemma handle_read_ok:
  assumes "handle_read cfg b now desc bs wb s = Some s'" "server_ok cfg s" "list_all (\<lambda>b. b < 256) bs"
  shows "server_ok cfg s'"
proof (cases "getRInfo desc s")
  case (Some k)
  from assms(1) Some assms(2,3) show ?thesis
  proof (cases rule: handle_read_cases)
    case (1 f s1)
    then show ?thesis
      using handle_request_ok [of cfg b now desc s1 s'] clear_chan_ok [of cfg desc s1 s'] set_r_getRInfo [OF Some, of f]
      by auto
  qed
qed (use assms in \<open>simp add: handle_read_def\<close>)

lemma list_all_drop: "list_all P xs \<Longrightarrow> list_all P (drop n xs)"
  by (auto simp: list_all_iff dest: in_set_dropD)

lemma handle_recv_cases:
  assumes "handle_recv cfg b now a p bs s = Some s'" "getRInfo (udp_desc cfg) s = Some k"
    and "server_ok cfg s" "list_all (\<lambda>b. b < 256) bs" "length bs \<le> GDO_REQ_SIZE"
  obtains f s1 where "s1 = set_r k f s" "server_ok cfg s1"
    "r_s (f (rinfo s ! k)) = r_s (rinfo s ! k)" "r_addr (f (rinfo s ! k)) = a"
    "handle_request cfg b now (udp_desc cfg) s1 = Some s' \<and> \<not> is_local_host cfg a \<and>
       GDO_REQ_SIZE \<le> length (r_buf (f (rinfo s ! k))) \<or> s' = s1"
proof -
  define ri where "ri = rinfo s ! k"
  have k: "k < length (rinfo s)" using getRInfo_some [OF assms(2)] by simp
  define f where "f = (\<lambda>r::RInfo. r\<lparr>r_addr := a, r_sport := p, r_buf := bs @ drop (length bs) (r_buf r)\<rparr>)"
  define g where "g = (\<lambda>r::RInfo. (f r)\<lparr>r_pos := GDO_REQ_SIZE\<rparr>)"
  have ri: "r_pos ri \<le> length (r_buf ri)" "length (r_buf ri) \<le> GDO_REQ_SIZE" "list_all (\<lambda>b. b < 256) (r_buf ri)"
    using assms(3) k by (auto simp: server_ok_def channels_ok_def list_all_iff ri_def)
  have f: "server_ok cfg (set_r k f s)"
    using assms(3-5) ri list_all_drop [OF ri(3)] unfolding f_def ri_def
    by (intro set_r_ok) auto
  have g: "server_ok cfg (set_r k g s)" if "length bs = GDO_REQ_SIZE"
    using assms(3,4) ri list_all_drop [OF ri(3)] that unfolding f_def g_def ri_def
    by (intro set_r_ok) auto
  have "set_r k (\<lambda>r. r\<lparr>r_pos := GDO_REQ_SIZE\<rparr>) (set_r k f s) = set_r k g s"
    using k by (simp add: set_r_def g_def f_def)
  then have "(if length bs = GDO_REQ_SIZE
      then if is_local_host cfg a then Some (set_r k g s) else handle_request cfg b now (udp_desc cfg) (set_r k g s)
      else Some (set_r k f s)) = Some s'"
    using assms(1,2) unfolding f_def by (simp only: handle_recv_def option.case Let_def)
  then show thesis
    using f g that [of "set_r k g s" g] that [of "set_r k f s" f] ri
    by (auto simp: f_def g_def ri_def split: if_splits)
qed

lemma handle_recv_ok:
  assumes "handle_recv cfg b now a p bs s = Some s'" "server_ok cfg s" "list_all (\<lambda>b. b < 256) bs" "length bs \<le> GDO_REQ_SIZE"
  shows "server_ok cfg s'"
proof (cases "getRInfo (udp_desc cfg) s")
  case (Some k)
  from assms(1) Some assms(2-4) show ?thesis
  proof (cases rule: handle_recv_cases)
    case (1 f s1)
    then show ?thesis
      using handle_request_ok [of cfg b now "udp_desc cfg" s1 s'] set_r_getRInfo [OF Some, of f] by auto
  qed
qed (use assms in \<open>simp add: handle_recv_def\<close>)

text \<open>The invariant holds at the start and after every step of the main loop.\<close>

lemma handle_event_ok:
  assumes "handle_event cfg b now ev s = Some s'" "server_ok cfg s" "enabled cfg s ev"
  shows "server_ok cfg s'"
proof (cases ev)
  case (Accept desc a p nb)
  then show ?thesis using assms handle_accept_ok by (simp add: handle_event_def)
next
  case (Readable desc bs wb)
  then show ?thesis using assms handle_read_ok by (auto simp: handle_event_def enabled_def)
next
  case (Writable desc r)
  then show ?thesis using assms handle_write_ok by (simp add: handle_event_def)
next
  case (Packet a p bs)
  then show ?thesis using assms handle_recv_ok by (auto simp: handle_event_def enabled_def)
next
  case (Send r wb)
  then show ?thesis using assms handle_send_ok by (auto simp: handle_event_def)
next
  case Timeout
  have "server_ok cfg (prb_tim cfg now s)"
    using assms(2) prb_tim_ok by (simp add: prb_tim_def server_ok_def channels_ok_def)
  then show ?thesis
    using assms(1) Timeout
    by (auto simp: handle_event_def handle_timeout_def Let_def server_ok_def channels_ok_def split: if_splits)
qed

lemma io_reachable_ok: "io_reachable cfg s \<Longrightarrow> server_ok cfg s"
proof (induction rule: io_reachable.induct)
  case io_init
  show ?case
    by (simp add: init_state_def server_ok_def map_ok_def sorted_map_def servers_ok_def channels_ok_def list_all_iff)
next
  case (io_next s s')
  then show ?case by (auto elim!: io_stepE intro: handle_event_ok)
qed

end
