(* ===== verification/Gdo_Channels.thy ===== *)
theory Gdo_Channels
  imports Gdo_Invariant
begin

text \<open>
  The channels of \<^verbatim>\<open>gdomap\<close>: the descriptor sets and the descriptors of the two tables of
  records, and the effect of each handler on them. Every open channel is either being read or
  being written, and has the record it needs.
\<close>

section \<open>The table of channels\<close>

record chans =
  c_read :: "nat set"
  c_write :: "nat set"
  c_rinfo :: "nat list"
  c_winfo :: "nat list"

definition chans_of :: "gdomap \<Rightarrow> chans" where
  "chans_of s = \<lparr>c_read = read_fds s, c_write = write_fds s, c_rinfo = map r_s (rinfo s),
     c_winfo = map w_s (take (wcount s) (winfo s))\<rparr>"

lemma chans_fields [simp]:
  "c_read (chans_of s) = read_fds s" "c_write (chans_of s) = write_fds s"
  "c_rinfo (chans_of s) = map r_s (rinfo s)" "c_winfo (chans_of s) = map w_s (take (wcount s) (winfo s))"
  by (simp_all add: chans_of_def)

lemma index_where_remove1:
  "index_where (\<lambda>x. f x = a) xs = Some i \<Longrightarrow> map f (take i xs @ drop (Suc i) xs) = remove1 a (map f xs)"
  by (induction xs arbitrary: i) (auto split: if_splits)

lemma index_where_absent: "index_where (\<lambda>x. f x = a) xs = None \<longleftrightarrow> a \<notin> f ` set xs"
  by (auto simp: index_where_none list_all_iff)

lemma delRInfo_chans: "chans_of (delRInfo desc s) = (chans_of s)\<lparr>c_rinfo := remove1 desc (c_rinfo (chans_of s))\<rparr>"
proof (cases "index_where (\<lambda>r. r_s r = desc) (rinfo s)")
  case None
  then have "desc \<notin> set (map r_s (rinfo s))" by (simp add: index_where_absent)
  then show ?thesis using None by (simp add: delRInfo_def chans_of_def remove1_idem)
next
  case (Some i)
  then show ?thesis using index_where_remove1 [OF Some] by (simp add: delRInfo_def chans_of_def)
qed

lemma take_closed_gap:
  assumes "i \<le> n" "Suc n \<le> length xs"
  shows "take n (if i \<noteq> n then copy_cells xs i xs (i + 1) (n - i) else xs) =
    take i (take (Suc n) xs) @ drop (Suc i) (take (Suc n) xs)"
proof (cases "i = n")
  case False
  have "length (take i xs @ take (n - i) (drop (i + 1) xs)) = n" using assms by simp
  then have "take n (copy_cells xs i xs (i + 1) (n - i)) = take i xs @ take (n - i) (drop (i + 1) xs)"
    using assms False by (simp add: copy_cells_def min_absorb1)
  then show ?thesis using assms False by (simp add: drop_take min_def)
qed (use assms in \<open>simp add: min_def\<close>)

lemma delWInfo_chans:
  assumes "wcount s \<le> length (winfo s)"
  shows "chans_of (delWInfo desc s) = (chans_of s)\<lparr>c_winfo := remove1 desc (c_winfo (chans_of s))\<rparr>"
proof (cases "getWInfo desc s")
  case None
  then have "desc \<notin> set (map w_s (take (wcount s) (winfo s)))" by (simp add: getWInfo_def index_where_absent)
  then show ?thesis using None by (simp add: delWInfo_def chans_of_def remove1_idem)
next
  case (Some i)
  define n where "n = wcount s - 1"
  have i: "i < wcount s"
    using index_where_some [of "\<lambda>w. w_s w = desc" "take (wcount s) (winfo s)" i] Some by (simp add: getWInfo_def)
  then have n: "Suc n = wcount s" "i \<le> n" by (simp_all add: n_def)
  have "take n (if i \<noteq> n then copy_cells (winfo s) i (winfo s) (i + 1) (n - i) else winfo s) =
      take i (take (wcount s) (winfo s)) @ drop (Suc i) (take (wcount s) (winfo s))"
    using take_closed_gap [of i n "winfo s"] assms n by simp
  moreover have "map w_s (take i (take (wcount s) (winfo s)) @ drop (Suc i) (take (wcount s) (winfo s))) =
      remove1 desc (map w_s (take (wcount s) (winfo s)))"
    using Some by (intro index_where_remove1) (simp add: getWInfo_def)
  ultimately have "map w_s (take n (if i \<noteq> n then copy_cells (winfo s) i (winfo s) (i + 1) (n - i) else winfo s)) =
      remove1 desc (map w_s (take (wcount s) (winfo s)))"
    by simp
  then show ?thesis
    using Some unfolding n_def by (simp add: delWInfo_def Let_def chans_of_def del: One_nat_def)
qed

lemma getWInfo_make_chans:
  assumes "getWInfo_make desc s = (s', i)" "wcount s \<le> length (winfo s)"
  shows "chans_of s' = (chans_of s)\<lparr>c_winfo :=
    (if desc \<in> set (c_winfo (chans_of s)) then c_winfo (chans_of s) else c_winfo (chans_of s) @ [desc])\<rparr>"
proof (cases "getWInfo desc s")
  case None
  then have "desc \<notin> set (map w_s (take (wcount s) (winfo s)))" by (simp add: getWInfo_def index_where_absent)
  then show ?thesis
    using None assms by (auto simp: getWInfo_make_def chans_of_def Let_def take_Suc_conv_app_nth nth_append)
next
  case (Some i)
  then have "desc \<in> set (map w_s (take (wcount s) (winfo s)))"
    using index_where_absent [of w_s desc "take (wcount s) (winfo s)"] by (auto simp: getWInfo_def)
  then show ?thesis using Some assms by (simp add: getWInfo_make_def chans_of_def)
qed

lemma getRInfo_make_chans:
  assumes "getRInfo_make desc s = (s', i)"
  shows "chans_of s' = (chans_of s)\<lparr>c_rinfo :=
    (if desc \<in> set (c_rinfo (chans_of s)) then c_rinfo (chans_of s) else c_rinfo (chans_of s) @ [desc])\<rparr>"
proof (cases "getRInfo desc s")
  case None
  then have "desc \<notin> r_s ` set (rinfo s)" by (simp add: getRInfo_def index_where_absent)
  then show ?thesis using None assms by (auto simp: getRInfo_make_def chans_of_def)
next
  case (Some i)
  then have "desc \<in> r_s ` set (rinfo s)"
    using index_where_absent [of r_s desc "rinfo s"] by (auto simp: getRInfo_def)
  then show ?thesis using Some assms by (auto simp: getRInfo_make_def chans_of_def)
qed

section \<open>What leaves the table alone\<close>

lemma map_update_same: "g (f (xs ! i)) = g (xs ! i) \<Longrightarrow> map g (xs[i := f (xs ! i)]) = map g xs"
  by (cases "i < length xs") (simp_all add: map_update list_update_same_conv list_update_beyond)

lemma set_w_chans:
  assumes "w_s (f (winfo s ! i)) = w_s (winfo s ! i)"
  shows "chans_of (set_w i f s) = chans_of s"
  using map_update_same [of w_s f "winfo s" i, OF assms] by (simp add: chans_of_def set_w_def flip: take_map)

lemma set_r_chans:
  assumes "r_s (f (rinfo s ! i)) = r_s (rinfo s ! i)"
  shows "chans_of (set_r i f s) = chans_of s"
  using map_update_same [of r_s f "rinfo s" i, OF assms] by (simp add: chans_of_def set_r_def)

lemma reply_chans [simp]:
  "chans_of (new_reply i bs s) = chans_of s" "chans_of (put_reply i bs s) = chans_of s"
  "chans_of (queue_msg a p bs s) = chans_of s" "chans_of (s\<lparr>gmap := m\<rparr>) = chans_of s"
  "chans_of (s\<lparr>prb := q\<rparr>) = chans_of s"
proof -
  have "chans_of (snd (malloc bs s)) = chans_of s" by (simp add: malloc_def chans_of_def)
  then show "chans_of (new_reply i bs s) = chans_of s"
    by (simp add: new_reply_def malloc_def set_w_chans)
qed (simp_all add: put_reply_def queue_msg_def chans_of_def)

lemma free_buf_chans: "free_buf a s = Some s' \<Longrightarrow> chans_of s' = chans_of s"
  by (auto simp: free_buf_def chans_of_def split: if_splits)

lemma replace_reply_chans: "replace_reply i bs s = Some s' \<Longrightarrow> chans_of s' = chans_of s"
  by (auto simp: replace_reply_def dest: free_buf_chans)

lemma queue_probes_chans [simp]: "chans_of (queue_probes cfg d f e n r s) = chans_of s"
proof (induction cfg d f e n r s rule: queue_probes.induct)
  case (1 cfg d f e n r s)
  then show ?case by (subst queue_probes.simps) (simp add: queue_probe_def)
qed

lemma add_servers_chans [simp]: "chans_of (add_servers cfg ri nm now s) = chans_of s"
  by (simp add: add_servers_def)

text \<open>The states an answer can leave: a reply written over the four bytes, or in their place.\<close>

lemma answer_cases:
  assumes "answer cfg b now desc ri req i s = Some (keep, s')"
  obtains "s' = s"
  | bs m r where "s' = put_reply i bs (s\<lparr>gmap := m\<rparr>)"
      "lookup b (gmap s) (take (nsize req) (rname req)) (ptype req) = Some (m, r) \<or> is_local_host cfg (r_addr ri)"
  | bs t where "t = s \<or> t = add_servers cfg ri (rname req) now s" "replace_reply i bs t = Some s'"
  | bs t d f e n where "replace_reply i bs (add_servers cfg ri (rname req) now s) = Some t"
      "s' = queue_probes cfg d f e n True t"
  | bs where "s' = put_reply i bs (add_servers cfg ri (rname req) now s)"
  | "s' = add_servers cfg ri (rname req) now s"
proof -
  note answer' = assms [unfolded answer_def Let_def]
  consider "rtype req = GDO_REGISTER" | "rtype req = GDO_LOOKUP" | "rtype req = GDO_UNREG"
    | "rtype req = GDO_SERVERS" | "rtype req = GDO_NAMES" | "rtype req = GDO_PROBE" | "rtype req = GDO_PREPLY"
    | "rtype req \<notin> {GDO_REGISTER, GDO_LOOKUP, GDO_UNREG, GDO_SERVERS, GDO_NAMES, GDO_PROBE, GDO_PREPLY}"
    by blast
  then show thesis
  proof cases
    case 1
    then show thesis using answer' that(1,2) by (cases "is_local_host cfg (r_addr ri)") (auto simp: bind_eq_Some_conv)
  next
    case 2
    then show thesis using answer' that(1,2) by (auto simp: bind_eq_Some_conv)
  next
    case 3
    then show thesis using answer' that(1,2) by (cases "is_local_host cfg (r_addr ri)") (auto simp: bind_eq_Some_conv)
  next
    case 4
    then show thesis using answer' that(1,3) by (cases "is_local_host cfg (r_addr ri)") auto
  next
    case 5
    then show thesis using answer' that(3) by auto
  next
    case 6
    show thesis
    proof (cases "desc = udp_desc cfg \<and> r_sport ri = my_port cfg")
      case True
      obtain laddr pkt where p: "probe_reply cfg ri (rname req) = (laddr, pkt)" by (cases "probe_reply cfg ri (rname req)")
      obtain s2 where "replace_reply i pkt (add_servers cfg ri (rname req) now s) = Some s2"
        "s' = (if other_addresses_on_net cfg laddr \<noteq> []
          then queue_probes cfg (be_value (take 4 (rname req))) laddr (other_addresses_on_net cfg laddr)
            (length (other_addresses_on_net cfg laddr)) True s2 else s2)"
        using answer' 6 True p by (auto simp: bind_eq_Some_conv)
      then show thesis using that(3) [of "add_servers cfg ri (rname req) now s"] that(4) by (auto split: if_splits)
    next
      case False
      then show thesis using answer' 6 that(5) by auto
    qed
  next
    case 7
    then show thesis using answer' that(6) by auto
  next
    case 8
    then show thesis using answer' that(1) by simp
  qed
qed

lemma add_servers_slots [simp]:
  "wcount (add_servers cfg ri nm now s) = wcount s" "winfo (add_servers cfg ri nm now s) = winfo s"
  by (simp_all add: add_servers_def)

lemma answer_chans:
  assumes "answer cfg b now desc ri req i s = Some (keep, s')"
  shows "chans_of s' = chans_of s \<and> wcount s' = wcount s \<and> length (winfo s') = length (winfo s)"
  using assms
proof (cases rule: answer_cases)
  case (3 bs t)
  then show ?thesis using replace_reply_chans [OF 3(2)] replace_reply_frame [OF 3(2)] by auto
next
  case (4 bs t d f e n)
  then show ?thesis
    using replace_reply_chans [OF 4(1)] replace_reply_frame [OF 4(1)] queue_probes_frame [of cfg d f e n True t] by simp
qed (simp_all add: gdo_frame)

lemma answer_rinfo:
  assumes "answer cfg b now desc ri req i s = Some (keep, s')"
  shows "rinfo s' = rinfo s"
  using assms
proof (cases rule: answer_cases)
  case (3 bs t)
  then show ?thesis using replace_reply_frame [OF 3(2)] by (auto simp: add_servers_def)
next
  case (4 bs t d f e n)
  then show ?thesis
    using replace_reply_frame [OF 4(1)] queue_probes_frame [of cfg d f e n True t] by (simp add: add_servers_def)
qed (simp_all add: gdo_frame add_servers_def)

section \<open>The handlers on the table\<close>

definition close_chan :: "gdo_config \<Rightarrow> nat \<Rightarrow> chans \<Rightarrow> chans" where
  "close_chan cfg desc c =
     (if desc = tcp_desc cfg \<or> desc = udp_desc cfg
      then c\<lparr>c_write := c_write c - {desc}, c_read := insert desc (c_read c)\<rparr>
      else c\<lparr>c_write := c_write c - {desc}, c_read := c_read c - {desc},
             c_rinfo := remove1 desc (c_rinfo c), c_winfo := remove1 desc (c_winfo c)\<rparr>)"

definition write_chan :: "nat \<Rightarrow> chans \<Rightarrow> chans" where
  "write_chan desc c = c\<lparr>c_read := c_read c - {desc}, c_write := insert desc (c_write c),
     c_winfo := (if desc \<in> set (c_winfo c) then c_winfo c else c_winfo c @ [desc])\<rparr>"

lemma clear_chan_chans:
  assumes "clear_chan cfg desc s = Some s'" "desc < FD_SETSIZE" "wcount s \<le> length (winfo s)"
  shows "chans_of s' = close_chan cfg desc (chans_of s)"
proof -
  let ?server = "desc = tcp_desc cfg \<or> desc = udp_desc cfg"
  define s1 where "s1 = s\<lparr>write_fds := write_fds s - {desc},
    read_fds := (if ?server then insert desc (read_fds s) else read_fds s - {desc})\<rparr>"
  note clear = assms(1) [unfolded clear_chan_def Let_def, folded s1_def]
  have s1: "chans_of s1 = (chans_of s)\<lparr>c_write := write_fds s - {desc},
      c_read := (if ?server then insert desc (read_fds s) else read_fds s - {desc})\<rparr>"
    by (simp add: s1_def chans_of_def)
  show ?thesis
  proof (cases "getWInfo desc s1")
    case None
    then have "desc \<notin> set (c_winfo (chans_of s))"
      by (simp add: getWInfo_def index_where_absent s1_def chans_of_def)
    then show ?thesis
      using clear None assms(2) s1
      by (auto simp: close_chan_def delRInfo_chans remove1_idem)
  next
    case (Some i)
    define s3 where "s3 t = set_w i (\<lambda>w. w\<lparr>w_buf := 0, w_len := 0, w_pos := 0\<rparr>) t" for t
    obtain s2 where "(if w_buf (winfo s1 ! i) \<noteq> 0 then free_buf (w_buf (winfo s1 ! i)) s1 else Some s1) = Some s2"
      and s': "s' = (if ?server then s3 s2 else delRInfo desc (delWInfo desc (s3 s2)))"
      using clear Some assms(2) by (auto simp: s3_def bind_eq_Some_conv)
    then have s2: "s2 = s1 \<or> free_buf (w_buf (winfo s1 ! i)) s1 = Some s2"
      by (auto split: if_splits)
    have "chans_of s2 = chans_of s1" "wcount s2 \<le> length (winfo s2)"
      using s2 assms(3) free_buf_chans free_buf_frame by (auto simp: s1_def)
    then show ?thesis
      using s' s1 by (simp add: s3_def set_w_chans delRInfo_chans delWInfo_chans gdo_frame close_chan_def)
  qed
qed

lemma handle_request_chans:
  assumes "handle_request cfg b now desc s = Some s'" "desc < FD_SETSIZE" "channels_ok s"
  shows "chans_of s' = chans_of s \<or> chans_of s' = close_chan cfg desc (write_chan desc (chans_of s)) \<or>
    desc \<noteq> udp_desc cfg \<and> chans_of s' = write_chan desc (chans_of s)"
proof (cases "getRInfo desc s")
  case (Some k)
  define ri req where "ri = rinfo s ! k" and "req = request_of (r_buf ri)"
  define s1 where "s1 = s\<lparr>read_fds := read_fds s - {desc}, write_fds := insert desc (write_fds s)\<rparr>"
  obtain s2 i where s2: "getWInfo_make desc s1 = (s2, i)" by (cases "getWInfo_make desc s1")
  define s3 where "s3 = set_w i (\<lambda>w. w\<lparr>w_pos := 0\<rparr>) s2"
  have w1: "wcount s1 \<le> length (winfo s1)" using assms(3) by (simp add: s1_def channels_ok_def)
  have c1: "chans_of s1 = (chans_of s)\<lparr>c_read := read_fds s - {desc}, c_write := insert desc (write_fds s)\<rparr>"
    by (simp add: s1_def chans_of_def)
  have c3: "chans_of s3 = write_chan desc (chans_of s)" "wcount s3 \<le> length (winfo s3)"
    using getWInfo_make_chans [OF s2 w1] getWInfo_make_frame [OF s2 w1] c1
    by (simp_all add: s3_def set_w_chans gdo_frame write_chan_def s1_def)
  show ?thesis
  proof (cases "request_ok req")
    case False
    then have "clear_chan cfg desc s3 = Some s'"
      using assms(1) Some s2
      by (simp add: handle_request_def ri_def [symmetric] req_def [symmetric] s1_def [symmetric] s3_def [symmetric])
    then show ?thesis using clear_chan_chans assms(2) c3 by metis
  next
    case True
    then obtain keep s4 where s4: "answer cfg b now desc ri req i (new_reply i [0, 0, 0, 0] s3) = Some (keep, s4)"
      "(if \<not> keep then clear_chan cfg desc s4
        else if desc = udp_desc cfg
        then do {
          bs \<leftarrow> heap s4 (w_buf (winfo s4 ! i));
          clear_chan cfg desc (queue_msg (r_addr ri) (r_sport ri) bs s4)
        }
        else Some s4) = Some s'"
      using assms(1) Some s2
      by (auto simp: handle_request_def ri_def [symmetric] req_def [symmetric] s1_def [symmetric] s3_def [symmetric]
          bind_eq_Some_conv)
    have c4: "chans_of s4 = write_chan desc (chans_of s)"
      using answer_chans [OF s4(1)] c3(1) by simp
    have w4: "wcount s4 \<le> length (winfo s4)"
      using answer_chans [OF s4(1)] c3(2) by (simp add: gdo_frame)
    have "chans_of t = close_chan cfg desc (chans_of s4)"
      if "clear_chan cfg desc (queue_msg a p bs s4) = Some t \<or> clear_chan cfg desc s4 = Some t" for a p bs t
      using that clear_chan_chans [of cfg desc _ t] assms(2) w4
      by (auto simp: queue_msg_def chans_of_def)
    then show ?thesis
      using s4(2) c4 by (auto simp: bind_eq_Some_conv split: if_splits)
  qed
qed (use assms in \<open>simp add: handle_request_def\<close>)

section \<open>Coherence\<close>

text \<open>The two sockets of the server, as \<^verbatim>\<open>init_ports\<close> leaves them.\<close>

definition sockets_ok :: "gdo_config \<Rightarrow> bool" where
  "sockets_ok cfg \<longleftrightarrow> tcp_desc cfg \<noteq> udp_desc cfg \<and> tcp_desc cfg < FD_SETSIZE \<and> udp_desc cfg < FD_SETSIZE"

definition coherent :: "gdo_config \<Rightarrow> chans \<Rightarrow> bool" where
  "coherent cfg c \<longleftrightarrow>
     {tcp_desc cfg, udp_desc cfg} \<subseteq> c_read c \<and> c_read c \<inter> c_write c = {} \<and>
     (\<forall>desc \<in> c_read c \<union> c_write c. desc < FD_SETSIZE) \<and>
     distinct (c_rinfo c) \<and> set (c_rinfo c) = c_read c \<union> c_write c \<and>
     distinct (c_winfo c) \<and> set (c_winfo c) - {udp_desc cfg} = c_write c"

lemma coherent_close:
  "coherent cfg c \<Longrightarrow> desc \<notin> {tcp_desc cfg, udp_desc cfg} \<Longrightarrow> coherent cfg (close_chan cfg desc c)"
  by (auto simp: coherent_def close_chan_def)

lemma coherent_write:
  "coherent cfg c \<Longrightarrow> desc \<in> c_read c \<Longrightarrow> desc \<notin> {tcp_desc cfg, udp_desc cfg} \<Longrightarrow>
    coherent cfg (write_chan desc c)"
  by (auto simp: coherent_def write_chan_def)

lemma coherent_close_udp:
  "coherent cfg c \<Longrightarrow> sockets_ok cfg \<Longrightarrow>
    coherent cfg (close_chan cfg (udp_desc cfg) (write_chan (udp_desc cfg) c))"
  by (auto simp: coherent_def write_chan_def close_chan_def sockets_ok_def)

lemma handle_request_coherent:
  assumes "handle_request cfg b now desc s = Some s'" "coherent cfg (chans_of s)" "channels_ok s" "sockets_ok cfg"
    and "desc \<in> read_fds s" "desc \<noteq> tcp_desc cfg"
  shows "coherent cfg (chans_of s')"
proof -
  have "desc < FD_SETSIZE" using assms(2,5) by (auto simp: coherent_def)
  from handle_request_chans [OF assms(1) this assms(3)] show ?thesis
  proof (elim disjE)
    assume "chans_of s' = close_chan cfg desc (write_chan desc (chans_of s))"
    then show ?thesis
      using assms(2,4-6) coherent_close coherent_write coherent_close_udp by (cases "desc = udp_desc cfg") auto
  qed (use assms(2,5,6) coherent_write in auto)
qed

lemma clear_chan_coherent:
  assumes "clear_chan cfg desc s = Some s'" "coherent cfg (chans_of s)" "channels_ok s"
    and "desc < FD_SETSIZE" "desc \<notin> {tcp_desc cfg, udp_desc cfg}"
  shows "coherent cfg (chans_of s')"
  using clear_chan_chans [OF assms(1,4)] assms(3) coherent_close [OF assms(2,5)] by (simp add: channels_ok_def)

lemma handle_accept_coherent:
  assumes "handle_accept cfg desc a p nb s = Some s'" "coherent cfg (chans_of s)" "server_ok cfg s"
    and "desc < FD_SETSIZE" "desc \<notin> {tcp_desc cfg, udp_desc cfg} \<union> read_fds s \<union> write_fds s"
  shows "coherent cfg (chans_of s')"
proof -
  define s0 where "s0 = s\<lparr>read_fds := insert desc (read_fds s)\<rparr>"
  obtain s1 i where s1: "getRInfo_make desc s0 = (s1, i)" by (cases "getRInfo_make desc s0")
  define s2 where "s2 = set_r i (\<lambda>r. r\<lparr>r_pos := 0, r_addr := a, r_sport := p\<rparr>) s1"
  have "desc \<notin> r_s ` set (rinfo s)" using assms(2,5) by (auto simp: coherent_def)
  moreover have "chans_of s0 = (chans_of s)\<lparr>c_read := insert desc (read_fds s)\<rparr>" "rinfo s0 = rinfo s"
    by (simp_all add: s0_def chans_of_def)
  moreover have "chans_of s2 = chans_of s1" by (simp add: s2_def set_r_chans)
  ultimately have "chans_of s2 = (chans_of s)\<lparr>c_read := insert desc (read_fds s), c_rinfo := map r_s (rinfo s) @ [desc]\<rparr>"
    using getRInfo_make_chans [OF s1] by simp
  then have "coherent cfg (chans_of s2)"
    using assms(2,4,5) by (auto simp: coherent_def)
  moreover have "channels_ok s2"
  proof -
    have "handle_accept cfg desc a p True s = Some s2"
      using s1 by (simp add: handle_accept_def Let_def s0_def s2_def)
    from handle_accept_ok [OF this assms(3)] show ?thesis by (simp add: server_ok_def)
  qed
  ultimately show ?thesis
    using assms(1,4,5) s1 clear_chan_coherent [of cfg desc s2 s']
    by (auto simp: handle_accept_def Let_def s0_def s2_def split: if_splits)
qed

lemma handle_read_coherent:
  assumes "handle_read cfg b now desc bs wb s = Some s'" "coherent cfg (chans_of s)" "server_ok cfg s" "sockets_ok cfg"
    and "desc \<in> read_fds s" "desc \<notin> {tcp_desc cfg, udp_desc cfg}" "list_all (\<lambda>b. b < 256) bs"
  shows "coherent cfg (chans_of s')"
proof (cases "getRInfo desc s")
  case (Some k)
  have "desc < FD_SETSIZE" using assms(2,5) by (auto simp: coherent_def)
  from assms(1) Some assms(3,7) show ?thesis
  proof (cases rule: handle_read_cases)
    case (1 f s1)
    then have "chans_of s1 = chans_of s" "read_fds s1 = read_fds s" "channels_ok s1"
      by (simp_all add: set_r_chans server_ok_def) (simp add: set_r_def)
    then show ?thesis
      using 1(5) \<open>desc < FD_SETSIZE\<close> assms(2,4-6)
        handle_request_coherent [of cfg b now desc s1 s'] clear_chan_coherent [of cfg desc s1 s']
      by auto
  qed
qed (use assms in \<open>simp add: handle_read_def\<close>)

lemma handle_write_coherent:
  assumes "handle_write cfg desc r s = Some s'" "coherent cfg (chans_of s)" "channels_ok s"
    and "desc \<in> write_fds s" "desc \<notin> {tcp_desc cfg, udp_desc cfg}"
  shows "coherent cfg (chans_of s')"
proof (cases "getWInfo desc s")
  case (Some i)
  define pos where "pos = w_pos (winfo s ! i) + nat r"
  define s1 where "s1 = set_w i (\<lambda>w. w\<lparr>w_pos := pos\<rparr>) s"
  have "channels_ok s1" "chans_of s1 = chans_of s"
    using assms(3) by (simp_all add: s1_def set_w_chans channels_ok_def gdo_frame)
  moreover have "desc < FD_SETSIZE" using assms(2,4) by (auto simp: coherent_def)
  moreover have "clear_chan cfg desc s = Some s' \<or> clear_chan cfg desc s1 = Some s' \<or> s' = s1"
    using assms(1) Some by (auto simp: handle_write_def Let_def s1_def pos_def split: if_splits)
  ultimately show ?thesis
    using clear_chan_coherent assms(2,3,5) by metis
qed (use assms in \<open>simp add: handle_write_def\<close>)

lemma handle_recv_coherent:
  assumes "handle_recv cfg b now a p bs s = Some s'" "coherent cfg (chans_of s)" "server_ok cfg s" "sockets_ok cfg"
    and "list_all (\<lambda>b. b < 256) bs" "length bs \<le> GDO_REQ_SIZE"
  shows "coherent cfg (chans_of s')"
proof (cases "getRInfo (udp_desc cfg) s")
  case (Some k)
  from assms(1) Some assms(3,5,6) show ?thesis
  proof (cases rule: handle_recv_cases)
    case (1 f s1)
    then have "chans_of s1 = chans_of s" "read_fds s1 = read_fds s" "channels_ok s1"
      by (simp_all add: set_r_chans server_ok_def) (simp add: set_r_def)
    moreover have "udp_desc cfg \<in> read_fds s" using assms(2) by (simp add: coherent_def)
    ultimately show ?thesis
      using 1(5) assms(2,4) handle_request_coherent [of cfg b now "udp_desc cfg" s1 s']
      by (auto simp: sockets_ok_def)
  qed
qed (use assms in \<open>simp add: handle_recv_def\<close>)

lemma io_reachable_coherent: "io_reachable cfg s \<Longrightarrow> sockets_ok cfg \<Longrightarrow> coherent cfg (chans_of s)"
proof (induction rule: io_reachable.induct)
  case io_init
  then show ?case by (auto simp: init_state_def coherent_def chans_of_def sockets_ok_def)
next
  case (io_next s s')
  have ok: "server_ok cfg s" "channels_ok s"
    using io_reachable_ok [OF io_next(1)] by (simp_all add: server_ok_def)
  have co: "coherent cfg (chans_of s)" using io_next by blast
  from io_next(2) obtain ev b now where ev: "enabled cfg s ev" "handle_event cfg b now ev s = Some s'"
    by (rule io_stepE)
  show ?case
  proof (cases ev)
    case (Accept desc a p nb)
    then show ?thesis
      using ev handle_accept_coherent [of cfg desc a p nb s s'] co ok by (simp add: handle_event_def enabled_def)
  next
    case (Readable desc bs wb)
    then show ?thesis
      using ev handle_read_coherent [of cfg b now desc bs wb s s'] co ok io_next(4)
      by (simp add: handle_event_def enabled_def)
  next
    case (Writable desc r)
    then show ?thesis
      using ev handle_write_coherent [of cfg desc r s s'] co ok by (simp add: handle_event_def enabled_def)
  next
    case (Packet a p bs)
    then show ?thesis
      using ev handle_recv_coherent [of cfg b now a p bs s s'] co ok io_next(4)
      by (simp add: handle_event_def enabled_def)
  next
    case (Send r wb)
    then show ?thesis
      using ev co by (auto simp: handle_event_def handle_send_def queue_pop_def chans_of_def Let_def split: list.splits)
  next
    case Timeout
    then show ?thesis
      using ev co by (auto simp: handle_event_def handle_timeout_def prb_tim_def chans_of_def Let_def split: if_splits)
  qed
qed

end
