(* ===== verification/Gdo_Trace.thy ===== *)
theory Gdo_Trace
  imports Gdo_Requests
begin

text \<open>
  Packets as the client writes them and the server reads them back, and runs of the name
  server over a list of events, evaluated on a host with one network interface.
\<close>

section \<open>Packets\<close>

lemma be_value_append: "be_value (xs @ [x]) = be_value xs * 256 + x"
  by (simp add: be_value_def)

lemma be_value_be32: "n < 2 ^ 32 \<Longrightarrow> be_value (be32 n) = n"
proof -
  assume n: "n < 2 ^ 32"
  have "n div 2 ^ 24 < 256" using n by (simp add: less_mult_imp_div_less)
  then have "be_value (be32 n) = ((n div 2 ^ 24 * 256 + n div 2 ^ 16 mod 256) * 256 + n div 2 ^ 8 mod 256) * 256 + n mod 256"
    by (simp add: be_value_def be32_def)
  also have "n div 2 ^ 24 * 256 + n div 2 ^ 16 mod 256 = n div 2 ^ 16"
    using div_mult_mod_eq [of "n div 2 ^ 16" 256] by (simp add: div_mult2_eq [symmetric])
  also have "n div 2 ^ 16 * 256 + n div 2 ^ 8 mod 256 = n div 2 ^ 8"
    using div_mult_mod_eq [of "n div 2 ^ 8" 256] by (simp add: div_mult2_eq [symmetric])
  finally show ?thesis using div_mult_mod_eq [of n 256] by simp
qed

lemma length_be32 [simp]: "length (be32 n) = 4"
  by (simp add: be32_def)

lemma length_packet: "length nm \<le> 256 \<Longrightarrow> length (packet r n t p nm) = GDO_REQ_SIZE"
  by (simp add: packet_def)

lemma packet_request:
  assumes "p < 2 ^ 32"
  shows "request_of (packet r n t p nm) =
    \<lparr>rtype = r, nsize = n, ptype = t, rport = p, rname = nm @ replicate (256 - length nm) 0\<rparr>"
proof -
  let ?rest = "nm @ replicate (256 - length nm) 0"
  have split: "packet r n t p nm = r # n # t # 0 # be32 p @ ?rest" by (simp add: packet_def)
  have d4: "drop 4 (packet r n t p nm) = be32 p @ ?rest" by (simp add: split)
  have "drop 8 (packet r n t p nm) = drop 4 (drop 4 (packet r n t p nm))" by simp
  then have d8: "drop 8 (packet r n t p nm) = ?rest" by (simp only: d4) simp
  have "packet r n t p nm ! 0 = r" "packet r n t p nm ! 1 = n" "packet r n t p nm ! 2 = t" by (simp_all add: split)
  then show ?thesis
    using be_value_be32 [OF assms] by (simp add: request_of_def d4 d8)
qed

lemma packet_bytes:
  "r < 256 \<Longrightarrow> n < 256 \<Longrightarrow> t < 256 \<Longrightarrow> list_all (\<lambda>b. b < 256) nm \<Longrightarrow> list_all (\<lambda>b. b < 256) (packet r n t p nm)"
  by (auto simp: packet_def be32_def list_all_iff)

lemma take_packet: "length nm \<le> 256 \<Longrightarrow> take GDO_REQ_SIZE (packet r n t p nm) = packet r n t p nm"
  by (simp add: length_packet)

section \<open>Runs\<close>

fun run_events :: "gdo_config \<Rightarrow> os_bind \<Rightarrow> int \<Rightarrow> event list \<Rightarrow> gdomap \<Rightarrow> gdomap option" where
  "run_events cfg b now [] s = Some s"
| "run_events cfg b now (ev # evs) s =
     (if enabled cfg s ev then do { s' \<leftarrow> handle_event cfg b now ev s; run_events cfg b now evs s' } else None)"

lemma run_events_reachable:
  "io_reachable cfg s \<Longrightarrow> run_events cfg b now evs s = Some s' \<Longrightarrow> io_reachable cfg s'"
proof (induction evs arbitrary: s)
  case (Cons ev evs)
  then obtain t where t: "enabled cfg s ev" "handle_event cfg b now ev s = Some t" "run_events cfg b now evs t = Some s'"
    by (auto simp: bind_eq_Some_conv split: if_splits)
  from io_next [OF Cons.prems(1) io_event [OF t(1,2)]] show ?case by (rule Cons.IH) (rule t(3))
qed simp

text \<open>A host 10.0.0.1 of the network 10.0.0.0/8, started with probing disabled.\<close>

definition home :: gdo_config where
  "home = \<lparr>interfaces = [\<lparr>i_addr = 0x0A000001, i_mask = 0xFF000000, i_bcok = True, i_bcst = 0x0AFFFFFF\<rparr>],
     plist = [], my_port = 538, tcp_desc = 3, udp_desc = 4, noprobe = True, interval = 600\<rparr>"

lemma home_reachable: "io_reachable home (init_state home)"
  using io_init [of home 0] by (simp add: init_probe_def home_def)

abbreviation home_addr :: in_addr where "home_addr \<equiv> 0x0A000001"
abbreviation away_addr :: in_addr where "away_addr \<equiv> 0x0A000002"

lemma empty_map:
  "map_by_name n [] = Some None" "lookup b [] n t = Some ([], 0)"
  "register b [] n p t = Some (if p = 0 then ([], 0) else (map_add n p t [], p))"
  by (simp_all add: register_def lookup_def map_by_name_def name_search.simps)

lemmas run_eval =
  home_def init_state_def enabled_def handle_event_def handle_accept_def getRInfo_make_def getRInfo_def set_r_def
  handle_read_def Let_def handle_request_def getWInfo_make_def getWInfo_def set_w_def null_WInfo_def
  request_ok_def legal_ptype_def new_reply_def malloc_def answer_def put_reply_def handle_write_def
  clear_chan_def free_buf_def delWInfo_def delRInfo_def copy_cells_def is_local_host_def
  take_packet length_packet packet_request packet_bytes empty_map

end
