(* ===== verification/Gdo_Props.thy ===== *)
theory Gdo_Props
  imports Gdo_Channels Gdo_Trace
begin

text \<open>
  What the name server promises: every request that reaches it over TCP is answered as the
  directory says, only local programs change the directory, and what is in the tables stays
  legal; with the places where the code falls short of it.
\<close>

section \<open>Answers\<close>

lemma getWInfo_make_some:
  assumes "getWInfo_make desc s = (s', i)" "wcount s \<le> length (winfo s)"
  shows "getWInfo desc s' = Some i \<and> i < length (winfo s')"
proof (cases "getWInfo desc s")
  case None
  have i: "i = wcount s" and w: "wcount s' = wcount s + 1"
    using assms None by (auto simp: getWInfo_make_def Let_def)
  have "take (wcount s) (winfo s') = take (wcount s) (winfo s)"
    "wcount s < length (winfo s')" "w_s (winfo s' ! wcount s) = desc"
    using assms None by (auto simp: getWInfo_make_def Let_def nth_append)
  moreover have "index_where P (xs @ [x]) = Some (length xs)"
    if "index_where P xs = None" "P x" for P and x :: WInfo and xs
    using that by (induction xs) (auto split: if_splits)
  ultimately show ?thesis
    using None assms(2) i w by (simp add: getWInfo_def take_Suc_conv_app_nth)
next
  case (Some j)
  then show ?thesis
    using assms index_where_some [of "\<lambda>w. w_s w = desc" "take (wcount s) (winfo s)" j]
    by (auto simp: getWInfo_make_def getWInfo_def)
qed

lemma index_where_same: "map f xs = map f ys \<Longrightarrow> index_where (\<lambda>x. f x = a) xs = index_where (\<lambda>x. f x = a) ys"
proof (induction xs arbitrary: ys)
  case (Cons x xs)
  then obtain y zs where "ys = y # zs" "f x = f y" "map f xs = map f zs" by (cases ys) auto
  then show ?case using Cons.IH [of zs] by simp
qed simp

lemma set_w_getWInfo:
  assumes "w_s (f (winfo s ! i)) = w_s (winfo s ! i)"
  shows "getWInfo desc (set_w i f s) = getWInfo desc s"
proof -
  have "map w_s (take n (winfo (set_w i f s))) = map w_s (take n (winfo s))" for n
    using map_update_same [of w_s f "winfo s" i, OF assms] by (simp add: set_w_def flip: take_map)
  from index_where_same [OF this] show ?thesis by (simp add: getWInfo_def gdo_frame)
qed

lemma new_reply_getWInfo: "getWInfo desc (new_reply i bs s) = getWInfo desc s"
proof -
  have "getWInfo desc (snd (malloc bs s)) = getWInfo desc s"
    by (simp add: malloc_def getWInfo_def)
  then show ?thesis
    by (simp add: new_reply_def malloc_def set_w_getWInfo)
qed

lemma put_reply_getWInfo: "getWInfo desc (put_reply i bs s) = getWInfo desc s"
  by (simp add: put_reply_def getWInfo_def)

lemma new_reply_slot:
  "i < length (winfo s) \<Longrightarrow> winfo (new_reply i bs s) ! i = (winfo s ! i)\<lparr>w_buf := brk s + 1, w_len := length bs\<rparr>"
  by (simp add: new_reply_def malloc_def set_w_def)

text \<open>The effect of a request on the directory, and the port that answers it.\<close>

definition request_spec :: "os_bind \<Rightarrow> gdo_req \<Rightarrow> directory \<Rightarrow> directory \<times> nat" where
  "request_spec b req d =
     (let n = take (nsize req) (rname req)
      in if rtype req = GDO_REGISTER then register_spec b d n (rport req) (ptype req)
         else if rtype req = GDO_LOOKUP then lookup_spec b d n (ptype req)
         else unregister_spec d n (rport req) (ptype req))"

lemma answer_refines:
  assumes "rtype req \<in> {GDO_REGISTER, GDO_LOOKUP, GDO_UNREG}" "legal_ptype (ptype req)"
    and "is_local_host cfg (r_addr ri)" "sorted_map (gmap s)"
  shows "\<exists>m r. answer cfg b now desc ri req i s = Some (True, put_reply i (be32 r) (s\<lparr>gmap := m\<rparr>)) \<and>
    (directory m, r) = request_spec b req (directory (gmap s))"
proof -
  let ?n = "take (nsize req) (rname req)"
  consider "rtype req = GDO_REGISTER" | "rtype req = GDO_LOOKUP" | "rtype req = GDO_UNREG"
    using assms(1) by blast
  then show ?thesis
  proof cases
    case 1
    obtain m r where "register b (gmap s) ?n (rport req) (ptype req) = Some (m, r)"
      "(directory m, r) = register_spec b (directory (gmap s)) ?n (rport req) (ptype req)"
      using register_refines [OF assms(4,2), of b ?n "rport req"] by auto
    then show ?thesis
      using 1 assms(3) by (intro exI [of _ m] exI [of _ r]) (simp add: answer_def Let_def request_spec_def)
  next
    case 2
    obtain m r where "lookup b (gmap s) ?n (ptype req) = Some (m, r)"
      "(directory m, r) = lookup_spec b (directory (gmap s)) ?n (ptype req)"
      using lookup_refines [OF assms(4), of b ?n "ptype req"] by auto
    then show ?thesis
      using 2 assms(3) by (intro exI [of _ m] exI [of _ r]) (simp add: answer_def Let_def request_spec_def)
  next
    case 3
    obtain m r where "unregister (gmap s) ?n (rport req) (ptype req) = Some (m, r)"
      "(directory m, r) = unregister_spec (directory (gmap s)) ?n (rport req) (ptype req)"
      using unregister_refines [OF assms(4), of ?n "rport req" "ptype req"] by auto
    then show ?thesis
      using 3 assms(3) by (intro exI [of _ m] exI [of _ r]) (simp add: answer_def Let_def request_spec_def)
  qed
qed

lemma handle_request_refines:
  assumes "server_ok cfg s" "getRInfo desc s = Some k" "ri = rinfo s ! k" "req = request_of (r_buf ri)"
    and "desc \<noteq> udp_desc cfg" "is_local_host cfg (r_addr ri)"
    and "legal_ptype (ptype req)" "rtype req \<in> {GDO_REGISTER, GDO_LOOKUP, GDO_UNREG}"
  shows "\<exists>s' i wi r. handle_request cfg b now desc s = Some s' \<and>
    (directory (gmap s'), r) = request_spec b req (directory (gmap s)) \<and>
    getWInfo desc s' = Some i \<and> wi = winfo s' ! i \<and> w_pos wi = 0 \<and> w_len wi = 4 \<and>
    heap s' (w_buf wi) = Some (be32 r) \<and> desc \<in> write_fds s' \<and> desc \<notin> read_fds s'"
proof -
  have ok: "sorted_map (gmap s)" "wcount s \<le> length (winfo s)"
    using assms(1) by (auto simp: server_ok_def map_ok_def channels_ok_def)
  define s1 where "s1 = s\<lparr>read_fds := read_fds s - {desc}, write_fds := insert desc (write_fds s)\<rparr>"
  obtain s2 i where s2: "getWInfo_make desc s1 = (s2, i)" by (cases "getWInfo_make desc s1")
  define s3 where "s3 = set_w i (\<lambda>w. w\<lparr>w_pos := 0\<rparr>) s2"
  define s4 where "s4 = new_reply i [0, 0, 0, 0] s3"
  have "wcount s1 \<le> length (winfo s1)" using ok(2) by (simp add: s1_def)
  from getWInfo_make_some [OF s2 this] getWInfo_make_frame [OF s2 this]
  have i: "getWInfo desc s2 = Some i" "i < length (winfo s2)" "gmap s2 = gmap s"
    by (simp_all add: s1_def)
  have fds: "read_fds s2 = read_fds s - {desc}" "write_fds s2 = insert desc (write_fds s)"
    using s2 by (auto simp: getWInfo_make_def Let_def s1_def split: option.splits)
  have i4: "getWInfo desc s4 = Some i" "i < length (winfo s4)" "gmap s4 = gmap s"
      "winfo s4 ! i = (winfo s3 ! i)\<lparr>w_buf := brk s3 + 1, w_len := 4\<rparr>"
    using i by (simp_all add: s4_def s3_def gdo_frame new_reply_getWInfo set_w_getWInfo new_reply_slot)
  have fds4: "read_fds s4 = read_fds s - {desc}" "write_fds s4 = insert desc (write_fds s)"
    using fds by (simp_all add: s4_def s3_def new_reply_def malloc_def set_w_def)
  have pos: "w_pos (winfo s3 ! i) = 0" using i(2) by (simp add: s3_def set_w_def)
  obtain m r where answer: "answer cfg b now desc ri req i s4 = Some (True, put_reply i (be32 r) (s4\<lparr>gmap := m\<rparr>))"
      "(directory m, r) = request_spec b req (directory (gmap s))"
    using answer_refines [OF assms(8,7,6), of s4 b now desc i] i4(3) ok(1) by auto
  have "handle_request cfg b now desc s = Some (put_reply i (be32 r) (s4\<lparr>gmap := m\<rparr>))"
    using assms(2-5,7) s2 answer(1)
    by (simp add: handle_request_def s1_def [symmetric] s3_def [symmetric] s4_def [symmetric] request_ok_def)
  moreover have "getWInfo desc (s4\<lparr>gmap := m\<rparr>) = Some i"
    using i4(1) by (simp add: getWInfo_def)
  ultimately show ?thesis
    using answer(2) i4 pos fds4 by (auto simp: put_reply_def getWInfo_def)
qed

text \<open>The same for a request whose last bytes come in over TCP.\<close>

lemma request_over_tcp:
  assumes "io_reachable cfg s" "getRInfo desc s = Some k" "ri = rinfo s ! k" "desc \<noteq> udp_desc cfg"
    and "buf = take (r_pos ri) (r_buf ri) @ take (GDO_REQ_SIZE - r_pos ri) bs" "length buf = GDO_REQ_SIZE"
    and "is_local_host cfg (r_addr ri)" "req = request_of buf"
    and "legal_ptype (ptype req)" "rtype req \<in> {GDO_REGISTER, GDO_LOOKUP, GDO_UNREG}"
    and "list_all (\<lambda>b. b < 256) bs"
  shows "\<exists>s' i wi r. handle_event cfg b now (Readable desc bs wb) s = Some s' \<and>
    (directory (gmap s'), r) = request_spec b req (directory (gmap s)) \<and>
    getWInfo desc s' = Some i \<and> wi = winfo s' ! i \<and> w_pos wi = 0 \<and> w_len wi = 4 \<and>
    heap s' (w_buf wi) = Some (be32 r) \<and> desc \<in> write_fds s' \<and> desc \<notin> read_fds s'"
proof -
  have ok: "server_ok cfg s" using assms(1) by (rule io_reachable_ok)
  have k: "k < length (rinfo s)" using getRInfo_some [OF assms(2)] by simp
  then have "r_pos ri \<le> length (r_buf ri)" "length (r_buf ri) \<le> GDO_REQ_SIZE" "list_all (\<lambda>b. b < 256) (r_buf ri)"
    using ok assms(3) by (auto simp: server_ok_def channels_ok_def list_all_iff)
  then have ri: "r_pos ri + length (take (GDO_REQ_SIZE - r_pos ri) bs) = GDO_REQ_SIZE" "length (r_buf ri) \<le> GDO_REQ_SIZE"
      "list_all (\<lambda>b. b < 256) buf"
    using assms(5,6,11) by (auto simp: list_all_iff dest: in_set_takeD)
  define s1 where "s1 = set_r k (\<lambda>r. r\<lparr>r_pos := GDO_REQ_SIZE, r_buf := buf\<rparr>) s"
  have "handle_event cfg b now (Readable desc bs wb) s = handle_request cfg b now desc s1"
    using assms(2,3) ri assms(5)
    by (simp add: handle_event_def handle_read_def Let_def s1_def)
  moreover have "server_ok cfg s1"
    using ok ri assms(6) unfolding s1_def by (intro set_r_ok) auto
  moreover have "getRInfo desc s1 = Some k" "rinfo s1 ! k = ri\<lparr>r_pos := GDO_REQ_SIZE, r_buf := buf\<rparr>" "gmap s1 = gmap s"
    using assms(2,3) k by (simp_all add: s1_def set_r_def getRInfo_def index_where_update)
  ultimately show ?thesis
    using handle_request_refines [of cfg s1 desc k "rinfo s1 ! k" req b now] assms(4,7-10) by simp
qed

text \<open>C3. When the last bytes of a REGISTER, LOOKUP or UNREG request of a legal type come in
  over TCP from a local program, in any reachable state, the request is answered: the handler
  does not fail, the map becomes that of the directory after the request, and the channel gets
  a four byte reply, of which nothing is written yet, with the port of the directory in
  network byte order.\<close>

theorem requests_refine_directory:
  assumes "io_reachable cfg s" "getRInfo desc s = Some k" "ri = rinfo s ! k" "desc \<noteq> udp_desc cfg"
    and "buf = take (r_pos ri) (r_buf ri) @ take (GDO_REQ_SIZE - r_pos ri) bs" "length buf = GDO_REQ_SIZE"
    and "is_local_host cfg (r_addr ri)" "req = request_of buf"
    and "legal_ptype (ptype req)" "rtype req \<in> {GDO_REGISTER, GDO_LOOKUP, GDO_UNREG}"
    and "list_all (\<lambda>b. b < 256) bs"
  shows "\<exists>s' i wi r. handle_event cfg b now (Readable desc bs wb) s = Some s' \<and>
    (directory (gmap s'), r) = request_spec b req (directory (gmap s)) \<and>
    getWInfo desc s' = Some i \<and> wi = winfo s' ! i \<and> w_pos wi = 0 \<and> w_len wi = 4 \<and>
    heap s' (w_buf wi) = Some (be32 r) \<and> desc \<in> write_fds s' \<and> desc \<notin> read_fds s'"
  using assms by (rule request_over_tcp)

definition register_example :: bytes where
  "register_example = packet GDO_REGISTER 1 0x11 8080 [65]"

theorem requests_refine_directory_witness:
  "\<exists>s s' i. run_events home (\<lambda>_ _. False) 0 [Accept 5 home_addr 2000 True] (init_state home) = Some s \<and>
    handle_event home (\<lambda>_ _. False) 0 (Readable 5 register_example True) s = Some s' \<and>
    directory (gmap s') = [[65] \<mapsto> (8080, 0x11)] \<and>
    getWInfo 5 s' = Some i \<and> heap s' (w_buf (winfo s' ! i)) = Some [0, 0, 31, 144]"
proof -
  let ?ri = "\<lparr>r_s = 5, r_addr = home_addr, r_sport = 2000, r_pos = 0, r_buf = []\<rparr>"
  obtain s where run: "run_events home (\<lambda>_ _. False) 0 [Accept 5 home_addr 2000 True] (init_state home) = Some s"
    and s: "getRInfo 5 s = Some 2" "rinfo s ! 2 = ?ri" "gmap s = []"
    by (simp add: run_eval)
  have "request_spec (\<lambda>_ _. False) (request_of register_example) (directory (gmap s)) = ([[65] \<mapsto> (8080, 0x11)], 8080)"
    using s(3) by (simp add: request_spec_def register_spec_def directory_def register_example_def packet_request)
  moreover have "be32 8080 = [0, 0, 31, 144]" by (simp add: be32_def)
  ultimately show ?thesis
    using run requests_refine_directory [OF run_events_reachable [OF home_reachable run] s(1) s(2) [symmetric],
        of register_example register_example "request_of register_example" "\<lambda>_ _. False" 0 True]
    by (auto simp: register_example_def length_packet packet_request packet_bytes take_packet legal_ptype_def
        home_def is_local_host_def)
qed

section \<open>Invariants\<close>

lemma tables_ok: "io_reachable cfg s \<Longrightarrow> list_all entry_ok (gmap s)"
  using io_reachable_ok by (auto simp: server_ok_def map_ok_def)

text \<open>C14. In every reachable state the names of the map are in the order the search relies
  on, with no name twice, each of fewer than 256 bytes and of a legal type; each known server
  is listed once, is not this host, and is on a local network or in the configuration.\<close>

theorem tables_invariant:
  assumes "io_reachable cfg s"
  shows "sorted_wrt (\<lambda>e e'. compare (e_name e) (e_name e') < 0) (gmap s) \<and> distinct (map e_name (gmap s)) \<and>
    list_all (\<lambda>e. length (e_name e) < 256 \<and> legal_ptype (e_type e)) (gmap s) \<and>
    distinct (map p_sin (prb s)) \<and>
    list_all (\<lambda>p. \<not> is_local_host cfg (p_sin p) \<and>
      (is_local_net cfg (p_sin p) \<or> is_probe_host cfg (p_sin p))) (prb s)"
proof -
  have "map_ok (gmap s)" "servers_ok cfg (prb s)"
    using io_reachable_ok [OF assms] by (simp_all add: server_ok_def)
  moreover from this(1) have "distinct (map e_name (gmap s))"
    by (simp add: map_ok_def sorted_map_distinct)
  ultimately show ?thesis
    by (auto simp: map_ok_def sorted_map_def sorted_wrt_map entry_ok_def servers_ok_def list_all_iff)
qed

theorem tables_invariant_witness:
  "\<exists>s. run_events home (\<lambda>_ _. False) 0 [Accept 5 home_addr 2000 True, Readable 5 register_example True]
      (init_state home) = Some s \<and>
    map e_name (gmap s) = [[65]] \<and> list_all (\<lambda>e. legal_ptype (e_type e)) (gmap s)"
proof -
  obtain s where run: "run_events home (\<lambda>_ _. False) 0 [Accept 5 home_addr 2000 True, Readable 5 register_example True]
      (init_state home) = Some s" and s: "map e_name (gmap s) = [[65]]"
    by (simp add: run_eval register_example_def map_add_def)
  show ?thesis
    using run s tables_invariant [OF run_events_reachable [OF home_reachable run]] by (auto simp: list_all_iff)
qed

text \<open>C5. In every reachable state the two sockets of the server are being read, every other
  open channel is being read or written but not both and has one record of its request, and
  the channels being written are those with a reply record, beside that of the UDP socket:
  no handler is ever called for a channel without the record it needs.\<close>

theorem channels_coherent:
  assumes "io_reachable cfg s" "sockets_ok cfg"
  shows "{tcp_desc cfg, udp_desc cfg} \<subseteq> read_fds s \<and> read_fds s \<inter> write_fds s = {} \<and>
    distinct (map r_s (rinfo s)) \<and> set (map r_s (rinfo s)) = read_fds s \<union> write_fds s \<and>
    distinct (map w_s (take (wcount s) (winfo s))) \<and>
    set (map w_s (take (wcount s) (winfo s))) - {udp_desc cfg} = write_fds s \<and>
    (\<forall>desc \<in> read_fds s. getRInfo desc s \<noteq> None) \<and>
    (\<forall>desc \<in> write_fds s. getWInfo desc s \<noteq> None)"
  using io_reachable_coherent [OF assms]
  by (auto simp: coherent_def getRInfo_def getWInfo_def index_where_absent)

theorem channels_coherent_witness:
  "\<exists>s. run_events home (\<lambda>_ _. False) 0 [Accept 5 home_addr 2000 True, Readable 5 register_example True]
      (init_state home) = Some s \<and>
    5 \<in> write_fds s \<and> 5 \<notin> read_fds s \<and> getWInfo 5 s \<noteq> None"
proof -
  obtain s where run: "run_events home (\<lambda>_ _. False) 0 [Accept 5 home_addr 2000 True, Readable 5 register_example True]
      (init_state home) = Some s" and s: "5 \<in> write_fds s"
    by (simp add: run_eval register_example_def)
  have "sockets_ok home" by (simp add: sockets_ok_def home_def)
  note channels = channels_coherent [OF run_events_reachable [OF home_reachable run] this]
  have "read_fds s \<inter> write_fds s = {}" using channels by (elim conjE)
  moreover have "\<forall>desc \<in> write_fds s. getWInfo desc s \<noteq> None" using channels by (elim conjE)
  ultimately have "5 \<notin> read_fds s" "getWInfo 5 s \<noteq> None" using s by auto
  then show ?thesis using run s by (intro exI [of _ s] conjI)
qed

section \<open>Who changes the map\<close>

text \<open>A map with fewer entries, those that are gone having a port that could be bound.\<close>

definition shrinks :: "os_bind \<Rightarrow> map_ent list \<Rightarrow> map_ent list \<Rightarrow> bool" where
  "shrinks b m m' \<longleftrightarrow> set m' \<subseteq> set m \<and>
     (\<forall>e \<in> set m - set m'. b (e_type e AND GDO_NET_MASK) (port16 (e_port e)))"

lemma shrinks_refl [simp]: "shrinks b m m"
  by (simp add: shrinks_def)

lemma map_del_removes: "i < length m \<Longrightarrow> set m - set (map_del i m) \<subseteq> {m ! i}"
  using id_take_nth_drop [of i m] by (auto simp: map_del_def dest!: equalityD1 [OF arg_cong [where f = set]])

lemma lookup_shrinks:
  assumes "sorted_map m" "lookup b m n t = Some (m', r)"
  shows "shrinks b m m'"
  using assms(1)
proof (cases rule: map_by_name_cases [of m n])
  case (found i)
  then show ?thesis
    using assms map_del_removes [of i m] map_del_subset [of i m]
    by (auto simp: lookup_def shrinks_def split: if_splits)
qed (use assms in \<open>simp add: lookup_def\<close>)

lemma answer_shrinks:
  assumes "answer cfg b now desc ri req i s = Some (keep, s')" "sorted_map (gmap s)"
    and "\<not> is_local_host cfg (r_addr ri)"
  shows "shrinks b (gmap s) (gmap s')"
  using assms(1)
proof (cases rule: answer_cases)
  case (2 bs m r)
  then show ?thesis using lookup_shrinks [OF assms(2)] assms(3) by (auto simp: gdo_frame)
next
  case (3 bs t)
  then show ?thesis using replace_reply_frame [OF 3(2)] by (auto simp: add_servers_def)
next
  case (4 bs t d f e n)
  then show ?thesis
    using replace_reply_frame [OF 4(1)] queue_probes_frame [of cfg d f e n True t] by (simp add: add_servers_def)
qed (simp_all add: gdo_frame add_servers_def)

lemma handle_request_shrinks:
  assumes "handle_request cfg b now desc s = Some s'" "server_ok cfg s"
    and "getRInfo desc s = Some k" "\<not> is_local_host cfg (r_addr (rinfo s ! k))"
  shows "shrinks b (gmap s) (gmap s')"
proof -
  define ri req where "ri = rinfo s ! k" and "req = request_of (r_buf ri)"
  define s1 where "s1 = s\<lparr>read_fds := read_fds s - {desc}, write_fds := insert desc (write_fds s)\<rparr>"
  obtain s2 i where s2: "getWInfo_make desc s1 = (s2, i)" by (cases "getWInfo_make desc s1")
  define s3 where "s3 = set_w i (\<lambda>w. w\<lparr>w_pos := 0\<rparr>) s2"
  have w1: "wcount s1 \<le> length (winfo s1)" and ok1: "channels_ok s1" and m: "sorted_map (gmap s)"
    using assms(2) by (auto simp: s1_def server_ok_def channels_ok_def map_ok_def)
  have s3: "gmap s3 = gmap s" "channels_ok s3"
    using getWInfo_make_frame [OF s2 w1] ok1 by (simp_all add: s3_def gdo_frame s1_def channels_ok_def)
  show ?thesis
  proof (cases "request_ok req")
    case False
    then have "clear_chan cfg desc s3 = Some s'"
      using assms(1,3) s2
      by (simp add: handle_request_def ri_def [symmetric] req_def [symmetric] s1_def [symmetric] s3_def [symmetric])
    then show ?thesis using clear_chan_frame [OF _ s3(2)] s3(1) by simp
  next
    case True
    then obtain keep s4 where s4: "answer cfg b now desc ri req i (new_reply i [0, 0, 0, 0] s3) = Some (keep, s4)"
      "(if \<not> keep then clear_chan cfg desc s4
        else if desc = udp_desc cfg
        then do {
          bs \<leftarrow> heap s4 (w_buf (winfo s4 ! i));
          clear_chan cfg desc (queue_msg (r_addr ri) (r_sport ri) bs s4)
        }
        else Some s4) = Some s'"
      using assms(1,3) s2
      by (auto simp: handle_request_def ri_def [symmetric] req_def [symmetric] s1_def [symmetric] s3_def [symmetric]
          bind_eq_Some_conv)
    have "shrinks b (gmap s) (gmap s4)"
      using answer_shrinks [OF s4(1)] m s3(1) assms(4) by (simp add: gdo_frame ri_def)
    moreover have "channels_ok s4"
      using answer_chans [OF s4(1)] answer_rinfo [OF s4(1)] s3(2) by (simp add: channels_ok_def gdo_frame)
    then have "gmap t = gmap s4" if "clear_chan cfg desc (queue_msg a p bs s4) = Some t" for a p bs t
      using clear_chan_frame [OF that] by (simp add: queue_msg_def channels_ok_def)
    moreover have "gmap t = gmap s4" if "clear_chan cfg desc s4 = Some t" for t
      using clear_chan_frame [OF that] \<open>channels_ok s4\<close> by simp
    moreover have "s' = s4 \<or> clear_chan cfg desc s4 = Some s' \<or>
        (\<exists>bs. clear_chan cfg desc (queue_msg (r_addr ri) (r_sport ri) bs s4) = Some s')"
      using s4(2) by (cases keep; cases "desc = udp_desc cfg") (simp_all add: bind_eq_Some_conv, blast)
    ultimately show ?thesis by metis
  qed
qed

lemma handle_accept_gmap:
  assumes "handle_accept cfg desc a p nb s = Some s'" "server_ok cfg s"
  shows "gmap s' = gmap s"
proof -
  obtain s2 where s2: "handle_accept cfg desc a p True s = Some s2"
    by (cases "getRInfo_make desc (s\<lparr>read_fds := insert desc (read_fds s)\<rparr>)") (simp add: handle_accept_def Let_def)
  then have "gmap s2 = gmap s"
    by (auto simp: handle_accept_def Let_def set_r_def getRInfo_make_def split: option.splits prod.splits)
  moreover have "s' = s2 \<or> clear_chan cfg desc s2 = Some s'"
    using assms(1) s2 by (auto simp: handle_accept_def Let_def split: if_splits prod.splits)
  moreover have "channels_ok s2" using handle_accept_ok [OF s2 assms(2)] by (simp add: server_ok_def)
  ultimately show ?thesis using clear_chan_frame by auto
qed

lemma handle_write_gmap:
  assumes "handle_write cfg desc r s = Some s'" "channels_ok s"
  shows "gmap s' = gmap s"
proof -
  have "channels_ok (set_w i f s)" for i f using assms(2) by (simp add: channels_ok_def gdo_frame)
  then show ?thesis
    using assms clear_chan_frame by (auto simp: handle_write_def Let_def gdo_frame split: option.splits if_splits)
qed

lemma handle_read_shrinks:
  assumes "handle_read cfg b now desc bs wb s = Some s'" "server_ok cfg s" "list_all (\<lambda>b. b < 256) bs"
    and "\<And>k. getRInfo desc s = Some k \<Longrightarrow> \<not> is_local_host cfg (r_addr (rinfo s ! k))"
  shows "shrinks b (gmap s) (gmap s')"
proof (cases "getRInfo desc s")
  case (Some k)
  from assms(1) Some assms(2,3) show ?thesis
  proof (cases rule: handle_read_cases)
    case (1 f s1)
    then have "gmap s1 = gmap s" "channels_ok s1" by (simp_all add: server_ok_def) (simp add: set_r_def)
    then show ?thesis
      using 1 assms(4) [OF Some] set_r_getRInfo [OF Some, of f]
        handle_request_shrinks [of cfg b now desc s1 s' k] clear_chan_frame [of cfg desc s1 s'] by auto
  qed
qed (use assms in \<open>simp add: handle_read_def\<close>)

lemma handle_recv_shrinks:
  assumes "handle_recv cfg b now a p bs s = Some s'" "server_ok cfg s" "list_all (\<lambda>b. b < 256) bs"
    and "length bs \<le> GDO_REQ_SIZE"
  shows "shrinks b (gmap s) (gmap s')"
proof (cases "getRInfo (udp_desc cfg) s")
  case (Some k)
  from assms(1) Some assms(2-4) show ?thesis
  proof (cases rule: handle_recv_cases)
    case (1 f s1)
    then have "gmap s1 = gmap s" by (simp add: set_r_def)
    then show ?thesis
      using 1 set_r_getRInfo [OF Some, of f] handle_request_shrinks [of cfg b now "udp_desc cfg" s1 s' k] by auto
  qed
qed (use assms in \<open>simp add: handle_recv_def\<close>)

definition from_local_program :: "gdo_config \<Rightarrow> gdomap \<Rightarrow> event \<Rightarrow> bool" where
  "from_local_program cfg s ev \<longleftrightarrow>
     (\<exists>desc bs wb k. ev = Readable desc bs wb \<and> getRInfo desc s = Some k \<and> is_local_host cfg (r_addr (rinfo s ! k)))"

text \<open>C6. Unless it brings the last bytes of a request over a TCP channel that was accepted
  from this host, no event adds an entry to the map or alters one: the entries that remain
  are old ones, and those that are gone had a port that could be bound, so that their server
  was gone too.\<close>

theorem only_local_programs_register:
  assumes "io_reachable cfg s" "enabled cfg s ev" "handle_event cfg b now ev s = Some s'"
    and "\<not> from_local_program cfg s ev"
  shows "set (gmap s') \<subseteq> set (gmap s) \<and>
    (\<forall>e \<in> set (gmap s) - set (gmap s'). b (e_type e AND GDO_NET_MASK) (port16 (e_port e)))"
proof -
  have ok: "server_ok cfg s" "channels_ok s"
    using io_reachable_ok [OF assms(1)] by (simp_all add: server_ok_def)
  have "shrinks b (gmap s) (gmap s')"
  proof (cases ev)
    case (Accept desc a p nb)
    then show ?thesis using assms(3) handle_accept_gmap [OF _ ok(1)] by (auto simp: handle_event_def)
  next
    case (Readable desc bs wb)
    then show ?thesis
      using assms(2-4) handle_read_shrinks [OF _ ok(1)]
      by (auto simp: handle_event_def enabled_def from_local_program_def)
  next
    case (Writable desc r)
    then show ?thesis using assms(3) handle_write_gmap [OF _ ok(2)] by (auto simp: handle_event_def)
  next
    case (Packet a p bs)
    then show ?thesis using assms(2,3) handle_recv_shrinks [OF _ ok(1)] by (simp add: handle_event_def enabled_def)
  next
    case (Send r wb)
    then show ?thesis
      using assms(3) by (auto simp: handle_event_def handle_send_def queue_pop_def Let_def split: list.splits)
  next
    case Timeout
    then show ?thesis
      using assms(3) by (auto simp: handle_event_def handle_timeout_def prb_tim_def Let_def split: if_splits)
  qed
  then show ?thesis by (simp add: shrinks_def)
qed

theorem only_local_programs_register_witness:
  "\<exists>s s'. run_events home (\<lambda>_ _. True) 0 [Accept 5 away_addr 2000 True] (init_state home) = Some s \<and>
    handle_event home (\<lambda>_ _. True) 0 (Readable 5 register_example True) s = Some s' \<and> gmap s' = []"
proof -
  let ?ev = "Readable 5 register_example True"
  obtain s s' where run: "run_events home (\<lambda>_ _. True) 0 [Accept 5 away_addr 2000 True] (init_state home) = Some s"
    and s: "enabled home s ?ev" "handle_event home (\<lambda>_ _. True) 0 ?ev s = Some s'" "\<not> from_local_program home s ?ev"
      "gmap s = []"
    by (simp add: run_eval register_example_def from_local_program_def)
  from only_local_programs_register [OF run_events_reachable [OF home_reachable run] s(1-3)] run s(2,4) show ?thesis by auto
qed

section \<open>Errors\<close>

text \<open>C34. What registering can do to a name that is taken, by a server on port q of type t':
  whether the server is alive is tested for the protocol of the request and not for that of
  the server, so when port q is free for the protocol of the request the name is given to the
  new port, even if the old server is alive; the new port is not tested, so that port 0 gives
  the name an entry that cannot be used, with a reply that says it failed; and asking for port
  q with another type is answered as a success, though a lookup of that type finds nothing.\<close>

theorem registering_a_taken_name:
  assumes "sorted_map m" "i < length m" "n = e_name (m ! i)" "q = e_port (m ! i)" "t' = e_type (m ! i)"
    and "legal_ptype t"
  shows "(port \<noteq> q \<and> b (t AND GDO_NET_MASK) (port16 q) \<longrightarrow>
      (\<exists>m'. register b m n port t = Some (m', port) \<and> directory m' = (directory m)(n \<mapsto> (port, t)))) \<and>
    (t \<noteq> t' \<longrightarrow> register b m n q t = Some (m, q) \<and> lookup b m n t = Some (m, 0))"
proof -
  obtain j where j: "map_by_name n m = Some (Some j)" "j < length m" "e_name (m ! j) = n"
    using assms(1)
  proof (cases rule: map_by_name_cases [of m n])
    case absent
    then show thesis using assms(2,3) nth_mem [of i m] by (metis imageI)
  qed (use that in blast)
  then have "j = i"
    using sorted_map_distinct [OF assms(1)] assms(2,3) by (metis length_map nth_eq_iff_index_eq nth_map)
  then have found: "map_by_name n m = Some (Some i)" using j(1) by simp
  have d: "directory m n = Some (q, t')"
    using directory_nth [OF assms(1,2)] assms(3-5) by simp
  have "\<exists>m'. register b m n port t = Some (m', port) \<and> directory m' = (directory m)(n \<mapsto> (port, t))"
    if "port \<noteq> q" "b (t AND GDO_NET_MASK) (port16 q)"
    using register_refines [OF assms(1,6), of b n port] d that by (auto simp: register_spec_def)
  moreover have "register b m n q t = Some (m, q)" "t \<noteq> t' \<Longrightarrow> lookup b m n t = Some (m, 0)"
    using found assms(4,5) by (simp_all add: register_def lookup_def)
  ultimately show ?thesis by blast
qed

theorem registering_a_taken_name_witness:
  "let m = [\<lparr>e_name = [65], e_port = 8080, e_net = 0x10, e_svc = 0x01\<rparr>];
       b = (\<lambda>net p. net \<noteq> GDO_NET_TCP)
   in \<not> b GDO_NET_TCP 8080 \<and>
      (\<exists>m'. register b m [65] 0 0x21 = Some (m', 0) \<and> directory m' [65] = Some (0, 0x21)) \<and>
      lookup b m [65] 0x11 = Some (m, 8080) \<and> register b m [65] 8080 0x21 = Some (m, 8080) \<and>
      lookup b m [65] 0x21 = Some (m, 0)"
proof -
  let ?m = "[\<lparr>e_name = [65], e_port = 8080, e_net = 0x10, e_svc = 0x01\<rparr>]"
  let ?b = "\<lambda>(net :: nat) (p :: nat). net \<noteq> GDO_NET_TCP"
  have "map_by_name [65] ?m = Some (Some 0)"
    by (simp add: map_by_name_def name_search.simps compare_def)
  then have "lookup ?b ?m [65] 0x11 = Some (?m, 8080)"
    by (simp add: lookup_def e_type_def)
  then show ?thesis
    using registering_a_taken_name [where m = ?m and i = 0 and n = "[65]" and q = 8080 and t' = "0x11" and t = "0x21"
        and port = 0 and b = ?b]
    by (auto simp: sorted_map_def legal_ptype_def e_type_def)
qed

definition stale_reply :: "event list" where
  "stale_reply =
     [Accept 5 home_addr 2000 True, Accept 6 home_addr 2001 True,
      Readable 5 (packet GDO_LOOKUP 0 0x11 0 []) True, Readable 6 (packet GDO_LOOKUP 0 0x11 0 []) True,
      Writable 5 4, Accept 7 away_addr 2002 True, Readable 7 (packet GDO_LOOKUP 0 0 0 []) True]"

text \<open>C15. A reply can be freed while it is being written: when a channel is closed while a
  later one still has its reply record, the record is moved down but a copy of it stays behind
  the last one; the next channel to need a record gets that one, and when its request is
  refused for its type of port before it has a reply of its own, the copy is cleared and the
  buffer of the other channel is released, which that channel then reads and releases again.\<close>

theorem reply_freed_while_written:
  "\<exists>s i. run_events home b now stale_reply (init_state home) = Some s \<and> io_reachable home s \<and>
    6 \<in> write_fds s \<and> getWInfo 6 s = Some i \<and> w_len (winfo s ! i) = 4 \<and> w_pos (winfo s ! i) = 0 \<and>
    heap s (w_buf (winfo s ! i)) = None \<and>
    (\<forall>r. enabled home s (Writable 6 r) \<and> handle_event home b now (Writable 6 r) s = None)"
proof -
  obtain s where run: "run_events home b now stale_reply (init_state home) = Some s"
    and s: "6 \<in> write_fds s" "getWInfo 6 s = Some 0" "w_len (winfo s ! 0) = 4" "w_pos (winfo s ! 0) = 0"
      "heap s (w_buf (winfo s ! 0)) = None"
    by (simp add: run_eval stale_reply_def)
  have "\<forall>r. enabled home s (Writable 6 r) \<and> handle_event home b now (Writable 6 r) s = None"
    using s by (simp add: enabled_def handle_event_def handle_write_def home_def)
  then show ?thesis using run s run_events_reachable [OF home_reachable run] by blast
qed

end
