(* ===== verification/Gdo_Client.thy ===== *)
theory Gdo_Client
  imports Gdo_Props
begin

text \<open>
  The client side of \<^verbatim>\<open>Tools/gdomap.c\<close>: the packets \<^verbatim>\<open>tryHost\<close> writes, the replies it accepts,
  the operations of \<^verbatim>\<open>nameServer\<close> and the list of names that \<^verbatim>\<open>donames\<close> prints. A connection to
  a server is a function from the packet written to the bytes that can be read until the
  server closes; a server that cannot be contacted gives none. The server at the other end is
  the state machine of the handlers: \<open>exchange\<close> runs one connection on it.
\<close>

section \<open>A request to one host\<close>

text \<open>The length is an \<^verbatim>\<open>unsigned char\<close>, the port an \<^verbatim>\<open>unsigned short\<close>.\<close>

definition client_packet :: "nat \<Rightarrow> nat \<Rightarrow> bytes \<Rightarrow> nat \<Rightarrow> nat \<Rightarrow> bytes" where
  "client_packet op len nm t p = packet op len t (if op \<noteq> GDO_REGISTER then 0 else p) (take len nm)"

text \<open>The loop that counts the names of a list, from an offset on.\<close>

function count_names :: "bytes \<Rightarrow> nat \<Rightarrow> nat" where
  "count_names b i = (if i < length b then count_names b (i + 2 + b ! i) + 1 else 0)"
  by pat_completeness auto
termination
  by (relation "measure (\<lambda>(b, i). length b - i)") auto

declare count_names.simps [simp del]

definition tryRead :: "bytes \<Rightarrow> nat \<Rightarrow> bytes option" where
  "tryRead bs len = (if length bs < len then None else Some (take len bs))"

definition tryHost :: "nat \<Rightarrow> nat \<Rightarrow> bytes \<Rightarrow> nat \<Rightarrow> nat \<Rightarrow> (bytes \<Rightarrow> bytes) \<Rightarrow> (nat \<times> bytes) option" where
  "tryHost op len nm t p serve =
     do {
       let reply = serve (client_packet op len nm t p);
       head \<leftarrow> tryRead reply 4;
       let port = be_value head;
       (if port > 0xffff \<and> (op \<noteq> GDO_NAMES \<or> port > 10000000) then None
        else if op = GDO_SERVERS
        then map_option (Pair (port16 port)) (tryRead (drop 4 reply) (port * 4))
        else if op = GDO_NAMES
        then do {
          b \<leftarrow> tryRead (drop 4 reply) port;
          let n = count_names b 0;
          Some (port16 (if n AND 0xffff \<noteq> n then 0 else n), b)
        }
        else Some (port16 port, []))
     }"

section \<open>The operations\<close>

text \<open>The addresses of a list of servers, and the first of them that knows the name.\<close>

fun addresses :: "nat \<Rightarrow> bytes \<Rightarrow> in_addr list" where
  "addresses 0 b = []"
| "addresses (Suc n) b = be_value (take 4 b) # addresses n (drop 4 b)"



text \<open>The names that \<open>donames\<close> prints, each up to its first nul.\<close>

fun print_names :: "nat \<Rightarrow> bytes \<Rightarrow> bytes list" where
  "print_names 0 p = []"
| "print_names (Suc n) p = takeWhile (\<lambda>c. c \<noteq> 0) (take (p ! 0) (drop 2 p)) # print_names n (drop (2 + p ! 0) p)"

definition donames :: "(bytes \<Rightarrow> bytes) \<Rightarrow> bytes list option" where
  "donames serve = map_option (\<lambda>(num, b). print_names num b) (tryHost GDO_NAMES 0 [] 0 0 serve)"

text \<open>
  The servers that \<^verbatim>\<open>doservers\<close> prints, which it takes from the fourth byte of the buffer on;
  \<open>None\<close> stands for a read past the end of the buffer.
\<close>

definition doservers :: "(bytes \<Rightarrow> bytes) \<Rightarrow> in_addr list option" where
  "doservers serve =
     (case tryHost GDO_SERVERS 0 [] 0 0 serve of
        None \<Rightarrow> Some []
      | Some (num, b) \<Rightarrow>
          if num = 0 then Some []
          else if length b < 4 + num * 4 then None
          else Some (addresses num (drop 4 b)))"

section \<open>The list of names\<close>

definition names_body :: "map_ent list \<Rightarrow> bytes" where
  "names_body m = concat (map (\<lambda>e. [length (e_name e) mod 256, e_type e mod 256] @ e_name e) m)"

lemma names_body_simps [simp]:
  "names_body [] = []"
  "names_body (e # m) = (length (e_name e) mod 256) # (e_type e mod 256) # e_name e @ names_body m"
  by (simp_all add: names_body_def)

lemma length_names_body: "length (names_body m) = sum_list (map (\<lambda>e. 2 + length (e_name e)) m)"
  by (induction m) auto

lemma names_reply_body: "names_reply m = be32 (length (names_body m)) @ names_body m"
  by (simp only: names_reply_def length_names_body) (simp add: names_body_def)

lemma count_names_body:
  "list_all (\<lambda>e. length (e_name e) < 256) m \<Longrightarrow> count_names (pre @ names_body m) (length pre) = length m"
proof (induction m arbitrary: pre)
  case (Cons e m)
  let ?pre = "pre @ [length (e_name e) mod 256, e_type e mod 256] @ e_name e"
  have "count_names (?pre @ names_body m) (length ?pre) = length m"
    using Cons.IH [of ?pre] Cons.prems by simp
  moreover have split: "pre @ names_body (e # m) = ?pre @ names_body m" by simp
  moreover have "(pre @ names_body (e # m)) ! length pre = length (e_name e)"
    using Cons.prems by (simp add: nth_append)
  then have "count_names (pre @ names_body (e # m)) (length pre) =
      count_names (pre @ names_body (e # m)) (length pre + 2 + length (e_name e)) + 1"
    by (subst count_names.simps) (use split in simp)
  moreover have "length pre + 2 + length (e_name e) = length ?pre" by simp
  ultimately show ?case by (simp only: list.size)
qed (simp add: count_names.simps)

lemma print_names_body:
  "list_all (\<lambda>e. length (e_name e) < 256) m \<Longrightarrow>
    print_names (length m) (names_body m) = map (\<lambda>e. takeWhile (\<lambda>c. c \<noteq> 0) (e_name e)) m"
  by (induction m) auto

text \<open>What a server answers to a request for its names is read back by the client as the
  names of the map in order, each up to its first nul, for every map the server can have with
  at most 65535 names and ten million bytes.\<close>

theorem names_listed:
  assumes "io_reachable cfg s" "\<And>p. serve p = names_reply (gmap s)"
    and "length (gmap s) \<le> 0xffff" "sum_list (map (\<lambda>e. 2 + length (e_name e)) (gmap s)) \<le> 10000000"
  shows "donames serve = Some (map (\<lambda>e. takeWhile (\<lambda>c. c \<noteq> 0) (e_name e)) (gmap s))"
proof -
  have names: "list_all (\<lambda>e. length (e_name e) < 256) (gmap s)"
    using tables_ok [OF assms(1)] by (auto simp: list_all_iff entry_ok_def)
  have "count_names (names_body (gmap s)) 0 = length (gmap s)"
    using count_names_body [OF names, of "[]"] by simp
  moreover have "length (gmap s) AND 0xffff = length (gmap s)"
    using assms(3) take_bit_eq_mask [of 16 "length (gmap s)"] by (simp add: take_bit_nat_eq_self mask_eq_exp_minus_1)
  ultimately have "tryHost GDO_NAMES 0 [] 0 0 serve = Some (length (gmap s), names_body (gmap s))"
    using assms(2-4) length_names_body [of "gmap s"] be_value_be32 [of "length (names_body (gmap s))"]
    by (simp add: tryHost_def tryRead_def names_reply_body port16_def)
  then show ?thesis using print_names_body [OF names] by (simp add: donames_def)
qed

theorem names_listed_witness:
  "\<exists>s. run_events home (\<lambda>_ _. False) 0 [Accept 5 home_addr 2000 True, Readable 5 register_example True]
      (init_state home) = Some s \<and> donames (\<lambda>_. names_reply (gmap s)) = Some [[65]]"
proof -
  obtain s where run: "run_events home (\<lambda>_ _. False) 0 [Accept 5 home_addr 2000 True, Readable 5 register_example True]
      (init_state home) = Some s" and s: "gmap s = [\<lparr>e_name = [65], e_port = 8080, e_net = 0x11 AND GDO_NET_MASK,
        e_svc = 0x11 AND GDO_SVC_MASK\<rparr>]"
    by (simp add: run_eval register_example_def map_add_def)
  show ?thesis
    using run names_listed [OF run_events_reachable [OF home_reachable run], of "\<lambda>_. names_reply (gmap s)"] s by simp
qed

section \<open>A connection to the server of the model\<close>






section \<open>Registering and looking up\<close>







section \<open>The list of servers\<close>

lemma addresses_body:
  "list_all (\<lambda>a. a < 2 ^ 32) as \<Longrightarrow> addresses (length as) (concat (map be32 as)) = as"
  by (induction as) (simp_all add: be_value_be32)

text \<open>C37. What a server answers to a request for the servers it knows is read back as this
  host's address followed by the known servers, the last one heard of first, and exactly fills
  the buffer; \<^verbatim>\<open>doservers\<close> skips the first four bytes of the buffer as if they were a count, so
  that it always reads past its end.\<close>

theorem servers_listed:
  assumes "\<And>p. serve p = servers_reply a ps" "length ps < 0xffff" "list_all (\<lambda>a. a < 2 ^ 32) (a # map p_sin ps)"
  shows "(\<exists>b. tryHost GDO_SERVERS 0 [] t 0 serve = Some (length ps + 1, b) \<and>
      addresses (length ps + 1) b = a # rev (map p_sin ps)) \<and>
    doservers serve = None"
proof -
  let ?as = "a # rev (map p_sin ps)"
  have reply: "servers_reply a ps = be32 (length ?as) @ concat (map be32 ?as)"
    by (simp add: servers_reply_def rev_map o_def)
  have body: "length (concat (map be32 as)) = 4 * length as" for as by (induction as) simp_all
  have "length ?as < 2 ^ 32" using assms(2) by simp
  note head = be_value_be32 [OF this]
  have host: "tryHost GDO_SERVERS 0 [] t 0 serve = Some (length ?as, concat (map be32 ?as))" for t
    using assms(2) head body [of ?as]
    by (simp add: tryHost_def tryRead_def assms(1) reply port16_def del: list.map concat.simps length_Cons)
  have "list_all (\<lambda>a. a < 2 ^ 32) ?as" using assms(3) by (auto simp: list_all_iff)
  from addresses_body [OF this] have "addresses (length ps + 1) (concat (map be32 ?as)) = ?as" by simp
  moreover have "doservers serve = None"
    using host [of 0] body [of ?as] by (simp add: doservers_def del: list.map concat.simps)
  ultimately show ?thesis using host [of t] by (metis Suc_eq_plus1 length_Cons length_map length_rev)
qed

theorem servers_listed_witness:
  "doservers (\<lambda>_. servers_reply home_addr [\<lparr>p_sin = away_addr, p_when = 0\<rparr>]) = None"
  using servers_listed [of "\<lambda>_. servers_reply home_addr [\<lparr>p_sin = away_addr, p_when = 0\<rparr>]" home_addr
      "[\<lparr>p_sin = away_addr, p_when = 0\<rparr>]" 0]
  by simp

end
