(* ===== verification/Spec2Isabelle.thy ===== *)
theory Spec2Isabelle
  imports Min_Heap NS_Range Sort_Search Stable_Merge Tim_Merge Tim_Sort GSI_Array NS_Byte_Order GSI_Map_Props GSeq_Props GSeq_Marks Case_Mappings Enc_Props Gdo_Client
begin

text \<open>
  A verification library for the core of GNUstep Base: the containers, sorts and character
  routines the Foundation classes are built on, and the name server \<^verbatim>\<open>gdomap\<close> that
  distributed objects rely on. All paths below are relative to the source directory of the
  repository.

  \<^bold>\<open>How the parts interact.\<close> The mutable arrays and sets of the library keep their objects in
  growing arrays (\<^verbatim>\<open>GSIArray\<close>) and hash tables (\<^verbatim>\<open>GSIMap\<close>); the array classes sort with
  \<^verbatim>\<open>GSTimSort\<close>, the timers of a run loop wait in a \<^verbatim>\<open>GSMinHeap\<close>. Every one of them relies
  on the comparison function it is given, whose contract is the locale \<open>comparator_laws\<close> of
  \<open>Base_Prelude\<close>. Strings are compared and searched by \<^verbatim>\<open>GSeq.h\<close>, which normalises
  composite character sequences with the tables of \<^verbatim>\<open>Unicode.m\<close> and answers ranges
  (\<^verbatim>\<open>NSRange.h\<close>). Bytes become strings and strings bytes in the two conversion functions of
  \<^verbatim>\<open>Unicode.m\<close>. Distributed objects find each other through \<^verbatim>\<open>gdomap\<close>, whose packets are in
  network byte order (\<^verbatim>\<open>NSByteOrder.h\<close>).

  \<^bold>\<open>Conventions.\<close> An \<^verbatim>\<open>NSUInteger\<close> is a natural number and every operation that can leave the 64 bits
  is written with its wrap-around (\<open>uadd\<close>, \<open>usub\<close>, \<open>umul\<close>); narrower and signed integers are
  reduced by \<open>u32\<close>, \<open>sint32\<close> and \<open>sint64\<close>. The lemmas in \<open>bounds_simps\<close> drop the wrap-around
  where the operands fit. Characters are the numbers below 65536, bytes those below 256.
  Arrays are lists, and an access outside of one is an explicit failure wherever the code can
  make one. A loop whose end is not plain from the code is a \<open>partial_function\<close> in the option
  type, and that it returns is then a theorem; no definition takes fuel. Memory that may run out is a
  parameter.

  \<^bold>\<open>Theories.\<close>

  \<open>Base_Prelude\<close>: integers, comparison results
  (\<^verbatim>\<open>Headers/Foundation/NSObjCRuntime.h\<close>), the comparison contract, arrays.

  \<open>NS_Range\<close>: \<^verbatim>\<open>Headers/Foundation/NSRange.h\<close>. The range functions are the set operations on
  the positions of ranges that fit into 64 bits.

  \<open>Min_Heap\<close>: \<^verbatim>\<open>Source/Additions/GSMinHeap.m\<close>, all methods on the array of objects. Heap order
  is an invariant; taking out what was pushed sorts it. \<open>removeObject:\<close> may miss an equal object.

  \<open>Sort_Search\<close>, \<open>Stable_Merge\<close>, \<open>Tim_Merge\<close>, \<open>Tim_Sort\<close>: \<^verbatim>\<open>Source/GSTimSort.m\<close>, in that order
  its searches, the merge that serves as specification, the two merges inside the array with
  their buffer and galloping mode, and the run stack with the driver. The sort
  of a range returns, answers the stable sort of the range and leaves the rest alone. The model of the merges
  carries the whole state of the descriptor, minimal gallop and buffer included. A failed
  assertion, a full run stack and a run longer than the temporary buffer are failures (\<open>None\<close>);
  comparisons that raise exceptions and memory that runs out are not modelled here.

  \<open>GSI_Array\<close>: \<^verbatim>\<open>Headers/GNUstepBase/GSIArray.h\<close>. The state is the array with its
  capacities and the retains and releases it has made; an array owns its contents when the
  retains not released are exactly those of the items it holds.

  \<open>GSI_Map\<close> to \<open>GSI_Map_Props\<close>: \<^verbatim>\<open>Headers/GNUstepBase/GSIMap.h\<close>. \<open>GSI_Map\<close> has the code on
  an explicit heap of nodes, \<open>GSI_Map_Spec\<close> the multiset of pairs that
  a table stands for, \<open>GSI_Map_Rep\<close> the representation invariant and what each elementary
  step does to it, \<open>GSI_Map_Resize\<close>, \<open>GSI_Map_Add\<close> and \<open>GSI_Map_Enum\<close> the operations over many nodes;
  \<open>GSI_Map_Props\<close> states the properties and has the callbacks for integer keys
  (\<^verbatim>\<open>Source/NSCallBacks.m\<close>). Enumerations are described for tables of which no weak reference is
  gone. The configuration macros of the header (equality, hash, retain, release,
  weak keys and values) are a record of functions.

  \<open>NS_Byte_Order\<close>: \<^verbatim>\<open>Headers/Foundation/NSByteOrder.h\<close> for both kinds of host. The structure of
  sixteen bytes that stands for a 128-bit integer is a word of 128 bits.

  \<open>Unicode_Tables\<close>, \<open>Case_Tables\<close>, \<open>Case_Mappings\<close>: the tables of
  \<^verbatim>\<open>Source/Additions/unicode/decomp.h\<close>, \<^verbatim>\<open>cop.h\<close> and \<^verbatim>\<open>caseconv.h\<close>, entry by entry, and the
  case conversions of \<^verbatim>\<open>Source/Additions/Unicode.m\<close>.

  \<open>GSeq\<close>, \<open>GSeq_Order\<close>, \<open>GSeq_Tables\<close>, \<open>GSeq_Normal\<close>, \<open>GSeq_Search\<close>, \<open>GSeq_Props\<close>,
  \<open>GSeq_Compare\<close>, \<open>GSeq_Marks\<close>: \<^verbatim>\<open>Source/GSeq.h\<close>, its normalisation, comparison and searches for all
  kinds of strings and options, over the table searches of \<^verbatim>\<open>Unicode.m\<close>. \<open>GSeq_Order\<close> has both the
  order of marks the code establishes and that of the Unicode standard, against which
  \<open>GSeq_Props\<close> measures the comparison. What the routines need to
  know of the tables is the locale \<open>unicode_data\<close>, proved of the library's own tables.

  \<open>Enc_Tables\<close> to \<open>Enc_Props\<close>: \<^verbatim>\<open>GSToUnicode\<close> and \<^verbatim>\<open>GSFromUnicode\<close> of \<^verbatim>\<open>Source/Additions/Unicode.m\<close> for
  all encodings they handle themselves, with \<^verbatim>\<open>GSUnicode\<close> and \<^verbatim>\<open>GSPrivateCleanUnichars\<close>; the library is
  one built without \<^verbatim>\<open>iconv\<close>. \<open>Enc_Tables\<close> has the tables of \<^verbatim>\<open>unicode/latin2.h\<close>, \<^verbatim>\<open>latin9.h\<close>, \<^verbatim>\<open>cyrillic.h\<close>,
  \<^verbatim>\<open>nextstep.h\<close>, \<^verbatim>\<open>thai.h\<close> and \<^verbatim>\<open>gsm0338.h\<close>, \<open>Table_Checks\<close> and \<open>Enc_Charsets\<close> what is checked of them.
  \<open>Enc_Buffer\<close>, \<open>Enc_Decode\<close> and \<open>Enc_Encode\<close> are the code: the buffer a conversion writes to is a state (\<open>conv\<close>) with the
  cells that may really be written, so that leaving it is a value (\<open>Fault\<close>), and the arguments, options and the memory of the zone
  are a record (\<open>job\<close>). Each \<^verbatim>\<open>goto\<close> and each early return is a value of \<open>flow\<close>. The interface \<open>conversion_buffer\<close>
  (\<open>Enc_Writes\<close>) has what the buffer operations do for sources of at most \<open>2 ^ 26\<close> cells and callers' buffers of at most
  \<open>2 ^ 30\<close>, sizes for which no counter of 32 bits wraps around. \<open>Enc_Streams\<close>, \<open>Enc_Streams_Out\<close> and \<open>Enc_Search\<close> reduce the loops to functions on
  lists, \<open>Enc_Results\<close> and \<open>Enc_Answers\<close> the functions to those. \<open>Enc_Bits\<close> has the
  arithmetic of masks and byte orders. \<open>Enc_Utf8\<close> and \<open>Enc_Unicode\<close> show that the table of states decodes UTF-8 as the Unicode standard defines it and that
  the encoder is its inverse, \<open>Enc_Charset_Props\<close> the inverse tables of the byte encodings, \<open>Enc_Props\<close> the encodings that lose
  nothing, the safety of the buffers, and the inputs for which it fails.

  \<open>Gdo_Map\<close> to \<open>Gdo_Client\<close>: \<^verbatim>\<open>Tools/gdomap.c\<close>. \<open>Gdo_Map\<close> is the sorted map of names,
  \<open>Gdo_Server\<close> the known servers and the records of the channels, \<open>Gdo_Probe\<close> the probing of networks,
  \<open>Gdo_Requests\<close> the requests and the events of the main loop as a step function on the whole
  state. \<open>Gdo_Directory\<close> has the specification, a directory from names to ports, that the map
  refines; \<open>Gdo_Invariant\<close> and \<open>Gdo_Channels\<close> have the invariants of the tables and of the channels,
  \<open>Gdo_Trace\<close> runs over lists of events, \<open>Gdo_Props\<close> the properties of the server and
  \<open>Gdo_Client\<close> the client operations, registering and looking up against the server of the model.

  \<^bold>\<open>Not modelled.\<close> The Foundation classes themselves: they are Objective-C classes over run-time
  dispatch, reference counting and exceptions. Of the string classes only what \<^verbatim>\<open>GSeq.h\<close>
  holds. The conversions through \<^verbatim>\<open>iconv\<close>, network, file and process services, property lists, archives,
  URL loading and the tools other than \<^verbatim>\<open>gdomap\<close>; of \<^verbatim>\<open>gdomap\<close> finding the network
  interfaces, reading the configuration file, resolving host names, logging and starting as a daemon.
  \<^verbatim>\<open>Source/ObjectiveC2/runtime.c\<close> forwards to the run-time library of the compiler, and most of the
  public headers only declare classes. The time zone data of \<^verbatim>\<open>Source/tzdb.h\<close> are generated.
\<close>

end
